(* ===== verification/TT_Prelude.thy ===== *)
theory TT_Prelude
  imports
    Main
    "HOL-Library.Word"
    "HOL-Library.Multiset"
    "HOL-Library.List_Lexorder"
    "HOL-Library.Char_ord"
    "HOL-Library.Product_Lexorder"
    "HOL-Library.Option_ord"
begin

text \<open>
  Shared vocabulary of the development: Rust's unsigned machine integers as words, the
  saturating and checked operations of the standard library that the program uses, UTF-8
  strings as byte lists with \<^verbatim>\<open>str::trim\<close>, decimal rendering as done by
  \<^verbatim>\<open>format!\<close>, and the order-preserving deduplication of string lists. A \<^verbatim>\<open>usize\<close> that is the
  length of a vector or a capacity is a \<open>nat\<close>; a \<^verbatim>\<open>u64\<close> field is a \<open>64 word\<close>.
\<close>

named_theorems u64_arith "unsigned readings of the machine-integer operations"

section \<open>Machine integers\<close>

type_synonym u8 = "8 word"
type_synonym u32 = "32 word"
type_synonym u64 = "64 word"

abbreviation u64_max :: nat where
  "u64_max \<equiv> 18446744073709551615"

abbreviation u64_MAX :: u64 where
  "u64_MAX \<equiv> 18446744073709551615"

definition u64_sat_of_nat :: "nat \<Rightarrow> u64" where
  "u64_sat_of_nat n = (if n \<le> u64_max then of_nat n else u64_MAX)"

definition saturating_add :: "u64 \<Rightarrow> u64 \<Rightarrow> u64" where
  "saturating_add a b = (if unat a + unat b \<le> u64_max then a + b else u64_MAX)"

definition saturating_sub :: "'w::len word \<Rightarrow> 'w word \<Rightarrow> 'w word" where
  "saturating_sub a b = (if b \<le> a then a - b else 0)"

definition saturating_mul :: "u64 \<Rightarrow> u64 \<Rightarrow> u64" where
  "saturating_mul a b = (if unat a * unat b \<le> u64_max then a * b else u64_MAX)"

definition checked_div :: "u64 \<Rightarrow> u64 \<Rightarrow> u64 option" where
  "checked_div a b = (if b = 0 then None else Some (a div b))"

definition checked_sub :: "u64 \<Rightarrow> u64 \<Rightarrow> u64 option" where
  "checked_sub a b = (if b \<le> a then Some (a - b) else None)"

definition abs_diff :: "'w::len word \<Rightarrow> 'w word \<Rightarrow> 'w word" where
  "abs_diff a b = (if a < b then b - a else a - b)"

lemma unat_le_u64_max: "unat (a::u64) \<le> u64_max"
  using unsigned_less [of a, where 'a = nat] by simp

lemma unat_u8_le: "unat (w :: u8) \<le> 255"
  using unsigned_less [of w, where 'a = nat] by simp

lemma unat_u64_MAX [simp]: "unat u64_MAX = u64_max"
  by simp

lemma unat_u64_sat_of_nat [u64_arith]: "unat (u64_sat_of_nat n) = min n u64_max"
proof (cases "n \<le> u64_max")
  case True
  then have "n < 2 ^ LENGTH(64)" by simp
  then show ?thesis using True by (simp add: u64_sat_of_nat_def unat_of_nat)
qed (simp add: u64_sat_of_nat_def)

lemma unat_saturating_add [u64_arith]:
  "unat (saturating_add a b) = min (unat a + unat b) u64_max"
proof (cases "unat a + unat b \<le> u64_max")
  case True
  then have "unat a + unat b < 2 ^ LENGTH(64)" by simp
  then show ?thesis using True by (simp add: saturating_add_def unat_word_ariths)
qed (simp add: saturating_add_def)

lemma unat_saturating_mul [u64_arith]:
  "unat (saturating_mul a b) = min (unat a * unat b) u64_max"
proof (cases "unat a * unat b \<le> u64_max")
  case True
  then have "unat a * unat b < 2 ^ LENGTH(64)" by simp
  then show ?thesis using True by (simp add: saturating_mul_def unat_word_ariths)
qed (simp add: saturating_mul_def)

lemma unat_saturating_sub [u64_arith]: "unat (saturating_sub a b) = unat a - unat b"
  by (simp add: saturating_sub_def unat_sub word_le_nat_alt)

lemma unat_abs_diff [u64_arith]:
  "unat (abs_diff a b) = (if unat a < unat b then unat b - unat a else unat a - unat b)"
  by (auto simp: abs_diff_def unat_sub word_le_nat_alt word_less_nat_alt)

lemma abs_diff_self [simp]: "abs_diff a a = 0"
  by (simp add: abs_diff_def)

lemma abs_diff_commute: "abs_diff a b = abs_diff b a"
  by (auto simp: abs_diff_def)

lemma saturating_add_pos: "0 < saturating_add a 1"
  by (simp add: word_less_nat_alt u64_arith)

lemma saturating_add_ge: "a \<le> saturating_add a b"
  using unat_le_u64_max [of a] by (simp add: word_le_nat_alt u64_arith)

lemma u64_sat_of_nat_mono: "m \<le> n \<Longrightarrow> u64_sat_of_nat m \<le> u64_sat_of_nat n"
  by (simp add: word_le_nat_alt u64_arith)

section \<open>Strings\<close>

text \<open>
  A Rust string is its UTF-8 encoding, a list of bytes. Comparing strings compares the bytes
  lexicographically, which is the order of \<open>List_Lexorder\<close>. \<^verbatim>\<open>trim\<close> strips characters with
  the Unicode property \<^verbatim>\<open>White_Space\<close>, given here by their encodings.
\<close>

definition utf8_cont :: "char \<Rightarrow> bool" where
  "utf8_cont c \<longleftrightarrow> 128 \<le> (of_char c :: nat) \<and> (of_char c :: nat) < 192"

function utf8_chars :: "string \<Rightarrow> string list" where
  "utf8_chars [] = []"
| "utf8_chars (b # bs) = (b # takeWhile utf8_cont bs) # utf8_chars (dropWhile utf8_cont bs)"
  by pat_completeness auto
termination
  by (relation "measure length") (auto simp: le_imp_less_Suc length_dropWhile_le)

definition white_space_chars :: "string list" where
  "white_space_chars =
     [[CHR 0x09], [CHR 0x0A], [CHR 0x0B], [CHR 0x0C], [CHR 0x0D], [CHR 0x20], [CHR 0xC2, CHR
      0x85], [CHR 0xC2, CHR 0xA0], [CHR 0xE1, CHR 0x9A, CHR 0x80], [CHR 0xE2, CHR 0x80, CHR
      0x80], [CHR 0xE2, CHR 0x80, CHR 0x81], [CHR 0xE2, CHR 0x80, CHR 0x82], [CHR 0xE2, CHR
      0x80, CHR 0x83], [CHR 0xE2, CHR 0x80, CHR 0x84], [CHR 0xE2, CHR 0x80, CHR 0x85], [CHR
      0xE2, CHR 0x80, CHR 0x86], [CHR 0xE2, CHR 0x80, CHR 0x87], [CHR 0xE2, CHR 0x80, CHR
      0x88], [CHR 0xE2, CHR 0x80, CHR 0x89], [CHR 0xE2, CHR 0x80, CHR 0x8A], [CHR 0xE2, CHR
      0x80, CHR 0xA8], [CHR 0xE2, CHR 0x80, CHR 0xA9], [CHR 0xE2, CHR 0x80, CHR 0xAF], [CHR
      0xE2, CHR 0x81, CHR 0x9F], [CHR 0xE3, CHR 0x80, CHR 0x80]]"

definition is_whitespace :: "string \<Rightarrow> bool" where
  "is_whitespace ch \<longleftrightarrow> List.member white_space_chars ch"

definition trim :: "string \<Rightarrow> string" where
  "trim s = concat (rev (dropWhile is_whitespace (rev (dropWhile is_whitespace (utf8_chars s)))))"

definition is_blank :: "string \<Rightarrow> bool" where
  "is_blank s \<longleftrightarrow> trim s = []"

lemma utf8_chars_nonempty: "ch \<in> set (utf8_chars s) \<Longrightarrow> ch \<noteq> []"
  by (induction s rule: utf8_chars.induct) auto

lemma concat_utf8_chars: "concat (utf8_chars s) = s"
  by (induction s rule: utf8_chars.induct) simp_all

lemma concat_eq_Nil_if_nonempty: "(\<And>ch. ch \<in> set xs \<Longrightarrow> ch \<noteq> []) \<Longrightarrow> concat xs = [] \<longleftrightarrow> xs = []"
  by (cases xs) auto

lemma dropWhile_rev_dropWhile_Nil:
  "dropWhile P (rev (dropWhile P xs)) = [] \<longleftrightarrow> (\<forall>x\<in>set xs. P x)"
proof
  assume "dropWhile P (rev (dropWhile P xs)) = []"
  then have all: "\<forall>x\<in>set (dropWhile P xs). P x" by (simp add: dropWhile_eq_Nil_conv)
  show "\<forall>x\<in>set xs. P x"
  proof (cases "dropWhile P xs")
    case Nil
    then show ?thesis by (simp add: dropWhile_eq_Nil_conv)
  next
    case (Cons y ys)
    then show ?thesis using all hd_dropWhile [of P xs] by auto
  qed
qed (simp add: dropWhile_eq_Nil_conv [THEN iffD2])

lemma is_blank_iff: "is_blank s \<longleftrightarrow> (\<forall>ch\<in>set (utf8_chars s). is_whitespace ch)"
proof -
  let ?t = "dropWhile is_whitespace (rev (dropWhile is_whitespace (utf8_chars s)))"
  have "set ?t \<subseteq> set (utf8_chars s)"
    by (auto dest!: set_dropWhileD)
  then have "concat (rev ?t) = [] \<longleftrightarrow> rev ?t = []"
    by (intro concat_eq_Nil_if_nonempty) (auto dest: utf8_chars_nonempty)
  then show ?thesis
    unfolding is_blank_def trim_def by (simp only: rev_is_Nil_conv dropWhile_rev_dropWhile_Nil)
qed

lemma is_blank_Nil [simp]: "is_blank []"
  by (simp add: is_blank_def trim_def)

text \<open>Decimal rendering, as \<^verbatim>\<open>format!("{}")\<close> does it.\<close>

definition digit_char :: "nat \<Rightarrow> char" where
  "digit_char d = ''0123456789'' ! d"

fun show_nat :: "nat \<Rightarrow> string" where
  "show_nat n = (if n < 10 then [digit_char n] else show_nat (n div 10) @ [digit_char (n mod 10)])"

declare show_nat.simps [simp del]

text \<open>Decimal digits and their value, and that a rendered number reads back as itself.\<close>

definition is_digit :: "char \<Rightarrow> bool" where
  "is_digit c \<longleftrightarrow> 48 \<le> (of_char c :: nat) \<and> (of_char c :: nat) \<le> 57"

definition digits_value :: "string \<Rightarrow> nat" where
  "digits_value ds = foldl (\<lambda>n c. 10 * n + (of_char c - 48)) 0 ds"

lemma digit_char_value:
  assumes "d < 10"
  shows "of_char (digit_char d) = (48 + d :: nat)" "is_digit (digit_char d)"
proof -
  have "d \<in> {0, 1, 2, 3, 4, 5, 6, 7, 8, 9}" using assms by auto
  then show "of_char (digit_char d) = (48 + d :: nat)" by (auto simp: digit_char_def)
  then show "is_digit (digit_char d)" using assms by (simp add: is_digit_def)
qed

lemma digits_value_snoc: "digits_value (ds @ [c]) = 10 * digits_value ds + (of_char c - 48)"
  by (simp add: digits_value_def)

lemma show_nat_digits: "show_nat n \<noteq> [] \<and> list_all is_digit (show_nat n) \<and> digits_value (show_nat n) = n"
proof (induction n rule: show_nat.induct)
  case (1 n)
  show ?case
  proof (cases "n < 10")
    case True
    then show ?thesis
      using digit_char_value [of n]
      by (simp add: show_nat.simps [of n] digits_value_def)
  next
    case False
    then have IH: "list_all is_digit (show_nat (n div 10))"
        "digits_value (show_nat (n div 10)) = n div 10"
      using 1 by auto
    have "n mod 10 < 10" by simp
    then show ?thesis
      using False IH digit_char_value [of "n mod 10"]
      by (simp add: show_nat.simps [of n] digits_value_snoc)
  qed
qed

definition show_int :: "int \<Rightarrow> string" where
  "show_int i = (if i < 0 then ''-'' @ show_nat (nat (- i)) else show_nat (nat i))"

abbreviation show_word :: "'w::len word \<Rightarrow> string" where
  "show_word w \<equiv> show_nat (unat w)"

abbreviation squote :: string where
  "squote \<equiv> [CHR 0x27]"

fun join :: "string \<Rightarrow> string list \<Rightarrow> string" where
  "join sep [] = []"
| "join sep [x] = x"
| "join sep (x # y # ys) = x @ sep @ join sep (y # ys)"

section \<open>Lists\<close>

definition push_unique :: "'a list \<Rightarrow> 'a \<Rightarrow> 'a list" where
  "push_unique xs x = (if x \<in> set xs then xs else xs @ [x])"

definition stable_dedup :: "'a list \<Rightarrow> 'a list" where
  "stable_dedup xs = foldl push_unique [] xs"

definition extend_unique :: "'a list \<Rightarrow> 'a list \<Rightarrow> 'a list" where
  "extend_unique xs ys = foldl push_unique xs ys"

definition all_none :: "('a \<Rightarrow> 'b option) \<Rightarrow> 'a list \<Rightarrow> bool" where
  "all_none f xs \<longleftrightarrow> list_all (\<lambda>x. f x = None) xs"

definition unwrap_or :: "'a option \<Rightarrow> 'a \<Rightarrow> 'a" where
  "unwrap_or x d = (case x of Some v \<Rightarrow> v | None \<Rightarrow> d)"

lemma unwrap_or_simps [simp]: "unwrap_or (Some v) d = v" "unwrap_or None d = d"
  by (simp_all add: unwrap_or_def)

definition opt_zip :: "'a option \<Rightarrow> 'b option \<Rightarrow> ('a \<times> 'b) option" where
  "opt_zip a b = (case a of None \<Rightarrow> None | Some x \<Rightarrow> map_option (Pair x) b)"

lemma opt_zip_simps [simp]:
  "opt_zip None b = None"
  "opt_zip a None = None"
  "opt_zip (Some x) (Some y) = Some (x, y)"
  by (cases a; simp add: opt_zip_def)+

lemma opt_zip_eq_Some: "opt_zip a b = Some p \<longleftrightarrow> a = Some (fst p) \<and> b = Some (snd p)"
  by (cases a; cases b; cases p) auto

lemma opt_zip_eq_None: "opt_zip a b = None \<longleftrightarrow> a = None \<or> b = None"
  by (cases a; cases b) auto

lemma set_push_unique [simp]: "set (push_unique xs x) = insert x (set xs)"
  by (auto simp: push_unique_def)

lemma distinct_push_unique [simp]: "distinct (push_unique xs x) \<longleftrightarrow> distinct xs"
  by (auto simp: push_unique_def)

lemma set_extend_unique [simp]: "set (extend_unique xs ys) = set xs \<union> set ys"
  unfolding extend_unique_def by (induction ys arbitrary: xs) auto

lemma distinct_extend_unique [simp]: "distinct (extend_unique xs ys) \<longleftrightarrow> distinct xs"
  unfolding extend_unique_def by (induction ys arbitrary: xs) auto

lemma set_stable_dedup [simp]: "set (stable_dedup xs) = set xs"
  using set_extend_unique [of "[]" xs] by (simp add: stable_dedup_def extend_unique_def)

lemma distinct_stable_dedup [simp]: "distinct (stable_dedup xs)"
  using distinct_extend_unique [of "[]" xs] by (simp add: stable_dedup_def extend_unique_def)

lemma extend_unique_prefix: "\<exists>zs. extend_unique xs ys = xs @ zs"
  unfolding extend_unique_def
proof (induction ys arbitrary: xs)
  case (Cons y ys)
  obtain zs where zs: "foldl push_unique (push_unique xs y) ys = push_unique xs y @ zs"
    using Cons.IH by blast
  moreover obtain us where "push_unique xs y = xs @ us"
    by (cases "y \<in> set xs") (auto simp: push_unique_def)
  ultimately show ?case by simp
qed simp

lemma foldl_push_unique_distinct:
  "distinct (acc @ xs) \<Longrightarrow> foldl push_unique acc xs = acc @ xs"
  by (induction xs arbitrary: acc) (auto simp: push_unique_def)

lemma stable_dedup_id: "distinct xs \<Longrightarrow> stable_dedup xs = xs"
  using foldl_push_unique_distinct [of "[]" xs] by (simp add: stable_dedup_def)

lemma stable_dedup_idem: "stable_dedup (stable_dedup xs) = stable_dedup xs"
  by (simp add: stable_dedup_id)

lemma extend_unique_Nil [simp]: "extend_unique xs [] = xs"
  by (simp add: extend_unique_def)

lemma all_none_Nil [simp]: "all_none f []"
  by (simp add: all_none_def)

end
