(* ===== verification/TT_Order.thy ===== *)
theory TT_Order
  imports TT_Prelude
begin

text \<open>
  Rust's comparators and ordered maps. \<^verbatim>\<open>std::cmp::Ordering\<close> with \<^verbatim>\<open>then_with\<close> and
  \<^verbatim>\<open>reverse\<close>, the stable \<^verbatim>\<open>sort_by\<close>, \<^verbatim>\<open>Iterator::max_by\<close>, and
  \<^verbatim>\<open>BTreeMap\<close> as an association list with strictly increasing keys. The interface of a
  lawful comparator is the locale \<open>total_cmp\<close>, that of the entry API of a map is the locale
  \<open>entry_map\<close>; both are interpreted where the program's comparators and maps are defined.
\<close>

section \<open>Comparators\<close>

datatype ordering = OLess | OEqual | OGreater

definition cmp :: "'a::linorder \<Rightarrow> 'a \<Rightarrow> ordering" where
  "cmp a b = (if a < b then OLess else if a = b then OEqual else OGreater)"

fun then_with :: "ordering \<Rightarrow> ordering \<Rightarrow> ordering" where
  "then_with OEqual o2 = o2"
| "then_with o1 o2 = o1"

fun ord_reverse :: "ordering \<Rightarrow> ordering" where
  "ord_reverse OLess = OGreater"
| "ord_reverse OEqual = OEqual"
| "ord_reverse OGreater = OLess"

fun insort_by :: "('a \<Rightarrow> 'a \<Rightarrow> ordering) \<Rightarrow> 'a \<Rightarrow> 'a list \<Rightarrow> 'a list" where
  "insort_by c x [] = [x]"
| "insort_by c x (y # ys) = (if c x y = OGreater then y # insort_by c x ys else x # y # ys)"

definition sort_by :: "('a \<Rightarrow> 'a \<Rightarrow> ordering) \<Rightarrow> 'a list \<Rightarrow> 'a list" where
  "sort_by c xs = foldr (insort_by c) xs []"

text \<open>\<^verbatim>\<open>max_by\<close> keeps the later of two equal elements.\<close>

definition max_by :: "('a \<Rightarrow> 'a \<Rightarrow> ordering) \<Rightarrow> 'a list \<Rightarrow> 'a option" where
  "max_by c xs = (case xs of [] \<Rightarrow> None
     | y # ys \<Rightarrow> Some (foldl (\<lambda>a b. if c a b = OGreater then a else b) y ys))"

lemma then_with_OEqual [simp]: "then_with o1 OEqual = o1"
  by (cases o1) simp_all

lemma then_with_eq_OEqual [simp]: "then_with a b = OEqual \<longleftrightarrow> a = OEqual \<and> b = OEqual"
  by (cases a) auto

lemma ord_reverse_reverse [simp]: "ord_reverse (ord_reverse x) = x"
  by (cases x) simp_all

lemma ord_reverse_then [simp]: "ord_reverse (then_with a b) = then_with (ord_reverse a) (ord_reverse b)"
  by (cases a) simp_all

lemma ord_reverse_eq_iff [simp]:
  "ord_reverse x = OLess \<longleftrightarrow> x = OGreater"
  "ord_reverse x = OEqual \<longleftrightarrow> x = OEqual"
  "ord_reverse x = OGreater \<longleftrightarrow> x = OLess"
  by (cases x; simp)+

lemma cmp_simps [simp]:
  "cmp a b = OLess \<longleftrightarrow> a < b"
  "cmp a b = OEqual \<longleftrightarrow> a = b"
  "cmp a b = OGreater \<longleftrightarrow> b < a"
  by (auto simp: cmp_def)

lemma mset_insort_by [simp]: "mset (insort_by c x xs) = add_mset x (mset xs)"
  by (induction xs) auto

lemma mset_sort_by [simp]: "mset (sort_by c xs) = mset xs"
  unfolding sort_by_def by (induction xs) auto

lemma set_sort_by [simp]: "set (sort_by c xs) = set xs"
  by (metis mset_sort_by set_mset_mset)

lemma length_sort_by [simp]: "length (sort_by c xs) = length xs"
  by (metis mset_sort_by size_mset)

lemma sort_by_Nil [simp]: "sort_by c [] = []"
  by (simp add: sort_by_def)

lemma sort_by_eq_Nil [simp]: "sort_by c xs = [] \<longleftrightarrow> xs = []"
  by (metis length_0_conv length_sort_by)

lemma insort_by_map: "insort_by c (f x) (map f xs) = map f (insort_by (\<lambda>a b. c (f a) (f b)) x xs)"
  by (induction xs) simp_all

lemma sort_by_map: "sort_by c (map f xs) = map f (sort_by (\<lambda>a b. c (f a) (f b)) xs)"
  by (induction xs) (simp_all add: sort_by_def insort_by_map)

lemma distinct_sort_by [simp]: "distinct (sort_by c xs) \<longleftrightarrow> distinct xs"
  by (metis mset_sort_by mset_eq_imp_distinct_iff)

locale total_cmp =
  fixes c :: "'a \<Rightarrow> 'a \<Rightarrow> ordering"
  assumes cmp_flip: "c y x = ord_reverse (c x y)"
    and cmp_trans: "c x y \<noteq> OGreater \<Longrightarrow> c y z \<noteq> OGreater \<Longrightarrow> c x z \<noteq> OGreater"
begin

lemma cmp_refl: "c x x = OEqual"
  using cmp_flip [of x x] by (cases "c x x") simp_all

lemma insort_by_sorted:
  "sorted_wrt (\<lambda>a b. c a b \<noteq> OGreater) xs \<Longrightarrow>
   sorted_wrt (\<lambda>a b. c a b \<noteq> OGreater) (insort_by c x xs)"
proof (induction xs)
  case (Cons y ys)
  show ?case
  proof (cases "c x y = OGreater")
    case True
    then have "c y x \<noteq> OGreater" using cmp_flip [of y x] by simp
    moreover have "set (insort_by c x ys) = insert x (set ys)"
      by (metis mset_insort_by set_mset_add_mset_insert set_mset_mset)
    ultimately show ?thesis using Cons True by auto
  next
    case False
    then show ?thesis using Cons.prems cmp_trans [of x y] by auto
  qed
qed simp

lemma sort_by_sorted: "sorted_wrt (\<lambda>a b. c a b \<noteq> OGreater) (sort_by c xs)"
  unfolding sort_by_def by (induction xs) (auto intro: insort_by_sorted)

lemma sort_by_first: "sort_by c xs = y # ys \<Longrightarrow> z \<in> set xs \<Longrightarrow> c y z \<noteq> OGreater"
proof -
  assume s: "sort_by c xs = y # ys" and z: "z \<in> set xs"
  have "z \<in> set (y # ys)" using z set_sort_by [of c xs] s by simp
  then show ?thesis using sort_by_sorted [of xs] s cmp_refl [of z] by auto
qed

lemma sort_by_id: "sorted_wrt (\<lambda>a b. c a b \<noteq> OGreater) xs \<Longrightarrow> sort_by c xs = xs"
proof (induction xs)
  case (Cons x xs)
  then have "sort_by c xs = xs" by simp
  then have "sort_by c (x # xs) = insort_by c x xs" by (simp add: sort_by_def)
  then show ?case using Cons.prems by (cases xs) auto
qed simp

lemma foldl_max_by:
  "foldl (\<lambda>a b. if c a b = OGreater then a else b) y ys \<in> insert y (set ys) \<and>
   (\<forall>z\<in>insert y (set ys). c z (foldl (\<lambda>a b. if c a b = OGreater then a else b) y ys) \<noteq> OGreater)"
proof (induction ys arbitrary: y)
  case Nil
  then show ?case by (simp add: cmp_refl)
next
  case (Cons x ys)
  let ?w = "if c y x = OGreater then y else x"
  let ?m = "foldl (\<lambda>a b. if c a b = OGreater then a else b) ?w ys"
  have IH: "?m \<in> insert ?w (set ys)" "\<forall>z\<in>insert ?w (set ys). c z ?m \<noteq> OGreater"
    using Cons.IH [of ?w] by simp_all
  have le: "c y ?w \<noteq> OGreater" "c x ?w \<noteq> OGreater"
    using cmp_flip [of y x] cmp_flip [of x y] cmp_refl by auto
  have "c ?w ?m \<noteq> OGreater" using IH(2) by blast
  then have "c y ?m \<noteq> OGreater" "c x ?m \<noteq> OGreater"
    using le cmp_trans by blast+
  then show ?case using IH by auto
qed

lemma max_by_Some:
  assumes "max_by c xs = Some m"
  shows "m \<in> set xs" and "z \<in> set xs \<Longrightarrow> c z m \<noteq> OGreater"
  using assms foldl_max_by by (auto simp: max_by_def split: list.splits)

end

lemma max_by_eq_None [simp]: "max_by c xs = None \<longleftrightarrow> xs = []"
  by (cases xs) (auto simp: max_by_def)

text \<open>The combinators build lawful comparators from lawful comparators.\<close>

lemma total_cmp_key: "total_cmp (\<lambda>x y. cmp (f x) (f y))"
  by unfold_locales (force simp: cmp_def split: if_splits)+

lemma total_cmp_reverse:
  assumes "total_cmp c"
  shows "total_cmp (\<lambda>x y. ord_reverse (c x y))"
proof
  show "ord_reverse (c y x) = ord_reverse (ord_reverse (c x y))" for x y
    using total_cmp.cmp_flip [OF assms, of y x] by simp
  show "ord_reverse (c x y) \<noteq> OGreater \<Longrightarrow> ord_reverse (c y z) \<noteq> OGreater \<Longrightarrow>
      ord_reverse (c x z) \<noteq> OGreater" for x y z
    using total_cmp.cmp_trans [OF assms, of z y x] total_cmp.cmp_flip [OF assms, of y x]
      total_cmp.cmp_flip [OF assms, of z y] total_cmp.cmp_flip [OF assms, of z x]
    by simp
qed

lemma total_cmp_key_desc: "total_cmp (\<lambda>x y. cmp (f y) (f x))"
  by unfold_locales (force simp: cmp_def split: if_splits)+

lemma total_cmp_then:
  assumes c1: "total_cmp c1" and c2: "total_cmp c2"
  shows "total_cmp (\<lambda>x y. then_with (c1 x y) (c2 x y))"
proof
  show "then_with (c1 y x) (c2 y x) = ord_reverse (then_with (c1 x y) (c2 x y))" for x y
    using total_cmp.cmp_flip [OF c1, of y x] total_cmp.cmp_flip [OF c2, of y x] by simp
next
  fix x y z
  assume xy: "then_with (c1 x y) (c2 x y) \<noteq> OGreater"
    and yz: "then_with (c1 y z) (c2 y z) \<noteq> OGreater"
  have 1: "c1 x y \<noteq> OGreater" "c1 y z \<noteq> OGreater"
    using xy yz by (cases "c1 x y"; cases "c1 y z"; simp)+
  have xz: "c1 x z \<noteq> OGreater" by (rule total_cmp.cmp_trans [OF c1 1])
  show "then_with (c1 x z) (c2 x z) \<noteq> OGreater"
  proof (cases "c1 x z = OEqual")
    case True
    then have zx: "c1 z x \<noteq> OGreater" using total_cmp.cmp_flip [OF c1, of z x] by simp
    have "c1 z y \<noteq> OGreater" "c1 y x \<noteq> OGreater"
      using total_cmp.cmp_trans [OF c1 zx 1(1)] total_cmp.cmp_trans [OF c1 1(2) zx] by simp_all
    then have "c1 x y = OEqual" "c1 y z = OEqual"
      using 1 total_cmp.cmp_flip [OF c1, of y x] total_cmp.cmp_flip [OF c1, of z y]
      by (cases "c1 x y"; cases "c1 y z"; simp)+
    then show ?thesis using True xy yz total_cmp.cmp_trans [OF c2, of x y z] by simp
  next
    case False
    then show ?thesis using xz by (cases "c1 x z") simp_all
  qed
qed

lemmas total_cmp_intros = total_cmp_then total_cmp_reverse total_cmp_key total_cmp_key_desc

section \<open>Ordered maps\<close>

text \<open>
  A \<^verbatim>\<open>BTreeMap\<close> is the list of its entries in key order. \<open>bt_entry\<close> is the entry API:
  the value at a key is replaced by a function of the value found there, if any.
\<close>

type_synonym ('k, 'v) btree = "('k \<times> 'v) list"

definition bt_lookup :: "('k, 'v) btree \<Rightarrow> 'k \<Rightarrow> 'v option" where
  "bt_lookup m = map_of m"

fun bt_entry :: "'k::linorder \<Rightarrow> ('v option \<Rightarrow> 'v) \<Rightarrow> ('k, 'v) btree \<Rightarrow> ('k, 'v) btree" where
  "bt_entry k f [] = [(k, f None)]"
| "bt_entry k f ((k', v) # m) =
     (if k < k' then (k, f None) # (k', v) # m
      else if k = k' then (k, f (Some v)) # m
      else (k', v) # bt_entry k f m)"

fun bt_remove :: "'k::linorder \<Rightarrow> ('k, 'v) btree \<Rightarrow> ('k, 'v) btree" where
  "bt_remove k [] = []"
| "bt_remove k ((k', v) # m) = (if k = k' then m else (k', v) # bt_remove k m)"

definition bt_insert :: "'k::linorder \<Rightarrow> 'v \<Rightarrow> ('k, 'v) btree \<Rightarrow> ('k, 'v) btree" where
  "bt_insert k v = bt_entry k (\<lambda>_. v)"

definition bt_wf :: "('k::linorder, 'v) btree \<Rightarrow> bool" where
  "bt_wf m \<longleftrightarrow> sorted_wrt (<) (map fst m)"

lemma bt_entry_keys: "fst ` set (bt_entry k f m) = insert k (fst ` set m)"
  by (induction k f m rule: bt_entry.induct) auto

lemma bt_entry_keys_map: "set (map fst (bt_entry k f m)) = insert k (set (map fst m))"
  using bt_entry_keys [of k f m] by simp

lemma bt_wf_Nil [simp]: "bt_wf []"
  by (simp add: bt_wf_def)

lemma bt_wf_Cons: "bt_wf ((k, v) # m) \<longleftrightarrow> bt_wf m \<and> (\<forall>k'\<in>fst ` set m. k < k')"
  by (auto simp: bt_wf_def)

lemma bt_wf_distinct: "bt_wf m \<Longrightarrow> distinct (map fst m)"
  by (simp add: bt_wf_def strict_sorted_iff)

lemma bt_wf_entry: "bt_wf m \<Longrightarrow> bt_wf (bt_entry k f m)"
  by (induction k f m rule: bt_entry.induct) (auto simp: bt_wf_Cons bt_entry_keys)

lemma set_bt_remove: "set (bt_remove k m) \<subseteq> set m"
  by (induction k m rule: bt_remove.induct) auto

lemma bt_wf_remove: "bt_wf m \<Longrightarrow> bt_wf (bt_remove k m)"
proof (induction k m rule: bt_remove.induct)
  case (2 k k' v m)
  show ?case
  proof (cases "k = k'")
    case False
    have "\<forall>x\<in>set (bt_remove k m). k' < fst x"
      using 2(2) set_bt_remove [of k m] by (auto simp: bt_wf_Cons)
    then show ?thesis using 2 False by (simp add: bt_wf_Cons)
  qed (use 2 in \<open>simp add: bt_wf_Cons\<close>)
qed simp

lemma bt_lookup_Nil [simp]: "bt_lookup [] = Map.empty"
  by (simp add: bt_lookup_def)

lemma bt_lookup_absent:
  fixes k :: "'k::linorder"
  assumes "\<forall>k'\<in>fst ` set m. k < k'"
  shows "bt_lookup m k = None"
proof -
  have "k \<notin> fst ` set m" using assms by (metis less_irrefl)
  then show ?thesis by (simp add: bt_lookup_def map_of_eq_None_iff)
qed

lemma bt_lookup_entry:
  "bt_wf m \<Longrightarrow> bt_lookup (bt_entry k f m) = (bt_lookup m)(k \<mapsto> f (bt_lookup m k))"
proof (induction k f m rule: bt_entry.induct)
  case (2 k f k' v m)
  then have "\<forall>k''\<in>fst ` set m. k' < k''" by (simp add: bt_wf_Cons)
  then have "k < k' \<Longrightarrow> bt_lookup m k = None"
    by (intro bt_lookup_absent) (meson less_trans)
  with 2 show ?case by (auto simp: bt_lookup_def bt_wf_Cons)
qed (simp add: bt_lookup_def)

lemma bt_lookup_remove: "bt_wf m \<Longrightarrow> bt_lookup (bt_remove k m) = (bt_lookup m)(k := None)"
proof (induction k m rule: bt_remove.induct)
  case (2 k k' v m)
  then show ?case using bt_lookup_absent [of m k'] by (auto simp: bt_lookup_def bt_wf_Cons)
qed simp

lemma bt_length_entry:
  "bt_wf m \<Longrightarrow> length (bt_entry k f m) = (if bt_lookup m k = None then Suc (length m) else length m)"
proof (induction k f m rule: bt_entry.induct)
  case (2 k f k' v m)
  then have "k < k' \<Longrightarrow> bt_lookup m k = None"
    by (intro bt_lookup_absent) (auto simp: bt_wf_Cons)
  with 2 show ?case by (auto simp: bt_lookup_def bt_wf_Cons)
qed (simp add: bt_lookup_def)

lemma bt_length_remove:
  "length (bt_remove k m) = (if bt_lookup m k = None then length m else length m - 1)"
  by (induction k m rule: bt_remove.induct)
    (auto simp: bt_lookup_def dest!: map_of_SomeD length_pos_if_in_set)

text \<open>
  The interface the clients use: lookups after each operation and the number of entries, under
  an invariant every operation keeps. Clients state their counting arguments against it.
\<close>

locale entry_map =
  fixes invar :: "'m \<Rightarrow> bool"
    and lookup :: "'m \<Rightarrow> 'k \<Rightarrow> 'v option"
    and empty :: "'m"
    and entry :: "'k \<Rightarrow> ('v option \<Rightarrow> 'v) \<Rightarrow> 'm \<Rightarrow> 'm"
    and remove :: "'k \<Rightarrow> 'm \<Rightarrow> 'm"
    and size_of :: "'m \<Rightarrow> nat"
  assumes invar_empty: "invar empty"
    and invar_entry: "invar m \<Longrightarrow> invar (entry k f m)"
    and invar_remove: "invar m \<Longrightarrow> invar (remove k m)"
    and lookup_empty: "lookup empty k = None"
    and lookup_entry: "invar m \<Longrightarrow> lookup (entry k f m) = (lookup m)(k \<mapsto> f (lookup m k))"
    and lookup_remove: "invar m \<Longrightarrow> lookup (remove k m) = (lookup m)(k := None)"
    and size_empty: "size_of empty = 0"
    and size_entry: "invar m \<Longrightarrow> size_of (entry k f m) =
          (if lookup m k = None then Suc (size_of m) else size_of m)"
    and size_remove: "invar m \<Longrightarrow> size_of (remove k m) =
          (if lookup m k = None then size_of m else size_of m - 1)"
begin

definition count_into :: "'k list \<Rightarrow> ('v option \<Rightarrow> 'v) \<Rightarrow> 'm \<Rightarrow> 'm" where
  "count_into ks f m = foldl (\<lambda>m k. entry k f m) m ks"

lemma count_into_Nil [simp]: "count_into [] f m = m"
  by (simp add: count_into_def)

lemma count_into_Cons [simp]: "count_into (k # ks) f m = count_into ks f (entry k f m)"
  by (simp add: count_into_def)

lemma invar_count_into: "invar m \<Longrightarrow> invar (count_into ks f m)"
  by (induction ks arbitrary: m) (simp_all add: invar_entry)

lemma lookup_count_into:
  "invar m \<Longrightarrow> lookup (count_into ks f m) k =
     ((\<lambda>v. Some (f v)) ^^ count_list ks k) (lookup m k)"
proof (induction ks arbitrary: m)
  case (Cons a ks)
  then show ?case
    using funpow_swap1 [of "\<lambda>v. Some (f v)" "count_list ks k" "lookup m k"]
    by (simp add: invar_entry lookup_entry)
qed simp

lemma insert_remove_size:
  "invar m \<Longrightarrow> lookup m k = None \<Longrightarrow> size_of (remove k (entry k f m)) = size_of m"
  by (simp add: invar_entry lookup_entry size_entry size_remove)

lemma size_entry_le: "invar m \<Longrightarrow> size_of (entry k f m) \<le> Suc (size_of m)"
  by (simp add: size_entry)

end

interpretation bt: entry_map bt_wf bt_lookup "[]" bt_entry bt_remove length
  by unfold_locales
    (simp_all add: bt_wf_entry bt_wf_remove bt_lookup_entry bt_lookup_remove bt_length_entry
      bt_length_remove)

text \<open>Ordered sets: \<^verbatim>\<open>BTreeSet\<close> as a strictly sorted list.\<close>

type_synonym 'a btree_set = "'a list"

definition bs_insert :: "'a::linorder \<Rightarrow> 'a btree_set \<Rightarrow> 'a btree_set" where
  "bs_insert x s = List.insort_insert x s"

lemma set_bs_insert [simp]: "set (bs_insert x s) = insert x (set s)"
  by (simp add: bs_insert_def set_insort_insert)

lemma bs_insert_not_Nil [simp]: "bs_insert x s \<noteq> []"
  by (metis empty_iff empty_set insertI1 set_bs_insert)

lemma sorted_bs_insert: "sorted_wrt (<) s \<Longrightarrow> sorted_wrt (<) (bs_insert x s)"
  by (simp add: bs_insert_def strict_sorted_iff sorted_insort_insert distinct_insort_insert)

end
