(* ===== verification/Core_Model.thy ===== *)
theory Core_Model
  imports TT_Prelude
begin

text \<open>
  The data model of \<^verbatim>\<open>tailtriage-core\<close>: the capture configuration types of
  \<^verbatim>\<open>config.rs\<close> that occur in an artifact and the \<^verbatim>\<open>Run\<close> artifact of \<^verbatim>\<open>events.rs\<close>
  with the constructors and field updates of its events. Record fields carry a prefix that
  names their struct (\<open>req_\<close>, \<open>stg_\<close>, \<open>que_\<close>, \<open>inf_\<close>, \<open>rts_\<close>, \<open>md_\<close>,
  \<open>run_\<close>, \<open>tr_\<close>), since several structs share field names.
\<close>

section \<open>Capture configuration (\<^verbatim>\<open>config.rs\<close>)\<close>

datatype CaptureMode = Light | Investigation

record CaptureLimits =
  max_requests :: nat
  max_stages :: nat
  max_queues :: nat
  max_inflight_snapshots :: nat
  max_runtime_snapshots :: nat

fun core_defaults :: "CaptureMode \<Rightarrow> CaptureLimits" where
  "core_defaults Light =
     \<lparr>max_requests = 100000, max_stages = 200000, max_queues = 200000,
      max_inflight_snapshots = 200000, max_runtime_snapshots = 100000\<rparr>"
| "core_defaults Investigation =
     \<lparr>max_requests = 300000, max_stages = 600000, max_queues = 600000,
      max_inflight_snapshots = 600000, max_runtime_snapshots = 300000\<rparr>"

record CaptureLimitsOverride =
  ov_max_requests :: "nat option"
  ov_max_stages :: "nat option"
  ov_max_queues :: "nat option"
  ov_max_inflight_snapshots :: "nat option"
  ov_max_runtime_snapshots :: "nat option"

definition override_default :: CaptureLimitsOverride where
  "override_default =
     \<lparr>ov_max_requests = None, ov_max_stages = None, ov_max_queues = None,
      ov_max_inflight_snapshots = None, ov_max_runtime_snapshots = None\<rparr>"

definition override_field :: "'a option \<Rightarrow> 'a \<Rightarrow> 'a" where
  "override_field ov b = (case ov of Some value \<Rightarrow> value | None \<Rightarrow> b)"

definition override_apply :: "CaptureLimitsOverride \<Rightarrow> CaptureLimits \<Rightarrow> CaptureLimits" where
  "override_apply self base =
     \<lparr>max_requests = override_field (ov_max_requests self) (max_requests base),
      max_stages = override_field (ov_max_stages self) (max_stages base),
      max_queues = override_field (ov_max_queues self) (max_queues base),
      max_inflight_snapshots =
        override_field (ov_max_inflight_snapshots self) (max_inflight_snapshots base),
      max_runtime_snapshots =
        override_field (ov_max_runtime_snapshots self) (max_runtime_snapshots base)\<rparr>"

definition merge_field :: "'a option \<Rightarrow> 'a option \<Rightarrow> 'a option" where
  "merge_field newer older = (case newer of Some value \<Rightarrow> Some value | None \<Rightarrow> older)"

definition override_merge :: "CaptureLimitsOverride \<Rightarrow> CaptureLimitsOverride \<Rightarrow> CaptureLimitsOverride" where
  "override_merge self newer =
     \<lparr>ov_max_requests = merge_field (ov_max_requests newer) (ov_max_requests self),
      ov_max_stages = merge_field (ov_max_stages newer) (ov_max_stages self),
      ov_max_queues = merge_field (ov_max_queues newer) (ov_max_queues self),
      ov_max_inflight_snapshots =
        merge_field (ov_max_inflight_snapshots newer) (ov_max_inflight_snapshots self),
      ov_max_runtime_snapshots =
        merge_field (ov_max_runtime_snapshots newer) (ov_max_runtime_snapshots self)\<rparr>"

record EffectiveCoreConfig =
  ecc_mode :: CaptureMode
  ecc_capture_limits :: CaptureLimits
  ecc_strict_lifecycle :: bool

section \<open>Events and the run artifact (\<^verbatim>\<open>events.rs\<close>)\<close>

definition SCHEMA_VERSION :: u64 where
  "SCHEMA_VERSION = 2"

datatype Outcome =
    OutcomeOk
  | OutcomeError
  | OutcomeTimeout
  | OutcomeCancelled
  | OutcomeRejected
  | OutcomeOther string

fun outcome_into_string :: "Outcome \<Rightarrow> string" where
  "outcome_into_string OutcomeOk = ''ok''"
| "outcome_into_string OutcomeError = ''error''"
| "outcome_into_string OutcomeTimeout = ''timeout''"
| "outcome_into_string OutcomeCancelled = ''cancelled''"
| "outcome_into_string OutcomeRejected = ''rejected''"
| "outcome_into_string (OutcomeOther value) = value"

datatype RunEndReason = ManualDisarm | Shutdown | AutoSealOnLimitsHit

record EffectiveTokioSamplerConfig =
  inherited_mode :: CaptureMode
  explicit_mode_override :: "CaptureMode option"
  resolved_mode :: CaptureMode
  resolved_sampler_cadence_ms :: u64
  resolved_runtime_snapshot_retention :: nat

record UnfinishedRequestSample =
  ufs_request_id :: string
  ufs_route :: string

record UnfinishedRequests =
  uf_count :: u64
  uf_sample :: "UnfinishedRequestSample list"

definition unfinished_default :: UnfinishedRequests where
  "unfinished_default = \<lparr>uf_count = 0, uf_sample = []\<rparr>"

record RequestEvent =
  req_request_id :: string
  req_route :: string
  req_kind :: "string option"
  req_started_at_unix_ms :: u64
  req_started_at_run_us :: "u64 option"
  req_finished_at_unix_ms :: u64
  req_finished_at_run_us :: "u64 option"
  req_latency_us :: u64
  req_outcome :: string

record StageEvent =
  stg_request_id :: string
  stg_stage :: string
  stg_started_at_unix_ms :: u64
  stg_started_at_run_us :: "u64 option"
  stg_finished_at_unix_ms :: u64
  stg_finished_at_run_us :: "u64 option"
  stg_latency_us :: u64
  stg_success :: bool
  stg_completed :: bool

definition stage_new :: "string \<Rightarrow> string \<Rightarrow> u64 \<Rightarrow> u64 \<Rightarrow> u64 \<Rightarrow> bool \<Rightarrow> StageEvent" where
  "stage_new request_id stage started_at_unix_ms finished_at_unix_ms latency_us success =
     \<lparr>stg_request_id = request_id, stg_stage = stage,
      stg_started_at_unix_ms = started_at_unix_ms, stg_started_at_run_us = None,
      stg_finished_at_unix_ms = finished_at_unix_ms, stg_finished_at_run_us = None,
      stg_latency_us = latency_us, stg_success = success, stg_completed = True\<rparr>"

definition stage_with_run_interval :: "u64 option \<Rightarrow> u64 option \<Rightarrow> StageEvent \<Rightarrow> StageEvent" where
  "stage_with_run_interval started finished s =
     s\<lparr>stg_started_at_run_us := started, stg_finished_at_run_us := finished\<rparr>"

definition stage_into_partial :: "StageEvent \<Rightarrow> StageEvent" where
  "stage_into_partial s = s\<lparr>stg_completed := False, stg_success := False\<rparr>"

record QueueEvent =
  que_request_id :: string
  que_queue :: string
  que_waited_from_unix_ms :: u64
  que_waited_from_run_us :: "u64 option"
  que_waited_until_unix_ms :: u64
  que_waited_until_run_us :: "u64 option"
  que_wait_us :: u64
  que_depth_at_start :: "u64 option"
  que_completed :: bool

definition queue_new :: "string \<Rightarrow> string \<Rightarrow> u64 \<Rightarrow> u64 \<Rightarrow> u64 \<Rightarrow> QueueEvent" where
  "queue_new request_id queue waited_from_unix_ms waited_until_unix_ms wait_us =
     \<lparr>que_request_id = request_id, que_queue = queue,
      que_waited_from_unix_ms = waited_from_unix_ms, que_waited_from_run_us = None,
      que_waited_until_unix_ms = waited_until_unix_ms, que_waited_until_run_us = None,
      que_wait_us = wait_us, que_depth_at_start = None, que_completed = True\<rparr>"

definition queue_with_run_interval :: "u64 option \<Rightarrow> u64 option \<Rightarrow> QueueEvent \<Rightarrow> QueueEvent" where
  "queue_with_run_interval from_us until_us q =
     q\<lparr>que_waited_from_run_us := from_us, que_waited_until_run_us := until_us\<rparr>"

definition queue_with_depth_at_start :: "u64 \<Rightarrow> QueueEvent \<Rightarrow> QueueEvent" where
  "queue_with_depth_at_start depth q = q\<lparr>que_depth_at_start := Some depth\<rparr>"

definition queue_into_partial :: "QueueEvent \<Rightarrow> QueueEvent" where
  "queue_into_partial q = q\<lparr>que_completed := False\<rparr>"

record InFlightSnapshot =
  inf_gauge :: string
  inf_at_unix_ms :: u64
  inf_at_run_us :: "u64 option"
  inf_count :: u64

record RuntimeSnapshot =
  rts_at_unix_ms :: u64
  rts_at_run_us :: "u64 option"
  rts_alive_tasks :: "u64 option"
  rts_worker_count :: "u32 option"
  rts_global_queue_depth :: "u64 option"
  rts_local_queue_depth :: "u64 option"
  rts_blocking_queue_depth :: "u64 option"
  rts_remote_schedule_count :: "u64 option"

record TruncationSummary =
  tr_limits_hit :: bool
  tr_dropped_requests :: u64
  tr_dropped_stages :: u64
  tr_dropped_queues :: u64
  tr_dropped_inflight_snapshots :: u64
  tr_dropped_runtime_snapshots :: u64

definition truncation_default :: TruncationSummary where
  "truncation_default =
     \<lparr>tr_limits_hit = False, tr_dropped_requests = 0, tr_dropped_stages = 0,
      tr_dropped_queues = 0, tr_dropped_inflight_snapshots = 0, tr_dropped_runtime_snapshots = 0\<rparr>"

definition is_truncated :: "TruncationSummary \<Rightarrow> bool" where
  "is_truncated self \<longleftrightarrow>
     tr_limits_hit self
     \<or> tr_dropped_requests self > 0
     \<or> tr_dropped_stages self > 0
     \<or> tr_dropped_queues self > 0
     \<or> tr_dropped_inflight_snapshots self > 0
     \<or> tr_dropped_runtime_snapshots self > 0"

record RunMetadata =
  md_run_id :: string
  md_service_name :: string
  md_service_version :: "string option"
  md_started_at_unix_ms :: u64
  md_finalized_at_unix_ms :: "u64 option"
  md_mode :: CaptureMode
  md_effective_core_config :: "EffectiveCoreConfig option"
  md_effective_tokio_sampler_config :: "EffectiveTokioSamplerConfig option"
  md_host :: "string option"
  md_pid :: "u32 option"
  md_lifecycle_warnings :: "string list"
  md_unfinished_requests :: UnfinishedRequests
  md_run_end_reason :: "RunEndReason option"

record Run =
  run_schema_version :: u64
  run_metadata :: RunMetadata
  run_requests :: "RequestEvent list"
  run_stages :: "StageEvent list"
  run_queues :: "QueueEvent list"
  run_inflight :: "InFlightSnapshot list"
  run_runtime_snapshots :: "RuntimeSnapshot list"
  run_truncation :: TruncationSummary

definition run_new :: "RunMetadata \<Rightarrow> Run" where
  "run_new metadata =
     \<lparr>run_schema_version = SCHEMA_VERSION, run_metadata = metadata, run_requests = [],
      run_stages = [], run_queues = [], run_inflight = [], run_runtime_snapshots = [],
      run_truncation = truncation_default\<rparr>"

section \<open>Facts about the data model\<close>

lemma override_default_apply: "override_apply override_default base = base"
  by (cases base) (simp add: override_apply_def override_default_def override_field_def)

lemma override_merge_apply:
  "override_apply (override_merge older newer) base = override_apply newer (override_apply older base)"
  by (auto simp: override_apply_def override_merge_def override_field_def merge_field_def
      split: option.splits)

lemma stage_into_partial_frame [simp]:
  "stg_request_id (stage_into_partial s) = stg_request_id s"
  "stg_latency_us (stage_into_partial s) = stg_latency_us s"
  "\<not> stg_completed (stage_into_partial s)" "\<not> stg_success (stage_into_partial s)"
  by (simp_all add: stage_into_partial_def)

end
