(* ===== verification/Core_Validation.thy ===== *)
theory Core_Validation
  imports TT_Order Core_Model
begin

text \<open>
  Integrity inspection and permissive normalization of a run (\<^verbatim>\<open>validation.rs\<close>): issue
  codes, sections, locations, the report and the dispositions; the per-event checks, the
  parent/child policy, \<^verbatim>\<open>normalize_inner\<close> with its passes in the code's order, the strict
  check, the summaries and the push-time shape checks. The context that collects issues is a
  list that every check returns extended; a \<^verbatim>\<open>BTreeSet\<close> of issue codes is a strictly sorted
  list. What these definitions compute is characterised in \<open>Core_Normalize\<close>.
\<close>

section \<open>Codes, sections, reports\<close>

definition RUN_RELATIVE_DURATION_TOLERANCE_US :: u64 where
  "RUN_RELATIVE_DURATION_TOLERANCE_US = 2000"

datatype RunValidationSeverity = SevWarning | SevError

datatype RunValidationIssueCode =
    UnsupportedSchemaVersion
  | EmptyRequiredField
  | InvertedInterval
  | PartialRunRelativeInterval
  | DurationMismatch
  | DuplicateCompletedRequestId
  | AmbiguousParentRequestId
  | OrphanRequestScopedEvent
  | ParentRequestExcluded
  | ChildIntervalOutsideRequest
  | PreciseIntervalValidationUnavailable
  | InvalidWorkerCount

fun issue_code_as_str :: "RunValidationIssueCode \<Rightarrow> string" where
  "issue_code_as_str UnsupportedSchemaVersion = ''unsupported_schema_version''"
| "issue_code_as_str EmptyRequiredField = ''empty_required_field''"
| "issue_code_as_str InvertedInterval = ''inverted_interval''"
| "issue_code_as_str PartialRunRelativeInterval = ''partial_run_relative_interval''"
| "issue_code_as_str DurationMismatch = ''duration_mismatch''"
| "issue_code_as_str DuplicateCompletedRequestId = ''duplicate_completed_request_id''"
| "issue_code_as_str AmbiguousParentRequestId = ''ambiguous_parent_request_id''"
| "issue_code_as_str OrphanRequestScopedEvent = ''orphan_request_scoped_event''"
| "issue_code_as_str ParentRequestExcluded = ''parent_request_excluded''"
| "issue_code_as_str ChildIntervalOutsideRequest = ''child_interval_outside_request''"
| "issue_code_as_str PreciseIntervalValidationUnavailable = ''precise_interval_validation_unavailable''"
| "issue_code_as_str InvalidWorkerCount = ''invalid_worker_count''"

text \<open>The derived order of the codes is their declaration order.\<close>

fun issue_code_index :: "RunValidationIssueCode \<Rightarrow> nat" where
  "issue_code_index UnsupportedSchemaVersion = 0"
| "issue_code_index EmptyRequiredField = 1"
| "issue_code_index InvertedInterval = 2"
| "issue_code_index PartialRunRelativeInterval = 3"
| "issue_code_index DurationMismatch = 4"
| "issue_code_index DuplicateCompletedRequestId = 5"
| "issue_code_index AmbiguousParentRequestId = 6"
| "issue_code_index OrphanRequestScopedEvent = 7"
| "issue_code_index ParentRequestExcluded = 8"
| "issue_code_index ChildIntervalOutsideRequest = 9"
| "issue_code_index PreciseIntervalValidationUnavailable = 10"
| "issue_code_index InvalidWorkerCount = 11"

lemma issue_code_index_inj: "issue_code_index a = issue_code_index b \<Longrightarrow> a = b"
  by (cases a; cases b; simp)

instantiation RunValidationIssueCode :: linorder
begin

definition less_eq_RunValidationIssueCode :: "RunValidationIssueCode \<Rightarrow> RunValidationIssueCode \<Rightarrow> bool" where
  "less_eq_RunValidationIssueCode a b \<longleftrightarrow> issue_code_index a \<le> issue_code_index b"

definition less_RunValidationIssueCode :: "RunValidationIssueCode \<Rightarrow> RunValidationIssueCode \<Rightarrow> bool" where
  "less_RunValidationIssueCode a b \<longleftrightarrow> issue_code_index a < issue_code_index b"

instance
  by standard
    (auto simp: less_eq_RunValidationIssueCode_def less_RunValidationIssueCode_def
      intro: issue_code_index_inj)

end

datatype RunSection = Metadata | Requests | Stages | Queues | Inflight | RuntimeSnapshots

fun section_as_str :: "RunSection \<Rightarrow> string" where
  "section_as_str Metadata = ''metadata''"
| "section_as_str Requests = ''request''"
| "section_as_str Stages = ''stage''"
| "section_as_str Queues = ''queue''"
| "section_as_str Inflight = ''in-flight''"
| "section_as_str RuntimeSnapshots = ''runtime snapshot''"

fun section_index :: "RunSection \<Rightarrow> nat" where
  "section_index Metadata = 0"
| "section_index Requests = 1"
| "section_index Stages = 2"
| "section_index Queues = 3"
| "section_index Inflight = 4"
| "section_index RuntimeSnapshots = 5"

lemma section_index_inj: "section_index a = section_index b \<Longrightarrow> a = b"
  by (cases a; cases b; simp)

instantiation RunSection :: linorder
begin

definition less_eq_RunSection :: "RunSection \<Rightarrow> RunSection \<Rightarrow> bool" where
  "less_eq_RunSection a b \<longleftrightarrow> section_index a \<le> section_index b"

definition less_RunSection :: "RunSection \<Rightarrow> RunSection \<Rightarrow> bool" where
  "less_RunSection a b \<longleftrightarrow> section_index a < section_index b"

instance
  by standard (auto simp: less_eq_RunSection_def less_RunSection_def intro: section_index_inj)

end

record RunValidationLocation =
  loc_section :: RunSection
  loc_index :: "nat option"
  loc_field :: "string option"

record RunValidationIssue =
  iss_code :: RunValidationIssueCode
  iss_severity :: RunValidationSeverity
  iss_location :: RunValidationLocation
  iss_message :: string

record RunValidationReport =
  rep_issues :: "RunValidationIssue list"

datatype RunEventDispositionKind =
    Retained nat
  | Excluded "RunValidationIssueCode list"

record RunEventDisposition =
  disp_section :: RunSection
  disp_input_index :: nat
  disp_disposition :: RunEventDispositionKind

record NormalizedRun =
  nr_run :: Run
  nr_report :: RunValidationReport
  nr_dispositions :: "RunEventDisposition list"

section \<open>The issue context\<close>

type_synonym Ctx = "RunValidationIssue list"
type_synonym codes = "RunValidationIssueCode btree_set"

definition ctx_issue :: "RunSection \<Rightarrow> nat option \<Rightarrow> string option \<Rightarrow> RunValidationIssueCode \<Rightarrow>
    RunValidationSeverity \<Rightarrow> string \<Rightarrow> Ctx \<Rightarrow> Ctx" where
  "ctx_issue section index field code severity message ctx =
     ctx @ [\<lparr>iss_code = code, iss_severity = severity,
             iss_location = \<lparr>loc_section = section, loc_index = index, loc_field = field\<rparr>,
             iss_message = message\<rparr>]"

definition issue_key :: "RunValidationIssue \<Rightarrow> RunSection \<times> nat option \<times> RunValidationIssueCode \<times> string option" where
  "issue_key i = (loc_section (iss_location i), loc_index (iss_location i), iss_code i,
                  loc_field (iss_location i))"

definition sorted_report :: "Ctx \<Rightarrow> RunValidationReport" where
  "sorted_report ctx = \<lparr>rep_issues = sort_key issue_key ctx\<rparr>"

section \<open>Per-event checks\<close>

definition inspect_required :: "RunSection \<Rightarrow> nat \<Rightarrow> string \<Rightarrow> string \<Rightarrow> Ctx \<times> codes \<Rightarrow> Ctx \<times> codes" where
  "inspect_required section i field v = (\<lambda>(ctx, invalid).
     if is_blank v then
       (ctx_issue section (Some i) (Some field) EmptyRequiredField SevError
          (field @ '' must not be blank'') ctx,
        bs_insert EmptyRequiredField invalid)
     else (ctx, invalid))"

definition inspect_time :: "RunSection \<Rightarrow> nat \<Rightarrow> u64 \<Rightarrow> u64 \<Rightarrow> string \<Rightarrow> u64 option \<Rightarrow> u64 option \<Rightarrow>
    u64 \<Rightarrow> Ctx \<times> codes \<times> codes \<Rightarrow> Ctx \<times> codes \<times> codes" where
  "inspect_time section i coarse_start coarse_end field start fin duration =
     (\<lambda>(ctx, invalid, precision_clear).
     let (ctx, invalid) =
       (if coarse_end < coarse_start then
          (ctx_issue section (Some i) (Some field) InvertedInterval SevError
             ''wall-clock end is before start'' ctx,
           bs_insert InvertedInterval invalid)
        else (ctx, invalid))
     in case (start, fin) of
       (None, None) \<Rightarrow>
         (ctx_issue section (Some i) None PreciseIntervalValidationUnavailable SevWarning
            ''run-relative interval is unavailable'' ctx, invalid, precision_clear)
     | (Some s, Some e) \<Rightarrow>
         (if e < s then
            (ctx_issue section (Some i) None InvertedInterval SevError
               ''run-relative end is before start'' ctx,
             invalid, bs_insert InvertedInterval precision_clear)
          else if abs_diff duration (e - s) > RUN_RELATIVE_DURATION_TOLERANCE_US then
            (ctx_issue section (Some i) None DurationMismatch SevError
               ''duration differs from run-relative interval beyond tolerance'' ctx,
             invalid, bs_insert DurationMismatch precision_clear)
          else (ctx, invalid, precision_clear))
     | _ \<Rightarrow>
         (ctx_issue section (Some i) None PartialRunRelativeInterval SevError
            ''run-relative interval is partial'' ctx,
          invalid, bs_insert PartialRunRelativeInterval precision_clear))"

definition inspect_request :: "nat \<Rightarrow> RequestEvent \<Rightarrow> Ctx \<times> codes \<times> codes \<Rightarrow> Ctx \<times> codes \<times> codes" where
  "inspect_request i r = (\<lambda>(ctx, invalid, precision_clear).
     let (ctx, invalid) = inspect_required Requests i ''request_id'' (req_request_id r) (ctx, invalid);
         (ctx, invalid) = inspect_required Requests i ''route'' (req_route r) (ctx, invalid);
         (ctx, invalid) = inspect_required Requests i ''outcome'' (req_outcome r) (ctx, invalid)
     in inspect_time Requests i (req_started_at_unix_ms r) (req_finished_at_unix_ms r)
          ''finished_at_unix_ms'' (req_started_at_run_us r) (req_finished_at_run_us r)
          (req_latency_us r) (ctx, invalid, precision_clear))"

definition inspect_stage :: "nat \<Rightarrow> StageEvent \<Rightarrow> Ctx \<times> codes \<times> codes \<Rightarrow> Ctx \<times> codes \<times> codes" where
  "inspect_stage i s = (\<lambda>(ctx, invalid, precision_clear).
     let (ctx, invalid) = inspect_required Stages i ''request_id'' (stg_request_id s) (ctx, invalid);
         (ctx, invalid) = inspect_required Stages i ''stage'' (stg_stage s) (ctx, invalid)
     in inspect_time Stages i (stg_started_at_unix_ms s) (stg_finished_at_unix_ms s)
          ''finished_at_unix_ms'' (stg_started_at_run_us s) (stg_finished_at_run_us s)
          (stg_latency_us s) (ctx, invalid, precision_clear))"

definition inspect_queue :: "nat \<Rightarrow> QueueEvent \<Rightarrow> Ctx \<times> codes \<times> codes \<Rightarrow> Ctx \<times> codes \<times> codes" where
  "inspect_queue i q = (\<lambda>(ctx, invalid, precision_clear).
     let (ctx, invalid) = inspect_required Queues i ''request_id'' (que_request_id q) (ctx, invalid);
         (ctx, invalid) = inspect_required Queues i ''queue'' (que_queue q) (ctx, invalid)
     in inspect_time Queues i (que_waited_from_unix_ms q) (que_waited_until_unix_ms q)
          ''waited_until_unix_ms'' (que_waited_from_run_us q) (que_waited_until_run_us q)
          (que_wait_us q) (ctx, invalid, precision_clear))"

definition clear_bad_request :: "RequestEvent \<Rightarrow> codes \<Rightarrow> RequestEvent" where
  "clear_bad_request r precision_clear =
     (if precision_clear \<noteq> []
      then r\<lparr>req_started_at_run_us := None, req_finished_at_run_us := None\<rparr> else r)"

definition clear_bad_stage :: "StageEvent \<Rightarrow> codes \<Rightarrow> StageEvent" where
  "clear_bad_stage s precision_clear =
     (if precision_clear \<noteq> []
      then s\<lparr>stg_started_at_run_us := None, stg_finished_at_run_us := None\<rparr> else s)"

definition clear_bad_queue :: "QueueEvent \<Rightarrow> codes \<Rightarrow> QueueEvent" where
  "clear_bad_queue q precision_clear =
     (if precision_clear \<noteq> []
      then q\<lparr>que_waited_from_run_us := None, que_waited_until_run_us := None\<rparr> else q)"

section \<open>Parents and children\<close>

datatype ParentState =
    UniqueRetained "(u64 \<times> u64) option"
  | AmbiguousRetained
  | ExcludedOnly

definition interval :: "u64 option \<Rightarrow> u64 option \<Rightarrow> (u64 \<times> u64) option" where
  "interval start fin = opt_zip start fin"

definition interval_stage :: "StageEvent \<Rightarrow> (u64 \<times> u64) option" where
  "interval_stage s = interval (stg_started_at_run_us s) (stg_finished_at_run_us s)"

definition interval_queue :: "QueueEvent \<Rightarrow> (u64 \<times> u64) option" where
  "interval_queue q = interval (que_waited_from_run_us q) (que_waited_until_run_us q)"

text \<open>
  The first loop groups the retained requests by id and collects the ids of the excluded ones;
  its arguments run in step over the requests, their issue codes and their normalized forms.
\<close>

fun group_requests :: "nat \<Rightarrow> RequestEvent list \<Rightarrow> codes list \<Rightarrow> RequestEvent option list \<Rightarrow>
    (string, (nat \<times> RequestEvent) list) btree \<times> string btree_set \<Rightarrow>
    (string, (nat \<times> RequestEvent) list) btree \<times> string btree_set" where
  "group_requests i (r # rs) (iv # ivs) (n # ns) (retained_by_id, excluded_ids) =
     group_requests (Suc i) rs ivs ns
       (case n of
          Some normalized \<Rightarrow>
            (bt_entry (req_request_id r)
               (\<lambda>v. (case v of None \<Rightarrow> [] | Some l \<Rightarrow> l) @ [(i, normalized)]) retained_by_id,
             excluded_ids)
        | None \<Rightarrow>
            (retained_by_id,
             if iv \<noteq> [] then bs_insert (req_request_id r) excluded_ids else excluded_ids))"
| "group_requests i _ _ _ acc = acc"

definition parent_state_of :: "(nat \<times> RequestEvent) list \<Rightarrow> ParentState" where
  "parent_state_of retained =
     (if length retained > 1 then AmbiguousRetained
      else let request = snd (hd retained)
           in UniqueRetained (interval (req_started_at_run_us request) (req_finished_at_run_us request)))"

definition build_parent_states :: "Run \<Rightarrow> codes list \<Rightarrow> RequestEvent option list \<Rightarrow>
    (string, ParentState) btree" where
  "build_parent_states run request_invalid normalized_requests_by_input =
     (let (retained_by_id, excluded_ids) =
            group_requests 0 (run_requests run) request_invalid normalized_requests_by_input ([], []);
          states = foldl (\<lambda>states (rid, retained). bt_insert rid (parent_state_of retained) states)
                     [] retained_by_id
      in foldl (\<lambda>states rid. bt_entry rid
                  (\<lambda>v. case v of Some s \<Rightarrow> s | None \<Rightarrow> ExcludedOnly) states) states excluded_ids)"

definition child_policy :: "RunSection \<Rightarrow> nat \<Rightarrow> string \<Rightarrow> (string, ParentState) btree \<Rightarrow>
    (u64 \<times> u64) option \<Rightarrow> Ctx \<times> codes \<Rightarrow> Ctx \<times> codes" where
  "child_policy section i rid parents child = (\<lambda>(ctx, invalid).
     case bt_lookup parents rid of
       None \<Rightarrow>
         (ctx_issue section (Some i) (Some ''request_id'') OrphanRequestScopedEvent SevError
            ''no retained parent request matches request_id'' ctx,
          bs_insert OrphanRequestScopedEvent invalid)
     | Some AmbiguousRetained \<Rightarrow>
         (ctx_issue section (Some i) (Some ''request_id'') AmbiguousParentRequestId SevError
            ''parent `request_id` is duplicated'' ctx,
          bs_insert AmbiguousParentRequestId invalid)
     | Some ExcludedOnly \<Rightarrow>
         (ctx_issue section (Some i) (Some ''request_id'') ParentRequestExcluded SevError
            ''parent request was excluded'' ctx,
          bs_insert ParentRequestExcluded invalid)
     | Some (UniqueRetained precise_interval) \<Rightarrow>
         (case (precise_interval, child) of
            (Some (ps, pe), Some (cs, ce)) \<Rightarrow>
              (if cs < ps \<or> ce > pe then
                 (ctx_issue section (Some i) None ChildIntervalOutsideRequest SevError
                    ''child interval lies outside parent request interval'' ctx,
                  bs_insert ChildIntervalOutsideRequest invalid)
               else (ctx, invalid))
          | _ \<Rightarrow> (ctx, invalid)))"

section \<open>\<^verbatim>\<open>normalize_inner\<close>\<close>

text \<open>The dispositions of one section, with the running output index.\<close>

fun add_disps_from :: "nat \<Rightarrow> nat \<Rightarrow> RunSection \<Rightarrow> codes list \<Rightarrow> RunEventDisposition list" where
  "add_disps_from output_index i section [] = []"
| "add_disps_from output_index i section (cs # invalids) =
     (if cs = [] then
        \<lparr>disp_section = section, disp_input_index = i, disp_disposition = Retained output_index\<rparr>
        # add_disps_from (Suc output_index) (Suc i) section invalids
      else
        \<lparr>disp_section = section, disp_input_index = i, disp_disposition = Excluded cs\<rparr>
        # add_disps_from output_index (Suc i) section invalids)"

definition add_disps :: "RunSection \<Rightarrow> codes list \<Rightarrow> RunEventDisposition list \<Rightarrow> RunEventDisposition list" where
  "add_disps section invalids out = out @ add_disps_from 0 0 section invalids"

definition inspect_metadata :: "Run \<Rightarrow> Ctx \<Rightarrow> Ctx" where
  "inspect_metadata run ctx =
     (let ctx = (if run_schema_version run \<noteq> SCHEMA_VERSION then
            ctx_issue Metadata None (Some ''schema_version'') UnsupportedSchemaVersion SevError
              ''unsupported Run schema version'' ctx else ctx);
          ctx = (if is_blank (md_run_id (run_metadata run)) then
            ctx_issue Metadata None (Some ''run_id'') EmptyRequiredField SevError
              ''metadata.run_id must not be blank'' ctx else ctx);
          ctx = (if is_blank (md_service_name (run_metadata run)) then
            ctx_issue Metadata None (Some ''service_name'') EmptyRequiredField SevError
              ''metadata.service_name must not be blank'' ctx else ctx)
      in case md_finalized_at_unix_ms (run_metadata run) of
           Some finalized_at_unix_ms \<Rightarrow>
             (if finalized_at_unix_ms < md_started_at_unix_ms (run_metadata run) then
                ctx_issue Metadata None (Some ''finalized_at_unix_ms'') InvertedInterval SevError
                  ''metadata finalization time is before started time'' ctx
              else ctx)
         | None \<Rightarrow> ctx)"

text \<open>The first request pass: each request is inspected on its own.\<close>

fun inspect_requests :: "nat \<Rightarrow> RequestEvent list \<Rightarrow> Ctx \<Rightarrow> Ctx \<times> codes list \<times> codes list" where
  "inspect_requests i [] ctx = (ctx, [], [])"
| "inspect_requests i (r # rs) ctx =
     (let (ctx, iv, pc) = inspect_request i r (ctx, [], []);
          (ctx, ivs, pcs) = inspect_requests (Suc i) rs ctx
      in (ctx, iv # ivs, pc # pcs))"

definition count_ids :: "RequestEvent list \<Rightarrow> codes list \<Rightarrow> (string, nat) btree" where
  "count_ids rs ivs =
     foldl (\<lambda>counts (r, iv). if iv = [] then
              bt_entry (req_request_id r) (\<lambda>v. (case v of None \<Rightarrow> 0 | Some c \<Rightarrow> c) + 1) counts
            else counts) [] (zip rs ivs)"

definition duplicate_ids :: "(string, nat) btree \<Rightarrow> string btree_set" where
  "duplicate_ids counts = map fst (filter (\<lambda>(_, c). c > 1) counts)"

text \<open>The second request pass: every request that carries a duplicated id is marked.\<close>

fun mark_duplicates :: "string btree_set \<Rightarrow> nat \<Rightarrow> RequestEvent list \<Rightarrow> codes list \<Rightarrow> Ctx \<Rightarrow>
    Ctx \<times> codes list" where
  "mark_duplicates dup_ids i (r # rs) (iv # ivs) ctx =
     (let (ctx, iv) =
            (if req_request_id r \<in> set dup_ids then
               (ctx_issue Requests (Some i) (Some ''request_id'') DuplicateCompletedRequestId SevError
                  ''duplicate completed request_id is ambiguous'' ctx,
                bs_insert DuplicateCompletedRequestId iv)
             else (ctx, iv));
          (ctx, ivs) = mark_duplicates dup_ids (Suc i) rs ivs ctx
      in (ctx, iv # ivs))"
| "mark_duplicates dup_ids i _ ivs ctx = (ctx, ivs)"

definition normalized_by_input :: "RequestEvent list \<Rightarrow> codes list \<Rightarrow> codes list \<Rightarrow> RequestEvent option list" where
  "normalized_by_input rs ivs pcs =
     map (\<lambda>(r, iv, pc). if iv = [] then Some (clear_bad_request r pc) else None)
       (zip rs (zip ivs pcs))"

fun inspect_stages :: "(string, ParentState) btree \<Rightarrow> nat \<Rightarrow> StageEvent list \<Rightarrow> Ctx \<Rightarrow>
    Ctx \<times> codes list \<times> StageEvent list" where
  "inspect_stages parent_states i [] ctx = (ctx, [], [])"
| "inspect_stages parent_states i (s # ss) ctx =
     (let (ctx, iv, pc) = inspect_stage i s (ctx, [], []);
          (ctx, iv) = child_policy Stages i (stg_request_id s) parent_states
                        (interval_stage (clear_bad_stage s pc)) (ctx, iv);
          (ctx, ivs, stages) = inspect_stages parent_states (Suc i) ss ctx
      in (ctx, iv # ivs, if iv = [] then clear_bad_stage s pc # stages else stages))"

fun inspect_queues :: "(string, ParentState) btree \<Rightarrow> nat \<Rightarrow> QueueEvent list \<Rightarrow> Ctx \<Rightarrow>
    Ctx \<times> codes list \<times> QueueEvent list" where
  "inspect_queues parent_states i [] ctx = (ctx, [], [])"
| "inspect_queues parent_states i (q # qs) ctx =
     (let (ctx, iv, pc) = inspect_queue i q (ctx, [], []);
          (ctx, iv) = child_policy Queues i (que_request_id q) parent_states
                        (interval_queue (clear_bad_queue q pc)) (ctx, iv);
          (ctx, ivs, queues) = inspect_queues parent_states (Suc i) qs ctx
      in (ctx, iv # ivs, if iv = [] then clear_bad_queue q pc # queues else queues))"

fun inspect_inflight :: "nat \<Rightarrow> InFlightSnapshot list \<Rightarrow> Ctx \<Rightarrow> Ctx \<times> codes list \<times> InFlightSnapshot list" where
  "inspect_inflight i [] ctx = (ctx, [], [])"
| "inspect_inflight i (s # ss) ctx =
     (if is_blank (inf_gauge s) then
        (let (ctx, ivs, kept) = inspect_inflight (Suc i) ss
               (ctx_issue Inflight (Some i) (Some ''gauge'') EmptyRequiredField SevError
                  ''in-flight gauge must not be blank'' ctx)
         in (ctx, bs_insert EmptyRequiredField [] # ivs, kept))
      else
        (let (ctx, ivs, kept) = inspect_inflight (Suc i) ss ctx
         in (ctx, [] # ivs, s # kept)))"

definition clear_worker_count :: "RuntimeSnapshot \<Rightarrow> RuntimeSnapshot" where
  "clear_worker_count snapshot =
     (if rts_worker_count snapshot = Some 0 then snapshot\<lparr>rts_worker_count := None\<rparr> else snapshot)"

fun inspect_runtime :: "nat \<Rightarrow> RuntimeSnapshot list \<Rightarrow> Ctx \<Rightarrow> Ctx" where
  "inspect_runtime index [] ctx = ctx"
| "inspect_runtime index (snapshot # ss) ctx =
     inspect_runtime (Suc index) ss
       (if rts_worker_count snapshot = Some 0 then
          ctx_issue RuntimeSnapshots (Some index) (Some ''worker_count'') InvalidWorkerCount SevError
            ''runtime snapshot worker_count must be greater than zero when present'' ctx
        else ctx)"

definition normalize_inner :: "Run \<Rightarrow> bool \<Rightarrow> NormalizedRun" where
  "normalize_inner run produce_run =
     (let ctx = inspect_metadata run [];
          (ctx, request_invalid, request_precision_clear) = inspect_requests 0 (run_requests run) ctx;
          dup_ids = duplicate_ids (count_ids (run_requests run) request_invalid);
          (ctx, request_invalid) = mark_duplicates dup_ids 0 (run_requests run) request_invalid ctx;
          normalized_requests_by_input =
            normalized_by_input (run_requests run) request_invalid request_precision_clear;
          parent_states = build_parent_states run request_invalid normalized_requests_by_input;
          parent_states = foldl (\<lambda>ps rid. bt_insert rid AmbiguousRetained ps) parent_states dup_ids;
          retained_requests = List.map_filter id normalized_requests_by_input;
          dispositions = add_disps Requests request_invalid [];
          (ctx, stage_invalid, stages) = inspect_stages parent_states 0 (run_stages run) ctx;
          dispositions = add_disps Stages stage_invalid dispositions;
          (ctx, queue_invalid, queues) = inspect_queues parent_states 0 (run_queues run) ctx;
          dispositions = add_disps Queues queue_invalid dispositions;
          (ctx, inflight_invalid, inflight) = inspect_inflight 0 (run_inflight run) ctx;
          dispositions = add_disps Inflight inflight_invalid dispositions;
          runtime_invalid = map (\<lambda>_. []) (run_runtime_snapshots run);
          ctx = inspect_runtime 0 (run_runtime_snapshots run) ctx;
          dispositions = add_disps RuntimeSnapshots runtime_invalid dispositions;
          normalized =
            (if produce_run then
               run\<lparr>run_requests := retained_requests, run_stages := stages, run_queues := queues,
                   run_inflight := inflight,
                   run_runtime_snapshots := map clear_worker_count (run_runtime_snapshots run)\<rparr>
             else run)
      in \<lparr>nr_run = normalized, nr_report = sorted_report ctx, nr_dispositions = dispositions\<rparr>)"

definition inspect_run :: "Run \<Rightarrow> RunValidationReport" where
  "inspect_run run = nr_report (normalize_inner run False)"

definition normalize_run_permissive :: "Run \<Rightarrow> NormalizedRun" where
  "normalize_run_permissive run = normalize_inner run True"

text \<open>The strict check: the error carries the whole report.\<close>

definition validate_run_strict :: "Run \<Rightarrow> RunValidationReport + unit" where
  "validate_run_strict run =
     (let report = inspect_run run
      in if list_ex (\<lambda>i. iss_severity i = SevError) (rep_issues report) then Inl report else Inr ())"

section \<open>Summaries\<close>

datatype RunValidationSummaryAudience = Analyzer | Lifecycle

datatype SummaryAction =
    EvidenceExcluded
  | OptionalWorkerCountClearedSnapshotRetained
  | OptionalOffsetsClearedDurationRetained
  | OptionalPrecisionUnavailableEvidenceUnchanged
  | MetadataFailedValidation

fun action_as_str :: "SummaryAction \<Rightarrow> string" where
  "action_as_str EvidenceExcluded = ''were excluded from analysis.''"
| "action_as_str OptionalWorkerCountClearedSnapshotRetained =
     ''had invalid optional worker-count evidence cleared while each runtime snapshot was retained.''"
| "action_as_str OptionalOffsetsClearedDurationRetained =
     ''had optional run-relative offsets cleared while authoritative duration evidence was retained.''"
| "action_as_str OptionalPrecisionUnavailableEvidenceUnchanged =
     ''lack optional run-relative precision; legacy duration evidence was retained unchanged.''"
| "action_as_str MetadataFailedValidation = ''failed validation without removing event evidence.''"

fun action_index :: "SummaryAction \<Rightarrow> nat" where
  "action_index EvidenceExcluded = 0"
| "action_index OptionalWorkerCountClearedSnapshotRetained = 1"
| "action_index OptionalOffsetsClearedDurationRetained = 2"
| "action_index OptionalPrecisionUnavailableEvidenceUnchanged = 3"
| "action_index MetadataFailedValidation = 4"

lemma action_index_inj: "action_index a = action_index b \<Longrightarrow> a = b"
  by (cases a; cases b; simp)

instantiation SummaryAction :: linorder
begin

definition less_eq_SummaryAction :: "SummaryAction \<Rightarrow> SummaryAction \<Rightarrow> bool" where
  "less_eq_SummaryAction a b \<longleftrightarrow> action_index a \<le> action_index b"

definition less_SummaryAction :: "SummaryAction \<Rightarrow> SummaryAction \<Rightarrow> bool" where
  "less_SummaryAction a b \<longleftrightarrow> action_index a < action_index b"

instance
  by standard (auto simp: less_eq_SummaryAction_def less_SummaryAction_def intro: action_index_inj)

end

fun changed_canonical_output :: "SummaryAction \<Rightarrow> bool" where
  "changed_canonical_output EvidenceExcluded = True"
| "changed_canonical_output OptionalWorkerCountClearedSnapshotRetained = True"
| "changed_canonical_output OptionalOffsetsClearedDurationRetained = True"
| "changed_canonical_output _ = False"

definition is_excluded :: "RunEventDispositionKind \<Rightarrow> bool" where
  "is_excluded d = (case d of Excluded _ \<Rightarrow> True | Retained _ \<Rightarrow> False)"

definition summary_action :: "NormalizedRun \<Rightarrow> RunValidationIssue \<Rightarrow> SummaryAction" where
  "summary_action normalized issue =
     (if loc_section (iss_location issue) = Metadata then MetadataFailedValidation
      else if (case loc_index (iss_location issue) of
                 Some index \<Rightarrow> list_ex (\<lambda>d. disp_section d = loc_section (iss_location issue)
                                 \<and> disp_input_index d = index \<and> is_excluded (disp_disposition d))
                               (nr_dispositions normalized)
               | None \<Rightarrow> False) then EvidenceExcluded
      else case iss_code issue of
          InvalidWorkerCount \<Rightarrow> OptionalWorkerCountClearedSnapshotRetained
        | PartialRunRelativeInterval \<Rightarrow> OptionalOffsetsClearedDurationRetained
        | DurationMismatch \<Rightarrow> OptionalOffsetsClearedDurationRetained
        | InvertedInterval \<Rightarrow>
            (if loc_field (iss_location issue) = None then OptionalOffsetsClearedDurationRetained
             else EvidenceExcluded)
        | PreciseIntervalValidationUnavailable \<Rightarrow> OptionalPrecisionUnavailableEvidenceUnchanged
        | _ \<Rightarrow> EvidenceExcluded)"

type_synonym summary_groups =
  "(RunValidationIssueCode \<times> RunSection \<times> SummaryAction, nat \<times> string list) btree"

definition summary_sample :: "RunValidationIssue \<Rightarrow> nat \<times> string list \<Rightarrow> nat \<times> string list" where
  "summary_sample issue = (\<lambda>(count, samples).
     (count + 1,
      if length samples < 5 then
        (case loc_index (iss_location issue) of
           Some index \<Rightarrow> samples @ [''index '' @ show_nat index]
         | None \<Rightarrow> (case loc_field (iss_location issue) of
                     Some field \<Rightarrow> samples @ [field] | None \<Rightarrow> samples))
      else samples))"

definition summary_step :: "RunValidationSummaryAudience \<Rightarrow> NormalizedRun \<Rightarrow> summary_groups \<Rightarrow>
    RunValidationIssue \<Rightarrow> summary_groups" where
  "summary_step audience normalized groups issue =
     (if audience = Lifecycle \<and> iss_code issue = PreciseIntervalValidationUnavailable then groups
      else let action = summary_action normalized issue in
        if audience = Lifecycle \<and> \<not> changed_canonical_output action then groups
        else bt_entry (iss_code issue, loc_section (iss_location issue), action)
               (\<lambda>v. summary_sample issue (case v of None \<Rightarrow> (0, []) | Some e \<Rightarrow> e)) groups)"

definition summary_line :: "(RunValidationIssueCode \<times> RunSection \<times> SummaryAction) \<times> nat \<times> string list \<Rightarrow> string" where
  "summary_line = (\<lambda>((code, section, action), (count, samples)).
     ''Run validation '' @ issue_code_as_str code @ '': '' @ show_nat count @ '' '' @
     section_as_str section @ '' '' @ (if section = Metadata then ''finding(s)'' else ''event(s)'') @
     '' '' @ action_as_str action @
     (if samples = [] then [] else '' sample: '' @ join '', '' samples @ ''.''))"

definition summarize_normalized_run :: "NormalizedRun \<Rightarrow> RunValidationSummaryAudience \<Rightarrow> string list" where
  "summarize_normalized_run normalized audience =
     map summary_line
       (foldl (summary_step audience normalized) [] (rep_issues (nr_report normalized)))"

definition summarize_run_validation :: "NormalizedRun \<Rightarrow> string list" where
  "summarize_run_validation normalized = summarize_normalized_run normalized Analyzer"

definition summarize_run_validation_lifecycle :: "NormalizedRun \<Rightarrow> string list" where
  "summarize_run_validation_lifecycle normalized = summarize_normalized_run normalized Lifecycle"

section \<open>Push-time shape checks\<close>

text \<open>The error is the field and the reason.\<close>

definition validate_request_shape :: "RequestEvent \<Rightarrow> (string \<times> string) + unit" where
  "validate_request_shape event =
     (if (case (req_started_at_run_us event, req_finished_at_run_us event) of
            (Some start, Some fin) \<Rightarrow> fin < start | _ \<Rightarrow> False)
      then Inl (''finished_at_run_us'', ''must be >= started_at_run_us'')
      else if is_blank (req_request_id event) then Inl (''request_id'', ''must not be empty'')
      else if is_blank (req_route event) then Inl (''route'', ''must not be empty'')
      else if req_finished_at_unix_ms event < req_started_at_unix_ms event
      then Inl (''finished_at_unix_ms'', ''must be >= started_at_unix_ms'')
      else if is_blank (req_outcome event) then Inl (''outcome'', ''must not be empty'')
      else Inr ())"

definition validate_stage_shape :: "StageEvent \<Rightarrow> (string \<times> string) + unit" where
  "validate_stage_shape event =
     (if (case (stg_started_at_run_us event, stg_finished_at_run_us event) of
            (Some start, Some fin) \<Rightarrow> fin < start | _ \<Rightarrow> False)
      then Inl (''finished_at_run_us'', ''must be >= started_at_run_us'')
      else if is_blank (stg_request_id event) then Inl (''request_id'', ''must not be empty'')
      else if is_blank (stg_stage event) then Inl (''stage'', ''must not be empty'')
      else if stg_finished_at_unix_ms event < stg_started_at_unix_ms event
      then Inl (''finished_at_unix_ms'', ''must be >= started_at_unix_ms'')
      else Inr ())"

definition validate_queue_shape :: "QueueEvent \<Rightarrow> (string \<times> string) + unit" where
  "validate_queue_shape event =
     (if (case (que_waited_from_run_us event, que_waited_until_run_us event) of
            (Some start, Some fin) \<Rightarrow> fin < start | _ \<Rightarrow> False)
      then Inl (''waited_until_run_us'', ''must be >= waited_from_run_us'')
      else if is_blank (que_request_id event) then Inl (''request_id'', ''must not be empty'')
      else if is_blank (que_queue event) then Inl (''queue'', ''must not be empty'')
      else if que_waited_until_unix_ms event < que_waited_from_unix_ms event
      then Inl (''waited_until_unix_ms'', ''must be >= waited_from_unix_ms'')
      else Inr ())"

definition validate_inflight_shape :: "InFlightSnapshot \<Rightarrow> (string \<times> string) + unit" where
  "validate_inflight_shape snapshot =
     (if is_blank (inf_gauge snapshot) then Inl (''gauge'', ''must not be empty'') else Inr ())"

end
