(* ===== verification/Core_Normalize.thy ===== *)
theory Core_Normalize
  imports Core_Validation
begin

text \<open>
  What \<open>normalize_inner\<close> computes. First a declarative specification of permissive
  normalization, written without passes, contexts or indices: which events are well formed, how
  an event with unusable run-relative offsets is repaired, what the parent of a child event is,
  and the run that results. Then the passes are characterised one by one. Requests, stages and
  queues are checked by the same contract, the locale \<open>checked_event\<close>; stages and queues
  extend it to \<open>child_event\<close>, where the parent policy is added. The properties at the end rest
  on the interpretations.
\<close>

section \<open>The specification\<close>

definition precise_ok :: "u64 option \<Rightarrow> u64 option \<Rightarrow> u64 \<Rightarrow> bool" where
  "precise_ok start fin duration = (case (start, fin) of
       (None, None) \<Rightarrow> True
     | (Some s, Some e) \<Rightarrow> s \<le> e \<and> abs_diff duration (e - s) \<le> RUN_RELATIVE_DURATION_TOLERANCE_US
     | _ \<Rightarrow> False)"

definition request_ok :: "RequestEvent \<Rightarrow> bool" where
  "request_ok r \<longleftrightarrow> \<not> is_blank (req_request_id r) \<and> \<not> is_blank (req_route r) \<and>
     \<not> is_blank (req_outcome r) \<and> req_started_at_unix_ms r \<le> req_finished_at_unix_ms r"

definition stage_ok :: "StageEvent \<Rightarrow> bool" where
  "stage_ok s \<longleftrightarrow> \<not> is_blank (stg_request_id s) \<and> \<not> is_blank (stg_stage s) \<and>
     stg_started_at_unix_ms s \<le> stg_finished_at_unix_ms s"

definition queue_ok :: "QueueEvent \<Rightarrow> bool" where
  "queue_ok q \<longleftrightarrow> \<not> is_blank (que_request_id q) \<and> \<not> is_blank (que_queue q) \<and>
     que_waited_from_unix_ms q \<le> que_waited_until_unix_ms q"

definition repair_request :: "RequestEvent \<Rightarrow> RequestEvent" where
  "repair_request r =
     (if precise_ok (req_started_at_run_us r) (req_finished_at_run_us r) (req_latency_us r) then r
      else r\<lparr>req_started_at_run_us := None, req_finished_at_run_us := None\<rparr>)"

definition repair_stage :: "StageEvent \<Rightarrow> StageEvent" where
  "repair_stage s =
     (if precise_ok (stg_started_at_run_us s) (stg_finished_at_run_us s) (stg_latency_us s) then s
      else s\<lparr>stg_started_at_run_us := None, stg_finished_at_run_us := None\<rparr>)"

definition repair_queue :: "QueueEvent \<Rightarrow> QueueEvent" where
  "repair_queue q =
     (if precise_ok (que_waited_from_run_us q) (que_waited_until_run_us q) (que_wait_us q) then q
      else q\<lparr>que_waited_from_run_us := None, que_waited_until_run_us := None\<rparr>)"

definition id_count :: "RequestEvent list \<Rightarrow> string \<Rightarrow> nat" where
  "id_count rs rid = length (filter (\<lambda>r. request_ok r \<and> req_request_id r = rid) rs)"

definition keep_request :: "RequestEvent list \<Rightarrow> RequestEvent \<Rightarrow> bool" where
  "keep_request rs r \<longleftrightarrow> request_ok r \<and> id_count rs (req_request_id r) \<le> 1"

definition request_span :: "RequestEvent \<Rightarrow> (u64 \<times> u64) option" where
  "request_span r = interval (req_started_at_run_us r) (req_finished_at_run_us r)"

text \<open>The parent a child event with this id finds among the requests of the run.\<close>

definition parent_of :: "RequestEvent list \<Rightarrow> string \<Rightarrow> ParentState option" where
  "parent_of rs rid =
     (case filter (\<lambda>r. request_ok r \<and> req_request_id r = rid) rs of
        [] \<Rightarrow> if rid \<in> req_request_id ` set rs then Some ExcludedOnly else None
      | [r] \<Rightarrow> Some (UniqueRetained (request_span (repair_request r)))
      | _ \<Rightarrow> Some AmbiguousRetained)"

definition within_parent :: "ParentState option \<Rightarrow> (u64 \<times> u64) option \<Rightarrow> bool" where
  "within_parent parent child = (case parent of
       Some (UniqueRetained (Some (ps, pe))) \<Rightarrow>
         (case child of Some (cs, ce) \<Rightarrow> ps \<le> cs \<and> ce \<le> pe | None \<Rightarrow> True)
     | Some (UniqueRetained None) \<Rightarrow> True
     | _ \<Rightarrow> False)"

definition keep_stage :: "RequestEvent list \<Rightarrow> StageEvent \<Rightarrow> bool" where
  "keep_stage rs s \<longleftrightarrow> stage_ok s \<and>
     within_parent (parent_of rs (stg_request_id s)) (interval_stage (repair_stage s))"

definition keep_queue :: "RequestEvent list \<Rightarrow> QueueEvent \<Rightarrow> bool" where
  "keep_queue rs q \<longleftrightarrow> queue_ok q \<and>
     within_parent (parent_of rs (que_request_id q)) (interval_queue (repair_queue q))"

definition canonical_run :: "Run \<Rightarrow> Run" where
  "canonical_run run = run
     \<lparr>run_requests := map repair_request (filter (keep_request (run_requests run)) (run_requests run)),
      run_stages := map repair_stage (filter (keep_stage (run_requests run)) (run_stages run)),
      run_queues := map repair_queue (filter (keep_queue (run_requests run)) (run_queues run)),
      run_inflight := filter (\<lambda>s. \<not> is_blank (inf_gauge s)) (run_inflight run),
      run_runtime_snapshots := map clear_worker_count (run_runtime_snapshots run)\<rparr>"

definition metadata_ok :: "Run \<Rightarrow> bool" where
  "metadata_ok run \<longleftrightarrow> run_schema_version run = SCHEMA_VERSION \<and>
     \<not> is_blank (md_run_id (run_metadata run)) \<and>
     \<not> is_blank (md_service_name (run_metadata run)) \<and>
     (case md_finalized_at_unix_ms (run_metadata run) of
        Some f \<Rightarrow> md_started_at_unix_ms (run_metadata run) \<le> f | None \<Rightarrow> True)"

lemma repair_request_frame [simp]:
  "req_request_id (repair_request r) = req_request_id r"
  "request_ok (repair_request r) = request_ok r"
  "repair_request (repair_request r) = repair_request r"
  by (auto simp: repair_request_def request_ok_def precise_ok_def)

lemma repair_stage_frame [simp]:
  "stg_request_id (repair_stage s) = stg_request_id s"
  "stage_ok (repair_stage s) = stage_ok s"
  "repair_stage (repair_stage s) = repair_stage s"
  by (auto simp: repair_stage_def stage_ok_def precise_ok_def)

lemma repair_queue_frame [simp]:
  "que_request_id (repair_queue q) = que_request_id q"
  "queue_ok (repair_queue q) = queue_ok q"
  "repair_queue (repair_queue q) = repair_queue q"
  by (auto simp: repair_queue_def queue_ok_def precise_ok_def)

lemma clear_worker_count_idem [simp]: "clear_worker_count (clear_worker_count t) = clear_worker_count t"
  by (simp add: clear_worker_count_def)

section \<open>The per-event checks\<close>

definition issue_at :: "RunSection \<Rightarrow> nat option \<Rightarrow> string option \<Rightarrow> RunValidationIssueCode \<Rightarrow>
    RunValidationSeverity \<Rightarrow> string \<Rightarrow> RunValidationIssue" where
  "issue_at section index field code severity message =
     \<lparr>iss_code = code, iss_severity = severity,
      iss_location = \<lparr>loc_section = section, loc_index = index, loc_field = field\<rparr>,
      iss_message = message\<rparr>"

lemma ctx_issue_eq: "ctx_issue section index field code severity message ctx =
    ctx @ [issue_at section index field code severity message]"
  by (simp add: ctx_issue_def issue_at_def)

lemma issue_at_sel [simp]:
  "iss_code (issue_at section index field code severity message) = code"
  "iss_severity (issue_at section index field code severity message) = severity"
  "loc_section (iss_location (issue_at section index field code severity message)) = section"
  "loc_index (iss_location (issue_at section index field code severity message)) = index"
  "loc_field (iss_location (issue_at section index field code severity message)) = field"
  by (simp_all add: issue_at_def)

definition blank_issues :: "RunSection \<Rightarrow> nat \<Rightarrow> (string \<times> string) list \<Rightarrow> RunValidationIssue list" where
  "blank_issues section i reqd =
     map (\<lambda>(field, v). issue_at section (Some i) (Some field) EmptyRequiredField SevError
            (field @ '' must not be blank''))
       (filter (\<lambda>(field, v). is_blank v) reqd)"

definition event_codes :: "(string \<times> string) list \<Rightarrow> u64 \<Rightarrow> u64 \<Rightarrow> codes" where
  "event_codes reqd coarse_start coarse_end =
     (if list_ex (\<lambda>(field, v). is_blank v) reqd then [EmptyRequiredField] else []) @
     (if coarse_end < coarse_start then [InvertedInterval] else [])"

definition precision_fault :: "u64 option \<Rightarrow> u64 option \<Rightarrow> u64 \<Rightarrow> (RunValidationIssueCode \<times> string) option" where
  "precision_fault start fin duration = (case (start, fin) of
       (None, None) \<Rightarrow> None
     | (Some s, Some e) \<Rightarrow>
         (if e < s then Some (InvertedInterval, ''run-relative end is before start'')
          else if abs_diff duration (e - s) > RUN_RELATIVE_DURATION_TOLERANCE_US
          then Some (DurationMismatch, ''duration differs from run-relative interval beyond tolerance'')
          else None)
     | _ \<Rightarrow> Some (PartialRunRelativeInterval, ''run-relative interval is partial''))"

definition time_issues :: "RunSection \<Rightarrow> nat \<Rightarrow> u64 \<Rightarrow> u64 \<Rightarrow> string \<Rightarrow> u64 option \<Rightarrow> u64 option \<Rightarrow>
    u64 \<Rightarrow> RunValidationIssue list" where
  "time_issues section i coarse_start coarse_end field start fin duration =
     (if coarse_end < coarse_start
      then [issue_at section (Some i) (Some field) InvertedInterval SevError
              ''wall-clock end is before start''] else []) @
     (case precision_fault start fin duration of
        Some (code, message) \<Rightarrow> [issue_at section (Some i) None code SevError message]
      | None \<Rightarrow> if start = None
          then [issue_at section (Some i) None PreciseIntervalValidationUnavailable SevWarning
                  ''run-relative interval is unavailable''] else [])"

definition fault_codes :: "u64 option \<Rightarrow> u64 option \<Rightarrow> u64 \<Rightarrow> codes" where
  "fault_codes start fin duration =
     (case precision_fault start fin duration of Some (code, _) \<Rightarrow> [code] | None \<Rightarrow> [])"

lemma fault_codes_Nil: "fault_codes start fin duration = [] \<longleftrightarrow> precise_ok start fin duration"
  by (auto simp: fault_codes_def precision_fault_def precise_ok_def split: option.splits)

lemma bs_insert_codes [simp]:
  "bs_insert c [] = [c]"
  "bs_insert EmptyRequiredField [EmptyRequiredField] = [EmptyRequiredField]"
  "bs_insert InvertedInterval [EmptyRequiredField] = [EmptyRequiredField, InvertedInterval]"
  by (simp_all add: bs_insert_def insort_insert_key_def less_eq_RunValidationIssueCode_def)

lemma inspect_time_eq:
  "inspect_time section i a b field start fin duration (ctx, iv, []) =
     (ctx @ time_issues section i a b field start fin duration,
      (if b < a then bs_insert InvertedInterval iv else iv),
      fault_codes start fin duration)"
  by (cases start; cases fin)
    (simp_all add: inspect_time_def time_issues_def precision_fault_def fault_codes_def ctx_issue_eq Let_def)

lemma inspect_required_eq:
  "inspect_required section i field v (ctx, iv) =
     (ctx @ blank_issues section i [(field, v)],
      if is_blank v then bs_insert EmptyRequiredField iv else iv)"
  by (simp add: inspect_required_def blank_issues_def ctx_issue_eq)

lemma blank_issues_Cons:
  "blank_issues section i ((f, v) # fs) = blank_issues section i [(f, v)] @ blank_issues section i fs"
  by (simp add: blank_issues_def)

lemma event_codes_Nil:
  "event_codes reqd a b = [] \<longleftrightarrow> (\<forall>(f, v)\<in>set reqd. \<not> is_blank v) \<and> a \<le> b"
  by (auto simp: event_codes_def list_ex_iff not_less)

definition event_issues :: "RunSection \<Rightarrow> nat \<Rightarrow> (string \<times> string) list \<Rightarrow> u64 \<Rightarrow> u64 \<Rightarrow> string \<Rightarrow>
    u64 option \<Rightarrow> u64 option \<Rightarrow> u64 \<Rightarrow> RunValidationIssue list" where
  "event_issues section i reqd a b field start fin duration =
     blank_issues section i reqd @ time_issues section i a b field start fin duration"

text \<open>What a retained event's issue can be: a fault of its optional offsets, which are cleared.\<close>

definition offset_issue :: "RunValidationIssue \<Rightarrow> bool" where
  "offset_issue x \<longleftrightarrow> iss_code x = PartialRunRelativeInterval \<or> iss_code x = DurationMismatch \<or>
     iss_code x = InvertedInterval \<and> loc_field (iss_location x) = None"

lemma event_issues_location:
  "x \<in> set (event_issues section i reqd a b field start fin duration) \<Longrightarrow>
     loc_section (iss_location x) = section \<and> loc_index (iss_location x) = Some i"
  by (auto simp: event_issues_def blank_issues_def time_issues_def split: option.splits if_splits)

lemma event_issues_error:
  "(\<exists>x\<in>set (event_issues section i reqd a b field start fin duration). iss_severity x = SevError)
     \<longleftrightarrow> \<not> (event_codes reqd a b = [] \<and> precise_ok start fin duration)"
  by (auto simp: event_issues_def blank_issues_def time_issues_def event_codes_def list_ex_iff
      fault_codes_Nil [symmetric] fault_codes_def split: option.splits if_splits)

lemma event_issues_warning:
  "x \<in> set (event_issues section i reqd a b field start fin duration) \<Longrightarrow>
     iss_severity x = SevWarning \<longleftrightarrow> iss_code x = PreciseIntervalValidationUnavailable"
  by (auto simp: event_issues_def blank_issues_def time_issues_def precision_fault_def
      split: option.splits if_splits)

lemma event_issues_retained:
  "x \<in> set (event_issues section i reqd a b field start fin duration) \<Longrightarrow>
     event_codes reqd a b = [] \<Longrightarrow> iss_severity x = SevError \<Longrightarrow> offset_issue x"
  by (auto simp: event_issues_def blank_issues_def time_issues_def event_codes_def list_ex_iff
      precision_fault_def offset_issue_def split: option.splits if_splits)

section \<open>The contract of an inspected event\<close>

text \<open>
  \<open>inspect\<close> appends the issues of the event to the context and yields its exclusion codes and
  the codes that clear its offsets; \<open>ok\<close> and \<open>repair\<close> are the specification of both.
\<close>

locale checked_event =
  fixes sect :: RunSection
    and ok :: "'e \<Rightarrow> bool"
    and repair :: "'e \<Rightarrow> 'e"
    and clear :: "'e \<Rightarrow> codes \<Rightarrow> 'e"
    and issues :: "nat \<Rightarrow> 'e \<Rightarrow> RunValidationIssue list"
    and invalid :: "'e \<Rightarrow> codes"
    and faults :: "'e \<Rightarrow> codes"
    and inspect :: "nat \<Rightarrow> 'e \<Rightarrow> Ctx \<times> codes \<times> codes \<Rightarrow> Ctx \<times> codes \<times> codes"
  assumes inspect_eq: "inspect i e (ctx, [], []) = (ctx @ issues i e, invalid e, faults e)"
    and invalid_Nil: "invalid e = [] \<longleftrightarrow> ok e"
    and clear_eq: "clear e (faults e) = repair e"
    and repair_ok: "ok (repair e) = ok e"
    and repair_idem: "repair (repair e) = repair e"
    and issues_location: "x \<in> set (issues i e) \<Longrightarrow>
          loc_section (iss_location x) = sect \<and> loc_index (iss_location x) = Some i"
    and issues_error: "(\<exists>x\<in>set (issues i e). iss_severity x = SevError) \<longleftrightarrow> \<not> (ok e \<and> repair e = e)"
    and issues_warning: "x \<in> set (issues i e) \<Longrightarrow>
          iss_severity x = SevWarning \<longleftrightarrow> iss_code x = PreciseIntervalValidationUnavailable"
    and issues_retained: "x \<in> set (issues i e) \<Longrightarrow> ok e \<Longrightarrow> iss_severity x = SevError \<Longrightarrow> offset_issue x"

definition request_required :: "RequestEvent \<Rightarrow> (string \<times> string) list" where
  "request_required r =
     [(''request_id'', req_request_id r), (''route'', req_route r), (''outcome'', req_outcome r)]"

definition stage_required :: "StageEvent \<Rightarrow> (string \<times> string) list" where
  "stage_required s = [(''request_id'', stg_request_id s), (''stage'', stg_stage s)]"

definition queue_required :: "QueueEvent \<Rightarrow> (string \<times> string) list" where
  "queue_required q = [(''request_id'', que_request_id q), (''queue'', que_queue q)]"

definition request_issues :: "nat \<Rightarrow> RequestEvent \<Rightarrow> RunValidationIssue list" where
  "request_issues i r = event_issues Requests i (request_required r) (req_started_at_unix_ms r)
     (req_finished_at_unix_ms r) ''finished_at_unix_ms'' (req_started_at_run_us r)
     (req_finished_at_run_us r) (req_latency_us r)"

definition stage_issues :: "nat \<Rightarrow> StageEvent \<Rightarrow> RunValidationIssue list" where
  "stage_issues i s = event_issues Stages i (stage_required s) (stg_started_at_unix_ms s)
     (stg_finished_at_unix_ms s) ''finished_at_unix_ms'' (stg_started_at_run_us s)
     (stg_finished_at_run_us s) (stg_latency_us s)"

definition queue_issues :: "nat \<Rightarrow> QueueEvent \<Rightarrow> RunValidationIssue list" where
  "queue_issues i q = event_issues Queues i (queue_required q) (que_waited_from_unix_ms q)
     (que_waited_until_unix_ms q) ''waited_until_unix_ms'' (que_waited_from_run_us q)
     (que_waited_until_run_us q) (que_wait_us q)"

definition request_codes :: "RequestEvent \<Rightarrow> codes" where
  "request_codes r = event_codes (request_required r) (req_started_at_unix_ms r) (req_finished_at_unix_ms r)"

definition stage_codes :: "StageEvent \<Rightarrow> codes" where
  "stage_codes s = event_codes (stage_required s) (stg_started_at_unix_ms s) (stg_finished_at_unix_ms s)"

definition queue_codes :: "QueueEvent \<Rightarrow> codes" where
  "queue_codes q = event_codes (queue_required q) (que_waited_from_unix_ms q) (que_waited_until_unix_ms q)"

definition request_faults :: "RequestEvent \<Rightarrow> codes" where
  "request_faults r = fault_codes (req_started_at_run_us r) (req_finished_at_run_us r) (req_latency_us r)"

definition stage_faults :: "StageEvent \<Rightarrow> codes" where
  "stage_faults s = fault_codes (stg_started_at_run_us s) (stg_finished_at_run_us s) (stg_latency_us s)"

definition queue_faults :: "QueueEvent \<Rightarrow> codes" where
  "queue_faults q = fault_codes (que_waited_from_run_us q) (que_waited_until_run_us q) (que_wait_us q)"

lemmas request_spec_defs = request_issues_def request_codes_def request_faults_def request_required_def
lemmas stage_spec_defs = stage_issues_def stage_codes_def stage_faults_def stage_required_def
lemmas queue_spec_defs = queue_issues_def queue_codes_def queue_faults_def queue_required_def

lemma inspect_request_eq:
  "inspect_request i r (ctx, [], []) = (ctx @ request_issues i r, request_codes r, request_faults r)"
  by (simp add: inspect_request_def inspect_required_eq inspect_time_eq request_spec_defs
      event_issues_def event_codes_def blank_issues_Cons [where fs = "_ # _"])

lemma inspect_stage_eq:
  "inspect_stage i s (ctx, [], []) = (ctx @ stage_issues i s, stage_codes s, stage_faults s)"
  by (simp add: inspect_stage_def inspect_required_eq inspect_time_eq stage_spec_defs
      event_issues_def event_codes_def blank_issues_Cons [where fs = "_ # _"])

lemma inspect_queue_eq:
  "inspect_queue i q (ctx, [], []) = (ctx @ queue_issues i q, queue_codes q, queue_faults q)"
  by (simp add: inspect_queue_def inspect_required_eq inspect_time_eq queue_spec_defs
      event_issues_def event_codes_def blank_issues_Cons [where fs = "_ # _"])

lemma precise_ok_None [simp]: "precise_ok None None d"
  by (simp add: precise_ok_def)

lemma repair_request_id_iff: "repair_request r = r \<longleftrightarrow>
    precise_ok (req_started_at_run_us r) (req_finished_at_run_us r) (req_latency_us r)"
  by (cases r) (auto simp: repair_request_def)

lemma repair_stage_id_iff: "repair_stage s = s \<longleftrightarrow>
    precise_ok (stg_started_at_run_us s) (stg_finished_at_run_us s) (stg_latency_us s)"
  by (cases s) (auto simp: repair_stage_def)

lemma repair_queue_id_iff: "repair_queue q = q \<longleftrightarrow>
    precise_ok (que_waited_from_run_us q) (que_waited_until_run_us q) (que_wait_us q)"
  by (cases q) (auto simp: repair_queue_def)

lemma request_codes_Nil: "request_codes r = [] \<longleftrightarrow> request_ok r"
  by (auto simp: request_spec_defs event_codes_Nil request_ok_def)

lemma stage_codes_Nil: "stage_codes s = [] \<longleftrightarrow> stage_ok s"
  by (auto simp: stage_spec_defs event_codes_Nil stage_ok_def)

lemma queue_codes_Nil: "queue_codes q = [] \<longleftrightarrow> queue_ok q"
  by (auto simp: queue_spec_defs event_codes_Nil queue_ok_def)

interpretation requests: checked_event Requests request_ok repair_request clear_bad_request
  request_issues request_codes request_faults inspect_request
proof
  fix i :: nat and e :: RequestEvent and x
  show "clear_bad_request e (request_faults e) = repair_request e"
    by (simp add: clear_bad_request_def repair_request_def request_faults_def fault_codes_Nil)
  show "(\<exists>x\<in>set (request_issues i e). iss_severity x = SevError) \<longleftrightarrow>
      \<not> (request_ok e \<and> repair_request e = e)"
    unfolding request_issues_def event_issues_error request_codes_Nil [symmetric]
    by (simp add: request_codes_def repair_request_id_iff)
  assume x: "x \<in> set (request_issues i e)"
  then show "loc_section (iss_location x) = Requests \<and> loc_index (iss_location x) = Some i"
    unfolding request_issues_def by (rule event_issues_location)
  show "iss_severity x = SevWarning \<longleftrightarrow> iss_code x = PreciseIntervalValidationUnavailable"
    using x unfolding request_issues_def by (rule event_issues_warning)
  assume "request_ok e" and "iss_severity x = SevError"
  then show "offset_issue x"
    using x event_issues_retained unfolding request_issues_def request_codes_Nil [symmetric]
      request_codes_def by blast
qed (simp_all add: inspect_request_eq request_codes_Nil)

interpretation stages: checked_event Stages stage_ok repair_stage clear_bad_stage
  stage_issues stage_codes stage_faults inspect_stage
proof
  fix i :: nat and e :: StageEvent and x
  show "clear_bad_stage e (stage_faults e) = repair_stage e"
    by (simp add: clear_bad_stage_def repair_stage_def stage_faults_def fault_codes_Nil)
  show "(\<exists>x\<in>set (stage_issues i e). iss_severity x = SevError) \<longleftrightarrow>
      \<not> (stage_ok e \<and> repair_stage e = e)"
    unfolding stage_issues_def event_issues_error stage_codes_Nil [symmetric]
    by (simp add: stage_codes_def repair_stage_id_iff)
  assume x: "x \<in> set (stage_issues i e)"
  then show "loc_section (iss_location x) = Stages \<and> loc_index (iss_location x) = Some i"
    unfolding stage_issues_def by (rule event_issues_location)
  show "iss_severity x = SevWarning \<longleftrightarrow> iss_code x = PreciseIntervalValidationUnavailable"
    using x unfolding stage_issues_def by (rule event_issues_warning)
  assume "stage_ok e" and "iss_severity x = SevError"
  then show "offset_issue x"
    using x event_issues_retained unfolding stage_issues_def stage_codes_Nil [symmetric]
      stage_codes_def by blast
qed (simp_all add: inspect_stage_eq stage_codes_Nil)

interpretation queues: checked_event Queues queue_ok repair_queue clear_bad_queue
  queue_issues queue_codes queue_faults inspect_queue
proof
  fix i :: nat and e :: QueueEvent and x
  show "clear_bad_queue e (queue_faults e) = repair_queue e"
    by (simp add: clear_bad_queue_def repair_queue_def queue_faults_def fault_codes_Nil)
  show "(\<exists>x\<in>set (queue_issues i e). iss_severity x = SevError) \<longleftrightarrow>
      \<not> (queue_ok e \<and> repair_queue e = e)"
    unfolding queue_issues_def event_issues_error queue_codes_Nil [symmetric]
    by (simp add: queue_codes_def repair_queue_id_iff)
  assume x: "x \<in> set (queue_issues i e)"
  then show "loc_section (iss_location x) = Queues \<and> loc_index (iss_location x) = Some i"
    unfolding queue_issues_def by (rule event_issues_location)
  show "iss_severity x = SevWarning \<longleftrightarrow> iss_code x = PreciseIntervalValidationUnavailable"
    using x unfolding queue_issues_def by (rule event_issues_warning)
  assume "queue_ok e" and "iss_severity x = SevError"
  then show "offset_issue x"
    using x event_issues_retained unfolding queue_issues_def queue_codes_Nil [symmetric]
      queue_codes_def by blast
qed (simp_all add: inspect_queue_eq queue_codes_Nil)

section \<open>The request passes\<close>

definition request_codes_in :: "RequestEvent list \<Rightarrow> RequestEvent \<Rightarrow> codes" where
  "request_codes_in rs r =
     (if id_count rs (req_request_id r) > 1 then bs_insert DuplicateCompletedRequestId (request_codes r)
      else request_codes r)"

definition duplicate_issues :: "RequestEvent list \<Rightarrow> nat \<Rightarrow> RequestEvent \<Rightarrow> RunValidationIssue list" where
  "duplicate_issues rs i r =
     (if id_count rs (req_request_id r) > 1
      then [issue_at Requests (Some i) (Some ''request_id'') DuplicateCompletedRequestId SevError
              ''duplicate completed request_id is ambiguous''] else [])"

definition indexed :: "(nat \<Rightarrow> 'e \<Rightarrow> 'i list) \<Rightarrow> nat \<Rightarrow> 'e list \<Rightarrow> 'i list" where
  "indexed f i es = concat (map (\<lambda>(j, e). f j e) (enumerate i es))"

lemma indexed_simps [simp]:
  "indexed f i [] = []"
  "indexed f i (e # es) = f i e @ indexed f (Suc i) es"
  by (simp_all add: indexed_def)

lemma set_indexed: "x \<in> set (indexed f i es) \<longleftrightarrow> (\<exists>j<length es. x \<in> set (f (i + j) (es ! j)))"
proof (induction es arbitrary: i)
  case (Cons e es)
  show ?case unfolding indexed_simps set_append Un_iff Cons.IH
    by (auto simp: less_Suc_eq_0_disj)
qed simp

lemma request_codes_in_Nil: "request_codes_in rs r = [] \<longleftrightarrow> keep_request rs r"
  by (auto simp: request_codes_in_def keep_request_def request_codes_Nil)

lemma inspect_requests_eq:
  "inspect_requests i rs ctx =
     (ctx @ indexed request_issues i rs, map request_codes rs, map request_faults rs)"
  by (induction rs arbitrary: i ctx) (simp_all add: inspect_request_eq)

definition count_step :: "(string, nat) btree \<Rightarrow> RequestEvent \<times> codes \<Rightarrow> (string, nat) btree" where
  "count_step = (\<lambda>counts (r, iv). if iv = [] then
      bt_entry (req_request_id r) (\<lambda>v. (case v of None \<Rightarrow> 0 | Some c \<Rightarrow> c) + 1) counts else counts)"

lemma count_ids_step:
  assumes "bt_wf m"
  shows "bt_wf (foldl count_step m (zip rs (map request_codes rs))) \<and>
    bt_lookup (foldl count_step m (zip rs (map request_codes rs))) rid =
      (if id_count rs rid = 0 then bt_lookup m rid
       else Some ((case bt_lookup m rid of None \<Rightarrow> 0 | Some c \<Rightarrow> c) + id_count rs rid))"
  using assms
proof (induction rs arbitrary: m)
  case Nil
  then show ?case by (simp add: id_count_def)
next
  case (Cons r rs)
  then show ?case
    by (auto simp: count_step_def id_count_def request_codes_Nil bt_wf_entry bt_lookup_entry)
qed

lemma count_ids_wf: "bt_wf (count_ids rs (map request_codes rs))"
  and count_ids_lookup: "bt_lookup (count_ids rs (map request_codes rs)) rid =
    (if id_count rs rid = 0 then None else Some (id_count rs rid))"
  using count_ids_step [of "[]" rs rid] by (simp_all add: count_ids_def count_step_def)

lemma set_duplicate_ids:
  "set (duplicate_ids (count_ids rs (map request_codes rs))) = {rid. id_count rs rid > 1}"
proof -
  let ?m = "count_ids rs (map request_codes rs)"
  have "(rid, c) \<in> set ?m \<longleftrightarrow> bt_lookup ?m rid = Some c" for rid c
    using count_ids_wf [of rs] by (simp add: bt_lookup_def bt_wf_distinct)
  then have "(\<exists>c. (rid, c) \<in> set ?m \<and> c > 1) \<longleftrightarrow> id_count rs rid > 1" for rid
    by (auto simp: count_ids_lookup)
  moreover have "set (duplicate_ids ?m) = {rid. \<exists>c. (rid, c) \<in> set ?m \<and> c > 1}"
    unfolding duplicate_ids_def set_map set_filter by (auto simp: image_iff simp del: One_nat_def)
  ultimately show ?thesis by simp
qed

lemma mark_duplicates_eq:
  assumes "\<And>rid. rid \<in> set dup_ids \<longleftrightarrow> id_count rs rid > 1"
  shows "mark_duplicates dup_ids i rs' (map request_codes rs') ctx =
     (ctx @ indexed (duplicate_issues rs) i rs', map (request_codes_in rs) rs')"
  using assms
  by (induction rs' arbitrary: i ctx)
    (simp_all add: duplicate_issues_def request_codes_in_def ctx_issue_eq)

lemma normalized_by_input_eq:
  "normalized_by_input rs' (map (request_codes_in rs) rs') (map request_faults rs') =
     map (\<lambda>r. if keep_request rs r then Some (repair_request r) else None) rs'"
  by (induction rs')
    (auto simp: normalized_by_input_def request_codes_in_Nil requests.clear_eq)

lemma map_filter_keep:
  "List.map_filter id (map (\<lambda>r. if P r then Some (f r) else None) xs) = map f (filter P xs)"
  by (induction xs) (simp_all add: List.map_filter_simps)

subsection \<open>The parent states\<close>

abbreviation retained_entry :: "(nat \<times> RequestEvent) list option \<Rightarrow> (nat \<times> RequestEvent) list" where
  "retained_entry v \<equiv> (case v of None \<Rightarrow> [] | Some l \<Rightarrow> l)"

lemma group_requests_eq:
  assumes "bt_wf m"
  shows "(case group_requests i rs' (map (request_codes_in rs) rs')
            (map (\<lambda>r. if keep_request rs r then Some (repair_request r) else None) rs') (m, ex) of
     (m', ex') \<Rightarrow> bt_wf m' \<and> set ex' = set ex \<union> req_request_id ` {r \<in> set rs'. \<not> keep_request rs r} \<and>
      map snd (retained_entry (bt_lookup m' rid)) = map snd (retained_entry (bt_lookup m rid)) @
        map repair_request (filter (\<lambda>r. keep_request rs r \<and> req_request_id r = rid) rs') \<and>
      (bt_lookup m' rid = None \<longleftrightarrow> bt_lookup m rid = None \<and>
         filter (\<lambda>r. keep_request rs r \<and> req_request_id r = rid) rs' = []))"
  using assms
proof (induction rs' arbitrary: i m ex)
  case (Cons r rs')
  show ?case
  proof (cases "keep_request rs r")
    case True
    let ?m = "bt_entry (req_request_id r) (\<lambda>v. retained_entry v @ [(i, repair_request r)]) m"
    have "bt_wf ?m" using Cons.prems by (rule bt_wf_entry)
    from Cons.IH [OF this, where i = "Suc i" and ex = ex] show ?thesis
      using True Cons.prems by (auto simp: bt_lookup_entry split: prod.splits)
  next
    case False
    then have iv: "request_codes_in rs r \<noteq> []" by (simp add: request_codes_in_Nil)
    from Cons.IH [OF Cons.prems, where i = "Suc i" and ex = "bs_insert (req_request_id r) ex"] show ?thesis
      using False iv by (auto split: prod.splits)
  qed
qed (simp add: id_count_def)

lemma foldl_insert_states:
  assumes "bt_wf st" and "distinct (map fst m)"
  shows "bt_wf (foldl (\<lambda>st (rid, v). bt_insert rid (f v) st) st m) \<and>
    bt_lookup (foldl (\<lambda>st (rid, v). bt_insert rid (f v) st) st m) rid =
      (case map_of m rid of Some v \<Rightarrow> Some (f v) | None \<Rightarrow> bt_lookup st rid)"
  using assms
proof (induction m arbitrary: st)
  case (Cons e m)
  obtain k v where e: "e = (k, v)" by (cases e)
  have "map_of m k = None" using Cons.prems e by (simp add: map_of_eq_None_iff)
  moreover have "bt_wf (bt_insert k (f v) st)" using Cons.prems by (simp add: bt_insert_def bt_wf_entry)
  ultimately show ?case
    using Cons.IH [of "bt_insert k (f v) st"] Cons.prems e
    by (auto simp: bt_insert_def bt_lookup_entry split: option.splits)
qed simp

lemma foldl_or_insert:
  assumes "bt_wf st"
  shows "bt_wf (foldl (\<lambda>st rid. bt_entry rid (\<lambda>v. case v of Some s \<Rightarrow> s | None \<Rightarrow> d) st) st ex) \<and>
    bt_lookup (foldl (\<lambda>st rid. bt_entry rid (\<lambda>v. case v of Some s \<Rightarrow> s | None \<Rightarrow> d) st) st ex) rid =
      (case bt_lookup st rid of Some s \<Rightarrow> Some s | None \<Rightarrow> if rid \<in> set ex then Some d else None)"
  using assms
proof (induction ex arbitrary: st)
  case (Cons k ex)
  have "bt_wf (bt_entry k (\<lambda>v. case v of Some s \<Rightarrow> s | None \<Rightarrow> d) st)" using Cons.prems by (rule bt_wf_entry)
  from Cons.IH [OF this] show ?case
    using Cons.prems by (auto simp: bt_lookup_entry split: option.splits)
qed (simp split: option.splits)

lemma foldl_insert_const:
  assumes "bt_wf st"
  shows "bt_wf (foldl (\<lambda>st rid. bt_insert rid d st) st ks) \<and>
    bt_lookup (foldl (\<lambda>st rid. bt_insert rid d st) st ks) rid =
      (if rid \<in> set ks then Some d else bt_lookup st rid)"
  using assms
proof (induction ks arbitrary: st)
  case (Cons k ks)
  have "bt_wf (bt_insert k d st)" using Cons.prems by (simp add: bt_insert_def bt_wf_entry)
  from Cons.IH [OF this] show ?case
    using Cons.prems by (simp add: bt_insert_def bt_lookup_entry)
qed simp

lemma filter_keep_id:
  "filter (\<lambda>r. keep_request rs r \<and> req_request_id r = rid) rs =
     (if id_count rs rid \<le> 1 then filter (\<lambda>r. request_ok r \<and> req_request_id r = rid) rs else [])"
proof -
  have "keep_request rs r \<and> req_request_id r = rid \<longleftrightarrow>
      id_count rs rid \<le> 1 \<and> request_ok r \<and> req_request_id r = rid" for r
    by (auto simp: keep_request_def)
  then show ?thesis by (cases "id_count rs rid \<le> 1") simp_all
qed

lemma parent_of_cases:
  "id_count rs rid > 1 \<Longrightarrow> parent_of rs rid = Some AmbiguousRetained"
  "id_count rs rid = 0 \<Longrightarrow>
     parent_of rs rid = (if rid \<in> req_request_id ` set rs then Some ExcludedOnly else None)"
  "filter (\<lambda>r. request_ok r \<and> req_request_id r = rid) rs = [r] \<Longrightarrow>
     parent_of rs rid = Some (UniqueRetained (request_span (repair_request r)))"
  by (auto simp: parent_of_def id_count_def split: list.split)

lemma parent_state_of_single:
  "map snd l = [repair_request r] \<Longrightarrow>
   parent_state_of l = UniqueRetained (request_span (repair_request r))"
  by (cases l) (auto simp: parent_state_of_def request_span_def Let_def)

lemma build_parent_states_lookup:
  assumes rs: "rs = run_requests run"
  defines "ps \<equiv> build_parent_states run (map (request_codes_in rs) rs)
      (map (\<lambda>r. if keep_request rs r then Some (repair_request r) else None) rs)"
  shows "bt_wf ps" and "id_count rs rid \<le> 1 \<Longrightarrow> bt_lookup ps rid = parent_of rs rid"
proof -
  obtain m ex where g: "group_requests 0 rs (map (request_codes_in rs) rs)
      (map (\<lambda>r. if keep_request rs r then Some (repair_request r) else None) rs) ([], []) = (m, ex)"
    by (rule prod.exhaust)
  let ?kept = "filter (\<lambda>r. keep_request rs r \<and> req_request_id r = rid) rs"
  have m: "bt_wf m" "set ex = req_request_id ` {r \<in> set rs. \<not> keep_request rs r}"
    "map snd (retained_entry (bt_lookup m rid)) = map repair_request ?kept"
    "bt_lookup m rid = None \<longleftrightarrow> ?kept = []"
    using group_requests_eq [OF bt_wf_Nil, where i = 0 and rs = rs and rs' = rs and ex = "[]" and rid = rid]
    unfolding g prod.case by simp_all
  let ?st = "foldl (\<lambda>states (rid, retained). bt_insert rid (parent_state_of retained) states) [] m"
  have st: "bt_wf ?st" "bt_lookup ?st rid = map_option parent_state_of (bt_lookup m rid)"
    using foldl_insert_states [OF bt_wf_Nil bt_wf_distinct [OF m(1)], of parent_state_of rid]
    by (simp_all add: bt_lookup_def map_option_case split: option.splits)
  have ps: "ps = foldl (\<lambda>st rid. bt_entry rid (\<lambda>v. case v of Some s \<Rightarrow> s | None \<Rightarrow> ExcludedOnly) st) ?st ex"
    using g rs by (simp add: ps_def build_parent_states_def)
  show "bt_wf ps" unfolding ps using foldl_or_insert [OF st(1)] by blast
  assume le: "id_count rs rid \<le> 1"
  have look: "bt_lookup ps rid = (case bt_lookup ?st rid of Some s \<Rightarrow> Some s
      | None \<Rightarrow> if rid \<in> set ex then Some ExcludedOnly else None)"
    unfolding ps using foldl_or_insert [OF st(1)] by blast
  have kept: "?kept = filter (\<lambda>r. request_ok r \<and> req_request_id r = rid) rs"
    using le by (simp add: filter_keep_id)
  show "bt_lookup ps rid = parent_of rs rid"
  proof (cases "id_count rs rid = 0")
    case True
    then have none: "?kept = []" by (simp add: kept id_count_def)
    then have "bt_lookup ?st rid = None" using m(4) st(2) by simp
    moreover have "rid \<in> set ex \<longleftrightarrow> rid \<in> req_request_id ` set rs"
      using none m(2) by (auto simp: filter_empty_conv)
    ultimately show ?thesis using look by (simp add: parent_of_cases(2) [OF True])
  next
    case False
    then have "length ?kept = 1" using le unfolding kept id_count_def by (auto simp: le_Suc_eq)
    then obtain r where r: "?kept = [r]" by (auto simp: length_Suc_conv)
    then obtain l where l: "bt_lookup m rid = Some l" "map snd l = [repair_request r]"
      using m(3,4) by (cases "bt_lookup m rid") simp_all
    have "parent_of rs rid = Some (UniqueRetained (request_span (repair_request r)))"
      using r unfolding kept by (rule parent_of_cases(3))
    then show ?thesis using look st(2) l by (simp add: parent_state_of_single)
  qed
qed

text \<open>The parent map that the child passes see.\<close>

definition parent_map :: "Run \<Rightarrow> (string, ParentState) btree" where
  "parent_map run =
     (let rs = run_requests run in
      foldl (\<lambda>ps rid. bt_insert rid AmbiguousRetained ps)
        (build_parent_states run (map (request_codes_in rs) rs)
          (map (\<lambda>r. if keep_request rs r then Some (repair_request r) else None) rs))
        (duplicate_ids (count_ids rs (map request_codes rs))))"

lemma parent_map_lookup: "bt_lookup (parent_map run) rid = parent_of (run_requests run) rid"
proof -
  let ?rs = "run_requests run"
  let ?b = "build_parent_states run (map (request_codes_in ?rs) ?rs)
          (map (\<lambda>r. if keep_request ?rs r then Some (repair_request r) else None) ?rs)"
  have "bt_lookup (parent_map run) rid =
      (if id_count ?rs rid > 1 then Some AmbiguousRetained else bt_lookup ?b rid)"
    using foldl_insert_const [OF build_parent_states_lookup(1) [OF refl, of run],
        where d = AmbiguousRetained and rid = rid]
    by (simp add: parent_map_def set_duplicate_ids Let_def)
  then show ?thesis
    using build_parent_states_lookup(2) [OF refl, of run rid]
    by (simp add: parent_of_cases(1) not_less)
qed

section \<open>The child passes\<close>

definition parent_issues :: "RunSection \<Rightarrow> nat \<Rightarrow> ParentState option \<Rightarrow> (u64 \<times> u64) option \<Rightarrow>
    RunValidationIssue list" where
  "parent_issues sect i parent child = (case parent of
       None \<Rightarrow> [issue_at sect (Some i) (Some ''request_id'') OrphanRequestScopedEvent SevError
                 ''no retained parent request matches request_id'']
     | Some AmbiguousRetained \<Rightarrow>
         [issue_at sect (Some i) (Some ''request_id'') AmbiguousParentRequestId SevError
           ''parent `request_id` is duplicated'']
     | Some ExcludedOnly \<Rightarrow>
         [issue_at sect (Some i) (Some ''request_id'') ParentRequestExcluded SevError
           ''parent request was excluded'']
     | Some (UniqueRetained pi) \<Rightarrow>
         (if within_parent parent child then []
          else [issue_at sect (Some i) None ChildIntervalOutsideRequest SevError
                 ''child interval lies outside parent request interval'']))"

lemma parent_issues_Nil: "parent_issues sect i parent child = [] \<longleftrightarrow> within_parent parent child"
  by (auto simp: parent_issues_def within_parent_def split: option.splits ParentState.splits)

lemma parent_issues_error:
  "x \<in> set (parent_issues sect i parent child) \<Longrightarrow> iss_severity x = SevError \<and>
     iss_code x \<noteq> PreciseIntervalValidationUnavailable \<and>
     loc_section (iss_location x) = sect \<and> loc_index (iss_location x) = Some i"
  by (auto simp: parent_issues_def split: option.splits ParentState.splits if_splits)

lemma child_policy_eq:
  "child_policy sect i rid parents child (ctx, iv) =
     (ctx @ parent_issues sect i (bt_lookup parents rid) child,
      foldr bs_insert (map iss_code (parent_issues sect i (bt_lookup parents rid) child)) iv)"
proof (cases "bt_lookup parents rid")
  case (Some parent)
  then show ?thesis
  proof (cases parent)
    case (UniqueRetained pi)
    then show ?thesis
      using Some
      by (cases pi; cases child)
        (simp_all add: child_policy_def parent_issues_def within_parent_def ctx_issue_eq not_le [symmetric]
          split: prod.splits)
  qed (simp_all add: child_policy_def parent_issues_def ctx_issue_eq)
qed (simp add: child_policy_def parent_issues_def ctx_issue_eq)

text \<open>A section of child events: the per-event contract and the pass over the section.\<close>

locale child_event = checked_event sect ok repair clear issues invalid faults inspect
  for sect :: RunSection
    and ok :: "'e \<Rightarrow> bool"
    and repair :: "'e \<Rightarrow> 'e"
    and clear :: "'e \<Rightarrow> codes \<Rightarrow> 'e"
    and issues :: "nat \<Rightarrow> 'e \<Rightarrow> RunValidationIssue list"
    and invalid :: "'e \<Rightarrow> codes"
    and faults :: "'e \<Rightarrow> codes"
    and inspect :: "nat \<Rightarrow> 'e \<Rightarrow> Ctx \<times> codes \<times> codes \<Rightarrow> Ctx \<times> codes \<times> codes" +
  fixes rid :: "'e \<Rightarrow> string"
    and span :: "'e \<Rightarrow> (u64 \<times> u64) option"
    and pass :: "(string, ParentState) btree \<Rightarrow> nat \<Rightarrow> 'e list \<Rightarrow> Ctx \<Rightarrow> Ctx \<times> codes list \<times> 'e list"
  assumes pass_Nil: "pass parents i [] ctx = (ctx, [], [])"
    and pass_Cons: "pass parents i (e # es) ctx =
     (let (ctx, iv, pc) = inspect i e (ctx, [], []);
          (ctx, iv) = child_policy sect i (rid e) parents (span (clear e pc)) (ctx, iv);
          (ctx, ivs, kept) = pass parents (Suc i) es ctx
      in (ctx, iv # ivs, if iv = [] then clear e pc # kept else kept))"
begin

definition child_issues :: "(string \<Rightarrow> ParentState option) \<Rightarrow> nat \<Rightarrow> 'e \<Rightarrow> RunValidationIssue list" where
  "child_issues parents i e = issues i e @ parent_issues sect i (parents (rid e)) (span (repair e))"

definition child_codes :: "(string \<Rightarrow> ParentState option) \<Rightarrow> 'e \<Rightarrow> codes" where
  "child_codes parents e = foldr bs_insert
     (map iss_code (parent_issues sect 0 (parents (rid e)) (span (repair e)))) (invalid e)"

definition child_keep :: "(string \<Rightarrow> ParentState option) \<Rightarrow> 'e \<Rightarrow> bool" where
  "child_keep parents e \<longleftrightarrow> ok e \<and> within_parent (parents (rid e)) (span (repair e))"

lemma parent_codes_index:
  "map iss_code (parent_issues sect i p c) = map iss_code (parent_issues sect 0 p c)"
  by (simp add: parent_issues_def split: option.splits ParentState.splits)

lemma child_codes_Nil: "child_codes parents e = [] \<longleftrightarrow> child_keep parents e"
  unfolding child_codes_def child_keep_def parent_issues_Nil [symmetric, where i = 0 and sect = sect]
  by (cases "parent_issues sect 0 (parents (rid e)) (span (repair e))") (simp_all add: invalid_Nil)

lemma pass_eq:
  "pass parents i es ctx =
     (ctx @ indexed (child_issues (bt_lookup parents)) i es,
      map (child_codes (bt_lookup parents)) es,
      map repair (filter (child_keep (bt_lookup parents)) es))"
proof (induction es arbitrary: i ctx)
  case (Cons e es)
  have "foldr bs_insert (map iss_code (parent_issues sect i (bt_lookup parents (rid e)) (span (repair e))))
      (invalid e) = child_codes (bt_lookup parents) e"
    unfolding child_codes_def by (simp only: parent_codes_index [of i])
  then show ?case
    by (simp add: pass_Cons inspect_eq child_policy_eq clear_eq Cons.IH child_issues_def
        child_codes_Nil)
qed (simp add: pass_Nil)

lemma child_issues_location:
  "x \<in> set (child_issues parents i e) \<Longrightarrow>
     loc_section (iss_location x) = sect \<and> loc_index (iss_location x) = Some i"
  using issues_location parent_issues_error by (fastforce simp: child_issues_def)

lemma child_issues_error:
  "(\<exists>x\<in>set (child_issues parents i e). iss_severity x = SevError)
     \<longleftrightarrow> \<not> (child_keep parents e \<and> repair e = e)"
proof -
  have "(\<exists>x\<in>set (parent_issues sect i p c). iss_severity x = SevError) \<longleftrightarrow> \<not> within_parent p c" for p c
    using parent_issues_Nil [of sect i p c] parent_issues_error [of _ sect i p c]
    by (metis empty_iff empty_set list.set_sel(1))
  then show ?thesis
    unfolding child_issues_def set_append bex_Un issues_error child_keep_def by auto
qed

lemma child_issues_warning:
  "x \<in> set (child_issues parents i e) \<Longrightarrow>
     iss_severity x = SevWarning \<longleftrightarrow> iss_code x = PreciseIntervalValidationUnavailable"
  using issues_warning parent_issues_error by (fastforce simp: child_issues_def)

lemma child_issues_retained:
  "x \<in> set (child_issues parents i e) \<Longrightarrow> child_keep parents e \<Longrightarrow> iss_severity x = SevError \<Longrightarrow>
     offset_issue x"
  using issues_retained [of x i e] parent_issues_Nil [of sect i "parents (rid e)" "span (repair e)"]
  by (simp add: child_issues_def child_keep_def)

end

interpretation stages: child_event Stages stage_ok repair_stage clear_bad_stage
  stage_issues stage_codes stage_faults inspect_stage stg_request_id interval_stage inspect_stages
  by unfold_locales simp_all

interpretation queues: child_event Queues queue_ok repair_queue clear_bad_queue
  queue_issues queue_codes queue_faults inspect_queue que_request_id interval_queue inspect_queues
  by unfold_locales simp_all

lemma stages_child_keep: "stages.child_keep (parent_of rs) = keep_stage rs"
  by (simp add: fun_eq_iff stages.child_keep_def keep_stage_def)

lemma queues_child_keep: "queues.child_keep (parent_of rs) = keep_queue rs"
  by (simp add: fun_eq_iff queues.child_keep_def keep_queue_def)

section \<open>The remaining passes\<close>

definition inflight_issues :: "nat \<Rightarrow> InFlightSnapshot \<Rightarrow> RunValidationIssue list" where
  "inflight_issues i s = (if is_blank (inf_gauge s)
     then [issue_at Inflight (Some i) (Some ''gauge'') EmptyRequiredField SevError
             ''in-flight gauge must not be blank''] else [])"

definition runtime_issues :: "nat \<Rightarrow> RuntimeSnapshot \<Rightarrow> RunValidationIssue list" where
  "runtime_issues i t = (if rts_worker_count t = Some 0
     then [issue_at RuntimeSnapshots (Some i) (Some ''worker_count'') InvalidWorkerCount SevError
             ''runtime snapshot worker_count must be greater than zero when present''] else [])"

lemma inspect_inflight_eq:
  "inspect_inflight i ss ctx =
     (ctx @ indexed inflight_issues i ss,
      map (\<lambda>s. if is_blank (inf_gauge s) then [EmptyRequiredField] else []) ss,
      filter (\<lambda>s. \<not> is_blank (inf_gauge s)) ss)"
  by (induction ss arbitrary: i ctx) (simp_all add: inflight_issues_def ctx_issue_eq)

lemma inspect_runtime_eq: "inspect_runtime i ts ctx = ctx @ indexed runtime_issues i ts"
  by (induction ts arbitrary: i ctx) (simp_all add: runtime_issues_def ctx_issue_eq)

definition metadata_issues :: "Run \<Rightarrow> RunValidationIssue list" where
  "metadata_issues run = inspect_metadata run []"

lemma inspect_metadata_eq: "inspect_metadata run ctx = ctx @ metadata_issues run"
  by (simp add: metadata_issues_def inspect_metadata_def ctx_issue_eq Let_def split: option.splits)

lemma metadata_issues_Nil: "metadata_issues run = [] \<longleftrightarrow> metadata_ok run"
  by (auto simp: metadata_issues_def inspect_metadata_def metadata_ok_def ctx_issue_eq Let_def not_less
      split: option.splits if_splits)

lemma metadata_issues_error:
  "x \<in> set (metadata_issues run) \<Longrightarrow>
     iss_severity x = SevError \<and> loc_section (iss_location x) = Metadata"
  by (auto simp: metadata_issues_def inspect_metadata_def ctx_issue_eq Let_def
      split: option.splits if_splits)

section \<open>The whole pass\<close>

definition all_issues :: "Run \<Rightarrow> RunValidationIssue list" where
  "all_issues run = metadata_issues run
     @ indexed request_issues 0 (run_requests run)
     @ indexed (duplicate_issues (run_requests run)) 0 (run_requests run)
     @ indexed (stages.child_issues (parent_of (run_requests run))) 0 (run_stages run)
     @ indexed (queues.child_issues (parent_of (run_requests run))) 0 (run_queues run)
     @ indexed inflight_issues 0 (run_inflight run)
     @ indexed runtime_issues 0 (run_runtime_snapshots run)"

definition all_dispositions :: "Run \<Rightarrow> RunEventDisposition list" where
  "all_dispositions run =
     add_disps_from 0 0 Requests (map (request_codes_in (run_requests run)) (run_requests run))
     @ add_disps_from 0 0 Stages (map (stages.child_codes (parent_of (run_requests run))) (run_stages run))
     @ add_disps_from 0 0 Queues (map (queues.child_codes (parent_of (run_requests run))) (run_queues run))
     @ add_disps_from 0 0 Inflight
         (map (\<lambda>s. if is_blank (inf_gauge s) then [EmptyRequiredField] else []) (run_inflight run))
     @ add_disps_from 0 0 RuntimeSnapshots (map (\<lambda>_. []) (run_runtime_snapshots run))"

lemma normalize_inner_eq:
  "normalize_inner run b =
     \<lparr>nr_run = if b then canonical_run run else run,
      nr_report = sorted_report (all_issues run),
      nr_dispositions = all_dispositions run\<rparr>"
proof -
  let ?rs = "run_requests run"
  have look: "bt_lookup (parent_map run) = parent_of ?rs"
    by (simp add: fun_eq_iff parent_map_lookup)
  have mark: "mark_duplicates (duplicate_ids (count_ids ?rs (map request_codes ?rs))) 0 ?rs
      (map request_codes ?rs) ctx = (ctx @ indexed (duplicate_issues ?rs) 0 ?rs, map (request_codes_in ?rs) ?rs)" for ctx
    by (rule mark_duplicates_eq) (simp add: set_duplicate_ids)
  have pm: "foldl (\<lambda>ps rid. bt_insert rid AmbiguousRetained ps)
        (build_parent_states run (map (request_codes_in ?rs) ?rs)
          (map (\<lambda>r. if keep_request ?rs r then Some (repair_request r) else None) ?rs))
        (duplicate_ids (count_ids ?rs (map request_codes ?rs))) = parent_map run"
    by (simp add: parent_map_def Let_def)
  show ?thesis
    unfolding normalize_inner_def Let_def inspect_metadata_eq inspect_requests_eq prod.case mark
      normalized_by_input_eq pm stages.pass_eq queues.pass_eq inspect_inflight_eq inspect_runtime_eq
      look map_filter_keep stages_child_keep queues_child_keep
    by (simp add: all_issues_def all_dispositions_def canonical_run_def add_disps_def)
qed

lemma map_filter_eq_self: "map f (filter P xs) = xs \<longleftrightarrow> (\<forall>x\<in>set xs. P x \<and> f x = x)"
proof
  assume eq: "map f (filter P xs) = xs"
  then have "length (filter P xs) = length xs" by (metis length_map)
  then have all: "\<forall>x\<in>set xs. P x" by (metis filter_True length_filter_less less_irrefl)
  then have "map f xs = xs" using eq by simp
  then have "\<forall>x\<in>set xs. f x = x" by (metis map_eq_conv map_ident)
  with all show "\<forall>x\<in>set xs. P x \<and> f x = x" by blast
next
  assume "\<forall>x\<in>set xs. P x \<and> f x = x"
  then show "map f (filter P xs) = xs" by (simp add: map_idI)
qed

lemma filter_eq_self: "filter P xs = xs \<longleftrightarrow> (\<forall>x\<in>set xs. P x)"
  using map_filter_eq_self [of id P xs] by simp

lemma canonical_run_fixed: "canonical_run run = run \<longleftrightarrow>
    (\<forall>r\<in>set (run_requests run). keep_request (run_requests run) r \<and> repair_request r = r) \<and>
    (\<forall>s\<in>set (run_stages run). keep_stage (run_requests run) s \<and> repair_stage s = s) \<and>
    (\<forall>q\<in>set (run_queues run). keep_queue (run_requests run) q \<and> repair_queue q = q) \<and>
    (\<forall>s\<in>set (run_inflight run). \<not> is_blank (inf_gauge s)) \<and>
    (\<forall>t\<in>set (run_runtime_snapshots run). clear_worker_count t = t)"
proof -
  have "canonical_run run = run \<longleftrightarrow>
      map repair_request (filter (keep_request (run_requests run)) (run_requests run)) = run_requests run \<and>
      map repair_stage (filter (keep_stage (run_requests run)) (run_stages run)) = run_stages run \<and>
      map repair_queue (filter (keep_queue (run_requests run)) (run_queues run)) = run_queues run \<and>
      filter (\<lambda>s. \<not> is_blank (inf_gauge s)) (run_inflight run) = run_inflight run \<and>
      map clear_worker_count (run_runtime_snapshots run) = run_runtime_snapshots run"
    by (cases run) (simp add: canonical_run_def)
  moreover have "map clear_worker_count ts = ts \<longleftrightarrow> (\<forall>t\<in>set ts. clear_worker_count t = t)" for ts
    using map_filter_eq_self [of clear_worker_count "\<lambda>_. True" ts] by simp
  ultimately show ?thesis by (simp only: map_filter_eq_self filter_eq_self)
qed

lemma indexed_ex_const:
  assumes "\<And>i e. (\<exists>x\<in>set (f i e). P x) \<longleftrightarrow> Q e"
  shows "(\<exists>x\<in>set (indexed f i es). P x) \<longleftrightarrow> (\<exists>e\<in>set es. Q e)"
  by (induction es arbitrary: i) (simp_all add: bex_Un assms)

definition event_error :: "RunValidationIssue \<Rightarrow> bool" where
  "event_error x \<longleftrightarrow> iss_severity x = SevError \<and> loc_section (iss_location x) \<noteq> Metadata"

lemma request_issues_event_error: "(\<exists>x\<in>set (request_issues i r). event_error x) \<longleftrightarrow>
    \<not> (request_ok r \<and> repair_request r = r)"
  using requests.issues_error [of i r] requests.issues_location by (auto simp: event_error_def)

lemma duplicate_issues_event_error: "(\<exists>x\<in>set (duplicate_issues rs i r). event_error x) \<longleftrightarrow>
    id_count rs (req_request_id r) > 1"
  by (simp add: duplicate_issues_def event_error_def)

lemma stage_issues_event_error: "(\<exists>x\<in>set (stages.child_issues (parent_of rs) i s). event_error x) \<longleftrightarrow>
    \<not> (keep_stage rs s \<and> repair_stage s = s)"
  using stages.child_issues_error [of "parent_of rs" i s] stages.child_issues_location
  by (auto simp: event_error_def stages_child_keep)

lemma queue_issues_event_error: "(\<exists>x\<in>set (queues.child_issues (parent_of rs) i q). event_error x) \<longleftrightarrow>
    \<not> (keep_queue rs q \<and> repair_queue q = q)"
  using queues.child_issues_error [of "parent_of rs" i q] queues.child_issues_location
  by (auto simp: event_error_def queues_child_keep)

lemma inflight_issues_event_error: "(\<exists>x\<in>set (inflight_issues i s). event_error x) \<longleftrightarrow>
    is_blank (inf_gauge s)"
  by (simp add: inflight_issues_def event_error_def)

lemma runtime_issues_event_error: "(\<exists>x\<in>set (runtime_issues i t). event_error x) \<longleftrightarrow>
    clear_worker_count t \<noteq> t"
  by (cases t) (simp add: runtime_issues_def event_error_def clear_worker_count_def)

lemma metadata_issues_event_error: "\<not> (\<exists>x\<in>set (metadata_issues run). event_error x)"
  using metadata_issues_error by (auto simp: event_error_def)

lemma event_error_iff: "(\<exists>x\<in>set (all_issues run). event_error x) \<longleftrightarrow> canonical_run run \<noteq> run"
  unfolding canonical_run_fixed all_issues_def set_append bex_Un
    indexed_ex_const [OF request_issues_event_error] indexed_ex_const [OF duplicate_issues_event_error]
    indexed_ex_const [OF stage_issues_event_error] indexed_ex_const [OF queue_issues_event_error]
    indexed_ex_const [OF inflight_issues_event_error] indexed_ex_const [OF runtime_issues_event_error]
  using metadata_issues_event_error [of run] by (auto simp: keep_request_def not_le)

lemma rep_issues_sorted_report [simp]: "rep_issues (sorted_report ctx) = sort_key issue_key ctx"
  by (simp add: sorted_report_def)

subsection \<open>Normalized runs are fixed points\<close>

lemma filter_canonical_requests:
  "filter (\<lambda>r. request_ok r \<and> req_request_id r = rid)
      (map repair_request (filter (keep_request rs) rs)) =
   (if id_count rs rid \<le> 1
    then map repair_request (filter (\<lambda>r. request_ok r \<and> req_request_id r = rid) rs) else [])"
proof -
  have "filter (\<lambda>r. request_ok r \<and> req_request_id r = rid) (map repair_request (filter (keep_request rs) rs))
      = map repair_request (filter (\<lambda>r. keep_request rs r \<and> req_request_id r = rid) rs)"
    by (simp add: filter_map o_def) (metis keep_request_def)
  then show ?thesis by (simp add: filter_keep_id)
qed

lemma id_count_canonical:
  "id_count (map repair_request (filter (keep_request rs) rs)) rid \<le> 1"
  unfolding id_count_def filter_canonical_requests by (simp add: id_count_def)

lemma parent_of_canonical:
  assumes "within_parent (parent_of rs rid) child"
  shows "parent_of (map repair_request (filter (keep_request rs) rs)) rid = parent_of rs rid"
proof -
  obtain r where r: "filter (\<lambda>r. request_ok r \<and> req_request_id r = rid) rs = [r]"
    using assms by (auto simp: within_parent_def parent_of_def split: list.splits if_splits)
  then have "id_count rs rid \<le> 1" by (simp add: id_count_def)
  with r have "filter (\<lambda>r. request_ok r \<and> req_request_id r = rid)
      (map repair_request (filter (keep_request rs) rs)) = [repair_request r]"
    by (simp only: filter_canonical_requests) simp
  from parent_of_cases(3) [OF this] parent_of_cases(3) [OF r] show ?thesis by simp
qed

lemma canonical_run_idem: "canonical_run (canonical_run run) = canonical_run run"
proof -
  let ?rs = "run_requests run" and ?c = "canonical_run run"
  have c: "run_requests ?c = map repair_request (filter (keep_request ?rs) ?rs)"
    "run_stages ?c = map repair_stage (filter (keep_stage ?rs) (run_stages run))"
    "run_queues ?c = map repair_queue (filter (keep_queue ?rs) (run_queues run))"
    "run_inflight ?c = filter (\<lambda>s. \<not> is_blank (inf_gauge s)) (run_inflight run)"
    "run_runtime_snapshots ?c = map clear_worker_count (run_runtime_snapshots run)"
    by (simp_all add: canonical_run_def)
  have rid: "keep_request (run_requests ?c) (repair_request r)" if "keep_request ?rs r" for r
    using that id_count_canonical unfolding c(1) by (simp add: keep_request_def)
  have sid: "keep_stage (run_requests ?c) (repair_stage s)" if "keep_stage ?rs s" for s
    using that parent_of_canonical [of ?rs "stg_request_id s" "interval_stage (repair_stage s)"]
    unfolding c(1) by (simp add: keep_stage_def)
  have qid: "keep_queue (run_requests ?c) (repair_queue q)" if "keep_queue ?rs q" for q
    using that parent_of_canonical [of ?rs "que_request_id q" "interval_queue (repair_queue q)"]
    unfolding c(1) by (simp add: keep_queue_def)
  show ?thesis
    unfolding canonical_run_fixed using rid sid qid by (auto simp: c)
qed

section \<open>Dispositions\<close>

definition disposed :: "RunSection \<Rightarrow> nat \<Rightarrow> RunEventDispositionKind \<Rightarrow> RunEventDisposition" where
  "disposed sect i k = \<lparr>disp_section = sect, disp_input_index = i, disp_disposition = k\<rparr>"

lemma add_disps_from_nth:
  "j < length ivs \<Longrightarrow> add_disps_from out i sect ivs ! j =
     disposed sect (i + j) (if ivs ! j = [] then Retained (out + length (filter (\<lambda>cs. cs = []) (take j ivs)))
                            else Excluded (ivs ! j))"
proof (induction ivs arbitrary: out i j)
  case (Cons cs ivs)
  then show ?case by (cases j) (auto simp: disposed_def)
qed simp

lemma length_add_disps_from [simp]: "length (add_disps_from out i sect ivs) = length ivs"
  by (induction ivs arbitrary: out i) simp_all

lemma section_add_disps_from:
  "filter (\<lambda>d. disp_section d = sect') (add_disps_from out i sect ivs) =
     (if sect = sect' then add_disps_from out i sect ivs else [])"
  by (induction ivs arbitrary: out i) (auto split: if_splits)

lemma filter_nth_kept:
  "j < length xs \<Longrightarrow> P (xs ! j) \<Longrightarrow> length (filter P (take j xs)) < length (filter P xs) \<and>
     filter P xs ! length (filter P (take j xs)) = xs ! j"
proof (induction xs arbitrary: j)
  case (Cons x xs)
  then show ?case by (cases j) auto
qed simp

definition dispositions_of :: "RunSection \<Rightarrow> NormalizedRun \<Rightarrow> RunEventDisposition list" where
  "dispositions_of sect n = filter (\<lambda>d. disp_section d = sect) (nr_dispositions n)"

lemma dispositions_of_eq:
  "dispositions_of Requests (normalize_inner run b) =
     add_disps_from 0 0 Requests (map (request_codes_in (run_requests run)) (run_requests run))"
  "dispositions_of Stages (normalize_inner run b) =
     add_disps_from 0 0 Stages (map (stages.child_codes (parent_of (run_requests run))) (run_stages run))"
  "dispositions_of Queues (normalize_inner run b) =
     add_disps_from 0 0 Queues (map (queues.child_codes (parent_of (run_requests run))) (run_queues run))"
  "dispositions_of Inflight (normalize_inner run b) =
     add_disps_from 0 0 Inflight
       (map (\<lambda>s. if is_blank (inf_gauge s) then [EmptyRequiredField] else []) (run_inflight run))"
  "dispositions_of RuntimeSnapshots (normalize_inner run b) =
     add_disps_from 0 0 RuntimeSnapshots (map (\<lambda>_. []) (run_runtime_snapshots run))"
  "dispositions_of Metadata (normalize_inner run b) = []"
  by (simp_all add: dispositions_of_def normalize_inner_eq all_dispositions_def section_add_disps_from)

text \<open>
  What the dispositions of a section say: the event at each input index is found, repaired, at
  the output index its disposition names, and is absent exactly when it is excluded.
\<close>

definition accounts_for :: "RunEventDisposition list \<Rightarrow> 'e list \<Rightarrow> ('e \<Rightarrow> 'e) \<Rightarrow> 'e list \<Rightarrow> bool" where
  "accounts_for ds es repair outs \<longleftrightarrow>
     length ds = length es \<and>
     (\<forall>i<length es. disp_input_index (ds ! i) = i \<and>
        (case disp_disposition (ds ! i) of
           Retained j \<Rightarrow> j < length outs \<and> outs ! j = repair (es ! i)
         | Excluded cs \<Rightarrow> cs \<noteq> [])) \<and>
     length outs = length (filter (\<lambda>d. \<not> is_excluded (disp_disposition d)) ds)"

lemma length_retained:
  "length (filter (\<lambda>d. \<not> is_excluded (disp_disposition d)) (add_disps_from out i sect ivs)) =
     length (filter (\<lambda>cs. cs = []) ivs)"
  by (induction ivs arbitrary: out i) (simp_all add: is_excluded_def)

lemma accounts_for_add_disps:
  assumes "\<And>e. codes e = [] \<longleftrightarrow> keep e"
  shows "accounts_for (add_disps_from 0 0 sect (map codes es)) es repair (map repair (filter keep es))"
proof -
  have "disp_input_index (add_disps_from 0 0 sect (map codes es) ! i) = i \<and>
        (case disp_disposition (add_disps_from 0 0 sect (map codes es) ! i) of
           Retained j \<Rightarrow> j < length (map repair (filter keep es)) \<and>
             map repair (filter keep es) ! j = repair (es ! i)
         | Excluded cs \<Rightarrow> cs \<noteq> [])" if i: "i < length es" for i
  proof (cases "keep (es ! i)")
    case True
    have "length (filter (\<lambda>cs. cs = []) (take i (map codes es))) = length (filter keep (take i es))"
      by (simp add: take_map filter_map o_def assms)
    then show ?thesis
      using True i filter_nth_kept [OF i, of keep] assms by (simp add: add_disps_from_nth disposed_def)
  next
    case False
    then show ?thesis using i assms by (simp add: add_disps_from_nth disposed_def)
  qed
  moreover have "length (filter (\<lambda>cs. cs = []) (map codes es)) = length (filter keep es)"
    by (simp add: filter_map o_def assms)
  ultimately show ?thesis by (simp add: accounts_for_def length_retained)
qed

section \<open>Summaries\<close>

lemma bt_entry_not_Nil [simp]: "bt_entry k f m \<noteq> []"
  by (cases "(k, f, m)" rule: bt_entry.cases) simp_all

definition summary_skips :: "NormalizedRun \<Rightarrow> RunValidationIssue \<Rightarrow> bool" where
  "summary_skips n x \<longleftrightarrow> iss_code x = PreciseIntervalValidationUnavailable \<or>
     \<not> changed_canonical_output (summary_action n x)"

lemma lifecycle_summary_Nil:
  "foldl (summary_step Lifecycle n) g xs = [] \<longleftrightarrow> g = [] \<and> (\<forall>x\<in>set xs. summary_skips n x)"
  by (induction xs arbitrary: g) (auto simp: summary_step_def summary_skips_def Let_def)

lemma issue_warning_code:
  "x \<in> set (all_issues run) \<Longrightarrow>
     iss_severity x = SevWarning \<longleftrightarrow> iss_code x = PreciseIntervalValidationUnavailable"
proof -
  have m: "iss_code y \<noteq> PreciseIntervalValidationUnavailable" if "y \<in> set (metadata_issues run)" for y
    using that by (auto simp: metadata_issues_def inspect_metadata_def ctx_issue_eq Let_def
        split: option.splits if_splits)
  show "x \<in> set (all_issues run) \<Longrightarrow> ?thesis"
    unfolding all_issues_def set_append Un_iff set_indexed
    using m metadata_issues_error requests.issues_warning stages.child_issues_warning
      queues.child_issues_warning
    by (elim disjE exE conjE)
      (auto simp: duplicate_issues_def inflight_issues_def runtime_issues_def split: if_splits)
qed

lemma summary_skips_iff:
  "x \<in> set (all_issues run) \<Longrightarrow> summary_skips n x \<longleftrightarrow> \<not> event_error x"
  using issue_warning_code [of x run]
  by (cases "iss_severity x"; cases "iss_code x")
    (auto simp: summary_skips_def event_error_def summary_action_def)

definition excluded_at :: "RunEventDisposition list \<Rightarrow> RunSection \<Rightarrow> nat \<Rightarrow> bool" where
  "excluded_at ds sect i \<longleftrightarrow> list_ex (\<lambda>d. disp_section d = sect \<and> disp_input_index d = i \<and>
     is_excluded (disp_disposition d)) ds"

lemma excluded_at_append [simp]: "excluded_at (ds @ ds') sect i \<longleftrightarrow> excluded_at ds sect i \<or> excluded_at ds' sect i"
  by (simp add: excluded_at_def)

lemma excluded_at_add_disps:
  "excluded_at (add_disps_from 0 0 sect (map codes es)) sect' j \<longleftrightarrow>
     sect' = sect \<and> j < length es \<and> codes (es ! j) \<noteq> []"
  by (force simp: excluded_at_def list_ex_length add_disps_from_nth disposed_def is_excluded_def)

lemma excluded_at_normalized:
  "excluded_at (all_dispositions run) Requests i \<longleftrightarrow>
     i < length (run_requests run) \<and> \<not> keep_request (run_requests run) (run_requests run ! i)"
  "excluded_at (all_dispositions run) Stages i \<longleftrightarrow>
     i < length (run_stages run) \<and> \<not> keep_stage (run_requests run) (run_stages run ! i)"
  "excluded_at (all_dispositions run) Queues i \<longleftrightarrow>
     i < length (run_queues run) \<and> \<not> keep_queue (run_requests run) (run_queues run ! i)"
  "excluded_at (all_dispositions run) Inflight i \<longleftrightarrow>
     i < length (run_inflight run) \<and> is_blank (inf_gauge (run_inflight run ! i))"
  "\<not> excluded_at (all_dispositions run) RuntimeSnapshots i"
  unfolding all_dispositions_def excluded_at_append excluded_at_add_disps
  by (simp_all add: request_codes_in_Nil stages.child_codes_Nil queues.child_codes_Nil
      stages_child_keep queues_child_keep)

text \<open>An error on a retained event is one whose optional evidence was cleared.\<close>

definition clearing_issue :: "RunValidationIssue \<Rightarrow> bool" where
  "clearing_issue x \<longleftrightarrow> offset_issue x \<or> iss_code x = InvalidWorkerCount"

lemma retained_issue:
  assumes x: "x \<in> set (all_issues run)" and err: "event_error x"
  shows "\<exists>i. loc_index (iss_location x) = Some i \<and>
    (excluded_at (all_dispositions run) (loc_section (iss_location x)) i \<or> clearing_issue x)"
proof -
  let ?rs = "run_requests run"
  have sev: "iss_severity x = SevError" and meta: "loc_section (iss_location x) \<noteq> Metadata"
    using err by (simp_all add: event_error_def)
  from x consider "x \<in> set (metadata_issues run)"
    | j where "j < length ?rs" "x \<in> set (request_issues j (?rs ! j))"
    | j where "j < length ?rs" "x \<in> set (duplicate_issues ?rs j (?rs ! j))"
    | j where "j < length (run_stages run)"
        "x \<in> set (stages.child_issues (parent_of ?rs) j (run_stages run ! j))"
    | j where "j < length (run_queues run)"
        "x \<in> set (queues.child_issues (parent_of ?rs) j (run_queues run ! j))"
    | j where "j < length (run_inflight run)" "x \<in> set (inflight_issues j (run_inflight run ! j))"
    | j where "j < length (run_runtime_snapshots run)"
        "x \<in> set (runtime_issues j (run_runtime_snapshots run ! j))"
    unfolding all_issues_def set_append Un_iff set_indexed by auto
  then show ?thesis
  proof cases
    case 1
    then show ?thesis using meta metadata_issues_error by blast
  next
    case (2 j)
    show ?thesis
    proof (cases "request_ok (?rs ! j)")
      case True
      then show ?thesis
        using requests.issues_retained [OF 2(2) True sev] requests.issues_location [OF 2(2)]
        by (simp add: clearing_issue_def)
    next
      case False
      then show ?thesis
        using 2 requests.issues_location [OF 2(2)] by (simp add: excluded_at_normalized keep_request_def)
    qed
  next
    case (3 j)
    then show ?thesis
      by (simp add: excluded_at_normalized duplicate_issues_def keep_request_def split: if_splits)
  next
    case (4 j)
    show ?thesis
    proof (cases "keep_stage ?rs (run_stages run ! j)")
      case True
      then show ?thesis
        using stages.child_issues_retained [OF 4(2) _ sev] stages.child_issues_location [OF 4(2)]
        by (simp add: clearing_issue_def stages_child_keep)
    next
      case False
      then show ?thesis
        using 4 stages.child_issues_location [OF 4(2)] by (simp add: excluded_at_normalized)
    qed
  next
    case (5 j)
    show ?thesis
    proof (cases "keep_queue ?rs (run_queues run ! j)")
      case True
      then show ?thesis
        using queues.child_issues_retained [OF 5(2) _ sev] queues.child_issues_location [OF 5(2)]
        by (simp add: clearing_issue_def queues_child_keep)
    next
      case False
      then show ?thesis
        using 5 queues.child_issues_location [OF 5(2)] by (simp add: excluded_at_normalized)
    qed
  next
    case (6 j)
    then show ?thesis by (simp add: inflight_issues_def excluded_at_normalized split: if_splits)
  next
    case (7 j)
    then show ?thesis by (simp add: runtime_issues_def clearing_issue_def split: if_splits)
  qed
qed

lemma summary_action_excluded:
  assumes x: "x \<in> set (all_issues run)" and err: "event_error x"
    and n: "nr_dispositions n = all_dispositions run"
  shows "summary_action n x = EvidenceExcluded \<longleftrightarrow>
    (\<exists>i. loc_index (iss_location x) = Some i \<and>
      excluded_at (all_dispositions run) (loc_section (iss_location x)) i)"
proof -
  obtain i where i: "loc_index (iss_location x) = Some i"
    "excluded_at (all_dispositions run) (loc_section (iss_location x)) i \<or> clearing_issue x"
    using retained_issue [OF x err] by blast
  have meta: "loc_section (iss_location x) \<noteq> Metadata"
    using err by (simp add: event_error_def)
  show ?thesis
    using i meta n unfolding excluded_at_def
    by (auto simp: summary_action_def clearing_issue_def offset_issue_def split: RunValidationIssueCode.splits)
qed

section \<open>Properties\<close>

lemma report_of_normalize:
  "nr_report (normalize_run_permissive run) = sorted_report (all_issues run)"
  "inspect_run run = sorted_report (all_issues run)"
  "nr_run (normalize_run_permissive run) = canonical_run run"
  "nr_dispositions (normalize_run_permissive run) = all_dispositions run"
  by (simp_all add: normalize_run_permissive_def inspect_run_def normalize_inner_eq)

lemma strict_accepts_iff_canonical_fact:
  "validate_run_strict run =
     (if metadata_ok run \<and> nr_run (normalize_run_permissive run) = run then Inr ()
      else Inl (inspect_run run))"
proof -
  have "(\<exists>x\<in>set (all_issues run). iss_severity x = SevError) \<longleftrightarrow>
      metadata_issues run \<noteq> [] \<or> (\<exists>x\<in>set (all_issues run). event_error x)"
  proof
    assume "\<exists>x\<in>set (all_issues run). iss_severity x = SevError"
    then obtain x where x: "x \<in> set (all_issues run)" "iss_severity x = SevError" by blast
    have "x \<in> set (metadata_issues run)" if "loc_section (iss_location x) = Metadata"
      using x(1) that requests.issues_location stages.child_issues_location
        queues.child_issues_location
      unfolding all_issues_def set_append Un_iff set_indexed
      by (auto simp: duplicate_issues_def inflight_issues_def runtime_issues_def split: if_splits)
    then show "metadata_issues run \<noteq> [] \<or> (\<exists>x\<in>set (all_issues run). event_error x)"
      using x by (auto simp: event_error_def)
  next
    assume "metadata_issues run \<noteq> [] \<or> (\<exists>x\<in>set (all_issues run). event_error x)"
    then show "\<exists>x\<in>set (all_issues run). iss_severity x = SevError"
      using metadata_issues_error [of "hd (metadata_issues run)" run]
      by (auto simp: event_error_def all_issues_def)
  qed
  then show ?thesis
    by (auto simp: validate_run_strict_def Let_def report_of_normalize list_ex_iff
        metadata_issues_Nil event_error_iff)
qed

definition accounts_for_run :: "NormalizedRun \<Rightarrow> Run \<Rightarrow> bool" where
  "accounts_for_run n run \<longleftrightarrow>
    accounts_for (dispositions_of Requests n) (run_requests run) repair_request (run_requests (nr_run n)) \<and>
    accounts_for (dispositions_of Stages n) (run_stages run) repair_stage (run_stages (nr_run n)) \<and>
    accounts_for (dispositions_of Queues n) (run_queues run) repair_queue (run_queues (nr_run n)) \<and>
    accounts_for (dispositions_of Inflight n) (run_inflight run) id (run_inflight (nr_run n)) \<and>
    accounts_for (dispositions_of RuntimeSnapshots n) (run_runtime_snapshots run) clear_worker_count
      (run_runtime_snapshots (nr_run n)) \<and>
    dispositions_of Metadata n = []"

text \<open>
  C1. Permissive normalization computes exactly the canonical run of the specification: it keeps
  the well-formed requests whose id no other well-formed request carries, the well-formed stages
  and queues whose unique parent was kept and contains them, and the in-flight samples with a
  gauge, each with unusable run-relative offsets (or a zero worker count) cleared and nothing
  else changed. Its report is the one that inspection alone gives, sorted by location and code.
\<close>

theorem normalize_refines_specification:
  "nr_run (normalize_run_permissive run) = canonical_run run \<and>
   nr_report (normalize_run_permissive run) = inspect_run run \<and>
   sorted (map issue_key (rep_issues (inspect_run run)))"
  by (simp add: report_of_normalize)

text \<open>
  A normalized run is a fixed point: normalizing it again changes nothing, and inspecting it
  reports no error outside the metadata.
\<close>

theorem normalize_fixed_point:
  "nr_run (normalize_run_permissive (nr_run (normalize_run_permissive run))) =
     nr_run (normalize_run_permissive run) \<and>
   filter event_error (rep_issues (inspect_run (nr_run (normalize_run_permissive run)))) = []"
proof -
  have "\<not> (\<exists>x\<in>set (all_issues (canonical_run run)). event_error x)"
    by (simp add: event_error_iff canonical_run_idem)
  then show ?thesis by (simp add: report_of_normalize canonical_run_idem filter_empty_conv)
qed

text \<open>
  C16. Strict validation accepts a run exactly when its metadata is valid and permissive
  normalization would leave it as it is, and otherwise returns the full inspection report.
\<close>

theorem strict_accepts_iff_canonical:
  "validate_run_strict run =
     (if metadata_ok run \<and> nr_run (normalize_run_permissive run) = run then Inr ()
      else Inl (inspect_run run))"
  by (rule strict_accepts_iff_canonical_fact)

text \<open>
  C17. The dispositions account for every input event of every section, in order: a retained
  disposition names the output index at which the event is found, repaired; an excluded one
  carries at least one issue code; and the output holds as many events as are retained.
\<close>

theorem dispositions_account_for_events: "accounts_for_run (normalize_run_permissive run) run"
proof -
  let ?rs = "run_requests run"
  define n where "n = normalize_run_permissive run"
  have "accounts_for (dispositions_of Requests n) ?rs repair_request (run_requests (nr_run n))"
    unfolding n_def report_of_normalize normalize_run_permissive_def dispositions_of_eq
    using accounts_for_add_disps [of "request_codes_in ?rs" "keep_request ?rs"]
    by (simp add: request_codes_in_Nil canonical_run_def normalize_inner_eq)
  moreover have "accounts_for (dispositions_of Stages n) (run_stages run) repair_stage (run_stages (nr_run n))"
    unfolding n_def normalize_run_permissive_def dispositions_of_eq
    using accounts_for_add_disps [of "stages.child_codes (parent_of ?rs)" "keep_stage ?rs"]
    by (simp add: stages.child_codes_Nil stages_child_keep canonical_run_def normalize_inner_eq)
  moreover have "accounts_for (dispositions_of Queues n) (run_queues run) repair_queue (run_queues (nr_run n))"
    unfolding n_def normalize_run_permissive_def dispositions_of_eq
    using accounts_for_add_disps [of "queues.child_codes (parent_of ?rs)" "keep_queue ?rs"]
    by (simp add: queues.child_codes_Nil queues_child_keep canonical_run_def normalize_inner_eq)
  moreover have "accounts_for (dispositions_of Inflight n) (run_inflight run) id (run_inflight (nr_run n))"
    unfolding n_def normalize_run_permissive_def dispositions_of_eq
    using accounts_for_add_disps [of "\<lambda>s. if is_blank (inf_gauge s) then [EmptyRequiredField] else []"
        "\<lambda>s. \<not> is_blank (inf_gauge s)" Inflight "run_inflight run" id]
    by (simp add: canonical_run_def normalize_inner_eq)
  moreover have "accounts_for (dispositions_of RuntimeSnapshots n) (run_runtime_snapshots run)
      clear_worker_count (run_runtime_snapshots (nr_run n))"
    unfolding n_def normalize_run_permissive_def dispositions_of_eq
    using accounts_for_add_disps [of "\<lambda>_. []" "\<lambda>_. True" RuntimeSnapshots "run_runtime_snapshots run"
        clear_worker_count]
    by (simp add: canonical_run_def normalize_inner_eq)
  moreover have "dispositions_of Metadata n = []"
    by (simp add: n_def normalize_run_permissive_def dispositions_of_eq)
  ultimately show ?thesis by (simp add: accounts_for_run_def n_def)
qed

text \<open>
  The durable lifecycle summary is silent exactly when normalization changed nothing.
\<close>

theorem lifecycle_summary_silent_iff:
  "summarize_run_validation_lifecycle (normalize_run_permissive run) = [] \<longleftrightarrow>
     nr_run (normalize_run_permissive run) = run"
proof -
  have "summarize_run_validation_lifecycle (normalize_run_permissive run) = [] \<longleftrightarrow>
      (\<forall>x\<in>set (all_issues run). summary_skips (normalize_run_permissive run) x)"
    by (simp add: summarize_run_validation_lifecycle_def summarize_normalized_run_def
        lifecycle_summary_Nil report_of_normalize)
  also have "\<dots> \<longleftrightarrow> \<not> (\<exists>x\<in>set (all_issues run). event_error x)"
    using summary_skips_iff by blast
  finally show ?thesis by (simp add: event_error_iff report_of_normalize)
qed

text \<open>
  The wording of the summaries is honest: an event error is summarised as evidence excluded
  from analysis exactly when the event's own disposition is an exclusion; on a retained event it
  is summarised as cleared optional evidence.
\<close>

theorem summary_action_matches_disposition:
  assumes "x \<in> set (rep_issues (nr_report (normalize_run_permissive run)))" and "event_error x"
  shows "\<exists>i. loc_index (iss_location x) = Some i \<and>
    (summary_action (normalize_run_permissive run) x = EvidenceExcluded \<longleftrightarrow>
     excluded_at (nr_dispositions (normalize_run_permissive run)) (loc_section (iss_location x)) i)"
proof -
  have x: "x \<in> set (all_issues run)" using assms(1) by (simp add: report_of_normalize)
  obtain i where "loc_index (iss_location x) = Some i" using retained_issue [OF x assms(2)] by blast
  then show ?thesis
    using summary_action_excluded [OF x assms(2), of "normalize_run_permissive run"]
    by (simp add: report_of_normalize)
qed

definition sample_metadata :: RunMetadata where
  "sample_metadata =
     \<lparr>md_run_id = ''r'', md_service_name = ''s'', md_service_version = None,
      md_started_at_unix_ms = 0, md_finalized_at_unix_ms = None, md_mode = Light,
      md_effective_core_config = None, md_effective_tokio_sampler_config = None,
      md_host = None, md_pid = None, md_lifecycle_warnings = [],
      md_unfinished_requests = unfinished_default, md_run_end_reason = None\<rparr>"

definition sample_blank_gauge :: Run where
  "sample_blank_gauge = (run_new sample_metadata)
     \<lparr>run_inflight := [\<lparr>inf_gauge = [], inf_at_unix_ms = 0, inf_at_run_us = None, inf_count = 0\<rparr>]\<rparr>"

definition sample_gauge_issue :: RunValidationIssue where
  "sample_gauge_issue = issue_at Inflight (Some 0) (Some ''gauge'') EmptyRequiredField SevError
      ''in-flight gauge must not be blank''"

lemma summary_action_matches_disposition_witness:
  "\<exists>i. loc_index (iss_location sample_gauge_issue) = Some i \<and>
    (summary_action (normalize_run_permissive sample_blank_gauge) sample_gauge_issue = EvidenceExcluded \<longleftrightarrow>
     excluded_at (nr_dispositions (normalize_run_permissive sample_blank_gauge))
       (loc_section (iss_location sample_gauge_issue)) i)"
proof (rule summary_action_matches_disposition)
  show "sample_gauge_issue \<in> set (rep_issues (nr_report (normalize_run_permissive sample_blank_gauge)))"
    by (simp add: report_of_normalize all_issues_def sample_blank_gauge_def run_new_def
        inflight_issues_def sample_gauge_issue_def)
  show "event_error sample_gauge_issue" by (simp add: sample_gauge_issue_def event_error_def)
qed

end
