(* ===== verification/Core_Time.thy ===== *)
theory Core_Time
  imports Core_Normalize
begin

text \<open>
  Clocks and measured intervals (\<^verbatim>\<open>time.rs\<close>). What the operating system's clocks return is an
  input: a reading holds the wall clock as nanoseconds from the Unix epoch (negative before it)
  and the monotonic clock as nanoseconds from some origin. \<^verbatim>\<open>Instant::duration_since\<close> of an
  earlier instant is zero, which truncated subtraction of natural numbers is as well.
\<close>

record clock_reading =
  rd_system_ns :: int
  rd_instant_ns :: nat

definition duration_to_unix_ms :: "nat \<Rightarrow> u64" where
  "duration_to_unix_ms duration_ns = u64_sat_of_nat (duration_ns div 1000000)"

definition duration_to_us :: "nat \<Rightarrow> u64" where
  "duration_to_us duration_ns = u64_sat_of_nat (duration_ns div 1000)"

definition system_time_to_unix_ms :: "int \<Rightarrow> u64" where
  "system_time_to_unix_ms time_ns = (if 0 \<le> time_ns then duration_to_unix_ms (nat time_ns) else 0)"

definition unix_time_ms :: "clock_reading \<Rightarrow> u64" where
  "unix_time_ms now = system_time_to_unix_ms (rd_system_ns now)"

record RunClock =
  rc_run_started :: nat
  rc_run_started_at_unix_ms :: u64

record RunClockSample =
  rcs_unix_ms :: u64
  rcs_run_elapsed_us :: u64
  rcs_instant :: nat

record IntervalStart =
  ist_started_at_unix_ms :: u64
  ist_started_at_run_us :: "u64 option"
  ist_started :: nat

record FinishedInterval =
  fin_started_at_unix_ms :: u64
  fin_started_at_run_us :: "u64 option"
  fin_finished_at_unix_ms :: u64
  fin_finished_at_run_us :: "u64 option"
  fin_duration_us :: u64

definition run_clock_new :: "clock_reading \<Rightarrow> RunClock" where
  "run_clock_new now =
     \<lparr>rc_run_started = rd_instant_ns now, rc_run_started_at_unix_ms = unix_time_ms now\<rparr>"

definition clock_sample :: "RunClock \<Rightarrow> clock_reading \<Rightarrow> RunClockSample" where
  "clock_sample self now =
     \<lparr>rcs_unix_ms = unix_time_ms now,
      rcs_run_elapsed_us = duration_to_us (rd_instant_ns now - rc_run_started self),
      rcs_instant = rd_instant_ns now\<rparr>"

definition start_interval :: "RunClock \<Rightarrow> clock_reading \<Rightarrow> IntervalStart" where
  "start_interval self now =
     (let sample = clock_sample self now in
      \<lparr>ist_started_at_unix_ms = rcs_unix_ms sample,
       ist_started_at_run_us = Some (rcs_run_elapsed_us sample),
       ist_started = rcs_instant sample\<rparr>)"

definition finish_interval :: "RunClock \<Rightarrow> IntervalStart \<Rightarrow> clock_reading \<Rightarrow> FinishedInterval" where
  "finish_interval self start now =
     (let sample = clock_sample self now in
      \<lparr>fin_started_at_unix_ms = ist_started_at_unix_ms start,
       fin_started_at_run_us = ist_started_at_run_us start,
       fin_finished_at_unix_ms = rcs_unix_ms sample,
       fin_finished_at_run_us = Some (rcs_run_elapsed_us sample),
       fin_duration_us = duration_to_us (rcs_instant sample - ist_started start)\<rparr>)"

section \<open>Facts\<close>

lemma unat_duration_to_us [u64_arith]: "unat (duration_to_us d) = min (d div 1000) u64_max"
  by (simp add: duration_to_us_def u64_arith)

lemma duration_to_us_mono: "a \<le> b \<Longrightarrow> duration_to_us a \<le> duration_to_us b"
  by (simp add: duration_to_us_def u64_sat_of_nat_mono div_le_mono)

lemma system_time_to_unix_ms_mono:
  "a \<le> b \<Longrightarrow> system_time_to_unix_ms a \<le> system_time_to_unix_ms b"
  by (auto simp: system_time_to_unix_ms_def duration_to_unix_ms_def u64_sat_of_nat_mono div_le_mono nat_mono)

text \<open>Cutting an elapsed time in two loses at most one microsecond to rounding.\<close>

lemma split_duration_us:
  fixes a b :: nat
  shows "(a + b) div 1000 - a div 1000 \<le> b div 1000 + 1" and "b div 1000 \<le> (a + b) div 1000 - a div 1000"
  by linarith+

lemma finish_interval_sel:
  "fin_started_at_run_us (finish_interval clk (start_interval clk r1) r2) =
     Some (duration_to_us (rd_instant_ns r1 - rc_run_started clk))"
  "fin_finished_at_run_us (finish_interval clk (start_interval clk r1) r2) =
     Some (duration_to_us (rd_instant_ns r2 - rc_run_started clk))"
  "fin_duration_us (finish_interval clk (start_interval clk r1) r2) =
     duration_to_us (rd_instant_ns r2 - rd_instant_ns r1)"
  "fin_started_at_unix_ms (finish_interval clk (start_interval clk r1) r2) = unix_time_ms r1"
  "fin_finished_at_unix_ms (finish_interval clk (start_interval clk r1) r2) = unix_time_ms r2"
  by (simp_all add: finish_interval_def start_interval_def clock_sample_def Let_def)

section \<open>Properties\<close>

text \<open>
  An interval measured on one run clock carries usable run-relative offsets: whatever the
  wall clock does, as long as the monotonic clock does not run backwards and the run is shorter
  than \<open>2^64\<close> microseconds, start, end and duration agree within the tolerance of validation, so
  normalization never clears the offsets of a live event.
\<close>

theorem measured_interval_precise:
  assumes "rc_run_started clk \<le> rd_instant_ns r1" and "rd_instant_ns r1 \<le> rd_instant_ns r2"
    and "(rd_instant_ns r2 - rc_run_started clk) div 1000 \<le> u64_max"
  shows "precise_ok (fin_started_at_run_us (finish_interval clk (start_interval clk r1) r2))
           (fin_finished_at_run_us (finish_interval clk (start_interval clk r1) r2))
           (fin_duration_us (finish_interval clk (start_interval clk r1) r2))"
proof -
  define a b where "a = rd_instant_ns r1 - rc_run_started clk" and "b = rd_instant_ns r2 - rd_instant_ns r1"
  have ab: "rd_instant_ns r2 - rc_run_started clk = a + b" using assms by (simp add: a_def b_def)
  have max: "(a + b) div 1000 \<le> u64_max" using assms(3) ab by simp
  have le: "duration_to_us a \<le> duration_to_us (a + b)" by (simp add: duration_to_us_mono)
  have "unat (duration_to_us (a + b) - duration_to_us a) = (a + b) div 1000 - a div 1000"
    using le max by (simp add: unat_sub u64_arith div_le_mono min_def)
  moreover have "unat (duration_to_us b) = b div 1000"
    using max by (simp add: u64_arith min_def)
  ultimately have "unat (abs_diff (duration_to_us b) (duration_to_us (a + b) - duration_to_us a)) \<le> 1"
    using split_duration_us [where a = a and b = b] by (simp add: unat_abs_diff) linarith
  then have "abs_diff (duration_to_us b) (duration_to_us (a + b) - duration_to_us a)
      \<le> RUN_RELATIVE_DURATION_TOLERANCE_US"
    by (simp add: RUN_RELATIVE_DURATION_TOLERANCE_US_def word_le_nat_alt)
  then show ?thesis
    using le by (simp add: precise_ok_def finish_interval_sel ab a_def [symmetric] b_def [symmetric])
qed

lemma measured_interval_precise_witness:
  "precise_ok
     (fin_started_at_run_us (finish_interval (run_clock_new \<lparr>rd_system_ns = 0, rd_instant_ns = 5\<rparr>)
        (start_interval (run_clock_new \<lparr>rd_system_ns = 0, rd_instant_ns = 5\<rparr>)
          \<lparr>rd_system_ns = 9000000, rd_instant_ns = 1500\<rparr>) \<lparr>rd_system_ns = -1, rd_instant_ns = 2600\<rparr>))
     (fin_finished_at_run_us (finish_interval (run_clock_new \<lparr>rd_system_ns = 0, rd_instant_ns = 5\<rparr>)
        (start_interval (run_clock_new \<lparr>rd_system_ns = 0, rd_instant_ns = 5\<rparr>)
          \<lparr>rd_system_ns = 9000000, rd_instant_ns = 1500\<rparr>) \<lparr>rd_system_ns = -1, rd_instant_ns = 2600\<rparr>))
     (fin_duration_us (finish_interval (run_clock_new \<lparr>rd_system_ns = 0, rd_instant_ns = 5\<rparr>)
        (start_interval (run_clock_new \<lparr>rd_system_ns = 0, rd_instant_ns = 5\<rparr>)
          \<lparr>rd_system_ns = 9000000, rd_instant_ns = 1500\<rparr>) \<lparr>rd_system_ns = -1, rd_instant_ns = 2600\<rparr>))"
  by (rule measured_interval_precise) (simp_all add: run_clock_new_def)

end
