(* ===== verification/Core_Config.thy ===== *)
theory Core_Config
  imports Core_Model
begin

text \<open>
  The builder of a capture run (\<^verbatim>\<open>config.rs\<close>): its settings, the resolution of capture limits
  from mode, overrides and full override, and the errors of \<^verbatim>\<open>build\<close>. The sink is a parameter:
  a value of the type \<open>'snk\<close>, either the local JSON sink for a path or one given by the caller.
\<close>

datatype 'c dyn_sink = SinkLocalJson string | SinkCustom 'c

record 'c Config =
  cfg_service_name :: string
  cfg_service_version :: "string option"
  cfg_run_id :: "string option"
  cfg_mode :: CaptureMode
  cfg_sink :: "'c dyn_sink option"
  cfg_effective_core :: EffectiveCoreConfig
  cfg_strict_lifecycle :: bool

datatype BuildError = EmptyServiceName | MissingSink

fun build_error_display :: "BuildError \<Rightarrow> string" where
  "build_error_display EmptyServiceName = ''service_name cannot be empty''"
| "build_error_display MissingSink = ''an output path or sink must be selected''"

record 'c TailtriageBuilder =
  tb_service_name :: string
  tb_service_version :: "string option"
  tb_run_id :: "string option"
  tb_mode :: CaptureMode
  tb_sink :: "'c dyn_sink option"
  tb_capture_limits :: "CaptureLimits option"
  tb_capture_limits_override :: CaptureLimitsOverride
  tb_strict_lifecycle :: bool

definition builder_new :: "string \<Rightarrow> 'c TailtriageBuilder" where
  "builder_new service_name =
     \<lparr>tb_service_name = service_name, tb_service_version = None, tb_run_id = None,
      tb_mode = Light, tb_sink = None, tb_capture_limits = None,
      tb_capture_limits_override = override_default, tb_strict_lifecycle = False\<rparr>"

definition builder_mode :: "CaptureMode \<Rightarrow> 'c TailtriageBuilder \<Rightarrow> 'c TailtriageBuilder" where
  "builder_mode mode self = self\<lparr>tb_mode := mode\<rparr>"

definition builder_output :: "string \<Rightarrow> 'c TailtriageBuilder \<Rightarrow> 'c TailtriageBuilder" where
  "builder_output output_path self = self\<lparr>tb_sink := Some (SinkLocalJson output_path)\<rparr>"

definition builder_sink :: "'c \<Rightarrow> 'c TailtriageBuilder \<Rightarrow> 'c TailtriageBuilder" where
  "builder_sink sink self = self\<lparr>tb_sink := Some (SinkCustom sink)\<rparr>"

definition builder_service_version :: "string \<Rightarrow> 'c TailtriageBuilder \<Rightarrow> 'c TailtriageBuilder" where
  "builder_service_version v self = self\<lparr>tb_service_version := Some v\<rparr>"

definition builder_run_id :: "string \<Rightarrow> 'c TailtriageBuilder \<Rightarrow> 'c TailtriageBuilder" where
  "builder_run_id rid self = self\<lparr>tb_run_id := Some rid\<rparr>"

definition builder_capture_limits :: "CaptureLimits \<Rightarrow> 'c TailtriageBuilder \<Rightarrow> 'c TailtriageBuilder" where
  "builder_capture_limits limits self = self\<lparr>tb_capture_limits := Some limits\<rparr>"

definition builder_capture_limits_override ::
    "CaptureLimitsOverride \<Rightarrow> 'c TailtriageBuilder \<Rightarrow> 'c TailtriageBuilder" where
  "builder_capture_limits_override overrides self =
     self\<lparr>tb_capture_limits_override := override_merge (tb_capture_limits_override self) overrides\<rparr>"

definition builder_strict_lifecycle :: "bool \<Rightarrow> 'c TailtriageBuilder \<Rightarrow> 'c TailtriageBuilder" where
  "builder_strict_lifecycle strict self = self\<lparr>tb_strict_lifecycle := strict\<rparr>"

definition config_from_builder :: "'c TailtriageBuilder \<Rightarrow> 'c Config" where
  "config_from_builder builder =
     (let mode_defaults = core_defaults (tb_mode builder);
          effective_limits = (case tb_capture_limits builder of
              Some full_override \<Rightarrow> full_override
            | None \<Rightarrow> override_apply (tb_capture_limits_override builder) mode_defaults)
      in \<lparr>cfg_service_name = tb_service_name builder, cfg_service_version = tb_service_version builder,
          cfg_run_id = tb_run_id builder, cfg_mode = tb_mode builder, cfg_sink = tb_sink builder,
          cfg_effective_core = \<lparr>ecc_mode = tb_mode builder, ecc_capture_limits = effective_limits,
                                ecc_strict_lifecycle = tb_strict_lifecycle builder\<rparr>,
          cfg_strict_lifecycle = tb_strict_lifecycle builder\<rparr>)"

text \<open>\<^verbatim>\<open>build\<close> up to the construction of the collector, which is the argument.\<close>

definition builder_build :: "('c Config \<Rightarrow> BuildError + 't) \<Rightarrow> 'c TailtriageBuilder \<Rightarrow> BuildError + 't" where
  "builder_build from_config self =
     (if is_blank (tb_service_name self) then Inl EmptyServiceName
      else if tb_sink self = None then Inl MissingSink
      else from_config (config_from_builder self))"

record RequestOptions =
  opt_request_id :: "string option"
  opt_kind :: "string option"

definition request_options_new :: RequestOptions where
  "request_options_new = \<lparr>opt_request_id = None, opt_kind = None\<rparr>"

definition request_options_request_id :: "string \<Rightarrow> RequestOptions \<Rightarrow> RequestOptions" where
  "request_options_request_id rid self = self\<lparr>opt_request_id := Some rid\<rparr>"

definition request_options_kind :: "string \<Rightarrow> RequestOptions \<Rightarrow> RequestOptions" where
  "request_options_kind kind self = self\<lparr>opt_kind := Some kind\<rparr>"

section \<open>Properties\<close>

text \<open>The setters as data, so that a property can speak of any sequence of calls.\<close>

datatype 'c builder_call =
    CallMode CaptureMode
  | CallOutput string
  | CallSink 'c
  | CallServiceVersion string
  | CallRunId string
  | CallCaptureLimits CaptureLimits
  | CallCaptureLimitsOverride CaptureLimitsOverride
  | CallStrictLifecycle bool

fun apply_builder_call :: "'c TailtriageBuilder \<Rightarrow> 'c builder_call \<Rightarrow> 'c TailtriageBuilder" where
  "apply_builder_call b (CallMode m) = builder_mode m b"
| "apply_builder_call b (CallOutput p) = builder_output p b"
| "apply_builder_call b (CallSink s) = builder_sink s b"
| "apply_builder_call b (CallServiceVersion v) = builder_service_version v b"
| "apply_builder_call b (CallRunId r) = builder_run_id r b"
| "apply_builder_call b (CallCaptureLimits l) = builder_capture_limits l b"
| "apply_builder_call b (CallCaptureLimitsOverride overrides) = builder_capture_limits_override overrides b"
| "apply_builder_call b (CallStrictLifecycle s) = builder_strict_lifecycle s b"

definition last_call :: "('c builder_call \<Rightarrow> 'a option) \<Rightarrow> 'c builder_call list \<Rightarrow> 'a option" where
  "last_call f cs = foldl (\<lambda>acc c. case f c of Some v \<Rightarrow> Some v | None \<Rightarrow> acc) None cs"

fun call_mode :: "'c builder_call \<Rightarrow> CaptureMode option" where
  "call_mode (CallMode m) = Some m" | "call_mode _ = None"

fun call_limits :: "'c builder_call \<Rightarrow> CaptureLimits option" where
  "call_limits (CallCaptureLimits l) = Some l" | "call_limits _ = None"

fun call_override :: "'c builder_call \<Rightarrow> CaptureLimitsOverride list" where
  "call_override (CallCaptureLimitsOverride overrides) = [overrides]" | "call_override _ = []"

lemma last_call_snoc [simp]:
  "last_call f [] = None"
  "last_call f (cs @ [c]) = (case f c of Some v \<Rightarrow> Some v | None \<Rightarrow> last_call f cs)"
  by (simp_all add: last_call_def split: option.split)

lemma builder_calls_fields:
  "tb_mode (foldl apply_builder_call (builder_new name) cs) =
     (case last_call call_mode cs of Some m \<Rightarrow> m | None \<Rightarrow> Light) \<and>
   tb_capture_limits (foldl apply_builder_call (builder_new name) cs) = last_call call_limits cs \<and>
   override_apply (tb_capture_limits_override (foldl apply_builder_call (builder_new name) cs)) base =
     foldl (\<lambda>b overrides. override_apply overrides b) base (concat (map call_override cs))"
proof (induction cs rule: rev_induct)
  case Nil
  then show ?case by (simp add: builder_new_def override_default_apply)
next
  case (snoc c cs)
  then show ?case
    by (cases c)
      (simp_all add: builder_mode_def builder_output_def builder_sink_def builder_service_version_def
        builder_run_id_def builder_capture_limits_def builder_capture_limits_override_def
        builder_strict_lifecycle_def override_merge_apply)
qed

text \<open>
  The effective capture limits after any sequence of builder calls: the last full override
  if there was one, wherever it came in the sequence; otherwise the defaults of the last mode,
  with all field overrides applied in call order (a later override wins field by field).
\<close>

theorem effective_limits_resolution:
  "ecc_capture_limits (cfg_effective_core (config_from_builder (foldl apply_builder_call (builder_new name) cs))) =
     (case last_call call_limits cs of
        Some full \<Rightarrow> full
      | None \<Rightarrow> foldl (\<lambda>b overrides. override_apply overrides b)
                  (core_defaults (case last_call call_mode cs of Some m \<Rightarrow> m | None \<Rightarrow> Light))
                  (concat (map call_override cs)))"
  using builder_calls_fields [of name cs]
  by (simp add: config_from_builder_def Let_def split: option.splits)

end
