(* ===== verification/Core_Sink.thy ===== *)
theory Core_Sink
  imports Core_Model
begin

text \<open>
  Run sinks (\<^verbatim>\<open>sink.rs\<close>). A sink is a function from a world and a run to the world after the
  write and its result; the world is what the sink persists into. The JSON encoder is a
  parameter. The file system is a map from paths to contents, and what the operating system
  may answer to each call of one write attempt is an input, so every error path is a branch.
\<close>

datatype SinkError = SinkIo string | SinkSerialize string

fun sink_error_display :: "SinkError \<Rightarrow> string" where
  "sink_error_display (SinkIo err) = ''I/O error while writing run output: '' @ err"
| "sink_error_display (SinkSerialize err) = ''serialization error while writing run output: '' @ err"

text \<open>What a sink that keeps the run promises: \<open>stored\<close> is what can be read back.\<close>

locale retaining_sink =
  fixes wr :: "'w \<Rightarrow> Run \<Rightarrow> 'w \<times> (SinkError + unit)"
    and stored :: "'w \<Rightarrow> 'a option"
    and encode :: "Run \<Rightarrow> 'a"
  assumes write_ok: "snd (wr w run) = Inr () \<Longrightarrow> stored (fst (wr w run)) = Some (encode run)"
    and write_err: "snd (wr w run) = Inl e \<Longrightarrow> stored (fst (wr w run)) = stored w"
begin

lemma write_old_or_new:
  "stored (fst (wr w run)) = stored w \<or> stored (fst (wr w run)) = Some (encode run)"
  using write_ok [of w run] write_err [of w run] by (cases "snd (wr w run)") auto

definition write_all :: "'w \<Rightarrow> Run list \<Rightarrow> 'w" where
  "write_all w runs = foldl (\<lambda>w run. fst (wr w run)) w runs"

lemma write_all_stored:
  "stored (write_all w runs) = stored w \<or> (\<exists>run\<in>set runs. stored (write_all w runs) = Some (encode run))"
proof (induction runs arbitrary: w)
  case Nil
  then show ?case by (simp add: write_all_def)
next
  case (Cons run runs)
  show ?case
    using Cons.IH [of "fst (wr w run)"] write_old_or_new [of w run]
    unfolding write_all_def foldl_Cons by auto
qed

end

section \<open>Discarding and in-memory sinks\<close>

definition discard_write :: "unit \<Rightarrow> Run \<Rightarrow> unit \<times> (SinkError + unit)" where
  "discard_write w run = (w, Inr ())"

definition memory_new :: "Run option" where
  "memory_new = None"

definition memory_last_run :: "Run option \<Rightarrow> Run option" where
  "memory_last_run w = w"

definition memory_take_run :: "Run option \<Rightarrow> Run option \<times> Run option" where
  "memory_take_run w = (w, None)"

definition memory_clear :: "Run option \<Rightarrow> Run option" where
  "memory_clear w = None"

definition memory_write :: "Run option \<Rightarrow> Run \<Rightarrow> Run option \<times> (SinkError + unit)" where
  "memory_write w run = (Some run, Inr ())"

interpretation memory: retaining_sink memory_write memory_last_run id
  by unfold_locales (simp_all add: memory_write_def memory_last_run_def)

section \<open>The local JSON sink\<close>

text \<open>
  A path as the sink looks at it: \<^verbatim>\<open>parent()\<close>, and \<^verbatim>\<open>file_name()\<close> where it is valid UTF-8.
\<close>

record path =
  path_parent :: "string option"
  path_file_name :: "string option"

record write_faults =
  wf_open :: "string option"
  wf_serialize :: "SinkError option"
  wf_flush :: "string option"
  wf_into_inner :: "string option"
  wf_sync_all :: "string option"
  wf_rename :: "string option"
  wf_remove_fails :: bool
  wf_partial :: string

definition no_faults :: write_faults where
  "no_faults = \<lparr>wf_open = None, wf_serialize = None, wf_flush = None, wf_into_inner = None,
     wf_sync_all = None, wf_rename = None, wf_remove_fails = False, wf_partial = []\<rparr>"

type_synonym files = "path \<Rightarrow> string option"

text \<open>The world: the files, and for every coming attempt the clock and the answers.\<close>

record fs_world =
  fs_files :: files
  fs_script :: "(nat \<times> write_faults) list"

definition create_temp_path :: "string \<Rightarrow> path \<Rightarrow> nat \<Rightarrow> nat \<Rightarrow> path" where
  "create_temp_path parent final_path pid epoch_nanos =
     (let file_name = (case path_file_name final_path of Some f \<Rightarrow> f | None \<Rightarrow> ''tailtriage-run.json'')
      in \<lparr>path_parent = Some parent,
          path_file_name = Some (''.'' @ file_name @ ''.tmp-'' @ show_nat pid @ ''-'' @ show_nat epoch_nanos)\<rparr>)"

definition finalize_temp_file :: "path \<Rightarrow> path \<Rightarrow> files \<Rightarrow> files" where
  "finalize_temp_file temp_path final_path files = (files(temp_path := None))(final_path := files temp_path)"

text \<open>The closure of \<^verbatim>\<open>write\<close>: what it leaves in the file system and its result.\<close>

definition write_attempt :: "(Run \<Rightarrow> string) \<Rightarrow> path \<Rightarrow> path \<Rightarrow> write_faults \<Rightarrow> Run \<Rightarrow> files \<Rightarrow>
    files \<times> (SinkError + unit)" where
  "write_attempt to_json temp_path final_path flt run files =
     (case wf_open flt of Some e \<Rightarrow> (files, Inl (SinkIo e))
      | None \<Rightarrow>
     (if files temp_path \<noteq> None then (files, Inl (SinkIo ''File exists (os error 17)''))
      else case wf_serialize flt of
        Some e \<Rightarrow> (files(temp_path \<mapsto> wf_partial flt), Inl e)
      | None \<Rightarrow> case wf_flush flt of
        Some e \<Rightarrow> (files(temp_path \<mapsto> wf_partial flt), Inl (SinkIo e))
      | None \<Rightarrow> case wf_into_inner flt of
        Some e \<Rightarrow> (files(temp_path \<mapsto> wf_partial flt), Inl (SinkIo e))
      | None \<Rightarrow> case wf_sync_all flt of
        Some e \<Rightarrow> (files(temp_path \<mapsto> to_json run), Inl (SinkIo e))
      | None \<Rightarrow> case wf_rename flt of
        Some e \<Rightarrow> (files(temp_path \<mapsto> to_json run), Inl (SinkIo e))
      | None \<Rightarrow> (finalize_temp_file temp_path final_path (files(temp_path \<mapsto> to_json run)), Inr ())))"

definition local_json_write :: "(Run \<Rightarrow> string) \<Rightarrow> nat \<Rightarrow> path \<Rightarrow> fs_world \<Rightarrow> Run \<Rightarrow>
    fs_world \<times> (SinkError + unit)" where
  "local_json_write to_json pid self w run =
     (let (epoch_nanos, flt) = (case fs_script w of [] \<Rightarrow> (0, no_faults) | a # _ \<Rightarrow> a);
          parent = (case path_parent self of Some p \<Rightarrow> p | None \<Rightarrow> ''.'');
          temp_path = create_temp_path parent self pid epoch_nanos;
          (files, write_result) = write_attempt to_json temp_path self flt run (fs_files w);
          files = (case write_result of
              Inl _ \<Rightarrow> if wf_remove_fails flt then files else files(temp_path := None)
            | Inr _ \<Rightarrow> files)
      in (w\<lparr>fs_files := files, fs_script := tl (fs_script w)\<rparr>, write_result))"

definition stored_file :: "path \<Rightarrow> fs_world \<Rightarrow> string option" where
  "stored_file self w = fs_files w self"

lemma temp_path_neq: "create_temp_path parent final_path pid nanos \<noteq> final_path"
proof
  assume eq: "create_temp_path parent final_path pid nanos = final_path"
  then obtain f where f: "path_file_name final_path = Some f"
    by (cases "path_file_name final_path") (auto simp: create_temp_path_def Let_def)
  have "path_file_name (create_temp_path parent final_path pid nanos) = Some f" using eq f by simp
  then have "length f = length (''.'' @ f @ ''.tmp-'' @ show_nat pid @ ''-'' @ show_nat nanos)"
    using f by (simp add: create_temp_path_def Let_def)
  then show False by simp
qed

lemma write_attempt_err:
  "snd (write_attempt to_json t p flt run files) = Inl e \<Longrightarrow>
   \<forall>q. q \<noteq> t \<longrightarrow> fst (write_attempt to_json t p flt run files) q = files q"
  by (auto simp: write_attempt_def split: option.splits if_splits)

lemma write_attempt_ok:
  "snd (write_attempt to_json t p flt run files) = Inr () \<Longrightarrow> t \<noteq> p \<Longrightarrow>
   files t = None \<and> fst (write_attempt to_json t p flt run files) = files(p \<mapsto> to_json run)"
  by (auto simp: write_attempt_def finalize_temp_file_def fun_eq_iff split: option.splits if_splits)

definition attempt_temp_path :: "nat \<Rightarrow> path \<Rightarrow> fs_world \<Rightarrow> path" where
  "attempt_temp_path pid self w =
     create_temp_path (case path_parent self of Some p \<Rightarrow> p | None \<Rightarrow> ''.'') self pid
       (fst (case fs_script w of [] \<Rightarrow> (0, no_faults) | a # _ \<Rightarrow> a))"

lemma local_json_write_cases:
  "case snd (local_json_write to_json pid self w run) of
     Inr _ \<Rightarrow> fs_files (fst (local_json_write to_json pid self w run)) = (fs_files w)(self \<mapsto> to_json run)
   | Inl _ \<Rightarrow> (\<forall>q. q \<noteq> attempt_temp_path pid self w \<longrightarrow>
        fs_files (fst (local_json_write to_json pid self w run)) q = fs_files w q)"
proof -
  obtain nanos flt where s: "(case fs_script w of [] \<Rightarrow> (0, no_faults) | a # _ \<Rightarrow> a) = (nanos, flt)"
    by (rule prod.exhaust)
  let ?t = "attempt_temp_path pid self w"
  have t: "?t = create_temp_path (case path_parent self of Some p \<Rightarrow> p | None \<Rightarrow> ''.'') self pid nanos"
    by (simp add: attempt_temp_path_def s)
  have neq: "?t \<noteq> self" unfolding t by (rule temp_path_neq)
  obtain files r where a: "write_attempt to_json ?t self flt run (fs_files w) = (files, r)"
    by (rule prod.exhaust)
  show ?thesis
  proof (cases r)
    case (Inl e)
    then show ?thesis
      using a write_attempt_err [of to_json ?t self flt run "fs_files w" e]
      by (simp add: local_json_write_def s Let_def t [symmetric])
  next
    case (Inr u)
    then show ?thesis
      using a neq write_attempt_ok [of to_json ?t self flt run "fs_files w"]
      by (simp add: local_json_write_def s Let_def t [symmetric])
  qed
qed

interpretation local_json: retaining_sink "local_json_write to_json pid self" "stored_file self" to_json
proof
  fix w :: fs_world and run e
  have neq: "self \<noteq> attempt_temp_path pid self w"
    unfolding attempt_temp_path_def using temp_path_neq by metis
  show "snd (local_json_write to_json pid self w run) = Inr () \<Longrightarrow>
      stored_file self (fst (local_json_write to_json pid self w run)) = Some (to_json run)"
    using local_json_write_cases [where to_json = to_json and pid = pid and self = self and w = w and run = run] by (simp add: stored_file_def)
  show "snd (local_json_write to_json pid self w run) = Inl e \<Longrightarrow>
      stored_file self (fst (local_json_write to_json pid self w run)) = stored_file self w"
    using local_json_write_cases [where to_json = to_json and pid = pid and self = self and w = w and run = run] neq by (simp add: stored_file_def)
qed

text \<open>
  The cleanup after a failed attempt does not ask who made the temporary file: if opening it
  failed because it already existed, the other writer's file is removed.
\<close>

lemma failed_open_removes_existing_temp:
  assumes "fs_script w = (nanos, no_faults) # script" and "fs_files w (attempt_temp_path pid self w) = Some other"
  shows "fs_files (fst (local_json_write to_json pid self w run)) (attempt_temp_path pid self w) = None \<and>
    snd (local_json_write to_json pid self w run) \<noteq> Inr ()"
  using assms
  by (simp add: local_json_write_def attempt_temp_path_def write_attempt_def no_faults_def Let_def)

section \<open>Properties\<close>

text \<open>
  C33. The local sink replaces the artifact atomically: whatever fails on the way, no file other
  than the attempt's temporary file changes unless the write succeeds, and then the target holds
  the complete document and every other file is as before. In particular after any number of
  attempts the target holds its old content or the complete document of one of the runs.
\<close>

theorem local_sink_atomic:
  "(case snd (local_json_write to_json pid self w run) of
     Inr _ \<Rightarrow> fs_files (fst (local_json_write to_json pid self w run)) = (fs_files w)(self \<mapsto> to_json run)
   | Inl _ \<Rightarrow> {q. fs_files (fst (local_json_write to_json pid self w run)) q \<noteq> fs_files w q}
        \<subseteq> {attempt_temp_path pid self w} - {self}) \<and>
   stored_file self (foldl (\<lambda>w run. fst (local_json_write to_json pid self w run)) w runs)
     \<in> insert (stored_file self w) ((\<lambda>r. Some (to_json r)) ` set runs)"
proof
  have neq: "self \<noteq> attempt_temp_path pid self w"
    unfolding attempt_temp_path_def using temp_path_neq by metis
  show "case snd (local_json_write to_json pid self w run) of
     Inr _ \<Rightarrow> fs_files (fst (local_json_write to_json pid self w run)) = (fs_files w)(self \<mapsto> to_json run)
   | Inl _ \<Rightarrow> {q. fs_files (fst (local_json_write to_json pid self w run)) q \<noteq> fs_files w q}
        \<subseteq> {attempt_temp_path pid self w} - {self}"
    using local_json_write_cases [where to_json = to_json and pid = pid and self = self and w = w and run = run] neq by (auto split: sum.splits)
  show "stored_file self (foldl (\<lambda>w run. fst (local_json_write to_json pid self w run)) w runs)
     \<in> insert (stored_file self w) ((\<lambda>r. Some (to_json r)) ` set runs)"
    using local_json.write_all_stored [where to_json = to_json and pid = pid and self = self and w = w and runs = runs]
    unfolding local_json.write_all_def by auto
qed

end
