(* ===== verification/Core_Retention.thy ===== *)
theory Core_Retention
  imports Core_Model
begin

text \<open>
  Bounded first-N retention (\<^verbatim>\<open>retention.rs\<close>). Each section of a run is filled through one
  push function that either appends the event or counts the drop. What the five functions promise
  their callers (the live collector and the run builder) is the locale \<open>bounded_section\<close>: one
  section, its drop counter and its capacity; it is interpreted on all five.
\<close>

section \<open>The push functions\<close>

text \<open>The flag of the result says whether the event was dropped.\<close>

definition push_request_bounded :: "Run \<Rightarrow> CaptureLimits \<Rightarrow> RequestEvent \<Rightarrow> Run \<times> bool" where
  "push_request_bounded run limits event =
     (if length (run_requests run) < max_requests limits
      then (run\<lparr>run_requests := run_requests run @ [event]\<rparr>, False)
      else (run\<lparr>run_truncation := (run_truncation run)
               \<lparr>tr_limits_hit := True,
                tr_dropped_requests := saturating_add (tr_dropped_requests (run_truncation run)) 1\<rparr>\<rparr>,
            True))"

definition push_stage_bounded :: "Run \<Rightarrow> CaptureLimits \<Rightarrow> StageEvent \<Rightarrow> Run \<times> bool" where
  "push_stage_bounded run limits event =
     (if length (run_stages run) < max_stages limits
      then (run\<lparr>run_stages := run_stages run @ [event]\<rparr>, False)
      else (run\<lparr>run_truncation := (run_truncation run)
               \<lparr>tr_limits_hit := True,
                tr_dropped_stages := saturating_add (tr_dropped_stages (run_truncation run)) 1\<rparr>\<rparr>,
            True))"

definition push_queue_bounded :: "Run \<Rightarrow> CaptureLimits \<Rightarrow> QueueEvent \<Rightarrow> Run \<times> bool" where
  "push_queue_bounded run limits event =
     (if length (run_queues run) < max_queues limits
      then (run\<lparr>run_queues := run_queues run @ [event]\<rparr>, False)
      else (run\<lparr>run_truncation := (run_truncation run)
               \<lparr>tr_limits_hit := True,
                tr_dropped_queues := saturating_add (tr_dropped_queues (run_truncation run)) 1\<rparr>\<rparr>,
            True))"

definition push_inflight_snapshot_bounded :: "Run \<Rightarrow> CaptureLimits \<Rightarrow> InFlightSnapshot \<Rightarrow> Run \<times> bool" where
  "push_inflight_snapshot_bounded run limits event =
     (if length (run_inflight run) < max_inflight_snapshots limits
      then (run\<lparr>run_inflight := run_inflight run @ [event]\<rparr>, False)
      else (run\<lparr>run_truncation := (run_truncation run)
               \<lparr>tr_limits_hit := True,
                tr_dropped_inflight_snapshots := saturating_add (tr_dropped_inflight_snapshots (run_truncation run)) 1\<rparr>\<rparr>,
            True))"

definition push_runtime_snapshot_bounded :: "Run \<Rightarrow> CaptureLimits \<Rightarrow> RuntimeSnapshot \<Rightarrow> Run \<times> bool" where
  "push_runtime_snapshot_bounded run limits event =
     (if length (run_runtime_snapshots run) < max_runtime_snapshots limits
      then (run\<lparr>run_runtime_snapshots := run_runtime_snapshots run @ [event]\<rparr>, False)
      else (run\<lparr>run_truncation := (run_truncation run)
               \<lparr>tr_limits_hit := True,
                tr_dropped_runtime_snapshots := saturating_add (tr_dropped_runtime_snapshots (run_truncation run)) 1\<rparr>\<rparr>,
            True))"

section \<open>The retention contract\<close>

text \<open>
  \<open>rest\<close> is everything in the run that a push to this section leaves alone: the other
  sections, their drop counters, the schema version and the metadata.
\<close>

locale bounded_section =
  fixes events :: "Run \<Rightarrow> 'e list"
    and dropped :: "Run \<Rightarrow> u64"
    and capacity :: "CaptureLimits \<Rightarrow> nat"
    and rest :: "Run \<Rightarrow> 'r"
    and push :: "Run \<Rightarrow> CaptureLimits \<Rightarrow> 'e \<Rightarrow> Run \<times> bool"
  assumes push_flag: "snd (push run limits e) \<longleftrightarrow> \<not> length (events run) < capacity limits"
    and push_room: "length (events run) < capacity limits \<Longrightarrow>
          events (fst (push run limits e)) = events run @ [e]"
    and push_room_truncation: "length (events run) < capacity limits \<Longrightarrow>
          run_truncation (fst (push run limits e)) = run_truncation run"
    and push_room_dropped: "length (events run) < capacity limits \<Longrightarrow>
          dropped (fst (push run limits e)) = dropped run"
    and push_full: "\<not> length (events run) < capacity limits \<Longrightarrow>
          events (fst (push run limits e)) = events run"
    and push_full_dropped: "\<not> length (events run) < capacity limits \<Longrightarrow>
          dropped (fst (push run limits e)) = saturating_add (dropped run) 1"
    and push_full_limits_hit: "\<not> length (events run) < capacity limits \<Longrightarrow>
          tr_limits_hit (run_truncation (fst (push run limits e)))"
    and push_rest: "rest (fst (push run limits e)) = rest run"
begin

lemma push_bound:
  "length (events run) \<le> capacity limits \<Longrightarrow>
   length (events (fst (push run limits e))) \<le> capacity limits"
  by (cases "length (events run) < capacity limits") (simp_all add: push_room push_full)

lemma push_prefix: "\<exists>es. events (fst (push run limits e)) = events run @ es \<and> set es \<subseteq> {e}"
  by (cases "length (events run) < capacity limits") (simp_all add: push_room push_full)

definition push_all :: "CaptureLimits \<Rightarrow> Run \<Rightarrow> 'e list \<Rightarrow> Run" where
  "push_all limits run es = foldl (\<lambda>r e. fst (push r limits e)) run es"

lemma push_all_Nil [simp]: "push_all limits run [] = run"
  by (simp add: push_all_def)

lemma push_all_Cons [simp]:
  "push_all limits run (e # es) = push_all limits (fst (push run limits e)) es"
  by (simp add: push_all_def)

lemma push_all_rest: "rest (push_all limits run es) = rest run"
  by (induction es arbitrary: run) (simp_all add: push_rest)

lemma push_all_events:
  "events (push_all limits run es) =
     events run @ take (capacity limits - length (events run)) es"
proof (induction es arbitrary: run)
  case (Cons e es)
  show ?case
  proof (cases "length (events run) < capacity limits")
    case True
    then have "capacity limits - length (events run)
        = Suc (capacity limits - Suc (length (events run)))"
      by simp
    with True show ?thesis by (simp add: Cons.IH push_room)
  next
    case False
    then show ?thesis by (simp add: Cons.IH push_full)
  qed
qed simp

lemma push_all_dropped:
  "unat (dropped (push_all limits run es)) =
     min (unat (dropped run) + (length es - (capacity limits - length (events run)))) u64_max"
proof (induction es arbitrary: run)
  case Nil
  then show ?case using unat_le_u64_max [of "dropped run"] by simp
next
  case (Cons e es)
  show ?case
  proof (cases "length (events run) < capacity limits")
    case True
    then have "length es - (capacity limits - Suc (length (events run)))
        = length (e # es) - (capacity limits - length (events run))"
      by simp
    with True show ?thesis by (simp add: Cons.IH push_room push_room_dropped)
  next
    case False
    then show ?thesis
      by (simp add: Cons.IH push_full push_full_dropped unat_saturating_add min_def)
  qed
qed

lemma push_limits_hit_mono:
  "tr_limits_hit (run_truncation run) \<Longrightarrow>
   tr_limits_hit (run_truncation (fst (push run limits e)))"
  by (cases "length (events run) < capacity limits")
    (simp_all add: push_room_truncation push_full_limits_hit)

lemma push_all_limits_hit:
  "tr_limits_hit (run_truncation (push_all limits run es)) \<longleftrightarrow>
     tr_limits_hit (run_truncation run) \<or> capacity limits - length (events run) < length es"
proof (induction es arbitrary: run)
  case (Cons e es)
  show ?case
  proof (cases "length (events run) < capacity limits")
    case True
    then show ?thesis by (auto simp: Cons.IH push_room push_room_truncation)
  next
    case False
    then show ?thesis by (simp add: Cons.IH push_full push_full_limits_hit)
  qed
qed simp

end

interpretation request_section: bounded_section run_requests "\<lambda>r. tr_dropped_requests (run_truncation r)" max_requests
  "\<lambda>r. (run_schema_version r, run_metadata r, run_stages r, run_queues r, run_inflight r,
      run_runtime_snapshots r, tr_dropped_stages (run_truncation r), tr_dropped_queues
      (run_truncation r), tr_dropped_inflight_snapshots (run_truncation r),
      tr_dropped_runtime_snapshots (run_truncation r))"
  push_request_bounded
  by unfold_locales (simp_all add: push_request_bounded_def)

interpretation stage_section: bounded_section run_stages "\<lambda>r. tr_dropped_stages (run_truncation r)" max_stages
  "\<lambda>r. (run_schema_version r, run_metadata r, run_requests r, run_queues r, run_inflight r,
      run_runtime_snapshots r, tr_dropped_requests (run_truncation r), tr_dropped_queues
      (run_truncation r), tr_dropped_inflight_snapshots (run_truncation r),
      tr_dropped_runtime_snapshots (run_truncation r))"
  push_stage_bounded
  by unfold_locales (simp_all add: push_stage_bounded_def)

interpretation queue_section: bounded_section run_queues "\<lambda>r. tr_dropped_queues (run_truncation r)" max_queues
  "\<lambda>r. (run_schema_version r, run_metadata r, run_requests r, run_stages r, run_inflight r,
      run_runtime_snapshots r, tr_dropped_requests (run_truncation r), tr_dropped_stages
      (run_truncation r), tr_dropped_inflight_snapshots (run_truncation r),
      tr_dropped_runtime_snapshots (run_truncation r))"
  push_queue_bounded
  by unfold_locales (simp_all add: push_queue_bounded_def)

interpretation inflight_snapshot_section: bounded_section run_inflight "\<lambda>r. tr_dropped_inflight_snapshots (run_truncation r)" max_inflight_snapshots
  "\<lambda>r. (run_schema_version r, run_metadata r, run_requests r, run_stages r, run_queues r,
      run_runtime_snapshots r, tr_dropped_requests (run_truncation r), tr_dropped_stages
      (run_truncation r), tr_dropped_queues (run_truncation r),
      tr_dropped_runtime_snapshots (run_truncation r))"
  push_inflight_snapshot_bounded
  by unfold_locales (simp_all add: push_inflight_snapshot_bounded_def)

interpretation runtime_snapshot_section: bounded_section run_runtime_snapshots "\<lambda>r. tr_dropped_runtime_snapshots (run_truncation r)" max_runtime_snapshots
  "\<lambda>r. (run_schema_version r, run_metadata r, run_requests r, run_stages r, run_queues r,
      run_inflight r, tr_dropped_requests (run_truncation r), tr_dropped_stages
      (run_truncation r), tr_dropped_queues (run_truncation r),
      tr_dropped_inflight_snapshots (run_truncation r))"
  push_runtime_snapshot_bounded
  by unfold_locales (simp_all add: push_runtime_snapshot_bounded_def)

lemmas push_bounded_defs =
  push_request_bounded_def push_stage_bounded_def push_queue_bounded_def
  push_inflight_snapshot_bounded_def push_runtime_snapshot_bounded_def

text \<open>The well-formedness of a bounded run: no section exceeds its capacity.\<close>

definition within_limits :: "CaptureLimits \<Rightarrow> Run \<Rightarrow> bool" where
  "within_limits limits run \<longleftrightarrow>
     length (run_requests run) \<le> max_requests limits \<and>
     length (run_stages run) \<le> max_stages limits \<and>
     length (run_queues run) \<le> max_queues limits \<and>
     length (run_inflight run) \<le> max_inflight_snapshots limits \<and>
     length (run_runtime_snapshots run) \<le> max_runtime_snapshots limits"

lemma within_limits_push:
  assumes "within_limits limits run"
  shows "within_limits limits (fst (push_request_bounded run limits r))"
    and "within_limits limits (fst (push_stage_bounded run limits s))"
    and "within_limits limits (fst (push_queue_bounded run limits q))"
    and "within_limits limits (fst (push_inflight_snapshot_bounded run limits i))"
    and "within_limits limits (fst (push_runtime_snapshot_bounded run limits t))"
  using assms by (simp_all add: within_limits_def push_bounded_defs)

lemma push_metadata [simp]:
  "run_metadata (fst (push_request_bounded run limits r)) = run_metadata run"
  "run_metadata (fst (push_stage_bounded run limits s)) = run_metadata run"
  "run_metadata (fst (push_queue_bounded run limits q)) = run_metadata run"
  "run_metadata (fst (push_inflight_snapshot_bounded run limits i)) = run_metadata run"
  "run_metadata (fst (push_runtime_snapshot_bounded run limits t)) = run_metadata run"
  "run_schema_version (fst (push_request_bounded run limits r)) = run_schema_version run"
  "run_schema_version (fst (push_stage_bounded run limits s)) = run_schema_version run"
  "run_schema_version (fst (push_queue_bounded run limits q)) = run_schema_version run"
  "run_schema_version (fst (push_inflight_snapshot_bounded run limits i)) = run_schema_version run"
  "run_schema_version (fst (push_runtime_snapshot_bounded run limits t)) = run_schema_version run"
  by (simp_all add: push_bounded_defs)

text \<open>The drop counters and the flag agree: a run that dropped nothing has hit no limit.\<close>

definition truncation_consistent :: "TruncationSummary \<Rightarrow> bool" where
  "truncation_consistent t \<longleftrightarrow>
     (tr_limits_hit t \<longleftrightarrow>
        tr_dropped_requests t > 0 \<or> tr_dropped_stages t > 0 \<or> tr_dropped_queues t > 0 \<or>
        tr_dropped_inflight_snapshots t > 0 \<or> tr_dropped_runtime_snapshots t > 0)"

lemma truncation_consistent_default [simp]: "truncation_consistent truncation_default"
  by (simp add: truncation_consistent_def truncation_default_def)

lemma truncation_consistent_push:
  assumes "truncation_consistent (run_truncation run)"
  shows "truncation_consistent (run_truncation (fst (push_request_bounded run limits r)))"
    and "truncation_consistent (run_truncation (fst (push_stage_bounded run limits s)))"
    and "truncation_consistent (run_truncation (fst (push_queue_bounded run limits q)))"
    and "truncation_consistent (run_truncation (fst (push_inflight_snapshot_bounded run limits i)))"
    and "truncation_consistent (run_truncation (fst (push_runtime_snapshot_bounded run limits t)))"
  using assms by (simp_all add: truncation_consistent_def push_bounded_defs saturating_add_pos)

lemma is_truncated_iff_limits_hit: "truncation_consistent t \<Longrightarrow> is_truncated t \<longleftrightarrow> tr_limits_hit t"
  by (auto simp: truncation_consistent_def is_truncated_def)

end
