(* ===== verification/Core_RunBuilder.thy ===== *)
theory Core_RunBuilder
  imports Core_Retention Core_Normalize
begin

text \<open>
  Assembly of a completed run from imported evidence (\<^verbatim>\<open>run_builder.rs\<close>). The current time
  and the generated run id (a random UUID) are arguments of the constructor.
\<close>

record RunBuilderOptions =
  rbo_service_name :: string
  rbo_service_version :: "string option"
  rbo_run_id :: "string option"
  rbo_mode :: "CaptureMode option"
  rbo_capture_limits :: "CaptureLimits option"
  rbo_strict_lifecycle :: bool
  rbo_started_at_unix_ms :: "u64 option"
  rbo_finalized_at_unix_ms :: "u64 option"
  rbo_host :: "string option"
  rbo_pid :: "u32 option"
  rbo_run_end_reason :: "RunEndReason option"

definition rbo_new :: "string \<Rightarrow> RunBuilderOptions" where
  "rbo_new service_name =
     \<lparr>rbo_service_name = service_name, rbo_service_version = None, rbo_run_id = None,
      rbo_mode = None, rbo_capture_limits = None, rbo_strict_lifecycle = False,
      rbo_started_at_unix_ms = None, rbo_finalized_at_unix_ms = None, rbo_host = None,
      rbo_pid = None, rbo_run_end_reason = None\<rparr>"

definition rbo_set_service_version :: "string \<Rightarrow> RunBuilderOptions \<Rightarrow> RunBuilderOptions" where
  "rbo_set_service_version v self = self\<lparr>rbo_service_version := Some v\<rparr>"

definition rbo_set_run_id :: "string \<Rightarrow> RunBuilderOptions \<Rightarrow> RunBuilderOptions" where
  "rbo_set_run_id v self = self\<lparr>rbo_run_id := Some v\<rparr>"

definition rbo_set_mode :: "CaptureMode \<Rightarrow> RunBuilderOptions \<Rightarrow> RunBuilderOptions" where
  "rbo_set_mode v self = self\<lparr>rbo_mode := Some v\<rparr>"

definition rbo_set_capture_limits :: "CaptureLimits \<Rightarrow> RunBuilderOptions \<Rightarrow> RunBuilderOptions" where
  "rbo_set_capture_limits v self = self\<lparr>rbo_capture_limits := Some v\<rparr>"

definition rbo_set_started_at_unix_ms :: "u64 \<Rightarrow> RunBuilderOptions \<Rightarrow> RunBuilderOptions" where
  "rbo_set_started_at_unix_ms v self = self\<lparr>rbo_started_at_unix_ms := Some v\<rparr>"

definition rbo_set_finalized_at_unix_ms :: "u64 \<Rightarrow> RunBuilderOptions \<Rightarrow> RunBuilderOptions" where
  "rbo_set_finalized_at_unix_ms v self = self\<lparr>rbo_finalized_at_unix_ms := Some v\<rparr>"

definition rbo_set_host :: "string \<Rightarrow> RunBuilderOptions \<Rightarrow> RunBuilderOptions" where
  "rbo_set_host v self = self\<lparr>rbo_host := Some v\<rparr>"

definition rbo_set_pid :: "u32 \<Rightarrow> RunBuilderOptions \<Rightarrow> RunBuilderOptions" where
  "rbo_set_pid v self = self\<lparr>rbo_pid := Some v\<rparr>"

definition rbo_set_run_end_reason :: "RunEndReason \<Rightarrow> RunBuilderOptions \<Rightarrow> RunBuilderOptions" where
  "rbo_set_run_end_reason v self = self\<lparr>rbo_run_end_reason := Some v\<rparr>"

definition rbo_set_strict_lifecycle :: "bool \<Rightarrow> RunBuilderOptions \<Rightarrow> RunBuilderOptions" where
  "rbo_set_strict_lifecycle v self = self\<lparr>rbo_strict_lifecycle := v\<rparr>"

datatype RunBuilderEventError = InvalidEvent string string string

fun event_error_display :: "RunBuilderEventError \<Rightarrow> string" where
  "event_error_display (InvalidEvent event field reason) =
     ''invalid '' @ event @ ''.'' @ field @ '': '' @ reason"

datatype RunBuilderError =
    BuilderEmptyServiceName
  | InvalidFinalizationTime u64 u64

fun run_builder_error_display :: "RunBuilderError \<Rightarrow> string" where
  "run_builder_error_display BuilderEmptyServiceName = ''service_name cannot be empty''"
| "run_builder_error_display (InvalidFinalizationTime started finalized) =
     ''invalid finalization timestamp: finalized_at_unix_ms ('' @ show_word finalized @
     '') must be >= started_at_unix_ms ('' @ show_word started @ '')''"

record RunBuilder =
  rb_run :: Run
  rb_capture_limits :: CaptureLimits

definition run_builder_new :: "u64 \<Rightarrow> string \<Rightarrow> RunBuilderOptions \<Rightarrow> RunBuilderError + RunBuilder" where
  "run_builder_new ts generated_run_id options =
     (if is_blank (rbo_service_name options) then Inl BuilderEmptyServiceName
      else let mode = unwrap_or (rbo_mode options) Light;
               capture_limits = unwrap_or (rbo_capture_limits options) (core_defaults mode);
               started_at_unix_ms = unwrap_or (rbo_started_at_unix_ms options) ts;
               finalized_at_unix_ms_value = unwrap_or (rbo_finalized_at_unix_ms options) ts
           in if finalized_at_unix_ms_value < started_at_unix_ms
              then Inl (InvalidFinalizationTime started_at_unix_ms finalized_at_unix_ms_value)
              else Inr
                \<lparr>rb_run = run_new
                   \<lparr>md_run_id = unwrap_or (rbo_run_id options) generated_run_id,
                    md_service_name = rbo_service_name options,
                    md_service_version = rbo_service_version options,
                    md_started_at_unix_ms = started_at_unix_ms,
                    md_finalized_at_unix_ms = Some finalized_at_unix_ms_value,
                    md_mode = mode,
                    md_effective_core_config = Some \<lparr>ecc_mode = mode,
                       ecc_capture_limits = capture_limits,
                       ecc_strict_lifecycle = rbo_strict_lifecycle options\<rparr>,
                    md_effective_tokio_sampler_config = None,
                    md_host = rbo_host options, md_pid = rbo_pid options,
                    md_lifecycle_warnings = [], md_unfinished_requests = unfinished_default,
                    md_run_end_reason = rbo_run_end_reason options\<rparr>,
                 rb_capture_limits = capture_limits\<rparr>)"

section \<open>Pushing evidence\<close>

definition invalid_event :: "string \<Rightarrow> string \<Rightarrow> string \<Rightarrow> RunBuilderEventError" where
  "invalid_event event field reason = InvalidEvent event field reason"

definition shape_error :: "string \<Rightarrow> (string \<times> string) + unit \<Rightarrow> RunBuilderEventError + unit" where
  "shape_error event r = (case r of Inl (field, reason) \<Rightarrow> Inl (invalid_event event field reason)
                                   | Inr u \<Rightarrow> Inr u)"

definition validate_request_event :: "RequestEvent \<Rightarrow> RunBuilderEventError + unit" where
  "validate_request_event event = shape_error ''RequestEvent'' (validate_request_shape event)"

definition validate_stage_event :: "StageEvent \<Rightarrow> RunBuilderEventError + unit" where
  "validate_stage_event event = shape_error ''StageEvent'' (validate_stage_shape event)"

definition validate_queue_event :: "QueueEvent \<Rightarrow> RunBuilderEventError + unit" where
  "validate_queue_event event = shape_error ''QueueEvent'' (validate_queue_shape event)"

definition validate_inflight_snapshot :: "InFlightSnapshot \<Rightarrow> RunBuilderEventError + unit" where
  "validate_inflight_snapshot snapshot = shape_error ''InFlightSnapshot'' (validate_inflight_shape snapshot)"

definition rb_push_request :: "RequestEvent \<Rightarrow> RunBuilder \<Rightarrow> (RunBuilderEventError + unit) \<times> RunBuilder" where
  "rb_push_request event self = (case validate_request_event event of
       Inl e \<Rightarrow> (Inl e, self)
     | Inr _ \<Rightarrow> (Inr (), self\<lparr>rb_run := fst (push_request_bounded (rb_run self) (rb_capture_limits self) event)\<rparr>))"

definition rb_push_stage :: "StageEvent \<Rightarrow> RunBuilder \<Rightarrow> (RunBuilderEventError + unit) \<times> RunBuilder" where
  "rb_push_stage event self = (case validate_stage_event event of
       Inl e \<Rightarrow> (Inl e, self)
     | Inr _ \<Rightarrow> (Inr (), self\<lparr>rb_run := fst (push_stage_bounded (rb_run self) (rb_capture_limits self) event)\<rparr>))"

definition rb_push_queue :: "QueueEvent \<Rightarrow> RunBuilder \<Rightarrow> (RunBuilderEventError + unit) \<times> RunBuilder" where
  "rb_push_queue event self = (case validate_queue_event event of
       Inl e \<Rightarrow> (Inl e, self)
     | Inr _ \<Rightarrow> (Inr (), self\<lparr>rb_run := fst (push_queue_bounded (rb_run self) (rb_capture_limits self) event)\<rparr>))"

definition rb_push_inflight_snapshot ::
    "InFlightSnapshot \<Rightarrow> RunBuilder \<Rightarrow> (RunBuilderEventError + unit) \<times> RunBuilder" where
  "rb_push_inflight_snapshot snapshot self = (case validate_inflight_snapshot snapshot of
       Inl e \<Rightarrow> (Inl e, self)
     | Inr _ \<Rightarrow> (Inr (), self\<lparr>rb_run :=
         fst (push_inflight_snapshot_bounded (rb_run self) (rb_capture_limits self) snapshot)\<rparr>))"

definition rb_push_runtime_snapshot ::
    "RuntimeSnapshot \<Rightarrow> RunBuilder \<Rightarrow> (RunBuilderEventError + unit) \<times> RunBuilder" where
  "rb_push_runtime_snapshot snapshot self =
     (if rts_worker_count snapshot = Some 0 then
        (Inl (invalid_event ''RuntimeSnapshot'' ''worker_count'' ''must be greater than zero when present''), self)
      else (Inr (), self\<lparr>rb_run :=
         fst (push_runtime_snapshot_bounded (rb_run self) (rb_capture_limits self) snapshot)\<rparr>))"

abbreviation update_metadata :: "(RunMetadata \<Rightarrow> RunMetadata) \<Rightarrow> Run \<Rightarrow> Run" where
  "update_metadata f run \<equiv> run\<lparr>run_metadata := f (run_metadata run)\<rparr>"

definition rb_add_lifecycle_warning :: "string \<Rightarrow> RunBuilder \<Rightarrow> RunBuilder" where
  "rb_add_lifecycle_warning warning self = self\<lparr>rb_run :=
     update_metadata (\<lambda>md. md\<lparr>md_lifecycle_warnings := md_lifecycle_warnings md @ [warning]\<rparr>) (rb_run self)\<rparr>"

definition rb_set_unfinished_requests :: "UnfinishedRequests \<Rightarrow> RunBuilder \<Rightarrow> RunBuilder" where
  "rb_set_unfinished_requests unfinished self = self\<lparr>rb_run :=
     update_metadata (\<lambda>md. md\<lparr>md_unfinished_requests := unfinished\<rparr>) (rb_run self)\<rparr>"

definition rb_set_effective_tokio_sampler_config :: "EffectiveTokioSamplerConfig \<Rightarrow> RunBuilder \<Rightarrow> RunBuilder" where
  "rb_set_effective_tokio_sampler_config config self = self\<lparr>rb_run :=
     update_metadata (\<lambda>md. md\<lparr>md_effective_tokio_sampler_config := Some config\<rparr>) (rb_run self)\<rparr>"

definition rb_set_run_end_reason_if_absent :: "RunEndReason \<Rightarrow> RunBuilder \<Rightarrow> RunBuilder" where
  "rb_set_run_end_reason_if_absent reason self =
     (if md_run_end_reason (run_metadata (rb_run self)) = None
      then self\<lparr>rb_run := update_metadata (\<lambda>md. md\<lparr>md_run_end_reason := Some reason\<rparr>) (rb_run self)\<rparr>
      else self)"

text \<open>
  The tail shared by \<^verbatim>\<open>RunBuilder::build\<close> and the collector's \<^verbatim>\<open>normalize_for_lifecycle\<close>:
  normalize, then append the lifecycle summaries that are not yet among the warnings.
\<close>

definition add_new_warning :: "Run \<Rightarrow> string \<Rightarrow> Run" where
  "add_new_warning run warning =
     (if warning \<in> set (md_lifecycle_warnings (run_metadata run)) then run
      else update_metadata (\<lambda>md. md\<lparr>md_lifecycle_warnings := md_lifecycle_warnings md @ [warning]\<rparr>) run)"

definition normalize_for_lifecycle :: "Run \<Rightarrow> Run" where
  "normalize_for_lifecycle run =
     (let normalized = normalize_run_permissive run;
          warnings = summarize_run_validation_lifecycle normalized
      in foldl add_new_warning (nr_run normalized) warnings)"

definition run_builder_build :: "RunBuilder \<Rightarrow> Run" where
  "run_builder_build self =
     (let normalized = normalize_run_permissive (rb_run self);
          warnings = summarize_run_validation_lifecycle normalized
      in foldl add_new_warning (nr_run normalized) warnings)"

section \<open>Facts\<close>

lemma add_new_warnings_frame:
  "\<exists>ws. foldl add_new_warning run warnings = update_metadata
     (\<lambda>md. md\<lparr>md_lifecycle_warnings := md_lifecycle_warnings md @ ws\<rparr>) run \<and>
     set ws \<subseteq> set warnings \<and> set warnings \<subseteq> set (md_lifecycle_warnings (run_metadata run) @ ws)"
proof (induction warnings arbitrary: run)
  case Nil
  show ?case by (rule exI [of _ "[]"]) simp
next
  case (Cons w warnings)
  obtain ws where ws: "foldl add_new_warning (add_new_warning run w) warnings = update_metadata
     (\<lambda>md. md\<lparr>md_lifecycle_warnings := md_lifecycle_warnings md @ ws\<rparr>) (add_new_warning run w)"
     "set ws \<subseteq> set warnings"
     "set warnings \<subseteq> set (md_lifecycle_warnings (run_metadata (add_new_warning run w)) @ ws)"
    using Cons.IH by blast
  show ?case
  proof (cases "w \<in> set (md_lifecycle_warnings (run_metadata run))")
    case True
    then have "add_new_warning run w = run" by (simp add: add_new_warning_def)
    then show ?thesis using ws True by (intro exI [of _ ws]) auto
  next
    case False
    then have "add_new_warning run w = update_metadata
        (\<lambda>md. md\<lparr>md_lifecycle_warnings := md_lifecycle_warnings md @ [w]\<rparr>) run"
      by (simp add: add_new_warning_def)
    then show ?thesis using ws by (intro exI [of _ "w # ws"]) auto
  qed
qed

lemma canonical_run_update_metadata:
  "canonical_run (run\<lparr>run_metadata := md\<rparr>) = (canonical_run run)\<lparr>run_metadata := md\<rparr>"
  by (simp add: canonical_run_def)

lemma normalize_for_lifecycle_sections:
  "\<exists>ws. normalize_for_lifecycle run = update_metadata
     (\<lambda>md. md\<lparr>md_lifecycle_warnings := md_lifecycle_warnings md @ ws\<rparr>) (canonical_run run) \<and>
     (ws = [] \<longleftrightarrow> set (summarize_run_validation_lifecycle (normalize_run_permissive run))
        \<subseteq> set (md_lifecycle_warnings (run_metadata run)))"
proof -
  let ?w = "summarize_run_validation_lifecycle (normalize_run_permissive run)"
  obtain ws where ws: "foldl add_new_warning (canonical_run run) ?w = update_metadata
     (\<lambda>md. md\<lparr>md_lifecycle_warnings := md_lifecycle_warnings md @ ws\<rparr>) (canonical_run run)"
    "set ws \<subseteq> set ?w" "set ?w \<subseteq> set (md_lifecycle_warnings (run_metadata (canonical_run run)) @ ws)"
    using add_new_warnings_frame by blast
  have md: "run_metadata (canonical_run run) = run_metadata run" by (simp add: canonical_run_def)
  have "foldl add_new_warning r ws' = r" if "set ws' \<subseteq> set (md_lifecycle_warnings (run_metadata r))" for r ws'
    using that by (induction ws') (simp_all add: add_new_warning_def)
  from this [of ?w "canonical_run run"] have "set ?w \<subseteq> set (md_lifecycle_warnings (run_metadata run)) \<Longrightarrow> ws = []"
    using ws(1) md by (cases "canonical_run run"; cases "run_metadata (canonical_run run)") simp
  moreover have "ws = [] \<Longrightarrow> set ?w \<subseteq> set (md_lifecycle_warnings (run_metadata run))"
    using ws(3) md by simp
  ultimately show ?thesis
    using ws(1) by (auto simp: normalize_for_lifecycle_def Let_def report_of_normalize)
qed

lemma normalize_for_lifecycle_canonical:
  "canonical_run (normalize_for_lifecycle run) = normalize_for_lifecycle run"
  using normalize_for_lifecycle_sections [of run]
  by (auto simp: canonical_run_update_metadata canonical_run_idem)

lemma normalize_for_lifecycle_metadata_ok:
  "metadata_ok (normalize_for_lifecycle run) \<longleftrightarrow> metadata_ok run"
proof -
  obtain ws where "normalize_for_lifecycle run = update_metadata
     (\<lambda>md. md\<lparr>md_lifecycle_warnings := md_lifecycle_warnings md @ ws\<rparr>) (canonical_run run)"
    using normalize_for_lifecycle_sections by blast
  then show ?thesis by (simp add: metadata_ok_def canonical_run_def split: option.split)
qed

lemma within_limits_canonical: "within_limits limits run \<Longrightarrow> within_limits limits (canonical_run run)"
  by (auto simp: within_limits_def canonical_run_def intro: le_trans [OF length_filter_le])

lemma within_limits_lifecycle:
  "within_limits limits run \<Longrightarrow> within_limits limits (normalize_for_lifecycle run)"
  using normalize_for_lifecycle_sections [of run] within_limits_canonical [of limits run]
  by (auto simp: within_limits_def)

section \<open>Sequences of builder calls\<close>

datatype run_builder_call =
    PushRequest RequestEvent
  | PushStage StageEvent
  | PushQueue QueueEvent
  | PushInflight InFlightSnapshot
  | PushRuntime RuntimeSnapshot
  | AddWarning string
  | SetUnfinished UnfinishedRequests
  | SetTokioConfig EffectiveTokioSamplerConfig
  | SetEndReason RunEndReason

fun apply_run_builder_call :: "RunBuilder \<Rightarrow> run_builder_call \<Rightarrow> RunBuilder" where
  "apply_run_builder_call b (PushRequest e) = snd (rb_push_request e b)"
| "apply_run_builder_call b (PushStage e) = snd (rb_push_stage e b)"
| "apply_run_builder_call b (PushQueue e) = snd (rb_push_queue e b)"
| "apply_run_builder_call b (PushInflight e) = snd (rb_push_inflight_snapshot e b)"
| "apply_run_builder_call b (PushRuntime e) = snd (rb_push_runtime_snapshot e b)"
| "apply_run_builder_call b (AddWarning w) = rb_add_lifecycle_warning w b"
| "apply_run_builder_call b (SetUnfinished u) = rb_set_unfinished_requests u b"
| "apply_run_builder_call b (SetTokioConfig c) = rb_set_effective_tokio_sampler_config c b"
| "apply_run_builder_call b (SetEndReason r) = rb_set_run_end_reason_if_absent r b"

lemmas rb_defs =
  rb_push_request_def rb_push_stage_def rb_push_queue_def rb_push_inflight_snapshot_def
  rb_push_runtime_snapshot_def rb_add_lifecycle_warning_def rb_set_unfinished_requests_def
  rb_set_effective_tokio_sampler_config_def rb_set_run_end_reason_if_absent_def

text \<open>What a push accepts: the shape check is the per-event part of the specification.\<close>

lemma request_shape_iff: "validate_request_shape e = Inr () \<longleftrightarrow> request_ok e \<and>
    (case (req_started_at_run_us e, req_finished_at_run_us e) of (Some a, Some b) \<Rightarrow> a \<le> b | _ \<Rightarrow> True)"
  by (auto simp: validate_request_shape_def request_ok_def not_less split: option.splits)

lemma stage_shape_iff: "validate_stage_shape e = Inr () \<longleftrightarrow> stage_ok e \<and>
    (case (stg_started_at_run_us e, stg_finished_at_run_us e) of (Some a, Some b) \<Rightarrow> a \<le> b | _ \<Rightarrow> True)"
  by (auto simp: validate_stage_shape_def stage_ok_def not_less split: option.splits)

lemma queue_shape_iff: "validate_queue_shape e = Inr () \<longleftrightarrow> queue_ok e \<and>
    (case (que_waited_from_run_us e, que_waited_until_run_us e) of (Some a, Some b) \<Rightarrow> a \<le> b | _ \<Rightarrow> True)"
  by (auto simp: validate_queue_shape_def queue_ok_def not_less split: option.splits)

definition finalized_after_start :: "RunMetadata \<Rightarrow> bool" where
  "finalized_after_start md \<longleftrightarrow> (case md_finalized_at_unix_ms md of
     Some f \<Rightarrow> md_started_at_unix_ms md \<le> f | None \<Rightarrow> False)"

definition builder_inv :: "RunBuilder \<Rightarrow> bool" where
  "builder_inv b \<longleftrightarrow>
     within_limits (rb_capture_limits b) (rb_run b) \<and>
     truncation_consistent (run_truncation (rb_run b)) \<and>
     run_schema_version (rb_run b) = SCHEMA_VERSION \<and>
     \<not> is_blank (md_service_name (run_metadata (rb_run b))) \<and>
     finalized_after_start (run_metadata (rb_run b)) \<and>
     list_all request_ok (run_requests (rb_run b)) \<and>
     list_all stage_ok (run_stages (rb_run b)) \<and>
     list_all queue_ok (run_queues (rb_run b)) \<and>
     list_all (\<lambda>s. \<not> is_blank (inf_gauge s)) (run_inflight (rb_run b)) \<and>
     list_all (\<lambda>t. rts_worker_count t \<noteq> Some 0) (run_runtime_snapshots (rb_run b))"

lemma builder_inv_new: "run_builder_new ts gid opts = Inr b \<Longrightarrow> builder_inv b"
  by (auto simp: run_builder_new_def Let_def builder_inv_def within_limits_def run_new_def not_less
      finalized_after_start_def split: if_splits)

lemma builder_inv_update_metadata:
  "builder_inv b \<Longrightarrow> md_service_name md = md_service_name (run_metadata (rb_run b)) \<Longrightarrow>
   md_finalized_at_unix_ms md = md_finalized_at_unix_ms (run_metadata (rb_run b)) \<Longrightarrow>
   md_started_at_unix_ms md = md_started_at_unix_ms (run_metadata (rb_run b)) \<Longrightarrow>
   builder_inv (b\<lparr>rb_run := (rb_run b)\<lparr>run_metadata := md\<rparr>\<rparr>)"
  by (simp add: builder_inv_def within_limits_def finalized_after_start_def split: option.splits)

lemma builder_inv_push:
  assumes "builder_inv b"
  shows "request_ok e1 \<Longrightarrow> builder_inv (b\<lparr>rb_run := fst (push_request_bounded (rb_run b) (rb_capture_limits b) e1)\<rparr>)"
    and "stage_ok e2 \<Longrightarrow> builder_inv (b\<lparr>rb_run := fst (push_stage_bounded (rb_run b) (rb_capture_limits b) e2)\<rparr>)"
    and "queue_ok e3 \<Longrightarrow> builder_inv (b\<lparr>rb_run := fst (push_queue_bounded (rb_run b) (rb_capture_limits b) e3)\<rparr>)"
    and "\<not> is_blank (inf_gauge e4) \<Longrightarrow>
      builder_inv (b\<lparr>rb_run := fst (push_inflight_snapshot_bounded (rb_run b) (rb_capture_limits b) e4)\<rparr>)"
    and "rts_worker_count e5 \<noteq> Some 0 \<Longrightarrow>
      builder_inv (b\<lparr>rb_run := fst (push_runtime_snapshot_bounded (rb_run b) (rb_capture_limits b) e5)\<rparr>)"
  using assms within_limits_push [of "rb_capture_limits b" "rb_run b"]
    truncation_consistent_push [of "rb_run b"]
  unfolding builder_inv_def
  by (simp_all add: push_bounded_defs)

lemma builder_inv_call: "builder_inv b \<Longrightarrow> builder_inv (apply_run_builder_call b c)"
proof (induction b c rule: apply_run_builder_call.induct)
  case (1 b e)
  then show ?case using builder_inv_push(1) request_shape_iff [of e]
    by (simp add: rb_defs validate_request_event_def shape_error_def split: sum.splits prod.splits)
next
  case (2 b e)
  then show ?case using builder_inv_push(2) stage_shape_iff [of e]
    by (simp add: rb_defs validate_stage_event_def shape_error_def split: sum.splits prod.splits)
next
  case (3 b e)
  then show ?case using builder_inv_push(3) queue_shape_iff [of e]
    by (simp add: rb_defs validate_queue_event_def shape_error_def split: sum.splits prod.splits)
next
  case (4 b e)
  then show ?case using builder_inv_push(4)
    by (simp add: rb_defs validate_inflight_snapshot_def shape_error_def validate_inflight_shape_def)
next
  case (5 b e)
  then show ?case using builder_inv_push(5) by (simp add: rb_defs)
qed (simp_all add: rb_defs builder_inv_update_metadata)

lemma builder_inv_calls: "builder_inv b \<Longrightarrow> builder_inv (foldl apply_run_builder_call b cs)"
  by (induction cs arbitrary: b) (simp_all add: builder_inv_call)

lemma builder_run_id_call:
  "md_run_id (run_metadata (rb_run (apply_run_builder_call b c))) = md_run_id (run_metadata (rb_run b)) \<and>
   rb_capture_limits (apply_run_builder_call b c) = rb_capture_limits b"
  by (cases c) (simp_all add: rb_defs split: sum.splits)

lemma builder_run_id_calls:
  "md_run_id (run_metadata (rb_run (foldl apply_run_builder_call b cs))) = md_run_id (run_metadata (rb_run b)) \<and>
   rb_capture_limits (foldl apply_run_builder_call b cs) = rb_capture_limits b"
  by (induction cs arbitrary: b) (simp_all add: builder_run_id_call)

section \<open>Properties\<close>

text \<open>
  C19. Whatever sequence of pushes and metadata calls follows a successful constructor, rejected
  pushes included, the built run stays within the capture limits and is canonical: strict
  validation accepts it, unless the caller supplied a blank run id, which nothing checks.
\<close>

theorem built_run_is_valid:
  assumes "run_builder_new ts gid opts = Inr b"
  shows "within_limits (rb_capture_limits b) (run_builder_build (foldl apply_run_builder_call b cs)) \<and>
    validate_run_strict (run_builder_build (foldl apply_run_builder_call b cs)) =
      (if is_blank (unwrap_or (rbo_run_id opts) gid)
       then Inl (inspect_run (run_builder_build (foldl apply_run_builder_call b cs))) else Inr ())"
proof -
  define b' where "b' = foldl apply_run_builder_call b cs"
  have inv: "builder_inv b'" unfolding b'_def using assms by (intro builder_inv_calls builder_inv_new)
  have build: "run_builder_build b' = normalize_for_lifecycle (rb_run b')"
    by (simp add: run_builder_build_def normalize_for_lifecycle_def)
  have rid: "md_run_id (run_metadata (rb_run b')) = unwrap_or (rbo_run_id opts) gid"
    "rb_capture_limits b' = rb_capture_limits b"
    using assms builder_run_id_calls [of b cs]
    by (auto simp: b'_def run_builder_new_def Let_def run_new_def split: if_splits)
  have "metadata_ok (run_builder_build b') \<longleftrightarrow> \<not> is_blank (unwrap_or (rbo_run_id opts) gid)"
    using inv unfolding build normalize_for_lifecycle_metadata_ok
    by (auto simp: metadata_ok_def builder_inv_def rid finalized_after_start_def split: option.splits)
  moreover have "within_limits (rb_capture_limits b) (run_builder_build b')"
    using inv unfolding build builder_inv_def by (simp add: within_limits_lifecycle rid)
  ultimately show ?thesis
    unfolding b'_def [symmetric] strict_accepts_iff_canonical_fact report_of_normalize
    by (simp add: build normalize_for_lifecycle_canonical)
qed

definition sample_options :: RunBuilderOptions where
  "sample_options = (rbo_new ''svc'')\<lparr>rbo_started_at_unix_ms := Some 1, rbo_finalized_at_unix_ms := Some 2\<rparr>"

definition sample_builder :: RunBuilder where
  "sample_builder = (case run_builder_new 9 ''id'' sample_options of Inr b \<Rightarrow> b)"

lemma built_run_is_valid_witness:
  "within_limits (rb_capture_limits sample_builder) (run_builder_build (foldl apply_run_builder_call sample_builder [AddWarning ''w''])) \<and>
    validate_run_strict (run_builder_build (foldl apply_run_builder_call sample_builder [AddWarning ''w''])) =
      (if is_blank (unwrap_or (rbo_run_id sample_options) ''id'')
       then Inl (inspect_run (run_builder_build (foldl apply_run_builder_call sample_builder [AddWarning ''w''])))
       else Inr ())"
proof (rule built_run_is_valid)
  have "\<not> is_blank ''svc''"
    by (simp add: is_blank_iff is_whitespace_def white_space_chars_def utf8_cont_def)
  then show "run_builder_new 9 ''id'' sample_options = Inr sample_builder"
    by (simp add: sample_builder_def sample_options_def run_builder_new_def rbo_new_def Let_def)
qed

text \<open>
  First-N retention: pushing any list of valid requests to a fresh builder retains exactly
  the first \<open>max_requests\<close> of them in order, counts the rest as dropped (saturating), and sets
  the truncation flag exactly when one was dropped; the other sections are untouched.
\<close>

theorem builder_first_n_requests:
  assumes "run_builder_new ts gid opts = Inr b" and "list_all (\<lambda>e. validate_request_event e = Inr ()) es"
  shows "run_requests (rb_run (foldl apply_run_builder_call b (map PushRequest es))) =
           take (max_requests (rb_capture_limits b)) es \<and>
    unat (tr_dropped_requests (run_truncation (rb_run (foldl apply_run_builder_call b (map PushRequest es))))) =
      min (length es - max_requests (rb_capture_limits b)) u64_max \<and>
    (tr_limits_hit (run_truncation (rb_run (foldl apply_run_builder_call b (map PushRequest es)))) \<longleftrightarrow>
      max_requests (rb_capture_limits b) < length es) \<and>
    run_stages (rb_run (foldl apply_run_builder_call b (map PushRequest es))) = []"
proof -
  have run: "rb_run (foldl apply_run_builder_call b' (map PushRequest es)) =
      request_section.push_all (rb_capture_limits b') (rb_run b') es" for b'
    using assms(2)
    by (induction es arbitrary: b') (simp_all add: rb_push_request_def)
  have init: "rb_run b = run_new (run_metadata (rb_run b))"
    using assms(1) by (auto simp: run_builder_new_def Let_def run_new_def split: if_splits)
  have empty: "run_requests (rb_run b) = []" "run_stages (rb_run b) = []"
    "run_truncation (rb_run b) = truncation_default"
    by (subst init; simp add: run_new_def)+
  have rest: "run_stages (request_section.push_all (rb_capture_limits b) (rb_run b) es) = run_stages (rb_run b)"
    using request_section.push_all_rest [of "rb_capture_limits b" "rb_run b" es] by simp
  show ?thesis
    unfolding run rest request_section.push_all_events request_section.push_all_limits_hit
    using request_section.push_all_dropped [of "rb_capture_limits b" "rb_run b" es]
    by (simp add: empty truncation_default_def)
qed

definition sample_request_event :: RequestEvent where
  "sample_request_event =
     \<lparr>req_request_id = ''r'', req_route = ''/r'', req_kind = None, req_started_at_unix_ms = 1,
      req_started_at_run_us = None, req_finished_at_unix_ms = 2, req_finished_at_run_us = None,
      req_latency_us = 1000, req_outcome = ''ok''\<rparr>"

lemma builder_first_n_requests_witness:
  "run_requests (rb_run (foldl apply_run_builder_call sample_builder (map PushRequest [sample_request_event]))) =
           take (max_requests (rb_capture_limits sample_builder)) [sample_request_event] \<and>
    unat (tr_dropped_requests (run_truncation (rb_run (foldl apply_run_builder_call sample_builder
      (map PushRequest [sample_request_event]))))) =
      min (length [sample_request_event] - max_requests (rb_capture_limits sample_builder)) u64_max \<and>
    (tr_limits_hit (run_truncation (rb_run (foldl apply_run_builder_call sample_builder
      (map PushRequest [sample_request_event])))) \<longleftrightarrow>
      max_requests (rb_capture_limits sample_builder) < length [sample_request_event]) \<and>
    run_stages (rb_run (foldl apply_run_builder_call sample_builder (map PushRequest [sample_request_event]))) = []"
proof (rule builder_first_n_requests)
  have "\<not> is_blank ''svc''" "\<not> is_blank ''r''" "\<not> is_blank ''/r''" "\<not> is_blank ''ok''"
    by (simp_all add: is_blank_iff is_whitespace_def white_space_chars_def utf8_cont_def)
  then show "run_builder_new 9 ''id'' sample_options = Inr sample_builder"
    "list_all (\<lambda>e. validate_request_event e = Inr ()) [sample_request_event]"
    by (simp_all add: sample_builder_def sample_options_def run_builder_new_def rbo_new_def Let_def
        validate_request_event_def shape_error_def validate_request_shape_def sample_request_event_def)
qed

end
