(* ===== verification/Core_Collector.thy ===== *)
theory Core_Collector
  imports TT_Order Core_Time Core_Config Core_Sink Core_RunBuilder
begin

text \<open>
  The live collector (\<^verbatim>\<open>collector.rs\<close>) and the RAII timers (\<^verbatim>\<open>timers.rs\<close>). Every critical
  section of the code, from taking the state lock to releasing it, is one function on the
  collector; \<^verbatim>\<open>shutdown\<close>, which releases the lock around the sink write, is two. Clock
  readings, generated ids and the host name are arguments. A method that may fire the
  limits-hit listener returns the callbacks it invoked.

  The hash maps of pending requests and gauge counts are ordered maps here: the code looks them
  up by key, counts them, and sorts the one it iterates.
\<close>

section \<open>State\<close>

record PendingRequest =
  pr_request_id :: string
  pr_route :: string
  pr_kind :: "string option"
  pr_interval_start :: IntervalStart

datatype TerminalShutdown = TerminalSuccess | TerminalFailure string

datatype CollectorPhase = PhaseOpen | PhaseFinalizing | PhaseClosed TerminalShutdown

record CollectorState =
  cs_run :: Run
  cs_pending_requests :: "(u64, PendingRequest) btree"
  cs_inflight_counts :: "(string, u64) btree"
  cs_runtime_sampler_registered :: bool
  cs_phase :: CollectorPhase

record TruncationState =
  ts_limits_hit :: bool
  ts_requests :: bool
  ts_stages :: bool
  ts_queues :: bool
  ts_inflight :: bool
  ts_runtime_snapshots :: bool

record ('c, 'l) Tailtriage =
  tt_state :: CollectorState
  tt_sink :: "'c dyn_sink"
  tt_mode :: CaptureMode
  tt_effective_core_config :: EffectiveCoreConfig
  tt_limits :: CaptureLimits
  tt_run_clock :: RunClock
  tt_strict_lifecycle :: bool
  tt_truncation_state :: TruncationState
  tt_limits_hit_listener :: "'l option"

datatype ShutdownError = UnfinishedRequestsError nat | SinkShutdownError SinkError

fun shutdown_error_display :: "ShutdownError \<Rightarrow> string" where
  "shutdown_error_display (UnfinishedRequestsError n) =
     ''strict lifecycle validation failed: '' @ show_nat n @ '' unfinished request(s) remained at shutdown''"
| "shutdown_error_display (SinkShutdownError error) = sink_error_display error"

record ArmedCompletion =
  ac_pending_key :: u64
  ac_interval_start :: IntervalStart

record RequestHandle =
  rh_request_id :: string
  rh_route :: string
  rh_kind :: "string option"
  rh_admitted :: bool

record StartedRequest =
  sr_handle :: RequestHandle
  sr_completion :: "ArmedCompletion option"

datatype RuntimeSamplerRegistrationError = DuplicateStart

text \<open>The two process-wide counters.\<close>

record statics =
  REQUEST_SEQUENCE :: u64
  PENDING_SEQUENCE :: u64

definition collector_state_new :: "Run \<Rightarrow> CollectorState" where
  "collector_state_new run =
     \<lparr>cs_run = run, cs_pending_requests = [], cs_inflight_counts = [],
      cs_runtime_sampler_registered = False, cs_phase = PhaseOpen\<rparr>"

definition truncation_state_default :: TruncationState where
  "truncation_state_default =
     \<lparr>ts_limits_hit = False, ts_requests = False, ts_stages = False, ts_queues = False,
      ts_inflight = False, ts_runtime_snapshots = False\<rparr>"

definition normalize_host_name :: "string option \<Rightarrow> string option" where
  "normalize_host_name host = (case host of None \<Rightarrow> None
     | Some h \<Rightarrow> let trimmed = trim h in if trimmed = [] then None else Some trimmed)"

text \<open>
  The builder has checked that a sink was selected, so the \<^verbatim>\<open>expect\<close> on it cannot panic there;
  the model answers with the builder's error for a missing sink.
\<close>

definition from_config :: "clock_reading \<Rightarrow> string \<Rightarrow> string option \<Rightarrow> u32 \<Rightarrow> 'c Config \<Rightarrow>
    BuildError + ('c, 'l) Tailtriage" where
  "from_config now generated_run_id os_host pid config =
     (if is_blank (cfg_service_name config) then Inl EmptyServiceName
      else case cfg_sink config of
        None \<Rightarrow> Inl MissingSink
      | Some sink \<Rightarrow>
        let run_clock = run_clock_new now;
            run = run_new
              \<lparr>md_run_id = unwrap_or (cfg_run_id config) generated_run_id,
               md_service_name = cfg_service_name config,
               md_service_version = cfg_service_version config,
               md_started_at_unix_ms = rc_run_started_at_unix_ms run_clock,
               md_finalized_at_unix_ms = None,
               md_mode = cfg_mode config,
               md_effective_core_config = Some (cfg_effective_core config),
               md_effective_tokio_sampler_config = None,
               md_host = normalize_host_name os_host,
               md_pid = Some pid,
               md_lifecycle_warnings = [],
               md_unfinished_requests = unfinished_default,
               md_run_end_reason = None\<rparr>
        in Inr \<lparr>tt_state = collector_state_new run, tt_sink = sink, tt_mode = cfg_mode config,
                tt_effective_core_config = cfg_effective_core config,
                tt_limits = ecc_capture_limits (cfg_effective_core config),
                tt_run_clock = run_clock, tt_strict_lifecycle = cfg_strict_lifecycle config,
                tt_truncation_state = truncation_state_default, tt_limits_hit_listener = None\<rparr>)"

definition tailtriage_snapshot :: "('c, 'l) Tailtriage \<Rightarrow> Run" where
  "tailtriage_snapshot self = cs_run (tt_state self)"

abbreviation is_open :: "('c, 'l) Tailtriage \<Rightarrow> bool" where
  "is_open self \<equiv> cs_phase (tt_state self) = PhaseOpen"

section \<open>Truncation and the limits-hit listener\<close>

definition mark_limits_hit :: "TruncationState \<Rightarrow> TruncationState \<times> bool" where
  "mark_limits_hit self = (self\<lparr>ts_limits_hit := True\<rparr>, \<not> ts_limits_hit self)"

definition mark_run_limits_hit :: "TruncationState \<Rightarrow> Run \<Rightarrow> (TruncationState \<times> Run) \<times> bool" where
  "mark_run_limits_hit self run =
     (let run = run\<lparr>run_truncation := (run_truncation run)\<lparr>tr_limits_hit := True\<rparr>\<rparr>;
          (self, first) = mark_limits_hit self
      in ((self, run), first))"

definition notify_limits_hit_listener :: "('c, 'l) Tailtriage \<Rightarrow> 'l list" where
  "notify_limits_hit_listener self =
     (case tt_limits_hit_listener self of Some listener \<Rightarrow> [listener] | None \<Rightarrow> [])"

definition set_limits_hit_listener :: "'l option \<Rightarrow> ('c, 'l) Tailtriage \<Rightarrow> ('c, 'l) Tailtriage" where
  "set_limits_hit_listener listener self = self\<lparr>tt_limits_hit_listener := listener\<rparr>"

text \<open>
  The end of every critical section that may have dropped something: mark the section saturated
  and the limits hit, release the lock, fire the listener on the first transition.
\<close>

definition release_after_push :: "(TruncationState \<Rightarrow> TruncationState) \<Rightarrow> bool \<Rightarrow> CollectorState \<Rightarrow>
    ('c, 'l) Tailtriage \<Rightarrow> ('c, 'l) Tailtriage \<times> 'l list" where
  "release_after_push mark_saturated dropped state self =
     (if dropped then
        (let ((ts, run), notify_limits_hit) =
               mark_run_limits_hit (mark_saturated (tt_truncation_state self)) (cs_run state);
             self = self\<lparr>tt_state := state\<lparr>cs_run := run\<rparr>, tt_truncation_state := ts\<rparr>
         in (self, if notify_limits_hit then notify_limits_hit_listener self else []))
      else (self\<lparr>tt_state := state\<rparr>, []))"

section \<open>Recording\<close>

definition record_stage_event :: "StageEvent \<Rightarrow> ('c, 'l) Tailtriage \<Rightarrow> ('c, 'l) Tailtriage \<times> 'l list" where
  "record_stage_event event self =
     (if \<not> is_open self then (self, [])
      else let (run, dropped) = push_stage_bounded (cs_run (tt_state self)) (tt_limits self) event
           in release_after_push (\<lambda>ts. ts\<lparr>ts_stages := True\<rparr>) dropped ((tt_state self)\<lparr>cs_run := run\<rparr>) self)"

definition record_queue_event :: "QueueEvent \<Rightarrow> ('c, 'l) Tailtriage \<Rightarrow> ('c, 'l) Tailtriage \<times> 'l list" where
  "record_queue_event event self =
     (if \<not> is_open self then (self, [])
      else let (run, dropped) = push_queue_bounded (cs_run (tt_state self)) (tt_limits self) event
           in release_after_push (\<lambda>ts. ts\<lparr>ts_queues := True\<rparr>) dropped ((tt_state self)\<lparr>cs_run := run\<rparr>) self)"

definition record_runtime_snapshot :: "clock_reading \<Rightarrow> RuntimeSnapshot \<Rightarrow> ('c, 'l) Tailtriage \<Rightarrow>
    ('c, 'l) Tailtriage \<times> 'l list" where
  "record_runtime_snapshot now snapshot self =
     (let snapshot = (if rts_at_run_us snapshot = None
            then snapshot\<lparr>rts_at_run_us := Some (rcs_run_elapsed_us (clock_sample (tt_run_clock self) now))\<rparr>
            else snapshot)
      in if \<not> is_open self then (self, [])
         else let (run, dropped) = push_runtime_snapshot_bounded (cs_run (tt_state self)) (tt_limits self) snapshot
              in release_after_push (\<lambda>ts. ts\<lparr>ts_runtime_snapshots := True\<rparr>) dropped
                   ((tt_state self)\<lparr>cs_run := run\<rparr>) self)"

definition register_tokio_runtime_sampler :: "EffectiveTokioSamplerConfig \<Rightarrow> ('c, 'l) Tailtriage \<Rightarrow>
    (RuntimeSamplerRegistrationError + unit) \<times> ('c, 'l) Tailtriage" where
  "register_tokio_runtime_sampler config self =
     (if \<not> is_open self then (Inr (), self)
      else if cs_runtime_sampler_registered (tt_state self) then (Inl DuplicateStart, self)
      else (Inr (), self\<lparr>tt_state := (tt_state self)
              \<lparr>cs_runtime_sampler_registered := True,
               cs_run := update_metadata (\<lambda>md. md\<lparr>md_effective_tokio_sampler_config := Some config\<rparr>)
                           (cs_run (tt_state self))\<rparr>\<rparr>))"

definition set_run_end_reason_if_absent :: "RunEndReason \<Rightarrow> ('c, 'l) Tailtriage \<Rightarrow> ('c, 'l) Tailtriage" where
  "set_run_end_reason_if_absent reason self =
     (if is_open self \<and> md_run_end_reason (run_metadata (cs_run (tt_state self))) = None
      then self\<lparr>tt_state := (tt_state self)
             \<lparr>cs_run := update_metadata (\<lambda>md. md\<lparr>md_run_end_reason := Some reason\<rparr>) (cs_run (tt_state self))\<rparr>\<rparr>
      else self)"

section \<open>In-flight gauges\<close>

record InflightGuard =
  ig_gauge :: string
  ig_enabled :: bool

definition inflight :: "clock_reading \<Rightarrow> string \<Rightarrow> ('c, 'l) Tailtriage \<Rightarrow>
    InflightGuard \<times> ('c, 'l) Tailtriage \<times> 'l list" where
  "inflight now gauge self =
     (let sample = clock_sample (tt_run_clock self) now;
          state = tt_state self
      in if \<not> is_open self then (\<lparr>ig_gauge = gauge, ig_enabled = False\<rparr>, self, [])
         else if bt_lookup (cs_inflight_counts state) gauge = None
              \<and> length (cs_inflight_counts state) \<ge> max_inflight_snapshots (tt_limits self)
         then let run = cs_run state;
                  run = run\<lparr>run_truncation := (run_truncation run)\<lparr>tr_dropped_inflight_snapshots :=
                          saturating_add (tr_dropped_inflight_snapshots (run_truncation run)) 1\<rparr>\<rparr>
              in (\<lparr>ig_gauge = gauge, ig_enabled = False\<rparr>,
                  release_after_push (\<lambda>ts. ts\<lparr>ts_inflight := True\<rparr>) True (state\<lparr>cs_run := run\<rparr>) self)
         else let n = (case bt_lookup (cs_inflight_counts state) gauge of None \<Rightarrow> 0 | Some c \<Rightarrow> c) + 1;
                  state = state\<lparr>cs_inflight_counts := bt_insert gauge n (cs_inflight_counts state)\<rparr>;
                  (run, dropped) = push_inflight_snapshot_bounded (cs_run state) (tt_limits self)
                     \<lparr>inf_gauge = gauge, inf_at_unix_ms = rcs_unix_ms sample,
                      inf_at_run_us = Some (rcs_run_elapsed_us sample), inf_count = n\<rparr>
              in (\<lparr>ig_gauge = gauge, ig_enabled = True\<rparr>,
                  release_after_push (\<lambda>ts. ts\<lparr>ts_inflight := True\<rparr>) dropped (state\<lparr>cs_run := run\<rparr>) self))"

definition inflight_guard_drop :: "clock_reading \<Rightarrow> InflightGuard \<Rightarrow> ('c, 'l) Tailtriage \<Rightarrow>
    ('c, 'l) Tailtriage \<times> 'l list" where
  "inflight_guard_drop now guard self =
     (if \<not> ig_enabled guard then (self, [])
      else let sample = clock_sample (tt_run_clock self) now;
               state = tt_state self
           in if \<not> is_open self then (self, [])
              else case bt_lookup (cs_inflight_counts state) (ig_gauge guard) of
                None \<Rightarrow> (self, [])
              | Some entry \<Rightarrow>
                  if entry = 0 then (self, [])
                  else let n = entry - 1;
                           (run, limit_hit) = push_inflight_snapshot_bounded (cs_run state) (tt_limits self)
                              \<lparr>inf_gauge = ig_gauge guard, inf_at_unix_ms = rcs_unix_ms sample,
                               inf_at_run_us = Some (rcs_run_elapsed_us sample), inf_count = n\<rparr>;
                           counts = (if n = 0 then bt_remove (ig_gauge guard) (cs_inflight_counts state)
                                     else bt_insert (ig_gauge guard) n (cs_inflight_counts state))
                       in release_after_push (\<lambda>ts. ts\<lparr>ts_inflight := True\<rparr>) limit_hit
                            (state\<lparr>cs_run := run, cs_inflight_counts := counts\<rparr>) self)"

section \<open>Requests\<close>

definition is_ascii_alphanumeric :: "string \<Rightarrow> bool" where
  "is_ascii_alphanumeric ch = (case ch of
     [c] \<Rightarrow> (let n = (of_char c :: nat) in
        48 \<le> n \<and> n \<le> 57 \<or> 65 \<le> n \<and> n \<le> 90 \<or> 97 \<le> n \<and> n \<le> 122)
   | _ \<Rightarrow> False)"

definition generate_request_id :: "clock_reading \<Rightarrow> string \<Rightarrow> statics \<Rightarrow> string \<times> statics" where
  "generate_request_id now route st =
     (let route_prefix = concat (map (\<lambda>ch. if is_ascii_alphanumeric ch then ch else ''_'') (utf8_chars route));
          sequence = REQUEST_SEQUENCE st
      in (route_prefix @ ''-'' @ show_word (unix_time_ms now) @ ''-'' @ show_word sequence,
          st\<lparr>REQUEST_SEQUENCE := sequence + 1\<rparr>))"

text \<open>\<open>now1\<close> is read for a generated id, \<open>now2\<close> for the start of the interval.\<close>

definition start_request :: "clock_reading \<Rightarrow> clock_reading \<Rightarrow> string \<Rightarrow> RequestOptions \<Rightarrow>
    statics \<Rightarrow> ('c, 'l) Tailtriage \<Rightarrow>
    (string \<times> string \<times> string option \<times> u64 option \<times> IntervalStart) \<times> statics \<times> ('c, 'l) Tailtriage \<times> 'l list" where
  "start_request now1 now2 route options st self =
     (let (request_id, st) = (case opt_request_id options of
             Some rid \<Rightarrow> (rid, st) | None \<Rightarrow> generate_request_id now1 route st);
          pending_key = PENDING_SEQUENCE st;
          st = st\<lparr>PENDING_SEQUENCE := pending_key + 1\<rparr>;
          kind = opt_kind options;
          interval_start = start_interval (tt_run_clock self) now2;
          pending = \<lparr>pr_request_id = request_id, pr_route = route, pr_kind = kind,
                     pr_interval_start = interval_start\<rparr>;
          state = tt_state self
      in if is_open self
            \<and> length (run_requests (cs_run state)) + length (cs_pending_requests state)
                < max_requests (tt_limits self)
         then ((request_id, route, kind, Some pending_key, interval_start), st,
               self\<lparr>tt_state := state\<lparr>cs_pending_requests :=
                  bt_insert pending_key pending (cs_pending_requests state)\<rparr>\<rparr>, [])
         else if is_open self
         then let run = cs_run state;
                  run = run\<lparr>run_truncation := (run_truncation run)\<lparr>tr_dropped_requests :=
                          saturating_add (tr_dropped_requests (run_truncation run)) 1\<rparr>\<rparr>
              in ((request_id, route, kind, None, interval_start), st,
                  release_after_push (\<lambda>ts. ts\<lparr>ts_requests := True\<rparr>) True (state\<lparr>cs_run := run\<rparr>) self)
         else ((request_id, route, kind, None, interval_start), st, self, []))"

definition begin_request_with :: "clock_reading \<Rightarrow> clock_reading \<Rightarrow> string \<Rightarrow> RequestOptions \<Rightarrow>
    statics \<Rightarrow> ('c, 'l) Tailtriage \<Rightarrow> StartedRequest \<times> statics \<times> ('c, 'l) Tailtriage \<times> 'l list" where
  "begin_request_with now1 now2 route options st self =
     (let ((request_id, route, kind, pending_key, interval_start), st, self, calls) =
            start_request now1 now2 route options st self
      in (\<lparr>sr_handle = \<lparr>rh_request_id = request_id, rh_route = route, rh_kind = kind,
                        rh_admitted = pending_key \<noteq> None\<rparr>,
           sr_completion = map_option (\<lambda>key. \<lparr>ac_pending_key = key, ac_interval_start = interval_start\<rparr>)
                             pending_key\<rparr>,
          st, self, calls))"

definition request_event_from_finished_interval :: "PendingRequest \<Rightarrow> FinishedInterval \<Rightarrow> Outcome \<Rightarrow> RequestEvent" where
  "request_event_from_finished_interval pending finished outcome =
     \<lparr>req_request_id = pr_request_id pending, req_route = pr_route pending, req_kind = pr_kind pending,
      req_started_at_unix_ms = fin_started_at_unix_ms finished,
      req_started_at_run_us = fin_started_at_run_us finished,
      req_finished_at_unix_ms = fin_finished_at_unix_ms finished,
      req_finished_at_run_us = fin_finished_at_run_us finished,
      req_latency_us = fin_duration_us finished,
      req_outcome = outcome_into_string outcome\<rparr>"

definition resolve_request :: "clock_reading \<Rightarrow> u64 \<Rightarrow> IntervalStart \<Rightarrow> Outcome \<Rightarrow>
    ('c, 'l) Tailtriage \<Rightarrow> ('c, 'l) Tailtriage \<times> 'l list" where
  "resolve_request now pending_key interval_start outcome self =
     (let finished = finish_interval (tt_run_clock self) interval_start now;
          state = tt_state self
      in if \<not> is_open self then (self, [])
         else case bt_lookup (cs_pending_requests state) pending_key of
           None \<Rightarrow> (self, [])
         | Some pending \<Rightarrow>
             let state = state\<lparr>cs_pending_requests := bt_remove pending_key (cs_pending_requests state)\<rparr>;
                 (run, dropped) = push_request_bounded (cs_run state) (tt_limits self)
                    (request_event_from_finished_interval pending finished outcome)
             in release_after_push (\<lambda>ts. ts\<lparr>ts_requests := True\<rparr>) dropped (state\<lparr>cs_run := run\<rparr>) self)"

text \<open>A completion token: finishing or dropping it takes the armed state, if there is one.\<close>

definition completion_finish :: "clock_reading \<Rightarrow> Outcome \<Rightarrow> ArmedCompletion option \<Rightarrow>
    ('c, 'l) Tailtriage \<Rightarrow> ('c, 'l) Tailtriage \<times> 'l list" where
  "completion_finish now outcome token self = (case token of
       Some armed \<Rightarrow> resolve_request now (ac_pending_key armed) (ac_interval_start armed) outcome self
     | None \<Rightarrow> (self, []))"

definition completion_finish_result :: "clock_reading \<Rightarrow> 'e + 'a \<Rightarrow> ArmedCompletion option \<Rightarrow>
    ('c, 'l) Tailtriage \<Rightarrow> ('e + 'a) \<times> ('c, 'l) Tailtriage \<times> 'l list" where
  "completion_finish_result now result token self =
     (result, completion_finish now (case result of Inr _ \<Rightarrow> OutcomeOk | Inl _ \<Rightarrow> OutcomeError) token self)"

definition completion_drop :: "clock_reading \<Rightarrow> ArmedCompletion option \<Rightarrow>
    ('c, 'l) Tailtriage \<Rightarrow> ('c, 'l) Tailtriage \<times> 'l list" where
  "completion_drop now token self = completion_finish now OutcomeCancelled token self"

definition handle_inflight :: "clock_reading \<Rightarrow> string \<Rightarrow> RequestHandle \<Rightarrow> ('c, 'l) Tailtriage \<Rightarrow>
    InflightGuard \<times> ('c, 'l) Tailtriage \<times> 'l list" where
  "handle_inflight now gauge handle self =
     (if rh_admitted handle then inflight now gauge self
      else (\<lparr>ig_gauge = gauge, ig_enabled = False\<rparr>, self, []))"

section \<open>Timers\<close>

text \<open>
  A timer is armed on the first poll of its future, and then either the future becomes ready,
  which disarms it and records a completed event, or it is dropped, which records a partial one.
\<close>

datatype ArmedTimerRecord =
    ArmedStage string string IntervalStart
  | ArmedQueue string string "u64 option" IntervalStart

definition stage_first_poll :: "clock_reading \<Rightarrow> string \<Rightarrow> RequestHandle \<Rightarrow> ('c, 'l) Tailtriage \<Rightarrow>
    ArmedTimerRecord option" where
  "stage_first_poll now stage handle self =
     (if rh_admitted handle
      then Some (ArmedStage (rh_request_id handle) stage (start_interval (tt_run_clock self) now))
      else None)"

definition queue_first_poll :: "clock_reading \<Rightarrow> string \<Rightarrow> u64 option \<Rightarrow> RequestHandle \<Rightarrow> ('c, 'l) Tailtriage \<Rightarrow>
    ArmedTimerRecord option" where
  "queue_first_poll now queue depth_at_start handle self =
     (if rh_admitted handle
      then Some (ArmedQueue (rh_request_id handle) queue depth_at_start (start_interval (tt_run_clock self) now))
      else None)"

text \<open>\<open>success\<close> is whether the awaited result was \<^verbatim>\<open>Ok\<close>; \<^verbatim>\<open>await_value\<close> passes true.\<close>

fun timer_ready :: "clock_reading \<Rightarrow> bool \<Rightarrow> ArmedTimerRecord \<Rightarrow> ('c, 'l) Tailtriage \<Rightarrow>
    ('c, 'l) Tailtriage \<times> 'l list" where
  "timer_ready now success (ArmedStage request_id stage start) self =
     (let finished = finish_interval (tt_run_clock self) start now
      in record_stage_event
           (stage_with_run_interval (fin_started_at_run_us finished) (fin_finished_at_run_us finished)
             (stage_new request_id stage (fin_started_at_unix_ms finished)
               (fin_finished_at_unix_ms finished) (fin_duration_us finished) success)) self)"
| "timer_ready now success (ArmedQueue request_id queue depth start) self =
     (let finished = finish_interval (tt_run_clock self) start now;
          event = queue_with_run_interval (fin_started_at_run_us finished) (fin_finished_at_run_us finished)
             (queue_new request_id queue (fin_started_at_unix_ms finished)
               (fin_finished_at_unix_ms finished) (fin_duration_us finished))
      in record_queue_event (event\<lparr>que_depth_at_start := depth\<rparr>) self)"

fun timer_drop :: "clock_reading \<Rightarrow> ArmedTimerRecord \<Rightarrow> ('c, 'l) Tailtriage \<Rightarrow>
    ('c, 'l) Tailtriage \<times> 'l list" where
  "timer_drop now (ArmedStage request_id stage start) self =
     (let finished = finish_interval (tt_run_clock self) start now
      in record_stage_event
           (stage_into_partial
             (stage_with_run_interval (fin_started_at_run_us finished) (fin_finished_at_run_us finished)
               (stage_new request_id stage (fin_started_at_unix_ms finished)
                 (fin_finished_at_unix_ms finished) (fin_duration_us finished) False))) self)"
| "timer_drop now (ArmedQueue request_id queue depth start) self =
     (let finished = finish_interval (tt_run_clock self) start now;
          event = queue_into_partial
             (queue_with_run_interval (fin_started_at_run_us finished) (fin_finished_at_run_us finished)
               (queue_new request_id queue (fin_started_at_unix_ms finished)
                 (fin_finished_at_unix_ms finished) (fin_duration_us finished)))
      in record_queue_event (event\<lparr>que_depth_at_start := depth\<rparr>) self)"

section \<open>Shutdown\<close>

datatype shutdown_decision =
    ShutdownWaits
  | ShutdownReturns "ShutdownError + unit"
  | ShutdownFinalizes Run

definition prior_sink_failure :: "string \<Rightarrow> SinkError" where
  "prior_sink_failure message = SinkIo (''prior tailtriage sink attempt failed: '' @ message)"

definition unfinished_warning :: "nat \<Rightarrow> string" where
  "unfinished_warning pending_count = show_nat pending_count @
     '' unfinished request(s) remained at shutdown; run includes no fabricated completions''"

definition pending_sample :: "(u64, PendingRequest) btree \<Rightarrow> UnfinishedRequestSample list" where
  "pending_sample pending_requests =
     map (\<lambda>(_, req). \<lparr>ufs_request_id = pr_request_id req, ufs_route = pr_route req\<rparr>)
       (take 5 (sort_key fst pending_requests))"

definition finalize_metadata :: "u64 \<Rightarrow> (u64, PendingRequest) btree \<Rightarrow> RunMetadata \<Rightarrow> RunMetadata" where
  "finalize_metadata finalized_at pending md =
     (let pending_count = length pending;
          md = (if md_run_end_reason md = None then md\<lparr>md_run_end_reason := Some Shutdown\<rparr> else md);
          md = md\<lparr>md_finalized_at_unix_ms := Some finalized_at\<rparr>
      in if pending_count > 0
         then md\<lparr>md_lifecycle_warnings := md_lifecycle_warnings md @ [unfinished_warning pending_count],
                 md_unfinished_requests :=
                   \<lparr>uf_count = of_nat pending_count, uf_sample = pending_sample pending\<rparr>\<rparr>
         else md)"

text \<open>The first critical section of \<^verbatim>\<open>shutdown\<close>; a caller that waits comes back later.\<close>

definition shutdown_begin :: "clock_reading \<Rightarrow> ('c, 'l) Tailtriage \<Rightarrow> ('c, 'l) Tailtriage \<times> shutdown_decision" where
  "shutdown_begin now self = (case cs_phase (tt_state self) of
       PhaseFinalizing \<Rightarrow> (self, ShutdownWaits)
     | PhaseClosed TerminalSuccess \<Rightarrow> (self, ShutdownReturns (Inr ()))
     | PhaseClosed (TerminalFailure message) \<Rightarrow>
         (self, ShutdownReturns (Inl (SinkShutdownError (prior_sink_failure message))))
     | PhaseOpen \<Rightarrow>
         let state = tt_state self; pending_count = length (cs_pending_requests state)
         in if pending_count > 0 \<and> tt_strict_lifecycle self
            then (self, ShutdownReturns (Inl (UnfinishedRequestsError pending_count)))
            else let candidate = update_metadata
                       (finalize_metadata (unix_time_ms now) (cs_pending_requests state)) (cs_run state)
                 in (self\<lparr>tt_state := state\<lparr>cs_pending_requests := [], cs_run := candidate,
                                           cs_phase := PhaseFinalizing\<rparr>\<rparr>,
                     ShutdownFinalizes candidate))"

text \<open>The sink write and the second critical section.\<close>

definition shutdown_finish :: "('c dyn_sink \<Rightarrow> 'w \<Rightarrow> Run \<Rightarrow> 'w \<times> (SinkError + unit)) \<Rightarrow> Run \<Rightarrow> 'w \<Rightarrow>
    ('c, 'l) Tailtriage \<Rightarrow> ('c, 'l) Tailtriage \<times> 'w \<times> (ShutdownError + unit)" where
  "shutdown_finish sink_write candidate w self =
     (let normalized = normalize_for_lifecycle candidate;
          (w, result) = sink_write (tt_sink self) w normalized;
          terminal = (case result of Inr _ \<Rightarrow> TerminalSuccess
                                   | Inl err \<Rightarrow> TerminalFailure (sink_error_display err))
      in (self\<lparr>tt_state := (tt_state self)\<lparr>cs_phase := PhaseClosed terminal\<rparr>\<rparr>, w,
          case result of Inr _ \<Rightarrow> Inr () | Inl err \<Rightarrow> Inl (SinkShutdownError err)))"

text \<open>
  A sink that keeps a log of the runs it is given. The systems of threads run every shutdown with
  it, so that what they record as written is what the code handed to the sink.
\<close>

definition logged :: "('a \<Rightarrow> 'w \<Rightarrow> Run \<Rightarrow> 'w \<times> 'r) \<Rightarrow> 'a \<Rightarrow> 'w \<times> Run list \<Rightarrow> Run \<Rightarrow> ('w \<times> Run list) \<times> 'r" where
  "logged sink_write sink = (\<lambda>(w, log) run. let (w', r) = sink_write sink w run in ((w', log @ [run]), r))"

text \<open>The log does not disturb the shutdown, and it gains exactly the normalized candidate.\<close>

lemma shutdown_finish_logged:
  "shutdown_finish (logged sink) candidate (w, log) self =
     (let (self', w', r) = shutdown_finish sink candidate w self
      in (self', (w', log @ [normalize_for_lifecycle candidate]), r))"
  by (simp add: shutdown_finish_def logged_def Let_def split: prod.split)

end
