(* ===== verification/Core_Lifecycle.thy ===== *)
theory Core_Lifecycle
  imports Core_Collector
begin

text \<open>
  Correctness of the collector. Every operation on an open collector keeps \<open>collector_inv\<close> and
  fires the listener exactly on the first transition of the limits-hit flag; on a collector that
  is no longer open it does nothing. That contract is the locale \<open>collector_op\<close>, interpreted on
  all recording operations. The second half composes the operations into a system of threads:
  outstanding completion tokens, guards and timers, shutdowns between their two critical
  sections, and the sink's world; its steps interleave freely, and the properties are invariants
  of every reachable state.
\<close>

section \<open>The invariant of a collector\<close>

abbreviation tt_run :: "('c, 'l) Tailtriage \<Rightarrow> Run" where
  "tt_run self \<equiv> cs_run (tt_state self)"

abbreviation limits_hit :: "('c, 'l) Tailtriage \<Rightarrow> bool" where
  "limits_hit self \<equiv> tr_limits_hit (run_truncation (tt_run self))"

text \<open>
  Nothing is dropped while there is room: a positive drop counter means that its section is full.
  For requests the places of the pending ones count, and for live gauges every open gauge has
  left at least one snapshot, so the cap on gauges is only reached by a full section.
\<close>

definition drops_full :: "CaptureLimits \<Rightarrow> CollectorState \<Rightarrow> bool" where
  "drops_full limits st \<longleftrightarrow>
     (cs_phase st = PhaseOpen \<and> tr_dropped_requests (run_truncation (cs_run st)) > 0 \<longrightarrow>
        max_requests limits \<le> length (run_requests (cs_run st)) + length (cs_pending_requests st)) \<and>
     (tr_dropped_stages (run_truncation (cs_run st)) > 0 \<longrightarrow>
        max_stages limits \<le> length (run_stages (cs_run st))) \<and>
     (tr_dropped_queues (run_truncation (cs_run st)) > 0 \<longrightarrow>
        max_queues limits \<le> length (run_queues (cs_run st))) \<and>
     (tr_dropped_inflight_snapshots (run_truncation (cs_run st)) > 0 \<longrightarrow>
        max_inflight_snapshots limits \<le> length (run_inflight (cs_run st))) \<and>
     (tr_dropped_runtime_snapshots (run_truncation (cs_run st)) > 0 \<longrightarrow>
        max_runtime_snapshots limits \<le> length (run_runtime_snapshots (cs_run st))) \<and>
     length (cs_inflight_counts st) \<le> length (run_inflight (cs_run st))"

lemma drops_full_mark [simp]:
  "drops_full limits (st\<lparr>cs_run := run\<lparr>run_truncation := (run_truncation run)\<lparr>tr_limits_hit := b\<rparr>\<rparr>\<rparr>)
     = drops_full limits (st\<lparr>cs_run := run\<rparr>)"
  by (simp add: drops_full_def)

lemma drops_full_md [simp]:
  "drops_full limits (st\<lparr>cs_run := run\<lparr>run_metadata := md\<rparr>\<rparr>) = drops_full limits (st\<lparr>cs_run := run\<rparr>)"
  by (simp add: drops_full_def)

definition collector_inv :: "('c, 'l) Tailtriage \<Rightarrow> bool" where
  "collector_inv self \<longleftrightarrow>
     within_limits (tt_limits self) (tt_run self) \<and>
     (is_open self \<longrightarrow> length (run_requests (tt_run self)) + length (cs_pending_requests (tt_state self))
        \<le> max_requests (tt_limits self)) \<and>
     (\<not> is_open self \<longrightarrow> cs_pending_requests (tt_state self) = []) \<and>
     truncation_consistent (run_truncation (tt_run self)) \<and>
     ts_limits_hit (tt_truncation_state self) = limits_hit self \<and>
     bt_wf (cs_pending_requests (tt_state self)) \<and>
     bt_wf (cs_inflight_counts (tt_state self)) \<and>
     length (cs_inflight_counts (tt_state self)) \<le> max_inflight_snapshots (tt_limits self) \<and>
     drops_full (tt_limits self) (tt_state self)"

text \<open>What no recording operation touches.\<close>

definition collector_frame where
  "collector_frame self = (cs_phase (tt_state self), tt_sink self, tt_mode self,
     tt_effective_core_config self, tt_limits self, tt_run_clock self, tt_strict_lifecycle self,
     tt_limits_hit_listener self, md_finalized_at_unix_ms (run_metadata (tt_run self)),
     md_unfinished_requests (run_metadata (tt_run self)))"

definition op_ok :: "('c, 'l) Tailtriage \<Rightarrow> ('c, 'l) Tailtriage \<times> 'l list \<Rightarrow> bool" where
  "op_ok self res \<longleftrightarrow>
     collector_inv (fst res) \<and> collector_frame (fst res) = collector_frame self \<and>
     (limits_hit self \<longrightarrow> limits_hit (fst res)) \<and>
     snd res = (if \<not> limits_hit self \<and> limits_hit (fst res) then notify_limits_hit_listener self else [])"

lemma op_ok_refl: "collector_inv self \<Longrightarrow> op_ok self (self, [])"
  by (simp add: op_ok_def)

lemma op_ok_release:
  assumes inv: "collector_inv self" and "is_open self" and ph: "cs_phase st = PhaseOpen"
    and lim: "within_limits (tt_limits self) (cs_run st)"
    and adm: "length (run_requests (cs_run st)) + length (cs_pending_requests st) \<le> max_requests (tt_limits self)"
    and wf: "bt_wf (cs_pending_requests st)" "bt_wf (cs_inflight_counts st)"
    and card: "length (cs_inflight_counts st) \<le> max_inflight_snapshots (tt_limits self)"
    and full: "drops_full (tt_limits self) st"
    and drop: "dropped \<Longrightarrow> truncation_consistent ((run_truncation (cs_run st))\<lparr>tr_limits_hit := True\<rparr>)"
    and keep: "\<not> dropped \<Longrightarrow> run_truncation (cs_run st) = run_truncation (tt_run self)"
    and mark: "\<And>ts. ts_limits_hit (m ts) = ts_limits_hit ts"
    and md: "run_metadata (cs_run st) = run_metadata (tt_run self)"
  shows "op_ok self (release_after_push m dropped st self)"
proof (cases dropped)
  case True
  have ts: "ts_limits_hit (tt_truncation_state self) = limits_hit self"
    using inv by (simp add: collector_inv_def)
  show ?thesis
    using True assms ts
    by (simp add: op_ok_def release_after_push_def mark_run_limits_hit_def mark_limits_hit_def Let_def
        collector_inv_def within_limits_def collector_frame_def notify_limits_hit_listener_def)
next
  case False
  then show ?thesis
    using assms by (simp add: op_ok_def release_after_push_def collector_inv_def collector_frame_def)
qed

text \<open>The contract of an operation and what follows from it for any sequence of them.\<close>

locale collector_op =
  fixes run_op :: "'i \<Rightarrow> ('c, 'l) Tailtriage \<Rightarrow> ('c, 'l) Tailtriage \<times> 'l list"
  assumes inert: "\<not> is_open self \<Longrightarrow> run_op i self = (self, [])"
    and ok_open: "collector_inv self \<Longrightarrow> is_open self \<Longrightarrow> op_ok self (run_op i self)"
begin

lemma ok: "collector_inv self \<Longrightarrow> op_ok self (run_op i self)"
  by (cases "is_open self") (simp_all add: ok_open inert op_ok_refl)

definition run_ops :: "'i list \<Rightarrow> ('c, 'l) Tailtriage \<Rightarrow> ('c, 'l) Tailtriage \<times> 'l list" where
  "run_ops is self = foldl (\<lambda>(s, calls) i. let (s', cs) = run_op i s in (s', calls @ cs)) (self, []) is"

lemma run_ops_snoc:
  "run_ops (is @ [i]) self =
     (fst (run_op i (fst (run_ops is self))), snd (run_ops is self) @ snd (run_op i (fst (run_ops is self))))"
  by (simp add: run_ops_def Let_def split: prod.split)

lemma run_ops_ok: "collector_inv self \<Longrightarrow> op_ok self (run_ops is self)"
proof (induction "is" rule: rev_induct)
  case Nil
  then show ?case by (simp add: run_ops_def op_ok_refl)
next
  case (snoc i "is")
  let ?s = "fst (run_ops is self)"
  have 1: "op_ok self (run_ops is self)" using snoc by simp
  have 2: "op_ok ?s (run_op i ?s)" using 1 by (intro ok) (simp add: op_ok_def)
  have "tt_limits_hit_listener ?s = tt_limits_hit_listener self"
    using 1 by (simp add: op_ok_def collector_frame_def)
  then show ?case
    using 1 2 by (auto simp: run_ops_snoc op_ok_def notify_limits_hit_listener_def)
qed

end

lemma truncation_consistent_dropped:
  assumes "truncation_consistent t"
  shows "truncation_consistent (t\<lparr>tr_dropped_requests := saturating_add n 1, tr_limits_hit := True\<rparr>)"
    and "truncation_consistent (t\<lparr>tr_dropped_inflight_snapshots := saturating_add n 1, tr_limits_hit := True\<rparr>)"
  by (simp_all add: truncation_consistent_def saturating_add_pos)

lemma truncation_hit_idem: "tr_limits_hit t \<Longrightarrow> t\<lparr>tr_limits_hit := True\<rparr> = t"
  by (cases t) simp

lemma push_truncation:
  "snd (push_stage_bounded run limits s) = False \<Longrightarrow>
     run_truncation (fst (push_stage_bounded run limits s)) = run_truncation run"
  "snd (push_queue_bounded run limits q) = False \<Longrightarrow>
     run_truncation (fst (push_queue_bounded run limits q)) = run_truncation run"
  "snd (push_runtime_snapshot_bounded run limits t) = False \<Longrightarrow>
     run_truncation (fst (push_runtime_snapshot_bounded run limits t)) = run_truncation run"
  "snd (push_inflight_snapshot_bounded run limits i) = False \<Longrightarrow>
     run_truncation (fst (push_inflight_snapshot_bounded run limits i)) = run_truncation run"
  "snd (push_request_bounded run limits r) = False \<Longrightarrow>
     run_truncation (fst (push_request_bounded run limits r)) = run_truncation run"
  by (simp_all add: push_bounded_defs split: if_splits)

lemma push_hit:
  "snd (push_stage_bounded run limits s) \<Longrightarrow>
     tr_limits_hit (run_truncation (fst (push_stage_bounded run limits s)))"
  "snd (push_queue_bounded run limits q) \<Longrightarrow>
     tr_limits_hit (run_truncation (fst (push_queue_bounded run limits q)))"
  "snd (push_runtime_snapshot_bounded run limits t) \<Longrightarrow>
     tr_limits_hit (run_truncation (fst (push_runtime_snapshot_bounded run limits t)))"
  "snd (push_inflight_snapshot_bounded run limits i) \<Longrightarrow>
     tr_limits_hit (run_truncation (fst (push_inflight_snapshot_bounded run limits i)))"
  "snd (push_request_bounded run limits r) \<Longrightarrow>
     tr_limits_hit (run_truncation (fst (push_request_bounded run limits r)))"
  by (simp_all add: push_bounded_defs split: if_splits)

lemma push_requests_frame [simp]:
  "run_requests (fst (push_stage_bounded run limits s)) = run_requests run"
  "run_requests (fst (push_queue_bounded run limits q)) = run_requests run"
  "run_requests (fst (push_runtime_snapshot_bounded run limits t)) = run_requests run"
  "run_requests (fst (push_inflight_snapshot_bounded run limits i)) = run_requests run"
  by (simp_all add: push_bounded_defs)

lemma collector_invD:
  assumes "collector_inv self"
  shows "within_limits (tt_limits self) (tt_run self)"
    and "truncation_consistent (run_truncation (tt_run self))"
    and "bt_wf (cs_pending_requests (tt_state self))" and "bt_wf (cs_inflight_counts (tt_state self))"
    and "length (cs_inflight_counts (tt_state self)) \<le> max_inflight_snapshots (tt_limits self)"
    and "is_open self \<Longrightarrow> length (run_requests (tt_run self)) +
      length (cs_pending_requests (tt_state self)) \<le> max_requests (tt_limits self)"
    and "drops_full (tt_limits self) (tt_state self)"
  using assms by (simp_all add: collector_inv_def)

text \<open>A bounded push drops only what finds its section full, and removes nothing.\<close>

lemma drops_full_push:
  assumes "drops_full limits st"
  shows "drops_full limits (st\<lparr>cs_run := fst (push_stage_bounded (cs_run st) limits s)\<rparr>)"
    and "drops_full limits (st\<lparr>cs_run := fst (push_queue_bounded (cs_run st) limits q)\<rparr>)"
    and "drops_full limits (st\<lparr>cs_run := fst (push_runtime_snapshot_bounded (cs_run st) limits t)\<rparr>)"
  using assms by (auto simp: drops_full_def push_bounded_defs)

lemma drops_full_push_inflight:
  assumes "drops_full limits st" and "length counts \<le> max_inflight_snapshots limits"
    and "length counts \<le> Suc (length (cs_inflight_counts st))"
  shows "drops_full limits (st\<lparr>cs_inflight_counts := counts,
    cs_run := fst (push_inflight_snapshot_bounded (cs_run st) limits i)\<rparr>)"
  using assms by (auto simp: drops_full_def push_bounded_defs)

interpretation stage_op: collector_op record_stage_event
proof
  fix self :: "('c, 'l) Tailtriage" and e
  show "\<not> is_open self \<Longrightarrow> record_stage_event e self = (self, [])"
    by (simp add: record_stage_event_def)
  assume inv: "collector_inv self" and op: "is_open self"
  obtain run d where p: "push_stage_bounded (tt_run self) (tt_limits self) e = (run, d)" by (rule prod.exhaust)
  note D = collector_invD [OF inv]
  show "op_ok self (record_stage_event e self)"
    using D p op within_limits_push(2) [OF D(1), of e] truncation_consistent_push(2) [OF D(2), of "tt_limits self" e]
      drops_full_push(1) [OF D(7), of e]
      push_truncation(1) [of "tt_run self" "tt_limits self" e] push_hit(1) [of "tt_run self" "tt_limits self" e]
      push_requests_frame(1) [of "tt_run self" "tt_limits self" e] push_metadata(2) [of "tt_run self" "tt_limits self" e]
    unfolding record_stage_event_def
    by (auto intro!: op_ok_release inv simp: truncation_hit_idem)
qed

interpretation queue_op: collector_op record_queue_event
proof
  fix self :: "('c, 'l) Tailtriage" and e
  show "\<not> is_open self \<Longrightarrow> record_queue_event e self = (self, [])"
    by (simp add: record_queue_event_def)
  assume inv: "collector_inv self" and op: "is_open self"
  obtain run d where p: "push_queue_bounded (tt_run self) (tt_limits self) e = (run, d)" by (rule prod.exhaust)
  note D = collector_invD [OF inv]
  show "op_ok self (record_queue_event e self)"
    using D p op within_limits_push(3) [OF D(1), of e] truncation_consistent_push(3) [OF D(2), of "tt_limits self" e]
      drops_full_push(2) [OF D(7), of e]
      push_truncation(2) [of "tt_run self" "tt_limits self" e] push_hit(2) [of "tt_run self" "tt_limits self" e]
      push_requests_frame(2) [of "tt_run self" "tt_limits self" e] push_metadata(3) [of "tt_run self" "tt_limits self" e]
    unfolding record_queue_event_def
    by (auto intro!: op_ok_release inv simp: truncation_hit_idem)
qed

interpretation runtime_op: collector_op "\<lambda>(now, snapshot). record_runtime_snapshot now snapshot"
proof
  fix self :: "('c, 'l) Tailtriage" and i :: "clock_reading \<times> RuntimeSnapshot"
  obtain now t where i: "i = (now, t)" by (rule prod.exhaust)
  define e where "e = (if rts_at_run_us t = None
      then t\<lparr>rts_at_run_us := Some (rcs_run_elapsed_us (clock_sample (tt_run_clock self) now))\<rparr> else t)"
  show "\<not> is_open self \<Longrightarrow> (case i of (now, snapshot) \<Rightarrow> record_runtime_snapshot now snapshot) self = (self, [])"
    by (simp add: i record_runtime_snapshot_def Let_def)
  assume inv: "collector_inv self" and op: "is_open self"
  obtain run d where p: "push_runtime_snapshot_bounded (tt_run self) (tt_limits self) e = (run, d)" by (rule prod.exhaust)
  note D = collector_invD [OF inv]
  show "op_ok self ((case i of (now, snapshot) \<Rightarrow> record_runtime_snapshot now snapshot) self)"
    using D p op within_limits_push(5) [OF D(1), of e] truncation_consistent_push(5) [OF D(2), of "tt_limits self" e]
      drops_full_push(3) [OF D(7), of e]
      push_truncation(3) [of "tt_run self" "tt_limits self" e] push_hit(3) [of "tt_run self" "tt_limits self" e]
      push_requests_frame(3) [of "tt_run self" "tt_limits self" e] push_metadata(5) [of "tt_run self" "tt_limits self" e]
    unfolding record_runtime_snapshot_def i prod.case Let_def e_def [symmetric]
    by (auto intro!: op_ok_release inv simp: truncation_hit_idem)
qed

lemma bt_insert_wf: "bt_wf m \<Longrightarrow> bt_wf (bt_insert k v m)"
  by (simp add: bt_insert_def bt_wf_entry)

lemma bt_insert_length: "bt_wf m \<Longrightarrow>
    length (bt_insert k v m) = (if bt_lookup m k = None then Suc (length m) else length m)"
  by (simp add: bt_insert_def bt_length_entry)

text \<open>The state change of \<^verbatim>\<open>inflight\<close>, without the guard it returns.\<close>

definition inflight_op :: "clock_reading \<times> string \<Rightarrow> ('c, 'l) Tailtriage \<Rightarrow> ('c, 'l) Tailtriage \<times> 'l list" where
  "inflight_op = (\<lambda>(now, gauge) self. snd (inflight now gauge self))"

interpretation inflight_op: collector_op inflight_op
proof
  fix self :: "('c, 'l) Tailtriage" and i :: "clock_reading \<times> string"
  obtain now g where i: "i = (now, g)" by (rule prod.exhaust)
  show "\<not> is_open self \<Longrightarrow> inflight_op i self = (self, [])"
    by (simp add: i inflight_op_def inflight_def Let_def)
  assume inv: "collector_inv self" and op: "is_open self"
  note D = collector_invD [OF inv]
  let ?m = "cs_inflight_counts (tt_state self)"
  show "op_ok self (inflight_op i self)"
  proof (cases "bt_lookup ?m g = None \<and> length ?m \<ge> max_inflight_snapshots (tt_limits self)")
    case True
    then show ?thesis
      using D op inv by (auto intro!: op_ok_release truncation_consistent_dropped
          simp: i inflight_op_def inflight_def Let_def within_limits_def drops_full_def)
  next
    case False
    define n where "n = (case bt_lookup ?m g of None \<Rightarrow> 0 | Some c \<Rightarrow> c) + 1"
    define e where "e = \<lparr>inf_gauge = g, inf_at_unix_ms = rcs_unix_ms (clock_sample (tt_run_clock self) now),
      inf_at_run_us = Some (rcs_run_elapsed_us (clock_sample (tt_run_clock self) now)), inf_count = n\<rparr>"
    obtain run d where p: "push_inflight_snapshot_bounded (tt_run self) (tt_limits self) e = (run, d)"
      by (rule prod.exhaust)
    have card: "length (bt_insert g n ?m) \<le> max_inflight_snapshots (tt_limits self)"
      using False D(4,5) by (auto simp: bt_insert_length)
    have full: "drops_full (tt_limits self) ((tt_state self)\<lparr>cs_inflight_counts := bt_insert g n ?m, cs_run := run\<rparr>)"
      using drops_full_push_inflight [OF D(7) card, of e] D(4) p by (simp add: bt_insert_length split: if_splits)
    have eq: "inflight_op i self = release_after_push (\<lambda>ts. ts\<lparr>ts_inflight := True\<rparr>) d
        ((tt_state self)\<lparr>cs_inflight_counts := bt_insert g n ?m, cs_run := run\<rparr>) self"
      using False op p unfolding i inflight_op_def inflight_def prod.case Let_def n_def [symmetric] e_def [symmetric]
      by (auto simp: e_def [symmetric])
    show ?thesis
      unfolding eq
      using D p op card full within_limits_push(4) [OF D(1), of e] truncation_consistent_push(4) [OF D(2), of "tt_limits self" e]
        push_truncation(4) [of "tt_run self" "tt_limits self" e] push_hit(4) [of "tt_run self" "tt_limits self" e]
        push_requests_frame(4) [of "tt_run self" "tt_limits self" e] push_metadata(4) [of "tt_run self" "tt_limits self" e]
      by (auto intro!: op_ok_release inv bt_insert_wf simp: truncation_hit_idem)
  qed
qed

interpretation guard_drop_op: collector_op "\<lambda>(now, guard). inflight_guard_drop now guard"
proof
  fix self :: "('c, 'l) Tailtriage" and i :: "clock_reading \<times> InflightGuard"
  obtain now g where i: "i = (now, g)" by (rule prod.exhaust)
  show "\<not> is_open self \<Longrightarrow> (case i of (now, guard) \<Rightarrow> inflight_guard_drop now guard) self = (self, [])"
    by (simp add: i inflight_guard_drop_def Let_def)
  assume inv: "collector_inv self" and op: "is_open self"
  note D = collector_invD [OF inv]
  let ?m = "cs_inflight_counts (tt_state self)"
  show "op_ok self ((case i of (now, guard) \<Rightarrow> inflight_guard_drop now guard) self)"
  proof (cases "ig_enabled g \<and> bt_lookup ?m (ig_gauge g) \<noteq> None \<and> bt_lookup ?m (ig_gauge g) \<noteq> Some 0")
    case False
    then show ?thesis
      by (auto simp: i inflight_guard_drop_def Let_def op_ok_refl [OF inv] split: option.splits)
  next
    case True
    then obtain entry where entry: "bt_lookup ?m (ig_gauge g) = Some entry" "entry \<noteq> 0" by auto
    define n where "n = entry - 1"
    define e where "e = \<lparr>inf_gauge = ig_gauge g, inf_at_unix_ms = rcs_unix_ms (clock_sample (tt_run_clock self) now),
      inf_at_run_us = Some (rcs_run_elapsed_us (clock_sample (tt_run_clock self) now)), inf_count = n\<rparr>"
    define counts where "counts = (if n = 0 then bt_remove (ig_gauge g) ?m else bt_insert (ig_gauge g) n ?m)"
    obtain run d where p: "push_inflight_snapshot_bounded (tt_run self) (tt_limits self) e = (run, d)"
      by (rule prod.exhaust)
    have card: "length counts \<le> max_inflight_snapshots (tt_limits self)" "bt_wf counts"
      "length counts \<le> Suc (length ?m)"
      using D(4,5) entry by (auto simp: counts_def bt_insert_length bt_length_remove bt_wf_remove bt_insert_wf)
    have full: "drops_full (tt_limits self) ((tt_state self)\<lparr>cs_run := run, cs_inflight_counts := counts\<rparr>)"
      using drops_full_push_inflight [OF D(7) card(1,3), of e] p by (simp add: drops_full_def)
    have eq: "(case i of (now, guard) \<Rightarrow> inflight_guard_drop now guard) self =
        release_after_push (\<lambda>ts. ts\<lparr>ts_inflight := True\<rparr>) d
        ((tt_state self)\<lparr>cs_run := run, cs_inflight_counts := counts\<rparr>) self"
      using True op p entry unfolding i inflight_guard_drop_def prod.case Let_def
      by (simp add: n_def [symmetric] e_def [symmetric] counts_def)
    show ?thesis
      unfolding eq
      using D p op card full within_limits_push(4) [OF D(1), of e] truncation_consistent_push(4) [OF D(2), of "tt_limits self" e]
        push_truncation(4) [of "tt_run self" "tt_limits self" e] push_hit(4) [of "tt_run self" "tt_limits self" e]
        push_requests_frame(4) [of "tt_run self" "tt_limits self" e] push_metadata(4) [of "tt_run self" "tt_limits self" e]
      by (auto intro!: op_ok_release inv simp: truncation_hit_idem)
  qed
qed

text \<open>An admitted request's completion always finds room: admission reserved its place.\<close>

lemma resolve_room:
  assumes "collector_inv self" and "is_open self"
    and "bt_lookup (cs_pending_requests (tt_state self)) key = Some pending"
  shows "length (run_requests (tt_run self)) < max_requests (tt_limits self)"
proof -
  have "cs_pending_requests (tt_state self) \<noteq> []" using assms(3) by auto
  then show ?thesis using collector_invD(6) [OF assms(1,2)] by (cases "cs_pending_requests (tt_state self)") auto
qed

lemma resolve_request_open:
  assumes inv: "collector_inv self" and op: "is_open self"
    and k: "bt_lookup (cs_pending_requests (tt_state self)) key = Some pending"
  shows "resolve_request now key start outcome self =
    (self\<lparr>tt_state := (tt_state self)
       \<lparr>cs_pending_requests := bt_remove key (cs_pending_requests (tt_state self)),
        cs_run := (tt_run self)\<lparr>run_requests := run_requests (tt_run self) @
          [request_event_from_finished_interval pending (finish_interval (tt_run_clock self) start now) outcome]\<rparr>\<rparr>\<rparr>, [])"
  using resolve_room [OF assms] op k
  by (simp add: resolve_request_def Let_def push_request_bounded_def release_after_push_def)

interpretation resolve_op: collector_op "\<lambda>(now, key, start, outcome). resolve_request now key start outcome"
proof
  fix self :: "('c, 'l) Tailtriage" and i :: "clock_reading \<times> u64 \<times> IntervalStart \<times> Outcome"
  obtain now key start outcome where i: "i = (now, key, start, outcome)" by (metis prod_cases4)
  show "\<not> is_open self \<Longrightarrow>
      (case i of (now, key, start, outcome) \<Rightarrow> resolve_request now key start outcome) self = (self, [])"
    by (simp add: i resolve_request_def Let_def)
  assume inv: "collector_inv self" and op: "is_open self"
  note D = collector_invD [OF inv]
  show "op_ok self ((case i of (now, key, start, outcome) \<Rightarrow> resolve_request now key start outcome) self)"
  proof (cases "bt_lookup (cs_pending_requests (tt_state self)) key")
    case None
    then show ?thesis by (simp add: i resolve_request_def Let_def op_ok_refl [OF inv])
  next
    case (Some pending)
    have "0 < length (cs_pending_requests (tt_state self))" using Some by auto
    then show ?thesis
      using D(1-5) D(6) [OF op] op inv resolve_room [OF inv op Some] Some
      by (auto simp: i resolve_request_open [OF inv op Some] op_ok_def collector_inv_def within_limits_def
          collector_frame_def bt_wf_remove bt_length_remove drops_full_def)
  qed
qed

text \<open>The state change of starting a request, for a given sequence number.\<close>

definition start_op :: "clock_reading \<times> clock_reading \<times> string \<times> RequestOptions \<times> statics \<Rightarrow>
    ('c, 'l) Tailtriage \<Rightarrow> ('c, 'l) Tailtriage \<times> 'l list" where
  "start_op = (\<lambda>(now1, now2, route, options, st) self. snd (snd (start_request now1 now2 route options st self)))"

lemma start_request_cases:
  fixes self :: "('c, 'l) Tailtriage"
  defines "adm \<equiv> is_open self \<and> length (run_requests (tt_run self)) + length (cs_pending_requests (tt_state self))
      < max_requests (tt_limits self)"
  shows "adm \<Longrightarrow> \<exists>pending. start_op (now1, now2, route, options, st) self =
      (self\<lparr>tt_state := (tt_state self)\<lparr>cs_pending_requests :=
         bt_insert (PENDING_SEQUENCE st) pending (cs_pending_requests (tt_state self))\<rparr>\<rparr>, [])"
    and "is_open self \<Longrightarrow> \<not> adm \<Longrightarrow> start_op (now1, now2, route, options, st) self =
      release_after_push (\<lambda>ts. ts\<lparr>ts_requests := True\<rparr>) True
        ((tt_state self)\<lparr>cs_run := (tt_run self)\<lparr>run_truncation := (run_truncation (tt_run self))
           \<lparr>tr_dropped_requests := saturating_add (tr_dropped_requests (run_truncation (tt_run self))) 1\<rparr>\<rparr>\<rparr>) self"
    and "\<not> is_open self \<Longrightarrow> start_op (now1, now2, route, options, st) self = (self, [])"
  by (auto simp: start_op_def start_request_def generate_request_id_def Let_def adm_def split: option.splits)

interpretation start_op: collector_op start_op
proof
  fix self :: "('c, 'l) Tailtriage" and i :: "clock_reading \<times> clock_reading \<times> string \<times> RequestOptions \<times> statics"
  obtain now1 now2 route options st where i: "i = (now1, now2, route, options, st)" by (metis prod_cases5)
  show "\<not> is_open self \<Longrightarrow> start_op i self = (self, [])"
    by (simp add: i start_request_cases)
  assume inv: "collector_inv self" and op: "is_open self"
  note D = collector_invD [OF inv]
  show "op_ok self (start_op i self)"
  proof (cases "length (run_requests (tt_run self)) + length (cs_pending_requests (tt_state self))
      < max_requests (tt_limits self)")
    case True
    then obtain pending where "start_op i self =
      (self\<lparr>tt_state := (tt_state self)\<lparr>cs_pending_requests :=
         bt_insert (PENDING_SEQUENCE st) pending (cs_pending_requests (tt_state self))\<rparr>\<rparr>, [])"
      using op start_request_cases(1) [of self now1 now2 route options st] unfolding i by blast
    then show ?thesis
      using D inv op True
      by (auto simp: op_ok_def collector_inv_def collector_frame_def bt_insert_wf bt_insert_length drops_full_def)
  next
    case False
    then show ?thesis
      using D inv op unfolding i
      by (auto intro!: op_ok_release truncation_consistent_dropped simp: start_request_cases(2) within_limits_def drops_full_def)
  qed
qed

interpretation end_reason_op: collector_op "\<lambda>reason self. (set_run_end_reason_if_absent reason self, [])"
  by unfold_locales
    (auto simp: set_run_end_reason_if_absent_def op_ok_def collector_inv_def collector_frame_def within_limits_def
      drops_full_def)

interpretation register_op: collector_op "\<lambda>config self. (snd (register_tokio_runtime_sampler config self), [])"
  by unfold_locales
    (auto simp: register_tokio_runtime_sampler_def op_ok_def collector_inv_def collector_frame_def within_limits_def
      drops_full_def)

text \<open>A timer ends by becoming ready, with the success of its result, or by being dropped.\<close>

definition timer_end :: "clock_reading \<times> bool option \<times> ArmedTimerRecord \<Rightarrow>
    ('c, 'l) Tailtriage \<Rightarrow> ('c, 'l) Tailtriage \<times> 'l list" where
  "timer_end = (\<lambda>(now, ready, armed) self. case ready of
     Some success \<Rightarrow> timer_ready now success armed self | None \<Rightarrow> timer_drop now armed self)"

interpretation timer_op: collector_op timer_end
proof
  fix self :: "('c, 'l) Tailtriage" and i :: "clock_reading \<times> bool option \<times> ArmedTimerRecord"
  obtain now ready armed where i: "i = (now, ready, armed)" by (metis prod_cases3)
  show "\<not> is_open self \<Longrightarrow> timer_end i self = (self, [])"
    by (cases armed) (auto simp: i timer_end_def Let_def stage_op.inert queue_op.inert split: option.splits)
  assume "collector_inv self" and "is_open self"
  then show "op_ok self (timer_end i self)"
    by (cases armed) (auto simp: i timer_end_def Let_def stage_op.ok_open queue_op.ok_open split: option.splits)
qed

section \<open>The system of threads\<close>

record ('c, 'l, 'w) sys =
  sy_tt :: "('c, 'l) Tailtriage"
  sy_statics :: statics
  sy_handles :: "RequestHandle list"
  sy_tokens :: "ArmedCompletion list"
  sy_guards :: "InflightGuard list"
  sy_timers :: "ArmedTimerRecord list"
  sy_finalizers :: "Run list"
  sy_world :: 'w
  sy_written :: "Run list"
  sy_calls :: "'l list"
  sy_returns :: "(ShutdownError + unit) list"
  sy_admitted :: nat
  sy_sequence :: nat

text \<open>
  \<open>sy_finalizers\<close> holds the candidates of the shutdown calls that are between their critical
  sections. The last five components record history: the runs handed to the sink (by the sink
  itself, wrapped in \<open>logged\<close>), the listener calls, the results of shutdown calls, the admitted
  requests and the sequence numbers drawn.
\<close>

datatype 'l action =
    BeginRequest clock_reading clock_reading string RequestOptions
  | FinishRequest nat clock_reading Outcome
  | DropCompletion nat clock_reading
  | OpenInflight nat clock_reading string
  | DropGuard nat clock_reading
  | PollStage nat clock_reading string
  | PollQueue nat clock_reading string "u64 option"
  | EndTimer nat clock_reading "bool option"
  | RecordRuntime clock_reading RuntimeSnapshot
  | RegisterSampler EffectiveTokioSamplerConfig
  | SetEndReasonIfAbsent RunEndReason
  | SetListener "'l option"
  | BeginShutdown clock_reading
  | FinishShutdown nat
  | OtherCollector

definition remove_nth :: "nat \<Rightarrow> 'a list \<Rightarrow> 'a list" where
  "remove_nth i xs = take i xs @ drop (Suc i) xs"

definition apply_op :: "('c, 'l) Tailtriage \<times> 'l list \<Rightarrow> ('c, 'l, 'w) sys \<Rightarrow> ('c, 'l, 'w) sys" where
  "apply_op res s = s\<lparr>sy_tt := fst res, sy_calls := sy_calls s @ snd res\<rparr>"

fun exec :: "('c dyn_sink \<Rightarrow> 'w \<Rightarrow> Run \<Rightarrow> 'w \<times> (SinkError + unit)) \<Rightarrow> 'l action \<Rightarrow>
    ('c, 'l, 'w) sys \<Rightarrow> ('c, 'l, 'w) sys option" where
  "exec sink (BeginRequest now1 now2 route options) s =
     (let (started, st, res) = begin_request_with now1 now2 route options (sy_statics s) (sy_tt s)
      in Some ((apply_op res s)\<lparr>sy_statics := st, sy_handles := sy_handles s @ [sr_handle started],
           sy_tokens := sy_tokens s @ (case sr_completion started of Some a \<Rightarrow> [a] | None \<Rightarrow> []),
           sy_admitted := sy_admitted s + (case sr_completion started of Some a \<Rightarrow> 1 | None \<Rightarrow> 0),
           sy_sequence := Suc (sy_sequence s)\<rparr>))"
| "exec sink (FinishRequest i now outcome) s =
     (if i < length (sy_tokens s) then
        Some ((apply_op (completion_finish now outcome (Some (sy_tokens s ! i)) (sy_tt s)) s)
          \<lparr>sy_tokens := remove_nth i (sy_tokens s)\<rparr>)
      else None)"
| "exec sink (DropCompletion i now) s =
     (if i < length (sy_tokens s) then
        Some ((apply_op (completion_drop now (Some (sy_tokens s ! i)) (sy_tt s)) s)
          \<lparr>sy_tokens := remove_nth i (sy_tokens s)\<rparr>)
      else None)"
| "exec sink (OpenInflight i now gauge) s =
     (if i < length (sy_handles s) then
        let (guard, res) = handle_inflight now gauge (sy_handles s ! i) (sy_tt s)
        in Some ((apply_op res s)\<lparr>sy_guards := sy_guards s @ [guard]\<rparr>)
      else None)"
| "exec sink (DropGuard i now) s =
     (if i < length (sy_guards s) then
        Some ((apply_op (inflight_guard_drop now (sy_guards s ! i) (sy_tt s)) s)
          \<lparr>sy_guards := remove_nth i (sy_guards s)\<rparr>)
      else None)"
| "exec sink (PollStage i now stage) s =
     (if i < length (sy_handles s) then
        Some (s\<lparr>sy_timers := sy_timers s @ (case stage_first_poll now stage (sy_handles s ! i) (sy_tt s) of
                 Some t \<Rightarrow> [t] | None \<Rightarrow> [])\<rparr>)
      else None)"
| "exec sink (PollQueue i now queue depth) s =
     (if i < length (sy_handles s) then
        Some (s\<lparr>sy_timers := sy_timers s @ (case queue_first_poll now queue depth (sy_handles s ! i) (sy_tt s) of
                 Some t \<Rightarrow> [t] | None \<Rightarrow> [])\<rparr>)
      else None)"
| "exec sink (EndTimer i now ready) s =
     (if i < length (sy_timers s) then
        Some ((apply_op (timer_end (now, ready, sy_timers s ! i) (sy_tt s)) s)
          \<lparr>sy_timers := remove_nth i (sy_timers s)\<rparr>)
      else None)"
| "exec sink (RecordRuntime now t) s = Some (apply_op (record_runtime_snapshot now t (sy_tt s)) s)"
| "exec sink (RegisterSampler config) s =
     Some (s\<lparr>sy_tt := snd (register_tokio_runtime_sampler config (sy_tt s))\<rparr>)"
| "exec sink (SetEndReasonIfAbsent reason) s =
     Some (s\<lparr>sy_tt := set_run_end_reason_if_absent reason (sy_tt s)\<rparr>)"
| "exec sink (SetListener listener) s = Some (s\<lparr>sy_tt := set_limits_hit_listener listener (sy_tt s)\<rparr>)"
| "exec sink (BeginShutdown now) s =
     (case shutdown_begin now (sy_tt s) of
        (self, ShutdownWaits) \<Rightarrow> None
      | (self, ShutdownReturns r) \<Rightarrow> Some (s\<lparr>sy_tt := self, sy_returns := sy_returns s @ [r]\<rparr>)
      | (self, ShutdownFinalizes candidate) \<Rightarrow>
          Some (s\<lparr>sy_tt := self, sy_finalizers := sy_finalizers s @ [candidate]\<rparr>))"
| "exec sink (FinishShutdown i) s =
     (if i < length (sy_finalizers s) then
        let (self, (w, log), r) =
              shutdown_finish (logged sink) (sy_finalizers s ! i) (sy_world s, sy_written s) (sy_tt s)
        in Some (s\<lparr>sy_tt := self, sy_world := w, sy_written := log, sy_returns := sy_returns s @ [r],
               sy_finalizers := remove_nth i (sy_finalizers s)\<rparr>)
      else None)"
| "exec sink OtherCollector s =
     Some (s\<lparr>sy_statics := (sy_statics s)\<lparr>PENDING_SEQUENCE := PENDING_SEQUENCE (sy_statics s) + 1\<rparr>,
            sy_sequence := Suc (sy_sequence s)\<rparr>)"

definition sys_init :: "statics \<Rightarrow> 'w \<Rightarrow> ('c, 'l) Tailtriage \<Rightarrow> ('c, 'l, 'w) sys" where
  "sys_init st w self =
     \<lparr>sy_tt = self, sy_statics = st, sy_handles = [], sy_tokens = [], sy_guards = [], sy_timers = [],
      sy_finalizers = [], sy_world = w, sy_written = [], sy_calls = [], sy_returns = [],
      sy_admitted = 0, sy_sequence = unat (PENDING_SEQUENCE st)\<rparr>"

text \<open>The states a collector made by \<^verbatim>\<open>build\<close> can reach.\<close>

inductive reachable :: "('c dyn_sink \<Rightarrow> 'w \<Rightarrow> Run \<Rightarrow> 'w \<times> (SinkError + unit)) \<Rightarrow> ('c, 'l, 'w) sys \<Rightarrow> bool"
  for sink where
  reach_init: "from_config now gid host pid config = Inr self \<Longrightarrow> reachable sink (sys_init st w self)"
| reach_step: "reachable sink s \<Longrightarrow> exec sink a s = Some s' \<Longrightarrow> reachable sink s'"

fun exec_all :: "('c dyn_sink \<Rightarrow> 'w \<Rightarrow> Run \<Rightarrow> 'w \<times> (SinkError + unit)) \<Rightarrow> 'l action list \<Rightarrow>
    ('c, 'l, 'w) sys \<Rightarrow> ('c, 'l, 'w) sys option" where
  "exec_all sink [] s = Some s"
| "exec_all sink (a # as) s = Option.bind (exec sink a s) (exec_all sink as)"

lemma reachable_exec_all: "reachable sink s \<Longrightarrow> exec_all sink as s = Some s' \<Longrightarrow> reachable sink s'"
  by (induction "as" arbitrary: s) (auto simp: bind_eq_Some_conv intro: reach_step)

section \<open>The invariant of the system\<close>

definition phase_inv :: "('c, 'l, 'w) sys \<Rightarrow> bool" where
  "phase_inv s \<longleftrightarrow> (case cs_phase (tt_state (sy_tt s)) of
       PhaseOpen \<Rightarrow> sy_finalizers s = [] \<and> sy_written s = [] \<and>
         md_finalized_at_unix_ms (run_metadata (tt_run (sy_tt s))) = None \<and>
         md_unfinished_requests (run_metadata (tt_run (sy_tt s))) = unfinished_default
     | PhaseFinalizing \<Rightarrow> sy_finalizers s = [tt_run (sy_tt s)] \<and> sy_written s = []
     | PhaseClosed _ \<Rightarrow> sy_finalizers s = [] \<and> sy_written s = [normalize_for_lifecycle (tt_run (sy_tt s))])"

definition sys_inv :: "('c, 'l, 'w) sys \<Rightarrow> bool" where
  "sys_inv s \<longleftrightarrow> collector_inv (sy_tt s) \<and> phase_inv s \<and>
     length (sy_calls s) \<le> (if limits_hit (sy_tt s) then 1 else 0)"

text \<open>What one of the recording operations does to a system state.\<close>

lemma apply_op_inv:
  assumes "sys_inv s" and ok: "op_ok (sy_tt s) res" and "\<not> is_open (sy_tt s) \<Longrightarrow> fst res = sy_tt s"
  shows "sys_inv (apply_op res s)"
proof -
  have fr: "cs_phase (tt_state (fst res)) = cs_phase (tt_state (sy_tt s))"
    "md_finalized_at_unix_ms (run_metadata (tt_run (fst res))) = md_finalized_at_unix_ms (run_metadata (tt_run (sy_tt s)))"
    "md_unfinished_requests (run_metadata (tt_run (fst res))) = md_unfinished_requests (run_metadata (tt_run (sy_tt s)))"
    using ok by (simp_all add: op_ok_def collector_frame_def)
  have "phase_inv (apply_op res s)"
    using assms(1,3) fr by (cases "cs_phase (tt_state (sy_tt s))") (simp_all add: sys_inv_def phase_inv_def apply_op_def)
  moreover have "length (sy_calls (apply_op res s)) \<le> (if limits_hit (sy_tt (apply_op res s)) then 1 else 0)"
    using assms(1) ok by (auto simp: sys_inv_def op_ok_def apply_op_def notify_limits_hit_listener_def
        split: if_splits option.splits)
  ultimately show ?thesis using ok by (simp add: sys_inv_def apply_op_def op_ok_def)
qed

lemma begin_request_with_start:
  "begin_request_with now1 now2 route options st self = (started, st', res) \<Longrightarrow>
   res = start_op (now1, now2, route, options, st) self"
  by (auto simp: begin_request_with_def start_op_def split: prod.splits)

lemma handle_inflight_op:
  "handle_inflight now gauge h self = (guard, res) \<Longrightarrow>
   res = (if rh_admitted h then inflight_op (now, gauge) self else (self, []))"
  by (auto simp: handle_inflight_def inflight_op_def split: if_splits prod.splits)

lemma completion_finish_ok:
  "collector_inv self \<Longrightarrow> op_ok self (completion_finish now outcome token self)"
  "\<not> is_open self \<Longrightarrow> completion_finish now outcome token self = (self, [])"
  using resolve_op.ok [of self] resolve_op.inert [of self]
  by (auto simp: completion_finish_def op_ok_refl split: option.split)

lemma finalize_metadata_sel:
  "md_finalized_at_unix_ms (finalize_metadata at pending md) = Some at"
  "md_unfinished_requests (finalize_metadata at pending md) =
     (if pending = [] then md_unfinished_requests md
      else \<lparr>uf_count = of_nat (length pending), uf_sample = pending_sample pending\<rparr>)"
  by (simp_all add: finalize_metadata_def Let_def)

lemma sys_inv_frame:
  "sys_inv s \<Longrightarrow> sy_tt s' = sy_tt s \<Longrightarrow> sy_calls s' = sy_calls s \<Longrightarrow> sy_finalizers s' = sy_finalizers s \<Longrightarrow>
   sy_written s' = sy_written s \<Longrightarrow> sys_inv s'"
  unfolding sys_inv_def phase_inv_def by (cases "cs_phase (tt_state (sy_tt s))") simp_all

lemma sys_inv_listener: "sys_inv s \<Longrightarrow> sys_inv (s\<lparr>sy_tt := set_limits_hit_listener l (sy_tt s)\<rparr>)"
  by (cases "cs_phase (tt_state (sy_tt s))")
    (simp_all add: sys_inv_def phase_inv_def set_limits_hit_listener_def collector_inv_def)

lemma shutdown_begin_open:
  assumes "is_open self"
  shows "cs_pending_requests (tt_state self) \<noteq> [] \<Longrightarrow> tt_strict_lifecycle self \<Longrightarrow> shutdown_begin now self =
      (self, ShutdownReturns (Inl (UnfinishedRequestsError (length (cs_pending_requests (tt_state self))))))"
    and "\<not> (cs_pending_requests (tt_state self) \<noteq> [] \<and> tt_strict_lifecycle self) \<Longrightarrow> shutdown_begin now self =
      (self\<lparr>tt_state := (tt_state self)\<lparr>cs_pending_requests := [], cs_run := update_metadata
           (finalize_metadata (unix_time_ms now) (cs_pending_requests (tt_state self))) (tt_run self),
           cs_phase := PhaseFinalizing\<rparr>\<rparr>,
       ShutdownFinalizes (update_metadata
           (finalize_metadata (unix_time_ms now) (cs_pending_requests (tt_state self))) (tt_run self)))"
  using assms by (simp_all add: shutdown_begin_def Let_def)

lemma sys_inv_shutdown_begin:
  assumes inv: "sys_inv s" and ex: "exec sink (BeginShutdown now) s = Some s'"
  shows "sys_inv s'"
proof (cases "cs_phase (tt_state (sy_tt s))")
  case PhaseOpen
  show ?thesis
  proof (cases "cs_pending_requests (tt_state (sy_tt s)) \<noteq> [] \<and> tt_strict_lifecycle (sy_tt s)")
    case True
    then have "s' = s\<lparr>sy_tt := sy_tt s, sy_returns := sy_returns s @
        [Inl (UnfinishedRequestsError (length (cs_pending_requests (tt_state (sy_tt s)))))]\<rparr>"
      using ex PhaseOpen by (simp add: shutdown_begin_open)
    then show ?thesis by (simp add: sys_inv_frame [OF inv])
  next
    case False
    define run where "run = update_metadata (finalize_metadata (unix_time_ms now)
        (cs_pending_requests (tt_state (sy_tt s)))) (tt_run (sy_tt s))"
    have s': "s' = s\<lparr>sy_tt := (sy_tt s)\<lparr>tt_state := (tt_state (sy_tt s))
          \<lparr>cs_pending_requests := [], cs_run := run, cs_phase := PhaseFinalizing\<rparr>\<rparr>,
        sy_finalizers := sy_finalizers s @ [run]\<rparr>"
      using ex unfolding exec.simps shutdown_begin_open(2) [OF PhaseOpen False] run_def [symmetric]
      by simp
    have c: "collector_inv (sy_tt s)" and nil: "sy_finalizers s = []" "sy_written s = []"
      and calls: "length (sy_calls s) \<le> (if limits_hit (sy_tt s) then 1 else 0)"
      using inv PhaseOpen by (simp_all add: sys_inv_def phase_inv_def)
    have run: "run_truncation run = run_truncation (tt_run (sy_tt s))"
      "within_limits (tt_limits (sy_tt s)) run"
      using c by (simp_all add: run_def collector_inv_def within_limits_def)
    have "collector_inv (sy_tt s')"
      using c run by (simp add: s' run_def collector_inv_def drops_full_def)
    moreover have "phase_inv s'" by (simp add: s' phase_inv_def nil)
    ultimately show ?thesis using calls run by (simp add: sys_inv_def s')
  qed
next
  case PhaseFinalizing
  then show ?thesis using ex by (simp add: shutdown_begin_def)
next
  case (PhaseClosed t)
  then obtain r where "s' = s\<lparr>sy_tt := sy_tt s, sy_returns := sy_returns s @ [r]\<rparr>"
    using ex by (cases t) (auto simp: shutdown_begin_def)
  then show ?thesis by (simp add: sys_inv_frame [OF inv])
qed

text \<open>What finishing a shutdown changes, whatever the sink does.\<close>

lemma exec_finish_shutdownE:
  assumes "exec sink (FinishShutdown i) s = Some s'"
  obtains t w r where "i < length (sy_finalizers s)"
    and "s' = s\<lparr>sy_tt := (sy_tt s)\<lparr>tt_state := (tt_state (sy_tt s))\<lparr>cs_phase := PhaseClosed t\<rparr>\<rparr>, sy_world := w,
      sy_written := sy_written s @ [normalize_for_lifecycle (sy_finalizers s ! i)],
      sy_returns := sy_returns s @ [r], sy_finalizers := remove_nth i (sy_finalizers s)\<rparr>"
proof -
  have i: "i < length (sy_finalizers s)" using assms by (simp split: if_splits)
  obtain self w r where f: "shutdown_finish sink (sy_finalizers s ! i) (sy_world s) (sy_tt s) = (self, w, r)"
    by (metis prod_cases3)
  then obtain t where self: "self = (sy_tt s)\<lparr>tt_state := (tt_state (sy_tt s))\<lparr>cs_phase := PhaseClosed t\<rparr>\<rparr>"
    by (auto simp: shutdown_finish_def Let_def split: prod.splits)
  show ?thesis
    using assms i by (intro that [where t = t and w = w and r = r]) (simp_all add: shutdown_finish_logged f self)
qed

lemma sys_inv_shutdown_finish:
  assumes inv: "sys_inv s" and ex: "exec sink (FinishShutdown i) s = Some s'"
  shows "sys_inv s'"
proof -
  obtain t w r where i: "i < length (sy_finalizers s)"
    and s': "s' = s\<lparr>sy_tt := (sy_tt s)\<lparr>tt_state := (tt_state (sy_tt s))\<lparr>cs_phase := PhaseClosed t\<rparr>\<rparr>, sy_world := w,
      sy_written := sy_written s @ [normalize_for_lifecycle (sy_finalizers s ! i)],
      sy_returns := sy_returns s @ [r], sy_finalizers := remove_nth i (sy_finalizers s)\<rparr>"
    using ex by (rule exec_finish_shutdownE)
  have ph: "cs_phase (tt_state (sy_tt s)) = PhaseFinalizing"
    using inv i by (cases "cs_phase (tt_state (sy_tt s))") (simp_all add: sys_inv_def phase_inv_def)
  then have "sy_finalizers s = [tt_run (sy_tt s)]" "sy_written s = []" "i = 0"
    using inv i by (simp_all add: sys_inv_def phase_inv_def)
  then show ?thesis
    using inv ph by (auto simp: s' remove_nth_def sys_inv_def phase_inv_def collector_inv_def drops_full_def)
qed

lemma sys_inv_exec:
  assumes inv: "sys_inv s" and ex: "exec sink a s = Some s'"
  shows "sys_inv s'"
proof -
  have c: "collector_inv (sy_tt s)" using inv by (simp add: sys_inv_def)
  show ?thesis
  proof (cases a)
    case (BeginRequest now1 now2 route options)
    obtain started st res where b: "begin_request_with now1 now2 route options (sy_statics s) (sy_tt s) = (started, st, res)"
      by (metis prod_cases3)
    have res: "res = start_op (now1, now2, route, options, sy_statics s) (sy_tt s)"
      by (rule begin_request_with_start [OF b])
    have "sys_inv (apply_op res s)"
      unfolding res using start_op.ok [OF c] start_op.inert [of "sy_tt s"] by (intro apply_op_inv [OF inv]) simp_all
    then show ?thesis using ex BeginRequest b by (auto intro: sys_inv_frame)
  next
    case (FinishRequest i now outcome)
    have "sys_inv (apply_op (completion_finish now outcome (Some (sy_tokens s ! i)) (sy_tt s)) s)"
      by (intro apply_op_inv [OF inv]) (simp_all add: c completion_finish_ok)
    then show ?thesis using ex FinishRequest by (auto intro: sys_inv_frame split: if_splits)
  next
    case (DropCompletion i now)
    have "sys_inv (apply_op (completion_drop now (Some (sy_tokens s ! i)) (sy_tt s)) s)"
      unfolding completion_drop_def
      by (intro apply_op_inv [OF inv]) (simp_all add: c completion_finish_ok)
    then show ?thesis using ex DropCompletion by (auto intro: sys_inv_frame split: if_splits)
  next
    case (OpenInflight i now gauge)
    obtain guard res where h: "handle_inflight now gauge (sy_handles s ! i) (sy_tt s) = (guard, res)"
      by (rule prod.exhaust)
    have "sys_inv (apply_op res s)"
      unfolding handle_inflight_op [OF h]
      using inflight_op.ok [OF c] inflight_op.inert [of "sy_tt s"] op_ok_refl [OF c]
      by (intro apply_op_inv [OF inv]) simp_all
    then show ?thesis using ex OpenInflight h by (auto intro: sys_inv_frame split: if_splits)
  next
    case (DropGuard i now)
    have "sys_inv (apply_op (inflight_guard_drop now (sy_guards s ! i) (sy_tt s)) s)"
      using guard_drop_op.ok [OF c, of "(now, sy_guards s ! i)"]
        guard_drop_op.inert [of "sy_tt s" "(now, sy_guards s ! i)"]
      by (intro apply_op_inv [OF inv]) simp_all
    then show ?thesis using ex DropGuard by (auto intro: sys_inv_frame split: if_splits)
  next
    case (EndTimer i now ready)
    have "sys_inv (apply_op (timer_end (now, ready, sy_timers s ! i) (sy_tt s)) s)"
      using timer_op.ok [OF c] timer_op.inert [of "sy_tt s"] by (intro apply_op_inv [OF inv]) simp_all
    then show ?thesis using ex EndTimer by (auto intro: sys_inv_frame split: if_splits)
  next
    case (RecordRuntime now t)
    then show ?thesis
      using ex runtime_op.ok [OF c, of "(now, t)"] runtime_op.inert [of "sy_tt s" "(now, t)"]
      by (auto intro: apply_op_inv [OF inv])
  next
    case (RegisterSampler config)
    have "sys_inv (apply_op (snd (register_tokio_runtime_sampler config (sy_tt s)), []) s)"
      using register_op.ok [OF c, of config] register_op.inert [of "sy_tt s" config]
      by (intro apply_op_inv [OF inv]) simp_all
    then show ?thesis using ex RegisterSampler by (auto simp: apply_op_def)
  next
    case (SetEndReasonIfAbsent reason)
    have "sys_inv (apply_op (set_run_end_reason_if_absent reason (sy_tt s), []) s)"
      using end_reason_op.ok [OF c, of reason] end_reason_op.inert [of "sy_tt s" reason]
      by (intro apply_op_inv [OF inv]) simp_all
    then show ?thesis using ex SetEndReasonIfAbsent by (auto simp: apply_op_def)
  next
    case (SetListener l)
    then show ?thesis using ex sys_inv_listener [OF inv] by auto
  next
    case (BeginShutdown now)
    then show ?thesis using ex sys_inv_shutdown_begin [OF inv] by blast
  next
    case (FinishShutdown i)
    then show ?thesis using ex sys_inv_shutdown_finish [OF inv] by blast
  qed (use ex in \<open>auto intro: sys_inv_frame [OF inv] split: if_splits\<close>)
qed

lemma collector_inv_from_config:
  "from_config now gid host pid config = Inr self \<Longrightarrow>
     collector_inv self \<and> is_open self \<and> \<not> limits_hit self \<and> run_requests (tt_run self) = [] \<and>
     cs_pending_requests (tt_state self) = [] \<and>
     md_finalized_at_unix_ms (run_metadata (tt_run self)) = None \<and>
     md_unfinished_requests (run_metadata (tt_run self)) = unfinished_default"
  by (auto simp: from_config_def Let_def collector_inv_def collector_state_new_def run_new_def within_limits_def
      truncation_state_default_def truncation_default_def truncation_consistent_def drops_full_def
      split: if_splits option.splits)

lemma sys_inv_reachable: "reachable sink s \<Longrightarrow> sys_inv s"
proof (induction rule: reachable.induct)
  case (reach_init now gid host pid config self st w)
  then show ?case
    using collector_inv_from_config [OF reach_init] by (simp add: sys_inv_def sys_init_def phase_inv_def)
next
  case (reach_step s a s')
  then show ?case using sys_inv_exec by blast
qed

section \<open>Conservation of admitted requests\<close>

definition request_frame where
  "request_frame self = (cs_phase (tt_state self), run_requests (tt_run self),
     cs_pending_requests (tt_state self), md_unfinished_requests (run_metadata (tt_run self)))"

lemma release_request_frame:
  "cs_phase (tt_state (fst (release_after_push m d st self))) = cs_phase st"
  "run_requests (tt_run (fst (release_after_push m d st self))) = run_requests (cs_run st)"
  "cs_pending_requests (tt_state (fst (release_after_push m d st self))) = cs_pending_requests st"
  "md_unfinished_requests (run_metadata (tt_run (fst (release_after_push m d st self)))) =
     md_unfinished_requests (run_metadata (cs_run st))"
  by (simp_all add: release_after_push_def mark_run_limits_hit_def mark_limits_hit_def Let_def)

lemma request_frame_record:
  "request_frame (fst (record_stage_event e self)) = request_frame self"
  "request_frame (fst (record_queue_event q self)) = request_frame self"
  "request_frame (fst (record_runtime_snapshot now t self)) = request_frame self"
  using push_requests_frame push_metadata
  by (auto simp: record_stage_event_def record_queue_event_def record_runtime_snapshot_def Let_def
      release_request_frame request_frame_def push_bounded_defs split: prod.splits if_splits)

lemma request_frame_timer: "request_frame (fst (timer_end i self)) = request_frame self"
proof -
  obtain now ready armed where i: "i = (now, ready, armed)" by (metis prod_cases3)
  show ?thesis
    by (cases armed; cases ready) (simp_all add: i timer_end_def Let_def request_frame_record)
qed

lemma request_frame_inflight: "request_frame (fst (inflight_op i self)) = request_frame self"
proof -
  obtain now g where i: "i = (now, g)" by (rule prod.exhaust)
  show ?thesis
    by (auto simp: i inflight_op_def inflight_def Let_def release_request_frame request_frame_def
        push_inflight_snapshot_bounded_def split: prod.splits if_splits)
qed

lemma request_frame_guard: "request_frame (fst (inflight_guard_drop now g self)) = request_frame self"
  by (auto simp: inflight_guard_drop_def Let_def release_request_frame request_frame_def
      push_inflight_snapshot_bounded_def split: prod.splits if_splits option.splits)

lemma request_frame_config:
  "request_frame (snd (register_tokio_runtime_sampler config self)) = request_frame self"
  "request_frame (set_run_end_reason_if_absent reason self) = request_frame self"
  "request_frame (set_limits_hit_listener l self) = request_frame self"
  by (simp_all add: register_tokio_runtime_sampler_def set_run_end_reason_if_absent_def
      set_limits_hit_listener_def request_frame_def)

lemma begin_request_admitted:
  assumes "is_open self" and "length (run_requests (tt_run self)) + length (cs_pending_requests (tt_state self))
      < max_requests (tt_limits self)"
  obtains h start pending st' where "begin_request_with now1 now2 route options st self =
      (\<lparr>sr_handle = h, sr_completion = Some \<lparr>ac_pending_key = PENDING_SEQUENCE st, ac_interval_start = start\<rparr>\<rparr>,
       st', self\<lparr>tt_state := (tt_state self)\<lparr>cs_pending_requests :=
         bt_insert (PENDING_SEQUENCE st) pending (cs_pending_requests (tt_state self))\<rparr>\<rparr>, [])"
    and "PENDING_SEQUENCE st' = PENDING_SEQUENCE st + 1"
  using assms
  by (cases "opt_request_id options")
    (auto simp: begin_request_with_def start_request_def generate_request_id_def Let_def)

lemma begin_request_refused:
  assumes "\<not> (is_open self \<and> length (run_requests (tt_run self)) + length (cs_pending_requests (tt_state self))
      < max_requests (tt_limits self))"
  obtains h st' res where "begin_request_with now1 now2 route options st self =
      (\<lparr>sr_handle = h, sr_completion = None\<rparr>, st', res)"
    and "PENDING_SEQUENCE st' = PENDING_SEQUENCE st + 1" and "request_frame (fst res) = request_frame self"
    and "\<not> rh_admitted h"
proof -
  obtain started st' res where b: "begin_request_with now1 now2 route options st self = (started, st', res)"
    by (metis prod_cases3)
  have "sr_completion started = None \<and> PENDING_SEQUENCE st' = PENDING_SEQUENCE st + 1 \<and>
      request_frame (fst res) = request_frame self \<and> \<not> rh_admitted (sr_handle started)"
    using b assms
    by (cases "opt_request_id options")
      (auto simp: begin_request_with_def start_request_def generate_request_id_def Let_def request_frame_def
        release_after_push_def mark_run_limits_hit_def mark_limits_hit_def split: if_splits)
  then show ?thesis using that [of "sr_handle started" st' res] b by (cases started) auto
qed

definition conserved :: "('c, 'l, 'w) sys \<Rightarrow> bool" where
  "conserved s \<longleftrightarrow> PENDING_SEQUENCE (sy_statics s) = of_nat (sy_sequence s) \<and>
     (sy_sequence s \<le> u64_max \<longrightarrow>
        distinct (map ac_pending_key (sy_tokens s)) \<and>
        (\<forall>a\<in>set (sy_tokens s). unat (ac_pending_key a) < sy_sequence s) \<and>
        sy_admitted s \<le> sy_sequence s \<and>
        (if is_open (sy_tt s)
         then ac_pending_key ` set (sy_tokens s) = fst ` set (cs_pending_requests (tt_state (sy_tt s))) \<and>
           sy_admitted s = length (run_requests (tt_run (sy_tt s))) + length (cs_pending_requests (tt_state (sy_tt s)))
         else sy_admitted s = length (run_requests (tt_run (sy_tt s)))
           + unat (uf_count (md_unfinished_requests (run_metadata (tt_run (sy_tt s)))))))"

lemma conserved_frame:
  assumes "conserved s" and "request_frame (sy_tt s') = request_frame (sy_tt s)"
    and "sy_tokens s' = sy_tokens s" and "sy_admitted s' = sy_admitted s"
    and "PENDING_SEQUENCE (sy_statics s') = PENDING_SEQUENCE (sy_statics s) \<and> sy_sequence s' = sy_sequence s \<or>
         PENDING_SEQUENCE (sy_statics s') = PENDING_SEQUENCE (sy_statics s) + 1 \<and> sy_sequence s' = Suc (sy_sequence s)"
  shows "conserved s'"
  using assms(5)
proof
  assume "PENDING_SEQUENCE (sy_statics s') = PENDING_SEQUENCE (sy_statics s) \<and> sy_sequence s' = sy_sequence s"
  then show ?thesis using assms(1-4) by (simp add: conserved_def request_frame_def)
next
  assume "PENDING_SEQUENCE (sy_statics s') = PENDING_SEQUENCE (sy_statics s) + 1 \<and> sy_sequence s' = Suc (sy_sequence s)"
  then show ?thesis using assms(1-4) by (auto simp: conserved_def request_frame_def less_SucI split: if_splits)
qed

lemma remove_nth_set:
  assumes "distinct (map f xs)" and "i < length xs"
  shows "f ` set (remove_nth i xs) = f ` set xs - {f (xs ! i)}" and "distinct (map f (remove_nth i xs))"
    and "set (remove_nth i xs) \<subseteq> set xs"
proof -
  have xs: "xs = take i xs @ xs ! i # drop (Suc i) xs" using assms(2) by (rule id_take_nth_drop)
  have d: "distinct (map f (take i xs @ xs ! i # drop (Suc i) xs))" using assms(1) xs by simp
  let ?S = "f ` set (take i xs) \<union> f ` set (drop (Suc i) xs)"
  have n: "f (xs ! i) \<notin> ?S" using d by simp
  have "f ` set xs = insert (f (xs ! i)) ?S"
    using arg_cong [OF xs, of "\<lambda>l. f ` set l"] by (simp add: image_Un)
  then show "f ` set (remove_nth i xs) = f ` set xs - {f (xs ! i)}"
    using Diff_insert_absorb [OF n] by (simp add: remove_nth_def image_Un)
  show "distinct (map f (remove_nth i xs))"
    using d by (simp add: remove_nth_def)
  show "set (remove_nth i xs) \<subseteq> set xs"
    by (auto simp: remove_nth_def dest: in_set_takeD in_set_dropD)
qed

lemma bt_remove_keys: "bt_wf m \<Longrightarrow> fst ` set (bt_remove k m) = fst ` set m - {k}"
proof (induction k m rule: bt_remove.induct)
  case (2 k k' v m)
  then show ?case by (auto simp: bt_wf_Cons)
qed simp

lemma conserved_finish:
  assumes con: "conserved s" and inv: "collector_inv (sy_tt s)" and i: "i < length (sy_tokens s)"
  shows "conserved ((apply_op (completion_finish now outcome (Some (sy_tokens s ! i)) (sy_tt s)) s)
           \<lparr>sy_tokens := remove_nth i (sy_tokens s)\<rparr>)"
proof (cases "is_open (sy_tt s)")
  case False
  have "sy_sequence s \<le> u64_max \<Longrightarrow> distinct (map ac_pending_key (sy_tokens s))"
    using con by (simp add: conserved_def)
  then show ?thesis
    using con False remove_nth_set [of ac_pending_key "sy_tokens s" i] i
    by (auto simp: conserved_def completion_finish_ok(2) apply_op_def)
next
  case True
  show ?thesis
  proof (cases "sy_sequence s \<le> u64_max")
    case False
    then show ?thesis using con by (simp add: conserved_def apply_op_def)
  next
    case le: True
    let ?a = "sy_tokens s ! i" and ?p = "cs_pending_requests (tt_state (sy_tt s))"
    have d: "distinct (map ac_pending_key (sy_tokens s))"
      and keys: "ac_pending_key ` set (sy_tokens s) = fst ` set ?p"
      using con le True by (simp_all add: conserved_def)
    have "ac_pending_key ?a \<in> fst ` set ?p" using i keys by (metis image_eqI nth_mem)
    then obtain pending where p: "bt_lookup ?p (ac_pending_key ?a) = Some pending"
      by (metis bt_lookup_def map_of_eq_None_iff option.exhaust)
    have wf: "bt_wf ?p" using inv by (simp add: collector_inv_def)
    have "0 < length ?p" using p by auto
    then show ?thesis
      using con le True remove_nth_set [OF d i] keys
      by (auto simp: conserved_def apply_op_def completion_finish_def resolve_request_open [OF inv True p]
          bt_remove_keys [OF wf] bt_length_remove p)
  qed
qed

lemma bt_insert_keys: "fst ` set (bt_insert k v m) = insert k (fst ` set m)"
  by (simp add: bt_insert_def bt_entry_keys)

lemma conserved_begin:
  assumes con: "conserved s" and inv: "collector_inv (sy_tt s)"
    and ex: "exec sink (BeginRequest now1 now2 route options) s = Some s'"
  shows "conserved s'"
proof (cases "is_open (sy_tt s) \<and> length (run_requests (tt_run (sy_tt s))) +
    length (cs_pending_requests (tt_state (sy_tt s))) < max_requests (tt_limits (sy_tt s))")
  case False
  obtain h st' res where b: "begin_request_with now1 now2 route options (sy_statics s) (sy_tt s) =
      (\<lparr>sr_handle = h, sr_completion = None\<rparr>, st', res)"
    and st': "PENDING_SEQUENCE st' = PENDING_SEQUENCE (sy_statics s) + 1"
    and fr: "request_frame (fst res) = request_frame (sy_tt s)"
    using begin_request_refused [OF False] by blast
  show ?thesis
    using ex b st' fr by (intro conserved_frame [OF con]) (auto simp: apply_op_def)
next
  case True
  let ?k = "PENDING_SEQUENCE (sy_statics s)" and ?p = "cs_pending_requests (tt_state (sy_tt s))"
  obtain h start pending st' where b: "begin_request_with now1 now2 route options (sy_statics s) (sy_tt s) =
      (\<lparr>sr_handle = h, sr_completion = Some \<lparr>ac_pending_key = ?k, ac_interval_start = start\<rparr>\<rparr>, st',
       (sy_tt s)\<lparr>tt_state := (tt_state (sy_tt s))\<lparr>cs_pending_requests := bt_insert ?k pending ?p\<rparr>\<rparr>, [])"
    and st': "PENDING_SEQUENCE st' = ?k + 1"
    using True begin_request_admitted [of "sy_tt s"] by metis
  have k: "?k = of_nat (sy_sequence s)" using con by (simp add: conserved_def)
  have wf: "bt_wf ?p" using inv by (simp add: collector_inv_def)
  show ?thesis
  proof (cases "Suc (sy_sequence s) \<le> u64_max")
    case False
    then show ?thesis using ex b st' k by (auto simp: conserved_def)
  next
    case le: True
    then have u: "unat ?k = sy_sequence s" unfolding k by (simp add: unat_of_nat)
    have tok: "distinct (map ac_pending_key (sy_tokens s))"
      "\<forall>a\<in>set (sy_tokens s). unat (ac_pending_key a) < sy_sequence s"
      "ac_pending_key ` set (sy_tokens s) = fst ` set ?p"
      "sy_admitted s = length (run_requests (tt_run (sy_tt s))) + length ?p" "sy_admitted s \<le> sy_sequence s"
      using con le True by (simp_all add: conserved_def)
    have new: "?k \<notin> ac_pending_key ` set (sy_tokens s)" using tok(2) u by fastforce
    then have "bt_lookup ?p ?k = None" using tok(3) by (simp add: bt_lookup_def map_of_eq_None_iff)
    then have p: "length (bt_insert ?k pending ?p) = Suc (length ?p)"
      "fst ` set (bt_insert ?k pending ?p) = insert ?k (fst ` set ?p)"
      using wf by (simp_all add: bt_insert_length bt_insert_keys)
    have s': "sy_tokens s' = sy_tokens s @ [\<lparr>ac_pending_key = ?k, ac_interval_start = start\<rparr>]"
      "sy_admitted s' = Suc (sy_admitted s)" "sy_sequence s' = Suc (sy_sequence s)"
      "PENDING_SEQUENCE (sy_statics s') = ?k + 1" "is_open (sy_tt s')"
      "tt_run (sy_tt s') = tt_run (sy_tt s)"
      "cs_pending_requests (tt_state (sy_tt s')) = bt_insert ?k pending ?p"
      using ex b st' True by (auto simp: apply_op_def)
    show ?thesis
      unfolding conserved_def s' if_True simp_thms
      using k tok new u p by (simp add: less_SucI)
  qed
qed

lemma conserved_shutdown_begin:
  assumes con: "conserved s" and sys: "sys_inv s" and ex: "exec sink (BeginShutdown now) s = Some s'"
  shows "conserved s'"
proof (cases "cs_phase (tt_state (sy_tt s))")
  case PhaseOpen
  show ?thesis
  proof (cases "cs_pending_requests (tt_state (sy_tt s)) \<noteq> [] \<and> tt_strict_lifecycle (sy_tt s)")
    case True
    then show ?thesis
      using ex PhaseOpen by (intro conserved_frame [OF con]) (auto simp: shutdown_begin_open)
  next
    case False
    let ?p = "cs_pending_requests (tt_state (sy_tt s))"
    have s': "sy_tokens s' = sy_tokens s" "sy_admitted s' = sy_admitted s" "sy_sequence s' = sy_sequence s"
      "sy_statics s' = sy_statics s" "\<not> is_open (sy_tt s')"
      "run_requests (tt_run (sy_tt s')) = run_requests (tt_run (sy_tt s))"
      "md_unfinished_requests (run_metadata (tt_run (sy_tt s'))) =
        (if ?p = [] then unfinished_default else \<lparr>uf_count = of_nat (length ?p), uf_sample = pending_sample ?p\<rparr>)"
      using ex sys PhaseOpen unfolding exec.simps shutdown_begin_open(2) [OF PhaseOpen False]
      by (auto simp: finalize_metadata_sel sys_inv_def phase_inv_def)
    have "length ?p \<le> u64_max \<Longrightarrow> unat (of_nat (length ?p) :: u64) = length ?p"
      by (simp add: unat_of_nat)
    then show ?thesis
      using con PhaseOpen s'(5) unfolding conserved_def s' by (auto simp: unfinished_default_def)
  qed
next
  case PhaseFinalizing
  then show ?thesis using ex by (simp add: shutdown_begin_def)
next
  case (PhaseClosed t)
  then show ?thesis
    using ex by (cases t) (auto simp: shutdown_begin_def intro!: conserved_frame [OF con])
qed

lemma conserved_shutdown_finish:
  assumes con: "conserved s" and sys: "sys_inv s" and ex: "exec sink (FinishShutdown i) s = Some s'"
  shows "conserved s'"
proof -
  have s': "i < length (sy_finalizers s)" "sy_tokens s' = sy_tokens s" "sy_admitted s' = sy_admitted s"
      "sy_sequence s' = sy_sequence s" "sy_statics s' = sy_statics s" "\<not> is_open (sy_tt s')"
      "tt_run (sy_tt s') = tt_run (sy_tt s)"
    using ex by (auto elim: exec_finish_shutdownE simp del: exec.simps)
  then have ph: "\<not> is_open (sy_tt s)"
    using sys by (auto simp: sys_inv_def phase_inv_def)
  show ?thesis using con ph s'(6) unfolding conserved_def s' by auto
qed

lemma conserved_exec:
  assumes con: "conserved s" and sys: "sys_inv s" and ex: "exec sink a s = Some s'"
  shows "conserved s'"
proof -
  have inv: "collector_inv (sy_tt s)" using sys by (simp add: sys_inv_def)
  show ?thesis
  proof (cases a)
    case (BeginRequest now1 now2 route options)
    then show ?thesis using conserved_begin [OF con inv] ex by blast
  next
    case (FinishRequest i now outcome)
    then show ?thesis using conserved_finish [OF con inv] ex by (auto split: if_splits)
  next
    case (DropCompletion i now)
    then show ?thesis
      using conserved_finish [OF con inv] ex by (auto simp: completion_drop_def split: if_splits)
  next
    case (OpenInflight i now gauge)
    obtain guard res where h: "handle_inflight now gauge (sy_handles s ! i) (sy_tt s) = (guard, res)"
      by (rule prod.exhaust)
    have "request_frame (fst res) = request_frame (sy_tt s)"
      unfolding handle_inflight_op [OF h] by (simp add: request_frame_inflight)
    then show ?thesis
      using ex OpenInflight h by (intro conserved_frame [OF con]) (auto simp: apply_op_def split: if_splits)
  next
    case (BeginShutdown now)
    then show ?thesis using conserved_shutdown_begin [OF con sys] ex by blast
  next
    case (FinishShutdown i)
    then show ?thesis using conserved_shutdown_finish [OF con sys] ex by blast
  qed (use ex in \<open>auto intro!: conserved_frame [OF con]
      simp: apply_op_def request_frame_record request_frame_timer request_frame_guard request_frame_config
      split: if_splits\<close>)
qed

lemma conserved_reachable: "reachable sink s \<Longrightarrow> conserved s"
proof (induction rule: reachable.induct)
  case (reach_init now gid host pid config self st w)
  then show ?case
    using collector_inv_from_config [OF reach_init] by (simp add: conserved_def sys_init_def)
next
  case (reach_step s a s')
  then show ?case using conserved_exec sys_inv_reachable by blast
qed

lemma exec_closed_frame:
  assumes "exec sink a s = Some s'" and "sys_inv s" and "\<not> is_open (sy_tt s)"
  shows "tt_run (sy_tt s') = tt_run (sy_tt s) \<and> \<not> is_open (sy_tt s') \<and> sy_calls s' = sy_calls s \<and>
    (case cs_phase (tt_state (sy_tt s)) of PhaseClosed t \<Rightarrow> cs_phase (tt_state (sy_tt s')) = PhaseClosed t \<and>
       sy_world s' = sy_world s | _ \<Rightarrow> True)"
proof (cases a)
  case (BeginRequest now1 now2 route options)
  obtain started st res where b: "begin_request_with now1 now2 route options (sy_statics s) (sy_tt s) = (started, st, res)"
    by (metis prod_cases3)
  have "res = (sy_tt s, [])"
    using begin_request_with_start [OF b] start_op.inert [OF assms(3)] by simp
  then show ?thesis using assms BeginRequest b
    by (auto simp: apply_op_def split: CollectorPhase.split)
next
  case (OpenInflight i now gauge)
  obtain guard res where h: "handle_inflight now gauge (sy_handles s ! i) (sy_tt s) = (guard, res)"
    by (rule prod.exhaust)
  have "res = (sy_tt s, [])"
    using handle_inflight_op [OF h] inflight_op.inert [OF assms(3)] by simp
  then show ?thesis using assms OpenInflight h
    by (auto simp: apply_op_def split: if_splits CollectorPhase.split)
next
  case (BeginShutdown now)
  then show ?thesis using assms
    by (cases "cs_phase (tt_state (sy_tt s))")
      (auto simp: shutdown_begin_def split: TerminalShutdown.splits)
next
  case (FinishShutdown i)
  then have i: "i < length (sy_finalizers s)" using assms(1) by (simp split: if_splits)
  then have "cs_phase (tt_state (sy_tt s)) = PhaseFinalizing"
    using assms(2,3) by (cases "cs_phase (tt_state (sy_tt s))") (simp_all add: sys_inv_def phase_inv_def)
  moreover have "tt_run (sy_tt s') = tt_run (sy_tt s)" "\<not> is_open (sy_tt s')" "sy_calls s' = sy_calls s"
    using assms(1) unfolding FinishShutdown by (auto elim: exec_finish_shutdownE simp del: exec.simps)
  ultimately show ?thesis by simp
qed (use assms runtime_op.inert [OF assms(3)] guard_drop_op.inert [OF assms(3)] register_op.inert [OF assms(3)]
      end_reason_op.inert [OF assms(3)] timer_op.inert [OF assms(3)] in
    \<open>auto simp: apply_op_def completion_finish_ok completion_drop_def set_limits_hit_listener_def
      split: if_splits CollectorPhase.split\<close>)

section \<open>Sample execution\<close>

definition sample_config :: "unit Config" where
  "sample_config = config_from_builder (builder_sink () (builder_new ''svc''))"

definition sample_now :: clock_reading where
  "sample_now = \<lparr>rd_system_ns = 0, rd_instant_ns = 0\<rparr>"

definition sample_sink :: "unit dyn_sink \<Rightarrow> unit \<Rightarrow> Run \<Rightarrow> unit \<times> (SinkError + unit)" where
  "sample_sink s = discard_write"

definition sample_collector :: "(unit, nat) Tailtriage" where
  "sample_collector = (case from_config sample_now ''run-1'' None 1 sample_config of Inr t \<Rightarrow> t)"

definition sample_start :: "(unit, nat, unit) sys" where
  "sample_start = sys_init \<lparr>REQUEST_SEQUENCE = 0, PENDING_SEQUENCE = 0\<rparr> () sample_collector"

lemma sample_from_config: "from_config sample_now ''run-1'' None 1 sample_config = Inr sample_collector"
proof -
  have "\<not> is_blank ''svc''"
    by (simp add: is_blank_iff is_whitespace_def white_space_chars_def utf8_cont_def)
  then show ?thesis
    by (simp add: sample_collector_def from_config_def sample_config_def config_from_builder_def
        builder_sink_def builder_new_def Let_def)
qed

lemma reachable_sample_start: "reachable sample_sink sample_start"
  unfolding sample_start_def by (rule reach_init [OF sample_from_config])

text \<open>A request is started and never finished; shutdown finalizes and writes.\<close>

definition sample_open :: "(unit, nat, unit) sys" where
  "sample_open = the (exec sample_sink (BeginRequest sample_now sample_now ''/a''
     (request_options_request_id ''r1'' request_options_new)) sample_start)"

definition sample_finalizing :: "(unit, nat, unit) sys" where
  "sample_finalizing = the (exec sample_sink (BeginShutdown sample_now) sample_open)"

definition sample_closed :: "(unit, nat, unit) sys" where
  "sample_closed = the (exec sample_sink (FinishShutdown 0) sample_finalizing)"

lemma sample_open_step: "exec sample_sink (BeginRequest sample_now sample_now ''/a''
     (request_options_request_id ''r1'' request_options_new)) sample_start = Some sample_open"
  by (simp add: sample_open_def split: prod.split)

lemma reachable_sample_open: "reachable sample_sink sample_open"
  by (rule reach_step [OF reachable_sample_start sample_open_step])

lemma sample_start_state:
  "is_open (sy_tt sample_start)" "\<not> tt_strict_lifecycle (sy_tt sample_start)"
  "cs_pending_requests (tt_state (sy_tt sample_start)) = []" "run_requests (tt_run (sy_tt sample_start)) = []"
  "tt_limits (sy_tt sample_start) = core_defaults Light" "sy_finalizers sample_start = []"
  "PENDING_SEQUENCE (sy_statics sample_start) = 0" "sy_sequence sample_start = 0"
proof -
  have "\<not> is_blank ''svc''"
    by (simp add: is_blank_iff is_whitespace_def white_space_chars_def utf8_cont_def)
  then show "is_open (sy_tt sample_start)" "\<not> tt_strict_lifecycle (sy_tt sample_start)"
    "cs_pending_requests (tt_state (sy_tt sample_start)) = []" "run_requests (tt_run (sy_tt sample_start)) = []"
    "tt_limits (sy_tt sample_start) = core_defaults Light" "sy_finalizers sample_start = []"
    "PENDING_SEQUENCE (sy_statics sample_start) = 0" "sy_sequence sample_start = 0"
    by (simp_all add: sample_start_def sys_init_def sample_collector_def from_config_def sample_config_def
        config_from_builder_def builder_sink_def builder_new_def Let_def collector_state_new_def run_new_def
        override_default_apply)
qed

lemma sample_open_state:
  "is_open (sy_tt sample_open)" "\<not> tt_strict_lifecycle (sy_tt sample_open)"
  "length (cs_pending_requests (tt_state (sy_tt sample_open))) = 1" "sy_finalizers sample_open = []"
  "sy_sequence sample_open = 1"
  using sample_start_state unfolding sample_open_def
  by (simp_all add: begin_request_with_def start_request_def Let_def request_options_request_id_def
      request_options_new_def apply_op_def bt_insert_def)

lemma sample_finalizing_step: "exec sample_sink (BeginShutdown sample_now) sample_open = Some sample_finalizing"
  using sample_open_state(1,2) by (simp add: sample_finalizing_def shutdown_begin_open)

lemma reachable_sample_finalizing: "reachable sample_sink sample_finalizing"
  by (rule reach_step [OF reachable_sample_open sample_finalizing_step])

lemma sample_finalizing_state: "length (sy_finalizers sample_finalizing) = 1"
  "cs_phase (tt_state (sy_tt sample_finalizing)) = PhaseFinalizing" "sy_sequence sample_finalizing = 1"
  using sample_open_state unfolding sample_finalizing_def by (simp_all add: shutdown_begin_open)

lemma sample_closed_step: "exec sample_sink (FinishShutdown 0) sample_finalizing = Some sample_closed"
  using sample_finalizing_state by (simp add: sample_closed_def split: prod.split)

lemma reachable_sample_closed: "reachable sample_sink sample_closed"
  by (rule reach_step [OF reachable_sample_finalizing sample_closed_step])

section \<open>Properties\<close>

text \<open>
  C4. In every state a capture can reach, under any interleaving of threads: no section exceeds
  its capacity; while capture is open, completed and pending requests together stay within
  \<open>max_requests\<close> (so a completion never finds its section full); and the distinct live gauges are
  bounded. The truncation flag is exact: it is set if and only if one of the five drop counters
  is positive, and a counter is only positive once its section is full (for requests, while
  capture is open, counting the places held by pending ones).
\<close>

theorem live_run_bounded:
  assumes "reachable sink s"
  defines "run \<equiv> tailtriage_snapshot (sy_tt s)"
  defines "t \<equiv> run_truncation run" and "limits \<equiv> tt_limits (sy_tt s)"
    and "pending \<equiv> length (cs_pending_requests (tt_state (sy_tt s)))"
  shows "within_limits limits run \<and>
    (is_open (sy_tt s) \<longrightarrow> length (run_requests run) + pending \<le> max_requests limits) \<and>
    length (cs_inflight_counts (tt_state (sy_tt s))) \<le> max_inflight_snapshots limits \<and>
    (tr_limits_hit t \<longleftrightarrow> tr_dropped_requests t > 0 \<or> tr_dropped_stages t > 0 \<or> tr_dropped_queues t > 0 \<or>
       tr_dropped_inflight_snapshots t > 0 \<or> tr_dropped_runtime_snapshots t > 0) \<and>
    (is_open (sy_tt s) \<and> tr_dropped_requests t > 0 \<longrightarrow> length (run_requests run) + pending = max_requests limits) \<and>
    (tr_dropped_stages t > 0 \<longrightarrow> length (run_stages run) = max_stages limits) \<and>
    (tr_dropped_queues t > 0 \<longrightarrow> length (run_queues run) = max_queues limits) \<and>
    (tr_dropped_inflight_snapshots t > 0 \<longrightarrow> length (run_inflight run) = max_inflight_snapshots limits) \<and>
    (tr_dropped_runtime_snapshots t > 0 \<longrightarrow> length (run_runtime_snapshots run) = max_runtime_snapshots limits)"
proof -
  have "collector_inv (sy_tt s)"
    using sys_inv_reachable [OF assms(1)] by (simp add: sys_inv_def)
  then show ?thesis
    unfolding collector_inv_def drops_full_def truncation_consistent_def within_limits_def
      t_def run_def limits_def pending_def tailtriage_snapshot_def
    by (simp add: order_antisym)
qed

theorem live_run_bounded_witness:
  "within_limits (tt_limits (sy_tt sample_open)) (tailtriage_snapshot (sy_tt sample_open)) \<and>
    Suc (length (run_requests (tailtriage_snapshot (sy_tt sample_open)))) \<le> max_requests (tt_limits (sy_tt sample_open))"
  using live_run_bounded [OF reachable_sample_open] sample_open_state(1,3) by simp

text \<open>
  C2. The sink is written at most once per capture, whatever threads call \<^verbatim>\<open>shutdown\<close> and
  however often: nothing before the run is closed, and then exactly the normalized form of the
  run that the collector froze. What is written is canonical and within the limits.
\<close>

theorem sink_written_once:
  assumes "reachable sink s"
  shows "sy_written s =
      (case cs_phase (tt_state (sy_tt s)) of
         PhaseClosed _ \<Rightarrow> [normalize_for_lifecycle (tailtriage_snapshot (sy_tt s))]
       | _ \<Rightarrow> []) \<and>
    list_all (\<lambda>run. canonical_run run = run \<and> within_limits (tt_limits (sy_tt s)) run) (sy_written s)"
proof -
  have inv: "sys_inv s" by (rule sys_inv_reachable [OF assms])
  then show ?thesis
    by (cases "cs_phase (tt_state (sy_tt s))")
      (simp_all add: sys_inv_def phase_inv_def tailtriage_snapshot_def normalize_for_lifecycle_canonical
        within_limits_lifecycle collector_inv_def)
qed

lemma sink_written_once_witness:
  "sy_written sample_closed =
      (case cs_phase (tt_state (sy_tt sample_closed)) of
         PhaseClosed _ \<Rightarrow> [normalize_for_lifecycle (tailtriage_snapshot (sy_tt sample_closed))]
       | _ \<Rightarrow> []) \<and>
    list_all (\<lambda>run. canonical_run run = run \<and> within_limits (tt_limits (sy_tt sample_closed)) run)
      (sy_written sample_closed)"
  by (rule sink_written_once [OF reachable_sample_closed])

text \<open>
  C5. Finalization freezes the run: once a shutdown has begun to finalize, no step of any thread
  changes the run or reopens it, late completions, guards, timers and samples are inert, and no
  listener is called. Once closed, the terminal result is final and the sink's world is never
  touched again.
\<close>

theorem finalized_run_frozen:
  assumes "reachable sink s" and "\<not> is_open (sy_tt s)" and "exec sink a s = Some s'"
  shows "tailtriage_snapshot (sy_tt s') = tailtriage_snapshot (sy_tt s) \<and> \<not> is_open (sy_tt s') \<and>
    sy_calls s' = sy_calls s \<and>
    (case cs_phase (tt_state (sy_tt s)) of
       PhaseClosed t \<Rightarrow> cs_phase (tt_state (sy_tt s')) = PhaseClosed t \<and> sy_world s' = sy_world s
     | _ \<Rightarrow> True)"
  using exec_closed_frame [OF assms(3) sys_inv_reachable [OF assms(1)] assms(2)]
  by (simp add: tailtriage_snapshot_def)

lemma finalized_run_frozen_witness:
  "tailtriage_snapshot (sy_tt sample_closed) = tailtriage_snapshot (sy_tt sample_finalizing) \<and>
    \<not> is_open (sy_tt sample_closed) \<and> sy_calls sample_closed = sy_calls sample_finalizing \<and>
    (case cs_phase (tt_state (sy_tt sample_finalizing)) of
       PhaseClosed t \<Rightarrow> cs_phase (tt_state (sy_tt sample_closed)) = PhaseClosed t \<and>
         sy_world sample_closed = sy_world sample_finalizing
     | _ \<Rightarrow> True)"
  by (rule finalized_run_frozen [OF reachable_sample_finalizing _ sample_closed_step])
    (simp add: sample_finalizing_state)

text \<open>
  C3. No admitted request is lost or counted twice: while capture is open every admitted request
  is either pending, with exactly one outstanding completion token, or retained as completed; at
  shutdown the pending ones become the unfinished count and nothing else (the process-wide
  sequence number is assumed not to have wrapped around \<open>2^64\<close>).
\<close>

theorem admitted_requests_conserved:
  assumes "reachable sink s" and "sy_sequence s \<le> u64_max"
  shows "sy_admitted s =
      length (run_requests (tailtriage_snapshot (sy_tt s))) +
      (if is_open (sy_tt s) then length (cs_pending_requests (tt_state (sy_tt s)))
       else unat (uf_count (md_unfinished_requests (run_metadata (tailtriage_snapshot (sy_tt s)))))) \<and>
    distinct (map ac_pending_key (sy_tokens s)) \<and>
    (if is_open (sy_tt s)
     then ac_pending_key ` set (sy_tokens s) = fst ` set (cs_pending_requests (tt_state (sy_tt s))) else True)"
  using conserved_reachable [OF assms(1)] assms(2)
  by (auto simp: conserved_def tailtriage_snapshot_def split: if_splits)

lemma admitted_requests_conserved_witness:
  "sy_admitted sample_open =
      length (run_requests (tailtriage_snapshot (sy_tt sample_open))) +
      (if is_open (sy_tt sample_open) then length (cs_pending_requests (tt_state (sy_tt sample_open)))
       else unat (uf_count (md_unfinished_requests (run_metadata (tailtriage_snapshot (sy_tt sample_open)))))) \<and>
    distinct (map ac_pending_key (sy_tokens sample_open)) \<and>
    (if is_open (sy_tt sample_open)
     then ac_pending_key ` set (sy_tokens sample_open) = fst ` set (cs_pending_requests (tt_state (sy_tt sample_open))) else True)"
  by (rule admitted_requests_conserved [OF reachable_sample_open]) (simp add: sample_open_state)

text \<open>
  The limits-hit listener is called at most once in the life of a capture, and only when a
  limit was hit: over any sequence of recorded stage events the calls are exactly the listener's
  one call if the sequence made the first transition, and none otherwise.
\<close>

theorem listener_called_once:
  assumes "reachable sink s"
  shows "length (sy_calls s) \<le> (if tr_limits_hit (run_truncation (tailtriage_snapshot (sy_tt s))) then 1 else 0) \<and>
    (let res = foldl (\<lambda>(self, calls) e. let (self', cs) = record_stage_event e self in (self', calls @ cs))
                 (sy_tt s, []) es
     in snd res =
       (if \<not> limits_hit (sy_tt s) \<and> limits_hit (fst res) then notify_limits_hit_listener (sy_tt s) else []))"
proof -
  have inv: "sys_inv s" by (rule sys_inv_reachable [OF assms])
  then have "op_ok (sy_tt s) (stage_op.run_ops es (sy_tt s))"
    by (intro stage_op.run_ops_ok) (simp add: sys_inv_def)
  then show ?thesis
    using inv by (simp add: op_ok_def stage_op.run_ops_def sys_inv_def tailtriage_snapshot_def Let_def)
qed

lemma listener_called_once_witness:
  "length (sy_calls sample_open) \<le> (if tr_limits_hit (run_truncation (tailtriage_snapshot (sy_tt sample_open))) then 1 else 0) \<and>
    (let res = foldl (\<lambda>(self, calls) e. let (self', cs) = record_stage_event e self in (self', calls @ cs))
                 (sy_tt sample_open, []) []
     in snd res =
       (if \<not> limits_hit (sy_tt sample_open) \<and> limits_hit (fst res)
        then notify_limits_hit_listener (sy_tt sample_open) else []))"
  by (rule listener_called_once [OF reachable_sample_open])

definition shutdown_steps :: "('c, 'l, 'w) sys \<Rightarrow> clock_reading \<Rightarrow> 'l action list" where
  "shutdown_steps s now = (case cs_phase (tt_state (sy_tt s)) of
     PhaseOpen \<Rightarrow> [BeginShutdown now, FinishShutdown 0]
   | PhaseFinalizing \<Rightarrow> [FinishShutdown 0]
   | PhaseClosed _ \<Rightarrow> [BeginShutdown now])"

lemma exec_begin_shutdown_open:
  assumes "sys_inv s" and "is_open (sy_tt s)"
    and "\<not> (cs_pending_requests (tt_state (sy_tt s)) \<noteq> [] \<and> tt_strict_lifecycle (sy_tt s))"
  obtains s' where "exec sink (BeginShutdown now) s = Some s'" and "sy_finalizers s' \<noteq> []"
  using assms by (auto simp: shutdown_begin_open(2))

lemma exec_finish_shutdown:
  assumes "sy_finalizers s \<noteq> []"
  obtains s' t where "exec sink (FinishShutdown 0) s = Some s'" and "cs_phase (tt_state (sy_tt s')) = PhaseClosed t"
proof -
  obtain self w r where "shutdown_finish sink (sy_finalizers s ! 0) (sy_world s) (sy_tt s) = (self, w, r)"
    by (metis prod_cases3)
  then obtain s' where ex: "exec sink (FinishShutdown 0) s = Some s'"
    using assms by (simp add: shutdown_finish_logged)
  show ?thesis
    by (rule exec_finish_shutdownE [OF ex]) (rule that [OF ex], simp)
qed

text \<open>
  C18. Shutdown always gets through: from every reachable state of a collector that is not strict
  or has no pending request, the steps of one shutdown call suffice to close the run, with the
  result the sink gave; and a strict refusal changes nothing, so it can be retried.
\<close>

theorem shutdown_completes:
  assumes "reachable sink s"
  shows "if is_open (sy_tt s) \<and> tt_strict_lifecycle (sy_tt s) \<and> cs_pending_requests (tt_state (sy_tt s)) \<noteq> []
    then exec sink (BeginShutdown now) s = Some (s\<lparr>sy_returns := sy_returns s @
        [Inl (UnfinishedRequestsError (length (cs_pending_requests (tt_state (sy_tt s)))))]\<rparr>)
    else \<exists>s' t. exec_all sink (shutdown_steps s now) s = Some s' \<and>
        cs_phase (tt_state (sy_tt s')) = PhaseClosed t"
proof -
  have inv: "sys_inv s" by (rule sys_inv_reachable [OF assms])
  show ?thesis
  proof (cases "cs_phase (tt_state (sy_tt s))")
    case PhaseOpen
    show ?thesis
    proof (cases "cs_pending_requests (tt_state (sy_tt s)) \<noteq> [] \<and> tt_strict_lifecycle (sy_tt s)")
      case True
      then show ?thesis using PhaseOpen by (simp add: shutdown_begin_open)
    next
      case False
      obtain s1 where s1: "exec sink (BeginShutdown now) s = Some s1" "sy_finalizers s1 \<noteq> []"
        using exec_begin_shutdown_open [OF inv PhaseOpen False] by blast
      obtain s2 t where "exec sink (FinishShutdown 0) s1 = Some s2" "cs_phase (tt_state (sy_tt s2)) = PhaseClosed t"
        using exec_finish_shutdown [OF s1(2)] by blast
      then show ?thesis using False PhaseOpen s1 by (auto simp: shutdown_steps_def simp del: exec.simps)
    qed
  next
    case PhaseFinalizing
    then have "sy_finalizers s \<noteq> []" using inv by (simp add: sys_inv_def phase_inv_def)
    from exec_finish_shutdown [OF this] show ?thesis
      using PhaseFinalizing by (metis CollectorPhase.distinct(1) CollectorPhase.simps(9) bind.bind_lunit
          exec_all.simps shutdown_steps_def)
  next
    case (PhaseClosed t)
    then show ?thesis
      by (cases t) (auto simp: shutdown_steps_def shutdown_begin_def)
  qed
qed

lemma shutdown_completes_witness:
  "if is_open (sy_tt sample_open) \<and> tt_strict_lifecycle (sy_tt sample_open) \<and>
      cs_pending_requests (tt_state (sy_tt sample_open)) \<noteq> []
    then exec sample_sink (BeginShutdown sample_now) sample_open = Some (sample_open\<lparr>sy_returns := sy_returns sample_open @
        [Inl (UnfinishedRequestsError (length (cs_pending_requests (tt_state (sy_tt sample_open)))))]\<rparr>)
    else \<exists>s' t. exec_all sample_sink (shutdown_steps sample_open sample_now) sample_open = Some s' \<and>
        cs_phase (tt_state (sy_tt s')) = PhaseClosed t"
  by (rule shutdown_completes [OF reachable_sample_open])

text \<open>
  The wall clock is read again at shutdown and is not clamped to the start of the run: if it was
  set back in between, the artifact carries a finalization time before its start, which the
  strict validation of that same artifact rejects.
\<close>

lemma shutdown_before_start_rejected:
  assumes "finalized_at < md_started_at_unix_ms (run_metadata run)"
  shows "validate_run_strict (normalize_for_lifecycle
      (update_metadata (finalize_metadata finalized_at pending) run)) \<noteq> Inr ()"
proof -
  let ?r = "update_metadata (finalize_metadata finalized_at pending) run"
  have "md_started_at_unix_ms (finalize_metadata finalized_at pending (run_metadata run)) =
      md_started_at_unix_ms (run_metadata run)"
    by (simp add: finalize_metadata_def Let_def)
  then have "\<not> metadata_ok ?r"
    using assms by (auto simp: metadata_ok_def finalize_metadata_sel not_le [symmetric])
  then show ?thesis
    unfolding strict_accepts_iff_canonical_fact normalize_for_lifecycle_metadata_ok by simp
qed

end
