(* ===== verification/Tk_Sampler.thy ===== *)
theory Tk_Sampler
  imports Core_Lifecycle
begin

text \<open>
  The tokio runtime sampler (\<^verbatim>\<open>tailtriage-tokio/src/lib.rs\<close>): the resolution of its
  configuration against the run, its start, one step of its task per wake-up, and the snapshot
  it takes from the runtime's metrics. The runtime itself is a third-party crate: its metrics and
  the order of ticks and the stop signal are inputs. Durations are in nanoseconds.
\<close>

section \<open>Configuration\<close>

datatype SamplerStartError = ZeroInterval | MissingRuntime | SamplerDuplicateStart

fun sampler_start_error_display :: "SamplerStartError \<Rightarrow> string" where
  "sampler_start_error_display ZeroInterval = ''runtime sampling interval must be greater than zero''"
| "sampler_start_error_display MissingRuntime =
     ''runtime sampling requires an active Tokio runtime on the current thread''"
| "sampler_start_error_display SamplerDuplicateStart =
     ''only one runtime sampler may be started per Tailtriage run''"

record TokioSamplerModeDefaults =
  tsd_cadence :: nat
  tsd_max_runtime_snapshots :: nat

abbreviation from_millis :: "nat \<Rightarrow> nat" where
  "from_millis ms \<equiv> ms * 1000000"

fun sampler_defaults_for_mode :: "CaptureMode \<Rightarrow> TokioSamplerModeDefaults" where
  "sampler_defaults_for_mode Light =
     \<lparr>tsd_cadence = from_millis 500, tsd_max_runtime_snapshots = 5000\<rparr>"
| "sampler_defaults_for_mode Investigation =
     \<lparr>tsd_cadence = from_millis 100, tsd_max_runtime_snapshots = 50000\<rparr>"

text \<open>The builder without its reference to the run, which its operations take as an argument.\<close>

record RuntimeSamplerBuilder =
  rsb_explicit_mode_override :: "CaptureMode option"
  rsb_interval_override :: "nat option"
  rsb_max_runtime_snapshots_override :: "nat option"

record ResolvedRuntimeSamplerConfig =
  rsc_inherited_mode :: CaptureMode
  rsc_explicit_mode_override :: "CaptureMode option"
  rsc_resolved_mode :: CaptureMode
  rsc_resolved_interval :: nat
  rsc_resolved_max_runtime_snapshots :: nat

definition sampler_builder :: RuntimeSamplerBuilder where
  "sampler_builder = \<lparr>rsb_explicit_mode_override = None, rsb_interval_override = None,
     rsb_max_runtime_snapshots_override = None\<rparr>"

definition sampler_mode :: "CaptureMode \<Rightarrow> RuntimeSamplerBuilder \<Rightarrow> RuntimeSamplerBuilder" where
  "sampler_mode mode self = self\<lparr>rsb_explicit_mode_override := Some mode\<rparr>"

definition sampler_interval :: "nat \<Rightarrow> RuntimeSamplerBuilder \<Rightarrow> RuntimeSamplerBuilder" where
  "sampler_interval every self = self\<lparr>rsb_interval_override := Some every\<rparr>"

definition sampler_max_runtime_snapshots :: "nat \<Rightarrow> RuntimeSamplerBuilder \<Rightarrow> RuntimeSamplerBuilder" where
  "sampler_max_runtime_snapshots n self = self\<lparr>rsb_max_runtime_snapshots_override := Some n\<rparr>"

definition resolve_sampler_config :: "('c, 'l) Tailtriage \<Rightarrow> RuntimeSamplerBuilder
    \<Rightarrow> SamplerStartError + ResolvedRuntimeSamplerConfig" where
  "resolve_sampler_config tailtriage self =
     (let inherited = tt_mode tailtriage;
          mode = unwrap_or (rsb_explicit_mode_override self) inherited;
          mode_defaults = sampler_defaults_for_mode mode;
          every = unwrap_or (rsb_interval_override self) (tsd_cadence mode_defaults)
      in if every = 0 then Inl ZeroInterval
         else
           (let requested = unwrap_or (rsb_max_runtime_snapshots_override self)
                              (tsd_max_runtime_snapshots mode_defaults);
                core_cap = max_runtime_snapshots
                             (ecc_capture_limits (tt_effective_core_config tailtriage))
            in Inr \<lparr>rsc_inherited_mode = inherited,
                    rsc_explicit_mode_override = rsb_explicit_mode_override self,
                    rsc_resolved_mode = mode, rsc_resolved_interval = every,
                    rsc_resolved_max_runtime_snapshots = min requested core_cap\<rparr>))"

definition into_effective_metadata :: "ResolvedRuntimeSamplerConfig \<Rightarrow> EffectiveTokioSamplerConfig" where
  "into_effective_metadata self =
     \<lparr>inherited_mode = rsc_inherited_mode self,
      explicit_mode_override = rsc_explicit_mode_override self,
      resolved_mode = rsc_resolved_mode self,
      resolved_sampler_cadence_ms = u64_sat_of_nat (rsc_resolved_interval self div 1000000),
      resolved_runtime_snapshot_retention = rsc_resolved_max_runtime_snapshots self\<rparr>"

section \<open>The sampling task\<close>

text \<open>The spawned task: how many snapshots it took and may take, and whether it still loops.\<close>

record SamplerTask =
  smt_captured :: nat
  smt_max_runtime_snapshots :: nat
  smt_running :: bool

definition sampler_start :: "bool \<Rightarrow> RuntimeSamplerBuilder \<Rightarrow> ('c, 'l) Tailtriage
    \<Rightarrow> (SamplerStartError + SamplerTask) \<times> ('c, 'l) Tailtriage" where
  "sampler_start runtime_present self tailtriage =
     (case resolve_sampler_config tailtriage self of
        Inl e \<Rightarrow> (Inl e, tailtriage)
      | Inr resolved \<Rightarrow>
          if \<not> runtime_present then (Inl MissingRuntime, tailtriage)
          else (case register_tokio_runtime_sampler (into_effective_metadata resolved) tailtriage of
                  (Inl _, tailtriage) \<Rightarrow> (Inl SamplerDuplicateStart, tailtriage)
                | (Inr _, tailtriage) \<Rightarrow>
                    (Inr \<lparr>smt_captured = 0,
                          smt_max_runtime_snapshots = rsc_resolved_max_runtime_snapshots resolved,
                          smt_running = True\<rparr>, tailtriage)))"

text \<open>One iteration of the loop: the stop signal, or a tick with the snapshot taken at it.\<close>

datatype sampler_event = SamplerStop | SamplerTick clock_reading RuntimeSnapshot

fun sampler_step :: "sampler_event \<Rightarrow> SamplerTask \<Rightarrow> ('c, 'l) Tailtriage
    \<Rightarrow> SamplerTask \<times> ('c, 'l) Tailtriage \<times> 'l list" where
  "sampler_step SamplerStop task tailtriage = (task\<lparr>smt_running := False\<rparr>, tailtriage, [])"
| "sampler_step (SamplerTick now snapshot) task tailtriage =
     (if \<not> smt_running task then (task, tailtriage, [])
      else if smt_captured task \<ge> smt_max_runtime_snapshots task
      then (task\<lparr>smt_running := False\<rparr>, tailtriage, [])
      else
        (let (tailtriage, calls) = record_runtime_snapshot now snapshot tailtriage;
             captured = smt_captured task + 1
         in (task\<lparr>smt_captured := captured,
                  smt_running := (captured < smt_max_runtime_snapshots task)\<rparr>, tailtriage, calls)))"

fun sampler_run :: "sampler_event list \<Rightarrow> SamplerTask \<Rightarrow> ('c, 'l) Tailtriage
    \<Rightarrow> SamplerTask \<times> ('c, 'l) Tailtriage \<times> 'l list" where
  "sampler_run [] task tailtriage = (task, tailtriage, [])"
| "sampler_run (e # es) task tailtriage =
     (let (task, tailtriage, calls) = sampler_step e task tailtriage;
          (task, tailtriage, more) = sampler_run es task tailtriage
      in (task, tailtriage, calls @ more))"

section \<open>Snapshots\<close>

text \<open>What the runtime's metrics report; the last three need an unstable build of the runtime.\<close>

record RuntimeMetrics =
  rm_num_workers :: nat
  rm_num_alive_tasks :: nat
  rm_global_queue_depth :: nat
  rm_worker_local_queue_depth :: "nat \<Rightarrow> nat"
  rm_blocking_queue_depth :: nat
  rm_remote_schedule_count :: u64

definition usize_to_u64 :: "nat \<Rightarrow> u64 option" where
  "usize_to_u64 n = (if n \<le> u64_max then Some (of_nat n) else None)"

definition usize_to_u32 :: "nat \<Rightarrow> u32 option" where
  "usize_to_u32 n = (if n < 2 ^ 32 then Some (of_nat n) else None)"

definition checked_add :: "u64 \<Rightarrow> u64 \<Rightarrow> u64 option" where
  "checked_add a b = (if unat a + unat b \<le> u64_max then Some (a + b) else None)"

fun sum_local_depths :: "(nat \<Rightarrow> nat) \<Rightarrow> nat list \<Rightarrow> u64 \<Rightarrow> u64 option" where
  "sum_local_depths depth [] acc = Some acc"
| "sum_local_depths depth (w # ws) acc =
     (case usize_to_u64 (depth w) of
        None \<Rightarrow> None
      | Some d \<Rightarrow> Option.bind (checked_add acc d) (sum_local_depths depth ws))"

definition capture_runtime_snapshot :: "bool \<Rightarrow> clock_reading \<Rightarrow> RuntimeMetrics \<Rightarrow> RuntimeSnapshot" where
  "capture_runtime_snapshot tokio_unstable now metrics =
     \<lparr>rts_at_unix_ms = unix_time_ms now, rts_at_run_us = None,
      rts_alive_tasks = usize_to_u64 (rm_num_alive_tasks metrics),
      rts_worker_count = usize_to_u32 (rm_num_workers metrics),
      rts_global_queue_depth = usize_to_u64 (rm_global_queue_depth metrics),
      rts_local_queue_depth =
        (if tokio_unstable then sum_local_depths (rm_worker_local_queue_depth metrics)
                                  [0..<rm_num_workers metrics] 0 else None),
      rts_blocking_queue_depth =
        (if tokio_unstable then usize_to_u64 (rm_blocking_queue_depth metrics) else None),
      rts_remote_schedule_count =
        (if tokio_unstable then Some (rm_remote_schedule_count metrics) else None)\<rparr>"

section \<open>Facts\<close>

lemma usize_to_u64_Some: "usize_to_u64 n = Some w \<longleftrightarrow> n \<le> u64_max \<and> w = of_nat n"
  by (auto simp: usize_to_u64_def)

lemma unat_of_nat_u64: "n \<le> u64_max \<Longrightarrow> unat (of_nat n :: u64) = n"
  by (simp add: unat_of_nat)

lemma sum_local_depths_eq:
  "sum_local_depths depth ws acc =
     (if unat acc + sum_list (map depth ws) \<le> u64_max
      then Some (of_nat (unat acc + sum_list (map depth ws))) else None)"
proof (induction ws arbitrary: acc)
  case Nil
  then show ?case using unat_le_u64_max [of acc] by simp
next
  case (Cons w ws)
  show ?case
  proof (cases "depth w \<le> u64_max \<and> unat acc + depth w \<le> u64_max")
    case True
    then have d: "unat (of_nat (depth w) :: u64) = depth w" by (simp add: unat_of_nat_u64)
    then have "unat (acc + of_nat (depth w)) = unat acc + depth w"
      using True by (simp add: unat_word_ariths)
    then show ?thesis
      using True d by (simp add: usize_to_u64_def checked_add_def Cons.IH add.assoc)
  next
    case False
    then show ?thesis
      by (auto simp: usize_to_u64_def checked_add_def unat_of_nat_u64)
  qed
qed

text \<open>The task counts at least the snapshots of its run, and stays below the run's capacity.\<close>

definition sampler_inv :: "SamplerTask \<Rightarrow> ('c, 'l) Tailtriage \<Rightarrow> bool" where
  "sampler_inv task run \<longleftrightarrow>
     length (run_runtime_snapshots (tt_run run)) \<le> smt_captured task
     \<and> smt_captured task \<le> smt_max_runtime_snapshots task
     \<and> smt_max_runtime_snapshots task \<le> max_runtime_snapshots (tt_limits run)"

lemma sampler_step_inv:
  assumes "sampler_inv task run" and "sampler_step e task run = (task', run', calls)"
  shows "sampler_inv task' run' \<and> calls = []
    \<and> run_truncation (tt_run run') = run_truncation (tt_run run) \<and> tt_limits run' = tt_limits run
    \<and> smt_max_runtime_snapshots task' = smt_max_runtime_snapshots task"
  using assms
  by (cases e)
    (auto simp: sampler_inv_def record_runtime_snapshot_def push_runtime_snapshot_bounded_def
      release_after_push_def Let_def split: if_splits prod.splits)

lemma sampler_run_inv:
  "sampler_inv task run \<Longrightarrow> sampler_run es task run = (task', run', calls) \<Longrightarrow>
     sampler_inv task' run' \<and> calls = [] \<and> run_truncation (tt_run run') = run_truncation (tt_run run)
     \<and> tt_limits run' = tt_limits run \<and> smt_max_runtime_snapshots task' = smt_max_runtime_snapshots task"
proof (induction es arbitrary: task run task' run' calls)
  case (Cons e es)
  obtain t1 r1 c1 where s: "sampler_step e task run = (t1, r1, c1)" by (metis prod_cases3)
  obtain t2 r2 c2 where r: "sampler_run es t1 r1 = (t2, r2, c2)" by (metis prod_cases3)
  from sampler_step_inv [OF Cons.prems(1) s] have 1: "sampler_inv t1 r1" "c1 = []"
    "run_truncation (tt_run r1) = run_truncation (tt_run run)" "tt_limits r1 = tt_limits run"
    "smt_max_runtime_snapshots t1 = smt_max_runtime_snapshots task" by simp_all
  from Cons.IH [OF 1(1) r] Cons.prems(2) s r 1 show ?case by auto
qed simp

section \<open>Properties\<close>

text \<open>
  A sampler on a run without runtime snapshots never fills the run: whatever ticks come, it
  records at most its resolved retention, which is within the capacity of the run, so that the
  run drops no runtime snapshot because of it and its limits-hit listener is never called from
  the sampler's task.
\<close>

theorem sampler_never_truncates:
  "case sampler_start runtime_present builder tailtriage of
     (Inl _, _) \<Rightarrow> True
   | (Inr task, started) \<Rightarrow>
       (if run_runtime_snapshots (tt_run tailtriage) = []
           \<and> tt_limits tailtriage = ecc_capture_limits (tt_effective_core_config tailtriage)
        then (case sampler_run events task started of
                (task', run', calls) \<Rightarrow>
                  calls = []
                  \<and> length (run_runtime_snapshots (tt_run run')) \<le> smt_max_runtime_snapshots task
                  \<and> smt_max_runtime_snapshots task \<le> max_runtime_snapshots (tt_limits tailtriage)
                  \<and> run_truncation (tt_run run') = run_truncation (tt_run tailtriage))
        else True)"
proof (cases "sampler_start runtime_present builder tailtriage")
  case (Pair res started)
  show ?thesis
  proof (cases "run_runtime_snapshots (tt_run tailtriage) = []
      \<and> tt_limits tailtriage = ecc_capture_limits (tt_effective_core_config tailtriage)")
    case True
    have init: "sampler_inv task started \<and> run_truncation (tt_run started) = run_truncation (tt_run tailtriage)
        \<and> tt_limits started = tt_limits tailtriage" if "res = Inr task" for task
      using Pair that True
      by (auto simp: sampler_start_def resolve_sampler_config_def register_tokio_runtime_sampler_def
          sampler_inv_def Let_def split: sum.splits if_splits prod.splits)
    obtain t r c where run: "sampler_run events (projr res) started = (t, r, c)" by (metis prod_cases3)
    show ?thesis
    proof (cases res)
      case (Inr task)
      have "sampler_inv t r \<and> c = [] \<and> run_truncation (tt_run r) = run_truncation (tt_run started)
          \<and> tt_limits r = tt_limits started \<and> smt_max_runtime_snapshots t = smt_max_runtime_snapshots task"
        using sampler_run_inv [of task started events t r c] init [OF Inr] run Inr by simp
      then show ?thesis
        using Pair True init [OF Inr] run Inr by (auto simp: sampler_inv_def)
    qed (simp add: Pair)
  next
    case False
    then show ?thesis unfolding Pair prod.case if_not_P [OF False] by (simp split: sum.split)
  qed
qed

text \<open>
  A captured snapshot reports the exact sum of the local queue depths of all workers, and
  none rather than a wrapped one when the sum does not fit.
\<close>

theorem captured_local_depth_exact:
  "rts_local_queue_depth (capture_runtime_snapshot True now metrics) =
     (let depth = sum_list (map (rm_worker_local_queue_depth metrics) [0..<rm_num_workers metrics])
      in if depth \<le> u64_max then Some (of_nat depth) else None)"
  by (simp add: capture_runtime_snapshot_def sum_local_depths_eq Let_def)

end
