(* ===== verification/Ctl_Config.thy ===== *)
theory Ctl_Config
  imports Tk_Sampler
begin

text \<open>
  The configuration side of the controller (\<^verbatim>\<open>tailtriage-controller/src/lib.rs\<close>): templates,
  the builder, the decoded configuration file, the resolution of a template from builder, file
  and current template, and the artifact path of a generation. Reading a file and decoding its
  TOML are third-party and system operations: their result is an argument.
\<close>

section \<open>Paths\<close>

text \<open>
  The operations of \<^verbatim>\<open>std::path\<close> the controller uses, for paths that are valid UTF-8, on the
  path as written: a root, and the body between slashes, where empty components and dots are
  skipped.
\<close>

fun split_slash :: "string \<Rightarrow> string list" where
  "split_slash [] = [[]]"
| "split_slash (c # cs) =
     (if c = CHR ''/'' then [] # split_slash cs
      else (case split_slash cs of [] \<Rightarrow> [[c]] | p # ps \<Rightarrow> (c # p) # ps))"

definition path_root :: "string \<Rightarrow> string" where
  "path_root p = (case p of c # _ \<Rightarrow> if c = CHR ''/'' then ''/'' else '''' | [] \<Rightarrow> '''')"

definition path_body :: "string \<Rightarrow> string list" where
  "path_body p = split_slash (drop (length (path_root p)) p)"

definition skipped_component :: "string \<Rightarrow> bool" where
  "skipped_component c \<longleftrightarrow> c = '''' \<or> c = ''.''"

text \<open>The components up to the last one that is not skipped.\<close>

definition trim_components :: "string list \<Rightarrow> string list" where
  "trim_components cs = rev (dropWhile skipped_component (rev cs))"

definition join_slash :: "string list \<Rightarrow> string" where
  "join_slash cs = join ''/'' cs"

definition leading_dot :: "string \<Rightarrow> bool" where
  "leading_dot p \<longleftrightarrow> path_root p = '''' \<and> hd (path_body p) = ''.''"

definition path_parent :: "string \<Rightarrow> string option" where
  "path_parent p =
     (case trim_components (path_body p) of
        [] \<Rightarrow> if leading_dot p then Some '''' else None
      | cs \<Rightarrow>
          let rest = trim_components (butlast cs)
          in Some (if rest = [] \<and> leading_dot p \<and> length cs > 1 then ''.''
                   else path_root p @ join_slash rest))"

definition path_file_name :: "string \<Rightarrow> string option" where
  "path_file_name p =
     (case trim_components (path_body p) of
        [] \<Rightarrow> None
      | cs \<Rightarrow> if last cs = ''..'' then None else Some (last cs))"

text \<open>A file name cut at its last dot; a name that only starts with a dot is not cut.\<close>

definition rsplit_file_at_dot :: "string \<Rightarrow> string option \<times> string option" where
  "rsplit_file_at_dot name =
     (if CHR ''.'' \<notin> set name then (None, Some name)
      else
        (let after = rev (takeWhile (\<lambda>c. c \<noteq> CHR ''.'') (rev name));
             before = take (length name - length after - 1) name
         in if before = '''' then (Some name, None) else (Some before, Some after)))"

definition path_file_stem :: "string \<Rightarrow> string option" where
  "path_file_stem p =
     (case path_file_name p of
        None \<Rightarrow> None
      | Some name \<Rightarrow> (case rsplit_file_at_dot name of (Some b, _) \<Rightarrow> Some b | (None, a) \<Rightarrow> a))"

definition path_extension :: "string \<Rightarrow> string option" where
  "path_extension p =
     (case path_file_name p of
        None \<Rightarrow> None
      | Some name \<Rightarrow> (case rsplit_file_at_dot name of (Some _, a) \<Rightarrow> a | (None, _) \<Rightarrow> None))"

text \<open>\<^verbatim>\<open>join\<close> with a relative file name.\<close>

definition path_join :: "string \<Rightarrow> string \<Rightarrow> string" where
  "path_join parent name =
     (if parent = '''' \<or> last parent = CHR ''/'' then parent @ name else parent @ ''/'' @ name)"

definition generated_artifact_path :: "string \<Rightarrow> u64 \<Rightarrow> string" where
  "generated_artifact_path output_path generation_id =
     (let parent = unwrap_or (path_parent output_path) '''';
          stem = unwrap_or (path_file_stem output_path) ''tailtriage-run'';
          filename = (case path_extension output_path of
              Some ext \<Rightarrow>
                if ext \<noteq> '''' then stem @ ''-generation-'' @ show_word generation_id @ ''.'' @ ext
                else stem @ ''-generation-'' @ show_word generation_id @ ''.json''
            | None \<Rightarrow> stem @ ''-generation-'' @ show_word generation_id @ ''.json'')
      in path_join parent filename)"

lemma artifact_path_examples:
  "generated_artifact_path ''run.json'' 1 = ''run-generation-1.json''"
  "generated_artifact_path ''out/./run.tar.gz/'' 12 = ''out/run.tar-generation-12.gz''"
  "generated_artifact_path ''/.hidden'' 3 = ''/.hidden-generation-3.json''"
  "generated_artifact_path ''a/..'' 4 = ''a/tailtriage-run-generation-4.json''"
  "generated_artifact_path ''./x.json'' 5 = ''./x-generation-5.json''"
  by code_simp+

section \<open>Templates\<close>

record RuntimeSamplerTemplate =
  rst_enabled :: bool
  rst_mode_override :: "CaptureMode option"
  rst_interval :: "nat option"
  rst_max_runtime_snapshots :: "nat option"

definition sampler_template_default :: RuntimeSamplerTemplate where
  "sampler_template_default = \<lparr>rst_enabled = False, rst_mode_override = None, rst_interval = None,
     rst_max_runtime_snapshots = None\<rparr>"

datatype RunEndPolicy = ContinueAfterLimitsHit | AutoSealPolicy

record TailtriageControllerTemplate =
  tpl_service_name :: string
  tpl_config_path :: "string option"
  tpl_output_path :: string
  tpl_mode :: CaptureMode
  tpl_capture_limits_override :: CaptureLimitsOverride
  tpl_strict_lifecycle :: bool
  tpl_runtime_sampler :: RuntimeSamplerTemplate
  tpl_run_end_policy :: RunEndPolicy

record ControllerActivationTemplate =
  act_output_path :: string
  act_mode :: CaptureMode
  act_capture_limits_override :: CaptureLimitsOverride
  act_strict_lifecycle :: bool
  act_runtime_sampler :: RuntimeSamplerTemplate
  act_run_end_policy :: RunEndPolicy

record BaseControllerTemplate =
  bct_service_name :: string
  bct_config_path :: "string option"
  bct_output_path :: "string option"
  bct_mode :: CaptureMode
  bct_capture_limits_override :: CaptureLimitsOverride
  bct_strict_lifecycle :: bool
  bct_runtime_sampler :: RuntimeSamplerTemplate
  bct_run_end_policy :: RunEndPolicy

datatype ControllerTemplateError = TplEmptyServiceName | TplMissingOutput

fun template_error_display :: "ControllerTemplateError \<Rightarrow> string" where
  "template_error_display TplEmptyServiceName = ''service_name cannot be empty''"
| "template_error_display TplMissingOutput = ''controller output_path is required''"

section \<open>The configuration file, decoded\<close>

datatype RunEndPolicyConfigToml = TomlContinueAfterLimitsHit | TomlAutoSealOnLimitsHit

fun run_end_policy_from :: "RunEndPolicyConfigToml \<Rightarrow> RunEndPolicy" where
  "run_end_policy_from TomlContinueAfterLimitsHit = ContinueAfterLimitsHit"
| "run_end_policy_from TomlAutoSealOnLimitsHit = AutoSealPolicy"

record RuntimeSamplerConfigToml =
  rsx_enabled :: bool
  rsx_mode_override :: "CaptureMode option"
  rsx_interval_ms :: "u64 option"
  rsx_max_runtime_snapshots :: "nat option"

definition sampler_template_from :: "RuntimeSamplerConfigToml \<Rightarrow> RuntimeSamplerTemplate" where
  "sampler_template_from toml =
     \<lparr>rst_enabled = rsx_enabled toml, rst_mode_override = rsx_mode_override toml,
      rst_interval = map_option (\<lambda>ms. from_millis (unat ms)) (rsx_interval_ms toml),
      rst_max_runtime_snapshots = rsx_max_runtime_snapshots toml\<rparr>"

record ControllerActivationConfigToml =
  cax_mode :: "CaptureMode option"
  cax_output_path :: "string option"
  cax_capture_limits_override :: CaptureLimitsOverride
  cax_strict_lifecycle :: bool
  cax_runtime_sampler :: RuntimeSamplerConfigToml
  cax_run_end_policy :: RunEndPolicyConfigToml

record ControllerConfigFile =
  ccx_service_name :: "string option"
  ccx_initially_enabled :: "bool option"
  ccx_activation :: ControllerActivationConfigToml

datatype ConfigLoadError =
    CfgMissingOutput
  | CfgIo string string
  | CfgParse string string

fun config_load_error_display :: "ConfigLoadError \<Rightarrow> string" where
  "config_load_error_display CfgMissingOutput = ''controller.activation.output_path is required''"
| "config_load_error_display (CfgIo path source) =
     ''failed to read controller config '' @ path @ '': '' @ source"
| "config_load_error_display (CfgParse path source) =
     ''failed to parse controller config TOML '' @ path @ '': '' @ source"

record LoadedControllerConfig =
  lcc_service_name :: "string option"
  lcc_initially_enabled :: "bool option"
  lcc_activation_template :: ControllerActivationTemplate

definition nonempty_path :: "string option \<Rightarrow> string option" where
  "nonempty_path p = (case p of Some s \<Rightarrow> if s = '''' then None else Some s | None \<Rightarrow> None)"

definition into_loaded :: "ControllerConfigFile \<Rightarrow> ConfigLoadError + LoadedControllerConfig" where
  "into_loaded file =
     (let activation = ccx_activation file
      in case nonempty_path (cax_output_path activation) of
           None \<Rightarrow> Inl CfgMissingOutput
         | Some output_path \<Rightarrow>
             Inr \<lparr>lcc_service_name = ccx_service_name file,
                  lcc_initially_enabled = ccx_initially_enabled file,
                  lcc_activation_template =
                    \<lparr>act_output_path = output_path,
                     act_mode = unwrap_or (cax_mode activation) Light,
                     act_capture_limits_override = cax_capture_limits_override activation,
                     act_strict_lifecycle = cax_strict_lifecycle activation,
                     act_runtime_sampler = sampler_template_from (cax_runtime_sampler activation),
                     act_run_end_policy = run_end_policy_from (cax_run_end_policy activation)\<rparr>\<rparr>)"

text \<open>\<open>from_path\<close> is the reading and decoding of the file.\<close>

definition load_config_from_path :: "(string \<Rightarrow> ConfigLoadError + ControllerConfigFile) \<Rightarrow> string
    \<Rightarrow> ConfigLoadError + LoadedControllerConfig" where
  "load_config_from_path from_path path =
     (case from_path path of Inl e \<Rightarrow> Inl e | Inr file \<Rightarrow> into_loaded file)"

section \<open>Resolution\<close>

definition resolve_controller_template :: "BaseControllerTemplate
    \<Rightarrow> TailtriageControllerTemplate option \<Rightarrow> ControllerConfigFile option
    \<Rightarrow> ControllerTemplateError + TailtriageControllerTemplate" where
  "resolve_controller_template base current loaded =
     (let fallback_service_name = (case current of None \<Rightarrow> bct_service_name base
            | Some template \<Rightarrow> tpl_service_name template);
          config_path = (case current of None \<Rightarrow> bct_config_path base
            | Some template \<Rightarrow> tpl_config_path template);
          (service_name, output_path, mode, limits, strict, sampler, policy) =
            (case loaded of
               Some file \<Rightarrow>
                 let activation = ccx_activation file
                 in (unwrap_or (ccx_service_name file) fallback_service_name,
                     (case cax_output_path activation of Some p \<Rightarrow> Some p | None \<Rightarrow> bct_output_path base),
                     unwrap_or (cax_mode activation) (bct_mode base),
                     cax_capture_limits_override activation,
                     cax_strict_lifecycle activation,
                     sampler_template_from (cax_runtime_sampler activation),
                     run_end_policy_from (cax_run_end_policy activation))
             | None \<Rightarrow>
                 (fallback_service_name, bct_output_path base, bct_mode base,
                  bct_capture_limits_override base, bct_strict_lifecycle base,
                  bct_runtime_sampler base, bct_run_end_policy base))
      in if is_blank service_name then Inl TplEmptyServiceName
         else case nonempty_path output_path of
                None \<Rightarrow> Inl TplMissingOutput
              | Some output_path \<Rightarrow>
                  Inr \<lparr>tpl_service_name = service_name, tpl_config_path = config_path,
                       tpl_output_path = output_path, tpl_mode = mode,
                       tpl_capture_limits_override = limits, tpl_strict_lifecycle = strict,
                       tpl_runtime_sampler = sampler, tpl_run_end_policy = policy\<rparr>)"

definition validate_public_template :: "TailtriageControllerTemplate
    \<Rightarrow> ControllerTemplateError + TailtriageControllerTemplate" where
  "validate_public_template template =
     (if is_blank (tpl_service_name template) then Inl TplEmptyServiceName
      else if tpl_output_path template = '''' then Inl TplMissingOutput
      else Inr template)"

section \<open>The builder\<close>

record TailtriageControllerBuilder =
  tcb_service_name :: string
  tcb_config_path :: "string option"
  tcb_initially_enabled :: bool
  tcb_output_path :: "string option"
  tcb_mode :: CaptureMode
  tcb_capture_limits_override :: CaptureLimitsOverride
  tcb_strict_lifecycle :: bool
  tcb_runtime_sampler :: RuntimeSamplerTemplate
  tcb_run_end_policy :: RunEndPolicy

definition controller_builder :: "string \<Rightarrow> TailtriageControllerBuilder" where
  "controller_builder service_name =
     \<lparr>tcb_service_name = service_name, tcb_config_path = None, tcb_initially_enabled = False,
      tcb_output_path = None, tcb_mode = Light, tcb_capture_limits_override = override_default,
      tcb_strict_lifecycle = False, tcb_runtime_sampler = sampler_template_default,
      tcb_run_end_policy = ContinueAfterLimitsHit\<rparr>"

definition tcb_set_config_path :: "string \<Rightarrow> TailtriageControllerBuilder \<Rightarrow> TailtriageControllerBuilder" where
  "tcb_set_config_path p self = self\<lparr>tcb_config_path := Some p\<rparr>"

definition tcb_set_initially_enabled :: "bool \<Rightarrow> TailtriageControllerBuilder \<Rightarrow> TailtriageControllerBuilder" where
  "tcb_set_initially_enabled b self = self\<lparr>tcb_initially_enabled := b\<rparr>"

definition tcb_set_output :: "string \<Rightarrow> TailtriageControllerBuilder \<Rightarrow> TailtriageControllerBuilder" where
  "tcb_set_output p self = self\<lparr>tcb_output_path := Some p\<rparr>"

definition tcb_set_mode :: "CaptureMode \<Rightarrow> TailtriageControllerBuilder \<Rightarrow> TailtriageControllerBuilder" where
  "tcb_set_mode m self = self\<lparr>tcb_mode := m\<rparr>"

definition tcb_set_capture_limits_override ::
    "CaptureLimitsOverride \<Rightarrow> TailtriageControllerBuilder \<Rightarrow> TailtriageControllerBuilder" where
  "tcb_set_capture_limits_override l self = self\<lparr>tcb_capture_limits_override := l\<rparr>"

definition tcb_set_strict_lifecycle :: "bool \<Rightarrow> TailtriageControllerBuilder \<Rightarrow> TailtriageControllerBuilder" where
  "tcb_set_strict_lifecycle b self = self\<lparr>tcb_strict_lifecycle := b\<rparr>"

definition tcb_set_runtime_sampler ::
    "RuntimeSamplerTemplate \<Rightarrow> TailtriageControllerBuilder \<Rightarrow> TailtriageControllerBuilder" where
  "tcb_set_runtime_sampler s self = self\<lparr>tcb_runtime_sampler := s\<rparr>"

definition tcb_set_run_end_policy :: "RunEndPolicy \<Rightarrow> TailtriageControllerBuilder \<Rightarrow> TailtriageControllerBuilder" where
  "tcb_set_run_end_policy p self = self\<lparr>tcb_run_end_policy := p\<rparr>"

definition base_template :: "TailtriageControllerBuilder \<Rightarrow> BaseControllerTemplate" where
  "base_template self =
     \<lparr>bct_service_name = tcb_service_name self, bct_config_path = tcb_config_path self,
      bct_output_path = tcb_output_path self, bct_mode = tcb_mode self,
      bct_capture_limits_override = tcb_capture_limits_override self,
      bct_strict_lifecycle = tcb_strict_lifecycle self,
      bct_runtime_sampler = tcb_runtime_sampler self,
      bct_run_end_policy = tcb_run_end_policy self\<rparr>"

section \<open>Distinct artifacts\<close>

text \<open>The generation can be read off the path: strip the extension, keep the trailing digits.\<close>

definition trailing :: "(char \<Rightarrow> bool) \<Rightarrow> string \<Rightarrow> string" where
  "trailing P s = rev (takeWhile P (rev s))"

lemma trailing_append:
  assumes "\<not> P c" and "list_all P t"
  shows "trailing P (s @ c # t) = t"
proof -
  have "takeWhile P (rev t @ c # rev s) = rev t @ takeWhile P (c # rev s)"
    by (rule takeWhile_append2) (use assms in \<open>simp add: list_all_iff\<close>)
  then show ?thesis using assms by (simp add: trailing_def)
qed

definition strip_extension :: "string \<Rightarrow> string" where
  "strip_extension s = take (length s - length (trailing (\<lambda>c. c \<noteq> CHR ''.'') s) - 1) s"

definition generation_of_path :: "string \<Rightarrow> string" where
  "generation_of_path s = trailing is_digit (strip_extension s)"

lemma strip_extension_append:
  "CHR ''.'' \<notin> set e \<Longrightarrow> strip_extension (s @ CHR ''.'' # e) = s"
  by (subst strip_extension_def, subst trailing_append) (auto simp: list_all_iff)

lemma generation_of_path_append:
  "CHR ''.'' \<notin> set e \<Longrightarrow> list_all is_digit t
    \<Longrightarrow> generation_of_path (s @ ''-'' @ t @ ''.'' @ e) = t"
  using strip_extension_append[of e "s @ CHR ''-'' # t"]
    trailing_append[of is_digit "CHR ''-''" t s]
  by (simp add: generation_of_path_def is_digit_def)

lemma rsplit_no_dot:
  "rsplit_file_at_dot name = (Some b, Some e) \<Longrightarrow> CHR ''.'' \<notin> set e"
  by (auto simp: rsplit_file_at_dot_def Let_def dest: set_takeWhileD split: if_splits)

lemma path_extension_no_dot: "path_extension p = Some e \<Longrightarrow> CHR ''.'' \<notin> set e"
  unfolding path_extension_def
  by (auto split: option.splits prod.splits dest: rsplit_no_dot)

lemma path_join_suffix: "\<exists>s. path_join d n = s @ n"
  by (cases "d = [] \<or> last d = CHR ''/''") (auto simp: path_join_def)

lemma generated_name_suffix:
  "\<exists>s. path_join d (t @ ''-generation-'' @ i @ ''.'' @ e) = s @ ''-'' @ i @ ''.'' @ e"
proof -
  obtain s where "path_join d (t @ ''-generation-'' @ i @ ''.'' @ e)
      = s @ t @ ''-generation-'' @ i @ ''.'' @ e"
    using path_join_suffix by blast
  then have "path_join d (t @ ''-generation-'' @ i @ ''.'' @ e)
      = (s @ t @ ''-generation'') @ ''-'' @ i @ ''.'' @ e" by simp
  then show ?thesis by blast
qed

lemma generated_artifact_path_shape:
  "\<exists>s e. CHR ''.'' \<notin> set e \<and> generated_artifact_path p i = s @ ''-'' @ show_word i @ ''.'' @ e"
proof -
  have json: "CHR ''.'' \<notin> set ''json''" by simp
  note suffix = generated_name_suffix[of "unwrap_or (path_parent p) ''''"
    "unwrap_or (path_file_stem p) ''tailtriage-run''" "show_word i"]
  show ?thesis
  proof (cases "path_extension p \<noteq> None \<and> path_extension p \<noteq> Some ''''")
    case True
    then obtain e where ext: "path_extension p = Some e" "e \<noteq> ''''" by auto
    have "generated_artifact_path p i = path_join (unwrap_or (path_parent p) '''')
        (unwrap_or (path_file_stem p) ''tailtriage-run'' @ ''-generation-'' @ show_word i @ ''.'' @ e)"
      by (simp add: generated_artifact_path_def ext)
    with suffix[of e] path_extension_no_dot[OF ext(1)] show ?thesis by metis
  next
    case False
    then have "path_extension p = None \<or> path_extension p = Some ''''" by simp
    then have "generated_artifact_path p i = path_join (unwrap_or (path_parent p) '''')
        (unwrap_or (path_file_stem p) ''tailtriage-run'' @ ''-generation-'' @ show_word i @ ''.'' @ ''json'')"
      by (auto simp: generated_artifact_path_def)
    with suffix[of "''json''"] \<open>CHR ''.'' \<notin> set ''json''\<close> show ?thesis by metis
  qed
qed

lemma generation_of_artifact: "generation_of_path (generated_artifact_path p i) = show_word i"
proof -
  obtain s e where "CHR ''.'' \<notin> set e"
      "generated_artifact_path p i = s @ ''-'' @ show_word i @ ''.'' @ e"
    using generated_artifact_path_shape by blast
  with generation_of_path_append[of e "show_word i" s] show_nat_digits[of "unat i"]
  show ?thesis by metis
qed

text \<open>
  Two generations never write to the same artifact: whatever output paths their templates
  hold (the template may be reloaded in between), equal artifact paths mean equal generation
  identifiers.
\<close>

theorem generation_artifacts_distinct:
  "generated_artifact_path p i = generated_artifact_path q j \<longleftrightarrow>
     i = j \<and> generated_artifact_path p i = generated_artifact_path q i"
  using generation_of_artifact[of p i] generation_of_artifact[of q j] show_nat_digits
  by (metis word_unat_eq_iff)

end
