(* ===== verification/Ctl_Controller.thy ===== *)
theory Ctl_Controller
  imports Ctl_Config
begin

text \<open>
  The controller (\<^verbatim>\<open>tailtriage-controller/src/lib.rs\<close>): its lifecycle, a generation's runtime
  state, and every critical section of its operations as a function on that state. What a
  thread does between two of them is a list of frames; their interleaving is in
  \<open>Ctl_Threads\<close>. Atomic variables are read and written in program order by one thread after
  another (sequential consistency); mutex poisoning recovery is not modelled.
\<close>

section \<open>Errors\<close>

datatype EnableError =
    EnControllerShutdown
  | EnAlreadyActive u64
  | EnBuild BuildError
  | EnMissingTokioRuntimeForSampler
  | EnStartRuntimeSampler SamplerStartError

datatype ControllerBuildError =
    CbEmptyServiceName
  | CbMissingOutput
  | CbConfigLoad ConfigLoadError
  | CbInitialEnable EnableError

datatype ReloadConfigError =
    RcControllerShutdown
  | RcMissingConfigPath
  | RcLoad ConfigLoadError
  | RcValidate ControllerTemplateError

datatype ReloadTemplateError = RtControllerShutdown | RtValidate ControllerTemplateError

fun enable_error_display :: "EnableError \<Rightarrow> string" where
  "enable_error_display EnControllerShutdown = ''controller has shut down and cannot be enabled''"
| "enable_error_display (EnAlreadyActive generation_id) =
     ''generation '' @ show_word generation_id @ '' is already active''"
| "enable_error_display (EnBuild err) = ''failed to build generation run: '' @ build_error_display err"
| "enable_error_display EnMissingTokioRuntimeForSampler =
     ''runtime sampler requires an active Tokio runtime''"
| "enable_error_display (EnStartRuntimeSampler err) =
     ''failed to start runtime sampler for generation: '' @ sampler_start_error_display err"

fun controller_build_error_display :: "ControllerBuildError \<Rightarrow> string" where
  "controller_build_error_display CbEmptyServiceName = ''service_name cannot be empty''"
| "controller_build_error_display CbMissingOutput = ''controller output_path is required''"
| "controller_build_error_display (CbConfigLoad err) =
     ''failed to load config for build: '' @ config_load_error_display err"
| "controller_build_error_display (CbInitialEnable err) =
     ''failed to start initial generation: '' @ enable_error_display err"

fun reload_config_error_display :: "ReloadConfigError \<Rightarrow> string" where
  "reload_config_error_display RcControllerShutdown =
     ''controller has shut down; config cannot be reloaded''"
| "reload_config_error_display RcMissingConfigPath = ''controller has no config_path; cannot reload''"
| "reload_config_error_display (RcLoad err) =
     ''failed to reload controller config: '' @ config_load_error_display err"
| "reload_config_error_display (RcValidate err) =
     ''reloaded config did not produce a valid template: '' @ template_error_display err"

fun reload_template_error_display :: "ReloadTemplateError \<Rightarrow> string" where
  "reload_template_error_display RtControllerShutdown =
     ''controller has shut down; template cannot be reloaded''"
| "reload_template_error_display (RtValidate err) = ''template is invalid: '' @ template_error_display err"

text \<open>
  A finalization error wraps a shutdown error of the core. A replayed one is the I/O error of a
  sink whose payload is \<open>ReplayedGenerationFinalization\<close>, recognised by a downcast.
\<close>

datatype GenerationFinalizationError = GfeFinalize ShutdownError | GfeReplayed string

fun finalization_error_display :: "GenerationFinalizationError \<Rightarrow> string" where
  "finalization_error_display (GfeReplayed controller_display) = controller_display"
| "finalization_error_display (GfeFinalize (SinkShutdownError (SinkIo err))) =
     ''failed to finalize generation: I/O error while writing run output: '' @ err"
| "finalization_error_display (GfeFinalize err) =
     ''failed to finalize generation: '' @ shutdown_error_display err"

definition prior_finalization_error :: "string \<Rightarrow> GenerationFinalizationError" where
  "prior_finalization_error message = GfeReplayed (''failed to finalize generation: '' @ message)"

datatype DisableOutcome =
    AlreadyDisabled
  | AlreadyShutdown
  | Closing u64 u64
  | Finalized u64

section \<open>State\<close>

datatype GenerationFinalizationResult =
    FinalizationPending
  | FinalizationSuccess
  | FinalizationTerminalFailure string

record 'c ActiveGenerationRuntime =
  gr_generation_id :: u64
  gr_started_at_unix_ms :: u64
  gr_activation_config :: ControllerActivationTemplate
  gr_artifact_path :: string
  gr_run :: "('c, unit) Tailtriage"
  gr_admitted_request_slots :: nat
  gr_finalization_result :: GenerationFinalizationResult
  gr_accepting_new :: bool
  gr_closing :: bool
  gr_inflight_captured :: u64
  gr_finalize_started :: bool
  gr_last_finalization_error :: "string option"
  gr_runtime_sampler :: "SamplerTask option"

text \<open>
  The limits-hit listener of a generation's run is always the same closure, so it is the value
  \<open>()\<close>. The lifecycle refers to generations by reference: the cell that holds the generation,
  and its immutable identifier.
\<close>

record generation_ref =
  ref_cell :: nat
  ref_id :: u64

datatype ControllerLifecycle =
    LcDisabled u64
  | LcActive generation_ref u64
  | LcTerminalFailed generation_ref u64 string
  | LcShutdown "generation_ref option" u64

record ActiveGenerationState =
  ags_generation_id :: u64
  ags_started_at_unix_ms :: u64
  ags_artifact_path :: string
  ags_accepting_new_admissions :: bool
  ags_closing :: bool
  ags_inflight_captured_requests :: u64
  ags_finalization_in_progress :: bool
  ags_last_finalization_error :: "string option"
  ags_activation_config :: ControllerActivationTemplate

datatype GenerationState =
    GsDisabled u64
  | GsActive ActiveGenerationState
  | GsShutdown

record TailtriageControllerStatus =
  cst_template :: TailtriageControllerTemplate
  cst_generation :: GenerationState

definition generation_snapshot :: "'c ActiveGenerationRuntime \<Rightarrow> ActiveGenerationState" where
  "generation_snapshot self =
     \<lparr>ags_generation_id = gr_generation_id self, ags_started_at_unix_ms = gr_started_at_unix_ms self,
      ags_artifact_path = gr_artifact_path self, ags_accepting_new_admissions = gr_accepting_new self,
      ags_closing = gr_closing self, ags_inflight_captured_requests = gr_inflight_captured self,
      ags_finalization_in_progress = gr_finalize_started self,
      ags_last_finalization_error = gr_last_finalization_error self,
      ags_activation_config = gr_activation_config self\<rparr>"

fun lifecycle_snapshot :: "(nat \<Rightarrow> 'c ActiveGenerationRuntime) \<Rightarrow> ControllerLifecycle \<Rightarrow> GenerationState" where
  "lifecycle_snapshot deref (LcDisabled next_generation) = GsDisabled next_generation"
| "lifecycle_snapshot deref (LcActive active _) = GsActive (generation_snapshot (deref (ref_cell active)))"
| "lifecycle_snapshot deref (LcTerminalFailed active _ _) =
     GsActive (generation_snapshot (deref (ref_cell active)))"
| "lifecycle_snapshot deref (LcShutdown _ _) = GsShutdown"

definition controller_status :: "(nat \<Rightarrow> 'c ActiveGenerationRuntime) \<Rightarrow> ControllerLifecycle
    \<Rightarrow> TailtriageControllerTemplate \<Rightarrow> TailtriageControllerStatus" where
  "controller_status deref lifecycle template =
     \<lparr>cst_template = template, cst_generation = lifecycle_snapshot deref lifecycle\<rparr>"

section \<open>Reloading\<close>

definition is_shutdown :: "ControllerLifecycle \<Rightarrow> bool" where
  "is_shutdown lifecycle = (case lifecycle of LcShutdown _ _ \<Rightarrow> True | _ \<Rightarrow> False)"

definition reload_template :: "TailtriageControllerTemplate \<Rightarrow> ControllerLifecycle
    \<Rightarrow> TailtriageControllerTemplate \<Rightarrow> TailtriageControllerTemplate \<times> (ReloadTemplateError + unit)" where
  "reload_template next_template lifecycle template =
     (if is_shutdown lifecycle then (template, Inl RtControllerShutdown)
      else case validate_public_template next_template of
             Inl e \<Rightarrow> (template, Inl (RtValidate e))
           | Inr resolved \<Rightarrow> (resolved, Inr ()))"

definition reload_config :: "(string \<Rightarrow> ConfigLoadError + ControllerConfigFile) \<Rightarrow> BaseControllerTemplate
    \<Rightarrow> ControllerLifecycle \<Rightarrow> TailtriageControllerTemplate
    \<Rightarrow> TailtriageControllerTemplate \<times> (ReloadConfigError + unit)" where
  "reload_config from_path base lifecycle template =
     (if is_shutdown lifecycle then (template, Inl RcControllerShutdown)
      else case tpl_config_path template of
             None \<Rightarrow> (template, Inl RcMissingConfigPath)
           | Some config_path \<Rightarrow>
               (case from_path config_path of
                  Inl e \<Rightarrow> (template, Inl (RcLoad e))
                | Inr loaded \<Rightarrow>
                    (case resolve_controller_template base (Some template) (Some loaded) of
                       Inl e \<Rightarrow> (template, Inl (RcValidate e))
                     | Inr resolved \<Rightarrow> (resolved, Inr ()))))"

section \<open>Enabling\<close>

definition sampler_builder_of :: "RuntimeSamplerTemplate \<Rightarrow> RuntimeSamplerBuilder" where
  "sampler_builder_of template =
     (let b = sampler_builder;
          b = (case rst_mode_override template of Some m \<Rightarrow> sampler_mode m b | None \<Rightarrow> b);
          b = (case rst_interval template of Some i \<Rightarrow> sampler_interval i b | None \<Rightarrow> b)
      in case rst_max_runtime_snapshots template of
           Some n \<Rightarrow> sampler_max_runtime_snapshots n b | None \<Rightarrow> b)"

definition start_runtime_sampler_if_enabled :: "bool \<Rightarrow> TailtriageControllerTemplate
    \<Rightarrow> 'c ActiveGenerationRuntime \<Rightarrow> EnableError + 'c ActiveGenerationRuntime" where
  "start_runtime_sampler_if_enabled runtime_present template runtime =
     (if \<not> rst_enabled (tpl_runtime_sampler template) then Inr runtime
      else if \<not> runtime_present then Inl EnMissingTokioRuntimeForSampler
      else case sampler_start runtime_present (sampler_builder_of (tpl_runtime_sampler template)) (gr_run runtime) of
             (Inl e, _) \<Rightarrow> Inl (EnStartRuntimeSampler e)
           | (Inr task, run) \<Rightarrow> Inr (runtime\<lparr>gr_run := run, gr_runtime_sampler := Some task\<rparr>))"

definition generation_builder :: "TailtriageControllerTemplate \<Rightarrow> u64 \<Rightarrow> 'c TailtriageBuilder" where
  "generation_builder template next_generation =
     (let b = builder_new (tpl_service_name template);
          b = builder_run_id (tpl_service_name template @ ''-generation-'' @ show_word next_generation) b;
          b = builder_output (generated_artifact_path (tpl_output_path template) next_generation) b;
          b = (case tpl_mode template of
                 Light \<Rightarrow> builder_mode Light b
               | Investigation \<Rightarrow> builder_mode Investigation b);
          b = builder_capture_limits_override (tpl_capture_limits_override template) b
      in builder_strict_lifecycle (tpl_strict_lifecycle template) b)"

definition activation_of :: "TailtriageControllerTemplate \<Rightarrow> ControllerActivationTemplate" where
  "activation_of template =
     \<lparr>act_output_path = tpl_output_path template, act_mode = tpl_mode template,
      act_capture_limits_override = tpl_capture_limits_override template,
      act_strict_lifecycle = tpl_strict_lifecycle template,
      act_runtime_sampler = tpl_runtime_sampler template,
      act_run_end_policy = tpl_run_end_policy template\<rparr>"

text \<open>\<open>make_run\<close> is the core's construction of a collector, with the clock and the host filled in.\<close>

definition construct_generation :: "('c Config \<Rightarrow> BuildError + ('c, unit) Tailtriage) \<Rightarrow> bool
    \<Rightarrow> TailtriageControllerTemplate \<Rightarrow> u64 \<Rightarrow> EnableError + 'c ActiveGenerationRuntime" where
  "construct_generation make_run runtime_present template next_generation =
     (case builder_build make_run (generation_builder template next_generation) of
        Inl e \<Rightarrow> Inl (EnBuild e)
      | Inr run \<Rightarrow>
          let runtime =
                \<lparr>gr_generation_id = next_generation,
                 gr_started_at_unix_ms = md_started_at_unix_ms (run_metadata (tailtriage_snapshot run)),
                 gr_activation_config = activation_of template,
                 gr_artifact_path = generated_artifact_path (tpl_output_path template) next_generation,
                 gr_run = run, gr_admitted_request_slots = 0,
                 gr_finalization_result = FinalizationPending, gr_accepting_new = True,
                 gr_closing = False, gr_inflight_captured = 0, gr_finalize_started = False,
                 gr_last_finalization_error = None, gr_runtime_sampler = None\<rparr>;
              runtime = (if tpl_run_end_policy template = AutoSealPolicy
                         then runtime\<lparr>gr_run := set_limits_hit_listener (Some ()) (gr_run runtime)\<rparr>
                         else runtime)
          in start_runtime_sampler_if_enabled runtime_present template runtime)"

definition saturating_succ :: "u64 \<Rightarrow> u64" where
  "saturating_succ n = saturating_add n 1"

text \<open>\<open>fresh\<close> is the address the new generation is allocated at.\<close>

definition enable :: "('c Config \<Rightarrow> BuildError + ('c, unit) Tailtriage) \<Rightarrow> bool
    \<Rightarrow> TailtriageControllerTemplate \<Rightarrow> nat \<Rightarrow> ControllerLifecycle
    \<Rightarrow> EnableError + ControllerLifecycle \<times> 'c ActiveGenerationRuntime" where
  "enable make_run runtime_present template fresh lifecycle =
     (let create = (\<lambda>next_generation.
            case construct_generation make_run runtime_present template next_generation of
              Inl e \<Rightarrow> Inl e
            | Inr runtime \<Rightarrow>
                Inr (LcActive \<lparr>ref_cell = fresh, ref_id = gr_generation_id runtime\<rparr>
                       (saturating_succ next_generation), runtime))
      in case lifecycle of
           LcDisabled next_generation \<Rightarrow> create next_generation
         | LcTerminalFailed _ next_generation _ \<Rightarrow> create next_generation
         | LcActive active _ \<Rightarrow> Inl (EnAlreadyActive (ref_id active))
         | LcShutdown _ _ \<Rightarrow> Inl EnControllerShutdown)"

section \<open>Building a controller\<close>

record 'c built_controller =
  bc_template :: TailtriageControllerTemplate
  bc_base :: BaseControllerTemplate
  bc_lifecycle :: ControllerLifecycle
  bc_generation :: "'c ActiveGenerationRuntime option"

definition controller_build :: "(string \<Rightarrow> ConfigLoadError + ControllerConfigFile)
    \<Rightarrow> ('c Config \<Rightarrow> BuildError + ('c, unit) Tailtriage) \<Rightarrow> bool \<Rightarrow> TailtriageControllerBuilder
    \<Rightarrow> ControllerBuildError + 'c built_controller" where
  "controller_build from_path make_run runtime_present self =
     (let loaded = (case tcb_config_path self of
            None \<Rightarrow> Inr None
          | Some path \<Rightarrow> (case from_path path of Inl e \<Rightarrow> Inl e | Inr file \<Rightarrow> Inr (Some file)))
      in case loaded of
           Inl e \<Rightarrow> Inl (CbConfigLoad e)
         | Inr loaded \<Rightarrow>
             let initially_enabled = unwrap_or (Option.bind loaded ccx_initially_enabled)
                                       (tcb_initially_enabled self)
             in (case resolve_controller_template (base_template self) None loaded of
                   Inl TplEmptyServiceName \<Rightarrow> Inl CbEmptyServiceName
                 | Inl TplMissingOutput \<Rightarrow> Inl CbMissingOutput
                 | Inr template \<Rightarrow>
                     let built = \<lparr>bc_template = template, bc_base = base_template self,
                                  bc_lifecycle = LcDisabled 1, bc_generation = None\<rparr>
                     in if initially_enabled
                        then (case enable make_run runtime_present template 0 (bc_lifecycle built) of
                                Inl e \<Rightarrow> Inl (CbInitialEnable e)
                              | Inr (lifecycle, generation) \<Rightarrow>
                                  Inr (built\<lparr>bc_lifecycle := lifecycle, bc_generation := Some generation\<rparr>))
                        else Inr built))"

section \<open>Requests\<close>

record InertControllerRequestHandle =
  irh_request_id :: string
  irh_route :: string
  irh_kind :: "string option"

datatype ControllerRequestHandle =
    CapturedHandle RequestHandle
  | InertHandle InertControllerRequestHandle

definition inert_handle_new :: "string \<Rightarrow> RequestOptions \<Rightarrow> string \<Rightarrow> InertControllerRequestHandle" where
  "inert_handle_new route options fallback_request_id =
     \<lparr>irh_request_id = unwrap_or (opt_request_id options) fallback_request_id, irh_route = route,
      irh_kind = opt_kind options\<rparr>"

text \<open>\<^verbatim>\<open>next_inert_request_id\<close>: the identifier and the counter after it.\<close>

definition next_inert_request_id :: "u64 \<Rightarrow> string \<times> u64" where
  "next_inert_request_id seq = (''inert-'' @ show_word seq, seq + 1)"

fun is_captured :: "ControllerRequestHandle \<Rightarrow> bool" where
  "is_captured (CapturedHandle _) = True"
| "is_captured (InertHandle _) = False"

fun captured_handle :: "ControllerRequestHandle \<Rightarrow> RequestHandle option" where
  "captured_handle (CapturedHandle handle) = Some handle"
| "captured_handle (InertHandle _) = None"

fun ctl_request_id :: "ControllerRequestHandle \<Rightarrow> string" where
  "ctl_request_id (CapturedHandle handle) = rh_request_id handle"
| "ctl_request_id (InertHandle handle) = irh_request_id handle"

fun ctl_route :: "ControllerRequestHandle \<Rightarrow> string" where
  "ctl_route (CapturedHandle handle) = rh_route handle"
| "ctl_route (InertHandle handle) = irh_route handle"

fun ctl_kind :: "ControllerRequestHandle \<Rightarrow> string option" where
  "ctl_kind (CapturedHandle handle) = rh_kind handle"
| "ctl_kind (InertHandle handle) = irh_kind handle"

text \<open>
  The wrappers of the timers and the guard: an inert one touches no run. A first poll of a
  captured timer arms it, as the core does.
\<close>

fun ctl_stage_first_poll :: "clock_reading \<Rightarrow> string \<Rightarrow> ControllerRequestHandle \<Rightarrow> ('c, 'l) Tailtriage
    \<Rightarrow> ArmedTimerRecord option" where
  "ctl_stage_first_poll now stage (CapturedHandle handle) run = stage_first_poll now stage handle run"
| "ctl_stage_first_poll now stage (InertHandle _) run = None"

fun ctl_queue_first_poll :: "clock_reading \<Rightarrow> string \<Rightarrow> u64 option \<Rightarrow> ControllerRequestHandle
    \<Rightarrow> ('c, 'l) Tailtriage \<Rightarrow> ArmedTimerRecord option" where
  "ctl_queue_first_poll now queue depth (CapturedHandle handle) run = queue_first_poll now queue depth handle run"
| "ctl_queue_first_poll now queue depth (InertHandle _) run = None"

fun ctl_inflight :: "clock_reading \<Rightarrow> string \<Rightarrow> ControllerRequestHandle \<Rightarrow> ('c, 'l) Tailtriage
    \<Rightarrow> InflightGuard option \<times> ('c, 'l) Tailtriage \<times> 'l list" where
  "ctl_inflight now gauge (CapturedHandle handle) run =
     (let (guard, res) = handle_inflight now gauge handle run in (Some guard, res))"
| "ctl_inflight now gauge (InertHandle _) run = (None, run, [])"

text \<open>
  The completion token of an admitted request. Its \<open>acc_completion\<close> is the core's token while it
  is not taken, which itself may be unarmed. An inert token has no state.
\<close>

record ActiveControllerCompletion =
  acc_completion :: "ArmedCompletion option option"
  acc_admission_generation_id :: u64
  acc_run_end_policy :: RunEndPolicy
  acc_inflight_recorded :: bool

section \<open>Frames\<close>

text \<open>
  A thread inside the controller is the list of what it still has to do, innermost call first.
  \<open>FReleaseAdmission\<close>, \<open>FBegin\<close> and \<open>FCommit\<close> belong to a thread that holds the admission gate of
  the generation, \<open>FShutdownBegin\<close>, \<open>FSinkWrite\<close>, \<open>FSettle\<close> and \<open>FPublish\<close> to one that holds its
  finalization gate.
\<close>

datatype caller = CallerIgnores | CallerDisable | CallerShutdown

datatype after_close = AfterLimits | AfterMark | AfterDisable | AfterShutdown

datatype frame =
    FAdmit string RequestOptions
  | FRefuse string RequestOptions
  | FBegin string RequestOptions
  | FCommit StartedRequest
  | FReleaseAdmission
  | FInert string RequestOptions
  | FLimits
  | FClose RunEndReason after_close
  | FCoreFinish ArmedCompletion Outcome
  | FMark RunEndPolicy
  | FMarkSub
  | FMarkCheck
  | FFinalize caller
  | FShutdownBegin caller u64
  | FSinkWrite caller u64 Run
  | FSettle caller u64 "ShutdownError + unit"
  | FPublish caller u64 "ShutdownError + unit"

fun holds_admission :: "frame \<Rightarrow> bool" where
  "holds_admission (FBegin _ _) = True"
| "holds_admission (FCommit _) = True"
| "holds_admission FReleaseAdmission = True"
| "holds_admission _ = False"

fun holds_finalization :: "frame \<Rightarrow> bool" where
  "holds_finalization (FShutdownBegin _ _) = True"
| "holds_finalization (FSinkWrite _ _ _) = True"
| "holds_finalization (FSettle _ _ _) = True"
| "holds_finalization (FPublish _ _ _) = True"
| "holds_finalization _ = False"

definition limits_frames :: "unit list \<Rightarrow> frame list" where
  "limits_frames calls = map (\<lambda>_. FLimits) calls"

section \<open>Admission\<close>

definition close_generation_admissions_locked ::
    "RunEndReason \<Rightarrow> 'c ActiveGenerationRuntime \<Rightarrow> 'c ActiveGenerationRuntime \<times> u64" where
  "close_generation_admissions_locked reason active =
     (active\<lparr>gr_run := set_run_end_reason_if_absent reason (gr_run active),
             gr_accepting_new := False, gr_closing := True\<rparr>,
      gr_inflight_captured active)"

definition auto_seal :: "'c ActiveGenerationRuntime \<Rightarrow> bool" where
  "auto_seal active \<longleftrightarrow> act_run_end_policy (gr_activation_config active) = AutoSealPolicy"

definition run_limits_hit :: "('c, 'l) Tailtriage \<Rightarrow> bool" where
  "run_limits_hit run = tr_limits_hit (run_truncation (tailtriage_snapshot run))"

text \<open>The decision of \<^verbatim>\<open>begin_request_with\<close> once it holds the admission gate.\<close>

definition admit :: "string \<Rightarrow> RequestOptions \<Rightarrow> 'c ActiveGenerationRuntime
    \<Rightarrow> 'c ActiveGenerationRuntime \<times> frame list" where
  "admit route options active =
     (if gr_accepting_new active then
        if auto_seal active \<and> run_limits_hit (gr_run active)
        then (fst (close_generation_admissions_locked AutoSealOnLimitsHit active), [FInert route options])
        else
          (let max_requests = max_requests (ecc_capture_limits (tt_effective_core_config (gr_run active)))
           in if gr_admitted_request_slots active \<ge> max_requests
              then (if auto_seal active
                    then fst (close_generation_admissions_locked AutoSealOnLimitsHit active) else active,
                    [FRefuse route options, FReleaseAdmission, FInert route options])
              else (active, [FBegin route options]))
      else (active, [FInert route options]))"

text \<open>The refused request is begun in the core for its accounting, and dropped.\<close>

definition begin_refused :: "clock_reading \<Rightarrow> clock_reading \<Rightarrow> string \<Rightarrow> RequestOptions \<Rightarrow> statics
    \<Rightarrow> 'c ActiveGenerationRuntime \<Rightarrow> statics \<times> 'c ActiveGenerationRuntime \<times> frame list" where
  "begin_refused now1 now2 route options st active =
     (let (refused, st, run, calls) = begin_request_with now1 now2 route options st (gr_run active)
      in (st, active\<lparr>gr_run := run\<rparr>,
          limits_frames calls @
            (case sr_completion refused of Some armed \<Rightarrow> [FCoreFinish armed OutcomeCancelled] | None \<Rightarrow> [])))"

definition begin_admitted :: "clock_reading \<Rightarrow> clock_reading \<Rightarrow> string \<Rightarrow> RequestOptions \<Rightarrow> statics
    \<Rightarrow> 'c ActiveGenerationRuntime \<Rightarrow> statics \<times> 'c ActiveGenerationRuntime \<times> frame list" where
  "begin_admitted now1 now2 route options st active =
     (let (started, st, run, calls) = begin_request_with now1 now2 route options st (gr_run active)
      in (st, active\<lparr>gr_run := run\<rparr>, limits_frames calls @ [FCommit started]))"

definition commit_admission :: "StartedRequest \<Rightarrow> 'c ActiveGenerationRuntime
    \<Rightarrow> 'c ActiveGenerationRuntime \<times> ControllerRequestHandle \<times> ActiveControllerCompletion" where
  "commit_admission started active =
     (active\<lparr>gr_admitted_request_slots := gr_admitted_request_slots active + 1,
             gr_inflight_captured := gr_inflight_captured active + 1\<rparr>,
      CapturedHandle (sr_handle started),
      \<lparr>acc_completion = Some (sr_completion started),
       acc_admission_generation_id = gr_generation_id active,
       acc_run_end_policy = act_run_end_policy (gr_activation_config active),
       acc_inflight_recorded = True\<rparr>)"

section \<open>Completion\<close>

text \<open>The start of \<^verbatim>\<open>mark_finished\<close>, which runs at most once per token.\<close>

definition mark_finished :: "ActiveControllerCompletion \<Rightarrow> ActiveControllerCompletion \<times> frame list" where
  "mark_finished self =
     (if \<not> acc_inflight_recorded self then (self, [])
      else (self\<lparr>acc_inflight_recorded := False\<rparr>, [FMark (acc_run_end_policy self)]))"

definition core_finish_frames :: "ArmedCompletion option \<Rightarrow> Outcome \<Rightarrow> frame list" where
  "core_finish_frames completion outcome =
     (case completion of Some armed \<Rightarrow> [FCoreFinish armed outcome] | None \<Rightarrow> [])"

definition ctl_completion_drop :: "ActiveControllerCompletion \<Rightarrow> frame list" where
  "ctl_completion_drop self =
     (let (self', marks) = mark_finished (self\<lparr>acc_completion := None\<rparr>)
      in (case acc_completion self of
            Some completion \<Rightarrow> core_finish_frames completion OutcomeCancelled
          | None \<Rightarrow> []) @ marks)"

text \<open>Finishing consumes the token, so it is dropped afterwards.\<close>

definition ctl_completion_finish :: "Outcome \<Rightarrow> ActiveControllerCompletion \<Rightarrow> frame list" where
  "ctl_completion_finish outcome self =
     (case acc_completion self of
        Some completion \<Rightarrow>
          let (self', marks) = mark_finished (self\<lparr>acc_completion := None\<rparr>)
          in core_finish_frames completion outcome @ marks @ ctl_completion_drop self'
      | None \<Rightarrow> ctl_completion_drop self)"

definition ctl_completion_finish_ok :: "ActiveControllerCompletion \<Rightarrow> frame list" where
  "ctl_completion_finish_ok self = ctl_completion_finish OutcomeOk self"

definition ctl_completion_finish_result :: "'e + 'a \<Rightarrow> ActiveControllerCompletion \<Rightarrow> ('e + 'a) \<times> frame list" where
  "ctl_completion_finish_result result self =
     (result, case acc_completion self of
        Some completion \<Rightarrow>
          let (self', marks) = mark_finished (self\<lparr>acc_completion := None\<rparr>)
          in core_finish_frames completion (case result of Inr _ \<Rightarrow> OutcomeOk | Inl _ \<Rightarrow> OutcomeError)
               @ marks @ ctl_completion_drop self'
      | None \<Rightarrow> ctl_completion_drop self)"

definition mark_limits :: "RunEndPolicy \<Rightarrow> 'c ActiveGenerationRuntime \<Rightarrow> frame list" where
  "mark_limits policy active =
     (if policy = AutoSealPolicy \<and> run_limits_hit (gr_run active)
      then [FClose AutoSealOnLimitsHit AfterMark] else [FMarkSub])"

definition mark_sub :: "'c ActiveGenerationRuntime \<Rightarrow> 'c ActiveGenerationRuntime \<times> frame list" where
  "mark_sub active =
     (let before = gr_inflight_captured active;
          remaining = unat before - 1
      in (active\<lparr>gr_inflight_captured := before - 1\<rparr>, if remaining = 0 then [FMarkCheck] else []))"

definition mark_check :: "'c ActiveGenerationRuntime \<Rightarrow> frame list" where
  "mark_check active = (if gr_closing active then [FFinalize CallerIgnores] else [])"

text \<open>\<^verbatim>\<open>on_limits_hit_signal\<close>.\<close>

definition limits_signal :: "'c ActiveGenerationRuntime \<Rightarrow> frame list" where
  "limits_signal active =
     (if gr_closing active
      then if gr_inflight_captured active > 0 then [] else [FFinalize CallerIgnores]
      else [FClose AutoSealOnLimitsHit AfterLimits])"

section \<open>Finalization\<close>

definition replay_generation_result :: "'c ActiveGenerationRuntime
    \<Rightarrow> (GenerationFinalizationError + unit) option" where
  "replay_generation_result active = (case gr_finalization_result active of
       FinalizationSuccess \<Rightarrow> Some (Inr ())
     | FinalizationTerminalFailure message \<Rightarrow> Some (Inl (prior_finalization_error message))
     | FinalizationPending \<Rightarrow> None)"

definition set_generation_result :: "GenerationFinalizationResult \<Rightarrow> 'c ActiveGenerationRuntime
    \<Rightarrow> 'c ActiveGenerationRuntime" where
  "set_generation_result next_result active = active\<lparr>gr_finalization_result := next_result\<rparr>"

text \<open>
  \<^verbatim>\<open>finalize_generation\<close> up to the call of the core's shutdown: an answer, or the number of the
  next generation to go on with. Stopping the sampler waits for its task, so that no tick comes
  after it.
\<close>

definition finalize_entry :: "ControllerLifecycle \<Rightarrow> 'c ActiveGenerationRuntime
    \<Rightarrow> 'c ActiveGenerationRuntime \<times> ((GenerationFinalizationError + unit) + u64)" where
  "finalize_entry lifecycle active =
     (case replay_generation_result active of
        Some result \<Rightarrow> (active, Inl result)
      | None \<Rightarrow>
          let go = (active\<lparr>gr_finalize_started := True, gr_last_finalization_error := None,
                           gr_runtime_sampler := None\<rparr>)
          in case lifecycle of
               LcActive current next_generation \<Rightarrow>
                 if ref_id current = gr_generation_id active then (go, Inr next_generation)
                 else (active, Inl (Inr ()))
             | LcTerminalFailed current _ message \<Rightarrow>
                 if ref_id current = gr_generation_id active
                 then (if gr_finalization_result active = FinalizationPending
                       then set_generation_result (FinalizationTerminalFailure message) active
                       else active,
                       Inl (Inl (prior_finalization_error message)))
                 else (active, Inl (Inr ()))
             | LcShutdown (Some current) next_generation \<Rightarrow>
                 if ref_id current = gr_generation_id active then (go, Inr next_generation)
                 else (active, Inl (Inr ()))
             | _ \<Rightarrow> (active, Inl (Inr ())))"

fun retryable :: "ShutdownError \<Rightarrow> bool" where
  "retryable (UnfinishedRequestsError _) = True"
| "retryable (SinkShutdownError _) = False"

text \<open>After the core's shutdown: the generation's own record of the result.\<close>

definition finalize_settle :: "ShutdownError + unit \<Rightarrow> 'c ActiveGenerationRuntime
    \<Rightarrow> 'c ActiveGenerationRuntime" where
  "finalize_settle result active =
     (let active = active\<lparr>gr_finalize_started := False\<rparr>
      in case result of
           Inr _ \<Rightarrow> set_generation_result FinalizationSuccess active
         | Inl source \<Rightarrow>
             let active = active\<lparr>gr_last_finalization_error :=
                            Some (finalization_error_display (GfeFinalize source))\<rparr>
             in if retryable source then active
                else set_generation_result (FinalizationTerminalFailure (shutdown_error_display source)) active)"

text \<open>And the lifecycle's: it moves on unless someone else has already moved it.\<close>

definition finalize_publish :: "ShutdownError + unit \<Rightarrow> u64 \<Rightarrow> u64 \<Rightarrow> ControllerLifecycle
    \<Rightarrow> ControllerLifecycle" where
  "finalize_publish result generation_id next_generation lifecycle =
     (case lifecycle of
        LcActive current ng \<Rightarrow>
          if ref_id current = generation_id \<and> ng = next_generation
          then (case result of
                  Inr _ \<Rightarrow> LcDisabled next_generation
                | Inl source \<Rightarrow> LcTerminalFailed current next_generation (shutdown_error_display source))
          else lifecycle
      | _ \<Rightarrow> lifecycle)"

definition finalize_answer :: "ShutdownError + unit \<Rightarrow> GenerationFinalizationError + unit" where
  "finalize_answer result = (case result of Inr u \<Rightarrow> Inr u | Inl source \<Rightarrow> Inl (GfeFinalize source))"

section \<open>Disable and shutdown\<close>

definition disable_lookup :: "ControllerLifecycle
    \<Rightarrow> (GenerationFinalizationError + DisableOutcome) + generation_ref" where
  "disable_lookup lifecycle = (case lifecycle of
       LcActive active _ \<Rightarrow> Inr active
     | LcShutdown _ _ \<Rightarrow> Inl (Inr AlreadyShutdown)
     | LcTerminalFailed _ _ message \<Rightarrow> Inl (Inl (prior_finalization_error message))
     | LcDisabled _ \<Rightarrow> Inl (Inr AlreadyDisabled))"

definition disable_answer :: "u64 \<Rightarrow> GenerationFinalizationError + unit
    \<Rightarrow> GenerationFinalizationError + DisableOutcome" where
  "disable_answer generation_id result =
     (case result of Inl e \<Rightarrow> Inl e | Inr _ \<Rightarrow> Inr (Finalized generation_id))"

definition shutdown_lookup :: "ControllerLifecycle \<Rightarrow> ControllerLifecycle \<times> generation_ref option" where
  "shutdown_lookup lifecycle =
     (let (active, next_generation) = (case lifecycle of
            LcActive active next_generation \<Rightarrow> (Some active, next_generation)
          | LcTerminalFailed active next_generation _ \<Rightarrow> (Some active, next_generation)
          | LcDisabled next_generation \<Rightarrow> (None, next_generation)
          | LcShutdown active next_generation \<Rightarrow> (active, next_generation))
      in (if is_shutdown lifecycle then lifecycle else LcShutdown active next_generation, active))"

text \<open>What the caller of a closure does with the in-flight count it read.\<close>

datatype call_result =
    DisableReturned "GenerationFinalizationError + DisableOutcome"
  | ShutdownReturned "GenerationFinalizationError + unit"
  | RequestStarted ControllerRequestHandle
  | EnableReturned "EnableError + ActiveGenerationState"
  | ReloadTemplateReturned "ReloadTemplateError + unit"
  | ReloadConfigReturned "ReloadConfigError + unit"

fun after_closure :: "after_close \<Rightarrow> u64 \<Rightarrow> u64 \<Rightarrow> frame list \<times> call_result list" where
  "after_closure AfterLimits generation_id n = (if n > 0 then [] else [FFinalize CallerIgnores], [])"
| "after_closure AfterMark generation_id n = ([FMarkSub], [])"
| "after_closure AfterDisable generation_id n =
     (if n = 0 then ([FFinalize CallerDisable], [])
      else ([], [DisableReturned (Inr (Closing generation_id n))]))"
| "after_closure AfterShutdown generation_id n = ([FFinalize CallerShutdown], [])"

fun answer_caller :: "caller \<Rightarrow> u64 \<Rightarrow> GenerationFinalizationError + unit \<Rightarrow> call_result list" where
  "answer_caller CallerIgnores generation_id result = []"
| "answer_caller CallerDisable generation_id result = [DisableReturned (disable_answer generation_id result)]"
| "answer_caller CallerShutdown generation_id result = [ShutdownReturned result]"

end
