(* ===== verification/Ctl_Threads.thy ===== *)
theory Ctl_Threads
  imports Ctl_Controller
begin

text \<open>
  The controller as a system of threads. A cell holds one generation with the outstanding
  completion tokens it admitted, the threads inside the controller that work on it, and the runs
  its sink was given. A step starts a call, performs one evidence operation or one tick of a
  sampler, or lets one thread execute its innermost frame; steps interleave freely. A generation
  stays in its cell for ever; the code frees it with its last reference, after which its state
  cannot be read.
\<close>

section \<open>State\<close>

record 'c cell =
  cl_gen :: "'c ActiveGenerationRuntime"
  cl_tokens :: "ActiveControllerCompletion list"
  cl_threads :: "frame list list"
  cl_written :: "Run list"

record ('c, 'w) ctl =
  ct_template :: TailtriageControllerTemplate
  ct_base :: BaseControllerTemplate
  ct_lifecycle :: ControllerLifecycle
  ct_inert_request_seq :: u64
  ct_statics :: statics
  ct_sequence :: nat
  ct_world :: 'w
  ct_returns :: "call_result list"
  ct_cells :: "'c cell list"

text \<open>
  \<open>ct_sequence\<close> counts the pending sequence numbers drawn in the process, \<open>cl_written\<close> and
  \<open>ct_returns\<close> record what happened; \<open>cl_written\<close> is the log of the sink itself (\<open>logged\<close>).
  Every step is atomic and sees the effects of all earlier ones: atomics are sequentially
  consistent here, where the code asks for less on some of them.
\<close>

definition new_cell :: "'c ActiveGenerationRuntime \<Rightarrow> 'c cell" where
  "new_cell runtime = \<lparr>cl_gen = runtime, cl_tokens = [], cl_threads = [], cl_written = []\<rparr>"

definition frames_of :: "'c cell \<Rightarrow> frame list" where
  "frames_of cell = concat (cl_threads cell)"

definition returns :: "call_result list \<Rightarrow> ('c, 'w) ctl \<Rightarrow> ('c, 'w) ctl" where
  "returns rs s = s\<lparr>ct_returns := ct_returns s @ rs\<rparr>"

section \<open>The step of a thread\<close>

text \<open>A frame that takes a gate waits while another thread holds it.\<close>

fun enabled :: "frame \<Rightarrow> frame list \<Rightarrow> bool" where
  "enabled (FAdmit _ _) fs = (\<not> list_ex holds_admission fs)"
| "enabled (FClose _ _) fs = (\<not> list_ex holds_admission fs)"
| "enabled (FFinalize _) fs = (\<not> list_ex holds_finalization fs)"
| "enabled _ fs = True"

type_synonym ('c, 'w) frame_result =
  "('c, 'w) ctl \<times> 'c ActiveGenerationRuntime \<times> frame list \<times> ActiveControllerCompletion list \<times> Run list"

text \<open>
  The effect of a frame: the shared state, the generation, the frames that replace it, the token
  handed out and the run given to the sink. \<open>None\<close> means that the thread waits.
\<close>

fun frame_step :: "('c dyn_sink \<Rightarrow> 'w \<Rightarrow> Run \<Rightarrow> 'w \<times> (SinkError + unit)) \<Rightarrow> clock_reading \<Rightarrow>
    clock_reading \<Rightarrow> frame \<Rightarrow> ('c, 'w) ctl \<Rightarrow> 'c ActiveGenerationRuntime \<Rightarrow> ('c, 'w) frame_result option" where
  "frame_step sink now1 now2 (FAdmit route options) s gen =
     (let (gen', fs) = admit route options gen in Some (s, gen', fs, [], []))"
| "frame_step sink now1 now2 (FRefuse route options) s gen =
     (let (st, gen', fs) = begin_refused now1 now2 route options (ct_statics s) gen
      in Some (s\<lparr>ct_statics := st, ct_sequence := Suc (ct_sequence s)\<rparr>, gen', fs, [], []))"
| "frame_step sink now1 now2 (FBegin route options) s gen =
     (let (st, gen', fs) = begin_admitted now1 now2 route options (ct_statics s) gen
      in Some (s\<lparr>ct_statics := st, ct_sequence := Suc (ct_sequence s)\<rparr>, gen', fs, [], []))"
| "frame_step sink now1 now2 (FCommit started) s gen =
     (let (gen', handle, token) = commit_admission started gen
      in Some (returns [RequestStarted handle] s, gen', [], [token], []))"
| "frame_step sink now1 now2 FReleaseAdmission s gen = Some (s, gen, [], [], [])"
| "frame_step sink now1 now2 (FInert route options) s gen =
     (let (rid, seq) = next_inert_request_id (ct_inert_request_seq s)
      in Some (returns [RequestStarted (InertHandle (inert_handle_new route options rid))]
                 (s\<lparr>ct_inert_request_seq := seq\<rparr>), gen, [], [], []))"
| "frame_step sink now1 now2 FLimits s gen = Some (s, gen, limits_signal gen, [], [])"
| "frame_step sink now1 now2 (FClose reason k) s gen =
     (let (gen', n) = close_generation_admissions_locked reason gen;
          (fs, rs) = after_closure k (gr_generation_id gen) n
      in Some (returns rs s, gen', fs, [], []))"
| "frame_step sink now1 now2 (FCoreFinish armed outcome) s gen =
     (let (run, calls) = completion_finish now1 outcome (Some armed) (gr_run gen)
      in Some (s, gen\<lparr>gr_run := run\<rparr>, limits_frames calls, [], []))"
| "frame_step sink now1 now2 (FMark policy) s gen = Some (s, gen, mark_limits policy gen, [], [])"
| "frame_step sink now1 now2 FMarkSub s gen =
     (let (gen', fs) = mark_sub gen in Some (s, gen', fs, [], []))"
| "frame_step sink now1 now2 FMarkCheck s gen = Some (s, gen, mark_check gen, [], [])"
| "frame_step sink now1 now2 (FFinalize caller) s gen =
     (case finalize_entry (ct_lifecycle s) gen of
        (gen', Inl result) \<Rightarrow>
          Some (returns (answer_caller caller (gr_generation_id gen) result) s, gen', [], [], [])
      | (gen', Inr next_generation) \<Rightarrow> Some (s, gen', [FShutdownBegin caller next_generation], [], []))"
| "frame_step sink now1 now2 (FShutdownBegin caller ng) s gen =
     (case shutdown_begin now1 (gr_run gen) of
        (run, ShutdownWaits) \<Rightarrow> None
      | (run, ShutdownReturns r) \<Rightarrow> Some (s, gen\<lparr>gr_run := run\<rparr>, [FSettle caller ng r], [], [])
      | (run, ShutdownFinalizes candidate) \<Rightarrow>
          Some (s, gen\<lparr>gr_run := run\<rparr>, [FSinkWrite caller ng candidate], [], []))"
| "frame_step sink now1 now2 (FSinkWrite caller ng candidate) s gen =
     (let (run, (w, log), r) = shutdown_finish (logged sink) candidate (ct_world s, []) (gr_run gen)
      in Some (s\<lparr>ct_world := w\<rparr>, gen\<lparr>gr_run := run\<rparr>, [FSettle caller ng r], [], log))"
| "frame_step sink now1 now2 (FSettle caller ng r) s gen =
     (case r of
        Inl (UnfinishedRequestsError n) \<Rightarrow>
          Some (returns (answer_caller caller (gr_generation_id gen) (finalize_answer r)) s,
                finalize_settle r gen, [], [], [])
      | _ \<Rightarrow> Some (s, finalize_settle r gen, [FPublish caller ng r], [], []))"
| "frame_step sink now1 now2 (FPublish caller ng r) s gen =
     Some (returns (answer_caller caller (gr_generation_id gen) (finalize_answer r))
             (s\<lparr>ct_lifecycle := finalize_publish r (gr_generation_id gen) ng (ct_lifecycle s)\<rparr>),
           gen, [], [], [])"

definition update_cell :: "nat \<Rightarrow> ('c cell \<Rightarrow> 'c cell) \<Rightarrow> ('c, 'w) ctl \<Rightarrow> ('c, 'w) ctl" where
  "update_cell g f s = s\<lparr>ct_cells := (ct_cells s)[g := f (ct_cells s ! g)]\<rparr>"

definition run_thread :: "('c dyn_sink \<Rightarrow> 'w \<Rightarrow> Run \<Rightarrow> 'w \<times> (SinkError + unit)) \<Rightarrow> clock_reading \<Rightarrow>
    clock_reading \<Rightarrow> nat \<Rightarrow> nat \<Rightarrow> ('c, 'w) ctl \<Rightarrow> ('c, 'w) ctl option" where
  "run_thread sink now1 now2 g i s =
     (if g < length (ct_cells s) \<and> i < length (cl_threads (ct_cells s ! g)) then
        let cell = ct_cells s ! g
        in case cl_threads cell ! i of
             [] \<Rightarrow> None
           | f # rest \<Rightarrow>
               if enabled f (frames_of cell) then
                 (case frame_step sink now1 now2 f s (cl_gen cell) of
                    None \<Rightarrow> None
                  | Some (s', gen', fs, toks, ws) \<Rightarrow>
                      Some (update_cell g (\<lambda>c. \<lparr>cl_gen = gen', cl_tokens = cl_tokens c @ toks,
                              cl_threads = (cl_threads c)[i := fs @ rest],
                              cl_written = cl_written c @ ws\<rparr>) s'))
               else None
      else None)"

section \<open>Steps\<close>

text \<open>What instrumentation of an admitted request may record in its run.\<close>

datatype evidence =
    EvTimer clock_reading "bool option" ArmedTimerRecord
  | EvInflight clock_reading string
  | EvGuardDrop clock_reading InflightGuard

fun record_evidence :: "evidence \<Rightarrow> ('c, 'l) Tailtriage \<Rightarrow> ('c, 'l) Tailtriage \<times> 'l list" where
  "record_evidence (EvTimer now ready armed) run = timer_end (now, ready, armed) run"
| "record_evidence (EvInflight now gauge) run = inflight_op (now, gauge) run"
| "record_evidence (EvGuardDrop now guard) run = inflight_guard_drop now guard run"

datatype ctl_action =
    ActEnable clock_reading string "string option" u32 bool
  | ActDisable
  | ActShutdown
  | ActBeginRequest string RequestOptions
  | ActFinish nat nat Outcome
  | ActDropCompletion nat nat
  | ActEvidence nat evidence
  | ActTick nat clock_reading RuntimeSnapshot
  | ActReloadTemplate TailtriageControllerTemplate
  | ActReloadConfig "ConfigLoadError + ControllerConfigFile"
  | ActThread nat nat clock_reading clock_reading
  | ActOtherCollector

definition spawn :: "frame list \<Rightarrow> 'c cell \<Rightarrow> 'c cell" where
  "spawn fs cell = cell\<lparr>cl_threads := cl_threads cell @ [fs]\<rparr>"

text \<open>A request limit is a machine word of the host.\<close>

definition usize_template :: "TailtriageControllerTemplate \<Rightarrow> bool" where
  "usize_template template \<longleftrightarrow>
     max_requests (override_apply (tpl_capture_limits_override template)
       (core_defaults (tpl_mode template))) \<le> u64_max"

fun ctl_exec :: "('c dyn_sink \<Rightarrow> 'w \<Rightarrow> Run \<Rightarrow> 'w \<times> (SinkError + unit)) \<Rightarrow> ctl_action \<Rightarrow>
    ('c, 'w) ctl \<Rightarrow> ('c, 'w) ctl option" where
  "ctl_exec sink (ActEnable now gid host pid runtime_present) s =
     (case enable (from_config now gid host pid) runtime_present (ct_template s)
             (length (ct_cells s)) (ct_lifecycle s) of
        Inl e \<Rightarrow> Some (returns [EnableReturned (Inl e)] s)
      | Inr (lifecycle, runtime) \<Rightarrow>
          Some (returns [EnableReturned (Inr (generation_snapshot runtime))]
                 (s\<lparr>ct_lifecycle := lifecycle, ct_cells := ct_cells s @ [new_cell runtime]\<rparr>)))"
| "ctl_exec sink ActDisable s =
     (case disable_lookup (ct_lifecycle s) of
        Inl r \<Rightarrow> Some (returns [DisableReturned r] s)
      | Inr active \<Rightarrow> Some (update_cell (ref_cell active) (spawn [FClose ManualDisarm AfterDisable]) s))"
| "ctl_exec sink ActShutdown s =
     (case shutdown_lookup (ct_lifecycle s) of
        (lifecycle, None) \<Rightarrow> Some (returns [ShutdownReturned (Inr ())] (s\<lparr>ct_lifecycle := lifecycle\<rparr>))
      | (lifecycle, Some active) \<Rightarrow>
          Some (update_cell (ref_cell active) (spawn [FClose Shutdown AfterShutdown])
                 (s\<lparr>ct_lifecycle := lifecycle\<rparr>)))"
| "ctl_exec sink (ActBeginRequest route options) s =
     (case ct_lifecycle s of
        LcActive active _ \<Rightarrow> Some (update_cell (ref_cell active) (spawn [FAdmit route options]) s)
      | _ \<Rightarrow>
          (let (rid, seq) = next_inert_request_id (ct_inert_request_seq s)
           in Some (returns [RequestStarted (InertHandle (inert_handle_new route options rid))]
                     (s\<lparr>ct_inert_request_seq := seq\<rparr>))))"
| "ctl_exec sink (ActFinish g j outcome) s =
     (if g < length (ct_cells s) \<and> j < length (cl_tokens (ct_cells s ! g)) then
        Some (update_cell g (\<lambda>c. spawn (ctl_completion_finish outcome (cl_tokens c ! j))
                (c\<lparr>cl_tokens := remove_nth j (cl_tokens c)\<rparr>)) s)
      else None)"
| "ctl_exec sink (ActDropCompletion g j) s =
     (if g < length (ct_cells s) \<and> j < length (cl_tokens (ct_cells s ! g)) then
        Some (update_cell g (\<lambda>c. spawn (ctl_completion_drop (cl_tokens c ! j))
                (c\<lparr>cl_tokens := remove_nth j (cl_tokens c)\<rparr>)) s)
      else None)"
| "ctl_exec sink (ActEvidence g ev) s =
     (if g < length (ct_cells s) then
        let (run, calls) = record_evidence ev (gr_run (cl_gen (ct_cells s ! g)))
        in Some (update_cell g (\<lambda>c. spawn (limits_frames calls)
                   (c\<lparr>cl_gen := (cl_gen c)\<lparr>gr_run := run\<rparr>\<rparr>)) s)
      else None)"
| "ctl_exec sink (ActTick g now snap) s =
     (if g < length (ct_cells s) then
        (case gr_runtime_sampler (cl_gen (ct_cells s ! g)) of
           None \<Rightarrow> None
         | Some task \<Rightarrow>
             let (task, run, calls) = sampler_step (SamplerTick now snap) task (gr_run (cl_gen (ct_cells s ! g)))
             in Some (update_cell g (\<lambda>c. spawn (limits_frames calls)
                   (c\<lparr>cl_gen := (cl_gen c)\<lparr>gr_run := run, gr_runtime_sampler := Some task\<rparr>\<rparr>)) s))
      else None)"
| "ctl_exec sink (ActReloadTemplate next_template) s =
     (if usize_template next_template then
        let (template, r) = reload_template next_template (ct_lifecycle s) (ct_template s)
        in Some (returns [ReloadTemplateReturned r] (s\<lparr>ct_template := template\<rparr>))
      else None)"
| "ctl_exec sink (ActReloadConfig loaded) s =
     (let (template, r) = reload_config (\<lambda>_. loaded) (ct_base s) (ct_lifecycle s) (ct_template s)
      in if usize_template template
         then Some (returns [ReloadConfigReturned r] (s\<lparr>ct_template := template\<rparr>)) else None)"
| "ctl_exec sink (ActThread g i now1 now2) s = run_thread sink now1 now2 g i s"
| "ctl_exec sink ActOtherCollector s =
     Some (s\<lparr>ct_statics := (ct_statics s)\<lparr>PENDING_SEQUENCE := PENDING_SEQUENCE (ct_statics s) + 1\<rparr>,
             ct_sequence := Suc (ct_sequence s)\<rparr>)"

definition ctl_init :: "statics \<Rightarrow> 'w \<Rightarrow> 'c built_controller \<Rightarrow> ('c, 'w) ctl" where
  "ctl_init st w built =
     \<lparr>ct_template = bc_template built, ct_base = bc_base built, ct_lifecycle = bc_lifecycle built,
      ct_inert_request_seq = 1, ct_statics = st, ct_sequence = unat (PENDING_SEQUENCE st),
      ct_world = w, ct_returns = [],
      ct_cells = (case bc_generation built of None \<Rightarrow> [] | Some runtime \<Rightarrow> [new_cell runtime])\<rparr>"

inductive ctl_reachable :: "('c dyn_sink \<Rightarrow> 'w \<Rightarrow> Run \<Rightarrow> 'w \<times> (SinkError + unit)) \<Rightarrow>
    ('c, 'w) ctl \<Rightarrow> bool" for sink where
  ctl_reach_build: "controller_build from_path (from_config now gid host pid) runtime_present builder = Inr built
    \<Longrightarrow> usize_template (bc_template built) \<Longrightarrow> ctl_reachable sink (ctl_init st w built)"
| ctl_reach_step: "ctl_reachable sink s \<Longrightarrow> ctl_exec sink a s = Some s' \<Longrightarrow> ctl_reachable sink s'"

fun ctl_exec_all :: "('c dyn_sink \<Rightarrow> 'w \<Rightarrow> Run \<Rightarrow> 'w \<times> (SinkError + unit)) \<Rightarrow> ctl_action list \<Rightarrow>
    ('c, 'w) ctl \<Rightarrow> ('c, 'w) ctl option" where
  "ctl_exec_all sink [] s = Some s"
| "ctl_exec_all sink (a # as) s = Option.bind (ctl_exec sink a s) (ctl_exec_all sink as)"

lemma ctl_reachable_exec_all:
  "ctl_reachable sink s \<Longrightarrow> ctl_exec_all sink as s = Some s' \<Longrightarrow> ctl_reachable sink s'"
  by (induction "as" arbitrary: s) (auto simp: bind_eq_Some_conv intro: ctl_reach_step)

end
