(* ===== verification/Ctl_Invariant.thy ===== *)
theory Ctl_Invariant
  imports Ctl_Threads
begin

text \<open>
  The invariant of the controller's system of threads. For one cell it says which frames may
  coexist, that the in-flight counter counts the outstanding completions, that the core's
  pending requests are exactly the armed ones, where a finalization is with respect to the phase
  of the core and the lifecycle, and that a closing generation that is not finalized has
  somebody who will attempt it. Every frame keeps it; for the whole controller it then holds in
  every reachable state in which the 64-bit counters have not wrapped.
\<close>

section \<open>Frames of a cell\<close>

fun frame_armed :: "frame \<Rightarrow> ArmedCompletion list" where
  "frame_armed (FCoreFinish a _) = [a]"
| "frame_armed (FCommit st) = (case sr_completion st of Some a \<Rightarrow> [a] | None \<Rightarrow> [])"
| "frame_armed _ = []"

definition token_armed :: "ActiveControllerCompletion \<Rightarrow> ArmedCompletion list" where
  "token_armed t = (case acc_completion t of Some (Some a) \<Rightarrow> [a] | _ \<Rightarrow> [])"

definition armed_keys :: "ActiveControllerCompletion list \<Rightarrow> frame list \<Rightarrow> u64 list" where
  "armed_keys toks F = map ac_pending_key (concat (map token_armed toks) @ concat (map frame_armed F))"

text \<open>The frames that still owe a decrement of the in-flight counter.\<close>

fun is_mark :: "frame \<Rightarrow> bool" where
  "is_mark (FMark _) = True"
| "is_mark FMarkSub = True"
| "is_mark (FClose _ AfterMark) = True"
| "is_mark _ = False"

definition outstanding :: "ActiveControllerCompletion list \<Rightarrow> frame list \<Rightarrow> nat" where
  "outstanding toks F = length toks + length (filter is_mark F)"

fun is_commit :: "frame \<Rightarrow> bool" where
  "is_commit (FCommit _) = True"
| "is_commit _ = False"

text \<open>The frames that will attempt to finalize a closing generation, or find the count positive.\<close>

fun attempts :: "frame \<Rightarrow> bool" where
  "attempts FLimits = True"
| "attempts (FClose _ k) = (k \<noteq> AfterMark)"
| "attempts FMarkCheck = True"
| "attempts (FFinalize _) = True"
| "attempts (FShutdownBegin _ _) = True"
| "attempts (FSinkWrite _ _ _) = True"
| "attempts (FSettle _ _ r) = (case r of Inl e \<Rightarrow> \<not> retryable e | Inr _ \<Rightarrow> True)"
| "attempts _ = False"

fun signals :: "frame \<Rightarrow> bool" where
  "signals FLimits = True"
| "signals (FClose _ AfterLimits) = True"
| "signals _ = False"

text \<open>The shape of a thread: one frame at work, and what follows it.\<close>

definition tail_ok :: "frame list \<Rightarrow> bool" where
  "tail_ok rest \<longleftrightarrow> rest = [] \<or> (\<exists>p. rest = [FMark p]) \<or> (\<exists>r x. rest = [FReleaseAdmission, FInert r x])
     \<or> (\<exists>r x. rest = [FInert r x])"

fun inner_frame :: "frame \<Rightarrow> bool" where
  "inner_frame (FRefuse _ _) = True"
| "inner_frame FLimits = True"
| "inner_frame (FFinalize _) = True"
| "inner_frame f = holds_finalization f"

fun head_ok :: "frame \<Rightarrow> frame list \<Rightarrow> bool" where
  "head_ok (FAdmit r x) rest = (rest = [])"
| "head_ok (FRefuse r x) rest = (\<exists>r x. rest = [FReleaseAdmission, FInert r x])"
| "head_ok (FCoreFinish a x) rest = (\<exists>p. rest = [FMark p])"
| "head_ok f rest = (FReleaseAdmission \<in> set rest \<longrightarrow> inner_frame f)"

definition thread_ok :: "frame list \<Rightarrow> bool" where
  "thread_ok t \<longleftrightarrow> (case t of [] \<Rightarrow> True | f # rest \<Rightarrow> tail_ok rest \<and> head_ok f rest)"

lemma frames_split:
  assumes "i < length ts" and "ts ! i = f # rest"
  obtains A B where "concat ts = A @ f # rest @ B"
    and "\<And>fs. concat (ts[i := fs @ rest]) = A @ fs @ rest @ B"
proof
  show "concat ts = concat (take i ts) @ f # rest @ concat (drop (Suc i) ts)"
    using id_take_nth_drop[OF assms(1)] assms(2) by (metis append_Cons concat.simps(2) concat_append)
  show "concat (ts[i := fs @ rest]) = concat (take i ts) @ fs @ rest @ concat (drop (Suc i) ts)" for fs
    using assms(1) by (simp add: upd_conv_take_nth_drop)
qed

section \<open>The invariant of a cell\<close>

abbreviation gen_limits :: "'c ActiveGenerationRuntime \<Rightarrow> CaptureLimits" where
  "gen_limits G \<equiv> tt_limits (gr_run G)"

definition run_ok :: "'c ActiveGenerationRuntime \<Rightarrow> bool" where
  "run_ok G \<longleftrightarrow> collector_inv (gr_run G)
     \<and> ecc_capture_limits (tt_effective_core_config (gr_run G)) = tt_limits (gr_run G)
     \<and> max_requests (gen_limits G) \<le> u64_max
     \<and> tt_limits_hit_listener (gr_run G) = (if auto_seal G then Some () else None)
     \<and> (case gr_runtime_sampler G of Some task \<Rightarrow> sampler_inv task (gr_run G) | None \<Rightarrow> True)"

definition tokens_ok :: "'c ActiveGenerationRuntime \<Rightarrow> ActiveControllerCompletion list \<Rightarrow> bool" where
  "tokens_ok G toks \<longleftrightarrow> (\<forall>t\<in>set toks. (\<exists>a. acc_completion t = Some (Some a)) \<and> acc_inflight_recorded t
     \<and> acc_run_end_policy t = act_run_end_policy (gr_activation_config G)
     \<and> acc_admission_generation_id t = gr_generation_id G)"

fun frame_ok :: "'c ActiveGenerationRuntime \<Rightarrow> frame \<Rightarrow> bool" where
  "frame_ok G (FBegin _ _) = (\<not> gr_closing G \<and> gr_admitted_request_slots G < max_requests (gen_limits G))"
| "frame_ok G (FCommit st) = (\<not> gr_closing G \<and> gr_admitted_request_slots G < max_requests (gen_limits G)
     \<and> sr_completion st \<noteq> None)"
| "frame_ok G (FRefuse _ _) = (gr_admitted_request_slots G = max_requests (gen_limits G)
     \<and> (auto_seal G \<longrightarrow> gr_closing G))"
| "frame_ok G FReleaseAdmission = (auto_seal G \<longrightarrow> gr_closing G)"
| "frame_ok G FLimits = auto_seal G"
| "frame_ok G (FMark p) = (p = act_run_end_policy (gr_activation_config G))"
| "frame_ok G (FFinalize _) = gr_closing G"
| "frame_ok G f = (holds_finalization f \<longrightarrow> gr_closing G)"

definition admission_ok :: "'c ActiveGenerationRuntime \<Rightarrow> frame list \<Rightarrow> bool" where
  "admission_ok G F \<longleftrightarrow> gr_accepting_new G = (\<not> gr_closing G)
     \<and> gr_admitted_request_slots G \<le> max_requests (gen_limits G)
     \<and> length (filter holds_admission F) \<le> 1 \<and> list_all (frame_ok G) F"

definition counts_ok :: "nat \<Rightarrow> 'c ActiveGenerationRuntime \<Rightarrow> ActiveControllerCompletion list
    \<Rightarrow> frame list \<Rightarrow> bool" where
  "counts_ok n G toks F \<longleftrightarrow>
     (is_open (gr_run G) \<longrightarrow>
        set (armed_keys toks F) = fst ` set (cs_pending_requests (tt_state (gr_run G)))
        \<and> gr_admitted_request_slots G + length (filter is_commit F)
            = length (run_requests (tt_run (gr_run G))) + length (cs_pending_requests (tt_state (gr_run G))))
     \<and> distinct (armed_keys toks F) \<and> list_all (\<lambda>k. unat k < n) (armed_keys toks F)
     \<and> gr_inflight_captured G = of_nat (outstanding toks F)
     \<and> outstanding toks F \<le> gr_admitted_request_slots G"

fun settled_phase :: "ShutdownError + unit \<Rightarrow> CollectorPhase \<Rightarrow> bool" where
  "settled_phase (Inr _) ph = (ph = PhaseClosed TerminalSuccess)"
| "settled_phase (Inl (SinkShutdownError e)) ph = (ph = PhaseClosed (TerminalFailure (sink_error_display e)))"
| "settled_phase (Inl (UnfinishedRequestsError _)) ph = (ph = PhaseOpen)"

fun result_of :: "ShutdownError + unit \<Rightarrow> GenerationFinalizationResult" where
  "result_of (Inr _) = FinalizationSuccess"
| "result_of (Inl (SinkShutdownError e)) = FinalizationTerminalFailure (sink_error_display e)"
| "result_of (Inl (UnfinishedRequestsError _)) = FinalizationPending"

text \<open>How the lifecycle refers to a cell.\<close>

datatype role = RoleActive u64 | RoleFailed string | RoleShutdown u64 | RoleGone

definition role_of :: "ControllerLifecycle \<Rightarrow> nat \<Rightarrow> role" where
  "role_of lifecycle g = (case lifecycle of
       LcDisabled _ \<Rightarrow> RoleGone
     | LcActive r ng \<Rightarrow> if ref_cell r = g then RoleActive ng else RoleGone
     | LcTerminalFailed r _ message \<Rightarrow> if ref_cell r = g then RoleFailed message else RoleGone
     | LcShutdown (Some r) ng \<Rightarrow> if ref_cell r = g then RoleShutdown ng else RoleGone
     | LcShutdown None _ \<Rightarrow> RoleGone)"

text \<open>The result of a generation nobody is finalizing, from the phase of its run.\<close>

fun phase_result :: "CollectorPhase \<Rightarrow> GenerationFinalizationResult option" where
  "phase_result PhaseOpen = Some FinalizationPending"
| "phase_result PhaseFinalizing = None"
| "phase_result (PhaseClosed TerminalSuccess) = Some FinalizationSuccess"
| "phase_result (PhaseClosed (TerminalFailure m)) = Some (FinalizationTerminalFailure m)"

fun role_result :: "role \<Rightarrow> GenerationFinalizationResult \<Rightarrow> bool" where
  "role_result (RoleActive _) res = (res = FinalizationPending)"
| "role_result (RoleFailed m) res = (res = FinalizationTerminalFailure m)"
| "role_result (RoleShutdown _) res = True"
| "role_result RoleGone res = (res \<noteq> FinalizationPending)"

fun role_ng :: "role \<Rightarrow> u64 \<Rightarrow> bool" where
  "role_ng (RoleActive ng') ng = (ng = ng')"
| "role_ng (RoleShutdown _) ng = True"
| "role_ng _ ng = False"

fun holder_ok :: "role \<Rightarrow> 'c ActiveGenerationRuntime \<Rightarrow> frame \<Rightarrow> bool" where
  "holder_ok r G (FShutdownBegin _ ng) = (role_ng r ng \<and> is_open (gr_run G)
     \<and> gr_finalization_result G = FinalizationPending)"
| "holder_ok r G (FSinkWrite _ ng candidate) = (role_ng r ng
     \<and> cs_phase (tt_state (gr_run G)) = PhaseFinalizing \<and> candidate = tt_run (gr_run G)
     \<and> gr_finalization_result G = FinalizationPending)"
| "holder_ok r G (FSettle _ ng x) = (role_ng r ng \<and> settled_phase x (cs_phase (tt_state (gr_run G)))
     \<and> gr_finalization_result G = FinalizationPending)"
| "holder_ok r G (FPublish _ ng x) = (role_ng r ng \<and> settled_phase x (cs_phase (tt_state (gr_run G)))
     \<and> gr_finalization_result G = result_of x \<and> result_of x \<noteq> FinalizationPending)"
| "holder_ok r G _ = False"

definition finalization_ok :: "role \<Rightarrow> 'c ActiveGenerationRuntime \<Rightarrow> frame list \<Rightarrow> Run list \<Rightarrow> bool" where
  "finalization_ok r G F written \<longleftrightarrow>
     (case filter holds_finalization F of
        [] \<Rightarrow> phase_result (cs_phase (tt_state (gr_run G))) = Some (gr_finalization_result G)
            \<and> role_result r (gr_finalization_result G)
      | [h] \<Rightarrow> holder_ok r G h
      | _ \<Rightarrow> False)
     \<and> (gr_finalization_result G \<noteq> FinalizationPending \<longrightarrow> gr_closing G)
     \<and> written = (case cs_phase (tt_state (gr_run G)) of
          PhaseClosed _ \<Rightarrow> [normalize_for_lifecycle (tt_run (gr_run G))] | _ \<Rightarrow> [])"

fun is_refuse :: "frame \<Rightarrow> bool" where
  "is_refuse (FRefuse _ _) = True"
| "is_refuse _ = False"

definition drain_ok :: "'c ActiveGenerationRuntime \<Rightarrow> ActiveControllerCompletion list \<Rightarrow> frame list \<Rightarrow> bool" where
  "drain_ok G toks F \<longleftrightarrow>
     (gr_closing G \<and> gr_finalization_result G = FinalizationPending \<longrightarrow>
        outstanding toks F > 0 \<or> list_ex attempts F
        \<or> (auto_seal G \<and> \<not> run_limits_hit (gr_run G) \<and> list_ex is_refuse F))
     \<and> (auto_seal G \<and> run_limits_hit (gr_run G) \<and> \<not> gr_closing G \<longrightarrow> list_ex signals F)"

definition cell_inv :: "nat \<Rightarrow> role \<Rightarrow> 'c cell \<Rightarrow> bool" where
  "cell_inv n r cell \<longleftrightarrow>
     run_ok (cl_gen cell) \<and> tokens_ok (cl_gen cell) (cl_tokens cell)
     \<and> list_all thread_ok (cl_threads cell)
     \<and> admission_ok (cl_gen cell) (frames_of cell)
     \<and> counts_ok n (cl_gen cell) (cl_tokens cell) (frames_of cell)
     \<and> finalization_ok r (cl_gen cell) (frames_of cell) (cl_written cell)
     \<and> drain_ok (cl_gen cell) (cl_tokens cell) (frames_of cell)"


section \<open>Frames that do not touch the run\<close>

text \<open>The invariant without the shape of the threads, over the frames alone.\<close>

definition view_core where
  "view_core n r G toks F written \<longleftrightarrow>
     run_ok G \<and> tokens_ok G toks \<and> admission_ok G F \<and> counts_ok n G toks F
     \<and> finalization_ok r G F written"

definition view_inv where
  "view_inv n r G toks F written \<longleftrightarrow> view_core n r G toks F written \<and> drain_ok G toks F"

lemma cell_inv_view:
  "cell_inv n r cell \<longleftrightarrow> list_all thread_ok (cl_threads cell)
     \<and> view_inv n r (cl_gen cell) (cl_tokens cell) (frames_of cell) (cl_written cell)"
  by (auto simp: cell_inv_def view_inv_def view_core_def)

named_theorems view_defs

lemmas [view_defs] = view_inv_def view_core_def admission_ok_def counts_ok_def finalization_ok_def drain_ok_def
  outstanding_def armed_keys_def

lemma run_ok_cong:
  "gr_run G' = gr_run G \<Longrightarrow> auto_seal G' = auto_seal G \<Longrightarrow>
   gr_runtime_sampler G' = gr_runtime_sampler G \<Longrightarrow> run_ok G' = run_ok G"
  unfolding run_ok_def by (simp only:)

lemma tokens_ok_cong:
  "gr_activation_config G' = gr_activation_config G \<Longrightarrow> gr_generation_id G' = gr_generation_id G \<Longrightarrow>
   tokens_ok G' toks = tokens_ok G toks"
  unfolding tokens_ok_def by (simp only:)

lemma finalization_cong:
  assumes "gr_run G' = gr_run G" and "gr_finalization_result G' = gr_finalization_result G"
    and "gr_closing G' = gr_closing G"
    and "filter holds_finalization F' = filter holds_finalization F"
  shows "finalization_ok r G' F' W = finalization_ok r G F W"
proof -
  have "holder_ok r G' = holder_ok r G"
  proof
    show "holder_ok r G' h = holder_ok r G h" for h by (cases h) (simp_all add: assms(1,2))
  qed
  then show ?thesis unfolding finalization_ok_def assms by (simp only:)
qed

text \<open>Replacing a frame by others while the generation stays as it is.\<close>

lemma admission_replace:
  assumes inv: "admission_ok G (A @ f # R @ B)"
    and adm: "length (filter holds_admission fs) \<le> length (filter holds_admission [f])
      \<or> filter holds_admission (A @ f # R @ B) = [] \<and> length (filter holds_admission fs) \<le> 1"
    and ok: "list_all (frame_ok G) fs"
  shows "admission_ok G (A @ fs @ R @ B)"
proof -
  have "filter holds_admission (A @ f # R @ B)
      = filter holds_admission A @ filter holds_admission [f] @ filter holds_admission (R @ B)"
    by simp
  moreover have "length (filter holds_admission (A @ f # R @ B)) \<le> 1"
    using inv by (simp add: admission_ok_def)
  ultimately have "length (filter holds_admission (A @ fs @ R @ B)) \<le> 1"
    using adm by (auto simp only: filter_append length_append append_is_Nil_conv list.size)
  then show ?thesis using inv ok by (auto simp add: admission_ok_def)
qed

lemma marks_replace:
  assumes "length (filter is_mark fs) = length (filter is_mark [f])"
  shows "outstanding toks (A @ fs @ R @ B) = outstanding toks (A @ f # R @ B)"
proof -
  have "filter is_mark (A @ f # R @ B) = filter is_mark A @ filter is_mark [f] @ filter is_mark (R @ B)"
    by simp
  then show ?thesis by (simp only: filter_append length_append assms outstanding_def)
qed

lemma counts_replace:
  assumes inv: "counts_ok n G toks (A @ f # R @ B)"
    and armed: "concat (map frame_armed fs) = frame_armed f"
    and com: "length (filter is_commit fs) = length (filter is_commit [f])"
    and marks: "length (filter is_mark fs) = length (filter is_mark [f])"
  shows "counts_ok n G toks (A @ fs @ R @ B)"
proof -
  have keys: "armed_keys toks (A @ fs @ R @ B) = armed_keys toks (A @ f # R @ B)"
    by (simp add: armed_keys_def armed)
  have "filter is_commit (A @ f # R @ B) = filter is_commit A @ filter is_commit [f] @ filter is_commit (R @ B)"
    by simp
  then have coms: "length (filter is_commit (A @ fs @ R @ B)) = length (filter is_commit (A @ f # R @ B))"
    by (simp only: filter_append length_append com)
  show ?thesis using inv unfolding counts_ok_def keys coms marks_replace[OF marks] .
qed

lemma view_core_replace:
  assumes inv: "view_core n r G toks (A @ f # R @ B) W"
    and adm: "length (filter holds_admission fs) \<le> length (filter holds_admission [f])
      \<or> filter holds_admission (A @ f # R @ B) = [] \<and> length (filter holds_admission fs) \<le> 1"
    and ok: "list_all (frame_ok G) fs"
    and armed: "concat (map frame_armed fs) = frame_armed f"
    and com: "length (filter is_commit fs) = length (filter is_commit [f])"
    and marks: "length (filter is_mark fs) = length (filter is_mark [f])"
    and fin: "filter holds_finalization fs = filter holds_finalization [f]"
  shows "view_core n r G toks (A @ fs @ R @ B) W"
proof -
  have "filter holds_finalization (A @ f # R @ B)
      = filter holds_finalization A @ filter holds_finalization [f] @ filter holds_finalization (R @ B)"
    by simp
  then have same: "filter holds_finalization (A @ fs @ R @ B) = filter holds_finalization (A @ f # R @ B)"
    by (simp only: filter_append fin)
  have "finalization_ok r G (A @ f # R @ B) W" using inv by (simp only: view_core_def)
  then have "finalization_ok r G (A @ fs @ R @ B) W"
    unfolding finalization_cong[OF refl refl refl same] .
  then show ?thesis
    using inv admission_replace[OF _ adm ok] counts_replace[OF _ armed com marks]
    unfolding view_core_def by blast
qed

lemma admission_cong:
  assumes "gr_accepting_new G' = gr_accepting_new G" and "gr_closing G' = gr_closing G"
    and "gr_admitted_request_slots G' = gr_admitted_request_slots G"
    and "gr_activation_config G' = gr_activation_config G" and "gen_limits G' = gen_limits G"
  shows "admission_ok G' F = admission_ok G F"
proof -
  have "frame_ok G' = frame_ok G"
  proof
    show "frame_ok G' f = frame_ok G f" for f by (cases f) (simp_all add: assms auto_seal_def)
  qed
  then show ?thesis unfolding admission_ok_def assms by (simp only:)
qed

text \<open>Progress of the holder of the finalization gate.\<close>

lemma view_finalizing:
  assumes inv: "view_core n r G toks (A @ f # R @ B) W"
    and f: "\<not> holds_admission f" "frame_armed f = []" "\<not> is_commit f" "\<not> is_mark f"
    and fs: "filter holds_admission fs = []" "concat (map frame_armed fs) = []"
      "filter is_commit fs = []" "filter is_mark fs = []"
    and closing: "gr_closing G"
    and same: "gr_accepting_new G' = gr_accepting_new G" "gr_closing G' = gr_closing G"
      "gr_admitted_request_slots G' = gr_admitted_request_slots G"
      "gr_activation_config G' = gr_activation_config G" "gr_generation_id G' = gr_generation_id G"
      "gen_limits G' = gen_limits G" "gr_inflight_captured G' = gr_inflight_captured G"
    and ok: "list_all (frame_ok G) fs" and run: "run_ok G'"
    and open': "is_open (gr_run G') \<Longrightarrow> gr_run G' = gr_run G"
    and fin: "finalization_ok r' G' (A @ fs @ R @ B) W'"
  shows "view_core n r' G' toks (A @ fs @ R @ B) W'"
proof -
  have "admission_ok G (A @ fs @ R @ B)"
    by (rule admission_replace[where f = f]) (use inv f fs ok in \<open>simp_all add: view_core_def\<close>)
  then have "admission_ok G' (A @ fs @ R @ B)"
    unfolding admission_cong[OF same(1-4,6)] .
  moreover have "counts_ok n G toks (A @ fs @ R @ B)"
    by (rule counts_replace[where f = f]) (use inv f fs in \<open>simp_all add: view_core_def\<close>)
  then have "counts_ok n G' toks (A @ fs @ R @ B)"
    using open' unfolding counts_ok_def same by (cases "is_open (gr_run G')") simp_all
  moreover have "tokens_ok G' toks"
    using inv tokens_ok_cong[OF same(4,5)] by (simp only: view_core_def)
  ultimately show ?thesis using run fin by (simp only: view_core_def)
qed

lemma view_replace:
  assumes inv: "view_inv n r G toks (A @ f # R @ B) W"
    and "length (filter holds_admission fs) \<le> length (filter holds_admission [f])"
    and "list_all (frame_ok G) fs" and "concat (map frame_armed fs) = frame_armed f"
    and "length (filter is_commit fs) = length (filter is_commit [f])"
    and "length (filter is_mark fs) = length (filter is_mark [f])"
    and "filter holds_finalization fs = filter holds_finalization [f]"
    and "drain_ok G toks (A @ fs @ R @ B)"
  shows "view_inv n r G toks (A @ fs @ R @ B) W"
  using view_core_replace[OF _ disjI1[OF assms(2)] assms(3-7)] inv assms(8) by (simp only: view_inv_def)

lemma outstanding_bounds:
  assumes "view_inv n r G toks F W"
  shows "unat (gr_inflight_captured G) = outstanding toks F" and "outstanding toks F \<le> u64_max"
    and "gr_inflight_captured G > 0 \<longleftrightarrow> outstanding toks F > 0"
    and "gr_inflight_captured G = 0 \<longleftrightarrow> outstanding toks F = 0"
proof -
  have le: "outstanding toks F \<le> max_requests (gen_limits G)" "max_requests (gen_limits G) \<le> u64_max"
    and eq: "gr_inflight_captured G = of_nat (outstanding toks F)"
    using assms by (auto simp: view_inv_def view_core_def counts_ok_def admission_ok_def run_ok_def)
  show 1: "outstanding toks F \<le> u64_max" using le by simp
  then show 2: "unat (gr_inflight_captured G) = outstanding toks F"
    unfolding eq by (simp add: unat_of_nat_u64)
  show "gr_inflight_captured G > 0 \<longleftrightarrow> outstanding toks F > 0"
    unfolding 2[symmetric] by (simp add: word_neq_0_conv unat_gt_0)
  show "gr_inflight_captured G = 0 \<longleftrightarrow> outstanding toks F = 0"
    unfolding 2[symmetric] by (simp add: unat_eq_0)
qed

lemma view_frame_ok: "view_inv n r G toks (A @ f # B) W \<Longrightarrow> frame_ok G f"
  by (simp add: view_inv_def view_core_def admission_ok_def)

lemma view_drain: "view_inv n r G toks F W \<Longrightarrow> drain_ok G toks F"
  by (simp add: view_inv_def view_core_def)

lemma step_release:
  assumes "view_inv n r G toks (A @ FReleaseAdmission # R @ B) W"
  shows "view_inv n r G toks (A @ [] @ R @ B) W"
  using view_drain[OF assms]
  by (intro view_replace[OF assms]) (simp_all add: drain_ok_def outstanding_def)

lemma step_inert:
  assumes "view_inv n r G toks (A @ FInert x y # R @ B) W"
  shows "view_inv n r G toks (A @ [] @ R @ B) W"
  using view_drain[OF assms]
  by (intro view_replace[OF assms]) (simp_all add: drain_ok_def outstanding_def)

lemma step_limits:
  assumes inv: "view_inv n r G toks (A @ FLimits # R @ B) W"
  shows "view_inv n r G toks (A @ limits_signal G @ R @ B) W"
proof -
  have 1: "outstanding toks (A @ FLimits # R @ B) = outstanding toks (A @ limits_signal G @ R @ B)"
    by (simp add: outstanding_def limits_signal_def)
  have "drain_ok G toks (A @ limits_signal G @ R @ B)"
    using outstanding_bounds(3)[OF inv] view_drain[OF inv]
    unfolding drain_ok_def 1 by (auto simp: limits_signal_def)
  then show ?thesis
    by (intro view_replace[OF inv]) (simp_all add: limits_signal_def)
qed

lemma step_mark:
  assumes inv: "view_inv n r G toks (A @ FMark p # R @ B) W"
  shows "view_inv n r G toks (A @ mark_limits p G @ R @ B) W"
  using view_drain[OF inv]
  by (intro view_replace[OF inv]) (simp_all add: mark_limits_def drain_ok_def outstanding_def)

lemma step_mark_check:
  assumes inv: "view_inv n r G toks (A @ FMarkCheck # R @ B) W"
  shows "view_inv n r G toks (A @ mark_check G @ R @ B) W"
  using view_drain[OF inv]
  by (intro view_replace[OF inv]) (auto simp add: mark_check_def drain_ok_def outstanding_def)

lemma view_closing_no_admission:
  assumes "view_core n r G toks F W" and "gr_closing G"
  shows "filter is_commit F = []"
proof -
  have "list_all (frame_ok G) F" using assms by (simp add: view_core_def admission_ok_def)
  then have "\<not> is_commit f" if "f \<in> set F" for f
    using that assms(2) by (cases f) (auto simp: list_all_iff)
  then show ?thesis by (simp add: filter_empty_conv)
qed

lemma step_mark_sub:
  assumes inv: "view_inv n r G toks (A @ FMarkSub # R @ B) W"
    and sub: "mark_sub G = (G', fs)"
  shows "view_inv n r G' toks (A @ fs @ R @ B) W"
proof -
  let ?F = "A @ FMarkSub # R @ B" and ?F' = "A @ fs @ R @ B"
  note ob = outstanding_bounds[OF inv]
  have pos: "outstanding toks ?F > 0" by (simp add: outstanding_def)
  have G': "G' = G\<lparr>gr_inflight_captured := gr_inflight_captured G - 1\<rparr>"
    and fs: "fs = (if outstanding toks ?F - 1 = 0 then [FMarkCheck] else [])"
    using sub ob(1) by (auto simp: mark_sub_def Let_def)
  have out: "outstanding toks ?F = Suc (outstanding toks ?F')"
    by (simp add: outstanding_def fs)
  have keys: "armed_keys toks ?F' = armed_keys toks ?F" by (simp add: armed_keys_def fs)
  have coms: "filter is_commit ?F' = filter is_commit ?F" by (simp add: fs)
  have fin: "filter holds_finalization ?F' = filter holds_finalization ?F" by (simp add: fs)
  have ok: "frame_ok G' f = frame_ok G f" for f by (cases f) (simp_all add: G' auto_seal_def)
  have seal: "auto_seal G' = auto_seal G" by (simp add: G' auto_seal_def)
  have run: "gr_run G' = gr_run G" "gr_closing G' = gr_closing G" "gr_accepting_new G' = gr_accepting_new G"
    "gr_finalization_result G' = gr_finalization_result G"
    "gr_admitted_request_slots G' = gr_admitted_request_slots G"
    "gr_activation_config G' = gr_activation_config G" "gr_generation_id G' = gr_generation_id G"
    "gr_runtime_sampler G' = gr_runtime_sampler G"
    by (simp_all add: G')
  have "gr_inflight_captured G' = of_nat (outstanding toks ?F')"
    using inv out by (simp add: G' view_inv_def view_core_def counts_ok_def)
  then have "counts_ok n G' toks ?F'"
    using inv out coms by (simp add: view_inv_def view_core_def counts_ok_def keys run)
  moreover have "admission_ok G' ?F'"
    using inv ok by (auto simp: view_inv_def view_core_def admission_ok_def run fs list_all_iff)
  moreover have "finalization_ok r G' ?F' W"
    using inv finalization_cong[OF run(1,4,2) fin] by (simp add: view_inv_def view_core_def)
  moreover have "outstanding toks ?F' > 0 \<or> list_ex attempts ?F'"
    using out pos by (auto simp: fs)
  then have "drain_ok G' toks ?F'"
    using inv by (auto simp: view_inv_def view_core_def drain_ok_def run seal)
  ultimately show ?thesis
    using inv run_ok_cong[OF run(1) seal run(8)] tokens_ok_cong[OF run(6,7)] by (simp only: view_inv_def view_core_def)
qed

lemma step_commit:
  assumes inv: "view_inv n r G toks (A @ FCommit started # R @ B) W"
    and com: "commit_admission started G = (G', handle, token)"
  shows "view_inv n r G' (toks @ [token]) (A @ [] @ R @ B) W"
proof -
  let ?F = "A @ FCommit started # R @ B" and ?F' = "A @ [] @ R @ B"
  have G': "G' = G\<lparr>gr_admitted_request_slots := Suc (gr_admitted_request_slots G),
        gr_inflight_captured := gr_inflight_captured G + 1\<rparr>"
    and tok: "token = \<lparr>acc_completion = Some (sr_completion started),
       acc_admission_generation_id = gr_generation_id G,
       acc_run_end_policy = act_run_end_policy (gr_activation_config G), acc_inflight_recorded = True\<rparr>"
    using com by (simp_all add: commit_admission_def)
  have ok: "\<not> gr_closing G" "gr_admitted_request_slots G < max_requests (gen_limits G)"
    using view_frame_ok[OF inv] by simp_all
  obtain a where a: "sr_completion started = Some a" using view_frame_ok[OF inv] by auto
  have one: "length (filter holds_admission ?F) \<le> 1" and oks: "list_all (frame_ok G) ?F"
    using inv by (simp_all add: view_inv_def view_core_def admission_ok_def)
  have no_adm: "\<not> holds_admission f" if "f \<in> set ?F'" for f
    using one that by (auto simp: filter_empty_conv)
  have "frame_ok G' f" if "f \<in> set ?F'" for f
  proof -
    have "frame_ok G f" using oks that by (auto simp: list_all_iff)
    then show ?thesis
      using no_adm[OF that] ok by (cases f) (simp_all add: G' auto_seal_def)
  qed
  moreover have "filter holds_admission ?F' = []" using no_adm by (simp add: filter_empty_conv)
  ultimately have adm: "admission_ok G' ?F'"
    using inv ok by (auto simp: view_inv_def view_core_def admission_ok_def G' list_all_iff)
  have run: "gr_run G' = gr_run G" "gr_closing G' = gr_closing G"
    "gr_finalization_result G' = gr_finalization_result G"
    "gr_activation_config G' = gr_activation_config G" "gr_generation_id G' = gr_generation_id G"
    "gr_runtime_sampler G' = gr_runtime_sampler G" "auto_seal G' = auto_seal G"
    by (simp_all add: G' auto_seal_def)
  have out: "outstanding (toks @ [token]) ?F' = Suc (outstanding toks ?F)"
    by (simp add: outstanding_def)
  have keys: "mset (armed_keys (toks @ [token]) ?F') = mset (armed_keys toks ?F)"
    by (simp add: armed_keys_def tok token_armed_def a)
  have "counts_ok n G' (toks @ [token]) ?F'"
    using inv out mset_eq_setD[OF keys] mset_eq_imp_distinct_iff[OF keys]
    by (simp add: view_inv_def view_core_def counts_ok_def run G' list_all_iff)
  moreover have "finalization_ok r G' ?F' W"
    using inv finalization_cong[OF run(1,3,2), of ?F' ?F] by (simp add: view_inv_def view_core_def)
  moreover have "drain_ok G' (toks @ [token]) ?F'"
    using inv ok by (simp add: view_inv_def view_core_def drain_ok_def run)
  moreover have "tokens_ok G' (toks @ [token])"
    using inv by (simp add: view_inv_def view_core_def tokens_ok_def run tok a)
  ultimately show ?thesis
    using inv adm run_ok_cong[OF run(1,7,6)] by (simp only: view_inv_def view_core_def)
qed

section \<open>Closing\<close>

lemma end_reason_run:
  fixes run :: "('c, 'l) Tailtriage" and reason :: RunEndReason
  defines "run' \<equiv> set_run_end_reason_if_absent reason run"
  shows "cs_phase (tt_state run') = cs_phase (tt_state run)" and "tt_limits run' = tt_limits run"
    and "tt_effective_core_config run' = tt_effective_core_config run"
    and "tt_limits_hit_listener run' = tt_limits_hit_listener run"
    and "run_requests (tt_run run') = run_requests (tt_run run)"
    and "cs_pending_requests (tt_state run') = cs_pending_requests (tt_state run)"
    and "run_limits_hit run' = run_limits_hit run"
    and "run_runtime_snapshots (tt_run run') = run_runtime_snapshots (tt_run run)"
    and "\<not> is_open run \<Longrightarrow> run' = run"
  by (simp_all add: run'_def set_run_end_reason_if_absent_def run_limits_hit_def tailtriage_snapshot_def)

lemma sampler_inv_cong:
  "run_runtime_snapshots (tt_run run') = run_runtime_snapshots (tt_run run) \<Longrightarrow>
   tt_limits run' = tt_limits run \<Longrightarrow> sampler_inv task run' = sampler_inv task run"
  by (simp add: sampler_inv_def)

lemma view_close:
  assumes inv: "view_core n r G toks F W" and free: "filter holds_admission F = []"
  shows "view_core n r (fst (close_generation_admissions_locked reason G)) toks F W"
proof -
  let ?G = "fst (close_generation_admissions_locked reason G)"
  let ?run = "set_run_end_reason_if_absent reason (gr_run G)"
  have G: "gr_run ?G = ?run" "gr_accepting_new ?G = False" "gr_closing ?G"
    "gr_finalization_result ?G = gr_finalization_result G"
    "gr_admitted_request_slots ?G = gr_admitted_request_slots G"
    "gr_activation_config ?G = gr_activation_config G" "gr_generation_id ?G = gr_generation_id G"
    "gr_runtime_sampler ?G = gr_runtime_sampler G" "auto_seal ?G = auto_seal G"
    "gr_inflight_captured ?G = gr_inflight_captured G"
    by (simp_all add: close_generation_admissions_locked_def auto_seal_def)
  note run = end_reason_run[where reason = reason and run = "gr_run G"]
  have "collector_inv ?run"
    using end_reason_op.ok[of "gr_run G" reason] inv
    by (simp add: view_core_def run_ok_def op_ok_def)
  then have "run_ok ?G"
    using inv sampler_inv_cong[OF run(8,2)]
    by (simp add: view_core_def run_ok_def G run(1-7) split: option.splits)
  moreover have "tokens_ok ?G toks"
    using inv tokens_ok_cong[OF G(6,7)] by (simp add: view_core_def)
  moreover have "frame_ok ?G f" if "f \<in> set F" for f
  proof -
    have "frame_ok G f" "\<not> holds_admission f"
      using inv free that by (auto simp: view_core_def admission_ok_def list_all_iff filter_empty_conv)
    then show ?thesis by (cases f) (simp_all add: G run)
  qed
  then have "admission_ok ?G F"
    using inv free by (simp add: view_core_def admission_ok_def G run list_all_iff)
  moreover have "counts_ok n ?G toks F"
    using inv by (simp add: view_core_def counts_ok_def G run)
  moreover have "finalization_ok r ?G F W"
  proof -
    have "holder_ok r ?G h = holder_ok r G h" for h
      using run(9) by (cases h) (auto simp: G run(1))
    then have "holder_ok r ?G = holder_ok r G" ..
    moreover have "(case cs_phase (tt_state (gr_run G)) of
          PhaseClosed _ \<Rightarrow> [normalize_for_lifecycle (tt_run ?run)] | _ \<Rightarrow> [])
        = (case cs_phase (tt_state (gr_run G)) of
          PhaseClosed _ \<Rightarrow> [normalize_for_lifecycle (tt_run (gr_run G))] | _ \<Rightarrow> [])"
      using run(9) by (simp split: CollectorPhase.split)
    moreover have "finalization_ok r G F W" using inv by (simp add: view_core_def)
    ultimately show ?thesis unfolding finalization_ok_def G run(1) by (simp only: simp_thms G(3))
  qed
  ultimately show ?thesis by (simp only: view_core_def)
qed

lemma view_coreD:
  assumes "view_inv n r G toks F W"
  shows "view_core n r G toks F W" and "drain_ok G toks F"
  using assms by (simp_all add: view_inv_def)

lemma step_close:
  assumes inv: "view_inv n r G toks (A @ FClose reason k # R @ B) W"
    and free: "filter holds_admission (A @ FClose reason k # R @ B) = []"
    and cl: "close_generation_admissions_locked reason G = (G', c)"
    and after: "after_closure k gid c = (fs, rs)"
  shows "view_inv n r G' toks (A @ fs @ R @ B) W"
proof -
  let ?F = "A @ FClose reason k # R @ B" and ?F' = "A @ fs @ R @ B"
  have G': "G' = fst (close_generation_admissions_locked reason G)" and c: "c = gr_inflight_captured G"
    using cl by (simp_all add: close_generation_admissions_locked_def)
  have cls: "gr_closing G'" by (simp add: G' close_generation_admissions_locked_def)
  have core: "view_core n r G' toks ?F W"
    unfolding G' by (rule view_close[OF view_coreD(1)[OF inv] free])
  note ob = outstanding_bounds[OF inv, folded c]
  have marks: "length (filter is_mark fs) = length (filter is_mark [FClose reason k])"
    using after by (cases k) (auto split: if_splits)
  have "view_core n r G' toks ?F' W"
    by (rule view_core_replace[OF core]) (use after cls in \<open>cases k; auto split: if_splits\<close>)+
  moreover have "drain_ok G' toks ?F'"
  proof -
    have "outstanding toks ?F' = outstanding toks ?F"
      using marks by (simp add: outstanding_def)
    then show ?thesis
      using after ob(3,4) cls by (cases k) (auto simp: drain_ok_def outstanding_def split: if_splits)
  qed
  ultimately show ?thesis by (simp add: view_inv_def)
qed

lemma signals_attempts: "signals f \<Longrightarrow> attempts f"
  by (cases f rule: signals.cases) simp_all

lemma step_admit:
  assumes inv: "view_inv n r G toks (A @ FAdmit route options # R @ B) W"
    and free: "filter holds_admission (A @ FAdmit route options # R @ B) = []"
    and adm: "admit route options G = (G', fs)"
  shows "view_inv n r G' toks (A @ fs @ R @ B) W"
proof -
  let ?F = "A @ FAdmit route options # R @ B" and ?F' = "A @ fs @ R @ B"
  let ?C = "fst (close_generation_admissions_locked AutoSealOnLimitsHit G)"
  let ?max = "max_requests (gen_limits G)"
  have lim: "max_requests (ecc_capture_limits (tt_effective_core_config (gr_run G))) = ?max"
    using inv by (simp add: view_inv_def view_core_def run_ok_def)
  have acc: "gr_accepting_new G = (\<not> gr_closing G)" and max: "gr_admitted_request_slots G \<le> ?max"
    using inv by (simp_all add: view_inv_def view_core_def admission_ok_def)
  have core: "view_core n r ?C toks ?F W"
    by (rule view_close[OF view_coreD(1)[OF inv] free])
  have C: "gr_closing ?C" "auto_seal ?C = auto_seal G" "gr_admitted_request_slots ?C = gr_admitted_request_slots G"
    "tt_limits (gr_run ?C) = gen_limits G" "gr_finalization_result ?C = gr_finalization_result G"
    "run_limits_hit (gr_run ?C) = run_limits_hit (gr_run G)"
    using end_reason_run[where reason = AutoSealOnLimitsHit and run = "gr_run G"]
    by (simp_all add: close_generation_admissions_locked_def auto_seal_def)
  note drain = view_coreD(2)[OF inv]
  consider (closed) "\<not> gr_accepting_new G" "G' = G" "fs = [FInert route options]"
    | (seal) "gr_accepting_new G" "auto_seal G" "run_limits_hit (gr_run G)" "G' = ?C" "fs = [FInert route options]"
    | (refuse) "gr_accepting_new G" "gr_admitted_request_slots G \<ge> ?max" "\<not> (auto_seal G \<and> run_limits_hit (gr_run G))"
        "G' = (if auto_seal G then ?C else G)"
        "fs = [FRefuse route options, FReleaseAdmission, FInert route options]"
    | (admitted) "gr_accepting_new G" "gr_admitted_request_slots G < ?max" "G' = G" "fs = [FBegin route options]"
    using adm unfolding admit_def Let_def lim by (auto split: if_splits)
  then show ?thesis
  proof cases
    case closed
    show ?thesis unfolding closed(2,3)
      using drain by (intro view_replace[OF inv]) (simp_all add: drain_ok_def outstanding_def)
  next
    case seal
    have "list_ex signals ?F" using drain seal acc by (simp add: drain_ok_def)
    then have "list_ex attempts ?F'"
      using signals_attempts by (auto simp: list_ex_iff seal(5))
    then have "drain_ok ?C toks ?F'" using C by (simp add: drain_ok_def)
    moreover have "view_core n r ?C toks ?F' W"
      by (rule view_core_replace[OF core]) (simp_all add: seal(5))
    ultimately show ?thesis by (simp add: view_inv_def seal(4))
  next
    case refuse
    show ?thesis
    proof (cases "auto_seal G")
      case True
      have "view_core n r ?C toks ?F' W"
      by (rule view_core_replace[OF core]) (use free True refuse C max in simp_all)
      moreover have "drain_ok ?C toks ?F'" using C refuse True by (simp add: drain_ok_def)
      ultimately show ?thesis using True refuse(4) by (simp add: view_inv_def)
    next
      case False
      have "view_core n r G toks ?F' W"
      by (rule view_core_replace[OF view_coreD(1)[OF inv]]) (use free False refuse max in simp_all)
      moreover have "drain_ok G toks ?F'" using False refuse acc by (simp add: drain_ok_def)
      ultimately show ?thesis using False refuse(4) by (simp add: view_inv_def)
    qed
  next
    case admitted
    have "view_core n r G toks ?F' W"
    by (rule view_core_replace[OF view_coreD(1)[OF inv]]) (use free admitted acc in simp_all)
    moreover have "drain_ok G toks ?F'" using admitted acc drain by (simp add: drain_ok_def)
    ultimately show ?thesis using admitted(3) by (simp add: view_inv_def)
  qed
qed

section \<open>Finalizing\<close>

fun lc_ref :: "ControllerLifecycle \<Rightarrow> generation_ref option" where
  "lc_ref (LcDisabled _) = None"
| "lc_ref (LcActive r _) = Some r"
| "lc_ref (LcTerminalFailed r _ _) = Some r"
| "lc_ref (LcShutdown r _) = r"

lemma view_not_pending:
  assumes "finalization_ok r G F W" and "filter holds_finalization F = []"
  shows "gr_finalization_result G = FinalizationPending \<Longrightarrow> is_open (gr_run G)
      \<and> (\<exists>ng. r = RoleActive ng \<or> r = RoleShutdown ng)"
proof -
  assume p: "gr_finalization_result G = FinalizationPending"
  have "phase_result (cs_phase (tt_state (gr_run G))) = Some FinalizationPending"
    and "role_result r FinalizationPending"
    using assms p by (simp_all add: finalization_ok_def)
  then show ?thesis
    by (cases "cs_phase (tt_state (gr_run G))" rule: phase_result.cases; cases r) simp_all
qed

lemma step_finalize:
  assumes inv: "view_inv n (role_of lc g) G toks (A @ FFinalize c # R @ B) W"
    and free: "filter holds_finalization (A @ FFinalize c # R @ B) = []"
    and entry: "finalize_entry lc G = (G', x)"
    and ids: "\<And>r. lc_ref lc = Some r \<Longrightarrow> ref_id r = gr_generation_id G \<longleftrightarrow> ref_cell r = g"
  shows "view_inv n (role_of lc g) G' toks
    (A @ (case x of Inl _ \<Rightarrow> [] | Inr ng \<Rightarrow> [FShutdownBegin c ng]) @ R @ B) W"
proof -
  note core = view_coreD(1)[OF inv] and drain = view_coreD(2)[OF inv]
  have closing: "gr_closing G" using view_frame_ok[OF inv] by simp
  have fin: "finalization_ok (role_of lc g) G (A @ FFinalize c # R @ B) W"
    using core by (simp add: view_core_def)
  show ?thesis
  proof (cases "gr_finalization_result G = FinalizationPending")
    case False
    then have "G' = G" "\<exists>res. x = Inl res"
      using entry by (auto simp: finalize_entry_def replay_generation_result_def
          split: GenerationFinalizationResult.splits)
    then show ?thesis
      using closing False by (auto intro!: view_replace[OF inv] simp: drain_ok_def)
  next
    case True
    let ?G = "G\<lparr>gr_finalize_started := True, gr_last_finalization_error := None, gr_runtime_sampler := None\<rparr>"
    obtain ng where ng: "role_of lc g = RoleActive ng \<or> role_of lc g = RoleShutdown ng"
      and op: "is_open (gr_run G)"
      using view_not_pending[OF fin free True] by blast
    have G': "G' = ?G" and x: "x = Inr ng"
      using entry ids ng True
      by (auto simp: finalize_entry_def replay_generation_result_def role_of_def
          split: ControllerLifecycle.splits option.splits if_splits)
    have nil: "filter holds_finalization A = []" "filter holds_finalization R = []" "filter holds_finalization B = []"
      using free by simp_all
    have "view_core n (role_of lc g) ?G toks (A @ [FShutdownBegin c ng] @ R @ B) W"
    proof (rule view_finalizing[OF core])
      show "run_ok ?G" using core by (simp add: view_core_def run_ok_def auto_seal_def)
      show "finalization_ok (role_of lc g) ?G (A @ [FShutdownBegin c ng] @ R @ B) W"
        using fin ng op True nil by (auto simp: finalization_ok_def closing)
    qed (simp_all add: closing)
    then show ?thesis by (simp add: view_inv_def drain_ok_def G' x closing)
  qed
qed

lemma holder_unique:
  assumes "finalization_ok r G (A @ f # R @ B) W" and "holds_finalization f"
  shows "filter holds_finalization A = []" and "filter holds_finalization (R @ B) = []"
    and "holder_ok r G f" and "gr_finalization_result G \<noteq> FinalizationPending \<Longrightarrow> gr_closing G"
    and "W = (case cs_phase (tt_state (gr_run G)) of
          PhaseClosed _ \<Rightarrow> [normalize_for_lifecycle (tt_run (gr_run G))] | _ \<Rightarrow> [])"
proof -
  have F: "filter holds_finalization (A @ f # R @ B) =
      filter holds_finalization A @ f # filter holds_finalization (R @ B)"
    using assms(2) by simp
  have "(case filter holds_finalization A @ f # filter holds_finalization (R @ B) of
      [] \<Rightarrow> phase_result (cs_phase (tt_state (gr_run G))) = Some (gr_finalization_result G)
            \<and> role_result r (gr_finalization_result G)
      | [h] \<Rightarrow> holder_ok r G h | _ \<Rightarrow> False)"
    using assms(1) unfolding finalization_ok_def F by blast
  then have "filter holds_finalization A = [] \<and> filter holds_finalization (R @ B) = [] \<and> holder_ok r G f"
    by (cases "filter holds_finalization A"; cases "filter holds_finalization (R @ B)";
        cases "tl (filter holds_finalization A)") auto
  then show "filter holds_finalization A = []" and "filter holds_finalization (R @ B) = []"
    and "holder_ok r G f" by simp_all
  show "gr_finalization_result G \<noteq> FinalizationPending \<Longrightarrow> gr_closing G"
    and "W = (case cs_phase (tt_state (gr_run G)) of
          PhaseClosed _ \<Rightarrow> [normalize_for_lifecycle (tt_run (gr_run G))] | _ \<Rightarrow> [])"
    using assms(1) unfolding finalization_ok_def by blast+
qed

lemma finalization_holder:
  assumes "filter holds_finalization A = []" and "filter holds_finalization (R @ B) = []"
    and "holds_finalization h" and "holder_ok r G h"
    and "gr_finalization_result G \<noteq> FinalizationPending \<Longrightarrow> gr_closing G"
    and "W = (case cs_phase (tt_state (gr_run G)) of
          PhaseClosed _ \<Rightarrow> [normalize_for_lifecycle (tt_run (gr_run G))] | _ \<Rightarrow> [])"
  shows "finalization_ok r G (A @ h # R @ B) W"
proof -
  have "filter holds_finalization (A @ h # R @ B) = [h]" using assms(1-3) by simp
  then show ?thesis using assms(4-6) by (simp add: finalization_ok_def)
qed

lemma finalization_no_holder:
  assumes "filter holds_finalization A = []" and "filter holds_finalization (R @ B) = []"
    and "phase_result (cs_phase (tt_state (gr_run G))) = Some (gr_finalization_result G)"
    and "role_result r (gr_finalization_result G)"
    and "gr_finalization_result G \<noteq> FinalizationPending \<Longrightarrow> gr_closing G"
    and "W = (case cs_phase (tt_state (gr_run G)) of
          PhaseClosed _ \<Rightarrow> [normalize_for_lifecycle (tt_run (gr_run G))] | _ \<Rightarrow> [])"
  shows "finalization_ok r G (A @ [] @ R @ B) W"
proof -
  have "filter holds_finalization (A @ [] @ R @ B) = []" using assms(1-2) by simp
  then show ?thesis using assms(3-6) by (simp add: finalization_ok_def)
qed

lemma shutdown_run:
  assumes "is_open run" and "\<not> (cs_pending_requests (tt_state run) \<noteq> [] \<and> tt_strict_lifecycle run)"
  shows "\<exists>run'. shutdown_begin now run = (run', ShutdownFinalizes (tt_run run'))
    \<and> cs_phase (tt_state run') = PhaseFinalizing \<and> tt_limits run' = tt_limits run
    \<and> tt_effective_core_config run' = tt_effective_core_config run
    \<and> tt_limits_hit_listener run' = tt_limits_hit_listener run
    \<and> run_runtime_snapshots (tt_run run') = run_runtime_snapshots (tt_run run)
    \<and> run_limits_hit run' = run_limits_hit run
    \<and> (collector_inv run \<longrightarrow> collector_inv run')"
  unfolding shutdown_begin_open(2)[OF assms]
  by (simp add: run_limits_hit_def tailtriage_snapshot_def collector_inv_def within_limits_def
      drops_full_def)

fun is_core_finish :: "frame \<Rightarrow> bool" where
  "is_core_finish (FCoreFinish _ _) = True"
| "is_core_finish _ = False"

lemma pending_outstanding:
  assumes inv: "view_core n r G toks F W" and op: "is_open (gr_run G)" and cls: "gr_closing G"
    and fin: "list_ex is_core_finish F \<Longrightarrow> list_ex is_mark F"
    and pending: "cs_pending_requests (tt_state (gr_run G)) \<noteq> []"
  shows "outstanding toks F > 0"
proof (rule ccontr)
  assume "\<not> outstanding toks F > 0"
  then have toks: "toks = []" and marks: "\<not> list_ex is_mark F"
    by (simp_all add: outstanding_def list_ex_iff filter_empty_conv)
  have "filter is_commit F = []"
    by (rule view_closing_no_admission[OF inv cls])
  moreover have "\<not> list_ex is_core_finish F" using fin marks by blast
  ultimately have "frame_armed f = []" if "f \<in> set F" for f
    using that by (cases f) (auto simp: filter_empty_conv list_ex_iff)
  then have "armed_keys toks F = []" by (simp add: armed_keys_def toks concat_eq_Nil_conv)
  moreover have "set (armed_keys toks F) = fst ` set (cs_pending_requests (tt_state (gr_run G)))"
    using inv op by (simp add: view_core_def counts_ok_def)
  ultimately show False using pending by simp
qed

lemma step_shutdown_begin:
  assumes inv: "view_inv n r G toks (A @ FShutdownBegin c ng # R @ B) W"
    and cf: "list_ex is_core_finish (A @ FShutdownBegin c ng # R @ B) \<Longrightarrow>
      list_ex is_mark (A @ FShutdownBegin c ng # R @ B)"
    and sb: "shutdown_begin now (gr_run G) = (run', d)"
  shows "d \<noteq> ShutdownWaits \<and> view_inv n r (G\<lparr>gr_run := run'\<rparr>) toks
    (A @ (case d of ShutdownReturns x \<Rightarrow> [FSettle c ng x] | ShutdownFinalizes cand \<Rightarrow> [FSinkWrite c ng cand]
          | ShutdownWaits \<Rightarrow> []) @ R @ B) W"
proof -
  let ?F = "A @ FShutdownBegin c ng # R @ B"
  note core = view_coreD(1)[OF inv]
  have cls: "gr_closing G" using view_frame_ok[OF inv] by simp
  have "finalization_ok r G ?F W" using core by (simp add: view_core_def)
  note hu = holder_unique[OF this, simplified]
  have op: "is_open (gr_run G)" and ng: "role_ng r ng" and p: "gr_finalization_result G = FinalizationPending"
    using hu(3) by simp_all
  have W: "W = []" using hu op by simp
  show ?thesis
  proof (cases "cs_pending_requests (tt_state (gr_run G)) \<noteq> [] \<and> tt_strict_lifecycle (gr_run G)")
    case True
    let ?x = "Inl (UnfinishedRequestsError (length (cs_pending_requests (tt_state (gr_run G)))))"
    have "shutdown_begin now (gr_run G) = (gr_run G, ShutdownReturns ?x)"
      using shutdown_begin_open(1)[OF op] True by blast
    then have d: "run' = gr_run G" "d = ShutdownReturns ?x" using sb by simp_all
    have "outstanding toks ?F > 0"
      using pending_outstanding[OF core op cls cf] True by blast
    then have "outstanding toks (A @ [FSettle c ng ?x] @ R @ B) > 0" by (simp add: outstanding_def)
    then have "drain_ok G toks (A @ [FSettle c ng ?x] @ R @ B)" by (simp add: drain_ok_def cls)
    moreover have "view_core n r G toks (A @ [FSettle c ng ?x] @ R @ B) W"
      by (rule view_finalizing[OF core])
        (use core cls op ng p W hu in \<open>auto simp: view_core_def intro!: finalization_holder\<close>)
    ultimately show ?thesis by (simp add: view_inv_def d)
  next
    case False
    obtain run1 where run1: "shutdown_begin now (gr_run G) = (run1, ShutdownFinalizes (tt_run run1))"
      "cs_phase (tt_state run1) = PhaseFinalizing" "tt_limits run1 = tt_limits (gr_run G)"
      "tt_effective_core_config run1 = tt_effective_core_config (gr_run G)"
      "tt_limits_hit_listener run1 = tt_limits_hit_listener (gr_run G)"
      "run_runtime_snapshots (tt_run run1) = run_runtime_snapshots (tt_run (gr_run G))"
      "run_limits_hit run1 = run_limits_hit (gr_run G)"
      "collector_inv (gr_run G) \<longrightarrow> collector_inv run1"
      using shutdown_run[OF op False] by blast
    let ?G = "G\<lparr>gr_run := run1\<rparr>"
    have d: "run' = run1" "d = ShutdownFinalizes (tt_run run1)" using sb run1(1) by auto
    have ok: "run_ok ?G"
      using core run1(3-8) sampler_inv_cong[OF run1(6,3)]
      by (simp add: view_core_def run_ok_def auto_seal_def split: option.splits)
    have "view_core n r ?G toks (A @ [FSinkWrite c ng (tt_run run1)] @ R @ B) W"
      by (rule view_finalizing[OF core])
        (use core cls run1(2,3) ng p W hu ok in \<open>auto intro!: finalization_holder\<close>)
    moreover have "drain_ok ?G toks (A @ [FSinkWrite c ng (tt_run run1)] @ R @ B)"
      by (simp add: drain_ok_def cls)
    ultimately show ?thesis by (simp add: view_inv_def d)
  qed
qed

lemma step_sink_write:
  assumes inv: "view_inv n r G toks (A @ FSinkWrite c ng cand # R @ B) W"
    and sf: "shutdown_finish sink cand w (gr_run G) = (run', w', x)"
  shows "view_inv n r (G\<lparr>gr_run := run'\<rparr>) toks (A @ [FSettle c ng x] @ R @ B)
    (W @ [normalize_for_lifecycle cand])"
proof -
  let ?F = "A @ FSinkWrite c ng cand # R @ B" and ?G = "G\<lparr>gr_run := run'\<rparr>"
  note core = view_coreD(1)[OF inv]
  have cls: "gr_closing G" using view_frame_ok[OF inv] by simp
  have "finalization_ok r G ?F W" using core by (simp add: view_core_def)
  note hu = holder_unique[OF this, simplified]
  have ph: "cs_phase (tt_state (gr_run G)) = PhaseFinalizing" and ng: "role_ng r ng"
    and cand: "cand = tt_run (gr_run G)" and p: "gr_finalization_result G = FinalizationPending"
    using hu(3) by simp_all
  have W: "W = []" using hu ph by simp
  obtain t where run': "run' = (gr_run G)\<lparr>tt_state := (tt_state (gr_run G))\<lparr>cs_phase := PhaseClosed t\<rparr>\<rparr>"
    and x: "settled_phase x (PhaseClosed t)"
    using sf by (auto simp: shutdown_finish_def Let_def split: prod.splits sum.splits)
  have ok: "run_ok ?G"
    using core ph by (simp add: view_core_def run_ok_def auto_seal_def run' collector_inv_def
        drops_full_def sampler_inv_def split: option.splits)
  have att: "attempts (FSettle c ng x)" using x by (cases "(x, PhaseClosed t)" rule: settled_phase.cases) auto
  have "view_core n r ?G toks (A @ [FSettle c ng x] @ R @ B) (W @ [normalize_for_lifecycle cand])"
    by (rule view_finalizing[OF core])
      (use core cls ng p W hu ok x cand in \<open>auto simp: run' intro!: finalization_holder\<close>)
  moreover have "drain_ok ?G toks (A @ [FSettle c ng x] @ R @ B)"
    using att by (simp add: drain_ok_def cls)
  ultimately show ?thesis by (simp add: view_inv_def)
qed

lemma step_settle:
  assumes inv: "view_inv n r G toks (A @ FSettle c ng x # R @ B) W"
  shows "view_inv n r (finalize_settle x G) toks
    (A @ (case x of Inl (UnfinishedRequestsError _) \<Rightarrow> [] | _ \<Rightarrow> [FPublish c ng x]) @ R @ B) W"
proof -
  let ?F = "A @ FSettle c ng x # R @ B" and ?G = "finalize_settle x G"
  note core = view_coreD(1)[OF inv]
  have cls: "gr_closing G" using view_frame_ok[OF inv] by simp
  have "finalization_ok r G ?F W" using core by (simp add: view_core_def)
  note hu = holder_unique[OF this, simplified]
  have ng: "role_ng r ng" and ph: "settled_phase x (cs_phase (tt_state (gr_run G)))"
    and p: "gr_finalization_result G = FinalizationPending"
    using hu(3) by simp_all
  have G: "gr_accepting_new ?G = gr_accepting_new G" "gr_closing ?G = gr_closing G"
      "gr_admitted_request_slots ?G = gr_admitted_request_slots G"
      "gr_activation_config ?G = gr_activation_config G" "gr_generation_id ?G = gr_generation_id G"
      "gr_run ?G = gr_run G" "gr_inflight_captured ?G = gr_inflight_captured G"
      "gr_runtime_sampler ?G = gr_runtime_sampler G" "auto_seal ?G = auto_seal G"
      "gr_finalization_result ?G = (if result_of x = FinalizationPending then gr_finalization_result G else result_of x)"
    by (cases x rule: result_of.cases;
        simp add: finalize_settle_def Let_def set_generation_result_def auto_seal_def)+
  have ok: "run_ok ?G" using core run_ok_cong[OF G(6,9,8)] by (simp only: view_core_def)
  show ?thesis
  proof (cases "\<exists>k. x = Inl (UnfinishedRequestsError k)")
    case True
    then obtain k where x: "x = Inl (UnfinishedRequestsError k)" by blast
    have "view_core n r ?G toks (A @ [] @ R @ B) W"
      by (rule view_finalizing[OF core])
        (use cls ok G ph p ng hu x in \<open>auto simp del: append_Nil intro!: finalization_no_holder
          elim: role_ng.elims\<close>)
    moreover have "drain_ok ?G toks (A @ [] @ R @ B)"
      using view_coreD(2)[OF inv] by (simp add: drain_ok_def G[unfolded x] x outstanding_def)
    ultimately show ?thesis by (simp add: view_inv_def x)
  next
    case False
    then have fs: "(case x of Inl (UnfinishedRequestsError _) \<Rightarrow> [] | _ \<Rightarrow> [FPublish c ng x]) = [FPublish c ng x]"
      and res: "result_of x \<noteq> FinalizationPending"
      by (cases x rule: result_of.cases; simp)+
    have "view_core n r ?G toks (A @ [FPublish c ng x] @ R @ B) W"
      by (rule view_finalizing[OF core])
        (use cls ok G ph p ng hu res in \<open>auto intro!: finalization_holder cong: CollectorPhase.case_cong\<close>)
    moreover have "drain_ok ?G toks (A @ [FPublish c ng x] @ R @ B)"
      using res cls by (simp add: drain_ok_def G)
    ultimately show ?thesis by (simp add: view_inv_def fs)
  qed
qed

lemma settled_result:
  "settled_phase x ph \<Longrightarrow> phase_result ph = Some (result_of x)"
  by (cases "(x, ph)" rule: settled_phase.cases) auto

lemma publish_role:
  assumes ids: "\<And>r. lc_ref lc = Some r \<Longrightarrow> ref_id r = gid \<longleftrightarrow> ref_cell r = g"
    and ng: "role_ng (role_of lc g) ng" and res: "result_of x \<noteq> FinalizationPending"
  shows "role_result (role_of (finalize_publish x gid ng lc) g) (result_of x)"
  using assms
  by (cases x rule: result_of.cases)
    (auto simp: finalize_publish_def role_of_def split: ControllerLifecycle.splits option.splits if_splits)

lemma step_publish:
  assumes inv: "view_inv n (role_of lc g) G toks (A @ FPublish c ng x # R @ B) W"
    and ids: "\<And>r. lc_ref lc = Some r \<Longrightarrow> ref_id r = gr_generation_id G \<longleftrightarrow> ref_cell r = g"
  shows "view_inv n (role_of (finalize_publish x (gr_generation_id G) ng lc) g) G toks (A @ [] @ R @ B) W"
proof -
  let ?F = "A @ FPublish c ng x # R @ B"
  note core = view_coreD(1)[OF inv]
  have cls: "gr_closing G" using view_frame_ok[OF inv] by simp
  have "finalization_ok (role_of lc g) G ?F W" using core by (simp add: view_core_def)
  note hu = holder_unique[OF this, simplified]
  have ng: "role_ng (role_of lc g) ng" and ph: "settled_phase x (cs_phase (tt_state (gr_run G)))"
    and p: "gr_finalization_result G = result_of x" "result_of x \<noteq> FinalizationPending"
    using hu(3) by simp_all
  have "view_core n (role_of (finalize_publish x (gr_generation_id G) ng lc) g) G toks (A @ [] @ R @ B) W"
    by (rule view_finalizing[OF core])
      (use cls p ng hu settled_result[OF ph] publish_role[OF ids ng p(2)] core
        in \<open>auto simp del: append_Nil simp: view_core_def intro!: finalization_no_holder\<close>)
  moreover have "drain_ok G toks (A @ [] @ R @ B)"
    using p cls by (simp add: drain_ok_def)
  ultimately show ?thesis by (simp add: view_inv_def)
qed

end
