(* ===== verification/Ctl_Recording.thy ===== *)
theory Ctl_Recording
  imports Ctl_Invariant
begin

text \<open>
  The frames and steps that record in a generation's run: beginning a request in the core,
  completing one, evidence and sampler ticks. They keep the invariant of the cell because the
  collector's operations obey their contract; a first limits hit adds the listener's frame.
\<close>

section \<open>What recording leaves alone\<close>

lemma release_snapshots:
  "run_runtime_snapshots (tt_run (fst (release_after_push m d st self))) = run_runtime_snapshots (cs_run st)"
  by (simp add: release_after_push_def mark_run_limits_hit_def mark_limits_hit_def Let_def)

lemma push_snapshots:
  "push_stage_bounded run limits s = (run', d) \<Longrightarrow> run_runtime_snapshots run' = run_runtime_snapshots run"
  "push_queue_bounded run limits q = (run', d) \<Longrightarrow> run_runtime_snapshots run' = run_runtime_snapshots run"
  "push_inflight_snapshot_bounded run limits i = (run', d) \<Longrightarrow> run_runtime_snapshots run' = run_runtime_snapshots run"
  "push_request_bounded run limits r = (run', d) \<Longrightarrow> run_runtime_snapshots run' = run_runtime_snapshots run"
  by (auto simp: push_bounded_defs split: if_splits)

lemma snapshots_record:
  "run_runtime_snapshots (tt_run (fst (record_stage_event e self))) = run_runtime_snapshots (tt_run self)"
  "run_runtime_snapshots (tt_run (fst (record_queue_event q self))) = run_runtime_snapshots (tt_run self)"
  by (auto simp: record_stage_event_def record_queue_event_def Let_def release_snapshots
      dest: push_snapshots split: prod.splits)

lemma snapshots_evidence:
  "run_runtime_snapshots (tt_run (fst (record_evidence ev self))) = run_runtime_snapshots (tt_run self)"
proof (cases ev)
  case (EvTimer now ready armed)
  then show ?thesis
    by (cases armed; cases ready) (simp_all add: timer_end_def Let_def snapshots_record)
next
  case (EvInflight now gauge)
  then show ?thesis
    by (auto simp: inflight_op_def inflight_def Let_def release_snapshots
        push_inflight_snapshot_bounded_def split: prod.splits if_splits)
next
  case (EvGuardDrop now guard)
  then show ?thesis
    by (auto simp: inflight_guard_drop_def Let_def release_snapshots
        push_inflight_snapshot_bounded_def split: prod.splits if_splits option.splits)
qed

lemma snapshots_finish:
  "run_runtime_snapshots (tt_run (fst (completion_finish now outcome token self))) = run_runtime_snapshots (tt_run self)"
  by (auto simp: completion_finish_def resolve_request_def Let_def release_snapshots
      dest: push_snapshots(4) split: prod.splits option.splits)

lemma snapshots_start:
  "run_runtime_snapshots (tt_run (fst (start_op i self))) = run_runtime_snapshots (tt_run self)"
  by (auto simp: start_op_def start_request_def Let_def release_snapshots split: prod.splits if_splits)

lemma evidence_ok:
  "collector_inv self \<Longrightarrow> op_ok self (record_evidence ev self)"
  "\<not> is_open self \<Longrightarrow> fst (record_evidence ev self) = self"
  "request_frame (fst (record_evidence ev self)) = request_frame self"
  using timer_op.ok[of self] inflight_op.ok[of self] guard_drop_op.ok[of self]
    timer_op.inert[of self] inflight_op.inert[of self] guard_drop_op.inert[of self]
  by (cases ev; force simp: request_frame_timer request_frame_inflight request_frame_guard)+

section \<open>An operation of the collector on a generation\<close>

lemma collector_frameD:
  assumes "collector_frame run' = collector_frame run"
  shows "cs_phase (tt_state run') = cs_phase (tt_state run)" and "tt_limits run' = tt_limits run"
    and "tt_effective_core_config run' = tt_effective_core_config run"
    and "tt_limits_hit_listener run' = tt_limits_hit_listener run"
  using assms by (simp_all add: collector_frame_def)

definition with_run :: "('c, unit) Tailtriage \<Rightarrow> 'c ActiveGenerationRuntime \<Rightarrow> 'c ActiveGenerationRuntime" where
  "with_run run G = G\<lparr>gr_run := run\<rparr>"

lemma with_run_sel [simp]:
  "gr_run (with_run run G) = run" "gr_closing (with_run run G) = gr_closing G"
  "gr_accepting_new (with_run run G) = gr_accepting_new G"
  "gr_admitted_request_slots (with_run run G) = gr_admitted_request_slots G"
  "gr_activation_config (with_run run G) = gr_activation_config G"
  "gr_generation_id (with_run run G) = gr_generation_id G"
  "gr_finalization_result (with_run run G) = gr_finalization_result G"
  "gr_inflight_captured (with_run run G) = gr_inflight_captured G"
  "gr_runtime_sampler (with_run run G) = gr_runtime_sampler G"
  "auto_seal (with_run run G) = auto_seal G"
  by (simp_all add: with_run_def auto_seal_def)

lemma finalization_run:
  assumes "finalization_ok r G F W" and "cs_phase (tt_state run) = cs_phase (tt_state (gr_run G))"
    and "is_open (gr_run G) \<or> run = gr_run G"
  shows "finalization_ok r (with_run run G) F W"
proof (cases "is_open (gr_run G)")
  case False
  then have "with_run run G = G" using assms(3) by (simp add: with_run_def)
  then show ?thesis using assms(1) by simp
next
  case True
  have "holder_ok r (with_run run G) = holder_ok r G"
  proof
    show "holder_ok r (with_run run G) h = holder_ok r G h" for h
      by (cases h) (simp_all add: assms(2) True)
  qed
  then show ?thesis
    using assms(1) True unfolding finalization_ok_def with_run_sel assms(2)
    by (simp only: CollectorPhase.case) blast
qed

text \<open>Everything but the counts, after an operation that obeys the collector's contract.\<close>

lemma op_run:
  assumes core: "view_core n r G toks F W" and ok: "op_ok (gr_run G) (run, calls)"
    and inert: "is_open (gr_run G) \<or> run = gr_run G"
    and snaps: "run_runtime_snapshots (tt_run run) = run_runtime_snapshots (tt_run (gr_run G))"
  shows "run_ok (with_run run G)" and "tokens_ok (with_run run G) toks = tokens_ok G toks"
    and "admission_ok (with_run run G) F' = admission_ok G F'"
    and "finalization_ok r (with_run run G) F W"
    and "cs_phase (tt_state run) = cs_phase (tt_state (gr_run G))"
    and "calls = (if \<not> run_limits_hit (gr_run G) \<and> run_limits_hit run \<and> auto_seal G then [()] else [])"
    and "run_limits_hit (gr_run G) \<Longrightarrow> run_limits_hit run"
proof -
  have inv: "collector_inv run" and fr: "collector_frame run = collector_frame (gr_run G)"
    using ok by (simp_all add: op_ok_def)
  note fr' = collector_frameD[OF fr]
  show "run_ok (with_run run G)"
    using core inv fr' sampler_inv_cong[OF snaps fr'(2)]
    by (simp add: view_core_def run_ok_def split: option.splits)
  show "tokens_ok (with_run run G) toks = tokens_ok G toks" by (rule tokens_ok_cong) simp_all
  show "admission_ok (with_run run G) F' = admission_ok G F'"
    by (rule admission_cong) (simp_all add: fr')
  show "finalization_ok r (with_run run G) F W"
    using finalization_run[OF _ fr'(1) inert] core by (simp add: view_core_def)
  show "cs_phase (tt_state run) = cs_phase (tt_state (gr_run G))" by (rule fr')
  show "calls = (if \<not> run_limits_hit (gr_run G) \<and> run_limits_hit run \<and> auto_seal G then [()] else [])"
    and "run_limits_hit (gr_run G) \<Longrightarrow> run_limits_hit run"
    using ok core by (auto simp: op_ok_def notify_limits_hit_listener_def run_limits_hit_def
        tailtriage_snapshot_def view_core_def run_ok_def)
qed

lemma limits_frames_simps [simp]:
  "limits_frames [] = []" "limits_frames (c # cs) = FLimits # limits_frames cs"
  by (simp_all add: limits_frames_def)

text \<open>The drain condition after an operation: a first limits hit brings its signal.\<close>

lemma drain_op:
  assumes drain: "drain_ok G toks F"
    and calls: "calls = (if \<not> run_limits_hit (gr_run G) \<and> run_limits_hit run \<and> auto_seal G then [()] else [])"
    and mono: "run_limits_hit (gr_run G) \<Longrightarrow> run_limits_hit run"
    and out: "outstanding toks F \<le> outstanding toks' F'"
    and att: "list_ex attempts F \<Longrightarrow> list_ex attempts F'"
    and sig: "list_ex signals F \<Longrightarrow> list_ex signals F'"
    and new: "calls \<noteq> [] \<Longrightarrow> FLimits \<in> set F'"
    and refuse: "list_ex is_refuse F \<Longrightarrow> gr_closing G \<Longrightarrow> auto_seal G \<Longrightarrow>
      gr_finalization_result G = FinalizationPending \<Longrightarrow> \<not> run_limits_hit run \<Longrightarrow>
      list_ex attempts F' \<or> list_ex is_refuse F' \<or> outstanding toks' F' > 0"
  shows "drain_ok (with_run run G) toks' F'"
proof (cases "calls = []")
  case False
  then have "list_ex attempts F'" "list_ex signals F'"
    using new by (force simp: list_ex_iff)+
  then show ?thesis by (simp add: drain_ok_def)
next
  case True
  then have hit: "auto_seal G \<Longrightarrow> run_limits_hit run = run_limits_hit (gr_run G)"
    using calls mono by (auto split: if_splits)
  show ?thesis
    using drain out att sig hit refuse unfolding drain_ok_def with_run_sel by (auto 0 3)
qed

lemma counts_run:
  assumes "counts_ok n G toks F" and "request_frame run = request_frame (gr_run G)" and "n \<le> m"
  shows "counts_ok m (with_run run G) toks F"
proof -
  have "cs_phase (tt_state run) = cs_phase (tt_state (gr_run G))"
    "run_requests (tt_run run) = run_requests (tt_run (gr_run G))"
    "cs_pending_requests (tt_state run) = cs_pending_requests (tt_state (gr_run G))"
    using assms(2) by (simp_all add: request_frame_def)
  then show ?thesis
    using assms(1,3) unfolding counts_ok_def with_run_sel by (force simp: list_all_iff)
qed

section \<open>Beginning a request\<close>

lemma view_open:
  assumes core: "view_core n r G toks F W" and "\<not> gr_closing G"
  shows "is_open (gr_run G)" and "gr_finalization_result G = FinalizationPending"
    and "filter holds_finalization F = []"
proof -
  have fin: "finalization_ok r G F W" and ok: "list_all (frame_ok G) F"
    using core by (simp_all add: view_core_def admission_ok_def)
  have "\<not> holds_finalization f" if "f \<in> set F" for f
  proof -
    have "frame_ok G f" using ok that by (simp add: list_all_iff)
    then show ?thesis using assms(2) by (cases f) simp_all
  qed
  then show nil: "filter holds_finalization F = []" by (simp add: filter_empty_conv)
  show p: "gr_finalization_result G = FinalizationPending"
    using fin assms(2) unfolding finalization_ok_def by blast
  have "phase_result (cs_phase (tt_state (gr_run G))) = Some FinalizationPending"
    using fin nil p by (simp add: finalization_ok_def)
  then show "is_open (gr_run G)"
    by (cases "cs_phase (tt_state (gr_run G))" rule: phase_result.cases) simp_all
qed

lemma view_closed_attempts:
  assumes core: "view_core n r G toks F W" and "\<not> is_open (gr_run G)"
    and "gr_finalization_result G = FinalizationPending"
  shows "list_ex (\<lambda>f. holds_finalization f \<and> attempts f) F"
proof -
  have fin: "finalization_ok r G F W" using core by (simp add: view_core_def)
  show ?thesis
  proof (cases "filter holds_finalization F")
    case Nil
    then have "phase_result (cs_phase (tt_state (gr_run G))) = Some FinalizationPending"
      using fin assms(3) by (simp add: finalization_ok_def)
    then show ?thesis
      using assms(2) by (cases "cs_phase (tt_state (gr_run G))" rule: phase_result.cases) simp_all
  next
    case (Cons h hs)
    then have hs: "hs = []" and h: "holder_ok r G h"
      using fin by (simp_all add: finalization_ok_def split: list.splits)
    have "h \<in> set (filter holds_finalization F)" using Cons by simp
    then have "h \<in> set F" "holds_finalization h" by simp_all
    moreover have "attempts h"
    proof (cases h)
      case (FSettle c ng x)
      then show ?thesis
        using h assms(2) by (cases "(x, cs_phase (tt_state (gr_run G)))" rule: settled_phase.cases) auto
    next
      case (FPublish c ng x)
      then show ?thesis using h assms(3) by (metis holder_ok.simps(4))
    qed (use h assms(3) \<open>holds_finalization h\<close> in simp_all)
    ultimately show ?thesis by (auto simp: list_ex_iff)
  qed
qed

lemma one_holder:
  assumes "length (filter holds_admission (A @ f # B)) \<le> 1" and "holds_admission f"
  shows "filter is_commit A = []" and "filter is_commit B = []"
proof -
  have "\<not> holds_admission x" if "x \<in> set A \<union> set B" for x
    using assms that by (auto simp: filter_empty_conv)
  moreover have "is_commit x \<Longrightarrow> holds_admission x" for x by (cases x) simp_all
  ultimately show "filter is_commit A = []" and "filter is_commit B = []"
    by (auto simp: filter_empty_conv)
qed

lemma begin_op_ok:
  assumes "collector_inv self"
    and "begin_request_with now1 now2 route options st self = (started, st', run, calls)"
  shows "op_ok self (run, calls)" and "is_open self \<or> run = self"
    and "run_runtime_snapshots (tt_run run) = run_runtime_snapshots (tt_run self)"
proof -
  have eq: "(run, calls) = start_op (now1, now2, route, options, st) self"
    by (rule begin_request_with_start[OF assms(2)])
  show "op_ok self (run, calls)" unfolding eq by (rule start_op.ok[OF assms(1)])
  show "is_open self \<or> run = self" using start_op.inert[of self] eq by (metis prod.inject)
  show "run_runtime_snapshots (tt_run run) = run_runtime_snapshots (tt_run self)"
    using snapshots_start[of _ self] eq by (metis fst_conv)
qed

lemma step_begin:
  assumes inv: "view_inv n r G toks (A @ FBegin route options # R @ B) W"
    and beg: "begin_admitted now1 now2 route options st G = (st', G', fs)"
    and st: "PENDING_SEQUENCE st = of_nat n" and n: "Suc n \<le> u64_max"
  shows "view_inv (Suc n) r G' toks (A @ fs @ R @ B) W
    \<and> PENDING_SEQUENCE st' = of_nat (Suc n) \<and> (\<exists>x. fs = [FCommit x])"
proof -
  let ?F = "A @ FBegin route options # R @ B" and ?k = "PENDING_SEQUENCE st"
    and ?p = "cs_pending_requests (tt_state (gr_run G))"
  note core = view_coreD(1)[OF inv] and drain = view_coreD(2)[OF inv]
  have cls: "\<not> gr_closing G" and room: "gr_admitted_request_slots G < max_requests (gen_limits G)"
    using view_frame_ok[OF inv] by simp_all
  have ci: "collector_inv (gr_run G)" and cnt: "counts_ok n G toks ?F"
    and one: "length (filter holds_admission ?F) \<le> 1" and adm: "admission_ok G ?F"
    using core by (simp_all add: view_core_def run_ok_def admission_ok_def)
  note op = view_open[OF core cls]
  have "filter is_commit ?F = []" using one_holder[OF one] by simp
  then have len: "gr_admitted_request_slots G = length (run_requests (tt_run (gr_run G))) + length ?p"
    and keys: "set (armed_keys toks ?F) = fst ` set ?p"
    using cnt op(1) by (simp_all add: counts_ok_def)
  obtain h start pending st1 where b: "begin_request_with now1 now2 route options st (gr_run G) =
      (\<lparr>sr_handle = h, sr_completion = Some \<lparr>ac_pending_key = ?k, ac_interval_start = start\<rparr>\<rparr>, st1,
       (gr_run G)\<lparr>tt_state := (tt_state (gr_run G))\<lparr>cs_pending_requests := bt_insert ?k pending ?p\<rparr>\<rparr>, [])"
    and st1: "PENDING_SEQUENCE st1 = ?k + 1"
    using begin_request_admitted[OF op(1), of now1 now2 route options st] room len by metis
  let ?run = "(gr_run G)\<lparr>tt_state := (tt_state (gr_run G))\<lparr>cs_pending_requests := bt_insert ?k pending ?p\<rparr>\<rparr>"
  let ?x = "\<lparr>sr_handle = h, sr_completion = Some \<lparr>ac_pending_key = ?k, ac_interval_start = start\<rparr>\<rparr>"
  let ?F' = "A @ [FCommit ?x] @ R @ B"
  have G': "G' = with_run ?run G" and fs: "fs = [FCommit ?x]" and st': "st' = st1"
    using beg b by (simp_all add: begin_admitted_def with_run_def)
  note bo = begin_op_ok[OF ci b]
  note op' = op_run[OF core bo]
  have u: "unat ?k = n" using n by (simp add: st unat_of_nat_u64)
  have old: "\<forall>k\<in>set (armed_keys toks ?F). unat k < n" using cnt by (simp add: counts_ok_def list_all_iff)
  have new: "?k \<notin> set (armed_keys toks ?F)" using old u by blast
  have mk: "mset (armed_keys toks ?F') = add_mset ?k (mset (armed_keys toks ?F))"
    by (simp add: armed_keys_def)
  then have setk: "set (armed_keys toks ?F') = insert ?k (set (armed_keys toks ?F))"
    by (metis set_mset_add_mset_insert set_mset_mset)
  have "distinct (?k # armed_keys toks ?F)" using new cnt by (simp add: counts_ok_def)
  then have dk: "distinct (armed_keys toks ?F')"
    using mk mset_eq_imp_distinct_iff[of "armed_keys toks ?F'" "?k # armed_keys toks ?F"] by simp
  have wf: "bt_wf ?p" using ci by (simp add: collector_inv_def)
  have "bt_lookup ?p ?k = None" using new keys by (simp add: bt_lookup_def map_of_eq_None_iff)
  then have ins: "length (bt_insert ?k pending ?p) = Suc (length ?p)"
    "fst ` set (bt_insert ?k pending ?p) = insert ?k (fst ` set ?p)"
    using wf by (simp_all add: bt_insert_length bt_insert_keys)
  have outs: "outstanding toks ?F' = outstanding toks ?F" by (simp add: outstanding_def)
  have fc: "filter is_commit ?F' = [FCommit ?x]" using one_holder[OF one] by simp
  have "counts_ok (Suc n) (with_run ?run G) toks ?F'"
    unfolding counts_ok_def outs fc with_run_sel
    using cnt dk setk keys ins len old u op(1)
    by (auto simp: counts_ok_def list_all_iff less_Suc_eq)
  moreover have "admission_ok G ?F'"
    by (rule admission_replace[OF adm]) (use cls room in simp_all)
  then have "admission_ok (with_run ?run G) ?F'" using op'(3)[of ?F'] by blast
  moreover have "finalization_ok r (with_run ?run G) ?F' W"
    using op'(4) unfolding finalization_ok_def by simp
  moreover have "tokens_ok (with_run ?run G) toks"
    using op'(2) core by (simp add: view_core_def)
  moreover have "drain_ok (with_run ?run G) toks ?F'"
    using drain cls by (simp add: drain_ok_def run_limits_hit_def tailtriage_snapshot_def)
  ultimately have "view_inv (Suc n) r (with_run ?run G) toks ?F' W"
    using op'(1) by (simp only: view_inv_def view_core_def)
  then show ?thesis using st1 st by (simp add: G' fs st')
qed

lemma refused_hits:
  assumes "is_open self" and "\<not> (length (run_requests (tt_run self)) + length (cs_pending_requests (tt_state self))
      < max_requests (tt_limits self))"
    and "begin_request_with now1 now2 route options st self = (started, st', run, calls)"
  shows "run_limits_hit run"
proof -
  have "(run, calls) = start_op (now1, now2, route, options, st) self"
    by (rule begin_request_with_start[OF assms(3)])
  then show ?thesis
    using start_request_cases(2)[of self now1 now2 route options st] assms(1,2)
    by (simp add: release_after_push_def mark_run_limits_hit_def mark_limits_hit_def
        run_limits_hit_def tailtriage_snapshot_def Let_def)
qed

lemma limits_frames_ok:
  assumes "calls = (if P \<and> auto_seal G then [()] else [])"
  shows "list_all (frame_ok G) (limits_frames calls)" and "filter holds_admission (limits_frames calls) = []"
    and "concat (map frame_armed (limits_frames calls)) = []" and "filter is_commit (limits_frames calls) = []"
    and "filter is_mark (limits_frames calls) = []" and "filter holds_finalization (limits_frames calls) = []"
    and "calls \<noteq> [] \<Longrightarrow> FLimits \<in> set (limits_frames calls)"
  using assms by (simp_all split: if_splits)

lemma frame_ok_run:
  assumes "gen_limits (with_run run G) = gen_limits G"
  shows "frame_ok (with_run run G) f = frame_ok G f"
  using assms by (cases f) simp_all

lemma step_refuse:
  assumes inv: "view_inv n r G toks (A @ FRefuse route options # R @ B) W"
    and beg: "begin_refused now1 now2 route options st G = (st', G', fs)"
    and st: "PENDING_SEQUENCE st = of_nat n"
  shows "view_inv (Suc n) r G' toks (A @ fs @ R @ B) W
    \<and> PENDING_SEQUENCE st' = of_nat (Suc n) \<and> (fs = [] \<or> fs = [FLimits])"
proof -
  let ?F = "A @ FRefuse route options # R @ B"
  note core = view_coreD(1)[OF inv] and drain = view_coreD(2)[OF inv]
  have slots: "gr_admitted_request_slots G = max_requests (gen_limits G)"
    using view_frame_ok[OF inv] by simp
  have ci: "collector_inv (gr_run G)" and cnt: "counts_ok n G toks ?F"
    using core by (simp_all add: view_core_def run_ok_def)
  have full: "is_open (gr_run G) \<Longrightarrow> \<not> (length (run_requests (tt_run (gr_run G)))
      + length (cs_pending_requests (tt_state (gr_run G))) < max_requests (gen_limits G))"
    using cnt slots by (simp add: counts_ok_def)
  then obtain h st1 res where b0: "begin_request_with now1 now2 route options st (gr_run G) =
      (\<lparr>sr_handle = h, sr_completion = None\<rparr>, st1, res)"
    and st1: "PENDING_SEQUENCE st1 = PENDING_SEQUENCE st + 1"
    and fr: "request_frame (fst res) = request_frame (gr_run G)"
    using begin_request_refused[of "gr_run G" now1 now2 route options st] by metis
  obtain run calls where res: "res = (run, calls)" by (rule prod.exhaust)
  note b = b0[unfolded res]
  have G': "G' = with_run run G" and fs: "fs = limits_frames calls" and st': "st' = st1"
    using beg b by (simp_all add: begin_refused_def with_run_def)
  note bo = begin_op_ok[OF ci b]
  note op = op_run[OF core bo]
  let ?F' = "A @ limits_frames calls @ R @ B"
  have calls: "calls = (if (\<not> run_limits_hit (gr_run G) \<and> run_limits_hit run) \<and> auto_seal G then [()] else [])"
    using op(6) by simp
  note lf = limits_frames_ok[OF calls]
  have core1: "view_core (Suc n) r (with_run run G) toks ?F W"
    using op(1-4) core counts_run[OF cnt, of run "Suc n"] fr res by (simp add: view_core_def)
  have "list_all (frame_ok (with_run run G)) (limits_frames calls)"
    using calls by (auto split: if_splits)
  then have core2: "view_core (Suc n) r (with_run run G) toks ?F' W"
    by (intro view_core_replace[OF core1]) (use lf in simp_all)
  have "drain_ok (with_run run G) toks ?F'"
  proof (rule drain_op[OF drain op(6,7)])
    show "outstanding toks ?F \<le> outstanding toks ?F'" by (simp add: outstanding_def)
    show "list_ex attempts ?F \<Longrightarrow> list_ex attempts ?F'" by auto
    show "list_ex signals ?F \<Longrightarrow> list_ex signals ?F'" by auto
    show "calls \<noteq> [] \<Longrightarrow> FLimits \<in> set ?F'" using lf(7) by simp
  next
    assume "gr_finalization_result G = FinalizationPending" and hit: "\<not> run_limits_hit run"
    moreover have "\<not> is_open (gr_run G)"
      using refused_hits[OF _ full b] hit by blast
    ultimately have "list_ex (\<lambda>f. holds_finalization f \<and> attempts f) ?F"
      using view_closed_attempts[OF core] by blast
    then show "list_ex attempts ?F' \<or> list_ex is_refuse ?F' \<or> outstanding toks ?F' > 0"
      by (auto simp: list_ex_iff)
  qed simp_all
  then have "view_inv (Suc n) r G' toks (A @ fs @ R @ B) W"
    using core2 by (simp add: view_inv_def G' fs)
  moreover have "fs = [] \<or> fs = [FLimits]" using calls by (simp add: fs split: if_splits)
  ultimately show ?thesis using st1 st by (simp add: st')
qed

section \<open>Completing a request\<close>

lemma finish_op_ok:
  assumes "collector_inv self" and "completion_finish now outcome token self = (run, calls)"
  shows "op_ok self (run, calls)" and "is_open self \<or> run = self"
    and "run_runtime_snapshots (tt_run run) = run_runtime_snapshots (tt_run self)"
  using completion_finish_ok(1)[OF assms(1), of now outcome token] completion_finish_ok(2)[of self now outcome token]
    snapshots_finish[of now outcome token self] assms(2) by auto

lemma armed_keys_remove:
  assumes "distinct (armed_keys toks (A @ FCoreFinish a x # R @ B))" and "concat (map frame_armed fs) = []"
  shows "distinct (armed_keys toks (A @ fs @ R @ B))"
    and "set (armed_keys toks (A @ fs @ R @ B)) =
      set (armed_keys toks (A @ FCoreFinish a x # R @ B)) - {ac_pending_key a}"
    and "ac_pending_key a \<in> set (armed_keys toks (A @ FCoreFinish a x # R @ B))"
proof -
  have m: "mset (armed_keys toks (A @ FCoreFinish a x # R @ B)) =
      mset (ac_pending_key a # armed_keys toks (A @ fs @ R @ B))"
    using assms(2) by (simp add: armed_keys_def)
  have d: "distinct (ac_pending_key a # armed_keys toks (A @ fs @ R @ B))"
    using mset_eq_imp_distinct_iff[OF m] assms(1) by blast
  have s: "set (armed_keys toks (A @ FCoreFinish a x # R @ B)) =
      insert (ac_pending_key a) (set (armed_keys toks (A @ fs @ R @ B)))"
    using mset_eq_setD[OF m] by simp
  show "distinct (armed_keys toks (A @ fs @ R @ B))" using d by simp
  show "set (armed_keys toks (A @ fs @ R @ B)) =
      set (armed_keys toks (A @ FCoreFinish a x # R @ B)) - {ac_pending_key a}"
    using s d by auto
  show "ac_pending_key a \<in> set (armed_keys toks (A @ FCoreFinish a x # R @ B))" using s by simp
qed

lemma step_core_finish:
  assumes inv: "view_inv n r G toks (A @ FCoreFinish a x # R @ B) W"
    and fin: "completion_finish now x (Some a) (gr_run G) = (run, calls)"
  shows "view_inv n r (with_run run G) toks (A @ limits_frames calls @ R @ B) W
    \<and> (limits_frames calls = [] \<or> limits_frames calls = [FLimits])"
proof -
  let ?F = "A @ FCoreFinish a x # R @ B" and ?F' = "A @ limits_frames calls @ R @ B"
  let ?p = "cs_pending_requests (tt_state (gr_run G))" and ?k = "ac_pending_key a"
  note core = view_coreD(1)[OF inv] and drain = view_coreD(2)[OF inv]
  have ci: "collector_inv (gr_run G)" and cnt: "counts_ok n G toks ?F" and adm: "admission_ok G ?F"
    using core by (simp_all add: view_core_def run_ok_def)
  note fo = finish_op_ok[OF ci fin]
  note op = op_run[OF core fo]
  have calls: "calls = (if (\<not> run_limits_hit (gr_run G) \<and> run_limits_hit run) \<and> auto_seal G then [()] else [])"
    using op(6) by simp
  note lf = limits_frames_ok[OF calls]
  have dist: "distinct (armed_keys toks ?F)" and small: "list_all (\<lambda>k. unat k < n) (armed_keys toks ?F)"
    using cnt by (simp_all add: counts_ok_def)
  note keys = armed_keys_remove[OF dist lf(3)]
  have outs: "outstanding toks ?F' = outstanding toks ?F" by (simp add: outstanding_def lf(5))
  have com: "length (filter is_commit ?F') = length (filter is_commit ?F)" by (simp add: lf(4))
  have wf: "bt_wf ?p" using ci by (simp add: collector_inv_def)
  have "set (armed_keys toks ?F') = fst ` set (cs_pending_requests (tt_state run))
      \<and> gr_admitted_request_slots G + length (filter is_commit ?F')
            = length (run_requests (tt_run run)) + length (cs_pending_requests (tt_state run))"
    if "is_open (gr_run G)"
  proof -
    have old: "set (armed_keys toks ?F) = fst ` set ?p"
      "gr_admitted_request_slots G + length (filter is_commit ?F) = length (run_requests (tt_run (gr_run G))) + length ?p"
      using cnt that by (simp_all add: counts_ok_def)
    then have "?k \<in> fst ` set ?p" using keys(3) by simp
    then obtain pending where pk: "bt_lookup ?p ?k = Some pending"
      by (metis bt_lookup_def map_of_eq_None_iff option.exhaust)
    then have pos: "0 < length ?p" by auto
    have "cs_pending_requests (tt_state run) = bt_remove ?k ?p"
      and "length (run_requests (tt_run run)) = Suc (length (run_requests (tt_run (gr_run G))))"
      using fin unfolding completion_finish_def option.case resolve_request_open[OF ci that pk] by auto
    then show ?thesis
      using old keys(2) com pos bt_remove_keys[OF wf, of ?k] bt_length_remove[of ?k ?p] pk by simp
  qed
  then have cnt': "counts_ok n (with_run run G) toks ?F'"
    using cnt keys(1,2) small op(5) unfolding counts_ok_def outs with_run_sel
    by (auto simp: list_all_iff)
  have "list_all (frame_ok G) (limits_frames calls)" by (rule lf(1))
  then have "admission_ok G ?F'" by (intro admission_replace[OF adm]) (use lf in simp_all)
  then have "admission_ok (with_run run G) ?F'" using op(3)[of ?F'] by blast
  moreover have "finalization_ok r (with_run run G) ?F' W"
    using op(4) by (simp add: finalization_ok_def lf(6))
  ultimately have core': "view_core n r (with_run run G) toks ?F' W"
    using op(1,2) core cnt' by (simp add: view_core_def)
  have "drain_ok (with_run run G) toks ?F'"
    by (rule drain_op[OF drain op(6,7)]) (use lf(7) outs in \<open>auto simp: list_ex_iff\<close>)
  then show ?thesis using core' calls by (simp add: view_inv_def split: if_splits)
qed

section \<open>New threads\<close>

lemma view_core_spawn:
  assumes core: "view_core n r G toks F W"
    and fs: "filter holds_admission fs = []" "concat (map frame_armed fs) = []" "filter is_commit fs = []"
      "filter is_mark fs = []" "filter holds_finalization fs = []" and ok: "list_all (frame_ok G) fs"
  shows "view_core n r G toks (F @ fs) W"
proof -
  have keys: "armed_keys toks (F @ fs) = armed_keys toks F"
    by (simp only: armed_keys_def map_append concat_append fs(2) append_Nil2)
  have outs: "outstanding toks (F @ fs) = outstanding toks F" by (simp add: outstanding_def fs(4))
  have com: "filter is_commit (F @ fs) = filter is_commit F" by (simp add: fs(3))
  have "counts_ok n G toks F" using core by (simp add: view_core_def)
  then have "counts_ok n G toks (F @ fs)" unfolding counts_ok_def keys outs com .
  moreover have "admission_ok G (F @ fs)" using core fs(1) ok by (simp add: view_core_def admission_ok_def)
  moreover have "finalization_ok r G F W" using core by (simp add: view_core_def)
  then have "finalization_ok r G (F @ fs) W" by (simp add: finalization_ok_def fs(5))
  ultimately show ?thesis using core by (simp add: view_core_def)
qed

lemma view_spawn:
  assumes inv: "view_inv n r G toks F W"
    and fs: "filter holds_admission fs = []" "concat (map frame_armed fs) = []" "filter is_commit fs = []"
      "filter is_mark fs = []" "filter holds_finalization fs = []" and ok: "list_all (frame_ok G) fs"
  shows "view_inv n r G toks (F @ fs) W"
proof -
  have "drain_ok G toks (F @ fs)"
    using view_coreD(2)[OF inv] fs(4) by (auto simp: drain_ok_def outstanding_def)
  then show ?thesis using view_core_spawn[OF view_coreD(1)[OF inv] fs ok] by (simp add: view_inv_def)
qed

lemma finish_frames:
  assumes "acc_completion t = Some (Some a)" and "acc_inflight_recorded t"
  shows "ctl_completion_finish x t = [FCoreFinish a x, FMark (acc_run_end_policy t)]"
    and "ctl_completion_drop t = [FCoreFinish a OutcomeCancelled, FMark (acc_run_end_policy t)]"
  using assms by (simp_all add: ctl_completion_finish_def ctl_completion_drop_def mark_finished_def
      core_finish_frames_def Let_def)

lemma remove_nth_split:
  assumes "i < length xs"
  obtains P Q where "xs = P @ xs ! i # Q" and "remove_nth i xs = P @ Q"
  using id_take_nth_drop[OF assms] by (simp add: remove_nth_def)

lemma remove_nth_length: "i < length xs \<Longrightarrow> length xs = Suc (length (remove_nth i xs))"
  by (simp add: remove_nth_def)

lemma step_take_token:
  assumes inv: "view_inv n r G toks F W" and j: "j < length toks"
    and a: "acc_completion (toks ! j) = Some (Some a)"
  shows "view_inv n r G (remove_nth j toks) (F @ [FCoreFinish a x, FMark (acc_run_end_policy (toks ! j))]) W"
proof -
  let ?t = "toks ! j" and ?toks = "remove_nth j toks"
  let ?F = "F @ [FCoreFinish a x, FMark (acc_run_end_policy (toks ! j))]"
  note core = view_coreD(1)[OF inv]
  have toks: "tokens_ok G toks" and cnt: "counts_ok n G toks F" and adm: "admission_ok G F"
    and fin: "finalization_ok r G F W" and run: "run_ok G"
    using core by (simp_all add: view_core_def)
  obtain P Q where PQ: "toks = P @ ?t # Q" "?toks = P @ Q" by (rule remove_nth_split[OF j])
  have "mset (concat (map token_armed (P @ ?t # Q))) = mset (a # concat (map token_armed ?toks))"
    unfolding PQ(2) using a by (simp add: token_armed_def)
  then have "mset (concat (map token_armed toks)) = mset (a # concat (map token_armed ?toks))"
    using PQ(1) by simp
  then have m: "mset (armed_keys ?toks ?F) = mset (armed_keys toks F)"
    by (simp add: armed_keys_def)
  have outs: "outstanding ?toks ?F = outstanding toks F"
    using remove_nth_length[OF j] by (simp add: outstanding_def)
  have "counts_ok n G ?toks ?F"
    using cnt mset_eq_setD[OF m] mset_eq_imp_distinct_iff[OF m] outs
    by (simp add: counts_ok_def list_all_iff)
  moreover have "tokens_ok G ?toks"
    using toks by (auto simp: tokens_ok_def remove_nth_def dest: in_set_takeD in_set_dropD)
  moreover have "?t \<in> set toks" using j by simp
  then have "admission_ok G ?F" using adm toks by (auto simp: admission_ok_def tokens_ok_def)
  moreover have "finalization_ok r G ?F W" using fin by (simp add: finalization_ok_def)
  moreover have "drain_ok G ?toks ?F"
    using view_coreD(2)[OF inv] by (auto simp: drain_ok_def outs)
  ultimately show ?thesis using run by (simp add: view_inv_def view_core_def)
qed

text \<open>An operation that may fire the listener, in a thread of its own.\<close>

lemma step_record:
  assumes inv: "view_inv n r G toks F W" and ok: "op_ok (gr_run G) (run, calls)"
    and inert: "is_open (gr_run G) \<or> run = gr_run G"
    and snaps: "run_runtime_snapshots (tt_run run) = run_runtime_snapshots (tt_run (gr_run G))"
    and fr: "request_frame run = request_frame (gr_run G)"
  shows "view_inv n r (with_run run G) toks (F @ limits_frames calls) W
    \<and> (limits_frames calls = [] \<or> limits_frames calls = [FLimits])"
proof -
  note core = view_coreD(1)[OF inv] and drain = view_coreD(2)[OF inv]
  note op = op_run[OF core ok inert snaps]
  have calls: "calls = (if (\<not> run_limits_hit (gr_run G) \<and> run_limits_hit run) \<and> auto_seal G then [()] else [])"
    using op(6) by simp
  note lf = limits_frames_ok[OF calls]
  have "counts_ok n (with_run run G) toks F"
    using counts_run[of n G toks F run n] core fr by (simp add: view_core_def)
  then have "view_core n r (with_run run G) toks F W"
    using op(1-4) core by (simp add: view_core_def)
  moreover have "list_all (frame_ok (with_run run G)) (limits_frames calls)"
    using calls by (auto split: if_splits)
  ultimately have "view_core n r (with_run run G) toks (F @ limits_frames calls) W"
    using view_core_spawn lf(2-6) by blast
  moreover have "drain_ok (with_run run G) toks (F @ limits_frames calls)"
    by (rule drain_op[OF drain op(6,7)])
      (use lf(5,7) in \<open>auto simp: outstanding_def\<close>)
  ultimately show ?thesis using calls by (simp add: view_inv_def split: if_splits)
qed

lemma step_evidence:
  assumes inv: "view_inv n r G toks F W" and ev: "record_evidence ev (gr_run G) = (run, calls)"
  shows "view_inv n r (with_run run G) toks (F @ limits_frames calls) W
    \<and> (limits_frames calls = [] \<or> limits_frames calls = [FLimits])"
proof -
  have "collector_inv (gr_run G)" using inv by (simp add: view_inv_def view_core_def run_ok_def)
  then show ?thesis
    using evidence_ok[where self = "gr_run G" and ev = ev] snapshots_evidence[of ev "gr_run G"] ev
    by (intro step_record[OF inv]) auto
qed

lemma sampler_step_run:
  assumes "sampler_step (SamplerTick now snap) task run = (task', run', calls)"
  shows "(run', calls) = (run, []) \<or> (run', calls) = record_runtime_snapshot now snap run"
  using assms by (auto split: if_splits prod.splits)

lemma step_tick:
  assumes inv: "view_inv n r G toks F W" and smp: "gr_runtime_sampler G = Some task"
    and st: "sampler_step (SamplerTick now snap) task (gr_run G) = (task', run, calls)"
  shows "calls = [] \<and> view_inv n r (G\<lparr>gr_run := run, gr_runtime_sampler := Some task'\<rparr>) toks F W"
proof -
  let ?G = "G\<lparr>gr_run := run, gr_runtime_sampler := Some task'\<rparr>"
  note core = view_coreD(1)[OF inv] and drain = view_coreD(2)[OF inv]
  have ci: "collector_inv (gr_run G)" and si: "sampler_inv task (gr_run G)"
    using core smp by (simp_all add: view_core_def run_ok_def)
  note s = sampler_step_inv[OF si st]
  have ok: "op_ok (gr_run G) (run, calls)" and inert: "is_open (gr_run G) \<or> run = gr_run G"
    and fr: "request_frame run = request_frame (gr_run G)"
    using sampler_step_run[OF st] runtime_op.ok[OF ci, of "(now, snap)"] runtime_op.inert[of "gr_run G" "(now, snap)"]
      op_ok_refl[OF ci] request_frame_record(3)[of now snap "gr_run G"]
    by (auto simp: eq_fst_iff) (metis fst_conv)+
  note fr' = collector_frameD[of run "gr_run G"]
  have f: "collector_frame run = collector_frame (gr_run G)" "collector_inv run"
    using ok by (simp_all add: op_ok_def)
  have run: "run_ok ?G"
    using core s f(2) fr'[OF f(1)] by (simp add: view_core_def run_ok_def auto_seal_def)
  have hit: "run_limits_hit run = run_limits_hit (gr_run G)"
    using s by (simp add: run_limits_hit_def tailtriage_snapshot_def)
  have "tokens_ok ?G toks" using core tokens_ok_cong[of ?G G toks] by (simp add: view_core_def)
  moreover have "admission_ok ?G F"
    using core admission_cong[of ?G G F] fr'(2)[OF f(1)] by (simp add: view_core_def)
  moreover have "counts_ok n (with_run run G) toks F"
    using counts_run[of n G toks F run n] core fr by (simp add: view_core_def)
  then have "counts_ok n ?G toks F" by (simp add: counts_ok_def)
  moreover have "finalization_ok r (with_run run G) F W"
    using finalization_run[OF _ fr'(1)[OF f(1)] inert] core by (simp add: view_core_def)
  then have "finalization_ok r ?G F W"
    using finalization_cong[of ?G "with_run run G" F F r W] by simp
  moreover have "drain_ok ?G toks F"
    using drain hit by (simp add: drain_ok_def auto_seal_def)
  ultimately show ?thesis using s run by (simp only: view_inv_def view_core_def)
qed

end
