(* ===== verification/Ctl_System.thy ===== *)
theory Ctl_System
  imports Ctl_Recording
begin

text \<open>
  The invariant of the whole controller: every cell satisfies its own invariant in the role the
  lifecycle gives it, generation identifiers are the cells' positions, and every step of the
  system keeps both.
\<close>

section \<open>The step of a thread\<close>

lemma thread_ok_tail: "tail_ok rest \<Longrightarrow> thread_ok rest"
  by (auto simp: tail_ok_def thread_ok_def)

lemma thread_ok_Cons: "thread_ok (f # rest) \<longleftrightarrow> tail_ok rest \<and> head_ok f rest"
  by (simp add: thread_ok_def)

lemma tail_ok_release: "tail_ok rest \<Longrightarrow> FReleaseAdmission \<in> set rest \<Longrightarrow>
    \<exists>r x. rest = [FReleaseAdmission, FInert r x]"
  by (auto simp: tail_ok_def)

text \<open>What a frame may turn into, as far as the shape of its thread is concerned.\<close>

fun follows :: "frame \<Rightarrow> frame list \<Rightarrow> bool" where
  "follows (FAdmit _ _) fs = (\<exists>r x. fs = [FInert r x] \<or> fs = [FRefuse r x, FReleaseAdmission, FInert r x]
     \<or> fs = [FBegin r x])"
| "follows (FRefuse _ _) fs = (fs = [] \<or> fs = [FLimits])"
| "follows (FBegin _ _) fs = (\<exists>x. fs = [FCommit x])"
| "follows FLimits fs = (fs = [] \<or> fs = [FFinalize CallerIgnores] \<or> fs = [FClose AutoSealOnLimitsHit AfterLimits])"
| "follows (FClose _ k) fs = (fs = [] \<or> fs = [FMarkSub] \<or> (\<exists>c. fs = [FFinalize c]))"
| "follows (FCoreFinish _ _) fs = (fs = [] \<or> fs = [FLimits])"
| "follows (FMark _) fs = (fs = [FMarkSub] \<or> fs = [FClose AutoSealOnLimitsHit AfterMark])"
| "follows FMarkSub fs = (fs = [] \<or> fs = [FMarkCheck])"
| "follows FMarkCheck fs = (fs = [] \<or> fs = [FFinalize CallerIgnores])"
| "follows (FFinalize c) fs = (fs = [] \<or> (\<exists>ng. fs = [FShutdownBegin c ng]))"
| "follows (FShutdownBegin c ng) fs = (\<exists>x. fs = [FSettle c ng x] \<or> (\<exists>cand. fs = [FSinkWrite c ng cand]))"
| "follows (FSinkWrite c ng _) fs = (\<exists>x. fs = [FSettle c ng x])"
| "follows (FSettle c ng x) fs = (fs = [] \<or> fs = [FPublish c ng x])"
| "follows _ fs = (fs = [])"

lemma thread_ok_follows:
  assumes ok: "thread_ok (f # rest)" and fol: "follows f fs"
    and lim: "f = FLimits \<Longrightarrow> FReleaseAdmission \<in> set rest \<Longrightarrow> fs \<noteq> [FClose AutoSealOnLimitsHit AfterLimits]"
  shows "thread_ok (fs @ rest)"
proof -
  have t: "tail_ok rest" and h: "head_ok f rest" using ok by (simp_all add: thread_ok_Cons)
  note tail = thread_ok_tail[OF t]
  show ?thesis
  proof (cases f)
    case (FAdmit r x)
    then have "rest = []" using h by simp
    then show ?thesis using fol FAdmit by (auto simp: thread_ok_def tail_ok_def)
  qed (use t h tail fol lim in \<open>auto simp: thread_ok_Cons\<close>)
qed

fun lc_next :: "ControllerLifecycle \<Rightarrow> u64" where
  "lc_next (LcDisabled ng) = ng"
| "lc_next (LcActive _ ng) = ng"
| "lc_next (LcTerminalFailed _ ng _) = ng"
| "lc_next (LcShutdown _ ng) = ng"

text \<open>What a frame leaves alone in the rest of the system.\<close>

definition step_frame :: "nat \<Rightarrow> ('c, 'w) ctl \<Rightarrow> ('c, 'w) ctl \<Rightarrow> bool" where
  "step_frame g s s' \<longleftrightarrow> ct_cells s' = ct_cells s \<and> ct_template s' = ct_template s \<and> ct_base s' = ct_base s
     \<and> ct_sequence s \<le> ct_sequence s' \<and> lc_next (ct_lifecycle s') = lc_next (ct_lifecycle s)
     \<and> (lc_ref (ct_lifecycle s') = None \<or> lc_ref (ct_lifecycle s') = lc_ref (ct_lifecycle s))
     \<and> (\<forall>g'. g' \<noteq> g \<longrightarrow> role_of (ct_lifecycle s') g' = role_of (ct_lifecycle s) g')
     \<and> (is_shutdown (ct_lifecycle s) \<longrightarrow> ct_lifecycle s' = ct_lifecycle s)"

lemma step_frame_same:
  "ct_cells s' = ct_cells s \<Longrightarrow> ct_template s' = ct_template s \<Longrightarrow> ct_base s' = ct_base s \<Longrightarrow>
   ct_lifecycle s' = ct_lifecycle s \<Longrightarrow> ct_sequence s \<le> ct_sequence s' \<Longrightarrow> step_frame g s s'"
  by (simp add: step_frame_def)

lemma returns_sel [simp]:
  "ct_cells (returns rs s) = ct_cells s" "ct_template (returns rs s) = ct_template s"
  "ct_base (returns rs s) = ct_base s" "ct_lifecycle (returns rs s) = ct_lifecycle s"
  "ct_sequence (returns rs s) = ct_sequence s" "ct_statics (returns rs s) = ct_statics s"
  by (simp_all add: returns_def)

lemma publish_frame:
  fixes x :: "ShutdownError + unit" and ng :: u64
  assumes "\<And>r. lc_ref lc = Some r \<Longrightarrow> ref_id r = gid \<longleftrightarrow> ref_cell r = g"
  defines "lc' \<equiv> finalize_publish x gid ng lc"
  shows "lc_next lc' = lc_next lc" and "lc_ref lc' = None \<or> lc_ref lc' = lc_ref lc"
    and "g' \<noteq> g \<Longrightarrow> role_of lc' g' = role_of lc g'" and "is_shutdown lc \<Longrightarrow> lc' = lc"
  using assms(1)
  by (auto simp: lc'_def finalize_publish_def role_of_def is_shutdown_def
      split: ControllerLifecycle.splits sum.splits)

lemma after_closure_frames:
  "after_closure k gid c = (fs, rs) \<Longrightarrow> fs = [] \<or> fs = [FMarkSub] \<or> (\<exists>c. fs = [FFinalize c])"
  by (cases k) (auto split: if_splits)

lemma follows_limits: "follows FLimits (limits_signal G)"
  by (simp add: limits_signal_def)

lemma frame_step_inv:
  assumes inv: "view_inv (ct_sequence s) (role_of (ct_lifecycle s) g) G toks (A @ f # R @ B) W"
    and seq: "PENDING_SEQUENCE (ct_statics s) = of_nat (ct_sequence s)"
    and en: "enabled f (A @ f # R @ B)" and thread: "thread_ok (f # R)"
    and cf: "list_ex is_core_finish (A @ f # R @ B) \<Longrightarrow> list_ex is_mark (A @ f # R @ B)"
    and ids: "\<And>r. lc_ref (ct_lifecycle s) = Some r \<Longrightarrow> ref_id r = gr_generation_id G \<longleftrightarrow> ref_cell r = g"
    and step: "frame_step sink now1 now2 f s G = Some (s', G', fs, ts, ws)"
    and small: "ct_sequence s' \<le> u64_max"
  shows "view_inv (ct_sequence s') (role_of (ct_lifecycle s') g) G' (toks @ ts) (A @ fs @ R @ B) (W @ ws)
      \<and> PENDING_SEQUENCE (ct_statics s') = of_nat (ct_sequence s')
      \<and> thread_ok (fs @ R) \<and> gr_generation_id G' = gr_generation_id G \<and> step_frame g s s'"
proof -
  have lim: "fs \<noteq> [FClose AutoSealOnLimitsHit AfterLimits]" if "f = FLimits" "FReleaseAdmission \<in> set R"
  proof -
    have "list_all (frame_ok G) (A @ f # R @ B)"
      using inv by (simp add: view_inv_def view_core_def admission_ok_def)
    then have "frame_ok G FReleaseAdmission" and "frame_ok G FLimits"
      using that by (auto simp only: set_append list.set Un_iff list_all_iff)
    then have "gr_closing G" by simp
    then show ?thesis using step that(1) by (auto simp: limits_signal_def split: if_splits)
  qed
  have free_a: "filter holds_admission (A @ f # R @ B) = []" if "enabled f (A @ f # R @ B) = (\<not> list_ex holds_admission (A @ f # R @ B))"
    using en that by (auto simp: list_ex_iff filter_empty_conv)
  have free_f: "filter holds_finalization (A @ f # R @ B) = []" if "enabled f (A @ f # R @ B) = (\<not> list_ex holds_finalization (A @ f # R @ B))"
    using en that by (auto simp: list_ex_iff filter_empty_conv)
  have "view_inv (ct_sequence s') (role_of (ct_lifecycle s') g) G' (toks @ ts) (A @ fs @ R @ B) (W @ ws)
      \<and> PENDING_SEQUENCE (ct_statics s') = of_nat (ct_sequence s')
      \<and> follows f fs \<and> gr_generation_id G' = gr_generation_id G \<and> step_frame g s s'"
  proof (cases f)
    case (FAdmit route options)
    obtain G1 fs1 where a: "admit route options G = (G1, fs1)" by (rule prod.exhaust)
    have "view_inv (ct_sequence s) (role_of (ct_lifecycle s) g) G1 toks (A @ fs1 @ R @ B) W"
      by (rule step_admit[OF inv[unfolded FAdmit] _ a]) (use free_a FAdmit in simp)
    then show ?thesis
      using step a seq FAdmit by (auto simp: admit_def Let_def close_generation_admissions_locked_def
          intro!: step_frame_same split: if_splits)
  next
    case (FRefuse route options)
    obtain st1 G1 fs1 where b: "begin_refused now1 now2 route options (ct_statics s) G = (st1, G1, fs1)"
      by (metis prod_cases3)
    have "gr_generation_id G1 = gr_generation_id G"
      using b by (auto simp: begin_refused_def split: prod.splits)
    then show ?thesis
      using step_refuse[OF inv[unfolded FRefuse] b seq] step b FRefuse
      by (auto intro!: step_frame_same)
  next
    case (FBegin route options)
    obtain st1 G1 fs1 where b: "begin_admitted now1 now2 route options (ct_statics s) G = (st1, G1, fs1)"
      by (metis prod_cases3)
    have s': "ct_sequence s' = Suc (ct_sequence s)" using step b FBegin by auto
    have "gr_generation_id G1 = gr_generation_id G"
      using b by (auto simp: begin_admitted_def split: prod.splits)
    then show ?thesis
      using step_begin[OF inv[unfolded FBegin] b seq] small[unfolded s'] step b FBegin
      by (auto intro!: step_frame_same)
  next
    case (FCommit started)
    obtain G1 h t where c: "commit_admission started G = (G1, h, t)" by (metis prod_cases3)
    have "gr_generation_id G1 = gr_generation_id G" using c by (auto simp: commit_admission_def)
    then show ?thesis
      using step_commit[OF inv[unfolded FCommit] c] step c seq FCommit by (auto intro!: step_frame_same)
  next
    case FReleaseAdmission
    then show ?thesis
      using step_release[OF inv[unfolded FReleaseAdmission]] step seq by (auto intro!: step_frame_same)
  next
    case (FInert r x)
    then show ?thesis
      using step_inert[OF inv[unfolded FInert]] step seq
      by (auto simp: next_inert_request_id_def intro!: step_frame_same)
  next
    case FLimits
    then show ?thesis
      using step_limits[OF inv[unfolded FLimits]] step seq follows_limits
      by (auto intro!: step_frame_same)
  next
    case (FClose reason k)
    obtain G1 c where cl: "close_generation_admissions_locked reason G = (G1, c)" by (rule prod.exhaust)
    obtain fs1 rs where ac: "after_closure k (gr_generation_id G) c = (fs1, rs)" by (rule prod.exhaust)
    have "view_inv (ct_sequence s) (role_of (ct_lifecycle s) g) G1 toks (A @ fs1 @ R @ B) W"
      by (rule step_close[OF inv[unfolded FClose] _ cl ac]) (use free_a FClose in simp)
    moreover have "gr_generation_id G1 = gr_generation_id G"
      using cl by (auto simp: close_generation_admissions_locked_def)
    ultimately show ?thesis
      using step cl ac seq FClose after_closure_frames[OF ac] by (auto intro!: step_frame_same)
  next
    case (FCoreFinish a x)
    obtain run calls where c: "completion_finish now1 x (Some a) (gr_run G) = (run, calls)"
      by (rule prod.exhaust)
    show ?thesis
      using step_core_finish[OF inv[unfolded FCoreFinish] c] step c seq FCoreFinish
      by (auto simp: with_run_def intro!: step_frame_same)
  next
    case (FMark p)
    then show ?thesis
      using step_mark[OF inv[unfolded FMark]] step seq
      by (auto simp: mark_limits_def intro!: step_frame_same)
  next
    case FMarkSub
    obtain G1 fs1 where m: "mark_sub G = (G1, fs1)" by (rule prod.exhaust)
    have "gr_generation_id G1 = gr_generation_id G" using m by (auto simp: mark_sub_def Let_def)
    then show ?thesis
      using step_mark_sub[OF inv[unfolded FMarkSub] m] step seq FMarkSub m
      by (auto simp: mark_sub_def Let_def intro!: step_frame_same)
  next
    case FMarkCheck
    then show ?thesis
      using step_mark_check[OF inv[unfolded FMarkCheck]] step seq
      by (auto simp: mark_check_def intro!: step_frame_same)
  next
    case (FFinalize c)
    obtain G1 x where e: "finalize_entry (ct_lifecycle s) G = (G1, x)" by (rule prod.exhaust)
    have "view_inv (ct_sequence s) (role_of (ct_lifecycle s) g) G1 toks
        (A @ (case x of Inl _ \<Rightarrow> [] | Inr ng \<Rightarrow> [FShutdownBegin c ng]) @ R @ B) W"
      by (rule step_finalize[OF inv[unfolded FFinalize] _ e ids]) (use free_f FFinalize in simp_all)
    moreover have "gr_generation_id G1 = gr_generation_id G"
      using e by (auto simp: finalize_entry_def set_generation_result_def Let_def
          split: option.splits ControllerLifecycle.splits if_splits)
    ultimately show ?thesis
      using step e seq FFinalize by (cases x) (auto intro!: step_frame_same)
  next
    case (FShutdownBegin c ng)
    obtain run d where b: "shutdown_begin now1 (gr_run G) = (run, d)" by (rule prod.exhaust)
    show ?thesis
      using step_shutdown_begin[OF inv[unfolded FShutdownBegin] _ b] cf FShutdownBegin step b seq
      by (cases d) (auto intro!: step_frame_same)
  next
    case (FSinkWrite c ng cand)
    obtain run w x where b: "shutdown_finish sink cand (ct_world s) (gr_run G) = (run, w, x)"
      by (metis prod_cases3)
    show ?thesis
      using step_sink_write[OF inv[unfolded FSinkWrite] b] step b seq FSinkWrite
      by (auto simp: shutdown_finish_logged intro!: step_frame_same)
  next
    case (FSettle c ng x)
    have "gr_generation_id (finalize_settle x G) = gr_generation_id G"
      by (cases x) (auto simp: finalize_settle_def Let_def set_generation_result_def)
    then show ?thesis
      using step_settle[OF inv[unfolded FSettle]] step seq FSettle
      by (auto intro!: step_frame_same split: sum.splits ShutdownError.splits)
  next
    case (FPublish c ng x)
    note pf = publish_frame[where lc = "ct_lifecycle s" and gid = "gr_generation_id G" and g = g and x = x and ng = ng, OF ids]
    show ?thesis
      using step_publish[OF inv[unfolded FPublish] ids] step seq FPublish pf
      by (auto simp: step_frame_def)
  qed
  then show ?thesis using thread_ok_follows[OF thread _ lim] by blast
qed

section \<open>The invariant of the system\<close>

text \<open>The states in which no 64-bit counter of the process has wrapped.\<close>

definition ctl_small :: "('c, 'w) ctl \<Rightarrow> bool" where
  "ctl_small s \<longleftrightarrow> ct_sequence s \<le> u64_max \<and> Suc (length (ct_cells s)) \<le> u64_max"

definition ids_ok :: "('c, 'w) ctl \<Rightarrow> bool" where
  "ids_ok s \<longleftrightarrow> (\<forall>g<length (ct_cells s). gr_generation_id (cl_gen (ct_cells s ! g)) = of_nat (Suc g))
     \<and> (\<forall>r. lc_ref (ct_lifecycle s) = Some r \<longrightarrow>
          ref_cell r < length (ct_cells s) \<and> ref_id r = of_nat (Suc (ref_cell r)))
     \<and> lc_next (ct_lifecycle s) = of_nat (Suc (length (ct_cells s)))"

definition cells_ok :: "('c, 'w) ctl \<Rightarrow> bool" where
  "cells_ok s \<longleftrightarrow> (\<forall>g<length (ct_cells s).
     cell_inv (ct_sequence s) (role_of (ct_lifecycle s) g) (ct_cells s ! g))"

definition ctl_inv :: "('c, 'w) ctl \<Rightarrow> bool" where
  "ctl_inv s \<longleftrightarrow> (ctl_small s \<longrightarrow> usize_template (ct_template s)
     \<and> PENDING_SEQUENCE (ct_statics s) = of_nat (ct_sequence s) \<and> ids_ok s \<and> cells_ok s)"

lemma ids_match:
  assumes ids: "ids_ok s" and small: "ctl_small s" and g: "g < length (ct_cells s)"
    and r: "lc_ref (ct_lifecycle s) = Some r"
  shows "ref_id r = gr_generation_id (cl_gen (ct_cells s ! g)) \<longleftrightarrow> ref_cell r = g"
proof -
  have c: "ref_cell r < length (ct_cells s)" and id: "ref_id r = of_nat (Suc (ref_cell r))"
    and gid: "gr_generation_id (cl_gen (ct_cells s ! g)) = of_nat (Suc g)"
    using ids g r by (simp_all add: ids_ok_def)
  have le: "Suc a \<le> u64_max" if "a < length (ct_cells s)" for a
    using small that unfolding ctl_small_def by linarith
  have "unat (ref_id r) = Suc (ref_cell r)"
    unfolding id by (rule unat_of_nat_u64[OF le[OF c]])
  moreover have "unat (gr_generation_id (cl_gen (ct_cells s ! g))) = Suc g"
    unfolding gid by (rule unat_of_nat_u64[OF le[OF g]])
  ultimately show ?thesis using id gid by (metis nat.inject)
qed

lemma view_mono: "view_inv n r G toks F W \<Longrightarrow> n \<le> m \<Longrightarrow> view_inv m r G toks F W"
  by (fastforce simp: view_inv_def view_core_def counts_ok_def list_all_iff)

lemma cell_inv_mono: "cell_inv n r cell \<Longrightarrow> n \<le> m \<Longrightarrow> cell_inv m r cell"
  using view_mono by (force simp: cell_inv_view)

lemma core_finish_marked:
  assumes "list_all thread_ok ts" and "list_ex is_core_finish (concat ts)"
  shows "list_ex is_mark (concat ts)"
proof -
  obtain t f where t: "t \<in> set ts" "f \<in> set t" "is_core_finish f"
    using assms(2) by (auto simp: list_ex_iff)
  have "thread_ok t" using assms(1) t(1) by (simp add: list_all_iff)
  then obtain h rest where hr: "t = h # rest" "tail_ok rest" "head_ok h rest"
    using t(2) by (cases t) (auto simp: thread_ok_def)
  have "f = h" using hr(2) t(2,3) unfolding hr(1) by (auto simp: tail_ok_def)
  then obtain p where "rest = [FMark p]" using hr(3) t(3) by (cases f) auto
  then have "FMark p \<in> set t" using hr(1) by simp
  then show ?thesis using t(1) by (force simp: list_ex_iff)
qed

text \<open>A change of one cell and of the shared state.\<close>

lemma cells_update:
  assumes cells: "cells_ok s" and g: "g < length (ct_cells s)"
    and cs: "ct_cells s' = (ct_cells s)[g := cell]"
    and cell: "cell_inv (ct_sequence s') (role_of (ct_lifecycle s') g) cell"
    and seq: "ct_sequence s \<le> ct_sequence s'"
    and roles: "\<And>g'. g' \<noteq> g \<Longrightarrow> role_of (ct_lifecycle s') g' = role_of (ct_lifecycle s) g'"
  shows "cells_ok s'"
  unfolding cells_ok_def
proof (intro allI impI)
  fix g' assume "g' < length (ct_cells s')"
  then have g': "g' < length (ct_cells s)" by (simp add: cs)
  show "cell_inv (ct_sequence s') (role_of (ct_lifecycle s') g') (ct_cells s' ! g')"
  proof (cases "g' = g")
    case True
    then show ?thesis using cell g by (simp add: cs)
  next
    case False
    have "cell_inv (ct_sequence s) (role_of (ct_lifecycle s) g') (ct_cells s ! g')"
      using cells g' by (simp add: cells_ok_def)
    then show ?thesis
      using cell_inv_mono seq roles[OF False] False by (simp add: cs)
  qed
qed

lemma update_cell_sel [simp]:
  "ct_cells (update_cell g f s) = (ct_cells s)[g := f (ct_cells s ! g)]"
  "ct_template (update_cell g f s) = ct_template s" "ct_base (update_cell g f s) = ct_base s"
  "ct_lifecycle (update_cell g f s) = ct_lifecycle s" "ct_sequence (update_cell g f s) = ct_sequence s"
  "ct_statics (update_cell g f s) = ct_statics s"
  by (simp_all add: update_cell_def)

lemma frame_step_mono:
  "frame_step sink now1 now2 f s G = Some (s', G', fs, ts, ws) \<Longrightarrow>
   ct_cells s' = ct_cells s \<and> ct_sequence s \<le> ct_sequence s'"
proof (induction sink now1 now2 f s G rule: frame_step.induct)
  case (13 sink now1 now2 c s G)
  obtain G1 x where "finalize_entry (ct_lifecycle s) G = (G1, x)" by (rule prod.exhaust)
  with 13 show ?case by (cases x) auto
next
  case (14 sink now1 now2 c ng s G)
  obtain run d where "shutdown_begin now1 (gr_run G) = (run, d)" by (rule prod.exhaust)
  with 14 show ?case by (cases d) auto
next
  case (16 sink now1 now2 c ng r s G)
  then show ?case by (cases r rule: result_of.cases) auto
qed (auto split: prod.splits)

lemma run_threadE:
  assumes "run_thread sink now1 now2 g i s = Some s'"
  obtains f R s1 G' fs ts ws where "g < length (ct_cells s)" and "i < length (cl_threads (ct_cells s ! g))"
    and "cl_threads (ct_cells s ! g) ! i = f # R" and "enabled f (frames_of (ct_cells s ! g))"
    and "frame_step sink now1 now2 f s (cl_gen (ct_cells s ! g)) = Some (s1, G', fs, ts, ws)"
    and "s' = update_cell g (\<lambda>c. \<lparr>cl_gen = G', cl_tokens = cl_tokens c @ ts,
        cl_threads = (cl_threads c)[i := fs @ R], cl_written = cl_written c @ ws\<rparr>) s1"
  using assms by (auto simp: run_thread_def Let_def split: if_splits list.splits option.splits prod.splits)

lemma ids_update:
  assumes "ids_ok s" and "length (ct_cells s') = length (ct_cells s)"
    and "\<And>g. g < length (ct_cells s) \<Longrightarrow>
      gr_generation_id (cl_gen (ct_cells s' ! g)) = gr_generation_id (cl_gen (ct_cells s ! g))"
    and "lc_next (ct_lifecycle s') = lc_next (ct_lifecycle s)"
    and "lc_ref (ct_lifecycle s') = None \<or> lc_ref (ct_lifecycle s') = lc_ref (ct_lifecycle s)"
  shows "ids_ok s'"
  using assms by (auto simp: ids_ok_def)

lemma run_thread_inv:
  assumes inv: "ctl_inv s" and step: "run_thread sink now1 now2 g i s = Some s'"
  shows "ctl_inv s'"
proof -
  let ?cell = "ct_cells s ! g"
  obtain f R s1 G' fs ts ws where g: "g < length (ct_cells s)" and i: "i < length (cl_threads ?cell)"
    and th: "cl_threads ?cell ! i = f # R" and en: "enabled f (frames_of ?cell)"
    and fs: "frame_step sink now1 now2 f s (cl_gen ?cell) = Some (s1, G', fs, ts, ws)"
    and s': "s' = update_cell g (\<lambda>c. \<lparr>cl_gen = G', cl_tokens = cl_tokens c @ ts,
        cl_threads = (cl_threads c)[i := fs @ R], cl_written = cl_written c @ ws\<rparr>) s1"
    using run_threadE[OF step] .
  note mono = frame_step_mono[OF fs]
  show ?thesis
    unfolding ctl_inv_def
  proof
    assume small': "ctl_small s'"
    then have small: "ctl_small s" using mono by (auto simp: ctl_small_def s')
    have tpl: "usize_template (ct_template s)" and seq: "PENDING_SEQUENCE (ct_statics s) = of_nat (ct_sequence s)"
      and ids: "ids_ok s" and cells: "cells_ok s"
      using inv small by (simp_all add: ctl_inv_def)
    have ci: "cell_inv (ct_sequence s) (role_of (ct_lifecycle s) g) ?cell"
      using cells g by (simp add: cells_ok_def)
    then have threads: "list_all thread_ok (cl_threads ?cell)"
      and view: "view_inv (ct_sequence s) (role_of (ct_lifecycle s) g) (cl_gen ?cell) (cl_tokens ?cell)
        (concat (cl_threads ?cell)) (cl_written ?cell)"
      by (simp_all add: cell_inv_view frames_of_def)
    obtain A B where F: "concat (cl_threads ?cell) = A @ f # R @ B"
      and F': "\<forall>fs. concat ((cl_threads ?cell)[i := fs @ R]) = A @ fs @ R @ B"
      using frames_split[OF i th] by metis
    have tok: "thread_ok (f # R)" using threads i th by (metis list_all_length)
    have step': "view_inv (ct_sequence s1) (role_of (ct_lifecycle s1) g) G' (cl_tokens ?cell @ ts)
        (A @ fs @ R @ B) (cl_written ?cell @ ws)
      \<and> PENDING_SEQUENCE (ct_statics s1) = of_nat (ct_sequence s1)
      \<and> thread_ok (fs @ R) \<and> gr_generation_id G' = gr_generation_id (cl_gen ?cell) \<and> step_frame g s s1"
    proof (rule frame_step_inv[OF _ seq _ tok _ _ fs])
      show "view_inv (ct_sequence s) (role_of (ct_lifecycle s) g) (cl_gen ?cell) (cl_tokens ?cell)
        (A @ f # R @ B) (cl_written ?cell)" using view F by simp
      show "enabled f (A @ f # R @ B)" using en F by (simp add: frames_of_def)
      show "list_ex is_core_finish (A @ f # R @ B) \<Longrightarrow> list_ex is_mark (A @ f # R @ B)"
        using core_finish_marked[OF threads] F by simp
      show "\<And>r. lc_ref (ct_lifecycle s) = Some r \<Longrightarrow>
          ref_id r = gr_generation_id (cl_gen ?cell) \<longleftrightarrow> ref_cell r = g"
        by (rule ids_match[OF ids small g])
      show "ct_sequence s1 \<le> u64_max" using small' by (simp add: ctl_small_def s')
    qed
    note sf = conjunct2[OF conjunct2[OF conjunct2[OF conjunct2[OF step']]], unfolded step_frame_def]
    let ?c = "\<lparr>cl_gen = G', cl_tokens = cl_tokens ?cell @ ts,
        cl_threads = (cl_threads ?cell)[i := fs @ R], cl_written = cl_written ?cell @ ws\<rparr>"
    have "list_all thread_ok ((cl_threads ?cell)[i := fs @ R])"
      using threads step' i by (auto simp: list_all_length nth_list_update)
    then have "cell_inv (ct_sequence s') (role_of (ct_lifecycle s') g) ?c"
      using step' F' by (simp add: cell_inv_view frames_of_def s')
    then have "cells_ok s'"
      by (intro cells_update[OF cells g]) (use sf in \<open>simp_all add: s'\<close>)
    moreover have "ids_ok s'"
      by (rule ids_update[OF ids]) (use sf step' g in \<open>auto simp: s' nth_list_update\<close>)
    ultimately show "usize_template (ct_template s')
        \<and> PENDING_SEQUENCE (ct_statics s') = of_nat (ct_sequence s') \<and> ids_ok s' \<and> cells_ok s'"
      using tpl sf step' by (simp add: s')
  qed
qed

section \<open>The steps of the callers\<close>

lemma frames_spawn [simp]: "frames_of (spawn fs cell) = frames_of cell @ fs"
  by (simp add: frames_of_def spawn_def)

lemma spawn_sel [simp]:
  "cl_gen (spawn fs cell) = cl_gen cell" "cl_tokens (spawn fs cell) = cl_tokens cell"
  "cl_written (spawn fs cell) = cl_written cell" "cl_threads (spawn fs cell) = cl_threads cell @ [fs]"
  by (simp_all add: spawn_def)

lemma frames_of_upd [simp]:
  "frames_of (c\<lparr>cl_gen := x\<rparr>) = frames_of c" "frames_of (c\<lparr>cl_tokens := y\<rparr>) = frames_of c"
  by (simp_all add: frames_of_def)

text \<open>A step of a caller on one cell, with the lifecycle and the counters as they are.\<close>

lemma caller_step:
  assumes inv: "ctl_inv s" and g: "g < length (ct_cells s)"
    and s': "ct_cells s' = (ct_cells s)[g := cell]" "ct_template s' = ct_template s"
      "ct_lifecycle s' = ct_lifecycle s" "ct_sequence s' = ct_sequence s" "ct_statics s' = ct_statics s"
    and cell: "cell_inv (ct_sequence s) (role_of (ct_lifecycle s) g) (ct_cells s ! g) \<Longrightarrow>
      cell_inv (ct_sequence s) (role_of (ct_lifecycle s) g) cell
      \<and> gr_generation_id (cl_gen cell) = gr_generation_id (cl_gen (ct_cells s ! g))"
  shows "ctl_inv s'"
  unfolding ctl_inv_def
proof
  assume "ctl_small s'"
  then have "ctl_small s" by (simp add: ctl_small_def s')
  then have cells: "cells_ok s" and ids: "ids_ok s" and rest: "usize_template (ct_template s)"
    "PENDING_SEQUENCE (ct_statics s) = of_nat (ct_sequence s)"
    using inv by (simp_all add: ctl_inv_def)
  have c: "cell_inv (ct_sequence s) (role_of (ct_lifecycle s) g) cell"
    "gr_generation_id (cl_gen cell) = gr_generation_id (cl_gen (ct_cells s ! g))"
    using cell cells g by (simp_all add: cells_ok_def)
  have "cells_ok s'" by (rule cells_update[OF cells g s'(1)]) (simp_all add: s' c)
  moreover have "ids_ok s'"
    by (rule ids_update[OF ids]) (use g c(2) in \<open>auto simp: s' nth_list_update\<close>)
  ultimately show "usize_template (ct_template s')
      \<and> PENDING_SEQUENCE (ct_statics s') = of_nat (ct_sequence s') \<and> ids_ok s' \<and> cells_ok s'"
    using rest by (simp add: s')
qed

lemma caller_step_same:
  assumes "ctl_inv s" and "ct_cells s' = ct_cells s" and "usize_template (ct_template s) \<Longrightarrow> usize_template (ct_template s')"
    and "ct_lifecycle s' = ct_lifecycle s" and "ct_sequence s' = ct_sequence s" and "ct_statics s' = ct_statics s"
  shows "ctl_inv s'"
  using assms by (simp add: ctl_inv_def ctl_small_def ids_ok_def cells_ok_def)

lemma cell_spawn:
  assumes inv: "cell_inv n r cell" and ok: "frame_ok (cl_gen cell) f"
    and f: "\<not> holds_admission f" "frame_armed f = []" "\<not> is_commit f" "\<not> is_mark f" "\<not> holds_finalization f"
    and head: "head_ok f []"
  shows "cell_inv n r (spawn [f] cell)"
  using inv view_spawn[of n r "cl_gen cell" "cl_tokens cell" "frames_of cell" "cl_written cell" "[f]"] ok f head
  by (simp add: cell_inv_view thread_ok_def tail_ok_def)

lemma spawn_step:
  assumes inv: "ctl_inv s" and g: "ctl_small s \<Longrightarrow> g < length (ct_cells s)"
    and ok: "\<And>G. frame_ok (G :: 'c ActiveGenerationRuntime) f"
    and f: "\<not> holds_admission f" "frame_armed f = []" "\<not> is_commit f" "\<not> is_mark f" "\<not> holds_finalization f"
      "head_ok f []"
  shows "ctl_inv (update_cell g (spawn [f]) (s :: ('c, 'w) ctl))"
proof (cases "g < length (ct_cells s)")
  case True
  show ?thesis
    by (rule caller_step[OF inv True, where cell = "spawn [f] (ct_cells s ! g)"])
      (simp_all add: cell_spawn ok f)
next
  case False
  then have "\<not> ctl_small (update_cell g (spawn [f]) s)" using g by (auto simp: ctl_small_def)
  then show ?thesis by (simp only: ctl_inv_def simp_thms)
qed

lemma small_ref:
  "ctl_inv s \<Longrightarrow> ctl_small s \<Longrightarrow> lc_ref (ct_lifecycle s) = Some r \<Longrightarrow> ref_cell r < length (ct_cells s)"
  by (simp add: ctl_inv_def ids_ok_def)

lemma take_token_step:
  assumes inv: "ctl_inv s" and g: "g < length (ct_cells s)" and j: "j < length (cl_tokens (ct_cells s ! g))"
    and fs: "\<And>t a. acc_completion t = Some (Some a) \<Longrightarrow> acc_inflight_recorded t \<Longrightarrow>
      fs t = [FCoreFinish a x, FMark (acc_run_end_policy t)]"
  shows "ctl_inv (update_cell g (\<lambda>c. spawn (fs (cl_tokens c ! j)) (c\<lparr>cl_tokens := remove_nth j (cl_tokens c)\<rparr>)) s)"
proof (rule caller_step[OF inv g])
  let ?c = "ct_cells s ! g" and ?t = "cl_tokens (ct_cells s ! g) ! j"
  let ?cell = "spawn (fs ?t) (?c\<lparr>cl_tokens := remove_nth j (cl_tokens ?c)\<rparr>)"
  assume ci: "cell_inv (ct_sequence s) (role_of (ct_lifecycle s) g) ?c"
  then have "tokens_ok (cl_gen ?c) (cl_tokens ?c)" by (simp add: cell_inv_def)
  then obtain a where a: "acc_completion ?t = Some (Some a)" "acc_inflight_recorded ?t"
    using j unfolding tokens_ok_def by (meson nth_mem)
  then show "cell_inv (ct_sequence s) (role_of (ct_lifecycle s) g) ?cell
      \<and> gr_generation_id (cl_gen ?cell) = gr_generation_id (cl_gen ?c)"
    using step_take_token[OF conjunct2[OF ci[unfolded cell_inv_view]] j a(1)] conjunct1[OF ci[unfolded cell_inv_view]]
    by (simp add: fs[OF a] cell_inv_view thread_ok_def tail_ok_def)
qed simp_all

lemma record_step:
  assumes inv: "ctl_inv s" and g: "g < length (ct_cells s)"
    and ok: "\<And>n r toks F W. view_inv n r (cl_gen (ct_cells s ! g)) toks F W \<Longrightarrow>
      view_inv n r G' toks (F @ fs) W \<and> (fs = [] \<or> fs = [FLimits])"
    and id: "gr_generation_id G' = gr_generation_id (cl_gen (ct_cells s ! g))"
  shows "ctl_inv (update_cell g (\<lambda>c. spawn fs (c\<lparr>cl_gen := G'\<rparr>)) s)"
proof (rule caller_step[OF inv g])
  let ?c = "ct_cells s ! g"
  assume ci: "cell_inv (ct_sequence s) (role_of (ct_lifecycle s) g) ?c"
  then have "view_inv (ct_sequence s) (role_of (ct_lifecycle s) g) G' (cl_tokens ?c) (frames_of ?c @ fs) (cl_written ?c)
      \<and> (fs = [] \<or> fs = [FLimits])"
    using ok[OF conjunct2[OF ci[unfolded cell_inv_view]]] by simp
  then show "cell_inv (ct_sequence s) (role_of (ct_lifecycle s) g) (spawn fs (?c\<lparr>cl_gen := G'\<rparr>))
      \<and> gr_generation_id (cl_gen (spawn fs (?c\<lparr>cl_gen := G'\<rparr>))) = gr_generation_id (cl_gen ?c)"
    using ci id by (auto simp: cell_inv_view thread_ok_def tail_ok_def)
qed simp_all

section \<open>Changes of the lifecycle\<close>

lemma role_weaken:
  assumes ng: "\<And>ng. role_ng r ng \<Longrightarrow> role_ng r' ng" and res: "\<And>x. role_result r x \<Longrightarrow> role_result r' x"
    and inv: "cell_inv n r cell"
  shows "cell_inv n r' cell"
proof -
  have "holder_ok r G h \<Longrightarrow> holder_ok r' G h" for G :: "'a ActiveGenerationRuntime" and h
    by (cases h) (auto intro: ng)
  then have "finalization_ok r G F W \<Longrightarrow> finalization_ok r' G F W" for G :: "'a ActiveGenerationRuntime" and F W
    using res unfolding finalization_ok_def by (auto split: list.splits)
  then show ?thesis using inv by (simp add: cell_inv_def)
qed

lemma cell_shutdown:
  assumes "cell_inv n (role_of lc g) cell"
  shows "cell_inv n (role_of (fst (shutdown_lookup lc)) g) cell"
  by (rule role_weaken[OF _ _ assms])
    (auto simp: role_of_def shutdown_lookup_def is_shutdown_def split: ControllerLifecycle.splits option.splits if_splits)

lemma cells_mono:
  assumes "cells_ok s" and "ct_cells s' = ct_cells s" and "ct_sequence s' = ct_sequence s"
    and "\<And>g n cell. cell_inv n (role_of (ct_lifecycle s) g) cell \<Longrightarrow>
      cell_inv n (role_of (ct_lifecycle s') g) (cell :: 'c cell)"
  shows "cells_ok (s' :: ('c, 'w) ctl)"
  using assms by (simp add: cells_ok_def)

lemma shutdown_state_inv:
  assumes inv: "ctl_inv s"
  shows "ctl_inv (s\<lparr>ct_lifecycle := fst (shutdown_lookup (ct_lifecycle s))\<rparr>)"
proof -
  let ?s = "s\<lparr>ct_lifecycle := fst (shutdown_lookup (ct_lifecycle s))\<rparr>"
  have lc: "lc_next (fst (shutdown_lookup lc)) = lc_next lc" "lc_ref (fst (shutdown_lookup lc)) = lc_ref lc" for lc
    by (cases lc; simp add: shutdown_lookup_def is_shutdown_def)+
  have "cells_ok s \<Longrightarrow> cells_ok ?s"
    by (erule cells_mono) (simp_all add: cell_shutdown)
  moreover have "ids_ok s \<Longrightarrow> ids_ok ?s" by (simp add: ids_ok_def lc)
  ultimately show ?thesis using inv by (simp add: ctl_inv_def ctl_small_def)
qed

lemma new_run:
  assumes run: "builder_build (from_config now gid host pid) (generation_builder template ng) = Inr run"
    and us: "usize_template template"
  shows "collector_inv run" and "is_open run" and "run_requests (tt_run run) = []"
    and "cs_pending_requests (tt_state run) = []" and "run_runtime_snapshots (tt_run run) = []"
    and "ecc_capture_limits (tt_effective_core_config run) = tt_limits run"
    and "max_requests (tt_limits run) \<le> u64_max" and "\<not> run_limits_hit run"
    and "tt_limits_hit_listener run = None"
proof -
  let ?cfg = "config_from_builder (generation_builder template ng)"
  have fc: "from_config now gid host pid ?cfg = Inr run"
    using run by (auto simp: builder_build_def split: if_splits)
  show "collector_inv run" using collector_inv_from_config[OF fc] by simp
  have lim: "ecc_capture_limits (cfg_effective_core ?cfg) =
      override_apply (tpl_capture_limits_override template) (core_defaults (tpl_mode template))"
    by (cases "tpl_mode template")
      (simp_all add: generation_builder_def builder_new_def builder_run_id_def builder_output_def builder_mode_def
        builder_capture_limits_override_def builder_strict_lifecycle_def config_from_builder_def Let_def
        override_merge_apply override_default_apply)
  have usm: "max_requests (ecc_capture_limits (cfg_effective_core ?cfg)) \<le> u64_max"
    using us unfolding lim usize_template_def .
  show "is_open run" and "run_requests (tt_run run) = []"
    and "cs_pending_requests (tt_state run) = []" and "run_runtime_snapshots (tt_run run) = []"
    and "ecc_capture_limits (tt_effective_core_config run) = tt_limits run"
    and "max_requests (tt_limits run) \<le> u64_max" and "\<not> run_limits_hit run"
    and "tt_limits_hit_listener run = None"
    using fc usm by (auto simp: from_config_def Let_def collector_state_new_def run_new_def
        run_limits_hit_def tailtriage_snapshot_def truncation_default_def split: if_splits option.splits)
qed

lemma listener_run:
  "collector_inv (set_limits_hit_listener l run) = collector_inv run"
  "tt_state (set_limits_hit_listener l run) = tt_state run"
  "tt_limits (set_limits_hit_listener l run) = tt_limits run"
  "tt_effective_core_config (set_limits_hit_listener l run) = tt_effective_core_config run"
  "tt_limits_hit_listener (set_limits_hit_listener l run) = l"
  by (simp_all add: set_limits_hit_listener_def collector_inv_def)

lemma register_run:
  fixes run :: "('c, 'l) Tailtriage" and config :: EffectiveTokioSamplerConfig
  defines "run' \<equiv> snd (register_tokio_runtime_sampler config run)"
  shows "collector_inv run \<Longrightarrow> collector_inv run'"
    and "cs_phase (tt_state run') = cs_phase (tt_state run)" and "tt_limits run' = tt_limits run"
    and "tt_effective_core_config run' = tt_effective_core_config run"
    and "tt_limits_hit_listener run' = tt_limits_hit_listener run"
    and "run_requests (tt_run run') = run_requests (tt_run run)"
    and "cs_pending_requests (tt_state run') = cs_pending_requests (tt_state run)"
    and "run_runtime_snapshots (tt_run run') = run_runtime_snapshots (tt_run run)"
    and "run_limits_hit run' = run_limits_hit run"
  by (simp_all add: run'_def register_tokio_runtime_sampler_def collector_inv_def within_limits_def drops_full_def
      run_limits_hit_def tailtriage_snapshot_def)

lemma sampler_start_run:
  assumes "sampler_start present b run = (Inr task, run')"
    and "run_runtime_snapshots (tt_run run) = []"
    and "ecc_capture_limits (tt_effective_core_config run) = tt_limits run"
  shows "\<exists>config. run' = snd (register_tokio_runtime_sampler config run)" and "sampler_inv task run'"
proof -
  obtain resolved where r: "resolve_sampler_config run b = Inr resolved"
    "\<exists>u. register_tokio_runtime_sampler (into_effective_metadata resolved) run = (Inr u, run')"
    "task = \<lparr>smt_captured = 0, smt_max_runtime_snapshots = rsc_resolved_max_runtime_snapshots resolved,
       smt_running = True\<rparr>"
    using assms(1) by (auto simp: sampler_start_def split: sum.splits if_splits prod.splits)
  then have run': "run' = snd (register_tokio_runtime_sampler (into_effective_metadata resolved) run)" by auto
  then show "\<exists>config. run' = snd (register_tokio_runtime_sampler config run)" by blast
  have "rsc_resolved_max_runtime_snapshots resolved \<le> max_runtime_snapshots (tt_limits run)"
    using r(1) assms(3) by (auto simp: resolve_sampler_config_def Let_def split: if_splits)
  then show "sampler_inv task run'"
    using assms(2) by (simp add: run' sampler_inv_def r(3) register_run(3,8))
qed

text \<open>A generation whose run has recorded nothing, before anybody refers to it.\<close>

definition fresh_generation :: "u64 \<Rightarrow> 'c ActiveGenerationRuntime \<Rightarrow> bool" where
  "fresh_generation ng G \<longleftrightarrow> gr_generation_id G = ng \<and> gr_finalization_result G = FinalizationPending
     \<and> gr_accepting_new G \<and> \<not> gr_closing G \<and> gr_inflight_captured G = 0 \<and> gr_admitted_request_slots G = 0
     \<and> is_open (gr_run G) \<and> run_requests (tt_run (gr_run G)) = []
     \<and> cs_pending_requests (tt_state (gr_run G)) = [] \<and> run_runtime_snapshots (tt_run (gr_run G)) = []
     \<and> \<not> run_limits_hit (gr_run G)"

lemma construct_generation_ok:
  fixes G :: "'c ActiveGenerationRuntime"
  assumes con: "construct_generation (from_config now gid host pid) present template ng = Inr G"
    and us: "usize_template template"
  shows "run_ok G \<and> fresh_generation ng G"
proof -
  obtain run :: "('c, unit) Tailtriage" where run: "builder_build (from_config now gid host pid) (generation_builder template ng) = Inr run"
    using con by (auto simp: construct_generation_def split: sum.splits)
  note nr = new_run[OF run us]
  let ?run = "if tpl_run_end_policy template = AutoSealPolicy then set_limits_hit_listener (Some ()) run else run"
  define R where "R = \<lparr>gr_generation_id = ng,
      gr_started_at_unix_ms = md_started_at_unix_ms (run_metadata (tailtriage_snapshot run)),
      gr_activation_config = activation_of template,
      gr_artifact_path = generated_artifact_path (tpl_output_path template) ng,
      gr_run = run, gr_admitted_request_slots = 0, gr_finalization_result = FinalizationPending,
      gr_accepting_new = True, gr_closing = False, gr_inflight_captured = 0, gr_finalize_started = False,
      gr_last_finalization_error = None, gr_runtime_sampler = None\<rparr>"
  define G0 where "G0 = R\<lparr>gr_run := ?run\<rparr>"
  have "(if tpl_run_end_policy template = AutoSealPolicy
      then R\<lparr>gr_run := set_limits_hit_listener (Some ()) (gr_run R)\<rparr> else R) = G0"
    by (simp add: G0_def R_def)
  then have st: "start_runtime_sampler_if_enabled present template G0 = Inr G"
    using con unfolding construct_generation_def run sum.case Let_def R_def by simp
  have G0: "gr_run G0 = ?run" "gr_runtime_sampler G0 = None"
      "auto_seal G0 \<longleftrightarrow> tpl_run_end_policy template = AutoSealPolicy" "gr_generation_id G0 = ng"
      "gr_finalization_result G0 = FinalizationPending" "gr_accepting_new G0" "\<not> gr_closing G0"
      "gr_inflight_captured G0 = 0" "gr_admitted_request_slots G0 = 0"
    by (simp_all add: G0_def R_def auto_seal_def activation_of_def)
  have base: "run_ok G0 \<and> fresh_generation ng G0"
    using nr by (simp add: run_ok_def fresh_generation_def G0 listener_run run_limits_hit_def tailtriage_snapshot_def)
  show ?thesis
  proof (cases "rst_enabled (tpl_runtime_sampler template)")
    case False
    then show ?thesis using st base by (simp add: start_runtime_sampler_if_enabled_def)
  next
    case True
    then obtain task run1 where ss: "sampler_start present (sampler_builder_of (tpl_runtime_sampler template)) (gr_run G0)
        = (Inr task, run1)"
      and G: "G = G0\<lparr>gr_run := run1, gr_runtime_sampler := Some task\<rparr>"
      using st by (auto simp: start_runtime_sampler_if_enabled_def split: if_splits prod.splits sum.splits)
    have s0: "run_runtime_snapshots (tt_run (gr_run G0)) = []"
      "ecc_capture_limits (tt_effective_core_config (gr_run G0)) = tt_limits (gr_run G0)"
      using base by (simp_all add: fresh_generation_def run_ok_def)
    obtain config where run1: "run1 = snd (register_tokio_runtime_sampler config (gr_run G0))"
      using sampler_start_run(1)[OF ss s0] by blast
    note rr = register_run[where run = "gr_run G0" and config = config, folded run1]
    show ?thesis
      using base rr sampler_start_run(2)[OF ss s0]
      by (simp add: run_ok_def fresh_generation_def G auto_seal_def)
  qed
qed

lemma new_cell_inv:
  assumes "run_ok G" and "fresh_generation ng G"
  shows "cell_inv n (RoleActive ng') (new_cell G)"
  using assms
  by (simp add: cell_inv_def new_cell_def frames_of_def tokens_ok_def admission_ok_def counts_ok_def
      finalization_ok_def drain_ok_def fresh_generation_def armed_keys_def outstanding_def)

lemma of_nat_inc: "(of_nat n :: u64) + 1 = of_nat (Suc n)"
  by simp

lemma saturating_succ_of_nat:
  assumes "Suc n \<le> u64_max"
  shows "saturating_succ (of_nat n) = of_nat (Suc n)"
proof -
  have "unat (of_nat n :: u64) = n" by (rule unat_of_nat_u64) (use assms in linarith)
  then have "unat (saturating_succ (of_nat n)) = Suc n"
    using assms by (simp add: saturating_succ_def unat_saturating_add)
  moreover have "unat (of_nat (Suc n) :: u64) = Suc n" by (rule unat_of_nat_u64[OF assms])
  ultimately show ?thesis by (metis word_unat_eq_iff)
qed

lemma enable_lifecycle:
  assumes "enable mk present template fresh lc = Inr (lc', G)"
  shows "construct_generation mk present template (lc_next lc) = Inr G"
    and "lc' = LcActive \<lparr>ref_cell = fresh, ref_id = gr_generation_id G\<rparr> (saturating_succ (lc_next lc))"
    and "(\<exists>ng. lc = LcDisabled ng) \<or> (\<exists>r ng m. lc = LcTerminalFailed r ng m)"
  using assms by (auto simp: enable_def Let_def split: ControllerLifecycle.splits sum.splits)

lemma enable_inv:
  assumes inv: "ctl_inv s"
    and en: "enable (from_config now gid host pid) present (ct_template s) (length (ct_cells s)) (ct_lifecycle s)
      = Inr (lc', G)"
  shows "ctl_inv (s\<lparr>ct_lifecycle := lc', ct_cells := ct_cells s @ [new_cell G]\<rparr>)" (is "ctl_inv ?s")
  unfolding ctl_inv_def
proof
  assume "ctl_small ?s"
  then have small: "ctl_small s" and len: "Suc (Suc (length (ct_cells s))) \<le> u64_max"
    by (auto simp: ctl_small_def)
  have tpl: "usize_template (ct_template s)" and seq: "PENDING_SEQUENCE (ct_statics s) = of_nat (ct_sequence s)"
    and ids: "ids_ok s" and cells: "cells_ok s"
    using inv small by (simp_all add: ctl_inv_def)
  note el = enable_lifecycle[OF en]
  have G: "run_ok G" "fresh_generation (lc_next (ct_lifecycle s)) G"
    using construct_generation_ok[OF el(1) tpl] by simp_all
  have nx: "lc_next (ct_lifecycle s) = of_nat (Suc (length (ct_cells s)))" using ids by (simp add: ids_ok_def)
  then have gid: "gr_generation_id G = of_nat (Suc (length (ct_cells s)))"
    using G(2) by (simp add: fresh_generation_def)
  have nx': "lc_next lc' = of_nat (Suc (Suc (length (ct_cells s))))"
    using el(2) nx saturating_succ_of_nat[OF len] by simp
  have ref: "lc_ref lc' = Some \<lparr>ref_cell = length (ct_cells s), ref_id = gr_generation_id G\<rparr>"
    using el(2) by simp
  have "ids_ok ?s"
    using ids gid nx' ref by (auto simp: ids_ok_def nth_append less_Suc_eq new_cell_def simp del: of_nat_Suc)
  moreover have "cell_inv (ct_sequence s) (role_of lc' g) (ct_cells s ! g)" if "g < length (ct_cells s)" for g
  proof (rule role_weaken)
    show "cell_inv (ct_sequence s) (role_of (ct_lifecycle s) g) (ct_cells s ! g)"
      using cells that by (simp add: cells_ok_def)
    have gone: "role_of lc' g = RoleGone" using el(2) that by (simp add: role_of_def)
    show "\<And>ng. role_ng (role_of (ct_lifecycle s) g) ng \<Longrightarrow> role_ng (role_of lc' g) ng"
      and "\<And>x. role_result (role_of (ct_lifecycle s) g) x \<Longrightarrow> role_result (role_of lc' g) x"
      using el(3) unfolding gone by (auto simp: role_of_def split: if_splits)
  qed
  moreover have "cell_inv (ct_sequence s) (role_of lc' (length (ct_cells s))) (new_cell G)"
    using el(2) new_cell_inv[OF G] by (simp add: role_of_def)
  ultimately show "usize_template (ct_template ?s)
      \<and> PENDING_SEQUENCE (ct_statics ?s) = of_nat (ct_sequence ?s) \<and> ids_ok ?s \<and> cells_ok ?s"
    using tpl seq by (auto simp: cells_ok_def nth_append less_Suc_eq)
qed

section \<open>Every reachable state\<close>

lemma disable_ref: "disable_lookup lc = Inr r \<Longrightarrow> lc_ref lc = Some r"
  by (auto simp: disable_lookup_def split: ControllerLifecycle.splits)

lemma shutdown_ref: "shutdown_lookup lc = (lc', Some r) \<Longrightarrow> lc_ref lc' = Some r"
  by (auto simp: shutdown_lookup_def is_shutdown_def split: ControllerLifecycle.splits)

lemma ctl_inv_returns: "ctl_inv (returns rs s) = ctl_inv s"
  by (simp add: ctl_inv_def ctl_small_def ids_ok_def cells_ok_def)

lemma ctl_inv_exec:
  fixes s :: "('c, 'w) ctl"
  assumes inv: "ctl_inv s" and ex: "ctl_exec sink a s = Some s'"
  shows "ctl_inv s'"
proof (cases a)
  case (ActEnable now gid host pid present)
  show ?thesis
  proof (cases "enable (from_config now gid host pid) present (ct_template s) (length (ct_cells s)) (ct_lifecycle s)
      :: EnableError + ControllerLifecycle \<times> 'c ActiveGenerationRuntime")
    case (Inl e)
    then show ?thesis using ex ActEnable inv ctl_inv_returns by auto
  next
    case (Inr p)
    obtain lc' G where p: "p = (lc', G)" by (rule prod.exhaust)
    show ?thesis using ex ActEnable enable_inv[OF inv Inr[unfolded p]] Inr p by (auto simp: ctl_inv_returns)
  qed
next
  case ActDisable
  show ?thesis
  proof (cases "disable_lookup (ct_lifecycle s)")
    case (Inl r)
    then show ?thesis using ex ActDisable inv ctl_inv_returns by auto
  next
    case (Inr r)
    have "ctl_inv (update_cell (ref_cell r) (spawn [FClose ManualDisarm AfterDisable]) s)"
      by (rule spawn_step[OF inv]) (use small_ref[OF inv _ disable_ref[OF Inr]] in simp_all)
    then show ?thesis using ex ActDisable Inr by simp
  qed
next
  case ActShutdown
  obtain lc' r where sl: "shutdown_lookup (ct_lifecycle s) = (lc', r)" by (rule prod.exhaust)
  have inv': "ctl_inv (s\<lparr>ct_lifecycle := lc'\<rparr>)" using shutdown_state_inv[OF inv] sl by simp
  show ?thesis
  proof (cases r)
    case None
    then show ?thesis using ex ActShutdown sl inv' by (auto simp: ctl_inv_returns)
  next
    case (Some r')
    have "ctl_inv (update_cell (ref_cell r') (spawn [FClose Shutdown AfterShutdown]) (s\<lparr>ct_lifecycle := lc'\<rparr>))"
      by (rule spawn_step[OF inv']) (use small_ref[OF inv' _] shutdown_ref[OF sl[unfolded Some]] in simp_all)
    then show ?thesis using ex ActShutdown sl Some by simp
  qed
next
  case (ActBeginRequest route options)
  show ?thesis
  proof (cases "\<exists>r ng. ct_lifecycle s = LcActive r ng")
    case True
    then obtain r ng where lc: "ct_lifecycle s = LcActive r ng" by blast
    have "ctl_inv (update_cell (ref_cell r) (spawn [FAdmit route options]) s)"
      by (rule spawn_step[OF inv]) (use small_ref[OF inv, of r] lc in simp_all)
    then show ?thesis using ex ActBeginRequest lc by simp
  next
    case False
    then show ?thesis
      using ex ActBeginRequest
      by (auto simp: next_inert_request_id_def ctl_inv_returns intro!: caller_step_same[OF inv]
          split: ControllerLifecycle.splits)
  qed
next
  case (ActFinish g j x)
  then show ?thesis
    using ex take_token_step[OF inv, of g j "ctl_completion_finish x" x] finish_frames(1) by (auto split: if_splits)
next
  case (ActDropCompletion g j)
  then show ?thesis
    using ex take_token_step[OF inv, of g j ctl_completion_drop OutcomeCancelled] finish_frames(2)
    by (auto split: if_splits)
next
  case (ActEvidence g ev)
  then have g: "g < length (ct_cells s)" using ex by (simp split: if_splits)
  let ?G = "cl_gen (ct_cells s ! g)"
  obtain run calls where r: "record_evidence ev (gr_run ?G) = (run, calls)" by (rule prod.exhaust)
  have "ctl_inv (update_cell g (\<lambda>c. spawn (limits_frames calls) (c\<lparr>cl_gen := with_run run ?G\<rparr>)) s)"
    using step_evidence[OF _ r] by (intro record_step[OF inv g]) simp_all
  moreover have "s' = update_cell g (\<lambda>c. spawn (limits_frames calls) (c\<lparr>cl_gen := with_run run ?G\<rparr>)) s"
    using ex ActEvidence g r by (simp add: update_cell_def with_run_def)
  ultimately show ?thesis by simp
next
  case (ActTick g now snap)
  then have g: "g < length (ct_cells s)" using ex by (simp split: if_splits)
  let ?G = "cl_gen (ct_cells s ! g)"
  obtain task where t: "gr_runtime_sampler ?G = Some task" using ex ActTick g by (auto split: option.splits)
  obtain task' run calls where r: "sampler_step (SamplerTick now snap) task (gr_run ?G) = (task', run, calls)"
    by (metis prod_cases3)
  let ?G' = "?G\<lparr>gr_run := run, gr_runtime_sampler := Some task'\<rparr>"
  have nil: "view_inv n r (cl_gen (ct_cells s ! g)) toks F W \<Longrightarrow>
      view_inv n r ?G' toks (F @ limits_frames calls) W \<and> (limits_frames calls = [] \<or> limits_frames calls = [FLimits])"
    for n r toks F W using step_tick[OF _ t r] by simp
  have "ctl_inv (update_cell g (\<lambda>c. spawn (limits_frames calls) (c\<lparr>cl_gen := ?G'\<rparr>)) s)"
    by (rule record_step[OF inv g nil]) simp_all
  moreover have "s' = update_cell g (\<lambda>c. spawn (limits_frames calls) (c\<lparr>cl_gen := ?G'\<rparr>)) s"
    using ex g t r unfolding ActTick by (simp add: update_cell_def)
  ultimately show ?thesis by simp
next
  case (ActReloadTemplate next_template)
  then show ?thesis
    using ex by (auto simp: reload_template_def validate_public_template_def ctl_inv_returns
        intro!: caller_step_same[OF inv] split: if_splits)
next
  case (ActReloadConfig loaded)
  then show ?thesis
    using ex by (auto simp: Let_def ctl_inv_returns intro!: caller_step_same[OF inv] split: if_splits prod.splits)
next
  case (ActThread g i now1 now2)
  then show ?thesis using ex run_thread_inv[OF inv] by simp
next
  case ActOtherCollector
  have s': "ct_cells s' = ct_cells s" "ct_lifecycle s' = ct_lifecycle s" "ct_sequence s' = Suc (ct_sequence s)"
    using ex ActOtherCollector by auto
  have mono: "cell_inv (ct_sequence s) r c \<Longrightarrow> cell_inv (Suc (ct_sequence s)) r c" for r and c :: "'c cell"
    by (erule cell_inv_mono) simp
  have "cells_ok s \<Longrightarrow> cells_ok s'" unfolding cells_ok_def s' using mono by blast
  moreover have "ids_ok s \<Longrightarrow> ids_ok s'" using ex ActOtherCollector by (auto simp: ids_ok_def)
  ultimately show ?thesis
    using ex inv ActOtherCollector by (auto simp: ctl_inv_def ctl_small_def)
qed

lemma ctl_inv_init:
  assumes build: "controller_build from_path (from_config now gid host pid) present builder = Inr built"
    and us: "usize_template (bc_template built)"
  shows "ctl_inv (ctl_init st w built)"
proof -
  have 1: "ctl_inv (ctl_init st w (built\<lparr>bc_lifecycle := LcDisabled 1, bc_generation := None\<rparr>))"
    using us by (simp add: ctl_inv_def ctl_init_def ids_ok_def cells_ok_def)
  consider "bc_lifecycle built = LcDisabled 1" "bc_generation built = None"
    | lc G where "bc_lifecycle built = lc" "bc_generation built = Some G"
      "enable (from_config now gid host pid) present (bc_template built) 0 (LcDisabled 1) = Inr (lc, G)"
    using build
    by (auto simp: controller_build_def Let_def split: sum.splits option.splits ControllerTemplateError.splits
        if_splits prod.splits)
  then show ?thesis
  proof cases
    case 1
    then show ?thesis using \<open>ctl_inv (ctl_init st w _)\<close> by (simp add: ctl_init_def)
  next
    case (2 lc G)
    let ?s = "ctl_init st w (built\<lparr>bc_lifecycle := LcDisabled 1, bc_generation := None\<rparr>)"
    have "enable (from_config now gid host pid) present (ct_template ?s) (length (ct_cells ?s)) (ct_lifecycle ?s) = Inr (lc, G)"
      using 2 by (simp add: ctl_init_def)
    from enable_inv[OF 1 this] show ?thesis using 2 by (simp add: ctl_init_def)
  qed
qed

lemma ctl_inv_reachable: "ctl_reachable sink s \<Longrightarrow> ctl_inv s"
proof (induction rule: ctl_reachable.induct)
  case (ctl_reach_build from_path now gid host pid present builder built st w)
  then show ?case by (intro ctl_inv_init)
next
  case (ctl_reach_step s a s')
  then show ?case using ctl_inv_exec by blast
qed

end
