(* ===== verification/Ctl_Lifecycle.thy ===== *)
theory Ctl_Lifecycle
  imports Ctl_System
begin

text \<open>
  What the invariant gives: the controller's threads never deadlock and always finish, a drained
  closing generation is finalized, finalization happens once and its result stays, admission is
  bounded, and shutdown is terminal.
\<close>

section \<open>Work\<close>

text \<open>An upper bound of the steps a frame still takes, with everything it turns into.\<close>

fun frame_work :: "frame \<Rightarrow> nat" where
  "frame_work (FAdmit _ _) = 14"
| "frame_work (FRefuse _ _) = 11"
| "frame_work (FBegin _ _) = 11"
| "frame_work (FCommit _) = 1"
| "frame_work FReleaseAdmission = 1"
| "frame_work (FInert _ _) = 1"
| "frame_work FLimits = 9"
| "frame_work (FClose _ _) = 8"
| "frame_work (FCoreFinish _ _) = 10"
| "frame_work (FMark _) = 9"
| "frame_work FMarkSub = 7"
| "frame_work FMarkCheck = 6"
| "frame_work (FFinalize _) = 5"
| "frame_work (FShutdownBegin _ _) = 4"
| "frame_work (FSinkWrite _ _ _) = 3"
| "frame_work (FSettle _ _ _) = 2"
| "frame_work (FPublish _ _ _) = 1"

definition work :: "frame list \<Rightarrow> nat" where
  "work fs = sum_list (map frame_work fs)"

definition ctl_work :: "('c, 'w) ctl \<Rightarrow> nat" where
  "ctl_work s = sum_list (map (\<lambda>c. work (frames_of c)) (ct_cells s))"

lemma work_simps [simp]: "work [] = 0" "work (f # fs) = frame_work f + work fs"
  "work (fs @ gs) = work fs + work gs"
  by (simp_all add: work_def)

lemma frame_work_pos: "0 < frame_work f"
  by (cases f) simp_all

lemma release_calls: "length (snd (release_after_push m d st self)) \<le> 1"
  by (simp add: release_after_push_def Let_def notify_limits_hit_listener_def split: prod.split option.split)

lemma limits_frames_work: "work (limits_frames calls) = 9 * length calls"
  by (induction calls) simp_all

lemma start_calls: "length (snd (snd (snd (start_request now1 now2 route options st self)))) \<le> 1
    \<and> (fst (snd (snd (snd (fst (start_request now1 now2 route options st self))))) \<noteq> None \<longrightarrow>
       snd (snd (snd (start_request now1 now2 route options st self))) = [])"
  using release_calls[of "\<lambda>ts. ts\<lparr>ts_requests := True\<rparr>" True _ self]
  by (auto simp: start_request_def Let_def split: prod.split option.splits)

lemma begin_calls:
  assumes "begin_request_with now1 now2 route options st self = (started, st', run, calls)"
  shows "length calls \<le> 1" and "sr_completion started \<noteq> None \<Longrightarrow> calls = []"
  using assms start_calls[of now1 now2 route options st self]
  by (auto simp: begin_request_with_def split: prod.splits)

lemma finish_calls:
  assumes "completion_finish now outcome token self = (run, calls)"
  shows "length calls \<le> 1"
proof -
  have "length (snd (completion_finish now outcome token self)) \<le> 1"
    using release_calls by (auto simp: completion_finish_def resolve_request_def Let_def split: prod.split option.split)
  then show ?thesis using assms by simp
qed

lemma frame_step_work:
  assumes "frame_step sink now1 now2 f s G = Some (s', G', fs, ts, ws)"
  shows "work fs < frame_work f"
proof (cases f)
  case (FRefuse route options)
  obtain started st run calls where b: "begin_request_with now1 now2 route options (ct_statics s) (gr_run G)
      = (started, st, run, calls)" by (metis prod_cases4)
  then have "fs = limits_frames calls @
      (case sr_completion started of Some armed \<Rightarrow> [FCoreFinish armed OutcomeCancelled] | None \<Rightarrow> [])"
    using assms FRefuse by (simp add: begin_refused_def)
  then show ?thesis
    using begin_calls[OF b] FRefuse by (cases "sr_completion started") (simp_all add: limits_frames_work)
next
  case (FBegin route options)
  obtain started st run calls where b: "begin_request_with now1 now2 route options (ct_statics s) (gr_run G)
      = (started, st, run, calls)" by (metis prod_cases4)
  then have "fs = limits_frames calls @ [FCommit started]"
    using assms FBegin by (simp add: begin_admitted_def)
  then show ?thesis using begin_calls(1)[OF b] FBegin by (simp add: limits_frames_work)
next
  case (FCoreFinish a x)
  obtain run calls where b: "completion_finish now1 x (Some a) (gr_run G) = (run, calls)" by (rule prod.exhaust)
  then show ?thesis using assms FCoreFinish finish_calls[OF b] by (auto simp: limits_frames_work)
next
  case (FClose reason k)
  then show ?thesis
    using assms after_closure_frames[of k "gr_generation_id G"] by (fastforce split: prod.splits)
next
  case (FFinalize c)
  obtain G1 x where "finalize_entry (ct_lifecycle s) G = (G1, x)" by (rule prod.exhaust)
  then show ?thesis using assms FFinalize by (cases x) auto
next
  case (FShutdownBegin c ng)
  obtain run d where "shutdown_begin now1 (gr_run G) = (run, d)" by (rule prod.exhaust)
  then show ?thesis using assms FShutdownBegin by (cases d) auto
next
  case (FSettle c ng x)
  then show ?thesis using assms by (cases x rule: result_of.cases) auto
qed (use assms in \<open>auto simp: admit_def Let_def limits_signal_def mark_limits_def mark_sub_def mark_check_def
      commit_admission_def next_inert_request_id_def split: if_splits prod.splits\<close>)

lemma sum_list_upd_less:
  fixes x :: nat
  assumes "i < length xs" and "x < xs ! i"
  shows "sum_list (xs[i := x]) < sum_list xs"
proof -
  have "xs ! i \<le> sum_list xs" using assms(1) by (simp add: elem_le_sum_list)
  then show ?thesis using assms by (simp add: sum_list_update)
qed

lemma run_thread_work:
  assumes "run_thread sink now1 now2 g i s = Some s'"
  shows "ctl_work s' < ctl_work s"
proof -
  obtain f R s1 G' fs ts ws where g: "g < length (ct_cells s)" and i: "i < length (cl_threads (ct_cells s ! g))"
    and th: "cl_threads (ct_cells s ! g) ! i = f # R"
    and fs: "frame_step sink now1 now2 f s (cl_gen (ct_cells s ! g)) = Some (s1, G', fs, ts, ws)"
    and s': "s' = update_cell g (\<lambda>c. \<lparr>cl_gen = G', cl_tokens = cl_tokens c @ ts,
        cl_threads = (cl_threads c)[i := fs @ R], cl_written = cl_written c @ ws\<rparr>) s1"
    using run_threadE[OF assms] .
  let ?c = "ct_cells s ! g"
  let ?c' = "\<lparr>cl_gen = G', cl_tokens = cl_tokens ?c @ ts, cl_threads = (cl_threads ?c)[i := fs @ R],
      cl_written = cl_written ?c @ ws\<rparr>"
  have "ct_cells s1 = ct_cells s" using frame_step_mono[OF fs] by simp
  then have "map (\<lambda>c. work (frames_of c)) (ct_cells s') =
      (map (\<lambda>c. work (frames_of c)) (ct_cells s))[g := work (frames_of ?c')]"
    by (simp add: s' map_update)
  moreover obtain A B where F: "concat (cl_threads ?c) = A @ f # R @ B"
      and F': "\<forall>fs. concat ((cl_threads ?c)[i := fs @ R]) = A @ fs @ R @ B"
    using frames_split[OF i th] by metis
  then have "work (frames_of ?c') < work (frames_of ?c)"
    using frame_step_work[OF fs] by (simp add: frames_of_def)
  ultimately show ?thesis
    unfolding ctl_work_def using g by (simp add: sum_list_upd_less)
qed

section \<open>Progress\<close>

lemma tail_frame:
  assumes "tail_ok rest" and "f \<in> set rest"
  shows "(\<exists>p. f = FMark p) \<or> f = FReleaseAdmission \<or> (\<exists>r x. f = FInert r x)"
  using assms by (auto simp: tail_ok_def)

text \<open>A frame that holds the finalization gate is at work, and one that holds the admission gate
  belongs to a thread whose innermost frame is inside the admission.\<close>

lemma thread_of_frame:
  assumes "list_all thread_ok (cl_threads c)" and "x \<in> set (frames_of c)"
  obtains i f rest where "i < length (cl_threads c)" and "cl_threads c ! i = f # rest"
    and "x = f \<or> x \<in> set rest" and "tail_ok rest" and "head_ok f rest"
proof -
  obtain t where t: "t \<in> set (cl_threads c)" "x \<in> set t" using assms(2) by (auto simp: frames_of_def)
  then obtain i where i: "i < length (cl_threads c)" "cl_threads c ! i = t" by (auto simp: in_set_conv_nth)
  obtain f rest where fr: "t = f # rest" using t(2) by (cases t) auto
  have "thread_ok (f # rest)" using assms(1) t(1) fr by (simp add: list_all_iff)
  then show thesis using that i fr t(2) by (auto simp: thread_ok_def)
qed

lemma inner_enabled:
  assumes "inner_frame f" and "\<not> list_ex holds_finalization F"
  shows "enabled f F"
  using assms by (cases f) simp_all

lemma holder_enabled:
  assumes "holds_admission f \<or> holds_finalization f"
  shows "enabled f F"
  using assms by (cases f) simp_all

lemma some_head_enabled:
  assumes threads: "list_all thread_ok (cl_threads c)" and ne: "frames_of c \<noteq> []"
  obtains i f rest where "i < length (cl_threads c)" and "cl_threads c ! i = f # rest"
    and "enabled f (frames_of c)"
proof -
  consider (fin) h where "h \<in> set (frames_of c)" "holds_finalization h"
    | (adm) h where "h \<in> set (frames_of c)" "holds_admission h" "\<not> list_ex holds_finalization (frames_of c)"
    | (free) "\<not> list_ex holds_finalization (frames_of c)" "\<not> list_ex holds_admission (frames_of c)"
    by (auto simp: list_ex_iff)
  then show thesis
  proof cases
    case fin
    obtain i f rest where *: "i < length (cl_threads c)" "cl_threads c ! i = f # rest"
        "h = f \<or> h \<in> set rest" "tail_ok rest" "head_ok f rest"
      using thread_of_frame[OF threads fin(1)] .
    have "h = f" using tail_frame[OF *(4)] *(3) fin(2) by fastforce
    moreover have "enabled h (frames_of c)" using fin(2) by (simp add: holder_enabled)
    ultimately show thesis using that[OF *(1,2)] by simp
  next
    case adm
    obtain i f rest where *: "i < length (cl_threads c)" "cl_threads c ! i = f # rest"
        "h = f \<or> h \<in> set rest" "tail_ok rest" "head_ok f rest"
      using thread_of_frame[OF threads adm(1)] .
    have "enabled f (frames_of c)"
    proof (cases "h = f")
      case True
      then show ?thesis using adm(2) by (simp add: holder_enabled)
    next
      case False
      then have h: "h \<in> set rest" using *(3) by simp
      then have "h = FReleaseAdmission" using tail_frame[OF *(4) h] adm(2) by auto
      then have "FReleaseAdmission \<in> set rest" using h by simp
      then have "inner_frame f" using *(5) by (cases f) auto
      then show ?thesis by (rule inner_enabled) (rule adm(3))
    qed
    then show thesis using that[OF *(1,2)] by simp
  next
    case free
    obtain x where "x \<in> set (frames_of c)" using ne by (cases "frames_of c") auto
    then obtain i f rest where *: "i < length (cl_threads c)" "cl_threads c ! i = f # rest"
      using thread_of_frame[OF threads] by metis
    have "enabled f (frames_of c)" using free by (cases f) simp_all
    then show thesis using that[OF *] by simp
  qed
qed

lemma holder_of_frame:
  assumes fin: "finalization_ok r G F W" and f: "f \<in> set F" "holds_finalization f"
  shows "filter holds_finalization F = [f]" and "holder_ok r G f"
proof -
  have mem: "f \<in> set (filter holds_finalization F)" using f by simp
  show "filter holds_finalization F = [f]"
  proof (cases "filter holds_finalization F")
    case Nil
    then show ?thesis using mem by (simp only: list.set empty_iff)
  next
    case (Cons h hs)
    then have "hs = []" using fin by (simp add: finalization_ok_def split: list.splits)
    then show ?thesis using Cons mem by auto
  qed
  then show "holder_ok r G f" using fin by (simp add: finalization_ok_def)
qed

lemma frame_step_runs:
  assumes fin: "finalization_ok r G F W" and f: "f \<in> set F"
  shows "frame_step sink now1 now2 f s G \<noteq> None"
proof (cases f)
  case (FShutdownBegin c ng)
  then have "holder_ok r G f" using holder_of_frame(2)[OF fin f] by simp
  then have "is_open (gr_run G)" using FShutdownBegin by simp
  then show ?thesis
    using FShutdownBegin shutdown_begin_open[of "gr_run G" now1]
    by (cases "cs_pending_requests (tt_state (gr_run G)) \<noteq> [] \<and> tt_strict_lifecycle (gr_run G)") auto
next
  case (FFinalize c)
  obtain G1 x where "finalize_entry (ct_lifecycle s) G = (G1, x)" by (rule prod.exhaust)
  then show ?thesis using FFinalize by (cases x) auto
next
  case (FSettle c ng x)
  then show ?thesis by (cases x rule: result_of.cases) auto
qed (auto split: prod.split)

lemma cell_progress:
  assumes inv: "cell_inv n r (ct_cells s ! g)" and g: "g < length (ct_cells s)"
    and ne: "frames_of (ct_cells s ! g) \<noteq> []"
  shows "\<exists>i. run_thread sink now1 now2 g i s \<noteq> None"
proof -
  let ?c = "ct_cells s ! g"
  have threads: "list_all thread_ok (cl_threads ?c)"
    and fin: "finalization_ok r (cl_gen ?c) (frames_of ?c) (cl_written ?c)"
    using inv by (simp_all add: cell_inv_def)
  obtain i f rest where *: "i < length (cl_threads ?c)" "cl_threads ?c ! i = f # rest"
      "enabled f (frames_of ?c)" using some_head_enabled[OF threads ne] .
  have "f \<in> set (frames_of ?c)"
    using *(1,2) unfolding frames_of_def by (metis UN_I list.set_intros(1) nth_mem set_concat)
  from frame_step_runs[OF fin this] obtain q
    where "frame_step sink now1 now2 f s (cl_gen ?c) = Some q" by blast
  then have "run_thread sink now1 now2 g i s \<noteq> None"
    using * g by (cases q) (simp add: run_thread_def Let_def)
  then show ?thesis ..
qed

text \<open>A controller is quiet when every call into it has returned.\<close>

definition quiet :: "('c, 'w) ctl \<Rightarrow> bool" where
  "quiet s \<longleftrightarrow> (\<forall>c\<in>set (ct_cells s). frames_of c = [])"

definition stuck :: "('c dyn_sink \<Rightarrow> 'w \<Rightarrow> Run \<Rightarrow> 'w \<times> (SinkError + unit)) \<Rightarrow> clock_reading \<Rightarrow>
    clock_reading \<Rightarrow> ('c, 'w) ctl \<Rightarrow> bool" where
  "stuck sink now1 now2 s \<longleftrightarrow> (\<forall>g<length (ct_cells s). \<forall>i<length (cl_threads (ct_cells s ! g)).
     run_thread sink now1 now2 g i s = None)"

lemma reachable_cell:
  assumes "ctl_reachable sink s" and "ctl_small s" and "g < length (ct_cells s)"
  shows "cell_inv (ct_sequence s) (role_of (ct_lifecycle s) g) (ct_cells s ! g)"
  using ctl_inv_reachable[OF assms(1)] assms(2,3) by (simp add: ctl_inv_def cells_ok_def)

lemma stuck_quiet:
  assumes "ctl_reachable sink s" and "ctl_small s" and "stuck sink now1 now2 s"
  shows "quiet s"
proof (rule ccontr)
  assume "\<not> quiet s"
  then obtain g where g: "g < length (ct_cells s)" "frames_of (ct_cells s ! g) \<noteq> []"
    by (auto simp: quiet_def in_set_conv_nth)
  obtain i where i: "run_thread sink now1 now2 g i s \<noteq> None"
    using cell_progress[OF reachable_cell[OF assms(1,2) g(1)] g] by blast
  then have "i < length (cl_threads (ct_cells s ! g))" by (simp add: run_thread_def split: if_splits)
  then show False using assms(3) g(1) i by (simp add: stuck_def)
qed

lemma quiet_stuck: "quiet s \<Longrightarrow> stuck sink now1 now2 s"
proof -
  assume q: "quiet s"
  have "run_thread sink now1 now2 g i s = None"
    if "g < length (ct_cells s)" "i < length (cl_threads (ct_cells s ! g))" for g i
  proof -
    have "frames_of (ct_cells s ! g) = []" using q that(1) by (simp add: quiet_def)
    then have "cl_threads (ct_cells s ! g) ! i = []" using that(2) by (simp add: frames_of_def)
    then show ?thesis using that by (simp add: run_thread_def Let_def)
  qed
  then show ?thesis by (simp add: stuck_def)
qed

section \<open>What a step does to a generation\<close>

text \<open>A generation accepts, then drains, then has its final result; it never goes back.\<close>

datatype gen_phase = Accepting | Draining | Settled GenerationFinalizationResult

definition gen_phase :: "'c ActiveGenerationRuntime \<Rightarrow> gen_phase" where
  "gen_phase G =
     (if gr_finalization_result G \<noteq> FinalizationPending then Settled (gr_finalization_result G)
      else if gr_closing G then Draining else Accepting)"

inductive gen_moves :: "gen_phase \<Rightarrow> gen_phase \<Rightarrow> bool" where
  gen_stays: "gen_moves p p"
| gen_closes: "gen_moves Accepting Draining"
| gen_settles: "x \<noteq> FinalizationPending \<Longrightarrow> gen_moves Draining (Settled x)"

inductive_simps gen_moves_settled [simp]: "gen_moves (Settled x) p"
inductive_simps gen_moves_draining [simp]: "gen_moves Draining p"
inductive_simps gen_moves_accepting [simp]: "gen_moves Accepting p"

definition same_generation :: "'c ActiveGenerationRuntime \<Rightarrow> 'c ActiveGenerationRuntime \<Rightarrow> bool" where
  "same_generation G G' \<longleftrightarrow> gr_generation_id G' = gr_generation_id G
     \<and> gr_started_at_unix_ms G' = gr_started_at_unix_ms G
     \<and> gr_activation_config G' = gr_activation_config G \<and> gr_artifact_path G' = gr_artifact_path G"

definition gen_move :: "'c ActiveGenerationRuntime \<Rightarrow> 'c ActiveGenerationRuntime \<Rightarrow> bool" where
  "gen_move G G' \<longleftrightarrow> same_generation G G' \<and> gen_moves (gen_phase G) (gen_phase G')
     \<and> gr_admitted_request_slots G \<le> gr_admitted_request_slots G' \<and> (gr_closing G \<longrightarrow> gr_closing G')
     \<and> (gr_closing G \<longrightarrow> gr_admitted_request_slots G' = gr_admitted_request_slots G
          \<and> gr_inflight_captured G' \<le> gr_inflight_captured G)"

lemma gen_move_refl [simp]: "gen_move G G"
  by (simp add: gen_move_def same_generation_def gen_stays)

lemma gen_move_run:
  "gen_move G (G\<lparr>gr_run := run\<rparr>)" "gen_move G (G\<lparr>gr_run := run, gr_runtime_sampler := t\<rparr>)"
  "gen_move G (with_run run G)"
  by (simp_all add: gen_move_def same_generation_def gen_phase_def with_run_def gen_stays)

lemma gen_move_close: "close_generation_admissions_locked reason G = (G', n) \<Longrightarrow> gen_move G G'"
  by (auto simp: close_generation_admissions_locked_def gen_move_def same_generation_def gen_phase_def)

lemma view_facts:
  assumes "view_inv n r G toks F W"
  shows "run_ok G" and "tokens_ok G toks" and "list_all (frame_ok G) F" and "gr_accepting_new G = (\<not> gr_closing G)"
    and "gr_admitted_request_slots G \<le> max_requests (gen_limits G)"
    and "unat (gr_inflight_captured G) = outstanding toks F" and "outstanding toks F \<le> gr_admitted_request_slots G"
    and "finalization_ok r G F W" and "drain_ok G toks F"
proof -
  show "run_ok G" and "tokens_ok G toks" and "list_all (frame_ok G) F" and "gr_accepting_new G = (\<not> gr_closing G)"
    and slots: "gr_admitted_request_slots G \<le> max_requests (gen_limits G)"
    and out: "outstanding toks F \<le> gr_admitted_request_slots G"
    and "finalization_ok r G F W" and "drain_ok G toks F"
    using assms by (simp_all add: view_inv_def view_core_def admission_ok_def counts_ok_def)
  have "max_requests (gen_limits G) \<le> u64_max" and "gr_inflight_captured G = of_nat (outstanding toks F)"
    using assms by (simp_all add: view_inv_def view_core_def run_ok_def counts_ok_def)
  then show "unat (gr_inflight_captured G) = outstanding toks F"
    using out slots unat_of_nat_u64[of "outstanding toks F"] by simp
qed

lemma finalize_entry_move:
  assumes "finalize_entry lc G = (G', x)" and "gr_closing G"
  shows "gen_move G G'"
  using assms
  by (auto simp: finalize_entry_def Let_def set_generation_result_def gen_move_def same_generation_def
      gen_phase_def gen_stays replay_generation_result_def
      split: option.splits ControllerLifecycle.splits if_splits GenerationFinalizationResult.splits)

lemma finalize_settle_move:
  assumes "gr_finalization_result G = FinalizationPending" and "gr_closing G"
  shows "gen_move G (finalize_settle x G)"
  by (cases x) (auto simp: finalize_settle_def Let_def set_generation_result_def gen_move_def
      same_generation_def gen_phase_def assms)

lemma frame_gen_move:
  assumes view: "view_inv n r G toks F W" and f: "f \<in> set F"
    and step: "frame_step sink now1 now2 f s G = Some (s', G', fs, ts, ws)"
  shows "gen_move G G'"
proof -
  note facts = view_facts[OF view]
  have ok: "frame_ok G f" using facts(3) f by (simp add: list_all_iff)
  show ?thesis
  proof (cases f)
    case (FAdmit route options)
    then show ?thesis
      using step by (auto simp: admit_def Let_def intro!: gen_move_close[of AutoSealOnLimitsHit _ _ "gr_inflight_captured G"]
          simp: close_generation_admissions_locked_def split: if_splits)
  next
    case (FRefuse route options)
    then show ?thesis using step by (auto simp: begin_refused_def gen_move_run split: prod.splits)
  next
    case (FBegin route options)
    then show ?thesis using step by (auto simp: begin_admitted_def gen_move_run split: prod.splits)
  next
    case (FCommit started)
    then have "\<not> gr_closing G" using ok by simp
    then show ?thesis
      using step FCommit by (auto simp: commit_admission_def gen_move_def same_generation_def gen_phase_def gen_stays)
  next
    case (FClose reason k)
    obtain G1 c where "close_generation_admissions_locked reason G = (G1, c)" by (rule prod.exhaust)
    then show ?thesis using step FClose gen_move_close by (auto split: prod.splits)
  next
    case (FCoreFinish a x)
    then show ?thesis using step by (auto simp: gen_move_run split: prod.splits)
  next
    case FMarkSub
    then have "f \<in> set (filter is_mark F)" using f by simp
    then have "0 < outstanding toks F" by (auto simp: outstanding_def filter_empty_conv)
    then have "gr_inflight_captured G \<noteq> 0" using facts(6) by auto
    then have "gr_inflight_captured G - 1 \<le> gr_inflight_captured G"
      by (simp add: word_le_nat_alt unat_minus_one)
    then show ?thesis
      using step FMarkSub
      by (auto simp: mark_sub_def Let_def gen_move_def same_generation_def gen_phase_def gen_stays)
  next
    case (FFinalize c)
    obtain G1 x where "finalize_entry (ct_lifecycle s) G = (G1, x)" by (rule prod.exhaust)
    then show ?thesis using finalize_entry_move[of "ct_lifecycle s" G G1 x] step FFinalize ok
      by (cases x) auto
  next
    case (FShutdownBegin c ng)
    obtain run d where "shutdown_begin now1 (gr_run G) = (run, d)" by (rule prod.exhaust)
    then show ?thesis using step FShutdownBegin by (cases d) (auto simp: gen_move_run)
  next
    case (FSinkWrite c ng cand)
    then show ?thesis using step by (auto simp: gen_move_run split: prod.splits)
  next
    case (FSettle c ng x)
    then have "holder_ok r G f" using holder_of_frame(2)[OF facts(8) f] by simp
    then have "gen_move G (finalize_settle x G)" using FSettle ok finalize_settle_move[of G x] by simp
    then show ?thesis using step FSettle by (cases x rule: result_of.cases) auto
  qed (use step in \<open>auto simp: next_inert_request_id_def\<close>)
qed

lemma run_thread_cells:
  assumes "run_thread sink now1 now2 g i s = Some s'"
  shows "length (ct_cells s') = length (ct_cells s)" and "ct_sequence s \<le> ct_sequence s'"
    and "g' \<noteq> g \<Longrightarrow> ct_cells s' ! g' = ct_cells s ! g'"
proof -
  obtain f R s1 G' fs ts ws
    where fs: "frame_step sink now1 now2 f s (cl_gen (ct_cells s ! g)) = Some (s1, G', fs, ts, ws)"
    and s': "s' = update_cell g (\<lambda>c. \<lparr>cl_gen = G', cl_tokens = cl_tokens c @ ts,
        cl_threads = (cl_threads c)[i := fs @ R], cl_written = cl_written c @ ws\<rparr>) s1"
    using run_threadE[OF assms] .
  note m = frame_step_mono[OF fs]
  show "length (ct_cells s') = length (ct_cells s)" "ct_sequence s \<le> ct_sequence s'"
    "g' \<noteq> g \<Longrightarrow> ct_cells s' ! g' = ct_cells s ! g'"
    using m by (simp_all add: s')
qed

lemma enable_split:
  assumes "ctl_exec sink (ActEnable now gid host pid present) s = Some s'"
  shows "ct_sequence s' = ct_sequence s \<and> ct_template s' = ct_template s
    \<and> (ct_cells s' = ct_cells s \<and> ct_lifecycle s' = ct_lifecycle s
      \<or> (\<exists>G. ct_cells s' = ct_cells s @ [new_cell G] \<and> \<not> is_shutdown (ct_lifecycle s)
           \<and> enable (from_config now gid host pid) present (ct_template s) (length (ct_cells s)) (ct_lifecycle s)
               = Inr (ct_lifecycle s', G)))"
  using assms
  by (auto simp: is_shutdown_def split: sum.splits prod.splits ControllerLifecycle.split dest: enable_lifecycle(3))

text \<open>A cell after a step: nothing happened to it, its thread ran a frame, or a caller changed it.\<close>

definition caller_moved :: "'c cell \<Rightarrow> 'c cell \<Rightarrow> bool" where
  "caller_moved c c' \<longleftrightarrow> gen_move (cl_gen c) (cl_gen c') \<and> cl_written c' = cl_written c
     \<and> (\<exists>fs. frames_of c' = frames_of c @ fs)"

lemma caller_moved_spawn:
  "caller_moved c c" "caller_moved c (spawn fs c)" "caller_moved c (spawn fs (c\<lparr>cl_tokens := toks\<rparr>))"
  "caller_moved c (spawn fs (c\<lparr>cl_gen := (cl_gen c)\<lparr>gr_run := run\<rparr>\<rparr>))"
  "caller_moved c (spawn fs (c\<lparr>cl_gen := (cl_gen c)\<lparr>gr_run := run, gr_runtime_sampler := t\<rparr>\<rparr>))"
  by (simp_all add: caller_moved_def gen_move_run)

lemma caller_cells:
  assumes ex: "ctl_exec sink a s = Some s'" and a: "\<forall>g i now1 now2. a \<noteq> ActThread g i now1 now2"
    and g: "g < length (ct_cells s)"
  shows "g < length (ct_cells s') \<and> caller_moved (ct_cells s ! g) (ct_cells s' ! g)"
proof -
  have upd: "g < length (ct_cells s') \<and> caller_moved (ct_cells s ! g) (ct_cells s' ! g)"
    if "s' = update_cell k f s1" "ct_cells s1 = ct_cells s" "\<And>c. caller_moved c (f c)"
    for k f and s1 :: "('a, 'b) ctl"
    using that g by (cases "g = k") (simp_all add: caller_moved_spawn)
  show ?thesis
  proof (cases a)
    case (ActEnable now gid host pid present)
    then show ?thesis using enable_split[OF ex[unfolded ActEnable]] g
      by (auto simp: caller_moved_spawn nth_append)
  next
    case ActDisable
    show ?thesis
    proof (cases "disable_lookup (ct_lifecycle s)")
      case (Inr r)
      then show ?thesis using ex ActDisable by (intro upd) (auto simp: caller_moved_spawn)
    qed (use ex g ActDisable caller_moved_spawn(1) in auto)
  next
    case ActShutdown
    obtain lc r where sl: "shutdown_lookup (ct_lifecycle s) = (lc, r)" by (rule prod.exhaust)
    show ?thesis
    proof (cases r)
      case (Some r')
      have "s' = update_cell (ref_cell r') (spawn [FClose Shutdown AfterShutdown]) (s\<lparr>ct_lifecycle := lc\<rparr>)"
        using ex ActShutdown sl Some by simp
      then show ?thesis by (rule upd) (simp_all add: caller_moved_spawn)
    qed (use ex g ActShutdown sl caller_moved_spawn(1) in auto)
  next
    case (ActBeginRequest route options)
    show ?thesis
    proof (cases "\<exists>r ng. ct_lifecycle s = LcActive r ng")
      case True
      then obtain r ng where "ct_lifecycle s = LcActive r ng" by blast
      then have "s' = update_cell (ref_cell r) (spawn [FAdmit route options]) s"
        using ex ActBeginRequest by simp
      then show ?thesis by (rule upd) (simp_all add: caller_moved_spawn)
    qed (use ex g ActBeginRequest caller_moved_spawn(1) in
        \<open>auto simp: next_inert_request_id_def split: ControllerLifecycle.splits\<close>)
  next
    case (ActFinish k j x)
    have "s' = update_cell k (\<lambda>c. spawn (ctl_completion_finish x (cl_tokens c ! j))
        (c\<lparr>cl_tokens := remove_nth j (cl_tokens c)\<rparr>)) s"
      using ex ActFinish by (auto split: if_splits)
    then show ?thesis by (rule upd) (simp_all add: caller_moved_spawn)
  next
    case (ActDropCompletion k j)
    have "s' = update_cell k (\<lambda>c. spawn (ctl_completion_drop (cl_tokens c ! j))
        (c\<lparr>cl_tokens := remove_nth j (cl_tokens c)\<rparr>)) s"
      using ex ActDropCompletion by (auto split: if_splits)
    then show ?thesis by (rule upd) (simp_all add: caller_moved_spawn)
  next
    case (ActEvidence k ev)
    then have k: "k < length (ct_cells s)" using ex by (simp split: if_splits)
    obtain run calls where "record_evidence ev (gr_run (cl_gen (ct_cells s ! k))) = (run, calls)"
      by (rule prod.exhaust)
    then have "s' = update_cell k (\<lambda>c. spawn (limits_frames calls)
        (c\<lparr>cl_gen := (cl_gen c)\<lparr>gr_run := run\<rparr>\<rparr>)) s"
      using ex ActEvidence k by simp
    then show ?thesis by (rule upd) (simp_all add: caller_moved_spawn)
  next
    case (ActTick k now snap)
    then have k: "k < length (ct_cells s)" using ex by (simp split: if_splits)
    then obtain task where t: "gr_runtime_sampler (cl_gen (ct_cells s ! k)) = Some task"
      using ex ActTick by (auto split: option.splits)
    obtain task' run calls
      where "sampler_step (SamplerTick now snap) task (gr_run (cl_gen (ct_cells s ! k))) = (task', run, calls)"
      by (metis prod_cases3)
    then have "s' = update_cell k (\<lambda>c. spawn (limits_frames calls)
        (c\<lparr>cl_gen := (cl_gen c)\<lparr>gr_run := run, gr_runtime_sampler := Some task'\<rparr>\<rparr>)) s"
      using ex k t unfolding ActTick by simp
    then show ?thesis by (rule upd) (simp_all add: caller_moved_spawn)
  next
    case (ActThread k i now1 now2)
    then show ?thesis using a by blast
  qed (use ex g caller_moved_spawn(1) in \<open>auto simp: Let_def split: if_splits prod.splits\<close>)
qed

lemma exec_mono:
  assumes "ctl_exec sink a s = Some s'"
  shows "ct_sequence s \<le> ct_sequence s' \<and> length (ct_cells s) \<le> length (ct_cells s')"
proof -
  have "ct_sequence s \<le> ct_sequence s'"
  proof (cases a)
    case (ActEnable now gid host pid present)
    then show ?thesis using enable_split assms by fastforce
  next
    case (ActThread k i now1 now2)
    then show ?thesis using run_thread_cells(2) assms by simp
  qed (use assms in \<open>auto simp: Let_def next_inert_request_id_def
      split: if_splits prod.splits option.splits sum.splits ControllerLifecycle.splits\<close>)
  moreover have "length (ct_cells s) \<le> length (ct_cells s')"
  proof (cases "\<exists>g i now1 now2. a = ActThread g i now1 now2")
    case True
    then show ?thesis using run_thread_cells(1) assms by fastforce
  next
    case False
    then show ?thesis using caller_cells[OF assms] by (metis leI le_refl linorder_not_less)
  qed
  ultimately show ?thesis ..
qed

lemma exec_small: "ctl_exec sink a s = Some s' \<Longrightarrow> ctl_small s' \<Longrightarrow> ctl_small s"
  using exec_mono[of sink a s s'] by (simp add: ctl_small_def)

lemma exec_gen_move:
  assumes inv: "ctl_inv s" and small: "ctl_small s" and ex: "ctl_exec sink a s = Some s'"
    and g: "g < length (ct_cells s)"
  shows "gen_move (cl_gen (ct_cells s ! g)) (cl_gen (ct_cells s' ! g))"
    and "\<exists>ws. cl_written (ct_cells s' ! g) = cl_written (ct_cells s ! g) @ ws"
proof -
  have "gen_move (cl_gen (ct_cells s ! g)) (cl_gen (ct_cells s' ! g))
      \<and> (\<exists>ws. cl_written (ct_cells s' ! g) = cl_written (ct_cells s ! g) @ ws)"
  proof (cases "\<exists>k i now1 now2. a = ActThread k i now1 now2")
    case False
    then show ?thesis using caller_cells[OF ex _ g] by (auto simp: caller_moved_def)
  next
    case True
    then obtain k i now1 now2 where run: "run_thread sink now1 now2 k i s = Some s'" using ex by auto
    show ?thesis
    proof (cases "g = k")
      case False
      then show ?thesis using run_thread_cells(3)[OF run] by simp
    next
      case True
      let ?c = "ct_cells s ! g"
      obtain f R s1 G' fs ts ws where i: "i < length (cl_threads ?c)" "cl_threads ?c ! i = f # R"
        and fs: "frame_step sink now1 now2 f s (cl_gen ?c) = Some (s1, G', fs, ts, ws)"
        and s': "s' = update_cell g (\<lambda>c. \<lparr>cl_gen = G', cl_tokens = cl_tokens c @ ts,
          cl_threads = (cl_threads c)[i := fs @ R], cl_written = cl_written c @ ws\<rparr>) s1"
        using run_threadE[OF run[folded True]] .
      have cells: "ct_cells s1 = ct_cells s" using frame_step_mono[OF fs] by simp
      have f: "f \<in> set (frames_of ?c)"
        using i unfolding frames_of_def by (metis UN_I list.set_intros(1) nth_mem set_concat)
      have "view_inv (ct_sequence s) (role_of (ct_lifecycle s) g) (cl_gen ?c) (cl_tokens ?c)
          (frames_of ?c) (cl_written ?c)"
        using inv small g by (simp add: ctl_inv_def cells_ok_def cell_inv_view)
      from frame_gen_move[OF this f fs] show ?thesis using g cells by (simp add: s')
    qed
  qed
  then show "gen_move (cl_gen (ct_cells s ! g)) (cl_gen (ct_cells s' ! g))"
    and "\<exists>ws. cl_written (ct_cells s' ! g) = cl_written (ct_cells s ! g) @ ws" by simp_all
qed

section \<open>The lifecycle\<close>

definition lc_closes :: "('c, 'w) ctl \<Rightarrow> bool" where
  "lc_closes s \<longleftrightarrow> (case ct_lifecycle s of
     LcShutdown (Some r) _ \<Rightarrow> ref_cell r < length (ct_cells s) \<and>
       (gr_closing (cl_gen (ct_cells s ! ref_cell r))
        \<or> (\<exists>reason k. FClose reason k \<in> set (frames_of (ct_cells s ! ref_cell r))))
   | _ \<Rightarrow> True)"

lemma frame_step_shared:
  assumes "frame_step sink now1 now2 f s G = Some (s', G', fs, ts, ws)"
  shows "ct_template s' = ct_template s \<and> (is_shutdown (ct_lifecycle s) \<longrightarrow> ct_lifecycle s' = ct_lifecycle s)
    \<and> is_shutdown (ct_lifecycle s') = is_shutdown (ct_lifecycle s)"
  using assms
proof (induction sink now1 now2 f s G rule: frame_step.induct)
  case (13 sink now1 now2 c s G)
  obtain G1 x where "finalize_entry (ct_lifecycle s) G = (G1, x)" by (rule prod.exhaust)
  with 13 show ?case by (cases x) auto
next
  case (14 sink now1 now2 c ng s G)
  obtain run d where "shutdown_begin now1 (gr_run G) = (run, d)" by (rule prod.exhaust)
  with 14 show ?case by (cases d) auto
next
  case (16 sink now1 now2 c ng r s G)
  then show ?case by (cases r rule: result_of.cases) auto
next
  case (17 sink now1 now2 c ng r s G)
  then show ?case
    by (auto simp: finalize_publish_def is_shutdown_def split: ControllerLifecycle.splits sum.splits if_splits)
qed (auto split: prod.splits)

lemma run_thread_shared:
  assumes "run_thread sink now1 now2 g i s = Some s'"
  shows "ct_template s' = ct_template s \<and> (is_shutdown (ct_lifecycle s) \<longrightarrow> ct_lifecycle s' = ct_lifecycle s)
    \<and> is_shutdown (ct_lifecycle s') = is_shutdown (ct_lifecycle s)"
proof -
  obtain f R s1 G' fs ts ws
    where fs: "frame_step sink now1 now2 f s (cl_gen (ct_cells s ! g)) = Some (s1, G', fs, ts, ws)"
    and s': "s' = update_cell g (\<lambda>c. \<lparr>cl_gen = G', cl_tokens = cl_tokens c @ ts,
        cl_threads = (cl_threads c)[i := fs @ R], cl_written = cl_written c @ ws\<rparr>) s1"
    using run_threadE[OF assms] .
  show ?thesis using frame_step_shared[OF fs] by (simp add: s')
qed

lemma exec_lifecycle:
  assumes ex: "ctl_exec sink a s = Some s'" and a: "a \<noteq> ActShutdown"
    "\<forall>g i now1 now2. a \<noteq> ActThread g i now1 now2" "\<forall>now gid host pid present. a \<noteq> ActEnable now gid host pid present"
  shows "ct_lifecycle s' = ct_lifecycle s"
proof (cases a)
  case ActDisable
  then show ?thesis using ex by (auto split: sum.splits)
next
  case (ActTick k now snap)
  then show ?thesis using ex by (auto simp: Let_def split: if_splits option.splits prod.splits)
next
  case (ActBeginRequest route options)
  then show ?thesis using ex by (auto simp: next_inert_request_id_def split: ControllerLifecycle.splits)
qed (use ex a in \<open>auto simp: Let_def split: if_splits prod.splits\<close>)

lemma exec_template:
  assumes ex: "ctl_exec sink a s = Some s'"
    and a: "\<forall>t. a \<noteq> ActReloadTemplate t" "\<forall>t. a \<noteq> ActReloadConfig t"
  shows "ct_template s' = ct_template s"
proof (cases a)
  case (ActEnable now gid host pid present)
  then show ?thesis using enable_split ex by fastforce
next
  case ActShutdown
  then show ?thesis using ex by (auto split: prod.splits option.splits)
next
  case ActDisable
  then show ?thesis using ex by (auto split: sum.splits)
next
  case (ActTick k now snap)
  then show ?thesis using ex by (auto simp: Let_def split: if_splits option.splits prod.splits)
next
  case (ActBeginRequest route options)
  then show ?thesis using ex by (auto simp: next_inert_request_id_def split: ControllerLifecycle.splits)
next
  case (ActThread g i now1 now2)
  then show ?thesis using ex run_thread_shared by fastforce
qed (use ex a in \<open>auto simp: Let_def split: if_splits prod.splits\<close>)

lemma exec_shutdown:
  assumes ex: "ctl_exec sink a s = Some s'" and sd: "is_shutdown (ct_lifecycle s)"
  shows "ct_lifecycle s' = ct_lifecycle s" and "ct_template s' = ct_template s"
    and "length (ct_cells s') = length (ct_cells s)"
proof -
  have "ct_lifecycle s' = ct_lifecycle s \<and> ct_template s' = ct_template s
    \<and> length (ct_cells s') = length (ct_cells s)"
  proof (cases a)
    case (ActEnable now gid host pid present)
    then show ?thesis using enable_split ex sd by fastforce
  next
    case (ActThread g i now1 now2)
    then show ?thesis using ex run_thread_shared run_thread_cells(1) sd by (metis ctl_exec.simps(11))
  next
    case ActShutdown
    then show ?thesis using ex sd exec_template[OF ex]
      by (auto simp: shutdown_lookup_def Let_def split: prod.splits option.splits)
  next
    case (ActReloadTemplate t)
    then show ?thesis using ex sd by (auto simp: reload_template_def split: if_splits)
  next
    case (ActReloadConfig t)
    then show ?thesis using ex sd by (auto simp: reload_config_def split: if_splits)
  next
    case (ActTick k now snap)
    then show ?thesis using ex by (auto simp: Let_def split: if_splits option.splits prod.splits)
  next
    case ActDisable
    then show ?thesis using ex by (auto split: sum.splits)
  next
    case (ActBeginRequest route options)
    then show ?thesis using ex by (auto simp: next_inert_request_id_def split: ControllerLifecycle.splits)
  qed (use ex in \<open>auto simp: Let_def split: if_splits prod.splits\<close>)
  then show "ct_lifecycle s' = ct_lifecycle s" and "ct_template s' = ct_template s"
    and "length (ct_cells s') = length (ct_cells s)" by simp_all
qed

lemma close_pending_step:
  assumes run: "run_thread sink now1 now2 k i s = Some s'" and g: "g < length (ct_cells s)"
    and c: "FClose reason j \<in> set (frames_of (ct_cells s ! g))"
  shows "gr_closing (cl_gen (ct_cells s' ! g)) \<or> FClose reason j \<in> set (frames_of (ct_cells s' ! g))"
proof (cases "g = k")
  case False
  then show ?thesis using run_thread_cells(3)[OF run] c by simp
next
  case True
  let ?c = "ct_cells s ! g"
  obtain f R s1 G' fs ts ws where i: "i < length (cl_threads ?c)" "cl_threads ?c ! i = f # R"
    and fs: "frame_step sink now1 now2 f s (cl_gen ?c) = Some (s1, G', fs, ts, ws)"
    and s': "s' = update_cell g (\<lambda>c. \<lparr>cl_gen = G', cl_tokens = cl_tokens c @ ts,
      cl_threads = (cl_threads c)[i := fs @ R], cl_written = cl_written c @ ws\<rparr>) s1"
    using run_threadE[OF run[folded True]] .
  have cells: "ct_cells s1 = ct_cells s" using frame_step_mono[OF fs] by simp
  obtain A B where F: "concat (cl_threads ?c) = A @ f # R @ B"
      and F': "\<forall>fs. concat ((cl_threads ?c)[i := fs @ R]) = A @ fs @ R @ B"
    using frames_split[OF i] by metis
  show ?thesis
  proof (cases "f = FClose reason j")
    case True
    then have "gr_closing G'"
      using fs by (auto simp: close_generation_admissions_locked_def split: prod.splits)
    then show ?thesis using g cells by (simp add: s')
  next
    case False
    then show ?thesis using c F F' g cells by (auto simp: s' frames_of_def)
  qed
qed

lemma closes_kept:
  assumes inv: "ctl_inv s" and small: "ctl_small s" and ex: "ctl_exec sink a s = Some s'"
    and g: "g < length (ct_cells s)"
    and c: "gr_closing (cl_gen (ct_cells s ! g)) \<or> FClose reason j \<in> set (frames_of (ct_cells s ! g))"
  shows "gr_closing (cl_gen (ct_cells s' ! g)) \<or> FClose reason j \<in> set (frames_of (ct_cells s' ! g))"
proof (cases "gr_closing (cl_gen (ct_cells s ! g))")
  case True
  then show ?thesis using exec_gen_move(1)[OF inv small ex g] by (simp add: gen_move_def)
next
  case False
  then have f: "FClose reason j \<in> set (frames_of (ct_cells s ! g))" using c by simp
  show ?thesis
  proof (cases "\<exists>k i now1 now2. a = ActThread k i now1 now2")
    case True
    then show ?thesis using close_pending_step[OF _ g f] ex by fastforce
  next
    case False
    then obtain fs where "frames_of (ct_cells s' ! g) = frames_of (ct_cells s ! g) @ fs"
      using caller_cells[OF ex _ g] by (auto simp: caller_moved_def)
    then show ?thesis using f by simp
  qed
qed

lemma shutdown_starts:
  assumes ex: "ctl_exec sink a s = Some s'" and sd: "\<not> is_shutdown (ct_lifecycle s)" "is_shutdown (ct_lifecycle s')"
  shows "a = ActShutdown"
proof (rule ccontr)
  assume a: "a \<noteq> ActShutdown"
  show False
  proof (cases "\<exists>now gid host pid present. a = ActEnable now gid host pid present")
    case True
    then obtain now gid host pid present where "a = ActEnable now gid host pid present" by blast
    then show False
      using enable_split[of sink now gid host pid present s s'] ex sd
      by (auto simp: is_shutdown_def dest!: enable_lifecycle(2))
  next
    case no_enable: False
    show False
    proof (cases "\<exists>k i now1 now2. a = ActThread k i now1 now2")
      case True
      then show False using run_thread_shared ex sd by fastforce
    next
      case False
      then show False using exec_lifecycle[OF ex a] no_enable sd by metis
    qed
  qed
qed

lemma shutdown_lookup_ref:
  "shutdown_lookup lc = (lc', x) \<Longrightarrow> lc_ref lc' = x \<and> lc_ref lc = x"
  by (cases lc) (auto simp: shutdown_lookup_def Let_def is_shutdown_def)

lemma lc_closes_exec:
  assumes inv: "ctl_inv s" and small: "ctl_small s" and c: "lc_closes s" and ex: "ctl_exec sink a s = Some s'"
  shows "lc_closes s'"
proof (cases "is_shutdown (ct_lifecycle s)")
  case True
  note same = exec_shutdown[OF ex True]
  show ?thesis
  proof (cases "lc_ref (ct_lifecycle s)")
    case None
    then show ?thesis using True by (auto simp: lc_closes_def same is_shutdown_def split: ControllerLifecycle.splits option.splits)
  next
    case (Some r)
    then obtain ng where lc: "ct_lifecycle s = LcShutdown (Some r) ng"
      using True by (cases "ct_lifecycle s") (auto simp: is_shutdown_def)
    have r: "ref_cell r < length (ct_cells s)" using c by (simp add: lc_closes_def lc)
    obtain reason j where "gr_closing (cl_gen (ct_cells s ! ref_cell r))
        \<or> FClose reason j \<in> set (frames_of (ct_cells s ! ref_cell r))"
      using c by (auto simp: lc_closes_def lc)
    then show ?thesis
      using closes_kept[OF inv small ex r] r by (auto simp: lc_closes_def same lc)
  qed
next
  case running: False
  show ?thesis
  proof (cases "is_shutdown (ct_lifecycle s')")
    case False
    then show ?thesis by (auto simp: lc_closes_def is_shutdown_def split: ControllerLifecycle.splits)
  next
    case True
    then have a: "a = ActShutdown" using shutdown_starts[OF ex running] by simp
    obtain lc x where sl: "shutdown_lookup (ct_lifecycle s) = (lc, x)" by (rule prod.exhaust)
    show ?thesis
    proof (cases x)
      case None
      then have "ct_lifecycle s' = lc" using ex a sl by auto
      moreover have "lc_ref lc = None" using shutdown_lookup_ref[OF sl] None by simp
      ultimately show ?thesis by (auto simp: lc_closes_def split: ControllerLifecycle.splits option.splits)
    next
      case (Some r)
      have "lc_ref (ct_lifecycle s) = Some r" using shutdown_lookup_ref[OF sl] Some by simp
      then have r: "ref_cell r < length (ct_cells s)" by (rule small_ref[OF inv small])
      have "lc_ref lc = Some r" using shutdown_ref[OF sl[unfolded Some]] .
      moreover have s': "s' = update_cell (ref_cell r) (spawn [FClose Shutdown AfterShutdown]) (s\<lparr>ct_lifecycle := lc\<rparr>)"
        using ex a sl Some by simp
      moreover have "FClose Shutdown AfterShutdown \<in> set (frames_of (ct_cells s' ! ref_cell r))"
        using r by (simp add: s')
      ultimately show ?thesis
        using r unfolding lc_closes_def
        by (cases lc) (auto simp del: frames_spawn split: option.splits)
    qed
  qed
qed

lemma lc_closes_reachable: "ctl_reachable sink s \<Longrightarrow> ctl_small s \<Longrightarrow> lc_closes s"
proof (induction rule: ctl_reachable.induct)
  case (ctl_reach_build from_path now gid host pid present builder built st w)
  have "\<not> is_shutdown (bc_lifecycle built)"
    using ctl_reach_build.hyps(1)
    by (auto simp: controller_build_def Let_def is_shutdown_def dest!: enable_lifecycle(2)
        split: sum.splits option.splits ControllerTemplateError.splits if_splits prod.splits)
  then show ?case by (auto simp: lc_closes_def ctl_init_def is_shutdown_def split: ControllerLifecycle.splits)
next
  case (ctl_reach_step s a s')
  then show ?case
    using lc_closes_exec ctl_inv_reachable exec_small by blast
qed

section \<open>The template\<close>

lemma resolve_valid:
  assumes "resolve_controller_template base current loaded = Inr template"
  shows "validate_public_template template = Inr template"
    and "tpl_config_path template = (case current of None \<Rightarrow> bct_config_path base | Some t \<Rightarrow> tpl_config_path t)"
  using assms
  by (auto simp: resolve_controller_template_def validate_public_template_def Let_def nonempty_path_def
      split: option.splits if_splits prod.splits)

lemma reloaded_valid:
  assumes "validate_public_template t = Inr t"
  shows "reload_template n lc t = (t', r) \<Longrightarrow> validate_public_template t' = Inr t'"
    and "reload_config from_path base lc t = (t', r') \<Longrightarrow> validate_public_template t' = Inr t'"
proof -
  show "reload_template n lc t = (t', r) \<Longrightarrow> validate_public_template t' = Inr t'"
    using assms by (auto simp: reload_template_def split: if_splits sum.splits)
      (auto simp: validate_public_template_def split: if_splits)
  show "reload_config from_path base lc t = (t', r') \<Longrightarrow> validate_public_template t' = Inr t'"
    using assms resolve_valid(1)[of base "Some t"]
    by (auto simp: reload_config_def split: if_splits sum.splits option.splits)
qed

lemma template_valid_reachable:
  "ctl_reachable sink s \<Longrightarrow> validate_public_template (ct_template s) = Inr (ct_template s)"
proof (induction rule: ctl_reachable.induct)
  case (ctl_reach_build from_path now gid host pid present builder built st w)
  then obtain loaded where "resolve_controller_template (base_template builder) None loaded = Inr (bc_template built)"
    by (auto simp: controller_build_def Let_def
        split: sum.splits option.splits ControllerTemplateError.splits if_splits prod.splits)
  then show ?case by (simp add: ctl_init_def resolve_valid(1))
next
  case (ctl_reach_step s a s')
  show ?case
  proof (cases "(\<exists>t. a = ActReloadTemplate t) \<or> (\<exists>t. a = ActReloadConfig t)")
    case False
    then show ?thesis using exec_template[OF ctl_reach_step.hyps(2)] ctl_reach_step.IH by auto
  next
    case True
    then show ?thesis
      using ctl_reach_step.hyps(2) reloaded_valid[OF ctl_reach_step.IH]
      by (auto split: if_splits prod.splits)
  qed
qed

end
