(* ===== verification/Ctl_Guarantees.thy ===== *)
theory Ctl_Guarantees
  imports Ctl_Lifecycle
begin

text \<open>
  The controller's properties, over its reachable states: what enabling does, that no call
  deadlocks and every one ends, how admission is bounded, how a generation moves to its one
  final result, and what a shutdown call leaves behind; besides, as lemmas of the interleaving
  model, that drained generations are finalized and that shutdown drains.
\<close>

section \<open>Enabling\<close>

text \<open>The first rule that makes a template unusable for a generation.\<close>

definition enable_blocked :: "bool \<Rightarrow> TailtriageControllerTemplate \<Rightarrow> EnableError option" where
  "enable_blocked present template =
     (let sampler = tpl_runtime_sampler template
      in if \<not> rst_enabled sampler then None
         else if \<not> present then Some EnMissingTokioRuntimeForSampler
         else if rst_interval sampler = Some 0 then Some (EnStartRuntimeSampler ZeroInterval)
         else None)"

text \<open>
  The generation a template asks for, field by field: what every part of its configuration and of
  its core run has to be, read off the template without going through any builder. A limit, the
  sampler's mode, its interval and its retention are the template's own value where it gives one
  and the default of the mode where it does not; the retention is capped by the run's limits.
\<close>

definition asked_limits :: "TailtriageControllerTemplate \<Rightarrow> CaptureLimits" where
  "asked_limits template =
     (let own = tpl_capture_limits_override template; d = core_defaults (tpl_mode template)
      in \<lparr>max_requests = unwrap_or (ov_max_requests own) (max_requests d),
          max_stages = unwrap_or (ov_max_stages own) (max_stages d),
          max_queues = unwrap_or (ov_max_queues own) (max_queues d),
          max_inflight_snapshots = unwrap_or (ov_max_inflight_snapshots own) (max_inflight_snapshots d),
          max_runtime_snapshots = unwrap_or (ov_max_runtime_snapshots own) (max_runtime_snapshots d)\<rparr>)"

definition asked_core :: "TailtriageControllerTemplate \<Rightarrow> EffectiveCoreConfig" where
  "asked_core template = \<lparr>ecc_mode = tpl_mode template, ecc_capture_limits = asked_limits template,
     ecc_strict_lifecycle = tpl_strict_lifecycle template\<rparr>"

definition asked_retention :: "TailtriageControllerTemplate \<Rightarrow> nat" where
  "asked_retention template =
     (let s = tpl_runtime_sampler template; m = unwrap_or (rst_mode_override s) (tpl_mode template)
      in min (unwrap_or (rst_max_runtime_snapshots s) (tsd_max_runtime_snapshots (sampler_defaults_for_mode m)))
           (max_runtime_snapshots (asked_limits template)))"

definition asked_sampler :: "TailtriageControllerTemplate \<Rightarrow> EffectiveTokioSamplerConfig option" where
  "asked_sampler template =
     (let s = tpl_runtime_sampler template; m = unwrap_or (rst_mode_override s) (tpl_mode template)
      in if \<not> rst_enabled s then None
         else Some \<lparr>inherited_mode = tpl_mode template, explicit_mode_override = rst_mode_override s,
           resolved_mode = m,
           resolved_sampler_cadence_ms =
             u64_sat_of_nat (unwrap_or (rst_interval s) (tsd_cadence (sampler_defaults_for_mode m)) div 1000000),
           resolved_runtime_snapshot_retention = asked_retention template\<rparr>)"

definition asked_run :: "clock_reading \<Rightarrow> string option \<Rightarrow> u32 \<Rightarrow> TailtriageControllerTemplate \<Rightarrow> u64
    \<Rightarrow> ('c, unit) Tailtriage" where
  "asked_run now host pid template n =
     \<lparr>tt_state = \<lparr>cs_run = run_new
          \<lparr>md_run_id = tpl_service_name template @ ''-generation-'' @ show_word n,
           md_service_name = tpl_service_name template, md_service_version = None,
           md_started_at_unix_ms = unix_time_ms now, md_finalized_at_unix_ms = None,
           md_mode = tpl_mode template, md_effective_core_config = Some (asked_core template),
           md_effective_tokio_sampler_config = asked_sampler template,
           md_host = normalize_host_name host, md_pid = Some pid, md_lifecycle_warnings = [],
           md_unfinished_requests = unfinished_default, md_run_end_reason = None\<rparr>,
        cs_pending_requests = [], cs_inflight_counts = [],
        cs_runtime_sampler_registered = rst_enabled (tpl_runtime_sampler template), cs_phase = PhaseOpen\<rparr>,
      tt_sink = SinkLocalJson (generated_artifact_path (tpl_output_path template) n),
      tt_mode = tpl_mode template, tt_effective_core_config = asked_core template,
      tt_limits = asked_limits template, tt_run_clock = run_clock_new now,
      tt_strict_lifecycle = tpl_strict_lifecycle template, tt_truncation_state = truncation_state_default,
      tt_limits_hit_listener = (if tpl_run_end_policy template = AutoSealPolicy then Some () else None)\<rparr>"

definition asked_generation :: "clock_reading \<Rightarrow> string option \<Rightarrow> u32 \<Rightarrow> TailtriageControllerTemplate \<Rightarrow> u64
    \<Rightarrow> 'c ActiveGenerationRuntime" where
  "asked_generation now host pid template n =
     \<lparr>gr_generation_id = n, gr_started_at_unix_ms = unix_time_ms now,
      gr_activation_config = \<lparr>act_output_path = tpl_output_path template, act_mode = tpl_mode template,
        act_capture_limits_override = tpl_capture_limits_override template,
        act_strict_lifecycle = tpl_strict_lifecycle template,
        act_runtime_sampler = tpl_runtime_sampler template,
        act_run_end_policy = tpl_run_end_policy template\<rparr>,
      gr_artifact_path = generated_artifact_path (tpl_output_path template) n,
      gr_run = asked_run now host pid template n, gr_admitted_request_slots = 0,
      gr_finalization_result = FinalizationPending, gr_accepting_new = True, gr_closing = False,
      gr_inflight_captured = 0, gr_finalize_started = False, gr_last_finalization_error = None,
      gr_runtime_sampler = (if rst_enabled (tpl_runtime_sampler template)
        then Some \<lparr>smt_captured = 0, smt_max_runtime_snapshots = asked_retention template, smt_running = True\<rparr>
        else None)\<rparr>"

text \<open>The core run before the sampler starts: the asked one, without its sampler.\<close>

definition bare_run :: "clock_reading \<Rightarrow> string option \<Rightarrow> u32 \<Rightarrow> TailtriageControllerTemplate \<Rightarrow> u64
    \<Rightarrow> ('c, unit) Tailtriage" where
  "bare_run now host pid template n =
     asked_run now host pid (template\<lparr>tpl_runtime_sampler := (tpl_runtime_sampler template)\<lparr>rst_enabled := False\<rparr>\<rparr>) n"

lemma override_limits: "override_apply (override_merge override_default own) d =
    \<lparr>max_requests = unwrap_or (ov_max_requests own) (max_requests d),
     max_stages = unwrap_or (ov_max_stages own) (max_stages d),
     max_queues = unwrap_or (ov_max_queues own) (max_queues d),
     max_inflight_snapshots = unwrap_or (ov_max_inflight_snapshots own) (max_inflight_snapshots d),
     max_runtime_snapshots = unwrap_or (ov_max_runtime_snapshots own) (max_runtime_snapshots d)\<rparr>"
  unfolding override_merge_apply override_default_apply
  by (simp add: override_apply_def override_field_def unwrap_or_def)

lemma generation_run_built:
  assumes "validate_public_template template = Inr template"
  shows "map_sum id (\<lambda>run. if tpl_run_end_policy template = AutoSealPolicy
        then set_limits_hit_listener (Some ()) run else run)
      (builder_build (from_config now gid host pid) (generation_builder template ng))
    = Inr (bare_run now host pid template ng)"
proof -
  have "\<not> is_blank (tpl_service_name template)"
    using assms by (auto simp: validate_public_template_def split: if_splits)
  then show ?thesis
    by (cases "tpl_mode template")
      (simp_all add: generation_builder_def Let_def builder_new_def builder_run_id_def builder_output_def
        builder_mode_def builder_capture_limits_override_def builder_strict_lifecycle_def builder_build_def
        from_config_def config_from_builder_def collector_state_new_def bare_run_def asked_run_def
        asked_core_def asked_limits_def asked_sampler_def override_limits set_limits_hit_listener_def
        run_clock_new_def unwrap_or_def)
qed

lemma sampler_builder_sel:
  "rsb_explicit_mode_override (sampler_builder_of t) = rst_mode_override t"
  "rsb_interval_override (sampler_builder_of t) = rst_interval t"
  "rsb_max_runtime_snapshots_override (sampler_builder_of t) = rst_max_runtime_snapshots t"
  by (simp_all add: sampler_builder_of_def Let_def sampler_builder_def sampler_mode_def sampler_interval_def
      sampler_max_runtime_snapshots_def split: option.split)

lemma sampler_starts_as_asked:
  assumes "rst_enabled (tpl_runtime_sampler template)"
  shows "sampler_start present (sampler_builder_of (tpl_runtime_sampler template)) (bare_run now host pid template n) =
     (if rst_interval (tpl_runtime_sampler template) = Some 0 then (Inl ZeroInterval, bare_run now host pid template n)
      else if \<not> present then (Inl MissingRuntime, bare_run now host pid template n)
      else (Inr \<lparr>smt_captured = 0, smt_max_runtime_snapshots = asked_retention template, smt_running = True\<rparr>,
            asked_run now host pid template n))"
proof -
  have cadence: "tsd_cadence (sampler_defaults_for_mode m) \<noteq> 0" for m by (cases m) simp_all
  show ?thesis
    using assms cadence
    by (simp add: sampler_start_def resolve_sampler_config_def Let_def sampler_builder_sel bare_run_def asked_run_def
        asked_core_def asked_limits_def asked_retention_def asked_sampler_def register_tokio_runtime_sampler_def
        into_effective_metadata_def run_new_def unwrap_or_def split: option.split)
qed

lemma construct_generation_cases:
  fixes C :: "EnableError + 'c ActiveGenerationRuntime"
  assumes valid: "validate_public_template template = Inr template"
    and C_def: "C = construct_generation (from_config now gid host pid) present template ng"
  shows "C = (case enable_blocked present template of
      Some e \<Rightarrow> Inl e | None \<Rightarrow> Inr (asked_generation now host pid template ng))"
proof -
  let ?built = "builder_build (from_config now gid host pid) (generation_builder template ng)
    :: BuildError + ('c, unit) Tailtriage"
  have "map_sum id (\<lambda>run. if tpl_run_end_policy template = AutoSealPolicy
        then set_limits_hit_listener (Some ()) run else run) ?built = Inr (bare_run now host pid template ng)"
    by (rule generation_run_built[OF valid])
  then obtain run where run: "?built = Inr run"
    and bare: "(if tpl_run_end_policy template = AutoSealPolicy then set_limits_hit_listener (Some ()) run else run)
      = bare_run now host pid template ng"
    by (cases ?built) auto
  have "md_started_at_unix_ms (run_metadata (tailtriage_snapshot run)) = unix_time_ms now"
    using arg_cong[OF bare, of "\<lambda>r. md_started_at_unix_ms (run_metadata (tailtriage_snapshot r))"]
    by (simp add: tailtriage_snapshot_def set_limits_hit_listener_def bare_run_def asked_run_def run_new_def
        split: if_splits)
  then have "C = start_runtime_sampler_if_enabled present template
      ((asked_generation now host pid template ng)\<lparr>gr_run := bare_run now host pid template ng, gr_runtime_sampler := None\<rparr>)"
    unfolding C_def construct_generation_def run sum.case Let_def bare[symmetric]
    by (simp add: asked_generation_def activation_of_def)
  moreover have "bare_run now host pid template ng = (asked_run now host pid template ng :: ('c, unit) Tailtriage)"
    if "\<not> rst_enabled (tpl_runtime_sampler template)"
    using that by (cases template; cases "tpl_runtime_sampler template") (simp add: bare_run_def)
  ultimately show ?thesis
    by (auto simp: start_runtime_sampler_if_enabled_def sampler_starts_as_asked enable_blocked_def Let_def
        asked_generation_def)
qed

section \<open>A sample controller\<close>

text \<open>A controller whose sink always succeeds; it is enabled, and its generation disabled.\<close>

definition sample_file_sink :: "unit dyn_sink \<Rightarrow> unit \<Rightarrow> Run \<Rightarrow> unit \<times> (SinkError + unit)" where
  "sample_file_sink s w r = (w, Inr ())"

definition sample_builder :: TailtriageControllerBuilder where
  "sample_builder = tcb_set_output ''run.json'' (controller_builder ''svc'')"

definition sample_template :: TailtriageControllerTemplate where
  "sample_template =
     \<lparr>tpl_service_name = ''svc'', tpl_config_path = None, tpl_output_path = ''run.json'', tpl_mode = Light,
      tpl_capture_limits_override = override_default, tpl_strict_lifecycle = False,
      tpl_runtime_sampler = sampler_template_default, tpl_run_end_policy = ContinueAfterLimitsHit\<rparr>"

definition sample_built :: "unit built_controller" where
  "sample_built = \<lparr>bc_template = sample_template, bc_base = base_template sample_builder,
     bc_lifecycle = LcDisabled 1, bc_generation = None\<rparr>"

definition sample_ctl :: "(unit, unit) ctl" where
  "sample_ctl = ctl_init \<lparr>REQUEST_SEQUENCE = 0, PENDING_SEQUENCE = 0\<rparr> () sample_built"

lemma sample_resolves:
  "resolve_controller_template (base_template sample_builder) None None = Inr sample_template"
proof -
  have "\<not> is_blank ''svc''"
    by (simp add: is_blank_iff is_whitespace_def white_space_chars_def utf8_cont_def)
  then show ?thesis
    by (simp add: sample_template_def resolve_controller_template_def base_template_def sample_builder_def
        controller_builder_def tcb_set_output_def nonempty_path_def Let_def)
qed

lemma sample_template_sel: "tpl_capture_limits_override sample_template = override_default"
    "tpl_mode sample_template = Light" "tpl_runtime_sampler sample_template = sampler_template_default"
    "tpl_run_end_policy sample_template = ContinueAfterLimitsHit" "tpl_output_path sample_template = ''run.json''"
    "tpl_strict_lifecycle sample_template = False"
  by (simp_all add: sample_template_def)

lemma sample_usize: "usize_template sample_template"
  by (simp add: usize_template_def sample_template_sel override_default_apply)

lemma sample_build:
  "controller_build from_path (from_config sample_now ''run-1'' None 1) False sample_builder = Inr sample_built"
  using sample_resolves
  by (simp add: controller_build_def sample_built_def Let_def sample_builder_def controller_builder_def tcb_set_output_def)

lemma reachable_sample: "ctl_reachable sample_file_sink sample_ctl"
  unfolding sample_ctl_def
  by (rule ctl_reach_build[OF sample_build]) (simp add: sample_built_def sample_usize)

definition sample_enable :: ctl_action where
  "sample_enable = ActEnable sample_now ''run-1'' None 1 False"

definition sample_active :: "(unit, unit) ctl" where
  "sample_active = the (ctl_exec sample_file_sink sample_enable sample_ctl)"

lemma sample_active_step:
  "ctl_exec sample_file_sink sample_enable sample_ctl = Some sample_active"
  by (simp add: sample_active_def sample_enable_def split: sum.split)

lemma reachable_sample_active: "ctl_reachable sample_file_sink sample_active"
  by (rule ctl_reach_step[OF reachable_sample sample_active_step])

lemma sample_active_state:
  obtains G where "ct_cells sample_active = [new_cell G]"
    and "ct_lifecycle sample_active = LcActive \<lparr>ref_cell = 0, ref_id = 1\<rparr> 2" and "ct_sequence sample_active = 0"
    and "run_ok G" and "fresh_generation 1 G" and "ct_template sample_active = sample_template"
proof -
  have s: "ct_cells sample_ctl = []" "ct_lifecycle sample_ctl = LcDisabled 1" "ct_sequence sample_ctl = 0"
    "ct_template sample_ctl = sample_template"
    by (simp_all add: sample_ctl_def ctl_init_def sample_built_def)
  let ?C = "construct_generation (from_config sample_now ''run-1'' None 1) False sample_template 1
    :: EnableError + unit ActiveGenerationRuntime"
  have blocked: "enable_blocked False sample_template = None"
    by (simp add: enable_blocked_def Let_def sample_template_sel sampler_template_default_def)
  define G :: "unit ActiveGenerationRuntime" where "G = asked_generation sample_now None 1 sample_template 1"
  have G: "?C = Inr G"
    unfolding construct_generation_cases[OF resolve_valid(1)[OF sample_resolves] refl] blocked G_def by simp
  note ok = construct_generation_ok[OF G sample_usize]
  have "saturating_succ 1 = 2" by (simp add: saturating_succ_def saturating_add_def)
  then have "enable (from_config sample_now ''run-1'' None 1) False sample_template 0 (LcDisabled 1)
      = Inr (LcActive \<lparr>ref_cell = 0, ref_id = 1\<rparr> 2, G)"
    using G by (simp add: enable_def G_def asked_generation_def)
  then have act: "sample_active = returns [EnableReturned (Inr (generation_snapshot G))]
      (sample_ctl\<lparr>ct_lifecycle := LcActive \<lparr>ref_cell = 0, ref_id = 1\<rparr> 2, ct_cells := [new_cell G]\<rparr>)"
    using s by (simp add: sample_active_def sample_enable_def)
  show thesis by (rule that[of G]) (simp_all add: act s ok)
qed

definition sample_schedule :: "ctl_action list" where
  "sample_schedule = ActDisable # replicate 6 (ActThread 0 0 sample_now sample_now)"

definition sample_drained :: "(unit, unit) ctl" where
  "sample_drained = the (ctl_exec_all sample_file_sink sample_schedule sample_active)"

text \<open>The disabled generation closes, is finalized and its run written; the controller is quiet.\<close>

lemma sample_drained_state:
  "ctl_exec_all sample_file_sink sample_schedule sample_active = Some sample_drained
   \<and> quiet sample_drained \<and> length (ct_cells sample_drained) = 1 \<and> ct_sequence sample_drained = 0
   \<and> cl_tokens (ct_cells sample_drained ! 0) = [] \<and> gr_closing (cl_gen (ct_cells sample_drained ! 0))
   \<and> ct_lifecycle sample_drained = LcDisabled 2"
proof -
  obtain G where s: "ct_cells sample_active = [new_cell G]"
    "ct_lifecycle sample_active = LcActive \<lparr>ref_cell = 0, ref_id = 1\<rparr> 2" "ct_sequence sample_active = 0"
    and G: "run_ok G" "fresh_generation 1 G"
    using sample_active_state .
  let ?G1 = "fst (close_generation_admissions_locked ManualDisarm G)"
  let ?G2 = "?G1\<lparr>gr_finalize_started := True, gr_last_finalization_error := None, gr_runtime_sampler := None\<rparr>"
  have g: "gr_generation_id G = 1" "gr_finalization_result G = FinalizationPending" "gr_inflight_captured G = 0"
      "is_open (gr_run G)" "cs_pending_requests (tt_state (gr_run G)) = []"
    using G(2) by (simp_all add: fresh_generation_def)
  let ?run = "set_run_end_reason_if_absent ManualDisarm (gr_run G)"
  have r: "is_open ?run" "cs_pending_requests (tt_state ?run) = []"
    using g by (simp_all add: set_run_end_reason_if_absent_def)
  show ?thesis
    using s g r
    by (simp add: sample_drained_def sample_schedule_def numeral_eq_Suc disable_lookup_def new_cell_def
        update_cell_def spawn_def run_thread_def frames_of_def Let_def close_generation_admissions_locked_def
        finalize_entry_def replay_generation_result_def shutdown_begin_open shutdown_finish_def logged_def
        finalize_settle_def set_generation_result_def finalize_publish_def quiet_def sample_file_sink_def)
qed

lemma reachable_sample_drained: "ctl_reachable sample_file_sink sample_drained"
  using ctl_reachable_exec_all[OF reachable_sample_active] sample_drained_state by blast

text \<open>
  C26. Enabling fails for exactly four reasons, checked in this order: the controller has shut
  down, a generation is active, its template asks for a sampler and there is no Tokio runtime, or
  the sampler's interval is zero. In particular the core never refuses the generation's run.
  Otherwise the new generation is the one asked for, to the last field: the next identifier, the
  template's configuration, an artifact path of its own, accepting requests; and its core run has
  the template's mode, strictness, service name and limits, a run id made of service and
  generation, the sink on the generation's artifact path, the limits-hit listener exactly under
  auto-seal, and the sampler the template describes.
\<close>

theorem enable_outcome:
  fixes s :: "('c, 'w) ctl"
  assumes "ctl_reachable sink s"
  shows "enable (from_config now gid host pid) present (ct_template s) fresh (ct_lifecycle s) =
    (case ct_lifecycle s of
       LcShutdown _ _ \<Rightarrow> Inl EnControllerShutdown
     | LcActive r _ \<Rightarrow> Inl (EnAlreadyActive (ref_id r))
     | _ \<Rightarrow>
       (case enable_blocked present (ct_template s) of
          Some e \<Rightarrow> Inl e
        | None \<Rightarrow>
            (let n = lc_next (ct_lifecycle s)
             in Inr (LcActive \<lparr>ref_cell = fresh, ref_id = n\<rparr> (saturating_succ n),
                     asked_generation now host pid (ct_template s) n :: 'c ActiveGenerationRuntime))))"
  using construct_generation_cases[OF template_valid_reachable[OF assms] refl,
      where now = now and gid = gid and host = host and pid = pid and present = present, where 'c = 'c]
  by (cases "ct_lifecycle s"; cases "enable_blocked present (ct_template s)")
    (simp_all add: enable_def Let_def asked_generation_def)

theorem enable_outcome_witness:
  "(case enable (from_config sample_now ''run-1'' None 1) False (ct_template sample_ctl) 0 (ct_lifecycle sample_ctl)
      :: EnableError + ControllerLifecycle \<times> unit ActiveGenerationRuntime of
      Inl e \<Rightarrow> False
    | Inr (lifecycle, G) \<Rightarrow> gr_generation_id G = 1 \<and> tt_sink (gr_run G) = SinkLocalJson ''run-generation-1.json''
        \<and> \<not> tt_strict_lifecycle (gr_run G) \<and> max_requests (tt_limits (gr_run G)) = 100000)"
proof -
  have s: "ct_lifecycle sample_ctl = LcDisabled 1" "ct_template sample_ctl = sample_template"
    by (simp_all add: sample_ctl_def ctl_init_def sample_built_def)
  have blocked: "enable_blocked False sample_template = None"
    by (simp add: enable_blocked_def Let_def sample_template_sel sampler_template_default_def)
  show ?thesis
    unfolding enable_outcome[OF reachable_sample]
    by (simp add: s blocked asked_generation_def asked_run_def asked_limits_def sample_template_sel artifact_path_examples
        override_default_def)
qed

section \<open>Threads\<close>

fun thread_action :: "ctl_action \<Rightarrow> bool" where
  "thread_action (ActThread _ _ _ _) = True"
| "thread_action _ = False"

lemma threads_work:
  "list_all thread_action as \<Longrightarrow> ctl_exec_all sink as s = Some s' \<Longrightarrow> length as + ctl_work s' \<le> ctl_work s"
proof (induction "as" arbitrary: s)
  case (Cons a "as")
  then obtain g i now1 now2 s1 where "a = ActThread g i now1 now2" "ctl_exec sink a s = Some s1"
      "ctl_exec_all sink as s1 = Some s'"
    by (cases a) (auto simp: bind_eq_Some_conv)
  then have "ctl_work s1 < ctl_work s" and "length as + ctl_work s' \<le> ctl_work s1"
    using run_thread_work Cons by auto
  then show ?case by simp
qed simp

text \<open>
  C25. Every call into the controller ends: whatever the interleaving, the threads inside it take
  at most \<open>ctl_work s\<close> steps from a state \<open>s\<close> before they have all returned or wait, since every
  step uses up work. No loop of the controller (signals that close, completions that finalize,
  a finalization that signals) feeds itself.
\<close>

theorem controller_threads_terminate:
  assumes "list_all thread_action as" and "ctl_exec_all sink as s = Some s'"
  shows "length as + ctl_work s' \<le> ctl_work s"
  using assms by (rule threads_work)

definition sample_disabled :: "(unit, unit) ctl" where
  "sample_disabled = the (ctl_exec sample_file_sink ActDisable sample_active)"

lemma sample_disabled_steps:
  "ctl_exec_all sample_file_sink (tl sample_schedule) sample_disabled = Some sample_drained"
proof -
  obtain s1 where "ctl_exec sample_file_sink ActDisable sample_active = Some s1"
    "ctl_exec_all sample_file_sink (tl sample_schedule) s1 = Some sample_drained"
    using sample_drained_state by (auto simp: sample_schedule_def bind_eq_Some_conv simp del: ctl_exec.simps)
  then show ?thesis by (simp add: sample_disabled_def del: ctl_exec.simps)
qed

theorem controller_threads_terminate_witness: "6 + ctl_work sample_drained \<le> ctl_work sample_disabled"
  using controller_threads_terminate[OF _ sample_disabled_steps] by (simp add: sample_schedule_def list_all_iff)


lemma sample_drained_small: "ctl_small sample_drained"
  using sample_drained_state by (simp add: ctl_small_def)


section \<open>Admission\<close>

text \<open>
  C22. Admission is bounded and counted exactly. In every reachable state, for every generation:
  the in-flight counter is the number of completion tokens handed out and not yet accounted for;
  it never exceeds the admitted slots, and these never exceed the template's request limit; the
  generation accepts requests exactly until it closes; and while its run is open, the admitted
  requests are those the run has retained or holds as pending, except one being committed.
\<close>

theorem admission_accounted:
  assumes "ctl_reachable sink s" and "ctl_small s" and "g < length (ct_cells s)"
  defines "c \<equiv> ct_cells s ! g"
  defines "G \<equiv> cl_gen c"
  shows "unat (gr_inflight_captured G) = outstanding (cl_tokens c) (frames_of c)
    \<and> outstanding (cl_tokens c) (frames_of c) \<le> gr_admitted_request_slots G
    \<and> gr_admitted_request_slots G \<le> max_requests (tt_limits (gr_run G))
    \<and> gr_accepting_new G = (\<not> gr_closing G)
    \<and> (if is_open (gr_run G) then gr_admitted_request_slots G + length (filter is_commit (frames_of c))
          = length (run_requests (tt_run (gr_run G))) + length (cs_pending_requests (tt_state (gr_run G)))
       else True)"
proof -
  have view: "view_inv (ct_sequence s) (role_of (ct_lifecycle s) g) G (cl_tokens c) (frames_of c) (cl_written c)"
    using reachable_cell[OF assms(1-3)] by (simp add: cell_inv_view c_def G_def)
  have "counts_ok (ct_sequence s) G (cl_tokens c) (frames_of c)"
    using view by (simp add: view_inv_def view_core_def)
  then show ?thesis using view_facts[OF view] by (simp add: counts_ok_def)
qed

theorem admission_accounted_witness:
  "unat (gr_inflight_captured (cl_gen (ct_cells sample_drained ! 0))) = 0"
  using admission_accounted[OF reachable_sample_drained sample_drained_small, of 0] sample_drained_state
  by (simp add: outstanding_def quiet_def)

section \<open>Finalization\<close>

lemma idle_view:
  assumes "ctl_reachable sink s" and "ctl_small s" and "g < length (ct_cells s)"
    and "frames_of (ct_cells s ! g) = []"
  shows "view_inv (ct_sequence s) (role_of (ct_lifecycle s) g) (cl_gen (ct_cells s ! g))
    (cl_tokens (ct_cells s ! g)) [] (cl_written (ct_cells s ! g))"
  using reachable_cell[OF assms(1-3)] assms(4) by (simp add: cell_inv_view)

text \<open>
  Under sequentially consistent atomics no signal, completion, disable or shutdown that should
  have finalized a generation is lost: an idle one that is closing and has no admitted request left
  is finalized. The closing flag and the in-flight counter of the code use release and acquire
  orderings, under which a finishing request and a closing thread may each miss the other's write,
  so this is a fact about the interleaving model only.
\<close>

lemma drained_generation_finalized:
  assumes "ctl_reachable sink s" and "ctl_small s" and "g < length (ct_cells s)"
    and "frames_of (ct_cells s ! g) = []" and "cl_tokens (ct_cells s ! g) = []"
    and "gr_closing (cl_gen (ct_cells s ! g))"
  shows "gr_finalization_result (cl_gen (ct_cells s ! g)) \<noteq> FinalizationPending"
  using view_facts(9)[OF idle_view[OF assms(1-4)]] assms(5,6) by (auto simp: drain_ok_def outstanding_def)

text \<open>
  C21. What a generation that nobody is working on looks like. Its recorded result is the terminal
  state of its core run: pending while that is open, success or the sink's error once it is
  closed; it is never left half finalized. Its sink was given the normalized run exactly once if
  it is finalized, and nothing otherwise.
\<close>

theorem idle_generation_settled:
  assumes "ctl_reachable sink s" and "ctl_small s" and "g < length (ct_cells s)"
    and "frames_of (ct_cells s ! g) = []"
  defines "G \<equiv> cl_gen (ct_cells s ! g)"
  shows "phase_result (cs_phase (tt_state (gr_run G))) = Some (gr_finalization_result G)
    \<and> cl_written (ct_cells s ! g) = (case gr_finalization_result G of
         FinalizationPending \<Rightarrow> [] | _ \<Rightarrow> [normalize_for_lifecycle (tt_run (gr_run G))])"
proof -
  have fin: "phase_result (cs_phase (tt_state (gr_run G))) = Some (gr_finalization_result G)"
    "cl_written (ct_cells s ! g) = (case cs_phase (tt_state (gr_run G)) of
        PhaseClosed _ \<Rightarrow> [normalize_for_lifecycle (tt_run (gr_run G))] | _ \<Rightarrow> [])"
    using view_facts(8)[OF idle_view[OF assms(1-4)]] unfolding G_def by (simp_all add: finalization_ok_def)
  then show ?thesis unfolding G_def
    by (cases "cs_phase (tt_state (gr_run (cl_gen (ct_cells s ! g))))" rule: phase_result.cases)
      (auto split: GenerationFinalizationResult.splits)
qed

theorem idle_generation_settled_witness:
  "length (cl_written (ct_cells sample_drained ! 0)) = 1"
  using idle_generation_settled[OF reachable_sample_drained sample_drained_small, of 0] sample_drained_state
    drained_generation_finalized[OF reachable_sample_drained sample_drained_small, of 0]
  by (simp add: quiet_def split: GenerationFinalizationResult.splits)

section \<open>Phases of a generation\<close>

text \<open>
  C23. A generation only moves forward. No step of any thread or caller changes its identity (its
  identifier, start, configuration and artifact path); it goes from accepting to draining and
  from draining to its final result, which never changes; slots are never given back; and once
  it is closing no request is admitted any more and the in-flight count only falls.
\<close>

theorem generation_moves_forward:
  assumes "ctl_reachable sink s" and "ctl_exec sink a s = Some s'" and "ctl_small s'"
    and "g < length (ct_cells s)"
  defines "G \<equiv> cl_gen (ct_cells s ! g)" and "G' \<equiv> cl_gen (ct_cells s' ! g)"
  shows "same_generation G G' \<and> gen_moves (gen_phase G) (gen_phase G')
    \<and> gr_admitted_request_slots G \<le> gr_admitted_request_slots G'
    \<and> (if gr_closing G then gr_closing G' \<and> gr_admitted_request_slots G' = gr_admitted_request_slots G
         \<and> gr_inflight_captured G' \<le> gr_inflight_captured G else True)"
  using exec_gen_move(1)[OF ctl_inv_reachable[OF assms(1)] exec_small[OF assms(2,3)] assms(2,4)]
  by (simp add: gen_move_def G_def G'_def)

lemma sample_disabled_step: "ctl_exec sample_file_sink ActDisable sample_active = Some sample_disabled"
  using sample_drained_state
  by (auto simp: sample_schedule_def bind_eq_Some_conv sample_disabled_def simp del: ctl_exec.simps)

lemma sample_active_small: "ctl_small sample_active" "length (ct_cells sample_active) = 1"
proof -
  obtain G where "ct_cells sample_active = [new_cell G]" "ct_sequence sample_active = 0"
    using sample_active_state .
  then show "ctl_small sample_active" "length (ct_cells sample_active) = 1" by (simp_all add: ctl_small_def)
qed

lemma exec_all_small: "ctl_exec_all sink as s = Some s' \<Longrightarrow> ctl_small s' \<Longrightarrow> ctl_small s"
  by (induction "as" arbitrary: s) (auto simp: bind_eq_Some_conv exec_small simp del: ctl_exec.simps)

lemma sample_disabled_small: "ctl_small sample_disabled"
  using exec_all_small[OF sample_disabled_steps sample_drained_small] .

theorem generation_moves_forward_witness:
  "same_generation (cl_gen (ct_cells sample_active ! 0)) (cl_gen (ct_cells sample_disabled ! 0))"
  using generation_moves_forward[OF reachable_sample_active sample_disabled_step sample_disabled_small, of 0]
    sample_active_small(2) by simp

text \<open>
  At most one generation is not finalized, and it is the one the lifecycle refers to: a
  generation that has been replaced, or left behind by a failed finalization, has its result.
\<close>

theorem pending_generation_is_current:
  assumes "ctl_reachable sink s" and "ctl_small s" and "g < length (ct_cells s)"
    and "gr_finalization_result (cl_gen (ct_cells s ! g)) = FinalizationPending"
  shows "map_option ref_cell (lc_ref (ct_lifecycle s)) = Some g
    \<and> (case ct_lifecycle s of LcTerminalFailed _ _ _ \<Rightarrow> False | _ \<Rightarrow> True)"
proof -
  let ?r = "role_of (ct_lifecycle s) g"
  let ?G = "cl_gen (ct_cells s ! g)" and ?F = "frames_of (ct_cells s ! g)"
  have fin: "finalization_ok ?r ?G ?F (cl_written (ct_cells s ! g))"
    using reachable_cell[OF assms(1-3)] by (simp add: cell_inv_def)
  have "role_result ?r FinalizationPending \<or> (\<exists>ng. role_ng ?r ng)"
  proof (cases "filter holds_finalization ?F")
    case Nil
    then show ?thesis using fin assms(4) by (auto simp: finalization_ok_def)
  next
    case (Cons h hs)
    then have "h \<in> set (filter holds_finalization ?F)" by simp
    then have "holder_ok ?r ?G h" using holder_of_frame(2)[OF fin] by simp
    then show ?thesis by (cases h) auto
  qed
  then show ?thesis
    by (auto simp: role_of_def split: ControllerLifecycle.splits option.splits if_splits)
qed

theorem pending_generation_is_current_witness:
  "gr_finalization_result (cl_gen (ct_cells sample_active ! 0)) = FinalizationPending
   \<and> map_option ref_cell (lc_ref (ct_lifecycle sample_active)) = Some 0"
proof -
  obtain G where "ct_cells sample_active = [new_cell G]" "fresh_generation 1 G"
    using sample_active_state .
  then have "gr_finalization_result (cl_gen (ct_cells sample_active ! 0)) = FinalizationPending"
    by (simp add: new_cell_def fresh_generation_def)
  then show ?thesis
    using pending_generation_is_current[OF reachable_sample_active sample_active_small(1), of 0]
      sample_active_small(2) by simp
qed

section \<open>Shutdown\<close>

lemma exec_all_shutdown:
  assumes "is_shutdown (ct_lifecycle s)" and "ctl_exec_all sink as s = Some s'"
  shows "ct_lifecycle s' = ct_lifecycle s \<and> ct_template s' = ct_template s
    \<and> length (ct_cells s') = length (ct_cells s)"
  using assms
proof (induction "as" arbitrary: s)
  case (Cons a "as")
  then obtain s1 where s1: "ctl_exec sink a s = Some s1" "ctl_exec_all sink as s1 = Some s'"
    by (auto simp: bind_eq_Some_conv simp del: ctl_exec.simps)
  note e = exec_shutdown[OF s1(1) Cons.prems(1)]
  show ?case using Cons.IH[OF _ s1(2)] Cons.prems(1) e by simp
qed simp

text \<open>
  Shutdown is terminal: whatever is called afterwards and however it interleaves, the
  lifecycle stays shut down on the same generation, no generation is added and the template is
  never changed.
\<close>

theorem shutdown_terminal:
  assumes "is_shutdown (ct_lifecycle s)" and "ctl_exec_all sink as s = Some s'"
  shows "ct_lifecycle s' = ct_lifecycle s \<and> ct_template s' = ct_template s
    \<and> length (ct_cells s') = length (ct_cells s)"
  using assms by (rule exec_all_shutdown)

definition sample_shut :: "(unit, unit) ctl" where
  "sample_shut = the (ctl_exec_all sample_file_sink (ActShutdown # tl sample_schedule) sample_active)"

lemma sample_shut_state:
  "ctl_exec_all sample_file_sink (ActShutdown # tl sample_schedule) sample_active = Some sample_shut
   \<and> quiet sample_shut \<and> length (ct_cells sample_shut) = 1 \<and> ct_sequence sample_shut = 0
   \<and> cl_tokens (ct_cells sample_shut ! 0) = [] \<and> is_shutdown (ct_lifecycle sample_shut)"
proof -
  obtain G where s: "ct_cells sample_active = [new_cell G]"
    "ct_lifecycle sample_active = LcActive \<lparr>ref_cell = 0, ref_id = 1\<rparr> 2" "ct_sequence sample_active = 0"
    and G: "run_ok G" "fresh_generation 1 G"
    using sample_active_state .
  have g: "gr_generation_id G = 1" "gr_finalization_result G = FinalizationPending" "gr_inflight_captured G = 0"
      "is_open (gr_run G)" "cs_pending_requests (tt_state (gr_run G)) = []"
    using G(2) by (simp_all add: fresh_generation_def)
  let ?run = "set_run_end_reason_if_absent Shutdown (gr_run G)"
  have r: "is_open ?run" "cs_pending_requests (tt_state ?run) = []"
    using g by (simp_all add: set_run_end_reason_if_absent_def)
  show ?thesis
    using s g r
    by (simp add: sample_shut_def sample_schedule_def numeral_eq_Suc shutdown_lookup_def is_shutdown_def new_cell_def
        update_cell_def spawn_def run_thread_def frames_of_def Let_def close_generation_admissions_locked_def
        finalize_entry_def replay_generation_result_def shutdown_begin_open shutdown_finish_def logged_def
        finalize_settle_def set_generation_result_def finalize_publish_def quiet_def sample_file_sink_def)
qed

lemma reachable_sample_shut: "ctl_reachable sample_file_sink sample_shut"
  using ctl_reachable_exec_all[OF reachable_sample_active] sample_shut_state by blast

theorem shutdown_terminal_witness:
  "ct_lifecycle (the (ctl_exec_all sample_file_sink [sample_enable, ActDisable] sample_shut)) = ct_lifecycle sample_shut"
proof -
  have sd: "is_shutdown (ct_lifecycle sample_shut)" using sample_shut_state by blast
  then obtain r ng where "ct_lifecycle sample_shut = LcShutdown r ng"
    by (auto simp: is_shutdown_def split: ControllerLifecycle.splits)
  then have "\<exists>s'. ctl_exec_all sample_file_sink [sample_enable, ActDisable] sample_shut = Some s'"
    by (simp add: sample_enable_def enable_def disable_lookup_def)
  then obtain s' where s': "ctl_exec_all sample_file_sink [sample_enable, ActDisable] sample_shut = Some s'" ..
  show ?thesis using shutdown_terminal[OF sd s'] unfolding s' by simp
qed

text \<open>
  Shutdown drains, under the same proviso: when the controller has shut down, every call has
  returned and every admitted request has been finished, then all its generations are finalized,
  each with exactly one run written, the normalized one.
\<close>

lemma shutdown_drains:
  assumes "ctl_reachable sink s" and "ctl_small s" and "is_shutdown (ct_lifecycle s)" and "quiet s"
    and "list_all (\<lambda>c. cl_tokens c = []) (ct_cells s)"
  shows "list_all (\<lambda>c. gr_finalization_result (cl_gen c) \<noteq> FinalizationPending
      \<and> cl_written c = [normalize_for_lifecycle (tt_run (gr_run (cl_gen c)))]) (ct_cells s)"
proof -
  have "gr_finalization_result (cl_gen (ct_cells s ! g)) \<noteq> FinalizationPending
      \<and> cl_written (ct_cells s ! g) = [normalize_for_lifecycle (tt_run (gr_run (cl_gen (ct_cells s ! g))))]"
    if g: "g < length (ct_cells s)" for g
  proof -
    let ?c = "ct_cells s ! g" let ?G = "cl_gen ?c"
    have idle: "frames_of ?c = []" "cl_tokens ?c = []"
      using assms(4,5) g by (simp_all add: quiet_def list_all_length)
    note view = idle_view[OF assms(1,2) g idle(1)]
    have fin: "phase_result (cs_phase (tt_state (gr_run ?G))) = Some (gr_finalization_result ?G)"
      "role_result (role_of (ct_lifecycle s) g) (gr_finalization_result ?G)"
      "cl_written ?c = (case cs_phase (tt_state (gr_run ?G)) of
        PhaseClosed _ \<Rightarrow> [normalize_for_lifecycle (tt_run (gr_run ?G))] | _ \<Rightarrow> [])"
      using view_facts(8)[OF view] by (simp_all add: finalization_ok_def)
    have "gr_closing ?G" if p: "gr_finalization_result ?G = FinalizationPending"
    proof -
      have "\<exists>r ng. ct_lifecycle s = LcShutdown (Some r) ng \<and> ref_cell r = g"
        using fin(2) p assms(3)
        by (auto simp: role_of_def is_shutdown_def split: ControllerLifecycle.splits option.splits if_splits)
      then show ?thesis using lc_closes_reachable[OF assms(1,2)] idle by (auto simp: lc_closes_def)
    qed
    then have "gr_finalization_result ?G \<noteq> FinalizationPending"
      using drained_generation_finalized[OF assms(1,2) g idle] by blast
    then show ?thesis
      using fin(1,3) by (cases "cs_phase (tt_state (gr_run ?G))" rule: phase_result.cases) auto
  qed
  then show ?thesis by (simp add: list_all_length)
qed




section \<open>Answers and errors\<close>

text \<open>
  A finalization answers everybody alike. After a final outcome of the core's shutdown the
  result recorded in the generation, replayed to any later caller, reads exactly as the answer of
  the call that finalized it; the lifecycle it publishes makes a later disable report the same
  error text after a failure and an already disabled controller after success. A strict refusal
  because of unfinished requests is not final: nothing is recorded to be replayed.
\<close>

theorem finalization_answers_agree:
  "case x of
     Inl (UnfinishedRequestsError n) \<Rightarrow>
       replay_generation_result (finalize_settle x G) = replay_generation_result G
   | _ \<Rightarrow>
       map_option (map_sum finalization_error_display id) (replay_generation_result (finalize_settle x G))
         = Some (map_sum finalization_error_display id (finalize_answer x))
       \<and> map_sum (map_sum finalization_error_display id) id
           (disable_lookup (finalize_publish x (ref_id r) next_generation (LcActive r next_generation)))
         = Inl (map_sum id (\<lambda>_. AlreadyDisabled) (map_sum finalization_error_display id (finalize_answer x)))"
proof (cases x rule: result_of.cases)
  case (2 e)
  then show ?thesis
    by (cases e) (simp_all add: finalize_settle_def Let_def set_generation_result_def replay_generation_result_def
        finalize_answer_def prior_finalization_error_def finalize_publish_def disable_lookup_def)
qed (simp_all add: finalize_settle_def Let_def set_generation_result_def replay_generation_result_def
        finalize_answer_def finalize_publish_def disable_lookup_def)

text \<open>
  C27. The template of a controller is always usable: in every reachable state, whatever was
  built, enabled and reloaded, its service name is not blank and it has an output path.
\<close>

theorem template_always_valid:
  assumes "ctl_reachable sink s"
  shows "\<not> is_blank (tpl_service_name (ct_template s)) \<and> tpl_output_path (ct_template s) \<noteq> ''''"
  using template_valid_reachable[OF assms] by (auto simp: validate_public_template_def split: if_splits)

theorem template_always_valid_witness: "\<not> is_blank (tpl_service_name (ct_template sample_shut))"
  using template_always_valid[OF reachable_sample_shut] by simp

lemma resolve_depends:
  assumes "tpl_service_name u = tpl_service_name t" and "tpl_config_path u = tpl_config_path t"
  shows "resolve_controller_template base (Some u) loaded = resolve_controller_template base (Some t) loaded"
  by (simp add: resolve_controller_template_def assms)

lemma unwrap_or_twice: "unwrap_or x (unwrap_or x d) = unwrap_or x d"
  by (cases x) simp_all

lemma reload_config_ok:
  assumes "\<not> is_shutdown lifecycle" and "tpl_config_path t = Some path" and "from_path path = Inr loaded"
    and "resolve_controller_template base (Some t) (Some loaded) = Inr t'"
  shows "reload_config from_path base lifecycle t = (t', Inr ())"
  using assms by (simp add: reload_config_def)

lemma resolve_again:
  assumes "resolve_controller_template base (Some t) loaded = Inr t'"
  shows "resolve_controller_template base (Some t') loaded = Inr t'"
  using assms
  by (auto simp: resolve_controller_template_def Let_def unwrap_or_twice split: option.splits if_splits prod.splits)

text \<open>
  Reloading the configuration is transactional and forgets. A refused reload leaves the
  template as it was; an accepted one gives a valid template that keeps the configuration path,
  depends on the old template only through its service name and that path (every other setting
  comes from the file or the builder), and gives the same template when repeated.
\<close>

theorem reload_config_transactional:
  "case reload_config from_path base lifecycle template of
     (template', Inl _) \<Rightarrow> template' = template
   | (template', Inr _) \<Rightarrow>
       validate_public_template template' = Inr template'
       \<and> tpl_config_path template' = tpl_config_path template
       \<and> reload_config from_path base lifecycle
           (other\<lparr>tpl_service_name := tpl_service_name template, tpl_config_path := tpl_config_path template\<rparr>)
         = (template', Inr ())
       \<and> reload_config from_path base lifecycle template' = (template', Inr ())"
proof (cases "reload_config from_path base lifecycle template")
  case (Pair template' r)
  show ?thesis
  proof (cases r)
    case (Inl e)
    then show ?thesis using Pair by (auto simp: reload_config_def split: if_splits option.splits sum.splits)
  next
    case (Inr u)
    then obtain path loaded where l: "\<not> is_shutdown lifecycle" "tpl_config_path template = Some path"
        "from_path path = Inr loaded" "resolve_controller_template base (Some template) (Some loaded) = Inr template'"
      using Pair by (auto simp: reload_config_def split: if_splits option.splits sum.splits)
    have v: "validate_public_template template' = Inr template'" "tpl_config_path template' = Some path"
      using resolve_valid[OF l(4)] l(2) by simp_all
    have d: "resolve_controller_template base
        (Some (other\<lparr>tpl_service_name := tpl_service_name template, tpl_config_path := Some path\<rparr>)) (Some loaded)
        = Inr template'"
      unfolding l(4)[symmetric] by (rule resolve_depends) (simp_all add: l(2))
    have "reload_config from_path base lifecycle
        (other\<lparr>tpl_service_name := tpl_service_name template, tpl_config_path := Some path\<rparr>) = (template', Inr ())"
      by (rule reload_config_ok[where path = path and loaded = loaded]) (use l d in simp_all)
    moreover have "reload_config from_path base lifecycle template' = (template', Inr ())"
      by (rule reload_config_ok[where path = path and loaded = loaded]) (use l v resolve_again[OF l(4)] in simp_all)
    ultimately show ?thesis unfolding Pair Inr l(2) prod.case sum.case using v by blast
  qed
qed

end
