(* ===== verification/An_Options.thy ===== *)
theory An_Options
  imports TT_Prelude
begin

text \<open>
  The configuration of the analyzer, \<^verbatim>\<open>tailtriage-analyzer/src/options/mod.rs\<close>: the option
  groups with their defaults, the configuration errors with their display texts, and
  \<^verbatim>\<open>AnalyzeOptions::validate\<close>. A \<^verbatim>\<open>usize\<close> option is a \<open>nat\<close> of at most
  \<open>usize_max\<close>, \<^verbatim>\<open>u64\<close> and \<^verbatim>\<open>u8\<close> options are words.
\<close>

section \<open>Option groups\<close>

abbreviation usize_max :: nat where
  "usize_max \<equiv> u64_max"

record QueueingOptions =
  qo_trigger_permille :: u64

definition queueing_default :: QueueingOptions where
  "queueing_default = \<lparr>qo_trigger_permille = 300\<rparr>"

record BlockingOptions =
  bo_min_nonzero_samples_for_signal :: nat
  bo_strong_p95_threshold :: u64
  bo_strong_peak_threshold :: u64
  bo_strong_nonzero_share_permille :: u64
  bo_strong_min_samples :: nat

definition blocking_default :: BlockingOptions where
  "blocking_default =
     \<lparr>bo_min_nonzero_samples_for_signal = 2, bo_strong_p95_threshold = 12,
      bo_strong_peak_threshold = 20, bo_strong_nonzero_share_permille = 700,
      bo_strong_min_samples = 30\<rparr>"

record ExecutorOptions =
  exo_min_global_queue_p95_for_signal :: u64
  exo_min_runnable_queue_per_worker_p95_milli_for_signal :: u64

definition executor_default :: ExecutorOptions where
  "executor_default =
     \<lparr>exo_min_global_queue_p95_for_signal = 1,
      exo_min_runnable_queue_per_worker_p95_milli_for_signal = 500\<rparr>"

record DownstreamOptions =
  dso_min_stage_samples :: nat
  dso_blocking_correlated_stage_patterns :: "string list"
  dso_blocking_correlation_score_margin :: u8

definition downstream_default :: DownstreamOptions where
  "downstream_default =
     \<lparr>dso_min_stage_samples = 3,
      dso_blocking_correlated_stage_patterns = [''spawn_blocking'', ''blocking_path'', ''blocking''],
      dso_blocking_correlation_score_margin = 2\<rparr>"

record ConfidenceOptions =
  cfo_medium_score_threshold :: u8
  cfo_high_score_threshold :: u8
  cfo_ambiguity_min_score :: u8
  cfo_ambiguity_score_gap :: u8

definition confidence_default :: ConfidenceOptions where
  "confidence_default =
     \<lparr>cfo_medium_score_threshold = 65, cfo_high_score_threshold = 85,
      cfo_ambiguity_min_score = 60, cfo_ambiguity_score_gap = 4\<rparr>"

record EvidenceOptions =
  evo_low_completed_request_threshold :: nat

definition evidence_default :: EvidenceOptions where
  "evidence_default = \<lparr>evo_low_completed_request_threshold = 20\<rparr>"

record RouteOptions =
  rto_min_request_count :: nat
  rto_breakdown_limit :: nat
  rto_emit_on_divergent_suspects :: bool
  rto_slowest_to_fastest_p95_ratio_numerator :: u64
  rto_slowest_to_fastest_p95_ratio_denominator :: u64
  rto_slowest_to_global_p95_ratio_numerator :: u64
  rto_slowest_to_global_p95_ratio_denominator :: u64

definition route_default :: RouteOptions where
  "route_default =
     \<lparr>rto_min_request_count = 3, rto_breakdown_limit = 10,
      rto_emit_on_divergent_suspects = True,
      rto_slowest_to_fastest_p95_ratio_numerator = 3,
      rto_slowest_to_fastest_p95_ratio_denominator = 2,
      rto_slowest_to_global_p95_ratio_numerator = 5,
      rto_slowest_to_global_p95_ratio_denominator = 4\<rparr>"

record TemporalOptions =
  tmo_min_request_count :: nat
  tmo_min_segment_request_count :: nat
  tmo_share_shift_permille :: u64
  tmo_p95_shift_ratio_numerator :: u64
  tmo_p95_shift_ratio_denominator :: u64
  tmo_emit_on_suspect_shift :: bool
  tmo_suppress_runtime_sparse_suspect_shift_without_supporting_movement :: bool

definition temporal_default :: TemporalOptions where
  "temporal_default =
     \<lparr>tmo_min_request_count = 20, tmo_min_segment_request_count = 8,
      tmo_share_shift_permille = 200, tmo_p95_shift_ratio_numerator = 3,
      tmo_p95_shift_ratio_denominator = 2, tmo_emit_on_suspect_shift = True,
      tmo_suppress_runtime_sparse_suspect_shift_without_supporting_movement = True\<rparr>"

record AnalyzeOptions =
  ao_queueing :: QueueingOptions
  ao_blocking :: BlockingOptions
  ao_executor :: ExecutorOptions
  ao_downstream :: DownstreamOptions
  ao_confidence :: ConfidenceOptions
  ao_evidence :: EvidenceOptions
  ao_route :: RouteOptions
  ao_temporal :: TemporalOptions

definition analyze_options_default :: AnalyzeOptions where
  "analyze_options_default =
     \<lparr>ao_queueing = queueing_default, ao_blocking = blocking_default,
      ao_executor = executor_default, ao_downstream = downstream_default,
      ao_confidence = confidence_default, ao_evidence = evidence_default,
      ao_route = route_default, ao_temporal = temporal_default\<rparr>"

lemmas options_defaults = analyze_options_default_def queueing_default_def blocking_default_def
  executor_default_def downstream_default_def confidence_default_def evidence_default_def
  route_default_def temporal_default_def

section \<open>Configuration errors\<close>

datatype AnalyzeConfigError =
    InvalidOverrideSyntax string
  | UnknownOverridePath string "string option"
  | InvalidOverrideValue string string string
  | InvalidConfigValue string string
  | MissingAnalyzerTable
  | MissingSchemaVersion
  | UnsupportedSchemaVersion u64 u64
  | InvalidToml string

fun config_error_display :: "AnalyzeConfigError \<Rightarrow> string" where
  "config_error_display (InvalidOverrideSyntax raw) = ''invalid override syntax: '' @ raw"
| "config_error_display (UnknownOverridePath path suggestion) =
     (case suggestion of
        Some s \<Rightarrow> ''unknown analyzer option '' @ squote @ path @ squote @ ''; did you mean ''
                  @ squote @ s @ squote @ ''?''
      | None \<Rightarrow> ''unknown analyzer option '' @ squote @ path @ squote)"
| "config_error_display (InvalidOverrideValue path value expected) =
     ''invalid override value for '' @ squote @ path @ squote @ '': '' @ squote @ value @ squote
     @ '' (expected '' @ expected @ '')''"
| "config_error_display (InvalidConfigValue path message) =
     ''invalid config value at '' @ squote @ path @ squote @ '': '' @ message"
| "config_error_display MissingAnalyzerTable = ''missing [analyzer] table''"
| "config_error_display MissingSchemaVersion = ''missing schema_version''"
| "config_error_display (UnsupportedSchemaVersion found supported) =
     ''unsupported schema_version '' @ show_word found @ ''; supported '' @ show_word supported"
| "config_error_display (InvalidToml message) = ''invalid toml: '' @ message"

section \<open>Validation\<close>

text \<open>
  The checks run in the order of the source and the first failure is returned. The two ratio
  pairs of the route options are checked by one loop over their paths and values.
\<close>

abbreviation invalid :: "string \<Rightarrow> string \<Rightarrow> AnalyzeConfigError + unit" where
  "invalid path message \<equiv> Inl (InvalidConfigValue path message)"

fun validate_ratios :: "(string \<times> string \<times> u64 \<times> u64) list \<Rightarrow> AnalyzeConfigError + unit" where
  "validate_ratios [] = Inr ()"
| "validate_ratios ((num_path, den_path, num, den) # rest) =
     (if num = 0 then invalid num_path ''must be > 0''
      else if den = 0 then invalid den_path ''must be > 0''
      else if num < den then invalid num_path (''must be >= '' @ den_path)
      else validate_ratios rest)"

definition route_ratios :: "RouteOptions \<Rightarrow> (string \<times> string \<times> u64 \<times> u64) list" where
  "route_ratios route =
     [(''route.slowest_to_fastest_p95_ratio_numerator'',
       ''route.slowest_to_fastest_p95_ratio_denominator'',
       rto_slowest_to_fastest_p95_ratio_numerator route,
       rto_slowest_to_fastest_p95_ratio_denominator route),
      (''route.slowest_to_global_p95_ratio_numerator'',
       ''route.slowest_to_global_p95_ratio_denominator'',
       rto_slowest_to_global_p95_ratio_numerator route,
       rto_slowest_to_global_p95_ratio_denominator route)]"

definition validate_temporal :: "TemporalOptions \<Rightarrow> AnalyzeConfigError + unit" where
  "validate_temporal t =
     (if tmo_min_segment_request_count t = 0
      then invalid ''temporal.min_segment_request_count'' ''must be > 0''
      else if min (tmo_min_segment_request_count t * 2) usize_max > tmo_min_request_count t
      then invalid ''temporal.min_segment_request_count''
             ''min_segment_request_count * 2 must be <= temporal.min_request_count''
      else if tmo_share_shift_permille t > 1000
      then invalid ''temporal.share_shift_permille'' ''must be <= 1000''
      else if tmo_p95_shift_ratio_numerator t = 0
      then invalid ''temporal.p95_shift_ratio_numerator'' ''must be > 0''
      else if tmo_p95_shift_ratio_denominator t = 0
      then invalid ''temporal.p95_shift_ratio_denominator'' ''must be > 0''
      else if tmo_p95_shift_ratio_numerator t < tmo_p95_shift_ratio_denominator t
      then invalid ''temporal.p95_shift_ratio_numerator''
             ''must be >= temporal.p95_shift_ratio_denominator''
      else Inr ())"

definition validate_patterns :: "DownstreamOptions \<Rightarrow> AnalyzeConfigError + unit" where
  "validate_patterns d =
     (if dso_blocking_correlated_stage_patterns d = []
      then invalid ''downstream.blocking_correlated_stage_patterns'' ''must not be empty''
      else if list_ex is_blank (dso_blocking_correlated_stage_patterns d)
      then invalid ''downstream.blocking_correlated_stage_patterns''
             ''entries must be non-empty after trim''
      else Inr ())"

definition options_validate :: "AnalyzeOptions \<Rightarrow> AnalyzeConfigError + unit" where
  "options_validate self =
     (if qo_trigger_permille (ao_queueing self) > 1000
      then invalid ''queueing.trigger_permille'' ''must be <= 1000''
      else if bo_strong_nonzero_share_permille (ao_blocking self) > 1000
      then invalid ''blocking.strong_nonzero_share_permille'' ''must be <= 1000''
      else if cfo_medium_score_threshold (ao_confidence self)
              > cfo_high_score_threshold (ao_confidence self)
      then invalid ''confidence.medium_score_threshold''
             ''must be <= confidence.high_score_threshold''
      else if cfo_high_score_threshold (ao_confidence self) > 100
      then invalid ''confidence.high_score_threshold'' ''must be <= 100''
      else if cfo_ambiguity_min_score (ao_confidence self) > 100
      then invalid ''confidence.ambiguity_min_score'' ''must be <= 100''
      else if cfo_ambiguity_score_gap (ao_confidence self) > 100
      then invalid ''confidence.ambiguity_score_gap'' ''must be <= 100''
      else if dso_blocking_correlation_score_margin (ao_downstream self) > 100
      then invalid ''downstream.blocking_correlation_score_margin'' ''must be <= 100''
      else if rto_breakdown_limit (ao_route self) = 0
      then invalid ''route.breakdown_limit'' ''must be > 0''
      else (case validate_ratios (route_ratios (ao_route self)) of
              Inl e \<Rightarrow> Inl e
            | Inr _ \<Rightarrow>
                (case validate_temporal (ao_temporal self) of
                   Inl e \<Rightarrow> Inl e
                 | Inr _ \<Rightarrow> validate_patterns (ao_downstream self))))"

text \<open>
  What validation promises: the conjunction of the documented ranges, with no order between
  them.
\<close>

definition ratio_ok :: "u64 \<Rightarrow> u64 \<Rightarrow> bool" where
  "ratio_ok num den \<longleftrightarrow> 0 < den \<and> den \<le> num"

definition valid_options :: "AnalyzeOptions \<Rightarrow> bool" where
  "valid_options self \<longleftrightarrow>
     qo_trigger_permille (ao_queueing self) \<le> 1000
     \<and> bo_strong_nonzero_share_permille (ao_blocking self) \<le> 1000
     \<and> cfo_medium_score_threshold (ao_confidence self) \<le> cfo_high_score_threshold (ao_confidence self)
     \<and> cfo_high_score_threshold (ao_confidence self) \<le> 100
     \<and> cfo_ambiguity_min_score (ao_confidence self) \<le> 100
     \<and> cfo_ambiguity_score_gap (ao_confidence self) \<le> 100
     \<and> dso_blocking_correlation_score_margin (ao_downstream self) \<le> 100
     \<and> 0 < rto_breakdown_limit (ao_route self)
     \<and> ratio_ok (rto_slowest_to_fastest_p95_ratio_numerator (ao_route self))
         (rto_slowest_to_fastest_p95_ratio_denominator (ao_route self))
     \<and> ratio_ok (rto_slowest_to_global_p95_ratio_numerator (ao_route self))
         (rto_slowest_to_global_p95_ratio_denominator (ao_route self))
     \<and> 0 < tmo_min_segment_request_count (ao_temporal self)
     \<and> min (2 * tmo_min_segment_request_count (ao_temporal self)) usize_max
         \<le> tmo_min_request_count (ao_temporal self)
     \<and> tmo_share_shift_permille (ao_temporal self) \<le> 1000
     \<and> ratio_ok (tmo_p95_shift_ratio_numerator (ao_temporal self))
         (tmo_p95_shift_ratio_denominator (ao_temporal self))
     \<and> dso_blocking_correlated_stage_patterns (ao_downstream self) \<noteq> []
     \<and> list_all (\<lambda>p. \<not> is_blank p) (dso_blocking_correlated_stage_patterns (ao_downstream self))"

lemma ratio_ok_iff: "ratio_ok num den \<longleftrightarrow> num \<noteq> 0 \<and> den \<noteq> 0 \<and> \<not> num < den"
  by (auto simp: ratio_ok_def not_less word_neq_0_conv)

lemma validate_ratios_ok:
  "validate_ratios (route_ratios r) = Inr () \<longleftrightarrow>
     ratio_ok (rto_slowest_to_fastest_p95_ratio_numerator r)
       (rto_slowest_to_fastest_p95_ratio_denominator r)
     \<and> ratio_ok (rto_slowest_to_global_p95_ratio_numerator r)
         (rto_slowest_to_global_p95_ratio_denominator r)"
  by (simp add: route_ratios_def ratio_ok_iff)

lemma validate_temporal_ok:
  "validate_temporal t = Inr () \<longleftrightarrow>
     0 < tmo_min_segment_request_count t
     \<and> min (2 * tmo_min_segment_request_count t) usize_max \<le> tmo_min_request_count t
     \<and> tmo_share_shift_permille t \<le> 1000
     \<and> ratio_ok (tmo_p95_shift_ratio_numerator t) (tmo_p95_shift_ratio_denominator t)"
  unfolding validate_temporal_def ratio_ok_iff not_le [symmetric] mult.commute [of 2]
  by (simp split: if_splits del: not_le not_less)

lemma validate_patterns_ok:
  "validate_patterns d = Inr () \<longleftrightarrow>
     dso_blocking_correlated_stage_patterns d \<noteq> []
     \<and> list_all (\<lambda>p. \<not> is_blank p) (dso_blocking_correlated_stage_patterns d)"
  by (simp add: validate_patterns_def list_ex_iff list_all_iff)

lemma sum_unit_case:
  "(case x of Inl e \<Rightarrow> Inl e | Inr _ \<Rightarrow> y) = Inr () \<longleftrightarrow> x = Inr () \<and> y = Inr ()"
  by (cases x) simp_all

lemma if_Inl_eq_Inr: "(if P then Inl e else x) = Inr y \<longleftrightarrow> \<not> P \<and> x = Inr y"
  by simp

lemma options_validate_ok_iff: "options_validate o' = Inr () \<longleftrightarrow> valid_options o'"
  by (simp only: options_validate_def valid_options_def sum_unit_case validate_ratios_ok
      validate_temporal_ok validate_patterns_ok not_less if_Inl_eq_Inr neq0_conv conj_assoc)

lemma default_options_valid: "valid_options analyze_options_default"
proof -
  have "\<not> is_blank ''spawn_blocking''" "\<not> is_blank ''blocking_path''" "\<not> is_blank ''blocking''"
    by code_simp+
  then show ?thesis
    by (simp add: valid_options_def options_defaults ratio_ok_def)
qed

end
