(* ===== verification/An_Stats.thy ===== *)
theory An_Stats
  imports An_Options TT_Order
begin

text \<open>
  The measuring routines of the analyzer: percentiles (\<^verbatim>\<open>lib.rs\<close>), the exact ratio test
  (\<^verbatim>\<open>ratio.rs\<close>) and the attribution of elapsed time to a set of possibly overlapping
  intervals (\<^verbatim>\<open>attribution.rs\<close>), with their specifications: the rank of a percentile, and the
  number of covered microseconds. The debug assertion on inverted intervals is not modelled:
  the release behaviour is, and the specification holds for inverted intervals too.
\<close>

section \<open>Percentiles\<close>

definition div_ceil :: "nat \<Rightarrow> nat \<Rightarrow> nat" where
  "div_ceil a b = a div b + (if a mod b > 0 then 1 else 0)"

definition list_get :: "'a list \<Rightarrow> nat \<Rightarrow> 'a option" where
  "list_get xs i = (if i < length xs then Some (xs ! i) else None)"

definition percentile_sorted_u64 :: "u64 list \<Rightarrow> nat \<Rightarrow> nat \<Rightarrow> u64 option" where
  "percentile_sorted_u64 values numerator denominator =
     (if values = [] then None
      else if denominator = 0 then None
      else
        (let max_index = length values - 1;
             index = min (div_ceil (min (max_index * numerator) usize_max) denominator) max_index
         in list_get values index))"

definition sorted_u64 :: "u64 list \<Rightarrow> u64 list" where
  "sorted_u64 values = sort values"

definition percentile :: "u64 list \<Rightarrow> nat \<Rightarrow> nat \<Rightarrow> u64 option" where
  "percentile values numerator denominator =
     percentile_sorted_u64 (sorted_u64 values) numerator denominator"

definition percentile_index :: "nat \<Rightarrow> nat \<Rightarrow> nat \<Rightarrow> nat" where
  "percentile_index len n d = min (div_ceil (min ((len - 1) * n) usize_max) d) (len - 1)"

lemma sort_Nil_iff: "sort (xs :: 'a::linorder list) = [] \<longleftrightarrow> xs = []"
  by (metis length_0_conv length_sort)

lemma percentile_eq:
  "percentile xs n d =
     (if xs = [] \<or> d = 0 then None else Some (sort xs ! percentile_index (length xs) n d))"
proof -
  have "percentile_index (length xs) n d < length xs" if "xs \<noteq> []"
    using that by (cases xs) (auto simp: percentile_index_def)
  then show ?thesis
    by (simp add: percentile_def percentile_sorted_u64_def sorted_u64_def list_get_def Let_def
        sort_Nil_iff percentile_index_def)
qed

lemma percentile_None_iff: "percentile xs n d = None \<longleftrightarrow> xs = [] \<or> d = 0"
  by (simp add: percentile_eq)

lemma percentile_mem:
  assumes "percentile xs n d = Some v"
  shows "v \<in> set xs"
proof -
  have "xs \<noteq> []" and v: "v = sort xs ! percentile_index (length xs) n d"
    using assms by (auto simp: percentile_eq split: if_splits)
  then have "percentile_index (length xs) n d < length (sort xs)"
    by (cases xs) (auto simp: percentile_index_def)
  then have "v \<in> set (sort xs)" unfolding v by (rule nth_mem)
  then show ?thesis by simp
qed

lemma percentile_Some: "xs \<noteq> [] \<Longrightarrow> d \<noteq> 0 \<Longrightarrow> \<exists>v. percentile xs n d = Some v"
  using percentile_None_iff [of xs n d] by (cases "percentile xs n d") auto

lemma percentile_mset:
  assumes "mset xs = mset ys"
  shows "percentile xs n d = percentile ys n d"
proof -
  have "sort xs = sort ys" by (rule properties_for_sort) (simp_all add: assms)
  then show ?thesis by (simp add: percentile_def sorted_u64_def)
qed

lemma percentile_le:
  "percentile xs n d = Some v \<Longrightarrow> (\<And>x. x \<in> set xs \<Longrightarrow> x \<le> b) \<Longrightarrow> v \<le> b"
  using percentile_mem by blast

lemma sorted_count_less:
  assumes "sorted xs" "i < length xs"
  shows "length (filter (\<lambda>x. x < xs ! i) xs) \<le> i" "i < length (filter (\<lambda>x. x \<le> xs ! i) xs)"
proof -
  have "filter (\<lambda>x. x < xs ! i) (drop i xs) = []"
    using assms by (auto simp: filter_empty_conv in_set_conv_nth not_less
        intro!: sorted_nth_mono)
  then have "filter (\<lambda>x. x < xs ! i) xs = filter (\<lambda>x. x < xs ! i) (take i xs)"
    by (metis append_Nil2 append_take_drop_id filter_append)
  also have "length \<dots> \<le> i"
    by (rule order_trans [OF length_filter_le]) simp
  finally show "length (filter (\<lambda>x. x < xs ! i) xs) \<le> i" .
  have "filter (\<lambda>x. x \<le> xs ! i) (take (Suc i) xs) = take (Suc i) xs"
    using assms by (auto simp: filter_id_conv in_set_conv_nth intro!: sorted_nth_mono)
  then have "Suc i \<le> length (filter (\<lambda>x. x \<le> xs ! i) (take (Suc i) xs))" using assms by simp
  also have "\<dots> \<le> length (filter (\<lambda>x. x \<le> xs ! i) xs)"
    by (metis append_take_drop_id filter_append le_add1 length_append)
  finally show "i < length (filter (\<lambda>x. x \<le> xs ! i) xs)" by simp
qed

lemma length_filter_sort [simp]:
  "length (filter P (sort (xs :: 'a::linorder list))) = length (filter P xs)"
  by (metis filter_sort length_sort)

lemma percentile_rank_index:
  assumes "percentile xs n d = Some v" and "n \<le> d" and "(length xs - 1) * n \<le> usize_max"
  shows "length (filter (\<lambda>x. x < v) xs) \<le> div_ceil ((length xs - 1) * n) d"
    and "div_ceil ((length xs - 1) * n) d < length (filter (\<lambda>x. x \<le> v) xs)"
proof -
  have ne: "xs \<noteq> []" "d \<noteq> 0" using assms(1) percentile_None_iff [of xs n d] by auto
  let ?k = "div_ceil ((length xs - 1) * n) d"
  have "(length xs - 1) * n \<le> (length xs - 1) * d" using assms(2) by simp
  then have k: "?k \<le> length xs - 1"
  proof (cases "(length xs - 1) * n = (length xs - 1) * d")
    case True
    have "div_ceil (m * d) d = m" for m using ne(2) by (simp add: div_ceil_def)
    then show ?thesis unfolding True by simp
  next
    case False
    then have "(length xs - 1) * n < (length xs - 1) * d"
      using \<open>(length xs - 1) * n \<le> (length xs - 1) * d\<close> by simp
    then have "(length xs - 1) * n div d < length xs - 1"
      by (rule less_mult_imp_div_less)
    then show ?thesis by (simp add: div_ceil_def)
  qed
  then have "percentile_index (length xs) n d = ?k"
    using assms(3) by (simp add: percentile_index_def)
  then have i: "?k < length (sort xs)" "v = sort xs ! ?k"
    using assms(1) ne k by (auto simp: percentile_eq) (cases xs; auto)
  show "length (filter (\<lambda>x. x < v) xs) \<le> ?k" "?k < length (filter (\<lambda>x. x \<le> v) xs)"
    using sorted_count_less [of "sort xs" ?k] i by simp_all
qed

section \<open>The ratio test\<close>

text \<open>
  The products are taken in 128 bits, where products of two 64-bit values cannot wrap: they are
  \<open>128 word\<close>s here, and \<open>meets_ratio_iff\<close> reads them as naturals.
\<close>

definition meets_ratio :: "u64 \<Rightarrow> u64 \<Rightarrow> u64 \<Rightarrow> u64 \<Rightarrow> bool" where
  "meets_ratio higher lower numerator denominator \<longleftrightarrow>
     lower > 0
     \<and> (ucast higher * ucast denominator :: 128 word) \<ge> ucast lower * ucast numerator"

lemma unat_u128_mult: "unat (ucast (a :: u64) * ucast b :: 128 word) = unat a * unat (b :: u64)"
proof -
  have "unat a * unat b \<le> u64_max * u64_max"
    using unat_le_u64_max [of a] unat_le_u64_max [of b] by (rule mult_le_mono)
  then have "unat a * unat b < 2 ^ 128" by simp
  moreover have "unat (ucast a :: 128 word) = unat a" "unat (ucast b :: 128 word) = unat b"
    using unat_le_u64_max [of a] unat_le_u64_max [of b]
    by (simp_all add: unsigned_ucast_eq take_bit_nat_eq_self)
  ultimately show ?thesis by (simp add: unat_word_ariths)
qed

lemma meets_ratio_iff:
  "meets_ratio higher lower num den \<longleftrightarrow>
     0 < unat lower \<and> unat lower * unat num \<le> unat higher * unat den"
  by (simp add: meets_ratio_def word_le_nat_alt unat_u128_mult word_less_nat_alt)

section \<open>Attribution of elapsed time\<close>

record AttributionInput =
  ai_interval :: "(u64 \<times> u64) option"
  ai_duration_us :: u64

datatype AttributionMode = Precise | Approximate

record AttributedDuration =
  ad_duration_us :: u64
  ad_mode :: AttributionMode

fun merge_intervals :: "(u64 \<times> u64) list \<Rightarrow> u64 \<Rightarrow> (u64 \<times> u64) option \<Rightarrow> u64" where
  "merge_intervals [] covered None = covered"
| "merge_intervals [] covered (Some (start, fin)) = saturating_add covered (saturating_sub fin start)"
| "merge_intervals ((start, fin) # rest) covered None = merge_intervals rest covered (Some (start, fin))"
| "merge_intervals ((start, fin) # rest) covered (Some (merged_start, merged_end)) =
     (if start \<le> merged_end
      then merge_intervals rest covered (Some (merged_start, max merged_end fin))
      else merge_intervals rest
             (saturating_add covered (saturating_sub merged_end merged_start)) (Some (start, fin)))"

definition attributed_elapsed_duration :: "AttributionInput list \<Rightarrow> u64 \<Rightarrow> AttributedDuration" where
  "attributed_elapsed_duration events cap_us =
     (if events = [] then \<lparr>ad_duration_us = 0, ad_mode = Precise\<rparr>
      else if list_ex (\<lambda>e. ai_interval e = None) events then
        \<lparr>ad_duration_us =
           min (foldl (\<lambda>sum e. saturating_add sum (ai_duration_us e)) 0 events) cap_us,
         ad_mode = Approximate\<rparr>
      else
        (let intervals = sort (map (\<lambda>e. the (ai_interval e)) events);
             covered = merge_intervals intervals 0 None
         in \<lparr>ad_duration_us = min covered cap_us, ad_mode = Precise\<rparr>))"

text \<open>The microseconds an interval covers, and their union over a list of intervals.\<close>

definition micros :: "u64 \<times> u64 \<Rightarrow> nat set" where
  "micros i = {unat (fst i)..<unat (snd i)}"

definition covered_micros :: "(u64 \<times> u64) list \<Rightarrow> nat set" where
  "covered_micros is = (\<Union>i\<in>set is. micros i)"

lemma covered_micros_simps [simp]:
  "covered_micros [] = {}"
  "covered_micros (i # is) = micros i \<union> covered_micros is"
  by (simp_all add: covered_micros_def)

lemma finite_covered_micros [simp]: "finite (covered_micros is)"
  by (induction "is") (simp_all add: micros_def)

lemma covered_micros_above:
  "\<forall>i\<in>set is. a \<le> fst i \<Longrightarrow> x \<in> covered_micros is \<Longrightarrow> unat a \<le> x"
  by (induction "is") (auto simp: micros_def word_le_nat_alt)

lemma card_micros: "card (micros (a, b)) = unat (saturating_sub b a)"
  by (simp add: micros_def u64_arith)

lemma merge_intervals_card:
  assumes "sorted is" and "\<forall>i\<in>set is. ms \<le> fst i" and "covered \<le> ms"
  shows "unat (merge_intervals is covered (Some (ms, me)))
    = unat covered + card (micros (ms, me) \<union> covered_micros is)"
  using assms
proof (induction "is" covered "Some (ms, me)" arbitrary: ms me rule: merge_intervals.induct)
  case (2 covered start fin)
  have "unat covered + card (micros (start, fin)) \<le> u64_max"
    using 2 unat_le_u64_max [of start] unat_le_u64_max [of fin]
    by (simp add: card_micros u64_arith word_le_nat_alt)
  then show ?case by (simp add: u64_arith card_micros)
next
  case (4 start fin rest covered ms me)
  have sorted: "sorted rest" and above: "\<forall>i\<in>set rest. start \<le> fst i" "ms \<le> start"
    using 4(3,4) by (auto simp: less_eq_prod_def)
  show ?case
  proof (cases "start \<le> me")
    case True
    have "micros (ms, max me fin) = micros (ms, me) \<union> micros (start, fin)"
      using True above(2) by (auto simp: micros_def max_def word_le_nat_alt)
    then show ?thesis
      using 4(1) [OF True sorted _ 4(5)] above True by (fastforce simp: Un_assoc)
  next
    case False
    let ?c = "saturating_add covered (saturating_sub me ms)"
    have c: "unat ?c = unat covered + card (micros (ms, me))" "?c \<le> start"
      using False 4(5) above(2) unat_le_u64_max [of start]
      by (auto simp: card_micros u64_arith word_le_nat_alt not_le)
    have "micros (ms, me) \<inter> (micros (start, fin) \<union> covered_micros rest) = {}"
      using False covered_micros_above [OF above(1)]
      by (force simp: micros_def word_le_nat_alt not_le)
    then have "card (micros (ms, me) \<union> (micros (start, fin) \<union> covered_micros rest))
        = card (micros (ms, me)) + card (micros (start, fin) \<union> covered_micros rest)"
      by (intro card_Un_disjoint) (simp_all add: micros_def)
    then show ?thesis
      using 4(2) [OF False sorted above(1) c(2)] c(1) False by simp
  qed
qed

lemma covered_micros_set: "set is = set js \<Longrightarrow> covered_micros is = covered_micros js"
  by (simp add: covered_micros_def)

lemma merge_sorted_intervals:
  "unat (merge_intervals (sort is) 0 None) = card (covered_micros is)"
proof (cases "sort is")
  case Nil
  then have "is = []" using sort_Nil_iff by blast
  then show ?thesis by simp
next
  case (Cons i js)
  have "sorted (i # js)" by (metis Cons sorted_sort)
  then have "sorted js" "\<forall>j\<in>set js. fst i \<le> fst j" by (auto simp: less_eq_prod_def)
  then have "unat (merge_intervals js 0 (Some (fst i, snd i))) = card (micros i \<union> covered_micros js)"
    using merge_intervals_card [of js "fst i" 0 "snd i"] by simp
  moreover have "covered_micros is = covered_micros (i # js)"
    by (rule covered_micros_set) (metis Cons set_sort)
  ultimately show ?thesis by (cases i) (simp add: Cons)
qed

lemma foldl_saturating_sum:
  "unat (foldl (\<lambda>sum e. saturating_add sum (f e)) a es)
     = min (unat a + sum_list (map (\<lambda>e. unat (f e)) es)) u64_max"
  using unat_le_u64_max [of a]
  by (induction es arbitrary: a) (simp_all add: u64_arith min_def)

lemma attributed_le_cap: "ad_duration_us (attributed_elapsed_duration es cap) \<le> cap"
  by (simp add: attributed_elapsed_duration_def Let_def)

lemma attributed_approximate:
  "list_ex (\<lambda>e. ai_interval e = None) es \<Longrightarrow>
   unat (ad_duration_us (attributed_elapsed_duration es cap))
     = min (sum_list (map (\<lambda>e. unat (ai_duration_us e)) es)) (unat cap)"
  using unat_le_u64_max [of cap]
  by (auto simp: attributed_elapsed_duration_def min_def word_le_nat_alt foldl_saturating_sum
      [unfolded min_def])

lemma unat_min: "unat (min a b) = min (unat a) (unat b)"
  by (simp add: min_def word_le_nat_alt)

lemma attributed_precise:
  "\<not> list_ex (\<lambda>e. ai_interval e = None) es \<Longrightarrow>
   unat (ad_duration_us (attributed_elapsed_duration es cap))
     = min (card (covered_micros (map (\<lambda>e. the (ai_interval e)) es))) (unat cap)"
  by (simp add: attributed_elapsed_duration_def Let_def unat_min merge_sorted_intervals)

lemma attributed_mset:
  assumes "mset es = mset fs"
  shows "ad_duration_us (attributed_elapsed_duration es cap)
    = ad_duration_us (attributed_elapsed_duration fs cap)"
proof -
  have set: "set es = set fs" using assms by (metis set_mset_mset)
  then have exq: "list_ex (\<lambda>e. ai_interval e = None) fs = list_ex (\<lambda>e. ai_interval e = None) es"
    by (simp add: list_ex_iff)
  have "unat (ad_duration_us (attributed_elapsed_duration es cap))
    = unat (ad_duration_us (attributed_elapsed_duration fs cap))"
  proof (cases "list_ex (\<lambda>e. ai_interval e = None) es")
    case True
    have "mset (map (\<lambda>e. unat (ai_duration_us e)) es) = mset (map (\<lambda>e. unat (ai_duration_us e)) fs)"
      using assms by simp
    then have "sum_list (map (\<lambda>e. unat (ai_duration_us e)) es)
        = sum_list (map (\<lambda>e. unat (ai_duration_us e)) fs)"
      by (metis sum_mset_sum_list)
    then show ?thesis
      using attributed_approximate [of es cap] attributed_approximate [of fs cap] True exq by simp
  next
    case False
    have "covered_micros (map (\<lambda>e. the (ai_interval e)) es)
        = covered_micros (map (\<lambda>e. the (ai_interval e)) fs)"
      by (rule covered_micros_set) (simp add: set)
    then show ?thesis
      using attributed_precise [of es cap] attributed_precise [of fs cap] False exq by simp
  qed
  then show ?thesis by (simp only: word_unat_eq_iff)
qed

section \<open>Properties\<close>

text \<open>
  C39. Attributed time is exact. When every event carries its interval, the mode is precise and
  the time is the number of microseconds that lie in at least one of the intervals, so overlapping
  intervals are never counted twice; when some event lacks it, the mode is approximate and the
  time is the sum of the durations. Both are capped, and nothing overflows on the way.
\<close>

theorem attribution_counts_union:
  "if list_all (\<lambda>e. ai_interval e \<noteq> None) es
   then ad_mode (attributed_elapsed_duration es cap) = Precise
     \<and> unat (ad_duration_us (attributed_elapsed_duration es cap))
         = min (card {t. list_ex (\<lambda>e. case ai_interval e of Some (a, b) \<Rightarrow> unat a \<le> t \<and> t < unat b | None \<Rightarrow> False) es})
             (unat cap)
   else ad_mode (attributed_elapsed_duration es cap) = Approximate
     \<and> unat (ad_duration_us (attributed_elapsed_duration es cap))
         = min (\<Sum>e\<leftarrow>es. unat (ai_duration_us e)) (unat cap)"
proof (cases "list_all (\<lambda>e. ai_interval e \<noteq> None) es")
  case True
  then have ex: "\<not> list_ex (\<lambda>e. ai_interval e = None) es" by (simp add: list_all_iff list_ex_iff del: not_None_eq)
  have "{t. list_ex (\<lambda>e. case ai_interval e of Some (a, b) \<Rightarrow> unat a \<le> t \<and> t < unat b | None \<Rightarrow> False) es}
      = covered_micros (map (\<lambda>e. the (ai_interval e)) es)"
    using True by (induction es) (auto simp: micros_def)
  then show ?thesis
    using True ex attributed_precise [OF ex, of cap] by (simp add: attributed_elapsed_duration_def Let_def)
next
  case False
  then have ex: "list_ex (\<lambda>e. ai_interval e = None) es" by (simp add: list_all_iff list_ex_iff del: not_None_eq)
  then have "es \<noteq> []" by auto
  then show ?thesis
    using False ex attributed_approximate [OF ex, of cap] by (simp add: attributed_elapsed_duration_def)
qed

text \<open>
  A percentile is a rank statistic: it is one of the values, does not depend on their order,
  and with \<open>k\<close> the ceiling of the fraction of the largest index, at most \<open>k\<close> values are below it
  and more than \<open>k\<close> are at most it.
\<close>

theorem percentile_is_rank:
  assumes "percentile xs n d = Some v" and "n \<le> d" and "(length xs - 1) * n \<le> usize_max"
  shows "v \<in> set xs
    \<and> percentile (rev xs) n d = Some v
    \<and> length (filter (\<lambda>x. x < v) xs) \<le> div_ceil ((length xs - 1) * n) d
    \<and> div_ceil ((length xs - 1) * n) d < length (filter (\<lambda>x. x \<le> v) xs)"
  using assms percentile_mem percentile_rank_index percentile_mset [of "rev xs" xs] by auto

lemma percentile_is_rank_witness:
  "(3 :: u64) \<in> set [1, 3, 2] \<and> percentile (rev [1, 3, 2]) 95 100 = Some 3
    \<and> length (filter (\<lambda>x. x < (3 :: u64)) [1, 3, 2]) \<le> div_ceil (2 * 95) 100
    \<and> div_ceil (2 * 95) 100 < length (filter (\<lambda>x. x \<le> (3 :: u64)) [1, 3, 2])"
proof -
  have "percentile [1, 3, 2] 95 100 = Some (3 :: u64)"
    by (simp add: percentile_eq percentile_index_def div_ceil_def)
  note fact = percentile_is_rank [OF this]
  have l: "length [1, 3, 2 :: u64] - 1 = 2" by simp
  show ?thesis using fact unfolding l by linarith
qed

end
