(* ===== verification/TT_Group.thy ===== *)
theory TT_Group
  imports TT_Order
begin

text \<open>
  Grouping a list by a key into a \<^verbatim>\<open>BTreeMap\<close> of vectors, the
  \<^verbatim>\<open>entry(key).or_default().push(value)\<close> loop the analyzer uses for routes, gauges, stages
  and requests. A \<^verbatim>\<open>HashMap\<close> that is only looked up is modelled by the same association list.
\<close>

definition group_push :: "'k::linorder \<Rightarrow> 'a \<Rightarrow> ('k, 'a list) btree \<Rightarrow> ('k, 'a list) btree" where
  "group_push k x m = bt_entry k (\<lambda>g. (case g of None \<Rightarrow> [] | Some xs \<Rightarrow> xs) @ [x]) m"

definition group_into ::
    "('a \<Rightarrow> 'k::linorder) \<Rightarrow> ('a \<Rightarrow> 'b) \<Rightarrow> 'a list \<Rightarrow> ('k, 'b list) btree \<Rightarrow> ('k, 'b list) btree" where
  "group_into key val xs m = foldl (\<lambda>m x. group_push (key x) (val x) m) m xs"

abbreviation group_by :: "('a \<Rightarrow> 'k::linorder) \<Rightarrow> 'a list \<Rightarrow> ('k, 'a list) btree" where
  "group_by key xs \<equiv> group_into key id xs []"

definition group_get :: "('k, 'a list) btree \<Rightarrow> 'k \<Rightarrow> 'a list" where
  "group_get m k = (case bt_lookup m k of None \<Rightarrow> [] | Some xs \<Rightarrow> xs)"

lemma group_get_Nil [simp]: "group_get [] k = []"
  by (simp add: group_get_def)

lemma bt_wf_group_push [simp]: "bt_wf m \<Longrightarrow> bt_wf (group_push k x m)"
  by (simp add: group_push_def bt_wf_entry)

lemma lookup_group_push:
  "bt_wf m \<Longrightarrow> bt_lookup (group_push k x m) = (bt_lookup m)(k \<mapsto> group_get m k @ [x])"
  by (simp add: group_push_def bt_lookup_entry group_get_def)

lemma group_get_push [simp]:
  "bt_wf m \<Longrightarrow> group_get (group_push k x m) k' = group_get m k' @ (if k = k' then [x] else [])"
  by (auto simp: lookup_group_push group_get_def [of "group_push k x m"] group_get_def)

lemma bt_wf_group_into: "bt_wf m \<Longrightarrow> bt_wf (group_into key val xs m)"
  unfolding group_into_def by (induction xs arbitrary: m) simp_all

lemma group_get_into:
  "bt_wf m \<Longrightarrow>
   group_get (group_into key val xs m) k = group_get m k @ map val (filter (\<lambda>x. key x = k) xs)"
  unfolding group_into_def by (induction xs arbitrary: m) simp_all

lemma lookup_group_into:
  "bt_wf m \<Longrightarrow>
   bt_lookup (group_into key val xs m) k =
     (if k \<in> key ` set xs then Some (group_get m k @ map val (filter (\<lambda>x. key x = k) xs))
      else bt_lookup m k)"
proof (induction xs arbitrary: m)
  case (Cons x xs)
  have step: "group_into key val (x # xs) m = group_into key val xs (group_push (key x) (val x) m)"
    by (simp add: group_into_def)
  show ?case
    unfolding step Cons.IH [OF bt_wf_group_push [OF Cons.prems]]
    using Cons.prems by (auto simp: lookup_group_push image_iff filter_empty_conv)
qed (simp add: group_into_def)

lemma group_get_by: "group_get (group_into key val xs []) k = map val (filter (\<lambda>x. key x = k) xs)"
  by (simp add: group_get_into)

lemma lookup_group_by:
  "bt_lookup (group_into key val xs []) k =
     (if k \<in> key ` set xs then Some (map val (filter (\<lambda>x. key x = k) xs)) else None)"
  by (simp add: lookup_group_into)

lemma bt_wf_map_of: "bt_wf m \<Longrightarrow> (k, v) \<in> set m \<longleftrightarrow> bt_lookup m k = Some v"
  by (simp add: bt_lookup_def bt_wf_distinct)

text \<open>The entries of a grouping: one for every key that occurs, with its elements in order.\<close>

lemma group_by_entry_iff:
  "(k, g) \<in> set (group_into key val xs []) \<longleftrightarrow>
     k \<in> key ` set xs \<and> g = map val (filter (\<lambda>x. key x = k) xs)"
  by (auto simp: bt_wf_map_of bt_wf_group_into lookup_group_by)

lemma group_by_keys: "fst ` set (group_into key val xs []) = key ` set xs"
proof (intro set_eqI)
  fix k
  have "k \<in> fst ` set (group_into key val xs []) \<longleftrightarrow> (\<exists>g. (k, g) \<in> set (group_into key val xs []))"
    by force
  then show "k \<in> fst ` set (group_into key val xs []) \<longleftrightarrow> k \<in> key ` set xs"
    by (simp add: group_by_entry_iff)
qed

lemma group_by_nonempty: "(k, g) \<in> set (group_into key val xs []) \<Longrightarrow> g \<noteq> []"
  by (auto simp: group_by_entry_iff filter_empty_conv)

lemma group_by_sorted: "sorted_wrt (<) (map fst (group_into key val xs []))"
  using bt_wf_group_into [of "[]" key val xs] by (simp add: bt_wf_def)

lemma group_by_distinct: "distinct (map fst (group_into key val xs []))"
  by (simp add: bt_wf_distinct bt_wf_group_into)

lemma group_by_length: "length (group_into key val xs []) = card (key ` set xs)"
  using distinct_card [OF group_by_distinct [of key val xs]] group_by_keys [of key val xs]
  by simp

end
