(* ===== verification/An_Signals.thy ===== *)
theory An_Signals
  imports An_Stats TT_Group Core_Model "HOL-Library.Signed_Division"
begin

text \<open>
  The signals \<^verbatim>\<open>lib.rs\<close> extracts from a run before scoring: the queue and service shares
  of every request, the series of a runtime metric, and the dominant in-flight gauge with the
  trend of its latest activity episode. The comparison of in-flight candidates is shown to be a
  lawful comparator, so that the selection by \<^verbatim>\<open>max_by\<close> is the maximum.
\<close>

section \<open>Request time shares\<close>

record RequestTimeShares =
  shares_queue :: "u64 list"
  shares_service :: "u64 list"
  shares_completed_queue :: "u64 list"
  shares_completed_service :: "u64 list"
  shares_observed_queue :: "u64 list"

definition queue_attribution_input :: "QueueEvent \<Rightarrow> AttributionInput" where
  "queue_attribution_input queue =
     \<lparr>ai_interval = opt_zip (que_waited_from_run_us queue) (que_waited_until_run_us queue),
      ai_duration_us = que_wait_us queue\<rparr>"

definition share_permille :: "u64 \<Rightarrow> u64 \<Rightarrow> u64" where
  "share_permille part latency = min (saturating_mul part 1000 div latency) 1000"

definition attributed_wait :: "(string, AttributionInput list) btree \<Rightarrow> RequestEvent \<Rightarrow> u64" where
  "attributed_wait inputs_by_request request =
     min (ad_duration_us (attributed_elapsed_duration
            (group_get inputs_by_request (req_request_id request)) (req_latency_us request)))
       (req_latency_us request)"

definition request_time_shares :: "Run \<Rightarrow> RequestTimeShares" where
  "request_time_shares run =
     (let observed_inputs = group_into que_request_id queue_attribution_input (run_queues run) [];
          completed_inputs = group_into que_request_id queue_attribution_input
                               (filter que_completed (run_queues run)) [];
          requests = filter (\<lambda>r. req_latency_us r \<noteq> 0) (run_requests run);
          completed_queue = map (\<lambda>r. share_permille (attributed_wait completed_inputs r)
                                       (req_latency_us r)) requests;
          observed_queue = map (\<lambda>r. share_permille (attributed_wait observed_inputs r)
                                      (req_latency_us r)) requests;
          completed_service =
            map (\<lambda>r. share_permille
                   (saturating_sub (req_latency_us r) (attributed_wait completed_inputs r))
                   (req_latency_us r)) requests
      in \<lparr>shares_queue = completed_queue, shares_service = completed_service,
          shares_completed_queue = completed_queue, shares_completed_service = completed_service,
          shares_observed_queue = observed_queue\<rparr>)"

definition runtime_metric_series ::
    "(RuntimeSnapshot \<Rightarrow> u64 option) \<Rightarrow> RuntimeSnapshot list \<Rightarrow> u64 list" where
  "runtime_metric_series selector snapshots = List.map_filter selector snapshots"

lemma share_permille_le: "share_permille part latency \<le> 1000"
  by (simp add: share_permille_def)

lemma share_permille_unat:
  assumes "part \<le> latency" "0 < latency" "unat latency * 1000 \<le> u64_max"
  shows "unat (share_permille part latency) = unat part * 1000 div unat latency"
proof -
  have le: "unat part \<le> unat latency" "0 < unat latency"
    using assms(1,2) by (simp_all add: word_le_nat_alt word_less_nat_alt)
  then have "unat part * 1000 \<le> u64_max" using assms(3) by linarith
  then have "unat (saturating_mul part 1000) = unat part * 1000" by (simp add: u64_arith)
  moreover have "unat part * 1000 div unat latency \<le> 1000"
    using le by (metis div_le_mono div_mult_self1_is_m mult.commute mult_le_mono2)
  ultimately show ?thesis
    by (simp add: share_permille_def unat_min unat_div)
qed

lemma attributed_wait_le: "attributed_wait m r \<le> req_latency_us r"
  by (simp add: attributed_wait_def)

lemma shares_le:
  "x \<in> set (shares_completed_queue (request_time_shares run)) \<Longrightarrow> x \<le> 1000"
  "x \<in> set (shares_observed_queue (request_time_shares run)) \<Longrightarrow> x \<le> 1000"
  "x \<in> set (shares_completed_service (request_time_shares run)) \<Longrightarrow> x \<le> 1000"
  by (auto simp: request_time_shares_def Let_def share_permille_le)

lemma shares_length:
  "length (shares_completed_queue (request_time_shares run)) = length (filter (\<lambda>r. req_latency_us r \<noteq> 0) (run_requests run))"
  "length (shares_observed_queue (request_time_shares run)) = length (filter (\<lambda>r. req_latency_us r \<noteq> 0) (run_requests run))"
  by (simp_all add: request_time_shares_def Let_def)

section \<open>In-flight trends\<close>

text \<open>\<^verbatim>\<open>i64\<close> values are integers within the bounds below; conversions saturate as the code does.\<close>

abbreviation i64_max :: int where
  "i64_max \<equiv> 9223372036854775807"

abbreviation i64_min :: int where
  "i64_min \<equiv> - 9223372036854775808"

record InflightTrend =
  it_gauge :: string
  it_sample_count :: nat
  it_peak_count :: u64
  it_p95_count :: u64
  it_growth_delta :: "int option"
  it_growth_per_sec_milli :: "int option"

datatype InflightOrdering = RunRelative | UnixFallback

record InflightCandidate =
  ic_trend :: InflightTrend
  ic_active :: bool
  ic_ordering :: InflightOrdering

definition known_positive_growth :: "InflightCandidate \<Rightarrow> bool" where
  "known_positive_growth self =
     (case it_growth_delta (ic_trend self) of None \<Rightarrow> False | Some delta \<Rightarrow> delta > 0)"

definition signed_u64_delta :: "u64 \<Rightarrow> u64 \<Rightarrow> int" where
  "signed_u64_delta start fin =
     (if fin \<ge> start then min (uint (fin - start)) i64_max
      else - min (uint (start - fin)) i64_max)"

definition max_or_zero :: "u64 list \<Rightarrow> u64" where
  "max_or_zero values = (case values of [] \<Rightarrow> 0 | v # vs \<Rightarrow> foldl max v vs)"

type_synonym indexed_sample = "nat \<times> InFlightSnapshot"

fun latest_episode :: "indexed_sample list \<Rightarrow> indexed_sample list \<Rightarrow> bool \<Rightarrow> indexed_sample list" where
  "latest_episode [] latest active = latest"
| "latest_episode (sample # rest) latest active =
     (if inf_count (snd sample) > 0
      then latest_episode rest ((if active then latest else []) @ [sample]) True
      else if active then latest_episode rest (latest @ [sample]) False
      else latest_episode rest latest False)"

fun windows_le :: "u64 list \<Rightarrow> bool" where
  "windows_le (a # b # rest) \<longleftrightarrow> a \<le> b \<and> windows_le (b # rest)"
| "windows_le _ \<longleftrightarrow> True"

definition growth_rate :: "int option \<Rightarrow> u64 list \<Rightarrow> int option" where
  "growth_rate growth_delta run_us =
     (if run_us = [] then None
      else (case checked_sub (last run_us) (hd run_us) of
              None \<Rightarrow> None
            | Some elapsed \<Rightarrow>
                if elapsed = 0 \<or> \<not> windows_le run_us then None
                else (case growth_delta of
                        None \<Rightarrow> None
                      | Some delta \<Rightarrow>
                          let rate = (delta * 1000000000) sdiv uint elapsed
                          in Some (min (max rate i64_min) i64_max))))"

definition sort_samples :: "indexed_sample list \<Rightarrow> indexed_sample list \<times> InflightOrdering" where
  "sort_samples samples =
     (if list_all (\<lambda>s. inf_at_run_us (snd s) \<noteq> None) samples
      then (sort_by (\<lambda>a b. cmp (unwrap_or (inf_at_run_us (snd a)) 0, fst a)
                             (unwrap_or (inf_at_run_us (snd b)) 0, fst b)) samples, RunRelative)
      else (sort_by (\<lambda>a b. cmp (inf_at_unix_ms (snd a), fst a) (inf_at_unix_ms (snd b), fst b)) samples,
            UnixFallback))"

definition inflight_trend_for_gauge ::
    "string \<Rightarrow> indexed_sample list \<Rightarrow> InflightCandidate option" where
  "inflight_trend_for_gauge gauge samples =
     (if samples = [] then None
      else
        (let (samples, ordering) = sort_samples samples;
             latest = latest_episode samples [] False
         in if latest = [] then None
            else
              (let counts = map (\<lambda>s. inf_count (snd s)) latest;
                   first = snd (hd latest);
                   final = snd (last latest);
                   growth_delta = (if length latest \<ge> 2
                     then Some (signed_u64_delta (inf_count first) (inf_count final)) else None);
                   growth_per_sec_milli =
                     (if length latest \<ge> 2 \<and> ordering = RunRelative
                      then growth_rate growth_delta
                             (map (\<lambda>s. unwrap_or (inf_at_run_us (snd s)) 0) latest)
                      else None)
               in Some \<lparr>ic_trend =
                          \<lparr>it_gauge = gauge, it_sample_count = length counts,
                           it_peak_count = max_or_zero counts,
                           it_p95_count = unwrap_or (percentile counts 95 100) 0,
                           it_growth_delta = growth_delta,
                           it_growth_per_sec_milli = growth_per_sec_milli\<rparr>,
                        ic_active = (inf_count final > 0), ic_ordering = ordering\<rparr>)))"

definition positive_rate :: "int option \<Rightarrow> int option" where
  "positive_rate r = (case r of Some rate \<Rightarrow> if rate > 0 then Some rate else None | None \<Rightarrow> None)"

definition compare_inflight_candidates :: "InflightCandidate \<Rightarrow> InflightCandidate \<Rightarrow> ordering" where
  "compare_inflight_candidates left right =
     (let left_positive = known_positive_growth left;
          right_positive = known_positive_growth right;
          l = ic_trend left; r = ic_trend right
      in then_with (cmp (ic_active left) (ic_active right))
        (then_with (cmp left_positive right_positive)
        (then_with (if left_positive \<and> right_positive
                    then cmp (it_growth_delta l) (it_growth_delta r) else OEqual)
        (then_with (if left_positive \<and> right_positive \<and> it_growth_delta l = it_growth_delta r
                    then cmp (positive_rate (it_growth_per_sec_milli l))
                             (positive_rate (it_growth_per_sec_milli r)) else OEqual)
        (then_with (cmp (it_p95_count l) (it_p95_count r))
        (then_with (cmp (it_peak_count l) (it_peak_count r))
                   (ord_reverse (cmp (it_gauge l) (it_gauge r)))))))))"

definition dominant_inflight_candidate :: "InFlightSnapshot list \<Rightarrow> InflightCandidate option" where
  "dominant_inflight_candidate snapshots =
     (let by_gauge = group_into (\<lambda>s. inf_gauge (snd s)) id (enumerate 0 snapshots) []
      in max_by compare_inflight_candidates
           (List.map_filter (\<lambda>(gauge, samples). inflight_trend_for_gauge gauge samples) by_gauge))"

section \<open>The latest episode\<close>

text \<open>
  The loop keeps the last maximal run of samples with a positive count, together with the zero
  sample that ends it when there is one.
\<close>

definition is_episode :: "indexed_sample list \<Rightarrow> bool" where
  "is_episode xs \<longleftrightarrow> xs \<noteq> [] \<and> list_all (\<lambda>s. inf_count (snd s) > 0) (butlast xs)
     \<and> inf_count (snd (hd xs)) > 0"

definition quiet :: "indexed_sample list \<Rightarrow> bool" where
  "quiet xs \<longleftrightarrow> list_all (\<lambda>s. inf_count (snd s) = 0) xs"

definition last_episode_of :: "indexed_sample list \<Rightarrow> indexed_sample list \<Rightarrow> bool" where
  "last_episode_of samples e \<longleftrightarrow> is_episode e \<and>
     (\<exists>pre post. samples = pre @ e @ post \<and> quiet post
        \<and> (pre = [] \<or> inf_count (snd (last pre)) = 0))"

lemma last_episode_of_prefix:
  "last_episode_of samples e \<Longrightarrow> inf_count (snd (last xs)) = 0 \<Longrightarrow> last_episode_of (xs @ samples) e"
  unfolding last_episode_of_def by (metis append_assoc append_Nil2 last_appendR)

lemma last_episode_of_self: "is_episode e \<Longrightarrow> quiet post \<Longrightarrow> last_episode_of (e @ post) e"
  unfolding last_episode_of_def by (metis append_Nil)

lemma is_episode_positive: "xs \<noteq> [] \<Longrightarrow> list_all (\<lambda>s. inf_count (snd s) > 0) xs \<Longrightarrow> is_episode xs"
  by (auto simp: is_episode_def list_all_iff dest: in_set_butlastD)

lemma latest_episode_split:
  assumes "active \<Longrightarrow> latest \<noteq> [] \<and> list_all (\<lambda>s. inf_count (snd s) > 0) latest"
  shows "(\<not> active \<and> latest_episode rest latest active = latest \<and> quiet rest)
    \<or> last_episode_of ((if active then latest else []) @ rest) (latest_episode rest latest active)"
  using assms
proof (induction rest latest active rule: latest_episode.induct)
  case (1 latest active)
  show ?case
  proof (cases active)
    case True
    then have "last_episode_of (latest @ []) latest"
      using 1 by (intro last_episode_of_self is_episode_positive) (simp_all add: quiet_def)
    then show ?thesis using True by simp
  qed (simp add: quiet_def)
next
  case (2 sample rest latest active)
  consider (pos) "inf_count (snd sample) > 0" | (ends) "inf_count (snd sample) = 0" "active"
    | (idle) "inf_count (snd sample) = 0" "\<not> active"
    by (metis word_gt_0)
  then show ?case
  proof cases
    case pos
    then show ?thesis using "2.IH"(1) "2.prems" by (auto split: if_splits)
  next
    case ends
    have ep: "is_episode (latest @ [sample])"
      using "2.prems" ends(2) by (cases latest) (auto simp: is_episode_def)
    from "2.IH"(2) ends have "(latest_episode rest (latest @ [sample]) False = latest @ [sample] \<and> quiet rest)
        \<or> last_episode_of rest (latest_episode rest (latest @ [sample]) False)" by simp
    then show ?thesis
    proof
      assume "latest_episode rest (latest @ [sample]) False = latest @ [sample] \<and> quiet rest"
      then have "last_episode_of ((latest @ [sample]) @ rest) (latest @ [sample])"
        using ep last_episode_of_self by blast
      then show ?thesis
        using ends \<open>_ \<and> quiet rest\<close> by simp
    next
      assume "last_episode_of rest (latest_episode rest (latest @ [sample]) False)"
      then have "last_episode_of ((latest @ [sample]) @ rest)
          (latest_episode rest (latest @ [sample]) False)"
        using last_episode_of_prefix ends(1) by (metis last_snoc)
      then show ?thesis using ends by simp
    qed
  next
    case idle
    then show ?thesis
      using "2.IH"(3) last_episode_of_prefix [of rest _ "[sample]"] by (auto simp: quiet_def)
  qed
qed

lemma latest_episode_spec:
  "if latest_episode samples [] False = [] then quiet samples
   else last_episode_of samples (latest_episode samples [] False)"
  using latest_episode_split [of False "[]" samples]
  by (auto simp: last_episode_of_def is_episode_def)

lemma latest_episode_empty_iff: "latest_episode samples [] False = [] \<longleftrightarrow> quiet samples"
proof
  assume q: "quiet samples"
  have "latest_episode samples latest False = latest" for latest
    using q by (induction samples) (auto simp: quiet_def)
  then show "latest_episode samples [] False = []" .
qed (use latest_episode_spec [of samples] in \<open>simp split: if_splits\<close>)

lemma max_or_zero_max: "max_or_zero xs = (if xs = [] then 0 else Max (set xs))"
proof -
  have "foldl max v vs = Max (set (v # vs))" for v and vs :: "u64 list"
  proof (induction vs arbitrary: v)
    case (Cons a vs)
    then show ?case by (cases vs) (simp_all add: max.assoc max.commute max.left_commute)
  qed simp
  then show ?thesis by (cases xs) (simp_all add: max_or_zero_def)
qed

section \<open>Comparing candidates\<close>

text \<open>
  The conditional comparisons amount to comparing keys: growth and rate count only for a
  candidate that is known to grow.
\<close>

definition growth_key :: "InflightCandidate \<Rightarrow> int option" where
  "growth_key c = (if known_positive_growth c then it_growth_delta (ic_trend c) else None)"

definition rate_key :: "InflightCandidate \<Rightarrow> int option" where
  "rate_key c = (if known_positive_growth c
     then positive_rate (it_growth_per_sec_milli (ic_trend c)) else None)"

lemma then_with_cong: "(o1 = OEqual \<Longrightarrow> o2 = o2') \<Longrightarrow> then_with o1 o2 = then_with o1 o2'"
  by (cases o1) simp_all

lemma cmp_same [simp]: "cmp x x = OEqual"
  by simp

lemma then_if_equal:
  "then_with (cmp g g') (then_with (if g = g' then x else OEqual) y) = then_with (cmp g g') (then_with x y)"
  by (cases "cmp g g'") (auto simp: cmp_def split: if_splits)

lemma compare_inflight_keys:
  "compare_inflight_candidates l r =
     then_with (cmp (ic_active l) (ic_active r))
       (then_with (cmp (known_positive_growth l) (known_positive_growth r))
       (then_with (cmp (growth_key l) (growth_key r))
       (then_with (cmp (rate_key l) (rate_key r))
       (then_with (cmp (it_p95_count (ic_trend l)) (it_p95_count (ic_trend r)))
       (then_with (cmp (it_peak_count (ic_trend l)) (it_peak_count (ic_trend r)))
                  (ord_reverse (cmp (it_gauge (ic_trend l)) (it_gauge (ic_trend r)))))))))"
  by (cases "known_positive_growth l"; cases "known_positive_growth r")
    (simp_all add: compare_inflight_candidates_def Let_def growth_key_def rate_key_def
      then_if_equal cmp_def [of True False] cmp_def [of False True])

interpretation inflight_cmp: total_cmp compare_inflight_candidates
proof -
  have "total_cmp (\<lambda>l r. then_with (cmp (ic_active l) (ic_active r))
       (then_with (cmp (known_positive_growth l) (known_positive_growth r))
       (then_with (cmp (growth_key l) (growth_key r))
       (then_with (cmp (rate_key l) (rate_key r))
       (then_with (cmp (it_p95_count (ic_trend l)) (it_p95_count (ic_trend r)))
       (then_with (cmp (it_peak_count (ic_trend l)) (it_peak_count (ic_trend r)))
                  (ord_reverse (cmp (it_gauge (ic_trend l)) (it_gauge (ic_trend r))))))))))"
    by (intro total_cmp_intros)
  then show "total_cmp compare_inflight_candidates"
    by (simp only: compare_inflight_keys [abs_def])
qed

lemma trend_for_gauge_gauge:
  "inflight_trend_for_gauge g samples = Some c \<Longrightarrow> it_gauge (ic_trend c) = g"
  by (auto simp: inflight_trend_for_gauge_def Let_def split: if_splits prod.splits)

lemma set_sort_samples: "set (fst (sort_samples samples)) = set samples"
  by (simp add: sort_samples_def)

lemma quiet_sort_samples: "quiet (fst (sort_samples samples)) \<longleftrightarrow> quiet samples"
  by (simp add: quiet_def list_all_iff set_sort_samples)

lemma quiet_Nil [simp]: "quiet []"
  by (simp add: quiet_def)

lemma trend_None_iff: "inflight_trend_for_gauge g samples = None \<longleftrightarrow> quiet samples"
  using latest_episode_empty_iff [of "fst (sort_samples samples)"]
  by (auto simp: inflight_trend_for_gauge_def Let_def quiet_sort_samples split: prod.splits)

section \<open>Properties\<close>

text \<open>
  The queue and service shares of a request are complementary: in permille they add up to
  1000, or to 999 by rounding, for every request whose latency is not so large that the
  multiplication saturates.
\<close>

theorem queue_and_service_shares_complement:
  "if list_all (\<lambda>r. unat (req_latency_us r) * 1000 \<le> u64_max) (run_requests run)
   then list_all2 (\<lambda>q s. 999 \<le> unat q + unat s \<and> unat q + unat s \<le> 1000)
          (shares_completed_queue (request_time_shares run))
          (shares_completed_service (request_time_shares run))
   else True"
proof (cases "list_all (\<lambda>r. unat (req_latency_us r) * 1000 \<le> u64_max) (run_requests run)")
  case True
  have one: "999 \<le> unat (share_permille (attributed_wait m r) (req_latency_us r))
      + unat (share_permille (saturating_sub (req_latency_us r) (attributed_wait m r)) (req_latency_us r))
    \<and> unat (share_permille (attributed_wait m r) (req_latency_us r))
      + unat (share_permille (saturating_sub (req_latency_us r) (attributed_wait m r)) (req_latency_us r))
      \<le> 1000" if "r \<in> set (run_requests run)" "req_latency_us r \<noteq> 0" for m r
  proof -
    let ?l = "req_latency_us r" and ?w = "attributed_wait m r"
    have l: "0 < ?l" "unat ?l * 1000 \<le> u64_max"
      using that True by (simp_all add: word_gt_0 list_all_iff)
    have w: "?w \<le> ?l" by (rule attributed_wait_le)
    have sub: "saturating_sub ?l ?w \<le> ?l" "unat (saturating_sub ?l ?w) = unat ?l - unat ?w"
      by (simp_all add: word_le_nat_alt u64_arith)
    have split: "unat ?w * 1000 + (unat ?l - unat ?w) * 1000 = 1000 * unat ?l"
      using w by (simp add: word_le_nat_alt diff_mult_distrib)
    have pos: "0 < unat ?l" using l(1) by (simp add: word_less_nat_alt)
    have "a div d + b div d \<le> 1000 \<and> 999 \<le> a div d + b div d"
      if ab: "a + b = 1000 * d" "0 < d" for a b d :: nat
    proof -
      have "(a + b) div d = 1000" using ab by simp
      moreover have "(a + b) div d = a div d + b div d + (a mod d + b mod d) div d"
        by (rule div_add1_eq)
      moreover have "a mod d + b mod d < 2 * d"
        using mod_less_divisor [OF ab(2), of a] mod_less_divisor [OF ab(2), of b] by linarith
      then have "(a mod d + b mod d) div d < 2" by (rule less_mult_imp_div_less)
      ultimately show ?thesis by linarith
    qed
    from this [OF split pos] show ?thesis
      using share_permille_unat [OF w l] share_permille_unat [OF sub(1) l] sub(2) by simp
  qed
  then show ?thesis
    using True by (auto simp: request_time_shares_def Let_def list_all2_conv_all_nth
        dest!: nth_mem intro: one)
qed simp

text \<open>
  The dominant in-flight gauge is the unique maximum: there is none exactly when no snapshot
  has a positive count; otherwise it is the trend of one gauge, and the trend of every gauge is
  either that one or strictly below it in the comparison of the code.
\<close>

theorem dominant_gauge_is_maximum:
  "let gauges = group_into (\<lambda>s. inf_gauge (snd s)) id (enumerate 0 snapshots) []
   in case dominant_inflight_candidate snapshots of
        None \<Rightarrow> list_all (\<lambda>s. inf_count s = 0) snapshots
      | Some c \<Rightarrow>
          inflight_trend_for_gauge (it_gauge (ic_trend c)) (group_get gauges (it_gauge (ic_trend c)))
            = Some c
          \<and> list_all (\<lambda>(g, samples). case inflight_trend_for_gauge g samples of
                None \<Rightarrow> True
              | Some d \<Rightarrow> d = c \<or> compare_inflight_candidates d c = OLess) gauges"
proof -
  let ?gs = "group_into (\<lambda>s. inf_gauge (snd s)) id (enumerate 0 snapshots) []"
  let ?cs = "List.map_filter (\<lambda>(gauge, samples). inflight_trend_for_gauge gauge samples) ?gs"
  have cand: "d \<in> set ?cs \<longleftrightarrow> (\<exists>g samples. (g, samples) \<in> set ?gs
      \<and> inflight_trend_for_gauge g samples = Some d)" for d
    by (force simp: List.map_filter_def)
  have get: "group_get ?gs g = samples" if "(g, samples) \<in> set ?gs" for g samples
    using that by (auto simp: group_by_entry_iff group_get_by)
  show ?thesis
  proof (cases "dominant_inflight_candidate snapshots")
    case None
    then have "?cs = []" by (simp add: dominant_inflight_candidate_def)
    then have quiet: "quiet samples" if "(g, samples) \<in> set ?gs" for g samples
      using that cand trend_None_iff [of g samples]
      by (cases "inflight_trend_for_gauge g samples") auto
    have "inf_count s = 0" if s: "s \<in> set snapshots" for s
    proof -
      obtain i where i: "(i, s) \<in> set (enumerate 0 snapshots)"
        using s by (metis add.left_neutral in_set_conv_nth in_set_enumerate_eq fst_conv snd_conv
            le0 nth_enumerate_eq length_enumerate nth_mem)
      let ?g = "filter (\<lambda>x. inf_gauge (snd x) = inf_gauge s) (enumerate 0 snapshots)"
      have "(inf_gauge s, map id ?g) \<in> set ?gs" using i by (force simp: group_by_entry_iff)
      from quiet [OF this] show ?thesis using i by (force simp: quiet_def list_all_iff)
    qed
    then show ?thesis using None by (simp add: list_all_iff)
  next
    case (Some c)
    then have m: "max_by compare_inflight_candidates ?cs = Some c"
      by (simp add: dominant_inflight_candidate_def)
    obtain g samples where c: "(g, samples) \<in> set ?gs" "inflight_trend_for_gauge g samples = Some c"
      using inflight_cmp.max_by_Some(1) [OF m] cand by blast
    have "d = c \<or> compare_inflight_candidates d c = OLess"
      if d: "(g', s') \<in> set ?gs" "inflight_trend_for_gauge g' s' = Some d" for g' s' d
    proof (cases "compare_inflight_candidates d c")
      case OEqual
      then have "it_gauge (ic_trend d) = it_gauge (ic_trend c)"
        by (simp add: compare_inflight_keys)
      then have "g' = g" using trend_for_gauge_gauge c(2) d(2) by metis
      then show ?thesis using c d get by (metis option.inject)
    next
      case OGreater
      then show ?thesis using inflight_cmp.max_by_Some(2) [OF m] cand d by blast
    qed simp
    then show ?thesis
      using Some c get trend_for_gauge_gauge [OF c(2)]
      by (auto simp: list_all_iff split: option.splits)
  qed
qed

end
