(* ===== verification/An_Evidence.thy ===== *)
theory An_Evidence
  imports An_Options Core_Model
begin

text \<open>
  The coverage of the retained evidence: \<^verbatim>\<open>partial_evidence.rs\<close> (completed and partial
  queue and stage events) and \<^verbatim>\<open>evidence.rs\<close> (status of every signal family, the overall
  quality level, the limitations and the truncation warnings).
\<close>

section \<open>Partial evidence (\<^verbatim>\<open>partial_evidence.rs\<close>)\<close>

definition PARTIAL_WARNING :: string where
  "PARTIAL_WARNING =
     ''Partial queue/stage observations are lower bounds; completed-duration percentiles exclude them.''"

definition PARTIAL_QUEUE_CONFIDENCE_NOTE :: string where
  "PARTIAL_QUEUE_CONFIDENCE_NOTE =
     ''Partial queue evidence materially contributes to this suspect; confidence cannot exceed medium because partial durations are lower bounds.''"

definition PARTIAL_STAGE_CONFIDENCE_NOTE :: string where
  "PARTIAL_STAGE_CONFIDENCE_NOTE =
     ''Partial stage evidence materially contributes to this suspect; confidence cannot exceed medium because partial durations are lower bounds.''"

record CompletionCounts =
  cc_completed :: nat
  cc_partial :: nat

definition cc_total :: "CompletionCounts \<Rightarrow> nat" where
  "cc_total self = cc_completed self + cc_partial self"

definition cc_has_partial :: "CompletionCounts \<Rightarrow> bool" where
  "cc_has_partial self \<longleftrightarrow> cc_partial self > 0"

record PartialEvidenceProfile =
  pe_queues :: CompletionCounts
  pe_stages :: CompletionCounts

definition profile_from_run :: "Run \<Rightarrow> PartialEvidenceProfile" where
  "profile_from_run run =
     (let queues = \<lparr>cc_completed = length (filter que_completed (run_queues run)),
                    cc_partial = length (filter (\<lambda>q. \<not> que_completed q) (run_queues run))\<rparr>;
          stages = \<lparr>cc_completed = length (filter stg_completed (run_stages run)),
                    cc_partial = length (filter (\<lambda>s. \<not> stg_completed s) (run_stages run))\<rparr>
      in \<lparr>pe_queues = queues, pe_stages = stages\<rparr>)"

definition profile_has_partial :: "PartialEvidenceProfile \<Rightarrow> bool" where
  "profile_has_partial self \<longleftrightarrow> cc_has_partial (pe_queues self) \<or> cc_has_partial (pe_stages self)"

definition profile_limitation :: "PartialEvidenceProfile \<Rightarrow> string option" where
  "profile_limitation self =
     (if profile_has_partial self
      then Some (''Partial evidence captured: queues '' @ show_nat (cc_completed (pe_queues self))
             @ '' completed/'' @ show_nat (cc_partial (pe_queues self)) @ '' partial; stages ''
             @ show_nat (cc_completed (pe_stages self)) @ '' completed/''
             @ show_nat (cc_partial (pe_stages self))
             @ '' partial. Partial durations are observed lower bounds.'')
      else None)"

datatype EvidenceBasis = Completed | ObservedLowerBound

section \<open>Evidence quality (\<^verbatim>\<open>evidence.rs\<close>)\<close>

datatype EvidenceQualityLevel = EqStrong | EqPartial | EqWeak

datatype SignalCoverageStatus = ScPresent | ScMissing | ScPartial | ScTruncated

record EvidenceQuality =
  eq_request_count :: nat
  eq_queue_event_count :: nat
  eq_stage_event_count :: nat
  eq_runtime_snapshot_count :: nat
  eq_inflight_snapshot_count :: nat
  eq_requests :: SignalCoverageStatus
  eq_queues :: SignalCoverageStatus
  eq_stages :: SignalCoverageStatus
  eq_runtime_snapshots :: SignalCoverageStatus
  eq_inflight_snapshots :: SignalCoverageStatus
  eq_truncated :: bool
  eq_dropped_requests :: u64
  eq_dropped_stages :: u64
  eq_dropped_queues :: u64
  eq_dropped_inflight_snapshots :: u64
  eq_dropped_runtime_snapshots :: u64
  eq_quality :: EvidenceQualityLevel
  eq_limitations :: "string list"

definition low_requests :: "Run \<Rightarrow> AnalyzeOptions \<Rightarrow> bool" where
  "low_requests run options \<longleftrightarrow>
     length (run_requests run) < evo_low_completed_request_threshold (ao_evidence options)"

definition request_status :: "Run \<Rightarrow> AnalyzeOptions \<Rightarrow> SignalCoverageStatus" where
  "request_status run options =
     (if run_requests run = [] then ScMissing
      else if tr_dropped_requests (run_truncation run) > 0 then ScTruncated
      else if low_requests run options then ScPartial
      else ScPresent)"

definition family_status :: "nat \<Rightarrow> nat \<Rightarrow> u64 \<Rightarrow> SignalCoverageStatus" where
  "family_status events partial dropped =
     (if dropped > 0 then ScTruncated
      else if events = 0 then ScMissing
      else if partial > 0 then ScPartial
      else ScPresent)"

definition runtime_status :: "Run \<Rightarrow> SignalCoverageStatus" where
  "runtime_status run =
     (if tr_dropped_runtime_snapshots (run_truncation run) > 0 then ScTruncated
      else if run_runtime_snapshots run = [] then ScMissing
      else if all_none rts_blocking_queue_depth (run_runtime_snapshots run)
              \<or> all_none rts_local_queue_depth (run_runtime_snapshots run)
              \<or> all_none rts_global_queue_depth (run_runtime_snapshots run)
      then ScPartial
      else ScPresent)"

definition unavailable :: "SignalCoverageStatus \<Rightarrow> bool" where
  "unavailable s \<longleftrightarrow> s = ScMissing \<or> s = ScTruncated"

definition evidence_limitations :: "Run \<Rightarrow> SignalCoverageStatus \<Rightarrow> SignalCoverageStatus
    \<Rightarrow> SignalCoverageStatus \<Rightarrow> AnalyzeOptions \<Rightarrow> string list" where
  "evidence_limitations run queues stages runtime_snapshots options =
     stable_dedup
       ((case profile_limitation (profile_from_run run) of Some l \<Rightarrow> [l] | None \<Rightarrow> [])
        @ (if low_requests run options
           then [''Low completed-request count can make suspect ranking unstable.''] else [])
        @ (if unavailable queues \<and> unavailable stages
           then [''Queue and stage instrumentation are both unavailable, limiting application vs downstream interpretation.'']
           else [])
        @ (if run_runtime_snapshots run = []
           then [''Runtime snapshots are missing, limiting executor and blocking-pressure interpretation.'']
           else if runtime_snapshots = ScPartial
           then [''Runtime snapshots have missing queue-depth fields, limiting executor vs blocking differentiation.'']
           else [])
        @ (if is_truncated (run_truncation run) \<or> tr_limits_hit (run_truncation run)
           then [''Capture truncation dropped evidence and can reduce diagnosis completeness.''] else []))"

definition evidence_quality :: "Run \<Rightarrow> AnalyzeOptions \<Rightarrow> EvidenceQuality" where
  "evidence_quality run options =
     (let trunc = run_truncation run;
          requests = request_status run options;
          profile = profile_from_run run;
          queues = family_status (cc_total (pe_queues profile)) (cc_partial (pe_queues profile))
                     (tr_dropped_queues trunc);
          stages = family_status (cc_total (pe_stages profile)) (cc_partial (pe_stages profile))
                     (tr_dropped_stages trunc);
          runtime_snapshots = runtime_status run;
          inflight_snapshots = family_status (length (run_inflight run)) 0
                     (tr_dropped_inflight_snapshots trunc);
          limitations = evidence_limitations run queues stages runtime_snapshots options;
          non_request_truncated = (queues = ScTruncated \<or> stages = ScTruncated
            \<or> runtime_snapshots = ScTruncated \<or> inflight_snapshots = ScTruncated);
          explanatory_present = (run_queues run \<noteq> [] \<or> run_stages run \<noteq> []
            \<or> run_runtime_snapshots run \<noteq> []);
          quality =
            (if run_requests run = [] \<or> low_requests run options \<or> tr_dropped_requests trunc > 0
                \<or> \<not> explanatory_present
             then EqWeak
             else if non_request_truncated \<or> (run_queues run = [] \<and> run_stages run = [])
                \<or> runtime_snapshots = ScPartial \<or> profile_has_partial profile
             then EqPartial
             else EqStrong)
      in \<lparr>eq_request_count = length (run_requests run),
          eq_queue_event_count = length (run_queues run),
          eq_stage_event_count = length (run_stages run),
          eq_runtime_snapshot_count = length (run_runtime_snapshots run),
          eq_inflight_snapshot_count = length (run_inflight run),
          eq_requests = requests,
          eq_queues = queues,
          eq_stages = stages,
          eq_runtime_snapshots = runtime_snapshots,
          eq_inflight_snapshots = inflight_snapshots,
          eq_truncated = (is_truncated trunc \<or> tr_limits_hit trunc),
          eq_dropped_requests = tr_dropped_requests trunc,
          eq_dropped_stages = tr_dropped_stages trunc,
          eq_dropped_queues = tr_dropped_queues trunc,
          eq_dropped_inflight_snapshots = tr_dropped_inflight_snapshots trunc,
          eq_dropped_runtime_snapshots = tr_dropped_runtime_snapshots trunc,
          eq_quality = quality,
          eq_limitations = limitations\<rparr>)"

definition truncation_warnings :: "Run \<Rightarrow> string list" where
  "truncation_warnings run =
     (let t = run_truncation run in
      (if tr_limits_hit t \<or> is_truncated t
       then [''Capture limits were hit during this run; dropped evidence can reduce diagnosis completeness and confidence.'']
       else [])
      @ (if tr_dropped_requests t > 0
         then [''Capture truncated requests: dropped '' @ show_word (tr_dropped_requests t)
                @ '' request events after reaching the configured max_requests limit. This dropped evidence can reduce diagnosis completeness and confidence.'']
         else [])
      @ (if tr_dropped_stages t > 0
         then [''Capture truncated stages: dropped '' @ show_word (tr_dropped_stages t)
                @ '' stage events after reaching the configured max_stages limit. This dropped evidence can reduce diagnosis completeness and confidence.'']
         else [])
      @ (if tr_dropped_queues t > 0
         then [''Capture truncated queues: dropped '' @ show_word (tr_dropped_queues t)
                @ '' queue events after reaching the configured max_queues limit. This dropped evidence can reduce diagnosis completeness and confidence.'']
         else [])
      @ (if tr_dropped_inflight_snapshots t > 0
         then [''Capture truncated in-flight snapshots: dropped '' @ show_word (tr_dropped_inflight_snapshots t)
                @ '' entries after reaching max_inflight_snapshots. This dropped evidence can reduce diagnosis completeness and confidence.'']
         else [])
      @ (if tr_dropped_runtime_snapshots t > 0
         then [''Capture truncated runtime snapshots: dropped '' @ show_word (tr_dropped_runtime_snapshots t)
                @ '' entries after reaching max_runtime_snapshots. This dropped evidence can reduce diagnosis completeness and confidence.'']
         else []))"

section \<open>Facts\<close>

lemma family_status_truncated [simp]: "family_status t p d = ScTruncated \<longleftrightarrow> 0 < d"
  by (simp add: family_status_def)

lemma runtime_status_truncated [simp]:
  "runtime_status run = ScTruncated \<longleftrightarrow> 0 < tr_dropped_runtime_snapshots (run_truncation run)"
  by (simp add: runtime_status_def)

lemma runtime_status_present:
  "runtime_status run = ScPresent \<Longrightarrow> run_runtime_snapshots run \<noteq> []"
  by (auto simp: runtime_status_def split: if_splits)

lemma family_status_present: "family_status t p d = ScPresent \<longleftrightarrow> d = 0 \<and> 0 < t \<and> p = 0"
  by (auto simp: family_status_def word_gt_0)

lemma profile_has_partial_iff:
  "profile_has_partial (profile_from_run run) \<longleftrightarrow>
     \<not> (list_all que_completed (run_queues run) \<and> list_all stg_completed (run_stages run))"
  by (auto simp: profile_has_partial_def cc_has_partial_def profile_from_run_def Let_def
      filter_empty_conv list_all_iff)

lemma eq_quality_weak_iff:
  "eq_quality (evidence_quality run options) = EqWeak \<longleftrightarrow>
     run_requests run = [] \<or> low_requests run options
     \<or> 0 < tr_dropped_requests (run_truncation run)
     \<or> (run_queues run = [] \<and> run_stages run = [] \<and> run_runtime_snapshots run = [])"
  by (auto simp: evidence_quality_def Let_def)

text \<open>
  The quality level \<open>strong\<close> is exactly this: enough completed requests, no dropped event or
  snapshot of any kind, some queue or stage event, only completed queue and stage events, and
  runtime snapshots that are absent or carry every queue depth at least once.
\<close>

theorem strong_quality_iff:
  "eq_quality (evidence_quality run options) = EqStrong \<longleftrightarrow>
     run_requests run \<noteq> [] \<and> \<not> low_requests run options
     \<and> tr_dropped_requests (run_truncation run) = 0
     \<and> tr_dropped_stages (run_truncation run) = 0
     \<and> tr_dropped_queues (run_truncation run) = 0
     \<and> tr_dropped_inflight_snapshots (run_truncation run) = 0
     \<and> tr_dropped_runtime_snapshots (run_truncation run) = 0
     \<and> \<not> (run_queues run = [] \<and> run_stages run = [])
     \<and> list_all que_completed (run_queues run) \<and> list_all stg_completed (run_stages run)
     \<and> runtime_status run \<noteq> ScPartial"
proof -
  let ?q = "evidence_quality run options"
  have "eq_quality ?q = EqStrong \<longleftrightarrow> eq_quality ?q \<noteq> EqWeak \<and> eq_quality ?q \<noteq> EqPartial"
    by (cases "eq_quality ?q") simp_all
  moreover have "eq_quality ?q = EqPartial \<longleftrightarrow> eq_quality ?q \<noteq> EqWeak
      \<and> (0 < tr_dropped_queues (run_truncation run) \<or> 0 < tr_dropped_stages (run_truncation run)
         \<or> 0 < tr_dropped_runtime_snapshots (run_truncation run)
         \<or> 0 < tr_dropped_inflight_snapshots (run_truncation run)
         \<or> (run_queues run = [] \<and> run_stages run = []) \<or> runtime_status run = ScPartial
         \<or> profile_has_partial (profile_from_run run))"
    by (simp add: evidence_quality_def Let_def)
  ultimately show ?thesis
    unfolding eq_quality_weak_iff profile_has_partial_iff word_gt_0 eq_commute [of 0] by blast
qed

end
