(* ===== verification/An_Stages.thy ===== *)
theory An_Stages
  imports An_Stats TT_Group An_Evidence
begin

text \<open>
  \<^verbatim>\<open>stage_attribution.rs\<close>: the context of every request and, for every stage name, the
  completed and the observed summary of the time attributed to that stage. The iteration over a
  \<^verbatim>\<open>HashMap\<close> is over the entries of an association list; \<open>stage_summary_perm\<close> shows that
  the summary does not depend on their order.
\<close>

record RequestContext =
  rc_latency_us :: u64
  rc_is_tail :: bool

record StageSummary =
  ss_basis :: EvidenceBasis
  ss_stage :: string
  ss_request_samples :: nat
  ss_p95_attributed_latency_us :: u64
  ss_cumulative_attributed_latency_us :: u64
  ss_cumulative_share_permille :: u64
  ss_tail_attributed_latency_us :: u64
  ss_tail_share_permille :: u64
  ss_partial_event_count :: nat

fun context_loop :: "RequestEvent list \<Rightarrow> u64 \<Rightarrow> (string, RequestContext) btree \<times> u64 \<times> u64
    \<Rightarrow> (string, RequestContext) btree \<times> u64 \<times> u64" where
  "context_loop [] p95 acc = acc"
| "context_loop (request # rest) p95 (contexts, total_us, tail_us) =
     (let is_tail = req_latency_us request \<ge> p95
      in context_loop rest p95
           (bt_insert (req_request_id request)
              \<lparr>rc_latency_us = req_latency_us request, rc_is_tail = is_tail\<rparr> contexts,
            saturating_add total_us (req_latency_us request),
            if is_tail then saturating_add tail_us (req_latency_us request) else tail_us))"

definition request_contexts :: "Run \<Rightarrow> u64 \<Rightarrow> (string, RequestContext) btree \<times> u64 \<times> u64" where
  "request_contexts run p95_request_latency_us =
     context_loop (run_requests run) p95_request_latency_us ([], 0, 0)"

record StageGroup =
  sg_completed :: "(string, AttributionInput list) btree"
  sg_observed :: "(string, AttributionInput list) btree"
  sg_partial :: nat

definition stage_group_default :: StageGroup where
  "stage_group_default = \<lparr>sg_completed = [], sg_observed = [], sg_partial = 0\<rparr>"

definition stage_attribution_input :: "StageEvent \<Rightarrow> AttributionInput" where
  "stage_attribution_input stage =
     \<lparr>ai_interval = opt_zip (stg_started_at_run_us stage) (stg_finished_at_run_us stage),
      ai_duration_us = stg_latency_us stage\<rparr>"

definition stage_group_add :: "StageEvent \<Rightarrow> StageGroup \<Rightarrow> StageGroup" where
  "stage_group_add stage grp =
     (let input = stage_attribution_input stage;
          grp = grp\<lparr>sg_observed := group_push (stg_request_id stage) input (sg_observed grp)\<rparr>
      in if stg_completed stage
         then grp\<lparr>sg_completed := group_push (stg_request_id stage) input (sg_completed grp)\<rparr>
         else grp\<lparr>sg_partial := sg_partial grp + 1\<rparr>)"

definition stage_groups :: "(string, RequestContext) btree \<Rightarrow> StageEvent list \<Rightarrow> (string, StageGroup) btree" where
  "stage_groups requests stages =
     foldl (\<lambda>groups stage.
              if bt_lookup requests (stg_request_id stage) = None then groups
              else bt_entry (stg_stage stage)
                     (\<lambda>g. stage_group_add stage (unwrap_or g stage_group_default)) groups)
       [] stages"

text \<open>One pass over the requests of a group.\<close>

fun attribute_requests :: "(string, RequestContext) btree \<Rightarrow> (string \<times> AttributionInput list) list
    \<Rightarrow> u64 list \<times> u64 \<times> u64 \<Rightarrow> u64 list \<times> u64 \<times> u64" where
  "attribute_requests requests [] acc = acc"
| "attribute_requests requests ((request_id, inputs) # rest) (per_request, cumulative, tail_attributed) =
     (case bt_lookup requests request_id of
        None \<Rightarrow> attribute_requests requests rest (per_request, cumulative, tail_attributed)
      | Some context \<Rightarrow>
          let d = ad_duration_us (attributed_elapsed_duration inputs (rc_latency_us context))
          in attribute_requests requests rest
               (per_request @ [d], saturating_add cumulative d,
                if rc_is_tail context then saturating_add tail_attributed d else tail_attributed))"

definition latency_share :: "u64 \<Rightarrow> u64 \<Rightarrow> u64" where
  "latency_share part whole = unwrap_or (checked_div (saturating_mul part 1000) whole) 0"

definition stage_summary :: "(string, RequestContext) btree \<times> u64 \<times> u64 \<Rightarrow> EvidenceBasis \<Rightarrow> string
    \<Rightarrow> (string \<times> AttributionInput list) list \<Rightarrow> nat \<Rightarrow> StageSummary" where
  "stage_summary contexts basis stage_name by_request partial_count =
     (let (requests, total_us, tail_us) = contexts;
          (per_request, cumulative, tail_attributed) =
            attribute_requests requests by_request ([], 0, 0)
      in \<lparr>ss_basis = basis, ss_stage = stage_name, ss_request_samples = length per_request,
          ss_p95_attributed_latency_us = unwrap_or (percentile per_request 95 100) 0,
          ss_cumulative_attributed_latency_us = cumulative,
          ss_cumulative_share_permille = latency_share cumulative total_us,
          ss_tail_attributed_latency_us = tail_attributed,
          ss_tail_share_permille = latency_share tail_attributed tail_us,
          ss_partial_event_count = (if basis = ObservedLowerBound then partial_count else 0)\<rparr>)"

definition dual_stage_summaries :: "Run \<Rightarrow> u64 \<Rightarrow> StageSummary list" where
  "dual_stage_summaries run p95_request_latency_us =
     (let contexts = request_contexts run p95_request_latency_us;
          groups = stage_groups (fst contexts) (run_stages run)
      in concat (map (\<lambda>(stage_name, g).
           [stage_summary contexts Completed stage_name (sg_completed g) (sg_partial g),
            stage_summary contexts ObservedLowerBound stage_name (sg_observed g) (sg_partial g)])
           groups))"

definition stage_summaries :: "Run \<Rightarrow> u64 \<Rightarrow> StageSummary list" where
  "stage_summaries run p95_request_latency_us =
     filter (\<lambda>s. ss_basis s = Completed) (dual_stage_summaries run p95_request_latency_us)"

section \<open>The sums of a summary\<close>

definition attributed_pairs :: "(string, RequestContext) btree
    \<Rightarrow> (string \<times> AttributionInput list) list \<Rightarrow> (bool \<times> u64) list" where
  "attributed_pairs requests by_request = List.map_filter (\<lambda>(request_id, inputs).
     map_option (\<lambda>c. (rc_is_tail c,
         ad_duration_us (attributed_elapsed_duration inputs (rc_latency_us c))))
       (bt_lookup requests request_id)) by_request"

lemma attribute_requests_pairs:
  "attribute_requests requests by_request (per_request, cumulative, tail) =
     (per_request @ map snd (attributed_pairs requests by_request),
      foldl (\<lambda>sum d. saturating_add sum (snd d)) cumulative (attributed_pairs requests by_request),
      foldl (\<lambda>sum d. saturating_add sum (snd d)) tail
        (filter fst (attributed_pairs requests by_request)))"
proof (induction by_request arbitrary: per_request cumulative tail)
  case (Cons p by_request)
  obtain rid inputs where p: "p = (rid, inputs)" by (cases p)
  show ?case
    by (cases "bt_lookup requests rid")
      (simp_all add: p Cons.IH attributed_pairs_def List.map_filter_def Let_def)
qed (simp add: attributed_pairs_def List.map_filter_def)

lemma attributed_pairs_mset:
  "mset by_request = mset by_request' \<Longrightarrow>
   mset (attributed_pairs requests by_request) = mset (attributed_pairs requests by_request')"
  by (simp add: attributed_pairs_def List.map_filter_def)

lemma foldl_saturating_mset:
  assumes "mset ps = mset qs"
  shows "foldl (\<lambda>sum d. saturating_add sum (f d)) a ps = foldl (\<lambda>sum d. saturating_add sum (f d)) a qs"
proof -
  have "sum_list (map (\<lambda>d. unat (f d)) ps) = sum_list (map (\<lambda>d. unat (f d)) qs)"
    using assms by (metis mset_map sum_mset_sum_list)
  then have "unat (foldl (\<lambda>sum d. saturating_add sum (f d)) a ps)
      = unat (foldl (\<lambda>sum d. saturating_add sum (f d)) a qs)"
    by (simp add: foldl_saturating_sum)
  then show ?thesis by (simp only: word_unat_eq_iff)
qed

lemma stage_summary_perm:
  assumes "mset by_request = mset by_request'"
  shows "stage_summary contexts basis name by_request n = stage_summary contexts basis name by_request' n"
proof -
  obtain requests tot tl where c: "contexts = (requests, tot, tl)" by (cases contexts)
  note m = attributed_pairs_mset [OF assms, of requests]
  have "mset (map snd (attributed_pairs requests by_request))
      = mset (map snd (attributed_pairs requests by_request'))"
    using m by simp
  note this [THEN percentile_mset] and mset_eq_length [OF this]
  moreover have "mset (filter fst (attributed_pairs requests by_request))
      = mset (filter fst (attributed_pairs requests by_request'))"
    using m by simp
  note foldl_saturating_mset [OF this, of snd]
  ultimately show ?thesis
    using foldl_saturating_mset [OF m, of snd]
    by (simp add: stage_summary_def c attribute_requests_pairs)
qed

text \<open>The attributed sums stay below the latency sums they are divided by.\<close>

definition context_latency :: "(string, RequestContext) btree \<Rightarrow> string \<Rightarrow> nat" where
  "context_latency contexts k =
     (case bt_lookup contexts k of None \<Rightarrow> 0 | Some c \<Rightarrow> unat (rc_latency_us c))"

definition context_tail_latency :: "(string, RequestContext) btree \<Rightarrow> string \<Rightarrow> nat" where
  "context_tail_latency contexts k =
     (case bt_lookup contexts k of None \<Rightarrow> 0
      | Some c \<Rightarrow> if rc_is_tail c then unat (rc_latency_us c) else 0)"

abbreviation keys_of :: "('k, 'v) btree \<Rightarrow> 'k set" where
  "keys_of m \<equiv> fst ` set m"

definition contexts_within :: "(string, RequestContext) btree \<times> u64 \<times> u64 \<Rightarrow> nat \<Rightarrow> nat \<Rightarrow> bool" where
  "contexts_within c n t \<longleftrightarrow> bt_wf (fst c)
     \<and> sum (context_latency (fst c)) (keys_of (fst c)) \<le> n
     \<and> sum (context_tail_latency (fst c)) (keys_of (fst c)) \<le> t
     \<and> unat (fst (snd c)) = min n u64_max \<and> unat (snd (snd c)) = min t u64_max"

lemma sum_update_le:
  fixes g :: "'k \<Rightarrow> nat"
  assumes "finite A" and "\<And>x. x \<noteq> k \<Longrightarrow> g' x = g x"
  shows "sum g' (insert k A) \<le> sum g A + g' k"
proof -
  have "sum g' (insert k A) = sum g' (A - {k}) + g' k"
    using assms(1) by (simp add: sum.insert_remove)
  also have "sum g' (A - {k}) = sum g (A - {k})"
    using assms(2) by (intro sum.cong) auto
  also have "\<dots> \<le> sum g A" using assms(1) by (intro sum_mono2) auto
  finally show ?thesis by simp
qed

lemma context_loop_within:
  "contexts_within acc n t \<Longrightarrow> \<exists>n' t'. contexts_within (context_loop rs p95 acc) n' t'"
proof (induction rs p95 acc arbitrary: n t rule: context_loop.induct)
  case (2 r rest p95 contexts tot tl)
  let ?ctx = "\<lparr>rc_latency_us = req_latency_us r, rc_is_tail = req_latency_us r \<ge> p95\<rparr>"
  let ?c = "bt_insert (req_request_id r) ?ctx contexts"
  let ?l = "unat (req_latency_us r)" and ?t = "if req_latency_us r \<ge> p95 then unat (req_latency_us r) else 0"
  have wf: "bt_wf contexts" using 2(2) by (simp add: contexts_within_def)
  have look: "bt_lookup ?c = (bt_lookup contexts)(req_request_id r \<mapsto> ?ctx)"
    by (simp add: bt_insert_def bt_lookup_entry [OF wf])
  have keys: "keys_of ?c = insert (req_request_id r) (keys_of contexts)"
    by (simp add: bt_insert_def bt_entry_keys)
  have "sum (context_latency ?c) (keys_of ?c) \<le> n + ?l"
    using 2(2) sum_update_le [of "keys_of contexts" "req_request_id r" "context_latency ?c" "context_latency contexts"]
    unfolding keys by (simp add: contexts_within_def context_latency_def look)
  moreover have "sum (context_tail_latency ?c) (keys_of ?c) \<le> t + ?t"
    using 2(2) sum_update_le [of "keys_of contexts" "req_request_id r" "context_tail_latency ?c" "context_tail_latency contexts"]
    unfolding keys by (simp add: contexts_within_def context_tail_latency_def look split: if_splits)
  ultimately have "contexts_within (?c, saturating_add tot (req_latency_us r),
      if req_latency_us r \<ge> p95 then saturating_add tl (req_latency_us r) else tl) (n + ?l) (t + ?t)"
    using 2(2) wf by (auto simp: contexts_within_def bt_insert_def bt_wf_entry u64_arith)
  then show ?case using 2(1) by (simp add: Let_def)
qed auto

lemma request_contexts_within: "\<exists>n t. contexts_within (request_contexts run p95) n t"
  unfolding request_contexts_def
  by (rule context_loop_within [of _ 0 0]) (simp add: contexts_within_def)

lemma attributed_pairs_Nil [simp]: "attributed_pairs requests [] = []"
  by (simp add: attributed_pairs_def List.map_filter_def)

lemma attributed_pairs_Cons [simp]:
  "attributed_pairs requests ((rid, inputs) # rest) =
     (case bt_lookup requests rid of
        None \<Rightarrow> attributed_pairs requests rest
      | Some c \<Rightarrow> (rc_is_tail c, ad_duration_us (attributed_elapsed_duration inputs (rc_latency_us c)))
                  # attributed_pairs requests rest)"
  by (cases "bt_lookup requests rid") (simp_all add: attributed_pairs_def List.map_filter_def)

lemma attributed_pairs_sum:
  "sum_list (map (\<lambda>d. unat (snd d)) (attributed_pairs contexts by_request))
     \<le> sum_list (map (context_latency contexts) (map fst by_request))"
  "sum_list (map (\<lambda>d. unat (snd d)) (filter fst (attributed_pairs contexts by_request)))
     \<le> sum_list (map (context_tail_latency contexts) (map fst by_request))"
proof -
  have le: "unat (ad_duration_us (attributed_elapsed_duration i l)) \<le> unat l" for i l
    using attributed_le_cap [of i l] by (simp add: word_le_nat_alt)
  show "sum_list (map (\<lambda>d. unat (snd d)) (attributed_pairs contexts by_request))
      \<le> sum_list (map (context_latency contexts) (map fst by_request))"
  proof (induction by_request)
    case (Cons p by_request)
    obtain rid inputs where p: "p = (rid, inputs)" by (cases p)
    from Cons show ?case
      by (auto simp: p context_latency_def [of contexts rid] intro: add_mono le split: option.splits)
  qed simp
  show "sum_list (map (\<lambda>d. unat (snd d)) (filter fst (attributed_pairs contexts by_request)))
      \<le> sum_list (map (context_tail_latency contexts) (map fst by_request))"
  proof (induction by_request)
    case (Cons p by_request)
    obtain rid inputs where p: "p = (rid, inputs)" by (cases p)
    from Cons show ?case
      by (auto simp: p context_tail_latency_def [of contexts rid] intro: add_mono le split: option.splits)
  qed simp
qed

lemma sum_list_keys_le:
  assumes "distinct ks" "finite A" "\<And>k. k \<notin> A \<Longrightarrow> g k = (0 :: nat)"
  shows "sum_list (map g ks) \<le> sum g A"
proof -
  have "sum_list (map g ks) = sum g (set ks)" using assms(1) by (rule sum_list_distinct_conv_sum_set)
  also have "\<dots> = sum g (set ks \<inter> A)"
    using assms(3) by (intro sum.mono_neutral_right) auto
  also have "\<dots> \<le> sum g A" using assms(2) by (intro sum_mono2) auto
  finally show ?thesis .
qed

lemma context_latency_outside:
  assumes "k \<notin> keys_of contexts"
  shows "context_latency contexts k = 0" "context_tail_latency contexts k = 0"
proof -
  have "bt_lookup contexts k = None" using assms by (simp add: bt_lookup_def map_of_eq_None_iff)
  then show "context_latency contexts k = 0" "context_tail_latency contexts k = 0"
    by (simp_all add: context_latency_def context_tail_latency_def)
qed

lemma latency_share_le: "part \<le> whole \<Longrightarrow> latency_share part whole \<le> 1000"
proof -
  assume "part \<le> whole"
  then have "unat part * 1000 \<le> 1000 * unat whole" by (simp add: word_le_nat_alt)
  moreover have "unat (saturating_mul part 1000) \<le> unat part * 1000" by (simp add: u64_arith)
  ultimately have "unat (saturating_mul part 1000) \<le> 1000 * unat whole" by linarith
  then have "unat (saturating_mul part 1000) div unat whole \<le> 1000"
    by (metis div_le_mono div_mult_self_is_m div_by_0 gr0I le0)
  then show ?thesis
    by (simp add: latency_share_def checked_div_def word_le_nat_alt unat_div)
qed

lemma stage_summary_shares:
  assumes "contexts_within contexts n t" and "distinct (map fst by_request)"
  shows "ss_cumulative_attributed_latency_us (stage_summary contexts basis name by_request k)
        \<le> fst (snd contexts)
      \<and> ss_tail_attributed_latency_us (stage_summary contexts basis name by_request k)
        \<le> snd (snd contexts)
      \<and> ss_cumulative_share_permille (stage_summary contexts basis name by_request k) \<le> 1000
      \<and> ss_tail_share_permille (stage_summary contexts basis name by_request k) \<le> 1000"
proof -
  obtain cs tot tl where c: "contexts = (cs, tot, tl)" by (cases contexts)
  let ?ps = "attributed_pairs cs by_request"
  let ?cum = "foldl (\<lambda>sum d. saturating_add sum (snd d)) 0 ?ps"
  let ?tail = "foldl (\<lambda>sum d. saturating_add sum (snd d)) 0 (filter fst ?ps)"
  have "sum_list (map (\<lambda>d. unat (snd d)) ?ps) \<le> n"
    "sum_list (map (\<lambda>d. unat (snd d)) (filter fst ?ps)) \<le> t"
    using attributed_pairs_sum [of cs by_request] assms(1)
      sum_list_keys_le [OF assms(2), of "keys_of cs" "context_latency cs"]
      sum_list_keys_le [OF assms(2), of "keys_of cs" "context_tail_latency cs"]
      context_latency_outside [of _ cs]
    by (auto simp: contexts_within_def c)
  then have "?cum \<le> tot" "?tail \<le> tl"
    using assms(1) foldl_saturating_sum [of snd 0 ?ps] foldl_saturating_sum [of snd 0 "filter fst ?ps"]
    by (auto simp: contexts_within_def c word_le_nat_alt)
  then show ?thesis
    by (simp add: stage_summary_def c attribute_requests_pairs latency_share_le)
qed

section \<open>The groups\<close>

definition known_request :: "(string, RequestContext) btree \<Rightarrow> StageEvent \<Rightarrow> bool" where
  "known_request requests e \<longleftrightarrow> bt_lookup requests (stg_request_id e) \<noteq> None"

definition stage_group_of :: "StageEvent list \<Rightarrow> StageGroup" where
  "stage_group_of es =
     \<lparr>sg_completed = group_into stg_request_id stage_attribution_input (filter stg_completed es) [],
      sg_observed = group_into stg_request_id stage_attribution_input es [],
      sg_partial = length (filter (\<lambda>e. \<not> stg_completed e) es)\<rparr>"

lemma stage_group_of_Nil: "stage_group_of [] = stage_group_default"
  by (simp add: stage_group_of_def stage_group_default_def group_into_def)

lemma stage_group_of_snoc: "stage_group_of (es @ [e]) = stage_group_add e (stage_group_of es)"
  by (simp add: stage_group_of_def stage_group_add_def group_into_def Let_def)

lemma stage_groups_snoc:
  "stage_groups requests (es @ [e]) =
     (if known_request requests e
      then bt_entry (stg_stage e)
             (\<lambda>g. stage_group_add e (unwrap_or g stage_group_default)) (stage_groups requests es)
      else stage_groups requests es)"
  by (simp add: stage_groups_def known_request_def)

lemma stage_groups_wf: "bt_wf (stage_groups requests es)"
  by (induction es rule: rev_induct) (simp_all add: stage_groups_snoc bt_wf_entry, simp add: stage_groups_def)

lemma stage_groups_lookup:
  "bt_lookup (stage_groups requests es) name =
     (let mine = filter (\<lambda>e. stg_stage e = name \<and> known_request requests e) es
      in if mine = [] then None else Some (stage_group_of mine))"
proof (induction es rule: rev_induct)
  case (snoc e es)
  let ?mine = "filter (\<lambda>e. stg_stage e = name \<and> known_request requests e) es"
  have "unwrap_or (bt_lookup (stage_groups requests es) name) stage_group_default = stage_group_of ?mine"
    by (simp add: snoc Let_def stage_group_of_Nil)
  then show ?case
    using snoc
    by (auto simp: stage_groups_snoc bt_lookup_entry [OF stage_groups_wf] stage_group_of_snoc Let_def)
qed (simp add: stage_groups_def)

lemma stage_groups_entry:
  "(name, g) \<in> set (stage_groups requests es) \<Longrightarrow>
   g = stage_group_of (filter (\<lambda>e. stg_stage e = name \<and> known_request requests e) es)"
  using stage_groups_lookup [of requests es name]
  by (auto simp: bt_wf_map_of [OF stage_groups_wf] Let_def split: if_splits)

definition summary_events :: "Run \<Rightarrow> u64 \<Rightarrow> EvidenceBasis \<Rightarrow> string \<Rightarrow> StageEvent list" where
  "summary_events run p95 basis name =
     filter (\<lambda>e. stg_stage e = name \<and> known_request (fst (request_contexts run p95)) e
       \<and> (basis = ObservedLowerBound \<or> stg_completed e)) (run_stages run)"

lemma dual_summary_shape:
  assumes "s \<in> set (dual_stage_summaries run p95)"
  shows "\<exists>k. s = stage_summary (request_contexts run p95) (ss_basis s) (ss_stage s)
    (group_into stg_request_id stage_attribution_input
       (summary_events run p95 (ss_basis s) (ss_stage s)) []) k"
proof -
  let ?c = "request_contexts run p95"
  obtain name g basis where g: "(name, g) \<in> set (stage_groups (fst ?c) (run_stages run))"
    and s: "s = stage_summary ?c basis name
        (if basis = ObservedLowerBound then sg_observed g else sg_completed g) (sg_partial g)"
    using assms by (fastforce simp: dual_stage_summaries_def Let_def)
  have bs: "ss_basis s = basis" "ss_stage s = name"
    by (simp_all add: s stage_summary_def split: prod.splits)
  have "(if basis = ObservedLowerBound then sg_observed g else sg_completed g)
      = group_into stg_request_id stage_attribution_input (summary_events run p95 basis name) []"
    unfolding stage_groups_entry [OF g]
    by (cases basis) (simp_all add: stage_group_of_def summary_events_def conj_ac)
  then show ?thesis unfolding bs using s by metis
qed

lemma context_loop_keys:
  "bt_wf (fst acc) \<Longrightarrow>
   bt_lookup (fst (context_loop rs p95 acc)) k = None
     \<longleftrightarrow> bt_lookup (fst acc) k = None \<and> k \<notin> req_request_id ` set rs"
  by (induction rs p95 acc rule: context_loop.induct)
    (auto simp: Let_def bt_insert_def bt_lookup_entry bt_wf_entry)

lemma known_request_iff:
  "known_request (fst (request_contexts run p95)) e
     \<longleftrightarrow> stg_request_id e \<in> req_request_id ` set (run_requests run)"
  by (simp add: known_request_def request_contexts_def context_loop_keys)

lemma attributed_pairs_length:
  "\<forall>p\<in>set by_request. bt_lookup requests (fst p) \<noteq> None \<Longrightarrow>
   length (attributed_pairs requests by_request) = length by_request"
  by (induction by_request) auto

section \<open>Properties\<close>

text \<open>
  Stage attribution never exceeds the time there was: for every stage and both bases, the
  attributed time is at most the total request latency, the part attributed in the tail at most
  the tail latency, and both shares are at most 1000 permille.
\<close>

theorem stage_shares_bounded:
  "list_all (\<lambda>s.
       ss_cumulative_attributed_latency_us s \<le> fst (snd (request_contexts run p95))
     \<and> ss_tail_attributed_latency_us s \<le> snd (snd (request_contexts run p95))
     \<and> ss_cumulative_share_permille s \<le> 1000
     \<and> ss_tail_share_permille s \<le> 1000) (dual_stage_summaries run p95)"
proof -
  obtain n t where within: "contexts_within (request_contexts run p95) n t"
    using request_contexts_within by blast
  have "ss_cumulative_attributed_latency_us s \<le> fst (snd (request_contexts run p95))
     \<and> ss_tail_attributed_latency_us s \<le> snd (snd (request_contexts run p95))
     \<and> ss_cumulative_share_permille s \<le> 1000 \<and> ss_tail_share_permille s \<le> 1000"
    if mem: "s \<in> set (dual_stage_summaries run p95)" for s
  proof -
    obtain k where seq: "s = stage_summary (request_contexts run p95) (ss_basis s) (ss_stage s)
        (group_into stg_request_id stage_attribution_input
          (summary_events run p95 (ss_basis s) (ss_stage s)) []) k"
      using dual_summary_shape [OF mem] by blast
    show ?thesis
      by (rule stage_summary_shares [OF within group_by_distinct, of "ss_basis s" "ss_stage s", where k = k
            and key1 = stg_request_id and val1 = stage_attribution_input
            and xs1 = "summary_events run p95 (ss_basis s) (ss_stage s)", folded seq])
  qed
  then show ?thesis by (simp add: list_all_iff)
qed

text \<open>
  The sample count of a stage is the number of distinct completed requests that have an
  event of that stage (a completed event, for the completed basis), however many events each has.
\<close>

theorem stage_samples_are_requests:
  "list_all (\<lambda>s. ss_request_samples s =
       card (set (map stg_request_id
         (filter (\<lambda>e. stg_stage e = ss_stage s
            \<and> stg_request_id e \<in> req_request_id ` set (run_requests run)
            \<and> (ss_basis s = ObservedLowerBound \<or> stg_completed e)) (run_stages run)))))
     (dual_stage_summaries run p95)"
proof -
  let ?c = "request_contexts run p95"
  have "ss_request_samples s = card (stg_request_id ` set (filter (\<lambda>e. stg_stage e = ss_stage s
            \<and> known_request (fst ?c) e
            \<and> (ss_basis s = ObservedLowerBound \<or> stg_completed e)) (run_stages run)))"
    if s: "s \<in> set (dual_stage_summaries run p95)" for s
  proof -
    let ?mine = "summary_events run p95 (ss_basis s) (ss_stage s)"
    let ?by = "group_into stg_request_id stage_attribution_input ?mine []"
    obtain k where seq: "s = stage_summary ?c (ss_basis s) (ss_stage s) ?by k"
      using dual_summary_shape [OF s] by blast
    have "\<forall>p\<in>set ?by. bt_lookup (fst ?c) (fst p) \<noteq> None"
      by (auto simp: group_by_entry_iff summary_events_def known_request_def)
    from attributed_pairs_length [OF this]
    have count: "ss_request_samples (stage_summary ?c basis name ?by k) = length ?by" for basis name
      by (cases ?c) (simp add: stage_summary_def attribute_requests_pairs)
    have "ss_request_samples s = length ?by"
      by (rule count [of "ss_basis s" "ss_stage s", folded seq])
    also have "\<dots> = card (stg_request_id ` set ?mine)" by (rule group_by_length)
    finally show ?thesis by (simp add: summary_events_def)
  qed
  then show ?thesis by (simp add: list_all_iff known_request_iff)
qed

end
