(* ===== verification/An_Suspect.thy ===== *)
theory An_Suspect
  imports An_Evidence
begin

text \<open>
  Suspects and candidates: the diagnosis kinds, the confidence buckets with their order and
  the suspect record of \<^verbatim>\<open>lib.rs\<close>, the worker-evidence types of \<^verbatim>\<open>scoring.rs\<close> and the
  candidate slots of \<^verbatim>\<open>candidate.rs\<close>.
\<close>

datatype DiagnosisKind =
    ApplicationQueuePressure
  | BlockingPoolPressure
  | ExecutorPressure
  | DownstreamStageDominance
  | InsufficientEvidence

fun kind_as_str :: "DiagnosisKind \<Rightarrow> string" where
  "kind_as_str ApplicationQueuePressure = ''application_queue_pressure''"
| "kind_as_str BlockingPoolPressure = ''blocking_pool_pressure''"
| "kind_as_str ExecutorPressure = ''executor_pressure''"
| "kind_as_str DownstreamStageDominance = ''downstream_stage_dominance''"
| "kind_as_str InsufficientEvidence = ''insufficient_evidence''"

lemma kind_as_str_inj [simp]: "kind_as_str a = kind_as_str b \<longleftrightarrow> a = b"
  by (cases a; cases b; simp)

text \<open>The derived order of the buckets is the order of their declaration.\<close>

datatype Confidence = CoLow | CoMedium | CoHigh

fun confidence_index :: "Confidence \<Rightarrow> nat" where
  "confidence_index CoLow = 0"
| "confidence_index CoMedium = 1"
| "confidence_index CoHigh = 2"

instantiation Confidence :: linorder
begin

definition less_eq_Confidence :: "Confidence \<Rightarrow> Confidence \<Rightarrow> bool" where
  "less_eq_Confidence a b \<longleftrightarrow> confidence_index a \<le> confidence_index b"

definition less_Confidence :: "Confidence \<Rightarrow> Confidence \<Rightarrow> bool" where
  "less_Confidence a b \<longleftrightarrow> confidence_index a < confidence_index b"

instance
proof
  fix a b c :: Confidence
  show "a \<le> b \<Longrightarrow> b \<le> a \<Longrightarrow> a = b"
    by (cases a; cases b; simp add: less_eq_Confidence_def)
qed (auto simp: less_eq_Confidence_def less_Confidence_def)

end

lemma confidence_order [simp]:
  "CoLow \<le> c" "c \<le> CoHigh" "CoMedium \<le> c \<longleftrightarrow> c \<noteq> CoLow" "c \<le> CoMedium \<longleftrightarrow> c \<noteq> CoHigh"
  "c \<le> CoLow \<longleftrightarrow> c = CoLow" "CoHigh \<le> c \<longleftrightarrow> c = CoHigh"
  by (cases c; simp add: less_eq_Confidence_def)+

definition confidence_from_score :: "u8 \<Rightarrow> AnalyzeOptions \<Rightarrow> Confidence" where
  "confidence_from_score score options =
     (if score \<ge> cfo_high_score_threshold (ao_confidence options) then CoHigh
      else if score \<ge> cfo_medium_score_threshold (ao_confidence options) then CoMedium
      else CoLow)"

record Suspect =
  sp_kind :: DiagnosisKind
  sp_score :: u8
  sp_confidence :: Confidence
  sp_evidence :: "string list"
  sp_next_checks :: "string list"
  sp_confidence_notes :: "string list"

definition suspect_new :: "DiagnosisKind \<Rightarrow> u8 \<Rightarrow> string list \<Rightarrow> string list \<Rightarrow> Suspect" where
  "suspect_new kind score evidence next_checks =
     \<lparr>sp_kind = kind, sp_score = score,
      sp_confidence = confidence_from_score score analyze_options_default,
      sp_evidence = evidence, sp_next_checks = next_checks, sp_confidence_notes = []\<rparr>"

text \<open>The helper of \<^verbatim>\<open>scoring.rs\<close>, with the options of the analysis.\<close>

definition suspect_with ::
    "DiagnosisKind \<Rightarrow> u8 \<Rightarrow> string list \<Rightarrow> string list \<Rightarrow> AnalyzeOptions \<Rightarrow> Suspect" where
  "suspect_with kind score evidence next_checks options =
     \<lparr>sp_kind = kind, sp_score = score, sp_confidence = confidence_from_score score options,
      sp_evidence = evidence, sp_next_checks = next_checks, sp_confidence_notes = []\<rparr>"

lemma suspect_with_simps [simp]:
  "sp_kind (suspect_with k sc e n opts) = k"
  "sp_score (suspect_with k sc e n opts) = sc"
  by (simp_all add: suspect_with_def)

lemma suspect_new_simps [simp]:
  "sp_kind (suspect_new k sc e n) = k"
  "sp_score (suspect_new k sc e n) = sc"
  by (simp_all add: suspect_new_def)

lemma confidence_from_score_mono:
  "cfo_medium_score_threshold (ao_confidence opts) \<le> cfo_high_score_threshold (ao_confidence opts) \<Longrightarrow>
   s \<le> t \<Longrightarrow> confidence_from_score s opts \<le> confidence_from_score t opts"
  by (auto simp: confidence_from_score_def)

datatype WorkerEvidenceStatus =
    HistoricalAbsent
  | Complete u32 bool
  | WorkersPartial
  | Inconsistent
  | InvalidZero

fun worker_status_debug :: "WorkerEvidenceStatus \<Rightarrow> string" where
  "worker_status_debug HistoricalAbsent = ''HistoricalAbsent''"
| "worker_status_debug (Complete worker_count local_complete) =
     ''Complete { worker_count: '' @ show_word worker_count @ '', local_complete: ''
     @ (if local_complete then ''true'' else ''false'') @ '' }''"
| "worker_status_debug WorkersPartial = ''Partial''"
| "worker_status_debug Inconsistent = ''Inconsistent''"
| "worker_status_debug InvalidZero = ''InvalidZero''"

datatype ExecutorConfidenceLimitation =
    AmbiguousWorkers WorkerEvidenceStatus
  | MissingLocalDepth

section \<open>Candidates (\<^verbatim>\<open>candidate.rs\<close>)\<close>

record SupportedCandidate =
  sc_suspect :: Suspect
  sc_basis :: EvidenceBasis
  sc_executor_limitation :: "ExecutorConfidenceLimitation option"

record FamilyCandidates =
  fc_queue :: "SupportedCandidate option"
  fc_blocking :: "SupportedCandidate option"
  fc_executor :: "SupportedCandidate option"
  fc_downstream :: "SupportedCandidate option"

definition family_default :: FamilyCandidates where
  "family_default = \<lparr>fc_queue = None, fc_blocking = None, fc_executor = None, fc_downstream = None\<rparr>"

definition set_queue :: "SupportedCandidate option \<Rightarrow> FamilyCandidates \<Rightarrow> FamilyCandidates" where
  "set_queue candidate self = self\<lparr>fc_queue := candidate\<rparr>"

definition set_blocking :: "SupportedCandidate option \<Rightarrow> FamilyCandidates \<Rightarrow> FamilyCandidates" where
  "set_blocking candidate self = self\<lparr>fc_blocking := candidate\<rparr>"

definition set_executor :: "SupportedCandidate option \<Rightarrow> FamilyCandidates \<Rightarrow> FamilyCandidates" where
  "set_executor candidate self = self\<lparr>fc_executor := candidate\<rparr>"

definition set_downstream :: "SupportedCandidate option \<Rightarrow> FamilyCandidates \<Rightarrow> FamilyCandidates" where
  "set_downstream candidate self = self\<lparr>fc_downstream := candidate\<rparr>"

definition into_cross_family_candidates :: "FamilyCandidates \<Rightarrow> SupportedCandidate list" where
  "into_cross_family_candidates self =
     List.map_filter id [fc_queue self, fc_blocking self, fc_executor self, fc_downstream self]"

definition completed_candidate :: "Suspect \<Rightarrow> SupportedCandidate" where
  "completed_candidate suspect =
     \<lparr>sc_suspect = suspect, sc_basis = Completed, sc_executor_limitation = None\<rparr>"

definition fallback_candidate :: "Suspect \<Rightarrow> SupportedCandidate" where
  "fallback_candidate suspect = completed_candidate suspect"

abbreviation cand_kind :: "SupportedCandidate \<Rightarrow> DiagnosisKind" where
  "cand_kind c \<equiv> sp_kind (sc_suspect c)"

abbreviation cand_score :: "SupportedCandidate \<Rightarrow> u8" where
  "cand_score c \<equiv> sp_score (sc_suspect c)"

lemmas family_defs = family_default_def set_queue_def set_blocking_def set_executor_def
  set_downstream_def into_cross_family_candidates_def

end
