(* ===== verification/An_Scoring.thy ===== *)
theory An_Scoring
  imports An_Signals An_Stages An_Suspect "HOL-Library.Sublist"
begin

text \<open>
  \<^verbatim>\<open>scoring.rs\<close>: the measurements of the four diagnosis families, their eligibility tests,
  the score of an eligible measurement and the suspect built from it. Scores are computed in
  \<^verbatim>\<open>u64\<close> and clamped to 100; a soft cap holds below the top scores unless the evidence is
  clean and extreme. Debug assertions are not modelled.
\<close>

section \<open>Scores\<close>

definition clamp_score :: "u64 \<Rightarrow> u8" where
  "clamp_score value = ucast (min value 100)"

definition score_sample_quality :: "nat \<Rightarrow> u8" where
  "score_sample_quality sample_count =
     (if sample_count \<ge> 100 then 8
      else if sample_count \<ge> 40 then 5
      else if sample_count \<ge> 20 then 3
      else if sample_count \<ge> 8 then 1 else 0)"

definition score_from_permille :: "u64 \<Rightarrow> u64 \<Rightarrow> u64 \<Rightarrow> u64" where
  "score_from_permille base permille scale = base + min permille 1000 div scale"

definition cap_unless_clean_evidence :: "u64 \<Rightarrow> bool \<Rightarrow> u8 \<Rightarrow> u8" where
  "cap_unless_clean_evidence score clean soft_cap =
     (if clean then clamp_score score else clamp_score (min score (ucast soft_cap)))"

definition nonzero_sample_count :: "u64 list \<Rightarrow> nat" where
  "nonzero_sample_count values = length (filter (\<lambda>v. v > 0) values)"

definition permille_text :: "u64 \<Rightarrow> string" where
  "permille_text p = show_word (p div 10) @ ''.'' @ show_word (p mod 10) @ ''%''"

section \<open>Application queue\<close>

record QueueMeasurement =
  qm_basis :: EvidenceBasis
  qm_p95_share_permille :: u64
  qm_max_depth_at_start :: u64
  qm_sample_count :: nat
  qm_completed_p95_share_permille :: "u64 option"
  qm_partial_event_count :: nat
  qm_inflight_growth :: bool

definition growing :: "InflightCandidate option \<Rightarrow> bool" where
  "growing trend = (case trend of None \<Rightarrow> False | Some c \<Rightarrow> known_positive_growth c)"

definition inflight_growth_evidence :: "InflightCandidate \<Rightarrow> string" where
  "inflight_growth_evidence candidate =
     (let trend = ic_trend candidate;
          growth_delta = (case it_growth_delta trend of Some d \<Rightarrow> d | None \<Rightarrow> 0);
          head = ''In-flight gauge '' @ squote @ it_gauge trend @ squote
            @ '' latest active episode grew by '' @ show_int growth_delta @ '' across ''
            @ show_nat (it_sample_count trend) @ '' samples (p95='' @ show_word (it_p95_count trend)
            @ '', peak='' @ show_word (it_peak_count trend)
      in (case (ic_ordering candidate, it_growth_per_sec_milli trend) of
            (_, Some rate) \<Rightarrow> head @ '', run-relative rate='' @ show_int rate @ '' milli-counts/sec).''
          | (UnixFallback, None) \<Rightarrow>
              head @ ''); ordering used Unix-ms fallback and no precise growth rate was derived.''
          | (RunRelative, None) \<Rightarrow>
              head @ ''); precise run-relative growth rate is unavailable.''))"

definition growth_evidence :: "InflightCandidate option \<Rightarrow> string list" where
  "growth_evidence trend =
     (case trend of
        Some c \<Rightarrow> if known_positive_growth c then [inflight_growth_evidence c] else []
      | None \<Rightarrow> [])"

definition queue_measurement :: "Run \<Rightarrow> u64 list \<Rightarrow> bool \<Rightarrow> u64 option \<Rightarrow> InflightCandidate option
    \<Rightarrow> QueueMeasurement option" where
  "queue_measurement run queue_shares completed_only completed_p95 inflight_trend =
     (let profile = profile_from_run run;
          depths = List.map_filter que_depth_at_start
            (filter (\<lambda>q. \<not> completed_only \<or> que_completed q) (run_queues run))
      in map_option (\<lambda>p95.
           \<lparr>qm_basis = (if completed_only then Completed else ObservedLowerBound),
            qm_p95_share_permille = p95,
            qm_max_depth_at_start = max_or_zero depths,
            qm_sample_count = length queue_shares,
            qm_completed_p95_share_permille = completed_p95,
            qm_partial_event_count = cc_partial (pe_queues profile),
            qm_inflight_growth = growing inflight_trend\<rparr>)
         (percentile queue_shares 95 100))"

definition eligible_queue_measurement :: "Run \<Rightarrow> u64 list \<Rightarrow> bool \<Rightarrow> u64 option
    \<Rightarrow> InflightCandidate option \<Rightarrow> AnalyzeOptions \<Rightarrow> QueueMeasurement option" where
  "eligible_queue_measurement run queue_shares completed_only completed_p95 inflight_trend options =
     (case queue_measurement run queue_shares completed_only completed_p95 inflight_trend of
        None \<Rightarrow> None
      | Some m \<Rightarrow> if qm_p95_share_permille m \<ge> qo_trigger_permille (ao_queueing options)
                  then Some m else None)"

definition queue_clean_extreme :: "QueueMeasurement \<Rightarrow> bool" where
  "queue_clean_extreme m \<longleftrightarrow>
     qm_p95_share_permille m \<ge> 985 \<and> qm_max_depth_at_start m \<ge> 12
     \<and> qm_sample_count m \<ge> 20 \<and> qm_inflight_growth m"

definition queue_score :: "QueueMeasurement \<Rightarrow> u8" where
  "queue_score m =
     (let growth_bonus = (if qm_inflight_growth m then 5 else 0);
          depth_bonus = (min (qm_max_depth_at_start m) 40 * 2) div 3;
          base = score_from_permille 22 (qm_p95_share_permille m) 14
      in cap_unless_clean_evidence
           (base + depth_bonus + growth_bonus + ucast (score_sample_quality (qm_sample_count m)))
           (queue_clean_extreme m) 95)"

definition queue_magnitude ::
    "QueueMeasurement \<Rightarrow> InflightCandidate option \<Rightarrow> AnalyzeOptions \<Rightarrow> SupportedCandidate" where
  "queue_magnitude m inflight_trend options =
     (let p95 = qm_p95_share_permille m;
          max_depth = qm_max_depth_at_start m;
          evidence =
            (if qm_basis m = Completed
             then [''Queue wait at p95 consumes '' @ permille_text p95 @ '' of request time.'']
             else (case qm_completed_p95_share_permille m of
                     Some c \<Rightarrow> [''Completed-only queue wait at p95 is '' @ permille_text c
                                 @ '' of request time.'']
                   | None \<Rightarrow> [])
                  @ [''Observed queue-wait lower bound at p95 is '' @ permille_text p95
                     @ '' of request time and includes '' @ show_nat (qm_partial_event_count m)
                     @ '' partial queue event(s).''])
            @ (if max_depth > 0
               then [''Observed queue depth sample up to '' @ show_word max_depth @ ''.''] else [])
            @ growth_evidence inflight_trend
      in \<lparr>sc_suspect = suspect_with ApplicationQueuePressure (queue_score m) evidence
            [''Inspect queue admission limits and producer burst patterns.'',
             ''Compare queue wait distribution before and after increasing worker parallelism.'']
            options,
          sc_basis = qm_basis m, sc_executor_limitation = None\<rparr>)"

definition queue_candidate :: "Run \<Rightarrow> u64 list \<Rightarrow> bool \<Rightarrow> u64 option \<Rightarrow> InflightCandidate option
    \<Rightarrow> AnalyzeOptions \<Rightarrow> SupportedCandidate option" where
  "queue_candidate run queue_shares completed_only completed_p95 inflight_trend options =
     map_option (\<lambda>m. queue_magnitude m inflight_trend options)
       (eligible_queue_measurement run queue_shares completed_only completed_p95 inflight_trend options)"

fun queue_select :: "SupportedCandidate option \<Rightarrow> SupportedCandidate option
    \<Rightarrow> SupportedCandidate option" where
  "queue_select (Some c) (Some obs) = (if cand_score obs > cand_score c then Some obs else Some c)"
| "queue_select (Some c) None = Some c"
| "queue_select None (Some obs) = Some obs"
| "queue_select None None = None"

definition queue_saturation_suspect :: "Run \<Rightarrow> u64 list \<Rightarrow> u64 list \<Rightarrow> InflightCandidate option
    \<Rightarrow> AnalyzeOptions \<Rightarrow> SupportedCandidate option" where
  "queue_saturation_suspect run completed_queue_shares observed_queue_shares inflight_trend options =
     (let completed_p95 = percentile completed_queue_shares 95 100;
          completed = queue_candidate run completed_queue_shares True completed_p95 inflight_trend options;
          observed = queue_candidate run observed_queue_shares False completed_p95 inflight_trend options
      in queue_select completed observed)"

section \<open>Blocking pool\<close>

record BlockingMeasurement =
  bm_p95_queue_depth :: u64
  bm_peak_queue_depth :: u64
  bm_nonzero_sample_count :: nat
  bm_usable_sample_count :: nat
  bm_nonzero_share_permille :: u64

definition blocking_measurement :: "Run \<Rightarrow> BlockingMeasurement option" where
  "blocking_measurement run =
     (let depths = runtime_metric_series rts_blocking_queue_depth (run_runtime_snapshots run);
          nonzero = nonzero_sample_count depths;
          nz_share_permille = (if depths = [] then 0
            else of_nat nonzero * 1000 div of_nat (length depths))
      in map_option (\<lambda>p95.
           \<lparr>bm_p95_queue_depth = p95, bm_peak_queue_depth = max_or_zero depths,
            bm_nonzero_sample_count = nonzero, bm_usable_sample_count = length depths,
            bm_nonzero_share_permille = nz_share_permille\<rparr>)
         (percentile depths 95 100))"

definition eligible_blocking_measurement :: "Run \<Rightarrow> AnalyzeOptions \<Rightarrow> BlockingMeasurement option" where
  "eligible_blocking_measurement run options =
     (case blocking_measurement run of
        None \<Rightarrow> None
      | Some m \<Rightarrow>
          if bm_p95_queue_depth m > 0
             \<or> bm_nonzero_sample_count m \<ge> bo_min_nonzero_samples_for_signal (ao_blocking options)
          then Some m else None)"

definition strong_blocking_signal :: "BlockingMeasurement \<Rightarrow> AnalyzeOptions \<Rightarrow> bool" where
  "strong_blocking_signal signal options \<longleftrightarrow>
     bm_p95_queue_depth signal \<ge> bo_strong_p95_threshold (ao_blocking options)
     \<and> bm_peak_queue_depth signal \<ge> bo_strong_peak_threshold (ao_blocking options)
     \<and> bm_nonzero_share_permille signal \<ge> bo_strong_nonzero_share_permille (ao_blocking options)
     \<and> bm_usable_sample_count signal \<ge> bo_strong_min_samples (ao_blocking options)"

definition ascii_lower :: "char \<Rightarrow> char" where
  "ascii_lower c = (let n = (of_char c :: nat) in if 65 \<le> n \<and> n \<le> 90 then char_of (n + 32) else c)"

definition to_ascii_lowercase :: "string \<Rightarrow> string" where
  "to_ascii_lowercase s = map ascii_lower s"

definition str_contains :: "string \<Rightarrow> string \<Rightarrow> bool" where
  "str_contains s p \<longleftrightarrow> list_ex (prefix p) (suffixes s)"

definition stage_correlates_with_blocking_pool :: "string \<Rightarrow> AnalyzeOptions \<Rightarrow> bool" where
  "stage_correlates_with_blocking_pool stage options =
     (let lower = to_ascii_lowercase stage
      in list_ex (\<lambda>p. str_contains lower (to_ascii_lowercase (trim p)))
           (dso_blocking_correlated_stage_patterns (ao_downstream options)))"

definition blocking_clean_extreme :: "BlockingMeasurement \<Rightarrow> bool" where
  "blocking_clean_extreme signal \<longleftrightarrow>
     bm_p95_queue_depth signal \<ge> 16 \<and> bm_peak_queue_depth signal \<ge> 24
     \<and> bm_nonzero_share_permille signal \<ge> 900"

definition blocking_score :: "BlockingMeasurement \<Rightarrow> u8" where
  "blocking_score signal =
     cap_unless_clean_evidence
       (32 + min (bm_p95_queue_depth signal) 24 + min (bm_peak_queue_depth signal) 24 div 2
        + bm_nonzero_share_permille signal div 80
        + ucast (score_sample_quality (bm_usable_sample_count signal)))
       (blocking_clean_extreme signal) 94"

definition blocking_pressure_suspect :: "Run \<Rightarrow> AnalyzeOptions \<Rightarrow> Suspect option" where
  "blocking_pressure_suspect run options =
     map_option (\<lambda>signal.
        suspect_with BlockingPoolPressure (blocking_score signal)
          [''Blocking queue depth p95 is '' @ show_word (bm_p95_queue_depth signal) @ '', peak is ''
            @ show_word (bm_peak_queue_depth signal) @ '', with ''
            @ show_nat (bm_nonzero_sample_count signal) @ ''/''
            @ show_nat (bm_usable_sample_count signal) @ '' nonzero samples.'']
          [''Audit blocking sections and move avoidable synchronous work out of hot paths.'',
           ''Inspect spawn_blocking callsites for long-running CPU or I/O work.'']
          options)
       (eligible_blocking_measurement run options)"

section \<open>Executor\<close>

definition classify_relevant :: "RuntimeSnapshot list \<Rightarrow> WorkerEvidenceStatus option" where
  "classify_relevant relevant =
     (if relevant = [] then None
      else if list_ex (\<lambda>s. rts_worker_count s = Some 0) relevant then Some InvalidZero
      else
        (let counts = remdups_adj (sort (List.map_filter rts_worker_count relevant))
         in Some (case counts of
              [] \<Rightarrow> HistoricalAbsent
            | [worker_count] \<Rightarrow>
                if list_ex (\<lambda>s. rts_worker_count s = None) relevant then WorkersPartial
                else Complete worker_count
                       (list_all (\<lambda>s. rts_local_queue_depth s \<noteq> None) relevant)
            | _ \<Rightarrow> Inconsistent)))"

definition classify_worker_evidence :: "Run \<Rightarrow> WorkerEvidenceStatus option" where
  "classify_worker_evidence run =
     classify_relevant (filter (\<lambda>s. rts_global_queue_depth s \<noteq> None) (run_runtime_snapshots run))"

definition queue_per_worker_milli :: "u64 \<Rightarrow> u64 option \<Rightarrow> u32 \<Rightarrow> u64" where
  "queue_per_worker_milli global_depth local_depth workers =
     (let runnable = (ucast global_depth + ucast (unwrap_or local_depth 0) :: 128 word)
      in ucast (min (runnable * 1000 div ucast workers) (ucast u64_MAX)))"

definition normalized_queue_contribution :: "u64 \<Rightarrow> u64" where
  "normalized_queue_contribution p95 =
     (if p95 \<le> 499 then 0 else if p95 \<le> 999 then 5 else if p95 \<le> 1999 then 15
      else if p95 \<le> 3999 then 25 else if p95 \<le> 7999 then 40 else 55)"

record ExecutorMeasurement =
  em_worker_status :: WorkerEvidenceStatus
  em_p95_global_queue_depth :: u64
  em_p95_local_queue_depth :: "u64 option"
  em_p95_alive_tasks :: "u64 option"
  em_global_sample_count :: nat
  em_normalized_p95_milli :: "u64 option"
  em_normalized_sample_count :: nat
  em_missing_local_lower_bound :: bool
  em_inflight_growth :: bool

definition normalized_depths :: "Run \<Rightarrow> u32 \<Rightarrow> u64 list" where
  "normalized_depths run worker_count =
     List.map_filter (\<lambda>s. map_option (\<lambda>g. queue_per_worker_milli g (rts_local_queue_depth s) worker_count)
                            (rts_global_queue_depth s)) (run_runtime_snapshots run)"

definition executor_measurement :: "Run \<Rightarrow> WorkerEvidenceStatus \<Rightarrow> InflightCandidate option
    \<Rightarrow> ExecutorMeasurement option" where
  "executor_measurement run worker_status inflight_trend =
     (let global_depths = runtime_metric_series rts_global_queue_depth (run_runtime_snapshots run);
          local_depths = runtime_metric_series rts_local_queue_depth (run_runtime_snapshots run);
          alive = runtime_metric_series rts_alive_tasks (run_runtime_snapshots run);
          (normalized_p95, normalized_count, lower_bound) =
            (case worker_status of
               Complete worker_count local_complete \<Rightarrow>
                 (let normalized = normalized_depths run worker_count
                  in (percentile normalized 95 100, length normalized, \<not> local_complete))
             | _ \<Rightarrow> (None, 0, False))
      in map_option (\<lambda>p95_global.
           \<lparr>em_worker_status = worker_status, em_p95_global_queue_depth = p95_global,
            em_p95_local_queue_depth = percentile local_depths 95 100,
            em_p95_alive_tasks = percentile alive 95 100,
            em_global_sample_count = length global_depths,
            em_normalized_p95_milli = normalized_p95,
            em_normalized_sample_count = normalized_count,
            em_missing_local_lower_bound = lower_bound,
            em_inflight_growth = growing inflight_trend\<rparr>)
         (percentile global_depths 95 100))"

definition eligible_executor_measurement :: "Run \<Rightarrow> WorkerEvidenceStatus
    \<Rightarrow> InflightCandidate option \<Rightarrow> AnalyzeOptions \<Rightarrow> ExecutorMeasurement option" where
  "eligible_executor_measurement run worker_status inflight_trend options =
     (case executor_measurement run worker_status inflight_trend of
        None \<Rightarrow> None
      | Some m \<Rightarrow>
          let eligible =
            (case em_worker_status m of
               Complete _ _ \<Rightarrow>
                 (case em_normalized_p95_milli m of
                    None \<Rightarrow> False
                  | Some p95 \<Rightarrow>
                      p95 \<ge> exo_min_runnable_queue_per_worker_p95_milli_for_signal (ao_executor options))
             | _ \<Rightarrow> em_p95_global_queue_depth m
                      \<ge> exo_min_global_queue_p95_for_signal (ao_executor options))
          in if eligible then Some m else None)"

definition legacy_score :: "ExecutorMeasurement \<Rightarrow> u8" where
  "legacy_score m =
     (let p95_global = em_p95_global_queue_depth m;
          growth_bonus = (if em_inflight_growth m then 4 else 0);
          clean_extreme = (p95_global \<ge> 140 \<and> em_global_sample_count m \<ge> 30)
      in cap_unless_clean_evidence
           (34 + min p95_global 150 div 4
            + min (unwrap_or (em_p95_local_queue_depth m) 0) 60 div 6
            + min (unwrap_or (em_p95_alive_tasks m) 0) 400 div 40
            + growth_bonus + ucast (score_sample_quality (em_global_sample_count m)))
           clean_extreme 94)"

definition normalized_score :: "ExecutorMeasurement \<Rightarrow> u64 \<Rightarrow> u8" where
  "normalized_score m p95 =
     clamp_score (34 + normalized_queue_contribution p95 + (if em_inflight_growth m then 4 else 0)
       + ucast (score_sample_quality (em_normalized_sample_count m)))"

definition runtime_depth_evidence :: "ExecutorMeasurement \<Rightarrow> InflightCandidate option \<Rightarrow> string list" where
  "runtime_depth_evidence m inflight_trend =
     (case em_p95_local_queue_depth m of
        Some lp95 \<Rightarrow> [''Runtime local queue depth p95 is '' @ show_word lp95 @ ''.''] | None \<Rightarrow> [])
     @ (case em_p95_alive_tasks m of
        Some ap95 \<Rightarrow> [''Runtime alive_tasks p95 is '' @ show_word ap95 @ ''.''] | None \<Rightarrow> [])
     @ growth_evidence inflight_trend"

definition executor_outcome :: "ExecutorMeasurement \<Rightarrow> InflightCandidate option
    \<Rightarrow> (u8 \<times> ExecutorConfidenceLimitation option \<times> string list) option" where
  "executor_outcome m inflight_trend =
     (let p95_global = em_p95_global_queue_depth m;
          plain = ''Runtime global queue depth p95 is '' @ show_word p95_global @ ''.'';
          contention = ''Runtime global queue depth p95 is '' @ show_word p95_global
                         @ '', suggesting scheduler contention.'';
          depths = runtime_depth_evidence m inflight_trend
      in (case em_worker_status m of
            Complete worker_count _ \<Rightarrow>
              (case em_normalized_p95_milli m of
                 None \<Rightarrow> None
               | Some p95 \<Rightarrow>
                   Some (normalized_score m p95,
                     if em_missing_local_lower_bound m then Some MissingLocalDepth else None,
                     [plain] @ depths
                     @ [''Runnable queue depth p95 is '' @ show_word p95
                        @ '' milli-tasks per worker across '' @ show_nat (em_normalized_sample_count m)
                        @ '' samples with worker_count='' @ show_word worker_count @ ''.'']
                     @ (if em_missing_local_lower_bound m
                        then [''Runnable queue normalization is a lower bound because missing local queue depths were treated as zero.'']
                        else [])))
          | HistoricalAbsent \<Rightarrow>
              Some (legacy_score m, None,
                [contention] @ depths
                @ [''Worker normalization was unavailable because this historical artifact has no worker-count evidence; legacy absolute-depth scoring was used.''])
          | status \<Rightarrow>
              Some (legacy_score m, Some (AmbiguousWorkers status),
                [contention] @ depths
                @ [''Worker-count evidence is '' @ worker_status_debug status
                   @ ''; legacy absolute-depth scoring was used without inferring a worker count.''])))"

definition executor_pressure_suspect :: "Run \<Rightarrow> WorkerEvidenceStatus option
    \<Rightarrow> InflightCandidate option \<Rightarrow> AnalyzeOptions
    \<Rightarrow> (Suspect \<times> ExecutorConfidenceLimitation option) option" where
  "executor_pressure_suspect run worker_status inflight_trend options =
     (case worker_status of
        None \<Rightarrow> None
      | Some status \<Rightarrow>
          (case eligible_executor_measurement run status inflight_trend options of
             None \<Rightarrow> None
           | Some m \<Rightarrow>
               map_option (\<lambda>(score, limitation, evidence).
                   (suspect_with ExecutorPressure score evidence
                      [''Check for long polls without yielding and uneven task fan-out.'',
                       ''Compare with per-stage timings to isolate overloaded async stages.'']
                      options, limitation))
                 (executor_outcome m inflight_trend)))"

section \<open>Facts\<close>

lemma clamp_score_le: "clamp_score v \<le> 100"
proof -
  have "unat (min v 100) \<le> 100" by (simp add: unat_min)
  then have "unat (clamp_score v) \<le> 100"
    by (simp add: clamp_score_def unsigned_ucast_eq take_bit_nat_eq_self)
  then show ?thesis by (simp add: word_le_nat_alt)
qed

lemma unat_clamp_score: "unat (clamp_score v) = min (unat v) 100"
proof -
  have "unat (min v 100) \<le> 100" by (simp add: unat_min)
  then show ?thesis
    by (simp add: clamp_score_def unsigned_ucast_eq take_bit_nat_eq_self unat_min)
qed

lemma clamp_score_mono: "v \<le> w \<Longrightarrow> clamp_score v \<le> clamp_score w"
  by (simp add: word_le_nat_alt unat_clamp_score)

lemma cap_le_100: "cap_unless_clean_evidence v clean cap \<le> 100"
  by (simp add: cap_unless_clean_evidence_def clamp_score_le)

lemma unat_ucast_u8 [simp]: "unat (ucast (c :: u8) :: u64) = unat c"
  using unsigned_less [of c, where 'a = nat] by (simp add: unsigned_ucast_eq take_bit_nat_eq_self)

lemma cap_le_soft: "\<not> clean \<Longrightarrow> cap_unless_clean_evidence v clean cap \<le> cap"
  by (simp add: cap_unless_clean_evidence_def word_le_nat_alt unat_clamp_score unat_min)

lemma queue_score_soft: "95 < queue_score m \<Longrightarrow> queue_clean_extreme m"
proof (rule ccontr)
  assume "95 < queue_score m" "\<not> queue_clean_extreme m"
  moreover have "queue_score m \<le> 95" if "\<not> queue_clean_extreme m"
    unfolding queue_score_def Let_def by (rule cap_le_soft [OF that])
  ultimately show False by (simp add: not_le [symmetric])
qed

lemma blocking_score_soft: "94 < blocking_score m \<Longrightarrow> blocking_clean_extreme m"
proof (rule ccontr)
  assume "94 < blocking_score m" "\<not> blocking_clean_extreme m"
  moreover have "blocking_score m \<le> 94" if "\<not> blocking_clean_extreme m"
    unfolding blocking_score_def by (rule cap_le_soft [OF that])
  ultimately show False by (simp add: not_le [symmetric])
qed

lemma queue_score_le: "queue_score m \<le> 100"
  by (simp add: queue_score_def Let_def cap_le_100)

lemma blocking_score_le: "blocking_score m \<le> 100"
  by (simp add: blocking_score_def cap_le_100)

lemma executor_outcome_le: "executor_outcome m t = Some (sc, l, e) \<Longrightarrow> sc \<le> 100"
  by (auto simp: executor_outcome_def legacy_score_def normalized_score_def Let_def cap_le_100
      clamp_score_le split: WorkerEvidenceStatus.splits option.splits)

lemma queue_candidate_Some:
  "queue_candidate run qs co c t opts = Some k \<longleftrightarrow>
     (\<exists>m. queue_measurement run qs co c t = Some m
        \<and> qm_p95_share_permille m \<ge> qo_trigger_permille (ao_queueing opts)
        \<and> k = queue_magnitude m t opts)"
  by (auto simp: queue_candidate_def eligible_queue_measurement_def split: option.splits)

lemma queue_measurement_Some:
  "queue_measurement run qs co c t = Some m \<Longrightarrow>
     percentile qs 95 100 = Some (qm_p95_share_permille m)
     \<and> qm_basis m = (if co then Completed else ObservedLowerBound)
     \<and> qm_sample_count m = length qs \<and> qm_inflight_growth m = growing t
     \<and> qm_completed_p95_share_permille m = c"
  by (auto simp: queue_measurement_def Let_def)

lemma queue_measurement_exists:
  "percentile qs 95 100 = Some p \<Longrightarrow> \<exists>m. queue_measurement run qs co c t = Some m \<and> qm_p95_share_permille m = p"
  by (simp add: queue_measurement_def Let_def)

lemma queue_magnitude_simps [simp]:
  "cand_kind (queue_magnitude m t opts) = ApplicationQueuePressure"
  "cand_score (queue_magnitude m t opts) = queue_score m"
  "sc_basis (queue_magnitude m t opts) = qm_basis m"
  "sc_executor_limitation (queue_magnitude m t opts) = None"
  by (simp_all add: queue_magnitude_def Let_def)

lemma queue_select_cases:
  "queue_select a b = Some k \<Longrightarrow> a = Some k \<or> b = Some k"
  by (cases "(a, b)" rule: queue_select.cases) (auto split: if_splits)

lemma queue_select_None: "queue_select a b = None \<longleftrightarrow> a = None \<and> b = None"
  by (cases "(a, b)" rule: queue_select.cases) auto

lemma queue_select_max:
  "queue_select a b = Some k \<Longrightarrow> a = Some c \<Longrightarrow> cand_score c \<le> cand_score k"
  "queue_select a b = Some k \<Longrightarrow> b = Some c \<Longrightarrow> cand_score c \<le> cand_score k"
  by (cases "(a, b)" rule: queue_select.cases; force split: if_splits)+

text \<open>What is known of a queue suspect, whichever representation was selected.\<close>

lemma queue_suspect_cases:
  assumes "queue_saturation_suspect run cs obs t opts = Some k"
  obtains m co where "k = queue_magnitude m t opts"
    and "queue_measurement run (if co then cs else obs) co (percentile cs 95 100) t = Some m"
    and "qo_trigger_permille (ao_queueing opts) \<le> qm_p95_share_permille m"
proof -
  let ?c = "queue_candidate run cs True (percentile cs 95 100) t opts"
  let ?o = "queue_candidate run obs False (percentile cs 95 100) t opts"
  have "queue_select ?c ?o = Some k" using assms by (simp add: queue_saturation_suspect_def Let_def)
  then consider "?c = Some k" | "?o = Some k" using queue_select_cases by blast
  then show thesis
  proof cases
    case 1
    then show thesis using that [of _ True] by (auto simp: queue_candidate_Some)
  next
    case 2
    then show thesis using that [of _ False] by (auto simp: queue_candidate_Some)
  qed
qed

lemma blocking_suspect_Some:
  "blocking_pressure_suspect run opts = Some sp \<longleftrightarrow>
     (\<exists>m. eligible_blocking_measurement run opts = Some m \<and> blocking_pressure_suspect run opts = Some sp
        \<and> sp_kind sp = BlockingPoolPressure \<and> sp_score sp = blocking_score m)"
  by (auto simp: blocking_pressure_suspect_def)

lemma executor_suspect_Some:
  "executor_pressure_suspect run ws t opts = Some (sp, l) \<Longrightarrow>
     sp_kind sp = ExecutorPressure \<and> sp_score sp \<le> 100"
  using executor_outcome_le
  by (auto simp: executor_pressure_suspect_def split: option.splits)

section \<open>Worker evidence\<close>

lemma sorted_distinct_remdups_adj: "sorted xs \<Longrightarrow> distinct (remdups_adj xs)"
  by (induction xs rule: remdups_adj.induct) (auto simp: less_le_not_le dest: antisym)

lemma map_filter_mem: "n \<in> set (List.map_filter f xs) \<longleftrightarrow> (\<exists>s\<in>set xs. f s = Some n)"
  by (force simp: List.map_filter_def)

lemma classify_relevant_spec:
  "case classify_relevant relevant of
     None \<Rightarrow> relevant = []
   | Some InvalidZero \<Rightarrow> 0 \<in> set (List.map_filter rts_worker_count relevant)
   | Some HistoricalAbsent \<Rightarrow> relevant \<noteq> [] \<and> List.map_filter rts_worker_count relevant = []
   | Some (Complete n local_complete) \<Rightarrow> 0 < n \<and> relevant \<noteq> []
       \<and> list_all (\<lambda>s. rts_worker_count s = Some n) relevant
       \<and> local_complete = list_all (\<lambda>s. rts_local_queue_depth s \<noteq> None) relevant
   | Some WorkersPartial \<Rightarrow> card (set (List.map_filter rts_worker_count relevant)) = 1
       \<and> list_ex (\<lambda>s. rts_worker_count s = None) relevant
   | Some Inconsistent \<Rightarrow> 2 \<le> card (set (List.map_filter rts_worker_count relevant))"
proof -
  let ?cs = "List.map_filter rts_worker_count relevant"
  let ?d = "remdups_adj (sort ?cs)"
  have setd: "set ?d = set ?cs" by simp
  have card: "card (set ?cs) = length ?d"
    using distinct_card [OF sorted_distinct_remdups_adj [OF sorted_sort]] setd by metis
  have zero: "list_ex (\<lambda>s. rts_worker_count s = Some 0) relevant \<longleftrightarrow> 0 \<in> set ?cs"
    by (simp add: list_ex_iff map_filter_mem)
  show ?thesis
  proof (cases "relevant = [] \<or> 0 \<in> set ?cs")
    case True
    then show ?thesis by (auto simp: classify_relevant_def zero)
  next
    case False
    then have cl: "classify_relevant relevant = Some (case ?d of
          [] \<Rightarrow> HistoricalAbsent
        | [n] \<Rightarrow> if list_ex (\<lambda>s. rts_worker_count s = None) relevant then WorkersPartial
                 else Complete n (list_all (\<lambda>s. rts_local_queue_depth s \<noteq> None) relevant)
        | _ \<Rightarrow> Inconsistent)"
      unfolding classify_relevant_def Let_def zero by (simp only: if_False de_Morgan_disj)
    consider "?d = []" | n where "?d = [n]" | a b r where "?d = a # b # r"
      by (cases ?d rule: remdups_adj.cases) auto
    then show ?thesis
    proof cases
      case 1
      then have "?cs = []" using setd by (metis set_empty)
      then show ?thesis using cl 1 False by simp
    next
      case (2 n)
      have cs: "set ?cs = {n}" using 2 setd by (metis empty_set list.simps(15))
      have n: "0 < n" using False cs by (auto simp: word_gt_0)
      show ?thesis
      proof (cases "list_ex (\<lambda>s. rts_worker_count s = None) relevant")
        case True
        then show ?thesis using cl 2 cs by simp
      next
        case nn: False
        have "rts_worker_count s = Some n" if s: "s \<in> set relevant" for s
        proof (cases "rts_worker_count s")
          case None
          then show ?thesis using nn s by (auto simp: list_ex_iff)
        next
          case (Some k)
          then have "k \<in> set ?cs" using map_filter_mem s by metis
          then show ?thesis using cs Some by simp
        qed
        then have "list_all (\<lambda>s. rts_worker_count s = Some n) relevant" by (simp only: list_all_iff) blast
        then show ?thesis using cl 2 nn n False by simp
      qed
    next
      case (3 a b r)
      then have "2 \<le> card (set ?cs)" using card by simp
      then show ?thesis using cl 3 by simp
    qed
  qed
qed

lemma classify_complete_positive:
  "classify_worker_evidence run = Some (Complete n l) \<Longrightarrow> 0 < n"
  using classify_relevant_spec [of "filter (\<lambda>s. rts_global_queue_depth s \<noteq> None) (run_runtime_snapshots run)"]
  by (simp add: classify_worker_evidence_def)

lemma unat_queue_per_worker:
  assumes "0 < w"
  shows "unat (queue_per_worker_milli g l w)
    = min ((unat g + unat (unwrap_or l 0)) * 1000 div unat w) u64_max"
proof -
  let ?l = "unwrap_or l 0"
  have small: "unat (ucast (x :: u64) :: 128 word) = unat x" for x
    using unat_le_u64_max [of x] by (simp add: unsigned_ucast_eq take_bit_nat_eq_self)
  have w: "unat (ucast w :: 128 word) = unat w"
    using unsigned_less [of w, where 'a = nat] by (simp add: unsigned_ucast_eq take_bit_nat_eq_self)
  have sum: "unat (ucast g + ucast ?l :: 128 word) = unat g + unat ?l"
    using unat_le_u64_max [of g] unat_le_u64_max [of ?l] by (simp add: unat_word_ariths small)
  have "unat (a * 1000) = unat a * 1000" if "unat a \<le> 2 * u64_max" for a :: "128 word"
    using that by (simp add: unat_word_ariths)
  from this [of "ucast g + ucast ?l"]
  have prod: "unat ((ucast g + ucast ?l) * 1000 :: 128 word) = (unat g + unat ?l) * 1000"
    using unat_le_u64_max [of g] unat_le_u64_max [of ?l] unfolding sum by linarith
  let ?q = "(ucast g + ucast ?l) * 1000 div ucast w :: 128 word"
  have q: "unat ?q = (unat g + unat ?l) * 1000 div unat w"
    by (simp only: unat_div prod w)
  have "unat (min ?q (ucast u64_MAX)) = min (unat ?q) u64_max"
    by (simp add: unat_min small)
  moreover have "unat (ucast v :: u64) = unat v" if "unat v \<le> u64_max" for v :: "128 word"
    using that by (simp add: unsigned_ucast_eq take_bit_nat_eq_self)
  ultimately show ?thesis
    unfolding queue_per_worker_milli_def Let_def q [symmetric] by simp
qed

end
