(* ===== verification/An_Downstream.thy ===== *)
theory An_Downstream
  imports An_Scoring
begin

text \<open>
  The downstream-stage family of \<^verbatim>\<open>scoring.rs\<close>: one candidate per stage and evidence basis,
  the selection of the best by a comparator that is shown lawful, and the policy that keeps a
  stage whose name suggests blocking work below the blocking-pool suspect. The properties of
  all four families follow.
\<close>

section \<open>Stage candidates\<close>

record DownstreamMeasurement =
  dm_basis :: EvidenceBasis
  dm_stage :: string
  dm_request_sample_count :: nat
  dm_p95_attributed_latency_us :: u64
  dm_cumulative_attributed_latency_us :: u64
  dm_cumulative_share_permille :: u64
  dm_tail_share_permille :: u64
  dm_partial_event_count :: nat

record StageCandidate =
  stc_measurement :: DownstreamMeasurement
  stc_score :: u8

definition compare_stage_candidates :: "StageCandidate \<Rightarrow> StageCandidate \<Rightarrow> ordering" where
  "compare_stage_candidates a b =
     (let am = stc_measurement a; bm = stc_measurement b
      in then_with (cmp (stc_score a) (stc_score b))
        (then_with (cmp (dm_tail_share_permille am) (dm_tail_share_permille bm))
        (then_with (cmp (dm_cumulative_share_permille am) (dm_cumulative_share_permille bm))
        (then_with (cmp (dm_basis bm = ObservedLowerBound) (dm_basis am = ObservedLowerBound))
                   (cmp (dm_stage bm) (dm_stage am))))))"

definition downstream_select :: "StageCandidate list \<Rightarrow> StageCandidate option" where
  "downstream_select candidates = max_by compare_stage_candidates candidates"

definition downstream_measurement :: "StageSummary \<Rightarrow> DownstreamMeasurement" where
  "downstream_measurement summary =
     \<lparr>dm_basis = ss_basis summary, dm_stage = ss_stage summary,
      dm_request_sample_count = ss_request_samples summary,
      dm_p95_attributed_latency_us = ss_p95_attributed_latency_us summary,
      dm_cumulative_attributed_latency_us = ss_cumulative_attributed_latency_us summary,
      dm_cumulative_share_permille = ss_cumulative_share_permille summary,
      dm_tail_share_permille = ss_tail_share_permille summary,
      dm_partial_event_count = ss_partial_event_count summary\<rparr>"

definition downstream_measurements :: "Run \<Rightarrow> u64 \<Rightarrow> DownstreamMeasurement list" where
  "downstream_measurements run p95_req =
     map downstream_measurement (dual_stage_summaries run p95_req)"

definition stage_clean_extreme :: "DownstreamMeasurement \<Rightarrow> bool" where
  "stage_clean_extreme m \<longleftrightarrow>
     dm_tail_share_permille m \<ge> 960 \<and> dm_cumulative_share_permille m \<ge> 920
     \<and> dm_request_sample_count m \<ge> 20"

definition stage_score :: "DownstreamMeasurement \<Rightarrow> u8" where
  "stage_score m =
     cap_unless_clean_evidence
       (score_from_permille 24 (dm_tail_share_permille m) 11
        + dm_cumulative_share_permille m div 35
        + ucast (score_sample_quality (dm_request_sample_count m)))
       (stage_clean_extreme m) 95"

definition downstream_stage_candidates :: "Run \<Rightarrow> u64 \<Rightarrow> AnalyzeOptions \<Rightarrow> StageCandidate list" where
  "downstream_stage_candidates run p95_req options =
     map (\<lambda>m. \<lparr>stc_measurement = m, stc_score = stage_score m\<rparr>)
       (filter (\<lambda>m. \<not> dm_request_sample_count m < dso_min_stage_samples (ao_downstream options))
         (downstream_measurements run p95_req))"

definition apply_current_downstream_relation_policy :: "string \<Rightarrow> u8 \<Rightarrow> BlockingMeasurement option
    \<Rightarrow> u8 option \<Rightarrow> AnalyzeOptions \<Rightarrow> u8 \<times> string option" where
  "apply_current_downstream_relation_policy stage downstream_score blocking blocking_sc options =
     (if stage_correlates_with_blocking_pool stage options
         \<and> (case blocking of None \<Rightarrow> False | Some signal \<Rightarrow> strong_blocking_signal signal options)
         \<and> blocking_sc \<noteq> None
      then
        (let cap = saturating_sub (unwrap_or blocking_sc downstream_score)
                     (dso_blocking_correlation_score_margin (ao_downstream options))
         in (min downstream_score cap,
             Some (''Stage '' @ squote @ stage @ squote
               @ '' looks blocking-correlated; strong runtime blocking-queue evidence keeps blocking_pool_pressure prioritized.'')))
      else (downstream_score, None))"

definition downstream_stage_evidence :: "StageCandidate \<Rightarrow> string list" where
  "downstream_stage_evidence best =
     (let m = stc_measurement best; stage = ''Stage '' @ squote @ dm_stage m @ squote
      in if dm_basis m = ObservedLowerBound then
           [stage @ '' observed lower-bound p95 latency is '' @ show_word (dm_p95_attributed_latency_us m)
             @ '' us across '' @ show_nat (dm_request_sample_count m) @ '' samples and includes ''
             @ show_nat (dm_partial_event_count m) @ '' partial stage event(s).'',
            stage @ '' observed lower-bound cumulative latency is ''
             @ show_word (dm_cumulative_attributed_latency_us m) @ '' us (''
             @ show_word (dm_cumulative_share_permille m) @ '' permille of request latency).'',
            stage @ '' observed lower-bound contribution is '' @ show_word (dm_tail_share_permille m)
             @ '' permille of tail request latency.'']
         else
           [stage @ '' has p95 latency '' @ show_word (dm_p95_attributed_latency_us m)
             @ '' us across '' @ show_nat (dm_request_sample_count m) @ '' samples.'',
            stage @ '' cumulative latency is '' @ show_word (dm_cumulative_attributed_latency_us m)
             @ '' us ('' @ show_word (dm_cumulative_share_permille m) @ '' permille of request latency).'',
            stage @ '' contributes '' @ show_word (dm_tail_share_permille m)
             @ '' permille of tail request latency.''])"

definition downstream_stage_suspect :: "Run \<Rightarrow> AnalyzeOptions \<Rightarrow> SupportedCandidate option" where
  "downstream_stage_suspect run options =
     (case percentile (map req_latency_us (run_requests run)) 95 100 of
        None \<Rightarrow> None
      | Some p95_req \<Rightarrow>
          let blocking = eligible_blocking_measurement run options;
              blocking_sc = map_option blocking_score blocking
          in (case downstream_select (downstream_stage_candidates run p95_req options) of
                None \<Rightarrow> None
              | Some best \<Rightarrow>
                  let (score, correlation_evidence) =
                        apply_current_downstream_relation_policy (dm_stage (stc_measurement best))
                          (stc_score best) blocking blocking_sc options;
                      evidence = downstream_stage_evidence best
                        @ (case correlation_evidence of Some extra \<Rightarrow> [extra] | None \<Rightarrow> [])
                  in Some \<lparr>sc_suspect = suspect_with DownstreamStageDominance score evidence
                             [''Inspect downstream dependency behind stage '' @ squote
                                @ dm_stage (stc_measurement best) @ squote @ ''.'',
                              ''Collect downstream service timings and retry behavior during tail windows.'',
                              ''Review downstream SLO/error budget and align retry budget/backoff with it.'']
                             options,
                           sc_basis = dm_basis (stc_measurement best),
                           sc_executor_limitation = None\<rparr>))"

section \<open>Facts\<close>

interpretation stage_cmp: total_cmp compare_stage_candidates
proof -
  have "total_cmp (\<lambda>a b. then_with (cmp (stc_score a) (stc_score b))
        (then_with (cmp (dm_tail_share_permille (stc_measurement a)) (dm_tail_share_permille (stc_measurement b)))
        (then_with (cmp (dm_cumulative_share_permille (stc_measurement a)) (dm_cumulative_share_permille (stc_measurement b)))
        (then_with (cmp (dm_basis (stc_measurement b) = ObservedLowerBound) (dm_basis (stc_measurement a) = ObservedLowerBound))
                   (cmp (dm_stage (stc_measurement b)) (dm_stage (stc_measurement a)))))))"
    by (intro total_cmp_intros)
  then show "total_cmp compare_stage_candidates"
    unfolding compare_stage_candidates_def [abs_def] Let_def .
qed

lemma compare_stage_equal:
  "compare_stage_candidates a b = OEqual \<Longrightarrow>
     stc_score a = stc_score b \<and> dm_stage (stc_measurement a) = dm_stage (stc_measurement b)
     \<and> dm_basis (stc_measurement a) = dm_basis (stc_measurement b)"
  by (cases "dm_basis (stc_measurement a)"; cases "dm_basis (stc_measurement b)")
    (simp_all add: compare_stage_candidates_def Let_def)

lemma stage_score_le: "stage_score m \<le> 100"
  by (simp add: stage_score_def cap_le_100)

lemma stage_score_soft: "95 < stage_score m \<Longrightarrow> stage_clean_extreme m"
proof (rule ccontr)
  assume "95 < stage_score m" "\<not> stage_clean_extreme m"
  moreover have "stage_score m \<le> 95" if "\<not> stage_clean_extreme m"
    unfolding stage_score_def by (rule cap_le_soft [OF that])
  ultimately show False by (simp add: not_le [symmetric])
qed

lemma downstream_candidate_score:
  "c \<in> set (downstream_stage_candidates run p95 opts) \<Longrightarrow> stc_score c \<le> 100"
  by (auto simp: downstream_stage_candidates_def stage_score_le)

lemma relation_policy_le:
  "fst (apply_current_downstream_relation_policy st d b bs opts) \<le> d"
  by (simp add: apply_current_downstream_relation_policy_def Let_def)

lemma downstream_suspect_Some:
  assumes "downstream_stage_suspect run opts = Some k"
  obtains p95 best where "percentile (map req_latency_us (run_requests run)) 95 100 = Some p95"
    and "downstream_select (downstream_stage_candidates run p95 opts) = Some best"
    and "cand_score k = fst (apply_current_downstream_relation_policy
           (dm_stage (stc_measurement best)) (stc_score best)
           (eligible_blocking_measurement run opts)
           (map_option blocking_score (eligible_blocking_measurement run opts)) opts)"
    and "cand_kind k = DownstreamStageDominance" and "sc_basis k = dm_basis (stc_measurement best)"
    and "sc_executor_limitation k = None"
  using assms
  by (auto simp: downstream_stage_suspect_def Let_def split: option.splits prod.splits)

lemma downstream_suspect_le:
  assumes "downstream_stage_suspect run opts = Some k"
  shows "cand_score k \<le> 100"
proof (cases rule: downstream_suspect_Some [OF assms])
  case (1 p95 best)
  have "best \<in> set (downstream_stage_candidates run p95 opts)"
    using 1(2) stage_cmp.max_by_Some(1) unfolding downstream_select_def by blast
  then show ?thesis
    using 1(3) relation_policy_le downstream_candidate_score by (metis order_trans)
qed

definition executor_limitation_of :: "ExecutorMeasurement \<Rightarrow> ExecutorConfidenceLimitation option" where
  "executor_limitation_of m =
     (case em_worker_status m of
        Complete _ _ \<Rightarrow> if em_missing_local_lower_bound m then Some MissingLocalDepth else None
      | HistoricalAbsent \<Rightarrow> None
      | ws \<Rightarrow> Some (AmbiguousWorkers ws))"

lemma executor_outcome_cases:
  "(case em_worker_status m of Complete _ _ \<Rightarrow> em_normalized_p95_milli m \<noteq> None | _ \<Rightarrow> True) \<Longrightarrow>
   \<exists>sc ev. executor_outcome m t = Some (sc, executor_limitation_of m, ev)"
  by (cases "em_worker_status m")
    (auto simp: executor_outcome_def executor_limitation_of_def Let_def)

section \<open>Properties\<close>

text \<open>
  The queue family: there is no queue suspect exactly when neither the completed nor the
  observed 95th percentile share reaches the trigger; a suspect is of its kind, scores at most
  100, and above 95 only with a share of at least 98.5 percent over at least 20 requests while
  an in-flight gauge grows.
\<close>

theorem queue_suspect_rules:
  "case queue_saturation_suspect run cs obs trend opts of
     None \<Rightarrow> list_all (\<lambda>shares. case percentile shares 95 100 of None \<Rightarrow> True
              | Some p \<Rightarrow> p < qo_trigger_permille (ao_queueing opts)) [cs, obs]
   | Some k \<Rightarrow> cand_kind k = ApplicationQueuePressure \<and> cand_score k \<le> 100
       \<and> (if 95 < cand_score k
          then growing trend \<and> list_ex (\<lambda>shares. length shares \<ge> 20
                 \<and> (case percentile shares 95 100 of None \<Rightarrow> False | Some p \<Rightarrow> p \<ge> 985)) [cs, obs]
          else True)"
proof (cases "queue_saturation_suspect run cs obs trend opts")
  case None
  have "percentile shares 95 100 = Some p \<Longrightarrow> p < qo_trigger_permille (ao_queueing opts)"
    if "queue_candidate run shares co c trend opts = None" for shares co c p
    using that queue_measurement_exists [of shares p run co c trend] queue_candidate_Some
    by (metis not_le option.distinct(1))
  then show ?thesis
    using None by (auto simp: queue_saturation_suspect_def Let_def queue_select_None split: option.splits)
next
  case (Some k)
  obtain m co where m: "k = queue_magnitude m trend opts"
    "queue_measurement run (if co then cs else obs) co (percentile cs 95 100) trend = Some m"
    using queue_suspect_cases [OF Some] by metis
  note qm = queue_measurement_Some [OF m(2)]
  have "growing trend \<and> list_ex (\<lambda>shares. length shares \<ge> 20
      \<and> (case percentile shares 95 100 of None \<Rightarrow> False | Some p \<Rightarrow> p \<ge> 985)) [cs, obs]"
    if "95 < cand_score k"
  proof -
    have "queue_clean_extreme m" using that m(1) queue_score_soft by simp
    then show ?thesis using qm by (cases co) (simp_all add: queue_clean_extreme_def)
  qed
  then show ?thesis using Some m(1) queue_score_le by simp
qed

text \<open>
  Worker evidence is classified by what the snapshots with a global queue depth say: none at
  all, a zero count, no count, one count (on some or on all of them), or contradicting counts.
  A complete classification never has zero workers, so normalizing by it never divides by zero.
\<close>

theorem worker_classification:
  "let relevant = filter (\<lambda>s. rts_global_queue_depth s \<noteq> None) (run_runtime_snapshots run);
       counts = List.map_filter rts_worker_count relevant
   in case classify_worker_evidence run of
        None \<Rightarrow> relevant = []
      | Some InvalidZero \<Rightarrow> 0 \<in> set counts
      | Some HistoricalAbsent \<Rightarrow> relevant \<noteq> [] \<and> counts = []
      | Some (Complete n local_complete) \<Rightarrow> 0 < n \<and> relevant \<noteq> []
          \<and> list_all (\<lambda>s. rts_worker_count s = Some n) relevant
          \<and> local_complete = list_all (\<lambda>s. rts_local_queue_depth s \<noteq> None) relevant
      | Some WorkersPartial \<Rightarrow> card (set counts) = 1 \<and> list_ex (\<lambda>s. rts_worker_count s = None) relevant
      | Some Inconsistent \<Rightarrow> 2 \<le> card (set counts)"
  unfolding classify_worker_evidence_def Let_def by (rule classify_relevant_spec)

text \<open>
  The executor family: a suspect needs worker evidence and passes the threshold that belongs
  to it (the depth per worker when the evidence is complete, the absolute depth otherwise);
  it carries a limitation exactly when local depths are missing or the worker counts are unclear.
\<close>

theorem executor_suspect_rules:
  "case executor_pressure_suspect run status trend opts of
     None \<Rightarrow> (case status of
         None \<Rightarrow> True
       | Some ws \<Rightarrow> eligible_executor_measurement run ws trend opts = None)
   | Some (suspect, limitation) \<Rightarrow> sp_kind suspect = ExecutorPressure \<and> sp_score suspect \<le> 100
       \<and> (case status of
            None \<Rightarrow> False
          | Some (Complete n local_complete) \<Rightarrow>
              limitation = (if local_complete then None else Some MissingLocalDepth)
              \<and> (case percentile (normalized_depths run n) 95 100 of None \<Rightarrow> False
                 | Some p95 \<Rightarrow> exo_min_runnable_queue_per_worker_p95_milli_for_signal (ao_executor opts) \<le> p95)
          | Some ws \<Rightarrow>
              limitation = (if ws = HistoricalAbsent then None else Some (AmbiguousWorkers ws))
              \<and> (case percentile (runtime_metric_series rts_global_queue_depth (run_runtime_snapshots run)) 95 100
                 of None \<Rightarrow> False
                 | Some p95 \<Rightarrow> exo_min_global_queue_p95_for_signal (ao_executor opts) \<le> p95))"
proof (cases status)
  case None
  then show ?thesis by (simp add: executor_pressure_suspect_def)
next
  case status: (Some ws)
  show ?thesis
  proof (cases "eligible_executor_measurement run ws trend opts")
    case None
    then show ?thesis by (simp add: executor_pressure_suspect_def status)
  next
    case (Some m)
    have m: "em_worker_status m = ws"
      and elig: "case ws of Complete n lc \<Rightarrow> em_missing_local_lower_bound m = (\<not> lc)
          \<and> (\<exists>p. percentile (normalized_depths run n) 95 100 = Some p
               \<and> em_normalized_p95_milli m = Some p
               \<and> exo_min_runnable_queue_per_worker_p95_milli_for_signal (ao_executor opts) \<le> p)
        | _ \<Rightarrow> percentile (runtime_metric_series rts_global_queue_depth (run_runtime_snapshots run)) 95 100
              = Some (em_p95_global_queue_depth m)
            \<and> exo_min_global_queue_p95_for_signal (ao_executor opts) \<le> em_p95_global_queue_depth m"
      using Some by (auto simp: eligible_executor_measurement_def executor_measurement_def Let_def
          split: option.splits WorkerEvidenceStatus.splits if_splits)
    have "case ws of Complete n lc \<Rightarrow> em_normalized_p95_milli m \<noteq> None | _ \<Rightarrow> True"
      using elig by (auto split: WorkerEvidenceStatus.splits)
    then obtain sc ev where out: "executor_outcome m trend = Some (sc, executor_limitation_of m, ev)"
      using executor_outcome_cases [of m trend] unfolding m by blast
    then obtain sp where ex: "executor_pressure_suspect run status trend opts
          = Some (sp, executor_limitation_of m)"
      by (simp add: executor_pressure_suspect_def status Some)
    have "sp_kind sp = ExecutorPressure \<and> sp_score sp \<le> 100" by (rule executor_suspect_Some [OF ex])
    then show ?thesis
      unfolding status ex [unfolded status] option.case prod.case
      using elig by (cases ws) (auto simp: executor_limitation_of_def m)
  qed
qed

text \<open>
  The downstream family: the selected stage is not outranked by any candidate stage, its
  score is at most 100, and when its name suggests blocking work while the blocking-queue signal
  is strong, the suspect scores below the blocking-pool suspect by at least the configured
  margin (or zero).
\<close>

theorem correlated_stage_below_blocking:
  "case percentile (map req_latency_us (run_requests run)) 95 100 of
     None \<Rightarrow> downstream_stage_suspect run opts = None
   | Some p95 \<Rightarrow>
     (let candidates = downstream_stage_candidates run p95 opts
      in case (downstream_select candidates, downstream_stage_suspect run opts) of
           (None, None) \<Rightarrow> candidates = []
         | (Some best, Some k) \<Rightarrow>
             list_all (\<lambda>c. compare_stage_candidates c best \<noteq> OGreater) candidates
             \<and> cand_kind k = DownstreamStageDominance \<and> cand_score k \<le> 100
             \<and> (case blocking_pressure_suspect run opts of
                  None \<Rightarrow> cand_score k = stc_score best
                | Some b \<Rightarrow>
                    if stage_correlates_with_blocking_pool (dm_stage (stc_measurement best)) opts
                       \<and> strong_blocking_signal (the (eligible_blocking_measurement run opts)) opts
                    then unat (cand_score k) = min (unat (stc_score best))
                           (unat (sp_score b)
                            - unat (dso_blocking_correlation_score_margin (ao_downstream opts)))
                    else cand_score k = stc_score best)
         | _ \<Rightarrow> False)"
proof (cases "percentile (map req_latency_us (run_requests run)) 95 100")
  case None
  then show ?thesis by (simp add: downstream_stage_suspect_def)
next
  case (Some p95)
  let ?cs = "downstream_stage_candidates run p95 opts"
  show ?thesis
  proof (cases "downstream_select ?cs")
    case None
    then have "?cs = []" by (simp add: downstream_select_def)
    moreover have "downstream_stage_suspect run opts = None"
      using Some None by (simp add: downstream_stage_suspect_def Let_def)
    ultimately show ?thesis using Some None by simp
  next
    case best: (Some best)
    then have max: "list_all (\<lambda>c. compare_stage_candidates c best \<noteq> OGreater) ?cs"
      using stage_cmp.max_by_Some(2) [of ?cs best] by (auto simp: downstream_select_def list_all_iff)
    have "\<exists>k. downstream_stage_suspect run opts = Some k"
      using Some best by (simp add: downstream_stage_suspect_def Let_def split: prod.splits)
    then obtain k where k: "downstream_stage_suspect run opts = Some k" ..
    let ?e = "eligible_blocking_measurement run opts"
    have kk: "cand_kind k = DownstreamStageDominance"
      "cand_score k = fst (apply_current_downstream_relation_policy (dm_stage (stc_measurement best))
         (stc_score best) ?e (map_option blocking_score ?e) opts)"
      using downstream_suspect_Some [OF k] Some best by (metis option.inject)+
    have "case blocking_pressure_suspect run opts of
        None \<Rightarrow> cand_score k = stc_score best
      | Some b \<Rightarrow>
          if stage_correlates_with_blocking_pool (dm_stage (stc_measurement best)) opts
             \<and> strong_blocking_signal (the ?e) opts
          then unat (cand_score k) = min (unat (stc_score best))
                 (unat (sp_score b) - unat (dso_blocking_correlation_score_margin (ao_downstream opts)))
          else cand_score k = stc_score best"
      by (cases ?e) (auto simp: blocking_pressure_suspect_def kk(2) unat_min u64_arith Let_def
          apply_current_downstream_relation_policy_def)
    then show ?thesis using Some best k kk(1) max downstream_suspect_le [OF k] by simp
  qed
qed

end
