(* ===== verification/An_Confidence.thy ===== *)
theory An_Confidence
  imports An_Suspect TT_Order
begin

text \<open>
  Confidence and ranking: the evidence-aware caps of \<^verbatim>\<open>confidence.rs\<close> with the ambiguity
  cluster, and from \<^verbatim>\<open>lib.rs\<close> the final ordering of the suspects and the analysis warnings.
  The caps of one candidate are a sequence of steps on a pair of a cap and its notes.
\<close>

section \<open>Caps\<close>

type_synonym cap_notes = "Confidence \<times> string list"

definition TRUNCATION_NOTE :: string where
  "TRUNCATION_NOTE =
     ''Capture truncation caps confidence because dropped evidence may affect ranking.''"

definition cap_medium_if :: "bool \<Rightarrow> string \<Rightarrow> cap_notes \<Rightarrow> cap_notes" where
  "cap_medium_if cond note cn =
     (if cond then (min (fst cn) CoMedium, snd cn @ [note]) else cn)"

definition apply_family_evidence_caps :: "DiagnosisKind \<Rightarrow> EvidenceBasis \<Rightarrow> Run \<Rightarrow> bool \<Rightarrow> bool
    \<Rightarrow> cap_notes \<Rightarrow> cap_notes" where
  "apply_family_evidence_caps kind basis run runtime_missing runtime_partial cn =
     (case kind of
        ApplicationQueuePressure \<Rightarrow>
          cap_medium_if (run_queues run = [])
            ''Missing queue instrumentation limits queue-saturation confidence.''
          (cap_medium_if (tr_dropped_queues (run_truncation run) > 0) TRUNCATION_NOTE
          (cap_medium_if (basis = ObservedLowerBound) PARTIAL_QUEUE_CONFIDENCE_NOTE cn))
      | DownstreamStageDominance \<Rightarrow>
          cap_medium_if (run_stages run = [])
            ''Missing stage instrumentation limits downstream-stage confidence.''
          (cap_medium_if (tr_dropped_stages (run_truncation run) > 0) TRUNCATION_NOTE
          (cap_medium_if (basis = ObservedLowerBound) PARTIAL_STAGE_CONFIDENCE_NOTE cn))
      | InsufficientEvidence \<Rightarrow> cn
      | _ \<Rightarrow>
          (let cn = cap_medium_if (tr_dropped_runtime_snapshots (run_truncation run) > 0)
                      TRUNCATION_NOTE cn
           in if runtime_missing
              then cap_medium_if True
                     ''Missing runtime snapshots limit executor/blocking confidence.'' cn
              else cap_medium_if runtime_partial
                     ''Runtime snapshots are partial; missing runtime queue-depth fields limit executor/blocking confidence.'' cn))"

text \<open>The ambiguity cluster: the positions of the top candidates that score too close together.\<close>

definition current_ambiguity_cluster_indices ::
    "SupportedCandidate list \<Rightarrow> AnalyzeOptions \<Rightarrow> nat list" where
  "current_ambiguity_cluster_indices suspects options =
     (let ranked = sort_by (\<lambda>a b. cmp (cand_score (snd b)) (cand_score (snd a)))
            (filter (\<lambda>p. cand_kind (snd p) \<noteq> InsufficientEvidence) (enumerate 0 suspects));
          min_score = cfo_ambiguity_min_score (ao_confidence options)
      in case ranked of
           [] \<Rightarrow> []
         | first # _ \<Rightarrow>
             if cand_score (snd first) < min_score then []
             else
               (let cluster = map fst (takeWhile (\<lambda>p. cand_score (snd p) \<ge> min_score
                      \<and> abs_diff (cand_score (snd first)) (cand_score (snd p))
                          \<le> cfo_ambiguity_score_gap (ao_confidence options)) ranked)
                in if length cluster \<ge> 2 then cluster else []))"

definition executor_limitation_note :: "ExecutorConfidenceLimitation \<Rightarrow> string" where
  "executor_limitation_note limitation =
     (case limitation of
        MissingLocalDepth \<Rightarrow>
          ''Missing local queue depth makes normalized runnable depth a lower bound; executor confidence cannot exceed medium.''
      | AmbiguousWorkers status \<Rightarrow>
          ''Ambiguous worker-count evidence ('' @ worker_status_debug status
          @ '') requires legacy executor scoring; confidence cannot exceed medium.'')"

definition request_caps :: "bool \<Rightarrow> Run \<Rightarrow> EvidenceQuality \<Rightarrow> AnalyzeOptions \<Rightarrow> cap_notes" where
  "request_caps is_insufficient run quality options =
     (let cap = (if \<not> is_insufficient \<and> eq_quality quality = EqWeak then min CoHigh CoMedium else CoHigh);
          cn = (if \<not> is_insufficient \<and> run_requests run = []
                then (CoLow, [''Low completed-request count caps confidence.''])
                else cap_medium_if (low_requests run options \<and> \<not> is_insufficient)
                       ''Low completed-request count caps confidence.'' (cap, []))
      in cap_medium_if (tr_dropped_requests (run_truncation run) > 0 \<and> \<not> is_insufficient)
           TRUNCATION_NOTE cn)"

definition candidate_caps :: "Run \<Rightarrow> EvidenceQuality \<Rightarrow> AnalyzeOptions \<Rightarrow> bool \<Rightarrow> SupportedCandidate
    \<Rightarrow> cap_notes" where
  "candidate_caps run quality options ambiguity_capped scored =
     (let missing = (run_runtime_snapshots run = []);
          partial = (\<not> missing
            \<and> (all_none rts_blocking_queue_depth (run_runtime_snapshots run)
               \<or> all_none rts_local_queue_depth (run_runtime_snapshots run)
               \<or> all_none rts_global_queue_depth (run_runtime_snapshots run)));
          cn = request_caps (cand_kind scored = InsufficientEvidence) run quality options;
          cn = apply_family_evidence_caps (cand_kind scored) (sc_basis scored) run missing partial cn;
          cn = (case sc_executor_limitation scored of
                  Some l \<Rightarrow> cap_medium_if True (executor_limitation_note l) cn | None \<Rightarrow> cn)
      in cap_medium_if ambiguity_capped
           ''Top suspects are close in score; confidence is capped by ambiguity.'' cn)"

definition cap_candidate :: "Run \<Rightarrow> EvidenceQuality \<Rightarrow> AnalyzeOptions \<Rightarrow> nat list \<Rightarrow> nat
    \<Rightarrow> SupportedCandidate \<Rightarrow> SupportedCandidate" where
  "cap_candidate run quality options cluster i scored =
     (let suspect = sc_suspect scored;
          ambiguity_capped = (i \<in> set cluster \<and> sp_kind suspect \<noteq> InsufficientEvidence);
          (cap, notes) = candidate_caps run quality options ambiguity_capped scored;
          original = sp_confidence suspect;
          confidence = min original cap;
          cap_changed_bucket = (confidence \<noteq> original);
          has_material_partial_note = list_ex (\<lambda>note. note = PARTIAL_QUEUE_CONFIDENCE_NOTE
            \<or> note = PARTIAL_STAGE_CONFIDENCE_NOTE) notes;
          has_executor_limitation = (sc_executor_limitation scored \<noteq> None);
          notes = (if cap_changed_bucket \<or> ambiguity_capped \<or> has_material_partial_note
                      \<or> has_executor_limitation
                   then stable_dedup notes else [])
      in scored\<lparr>sc_suspect := suspect\<lparr>sp_confidence := confidence, sp_confidence_notes := notes\<rparr>\<rparr>)"

definition apply_evidence_aware_confidence_caps_scored ::
    "SupportedCandidate list \<Rightarrow> Run \<Rightarrow> EvidenceQuality \<Rightarrow> AnalyzeOptions \<Rightarrow> SupportedCandidate list" where
  "apply_evidence_aware_confidence_caps_scored suspects run quality options =
     (let cluster = current_ambiguity_cluster_indices suspects options
      in map (\<lambda>(i, scored). cap_candidate run quality options cluster i scored)
           (enumerate 0 suspects))"

section \<open>Ranking\<close>

fun confidence_rank :: "Confidence \<Rightarrow> nat" where
  "confidence_rank CoHigh = 3"
| "confidence_rank CoMedium = 2"
| "confidence_rank CoLow = 1"

fun diagnosis_kind_rank :: "DiagnosisKind \<Rightarrow> nat" where
  "diagnosis_kind_rank ApplicationQueuePressure = 0"
| "diagnosis_kind_rank BlockingPoolPressure = 1"
| "diagnosis_kind_rank ExecutorPressure = 2"
| "diagnosis_kind_rank DownstreamStageDominance = 3"
| "diagnosis_kind_rank InsufficientEvidence = 255"

definition final_suspect_order :: "SupportedCandidate \<Rightarrow> SupportedCandidate \<Rightarrow> ordering" where
  "final_suspect_order a b =
     (let a_insufficient = (cand_kind a = InsufficientEvidence);
          b_insufficient = (cand_kind b = InsufficientEvidence)
      in then_with (cmp a_insufficient b_insufficient)
        (then_with (cmp (confidence_rank (sp_confidence (sc_suspect b)))
                        (confidence_rank (sp_confidence (sc_suspect a))))
        (then_with (cmp (cand_score b) (cand_score a))
                   (cmp (diagnosis_kind_rank (cand_kind a)) (diagnosis_kind_rank (cand_kind b))))))"

definition rebucket :: "AnalyzeOptions \<Rightarrow> SupportedCandidate \<Rightarrow> SupportedCandidate" where
  "rebucket options scored =
     scored\<lparr>sc_suspect := (sc_suspect scored)\<lparr>sp_confidence :=
       confidence_from_score (cand_score scored) options\<rparr>\<rparr>"

definition finalize_scored_suspects ::
    "SupportedCandidate list \<Rightarrow> Run \<Rightarrow> EvidenceQuality \<Rightarrow> AnalyzeOptions \<Rightarrow> Suspect list" where
  "finalize_scored_suspects suspects run quality options =
     map sc_suspect (sort_by final_suspect_order
       (apply_evidence_aware_confidence_caps_scored (map (rebucket options) suspects) run quality options))"

definition AMBIGUITY_WARNING :: string where
  "AMBIGUITY_WARNING =
     ''Top suspects are close in score; treat ranking as ambiguous and validate both with next checks.''"

definition ambiguity_warning :: "Suspect list \<Rightarrow> AnalyzeOptions \<Rightarrow> string option" where
  "ambiguity_warning suspects options =
     (let ranked = sort_by (\<lambda>a b. cmp (sp_score b) (sp_score a))
            (filter (\<lambda>s. sp_kind s \<noteq> InsufficientEvidence) suspects);
          min_score = cfo_ambiguity_min_score (ao_confidence options)
      in case ranked of
           a # b # _ \<Rightarrow>
             if sp_score a \<ge> min_score \<and> sp_score b \<ge> min_score
                \<and> abs_diff (sp_score a) (sp_score b) \<le> cfo_ambiguity_score_gap (ao_confidence options)
             then Some AMBIGUITY_WARNING else None
         | _ \<Rightarrow> None)"

definition analysis_warnings :: "Run \<Rightarrow> Suspect list \<Rightarrow> AnalyzeOptions \<Rightarrow> string list" where
  "analysis_warnings run suspects options =
     (let primary_kind = (case suspects of [] \<Rightarrow> None | s # _ \<Rightarrow> Some (sp_kind s));
          runtime_distinction_relevant = list_ex (\<lambda>s. sp_kind s = BlockingPoolPressure
            \<or> sp_kind s = ExecutorPressure) suspects;
          strong_non_runtime_primary = (case suspects of [] \<Rightarrow> False
            | s # _ \<Rightarrow> (sp_kind s = ApplicationQueuePressure \<or> sp_kind s = DownstreamStageDominance)
                       \<and> sp_score s \<ge> cfo_high_score_threshold (ao_confidence options))
      in truncation_warnings run
         @ (if low_requests run options
            then [''Low completed-request count; diagnosis ranking may be unstable for this run window.'']
            else [])
         @ (if run_queues run = [] \<and> primary_kind = Some ApplicationQueuePressure
            then [''No queue events captured; queue saturation interpretation is limited.''] else [])
         @ (if run_stages run = [] \<and> primary_kind = Some DownstreamStageDominance
            then [''No stage events captured; downstream-stage interpretation is limited.''] else [])
         @ (if run_runtime_snapshots run = [] then
              (if \<not> strong_non_runtime_primary
               then [''No runtime snapshots captured; executor and blocking-pressure interpretation is limited.'']
               else [])
            else if runtime_distinction_relevant
               \<and> (all_none rts_blocking_queue_depth (run_runtime_snapshots run)
                  \<or> all_none rts_local_queue_depth (run_runtime_snapshots run))
            then [''Runtime snapshots are missing blocking_queue_depth or local_queue_depth; separating executor vs blocking pressure is limited.'']
            else [])
         @ (case ambiguity_warning suspects options of Some w \<Rightarrow> [w] | None \<Rightarrow> []))"

section \<open>What the caps allow\<close>

lemma fst_cap_medium_if [simp]:
  "fst (cap_medium_if c note cn) = (if c then min (fst cn) CoMedium else fst cn)"
  by (simp add: cap_medium_if_def)

lemma min_confidence_high [simp]: "min (a :: Confidence) CoMedium \<noteq> CoHigh"
  by (cases a) (auto simp: min_def)

definition family_clean :: "DiagnosisKind \<Rightarrow> EvidenceBasis \<Rightarrow> Run \<Rightarrow> bool" where
  "family_clean kind basis run \<longleftrightarrow>
     (case kind of
        ApplicationQueuePressure \<Rightarrow> basis = Completed \<and> run_queues run \<noteq> []
          \<and> tr_dropped_queues (run_truncation run) = 0
      | DownstreamStageDominance \<Rightarrow> basis = Completed \<and> run_stages run \<noteq> []
          \<and> tr_dropped_stages (run_truncation run) = 0
      | InsufficientEvidence \<Rightarrow> True
      | _ \<Rightarrow> runtime_status run = ScPresent)"

lemma basis_not_lower: "b \<noteq> ObservedLowerBound \<longleftrightarrow> b = Completed"
  by (cases b) simp_all

lemma family_caps_high:
  "fst (apply_family_evidence_caps kind basis run (run_runtime_snapshots run = [])
     (run_runtime_snapshots run \<noteq> []
        \<and> (all_none rts_blocking_queue_depth (run_runtime_snapshots run)
           \<or> all_none rts_local_queue_depth (run_runtime_snapshots run)
           \<or> all_none rts_global_queue_depth (run_runtime_snapshots run))) cn) = CoHigh
   \<longleftrightarrow> fst cn = CoHigh \<and> family_clean kind basis run"
  by (cases kind) (auto simp: apply_family_evidence_caps_def family_clean_def Let_def
      runtime_status_def basis_not_lower word_gt_0)

definition clean_for_high :: "Run \<Rightarrow> EvidenceQuality \<Rightarrow> AnalyzeOptions \<Rightarrow> SupportedCandidate \<Rightarrow> bool" where
  "clean_for_high run quality options c \<longleftrightarrow>
     eq_quality quality \<noteq> EqWeak \<and> run_requests run \<noteq> [] \<and> \<not> low_requests run options
     \<and> tr_dropped_requests (run_truncation run) = 0
     \<and> family_clean (cand_kind c) (sc_basis c) run \<and> sc_executor_limitation c = None"

lemma request_caps_high:
  "fst (request_caps is_insufficient run quality options) = CoHigh \<longleftrightarrow>
     is_insufficient \<or> (eq_quality quality \<noteq> EqWeak \<and> run_requests run \<noteq> []
       \<and> \<not> low_requests run options \<and> tr_dropped_requests (run_truncation run) = 0)"
  by (auto simp: request_caps_def Let_def word_gt_0)

lemma candidate_caps_high:
  assumes "fst (candidate_caps run quality options amb c) = CoHigh"
    and "cand_kind c \<noteq> InsufficientEvidence"
  shows "clean_for_high run quality options c \<and> \<not> amb"
  using assms
  by (auto simp: candidate_caps_def Let_def clean_for_high_def family_caps_high request_caps_high
      split: if_splits option.splits)

lemma cap_candidate_frame [simp]:
  "cand_kind (cap_candidate run q opts cl i c) = cand_kind c"
  "cand_score (cap_candidate run q opts cl i c) = cand_score c"
  "sp_evidence (sc_suspect (cap_candidate run q opts cl i c)) = sp_evidence (sc_suspect c)"
  "sp_next_checks (sc_suspect (cap_candidate run q opts cl i c)) = sp_next_checks (sc_suspect c)"
  "sc_basis (cap_candidate run q opts cl i c) = sc_basis c"
  "sc_executor_limitation (cap_candidate run q opts cl i c) = sc_executor_limitation c"
  by (simp_all add: cap_candidate_def Let_def split: prod.splits)

lemma cap_candidate_confidence:
  "sp_confidence (sc_suspect (cap_candidate run q opts cl i c)) =
     min (sp_confidence (sc_suspect c))
       (fst (candidate_caps run q opts (i \<in> set cl \<and> cand_kind c \<noteq> InsufficientEvidence) c))"
  by (simp add: cap_candidate_def Let_def split: prod.splits)

lemma caps_length [simp]:
  "length (apply_evidence_aware_confidence_caps_scored cs run q opts) = length cs"
  by (simp add: apply_evidence_aware_confidence_caps_scored_def Let_def)

lemma caps_nth:
  "i < length cs \<Longrightarrow> apply_evidence_aware_confidence_caps_scored cs run q opts ! i
     = cap_candidate run q opts (current_ambiguity_cluster_indices cs opts) i (cs ! i)"
  by (simp add: apply_evidence_aware_confidence_caps_scored_def Let_def nth_enumerate_eq)

lemma caps_kind_score:
  "map (\<lambda>c. (cand_kind c, cand_score c)) (apply_evidence_aware_confidence_caps_scored cs run q opts)
     = map (\<lambda>c. (cand_kind c, cand_score c)) cs"
  by (rule nth_equalityI) (simp_all add: caps_nth)

lemma rebucket_simps [simp]:
  "cand_kind (rebucket opts c) = cand_kind c" "cand_score (rebucket opts c) = cand_score c"
  "sc_basis (rebucket opts c) = sc_basis c"
  "sp_confidence (sc_suspect (rebucket opts c)) = confidence_from_score (cand_score c) opts"
  by (simp_all add: rebucket_def)

section \<open>The final order\<close>

interpretation suspect_cmp: total_cmp final_suspect_order
  unfolding final_suspect_order_def [abs_def] Let_def by (intro total_cmp_intros)

lemma confidence_rank_less [simp]: "confidence_rank a < confidence_rank b \<longleftrightarrow> a < b"
  by (cases a; cases b; simp add: less_Confidence_def)

lemma confidence_rank_eq [simp]: "confidence_rank a = confidence_rank b \<longleftrightarrow> a = b"
  by (cases a; cases b; simp)

definition ranked_before :: "Suspect \<Rightarrow> Suspect \<Rightarrow> bool" where
  "ranked_before a b \<longleftrightarrow>
     (if sp_kind b = InsufficientEvidence then True
      else if sp_kind a = InsufficientEvidence then False
      else sp_confidence b < sp_confidence a
        \<or> (sp_confidence a = sp_confidence b
           \<and> (sp_score b < sp_score a
              \<or> (sp_score a = sp_score b
                 \<and> diagnosis_kind_rank (sp_kind a) \<le> diagnosis_kind_rank (sp_kind b)))))"

lemma final_order_ranked:
  "final_suspect_order a b \<noteq> OGreater \<Longrightarrow> ranked_before (sc_suspect a) (sc_suspect b)"
  by (cases "cand_kind a = InsufficientEvidence"; cases "cand_kind b = InsufficientEvidence")
    (auto simp: final_suspect_order_def ranked_before_def Let_def cmp_def split: if_splits)

lemma finalize_kind_score:
  "mset (map (\<lambda>s. (sp_kind s, sp_score s)) (finalize_scored_suspects cs run q opts))
     = mset (map (\<lambda>c. (cand_kind c, cand_score c)) cs)"
proof -
  let ?capped = "apply_evidence_aware_confidence_caps_scored (map (rebucket opts) cs) run q opts"
  have "mset (map (\<lambda>s. (sp_kind s, sp_score s)) (finalize_scored_suspects cs run q opts))
      = mset (map (\<lambda>c. (cand_kind c, cand_score c)) ?capped)"
    by (simp add: finalize_scored_suspects_def image_mset.compositionality comp_def)
  also have "\<dots> = mset (map (\<lambda>c. (cand_kind c, cand_score c)) (map (rebucket opts) cs))"
    by (simp only: caps_kind_score)
  finally show ?thesis by (simp add: comp_def)
qed

lemma finalize_length: "length (finalize_scored_suspects cs run q opts) = length cs"
  by (simp add: finalize_scored_suspects_def)

section \<open>Ambiguity\<close>

text \<open>Both tests look at the two best scores only, in descending order.\<close>

definition descending :: "u8 list \<Rightarrow> u8 list" where
  "descending xs = rev (sort xs)"

lemma sort_by_descending:
  "map f (sort_by (\<lambda>a b. cmp (f b) (f a)) xs) = descending (map f xs)"
proof -
  let ?l = "sort_by (\<lambda>a b. cmp b a) (map f xs)"
  have "sorted_wrt (\<lambda>a b. cmp b a \<noteq> OGreater) ?l"
    by (rule total_cmp.sort_by_sorted [OF total_cmp_key_desc [where f = "\<lambda>x. x"]])
  then have "sorted (rev ?l)" by (simp add: sorted_wrt_rev not_less)
  then have "sort (map f xs) = rev ?l"
    by (intro properties_for_sort) simp_all
  then have "descending (map f xs) = ?l" by (simp add: descending_def)
  then show ?thesis by (simp add: sort_by_map)
qed

lemma descending_mset: "mset xs = mset ys \<Longrightarrow> descending xs = descending ys"
proof -
  assume "mset xs = mset ys"
  then have "sort xs = sort ys" by (intro properties_for_sort) simp_all
  then show "descending xs = descending ys" by (simp add: descending_def)
qed

definition close_top :: "AnalyzeOptions \<Rightarrow> u8 list \<Rightarrow> bool" where
  "close_top options scores =
     (case scores of
        a # b # _ \<Rightarrow> cfo_ambiguity_min_score (ao_confidence options) \<le> a
          \<and> cfo_ambiguity_min_score (ao_confidence options) \<le> b
          \<and> abs_diff a b \<le> cfo_ambiguity_score_gap (ao_confidence options)
      | _ \<Rightarrow> False)"

definition real_scores :: "(DiagnosisKind \<times> u8) list \<Rightarrow> u8 list" where
  "real_scores ks = map snd (filter (\<lambda>p. fst p \<noteq> InsufficientEvidence) ks)"

lemma ambiguity_warning_iff:
  "ambiguity_warning suspects options \<noteq> None \<longleftrightarrow>
     close_top options (descending (real_scores (map (\<lambda>s. (sp_kind s, sp_score s)) suspects)))"
proof -
  let ?r = "sort_by (\<lambda>a b. cmp (sp_score b) (sp_score a))
    (filter (\<lambda>s. sp_kind s \<noteq> InsufficientEvidence) suspects)"
  have scores: "map sp_score ?r
      = descending (real_scores (map (\<lambda>s. (sp_kind s, sp_score s)) suspects))"
    by (simp add: sort_by_descending real_scores_def filter_map comp_def)
  have "ambiguity_warning suspects options \<noteq> None \<longleftrightarrow> close_top options (map sp_score ?r)"
    unfolding ambiguity_warning_def Let_def close_top_def
    by (cases ?r rule: remdups_adj.cases) auto
  then show ?thesis by (simp only: scores)
qed

lemma filter_snd_enumerate:
  "map snd (filter (\<lambda>p. P (snd p)) (enumerate n xs)) = filter P xs"
  by (induction xs arbitrary: n) auto

lemma ambiguity_cluster_iff:
  "current_ambiguity_cluster_indices cs options \<noteq> [] \<longleftrightarrow>
     close_top options (descending (real_scores (map (\<lambda>c. (cand_kind c, cand_score c)) cs)))"
proof -
  let ?f = "filter (\<lambda>p. cand_kind (snd p) \<noteq> InsufficientEvidence) (enumerate 0 cs)"
  let ?r = "sort_by (\<lambda>a b. cmp (cand_score (snd b)) (cand_score (snd a))) ?f"
  have "map (\<lambda>p. cand_score (snd p)) ?f = map cand_score (filter (\<lambda>c. cand_kind c \<noteq> InsufficientEvidence) cs)"
    using filter_snd_enumerate [of "\<lambda>c. cand_kind c \<noteq> InsufficientEvidence" 0 cs]
    by (metis (no_types, lifting) list.map_comp comp_def map_eq_conv)
  then have scores: "map (\<lambda>p. cand_score (snd p)) ?r
      = descending (real_scores (map (\<lambda>c. (cand_kind c, cand_score c)) cs))"
    by (simp add: sort_by_descending [of "\<lambda>p. cand_score (snd p)"] real_scores_def filter_map comp_def)
  have "current_ambiguity_cluster_indices cs options \<noteq> []
      \<longleftrightarrow> close_top options (map (\<lambda>p. cand_score (snd p)) ?r)"
    unfolding current_ambiguity_cluster_indices_def Let_def close_top_def
    by (cases ?r rule: remdups_adj.cases) (auto simp: not_le Suc_le_eq)
  then show ?thesis by (simp only: scores)
qed

section \<open>The finalized suspects\<close>

lemma finalize_sorted: "sorted_wrt ranked_before (finalize_scored_suspects candidates run quality opts)"
proof -
  let ?capped = "apply_evidence_aware_confidence_caps_scored (map (rebucket opts) candidates) run quality opts"
  have "sorted_wrt (\<lambda>a b. final_suspect_order a b \<noteq> OGreater) (sort_by final_suspect_order ?capped)"
    by (rule suspect_cmp.sort_by_sorted)
  then have "sorted_wrt (\<lambda>a b. ranked_before (sc_suspect a) (sc_suspect b))
      (sort_by final_suspect_order ?capped)"
    by (rule sorted_wrt_mono_rel [rotated]) (rule final_order_ranked)
  then show ?thesis by (simp add: finalize_scored_suspects_def sorted_wrt_map)
qed

lemma finalize_high_clean:
  "list_all (\<lambda>s.
       if sp_confidence s = CoHigh \<and> sp_kind s \<noteq> InsufficientEvidence
       then cfo_high_score_threshold (ao_confidence opts) \<le> sp_score s
          \<and> list_ex (\<lambda>c. cand_kind c = sp_kind s \<and> cand_score c = sp_score s
               \<and> clean_for_high run quality opts c) candidates
       else True)
     (finalize_scored_suspects candidates run quality opts)"
proof -
  let ?cs = "map (rebucket opts) candidates"
  have one: "cfo_high_score_threshold (ao_confidence opts) \<le> sp_score s
      \<and> (\<exists>c\<in>set candidates. cand_kind c = sp_kind s \<and> cand_score c = sp_score s
               \<and> clean_for_high run quality opts c)"
    if s: "s \<in> set (finalize_scored_suspects candidates run quality opts)"
      "sp_confidence s = CoHigh" "sp_kind s \<noteq> InsufficientEvidence" for s
  proof -
    obtain i where i: "i < length candidates" and
      seq: "s = sc_suspect (apply_evidence_aware_confidence_caps_scored ?cs run quality opts ! i)"
      using s(1) by (auto simp: finalize_scored_suspects_def in_set_conv_nth)
    let ?c = "rebucket opts (candidates ! i)"
    let ?cl = "current_ambiguity_cluster_indices ?cs opts"
    have c: "s = sc_suspect (cap_candidate run quality opts ?cl i ?c)"
      using i seq by (simp add: caps_nth)
    have "min (confidence_from_score (cand_score ?c) opts)
        (fst (candidate_caps run quality opts (i \<in> set ?cl \<and> cand_kind ?c \<noteq> InsufficientEvidence) ?c))
        = CoHigh"
      using s(2) c by (simp add: cap_candidate_confidence)
    then have high: "confidence_from_score (cand_score ?c) opts = CoHigh"
      "fst (candidate_caps run quality opts (i \<in> set ?cl \<and> cand_kind ?c \<noteq> InsufficientEvidence) ?c) = CoHigh"
      by (metis confidence_order(6) min.cobounded1 min.cobounded2)+
    have ks: "cand_kind ?c = sp_kind s" "cand_score ?c = sp_score s" using c by simp_all
    have "clean_for_high run quality opts ?c"
      using candidate_caps_high [OF high(2)] s(3) ks by simp
    then have "clean_for_high run quality opts (candidates ! i)"
      by (simp add: clean_for_high_def rebucket_def)
    moreover have "cfo_high_score_threshold (ao_confidence opts) \<le> sp_score s"
      using high(1) ks(2) by (auto simp: confidence_from_score_def split: if_splits)
    moreover have "candidates ! i \<in> set candidates" using i by simp
    ultimately show ?thesis using ks by auto
  qed
  then show ?thesis by (auto simp: list_all_iff list_ex_iff)
qed

section \<open>Properties\<close>

text \<open>
  The ranking is right: the finalized suspects are exactly the candidates (kind and score),
  ordered by confidence, then score, then the fixed order of the kinds, with an insufficient
  evidence entry after all others.
\<close>

theorem finalized_suspects_ranked:
  "mset (map (\<lambda>s. (sp_kind s, sp_score s)) (finalize_scored_suspects candidates run quality opts))
     = mset (map (\<lambda>c. (cand_kind c, cand_score c)) candidates)
   \<and> sorted_wrt ranked_before (finalize_scored_suspects candidates run quality opts)"
  using finalize_kind_score finalize_sorted by (rule conjI)

text \<open>
  High confidence is only given on clean evidence: a finalized suspect with high confidence
  reaches the high score threshold and comes from a candidate of its kind and score for which
  the evidence quality is not weak, enough requests completed and none was dropped, the events
  of its own family are present, complete and not truncated, and no executor limitation holds.
\<close>

theorem high_confidence_needs_clean_evidence:
  "list_all (\<lambda>s.
       if sp_confidence s = CoHigh \<and> sp_kind s \<noteq> InsufficientEvidence
       then cfo_high_score_threshold (ao_confidence opts) \<le> sp_score s
          \<and> list_ex (\<lambda>c. cand_kind c = sp_kind s \<and> cand_score c = sp_score s
               \<and> clean_for_high run quality opts c) candidates
       else True)
     (finalize_scored_suspects candidates run quality opts)"
  by (rule finalize_high_clean)

text \<open>
  The two ambiguity tests agree: the ambiguity warning over the finalized ranking is given
  exactly when the confidence caps found an ambiguity cluster among the candidates, although one
  compares the two best suspects and the other collects a cluster by position.
\<close>

theorem ambiguity_warning_matches_cluster:
  "ambiguity_warning (finalize_scored_suspects candidates run quality opts) opts \<noteq> None
     \<longleftrightarrow> current_ambiguity_cluster_indices (map (rebucket opts) candidates) opts \<noteq> []"
proof -
  let ?k = "\<lambda>s. (sp_kind s, sp_score s)"
  have "mset (real_scores (map ?k (finalize_scored_suspects candidates run quality opts)))
      = mset (real_scores (map (\<lambda>c. (cand_kind c, cand_score c)) candidates))"
    using finalize_kind_score [of candidates run quality opts]
    unfolding real_scores_def by (simp only: mset_map mset_filter)
  from descending_mset [OF this] show ?thesis
    unfolding ambiguity_warning_iff ambiguity_cluster_iff by (simp add: comp_def)
qed

end
