(* ===== verification/An_Registry.thy ===== *)
theory An_Registry
  imports An_Options TT_Order
begin

text \<open>
  The registry of option paths, \<^verbatim>\<open>options/registry.rs\<close>, and the checked
  \<^verbatim>\<open>path=value\<close> overrides of \<^verbatim>\<open>options/overrides.rs\<close>. A registry entry carries its path, the
  kind of its value, the displayed default and a reader and writer of one field. The writer of
  the source is \<^verbatim>\<open>unreachable!\<close> on a value of another kind: here it returns \<open>None\<close>, and the
  lemmas show that no path reaches it. The explanatory texts of an entry are not modelled.
\<close>

section \<open>Values of options\<close>

datatype OptionValue =
    OvU64 u64
  | OvUsize nat
  | OvU8 u8
  | OvBool bool
  | OvStringList "string list"

datatype ValueKind = KU64 | KUsize | KU8 | KBool | KStringList

fun value_kind :: "OptionValue \<Rightarrow> ValueKind" where
  "value_kind (OvU64 _) = KU64"
| "value_kind (OvUsize _) = KUsize"
| "value_kind (OvU8 _) = KU8"
| "value_kind (OvBool _) = KBool"
| "value_kind (OvStringList _) = KStringList"

fun display_value :: "OptionValue \<Rightarrow> string" where
  "display_value (OvU64 v) = show_word v"
| "display_value (OvUsize v) = show_nat v"
| "display_value (OvU8 v) = show_word v"
| "display_value (OvBool v) = (if v then ''true'' else ''false'')"
| "display_value (OvStringList values) = join '','' values"

text \<open>
  \<^verbatim>\<open>str::parse\<close> of an unsigned type: an optional leading plus sign, then at least one decimal
  digit, and no value above the maximum of the type.
\<close>

definition parse_unsigned :: "nat \<Rightarrow> string \<Rightarrow> nat option" where
  "parse_unsigned bound s =
     (let digits = (if s \<noteq> [] \<and> hd s = CHR ''+'' then tl s else s) in
      if digits = [] \<or> \<not> list_all is_digit digits then None
      else if digits_value digits \<le> bound then Some (digits_value digits) else None)"

fun split_on :: "char \<Rightarrow> string \<Rightarrow> string list" where
  "split_on sep [] = [[]]"
| "split_on sep (c # cs) =
     (if c = sep then [] # split_on sep cs
      else (case split_on sep cs of [] \<Rightarrow> [[c]] | w # ws \<Rightarrow> (c # w) # ws))"

fun parse_entries :: "string list \<Rightarrow> string list option" where
  "parse_entries [] = Some []"
| "parse_entries (entry # rest) =
     (if trim entry = [] then None
      else map_option (Cons (trim entry)) (parse_entries rest))"

definition parse_num :: "nat \<Rightarrow> string \<Rightarrow> string \<Rightarrow> string \<Rightarrow> AnalyzeConfigError + nat" where
  "parse_num bound path value expected =
     (case parse_unsigned bound value of
        Some n \<Rightarrow> Inr n
      | None \<Rightarrow> Inl (InvalidOverrideValue path value expected))"

definition parse_string_list :: "string \<Rightarrow> string \<Rightarrow> AnalyzeConfigError + string list" where
  "parse_string_list path value =
     (case parse_entries (split_on CHR '','' value) of
        Some entries \<Rightarrow> Inr entries
      | None \<Rightarrow> Inl (InvalidOverrideValue path value
                  ''comma-separated non-empty entries (Vec<String>)''))"

fun parse_cli :: "ValueKind \<Rightarrow> string \<Rightarrow> string \<Rightarrow> AnalyzeConfigError + OptionValue" where
  "parse_cli KU64 path value =
     map_sum id (\<lambda>n. OvU64 (of_nat n))
       (parse_num u64_max path value ''base-10 unsigned integer (u64)'')"
| "parse_cli KUsize path value =
     map_sum id OvUsize (parse_num usize_max path value ''base-10 unsigned integer (usize)'')"
| "parse_cli KU8 path value =
     map_sum id (\<lambda>n. OvU8 (of_nat n))
       (parse_num 255 path value ''base-10 unsigned integer in range 0..=255 (u8)'')"
| "parse_cli KBool path value =
     (if value = ''true'' then Inr (OvBool True)
      else if value = ''false'' then Inr (OvBool False)
      else Inl (InvalidOverrideValue path value
             (squote @ ''true'' @ squote @ '' or '' @ squote @ ''false'' @ squote)))"
| "parse_cli KStringList path value = map_sum id OvStringList (parse_string_list path value)"

section \<open>The registry\<close>

record OptionEntry =
  oe_path :: string
  oe_kind :: ValueKind
  oe_default :: string
  oe_get :: "AnalyzeOptions \<Rightarrow> OptionValue"
  oe_set :: "OptionValue \<Rightarrow> AnalyzeOptions \<Rightarrow> AnalyzeOptions option"

definition u64_entry :: "string \<Rightarrow> string \<Rightarrow> (AnalyzeOptions \<Rightarrow> u64)
    \<Rightarrow> (u64 \<Rightarrow> AnalyzeOptions \<Rightarrow> AnalyzeOptions) \<Rightarrow> OptionEntry" where
  "u64_entry path shown get upd =
     \<lparr>oe_path = path, oe_kind = KU64, oe_default = shown, oe_get = (\<lambda>self. OvU64 (get self)),
      oe_set = (\<lambda>v self. case v of OvU64 x \<Rightarrow> Some (upd x self) | _ \<Rightarrow> None)\<rparr>"

definition usize_entry :: "string \<Rightarrow> string \<Rightarrow> (AnalyzeOptions \<Rightarrow> nat)
    \<Rightarrow> (nat \<Rightarrow> AnalyzeOptions \<Rightarrow> AnalyzeOptions) \<Rightarrow> OptionEntry" where
  "usize_entry path shown get upd =
     \<lparr>oe_path = path, oe_kind = KUsize, oe_default = shown, oe_get = (\<lambda>self. OvUsize (get self)),
      oe_set = (\<lambda>v self. case v of OvUsize x \<Rightarrow> Some (upd x self) | _ \<Rightarrow> None)\<rparr>"

definition u8_entry :: "string \<Rightarrow> string \<Rightarrow> (AnalyzeOptions \<Rightarrow> u8)
    \<Rightarrow> (u8 \<Rightarrow> AnalyzeOptions \<Rightarrow> AnalyzeOptions) \<Rightarrow> OptionEntry" where
  "u8_entry path shown get upd =
     \<lparr>oe_path = path, oe_kind = KU8, oe_default = shown, oe_get = (\<lambda>self. OvU8 (get self)),
      oe_set = (\<lambda>v self. case v of OvU8 x \<Rightarrow> Some (upd x self) | _ \<Rightarrow> None)\<rparr>"

definition bool_entry :: "string \<Rightarrow> string \<Rightarrow> (AnalyzeOptions \<Rightarrow> bool)
    \<Rightarrow> (bool \<Rightarrow> AnalyzeOptions \<Rightarrow> AnalyzeOptions) \<Rightarrow> OptionEntry" where
  "bool_entry path shown get upd =
     \<lparr>oe_path = path, oe_kind = KBool, oe_default = shown, oe_get = (\<lambda>self. OvBool (get self)),
      oe_set = (\<lambda>v self. case v of OvBool x \<Rightarrow> Some (upd x self) | _ \<Rightarrow> None)\<rparr>"

definition list_entry :: "string \<Rightarrow> string \<Rightarrow> (AnalyzeOptions \<Rightarrow> string list)
    \<Rightarrow> (string list \<Rightarrow> AnalyzeOptions \<Rightarrow> AnalyzeOptions) \<Rightarrow> OptionEntry" where
  "list_entry path shown get upd =
     \<lparr>oe_path = path, oe_kind = KStringList, oe_default = shown,
      oe_get = (\<lambda>self. OvStringList (get self)),
      oe_set = (\<lambda>v self. case v of OvStringList x \<Rightarrow> Some (upd x self) | _ \<Rightarrow> None)\<rparr>"

definition stage_patterns_display :: string where
  "stage_patterns_display =
     ''['' @ [CHR 0x22] @ ''spawn_blocking'' @ [CHR 0x22] @ '', '' @ [CHR 0x22] @ ''blocking_path''
     @ [CHR 0x22] @ '', '' @ [CHR 0x22] @ ''blocking'' @ [CHR 0x22] @ '']''"

definition OPTION_ENTRIES :: "OptionEntry list" where
  "OPTION_ENTRIES =
    [ u64_entry ''queueing.trigger_permille'' ''300''
        (\<lambda>self. qo_trigger_permille (ao_queueing self))
        (\<lambda>v. ao_queueing_update (qo_trigger_permille_update (\<lambda>_. v))),
      usize_entry ''blocking.min_nonzero_samples_for_signal'' ''2''
        (\<lambda>self. bo_min_nonzero_samples_for_signal (ao_blocking self))
        (\<lambda>v. ao_blocking_update (bo_min_nonzero_samples_for_signal_update (\<lambda>_. v))),
      u64_entry ''blocking.strong_p95_threshold'' ''12''
        (\<lambda>self. bo_strong_p95_threshold (ao_blocking self))
        (\<lambda>v. ao_blocking_update (bo_strong_p95_threshold_update (\<lambda>_. v))),
      u64_entry ''blocking.strong_peak_threshold'' ''20''
        (\<lambda>self. bo_strong_peak_threshold (ao_blocking self))
        (\<lambda>v. ao_blocking_update (bo_strong_peak_threshold_update (\<lambda>_. v))),
      u64_entry ''blocking.strong_nonzero_share_permille'' ''700''
        (\<lambda>self. bo_strong_nonzero_share_permille (ao_blocking self))
        (\<lambda>v. ao_blocking_update (bo_strong_nonzero_share_permille_update (\<lambda>_. v))),
      usize_entry ''blocking.strong_min_samples'' ''30''
        (\<lambda>self. bo_strong_min_samples (ao_blocking self))
        (\<lambda>v. ao_blocking_update (bo_strong_min_samples_update (\<lambda>_. v))),
      u64_entry ''executor.min_global_queue_p95_for_signal'' ''1''
        (\<lambda>self. exo_min_global_queue_p95_for_signal (ao_executor self))
        (\<lambda>v. ao_executor_update (exo_min_global_queue_p95_for_signal_update (\<lambda>_. v))),
      u64_entry ''executor.min_runnable_queue_per_worker_p95_milli_for_signal'' ''500''
        (\<lambda>self. exo_min_runnable_queue_per_worker_p95_milli_for_signal (ao_executor self))
        (\<lambda>v. ao_executor_update (exo_min_runnable_queue_per_worker_p95_milli_for_signal_update (\<lambda>_. v))),
      usize_entry ''downstream.min_stage_samples'' ''3''
        (\<lambda>self. dso_min_stage_samples (ao_downstream self))
        (\<lambda>v. ao_downstream_update (dso_min_stage_samples_update (\<lambda>_. v))),
      list_entry ''downstream.blocking_correlated_stage_patterns'' stage_patterns_display
        (\<lambda>self. dso_blocking_correlated_stage_patterns (ao_downstream self))
        (\<lambda>v. ao_downstream_update (dso_blocking_correlated_stage_patterns_update (\<lambda>_. v))),
      u8_entry ''downstream.blocking_correlation_score_margin'' ''2''
        (\<lambda>self. dso_blocking_correlation_score_margin (ao_downstream self))
        (\<lambda>v. ao_downstream_update (dso_blocking_correlation_score_margin_update (\<lambda>_. v))),
      u8_entry ''confidence.medium_score_threshold'' ''65''
        (\<lambda>self. cfo_medium_score_threshold (ao_confidence self))
        (\<lambda>v. ao_confidence_update (cfo_medium_score_threshold_update (\<lambda>_. v))),
      u8_entry ''confidence.high_score_threshold'' ''85''
        (\<lambda>self. cfo_high_score_threshold (ao_confidence self))
        (\<lambda>v. ao_confidence_update (cfo_high_score_threshold_update (\<lambda>_. v))),
      u8_entry ''confidence.ambiguity_min_score'' ''60''
        (\<lambda>self. cfo_ambiguity_min_score (ao_confidence self))
        (\<lambda>v. ao_confidence_update (cfo_ambiguity_min_score_update (\<lambda>_. v))),
      u8_entry ''confidence.ambiguity_score_gap'' ''4''
        (\<lambda>self. cfo_ambiguity_score_gap (ao_confidence self))
        (\<lambda>v. ao_confidence_update (cfo_ambiguity_score_gap_update (\<lambda>_. v))),
      usize_entry ''evidence.low_completed_request_threshold'' ''20''
        (\<lambda>self. evo_low_completed_request_threshold (ao_evidence self))
        (\<lambda>v. ao_evidence_update (evo_low_completed_request_threshold_update (\<lambda>_. v))),
      usize_entry ''route.min_request_count'' ''3''
        (\<lambda>self. rto_min_request_count (ao_route self))
        (\<lambda>v. ao_route_update (rto_min_request_count_update (\<lambda>_. v))),
      usize_entry ''route.breakdown_limit'' ''10''
        (\<lambda>self. rto_breakdown_limit (ao_route self))
        (\<lambda>v. ao_route_update (rto_breakdown_limit_update (\<lambda>_. v))),
      bool_entry ''route.emit_on_divergent_suspects'' ''true''
        (\<lambda>self. rto_emit_on_divergent_suspects (ao_route self))
        (\<lambda>v. ao_route_update (rto_emit_on_divergent_suspects_update (\<lambda>_. v))),
      u64_entry ''route.slowest_to_fastest_p95_ratio_numerator'' ''3''
        (\<lambda>self. rto_slowest_to_fastest_p95_ratio_numerator (ao_route self))
        (\<lambda>v. ao_route_update (rto_slowest_to_fastest_p95_ratio_numerator_update (\<lambda>_. v))),
      u64_entry ''route.slowest_to_fastest_p95_ratio_denominator'' ''2''
        (\<lambda>self. rto_slowest_to_fastest_p95_ratio_denominator (ao_route self))
        (\<lambda>v. ao_route_update (rto_slowest_to_fastest_p95_ratio_denominator_update (\<lambda>_. v))),
      u64_entry ''route.slowest_to_global_p95_ratio_numerator'' ''5''
        (\<lambda>self. rto_slowest_to_global_p95_ratio_numerator (ao_route self))
        (\<lambda>v. ao_route_update (rto_slowest_to_global_p95_ratio_numerator_update (\<lambda>_. v))),
      u64_entry ''route.slowest_to_global_p95_ratio_denominator'' ''4''
        (\<lambda>self. rto_slowest_to_global_p95_ratio_denominator (ao_route self))
        (\<lambda>v. ao_route_update (rto_slowest_to_global_p95_ratio_denominator_update (\<lambda>_. v))),
      usize_entry ''temporal.min_request_count'' ''20''
        (\<lambda>self. tmo_min_request_count (ao_temporal self))
        (\<lambda>v. ao_temporal_update (tmo_min_request_count_update (\<lambda>_. v))),
      usize_entry ''temporal.min_segment_request_count'' ''8''
        (\<lambda>self. tmo_min_segment_request_count (ao_temporal self))
        (\<lambda>v. ao_temporal_update (tmo_min_segment_request_count_update (\<lambda>_. v))),
      u64_entry ''temporal.share_shift_permille'' ''200''
        (\<lambda>self. tmo_share_shift_permille (ao_temporal self))
        (\<lambda>v. ao_temporal_update (tmo_share_shift_permille_update (\<lambda>_. v))),
      u64_entry ''temporal.p95_shift_ratio_numerator'' ''3''
        (\<lambda>self. tmo_p95_shift_ratio_numerator (ao_temporal self))
        (\<lambda>v. ao_temporal_update (tmo_p95_shift_ratio_numerator_update (\<lambda>_. v))),
      u64_entry ''temporal.p95_shift_ratio_denominator'' ''2''
        (\<lambda>self. tmo_p95_shift_ratio_denominator (ao_temporal self))
        (\<lambda>v. ao_temporal_update (tmo_p95_shift_ratio_denominator_update (\<lambda>_. v))),
      bool_entry ''temporal.emit_on_suspect_shift'' ''true''
        (\<lambda>self. tmo_emit_on_suspect_shift (ao_temporal self))
        (\<lambda>v. ao_temporal_update (tmo_emit_on_suspect_shift_update (\<lambda>_. v))),
      bool_entry ''temporal.suppress_runtime_sparse_suspect_shift_without_supporting_movement'' ''true''
        (\<lambda>self. tmo_suppress_runtime_sparse_suspect_shift_without_supporting_movement (ao_temporal self))
        (\<lambda>v. ao_temporal_update (tmo_suppress_runtime_sparse_suspect_shift_without_supporting_movement_update (\<lambda>_. v)))]"

definition find_entry :: "string \<Rightarrow> OptionEntry option" where
  "find_entry path = List.find (\<lambda>entry. oe_path entry = path) OPTION_ENTRIES"

text \<open>The Levenshtein distance by rows, over the characters of the two strings.\<close>

fun edit_row :: "'c \<Rightarrow> 'c list \<Rightarrow> nat list \<Rightarrow> nat \<Rightarrow> nat list" where
  "edit_row ca (cb # b) (p0 # p1 # ps) left =
     (let c = min (min (p1 + 1) (left + 1)) (p0 + (if ca \<noteq> cb then 1 else 0))
      in c # edit_row ca b (p1 # ps) c)"
| "edit_row ca _ _ left = []"

fun edit_rows :: "nat \<Rightarrow> 'c list \<Rightarrow> 'c list \<Rightarrow> nat list \<Rightarrow> nat list" where
  "edit_rows i [] b prev = prev"
| "edit_rows i (ca # a) b prev = edit_rows (i + 1) a b ((i + 1) # edit_row ca b prev (i + 1))"

definition edit_distance :: "string \<Rightarrow> string \<Rightarrow> nat" where
  "edit_distance a b =
     (let bs = utf8_chars b in edit_rows 0 (utf8_chars a) bs [0..<Suc (length bs)] ! length bs)"

definition min_by_key :: "('a \<Rightarrow> nat) \<Rightarrow> 'a list \<Rightarrow> 'a option" where
  "min_by_key k xs = (case xs of [] \<Rightarrow> None
     | y # ys \<Rightarrow> Some (foldl (\<lambda>a b. if k b < k a then b else a) y ys))"

definition suggest_path :: "string \<Rightarrow> string option" where
  "suggest_path path =
     (case min_by_key snd (map (\<lambda>e. (oe_path e, edit_distance path (oe_path e))) OPTION_ENTRIES) of
        None \<Rightarrow> None
      | Some (c, d) \<Rightarrow> if d \<le> 3 then Some c else None)"

record OverrideSummary =
  os_path :: string
  os_value :: string

definition non_default_overrides :: "AnalyzeOptions \<Rightarrow> OverrideSummary list" where
  "non_default_overrides options =
     sort_by (\<lambda>a b. cmp (os_path a) (os_path b))
       (map (\<lambda>entry. \<lparr>os_path = oe_path entry, os_value = display_value (oe_get entry options)\<rparr>)
         (filter (\<lambda>entry. oe_get entry options \<noteq> oe_get entry analyze_options_default)
           OPTION_ENTRIES))"

text \<open>
  Operations through \<^verbatim>\<open>&mut self\<close> return the new value of \<open>self\<close> with their result; the outer
  \<open>option\<close> is \<open>None\<close> where the source panics.
\<close>

definition apply_typed_path :: "string \<Rightarrow> OptionValue \<Rightarrow> AnalyzeOptions
    \<Rightarrow> ((AnalyzeConfigError + unit) \<times> AnalyzeOptions) option" where
  "apply_typed_path path value options =
     (case find_entry path of
        None \<Rightarrow> Some (Inl (UnknownOverridePath path (suggest_path path)), options)
      | Some entry \<Rightarrow> map_option (Pair (Inr ())) (oe_set entry value options))"

section \<open>Overrides\<close>

definition apply_override :: "string \<Rightarrow> AnalyzeOptions
    \<Rightarrow> ((AnalyzeConfigError + unit) \<times> AnalyzeOptions) option" where
  "apply_override raw self =
     (if count_list raw CHR ''='' \<noteq> 1 then Some (Inl (InvalidOverrideSyntax raw), self)
      else
        (let path = takeWhile (\<lambda>c. c \<noteq> CHR ''='') raw;
             value = tl (dropWhile (\<lambda>c. c \<noteq> CHR ''='') raw) in
         case find_entry path of
           None \<Rightarrow> Some (Inl (UnknownOverridePath path (suggest_path path)), self)
         | Some entry \<Rightarrow>
             (case parse_cli (oe_kind entry) (oe_path entry) value of
                Inl e \<Rightarrow> Some (Inl e, self)
              | Inr parsed \<Rightarrow>
                  (case oe_set entry parsed self of
                     None \<Rightarrow> None
                   | Some candidate \<Rightarrow>
                       (case options_validate candidate of
                          Inl e \<Rightarrow> Some (Inl e, self)
                        | Inr _ \<Rightarrow> Some (Inr (), candidate))))))"

fun apply_each :: "string list \<Rightarrow> AnalyzeOptions
    \<Rightarrow> ((AnalyzeConfigError + unit) \<times> AnalyzeOptions) option" where
  "apply_each [] candidate = Some (Inr (), candidate)"
| "apply_each (raw # rest) candidate =
     (case apply_override raw candidate of
        None \<Rightarrow> None
      | Some (Inl e, candidate') \<Rightarrow> Some (Inl e, candidate')
      | Some (Inr _, candidate') \<Rightarrow> apply_each rest candidate')"

definition apply_overrides :: "string list \<Rightarrow> AnalyzeOptions
    \<Rightarrow> ((AnalyzeConfigError + unit) \<times> AnalyzeOptions) option" where
  "apply_overrides overrides self =
     (case apply_each overrides self of
        None \<Rightarrow> None
      | Some (Inl e, _) \<Rightarrow> Some (Inl e, self)
      | Some (Inr _, candidate) \<Rightarrow> Some (Inr (), candidate))"

section \<open>The registry is a faithful view of the options\<close>

lemmas entry_defs = u64_entry_def usize_entry_def u8_entry_def bool_entry_def list_entry_def

lemma entry_kind: "e \<in> set OPTION_ENTRIES \<Longrightarrow> value_kind (oe_get e self) = oe_kind e"
  unfolding OPTION_ENTRIES_def entry_defs by auto

lemma entry_set_get: "e \<in> set OPTION_ENTRIES \<Longrightarrow> oe_set e (oe_get e self) self = Some self"
  unfolding OPTION_ENTRIES_def entry_defs by auto

lemma entry_get_set:
  "e \<in> set OPTION_ENTRIES \<Longrightarrow> value_kind v = oe_kind e \<Longrightarrow>
   \<exists>self'. oe_set e v self = Some self' \<and> oe_get e self' = v"
  unfolding OPTION_ENTRIES_def entry_defs by (cases v) auto

lemma registry_paths: "distinct (map oe_path OPTION_ENTRIES)" "length OPTION_ENTRIES = 30"
  unfolding OPTION_ENTRIES_def entry_defs by simp_all

text \<open>Writing one path leaves what every other path reads unchanged.\<close>

definition frames :: "OptionEntry \<Rightarrow> OptionEntry \<Rightarrow> bool" where
  "frames e f \<longleftrightarrow>
     (\<forall>v self self'. oe_set e v self = Some self' \<longrightarrow> oe_get f self' = oe_get f self)"

lemma frames_entry:
  "frames (u64_entry p s g1 u1) f \<longleftrightarrow> (\<forall>x self. oe_get f (u1 x self) = oe_get f self)"
  "frames (usize_entry p s g2 u2) f \<longleftrightarrow> (\<forall>x self. oe_get f (u2 x self) = oe_get f self)"
  "frames (u8_entry p s g3 u3) f \<longleftrightarrow> (\<forall>x self. oe_get f (u3 x self) = oe_get f self)"
  "frames (bool_entry p s g4 u4) f \<longleftrightarrow> (\<forall>x self. oe_get f (u4 x self) = oe_get f self)"
  "frames (list_entry p s g5 u5) f \<longleftrightarrow> (\<forall>x self. oe_get f (u5 x self) = oe_get f self)"
  by (auto simp: frames_def entry_defs split: OptionValue.split)

lemma oe_get_entry:
  "oe_get (u64_entry p s g1 u1) self = OvU64 (g1 self)"
  "oe_get (usize_entry p s g2 u2) self = OvUsize (g2 self)"
  "oe_get (u8_entry p s g3 u3) self = OvU8 (g3 self)"
  "oe_get (bool_entry p s g4 u4) self = OvBool (g4 self)"
  "oe_get (list_entry p s g5 u5) self = OvStringList (g5 self)"
  by (simp_all add: entry_defs)

lemma entries_frame: "sorted_wrt (\<lambda>e f. frames e f \<and> frames f e) OPTION_ENTRIES"
  unfolding OPTION_ENTRIES_def sorted_wrt.simps list.set ball_simps frames_entry oe_get_entry
  by (intro conjI TrueI allI; simp)

lemma sorted_wrt_sym_pair:
  "sorted_wrt P xs \<Longrightarrow> (\<And>x y. P x y \<Longrightarrow> P y x) \<Longrightarrow> x \<in> set xs \<Longrightarrow> y \<in> set xs \<Longrightarrow> x \<noteq> y \<Longrightarrow> P x y"
  by (induction xs) auto

lemma entry_frame:
  assumes "e \<in> set OPTION_ENTRIES" "f \<in> set OPTION_ENTRIES" "e \<noteq> f"
    and "oe_set e v self = Some self'"
  shows "oe_get f self' = oe_get f self"
  using sorted_wrt_sym_pair [OF entries_frame _ assms(1-3)] assms(4)
  by (simp add: conj_commute frames_def)

lemma entry_eqI:
  "e \<in> set OPTION_ENTRIES \<Longrightarrow> f \<in> set OPTION_ENTRIES \<Longrightarrow> oe_path e = oe_path f \<Longrightarrow> e = f"
  using registry_paths(1) by (meson distinct_map inj_onD)

text \<open>Two configurations that read the same at every path are the same.\<close>

lemma entries_determine:
  assumes "\<And>e. e \<in> set OPTION_ENTRIES \<Longrightarrow> oe_get e o1 = oe_get e o2"
  shows "o1 = o2"
proof -
  have "list_all (\<lambda>e. oe_get e o1 = oe_get e o2) OPTION_ENTRIES"
    using assms by (simp add: list_all_iff)
  then show ?thesis
    unfolding OPTION_ENTRIES_def by (cases o1; cases o2) (simp add: oe_get_entry)
qed

section \<open>Parsing what is displayed\<close>

lemma parse_show: "n \<le> bound \<Longrightarrow> parse_unsigned bound (show_nat n) = Some n"
proof -
  assume n: "n \<le> bound"
  have "\<not> is_digit CHR ''+''" by (simp add: is_digit_def)
  then have "hd (show_nat n) \<noteq> CHR ''+''"
    using show_nat_digits [of n] by (cases "show_nat n") auto
  then show ?thesis
    using n show_nat_digits [of n] by (simp add: parse_unsigned_def)
qed

lemma split_on_plain: "sep \<notin> set w \<Longrightarrow> split_on sep w = [w]"
  by (induction w) auto

lemma split_on_append:
  "sep \<notin> set w \<Longrightarrow> split_on sep (w @ sep # rest) = w # split_on sep rest"
  by (induction w) auto

lemma split_on_join:
  "xs \<noteq> [] \<Longrightarrow> \<forall>x\<in>set xs. sep \<notin> set x \<Longrightarrow> split_on sep (join [sep] xs) = xs"
  by (induction "[sep]" xs rule: join.induct) (auto simp: split_on_plain split_on_append)

lemma parse_entries_id:
  "\<forall>x\<in>set xs. trim x = x \<and> x \<noteq> [] \<Longrightarrow> parse_entries xs = Some xs"
  by (induction xs) auto

text \<open>
  The values the textual form can carry: a \<^verbatim>\<open>usize\<close> in range, and lists whose entries are
  trimmed and contain neither the separator nor an equals sign.
\<close>

fun textual :: "OptionValue \<Rightarrow> bool" where
  "textual (OvUsize n) \<longleftrightarrow> n \<le> usize_max"
| "textual (OvStringList xs) \<longleftrightarrow> xs \<noteq> [] \<and>
     list_all (\<lambda>x. trim x = x \<and> x \<noteq> [] \<and> CHR '','' \<notin> set x \<and> CHR ''='' \<notin> set x) xs"
| "textual _ \<longleftrightarrow> True"

lemma parse_display:
  "textual v \<Longrightarrow> parse_cli (value_kind v) path (display_value v) = Inr v"
proof (cases v)
  case (OvU64 w)
  then show ?thesis by (simp add: parse_num_def parse_show unat_le_u64_max)
next
  case (OvU8 w)
  then show ?thesis by (simp add: parse_num_def parse_show unat_u8_le)
next
  case (OvStringList xs)
  moreover assume "textual v"
  ultimately show ?thesis
    by (simp add: parse_string_list_def split_on_join parse_entries_id list_all_iff)
qed (simp_all add: parse_num_def parse_show)

lemma digit_not_eq: "is_digit c \<Longrightarrow> c \<noteq> CHR ''=''"
  by (auto simp: is_digit_def)

lemma show_nat_no_eq: "CHR ''='' \<notin> set (show_nat n)"
  using show_nat_digits [of n] digit_not_eq by (auto simp: list_all_iff)

lemma join_no_char:
  "c \<notin> set sep \<Longrightarrow> \<forall>x\<in>set xs. c \<notin> set x \<Longrightarrow> c \<notin> set (join sep xs)"
  by (induction sep xs rule: join.induct) auto

lemma display_no_eq: "textual v \<Longrightarrow> CHR ''='' \<notin> set (display_value v)"
  using join_no_char [of "CHR ''=''" "'',''"]
  by (cases v) (auto simp: show_nat_no_eq list_all_iff)

lemma parse_cli_kind: "parse_cli k path value = Inr v \<Longrightarrow> value_kind v = k"
  by (cases k) (auto simp: map_sum_def split: sum.splits if_splits)

lemma find_entry_Some:
  "find_entry path = Some e \<Longrightarrow> e \<in> set OPTION_ENTRIES \<and> oe_path e = path"
  by (auto simp: find_entry_def find_Some_iff)

lemma find_entry_path:
  assumes "e \<in> set OPTION_ENTRIES"
  shows "find_entry (oe_path e) = Some e"
proof -
  have "find_entry (oe_path e) \<noteq> None"
    using assms by (auto simp: find_entry_def find_None_iff)
  then show ?thesis using find_entry_Some entry_eqI assms by blast
qed

lemma path_no_eq: "e \<in> set OPTION_ENTRIES \<Longrightarrow> CHR ''='' \<notin> set (oe_path e)"
proof -
  have "list_all (\<lambda>e. CHR ''='' \<notin> set (oe_path e)) OPTION_ENTRIES"
    unfolding OPTION_ENTRIES_def entry_defs by simp
  then show "e \<in> set OPTION_ENTRIES \<Longrightarrow> CHR ''='' \<notin> set (oe_path e)"
    by (simp add: list_all_iff)
qed

section \<open>Overrides are checked and transactional\<close>

lemma apply_override_cases:
  obtains (error) e where "apply_override raw self = Some (Inl e, self)"
  | (ok) entry v self' where "apply_override raw self = Some (Inr (), self')"
      "entry \<in> set OPTION_ENTRIES" "value_kind v = oe_kind entry"
      "oe_set entry v self = Some self'" "valid_options self'"
proof -
  define path where "path = takeWhile (\<lambda>c. c \<noteq> CHR ''='') raw"
  define vtext where "vtext = tl (dropWhile (\<lambda>c. c \<noteq> CHR ''='') raw)"
  have unf: "apply_override raw self =
      (if count_list raw CHR ''='' \<noteq> 1 then Some (Inl (InvalidOverrideSyntax raw), self)
       else (case find_entry path of
           None \<Rightarrow> Some (Inl (UnknownOverridePath path (suggest_path path)), self)
         | Some entry \<Rightarrow>
             (case parse_cli (oe_kind entry) (oe_path entry) vtext of
                Inl e \<Rightarrow> Some (Inl e, self)
              | Inr parsed \<Rightarrow>
                  (case oe_set entry parsed self of
                     None \<Rightarrow> None
                   | Some candidate \<Rightarrow>
                       (case options_validate candidate of
                          Inl e \<Rightarrow> Some (Inl e, self)
                        | Inr _ \<Rightarrow> Some (Inr (), candidate))))))"
    unfolding apply_override_def path_def vtext_def Let_def by (rule refl)
  show thesis
  proof (cases "count_list raw CHR ''='' \<noteq> 1 \<or> find_entry path = None")
    case True
    then have "\<exists>e. apply_override raw self = Some (Inl e, self)" by (auto simp: unf)
    then show thesis using error by blast
  next
    case False
    then obtain entry where e: "find_entry path = Some entry" by auto
    note mem = find_entry_Some [OF e]
    show thesis
    proof (cases "parse_cli (oe_kind entry) (oe_path entry) vtext")
      case (Inl err)
      then show thesis using error False e by (simp add: unf)
    next
      case (Inr v)
      note kind = parse_cli_kind [OF Inr]
      obtain self' where s: "oe_set entry v self = Some self'"
        using entry_get_set mem kind by blast
      show thesis
      proof (cases "options_validate self'")
        case (Inl err)
        then show thesis using error False e Inr s by (simp add: unf)
      next
        case (Inr u)
        then have "valid_options self'"
          using options_validate_ok_iff [of self'] by (cases u) simp
        have "apply_override raw self = Some (Inr (), self')"
          using False e \<open>parse_cli _ _ vtext = Inr v\<close> s mem Inr by (simp add: unf)
        then show thesis using ok mem kind s \<open>valid_options self'\<close> by blast
      qed
    qed
  qed
qed

text \<open>
  Applying the textual form of an entry writes its value, unless the resulting configuration
  is semantically invalid.
\<close>

lemma apply_override_display:
  assumes e: "entry \<in> set OPTION_ENTRIES" and v: "value_kind v = oe_kind entry" "textual v"
    and s: "oe_set entry v self = Some self'"
  shows "apply_override (oe_path entry @ ''='' @ display_value v) self =
    (case options_validate self' of
       Inl err \<Rightarrow> Some (Inl err, self)
     | Inr _ \<Rightarrow> Some (Inr (), self'))"
proof -
  let ?raw = "oe_path entry @ ''='' @ display_value v"
  have notin: "CHR ''='' \<notin> set (oe_path entry)" "CHR ''='' \<notin> set (display_value v)"
    using path_no_eq [OF e] display_no_eq [OF v(2)] by simp_all
  then have count: "count_list ?raw CHR ''='' = 1" by (simp add: count_list_0_iff)
  have "takeWhile (\<lambda>c. c \<noteq> CHR ''='') ?raw = oe_path entry"
    "tl (dropWhile (\<lambda>c. c \<noteq> CHR ''='') ?raw) = display_value v"
    using notin(1) by (auto simp: takeWhile_append dropWhile_append)
  moreover have "parse_cli (oe_kind entry) (oe_path entry) (display_value v) = Inr v"
    using parse_display [OF v(2)] v(1) by simp
  ultimately show ?thesis
    using count s find_entry_path [OF e] by (simp add: apply_override_def)
qed

lemma apply_each_never_panics: "apply_each raws self \<noteq> None"
proof (induction raws arbitrary: self)
  case (Cons raw raws)
  show ?case by (cases rule: apply_override_cases [of raw self]) (simp_all add: Cons.IH)
qed simp

lemma apply_each_valid:
  "apply_each raws self = Some (Inr (), self') \<Longrightarrow> raws \<noteq> [] \<Longrightarrow> valid_options self'"
proof (induction raws arbitrary: self)
  case (Cons raw raws)
  show ?case
  proof (cases rule: apply_override_cases [of raw self])
    case (ok entry v s1)
    then show ?thesis using Cons by (cases raws) auto
  qed (use Cons.prems in simp)
qed simp

lemma options_validate_errors: "options_validate self = Inl e \<Longrightarrow> \<exists>p m. e = InvalidConfigValue p m"
  unfolding options_validate_def validate_temporal_def validate_patterns_def route_ratios_def
  by (auto split: if_splits sum.splits)


lemma apply_each_display:
  assumes "\<forall>e\<in>set es. e \<in> set OPTION_ENTRIES \<and> textual (oe_get e target)"
    and "distinct es"
  shows "(\<exists>p m c. apply_each (map (\<lambda>e. oe_path e @ ''='' @ display_value (oe_get e target)) es) self
            = Some (Inl (InvalidConfigValue p m), c))
    \<or> (\<exists>c. apply_each (map (\<lambda>e. oe_path e @ ''='' @ display_value (oe_get e target)) es) self
            = Some (Inr (), c)
          \<and> (\<forall>f\<in>set OPTION_ENTRIES. oe_get f c = oe_get f (if f \<in> set es then target else self)))"
  using assms
proof (induction es arbitrary: self)
  case (Cons e es)
  let ?raw = "\<lambda>e. oe_path e @ ''='' @ display_value (oe_get e target)"
  have e: "e \<in> set OPTION_ENTRIES" "textual (oe_get e target)"
    and es: "\<forall>e\<in>set es. e \<in> set OPTION_ENTRIES \<and> textual (oe_get e target)"
      "distinct es" "e \<notin> set es"
    using Cons.prems by simp_all
  obtain s1 where s1: "oe_set e (oe_get e target) self = Some s1" "oe_get e s1 = oe_get e target"
    using entry_get_set [OF e(1) entry_kind [OF e(1)]] by blast
  note app = apply_override_display [OF e(1) entry_kind [OF e(1)] e(2) s1(1)]
  show ?case
  proof (cases "options_validate s1")
    case (Inl err)
    then obtain p m where "err = InvalidConfigValue p m" using options_validate_errors by blast
    then show ?thesis using app Inl by simp
  next
    case (Inr u)
    then have step: "apply_each (map ?raw (e # es)) self = apply_each (map ?raw es) s1"
      using app by simp
    have read: "oe_get f (if f \<in> set es then target else s1)
        = oe_get f (if f \<in> set (e # es) then target else self)" if "f \<in> set OPTION_ENTRIES" for f
      using entry_frame [OF e(1) that _ s1(1)] s1(2) es(3) by auto
    show ?thesis
      using Cons.IH [OF es(1,2), of s1] read unfolding step by (auto simp del: list.map)
  qed
qed simp

text \<open>The distance computed by rows is the recursive edit distance of the reversed strings.\<close>

fun lev :: "'c list \<Rightarrow> 'c list \<Rightarrow> nat" where
  "lev [] b = length b"
| "lev a [] = length a"
| "lev (x # a) (y # b) =
     min (min (lev a (y # b) + 1) (lev (x # a) b + 1)) (lev a b + (if x \<noteq> y then 1 else 0))"

definition lev_row :: "'c list \<Rightarrow> 'c list \<Rightarrow> nat \<Rightarrow> nat list" where
  "lev_row r b j = map (\<lambda>k. lev r (rev (take k b))) [j..<Suc (length b)]"

lemma lev_Nil2: "lev a [] = length a"
  by (cases a) simp_all

lemma edit_row_lev:
  "j \<le> length b \<Longrightarrow>
   edit_row ca (drop j b) (lev_row r b j) (lev (ca # r) (rev (take j b)))
     = lev_row (ca # r) b (Suc j)"
proof (induction "length b - j" arbitrary: j)
  case 0
  then show ?case by (simp add: lev_row_def)
next
  case (Suc n)
  then have j: "j < length b" by simp
  have d: "drop j b = b ! j # drop (Suc j) b" using j by (simp add: Cons_nth_drop_Suc)
  have t: "rev (take (Suc j) b) = b ! j # rev (take j b)" using j by (simp add: take_Suc_conv_app_nth)
  have row: "lev_row q b j = lev q (rev (take j b)) # lev_row q b (Suc j)" if "j \<le> length b" for q j
    using that by (simp add: lev_row_def upt_rec)
  have IH: "edit_row ca (drop (Suc j) b) (lev_row r b (Suc j)) (lev (ca # r) (rev (take (Suc j) b)))
      = lev_row (ca # r) b (Suc (Suc j))"
    using Suc j by simp
  have c: "min (min (lev r (rev (take (Suc j) b)) + 1) (lev (ca # r) (rev (take j b)) + 1))
        (lev r (rev (take j b)) + (if ca \<noteq> b ! j then 1 else 0))
      = lev (ca # r) (rev (take (Suc j) b))"
    by (simp add: t)
  have "edit_row ca (drop j b) (lev_row r b j) (lev (ca # r) (rev (take j b)))
      = lev (ca # r) (rev (take (Suc j) b))
        # edit_row ca (drop (Suc j) b) (lev_row r b (Suc j)) (lev (ca # r) (rev (take (Suc j) b)))"
    unfolding d row [of j r, OF less_imp_le [OF j]] row [of "Suc j" r, OF Suc_leI [OF j]]
      edit_row.simps Let_def c ..
  then show ?case
    unfolding IH row [of "Suc j" "ca # r", OF Suc_leI [OF j]] .
qed

lemma edit_rows_lev:
  "edit_rows (length r) a b (lev_row r b 0) = lev_row (rev a @ r) b 0"
proof (induction a arbitrary: r)
  case (Cons ca a)
  have "(length r + 1) # edit_row ca b (lev_row r b 0) (length r + 1) = lev_row (ca # r) b 0"
    using edit_row_lev [of 0 b ca r] by (simp add: lev_Nil2 lev_row_def upt_rec)
  then show ?case using Cons.IH [of "ca # r"] by simp
qed simp

lemma edit_distance_lev: "edit_distance a b = lev (rev (utf8_chars a)) (rev (utf8_chars b))"
proof -
  have "[0..<Suc (length bs)] = lev_row [] bs 0" for bs :: "string list"
    by (auto simp: lev_row_def intro!: map_idI [symmetric])
  moreover have "lev_row q bs 0 ! length bs = lev q (rev bs)" for q bs :: "string list"
    by (simp add: lev_row_def del: upt_Suc)
  ultimately show ?thesis
    using edit_rows_lev [of "[]" "utf8_chars a" "utf8_chars b"]
    by (simp add: edit_distance_def Let_def del: upt_Suc)
qed

section \<open>Properties\<close>

definition override_text :: "OverrideSummary \<Rightarrow> string" where
  "override_text s = os_path s @ ''='' @ os_value s"

definition non_default_entries :: "AnalyzeOptions \<Rightarrow> OptionEntry list" where
  "non_default_entries self =
     sort_by (\<lambda>a b. cmp (oe_path a) (oe_path b))
       (filter (\<lambda>entry. oe_get entry self \<noteq> oe_get entry analyze_options_default) OPTION_ENTRIES)"

lemma non_default_overrides_map:
  "non_default_overrides self =
     map (\<lambda>e. \<lparr>os_path = oe_path e, os_value = display_value (oe_get e self)\<rparr>)
       (non_default_entries self)"
  by (simp add: non_default_overrides_def non_default_entries_def sort_by_map)

lemma non_default_entries_set:
  "set (non_default_entries self) =
     {e \<in> set OPTION_ENTRIES. oe_get e self \<noteq> oe_get e analyze_options_default}"
  by (auto simp: non_default_entries_def)

lemma distinct_non_default_entries: "distinct (non_default_entries self)"
  using registry_paths(1) by (simp add: non_default_entries_def distinct_map)

text \<open>
  C40. The non-default options reported with an analysis identify its configuration: applied
  as overrides to the default configuration, in the reported order, they either rebuild
  exactly that configuration or are refused by the semantic validation of an intermediate
  configuration, which leaves the defaults untouched. The condition is that the values have a
  faithful textual form: list entries are trimmed and contain no comma and no equals sign.
\<close>

theorem reported_options_replay:
  "if list_all (\<lambda>e. textual (oe_get e self)) OPTION_ENTRIES
   then (case apply_overrides (map override_text (non_default_overrides self))
                analyze_options_default of
           None \<Rightarrow> False
         | Some (Inl err, options) \<Rightarrow> options = analyze_options_default
             \<and> (case err of InvalidConfigValue p m \<Rightarrow> True | _ \<Rightarrow> False)
         | Some (Inr _, options) \<Rightarrow> options = self)
   else True"
proof (cases "list_all (\<lambda>e. textual (oe_get e self)) OPTION_ENTRIES")
  case True
  let ?es = "non_default_entries self"
  have es: "\<forall>e\<in>set ?es. e \<in> set OPTION_ENTRIES \<and> textual (oe_get e self)"
    using True by (auto simp: non_default_entries_set list_all_iff)
  have texts: "map override_text (non_default_overrides self)
      = map (\<lambda>e. oe_path e @ ''='' @ display_value (oe_get e self)) ?es"
    by (simp add: non_default_overrides_map override_text_def)
  have same: "c = self"
    if "\<forall>f\<in>set OPTION_ENTRIES.
          oe_get f c = oe_get f (if f \<in> set ?es then self else analyze_options_default)" for c
    by (rule entries_determine) (use that in \<open>auto simp: non_default_entries_set split: if_splits\<close>)
  show ?thesis
    using apply_each_display [OF es distinct_non_default_entries, of analyze_options_default] same
      True
    unfolding texts by (auto simp: apply_overrides_def)
qed simp

text \<open>
  Overrides are transactional: a batch never panics, a refused batch leaves the
  configuration as it was, and an accepted non-empty batch leaves a valid configuration.
\<close>

theorem overrides_transactional:
  "case apply_overrides raws self of
     None \<Rightarrow> False
   | Some (Inl err, self') \<Rightarrow> self' = self
   | Some (Inr _, self') \<Rightarrow> if raws = [] then self' = self else valid_options self'"
proof -
  obtain r c where app: "apply_each raws self = Some (r, c)"
    using apply_each_never_panics [of raws self] by (cases "apply_each raws self") auto
  show ?thesis
  proof (cases r)
    case (Inl err)
    then show ?thesis using app by (simp add: apply_overrides_def)
  next
    case (Inr u)
    then show ?thesis
      using app apply_each_valid [of raws self c] by (cases u) (auto simp: apply_overrides_def)
  qed
qed

text \<open>
  One accepted override changes what at most one registered path reads, and a refused one
  changes nothing.
\<close>

theorem override_changes_one_path:
  "case apply_override raw self of
     None \<Rightarrow> False
   | Some (Inl err, self') \<Rightarrow> self' = self
   | Some (Inr _, self') \<Rightarrow> valid_options self'
       \<and> length (filter (\<lambda>f. oe_get f self' \<noteq> oe_get f self) OPTION_ENTRIES) \<le> 1"
proof (cases rule: apply_override_cases [of raw self])
  case (ok entry v self')
  let ?fs = "filter (\<lambda>f. oe_get f self' \<noteq> oe_get f self) OPTION_ENTRIES"
  have "set ?fs \<subseteq> {entry}"
    using entry_frame [OF ok(2) _ _ ok(4)] by auto
  moreover have "distinct ?fs"
    using registry_paths(1) by (simp add: distinct_map)
  ultimately have "length ?fs \<le> 1"
    using card_mono [of "{entry}" "set ?fs"] distinct_card [of ?fs] by simp
  then show ?thesis using ok by simp
qed simp

lemma min_by_key_Some:
  assumes "min_by_key k xs = Some m"
  shows "m \<in> set xs \<and> (\<forall>x\<in>set xs. k m \<le> k x)"
proof -
  have "foldl (\<lambda>a b. if k b < k a then b else a) y ys \<in> insert y (set ys)
      \<and> (\<forall>x\<in>insert y (set ys). k (foldl (\<lambda>a b. if k b < k a then b else a) y ys) \<le> k x)" for y ys
  proof (induction ys arbitrary: y)
    case (Cons a ys)
    let ?w = "if k a < k y then a else y"
    have "k ?w \<le> k a" "k ?w \<le> k y" by simp_all
    then show ?case using Cons.IH [of ?w] by (auto intro: order_trans split: if_splits)
  qed simp
  then show ?thesis using assms by (auto simp: min_by_key_def split: list.splits)
qed

text \<open>
  The suggestion in an unknown-path error is a registered path at edit distance at most
  three, none is nearer, and one is given whenever a registered path is that near; the distance
  the code computes by rows is the recursive edit distance.
\<close>

theorem suggestion_is_nearest:
  "case suggest_path path of
     Some c \<Rightarrow> c \<in> set (map oe_path OPTION_ENTRIES)
       \<and> lev (rev (utf8_chars path)) (rev (utf8_chars c)) \<le> 3
       \<and> list_all (\<lambda>e. lev (rev (utf8_chars path)) (rev (utf8_chars c))
             \<le> lev (rev (utf8_chars path)) (rev (utf8_chars (oe_path e)))) OPTION_ENTRIES
   | None \<Rightarrow> list_all (\<lambda>e. 3 < lev (rev (utf8_chars path)) (rev (utf8_chars (oe_path e))))
               OPTION_ENTRIES"
proof -
  let ?m = "map (\<lambda>e. (oe_path e, edit_distance path (oe_path e))) OPTION_ENTRIES"
  have "?m \<noteq> []" using registry_paths(2) by auto
  then obtain c d where m: "min_by_key snd ?m = Some (c, d)"
    by (cases ?m) (auto simp: min_by_key_def prod_eq_iff)
  from min_by_key_Some [OF this] show ?thesis
    using m by (auto simp: suggest_path_def edit_distance_lev list_all_iff)
qed

end
