(* ===== verification/An_Report.thy ===== *)
theory An_Report
  imports An_Downstream An_Confidence An_Registry
begin

text \<open>
  The report of one analysis: the report types of \<^verbatim>\<open>lib.rs\<close> and \<open>analyze_run_internal\<close>,
  which measures a run, lets every suspect family propose at most one candidate, falls back to
  insufficient evidence when none does, and ranks what is left. The lemmas describe the
  candidates by family; the properties are about the suspects of the finished report.
\<close>

section \<open>Report types\<close>

record TemporalSegment =
  ts_name :: string
  ts_request_count :: nat
  ts_started_at_unix_ms :: "u64 option"
  ts_finished_at_unix_ms :: "u64 option"
  ts_p50_latency_us :: "u64 option"
  ts_p95_latency_us :: "u64 option"
  ts_p99_latency_us :: "u64 option"
  ts_p95_queue_share_permille :: "u64 option"
  ts_p95_service_share_permille :: "u64 option"
  ts_evidence_quality :: EvidenceQuality
  ts_primary_suspect :: Suspect
  ts_secondary_suspects :: "Suspect list"
  ts_warnings :: "string list"

record RouteBreakdown =
  rb_route :: string
  rb_request_count :: nat
  rb_p50_latency_us :: "u64 option"
  rb_p95_latency_us :: "u64 option"
  rb_p99_latency_us :: "u64 option"
  rb_p95_queue_share_permille :: "u64 option"
  rb_p95_service_share_permille :: "u64 option"
  rb_evidence_quality :: EvidenceQuality
  rb_primary_suspect :: Suspect
  rb_secondary_suspects :: "Suspect list"
  rb_warnings :: "string list"

record AnalyzerConfigSummary =
  acs_schema_version :: u32
  acs_non_default_options :: "OverrideSummary list"

record Report =
  rp_request_count :: nat
  rp_p50_latency_us :: "u64 option"
  rp_p95_latency_us :: "u64 option"
  rp_p99_latency_us :: "u64 option"
  rp_p95_queue_share_permille :: "u64 option"
  rp_p95_service_share_permille :: "u64 option"
  rp_inflight_trend :: "InflightTrend option"
  rp_warnings :: "string list"
  rp_evidence_quality :: EvidenceQuality
  rp_primary_suspect :: Suspect
  rp_secondary_suspects :: "Suspect list"
  rp_route_breakdowns :: "RouteBreakdown list"
  rp_temporal_segments :: "TemporalSegment list"
  rp_analyzer_config :: "AnalyzerConfigSummary option"

section \<open>The analysis of one run\<close>

text \<open>The candidates of the four families, in the order the code asks them.\<close>

definition family_candidates :: "Run \<Rightarrow> WorkerEvidenceStatus option \<Rightarrow> AnalyzeOptions \<Rightarrow> FamilyCandidates" where
  "family_candidates run worker_status options =
     (let shares = request_time_shares run;
          inflight = dominant_inflight_candidate (run_inflight run);
          family = family_default;
          family = (case queue_saturation_suspect run (shares_completed_queue shares)
                           (shares_observed_queue shares) inflight options of
                      Some queue_suspect \<Rightarrow> set_queue (Some queue_suspect) family
                    | None \<Rightarrow> family);
          family = (case blocking_pressure_suspect run options of
                      Some blocking_suspect \<Rightarrow>
                        set_blocking (Some (completed_candidate blocking_suspect)) family
                    | None \<Rightarrow> family);
          family = (case executor_pressure_suspect run worker_status inflight options of
                      Some (executor_suspect, limitation) \<Rightarrow>
                        set_executor (Some \<lparr>sc_suspect = executor_suspect, sc_basis = Completed,
                                            sc_executor_limitation = limitation\<rparr>) family
                    | None \<Rightarrow> family)
      in (case downstream_stage_suspect run options of
            Some stage_suspect \<Rightarrow> set_downstream (Some stage_suspect) family
          | None \<Rightarrow> family))"

definition fallback_suspect :: Suspect where
  "fallback_suspect =
     suspect_new InsufficientEvidence 50
       [''Not enough queue, stage, or runtime signals to rank a stronger suspect.'']
       [''Wrap critical awaits with queue(...).await_on(...), and use stage(...).await_on(...) for Result-returning work or stage(...).await_value(...) for infallible work.'',
        ''Enable RuntimeSampler during the run to capture runtime pressure signals.'']"

definition no_signals_suspect :: Suspect where
  "no_signals_suspect =
     suspect_new InsufficientEvidence 50
       [''No diagnosis signals were captured for this run.'']
       [''Verify that request, queue, or stage instrumentation is enabled.'']"

definition report_candidates :: "Run \<Rightarrow> WorkerEvidenceStatus option \<Rightarrow> AnalyzeOptions
    \<Rightarrow> SupportedCandidate list" where
  "report_candidates run worker_status options =
     (let suspects = into_cross_family_candidates (family_candidates run worker_status options)
      in if suspects = [] then [fallback_candidate fallback_suspect] else suspects)"

definition analyze_run_internal :: "Run \<Rightarrow> WorkerEvidenceStatus option \<Rightarrow> AnalyzeOptions \<Rightarrow> Report" where
  "analyze_run_internal run worker_status options =
     (let request_latencies = map req_latency_us (run_requests run);
          shares = request_time_shares run;
          inflight = dominant_inflight_candidate (run_inflight run);
          suspects = report_candidates run worker_status options;
          quality = evidence_quality run options;
          ranked_suspects = finalize_scored_suspects suspects run quality options;
          warnings = analysis_warnings run ranked_suspects options;
          (primary, secondary) = (case ranked_suspects of
             [] \<Rightarrow> (no_signals_suspect, []) | s # rest \<Rightarrow> (s, rest))
      in \<lparr>rp_request_count = length (run_requests run),
          rp_p50_latency_us = percentile request_latencies 50 100,
          rp_p95_latency_us = percentile request_latencies 95 100,
          rp_p99_latency_us = percentile request_latencies 99 100,
          rp_p95_queue_share_permille = percentile (shares_completed_queue shares) 95 100,
          rp_p95_service_share_permille = percentile (shares_completed_service shares) 95 100,
          rp_inflight_trend = map_option ic_trend inflight,
          rp_warnings = warnings,
          rp_evidence_quality = quality,
          rp_primary_suspect = primary,
          rp_secondary_suspects = secondary,
          rp_route_breakdowns = [],
          rp_temporal_segments = [],
          rp_analyzer_config = None\<rparr>)"

section \<open>Facts\<close>

abbreviation report_suspects :: "Report \<Rightarrow> Suspect list" where
  "report_suspects report \<equiv> rp_primary_suspect report # rp_secondary_suspects report"

text \<open>A slot of the family record holds a candidate of its own kind with a legal score.\<close>

definition slot_ok :: "DiagnosisKind \<Rightarrow> SupportedCandidate option \<Rightarrow> bool" where
  "slot_ok kind slot \<longleftrightarrow> pred_option (\<lambda>c. cand_kind c = kind \<and> cand_score c \<le> 100) slot"

lemma slot_ok_simps [simp]:
  "slot_ok k None" "slot_ok k (Some c) \<longleftrightarrow> cand_kind c = k \<and> cand_score c \<le> 100"
  by (simp_all add: slot_ok_def)

text \<open>What the sequence of conditional setters leaves in the record.\<close>

lemma family_candidates_eq:
  "family_candidates run ws opts =
     (let shares = request_time_shares run;
          inflight = dominant_inflight_candidate (run_inflight run)
      in \<lparr>fc_queue = queue_saturation_suspect run (shares_completed_queue shares)
                       (shares_observed_queue shares) inflight opts,
          fc_blocking = map_option completed_candidate (blocking_pressure_suspect run opts),
          fc_executor = map_option (\<lambda>(s, l). \<lparr>sc_suspect = s, sc_basis = Completed,
                          sc_executor_limitation = l\<rparr>)
                          (executor_pressure_suspect run ws inflight opts),
          fc_downstream = downstream_stage_suspect run opts\<rparr>)"
  by (simp add: family_candidates_def Let_def family_defs split: option.split prod.split)

lemma queue_slot: "slot_ok ApplicationQueuePressure (queue_saturation_suspect run cs obs t opts)"
  by (cases "queue_saturation_suspect run cs obs t opts")
    (auto simp: queue_score_le elim: queue_suspect_cases)

lemma blocking_slot:
  "slot_ok BlockingPoolPressure (map_option completed_candidate (blocking_pressure_suspect run opts))"
  by (cases "eligible_blocking_measurement run opts")
    (simp_all add: completed_candidate_def blocking_pressure_suspect_def blocking_score_le)

lemma executor_slot:
  "slot_ok ExecutorPressure (map_option (\<lambda>(s, l). \<lparr>sc_suspect = s, sc_basis = b,
     sc_executor_limitation = l\<rparr>) (executor_pressure_suspect run ws t opts))"
proof (cases "executor_pressure_suspect run ws t opts")
  case (Some p)
  then show ?thesis using executor_suspect_Some [of run ws t opts "fst p" "snd p"]
    by (simp add: case_prod_beta)
qed simp

lemma downstream_slot: "slot_ok DownstreamStageDominance (downstream_stage_suspect run opts)"
  by (cases "downstream_stage_suspect run opts")
    (auto simp: downstream_suspect_le elim: downstream_suspect_Some)

definition real_kinds :: "DiagnosisKind list" where
  "real_kinds = [ApplicationQueuePressure, BlockingPoolPressure, ExecutorPressure,
     DownstreamStageDominance]"

lemma filtered_slots:
  "list_all2 slot_ok ks slots \<Longrightarrow>
     subseq (map cand_kind (List.map_filter id slots)) ks
     \<and> list_all (\<lambda>c. cand_score c \<le> 100) (List.map_filter id slots)"
  by (induction rule: list_all2_induct)
    (auto simp: map_filter_simps slot_ok_def split: option.splits)

lemma cross_family_ok:
  "subseq (map cand_kind (into_cross_family_candidates (family_candidates run ws opts))) real_kinds
   \<and> list_all (\<lambda>c. cand_score c \<le> 100) (into_cross_family_candidates (family_candidates run ws opts))"
  unfolding into_cross_family_candidates_def family_candidates_eq Let_def real_kinds_def
  by (rule filtered_slots) (simp add: queue_slot blocking_slot executor_slot downstream_slot)

lemma report_suspects_eq:
  "report_suspects (analyze_run_internal run ws opts) =
     finalize_scored_suspects (report_candidates run ws opts) run (evidence_quality run opts) opts"
proof -
  have "finalize_scored_suspects (report_candidates run ws opts) run (evidence_quality run opts) opts \<noteq> []"
    using finalize_length [of "report_candidates run ws opts" run "evidence_quality run opts" opts]
    by (auto simp: report_candidates_def Let_def)
  then show ?thesis
    by (simp add: analyze_run_internal_def Let_def split: list.split)
qed

text \<open>The shape of the ranking is a property of the kinds and scores, whatever their order.\<close>

definition pairs_ok :: "(DiagnosisKind \<times> u8) list \<Rightarrow> bool" where
  "pairs_ok ps \<longleftrightarrow> distinct (map fst ps) \<and> list_all (\<lambda>p. snd p \<le> 100) ps
     \<and> (if InsufficientEvidence \<in> set (map fst ps) then ps = [(InsufficientEvidence, 50)]
        else length ps \<le> 4)"

lemma pairs_ok_mset:
  assumes m: "mset ps = mset qs" and ok: "pairs_ok qs"
  shows "pairs_ok ps"
proof -
  have "mset (map fst ps) = mset (map fst qs)" using m by simp
  then have "distinct (map fst ps) \<longleftrightarrow> distinct (map fst qs)" "set (map fst ps) = set (map fst qs)"
    by (rule mset_eq_imp_distinct_iff, metis set_mset_mset)
  moreover have "set ps = set qs" "length ps = length qs"
    using m by (metis set_mset_mset, metis size_mset)
  moreover have "qs = [q] \<Longrightarrow> ps = [q]" for q using m by simp
  ultimately show ?thesis using ok unfolding pairs_ok_def list_all_iff by (auto split: if_splits)
qed

lemma subseq_subset: "subseq xs ys \<Longrightarrow> set xs \<subseteq> set ys"
  by (induction rule: list_emb.induct) auto

lemma subseq_distinct: "subseq xs ys \<Longrightarrow> distinct ys \<Longrightarrow> distinct xs"
  by (induction rule: list_emb.induct) (auto dest: subseq_subset)

lemma report_candidates_ok:
  "pairs_ok (map (\<lambda>c. (cand_kind c, cand_score c)) (report_candidates run ws opts))"
proof (cases "into_cross_family_candidates (family_candidates run ws opts) = []")
  case True
  then show ?thesis
    by (simp add: pairs_ok_def report_candidates_def Let_def fallback_candidate_def
        completed_candidate_def fallback_suspect_def)
next
  case False
  let ?cs = "into_cross_family_candidates (family_candidates run ws opts)"
  note ok = cross_family_ok [of run ws opts]
  have "subseq (map cand_kind ?cs) real_kinds" using ok ..
  moreover have "distinct real_kinds" "InsufficientEvidence \<notin> set real_kinds" "length real_kinds = 4"
    by (simp_all add: real_kinds_def)
  ultimately have "distinct (map cand_kind ?cs)" "InsufficientEvidence \<notin> set (map cand_kind ?cs)"
    "length (map cand_kind ?cs) \<le> 4"
    by (metis subseq_distinct, metis subseq_subset subsetD, metis list_emb_length)
  then show ?thesis
    using False ok by (simp add: pairs_ok_def report_candidates_def Let_def comp_def list_all_iff)
qed

lemma report_pairs_ok:
  "pairs_ok (map (\<lambda>s. (sp_kind s, sp_score s)) (report_suspects (analyze_run_internal run ws opts)))"
  unfolding report_suspects_eq
  using finalize_kind_score report_candidates_ok by (rule pairs_ok_mset)

lemma report_sorted: "sorted_wrt ranked_before (report_suspects (analyze_run_internal run ws opts))"
  unfolding report_suspects_eq by (rule finalize_sorted)

section \<open>Properties\<close>

text \<open>
  C35. The suspects of a report: there is always at least one; no diagnosis kind occurs twice;
  every score is at most 100; they stand in the final ranking order; and insufficient evidence
  is named only when it is the single suspect, with its fixed score of 50.
\<close>

theorem report_suspects_well_formed:
  "let suspects = report_suspects (analyze_run_internal run worker_status opts)
   in distinct (map sp_kind suspects)
      \<and> list_all (\<lambda>s. sp_score s \<le> 100) suspects
      \<and> sorted_wrt ranked_before suspects
      \<and> (if InsufficientEvidence \<in> set (map sp_kind suspects)
         then map (\<lambda>s. (sp_kind s, sp_score s)) suspects = [(InsufficientEvidence, 50)]
         else length suspects \<le> 4)"
proof -
  let ?ss = "report_suspects (analyze_run_internal run worker_status opts)"
  have "pairs_ok (map (\<lambda>s. (sp_kind s, sp_score s)) ?ss)" by (rule report_pairs_ok)
  then have "distinct (map sp_kind ?ss) \<and> list_all (\<lambda>s. sp_score s \<le> 100) ?ss
      \<and> (if InsufficientEvidence \<in> set (map sp_kind ?ss)
         then map (\<lambda>s. (sp_kind s, sp_score s)) ?ss = [(InsufficientEvidence, 50)]
         else length ?ss \<le> 4)"
    unfolding pairs_ok_def list.pred_map length_map list.map_comp comp_def fst_conv snd_conv .
  then show ?thesis using report_sorted [of run worker_status opts] unfolding Let_def by blast
qed

end
