(* ===== verification/An_Slices.thy ===== *)
theory An_Slices
  imports An_Report Core_Normalize
begin

text \<open>
  Slicing (\<^verbatim>\<open>slicing.rs\<close>): the part of a run that belongs to a set of requests, with the global
  samples excluded or restricted to a window of time, and the analysis of such a part. A slice
  of a normalized run without global samples is normalized already, so that the analysis of a
  route sees exactly the requests of that route.
\<close>

section \<open>Slices\<close>

record SampleWindow =
  sw_unix_start :: u64
  sw_unix_finish :: u64
  sw_run_relative :: "(u64 \<times> u64) option"

datatype GlobalEvidencePolicy = Exclude | Window SampleWindow

record ScopedReportProjection =
  srp_request_count :: nat
  srp_p50_latency_us :: "u64 option"
  srp_p95_latency_us :: "u64 option"
  srp_p99_latency_us :: "u64 option"
  srp_p95_queue_share_permille :: "u64 option"
  srp_p95_service_share_permille :: "u64 option"
  srp_evidence_quality :: EvidenceQuality
  srp_primary_suspect :: Suspect
  srp_secondary_suspects :: "Suspect list"
  srp_warnings :: "string list"

record ScopedAnalysis =
  sa_report :: ScopedReportProjection
  sa_used_unix_fallback :: bool

record SlicedRun =
  sr_run :: Run
  sr_used_unix_fallback :: bool

definition projection_from_report :: "Report \<Rightarrow> ScopedReportProjection" where
  "projection_from_report report =
     \<lparr>srp_request_count = rp_request_count report,
      srp_p50_latency_us = rp_p50_latency_us report,
      srp_p95_latency_us = rp_p95_latency_us report,
      srp_p99_latency_us = rp_p99_latency_us report,
      srp_p95_queue_share_permille = rp_p95_queue_share_permille report,
      srp_p95_service_share_permille = rp_p95_service_share_permille report,
      srp_evidence_quality = rp_evidence_quality report,
      srp_primary_suspect = rp_primary_suspect report,
      srp_secondary_suspects = rp_secondary_suspects report,
      srp_warnings = rp_warnings report\<rparr>"

definition into_route_breakdown :: "string \<Rightarrow> ScopedReportProjection \<Rightarrow> RouteBreakdown" where
  "into_route_breakdown route self =
     \<lparr>rb_route = route, rb_request_count = srp_request_count self,
      rb_p50_latency_us = srp_p50_latency_us self,
      rb_p95_latency_us = srp_p95_latency_us self,
      rb_p99_latency_us = srp_p99_latency_us self,
      rb_p95_queue_share_permille = srp_p95_queue_share_permille self,
      rb_p95_service_share_permille = srp_p95_service_share_permille self,
      rb_evidence_quality = srp_evidence_quality self,
      rb_primary_suspect = srp_primary_suspect self,
      rb_secondary_suspects = srp_secondary_suspects self,
      rb_warnings = srp_warnings self\<rparr>"

definition into_temporal_segment ::
    "string \<Rightarrow> u64 option \<Rightarrow> u64 option \<Rightarrow> ScopedReportProjection \<Rightarrow> TemporalSegment" where
  "into_temporal_segment name started finished self =
     \<lparr>ts_name = name, ts_request_count = srp_request_count self,
      ts_started_at_unix_ms = started, ts_finished_at_unix_ms = finished,
      ts_p50_latency_us = srp_p50_latency_us self,
      ts_p95_latency_us = srp_p95_latency_us self,
      ts_p99_latency_us = srp_p99_latency_us self,
      ts_p95_queue_share_permille = srp_p95_queue_share_permille self,
      ts_p95_service_share_permille = srp_p95_service_share_permille self,
      ts_evidence_quality = srp_evidence_quality self,
      ts_primary_suspect = srp_primary_suspect self,
      ts_secondary_suspects = srp_secondary_suspects self,
      ts_warnings = srp_warnings self\<rparr>"

text \<open>Whether a sample is retained, and whether only its wall-clock time decided that.\<close>

definition retain_sample :: "u64 \<Rightarrow> u64 option \<Rightarrow> SampleWindow \<Rightarrow> bool \<times> bool" where
  "retain_sample at_unix_ms at_run_us window =
     (case (sw_run_relative window, at_run_us) of
        (Some (start, fin), Some t) \<Rightarrow> (t \<ge> start \<and> t \<le> fin, False)
      | _ \<Rightarrow>
          let retained = (at_unix_ms \<ge> sw_unix_start window \<and> at_unix_ms \<le> sw_unix_finish window)
          in (retained, retained \<and> sw_run_relative window \<noteq> None \<and> at_run_us = None))"

definition slice_run :: "Run \<Rightarrow> Run \<Rightarrow> string list \<Rightarrow> GlobalEvidencePolicy \<Rightarrow> SlicedRun" where
  "slice_run canonical_source original_runtime_source request_ids global_evidence =
     (let run = canonical_source
            \<lparr>run_requests := filter (\<lambda>r. req_request_id r \<in> set request_ids) (run_requests canonical_source),
             run_stages := filter (\<lambda>s. stg_request_id s \<in> set request_ids) (run_stages canonical_source),
             run_queues := filter (\<lambda>q. que_request_id q \<in> set request_ids) (run_queues canonical_source)\<rparr>
      in case global_evidence of
           Exclude \<Rightarrow>
             \<lparr>sr_run = run\<lparr>run_runtime_snapshots := [], run_inflight := []\<rparr>,
              sr_used_unix_fallback = False\<rparr>
         | Window window \<Rightarrow>
             (let snapshots = run_runtime_snapshots original_runtime_source;
                  inflight = run_inflight original_runtime_source;
                  retain_rt = (\<lambda>s. retain_sample (rts_at_unix_ms s) (rts_at_run_us s) window);
                  retain_if = (\<lambda>s. retain_sample (inf_at_unix_ms s) (inf_at_run_us s) window)
              in \<lparr>sr_run = run\<lparr>run_runtime_snapshots := filter (\<lambda>s. fst (retain_rt s)) snapshots,
                              run_inflight := filter (\<lambda>s. fst (retain_if s)) inflight\<rparr>,
                  sr_used_unix_fallback = (list_ex (\<lambda>s. snd (retain_rt s)) snapshots
                    \<or> list_ex (\<lambda>s. snd (retain_if s)) inflight)\<rparr>))"

definition analyze_slice :: "Run \<Rightarrow> Run \<Rightarrow> string list \<Rightarrow> GlobalEvidencePolicy \<Rightarrow> AnalyzeOptions
    \<Rightarrow> ScopedAnalysis" where
  "analyze_slice canonical_source original_runtime_source request_ids global_evidence options =
     (let sliced = slice_run canonical_source original_runtime_source request_ids global_evidence;
          worker_status = (case global_evidence of Exclude \<Rightarrow> None
            | Window _ \<Rightarrow> classify_worker_evidence (sr_run sliced));
          normalized = normalize_run_permissive (sr_run sliced)
      in \<lparr>sa_report = projection_from_report
            (analyze_run_internal (nr_run normalized) worker_status options),
          sa_used_unix_fallback = sr_used_unix_fallback sliced\<rparr>)"

section \<open>Slices of normalized runs\<close>

lemma normalized_is_canonical: "nr_run (normalize_run_permissive run) = canonical_run run"
  by (simp add: report_of_normalize)

lemma projection_simps [simp]:
  "srp_request_count (projection_from_report r) = rp_request_count r"
  "srp_p95_latency_us (projection_from_report r) = rp_p95_latency_us r"
  "srp_primary_suspect (projection_from_report r) = rp_primary_suspect r"
  "srp_warnings (projection_from_report r) = rp_warnings r"
  by (simp_all add: projection_from_report_def)

lemma internal_request_count [simp]:
  "rp_request_count (analyze_run_internal run ws opts) = length (run_requests run)"
  by (simp add: analyze_run_internal_def Let_def split: prod.splits)

lemma slice_requests:
  "run_requests (sr_run (slice_run c orig ids policy)) =
     filter (\<lambda>r. req_request_id r \<in> set ids) (run_requests c)"
  by (cases policy) (simp_all add: slice_run_def Let_def)

lemma filter_ids:
  "rid \<in> set ids \<Longrightarrow>
   filter (\<lambda>r. request_ok r \<and> req_request_id r = rid)
     (filter (\<lambda>r. req_request_id r \<in> set ids) rs) =
   filter (\<lambda>r. request_ok r \<and> req_request_id r = rid) rs"
  by (induction rs) auto

lemma id_count_slice:
  "rid \<in> set ids \<Longrightarrow>
   id_count (filter (\<lambda>r. req_request_id r \<in> set ids) rs) rid = id_count rs rid"
  by (simp only: id_count_def filter_ids)

lemma parent_of_slice:
  assumes "rid \<in> set ids"
  shows "parent_of (filter (\<lambda>r. req_request_id r \<in> set ids) rs) rid = parent_of rs rid"
proof -
  have "rid \<in> req_request_id ` set (filter (\<lambda>r. req_request_id r \<in> set ids) rs)
      \<longleftrightarrow> rid \<in> req_request_id ` set rs"
    using assms by auto
  then show ?thesis unfolding parent_of_def filter_ids [OF assms] by simp
qed

lemma keep_slice:
  "req_request_id r \<in> set ids \<Longrightarrow>
     keep_request (filter (\<lambda>r. req_request_id r \<in> set ids) rs) r = keep_request rs r"
  "stg_request_id s \<in> set ids \<Longrightarrow>
     keep_stage (filter (\<lambda>r. req_request_id r \<in> set ids) rs) s = keep_stage rs s"
  "que_request_id q \<in> set ids \<Longrightarrow>
     keep_queue (filter (\<lambda>r. req_request_id r \<in> set ids) rs) q = keep_queue rs q"
  by (simp_all add: keep_request_def keep_stage_def keep_queue_def id_count_slice parent_of_slice)

lemma canonical_fixed_parts:
  assumes "canonical_run c = c"
  shows "r \<in> set (run_requests c) \<Longrightarrow> keep_request (run_requests c) r \<and> repair_request r = r"
    and "s \<in> set (run_stages c) \<Longrightarrow> keep_stage (run_requests c) s \<and> repair_stage s = s"
    and "q \<in> set (run_queues c) \<Longrightarrow> keep_queue (run_requests c) q \<and> repair_queue q = q"
  using assms unfolding canonical_run_fixed by blast+

text \<open>Only the global samples of a slice can still need normalization.\<close>

lemma canonical_slice_events:
  assumes "canonical_run c = c"
  shows "run_requests (canonical_run (sr_run (slice_run c orig ids policy))) =
           filter (\<lambda>r. req_request_id r \<in> set ids) (run_requests c)"
    and "run_stages (canonical_run (sr_run (slice_run c orig ids policy))) =
           filter (\<lambda>s. stg_request_id s \<in> set ids) (run_stages c)"
    and "run_queues (canonical_run (sr_run (slice_run c orig ids policy))) =
           filter (\<lambda>q. que_request_id q \<in> set ids) (run_queues c)"
proof -
  let ?s = "sr_run (slice_run c orig ids policy)"
  note parts = canonical_fixed_parts [OF assms]
  have s: "run_requests ?s = filter (\<lambda>r. req_request_id r \<in> set ids) (run_requests c)"
    "run_stages ?s = filter (\<lambda>s. stg_request_id s \<in> set ids) (run_stages c)"
    "run_queues ?s = filter (\<lambda>q. que_request_id q \<in> set ids) (run_queues c)"
    by (cases policy; simp add: slice_run_def Let_def)+
  have "map repair_request (filter (keep_request (run_requests ?s)) (run_requests ?s)) = run_requests ?s"
    unfolding map_filter_eq_self using parts(1) by (auto simp: s keep_slice)
  moreover have "map repair_stage (filter (keep_stage (run_requests ?s)) (run_stages ?s)) = run_stages ?s"
    unfolding map_filter_eq_self using parts(2) by (auto simp: s keep_slice)
  moreover have "map repair_queue (filter (keep_queue (run_requests ?s)) (run_queues ?s)) = run_queues ?s"
    unfolding map_filter_eq_self using parts(3) by (auto simp: s keep_slice)
  ultimately show "run_requests (canonical_run ?s) =
        filter (\<lambda>r. req_request_id r \<in> set ids) (run_requests c)"
    "run_stages (canonical_run ?s) = filter (\<lambda>s. stg_request_id s \<in> set ids) (run_stages c)"
    "run_queues (canonical_run ?s) = filter (\<lambda>q. que_request_id q \<in> set ids) (run_queues c)"
    by (simp_all add: canonical_run_def s)
qed

lemma slice_exclude_canonical:
  assumes "canonical_run c = c"
  shows "canonical_run (sr_run (slice_run c orig ids Exclude)) = sr_run (slice_run c orig ids Exclude)"
  using canonical_fixed_parts [OF assms] unfolding canonical_run_fixed
  by (auto simp: slice_run_def keep_slice)

lemma slice_request_count:
  assumes "canonical_run c = c"
  shows "srp_request_count (sa_report (analyze_slice c orig ids policy opts)) =
           length (filter (\<lambda>r. req_request_id r \<in> set ids) (run_requests c))"
  by (simp add: analyze_slice_def Let_def report_of_normalize canonical_slice_events [OF assms])

lemma slice_p95_latency:
  assumes "canonical_run c = c"
  shows "srp_p95_latency_us (sa_report (analyze_slice c orig ids policy opts)) =
           percentile (map req_latency_us (filter (\<lambda>r. req_request_id r \<in> set ids) (run_requests c))) 95 100"
  by (simp add: analyze_slice_def Let_def report_of_normalize canonical_slice_events [OF assms]
      analyze_run_internal_def split: prod.splits)

section \<open>Requests of a normalized run have distinct ids\<close>

lemma ok_ids_distinct:
  "(\<And>r. r \<in> set rs \<Longrightarrow> request_ok r \<and> id_count rs (req_request_id r) \<le> 1) \<Longrightarrow>
   distinct (map req_request_id rs)"
proof (induction rs)
  case (Cons r rs)
  have "id_count rs (req_request_id r) = 0"
    using Cons.prems [of r] by (auto simp: id_count_def)
  then have "req_request_id r \<notin> req_request_id ` set rs"
    using Cons.prems by (auto simp: id_count_def filter_empty_conv)
  moreover have "request_ok r' \<and> id_count rs (req_request_id r') \<le> 1" if "r' \<in> set rs" for r'
    using Cons.prems [of r'] that by (auto simp: id_count_def split: if_splits)
  then have "distinct (map req_request_id rs)" by (rule Cons.IH)
  ultimately show ?case by simp
qed simp

lemma canonical_ids_distinct:
  assumes "canonical_run c = c"
  shows "distinct (map req_request_id (run_requests c))"
  by (rule ok_ids_distinct) (use canonical_fixed_parts(1) [OF assms] in \<open>simp add: keep_request_def\<close>)

lemma filter_by_ids:
  "distinct (map f xs) \<Longrightarrow> filter (\<lambda>x. f x \<in> set (map f (filter P xs))) xs = filter P xs"
  by (rule filter_cong) (auto simp: distinct_map dest: inj_onD)

section \<open>Properties\<close>

text \<open>
  Slicing a normalized run by request id gives a run that is normalized again: with the global
  samples excluded it is a fixed point of normalization, and with samples of a window the
  requests, stages and queues are untouched by the normalization that follows.
\<close>

theorem slices_stay_normalized:
  "let c = nr_run (normalize_run_permissive run);
       sliced = sr_run (slice_run c orig ids policy);
       again = nr_run (normalize_run_permissive sliced)
   in (run_requests again, run_stages again, run_queues again) =
        (run_requests sliced, run_stages sliced, run_queues sliced)
      \<and> (if policy = Exclude then again = sliced else True)"
proof -
  let ?c = "canonical_run run"
  let ?s = "sr_run (slice_run ?c orig ids policy)"
  have c: "canonical_run ?c = ?c" by (rule canonical_run_idem)
  have "run_stages ?s = filter (\<lambda>s. stg_request_id s \<in> set ids) (run_stages ?c)"
    "run_queues ?s = filter (\<lambda>q. que_request_id q \<in> set ids) (run_queues ?c)"
    by (cases policy; simp add: slice_run_def Let_def)+
  then show ?thesis
    using slice_exclude_canonical [OF c, of orig ids]
    by (simp add: Let_def report_of_normalize canonical_slice_events [OF c] slice_requests)
qed

end
