(* ===== verification/An_Routes.thy ===== *)
theory An_Routes
  imports An_Slices
begin

text \<open>
  Route breakdowns (\<^verbatim>\<open>route.rs\<close>): the requests grouped by route, one slice analysis for every
  route with enough requests, the decision whether the breakdowns say anything, and the order
  and limit under which they are emitted.
\<close>

section \<open>Breakdowns\<close>

definition ROUTE_RUNTIME_ATTRIBUTION_WARNING :: string where
  "ROUTE_RUNTIME_ATTRIBUTION_WARNING =
     ''Runtime and in-flight signals are global and are not attributed to this route.''"

definition iter_min :: "'a::linorder list \<Rightarrow> 'a option" where
  "iter_min xs = (case xs of [] \<Rightarrow> None | x # rest \<Rightarrow> Some (foldl min x rest))"

definition iter_max :: "'a::linorder list \<Rightarrow> 'a option" where
  "iter_max xs = (case xs of [] \<Rightarrow> None | x # rest \<Rightarrow> Some (foldl max x rest))"

record RouteBreakdownContext =
  rbc_breakdowns :: "RouteBreakdown list"
  rbc_warn_on_divergence :: bool

definition route_divergence :: "RouteBreakdown list \<Rightarrow> bool" where
  "route_divergence candidates \<longleftrightarrow>
     length (foldl (\<lambda>s c. bs_insert (kind_as_str (sp_kind (rb_primary_suspect c))) s) [] candidates) \<ge> 2"

definition has_material_route_p95_ratio ::
    "u64 \<Rightarrow> u64 \<Rightarrow> u64 option \<Rightarrow> AnalyzeOptions \<Rightarrow> bool" where
  "has_material_route_p95_ratio slowest fastest global_p95 options \<longleftrightarrow>
     meets_ratio slowest fastest
       (rto_slowest_to_fastest_p95_ratio_numerator (ao_route options))
       (rto_slowest_to_fastest_p95_ratio_denominator (ao_route options))
     \<or> (case global_p95 of
          Some g \<Rightarrow> meets_ratio slowest g
            (rto_slowest_to_global_p95_ratio_numerator (ao_route options))
            (rto_slowest_to_global_p95_ratio_denominator (ao_route options))
        | None \<Rightarrow> False)"

definition should_emit_route_breakdowns ::
    "Report \<Rightarrow> RouteBreakdown list \<Rightarrow> AnalyzeOptions \<Rightarrow> bool" where
  "should_emit_route_breakdowns global_report candidates options =
     (if length candidates < 2 then False
      else if route_divergence candidates \<and> rto_emit_on_divergent_suspects (ao_route options) then True
      else
        (let p95s = List.map_filter rb_p95_latency_us candidates
         in if length p95s < 2 then False
            else has_material_route_p95_ratio (unwrap_or (iter_max p95s) 0)
                   (unwrap_or (iter_min p95s) 0) (rp_p95_latency_us global_report) options))"

definition route_order :: "RouteBreakdown \<Rightarrow> RouteBreakdown \<Rightarrow> ordering" where
  "route_order a b =
     then_with (cmp (rb_p95_latency_us b) (rb_p95_latency_us a))
    (then_with (cmp (rb_request_count b) (rb_request_count a))
               (cmp (rb_route a) (rb_route b)))"

definition ids_by_route :: "Run \<Rightarrow> (string, string list) btree" where
  "ids_by_route run = group_into req_route req_request_id (run_requests run) []"

definition omitted_routes :: "Run \<Rightarrow> nat \<Rightarrow> nat" where
  "omitted_routes run min_count =
     (let counts = foldl (\<lambda>acc r. bt_entry (req_route r) (\<lambda>n. unwrap_or n 0 + 1) acc) []
                     (run_requests run)
      in length (filter (\<lambda>n. n < min_count) (map snd counts)))"

definition route_candidate :: "Run \<Rightarrow> AnalyzeOptions \<Rightarrow> string \<times> string list \<Rightarrow> RouteBreakdown" where
  "route_candidate run options entry =
     (let analyzed = sa_report (analyze_slice run run (snd entry) Exclude options)
      in into_route_breakdown (fst entry)
           (analyzed\<lparr>srp_warnings := srp_warnings analyzed @ [ROUTE_RUNTIME_ATTRIBUTION_WARNING]\<rparr>))"

definition omitted_note :: "nat \<Rightarrow> string" where
  "omitted_note min_count =
     ''Some routes are omitted from route_breakdowns because they have fewer than ''
     @ show_nat min_count @ '' completed requests.''"

definition route_breakdowns :: "Run \<Rightarrow> Report \<Rightarrow> AnalyzeOptions \<Rightarrow> RouteBreakdownContext" where
  "route_breakdowns run global_report options =
     (let min_count = rto_min_request_count (ao_route options);
          eligible = filter (\<lambda>e. length (snd e) \<ge> min_count) (ids_by_route run)
      in if length eligible < 2
         then \<lparr>rbc_breakdowns = [], rbc_warn_on_divergence = False\<rparr>
         else
           (let omitted = omitted_routes run min_count;
                candidates = map (route_candidate run options) eligible
            in if \<not> should_emit_route_breakdowns global_report candidates options
               then \<lparr>rbc_breakdowns = [], rbc_warn_on_divergence = False\<rparr>
               else
                 (let emitted = take (rto_breakdown_limit (ao_route options))
                                  (sort_by route_order candidates);
                      warn = (rto_emit_on_divergent_suspects (ao_route options)
                              \<and> route_divergence emitted);
                      emitted = (if omitted > 0
                        then map (\<lambda>b. b\<lparr>rb_warnings := rb_warnings b @ [omitted_note min_count]\<rparr>) emitted
                        else emitted)
                  in \<lparr>rbc_breakdowns = emitted, rbc_warn_on_divergence = warn\<rparr>)))"

section \<open>Facts\<close>

interpretation route_cmp: total_cmp route_order
  unfolding route_order_def [abs_def] by (intro total_cmp_intros)

lemma foldl_min: "foldl min x xs \<in> insert x (set xs) \<and> (\<forall>y\<in>insert x (set xs). foldl min x xs \<le> y)"
  for x :: "'a::linorder"
  by (induction xs arbitrary: x) (fastforce simp: min_def split: if_splits)+

lemma foldl_max: "foldl max x xs \<in> insert x (set xs) \<and> (\<forall>y\<in>insert x (set xs). y \<le> foldl max x xs)"
  for x :: "'a::linorder"
  by (induction xs arbitrary: x) (fastforce simp: max_def split: if_splits)+

lemma iter_min_Some: "iter_min xs = Some m \<Longrightarrow> m \<in> set xs \<and> (\<forall>y\<in>set xs. m \<le> y)"
  using foldl_min by (cases xs) (auto simp: iter_min_def)

lemma iter_max_Some: "iter_max xs = Some m \<Longrightarrow> m \<in> set xs \<and> (\<forall>y\<in>set xs. y \<le> m)"
  using foldl_max by (cases xs) (auto simp: iter_max_def)

lemma iter_None [simp]: "iter_min xs = None \<longleftrightarrow> xs = []" "iter_max xs = None \<longleftrightarrow> xs = []"
  by (auto simp: iter_min_def iter_max_def split: list.splits)

lemma set_foldl_bs_insert:
  "set (foldl (\<lambda>s c. bs_insert (f c) s) s xs) = set s \<union> f ` set xs"
  by (induction xs arbitrary: s) auto

lemma sorted_foldl_bs_insert:
  "sorted_wrt (<) s \<Longrightarrow> sorted_wrt (<) (foldl (\<lambda>s c. bs_insert (f c) s) s xs)"
  by (induction xs arbitrary: s) (simp_all add: sorted_bs_insert)

text \<open>Routes diverge when two of them have different primary kinds.\<close>

lemma route_divergence_iff:
  "route_divergence bs \<longleftrightarrow>
     (\<exists>a\<in>set bs. \<exists>b\<in>set bs. sp_kind (rb_primary_suspect a) \<noteq> sp_kind (rb_primary_suspect b))"
proof -
  let ?f = "\<lambda>c. kind_as_str (sp_kind (rb_primary_suspect c))"
  let ?s = "foldl (\<lambda>s c. bs_insert (?f c) s) [] bs"
  have "distinct ?s" using sorted_foldl_bs_insert [of "[]" ?f bs] by (simp add: strict_sorted_iff)
  then have "length ?s = card (?f ` set bs)"
    using set_foldl_bs_insert [of ?f "[]" bs] by (metis distinct_card empty_set sup_bot_left)
  moreover have "2 \<le> card (?f ` set bs) \<longleftrightarrow> (\<exists>x\<in>?f ` set bs. \<exists>y\<in>?f ` set bs. x \<noteq> y)"
    using card_le_Suc0_iff_eq [of "?f ` set bs"] by (auto simp: numeral_2_eq_2 not_less_eq_eq [symmetric])
  ultimately show ?thesis by (auto simp: route_divergence_def)
qed

lemma route_candidate_simps [simp]:
  "rb_route (route_candidate run opts e) = fst e"
  by (simp add: route_candidate_def into_route_breakdown_def Let_def)

lemma route_candidate_count:
  assumes "canonical_run c = c" and "e \<in> set (ids_by_route c)"
  shows "rb_request_count (route_candidate c opts e)
           = length (filter (\<lambda>r. req_route r = fst e) (run_requests c))"
    and "length (snd e) = length (filter (\<lambda>r. req_route r = fst e) (run_requests c))"
proof -
  have e: "snd e = map req_request_id (filter (\<lambda>r. req_route r = fst e) (run_requests c))"
    using assms(2) group_by_entry_iff [of "fst e" "snd e" req_route req_request_id "run_requests c"]
    by (simp add: ids_by_route_def)
  show "length (snd e) = length (filter (\<lambda>r. req_route r = fst e) (run_requests c))"
    by (simp add: e)
  show "rb_request_count (route_candidate c opts e)
      = length (filter (\<lambda>r. req_route r = fst e) (run_requests c))"
    using slice_request_count [OF assms(1), of c "snd e" Exclude opts]
    unfolding e filter_by_ids [OF canonical_ids_distinct [OF assms(1)]]
    by (simp add: route_candidate_def into_route_breakdown_def Let_def e del: set_map set_filter)
qed

lemma route_order_p95: "route_order a b \<noteq> OGreater \<Longrightarrow> rb_p95_latency_us b \<le> rb_p95_latency_us a"
  by (auto simp: route_order_def cmp_def split: if_splits)

definition eligible_routes :: "Run \<Rightarrow> AnalyzeOptions \<Rightarrow> (string \<times> string list) list" where
  "eligible_routes run options =
     filter (\<lambda>e. length (snd e) \<ge> rto_min_request_count (ao_route options)) (ids_by_route run)"

definition ranked_routes :: "Run \<Rightarrow> AnalyzeOptions \<Rightarrow> RouteBreakdown list" where
  "ranked_routes run options =
     take (rto_breakdown_limit (ao_route options))
       (sort_by route_order (map (route_candidate run options) (eligible_routes run options)))"

definition with_note :: "string list \<Rightarrow> RouteBreakdown \<Rightarrow> RouteBreakdown" where
  "with_note extra b = b\<lparr>rb_warnings := rb_warnings b @ extra\<rparr>"

lemma with_note_simps [simp]:
  "rb_route (with_note n b) = rb_route b" "rb_request_count (with_note n b) = rb_request_count b"
  "rb_p95_latency_us (with_note n b) = rb_p95_latency_us b"
  "rb_primary_suspect (with_note n b) = rb_primary_suspect b"
  by (simp_all add: with_note_def)

lemma route_breakdowns_cases:
  obtains (Silent) "route_breakdowns run g opts = \<lparr>rbc_breakdowns = [], rbc_warn_on_divergence = False\<rparr>"
  | (Emitted) extra where "route_breakdowns run g opts =
      \<lparr>rbc_breakdowns = map (with_note extra) (ranked_routes run opts),
       rbc_warn_on_divergence = (rto_emit_on_divergent_suspects (ao_route opts)
         \<and> route_divergence (ranked_routes run opts))\<rparr>"
    and "should_emit_route_breakdowns g (map (route_candidate run opts) (eligible_routes run opts)) opts"
proof -
  have "with_note [] = (\<lambda>b. b)" by (rule ext) (simp add: with_note_def)
  then have "route_breakdowns run g opts =
      (if length (eligible_routes run opts) < 2
         \<or> \<not> should_emit_route_breakdowns g (map (route_candidate run opts) (eligible_routes run opts)) opts
       then \<lparr>rbc_breakdowns = [], rbc_warn_on_divergence = False\<rparr>
       else \<lparr>rbc_breakdowns = map (with_note
               (if omitted_routes run (rto_min_request_count (ao_route opts)) > 0
                then [omitted_note (rto_min_request_count (ao_route opts))] else []))
               (ranked_routes run opts),
             rbc_warn_on_divergence = (rto_emit_on_divergent_suspects (ao_route opts)
               \<and> route_divergence (ranked_routes run opts))\<rparr>)"
    by (simp add: route_breakdowns_def Let_def eligible_routes_def ranked_routes_def with_note_def)
  with that show thesis by (auto split: if_splits)
qed

lemma eligible_routes_distinct: "distinct (map fst (eligible_routes run opts))"
  unfolding eligible_routes_def ids_by_route_def
  by (rule distinct_map_filter) (rule group_by_distinct)

lemma ranked_routes_distinct: "distinct (map rb_route (ranked_routes run opts))"
proof -
  let ?c = "map (route_candidate run opts) (eligible_routes run opts)"
  have "mset (map rb_route (sort_by route_order ?c)) = mset (map fst (eligible_routes run opts))"
    by (simp add: image_mset.compositionality comp_def)
  then have "distinct (map rb_route (sort_by route_order ?c))"
    using eligible_routes_distinct mset_eq_imp_distinct_iff by blast
  then show ?thesis by (simp add: ranked_routes_def take_map [symmetric])
qed

lemma ranked_routes_sorted:
  "sorted_wrt (\<lambda>a b. rb_p95_latency_us b \<le> rb_p95_latency_us a) (ranked_routes run opts)"
  unfolding ranked_routes_def
  by (rule sorted_wrt_take, rule sorted_wrt_mono_rel [OF _ route_cmp.sort_by_sorted])
    (rule route_order_p95)

lemma ranked_routes_from:
  "b \<in> set (ranked_routes run opts) \<Longrightarrow>
     \<exists>e\<in>set (ids_by_route run). rto_min_request_count (ao_route opts) \<le> length (snd e)
        \<and> b = route_candidate run opts e"
  by (auto simp: ranked_routes_def eligible_routes_def dest!: in_set_takeD)

section \<open>Properties\<close>

text \<open>
  C37. The route breakdowns of a normalized run: at most the configured number, one per route, each
  counting exactly the completed requests of its route and at least the configured minimum,
  slowest 95th percentile first, and all eligible routes when the limit allows. The divergence
  warning is asked for exactly when two emitted breakdowns have different primary suspects (and
  the option is on).
\<close>

theorem route_breakdowns_faithful:
  "let c = nr_run (normalize_run_permissive run);
       context = route_breakdowns c global_report opts;
       bs = rbc_breakdowns context;
       requests_of = (\<lambda>route. length (filter (\<lambda>r. req_route r = route) (run_requests c)))
   in length bs \<le> rto_breakdown_limit (ao_route opts)
      \<and> distinct (map rb_route bs)
      \<and> list_all (\<lambda>b. rb_request_count b = requests_of (rb_route b)
                     \<and> rto_min_request_count (ao_route opts) \<le> rb_request_count b) bs
      \<and> sorted_wrt (\<lambda>a b. rb_p95_latency_us b \<le> rb_p95_latency_us a) bs
      \<and> (if bs = [] then True
         else length bs = min (rto_breakdown_limit (ao_route opts))
                (length (filter (\<lambda>route. rto_min_request_count (ao_route opts) \<le> requests_of route)
                   (map fst (ids_by_route c)))))
      \<and> rbc_warn_on_divergence context =
          (rto_emit_on_divergent_suspects (ao_route opts)
           \<and> list_ex (\<lambda>a. list_ex (\<lambda>b. sp_kind (rb_primary_suspect a) \<noteq> sp_kind (rb_primary_suspect b)) bs) bs)"
proof -
  let ?c = "canonical_run run"
  have c: "canonical_run ?c = ?c" by (rule canonical_run_idem)
  have "filter (\<lambda>route. rto_min_request_count (ao_route opts)
          \<le> length (filter (\<lambda>r. req_route r = route) (run_requests ?c))) (map fst (ids_by_route ?c))
      = map fst (eligible_routes ?c opts)"
    unfolding filter_map eligible_routes_def
    by (rule arg_cong [where f = "map fst"], rule filter_cong)
      (simp_all add: route_candidate_count(2) [OF c])
  then have len: "length (ranked_routes ?c opts) = min (rto_breakdown_limit (ao_route opts))
      (length (filter (\<lambda>route. rto_min_request_count (ao_route opts)
          \<le> length (filter (\<lambda>r. req_route r = route) (run_requests ?c))) (map fst (ids_by_route ?c))))"
    by (simp add: ranked_routes_def min.commute)
  have counts: "rb_request_count b = length (filter (\<lambda>r. req_route r = rb_route b) (run_requests ?c))
      \<and> rto_min_request_count (ao_route opts) \<le> rb_request_count b"
    if "b \<in> set (ranked_routes ?c opts)" for b
    using ranked_routes_from [OF that] route_candidate_count [OF c] by auto
  show ?thesis
  proof (cases rule: route_breakdowns_cases [of ?c global_report opts])
    case Silent
    then show ?thesis by (simp add: Let_def normalized_is_canonical)
  next
    case (Emitted extra)
    have map_comp: "map rb_route (map (with_note extra) bs) = map rb_route bs" for bs by simp
    have div: "route_divergence bs \<longleftrightarrow> list_ex (\<lambda>a. list_ex (\<lambda>b. sp_kind (rb_primary_suspect a)
        \<noteq> sp_kind (rb_primary_suspect b)) (map (with_note extra) bs)) (map (with_note extra) bs)" for bs
      by (simp add: route_divergence_iff list_ex_iff)
    have counted: "list_all (\<lambda>b. rb_request_count b
          = length (filter (\<lambda>r. req_route r = rb_route b) (run_requests ?c))
        \<and> rto_min_request_count (ao_route opts) \<le> rb_request_count b)
        (map (with_note extra) (ranked_routes ?c opts))"
      unfolding list_all_iff set_map ball_simps with_note_simps using counts by blast
    have sorted: "sorted_wrt (\<lambda>a b. rb_p95_latency_us b \<le> rb_p95_latency_us a)
        (map (with_note extra) (ranked_routes ?c opts))"
      using ranked_routes_sorted by (simp add: sorted_wrt_map)
    show ?thesis
      unfolding Let_def normalized_is_canonical Emitted(1) RouteBreakdownContext.simps map_comp
        length_map div [symmetric]
      using counted sorted ranked_routes_distinct len by simp
  qed
qed

end
