(* ===== verification/An_Temporal.thy ===== *)
theory An_Temporal
  imports An_Routes
begin

text \<open>
  Temporal segments (\<^verbatim>\<open>temporal.rs\<close>): the requests of a normalized run are ordered by start
  and cut in two halves; each half is analysed as a slice with the global samples of its time
  window; the pair is reported when latency, shares or the primary suspect moved between them.
\<close>

section \<open>Warnings\<close>

definition TEMPORAL_RUNTIME_ATTRIBUTION_WARNING :: string where
  "TEMPORAL_RUNTIME_ATTRIBUTION_WARNING =
     ''Runtime and in-flight evidence is sparse in this segment after timestamp filtering; executor/blocking attribution is limited.''"

definition TEMPORAL_SUSPECT_SHIFT_WARNING :: string where
  "TEMPORAL_SUSPECT_SHIFT_WARNING =
     ''Temporal segments show different primary suspects; inspect temporal_segments before acting on the global suspect.''"

definition TEMPORAL_P95_SHIFT_WARNING :: string where
  "TEMPORAL_P95_SHIFT_WARNING =
     ''Temporal segments show a large p95 latency shift between early and late requests.''"

definition TEMPORAL_OVERLAP_ATTRIBUTION_WARNING :: string where
  "TEMPORAL_OVERLAP_ATTRIBUTION_WARNING =
     ''Segment windows overlap under concurrent requests; timestamp-filtered runtime/in-flight attribution is approximate.''"

definition TEMPORAL_WALL_CLOCK_FALLBACK_WARNING :: string where
  "TEMPORAL_WALL_CLOCK_FALLBACK_WARNING =
     ''Temporal segment used wall-clock timestamp fallback; attribution is approximate for artifacts without complete run-relative timing.''"

section \<open>Order and windows\<close>

definition all_requests_have_run_relative_start :: "RequestEvent list \<Rightarrow> bool" where
  "all_requests_have_run_relative_start requests \<longleftrightarrow>
     list_all (\<lambda>r. req_started_at_run_us r \<noteq> None) requests"

definition run_start_order :: "RequestEvent \<Rightarrow> RequestEvent \<Rightarrow> ordering" where
  "run_start_order a b =
     then_with (cmp (the (req_started_at_run_us a)) (the (req_started_at_run_us b)))
    (then_with (cmp (req_started_at_unix_ms a) (req_started_at_unix_ms b))
               (cmp (req_request_id a) (req_request_id b)))"

definition unix_start_order :: "RequestEvent \<Rightarrow> RequestEvent \<Rightarrow> ordering" where
  "unix_start_order a b =
     then_with (cmp (req_started_at_unix_ms a) (req_started_at_unix_ms b))
               (cmp (req_request_id a) (req_request_id b))"

definition sort_requests_for_temporal_segments :: "RequestEvent list \<Rightarrow> RequestEvent list" where
  "sort_requests_for_temporal_segments requests =
     (if all_requests_have_run_relative_start requests
      then sort_by run_start_order requests
      else sort_by unix_start_order requests)"

definition segment_run_relative_window :: "RequestEvent list \<Rightarrow> (u64 \<times> u64) option" where
  "segment_run_relative_window requests =
     (if \<not> list_all (\<lambda>r. req_started_at_run_us r \<noteq> None \<and> req_finished_at_run_us r \<noteq> None) requests
      then None
      else opt_zip (iter_min (List.map_filter req_started_at_run_us requests))
                   (iter_max (List.map_filter req_finished_at_run_us requests)))"

definition segment_unix_window :: "RequestEvent list \<Rightarrow> (u64 \<times> u64) option" where
  "segment_unix_window requests =
     opt_zip (iter_min (map req_started_at_unix_ms requests))
             (iter_max (map req_finished_at_unix_ms requests))"

section \<open>Segments\<close>

definition build_segment :: "Run \<Rightarrow> Run \<Rightarrow> AnalyzeOptions \<Rightarrow> string \<Rightarrow> RequestEvent list
    \<Rightarrow> TemporalSegment" where
  "build_segment canonical original_runtime_source options name seg =
     (let ids = map req_request_id seg
      in case segment_unix_window seg of
           None \<Rightarrow>
             into_temporal_segment name None None
               (sa_report (analyze_slice canonical original_runtime_source ids Exclude options))
         | Some (unix_start, unix_finish) \<Rightarrow>
             (let run_relative_window = segment_run_relative_window seg;
                  window = \<lparr>sw_unix_start = unix_start, sw_unix_finish = unix_finish,
                            sw_run_relative = run_relative_window\<rparr>;
                  slice = analyze_slice canonical original_runtime_source ids (Window window) options;
                  analyzed = sa_report slice;
                  fallback = (if run_relative_window = None \<or> sa_used_unix_fallback slice
                              then [TEMPORAL_WALL_CLOCK_FALLBACK_WARNING] else []);
                  sparse_runtime = (eq_runtime_snapshots (srp_evidence_quality analyzed) \<noteq> ScPresent);
                  sparse_inflight = (eq_inflight_snapshots (srp_evidence_quality analyzed) \<noteq> ScPresent);
                  attribution = (if sp_kind (srp_primary_suspect analyzed)
                                      \<in> {ExecutorPressure, BlockingPoolPressure}
                                    \<and> (sparse_runtime \<or> sparse_inflight)
                                 then [TEMPORAL_RUNTIME_ATTRIBUTION_WARNING] else [])
              in into_temporal_segment name (Some unix_start) (Some unix_finish)
                   (analyzed\<lparr>srp_warnings := srp_warnings analyzed @ fallback @ attribution\<rparr>)))"

definition has_material_share_shift :: "u64 option \<Rightarrow> u64 option \<Rightarrow> AnalyzeOptions \<Rightarrow> bool" where
  "has_material_share_shift left right options =
     (case (left, right) of
        (Some a, Some b) \<Rightarrow> abs_diff a b \<ge> tmo_share_shift_permille (ao_temporal options)
      | _ \<Rightarrow> False)"

definition has_material_p95_shift :: "u64 option \<Rightarrow> u64 option \<Rightarrow> AnalyzeOptions \<Rightarrow> bool" where
  "has_material_p95_shift left right options =
     (case (left, right) of
        (Some a, Some b) \<Rightarrow>
          meets_ratio (max a b) (min a b)
            (tmo_p95_shift_ratio_numerator (ao_temporal options))
            (tmo_p95_shift_ratio_denominator (ao_temporal options))
      | _ \<Rightarrow> False)"

definition has_runtime_sparse_temporal_evidence :: "TemporalSegment \<Rightarrow> TemporalSegment \<Rightarrow> bool" where
  "has_runtime_sparse_temporal_evidence early late \<longleftrightarrow>
     eq_runtime_snapshots (ts_evidence_quality early) \<noteq> ScPresent
     \<or> eq_inflight_snapshots (ts_evidence_quality early) \<noteq> ScPresent
     \<or> eq_runtime_snapshots (ts_evidence_quality late) \<noteq> ScPresent
     \<or> eq_inflight_snapshots (ts_evidence_quality late) \<noteq> ScPresent"

record TemporalMovement =
  mv_p95_shift :: bool
  mv_queue_move :: bool
  mv_service_move :: bool

definition is_runtime_dependent_suspect_shift :: "TemporalSegment \<Rightarrow> TemporalSegment \<Rightarrow> bool" where
  "is_runtime_dependent_suspect_shift early late \<longleftrightarrow>
     sp_kind (ts_primary_suspect early) \<in> {ExecutorPressure, BlockingPoolPressure}
     \<or> sp_kind (ts_primary_suspect late) \<in> {ExecutorPressure, BlockingPoolPressure}"

definition has_material_suspect_shift ::
    "TemporalSegment \<Rightarrow> TemporalSegment \<Rightarrow> TemporalMovement \<Rightarrow> AnalyzeOptions \<Rightarrow> bool" where
  "has_material_suspect_shift early late movement options \<longleftrightarrow>
     sp_kind (ts_primary_suspect early) \<noteq> sp_kind (ts_primary_suspect late)
     \<and> (\<not> tmo_suppress_runtime_sparse_suspect_shift_without_supporting_movement (ao_temporal options)
        \<or> \<not> has_runtime_sparse_temporal_evidence early late
        \<or> \<not> is_runtime_dependent_suspect_shift early late
        \<or> mv_p95_shift movement \<or> mv_queue_move movement \<or> mv_service_move movement)"

definition has_material_temporal_signal :: "bool \<Rightarrow> TemporalMovement \<Rightarrow> AnalyzeOptions \<Rightarrow> bool" where
  "has_material_temporal_signal suspect_shift movement options \<longleftrightarrow>
     (tmo_emit_on_suspect_shift (ao_temporal options) \<and> suspect_shift)
     \<or> mv_p95_shift movement \<or> mv_queue_move movement \<or> mv_service_move movement"

definition push_segment_warning :: "string \<Rightarrow> TemporalSegment \<Rightarrow> TemporalSegment" where
  "push_segment_warning w seg = seg\<lparr>ts_warnings := ts_warnings seg @ [w]\<rparr>"

definition apply_temporal_overlap_attribution_warning ::
    "TemporalSegment \<Rightarrow> TemporalSegment \<Rightarrow> TemporalSegment \<times> TemporalSegment" where
  "apply_temporal_overlap_attribution_warning early_seg late_seg =
     (let windows_overlap =
            (case (ts_started_at_unix_ms early_seg, ts_finished_at_unix_ms early_seg,
                   ts_started_at_unix_ms late_seg, ts_finished_at_unix_ms late_seg) of
               (Some _, Some early_finish, Some late_start, Some _) \<Rightarrow> early_finish \<ge> late_start
             | _ \<Rightarrow> False);
          has_samples =
            (eq_runtime_snapshot_count (ts_evidence_quality early_seg) > 0
             \<or> eq_inflight_snapshot_count (ts_evidence_quality early_seg) > 0
             \<or> eq_runtime_snapshot_count (ts_evidence_quality late_seg) > 0
             \<or> eq_inflight_snapshot_count (ts_evidence_quality late_seg) > 0)
      in if windows_overlap \<and> has_samples
         then (push_segment_warning TEMPORAL_OVERLAP_ATTRIBUTION_WARNING early_seg,
               push_segment_warning TEMPORAL_OVERLAP_ATTRIBUTION_WARNING late_seg)
         else (early_seg, late_seg))"

definition temporal_segments :: "Run \<Rightarrow> Run \<Rightarrow> string list \<Rightarrow> AnalyzeOptions
    \<Rightarrow> TemporalSegment list \<times> string list" where
  "temporal_segments canonical original_runtime_source global_warnings options =
     (if length (run_requests canonical) < tmo_min_request_count (ao_temporal options)
      then ([], global_warnings)
      else
        (let requests = sort_requests_for_temporal_segments (run_requests canonical);
             split = length requests div 2;
             early = take split requests;
             late = drop split requests
         in if length early < tmo_min_segment_request_count (ao_temporal options)
               \<or> length late < tmo_min_segment_request_count (ao_temporal options)
            then ([], global_warnings)
            else
              (let build = build_segment canonical original_runtime_source options;
                   early_seg = build ''early'' early;
                   late_seg = build ''late'' late;
                   movement =
                     \<lparr>mv_p95_shift = has_material_p95_shift (ts_p95_latency_us early_seg)
                                       (ts_p95_latency_us late_seg) options,
                      mv_queue_move = has_material_share_shift (ts_p95_queue_share_permille early_seg)
                                        (ts_p95_queue_share_permille late_seg) options,
                      mv_service_move = has_material_share_shift (ts_p95_service_share_permille early_seg)
                                          (ts_p95_service_share_permille late_seg) options\<rparr>;
                   suspect_shift = has_material_suspect_shift early_seg late_seg movement options
               in if \<not> has_material_temporal_signal suspect_shift movement options
                  then ([], global_warnings)
                  else
                    (let warnings = global_warnings
                           @ (if tmo_emit_on_suspect_shift (ao_temporal options) \<and> suspect_shift
                              then [TEMPORAL_SUSPECT_SHIFT_WARNING] else [])
                           @ (if mv_p95_shift movement then [TEMPORAL_P95_SHIFT_WARNING] else []);
                         (early_seg, late_seg) =
                           apply_temporal_overlap_attribution_warning early_seg late_seg
                     in ([early_seg, late_seg], warnings)))))"

section \<open>Facts\<close>

interpretation run_start_cmp: total_cmp run_start_order
  unfolding run_start_order_def [abs_def] by (intro total_cmp_intros)

interpretation unix_start_cmp: total_cmp unix_start_order
  unfolding unix_start_order_def [abs_def] by (intro total_cmp_intros)

lemma mset_sorted_requests [simp]:
  "mset (sort_requests_for_temporal_segments rs) = mset rs"
  "length (sort_requests_for_temporal_segments rs) = length rs"
  "set (sort_requests_for_temporal_segments rs) = set rs"
  by (simp_all add: sort_requests_for_temporal_segments_def)

lemma halves_of_distinct:
  assumes "mset xs = mset ys" "distinct ys"
  shows "distinct (take k xs)" "set (take k xs) \<subseteq> set ys" "distinct (drop k xs)" "set (drop k xs) \<subseteq> set ys"
proof -
  have "distinct xs" "set xs = set ys"
    using assms mset_eq_imp_distinct_iff by (blast, metis set_mset_mset)
  then show "distinct (take k xs)" "set (take k xs) \<subseteq> set ys" "distinct (drop k xs)" "set (drop k xs) \<subseteq> set ys"
    using set_take_subset [of k xs] set_drop_subset [of k xs] by simp_all
qed

lemma overlap_frame:
  assumes "apply_temporal_overlap_attribution_warning e l = (e', l')"
  shows "\<exists>w. e' = e\<lparr>ts_warnings := ts_warnings e @ w\<rparr> \<and> l' = l\<lparr>ts_warnings := ts_warnings l @ w\<rparr>"
proof -
  have "e' = e \<and> l' = l \<or> (\<exists>w. e' = push_segment_warning w e \<and> l' = push_segment_warning w l)"
    using assms by (auto simp: apply_temporal_overlap_attribution_warning_def Let_def split: if_splits)
  then show ?thesis by (auto simp: push_segment_warning_def intro: exI [of _ "[]"])
qed

text \<open>What was emitted, when anything was.\<close>

lemma temporal_segments_cases:
  obtains (Silent) "temporal_segments c orig ws opts = ([], ws)"
  | (Emitted) w ws' where "temporal_segments c orig ws opts =
      (let rs = sort_requests_for_temporal_segments (run_requests c);
           k = length (run_requests c) div 2;
           annotate = (\<lambda>seg. seg\<lparr>ts_warnings := ts_warnings seg @ w\<rparr>)
       in ([annotate (build_segment c orig opts ''early'' (take k rs)),
            annotate (build_segment c orig opts ''late'' (drop k rs))], ws @ ws'))"
    and "tmo_min_request_count (ao_temporal opts) \<le> length (run_requests c)"
    and "tmo_min_segment_request_count (ao_temporal opts) \<le> length (run_requests c) div 2"
proof -
  let ?n = "length (run_requests c)"
  let ?rs = "sort_requests_for_temporal_segments (run_requests c)"
  let ?e = "build_segment c orig opts ''early'' (take (?n div 2) ?rs)"
  let ?l = "build_segment c orig opts ''late'' (drop (?n div 2) ?rs)"
  obtain e l where ov: "apply_temporal_overlap_attribution_warning ?e ?l = (e, l)" by fastforce
  obtain w where w: "e = ?e\<lparr>ts_warnings := ts_warnings ?e @ w\<rparr> \<and> l = ?l\<lparr>ts_warnings := ts_warnings ?l @ w\<rparr>"
    using overlap_frame [OF ov] ..
  show thesis
  proof (cases "temporal_segments c orig ws opts = ([], ws)")
    case False
    then have big: "tmo_min_request_count (ao_temporal opts) \<le> ?n"
      "tmo_min_segment_request_count (ao_temporal opts) \<le> ?n div 2"
      by (auto simp: temporal_segments_def Let_def split: if_splits)
    have "\<exists>ws'. temporal_segments c orig ws opts = ([e, l], ws @ ws')"
      using False big ov by (simp add: temporal_segments_def Let_def split: if_splits)
    then obtain ws' where "temporal_segments c orig ws opts = ([e, l], ws @ ws')" ..
    then show thesis using Emitted [of w ws'] big w by (simp add: Let_def)
  qed (rule Silent)
qed

text \<open>
  The order of requests in time, said without comparators: by the run-relative start when every
  request has one, then by the wall-clock start, then by the identifier.
\<close>

definition starts_before :: "RequestEvent list \<Rightarrow> RequestEvent \<Rightarrow> RequestEvent \<Rightarrow> bool" where
  "starts_before all a b \<longleftrightarrow>
     (let key = (\<lambda>r. (if list_all (\<lambda>q. req_started_at_run_us q \<noteq> None) all
                        then unat (the (req_started_at_run_us r)) else 0,
                     unat (req_started_at_unix_ms r), req_request_id r))
      in key a < key b)"

text \<open>What a segment says of the requests it stands for.\<close>

definition segment_describes :: "TemporalSegment \<Rightarrow> RequestEvent list \<Rightarrow> bool" where
  "segment_describes seg rs \<longleftrightarrow>
     ts_request_count seg = length rs
     \<and> ts_started_at_unix_ms seg = (if rs = [] then None else Some (Min (req_started_at_unix_ms ` set rs)))
     \<and> ts_finished_at_unix_ms seg = (if rs = [] then None else Some (Max (req_finished_at_unix_ms ` set rs)))
     \<and> ts_p95_latency_us seg = percentile (map req_latency_us rs) 95 100"

lemma start_orders:
  assumes "req_request_id a \<noteq> req_request_id b"
  shows "run_start_order a b \<noteq> OGreater \<Longrightarrow>
      the (req_started_at_run_us a) < the (req_started_at_run_us b)
      \<or> the (req_started_at_run_us a) = the (req_started_at_run_us b) \<and>
        (req_started_at_unix_ms a < req_started_at_unix_ms b
         \<or> req_started_at_unix_ms a = req_started_at_unix_ms b \<and> req_request_id a < req_request_id b)"
    and "unix_start_order a b \<noteq> OGreater \<Longrightarrow>
      req_started_at_unix_ms a < req_started_at_unix_ms b
      \<or> req_started_at_unix_ms a = req_started_at_unix_ms b \<and> req_request_id a < req_request_id b"
  using assms unfolding run_start_order_def unix_start_order_def cmp_def
  by (auto split: if_splits)

lemma starts_before_order:
  assumes ne: "req_request_id a \<noteq> req_request_id b"
  shows "all_requests_have_run_relative_start rs \<Longrightarrow> run_start_order a b \<noteq> OGreater \<Longrightarrow> starts_before rs a b"
    and "\<not> all_requests_have_run_relative_start rs \<Longrightarrow> unix_start_order a b \<noteq> OGreater \<Longrightarrow> starts_before rs a b"
proof -
  show "starts_before rs a b" if r: "all_requests_have_run_relative_start rs" and o: "run_start_order a b \<noteq> OGreater"
  proof -
    have r': "list_all (\<lambda>q. req_started_at_run_us q \<noteq> None) rs"
      using r unfolding all_requests_have_run_relative_start_def .
    show ?thesis
      using start_orders(1) [OF ne o] unfolding starts_before_def Let_def if_P [OF r'] less_prod_simp
      by (auto simp: word_less_nat_alt)
  qed
  show "starts_before rs a b" if r: "\<not> all_requests_have_run_relative_start rs" and o: "unix_start_order a b \<noteq> OGreater"
  proof -
    have r': "\<not> list_all (\<lambda>q. req_started_at_run_us q \<noteq> None) rs"
      using r unfolding all_requests_have_run_relative_start_def .
    show ?thesis
      using start_orders(2) [OF ne o] unfolding starts_before_def Let_def if_not_P [OF r'] less_prod_simp
      by (auto simp: word_less_nat_alt)
  qed
qed

lemma sorted_starts_before:
  assumes "distinct (map req_request_id rs)"
  shows "sorted_wrt (starts_before rs) (sort_requests_for_temporal_segments rs)"
proof -
  let ?s = "sort_requests_for_temporal_segments rs"
  have "mset (map req_request_id ?s) = mset (map req_request_id rs)" by simp
  then have "distinct (map req_request_id ?s)" using assms mset_eq_imp_distinct_iff by blast
  then have d: "\<And>i j. i < j \<Longrightarrow> j < length ?s \<Longrightarrow> req_request_id (?s ! i) \<noteq> req_request_id (?s ! j)"
    by (simp add: distinct_conv_nth)
  show ?thesis
  proof (cases "all_requests_have_run_relative_start rs")
    case True
    then have "sorted_wrt (\<lambda>a b. run_start_order a b \<noteq> OGreater) ?s"
      by (simp add: sort_requests_for_temporal_segments_def run_start_cmp.sort_by_sorted)
    then show ?thesis using starts_before_order(1) [OF d True]
      unfolding sorted_wrt_iff_nth_less by blast
  next
    case False
    then have "sorted_wrt (\<lambda>a b. unix_start_order a b \<noteq> OGreater) ?s"
      by (simp add: sort_requests_for_temporal_segments_def unix_start_cmp.sort_by_sorted)
    then show ?thesis using starts_before_order(2) [OF d False]
      unfolding sorted_wrt_iff_nth_less by blast
  qed
qed

lemma iter_min_Min: "xs \<noteq> [] \<Longrightarrow> iter_min xs = Some (Min (set xs))"
  using iter_None(1) [of xs] iter_min_Some [of xs] by (cases "iter_min xs") (auto intro!: Min_eqI [symmetric])

lemma iter_max_Max: "xs \<noteq> [] \<Longrightarrow> iter_max xs = Some (Max (set xs))"
  using iter_None(2) [of xs] iter_max_Some [of xs] by (cases "iter_max xs") (auto intro!: Max_eqI [symmetric])

text \<open>A slice of a normalized run analyses exactly the requests it is asked for.\<close>

lemma slice_selects:
  assumes c: "canonical_run c = c" and seg: "distinct seg" "set seg \<subseteq> set (run_requests c)"
  shows "mset (filter (\<lambda>r. req_request_id r \<in> set (map req_request_id seg)) (run_requests c)) = mset seg"
proof -
  have d: "distinct (map req_request_id (run_requests c))" by (rule canonical_ids_distinct [OF c])
  have "filter (\<lambda>r. req_request_id r \<in> set (map req_request_id seg)) (run_requests c)
      = filter (\<lambda>r. r \<in> set seg) (run_requests c)"
    using d seg(2) by (intro filter_cong) (auto simp: distinct_map dest: inj_onD)
  moreover have "distinct (run_requests c)" using d by (simp add: distinct_map)
  moreover have "set (filter (\<lambda>r. r \<in> set seg) (run_requests c)) = set seg" using seg(2) by auto
  ultimately show ?thesis using seg(1) by (metis distinct_filter set_eq_iff_mset_eq_distinct)
qed

lemma build_segment_describes:
  assumes c: "canonical_run c = c" and seg: "distinct seg" "set seg \<subseteq> set (run_requests c)"
  shows "ts_name (build_segment c orig opts name seg) = name"
    and "segment_describes (build_segment c orig opts name seg) seg"
proof -
  let ?ids = "map req_request_id seg"
  let ?sel = "filter (\<lambda>r. req_request_id r \<in> set ?ids) (run_requests c)"
  note m = slice_selects [OF c seg]
  have count: "length ?sel = length seg" using m by (rule mset_eq_length)
  have "percentile (map req_latency_us ?sel) 95 100 = percentile (map req_latency_us seg) 95 100"
    by (rule percentile_mset) (unfold mset_map m, rule refl)
  then have slice: "srp_request_count (sa_report (analyze_slice c orig ?ids policy opts)) = length seg"
    "srp_p95_latency_us (sa_report (analyze_slice c orig ?ids policy opts)) = percentile (map req_latency_us seg) 95 100" for policy
    unfolding slice_request_count [OF c] slice_p95_latency [OF c] using count by simp_all
  show "ts_name (build_segment c orig opts name seg) = name"
    by (simp add: build_segment_def into_temporal_segment_def Let_def split: option.split prod.split)
  show "segment_describes (build_segment c orig opts name seg) seg"
  proof (cases "seg = []")
    case True
    then have "segment_unix_window seg = None" by (simp add: segment_unix_window_def iter_min_def)
    then show ?thesis
      using slice True by (simp add: segment_describes_def build_segment_def into_temporal_segment_def Let_def)
  next
    case False
    then have "segment_unix_window seg = Some (Min (req_started_at_unix_ms ` set seg), Max (req_finished_at_unix_ms ` set seg))"
      by (simp add: segment_unix_window_def iter_min_Min iter_max_Max)
    then show ?thesis
      using slice False by (simp add: segment_describes_def build_segment_def into_temporal_segment_def Let_def del: set_map)
  qed
qed

section \<open>Properties\<close>

text \<open>
  C38. The temporal segments of a normalized run: either none, and the report's warnings are
  untouched, or exactly an early and a late one, each at least as large as configured. There are
  two halves of the requests such that every request of the first starts before every request of
  the second, by the run's own clock when all requests have it and by the wall clock otherwise;
  the early segment describes the first half and the late one the second: its number of requests,
  the window from its earliest start to its latest finish, and its p95 latency.
\<close>

theorem temporal_segments_partition:
  "let requests = run_requests (nr_run (normalize_run_permissive run)); n = length requests
   in case temporal_segments (nr_run (normalize_run_permissive run)) orig warnings opts of
        ([], ws) \<Rightarrow> ws = warnings
      | ([early, late], ws) \<Rightarrow>
          take (length warnings) ws = warnings
          \<and> ts_name early = ''early'' \<and> ts_name late = ''late''
          \<and> tmo_min_segment_request_count (ao_temporal opts) \<le> ts_request_count early
          \<and> tmo_min_request_count (ao_temporal opts) \<le> n
          \<and> (\<exists>es ls. mset (es @ ls) = mset requests \<and> length es = n div 2
               \<and> list_all (\<lambda>a. list_all (starts_before requests a) ls) es
               \<and> segment_describes early es \<and> segment_describes late ls)
      | _ \<Rightarrow> False"
proof -
  let ?c = "canonical_run run"
  let ?k = "length (run_requests ?c) div 2"
  let ?rs = "sort_requests_for_temporal_segments (run_requests ?c)"
  have c: "canonical_run ?c = ?c" by (rule canonical_run_idem)
  have ids: "distinct (map req_request_id (run_requests ?c))" by (rule canonical_ids_distinct [OF c])
  then have d: "distinct (run_requests ?c)" by (simp add: distinct_map)
  note halves = halves_of_distinct [OF mset_sorted_requests(1) d, of ?k]
  note early = build_segment_describes [OF c halves(1,2), of orig opts "''early''"]
  note late = build_segment_describes [OF c halves(3,4), of orig opts "''late''"]
  have "sorted_wrt (starts_before (run_requests ?c)) (take ?k ?rs @ drop ?k ?rs)"
    using sorted_starts_before [OF ids] by simp
  then have before: "list_all (\<lambda>a. list_all (starts_before (run_requests ?c) a) (drop ?k ?rs)) (take ?k ?rs)"
    unfolding sorted_wrt_append by (simp add: list_all_iff)
  have parts: "mset (take ?k ?rs @ drop ?k ?rs) = mset (run_requests ?c)" "length (take ?k ?rs) = ?k"
    by (simp_all add: min_absorb2 div_le_dividend)
  have annotated: "segment_describes (s\<lparr>ts_warnings := w\<rparr>) rs = segment_describes s rs" for s w rs
    by (simp add: segment_describes_def)
  show ?thesis
  proof (cases rule: temporal_segments_cases [of ?c orig warnings opts])
    case Silent
    then show ?thesis by (simp add: Let_def normalized_is_canonical)
  next
    case (Emitted w ws')
    have count: "ts_request_count (build_segment ?c orig opts ''early'' (take ?k ?rs)) = ?k"
      using early(2) parts(2) by (simp add: segment_describes_def)
    have "\<exists>es ls. mset (es @ ls) = mset (run_requests ?c) \<and> length es = ?k
        \<and> list_all (\<lambda>a. list_all (starts_before (run_requests ?c) a) ls) es
        \<and> segment_describes (build_segment ?c orig opts ''early'' (take ?k ?rs)) es
        \<and> segment_describes (build_segment ?c orig opts ''late'' (drop ?k ?rs)) ls"
      using parts before early(2) late(2) by blast
    then show ?thesis
      using Emitted count early(1) late(1) by (simp add: Let_def normalized_is_canonical annotated)
  qed
qed

end
