(* ===== verification/An_Analyze.thy ===== *)
theory An_Analyze
  imports An_Temporal
begin

text \<open>
  The public operation: \<open>analyze_run\<close> refuses invalid options and otherwise normalizes the run,
  analyses it, and adds the validation summary, the route breakdowns, the temporal segments and
  the configuration summary. The properties compose those of the parts.
\<close>

definition ROUTE_DIVERGENCE_WARNING :: string where
  "ROUTE_DIVERGENCE_WARNING =
     ''Different routes show different primary suspects; inspect route_breakdowns before acting on the global suspect.''"

definition analyze_run_with_options :: "Run \<Rightarrow> AnalyzeOptions \<Rightarrow> Report" where
  "analyze_run_with_options run options =
     (let worker_status = classify_worker_evidence run;
          normalized = normalize_run_permissive run;
          analysis_run = nr_run normalized;
          profile = profile_from_run analysis_run;
          report = analyze_run_internal analysis_run worker_status options;
          report = (if profile_has_partial profile
                    then report\<lparr>rp_warnings := push_unique (rp_warnings report) PARTIAL_WARNING\<rparr>
                    else report);
          validation_warnings = summarize_run_validation normalized;
          report = report\<lparr>rp_warnings := validation_warnings @ rp_warnings report\<rparr>;
          quality = rp_evidence_quality report;
          report = report\<lparr>rp_evidence_quality := quality\<lparr>eq_limitations := eq_limitations quality
            @ map (\<lambda>w. ''Validation limitation: '' @ w) validation_warnings\<rparr>\<rparr>;
          route_context = route_breakdowns analysis_run report options;
          report = (if rbc_warn_on_divergence route_context
                    then report\<lparr>rp_warnings := rp_warnings report @ [ROUTE_DIVERGENCE_WARNING]\<rparr>
                    else report);
          report = report\<lparr>rp_route_breakdowns := rbc_breakdowns route_context\<rparr>;
          (segments, warnings) = temporal_segments analysis_run run (rp_warnings report) options;
          report = report\<lparr>rp_temporal_segments := segments, rp_warnings := stable_dedup warnings\<rparr>;
          overrides = non_default_overrides options
      in report\<lparr>rp_analyzer_config := (if overrides = [] then None
           else Some \<lparr>acs_schema_version = 1, acs_non_default_options = overrides\<rparr>)\<rparr>)"

definition analyze_run :: "Run \<Rightarrow> AnalyzeOptions \<Rightarrow> AnalyzeConfigError + Report" where
  "analyze_run run options =
     (case options_validate options of
        Inl e \<Rightarrow> Inl e
      | Inr _ \<Rightarrow> Inr (analyze_run_with_options run options))"

section \<open>Facts\<close>

lemma push_unique_distinct: "distinct xs \<Longrightarrow> distinct (push_unique xs x)"
  by (simp add: push_unique_def)

lemma stable_dedup_distinct: "distinct (stable_dedup xs)"
proof -
  have "distinct acc \<Longrightarrow> distinct (foldl push_unique acc xs)" for acc :: "'a list"
    by (induction xs arbitrary: acc) (simp_all add: push_unique_distinct)
  then show ?thesis by (simp add: stable_dedup_def)
qed

lemma stable_dedup_set: "set (stable_dedup xs) = set xs"
proof -
  have "set (foldl push_unique acc xs) = set acc \<union> set xs" for acc :: "'a list"
    by (induction xs arbitrary: acc) (auto simp: push_unique_def)
  then show ?thesis by (simp add: stable_dedup_def)
qed

text \<open>The finished report in terms of the analysis of the normalized run.\<close>

definition base_report :: "Run \<Rightarrow> AnalyzeOptions \<Rightarrow> Report" where
  "base_report run options =
     analyze_run_internal (nr_run (normalize_run_permissive run)) (classify_worker_evidence run) options"

definition reported_warnings :: "Run \<Rightarrow> AnalyzeOptions \<Rightarrow> string list" where
  "reported_warnings run options =
     summarize_run_validation (normalize_run_permissive run)
     @ (if profile_has_partial (profile_from_run (nr_run (normalize_run_permissive run)))
        then push_unique (rp_warnings (base_report run options)) PARTIAL_WARNING
        else rp_warnings (base_report run options))"

definition validated_report :: "Run \<Rightarrow> AnalyzeOptions \<Rightarrow> Report" where
  "validated_report run options =
     (let base = base_report run options; quality = rp_evidence_quality base
      in base\<lparr>rp_warnings := reported_warnings run options,
              rp_evidence_quality := quality\<lparr>eq_limitations := eq_limitations quality
                @ map (\<lambda>w. ''Validation limitation: '' @ w)
                    (summarize_run_validation (normalize_run_permissive run))\<rparr>\<rparr>)"

definition report_route_context :: "Run \<Rightarrow> AnalyzeOptions \<Rightarrow> RouteBreakdownContext" where
  "report_route_context run options =
     route_breakdowns (nr_run (normalize_run_permissive run)) (validated_report run options) options"

definition report_segments :: "Run \<Rightarrow> AnalyzeOptions \<Rightarrow> TemporalSegment list \<times> string list" where
  "report_segments run options =
     temporal_segments (nr_run (normalize_run_permissive run)) run
       (reported_warnings run options
        @ (if rbc_warn_on_divergence (report_route_context run options)
           then [ROUTE_DIVERGENCE_WARNING] else [])) options"

lemma analyze_with_options_eq:
  "analyze_run_with_options run opts =
     (validated_report run opts)
       \<lparr>rp_warnings := stable_dedup (snd (report_segments run opts)),
        rp_route_breakdowns := rbc_breakdowns (report_route_context run opts),
        rp_temporal_segments := fst (report_segments run opts),
        rp_analyzer_config := (if non_default_overrides opts = [] then None
          else Some \<lparr>acs_schema_version = 1, acs_non_default_options = non_default_overrides opts\<rparr>)\<rparr>"
  by (simp add: analyze_run_with_options_def report_segments_def report_route_context_def
      validated_report_def reported_warnings_def base_report_def Let_def case_prod_beta)

lemma validated_report_simps [simp]:
  "rp_request_count (validated_report run opts) = rp_request_count (base_report run opts)"
  "rp_primary_suspect (validated_report run opts) = rp_primary_suspect (base_report run opts)"
  "rp_secondary_suspects (validated_report run opts) = rp_secondary_suspects (base_report run opts)"
  "eq_quality (rp_evidence_quality (validated_report run opts)) =
     eq_quality (rp_evidence_quality (base_report run opts))"
  by (simp_all add: validated_report_def Let_def)

lemma analyze_with_options_simps [simp]:
  "rp_request_count (analyze_run_with_options run opts) = rp_request_count (base_report run opts)"
  "report_suspects (analyze_run_with_options run opts) = report_suspects (base_report run opts)"
  "eq_quality (rp_evidence_quality (analyze_run_with_options run opts)) =
     eq_quality (rp_evidence_quality (base_report run opts))"
  by (simp_all add: analyze_with_options_eq)

lemma segments_keep_warnings:
  "\<exists>ws'. snd (temporal_segments c orig ws opts) = ws @ ws'"
  by (cases rule: temporal_segments_cases [of c orig ws opts]) (simp_all add: Let_def)

lemma report_warnings_set:
  "set (reported_warnings run opts) \<subseteq> set (rp_warnings (analyze_run_with_options run opts))"
proof -
  have "\<exists>ws'. snd (report_segments run opts) = reported_warnings run opts @ ws'"
    using segments_keep_warnings unfolding report_segments_def by (metis append.assoc)
  then show ?thesis by (auto simp: analyze_with_options_eq stable_dedup_set)
qed

lemma non_default_overrides_Nil: "non_default_overrides opts = [] \<longleftrightarrow> opts = analyze_options_default"
proof
  assume "non_default_overrides opts = []"
  then have "e \<in> set OPTION_ENTRIES \<Longrightarrow> oe_get e opts = oe_get e analyze_options_default" for e
    by (simp add: non_default_overrides_def filter_empty_conv)
  then show "opts = analyze_options_default" by (rule entries_determine)
qed (simp add: non_default_overrides_def)

text \<open>Without zero worker counts the worker evidence survives normalization.\<close>

lemma classify_canonical:
  assumes "list_all (\<lambda>s. rts_worker_count s \<noteq> Some 0) (run_runtime_snapshots run)"
  shows "classify_worker_evidence (canonical_run run) = classify_worker_evidence run"
proof -
  have "map clear_worker_count (run_runtime_snapshots run) = run_runtime_snapshots run"
    using assms by (intro map_idI) (simp add: list_all_iff clear_worker_count_def)
  then show ?thesis by (simp add: classify_worker_evidence_def canonical_run_def)
qed

lemma truncation_canonical [simp]: "run_truncation (canonical_run run) = run_truncation run"
  by (simp add: canonical_run_def)

lemma analyze_run_cases:
  "analyze_run run opts =
     (if valid_options opts then Inr (analyze_run_with_options run opts)
      else Inl (projl (options_validate opts)))"
  using options_validate_ok_iff [of opts]
  by (cases "options_validate opts") (simp_all add: analyze_run_def)

section \<open>Properties\<close>

text \<open>
  C34. The analysis is refused exactly for invalid options, with the error of the first violated
  rule, and otherwise always gives a report: it counts the requests that survive normalization,
  repeats no warning, carries every line of the validation summary, and describes its
  configuration exactly when an option differs from the default.
\<close>

theorem analyze_run_accepts_valid_options:
  "case analyze_run run opts of
     Inl e \<Rightarrow> \<not> valid_options opts \<and> options_validate opts = Inl e
   | Inr report \<Rightarrow> valid_options opts
       \<and> rp_request_count report = length (run_requests (nr_run (normalize_run_permissive run)))
       \<and> distinct (rp_warnings report)
       \<and> set (summarize_run_validation (normalize_run_permissive run)) \<subseteq> set (rp_warnings report)
       \<and> (rp_analyzer_config report = None \<longleftrightarrow> opts = analyze_options_default)"
proof (cases "valid_options opts")
  case True
  have "set (summarize_run_validation (normalize_run_permissive run))
      \<subseteq> set (rp_warnings (analyze_run_with_options run opts))"
    using report_warnings_set [of run opts] by (simp add: reported_warnings_def split: if_splits)
  moreover have "distinct (rp_warnings (analyze_run_with_options run opts))"
    "rp_analyzer_config (analyze_run_with_options run opts) = None \<longleftrightarrow> opts = analyze_options_default"
    by (simp_all add: analyze_with_options_eq stable_dedup_distinct non_default_overrides_Nil)
  ultimately show ?thesis using True by (simp add: analyze_run_cases base_report_def)
next
  case False
  then obtain e where "options_validate opts = Inl e"
    using options_validate_ok_iff [of opts] by (cases "options_validate opts") auto
  then show ?thesis using False by (simp add: analyze_run_def)
qed

text \<open>
  C36. A report never claims more than its evidence: a suspect with high confidence (other than
  insufficient evidence) reaches the high threshold, the evidence quality of the report is not
  weak, at least the configured number of requests completed and the run dropped no request.
\<close>

theorem reported_high_confidence_is_supported:
  "case analyze_run run opts of
     Inl _ \<Rightarrow> True
   | Inr report \<Rightarrow>
       list_all (\<lambda>s.
         if sp_confidence s = CoHigh \<and> sp_kind s \<noteq> InsufficientEvidence
         then cfo_high_score_threshold (ao_confidence opts) \<le> sp_score s
            \<and> eq_quality (rp_evidence_quality report) \<noteq> EqWeak
            \<and> 0 < rp_request_count report
            \<and> evo_low_completed_request_threshold (ao_evidence opts) \<le> rp_request_count report
            \<and> tr_dropped_requests (run_truncation run) = 0
         else True)
       (report_suspects report)"
proof (cases "valid_options opts")
  case True
  let ?c = "canonical_run run" and ?ws = "classify_worker_evidence run"
  let ?q = "evidence_quality ?c opts"
  have base: "base_report run opts = analyze_run_internal ?c ?ws opts"
    by (simp add: base_report_def normalized_is_canonical)
  have quality: "rp_evidence_quality (analyze_run_internal ?c ?ws opts) = ?q"
    by (simp add: analyze_run_internal_def Let_def split: prod.splits)
  have one: "cfo_high_score_threshold (ao_confidence opts) \<le> sp_score s
      \<and> (\<exists>k. clean_for_high ?c ?q opts k)"
    if "s \<in> set (report_suspects (base_report run opts))" "sp_confidence s = CoHigh"
      "sp_kind s \<noteq> InsufficientEvidence" for s
    using finalize_high_clean [of opts ?c ?q "report_candidates ?c ?ws opts"] that
    unfolding base report_suspects_eq list_all_iff list_ex_iff by (metis (no_types, lifting))
  have clean: "eq_quality (rp_evidence_quality (base_report run opts)) \<noteq> EqWeak
      \<and> 0 < rp_request_count (base_report run opts)
      \<and> evo_low_completed_request_threshold (ao_evidence opts) \<le> rp_request_count (base_report run opts)
      \<and> tr_dropped_requests (run_truncation run) = 0" if "clean_for_high ?c ?q opts k" for k
    using that by (simp add: clean_for_high_def low_requests_def base quality)
  show ?thesis
    unfolding analyze_run_cases if_P [OF True] sum.case analyze_with_options_simps list_all_iff
    using one clean by (metis (no_types, lifting))
qed (simp add: analyze_run_cases)

text \<open>
  Invalid events do not change the diagnosis: when no runtime snapshot claims zero workers,
  analysing a run and analysing its normalized form name the same suspects in the same order,
  with the same scores, confidence and texts.
\<close>

theorem diagnosis_depends_on_normalized_run:
  "if list_all (\<lambda>s. rts_worker_count s \<noteq> Some 0) (run_runtime_snapshots run)
   then map_sum id report_suspects (analyze_run (nr_run (normalize_run_permissive run)) opts)
      = map_sum id report_suspects (analyze_run run opts)
   else True"
  by (simp add: analyze_run_cases base_report_def normalized_is_canonical canonical_run_idem
      classify_canonical)

end
