(* ===== verification/An_Toml.thy ===== *)
theory An_Toml
  imports An_Registry
begin

text \<open>
  Analyzer configuration files (\<^verbatim>\<open>tailtriage-analyzer/src/options/toml.rs\<close>).
  Reading the text is left to the \<^verbatim>\<open>toml\<close> and \<^verbatim>\<open>serde\<close> crates; the
  decoder is a parameter that answers with the typed table. Merging is shown to overlay the table
  on the configuration field by field, and every configuration to have such a file.
\<close>

section \<open>The decoded table\<close>

record QueueingOptionsToml =
  qt_trigger_permille :: "u64 option"

record BlockingOptionsToml =
  bt_min_nonzero_samples_for_signal :: "nat option"
  bt_strong_p95_threshold :: "u64 option"
  bt_strong_peak_threshold :: "u64 option"
  bt_strong_nonzero_share_permille :: "u64 option"
  bt_strong_min_samples :: "nat option"

record ExecutorOptionsToml =
  ext_min_global_queue_p95_for_signal :: "u64 option"
  ext_min_runnable_queue_per_worker_p95_milli_for_signal :: "u64 option"

record DownstreamOptionsToml =
  dst_min_stage_samples :: "nat option"
  dst_blocking_correlated_stage_patterns :: "string list option"
  dst_blocking_correlation_score_margin :: "u8 option"

record ConfidenceOptionsToml =
  cft_medium_score_threshold :: "u8 option"
  cft_high_score_threshold :: "u8 option"
  cft_ambiguity_min_score :: "u8 option"
  cft_ambiguity_score_gap :: "u8 option"

record EvidenceOptionsToml =
  evt_low_completed_request_threshold :: "nat option"

record RouteOptionsToml =
  rtt_min_request_count :: "nat option"
  rtt_breakdown_limit :: "nat option"
  rtt_emit_on_divergent_suspects :: "bool option"
  rtt_slowest_to_fastest_p95_ratio_numerator :: "u64 option"
  rtt_slowest_to_fastest_p95_ratio_denominator :: "u64 option"
  rtt_slowest_to_global_p95_ratio_numerator :: "u64 option"
  rtt_slowest_to_global_p95_ratio_denominator :: "u64 option"

record TemporalOptionsToml =
  tmt_min_request_count :: "nat option"
  tmt_min_segment_request_count :: "nat option"
  tmt_share_shift_permille :: "u64 option"
  tmt_p95_shift_ratio_numerator :: "u64 option"
  tmt_p95_shift_ratio_denominator :: "u64 option"
  tmt_emit_on_suspect_shift :: "bool option"
  tmt_suppress_runtime_sparse_suspect_shift_without_supporting_movement :: "bool option"

record AnalyzerTomlConfig =
  atc_schema_version :: "u64 option"
  atc_queueing :: "QueueingOptionsToml option"
  atc_blocking :: "BlockingOptionsToml option"
  atc_executor :: "ExecutorOptionsToml option"
  atc_downstream :: "DownstreamOptionsToml option"
  atc_confidence :: "ConfidenceOptionsToml option"
  atc_evidence :: "EvidenceOptionsToml option"
  atc_route :: "RouteOptionsToml option"
  atc_temporal :: "TemporalOptionsToml option"

definition SUPPORTED_SCHEMA_VERSION :: u64 where
  "SUPPORTED_SCHEMA_VERSION = 1"

section \<open>Collecting and applying the updates\<close>

definition push_update :: "string \<Rightarrow> OptionValue option \<Rightarrow> (string \<times> OptionValue) list \<Rightarrow> (string \<times> OptionValue) list" where
  "push_update path v updates = (case v of Some v \<Rightarrow> updates @ [(path, v)] | None \<Rightarrow> updates)"

definition collect_updates :: "AnalyzerTomlConfig \<Rightarrow> (string \<times> OptionValue) list" where
  "collect_updates config =
     (let updates = [];
          updates = (case atc_queueing config of None \<Rightarrow> updates
            | Some p \<Rightarrow>
                push_update ''queueing.trigger_permille'' (map_option OvU64 (qt_trigger_permille p)) updates);
          updates = (case atc_blocking config of None \<Rightarrow> updates
            | Some p \<Rightarrow>
                push_update ''blocking.strong_min_samples'' (map_option OvUsize (bt_strong_min_samples p)) (
                push_update ''blocking.strong_nonzero_share_permille'' (map_option OvU64 (bt_strong_nonzero_share_permille p)) (
                push_update ''blocking.strong_peak_threshold'' (map_option OvU64 (bt_strong_peak_threshold p)) (
                push_update ''blocking.strong_p95_threshold'' (map_option OvU64 (bt_strong_p95_threshold p)) (
                push_update ''blocking.min_nonzero_samples_for_signal'' (map_option OvUsize (bt_min_nonzero_samples_for_signal p)) updates)))));
          updates = (case atc_executor config of None \<Rightarrow> updates
            | Some p \<Rightarrow>
                push_update ''executor.min_runnable_queue_per_worker_p95_milli_for_signal'' (map_option OvU64 (ext_min_runnable_queue_per_worker_p95_milli_for_signal p)) (
                push_update ''executor.min_global_queue_p95_for_signal'' (map_option OvU64 (ext_min_global_queue_p95_for_signal p)) updates));
          updates = (case atc_downstream config of None \<Rightarrow> updates
            | Some p \<Rightarrow>
                push_update ''downstream.blocking_correlation_score_margin'' (map_option OvU8 (dst_blocking_correlation_score_margin p)) (
                push_update ''downstream.blocking_correlated_stage_patterns'' (map_option OvStringList (dst_blocking_correlated_stage_patterns p)) (
                push_update ''downstream.min_stage_samples'' (map_option OvUsize (dst_min_stage_samples p)) updates)));
          updates = (case atc_confidence config of None \<Rightarrow> updates
            | Some p \<Rightarrow>
                push_update ''confidence.ambiguity_score_gap'' (map_option OvU8 (cft_ambiguity_score_gap p)) (
                push_update ''confidence.ambiguity_min_score'' (map_option OvU8 (cft_ambiguity_min_score p)) (
                push_update ''confidence.high_score_threshold'' (map_option OvU8 (cft_high_score_threshold p)) (
                push_update ''confidence.medium_score_threshold'' (map_option OvU8 (cft_medium_score_threshold p)) updates))));
          updates = (case atc_evidence config of None \<Rightarrow> updates
            | Some p \<Rightarrow>
                push_update ''evidence.low_completed_request_threshold'' (map_option OvUsize (evt_low_completed_request_threshold p)) updates);
          updates = (case atc_route config of None \<Rightarrow> updates
            | Some p \<Rightarrow>
                push_update ''route.slowest_to_global_p95_ratio_denominator'' (map_option OvU64 (rtt_slowest_to_global_p95_ratio_denominator p)) (
                push_update ''route.slowest_to_global_p95_ratio_numerator'' (map_option OvU64 (rtt_slowest_to_global_p95_ratio_numerator p)) (
                push_update ''route.slowest_to_fastest_p95_ratio_denominator'' (map_option OvU64 (rtt_slowest_to_fastest_p95_ratio_denominator p)) (
                push_update ''route.slowest_to_fastest_p95_ratio_numerator'' (map_option OvU64 (rtt_slowest_to_fastest_p95_ratio_numerator p)) (
                push_update ''route.emit_on_divergent_suspects'' (map_option OvBool (rtt_emit_on_divergent_suspects p)) (
                push_update ''route.breakdown_limit'' (map_option OvUsize (rtt_breakdown_limit p)) (
                push_update ''route.min_request_count'' (map_option OvUsize (rtt_min_request_count p)) updates)))))));
          updates = (case atc_temporal config of None \<Rightarrow> updates
            | Some p \<Rightarrow>
                push_update ''temporal.suppress_runtime_sparse_suspect_shift_without_supporting_movement'' (map_option OvBool (tmt_suppress_runtime_sparse_suspect_shift_without_supporting_movement p)) (
                push_update ''temporal.emit_on_suspect_shift'' (map_option OvBool (tmt_emit_on_suspect_shift p)) (
                push_update ''temporal.p95_shift_ratio_denominator'' (map_option OvU64 (tmt_p95_shift_ratio_denominator p)) (
                push_update ''temporal.p95_shift_ratio_numerator'' (map_option OvU64 (tmt_p95_shift_ratio_numerator p)) (
                push_update ''temporal.share_shift_permille'' (map_option OvU64 (tmt_share_shift_permille p)) (
                push_update ''temporal.min_segment_request_count'' (map_option OvUsize (tmt_min_segment_request_count p)) (
                push_update ''temporal.min_request_count'' (map_option OvUsize (tmt_min_request_count p)) updates)))))))
      in updates)"

fun apply_updates :: "(string \<times> OptionValue) list \<Rightarrow> AnalyzeOptions
    \<Rightarrow> ((AnalyzeConfigError + unit) \<times> AnalyzeOptions) option" where
  "apply_updates [] self = Some (Inr (), self)"
| "apply_updates ((path, v) # updates) self =
     (case apply_typed_path path v self of
        Some (Inr _, self) \<Rightarrow> apply_updates updates self
      | r \<Rightarrow> r)"

text \<open>From the decoded table on; \<open>None\<close> where the source panics.\<close>

definition merge_toml_config :: "AnalyzerTomlConfig \<Rightarrow> AnalyzeOptions \<Rightarrow> (AnalyzeConfigError + AnalyzeOptions) option" where
  "merge_toml_config config self =
     (case atc_schema_version config of
        None \<Rightarrow> Some (Inl MissingSchemaVersion)
      | Some schema_version \<Rightarrow>
          if schema_version \<noteq> SUPPORTED_SCHEMA_VERSION
          then Some (Inl (UnsupportedSchemaVersion schema_version SUPPORTED_SCHEMA_VERSION))
          else case apply_updates (collect_updates config) self of
                 None \<Rightarrow> None
               | Some (Inl e, _) \<Rightarrow> Some (Inl e)
               | Some (Inr _, self) \<Rightarrow>
                   (case options_validate self of Inl e \<Rightarrow> Some (Inl e) | Inr _ \<Rightarrow> Some (Inr self)))"

text \<open>
  The answer of the decoder: a syntax error, no \<^verbatim>\<open>analyzer\<close> table, a table of the wrong shape, or
  the typed table.
\<close>

type_synonym toml_decoder = "string \<Rightarrow> string + (string + AnalyzerTomlConfig) option"

definition merge_toml_str :: "toml_decoder \<Rightarrow> string \<Rightarrow> AnalyzeOptions \<Rightarrow> (AnalyzeConfigError + AnalyzeOptions) option" where
  "merge_toml_str decode input self =
     (case decode input of
        Inl message \<Rightarrow> Some (Inl (InvalidToml message))
      | Inr None \<Rightarrow> Some (Inl MissingAnalyzerTable)
      | Inr (Some (Inl message)) \<Rightarrow> Some (Inl (InvalidToml message))
      | Inr (Some (Inr config)) \<Rightarrow> merge_toml_config config self)"

definition from_toml_str :: "toml_decoder \<Rightarrow> string \<Rightarrow> (AnalyzeConfigError + AnalyzeOptions) option" where
  "from_toml_str decode input = merge_toml_str decode input analyze_options_default"

section \<open>What a table sets\<close>

text \<open>The paths of the table with the value each is given, absent groups giving none.\<close>

definition toml_cells :: "AnalyzerTomlConfig \<Rightarrow> (string \<times> OptionValue option) list" where
  "toml_cells config =
    [(''queueing.trigger_permille'', Option.bind (atc_queueing config) (\<lambda>p. map_option OvU64 (qt_trigger_permille p))),
     (''blocking.min_nonzero_samples_for_signal'', Option.bind (atc_blocking config) (\<lambda>p. map_option OvUsize (bt_min_nonzero_samples_for_signal p))),
     (''blocking.strong_p95_threshold'', Option.bind (atc_blocking config) (\<lambda>p. map_option OvU64 (bt_strong_p95_threshold p))),
     (''blocking.strong_peak_threshold'', Option.bind (atc_blocking config) (\<lambda>p. map_option OvU64 (bt_strong_peak_threshold p))),
     (''blocking.strong_nonzero_share_permille'', Option.bind (atc_blocking config) (\<lambda>p. map_option OvU64 (bt_strong_nonzero_share_permille p))),
     (''blocking.strong_min_samples'', Option.bind (atc_blocking config) (\<lambda>p. map_option OvUsize (bt_strong_min_samples p))),
     (''executor.min_global_queue_p95_for_signal'', Option.bind (atc_executor config) (\<lambda>p. map_option OvU64 (ext_min_global_queue_p95_for_signal p))),
     (''executor.min_runnable_queue_per_worker_p95_milli_for_signal'', Option.bind (atc_executor config) (\<lambda>p. map_option OvU64 (ext_min_runnable_queue_per_worker_p95_milli_for_signal p))),
     (''downstream.min_stage_samples'', Option.bind (atc_downstream config) (\<lambda>p. map_option OvUsize (dst_min_stage_samples p))),
     (''downstream.blocking_correlated_stage_patterns'', Option.bind (atc_downstream config) (\<lambda>p. map_option OvStringList (dst_blocking_correlated_stage_patterns p))),
     (''downstream.blocking_correlation_score_margin'', Option.bind (atc_downstream config) (\<lambda>p. map_option OvU8 (dst_blocking_correlation_score_margin p))),
     (''confidence.medium_score_threshold'', Option.bind (atc_confidence config) (\<lambda>p. map_option OvU8 (cft_medium_score_threshold p))),
     (''confidence.high_score_threshold'', Option.bind (atc_confidence config) (\<lambda>p. map_option OvU8 (cft_high_score_threshold p))),
     (''confidence.ambiguity_min_score'', Option.bind (atc_confidence config) (\<lambda>p. map_option OvU8 (cft_ambiguity_min_score p))),
     (''confidence.ambiguity_score_gap'', Option.bind (atc_confidence config) (\<lambda>p. map_option OvU8 (cft_ambiguity_score_gap p))),
     (''evidence.low_completed_request_threshold'', Option.bind (atc_evidence config) (\<lambda>p. map_option OvUsize (evt_low_completed_request_threshold p))),
     (''route.min_request_count'', Option.bind (atc_route config) (\<lambda>p. map_option OvUsize (rtt_min_request_count p))),
     (''route.breakdown_limit'', Option.bind (atc_route config) (\<lambda>p. map_option OvUsize (rtt_breakdown_limit p))),
     (''route.emit_on_divergent_suspects'', Option.bind (atc_route config) (\<lambda>p. map_option OvBool (rtt_emit_on_divergent_suspects p))),
     (''route.slowest_to_fastest_p95_ratio_numerator'', Option.bind (atc_route config) (\<lambda>p. map_option OvU64 (rtt_slowest_to_fastest_p95_ratio_numerator p))),
     (''route.slowest_to_fastest_p95_ratio_denominator'', Option.bind (atc_route config) (\<lambda>p. map_option OvU64 (rtt_slowest_to_fastest_p95_ratio_denominator p))),
     (''route.slowest_to_global_p95_ratio_numerator'', Option.bind (atc_route config) (\<lambda>p. map_option OvU64 (rtt_slowest_to_global_p95_ratio_numerator p))),
     (''route.slowest_to_global_p95_ratio_denominator'', Option.bind (atc_route config) (\<lambda>p. map_option OvU64 (rtt_slowest_to_global_p95_ratio_denominator p))),
     (''temporal.min_request_count'', Option.bind (atc_temporal config) (\<lambda>p. map_option OvUsize (tmt_min_request_count p))),
     (''temporal.min_segment_request_count'', Option.bind (atc_temporal config) (\<lambda>p. map_option OvUsize (tmt_min_segment_request_count p))),
     (''temporal.share_shift_permille'', Option.bind (atc_temporal config) (\<lambda>p. map_option OvU64 (tmt_share_shift_permille p))),
     (''temporal.p95_shift_ratio_numerator'', Option.bind (atc_temporal config) (\<lambda>p. map_option OvU64 (tmt_p95_shift_ratio_numerator p))),
     (''temporal.p95_shift_ratio_denominator'', Option.bind (atc_temporal config) (\<lambda>p. map_option OvU64 (tmt_p95_shift_ratio_denominator p))),
     (''temporal.emit_on_suspect_shift'', Option.bind (atc_temporal config) (\<lambda>p. map_option OvBool (tmt_emit_on_suspect_shift p))),
     (''temporal.suppress_runtime_sparse_suspect_shift_without_supporting_movement'', Option.bind (atc_temporal config) (\<lambda>p. map_option OvBool (tmt_suppress_runtime_sparse_suspect_shift_without_supporting_movement p)))]"

definition given :: "(string \<times> OptionValue option) list \<Rightarrow> (string \<times> OptionValue) list" where
  "given cells = List.map_filter (\<lambda>(path, v). map_option (Pair path) v) cells"

lemma given_Cons: "given ((path, v) # cells) = (case v of Some v \<Rightarrow> [(path, v)] | None \<Rightarrow> []) @ given cells"
  by (cases v) (simp_all add: given_def List.map_filter_simps)

lemma given_Nil [simp]: "given [] = []"
  by (simp add: given_def List.map_filter_simps)

lemma push_update_given: "push_update path v updates = updates @ given [(path, v)]"
  by (simp add: push_update_def given_Cons split: option.split)

text \<open>A group appends its cells, or nothing.\<close>

lemma case_group_append:
  "(case g of None \<Rightarrow> u | Some p \<Rightarrow> u @ f p) = u @ (case g of None \<Rightarrow> [] | Some p \<Rightarrow> f p)"
  by (cases g) simp_all

lemma case_group_given:
  "(case g of None \<Rightarrow> [] | Some p \<Rightarrow> given [(path, f p)] @ rest p)
     = given [(path, Option.bind g f)] @ (case g of None \<Rightarrow> [] | Some p \<Rightarrow> rest p)"
  "(case g of None \<Rightarrow> [] | Some p \<Rightarrow> given [(path, f p)]) = given [(path, Option.bind g f)]"
  by (cases g; simp add: given_Cons)+

lemma given_split: "given (c # d # cells) = given [c] @ given (d # cells)"
  by (cases c) (simp add: given_Cons)

lemma collect_updates_given: "collect_updates config = given (toml_cells config)"
  unfolding collect_updates_def Let_def toml_cells_def push_update_given append_assoc append_Nil
    case_group_append case_group_given given_split ..

lemma toml_cells_paths: "map fst (toml_cells config) = map oe_path OPTION_ENTRIES"
  unfolding toml_cells_def OPTION_ENTRIES_def entry_defs by simp

text \<open>A given value has the kind of its path.\<close>

lemma toml_cells_kinds:
  "list_all2 (\<lambda>c e. case snd c of Some v \<Rightarrow> value_kind v = oe_kind e | None \<Rightarrow> True) (toml_cells config) OPTION_ENTRIES"
proof -
  have bind: "(case Option.bind g (\<lambda>p. map_option f (h p)) of Some v \<Rightarrow> value_kind v = k | None \<Rightarrow> True)"
    if "\<And>x. value_kind (f x) = k" for g f h k
    using that by (cases g; cases "h (the g)") simp_all
  show ?thesis
    unfolding toml_cells_def OPTION_ENTRIES_def entry_defs list_all2_Cons list_all2_Nil snd_conv OptionEntry.select_convs
    by (intro conjI refl; rule bind; simp)
qed

lemma given_set: "(path, v) \<in> set (given cells) \<longleftrightarrow> (path, Some v) \<in> set cells"
  by (induction cells) (auto simp: given_Cons split: option.splits)

lemma given_fst: "set (map fst (given cells)) \<subseteq> set (map fst cells)"
  by (auto simp: given_set image_iff) force

lemma given_distinct: "distinct (map fst cells) \<Longrightarrow> distinct (map fst (given cells))"
proof (induction cells)
  case (Cons c cells)
  then show ?case using given_fst [of cells] by (cases c) (auto simp: given_Cons split: option.split)
qed simp

definition registered :: "string \<times> OptionValue \<Rightarrow> bool" where
  "registered u \<longleftrightarrow> (\<exists>e\<in>set OPTION_ENTRIES. oe_path e = fst u \<and> value_kind (snd u) = oe_kind e)"

lemma collect_updates_registered: "list_all registered (collect_updates config)"
proof (unfold list_all_iff, intro ballI)
  fix u assume "u \<in> set (collect_updates config)"
  then have "(fst u, Some (snd u)) \<in> set (toml_cells config)"
    using given_set [of "fst u" "snd u"] by (simp add: collect_updates_given)
  then obtain i where i: "i < length (toml_cells config)" "toml_cells config ! i = (fst u, Some (snd u))"
    by (auto simp: in_set_conv_nth)
  note kinds = toml_cells_kinds [of config]
  then have n: "i < length OPTION_ENTRIES" using i list_all2_lengthD by metis
  have "oe_path (OPTION_ENTRIES ! i) = fst u"
    using arg_cong [OF toml_cells_paths [of config], of "\<lambda>xs. xs ! i"] i n by simp
  moreover have "value_kind (snd u) = oe_kind (OPTION_ENTRIES ! i)"
    using list_all2_nthD [OF kinds i(1)] i(2) by simp
  ultimately show "registered u" unfolding registered_def using n by (intro bexI [of _ "OPTION_ENTRIES ! i"]) simp_all
qed

lemma collect_updates_distinct: "distinct (map fst (collect_updates config))"
  using given_distinct [of "toml_cells config"] registry_paths(1)
  by (simp add: collect_updates_given toml_cells_paths)

section \<open>What the configuration reads afterwards\<close>

lemma find_entry_registered: "e \<in> set OPTION_ENTRIES \<Longrightarrow> find_entry (oe_path e) = Some e"
proof -
  assume e: "e \<in> set OPTION_ENTRIES"
  then obtain f where "find_entry (oe_path e) = Some f"
    by (cases "find_entry (oe_path e)") (auto simp: find_entry_def find_None_iff)
  moreover from this have "f \<in> set OPTION_ENTRIES" "oe_path f = oe_path e"
    by (auto simp: find_entry_def find_Some_iff)
  ultimately show ?thesis using entry_eqI [OF _ e] by simp
qed

lemma apply_updates_reads:
  "list_all registered updates \<Longrightarrow> distinct (map fst updates) \<Longrightarrow>
   \<exists>self'. apply_updates updates self = Some (Inr (), self') \<and>
     (\<forall>f\<in>set OPTION_ENTRIES. oe_get f self'
        = (case map_of updates (oe_path f) of Some v \<Rightarrow> v | None \<Rightarrow> oe_get f self))"
proof (induction updates arbitrary: self)
  case (Cons u updates)
  obtain path v where u: "u = (path, v)" by (cases u)
  obtain e where e: "e \<in> set OPTION_ENTRIES" "oe_path e = path" "value_kind v = oe_kind e"
    using Cons.prems(1) by (auto simp: registered_def u)
  obtain s where s: "oe_set e v self = Some s" "oe_get e s = v" using entry_get_set [OF e(1,3)] by blast
  have step: "apply_typed_path path v self = Some (Inr (), s)"
    using find_entry_registered [OF e(1)] s(1) by (simp add: apply_typed_path_def e(2))
  obtain self' where r: "apply_updates updates s = Some (Inr (), self')"
    "\<forall>f\<in>set OPTION_ENTRIES. oe_get f self' = (case map_of updates (oe_path f) of Some v \<Rightarrow> v | None \<Rightarrow> oe_get f s)"
    using Cons.IH [of s] Cons.prems by auto
  have "map_of updates path = None" using Cons.prems(2) by (simp add: u map_of_eq_None_iff)
  then have "oe_get f self' = (case map_of (u # updates) (oe_path f) of Some v \<Rightarrow> v | None \<Rightarrow> oe_get f self)"
    if "f \<in> set OPTION_ENTRIES" for f
    using that r(2) s entry_frame [OF e(1) that _ s(1)] entry_eqI [OF e(1) that] e(2)
    by (cases "f = e") (auto simp: u split: option.split)
  with r(1) step show ?case by (auto simp: u)
qed simp

lemma merge_toml_reads:
  assumes "atc_schema_version config = Some SUPPORTED_SCHEMA_VERSION"
  obtains self' where
    "merge_toml_config config self = Some (case options_validate self' of Inl e \<Rightarrow> Inl e | Inr _ \<Rightarrow> Inr self')"
    "\<And>f. f \<in> set OPTION_ENTRIES \<Longrightarrow> oe_get f self'
       = (case map_of (collect_updates config) (oe_path f) of Some v \<Rightarrow> v | None \<Rightarrow> oe_get f self)"
proof -
  obtain self' where s: "apply_updates (collect_updates config) self = Some (Inr (), self')"
    "\<forall>f\<in>set OPTION_ENTRIES. oe_get f self'
       = (case map_of (collect_updates config) (oe_path f) of Some v \<Rightarrow> v | None \<Rightarrow> oe_get f self)"
    using apply_updates_reads [OF collect_updates_registered collect_updates_distinct] by blast
  show ?thesis
    by (rule that [of self']) (use s assms in \<open>auto simp: merge_toml_config_def split: sum.split\<close>)
qed

section \<open>The configuration a table asks for\<close>

text \<open>
  What merging a table has to give, field by field and without paths: every option is the field
  of the same name in the table's group of the same name, where both are there, and what it was
  otherwise.
\<close>

definition overlay :: "('g \<Rightarrow> 'a option) \<Rightarrow> 'g option \<Rightarrow> 'a \<Rightarrow> 'a" where
  "overlay field grp v = (case grp of None \<Rightarrow> v | Some g \<Rightarrow> unwrap_or (field g) v)"

definition toml_overlay :: "AnalyzerTomlConfig \<Rightarrow> AnalyzeOptions \<Rightarrow> AnalyzeOptions" where
  "toml_overlay config self =
     \<lparr>ao_queueing =
        \<lparr>qo_trigger_permille = overlay qt_trigger_permille (atc_queueing config) (qo_trigger_permille (ao_queueing self))\<rparr>,
      ao_blocking =
        \<lparr>bo_min_nonzero_samples_for_signal = overlay bt_min_nonzero_samples_for_signal (atc_blocking config) (bo_min_nonzero_samples_for_signal (ao_blocking self)),
           bo_strong_p95_threshold = overlay bt_strong_p95_threshold (atc_blocking config) (bo_strong_p95_threshold (ao_blocking self)),
           bo_strong_peak_threshold = overlay bt_strong_peak_threshold (atc_blocking config) (bo_strong_peak_threshold (ao_blocking self)),
           bo_strong_nonzero_share_permille = overlay bt_strong_nonzero_share_permille (atc_blocking config) (bo_strong_nonzero_share_permille (ao_blocking self)),
           bo_strong_min_samples = overlay bt_strong_min_samples (atc_blocking config) (bo_strong_min_samples (ao_blocking self))\<rparr>,
      ao_executor =
        \<lparr>exo_min_global_queue_p95_for_signal = overlay ext_min_global_queue_p95_for_signal (atc_executor config) (exo_min_global_queue_p95_for_signal (ao_executor self)),
           exo_min_runnable_queue_per_worker_p95_milli_for_signal = overlay ext_min_runnable_queue_per_worker_p95_milli_for_signal (atc_executor config) (exo_min_runnable_queue_per_worker_p95_milli_for_signal (ao_executor self))\<rparr>,
      ao_downstream =
        \<lparr>dso_min_stage_samples = overlay dst_min_stage_samples (atc_downstream config) (dso_min_stage_samples (ao_downstream self)),
           dso_blocking_correlated_stage_patterns = overlay dst_blocking_correlated_stage_patterns (atc_downstream config) (dso_blocking_correlated_stage_patterns (ao_downstream self)),
           dso_blocking_correlation_score_margin = overlay dst_blocking_correlation_score_margin (atc_downstream config) (dso_blocking_correlation_score_margin (ao_downstream self))\<rparr>,
      ao_confidence =
        \<lparr>cfo_medium_score_threshold = overlay cft_medium_score_threshold (atc_confidence config) (cfo_medium_score_threshold (ao_confidence self)),
           cfo_high_score_threshold = overlay cft_high_score_threshold (atc_confidence config) (cfo_high_score_threshold (ao_confidence self)),
           cfo_ambiguity_min_score = overlay cft_ambiguity_min_score (atc_confidence config) (cfo_ambiguity_min_score (ao_confidence self)),
           cfo_ambiguity_score_gap = overlay cft_ambiguity_score_gap (atc_confidence config) (cfo_ambiguity_score_gap (ao_confidence self))\<rparr>,
      ao_evidence =
        \<lparr>evo_low_completed_request_threshold = overlay evt_low_completed_request_threshold (atc_evidence config) (evo_low_completed_request_threshold (ao_evidence self))\<rparr>,
      ao_route =
        \<lparr>rto_min_request_count = overlay rtt_min_request_count (atc_route config) (rto_min_request_count (ao_route self)),
           rto_breakdown_limit = overlay rtt_breakdown_limit (atc_route config) (rto_breakdown_limit (ao_route self)),
           rto_emit_on_divergent_suspects = overlay rtt_emit_on_divergent_suspects (atc_route config) (rto_emit_on_divergent_suspects (ao_route self)),
           rto_slowest_to_fastest_p95_ratio_numerator = overlay rtt_slowest_to_fastest_p95_ratio_numerator (atc_route config) (rto_slowest_to_fastest_p95_ratio_numerator (ao_route self)),
           rto_slowest_to_fastest_p95_ratio_denominator = overlay rtt_slowest_to_fastest_p95_ratio_denominator (atc_route config) (rto_slowest_to_fastest_p95_ratio_denominator (ao_route self)),
           rto_slowest_to_global_p95_ratio_numerator = overlay rtt_slowest_to_global_p95_ratio_numerator (atc_route config) (rto_slowest_to_global_p95_ratio_numerator (ao_route self)),
           rto_slowest_to_global_p95_ratio_denominator = overlay rtt_slowest_to_global_p95_ratio_denominator (atc_route config) (rto_slowest_to_global_p95_ratio_denominator (ao_route self))\<rparr>,
      ao_temporal =
        \<lparr>tmo_min_request_count = overlay tmt_min_request_count (atc_temporal config) (tmo_min_request_count (ao_temporal self)),
           tmo_min_segment_request_count = overlay tmt_min_segment_request_count (atc_temporal config) (tmo_min_segment_request_count (ao_temporal self)),
           tmo_share_shift_permille = overlay tmt_share_shift_permille (atc_temporal config) (tmo_share_shift_permille (ao_temporal self)),
           tmo_p95_shift_ratio_numerator = overlay tmt_p95_shift_ratio_numerator (atc_temporal config) (tmo_p95_shift_ratio_numerator (ao_temporal self)),
           tmo_p95_shift_ratio_denominator = overlay tmt_p95_shift_ratio_denominator (atc_temporal config) (tmo_p95_shift_ratio_denominator (ao_temporal self)),
           tmo_emit_on_suspect_shift = overlay tmt_emit_on_suspect_shift (atc_temporal config) (tmo_emit_on_suspect_shift (ao_temporal self)),
           tmo_suppress_runtime_sparse_suspect_shift_without_supporting_movement = overlay tmt_suppress_runtime_sparse_suspect_shift_without_supporting_movement (atc_temporal config) (tmo_suppress_runtime_sparse_suspect_shift_without_supporting_movement (ao_temporal self))\<rparr>\<rparr>"

lemma overlay_reads:
  "C (overlay field grp v)
     = (case Option.bind grp (\<lambda>p. map_option C (field p)) of Some x \<Rightarrow> x | None \<Rightarrow> C v)"
  by (cases grp; cases "field (the grp)") (simp_all add: overlay_def)

lemma toml_overlay_cells:
  "list_all2 (\<lambda>c e. fst c = oe_path e \<and>
     oe_get e (toml_overlay config self) = (case snd c of Some v \<Rightarrow> v | None \<Rightarrow> oe_get e self))
   (toml_cells config) OPTION_ENTRIES"
  unfolding toml_cells_def OPTION_ENTRIES_def entry_defs list_all2_Cons list_all2_Nil fst_conv snd_conv
    OptionEntry.select_convs toml_overlay_def AnalyzeOptions.select_convs QueueingOptions.select_convs
    BlockingOptions.select_convs ExecutorOptions.select_convs DownstreamOptions.select_convs
    ConfidenceOptions.select_convs EvidenceOptions.select_convs RouteOptions.select_convs
    TemporalOptions.select_convs
  by (intro conjI refl overlay_reads TrueI)

lemma map_of_given: "distinct (map fst cells) \<Longrightarrow> (path, v) \<in> set cells \<Longrightarrow> map_of (given cells) path = v"
proof (cases v)
  case None
  assume d: "distinct (map fst cells)" and m: "(path, v) \<in> set cells"
  have "(path, Some x) \<notin> set cells" for x
    using eq_key_imp_eq_value [OF d, of path v "Some x"] m None by auto
  then show ?thesis using None given_set [of path _ cells] by (force simp: map_of_eq_None_iff)
next
  case (Some x)
  assume d: "distinct (map fst cells)" and m: "(path, v) \<in> set cells"
  then have "(path, x) \<in> set (given cells)" using Some by (simp add: given_set)
  then show ?thesis unfolding Some by (rule map_of_is_SomeI [OF given_distinct [OF d]])
qed

lemma toml_overlay_reads:
  assumes "f \<in> set OPTION_ENTRIES"
  shows "oe_get f (toml_overlay config self)
    = (case map_of (collect_updates config) (oe_path f) of Some v \<Rightarrow> v | None \<Rightarrow> oe_get f self)"
proof -
  obtain i where i: "i < length OPTION_ENTRIES" "OPTION_ENTRIES ! i = f" using assms by (auto simp: in_set_conv_nth)
  note all = toml_overlay_cells [of config self]
  have n: "i < length (toml_cells config)" using list_all2_lengthD [OF all] i(1) by simp
  obtain path v where c: "toml_cells config ! i = (path, v)" by (rule prod.exhaust)
  have "path = oe_path f" "oe_get f (toml_overlay config self) = (case v of Some v \<Rightarrow> v | None \<Rightarrow> oe_get f self)"
    using list_all2_nthD [OF all n, unfolded i(2) c] by simp_all
  moreover have "(path, v) \<in> set (toml_cells config)" using n c by (metis nth_mem)
  then have "map_of (collect_updates config) path = v"
    using map_of_given registry_paths(1) by (simp add: collect_updates_given toml_cells_paths)
  ultimately show ?thesis by simp
qed

text \<open>Merging never panics, and merges exactly the overlay.\<close>

lemma merge_toml_overlay:
  "merge_toml_config config self = Some
     (case atc_schema_version config of
        None \<Rightarrow> Inl MissingSchemaVersion
      | Some version \<Rightarrow>
          if version \<noteq> SUPPORTED_SCHEMA_VERSION then Inl (UnsupportedSchemaVersion version SUPPORTED_SCHEMA_VERSION)
          else case options_validate (toml_overlay config self) of
                 Inl e \<Rightarrow> Inl e | Inr _ \<Rightarrow> Inr (toml_overlay config self))"
proof (cases "atc_schema_version config = Some SUPPORTED_SCHEMA_VERSION")
  case True
  then obtain self' where
    m: "merge_toml_config config self = Some (case options_validate self' of Inl e \<Rightarrow> Inl e | Inr _ \<Rightarrow> Inr self')"
    and r: "\<And>f. f \<in> set OPTION_ENTRIES \<Longrightarrow> oe_get f self'
       = (case map_of (collect_updates config) (oe_path f) of Some v \<Rightarrow> v | None \<Rightarrow> oe_get f self)"
    by (rule merge_toml_reads [where self = self]) blast
  have same: "self' = toml_overlay config self"
    by (rule entries_determine) (simp add: r toml_overlay_reads)
  show ?thesis using m True unfolding same by simp
next
  case False
  then show ?thesis by (auto simp: merge_toml_config_def split: option.split)
qed

section \<open>The table of a configuration\<close>

definition full_table :: "AnalyzeOptions \<Rightarrow> AnalyzerTomlConfig" where
  "full_table self =
     \<lparr>atc_schema_version = Some SUPPORTED_SCHEMA_VERSION,
      atc_queueing = Some \<lparr>qt_trigger_permille = Some (qo_trigger_permille (ao_queueing self))\<rparr>,
      atc_blocking = Some \<lparr>bt_min_nonzero_samples_for_signal = Some (bo_min_nonzero_samples_for_signal (ao_blocking self)), bt_strong_p95_threshold = Some (bo_strong_p95_threshold (ao_blocking self)), bt_strong_peak_threshold = Some (bo_strong_peak_threshold (ao_blocking self)), bt_strong_nonzero_share_permille = Some (bo_strong_nonzero_share_permille (ao_blocking self)), bt_strong_min_samples = Some (bo_strong_min_samples (ao_blocking self))\<rparr>,
      atc_executor = Some \<lparr>ext_min_global_queue_p95_for_signal = Some (exo_min_global_queue_p95_for_signal (ao_executor self)), ext_min_runnable_queue_per_worker_p95_milli_for_signal = Some (exo_min_runnable_queue_per_worker_p95_milli_for_signal (ao_executor self))\<rparr>,
      atc_downstream = Some \<lparr>dst_min_stage_samples = Some (dso_min_stage_samples (ao_downstream self)), dst_blocking_correlated_stage_patterns = Some (dso_blocking_correlated_stage_patterns (ao_downstream self)), dst_blocking_correlation_score_margin = Some (dso_blocking_correlation_score_margin (ao_downstream self))\<rparr>,
      atc_confidence = Some \<lparr>cft_medium_score_threshold = Some (cfo_medium_score_threshold (ao_confidence self)), cft_high_score_threshold = Some (cfo_high_score_threshold (ao_confidence self)), cft_ambiguity_min_score = Some (cfo_ambiguity_min_score (ao_confidence self)), cft_ambiguity_score_gap = Some (cfo_ambiguity_score_gap (ao_confidence self))\<rparr>,
      atc_evidence = Some \<lparr>evt_low_completed_request_threshold = Some (evo_low_completed_request_threshold (ao_evidence self))\<rparr>,
      atc_route = Some \<lparr>rtt_min_request_count = Some (rto_min_request_count (ao_route self)), rtt_breakdown_limit = Some (rto_breakdown_limit (ao_route self)), rtt_emit_on_divergent_suspects = Some (rto_emit_on_divergent_suspects (ao_route self)), rtt_slowest_to_fastest_p95_ratio_numerator = Some (rto_slowest_to_fastest_p95_ratio_numerator (ao_route self)), rtt_slowest_to_fastest_p95_ratio_denominator = Some (rto_slowest_to_fastest_p95_ratio_denominator (ao_route self)), rtt_slowest_to_global_p95_ratio_numerator = Some (rto_slowest_to_global_p95_ratio_numerator (ao_route self)), rtt_slowest_to_global_p95_ratio_denominator = Some (rto_slowest_to_global_p95_ratio_denominator (ao_route self))\<rparr>,
      atc_temporal = Some \<lparr>tmt_min_request_count = Some (tmo_min_request_count (ao_temporal self)), tmt_min_segment_request_count = Some (tmo_min_segment_request_count (ao_temporal self)), tmt_share_shift_permille = Some (tmo_share_shift_permille (ao_temporal self)), tmt_p95_shift_ratio_numerator = Some (tmo_p95_shift_ratio_numerator (ao_temporal self)), tmt_p95_shift_ratio_denominator = Some (tmo_p95_shift_ratio_denominator (ao_temporal self)), tmt_emit_on_suspect_shift = Some (tmo_emit_on_suspect_shift (ao_temporal self)), tmt_suppress_runtime_sparse_suspect_shift_without_supporting_movement = Some (tmo_suppress_runtime_sparse_suspect_shift_without_supporting_movement (ao_temporal self))\<rparr>\<rparr>"

lemma full_table_cells: "toml_cells (full_table self) = map (\<lambda>e. (oe_path e, Some (oe_get e self))) OPTION_ENTRIES"
  unfolding toml_cells_def full_table_def OPTION_ENTRIES_def entry_defs by simp

lemma full_table_updates: "collect_updates (full_table self) = map (\<lambda>e. (oe_path e, oe_get e self)) OPTION_ENTRIES"
proof -
  have "given (map (\<lambda>e. (p e, Some (v e))) es) = map (\<lambda>e. (p e, v e)) es" for p v and es :: "OptionEntry list"
    by (induction es) (simp_all add: given_Cons)
  then show ?thesis unfolding collect_updates_given full_table_cells .
qed

lemma full_table_merge:
  "merge_toml_config (full_table self) base = Some (case options_validate self of Inl e \<Rightarrow> Inl e | Inr _ \<Rightarrow> Inr self)"
proof -
  have "atc_schema_version (full_table self) = Some SUPPORTED_SCHEMA_VERSION" by (simp add: full_table_def)
  then obtain self' where
    m: "merge_toml_config (full_table self) base = Some (case options_validate self' of Inl e \<Rightarrow> Inl e | Inr _ \<Rightarrow> Inr self')"
    and r: "\<And>f. f \<in> set OPTION_ENTRIES \<Longrightarrow> oe_get f self'
       = (case map_of (collect_updates (full_table self)) (oe_path f) of Some v \<Rightarrow> v | None \<Rightarrow> oe_get f base)"
    by (rule merge_toml_reads [where self = base]) blast
  have "map_of (collect_updates (full_table self)) (oe_path f) = Some (oe_get f self)" if "f \<in> set OPTION_ENTRIES" for f
  proof (rule map_of_is_SomeI)
    show "distinct (map fst (collect_updates (full_table self)))" by (rule collect_updates_distinct)
    show "(oe_path f, oe_get f self) \<in> set (collect_updates (full_table self))"
      using that by (auto simp: full_table_updates)
  qed
  with r have same: "self' = self" by (intro entries_determine) simp
  show ?thesis using m unfolding same .
qed

section \<open>Properties\<close>

text \<open>
  Merging a decoded configuration file never panics. It is refused for a missing or
  unsupported schema version or by the semantic validation of the merged configuration, which is
  the overlay of the table; otherwise that configuration is the result. Every valid configuration
  can be written: the table of its values rebuilds it from any other configuration.
\<close>

theorem toml_merge_exact:
  "merge_toml_config config self = Some
     (case atc_schema_version config of
        None \<Rightarrow> Inl MissingSchemaVersion
      | Some version \<Rightarrow>
          if version \<noteq> SUPPORTED_SCHEMA_VERSION then Inl (UnsupportedSchemaVersion version SUPPORTED_SCHEMA_VERSION)
          else case options_validate (toml_overlay config self) of
                 Inl e \<Rightarrow> Inl e | Inr _ \<Rightarrow> Inr (toml_overlay config self)) \<and>
   merge_toml_config (full_table options) self
     = Some (case options_validate options of Inl e \<Rightarrow> Inl e | Inr _ \<Rightarrow> Inr options)"
  using merge_toml_overlay full_table_merge by simp

end
