(* ===== verification/Core_Artifact.thy ===== *)
theory Core_Artifact
  imports Core_RunBuilder
begin

text \<open>
  Texts and artifacts at the border of the core crate: the escaping of control characters
  (\<^verbatim>\<open>tailtriage-core/src/lib.rs\<close>) and the decoding of canonical Run JSON
  (\<^verbatim>\<open>artifact.rs\<close>; the JSON parser is a parameter). The lemmas show that escaped text has no
  control character and that escaping it again changes nothing.
\<close>

section \<open>Escaping of control characters\<close>

text \<open>The control characters are those of one byte below space, delete, and the block that
  UTF-8 encodes with the lead byte C2.\<close>

definition char_scalar :: "string \<Rightarrow> nat" where
  "char_scalar ch = (case ch of
       [b] \<Rightarrow> of_char b
     | [lead, b] \<Rightarrow> (of_char lead mod 32) * 64 + of_char b mod 64
     | _ \<Rightarrow> 1114112)"

definition is_control :: "string \<Rightarrow> bool" where
  "is_control ch \<longleftrightarrow> (let n = char_scalar ch in n < 32 \<or> 127 \<le> n \<and> n < 160)"

definition hex_digit :: "nat \<Rightarrow> char" where
  "hex_digit d = char_of (if d < 10 then 48 + d else 87 + d)"

fun show_hex :: "nat \<Rightarrow> string" where
  "show_hex n = (if n < 16 then [hex_digit n] else show_hex (n div 16) @ [hex_digit (n mod 16)])"

declare show_hex.simps [simp del]

definition backslash :: char where
  "backslash = CHR 0x5C"

definition escape_default :: "string \<Rightarrow> string" where
  "escape_default ch =
     (let n = char_scalar ch
      in if n = 9 then [backslash, CHR ''t'']
         else if n = 13 then [backslash, CHR ''r'']
         else if n = 10 then [backslash, CHR ''n'']
         else [backslash, CHR ''u'', CHR ''{''] @ show_hex n @ ''}'')"

definition escape_control_chars :: "string \<Rightarrow> string" where
  "escape_control_chars input =
     concat (map (\<lambda>ch. if is_control ch then escape_default ch else ch) (utf8_chars input))"

lemma escape_examples:
  "escape_control_chars ''plain text'' = ''plain text''"
  "escape_control_chars [CHR ''a'', CHR 0x0A, CHR 0x1B] = ''a'' @ [backslash] @ ''n'' @ [backslash] @ ''u{1b}''"
  "escape_control_chars [CHR 0xC2, CHR 0x85] = [backslash] @ ''u{85}''"
  by (simp_all add: escape_control_chars_def is_control_def char_scalar_def utf8_cont_def Let_def
      escape_default_def hex_digit_def show_hex.simps)
    code_simp+

section \<open>Well-formed text\<close>

text \<open>A Rust string holds well-formed characters only: a lead byte and as many continuation
  bytes as it announces.\<close>

fun wf_char :: "string \<Rightarrow> bool" where
  "wf_char [b] \<longleftrightarrow> (of_char b :: nat) < 128"
| "wf_char [lead, b] \<longleftrightarrow> 194 \<le> (of_char lead :: nat) \<and> (of_char lead :: nat) < 224 \<and> utf8_cont b"
| "wf_char [lead, b, c] \<longleftrightarrow> 224 \<le> (of_char lead :: nat) \<and> (of_char lead :: nat) < 240
     \<and> utf8_cont b \<and> utf8_cont c"
| "wf_char [lead, b, c, d] \<longleftrightarrow> 240 \<le> (of_char lead :: nat) \<and> (of_char lead :: nat) < 245
     \<and> utf8_cont b \<and> utf8_cont c \<and> utf8_cont d"
| "wf_char _ \<longleftrightarrow> False"

definition valid_text :: "string \<Rightarrow> bool" where
  "valid_text s \<longleftrightarrow> list_all wf_char (utf8_chars s)"

text \<open>Text without control characters, and printable ASCII.\<close>

definition clean :: "string \<Rightarrow> bool" where
  "clean s \<longleftrightarrow> list_all (\<lambda>ch. wf_char ch \<and> \<not> is_control ch) (utf8_chars s)"

definition printable :: "char \<Rightarrow> bool" where
  "printable c \<longleftrightarrow> 32 \<le> (of_char c :: nat) \<and> (of_char c :: nat) < 127"

lemma wf_char_shape: "wf_char ch \<Longrightarrow> \<exists>b bs. ch = b # bs \<and> \<not> utf8_cont b \<and> list_all utf8_cont bs"
  by (induction ch rule: wf_char.induct) (auto simp: utf8_cont_def)

lemma while_append:
  "b = [] \<or> \<not> P (hd b) \<Longrightarrow> takeWhile P (a @ b) = takeWhile P a \<and> dropWhile P (a @ b) = dropWhile P a @ b"
proof (induction a)
  case Nil
  then show ?case by (cases b) simp_all
qed simp

lemma while_all: "list_all P a \<Longrightarrow> takeWhile P a = a \<and> dropWhile P a = []"
  by (induction a) simp_all

lemma utf8_chars_append:
  "b = [] \<or> \<not> utf8_cont (hd b) \<Longrightarrow> utf8_chars (a @ b) = utf8_chars a @ utf8_chars b"
proof (induction a rule: utf8_chars.induct)
  case (2 x bs)
  show ?case using 2 while_append [of b utf8_cont bs] by simp
qed simp

lemma utf8_chars_char: "wf_char ch \<Longrightarrow> utf8_chars ch = [ch]"
proof -
  assume "wf_char ch"
  then obtain b bs where "ch = b # bs" "list_all utf8_cont bs" using wf_char_shape by blast
  then show ?thesis by (simp add: while_all)
qed

lemma valid_text_start: "valid_text s \<Longrightarrow> s = [] \<or> \<not> utf8_cont (hd s)"
  using wf_char_shape by (cases s) (auto simp: valid_text_def)

lemma clean_valid: "clean s \<Longrightarrow> valid_text s"
  by (simp add: clean_def valid_text_def list_all_iff)

lemma utf8_chars_concat: "list_all wf_char chs \<Longrightarrow> utf8_chars (concat chs) = chs"
proof (induction chs)
  case (Cons ch chs)
  then have "valid_text (concat chs)" by (simp add: valid_text_def)
  from utf8_chars_append [OF valid_text_start [OF this], of ch] Cons show ?case
    by (simp add: utf8_chars_char)
qed simp

lemma valid_append: "valid_text a \<Longrightarrow> valid_text b \<Longrightarrow> valid_text (a @ b)"
  using utf8_chars_append [OF valid_text_start, of b a] by (simp add: valid_text_def)

lemma clean_append: "clean a \<Longrightarrow> clean b \<Longrightarrow> clean (a @ b)"
  using utf8_chars_append [OF valid_text_start [OF clean_valid], of b a] by (simp add: clean_def)

lemma clean_concat: "(\<And>x. x \<in> set xs \<Longrightarrow> clean x) \<Longrightarrow> clean (concat xs)"
  by (induction xs) (simp_all add: clean_append, simp add: clean_def)

lemma printable_char: "printable c \<Longrightarrow> wf_char [c] \<and> \<not> is_control [c]"
  by (simp add: printable_def is_control_def char_scalar_def)

lemma clean_printable: "list_all printable s \<Longrightarrow> clean s"
proof (induction s)
  case (Cons c s)
  then have "clean [c]" using printable_char [of c] by (simp add: clean_def)
  with Cons show ?case using clean_append [of "[c]" s] by simp
qed (simp add: clean_def)

lemma printable_digit: "is_digit c \<Longrightarrow> printable c"
  by (simp add: is_digit_def printable_def)

lemma clean_show_nat: "clean (show_nat n)"
  using show_nat_digits [of n] by (intro clean_printable) (auto simp: list_all_iff printable_digit)

lemma clean_show_int: "clean (show_int i)"
proof -
  have "clean ''-''" by (simp add: clean_printable printable_def)
  from clean_append [OF this clean_show_nat] show ?thesis by (simp add: show_int_def clean_show_nat)
qed

lemma printable_hex_digit: "d < 16 \<Longrightarrow> printable (hex_digit d)"
  by (auto simp: hex_digit_def printable_def)

lemma printable_show_hex: "list_all printable (show_hex n)"
proof (induction n rule: show_hex.induct)
  case (1 n)
  then show ?case by (simp add: show_hex.simps [of n] printable_hex_digit)
qed

lemma printable_escape_default: "list_all printable (escape_default ch)"
  by (simp add: escape_default_def Let_def printable_show_hex) (simp add: printable_def backslash_def)

lemma escape_clean: "valid_text s \<Longrightarrow> clean (escape_control_chars s)"
  unfolding escape_control_chars_def
proof (rule clean_concat)
  fix x
  assume valid: "valid_text s"
    and x: "x \<in> set (map (\<lambda>ch. if is_control ch then escape_default ch else ch) (utf8_chars s))"
  then obtain ch where ch: "ch \<in> set (utf8_chars s)" "x = (if is_control ch then escape_default ch else ch)"
    by auto
  with valid have "wf_char ch" by (simp add: valid_text_def list_all_iff)
  then show "clean x"
    using ch(2) clean_printable [OF printable_escape_default] by (simp add: clean_def utf8_chars_char)
qed

lemma escape_of_clean: "clean s \<Longrightarrow> escape_control_chars s = s"
proof -
  assume "clean s"
  then have "map (\<lambda>ch. if is_control ch then escape_default ch else ch) (utf8_chars s) = utf8_chars s"
    by (intro map_idI) (auto simp: clean_def list_all_iff)
  then show ?thesis by (simp add: escape_control_chars_def concat_utf8_chars)
qed

lemma escape_idempotent: "valid_text s \<Longrightarrow> escape_control_chars (escape_control_chars s) = escape_control_chars s"
  by (rule escape_of_clean) (rule escape_clean)

section \<open>Decoding Run JSON (\<^verbatim>\<open>artifact.rs\<close>)\<close>

text \<open>An error of the JSON library as the code looks at it: its category and its text.\<close>

datatype json_category = CatIo | CatSyntax | CatEof | CatData

record json_error =
  je_category :: json_category
  je_message :: string

datatype RunJsonDecodeError =
    RjIo string
  | RjMalformed json_error
  | RjShape json_error
  | RjUnsupportedSchemaVersion u64 u64

fun run_json_decode_error_display :: "RunJsonDecodeError \<Rightarrow> string" where
  "run_json_decode_error_display (RjIo error) = ''I/O error while reading Run JSON: '' @ error"
| "run_json_decode_error_display (RjMalformed error) = ''invalid Run JSON: '' @ je_message error"
| "run_json_decode_error_display (RjShape error) =
     ''JSON shape does not match the Run schema: '' @ je_message error"
| "run_json_decode_error_display (RjUnsupportedSchemaVersion found supported) =
     ''unsupported schema_version='' @ show_word found @ ''; supported schema_version='' @ show_word supported"

definition map_json_error :: "json_error \<Rightarrow> RunJsonDecodeError" where
  "map_json_error error = (case je_category error of
       CatIo \<Rightarrow> RjIo (je_message error)
     | CatSyntax \<Rightarrow> RjMalformed error
     | CatEof \<Rightarrow> RjMalformed error
     | CatData \<Rightarrow> RjShape error)"

text \<open>
  The typed parser of the JSON library: it reads one \<open>Run\<close> off the front of the input and
  answers with what is left, or fails; \<open>fin\<close> is its check that only white space is left.
\<close>

definition decode_run_json_reader :: "(string \<Rightarrow> json_error + Run \<times> string) \<Rightarrow> (string \<Rightarrow> json_error + unit)
    \<Rightarrow> string \<Rightarrow> RunJsonDecodeError + Run" where
  "decode_run_json_reader deserialize fin reader =
     (case deserialize reader of
        Inl error \<Rightarrow> Inl (map_json_error error)
      | Inr (run, rest) \<Rightarrow>
          (case fin rest of
             Inl error \<Rightarrow> Inl (map_json_error error)
           | Inr _ \<Rightarrow>
               if run_schema_version run \<noteq> SCHEMA_VERSION
               then Inl (RjUnsupportedSchemaVersion (run_schema_version run) SCHEMA_VERSION)
               else Inr run))"

definition decode_run_json_path :: "(string \<Rightarrow> json_error + Run \<times> string) \<Rightarrow> (string \<Rightarrow> json_error + unit)
    \<Rightarrow> string + string \<Rightarrow> RunJsonDecodeError + Run" where
  "decode_run_json_path deserialize fin opened =
     (case opened of Inl e \<Rightarrow> Inl (RjIo e) | Inr reader \<Rightarrow> decode_run_json_reader deserialize fin reader)"

lemma decode_run_json_reader_ok:
  "decode_run_json_reader deserialize fin reader = Inr run \<longleftrightarrow>
     (\<exists>rest. deserialize reader = Inr (run, rest) \<and> fin rest = Inr ()) \<and> run_schema_version run = SCHEMA_VERSION"
  by (auto simp: decode_run_json_reader_def split: sum.splits)

end
