(* ===== verification/An_Render.thy ===== *)
theory An_Render
  imports An_Report Core_Artifact
begin

text \<open>
  The human-readable view of a report (\<^verbatim>\<open>tailtriage-analyzer/src/render.rs\<close>): one definition
  per function. Service-controlled text reaches it through routes, gauges, warnings and
  evidence; the property is that such text can neither add a line nor a control character.
\<close>

section \<open>Rendering\<close>

definition fmt_opt_u64 :: "u64 option \<Rightarrow> string" where
  "fmt_opt_u64 v = (case v of Some v \<Rightarrow> show_word v | None \<Rightarrow> ''n/a'')"

definition fmt_percent_permille :: "u64 option \<Rightarrow> string" where
  "fmt_percent_permille v = (case v of
       Some v \<Rightarrow> show_word (v div 10) @ ''.'' @ show_word (v mod 10) @ ''%''
     | None \<Rightarrow> ''n/a'')"

fun diagnosis_display_name :: "DiagnosisKind \<Rightarrow> string" where
  "diagnosis_display_name ApplicationQueuePressure = ''application queue pressure''"
| "diagnosis_display_name BlockingPoolPressure = ''blocking pool pressure''"
| "diagnosis_display_name ExecutorPressure = ''executor pressure''"
| "diagnosis_display_name DownstreamStageDominance = ''downstream stage dominance''"
| "diagnosis_display_name InsufficientEvidence = ''insufficient evidence''"

fun fmt_confidence :: "Confidence \<Rightarrow> string" where
  "fmt_confidence CoLow = ''low''"
| "fmt_confidence CoMedium = ''medium''"
| "fmt_confidence CoHigh = ''high''"

fun quality_name :: "EvidenceQualityLevel \<Rightarrow> string" where
  "quality_name EqStrong = ''strong''"
| "quality_name EqPartial = ''partial''"
| "quality_name EqWeak = ''weak''"

definition render_inflight_trend :: "InflightTrend \<Rightarrow> string" where
  "render_inflight_trend trend =
     (let direction = (case it_growth_delta trend of
            None \<Rightarrow> ''direction unknown''
          | Some delta \<Rightarrow> ''net growth '' @ (if 0 \<le> delta then ''+'' else []) @ show_int delta);
          rate = (case it_growth_per_sec_milli trend of
            None \<Rightarrow> ''precise rate unavailable''
          | Some rate \<Rightarrow> ''run-relative rate '' @ show_int rate @ '' milli-counts/sec'')
      in ''Inflight latest activity episode: gauge '' @ squote @ escape_control_chars (it_gauge trend) @ squote
         @ '', samples '' @ show_nat (it_sample_count trend) @ '', peak '' @ show_word (it_peak_count trend)
         @ '', p95 '' @ show_word (it_p95_count trend) @ '', '' @ direction @ '', '' @ rate)"

text \<open>A header and its items, or nothing.\<close>

definition titled :: "string \<Rightarrow> ('a \<Rightarrow> string) \<Rightarrow> 'a list \<Rightarrow> string list" where
  "titled header render items = (if items = [] then [] else header # map (\<lambda>x. ''- '' @ render x) items)"

definition render_suspect :: "Suspect \<Rightarrow> string" where
  "render_suspect suspect =
     diagnosis_display_name (sp_kind suspect) @ '' ('' @ fmt_confidence (sp_confidence suspect)
     @ '' confidence, score '' @ show_word (sp_score suspect) @ '')''"

definition render_slice :: "string \<Rightarrow> nat \<Rightarrow> u64 option \<Rightarrow> Suspect \<Rightarrow> string" where
  "render_slice name request_count p95 suspect =
     escape_control_chars name @ '': requests '' @ show_nat request_count @ '', p95 '' @ fmt_opt_u64 p95
     @ ''us, suspect '' @ diagnosis_display_name (sp_kind suspect)
     @ '' ('' @ fmt_confidence (sp_confidence suspect) @ '' confidence)''"

definition append_temporal_segment_text :: "string list \<Rightarrow> TemporalSegment list \<Rightarrow> string list" where
  "append_temporal_segment_text lines segments =
     lines @ titled ''Temporal segments:''
       (\<lambda>seg. render_slice (ts_name seg) (ts_request_count seg) (ts_p95_latency_us seg) (ts_primary_suspect seg))
       segments"

definition render_lines :: "Report \<Rightarrow> string list" where
  "render_lines report =
     (let lines =
        [''tailtriage diagnosis'',
         ''Requests analyzed: '' @ show_nat (rp_request_count report),
         ''Latency (us): p50 '' @ fmt_opt_u64 (rp_p50_latency_us report)
           @ '', p95 '' @ fmt_opt_u64 (rp_p95_latency_us report)
           @ '', p99 '' @ fmt_opt_u64 (rp_p99_latency_us report),
         ''Request time at p95: queue '' @ fmt_percent_permille (rp_p95_queue_share_permille report)
           @ '', non-queue service '' @ fmt_percent_permille (rp_p95_service_share_permille report)];
      lines = lines @ [case rp_inflight_trend report of
            Some trend \<Rightarrow> render_inflight_trend trend
          | None \<Rightarrow> ''Inflight trend: none''];
      lines = lines @ [''Primary suspect: '' @ render_suspect (rp_primary_suspect report)];
      lines = lines @ [''Evidence quality: '' @ quality_name (eq_quality (rp_evidence_quality report))
          @ (case eq_limitations (rp_evidence_quality report) of
               [] \<Rightarrow> []
             | l # _ \<Rightarrow> '' ('' @ escape_control_chars l @ '')'')];
      lines = lines @ titled ''Warnings:'' escape_control_chars (rp_warnings report);
      lines = lines @ titled ''Evidence:'' escape_control_chars (sp_evidence (rp_primary_suspect report));
      lines = lines @ titled ''Next checks:'' escape_control_chars (sp_next_checks (rp_primary_suspect report));
      lines = lines @ titled ''Secondary suspects:'' render_suspect (rp_secondary_suspects report);
      lines = lines @ titled ''Route breakdowns:''
          (\<lambda>route. render_slice (rb_route route) (rb_request_count route) (rb_p95_latency_us route) (rb_primary_suspect route))
          (rp_route_breakdowns report);
      lines = lines @ (case rp_analyzer_config report of
            None \<Rightarrow> []
          | Some config \<Rightarrow>
              [''Analyzer config:'', ''- schema_version: '' @ show_word (acs_schema_version config)]
              @ map (\<lambda>item. ''- '' @ escape_control_chars (os_path item) @ ''='' @ escape_control_chars (os_value item))
                  (acs_non_default_options config))
      in append_temporal_segment_text lines (rp_temporal_segments report))"

definition render_text :: "Report \<Rightarrow> string" where
  "render_text report = join [CHR 0x0A] (render_lines report)"

section \<open>What the rendered text can hold\<close>

text \<open>The texts of a report that come from the run or the configuration.\<close>

definition report_texts :: "Report \<Rightarrow> string list" where
  "report_texts report =
     (case rp_inflight_trend report of None \<Rightarrow> [] | Some trend \<Rightarrow> [it_gauge trend])
     @ take 1 (eq_limitations (rp_evidence_quality report))
     @ rp_warnings report @ sp_evidence (rp_primary_suspect report) @ sp_next_checks (rp_primary_suspect report)
     @ map rb_route (rp_route_breakdowns report) @ map ts_name (rp_temporal_segments report)
     @ (case rp_analyzer_config report of None \<Rightarrow> []
        | Some config \<Rightarrow> map os_path (acs_non_default_options config) @ map os_value (acs_non_default_options config))"

named_theorems clean_intros

lemma clean_Cons: "printable c \<Longrightarrow> clean s \<Longrightarrow> clean (c # s)"
  using clean_append [of "[c]" s] clean_printable [of "[c]"] by simp

lemmas [clean_intros] = clean_append clean_Cons clean_show_nat clean_show_int escape_clean

lemma clean_Nil [simp]: "clean []"
  by (simp add: clean_def)

lemma clean_fmt [clean_intros]: "clean (fmt_opt_u64 v)" "clean (fmt_percent_permille p)"
  by (auto simp: fmt_opt_u64_def fmt_percent_permille_def printable_def intro!: clean_intros split: option.split)

lemma clean_diagnosis [clean_intros]: "clean (diagnosis_display_name k)"
  by (cases k) (simp_all add: clean_printable printable_def)

lemma clean_confidence [clean_intros]: "clean (fmt_confidence c)"
  by (cases c) (simp_all add: clean_printable printable_def)

lemma clean_quality [clean_intros]: "clean (quality_name q)"
  by (cases q) (simp_all add: clean_printable printable_def)

lemma clean_trend [clean_intros]: "valid_text (it_gauge trend) \<Longrightarrow> clean (render_inflight_trend trend)"
  by (auto simp: render_inflight_trend_def Let_def printable_def intro!: clean_intros split: option.split)

lemma clean_suspect [clean_intros]: "clean (render_suspect s)"
  by (auto simp: render_suspect_def printable_def intro!: clean_intros)

lemma clean_slice [clean_intros]: "valid_text name \<Longrightarrow> clean (render_slice name n p s)"
  by (auto simp: render_slice_def printable_def intro!: clean_intros)

lemma clean_titled:
  assumes "clean header" "\<And>x. x \<in> set items \<Longrightarrow> clean (render x)"
  shows "list_all clean (titled header render items)"
  using assms by (auto simp: titled_def list_all_iff printable_def intro!: clean_intros)

lemma render_lines_clean:
  assumes "list_all valid_text (report_texts report)"
  shows "list_all clean (render_lines report)"
  unfolding render_lines_def Let_def append_temporal_segment_text_def list_all_append
  using assms
  by (intro conjI clean_titled)
    (auto simp: report_texts_def printable_def list_all_iff split: option.splits list.splits intro!: clean_intros)

lemma length_titled: "length (titled header render items) = (if items = [] then 0 else Suc (length items))"
  by (simp add: titled_def)

text \<open>Lines joined by newlines: the characters, and where the lines end.\<close>

lemma newline_not_clean: "clean s \<Longrightarrow> CHR 0x0A \<notin> set s"
proof
  assume clean: "clean s" and "CHR 0x0A \<in> set s"
  then obtain ch where ch: "ch \<in> set (utf8_chars s)" "CHR 0x0A \<in> set ch"
    using concat_utf8_chars [of s] by (metis UN_E set_concat)
  then have wf: "wf_char ch" "\<not> is_control ch" using clean by (auto simp: clean_def list_all_iff)
  show False
    using wf ch(2) by (induction ch rule: wf_char.induct)
      (auto simp: utf8_cont_def is_control_def char_scalar_def)
qed

lemma join_newline:
  assumes "list_all clean lines"
  shows "list_all (\<lambda>ch. ch = [CHR 0x0A] \<or> \<not> is_control ch) (utf8_chars (join [CHR 0x0A] lines)) \<and>
    valid_text (join [CHR 0x0A] lines) \<and>
    length (filter (\<lambda>c. c = CHR 0x0A) (join [CHR 0x0A] lines)) = length lines - 1"
  using assms
proof (induction "[CHR 0x0A] :: string" lines rule: join.induct)
  case (2 x)
  then show ?case using newline_not_clean [of x]
    by (auto simp: clean_def valid_text_def list_all_iff filter_empty_conv)
next
  case (3 x y ys)
  let ?rest = "join [CHR 0x0A] (y # ys)"
  have IH: "list_all (\<lambda>ch. ch = [CHR 0x0A] \<or> \<not> is_control ch) (utf8_chars ?rest)" "valid_text ?rest"
    "length (filter (\<lambda>c. c = CHR 0x0A) ?rest) = length ys"
    using 3 by simp_all
  have x: "clean x" using 3(2) by simp
  have nl: "utf8_chars ([CHR 0x0A] @ ?rest) = [CHR 0x0A] # utf8_chars ?rest"
    using utf8_chars_append [OF valid_text_start [OF IH(2)], of "[CHR 0x0A]"] by simp
  have "utf8_chars (x @ [CHR 0x0A] @ ?rest) = utf8_chars x @ [CHR 0x0A] # utf8_chars ?rest"
    using utf8_chars_append [of "[CHR 0x0A] @ ?rest" x] nl by (simp add: utf8_cont_def)
  moreover have "filter (\<lambda>c. c = CHR 0x0A) x = []"
    using newline_not_clean [OF x] by (auto simp: filter_empty_conv)
  ultimately show ?case using IH x by (auto simp: clean_def valid_text_def list_all_iff)
qed (simp add: valid_text_def)

section \<open>Property\<close>

text \<open>
  C30. Rendering is safe for a terminal or a log: whatever texts the service put into its routes,
  gauges, warnings and evidence, the rendered report has no control character other than the
  newlines that end its own lines, and exactly as many lines as the report has items.
\<close>

theorem render_text_lines:
  assumes "list_all valid_text (report_texts report)"
  shows "list_all (\<lambda>ch. ch = [CHR 0x0A] \<or> \<not> is_control ch) (utf8_chars (render_text report)) \<and>
    length (filter (\<lambda>c. c = CHR 0x0A) (render_text report)) =
      6 + (\<Sum>n\<leftarrow>[length (rp_warnings report), length (sp_evidence (rp_primary_suspect report)),
             length (sp_next_checks (rp_primary_suspect report)), length (rp_secondary_suspects report),
             length (rp_route_breakdowns report), length (rp_temporal_segments report)].
           if n = 0 then 0 else Suc n)
        + (case rp_analyzer_config report of None \<Rightarrow> 0
           | Some config \<Rightarrow> 2 + length (acs_non_default_options config))"
proof -
  have "length (render_lines report) - 1 =
      6 + (\<Sum>n\<leftarrow>[length (rp_warnings report), length (sp_evidence (rp_primary_suspect report)),
             length (sp_next_checks (rp_primary_suspect report)), length (rp_secondary_suspects report),
             length (rp_route_breakdowns report), length (rp_temporal_segments report)].
           if n = 0 then 0 else Suc n)
        + (case rp_analyzer_config report of None \<Rightarrow> 0
           | Some config \<Rightarrow> 2 + length (acs_non_default_options config))"
    by (simp add: render_lines_def append_temporal_segment_text_def Let_def length_titled split: option.split)
  with join_newline [OF render_lines_clean [OF assms]] show ?thesis by (simp add: render_text_def)
qed

text \<open>A route that tries to forge a line of the report.\<close>

definition forged_route :: string where
  "forged_route = ''/a'' @ [CHR 0x0A] @ ''Primary suspect: none'' @ [CHR 0x1B] @ ''[2J''"

definition forged_report :: Report where
  "forged_report =
     (let eq = \<lparr>eq_request_count = 1, eq_queue_event_count = 0, eq_stage_event_count = 0,
            eq_runtime_snapshot_count = 0, eq_inflight_snapshot_count = 0, eq_requests = ScPresent,
            eq_queues = ScMissing, eq_stages = ScMissing, eq_runtime_snapshots = ScMissing,
            eq_inflight_snapshots = ScMissing, eq_truncated = False, eq_dropped_requests = 0,
            eq_dropped_stages = 0, eq_dropped_queues = 0, eq_dropped_inflight_snapshots = 0,
            eq_dropped_runtime_snapshots = 0, eq_quality = EqWeak, eq_limitations = [forged_route]\<rparr>;
          suspect = \<lparr>sp_kind = InsufficientEvidence, sp_score = 50, sp_confidence = CoLow,
            sp_evidence = [forged_route], sp_next_checks = [], sp_confidence_notes = []\<rparr>
      in \<lparr>rp_request_count = 1, rp_p50_latency_us = Some 10, rp_p95_latency_us = Some 10,
         rp_p99_latency_us = None, rp_p95_queue_share_permille = Some 0, rp_p95_service_share_permille = Some 1000,
         rp_inflight_trend = None, rp_warnings = [forged_route, ''plain''], rp_evidence_quality = eq,
         rp_primary_suspect = suspect, rp_secondary_suspects = [],
         rp_route_breakdowns = [\<lparr>rb_route = forged_route, rb_request_count = 1, rb_p50_latency_us = Some 10,
            rb_p95_latency_us = Some 10, rb_p99_latency_us = None, rb_p95_queue_share_permille = None,
            rb_p95_service_share_permille = None, rb_evidence_quality = eq, rb_primary_suspect = suspect,
            rb_secondary_suspects = [], rb_warnings = []\<rparr>],
         rp_temporal_segments = [], rp_analyzer_config = None\<rparr>)"

theorem render_text_lines_witness:
  "list_all valid_text (report_texts forged_report) \<and>
   length (filter (\<lambda>c. c = CHR 0x0A) (render_text forged_report)) = 13"
proof
  have "valid_text forged_route" "valid_text ''plain''"
    unfolding valid_text_def forged_route_def by code_simp+
  then show valid: "list_all valid_text (report_texts forged_report)"
    by (simp add: report_texts_def forged_report_def Let_def)
  show "length (filter (\<lambda>c. c = CHR 0x0A) (render_text forged_report)) = 13"
    using render_text_lines [OF valid] by (simp add: forged_report_def Let_def)
qed

end
