(* ===== verification/Tr_Model.thy ===== *)
theory Tr_Model
  imports Core_Artifact
begin

text \<open>
  The data of the tracing intake (\<^verbatim>\<open>tailtriage-tracing/src\<close>: \<^verbatim>\<open>convention.rs\<close>, \<^verbatim>\<open>error.rs\<close>,
  \<^verbatim>\<open>types.rs\<close>): field keys, field values, completed spans, import options, warnings and errors
  with their texts.
\<close>

section \<open>Results\<close>

definition and_then :: "'e + 'a \<Rightarrow> ('a \<Rightarrow> 'e + 'b) \<Rightarrow> 'e + 'b" where
  "and_then r f = (case r of Inl e \<Rightarrow> Inl e | Inr x \<Rightarrow> f x)"

lemma and_then_simps [simp]: "and_then (Inl e) f = Inl e" "and_then (Inr x) f = f x"
  by (simp_all add: and_then_def)

lemma and_then_eq_Inr: "and_then r f = Inr y \<longleftrightarrow> (\<exists>x. r = Inr x \<and> f x = Inr y)"
  by (cases r) simp_all

lemma and_then_eq_Inl: "and_then r f = Inl e \<longleftrightarrow> r = Inl e \<or> (\<exists>x. r = Inr x \<and> f x = Inl e)"
  by (cases r) simp_all

section \<open>Field keys (\<^verbatim>\<open>convention.rs\<close>)\<close>

definition TT_KIND :: string where "TT_KIND = ''tt.kind''"
definition TT_REQUEST_ID :: string where "TT_REQUEST_ID = ''tt.request_id''"
definition TT_ROUTE :: string where "TT_ROUTE = ''tt.route''"
definition TT_STAGE :: string where "TT_STAGE = ''tt.stage''"
definition TT_QUEUE :: string where "TT_QUEUE = ''tt.queue''"
definition TT_DEPTH_AT_START :: string where "TT_DEPTH_AT_START = ''tt.depth_at_start''"
definition TT_OUTCOME :: string where "TT_OUTCOME = ''tt.outcome''"
definition TT_SUCCESS :: string where "TT_SUCCESS = ''tt.success''"

lemmas tt_keys = TT_KIND_def TT_REQUEST_ID_def TT_ROUTE_def TT_STAGE_def TT_QUEUE_def
  TT_DEPTH_AT_START_def TT_OUTCOME_def TT_SUCCESS_def

definition starts_with :: "string \<Rightarrow> string \<Rightarrow> bool" where
  "starts_with s p \<longleftrightarrow> take (length p) s = p"

section \<open>Errors (\<^verbatim>\<open>error.rs\<close>)\<close>

datatype ImportError =
    IeIo string string string
  | MalformedJsonLine nat string
  | JsonlRecordTooLarge nat nat
  | ExpectedTailtriageWrapper string
  | MissingField string
  | InvalidField string string
  | InvalidConfiguration string string
  | StrictViolation string
  | IeEmptyServiceName
  | InvalidRunEvent string
  | ZeroRequestArtifact string
  | ZeroRequestArtifactWithWarnings string "string list"
  | RunJsonWrite string string

definition newline :: string where
  "newline = [CHR 0x0A]"

definition backquote :: string where
  "backquote = [CHR 0x60]"

fun import_error_display :: "ImportError \<Rightarrow> string" where
  "import_error_display (IeIo operation ctx reason) =
     ''io error while '' @ operation @ '' ('' @ escape_control_chars ctx @ ''): '' @ escape_control_chars reason"
| "import_error_display (MalformedJsonLine line reason) =
     ''malformed JSONL at line '' @ show_nat line @ '': '' @ escape_control_chars reason"
| "import_error_display (JsonlRecordTooLarge line limit) =
     ''JSONL record at line '' @ show_nat line @ '' exceeds the raw-byte limit of '' @ show_nat limit @ '' bytes''"
| "import_error_display (ExpectedTailtriageWrapper reason) =
     ''expected tailtriage wrapper JSONL record: '' @ escape_control_chars reason"
| "import_error_display (MissingField field) = ''missing required field: '' @ field"
| "import_error_display (InvalidField field reason) =
     ''invalid field '' @ backquote @ field @ backquote @ '': '' @ escape_control_chars reason"
| "import_error_display (InvalidConfiguration opt reason) =
     ''invalid configuration '' @ backquote @ opt @ backquote @ '': '' @ escape_control_chars reason"
| "import_error_display (StrictViolation message) =
     ''strict import violation: '' @ escape_control_chars message"
| "import_error_display IeEmptyServiceName = ''service name must not be empty''"
| "import_error_display (InvalidRunEvent message) = ''invalid run event: '' @ escape_control_chars message"
| "import_error_display (ZeroRequestArtifact guidance) = escape_control_chars guidance"
| "import_error_display (ZeroRequestArtifactWithWarnings guidance warnings) =
     escape_control_chars guidance @ newline @ ''warnings observed during tracing intake:'' @ newline
       @ concat (map (\<lambda>w. ''- '' @ escape_control_chars w @ newline) (take 8 warnings))
       @ (let omitted = length warnings - 8
          in if omitted > 0 then ''- ... and '' @ show_nat omitted @ '' additional warnings omitted'' @ newline
             else [])"
| "import_error_display (RunJsonWrite path reason) =
     ''failed to write run JSON at '' @ escape_control_chars path @ '': '' @ escape_control_chars reason"

section \<open>Spans (\<^verbatim>\<open>types.rs\<close>)\<close>

datatype SpanKind = SpanRequest | SpanStage | SpanQueue

definition span_kind_parse :: "string \<Rightarrow> SpanKind option" where
  "span_kind_parse v =
     (if v = ''request'' then Some SpanRequest
      else if v = ''stage'' then Some SpanStage
      else if v = ''queue'' then Some SpanQueue
      else None)"

text \<open>A floating-point field value is only ever displayed, so it is the text it displays as.\<close>

type_synonym i64 = "64 word"
type_synonym f64 = string

datatype FieldValue =
    FvString string
  | FvBool bool
  | FvU64 u64
  | FvI64 i64
  | FvF64 f64
  | FvNull

type_synonym span_fields = "(string, FieldValue) btree"

record SpanRecord =
  sp_id :: "string option"
  sp_parent_id :: "string option"
  sp_name :: string
  sp_fields :: span_fields
  sp_started_at_unix_ms :: u64
  sp_started_at_run_us :: "u64 option"
  sp_finished_at_unix_ms :: u64
  sp_finished_at_run_us :: "u64 option"
  sp_duration_us :: "u64 option"

definition span_new :: "string \<Rightarrow> u64 \<Rightarrow> u64 \<Rightarrow> SpanRecord" where
  "span_new name started_at_unix_ms finished_at_unix_ms =
     \<lparr>sp_id = None, sp_parent_id = None, sp_name = name, sp_fields = [],
      sp_started_at_unix_ms = started_at_unix_ms, sp_started_at_run_us = None,
      sp_finished_at_unix_ms = finished_at_unix_ms, sp_finished_at_run_us = None, sp_duration_us = None\<rparr>"

definition span_with_id :: "string \<Rightarrow> SpanRecord \<Rightarrow> SpanRecord" where
  "span_with_id i self = self\<lparr>sp_id := Some i\<rparr>"

definition span_with_parent_id :: "string \<Rightarrow> SpanRecord \<Rightarrow> SpanRecord" where
  "span_with_parent_id i self = self\<lparr>sp_parent_id := Some i\<rparr>"

definition span_with_field :: "string \<Rightarrow> FieldValue \<Rightarrow> SpanRecord \<Rightarrow> SpanRecord" where
  "span_with_field key v self = self\<lparr>sp_fields := bt_insert key v (sp_fields self)\<rparr>"

definition span_with_started_at_run_us :: "u64 \<Rightarrow> SpanRecord \<Rightarrow> SpanRecord" where
  "span_with_started_at_run_us us self = self\<lparr>sp_started_at_run_us := Some us\<rparr>"

definition span_with_finished_at_run_us :: "u64 \<Rightarrow> SpanRecord \<Rightarrow> SpanRecord" where
  "span_with_finished_at_run_us us self = self\<lparr>sp_finished_at_run_us := Some us\<rparr>"

definition span_with_duration_us :: "u64 \<Rightarrow> SpanRecord \<Rightarrow> SpanRecord" where
  "span_with_duration_us us self = self\<lparr>sp_duration_us := Some us\<rparr>"

section \<open>Options, warnings and results (\<^verbatim>\<open>types.rs\<close>)\<close>

record ImportOptions =
  io_service_name :: string
  io_service_version :: "string option"
  io_run_id :: "string option"
  io_strict :: bool
  io_mode :: CaptureMode
  io_capture_limits :: "CaptureLimits option"
  io_capture_limits_override :: CaptureLimitsOverride

definition import_options_new :: "string \<Rightarrow> ImportOptions" where
  "import_options_new service_name =
     \<lparr>io_service_name = service_name, io_service_version = None, io_run_id = None, io_strict = False,
      io_mode = Light, io_capture_limits = None, io_capture_limits_override = override_default\<rparr>"

definition io_set_strict :: "bool \<Rightarrow> ImportOptions \<Rightarrow> ImportOptions" where
  "io_set_strict b self = self\<lparr>io_strict := b\<rparr>"

definition io_set_run_id :: "string \<Rightarrow> ImportOptions \<Rightarrow> ImportOptions" where
  "io_set_run_id i self = self\<lparr>io_run_id := Some i\<rparr>"

definition io_set_service_version :: "string \<Rightarrow> ImportOptions \<Rightarrow> ImportOptions" where
  "io_set_service_version v self = self\<lparr>io_service_version := Some v\<rparr>"

definition io_set_mode :: "CaptureMode \<Rightarrow> ImportOptions \<Rightarrow> ImportOptions" where
  "io_set_mode m self = self\<lparr>io_mode := m\<rparr>"

definition io_set_capture_limits :: "CaptureLimits \<Rightarrow> ImportOptions \<Rightarrow> ImportOptions" where
  "io_set_capture_limits l self = self\<lparr>io_capture_limits := Some l\<rparr>"

definition io_set_capture_limits_override :: "CaptureLimitsOverride \<Rightarrow> ImportOptions \<Rightarrow> ImportOptions" where
  "io_set_capture_limits_override l self = self\<lparr>io_capture_limits_override := l\<rparr>"

definition resolved_capture_limits :: "ImportOptions \<Rightarrow> CaptureLimits" where
  "resolved_capture_limits self =
     (case io_capture_limits self of
        Some limits \<Rightarrow> limits
      | None \<Rightarrow> override_apply (io_capture_limits_override self) (core_defaults (io_mode self)))"

text \<open>An import warning is a newtype of its message.\<close>

datatype ImportWarning = ImportWarning (iw_message: string)

record ImportedRun =
  imp_run :: Run
  imp_warnings :: "ImportWarning list"
  imp_retained_sources :: "SpanRecord list"

definition with_retained_sources :: "Run \<Rightarrow> ImportWarning list \<Rightarrow> SpanRecord list \<Rightarrow> ImportedRun" where
  "with_retained_sources run warnings retained_sources =
     \<lparr>imp_run = run, imp_warnings = warnings, imp_retained_sources = retained_sources\<rparr>"

definition MAX_IMPORT_WARNINGS :: nat where
  "MAX_IMPORT_WARNINGS = 256"

definition push_import_warning :: "ImportWarning \<Rightarrow> ImportWarning list \<Rightarrow> ImportWarning list" where
  "push_import_warning warning warnings =
     (if length warnings < MAX_IMPORT_WARNINGS then warnings @ [warning] else warnings)"

section \<open>Facts\<close>

lemma length_push_import_warning:
  "length ws \<le> MAX_IMPORT_WARNINGS \<Longrightarrow> length (push_import_warning w ws) \<le> MAX_IMPORT_WARNINGS"
  by (simp add: push_import_warning_def)

end
