(* ===== verification/Tr_Convert.thy ===== *)
theory Tr_Convert
  imports Tr_Model
begin

text \<open>
  The conversion of completed spans into a run (\<^verbatim>\<open>tailtriage-tracing/src/lib.rs\<close>): parsing the
  \<^verbatim>\<open>tt.*\<close> fields of every span into bounded candidates, assembling and normalizing the run, and
  tracing every retained event back to its source span. The current time, read when no event is
  retained, is an argument. A result of \<open>None\<close> is a panic.
\<close>

section \<open>Fields\<close>

datatype StringFieldState = SfMissing | SfValue string | SfInvalidType

datatype 'a OptionalField = OfMissing | OfValue 'a | OfInvalid

definition get_string_field_state :: "SpanRecord \<Rightarrow> string \<Rightarrow> StringFieldState" where
  "get_string_field_state span key =
     (case bt_lookup (sp_fields span) key of
        Some (FvString v) \<Rightarrow> SfValue v
      | Some _ \<Rightarrow> SfInvalidType
      | None \<Rightarrow> SfMissing)"

definition span_has_tailtriage_field :: "SpanRecord \<Rightarrow> bool" where
  "span_has_tailtriage_field span = list_ex (\<lambda>(k, _). starts_with k ''tt.'') (sp_fields span)"

definition strict_or_warn :: "bool \<Rightarrow> string \<Rightarrow> ImportWarning list \<Rightarrow> ImportError + ImportWarning list" where
  "strict_or_warn strict message warnings =
     (if strict then Inl (StrictViolation message)
      else Inr (push_import_warning (ImportWarning message) warnings))"

text \<open>The value together with the warnings so far, as \<^verbatim>\<open>&mut Vec\<close> passes them.\<close>

definition warned :: "bool \<Rightarrow> string \<Rightarrow> 'a \<Rightarrow> ImportWarning list \<Rightarrow> ImportError + 'a \<times> ImportWarning list" where
  "warned strict message v warnings =
     and_then (strict_or_warn strict message warnings) (\<lambda>warnings. Inr (v, warnings))"

definition in_span :: "string \<Rightarrow> SpanRecord \<Rightarrow> string" where
  "in_span key span = squote @ key @ squote @ '' in span '' @ squote @ sp_name span @ squote"

definition required_string :: "SpanRecord \<Rightarrow> string \<Rightarrow> bool \<Rightarrow> ImportWarning list
    \<Rightarrow> ImportError + string option \<times> ImportWarning list" where
  "required_string span key strict warnings =
     (case get_string_field_state span key of
        SfValue v \<Rightarrow>
          if is_blank v
          then warned strict (''invalid field '' @ in_span key span
                 @ '': required string cannot be empty or whitespace'') None warnings
          else Inr (Some v, warnings)
      | SfMissing \<Rightarrow> warned strict (''missing required field '' @ in_span key span) None warnings
      | SfInvalidType \<Rightarrow> warned strict (''invalid field '' @ in_span key span @ '': expected string'') None warnings)"

definition parse_outcome :: "SpanRecord \<Rightarrow> bool \<Rightarrow> ImportWarning list
    \<Rightarrow> ImportError + (string \<times> bool) option \<times> ImportWarning list" where
  "parse_outcome span strict warnings =
     (case get_string_field_state span TT_OUTCOME of
        SfMissing \<Rightarrow> Inr (Some (''ok'', True), warnings)
      | SfValue v \<Rightarrow>
          if is_blank v
          then warned strict (''invalid field '' @ in_span TT_OUTCOME span
                 @ '': expected non-empty, non-whitespace string'') None warnings
          else Inr (Some (v, False), warnings)
      | SfInvalidType \<Rightarrow>
          warned strict (''invalid field '' @ in_span TT_OUTCOME span @ '': expected string'') None warnings)"

definition ascii_lower :: "char \<Rightarrow> char" where
  "ascii_lower c = (if 65 \<le> (of_char c :: nat) \<and> (of_char c :: nat) \<le> 90 then char_of (of_char c + 32 :: nat) else c)"

definition eq_ignore_ascii_case :: "string \<Rightarrow> string \<Rightarrow> bool" where
  "eq_ignore_ascii_case a b \<longleftrightarrow> map ascii_lower a = map ascii_lower b"

definition parse_success :: "SpanRecord \<Rightarrow> bool \<Rightarrow> ImportWarning list
    \<Rightarrow> ImportError + bool OptionalField \<times> ImportWarning list" where
  "parse_success span strict warnings =
     (let invalid = warned strict (''invalid field '' @ in_span TT_SUCCESS span @ '': expected bool or ''
            @ squote @ ''true'' @ squote @ ''/'' @ squote @ ''false'' @ squote @ '' string'') OfInvalid warnings
      in case bt_lookup (sp_fields span) TT_SUCCESS of
           Some (FvBool b) \<Rightarrow> Inr (OfValue b, warnings)
         | Some (FvString v) \<Rightarrow>
             if eq_ignore_ascii_case v ''true'' then Inr (OfValue True, warnings)
             else if eq_ignore_ascii_case v ''false'' then Inr (OfValue False, warnings)
             else invalid
         | Some _ \<Rightarrow> invalid
         | None \<Rightarrow> Inr (OfMissing, warnings))"

definition parse_depth_at_start :: "SpanRecord \<Rightarrow> bool \<Rightarrow> ImportWarning list
    \<Rightarrow> ImportError + u64 OptionalField \<times> ImportWarning list" where
  "parse_depth_at_start span strict warnings =
     (let invalid = warned strict (''invalid field '' @ in_span TT_DEPTH_AT_START span
            @ '': expected non-negative integer'') OfInvalid warnings
      in case bt_lookup (sp_fields span) TT_DEPTH_AT_START of
           Some (FvU64 v) \<Rightarrow> Inr (OfValue v, warnings)
         | Some (FvI64 v) \<Rightarrow> if 0 \<le> sint v then Inr (OfValue v, warnings) else invalid
         | Some _ \<Rightarrow> invalid
         | None \<Rightarrow> Inr (OfMissing, warnings))"

section \<open>Durations\<close>

definition timestamp_derived_duration_us :: "u64 \<Rightarrow> u64 \<Rightarrow> u64" where
  "timestamp_derived_duration_us started_at_unix_ms finished_at_unix_ms =
     saturating_mul (saturating_sub finished_at_unix_ms started_at_unix_ms) 1000"

definition sanitized_run_relative_offsets :: "SpanRecord \<Rightarrow> u64 option \<times> u64 option" where
  "sanitized_run_relative_offsets span = (sp_started_at_run_us span, sp_finished_at_run_us span)"

definition run_relative_derived_duration_us :: "u64 option \<Rightarrow> u64 option \<Rightarrow> u64 option" where
  "run_relative_derived_duration_us started_at_run_us finished_at_run_us =
     Option.bind started_at_run_us (\<lambda>s. Option.bind finished_at_run_us (\<lambda>f. checked_sub f s))"

definition elapsed_duration_us :: "SpanRecord \<Rightarrow> u64 option \<Rightarrow> u64 option \<Rightarrow> u64" where
  "elapsed_duration_us span started_at_run_us finished_at_run_us =
     (case sp_duration_us span of
        Some us \<Rightarrow> us
      | None \<Rightarrow> unwrap_or (run_relative_derived_duration_us started_at_run_us finished_at_run_us)
                 (timestamp_derived_duration_us (sp_started_at_unix_ms span) (sp_finished_at_unix_ms span)))"

section \<open>Candidates\<close>

record ParsedRequestEvent =
  preq_source_index :: nat
  preq_event :: RequestEvent
  preq_outcome_defaulted :: bool

record ParsedStageEvent =
  pstg_source_index :: nat
  pstg_event :: StageEvent
  pstg_success_defaulted :: bool

record ParsedQueueEvent =
  pque_source_index :: nat
  pque_event :: QueueEvent

record SourceSpan =
  src_index :: nat
  src_span :: SpanRecord

text \<open>The local variables of the conversion loop.\<close>

record conversion =
  cv_warnings :: "ImportWarning list"
  cv_source_spans :: "SourceSpan list"
  cv_requests :: "ParsedRequestEvent list"
  cv_stages :: "ParsedStageEvent list"
  cv_queues :: "ParsedQueueEvent list"
  cv_dropped_requests :: u64
  cv_dropped_stages :: u64
  cv_dropped_queues :: u64

definition conversion_start :: conversion where
  "conversion_start = \<lparr>cv_warnings = [], cv_source_spans = [], cv_requests = [], cv_stages = [], cv_queues = [],
     cv_dropped_requests = 0, cv_dropped_stages = 0, cv_dropped_queues = 0\<rparr>"

definition convert_request :: "bool \<Rightarrow> CaptureLimits \<Rightarrow> nat \<Rightarrow> SpanRecord \<Rightarrow> conversion
    \<Rightarrow> ImportError + conversion" where
  "convert_request strict limits source_index span cv =
     and_then (required_string span TT_REQUEST_ID strict (cv_warnings cv)) (\<lambda>(request_id, warnings).
     and_then (required_string span TT_ROUTE strict warnings) (\<lambda>(route, warnings).
     let cv = cv\<lparr>cv_warnings := warnings\<rparr>
     in case (request_id, route) of
          (Some request_id, Some route) \<Rightarrow>
            and_then (parse_outcome span strict warnings) (\<lambda>(parsed, warnings).
            let cv = cv\<lparr>cv_warnings := warnings\<rparr>
            in case parsed of
                 None \<Rightarrow> Inr cv
               | Some (outcome, outcome_defaulted) \<Rightarrow>
                   let (started_at_run_us, finished_at_run_us) = sanitized_run_relative_offsets span
                   in if length (cv_requests cv) \<ge> max_requests limits
                      then Inr (cv\<lparr>cv_dropped_requests := saturating_add (cv_dropped_requests cv) 1\<rparr>)
                      else Inr (cv\<lparr>cv_source_spans := cv_source_spans cv @ [\<lparr>src_index = source_index, src_span = span\<rparr>],
                             cv_requests := cv_requests cv @
                               [\<lparr>preq_source_index = source_index,
                                 preq_event =
                                   \<lparr>req_request_id = request_id, req_route = route, req_kind = None,
                                    req_started_at_unix_ms = sp_started_at_unix_ms span,
                                    req_started_at_run_us = started_at_run_us,
                                    req_finished_at_unix_ms = sp_finished_at_unix_ms span,
                                    req_finished_at_run_us = finished_at_run_us,
                                    req_latency_us = elapsed_duration_us span started_at_run_us finished_at_run_us,
                                    req_outcome = outcome\<rparr>,
                                 preq_outcome_defaulted = outcome_defaulted\<rparr>]\<rparr>))
        | _ \<Rightarrow> Inr cv))"

definition convert_stage :: "bool \<Rightarrow> CaptureLimits \<Rightarrow> nat \<Rightarrow> SpanRecord \<Rightarrow> conversion
    \<Rightarrow> ImportError + conversion" where
  "convert_stage strict limits source_index span cv =
     and_then (required_string span TT_REQUEST_ID strict (cv_warnings cv)) (\<lambda>(request_id, warnings).
     and_then (required_string span TT_STAGE strict warnings) (\<lambda>(stage, warnings).
     let cv = cv\<lparr>cv_warnings := warnings\<rparr>
     in case (request_id, stage) of
          (Some request_id, Some stage) \<Rightarrow>
            and_then (parse_success span strict warnings) (\<lambda>(success_field, warnings).
            let cv = cv\<lparr>cv_warnings := warnings\<rparr>;
                go = (\<lambda>success.
                  let (started_at_run_us, finished_at_run_us) = sanitized_run_relative_offsets span
                  in if length (cv_stages cv) \<ge> max_stages limits
                     then Inr (cv\<lparr>cv_dropped_stages := saturating_add (cv_dropped_stages cv) 1\<rparr>)
                     else Inr (cv\<lparr>cv_source_spans := cv_source_spans cv @ [\<lparr>src_index = source_index, src_span = span\<rparr>],
                            cv_stages := cv_stages cv @
                              [\<lparr>pstg_source_index = source_index,
                                pstg_event =
                                  \<lparr>stg_request_id = request_id, stg_stage = stage,
                                   stg_started_at_unix_ms = sp_started_at_unix_ms span,
                                   stg_started_at_run_us = started_at_run_us,
                                   stg_finished_at_unix_ms = sp_finished_at_unix_ms span,
                                   stg_finished_at_run_us = finished_at_run_us,
                                   stg_latency_us = elapsed_duration_us span started_at_run_us finished_at_run_us,
                                   stg_success = success, stg_completed = True\<rparr>,
                                pstg_success_defaulted = (success_field = OfMissing)\<rparr>]\<rparr>))
            in case success_field of
                 OfMissing \<Rightarrow> go True
               | OfValue success \<Rightarrow> go success
               | OfInvalid \<Rightarrow> Inr cv)
        | _ \<Rightarrow> Inr cv))"

definition convert_queue :: "bool \<Rightarrow> CaptureLimits \<Rightarrow> nat \<Rightarrow> SpanRecord \<Rightarrow> conversion
    \<Rightarrow> ImportError + conversion" where
  "convert_queue strict limits source_index span cv =
     and_then (required_string span TT_REQUEST_ID strict (cv_warnings cv)) (\<lambda>(request_id, warnings).
     and_then (required_string span TT_QUEUE strict warnings) (\<lambda>(queue, warnings).
     let cv = cv\<lparr>cv_warnings := warnings\<rparr>
     in case (request_id, queue) of
          (Some request_id, Some queue) \<Rightarrow>
            and_then (parse_depth_at_start span strict warnings) (\<lambda>(depth_field, warnings).
            let cv = cv\<lparr>cv_warnings := warnings\<rparr>;
                go = (\<lambda>depth_at_start.
                  let (waited_from_run_us, waited_until_run_us) = sanitized_run_relative_offsets span
                  in if length (cv_queues cv) \<ge> max_queues limits
                     then Inr (cv\<lparr>cv_dropped_queues := saturating_add (cv_dropped_queues cv) 1\<rparr>)
                     else Inr (cv\<lparr>cv_source_spans := cv_source_spans cv @ [\<lparr>src_index = source_index, src_span = span\<rparr>],
                            cv_queues := cv_queues cv @
                              [\<lparr>pque_source_index = source_index,
                                pque_event =
                                  \<lparr>que_request_id = request_id, que_queue = queue,
                                   que_waited_from_unix_ms = sp_started_at_unix_ms span,
                                   que_waited_from_run_us = waited_from_run_us,
                                   que_waited_until_unix_ms = sp_finished_at_unix_ms span,
                                   que_waited_until_run_us = waited_until_run_us,
                                   que_wait_us = elapsed_duration_us span waited_from_run_us waited_until_run_us,
                                   que_depth_at_start = depth_at_start, que_completed = True\<rparr>\<rparr>]\<rparr>))
            in case depth_field of
                 OfMissing \<Rightarrow> go None
               | OfValue depth \<Rightarrow> go (Some depth)
               | OfInvalid \<Rightarrow> Inr cv)
        | _ \<Rightarrow> Inr cv))"

text \<open>One iteration of the loop.\<close>

definition convert_span :: "bool \<Rightarrow> CaptureLimits \<Rightarrow> nat \<Rightarrow> SpanRecord \<Rightarrow> conversion
    \<Rightarrow> ImportError + conversion" where
  "convert_span strict limits source_index span cv =
     (let skip = (\<lambda>message. and_then (strict_or_warn strict message (cv_warnings cv))
            (\<lambda>warnings. Inr (cv\<lparr>cv_warnings := warnings\<rparr>)))
      in case get_string_field_state span TT_KIND of
           SfMissing \<Rightarrow>
             if span_has_tailtriage_field span
             then skip (''missing required field '' @ in_span TT_KIND span)
             else Inr cv
         | SfInvalidType \<Rightarrow> skip (''invalid field '' @ in_span TT_KIND span @ '': expected string'')
         | SfValue kind \<Rightarrow>
             (case span_kind_parse kind of
                None \<Rightarrow> skip (''unknown tt.kind '' @ in_span kind span)
              | Some kind \<Rightarrow>
                  if sp_finished_at_unix_ms span < sp_started_at_unix_ms span
                  then skip (''skipped span '' @ squote @ sp_name span @ squote
                         @ '' due to inverted timestamps: start='' @ show_word (sp_started_at_unix_ms span)
                         @ '' finish='' @ show_word (sp_finished_at_unix_ms span))
                  else
                    (case kind of
                       SpanRequest \<Rightarrow> convert_request strict limits source_index span cv
                     | SpanStage \<Rightarrow> convert_stage strict limits source_index span cv
                     | SpanQueue \<Rightarrow> convert_queue strict limits source_index span cv)))"

fun convert_spans :: "bool \<Rightarrow> CaptureLimits \<Rightarrow> nat \<Rightarrow> (ImportError + SpanRecord) list \<Rightarrow> conversion
    \<Rightarrow> ImportError + conversion" where
  "convert_spans strict limits i [] cv = Inr cv"
| "convert_spans strict limits i (s # ss) cv =
     and_then s (\<lambda>span. and_then (convert_span strict limits i span cv)
       (convert_spans strict limits (Suc i) ss))"

end
