(* ===== verification/Tr_Import.thy ===== *)
theory Tr_Import
  imports Tr_Convert
begin

text \<open>
  From candidates to an imported run (\<^verbatim>\<open>tailtriage-tracing/src/lib.rs\<close>): the default-count
  warnings, the truncation summary, the candidate run, strict validation, permissive
  normalization, and the join of the normalizer's dispositions back to the source spans. The
  clock, read when no event is retained, is the arguments \<open>now\<close> (for the candidate) and \<open>later\<close>
  (for the normalized run). The two \<^verbatim>\<open>expect\<close> calls are the \<open>None\<close> of the results.
\<close>

section \<open>Provenance\<close>

record CandidateSource =
  cs_section :: RunSection
  cs_input_index :: nat
  cs_source_index :: nat

definition candidate_inputs :: "RunSection \<Rightarrow> nat list \<Rightarrow> CandidateSource list" where
  "candidate_inputs sect indices =
     map (\<lambda>(i, src). \<lparr>cs_section = sect, cs_input_index = i, cs_source_index = src\<rparr>) (enumerate 0 indices)"

definition from_candidates :: "ParsedRequestEvent list \<Rightarrow> ParsedStageEvent list \<Rightarrow> ParsedQueueEvent list
    \<Rightarrow> CandidateSource list" where
  "from_candidates requests stages queues =
     candidate_inputs Requests (map preq_source_index requests)
     @ candidate_inputs Stages (map pstg_source_index stages)
     @ candidate_inputs Queues (map pque_source_index queues)"

definition source_index_of :: "CandidateSource list \<Rightarrow> RunSection \<Rightarrow> nat \<Rightarrow> nat option" where
  "source_index_of inputs sect input_index =
     map_option cs_source_index (find (\<lambda>i. cs_section i = sect \<and> cs_input_index i = input_index) inputs)"

datatype SourceOutcomeKind =
    SourceRetained nat
  | SourceExcluded "RunValidationIssueCode list"

fun source_outcome_kind :: "RunEventDispositionKind \<Rightarrow> SourceOutcomeKind" where
  "source_outcome_kind (Retained output_index) = SourceRetained output_index"
| "source_outcome_kind (Excluded issue_codes) = SourceExcluded issue_codes"

record SourceOutcome =
  so_source_index :: nat
  so_section :: RunSection
  so_input_index :: nat
  so_outcome :: SourceOutcomeKind

definition source_outcome_sort_key :: "SourceOutcome \<Rightarrow> nat \<times> nat \<times> nat" where
  "source_outcome_sort_key outcome =
     (so_source_index outcome,
      (case so_section outcome of Requests \<Rightarrow> 0 | Stages \<Rightarrow> 1 | Queues \<Rightarrow> 2 | _ \<Rightarrow> 3),
      so_input_index outcome)"

definition is_candidate_section :: "RunSection \<Rightarrow> bool" where
  "is_candidate_section sect \<longleftrightarrow> sect \<in> {Requests, Stages, Queues}"

text \<open>All results of a list, or none.\<close>

fun all_some :: "('a \<Rightarrow> 'b option) \<Rightarrow> 'a list \<Rightarrow> 'b list option" where
  "all_some f [] = Some []"
| "all_some f (x # xs) = (case f x of None \<Rightarrow> None | Some y \<Rightarrow> map_option (Cons y) (all_some f xs))"

definition source_outcome :: "CandidateSource list \<Rightarrow> RunEventDisposition \<Rightarrow> SourceOutcome option" where
  "source_outcome inputs d =
     map_option (\<lambda>src. \<lparr>so_source_index = src, so_section = disp_section d,
         so_input_index = disp_input_index d, so_outcome = source_outcome_kind (disp_disposition d)\<rparr>)
       (source_index_of inputs (disp_section d) (disp_input_index d))"

definition from_normalized :: "CandidateSource list \<Rightarrow> NormalizedRun \<Rightarrow> SourceOutcome list option" where
  "from_normalized inputs normalized =
     map_option (sort_key source_outcome_sort_key)
       (all_some (source_outcome inputs)
          (filter (\<lambda>d. is_candidate_section (disp_section d)) (nr_dispositions normalized)))"

definition is_retained :: "SourceOutcomeKind \<Rightarrow> bool" where
  "is_retained k = (case k of SourceRetained _ \<Rightarrow> True | SourceExcluded _ \<Rightarrow> False)"

definition retained_sources :: "SourceOutcome list \<Rightarrow> SourceSpan list \<Rightarrow> SpanRecord list option" where
  "retained_sources outcomes source_spans =
     all_some (\<lambda>o'. map_option src_span (find (\<lambda>s. src_index s = so_source_index o') source_spans))
       (filter (\<lambda>o'. is_retained (so_outcome o')) outcomes)"

section \<open>The candidate run\<close>

definition min_max_step :: "(u64 \<times> u64) option \<Rightarrow> u64 \<times> u64 \<Rightarrow> (u64 \<times> u64) option" where
  "min_max_step acc = (\<lambda>(start, finish).
     Some (case acc of
        Some (min_start, max_finish) \<Rightarrow> (min min_start start, max max_finish finish)
      | None \<Rightarrow> (start, finish)))"

definition retained_event_time_bounds :: "RequestEvent list \<Rightarrow> StageEvent list \<Rightarrow> QueueEvent list
    \<Rightarrow> (u64 \<times> u64) option" where
  "retained_event_time_bounds requests stages queues =
     foldl min_max_step None
       (map (\<lambda>r. (req_started_at_unix_ms r, req_finished_at_unix_ms r)) requests
        @ map (\<lambda>s. (stg_started_at_unix_ms s, stg_finished_at_unix_ms s)) stages
        @ map (\<lambda>q. (que_waited_from_unix_ms q, que_waited_until_unix_ms q)) queues)"

definition tracing_import_id :: "u64 \<Rightarrow> u64 \<Rightarrow> string" where
  "tracing_import_id started_at_unix_ms finished_at_unix_ms =
     ''tracing-import-'' @ show_word started_at_unix_ms @ ''-'' @ show_word finished_at_unix_ms"

definition warn_count :: "nat \<Rightarrow> string \<Rightarrow> ImportWarning list \<Rightarrow> ImportWarning list" where
  "warn_count n what warnings =
     (if n > 0 then push_import_warning (ImportWarning (show_nat n @ what)) warnings else warnings)"

definition outcome_default_note :: string where
  "outcome_default_note = '' request span(s) missing optional '' @ squote @ TT_OUTCOME @ squote
     @ ''; assumed '' @ squote @ ''ok'' @ squote"

definition success_default_note :: string where
  "success_default_note = '' stage span(s) missing optional '' @ squote @ TT_SUCCESS @ squote @ ''; assumed true''"

definition default_warnings :: "CaptureLimits \<Rightarrow> conversion \<Rightarrow> ImportWarning list" where
  "default_warnings limits cv =
     warn_count (length (filter pstg_success_defaulted (take (max_stages limits) (cv_stages cv))))
       success_default_note
       (warn_count (length (filter preq_outcome_defaulted (take (max_requests limits) (cv_requests cv))))
          outcome_default_note (cv_warnings cv))"

definition conversion_truncation :: "conversion \<Rightarrow> TruncationSummary" where
  "conversion_truncation cv = truncation_default
     \<lparr>tr_dropped_requests := cv_dropped_requests cv, tr_dropped_stages := cv_dropped_stages cv,
      tr_dropped_queues := cv_dropped_queues cv,
      tr_limits_hit := cv_dropped_requests cv > 0 \<or> cv_dropped_stages cv > 0 \<or> cv_dropped_queues cv > 0\<rparr>"

definition candidate_run :: "u64 \<Rightarrow> ImportOptions \<Rightarrow> conversion \<Rightarrow> Run" where
  "candidate_run now options cv =
     (let requests = map preq_event (cv_requests cv);
          stages = map pstg_event (cv_stages cv);
          queues = map pque_event (cv_queues cv);
          (started_at_unix_ms, finished_at_unix_ms) =
            unwrap_or (retained_event_time_bounds requests stages queues) (now, now)
      in \<lparr>run_schema_version = SCHEMA_VERSION,
          run_metadata =
            \<lparr>md_run_id = unwrap_or (io_run_id options) (tracing_import_id started_at_unix_ms finished_at_unix_ms),
             md_service_name = io_service_name options, md_service_version = io_service_version options,
             md_started_at_unix_ms = started_at_unix_ms, md_finalized_at_unix_ms = Some finished_at_unix_ms,
             md_mode = io_mode options,
             md_effective_core_config = Some \<lparr>ecc_mode = io_mode options,
               ecc_capture_limits = resolved_capture_limits options, ecc_strict_lifecycle = False\<rparr>,
             md_effective_tokio_sampler_config = None, md_host = None, md_pid = None,
             md_lifecycle_warnings = [], md_unfinished_requests = unfinished_default,
             md_run_end_reason = None\<rparr>,
          run_requests = requests, run_stages = stages, run_queues = queues, run_inflight = [],
          run_runtime_snapshots = [], run_truncation = conversion_truncation cv\<rparr>)"

definition validation_error_display :: "RunValidationReport \<Rightarrow> string" where
  "validation_error_display report =
     ''strict run validation failed with ''
       @ show_nat (length (filter (\<lambda>i. iss_severity i = SevError) (rep_issues report))) @ '' error issue(s)''"

definition strict_core_error :: "RunValidationReport \<Rightarrow> ImportError" where
  "strict_core_error report =
     (let codes = remdups_adj (sort (map iss_code (filter (\<lambda>i. iss_severity i = SevError) (rep_issues report))))
      in StrictViolation (''core run validation failed with issue codes ['' @ join '', '' (map issue_code_as_str codes)
           @ '']: '' @ validation_error_display report))"

section \<open>The imported run\<close>

definition refresh_normalized_metadata_bounds :: "u64 \<Rightarrow> bool \<Rightarrow> Run \<Rightarrow> Run" where
  "refresh_normalized_metadata_bounds now explicit_run_id run =
     (let (started_at_unix_ms, finished_at_unix_ms) =
            unwrap_or (retained_event_time_bounds (run_requests run) (run_stages run) (run_queues run)) (now, now);
          md = (run_metadata run)\<lparr>md_started_at_unix_ms := started_at_unix_ms,
                 md_finalized_at_unix_ms := Some finished_at_unix_ms\<rparr>
      in run\<lparr>run_metadata :=
           (if explicit_run_id then md
            else md\<lparr>md_run_id := tracing_import_id started_at_unix_ms finished_at_unix_ms\<rparr>)\<rparr>)"

fun str_contains :: "string \<Rightarrow> string \<Rightarrow> bool" where
  "str_contains [] p = (p = [])"
| "str_contains (c # s) p = (starts_with (c # s) p \<or> str_contains s p)"

definition is_durable_conversion_warning :: "string \<Rightarrow> bool" where
  "is_durable_conversion_warning message \<longleftrightarrow>
     starts_with message ''skipped ''
     \<or> starts_with message ''missing required field''
     \<or> starts_with message ''invalid field''
     \<or> starts_with message ''unknown tt.kind''
     \<or> str_contains message (''missing optional '' @ squote @ ''tt.outcome'' @ squote @ ''; assumed ''
          @ squote @ ''ok'' @ squote)
     \<or> str_contains message (''missing optional '' @ squote @ ''tt.success'' @ squote @ ''; assumed true'')"

definition attach_durable_conversion_warnings :: "ImportWarning list \<Rightarrow> Run \<Rightarrow> Run" where
  "attach_durable_conversion_warnings warnings run =
     foldl (\<lambda>run w. if is_durable_conversion_warning (iw_message w) then add_new_warning run (iw_message w)
                    else run) run warnings"

definition push_new_import_warning :: "ImportWarning list \<Rightarrow> string \<Rightarrow> ImportWarning list" where
  "push_new_import_warning warnings w =
     (if list_ex (\<lambda>existing. iw_message existing = w) warnings then warnings
      else push_import_warning (ImportWarning w) warnings)"

record ProvenanceImportedRun =
  pir_imported :: ImportedRun
  pir_normalized :: NormalizedRun
  pir_candidate_provenance :: "CandidateSource list"
  pir_source_outcomes :: "SourceOutcome list"
  pir_retained_sources :: "SpanRecord list"

definition assemble_import :: "u64 \<Rightarrow> ImportOptions \<Rightarrow> conversion \<Rightarrow> Run \<Rightarrow> ProvenanceImportedRun option" where
  "assemble_import later options cv candidate =
     (let warnings = default_warnings (resolved_capture_limits options) cv;
          provenance = from_candidates (cv_requests cv) (cv_stages cv) (cv_queues cv);
          normalized = normalize_run_permissive candidate
      in case from_normalized provenance normalized of
           None \<Rightarrow> None
         | Some outcomes \<Rightarrow>
             (case retained_sources outcomes (cv_source_spans cv) of
                None \<Rightarrow> None
              | Some sources \<Rightarrow>
                  (let run = refresh_normalized_metadata_bounds later (io_run_id options \<noteq> None) (nr_run normalized);
                       warnings = foldl push_new_import_warning warnings (summarize_run_validation normalized);
                       run = attach_durable_conversion_warnings warnings run;
                       run = foldl add_new_warning run (summarize_run_validation_lifecycle normalized)
                   in Some \<lparr>pir_imported = with_retained_sources run warnings sources,
                           pir_normalized = normalized, pir_candidate_provenance = provenance,
                           pir_source_outcomes = outcomes, pir_retained_sources = sources\<rparr>)))"

definition convert_span_record_results_with_provenance ::
    "u64 \<Rightarrow> u64 \<Rightarrow> (ImportError + SpanRecord) list \<Rightarrow> ImportOptions
      \<Rightarrow> (ImportError + ProvenanceImportedRun) option" where
  "convert_span_record_results_with_provenance now later spans options =
     (if is_blank (io_service_name options) then Some (Inl IeEmptyServiceName)
      else case convert_spans (io_strict options) (resolved_capture_limits options) 0 spans conversion_start of
             Inl e \<Rightarrow> Some (Inl e)
           | Inr cv \<Rightarrow>
               (let candidate = candidate_run now options cv
                in case (if io_strict options then validate_run_strict candidate else Inr ()) of
                     Inl report \<Rightarrow> Some (Inl (strict_core_error report))
                   | Inr _ \<Rightarrow> map_option Inr (assemble_import later options cv candidate)))"

definition run_from_span_record_results :: "u64 \<Rightarrow> u64 \<Rightarrow> (ImportError + SpanRecord) list \<Rightarrow> ImportOptions
    \<Rightarrow> (ImportError + ImportedRun) option" where
  "run_from_span_record_results now later spans options =
     map_option (map_sum id pir_imported) (convert_span_record_results_with_provenance now later spans options)"

definition run_from_span_records :: "u64 \<Rightarrow> u64 \<Rightarrow> SpanRecord list \<Rightarrow> ImportOptions
    \<Rightarrow> (ImportError + ImportedRun) option" where
  "run_from_span_records now later spans options =
     map_option (map_sum id pir_imported)
       (convert_span_record_results_with_provenance now later (map Inr spans) options)"

section \<open>Persistable runs\<close>

definition persistable_zero_request_guidance :: string where
  "persistable_zero_request_guidance =
     ''tracing import produced zero request events; persisted Run JSON artifacts intended for tailtriage analyze ''
     @ ''require at least one completed tt.kind='' @ [CHR 0x22] @ ''request'' @ [CHR 0x22]
     @ '' span with tt.request_id, tt.route, and explicit unix-ms timing fields ''
     @ ''(started_at_unix_ms/finished_at_unix_ms).''"

definition ensure_persistable_run_has_requests :: "Run \<Rightarrow> ImportError + unit" where
  "ensure_persistable_run_has_requests run =
     (if run_requests run = [] then Inl (ZeroRequestArtifact persistable_zero_request_guidance) else Inr ())"

definition ensure_persistable_run_with_warnings :: "Run \<Rightarrow> ImportWarning list \<Rightarrow> ImportError + unit" where
  "ensure_persistable_run_with_warnings run warnings =
     (if run_requests run = [] then
        (if map iw_message warnings = [] then Inl (ZeroRequestArtifact persistable_zero_request_guidance)
         else Inl (ZeroRequestArtifactWithWarnings persistable_zero_request_guidance (map iw_message warnings)))
      else ensure_persistable_run_has_requests run)"

end
