(* ===== verification/Tr_Value.thy ===== *)
theory Tr_Value
  imports Tr_Model
begin

text \<open>
  The JSON shape of a completed span: what the derived serializers of \<open>SpanRecord\<close>, the untagged
  \<open>FieldValue\<close> (\<^verbatim>\<open>types.rs\<close>) and the record wrapper (\<^verbatim>\<open>recorder.rs\<close>) produce, and what the derived
  decoders accept. Only the text of a JSON value is left to \<^verbatim>\<open>serde_json\<close>. The lemmas state what
  a span is after its shape was decoded again.
\<close>

section \<open>JSON values\<close>

text \<open>A number is an unsigned integer, a negative integer or a float, as \<^verbatim>\<open>serde_json\<close> keeps it.\<close>

datatype Number = PosInt u64 | NegInt i64 | Float f64

datatype Value =
    JNull
  | JBool bool
  | JNumber Number
  | JString string
  | JArray "Value list"
  | JObject "(string \<times> Value) list"

text \<open>Decoded objects are ordered maps: members in key order, the last of a repeated key.\<close>

definition key_ordered :: "(string \<times> Value) list \<Rightarrow> (string, Value) btree" where
  "key_ordered members = fold (\<lambda>(k, v). bt_insert k v) members []"

fun in_key_order :: "Value \<Rightarrow> Value" where
  "in_key_order (JArray vs) = JArray (map in_key_order vs)"
| "in_key_order (JObject members) = JObject (key_ordered (map (\<lambda>(k, v). (k, in_key_order v)) members))"
| "in_key_order v = v"

lemma bt_insert_last: "bt_wf (m @ [(k, v)]) \<Longrightarrow> bt_insert k v m = m @ [(k, v)]"
proof (induction m)
  case (Cons kv m)
  then have "fst kv < k" "bt_wf (m @ [(k, v)])" by (auto simp: bt_wf_def)
  with Cons.IH show ?case by (cases kv) (auto simp: bt_insert_def)
qed (simp add: bt_insert_def)

lemma bt_wf_append1: "bt_wf (m @ x # ms) \<Longrightarrow> bt_wf (m @ [x])"
  by (auto simp: bt_wf_def sorted_wrt_append)

lemma key_ordered_wf: "bt_wf members \<Longrightarrow> key_ordered members = members"
proof -
  have "bt_wf (m @ ms) \<Longrightarrow> fold (\<lambda>(k, v). bt_insert k v) ms m = m @ ms" for m ms :: "(string \<times> Value) list"
  proof (induction ms arbitrary: m)
    case (Cons kv ms)
    from bt_insert_last [of m "fst kv" "snd kv"] bt_wf_append1 [OF Cons.prems]
    have "bt_insert (fst kv) (snd kv) m = m @ [kv]" by simp
    with Cons.IH [of "m @ [kv]"] Cons.prems show ?case by (simp add: case_prod_unfold)
  qed simp
  from this [of "[]"] show "bt_wf members \<Longrightarrow> key_ordered members = members" by (simp add: key_ordered_def)
qed

lemma map_of_key_ordered:
  assumes "distinct (map fst members)"
  shows "map_of (key_ordered members) = map_of members"
proof -
  have "bt_wf m \<Longrightarrow> distinct (map fst ms) \<Longrightarrow>
      bt_lookup (fold (\<lambda>(k, v). bt_insert k v) ms m) = bt_lookup m ++ map_of ms" for m ms :: "(string \<times> Value) list"
  proof (induction ms arbitrary: m)
    case (Cons kv ms)
    obtain k v where kv: "kv = (k, v)" by (cases kv)
    have "k \<notin> dom (map_of ms)" using Cons.prems(2) kv by (simp add: dom_map_of_conv_image_fst)
    then have "(bt_lookup m)(k \<mapsto> v) ++ map_of ms = bt_lookup m ++ map_of (kv # ms)"
      by (auto simp: kv map_add_upd_left)
    moreover have "bt_wf (bt_insert k v m)" "bt_lookup (bt_insert k v m) = (bt_lookup m)(k \<mapsto> v)"
      using Cons.prems(1) by (simp_all only: bt_insert_def bt_wf_entry bt_lookup_entry)
    moreover have "distinct (map fst ms)" using Cons.prems(2) by simp
    ultimately show ?case using Cons.IH [of "bt_insert k v m"] by (simp only: kv fold_simps o_apply prod.case)
  qed simp
  from this [of "[]" members] assms show ?thesis by (simp add: key_ordered_def bt_lookup_def)
qed

section \<open>Field values\<close>

text \<open>The display of a float that is not finite is one of three; JSON has no number for them.\<close>

definition f64_is_finite :: "f64 \<Rightarrow> bool" where
  "f64_is_finite v \<longleftrightarrow> v \<notin> {''NaN'', ''inf'', ''-inf''}"

fun field_value_to_value :: "FieldValue \<Rightarrow> Value" where
  "field_value_to_value (FvString v) = JString v"
| "field_value_to_value (FvBool v) = JBool v"
| "field_value_to_value (FvU64 v) = JNumber (PosInt v)"
| "field_value_to_value (FvI64 v) = JNumber (if 0 \<le> sint v then PosInt v else NegInt v)"
| "field_value_to_value (FvF64 v) = (if f64_is_finite v then JNumber (Float v) else JNull)"
| "field_value_to_value FvNull = JNull"

fun string_from_value :: "Value \<Rightarrow> string option" where
  "string_from_value (JString v) = Some v"
| "string_from_value _ = None"

fun bool_from_value :: "Value \<Rightarrow> bool option" where
  "bool_from_value (JBool v) = Some v"
| "bool_from_value _ = None"

fun u64_from_value :: "Value \<Rightarrow> u64 option" where
  "u64_from_value (JNumber (PosInt v)) = Some v"
| "u64_from_value (JNumber (NegInt v)) = (if 0 \<le> sint v then Some v else None)"
| "u64_from_value _ = None"

fun i64_from_value :: "Value \<Rightarrow> i64 option" where
  "i64_from_value (JNumber (PosInt v)) = (if 0 \<le> sint v then Some v else None)"
| "i64_from_value (JNumber (NegInt v)) = Some v"
| "i64_from_value _ = None"

text \<open>Integers convert to floats as well, but the untagged decoder has taken them before.\<close>

fun f64_from_value :: "Value \<Rightarrow> f64 option" where
  "f64_from_value (JNumber (Float v)) = Some v"
| "f64_from_value _ = None"

text \<open>An untagged value is the first variant, in declaration order, that accepts the JSON value.\<close>

definition field_value_from_value :: "Value \<Rightarrow> FieldValue option" where
  "field_value_from_value v =
     (case string_from_value v of Some s \<Rightarrow> Some (FvString s) | None \<Rightarrow>
     (case bool_from_value v of Some b \<Rightarrow> Some (FvBool b) | None \<Rightarrow>
     (case u64_from_value v of Some n \<Rightarrow> Some (FvU64 n) | None \<Rightarrow>
     (case i64_from_value v of Some n \<Rightarrow> Some (FvI64 n) | None \<Rightarrow>
     (case f64_from_value v of Some x \<Rightarrow> Some (FvF64 x) | None \<Rightarrow>
        if v = JNull then Some FvNull else None)))))"

text \<open>
  What a field value is after a JSON round trip: a signed integer that is not negative comes back
  unsigned, and a float that is not finite as null.
\<close>

fun replayed_value :: "FieldValue \<Rightarrow> FieldValue" where
  "replayed_value (FvI64 v) = (if 0 \<le> sint v then FvU64 v else FvI64 v)"
| "replayed_value (FvF64 v) = (if f64_is_finite v then FvF64 v else FvNull)"
| "replayed_value v = v"

lemma field_value_replays: "field_value_from_value (field_value_to_value v) = Some (replayed_value v)"
  by (cases v) (simp_all add: field_value_from_value_def)

lemma field_value_in_key_order [simp]: "in_key_order (field_value_to_value v) = field_value_to_value v"
  by (cases v) simp_all

section \<open>Spans\<close>

definition nullable :: "('a \<Rightarrow> Value) \<Rightarrow> 'a option \<Rightarrow> Value" where
  "nullable f v = (case v of None \<Rightarrow> JNull | Some x \<Rightarrow> f x)"

text \<open>\<^verbatim>\<open>skip_serializing_if = "Option::is_none"\<close>.\<close>

definition unless_none :: "string \<Rightarrow> u64 option \<Rightarrow> (string \<times> Value) list" where
  "unless_none key v = (case v of None \<Rightarrow> [] | Some n \<Rightarrow> [(key, JNumber (PosInt n))])"

definition fields_to_value :: "span_fields \<Rightarrow> Value" where
  "fields_to_value fs = JObject (map (\<lambda>(k, v). (k, field_value_to_value v)) fs)"

text \<open>The members in the order the derived serializer writes them.\<close>

definition span_members :: "SpanRecord \<Rightarrow> (string \<times> Value) list" where
  "span_members span =
     [(''id'', nullable JString (sp_id span)),
       (''parent_id'', nullable JString (sp_parent_id span)),
       (''name'', JString (sp_name span)),
       (''fields'', fields_to_value (sp_fields span)),
       (''started_at_unix_ms'', JNumber (PosInt (sp_started_at_unix_ms span)))]
     @ unless_none ''started_at_run_us'' (sp_started_at_run_us span)
     @ [(''finished_at_unix_ms'', JNumber (PosInt (sp_finished_at_unix_ms span)))]
     @ unless_none ''finished_at_run_us'' (sp_finished_at_run_us span)
     @ unless_none ''duration_us'' (sp_duration_us span)"

definition span_to_value :: "SpanRecord \<Rightarrow> Value" where
  "span_to_value span = JObject (span_members span)"

text \<open>The record of a span in the completed-span file, with the marker the writer puts there.\<close>

definition completed_span_jsonl_record :: "SpanRecord \<Rightarrow> Value" where
  "completed_span_jsonl_record span =
     JObject [(''format'', JString ''tailtriage.tracing-span.v1''), (''span'', span_to_value span)]"

definition required_member :: "(Value \<Rightarrow> 'a option) \<Rightarrow> (string \<times> Value) list \<Rightarrow> string \<Rightarrow> 'a option" where
  "required_member read obj key = Option.bind (map_of obj key) read"

text \<open>An optional member may be absent or null.\<close>

definition optional_member :: "(Value \<Rightarrow> 'a option) \<Rightarrow> (string \<times> Value) list \<Rightarrow> string \<Rightarrow> 'a option option" where
  "optional_member read obj key =
     (case map_of obj key of
        None \<Rightarrow> Some None
      | Some v \<Rightarrow> if v = JNull then Some None else map_option Some (read v))"

fun read_fields :: "span_fields \<Rightarrow> (string \<times> Value) list \<Rightarrow> span_fields option" where
  "read_fields fs [] = Some fs"
| "read_fields fs ((key, v) # members) =
     Option.bind (field_value_from_value v) (\<lambda>fv. read_fields (bt_insert key fv fs) members)"

fun fields_from_value :: "Value \<Rightarrow> span_fields option" where
  "fields_from_value (JObject members) = read_fields [] members"
| "fields_from_value _ = None"

text \<open>Unknown members are ignored; that the value is an object was checked before.\<close>

fun span_from_value :: "Value \<Rightarrow> SpanRecord option" where
  "span_from_value (JObject obj) =
     Option.bind (optional_member string_from_value obj ''id'') (\<lambda>i.
     Option.bind (optional_member string_from_value obj ''parent_id'') (\<lambda>parent_id.
     Option.bind (required_member string_from_value obj ''name'') (\<lambda>name.
     Option.bind (required_member fields_from_value obj ''fields'') (\<lambda>fs.
     Option.bind (required_member u64_from_value obj ''started_at_unix_ms'') (\<lambda>started_at_unix_ms.
     Option.bind (optional_member u64_from_value obj ''started_at_run_us'') (\<lambda>started_at_run_us.
     Option.bind (required_member u64_from_value obj ''finished_at_unix_ms'') (\<lambda>finished_at_unix_ms.
     Option.bind (optional_member u64_from_value obj ''finished_at_run_us'') (\<lambda>finished_at_run_us.
     Option.bind (optional_member u64_from_value obj ''duration_us'') (\<lambda>duration_us.
       Some \<lparr>sp_id = i, sp_parent_id = parent_id, sp_name = name, sp_fields = fs,
         sp_started_at_unix_ms = started_at_unix_ms, sp_started_at_run_us = started_at_run_us,
         sp_finished_at_unix_ms = finished_at_unix_ms, sp_finished_at_run_us = finished_at_run_us,
         sp_duration_us = duration_us\<rparr>)))))))))"
| "span_from_value _ = None"

text \<open>The decoder with the text of its error, which \<^verbatim>\<open>serde\<close> words.\<close>

definition deserialize_span :: "(Value \<Rightarrow> string) \<Rightarrow> Value \<Rightarrow> string + SpanRecord" where
  "deserialize_span fault v = (case span_from_value v of Some span \<Rightarrow> Inr span | None \<Rightarrow> Inl (fault v))"

section \<open>The round trip of the shape\<close>

definition replayed_span :: "SpanRecord \<Rightarrow> SpanRecord" where
  "replayed_span span = span\<lparr>sp_fields := map (\<lambda>(k, v). (k, replayed_value v)) (sp_fields span)\<rparr>"

lemma read_fields_replays:
  "bt_wf (map (\<lambda>(k, v). (k, replayed_value v)) (fs @ fs2)) \<Longrightarrow>
   read_fields (map (\<lambda>(k, v). (k, replayed_value v)) fs) (map (\<lambda>(k, v). (k, field_value_to_value v)) fs2)
     = Some (map (\<lambda>(k, v). (k, replayed_value v)) (fs @ fs2))"
proof (induction fs2 arbitrary: fs)
  case (Cons kv fs2)
  obtain k v where kv: "kv = (k, v)" by (cases kv)
  let ?m = "map (\<lambda>(k, v). (k, replayed_value v)) fs"
  have "bt_wf (?m @ [(k, replayed_value v)])"
    using bt_wf_append1 [of ?m "(k, replayed_value v)"] Cons.prems by (simp add: kv)
  then have "bt_insert k (replayed_value v) ?m = map (\<lambda>(k, v). (k, replayed_value v)) (fs @ [kv])"
    by (simp add: bt_insert_last kv)
  with Cons.IH [of "fs @ [kv]"] Cons.prems show ?case by (simp add: kv field_value_replays)
qed simp

lemma fields_replay:
  assumes "bt_wf fs"
  shows "in_key_order (fields_to_value fs) = fields_to_value fs"
    and "fields_from_value (fields_to_value fs) = Some (map (\<lambda>(k, v). (k, replayed_value v)) fs)"
proof -
  have keys: "map fst (map (\<lambda>(k, v). (k, g v)) fs) = map fst fs" for g :: "FieldValue \<Rightarrow> 'b"
    by (induction fs) auto
  have "bt_wf (map (\<lambda>(k, v). (k, field_value_to_value v)) fs)"
    using assms keys unfolding bt_wf_def by metis
  then show "in_key_order (fields_to_value fs) = fields_to_value fs"
    by (simp add: fields_to_value_def case_prod_unfold o_def key_ordered_wf)
  have "bt_wf (map (\<lambda>(k, v). (k, replayed_value v)) fs)"
    using assms keys unfolding bt_wf_def by metis
  with read_fields_replays [of "[]" fs]
  show "fields_from_value (fields_to_value fs) = Some (map (\<lambda>(k, v). (k, replayed_value v)) fs)"
    by (simp add: fields_to_value_def)
qed

text \<open>The members of a written span, in key order, read back as the span.\<close>

lemma nullable_in_key_order [simp]: "in_key_order (nullable JString v) = nullable JString v"
  by (simp add: nullable_def split: option.split)

lemma map_of_unless_none [simp]:
  "map_of (unless_none key v) q = (if q = key then map_option (\<lambda>n. JNumber (PosInt n)) v else None)"
  by (simp add: unless_none_def split: option.split)

lemma map_of_then: "map_of (xs @ ys) q = (case map_of xs q of Some v \<Rightarrow> Some v | None \<Rightarrow> map_of ys q)"
  by (induction xs) auto

lemma unless_none_keys: "map fst (unless_none key v) = (if v = None then [] else [key])"
  by (simp add: unless_none_def split: option.split)

lemma unless_none_in_key_order: "map (\<lambda>(k, v). (k, in_key_order v)) (unless_none key v) = unless_none key v"
  by (simp add: unless_none_def split: option.split)

lemma span_members_distinct: "distinct (map fst (span_members span))"
  by (simp add: span_members_def unless_none_keys)

lemma span_members_in_key_order:
  "bt_wf (sp_fields span) \<Longrightarrow> map (\<lambda>(k, v). (k, in_key_order v)) (span_members span) = span_members span"
  by (simp add: span_members_def unless_none_in_key_order fields_replay)

lemma span_members_lookup:
  "map_of (span_members span) ''id'' = Some (nullable JString (sp_id span))"
  "map_of (span_members span) ''parent_id'' = Some (nullable JString (sp_parent_id span))"
  "map_of (span_members span) ''name'' = Some (JString (sp_name span))"
  "map_of (span_members span) ''fields'' = Some (fields_to_value (sp_fields span))"
  "map_of (span_members span) ''started_at_unix_ms'' = Some (JNumber (PosInt (sp_started_at_unix_ms span)))"
  "map_of (span_members span) ''started_at_run_us'' = map_option (\<lambda>n. JNumber (PosInt n)) (sp_started_at_run_us span)"
  "map_of (span_members span) ''finished_at_unix_ms'' = Some (JNumber (PosInt (sp_finished_at_unix_ms span)))"
  "map_of (span_members span) ''finished_at_run_us'' = map_option (\<lambda>n. JNumber (PosInt n)) (sp_finished_at_run_us span)"
  "map_of (span_members span) ''duration_us'' = map_option (\<lambda>n. JNumber (PosInt n)) (sp_duration_us span)"
  "map_of (span_members span) ''start_unix_ms'' = None" "map_of (span_members span) ''end_unix_ms'' = None"
  by (simp_all add: span_members_def map_of_then del: map_of_append split: option.split)

lemma optional_string: "map_of obj key = Some (nullable JString v) \<Longrightarrow> optional_member string_from_value obj key = Some v"
  by (simp add: optional_member_def nullable_def split: option.split)

lemma optional_u64:
  "map_of obj key = map_option (\<lambda>n. JNumber (PosInt n)) v \<Longrightarrow> optional_member u64_from_value obj key = Some v"
  by (cases v) (simp_all add: optional_member_def)

lemma span_replays:
  assumes "bt_wf (sp_fields span)"
  obtains obj where "in_key_order (span_to_value span) = JObject obj"
    and "span_from_value (JObject obj) = Some (replayed_span span)"
    and "map_of obj ''start_unix_ms'' = None" and "map_of obj ''end_unix_ms'' = None"
proof -
  let ?obj = "key_ordered (span_members span)"
  note look = map_of_key_ordered [OF span_members_distinct [of span]]
  have "span_from_value (JObject ?obj) = Some (replayed_span span)"
    by (simp add: optional_string optional_u64 required_member_def look span_members_lookup
        fields_replay(2) [OF assms] replayed_span_def)
  moreover have "in_key_order (span_to_value span) = JObject ?obj"
    by (simp add: span_to_value_def span_members_in_key_order [OF assms])
  ultimately show thesis using that [of ?obj] by (simp add: look span_members_lookup)
qed

text \<open>The wrapper is in key order already.\<close>

lemma record_in_key_order:
  "in_key_order (completed_span_jsonl_record span) =
     JObject [(''format'', JString ''tailtriage.tracing-span.v1''), (''span'', in_key_order (span_to_value span))]"
proof -
  have "bt_wf [(''format'', v), (''span'', v')]" for v v' :: Value
    by (simp add: bt_wf_def)
  from key_ordered_wf [OF this] show ?thesis by (simp add: completed_span_jsonl_record_def)
qed

end
