(* ===== verification/Tr_Files.thy ===== *)
theory Tr_Files
  imports Tr_Import Tr_Value Core_Sink
begin

text \<open>
  Writing completed-span files (\<^verbatim>\<open>tailtriage-tracing/src/recorder.rs\<close>): the writer that bounds a
  record, the exclusive temporary file, and the replacement of the target. The chunks of text in
  which \<^verbatim>\<open>serde_json\<close> hands a JSON value to the writer are a parameter (\<open>pieces\<close>); the value of a
  record is \<open>completed_span_jsonl_record\<close>. What the operating system
  answers to each call is an input, so short writes, interruptions and failures are branches.
\<close>

section \<open>Writers\<close>

datatype io_error = IoInterrupted | IoOther string

datatype write_answer = Accepts nat | Interrupts | Refuses string

text \<open>An open file: what was written, and the answers to the coming writes; then all is accepted.\<close>

record out_file =
  of_written :: string
  of_answers :: "write_answer list"

definition file_write :: "string \<Rightarrow> out_file \<Rightarrow> (io_error + nat) \<times> out_file" where
  "file_write bytes file =
     (case of_answers file of
        [] \<Rightarrow> (Inr (length bytes), file\<lparr>of_written := of_written file @ bytes\<rparr>)
      | Accepts n # answers \<Rightarrow>
          (Inr (min n (length bytes)),
           file\<lparr>of_written := of_written file @ take n bytes, of_answers := answers\<rparr>)
      | Interrupts # answers \<Rightarrow> (Inl IoInterrupted, file\<lparr>of_answers := answers\<rparr>)
      | Refuses reason # answers \<Rightarrow> (Inl (IoOther reason), file\<lparr>of_answers := answers\<rparr>))"

record RecordLimitedWriter =
  rlw_inner :: out_file
  rlw_written :: nat
  rlw_limit :: nat
  rlw_exceeded :: bool

definition limited_write :: "string \<Rightarrow> RecordLimitedWriter \<Rightarrow> (io_error + nat) \<times> RecordLimitedWriter" where
  "limited_write bytes self =
     (if length bytes > rlw_limit self - rlw_written self
      then (Inl (IoOther ''JSONL record byte limit exceeded''), self\<lparr>rlw_exceeded := True\<rparr>)
      else case file_write bytes (rlw_inner self) of
             (Inl e, inner) \<Rightarrow> (Inl e, self\<lparr>rlw_inner := inner\<rparr>)
           | (Inr n, inner) \<Rightarrow> (Inr n, self\<lparr>rlw_inner := inner, rlw_written := rlw_written self + n\<rparr>))"

text \<open>The implementations of the \<^verbatim>\<open>Write\<close> trait, and its provided method \<^verbatim>\<open>write_all\<close>.\<close>

datatype writer = FileWriter (written_file: out_file) | LimitedWriter RecordLimitedWriter

fun writer_write :: "string \<Rightarrow> writer \<Rightarrow> (io_error + nat) \<times> writer" where
  "writer_write bytes (FileWriter file) = apsnd FileWriter (file_write bytes file)"
| "writer_write bytes (LimitedWriter w) = apsnd LimitedWriter (limited_write bytes w)"

fun inner_file :: "writer \<Rightarrow> out_file" where
  "inner_file (FileWriter file) = file"
| "inner_file (LimitedWriter w) = rlw_inner w"

lemma writer_write_Inl:
  assumes "writer_write bytes w = (Inl e, w')"
  shows "of_written (inner_file w') = of_written (inner_file w)"
    "e = IoInterrupted \<Longrightarrow> length (of_answers (inner_file w')) < length (of_answers (inner_file w))"
  using assms
  by (cases w; auto simp: file_write_def limited_write_def apsnd_def map_prod_def
      split: prod.splits sum.splits list.splits write_answer.splits if_splits)+

lemma file_write_Inr:
  assumes "file_write bytes f = (Inr n, f')"
  shows "n \<le> length bytes \<and> of_written f' = of_written f @ take n bytes \<and>
     (length (of_answers f') < length (of_answers f) \<or> n = length bytes \<and> of_answers f' = of_answers f)"
  using assms by (auto simp: file_write_def min_def split: list.splits write_answer.splits if_splits)

lemma writer_write_Inr:
  assumes "writer_write bytes w = (Inr n, w')"
  shows "n \<le> length bytes \<and> of_written (inner_file w') = of_written (inner_file w) @ take n bytes \<and>
     (length (of_answers (inner_file w')) < length (of_answers (inner_file w))
      \<or> n = length bytes \<and> of_answers (inner_file w') = of_answers (inner_file w))"
  using assms file_write_Inr [of bytes]
  by (cases w) (fastforce simp: limited_write_def apsnd_def map_prod_def split: prod.splits sum.splits if_splits)+

function write_all :: "string \<Rightarrow> writer \<Rightarrow> (string + unit) \<times> writer" where
  "write_all bytes w =
     (if bytes = [] then (Inr (), w)
      else case writer_write bytes w of
        (Inl IoInterrupted, w) \<Rightarrow> write_all bytes w
      | (Inl (IoOther reason), w) \<Rightarrow> (Inl reason, w)
      | (Inr n, w) \<Rightarrow> if n = 0 then (Inl ''failed to write whole buffer'', w) else write_all (drop n bytes) w)"
  by auto

termination
proof (relation "measure (\<lambda>(bytes, w). length bytes + length (of_answers (inner_file w)))", goal_cases)
  case (2 bytes w a w' e)
  then show ?case using writer_write_Inl(2) [of bytes w e w'] by simp
next
  case (3 bytes w a w' n)
  then show ?case using writer_write_Inr [of bytes w n w'] by auto
qed simp

declare write_all.simps [simp del]

fun to_writer :: "string list \<Rightarrow> writer \<Rightarrow> (string + unit) \<times> writer" where
  "to_writer [] w = (Inr (), w)"
| "to_writer (piece # pieces) w =
     (case write_all piece w of
        (Inl reason, w) \<Rightarrow> (Inl reason, w)
      | (Inr _, w) \<Rightarrow> to_writer pieces w)"

section \<open>What a writer lets through\<close>

fun advances :: "string \<Rightarrow> writer \<Rightarrow> writer \<Rightarrow> bool" where
  "advances p (FileWriter f) (FileWriter f') \<longleftrightarrow> of_written f' = of_written f @ p"
| "advances p (LimitedWriter a) (LimitedWriter b) \<longleftrightarrow>
     of_written (rlw_inner b) = of_written (rlw_inner a) @ p \<and> rlw_limit b = rlw_limit a \<and>
     rlw_written b = rlw_written a + length p \<and> (p \<noteq> [] \<longrightarrow> rlw_written b \<le> rlw_limit a)"
| "advances p _ _ \<longleftrightarrow> False"

fun exceeded :: "writer \<Rightarrow> bool" where
  "exceeded (FileWriter f) = False"
| "exceeded (LimitedWriter w) = rlw_exceeded w"

fun overflows :: "writer \<Rightarrow> nat \<Rightarrow> bool" where
  "overflows (FileWriter f) n = False"
| "overflows (LimitedWriter w) n = (rlw_limit w < rlw_written w + n)"

lemma advances_refl: "advances [] w w"
  by (cases w) simp_all

lemma advances_trans: "advances p w w' \<Longrightarrow> advances q w' w'' \<Longrightarrow> advances (p @ q) w w''"
  by (cases w; cases w'; cases w'') auto

lemma overflows_advance: "advances p w w' \<Longrightarrow> overflows w' n \<Longrightarrow> overflows w (length p + n)"
  by (cases w; cases w') auto

lemma limited_write_cases:
  obtains (refused) "length bytes > rlw_limit self - rlw_written self"
      "limited_write bytes self
         = (Inl (IoOther ''JSONL record byte limit exceeded''), self\<lparr>rlw_exceeded := True\<rparr>)"
  | (failed) e inner where "file_write bytes (rlw_inner self) = (Inl e, inner)"
      "limited_write bytes self = (Inl e, self\<lparr>rlw_inner := inner\<rparr>)"
  | (wrote) n inner where "length bytes \<le> rlw_limit self - rlw_written self"
      "file_write bytes (rlw_inner self) = (Inr n, inner)"
      "limited_write bytes self = (Inr n, self\<lparr>rlw_inner := inner, rlw_written := rlw_written self + n\<rparr>)"
proof -
  obtain a inner where f: "file_write bytes (rlw_inner self) = (a, inner)" by (rule prod.exhaust)
  show ?thesis
  proof (cases "length bytes > rlw_limit self - rlw_written self")
    case True
    then show ?thesis by (intro refused) (simp_all add: limited_write_def)
  next
    case False
    show ?thesis
    proof (cases a)
      case (Inl e)
      with f False show ?thesis by (intro failed [of e inner]) (simp_all add: limited_write_def)
    next
      case (Inr n)
      with f False show ?thesis by (intro wrote [of n inner]) (simp_all add: limited_write_def)
    qed
  qed
qed

lemma file_write_Inl: "file_write bytes f = (Inl e, f') \<Longrightarrow> of_written f' = of_written f"
  by (auto simp: file_write_def split: list.splits write_answer.splits)

lemma writer_write_advances:
  "writer_write bytes w = (Inr n, w') \<Longrightarrow> n \<le> length bytes \<and> advances (take n bytes) w w' \<and> (exceeded w' \<longleftrightarrow> exceeded w)"
  "writer_write bytes w = (Inl e, w') \<Longrightarrow> advances [] w w' \<and> (exceeded w' \<longrightarrow> exceeded w \<or> overflows w (length bytes)) \<and>
     (e = IoInterrupted \<longrightarrow> (exceeded w' \<longleftrightarrow> exceeded w))"
proof -
  assume a: "writer_write bytes w = (Inr n, w')"
  show "n \<le> length bytes \<and> advances (take n bytes) w w' \<and> (exceeded w' \<longleftrightarrow> exceeded w)"
  proof (cases w)
    case (FileWriter f)
    obtain x f' where f: "file_write bytes f = (x, f')" by (rule prod.exhaust)
    with a FileWriter have "x = Inr n" "w' = FileWriter f'" by simp_all
    with file_write_Inr [of bytes f n f'] f FileWriter show ?thesis by simp
  next
    case (LimitedWriter s)
    show ?thesis
    proof (cases rule: limited_write_cases [of s bytes])
      case (wrote n' inner)
      from wrote(1) have "bytes \<noteq> [] \<Longrightarrow> rlw_written s + length bytes \<le> rlw_limit s" by (cases bytes) auto
      with a LimitedWriter wrote(3) file_write_Inr [OF wrote(2)] show ?thesis by fastforce
    qed (use a LimitedWriter in auto)
  qed
next
  assume a: "writer_write bytes w = (Inl e, w')"
  show "advances [] w w' \<and> (exceeded w' \<longrightarrow> exceeded w \<or> overflows w (length bytes)) \<and>
     (e = IoInterrupted \<longrightarrow> (exceeded w' \<longleftrightarrow> exceeded w))"
  proof (cases w)
    case (FileWriter f)
    obtain x f' where f: "file_write bytes f = (x, f')" by (rule prod.exhaust)
    with a FileWriter have "x = Inl e" "w' = FileWriter f'" by simp_all
    with file_write_Inl [of bytes f e f'] f FileWriter show ?thesis by simp
  next
    case (LimitedWriter s)
    show ?thesis
    proof (cases rule: limited_write_cases [of s bytes])
      case (failed e' inner)
      with a LimitedWriter file_write_Inl [OF failed(1)] show ?thesis by auto
    qed (use a LimitedWriter in auto)
  qed
qed

definition written_as :: "string \<Rightarrow> (string + unit) \<Rightarrow> writer \<Rightarrow> writer \<Rightarrow> bool" where
  "written_as bytes r w w' \<longleftrightarrow> (\<exists>p q. bytes = p @ q \<and> advances p w w' \<and> (r = Inr () \<longrightarrow> q = []))
     \<and> (exceeded w' \<longrightarrow> exceeded w \<or> overflows w (length bytes))"

lemma written_as_cons:
  assumes "advances p w w'" "exceeded w' \<longrightarrow> exceeded w" "written_as bytes r w' w''"
  shows "written_as (p @ bytes) r w w''"
proof -
  from assms(3) have "exceeded w'' \<longrightarrow> exceeded w' \<or> overflows w' (length bytes)" by (simp add: written_as_def)
  moreover obtain p' q where "bytes = p' @ q" "advances p' w' w''" "r = Inr () \<longrightarrow> q = []"
    using assms(3) unfolding written_as_def by blast
  ultimately show ?thesis
    using advances_trans [OF assms(1)] overflows_advance [OF assms(1)] assms(2) unfolding written_as_def by (intro conjI exI [of _ "p @ p'"] exI [of _ q]) auto
qed

lemma written_as_stuck:
  "advances [] w w' \<Longrightarrow> (exceeded w' \<longrightarrow> exceeded w \<or> overflows w (length bytes)) \<Longrightarrow> written_as bytes (Inl e) w w'"
  unfolding written_as_def by (intro conjI exI [of _ "[]"] exI [of _ bytes]) auto

lemma write_all_written: "write_all bytes w = (r, w') \<Longrightarrow> written_as bytes r w w'"
proof (induction bytes w arbitrary: r w' rule: write_all.induct)
  case (1 bytes w)
  show ?case
  proof (cases "bytes = []")
    case True
    with 1(3) have "r = Inr ()" "w' = w" by (simp_all add: write_all.simps [of "[]" w])
    with True show ?thesis by (simp add: written_as_def advances_refl)
  next
    case False
    obtain a w1 where a: "writer_write bytes w = (a, w1)" by (rule prod.exhaust)
    show ?thesis
    proof (cases a)
      case (Inl e)
      note adv = writer_write_advances(2) [OF a [unfolded Inl]]
      show ?thesis
      proof (cases e)
        case IoInterrupted
        have "written_as bytes r w1 w'"
          using 1(1) [OF False a [symmetric] Inl IoInterrupted] 1(3) a Inl IoInterrupted False
          by (simp add: write_all.simps [of bytes w])
        moreover have "exceeded w1 \<longrightarrow> exceeded w" using adv IoInterrupted by simp
        ultimately show ?thesis using written_as_cons [of "[]" w w1 bytes r w'] adv by simp
      next
        case (IoOther reason)
        with 1(3) a Inl False have "r = Inl reason" "w' = w1" by (simp_all add: write_all.simps [of bytes w])
        with adv show ?thesis by (simp add: written_as_stuck)
      qed
    next
      case (Inr n)
      note adv = writer_write_advances(1) [OF a [unfolded Inr]]
      show ?thesis
      proof (cases "n = 0")
        case True
        with 1(3) a Inr False have "r = Inl ''failed to write whole buffer''" "w' = w1"
          by (simp_all add: write_all.simps [of bytes w])
        with adv True show ?thesis by (auto intro!: written_as_stuck)
      next
        case n: False
        have "written_as (drop n bytes) r w1 w'"
          using 1(2) [OF False a [symmetric] Inr n] 1(3) a Inr n False by (simp add: write_all.simps [of bytes w])
        with adv written_as_cons [of "take n bytes" w w1 "drop n bytes" r w'] show ?thesis by simp
      qed
    qed
  qed
qed

lemma written_as_append:
  assumes "written_as bytes r w w'" "r = Inr ()" "written_as bytes' r' w' w''"
  shows "written_as (bytes @ bytes') r' w w''"
proof -
  from assms(1,2) have adv: "advances bytes w w'" "exceeded w' \<longrightarrow> exceeded w \<or> overflows w (length bytes)"
    by (auto simp: written_as_def)
  from assms(3) have "exceeded w'' \<longrightarrow> exceeded w' \<or> overflows w' (length bytes')" by (simp add: written_as_def)
  moreover obtain p q where "bytes' = p @ q" "advances p w' w''" "r' = Inr () \<longrightarrow> q = []"
    using assms(3) unfolding written_as_def by blast
  moreover have "overflows w (length bytes) \<Longrightarrow> overflows w (length bytes + length bytes')" by (cases w) auto
  ultimately show ?thesis
    using adv advances_trans [OF adv(1)] overflows_advance [OF adv(1)] unfolding written_as_def
    by (intro conjI exI [of _ "bytes @ p"] exI [of _ q]) auto
qed

lemma to_writer_written: "to_writer pieces w = (r, w') \<Longrightarrow> written_as (concat pieces) r w w'"
proof (induction pieces arbitrary: w)
  case Nil
  then show ?case by (auto simp: written_as_def advances_refl)
next
  case (Cons piece pieces)
  obtain r1 w1 where w: "write_all piece w = (r1, w1)" by (rule prod.exhaust)
  note first = write_all_written [OF w]
  show ?case
  proof (cases r1)
    case (Inl e)
    with Cons.prems w have "r = Inl e" "w' = w1" by simp_all
    moreover have "overflows w (length piece) \<Longrightarrow> overflows w (length (concat (piece # pieces)))" by (cases w) auto
    ultimately show ?thesis using first Inl unfolding written_as_def by fastforce
  next
    case (Inr u)
    with Cons w have "written_as (concat pieces) r w1 w'" by simp
    with written_as_append [OF first] Inr show ?thesis by simp
  qed
qed

section \<open>One file\<close>

definition path_display :: "path \<Rightarrow> string" where
  "path_display p =
     (let name = (case path_file_name p of Some n \<Rightarrow> n | None \<Rightarrow> [])
      in case path_parent p of
           None \<Rightarrow> name
         | Some d \<Rightarrow> if d = [] \<or> last d = CHR ''/'' then d @ name else d @ ''/'' @ name)"

text \<open>
  The record of one span through a fresh limited writer, then the delimiter, which is written
  outside of it and does not count.
\<close>

definition write_span_record :: "(Value \<Rightarrow> string list) \<Rightarrow> nat \<Rightarrow> path \<Rightarrow> nat \<Rightarrow> SpanRecord \<Rightarrow> out_file
    \<Rightarrow> (ImportError + unit) \<times> out_file" where
  "write_span_record pieces record_limit temp_path index span file =
     (let limited = \<lparr>rlw_inner = file, rlw_written = 0, rlw_limit = record_limit, rlw_exceeded = False\<rparr>
      in case to_writer (pieces (completed_span_jsonl_record span)) (LimitedWriter limited) of
           (Inl reason, w) \<Rightarrow>
             (if exceeded w then (Inl (JsonlRecordTooLarge (index + 1) record_limit), inner_file w)
              else (Inl (IeIo ''write completed span jsonl record'' (path_display temp_path) reason), inner_file w))
         | (Inr _, w) \<Rightarrow>
             (case write_all newline (FileWriter (inner_file w)) of
                (Inl reason, w) \<Rightarrow>
                  (Inl (IeIo ''write completed span jsonl newline'' (path_display temp_path) reason), inner_file w)
              | (Inr _, w) \<Rightarrow> (Inr (), inner_file w)))"

fun write_span_records :: "(Value \<Rightarrow> string list) \<Rightarrow> nat \<Rightarrow> path \<Rightarrow> nat \<Rightarrow> SpanRecord list \<Rightarrow> out_file
    \<Rightarrow> (ImportError + unit) \<times> out_file" where
  "write_span_records pieces record_limit temp_path index [] file = (Inr (), file)"
| "write_span_records pieces record_limit temp_path index (span # spans) file =
     (case write_span_record pieces record_limit temp_path index span file of
        (Inl err, file) \<Rightarrow> (Inl err, file)
      | (Inr _, file) \<Rightarrow> write_span_records pieces record_limit temp_path (Suc index) spans file)"

text \<open>What the operating system answers; every \<open>None\<close> is a success.\<close>

record file_answers =
  fa_create_dir :: "string option"
  fa_open :: "nat \<Rightarrow> string option"
  fa_writes :: "write_answer list"
  fa_flush :: "string option"
  fa_rename :: "string option"
  fa_remove_fails :: bool
  fa_epoch_nanos :: "nat \<Rightarrow> nat"

definition remove_temp :: "file_answers \<Rightarrow> path \<Rightarrow> files \<Rightarrow> files" where
  "remove_temp os temp_path files = (if fa_remove_fails os then files else files(temp_path := None))"

definition write_completed_span_jsonl_to_owned_temp :: "(Value \<Rightarrow> string list) \<Rightarrow> file_answers \<Rightarrow> SpanRecord list
    \<Rightarrow> path \<Rightarrow> nat \<Rightarrow> path \<Rightarrow> files \<Rightarrow> files \<times> (ImportError + unit)" where
  "write_completed_span_jsonl_to_owned_temp pieces os sources path record_limit temp_path files =
     (let (written, file) = write_span_records pieces record_limit temp_path 0 sources
            \<lparr>of_written = [], of_answers = fa_writes os\<rparr>;
          write_result = and_then written (\<lambda>_. case fa_flush os of
              Some reason \<Rightarrow> Inl (IeIo ''flush completed span jsonl file'' (path_display temp_path) reason)
            | None \<Rightarrow> Inr ());
          files = files(temp_path \<mapsto> of_written file)
      in case write_result of
           Inl err \<Rightarrow> (remove_temp os temp_path files, Inl err)
         | Inr _ \<Rightarrow>
             (case fa_rename os of
                Some reason \<Rightarrow>
                  (remove_temp os temp_path files,
                   Inl (IeIo ''rename completed span jsonl temp file''
                     (path_display temp_path @ '' -> '' @ path_display path) reason))
              | None \<Rightarrow> (finalize_temp_file temp_path path files, Inr ())))"

text \<open>The first candidate that could be created exclusively.\<close>

fun create_owned_temp :: "(nat \<Rightarrow> path) \<Rightarrow> file_answers \<Rightarrow> files \<Rightarrow> nat list \<Rightarrow> ImportError + path option" where
  "create_owned_temp candidate os files [] = Inr None"
| "create_owned_temp candidate os files (attempt # attempts) =
     (case fa_open os attempt of
        Some reason \<Rightarrow>
          Inl (IeIo ''create completed span jsonl temp file'' (path_display (candidate attempt)) reason)
      | None \<Rightarrow>
          if files (candidate attempt) \<noteq> None then create_owned_temp candidate os files attempts
          else Inr (Some (candidate attempt)))"

definition MAX_TEMP_ATTEMPTS :: nat where
  "MAX_TEMP_ATTEMPTS = 8"

definition write_completed_span_jsonl_with_candidates :: "(Value \<Rightarrow> string list) \<Rightarrow> file_answers
    \<Rightarrow> SpanRecord list \<Rightarrow> path \<Rightarrow> nat \<Rightarrow> (nat \<Rightarrow> path) \<Rightarrow> files \<Rightarrow> files \<times> (ImportError + unit)" where
  "write_completed_span_jsonl_with_candidates pieces os sources path record_limit candidate files =
     (case create_owned_temp candidate os files [0..<MAX_TEMP_ATTEMPTS] of
        Inl err \<Rightarrow> (files, Inl err)
      | Inr None \<Rightarrow>
          (files, Inl (IeIo ''create completed span jsonl temp file'' (path_display path)
             ''all 8 exclusive temporary-file candidates already exist''))
      | Inr (Some temp_path) \<Rightarrow>
          write_completed_span_jsonl_to_owned_temp pieces os sources path record_limit temp_path files)"

definition completed_span_jsonl_temp_path :: "nat \<Rightarrow> file_answers \<Rightarrow> path \<Rightarrow> nat \<Rightarrow> path" where
  "completed_span_jsonl_temp_path pid os path attempt =
     (let file_name = (case path_file_name path of Some name \<Rightarrow> name | None \<Rightarrow> ''completed-spans.jsonl'')
      in path\<lparr>path_file_name := Some (''.'' @ file_name @ ''.tailtriage-tmp-'' @ show_nat pid @ ''-''
           @ show_nat (fa_epoch_nanos os attempt) @ ''-'' @ show_nat attempt)\<rparr>)"

definition create_output_parent_dir :: "string option \<Rightarrow> path \<Rightarrow> string \<Rightarrow> ImportError + unit" where
  "create_output_parent_dir create_dir_all path operation =
     (case path_parent path of
        None \<Rightarrow> Inr ()
      | Some parent \<Rightarrow>
          if parent = [] then Inr ()
          else case create_dir_all of
                 Some reason \<Rightarrow> Inl (IeIo operation parent reason)
               | None \<Rightarrow> Inr ())"

definition write_completed_span_jsonl_with_limit :: "(Value \<Rightarrow> string list) \<Rightarrow> nat \<Rightarrow> file_answers
    \<Rightarrow> SpanRecord list \<Rightarrow> path \<Rightarrow> nat \<Rightarrow> files \<Rightarrow> files \<times> (ImportError + unit)" where
  "write_completed_span_jsonl_with_limit pieces pid os sources path record_limit files =
     (case create_output_parent_dir (fa_create_dir os) path ''create completed span jsonl parent directory'' of
        Inl err \<Rightarrow> (files, Inl err)
      | Inr _ \<Rightarrow> write_completed_span_jsonl_with_candidates pieces os sources path record_limit
                  (completed_span_jsonl_temp_path pid os path) files)"

definition validate_completed_span_jsonl_retained_sources :: "Run \<Rightarrow> SpanRecord list \<Rightarrow> path \<Rightarrow> ImportError + unit" where
  "validate_completed_span_jsonl_retained_sources run sources path =
     (if sources = [] \<and> run_requests run \<noteq> []
      then Inl (IeIo ''prepare completed span jsonl retained sources'' (path_display path)
             ''internal invariant violation: completed-span JSONL output requires retained original source spans'')
      else Inr ())"

section \<open>What ends up on disk\<close>

definition record_bytes :: "(Value \<Rightarrow> string list) \<Rightarrow> SpanRecord \<Rightarrow> string" where
  "record_bytes pieces span = concat (pieces (completed_span_jsonl_record span))"

definition file_bytes :: "(Value \<Rightarrow> string list) \<Rightarrow> SpanRecord list \<Rightarrow> string" where
  "file_bytes pieces spans = concat (map (\<lambda>s. record_bytes pieces s @ newline) spans)"

lemma inner_advances: "advances p w w' \<Longrightarrow> of_written (inner_file w') = of_written (inner_file w) @ p"
  by (cases w; cases w') auto

lemma write_span_record_ok:
  assumes "write_span_record pieces limit t index span out = (Inr u, out')"
  shows "of_written out' = of_written out @ record_bytes pieces span @ newline"
    "length (record_bytes pieces span) \<le> limit"
proof -
  let ?w = "LimitedWriter \<lparr>rlw_inner = out, rlw_written = 0, rlw_limit = limit, rlw_exceeded = False\<rparr>"
  obtain r w where w: "to_writer (pieces (completed_span_jsonl_record span)) ?w = (r, w)" by (rule prod.exhaust)
  obtain r' w' where w': "write_all newline (FileWriter (inner_file w)) = (r', w')" by (rule prod.exhaust)
  have ok: "r = Inr ()" "r' = Inr ()" "out' = inner_file w'"
    using assms w w' by (auto simp: write_span_record_def Let_def split: sum.splits if_splits)
  have rec: "advances (record_bytes pieces span) ?w w"
    using to_writer_written [OF w] ok(1) by (auto simp: written_as_def record_bytes_def)
  have nl: "advances newline (FileWriter (inner_file w)) w'"
    using write_all_written [OF w'] ok(2) by (auto simp: written_as_def)
  show "of_written out' = of_written out @ record_bytes pieces span @ newline"
    using inner_advances [OF rec] inner_advances [OF nl] ok(3) by simp
  show "length (record_bytes pieces span) \<le> limit" using rec by (cases w) auto
qed

lemma write_span_records_ok:
  "write_span_records pieces limit t index spans out = (Inr u, out') \<Longrightarrow>
     of_written out' = of_written out @ file_bytes pieces spans \<and>
     list_all (\<lambda>s. length (record_bytes pieces s) \<le> limit) spans"
proof (induction spans arbitrary: index out)
  case (Cons span spans)
  obtain r f where f: "write_span_record pieces limit t index span out = (r, f)" by (rule prod.exhaust)
  with Cons.prems obtain u' where r: "r = Inr u'" "write_span_records pieces limit t (Suc index) spans f = (Inr u, out')"
    by (cases r) auto
  from write_span_record_ok [OF f [unfolded r(1)]] Cons.IH [OF r(2)] show ?case by (simp add: file_bytes_def)
qed (simp add: file_bytes_def)

lemma create_owned_temp_fresh:
  "create_owned_temp candidate os files attempts = Inr (Some t) \<Longrightarrow> files t = None \<and> (\<exists>a. t = candidate a)"
  by (induction attempts) (auto split: option.splits if_splits)

lemma span_temp_path_neq: "completed_span_jsonl_temp_path pid os path attempt \<noteq> path"
proof
  assume eq: "completed_span_jsonl_temp_path pid os path attempt = path"
  then obtain f where f: "path_file_name path = Some f"
    by (cases "path_file_name path") (auto simp: completed_span_jsonl_temp_path_def Let_def dest: arg_cong [of _ _ path_file_name])
  have "path_file_name (completed_span_jsonl_temp_path pid os path attempt) = Some f" using eq f by simp
  then have "length f = length (''.'' @ f @ ''.tailtriage-tmp-'' @ show_nat pid @ ''-''
      @ show_nat (fa_epoch_nanos os attempt) @ ''-'' @ show_nat attempt)"
    using f by (simp add: completed_span_jsonl_temp_path_def Let_def)
  then show False by simp
qed

lemma owned_temp_cases:
  assumes "files t = None" "t \<noteq> path"
  shows "case write_completed_span_jsonl_to_owned_temp pieces os spans path limit t files of
      (files', Inr u) \<Rightarrow> files' = files(path \<mapsto> file_bytes pieces spans) \<and>
        list_all (\<lambda>s. length (record_bytes pieces s) \<le> limit) spans
    | (files', Inl e) \<Rightarrow> {q. files' q \<noteq> files q} \<subseteq> {t}"
proof -
  obtain r out where w: "write_span_records pieces limit t 0 spans \<lparr>of_written = [], of_answers = fa_writes os\<rparr> = (r, out)"
    by (rule prod.exhaust)
  show ?thesis
  proof (cases r)
    case (Inl e)
    with w show ?thesis
      by (auto simp: write_completed_span_jsonl_to_owned_temp_def Let_def remove_temp_def and_then_def)
  next
    case (Inr u)
    from write_span_records_ok [OF w [unfolded Inr]] w Inr assms show ?thesis
      by (auto simp: write_completed_span_jsonl_to_owned_temp_def Let_def remove_temp_def and_then_def
          finalize_temp_file_def fun_eq_iff split: option.split)
  qed
qed

section \<open>Writing without faults\<close>

definition answers_well :: "file_answers \<Rightarrow> bool" where
  "answers_well os \<longleftrightarrow> fa_create_dir os = None \<and> fa_open os = (\<lambda>_. None) \<and> fa_writes os = [] \<and>
     fa_flush os = None \<and> fa_rename os = None"

lemma write_all_free:
  assumes "of_answers (inner_file w) = []" "\<not> overflows w (length bytes)"
  shows "\<exists>w'. write_all bytes w = (Inr (), w') \<and> of_answers (inner_file w') = [] \<and> advances bytes w w'"
proof (cases "bytes = []")
  case True
  then show ?thesis using assms(1) by (simp add: write_all.simps [of "[]" w] advances_refl)
next
  case False
  have "\<exists>w'. writer_write bytes w = (Inr (length bytes), w') \<and> of_answers (inner_file w') = []"
  proof (cases w)
    case (LimitedWriter s)
    with assms have "\<not> length bytes > rlw_limit s - rlw_written s" "of_answers (rlw_inner s) = []" by auto
    with LimitedWriter show ?thesis by (simp add: file_write_def limited_write_def)
  qed (use assms in \<open>simp add: file_write_def\<close>)
  then obtain w' where w': "writer_write bytes w = (Inr (length bytes), w')" "of_answers (inner_file w') = []"
    by blast
  then have "write_all bytes w = (Inr (), w')"
    using False by (simp add: write_all.simps [of bytes w] write_all.simps [of "[]" w'])
  then show ?thesis using writer_write_advances(1) [OF w'(1)] w'(2) by simp
qed

lemma to_writer_free:
  assumes "of_answers (inner_file w) = []" "\<not> overflows w (length (concat pieces))"
  shows "\<exists>w'. to_writer pieces w = (Inr (), w') \<and> of_answers (inner_file w') = []"
  using assms
proof (induction pieces arbitrary: w)
  case (Cons piece pieces)
  then have "\<not> overflows w (length piece)" by (cases w) auto
  then obtain w' where w': "write_all piece w = (Inr (), w')" "of_answers (inner_file w') = []" "advances piece w w'"
    using write_all_free Cons.prems(1) by blast
  have "\<not> overflows w' (length (concat pieces))"
    using overflows_advance [OF w'(3), of "length (concat pieces)"] Cons.prems(2) by auto
  then obtain w'' where "to_writer pieces w' = (Inr (), w'')" "of_answers (inner_file w'') = []"
    using Cons.IH [OF w'(2)] by blast
  then show ?case using w'(1) by simp
qed simp

lemma write_span_record_free:
  assumes "of_answers out = []" "length (record_bytes pieces span) \<le> limit"
  shows "\<exists>out'. write_span_record pieces limit t index span out = (Inr (), out') \<and> of_answers out' = []"
proof -
  let ?w = "LimitedWriter \<lparr>rlw_inner = out, rlw_written = 0, rlw_limit = limit, rlw_exceeded = False\<rparr>"
  obtain w where w: "to_writer (pieces (completed_span_jsonl_record span)) ?w = (Inr (), w)" "of_answers (inner_file w) = []"
    using to_writer_free [of ?w "pieces (completed_span_jsonl_record span)"] assms by (auto simp: record_bytes_def)
  obtain w' where w': "write_all newline (FileWriter (inner_file w)) = (Inr (), w')" "of_answers (inner_file w') = []"
    using write_all_free [of "FileWriter (inner_file w)" newline] w(2) by auto
  show ?thesis using w w' by (simp add: write_span_record_def Let_def)
qed

lemma write_span_records_free:
  "of_answers out = [] \<Longrightarrow> list_all (\<lambda>s. length (record_bytes pieces s) \<le> limit) spans \<Longrightarrow>
   \<exists>out'. write_span_records pieces limit t index spans out = (Inr (), out')"
proof (induction spans arbitrary: index out)
  case (Cons span spans)
  then obtain out1 where "write_span_record pieces limit t index span out = (Inr (), out1)" "of_answers out1 = []"
    using write_span_record_free [of out pieces span limit t index] by auto
  with Cons show ?case by simp
qed simp

lemma write_free:
  assumes "answers_well os" "files (completed_span_jsonl_temp_path pid os path 0) = None"
    and "list_all (\<lambda>s. length (record_bytes pieces s) \<le> limit) spans"
  shows "snd (write_completed_span_jsonl_with_limit pieces pid os spans path limit files) = Inr ()"
proof -
  let ?t = "completed_span_jsonl_temp_path pid os path 0"
  obtain out where "write_span_records pieces limit ?t 0 spans \<lparr>of_written = [], of_answers = []\<rparr> = (Inr (), out)"
    using write_span_records_free [OF _ assms(3)] by fastforce
  then have "snd (write_completed_span_jsonl_to_owned_temp pieces os spans path limit ?t files) = Inr ()"
    using assms(1) by (simp add: write_completed_span_jsonl_to_owned_temp_def answers_well_def and_then_def)
  moreover have "create_owned_temp (completed_span_jsonl_temp_path pid os path) os files [0..<MAX_TEMP_ATTEMPTS]
      = Inr (Some ?t)"
    using assms(1,2) by (simp add: MAX_TEMP_ATTEMPTS_def answers_well_def upt_rec)
  ultimately show ?thesis
    using assms(1) by (simp add: write_completed_span_jsonl_with_limit_def write_completed_span_jsonl_with_candidates_def
        create_output_parent_dir_def answers_well_def split: option.split)
qed

section \<open>Properties\<close>

lemma completed_span_file_fact:
  "case write_completed_span_jsonl_with_limit pieces pid os spans path limit files of
      (files', Inr u) \<Rightarrow> files' = files(path \<mapsto> file_bytes pieces spans) \<and>
        list_all (\<lambda>s. length (record_bytes pieces s) \<le> limit) spans
    | (files', Inl e) \<Rightarrow> \<exists>t. {q. files' q \<noteq> files q} \<subseteq> {t} \<inter> {q. files q = None} - {path}"
proof (cases "create_output_parent_dir (fa_create_dir os) path ''create completed span jsonl parent directory''")
  case (Inl e)
  then show ?thesis by (simp add: write_completed_span_jsonl_with_limit_def)
next
  case dir: (Inr u)
  let ?candidate = "completed_span_jsonl_temp_path pid os path"
  show ?thesis
  proof (cases "create_owned_temp ?candidate os files [0..<MAX_TEMP_ATTEMPTS]")
    case (Inl e)
    with dir show ?thesis
      by (simp add: write_completed_span_jsonl_with_limit_def write_completed_span_jsonl_with_candidates_def)
  next
    case (Inr found)
    show ?thesis
    proof (cases found)
      case None
      with dir Inr show ?thesis
        by (simp add: write_completed_span_jsonl_with_limit_def write_completed_span_jsonl_with_candidates_def)
    next
      case (Some t)
      from create_owned_temp_fresh [OF Inr [unfolded Some]] span_temp_path_neq
      have t: "files t = None" "t \<noteq> path" by auto
      from owned_temp_cases [where files = files and t = t and path = path and pieces = pieces and os = os
          and spans = spans and limit = limit, OF t] dir Inr Some t show ?thesis
        by (auto simp: write_completed_span_jsonl_with_limit_def write_completed_span_jsonl_with_candidates_def
            split: sum.splits prod.splits)
    qed
  qed
qed

text \<open>
  The completed-span file is replaced atomically, whatever the operating system answers: on
  success the target holds exactly one line per span, each within the record limit, and every
  other file is as before; on failure nothing changed but at most one temporary file that did not
  exist before and could not be removed. No existing file is ever opened for writing.
\<close>

theorem completed_span_file_atomic:
  "case write_completed_span_jsonl_with_limit pieces pid os spans path limit files of
      (files', Inr u) \<Rightarrow> files' = files(path \<mapsto> file_bytes pieces spans) \<and>
        list_all (\<lambda>s. length (record_bytes pieces s) \<le> limit) spans
    | (files', Inl e) \<Rightarrow> \<exists>t. {q. files' q \<noteq> files q} \<subseteq> {t} \<inter> {q. files q = None} - {path}"
  by (rule completed_span_file_fact)

end
