(* ===== verification/Tr_Jsonl.thy ===== *)
theory Tr_Jsonl
  imports Tr_Import Tr_Value
begin

text \<open>
  Reading completed-span files (\<^verbatim>\<open>tailtriage-tracing/src/jsonl.rs\<close>): the bounded line reader over a
  buffered source, the checks of the record wrapper, and the import. A source is the list of
  answers its reads give, in any chunking; the buffer of \<^verbatim>\<open>std\<close>'s \<^verbatim>\<open>BufReader\<close> holds the part of an
  answer that was not consumed yet. \<^verbatim>\<open>serde_json\<close> is a parameter: \<open>from_slice\<close> decodes a line into a
  \<open>Value\<close>. So is \<open>from_value\<close>, because the text of its errors is \<^verbatim>\<open>serde\<close>'s; the derived decoder
  of \<open>SpanRecord\<close> is \<open>deserialize_span\<close> of \<^verbatim>\<open>Tr_Value\<close>.
\<close>

section \<open>The bounded line reader\<close>

datatype read_answer = ReadBytes string | ReadFailed string

record BoundedJsonlRecords =
  bjr_buffer :: string
  bjr_source :: "read_answer list"
  bjr_record :: string
  bjr_line :: nat
  bjr_record_limit :: nat
  bjr_done :: bool

definition bounded_jsonl_records_new :: "read_answer list \<Rightarrow> nat \<Rightarrow> BoundedJsonlRecords" where
  "bounded_jsonl_records_new reader record_limit =
     \<lparr>bjr_buffer = [], bjr_source = reader, bjr_record = [], bjr_line = 1, bjr_record_limit = record_limit,
      bjr_done = False\<rparr>"

text \<open>The answer of \<^verbatim>\<open>fill_buf\<close>, and the source after it; a successful answer is the buffer.\<close>

definition fill_buf :: "string \<Rightarrow> read_answer list \<Rightarrow> (string + string) \<times> read_answer list" where
  "fill_buf buffer source =
     (if buffer \<noteq> [] then (Inr buffer, source)
      else case source of
             [] \<Rightarrow> (Inr [], [])
           | ReadBytes bytes # source \<Rightarrow> (Inr bytes, source)
           | ReadFailed reason # source \<Rightarrow> (Inl reason, source))"

abbreviation (input) is_newline :: "char \<Rightarrow> bool" where
  "is_newline c \<equiv> c = CHR 0x0A"

function next_record :: "BoundedJsonlRecords \<Rightarrow> (ImportError + nat \<times> string) option \<times> BoundedJsonlRecords" where
  "next_record self =
     (if bjr_done self then (None, self)
      else case fill_buf (bjr_buffer self) (bjr_source self) of
        (Inl reason, source) \<Rightarrow>
          (Some (Inl (IeIo ''read jsonl record'' (''line '' @ show_nat (bjr_line self)) reason)),
           self\<lparr>bjr_source := source, bjr_done := True\<rparr>)
      | (Inr [], source) \<Rightarrow>
          (if bjr_record self \<noteq> [] then Some (Inr (bjr_line self, bjr_record self)) else None,
           self\<lparr>bjr_source := source, bjr_done := True, bjr_record := []\<rparr>)
      | (Inr (b # buf'), source) \<Rightarrow>
          let buf = b # buf';
              taken = takeWhile (\<lambda>c. \<not> is_newline c) buf;
              newline = length taken < length buf;
              consumed = length taken + (if newline then 1 else 0)
          in if length (bjr_record self) + length taken > bjr_record_limit self
             then (Some (Inl (JsonlRecordTooLarge (bjr_line self) (bjr_record_limit self))),
                   self\<lparr>bjr_buffer := buf, bjr_source := source, bjr_done := True\<rparr>)
             else if newline
             then (Some (Inr (bjr_line self, bjr_record self @ taken)),
                   self\<lparr>bjr_buffer := drop consumed buf, bjr_source := source, bjr_record := [],
                     bjr_line := bjr_line self + 1\<rparr>)
             else next_record (self\<lparr>bjr_buffer := drop consumed buf, bjr_source := source,
                     bjr_record := bjr_record self @ taken\<rparr>))"
  by auto

termination
proof (relation "measure (\<lambda>s. 2 * length (bjr_source s) + (if bjr_buffer s = [] then 0 else 1))", goal_cases)
  case (2 self x r s b buf' buf taken newline consumed)
  then have "length taken = length buf" using length_takeWhile_le [of "\<lambda>c. \<not> is_newline c" buf] by simp
  with 2 show ?case by (auto simp: fill_buf_def split: if_splits list.splits read_answer.splits)
qed simp

declare next_record.simps [simp del]

text \<open>What is left to read, so that iterating ends.\<close>

fun answer_size :: "read_answer \<Rightarrow> nat" where
  "answer_size (ReadBytes bytes) = length bytes"
| "answer_size (ReadFailed reason) = 0"

definition unread :: "BoundedJsonlRecords \<Rightarrow> nat" where
  "unread self = (if bjr_done self then 0
     else Suc (length (bjr_buffer self) + sum_list (map answer_size (bjr_source self))))"

lemma fill_buf_size:
  "fill_buf buffer source = (Inr buf, source') \<Longrightarrow>
   length buf + sum_list (map answer_size source') = length buffer + sum_list (map answer_size source)"
  by (auto simp: fill_buf_def split: if_splits list.splits read_answer.splits)

lemma take_drop_newline:
  assumes "\<not> length (takeWhile P xs) < length xs"
  shows "takeWhile P xs = xs"
  using assms takeWhile_eq_take [of P xs] by simp

abbreviation until_newline :: "string \<Rightarrow> string" where
  "until_newline \<equiv> takeWhile (\<lambda>c. \<not> is_newline c)"

abbreviation from_newline :: "string \<Rightarrow> string" where
  "from_newline \<equiv> dropWhile (\<lambda>c. \<not> is_newline c)"

text \<open>The ways one turn of the loop can go.\<close>

lemma next_record_cases:
  assumes "\<not> bjr_done self"
  obtains (failed) reason source where "fill_buf (bjr_buffer self) (bjr_source self) = (Inl reason, source)"
      "next_record self =
         (Some (Inl (IeIo ''read jsonl record'' (''line '' @ show_nat (bjr_line self)) reason)),
          self\<lparr>bjr_source := source, bjr_done := True\<rparr>)"
  | (ended) source where "fill_buf (bjr_buffer self) (bjr_source self) = (Inr [], source)"
      "next_record self =
         (if bjr_record self \<noteq> [] then Some (Inr (bjr_line self, bjr_record self)) else None,
          self\<lparr>bjr_source := source, bjr_done := True, bjr_record := []\<rparr>)"
  | (large) buf source where "fill_buf (bjr_buffer self) (bjr_source self) = (Inr buf, source)" "buf \<noteq> []"
      "length (bjr_record self) + length (until_newline buf) > bjr_record_limit self"
      "next_record self =
         (Some (Inl (JsonlRecordTooLarge (bjr_line self) (bjr_record_limit self))),
          self\<lparr>bjr_buffer := buf, bjr_source := source, bjr_done := True\<rparr>)"
  | (line) buf source c rest where "fill_buf (bjr_buffer self) (bjr_source self) = (Inr buf, source)" "buf \<noteq> []"
      "length (bjr_record self) + length (until_newline buf) \<le> bjr_record_limit self" "from_newline buf = c # rest"
      "next_record self =
         (Some (Inr (bjr_line self, bjr_record self @ until_newline buf)),
          self\<lparr>bjr_buffer := rest, bjr_source := source, bjr_record := [], bjr_line := bjr_line self + 1\<rparr>)"
  | (more) buf source where "fill_buf (bjr_buffer self) (bjr_source self) = (Inr buf, source)" "buf \<noteq> []"
      "length (bjr_record self) + length buf \<le> bjr_record_limit self" "list_all (\<lambda>c. \<not> is_newline c) buf"
      "next_record self
         = next_record (self\<lparr>bjr_buffer := [], bjr_source := source, bjr_record := bjr_record self @ buf\<rparr>)"
proof -
  obtain a source where f: "fill_buf (bjr_buffer self) (bjr_source self) = (a, source)" by (rule prod.exhaust)
  note step = next_record.simps [of self, unfolded f prod.case if_not_P [OF assms]]
  show ?thesis
  proof (cases a)
    case (Inl reason)
    show ?thesis by (rule failed [OF f [unfolded Inl]]) (simp add: step Inl)
  next
    case (Inr buf)
    note f' = f [unfolded Inr]
    show ?thesis
    proof (cases buf)
      case Nil
      show ?thesis by (rule ended [OF f' [unfolded Nil]]) (simp add: step Inr Nil)
    next
      case (Cons b buf')
      then have nonempty: "buf \<noteq> []" by simp
      note step' = step [unfolded Inr Cons sum.case list.case Let_def, folded Cons]
      show ?thesis
      proof (cases "length (bjr_record self) + length (until_newline buf) > bjr_record_limit self")
        case True
        show ?thesis by (rule large [OF f' nonempty True]) (simp add: step' True)
      next
        case False
        then have fits: "length (bjr_record self) + length (until_newline buf) \<le> bjr_record_limit self" by simp
        show ?thesis
        proof (cases "from_newline buf")
          case Nil
          then have all: "list_all (\<lambda>c. \<not> is_newline c) buf" by (simp add: list_all_iff)
          then have whole: "until_newline buf = buf" by (simp add: list_all_iff)
          from False have "length (bjr_record self) + length buf \<le> bjr_record_limit self" by (simp add: whole)
          from more [OF f' nonempty this all] step' show ?thesis unfolding whole using False by (simp add: whole)
        next
          case rest: (Cons c rest)
          have split: "until_newline buf @ c # rest = buf"
            using takeWhile_dropWhile_id [of "\<lambda>c. \<not> is_newline c" buf] rest by simp
          then have shorter: "length (until_newline buf) < length buf"
            using arg_cong [OF split, of length] unfolding length_append list.size by linarith
          have "drop (length (until_newline buf) + 1) buf = rest"
            using arg_cong [OF split, of "drop (length (until_newline buf) + 1)"] by simp
          with line [OF f' nonempty fits rest] step' False shorter show ?thesis by simp
        qed
      qed
    qed
  qed
qed

definition turns_left :: "BoundedJsonlRecords \<Rightarrow> nat" where
  "turns_left self = 2 * length (bjr_source self) + (if bjr_buffer self = [] then 0 else 1)"

lemma turns_decrease:
  "fill_buf (bjr_buffer self) (bjr_source self) = (Inr buf, source) \<Longrightarrow> buf \<noteq> [] \<Longrightarrow>
   turns_left (self\<lparr>bjr_buffer := [], bjr_source := source, bjr_record := rec\<rparr>) < turns_left self"
  by (auto simp: fill_buf_def turns_left_def split: if_splits list.splits read_answer.splits)

lemma next_record_decreases: "next_record self = (Some r, self') \<Longrightarrow> unread self' < unread self"
proof (induction self arbitrary: r self' rule: measure_induct_rule [of turns_left])
  case (less self)
  have open_: "\<not> bjr_done self" using less(2) by (auto simp: next_record.simps [of self])
  from open_ show ?case
  proof (cases rule: next_record_cases)
    case (line buf source c rest)
    have "length buf = length (until_newline buf) + Suc (length rest)"
      using arg_cong [OF takeWhile_dropWhile_id [of "\<lambda>c. \<not> is_newline c" buf], of length] line(4) by simp
    then show ?thesis using line(5) less(2) fill_buf_size [OF line(1)] open_ by (auto simp: unread_def)
  next
    case (more buf source)
    let ?next = "self\<lparr>bjr_buffer := [], bjr_source := source, bjr_record := bjr_record self @ buf\<rparr>"
    have "unread self' < unread ?next"
      using less(1) [OF turns_decrease [OF more(1,2)]] less(2) more(5) by simp
    also have "\<dots> \<le> unread self" using fill_buf_size [OF more(1)] open_ by (simp add: unread_def)
    finally show ?thesis .
  qed (use less(2) open_ in \<open>auto simp: unread_def split: if_splits\<close>)
qed

text \<open>What the iterator yields until it ends.\<close>

function records_of :: "BoundedJsonlRecords \<Rightarrow> (ImportError + nat \<times> string) list" where
  "records_of self =
     (case next_record self of
        (None, _) \<Rightarrow> []
      | (Some record', self') \<Rightarrow> record' # records_of self')"
  by auto

termination
proof (relation "measure unread", goal_cases)
  case (2 self x self' r)
  then show ?case using next_record_decreases [of self r self'] by simp
qed simp

declare records_of.simps [simp del]

section \<open>What it reads\<close>

text \<open>The bytes a source delivers, and the error that ends it, if any; an empty answer is the end.\<close>

fun stream :: "read_answer list \<Rightarrow> string \<times> string option" where
  "stream [] = ([], None)"
| "stream (ReadFailed reason # _) = ([], Some reason)"
| "stream (ReadBytes bytes # source) =
     (if bytes = [] then ([], None) else let (rest, ending) = stream source in (bytes @ rest, ending))"

text \<open>The records of a byte string, read at once.\<close>

function records_of_bytes :: "nat \<Rightarrow> nat \<Rightarrow> string \<Rightarrow> string option \<Rightarrow> (ImportError + nat \<times> string) list" where
  "records_of_bytes limit line bytes ending =
     (let part = takeWhile (\<lambda>c. \<not> is_newline c) bytes
      in if length part > limit then [Inl (JsonlRecordTooLarge line limit)]
         else case dropWhile (\<lambda>c. \<not> is_newline c) bytes of
           [] \<Rightarrow> (case ending of
               Some reason \<Rightarrow> [Inl (IeIo ''read jsonl record'' (''line '' @ show_nat line) reason)]
             | None \<Rightarrow> if part = [] then [] else [Inr (line, part)])
         | _ # rest \<Rightarrow> Inr (line, part) # records_of_bytes limit (Suc line) rest ending)"
  by auto

termination
proof (relation "measure (\<lambda>(limit, line, bytes, ending). length bytes)", goal_cases)
  case (2 limit line bytes ending part b rest)
  then show ?case using length_dropWhile_le [of "\<lambda>c. \<not> is_newline c" bytes] by simp
qed simp

declare records_of_bytes.simps [simp del]

definition unread_bytes :: "BoundedJsonlRecords \<Rightarrow> string" where
  "unread_bytes self = bjr_record self @ bjr_buffer self @ fst (stream (bjr_source self))"

definition within_record :: "BoundedJsonlRecords \<Rightarrow> bool" where
  "within_record self \<longleftrightarrow> \<not> bjr_done self \<and> list_all (\<lambda>c. \<not> is_newline c) (bjr_record self)
     \<and> length (bjr_record self) \<le> bjr_record_limit self"

text \<open>One step of the iterator against the bytes that are left.\<close>

definition reads_record :: "BoundedJsonlRecords \<Rightarrow> (ImportError + nat \<times> string) option \<Rightarrow> BoundedJsonlRecords \<Rightarrow> bool" where
  "reads_record self r self' =
     (let bytes = unread_bytes self; part = until_newline bytes; line = bjr_line self; limit = bjr_record_limit self
      in if length part > limit then r = Some (Inl (JsonlRecordTooLarge line limit)) \<and> bjr_done self'
         else case from_newline bytes of
           [] \<Rightarrow> bjr_done self' \<and> r = (case snd (stream (bjr_source self)) of
               Some reason \<Rightarrow> Some (Inl (IeIo ''read jsonl record'' (''line '' @ show_nat line) reason))
             | None \<Rightarrow> if part = [] then None else Some (Inr (line, part)))
         | _ # rest \<Rightarrow> r = Some (Inr (line, part)) \<and> within_record self' \<and> bjr_record self' = [] \<and>
             bjr_line self' = Suc line \<and> bjr_record_limit self' = limit \<and> unread_bytes self' = rest \<and>
             snd (stream (bjr_source self')) = snd (stream (bjr_source self)))"

lemma list_all_takeWhile_append: "list_all P xs \<Longrightarrow> takeWhile P (xs @ ys) = xs @ takeWhile P ys"
  "list_all P xs \<Longrightarrow> dropWhile P (xs @ ys) = dropWhile P ys"
  by (induction xs) simp_all

lemma dropWhile_within:
  "dropWhile P xs = c # rest \<Longrightarrow> takeWhile P (xs @ ys) = takeWhile P xs \<and> dropWhile P (xs @ ys) = c # rest @ ys"
  by (induction xs) (auto split: if_splits)

lemma fill_buf_stream:
  assumes "fill_buf buffer source = (a, source')"
  shows "case a of
      Inl reason \<Rightarrow> buffer @ fst (stream source) = [] \<and> snd (stream source) = Some reason
    | Inr buf \<Rightarrow> if buf = [] then buffer @ fst (stream source) = [] \<and> snd (stream source) = None
        else buffer @ fst (stream source) = buf @ fst (stream source') \<and> snd (stream source) = snd (stream source')"
  using assms by (auto simp: fill_buf_def split: if_splits list.splits read_answer.splits prod.splits)

lemma next_record_reads:
  "within_record self \<Longrightarrow> next_record self = (r, self') \<Longrightarrow> reads_record self r self'"
proof (induction self arbitrary: r self' rule: measure_induct_rule [of turns_left])
  case (less self)
  let ?rec = "bjr_record self" and ?limit = "bjr_record_limit self"
  have open_: "\<not> bjr_done self" and no_newline: "list_all (\<lambda>c. \<not> is_newline c) ?rec" and small: "length ?rec \<le> ?limit"
    using less(2) by (simp_all add: within_record_def)
  note split = list_all_takeWhile_append [OF no_newline]
  have whole: "until_newline ?rec = ?rec" "from_newline ?rec = []" using split [of "[]"] by simp_all
  from open_ show ?case
  proof (cases rule: next_record_cases)
    case (failed reason source)
    from fill_buf_stream [OF failed(1)] have "unread_bytes self = ?rec" "snd (stream (bjr_source self)) = Some reason"
      by (simp_all add: unread_bytes_def)
    with failed(2) less(3) small show ?thesis unfolding reads_record_def by (auto simp: whole)
  next
    case (ended source)
    from fill_buf_stream [OF ended(1)] have "unread_bytes self = ?rec" "snd (stream (bjr_source self)) = None"
      by (simp_all add: unread_bytes_def)
    with ended(2) less(3) small show ?thesis unfolding reads_record_def by (auto simp: whole)
  next
    case (large buf source)
    from fill_buf_stream [OF large(1)] large(2) have bytes: "unread_bytes self = ?rec @ buf @ fst (stream source)"
      by (simp add: unread_bytes_def)
    have "length (until_newline buf) \<le> length (until_newline (buf @ fst (stream source)))" 
      by (auto simp: takeWhile_append intro: trans_le_add1 length_takeWhile_le)
    then have "length (until_newline (unread_bytes self)) > ?limit" using large(3) bytes split(1) by simp
    with large(4) less(3) show ?thesis unfolding reads_record_def by (auto simp: Let_def)
  next
    case (line buf source c rest)
    from fill_buf_stream [OF line(1)] line(2) have bytes: "unread_bytes self = ?rec @ buf @ fst (stream source)"
      and ending: "snd (stream (bjr_source self)) = snd (stream source)" by (simp_all add: unread_bytes_def)
    have "until_newline (buf @ fst (stream source)) = until_newline buf"
      "from_newline (buf @ fst (stream source)) = c # rest @ fst (stream source)"
      using dropWhile_within [OF line(4)] by simp_all
    then have parts: "until_newline (unread_bytes self) = ?rec @ until_newline buf"
      "from_newline (unread_bytes self) = c # rest @ fst (stream source)"
      unfolding bytes by (simp_all add: split)
    show ?thesis
      using line(3,5) less(3) open_ ending unfolding reads_record_def Let_def parts
      by (auto simp: within_record_def unread_bytes_def)
  next
    case (more buf source)
    let ?next = "self\<lparr>bjr_buffer := [], bjr_source := source, bjr_record := ?rec @ buf\<rparr>"
    from fill_buf_stream [OF more(1)] more(2) have same: "unread_bytes ?next = unread_bytes self"
      "snd (stream source) = snd (stream (bjr_source self))" by (simp_all add: unread_bytes_def)
    have "within_record ?next" using more(3,4) no_newline open_ by (simp add: within_record_def)
    then have "reads_record ?next r self'"
      using less(1) [OF turns_decrease [OF more(1,2)]] less(3) more(5) by simp
    moreover have "bjr_line ?next = bjr_line self" "bjr_record_limit ?next = ?limit" "bjr_source ?next = source"
      by simp_all
    ultimately show ?thesis by (simp only: reads_record_def same)
  qed
qed

lemma records_of_closed: "bjr_done self \<Longrightarrow> records_of self = []"
  by (simp add: records_of.simps [of self] next_record.simps [of self])

lemma records_of_reads:
  "within_record self \<Longrightarrow> records_of self
     = records_of_bytes (bjr_record_limit self) (bjr_line self) (unread_bytes self) (snd (stream (bjr_source self)))"
proof (induction self rule: records_of.induct)
  case (1 self)
  obtain r self' where n: "next_record self = (r, self')" by (rule prod.exhaust)
  note reads = next_record_reads [OF 1(2) n, unfolded reads_record_def Let_def]
  have unroll: "records_of self = (case r of None \<Rightarrow> [] | Some record' \<Rightarrow> record' # records_of self')"
    by (simp add: records_of.simps [of self] n split: option.split)
  note unroll' = records_of_bytes.simps [of "bjr_record_limit self" "bjr_line self" "unread_bytes self"
      "snd (stream (bjr_source self))"]
  show ?case
  proof (cases "length (until_newline (unread_bytes self)) > bjr_record_limit self")
    case True
    with reads show ?thesis by (simp add: unroll unroll' records_of_closed)
  next
    case False
    show ?thesis
    proof (cases "from_newline (unread_bytes self)")
      case Nil
      with reads False have closed: "records_of self' = []"
        and r: "r = (case snd (stream (bjr_source self)) of
               Some reason \<Rightarrow> Some (Inl (IeIo ''read jsonl record'' (''line '' @ show_nat (bjr_line self)) reason))
             | None \<Rightarrow> if until_newline (unread_bytes self) = [] then None
                 else Some (Inr (bjr_line self, until_newline (unread_bytes self))))"
        by (simp_all add: records_of_closed)
      show ?thesis unfolding unroll unroll' Let_def if_not_P [OF False] Nil list.case r closed
        by (cases "snd (stream (bjr_source self))") simp_all
    next
      case (Cons c rest)
      with reads False have "r = Some (Inr (bjr_line self, until_newline (unread_bytes self)))" "within_record self'"
        "bjr_line self' = Suc (bjr_line self)" "bjr_record_limit self' = bjr_record_limit self" "unread_bytes self' = rest"
        "snd (stream (bjr_source self')) = snd (stream (bjr_source self))" by simp_all
      with 1(1) [OF n [symmetric] _] False Cons show ?thesis by (simp add: unroll unroll' Let_def)
    qed
  qed
qed

section \<open>The record wrapper\<close>

fun as_object :: "Value \<Rightarrow> (string \<times> Value) list option" where
  "as_object (JObject obj) = Some obj"
| "as_object _ = None"

fun as_str :: "Value \<Rightarrow> string option" where
  "as_str (JString text') = Some text'"
| "as_str _ = None"

definition contains_key :: "(string \<times> Value) list \<Rightarrow> string \<Rightarrow> bool" where
  "contains_key obj key \<longleftrightarrow> map_of obj key \<noteq> None"

definition FORMAT_MARKER :: string where
  "FORMAT_MARKER = ''tailtriage.tracing-span.v1''"

definition wrapper_error :: "nat \<Rightarrow> string \<Rightarrow> ImportError" where
  "wrapper_error line_no reason = ExpectedTailtriageWrapper (''line '' @ show_nat line_no @ '': '' @ reason)"

definition squoted :: "string \<Rightarrow> string" where
  "squoted text' = squote @ text' @ squote"

definition looks_like_ordinary_fmt_json :: "(string \<times> Value) list \<Rightarrow> bool" where
  "looks_like_ordinary_fmt_json obj \<longleftrightarrow>
     contains_key obj ''timestamp'' \<and> contains_key obj ''level'' \<and> contains_key obj ''target''"

definition dquote :: string where
  "dquote = [CHR 0x22]"

definition classify_missing_format :: "(string \<times> Value) list \<Rightarrow> string" where
  "classify_missing_format obj =
     (if looks_like_ordinary_fmt_json obj then
        ''ordinary tracing formatter JSON is unsupported; expected stable wrapper shape {'' @ dquote @ ''format'' @ dquote
        @ '':'' @ dquote @ FORMAT_MARKER @ dquote @ '','' @ dquote @ ''span'' @ dquote @ '':{...}}''
      else if contains_key obj ''span'' then
        ''missing field '' @ squoted ''format'' @ ''; unversioned tracing span envelopes are unsupported''
      else if contains_key obj ''name'' \<or> contains_key obj ''start_unix_ms'' \<or> contains_key obj ''end_unix_ms'' then
        ''missing field '' @ squoted ''format'' @ ''; raw or pre-stable tracing span records are unsupported''
      else if list_ex (\<lambda>(k, _). starts_with k ''tt.'') obj \<or> contains_key obj ''fields'' then
        ''missing field '' @ squoted ''format'' @ ''; compatibility field placement is unsupported''
      else ''missing field '' @ squoted ''format'' @ '' for tailtriage.tracing-span.v1 wrapper'')"

definition reject_forbidden_wrapper_keys :: "nat \<Rightarrow> (string \<times> Value) list \<Rightarrow> ImportError + unit" where
  "reject_forbidden_wrapper_keys line_no obj =
     (if contains_key obj ''fields'' then
        Inl (wrapper_error line_no (''forbidden wrapper-level compatibility key '' @ squoted ''fields''))
      else case find (\<lambda>key. starts_with key ''tt.'') (map fst obj) of
             Some key \<Rightarrow> Inl (wrapper_error line_no (''forbidden wrapper-level compatibility key '' @ squoted key))
           | None \<Rightarrow> Inr ())"

definition reject_forbidden_span_keys :: "nat \<Rightarrow> (string \<times> Value) list \<Rightarrow> ImportError + unit" where
  "reject_forbidden_span_keys line_no obj =
     (case find (contains_key obj) [''start_unix_ms'', ''end_unix_ms''] of
        Some key \<Rightarrow> Inl (wrapper_error line_no (''forbidden span timestamp alias '' @ squoted key))
      | None \<Rightarrow> Inr ())"

definition parse_record :: "(Value \<Rightarrow> string + SpanRecord) \<Rightarrow> nat \<Rightarrow> Value \<Rightarrow> bool \<Rightarrow> ImportWarning list
    \<Rightarrow> ImportError + SpanRecord option \<times> ImportWarning list" where
  "parse_record from_value line_no v strict warnings =
     (case as_object v of
        None \<Rightarrow> Inl (wrapper_error line_no ''JSONL record must be an object'')
      | Some obj \<Rightarrow>
     (case map_of obj ''format'' of
        None \<Rightarrow> Inl (wrapper_error line_no (classify_missing_format obj))
      | Some format \<Rightarrow>
     (case as_str format of
        None \<Rightarrow> Inl (wrapper_error line_no
                  (''invalid field '' @ squoted ''format'' @ '': expected string format marker''))
      | Some format_marker \<Rightarrow>
          if format_marker \<noteq> FORMAT_MARKER
          then Inl (wrapper_error line_no (''unsupported span format marker '' @ squoted format_marker))
          else and_then (reject_forbidden_wrapper_keys line_no obj) (\<lambda>_.
            case map_of obj ''span'' of
              None \<Rightarrow> Inl (wrapper_error line_no
                  (''missing field '' @ squoted ''span'' @ '' for tailtriage.tracing-span.v1 wrapper''))
            | Some span_value \<Rightarrow>
           (case as_object span_value of
              None \<Rightarrow> Inl (wrapper_error line_no (''invalid field '' @ squoted ''span''
                  @ '': expected completed span object for tailtriage.tracing-span.v1''))
            | Some span_obj \<Rightarrow>
                and_then (reject_forbidden_span_keys line_no span_obj) (\<lambda>_.
                  case from_value span_value of
                    Inr span \<Rightarrow> Inr (Some span, warnings)
                  | Inl err \<Rightarrow>
                      let message = ''line '' @ show_nat line_no @ '': invalid tailtriage.tracing-span.v1 span: '' @ err
                      in if strict then Inl (StrictViolation message)
                         else Inr (None, push_import_warning (ImportWarning message) warnings)))))))"

section \<open>The import\<close>

definition is_ascii_whitespace :: "char \<Rightarrow> bool" where
  "is_ascii_whitespace c \<longleftrightarrow> c \<in> {CHR 0x20, CHR 0x09, CHR 0x0A, CHR 0x0C, CHR 0x0D}"

text \<open>
  The adapter between the reader and the conversion. The code pulls records lazily and stops at
  the first error; as the conversion of the remaining records has no effect then, the model
  converts all of them.
\<close>

fun parse_lines :: "(string \<Rightarrow> string + Value) \<Rightarrow> (Value \<Rightarrow> string + SpanRecord) \<Rightarrow> bool \<Rightarrow> ImportWarning list
    \<Rightarrow> (ImportError + nat \<times> string) list \<Rightarrow> (ImportError + SpanRecord) list \<times> ImportWarning list" where
  "parse_lines from_slice from_value strict parse_warnings [] = ([], parse_warnings)"
| "parse_lines from_slice from_value strict parse_warnings (Inl error # records) =
     apfst (Cons (Inl error)) (parse_lines from_slice from_value strict parse_warnings records)"
| "parse_lines from_slice from_value strict parse_warnings (Inr (line_no, line) # records) =
     (if list_all is_ascii_whitespace line then parse_lines from_slice from_value strict parse_warnings records
      else case from_slice line of
        Inl err \<Rightarrow> apfst (Cons (Inl (MalformedJsonLine line_no err)))
          (parse_lines from_slice from_value strict parse_warnings records)
      | Inr v \<Rightarrow>
          (case parse_record from_value line_no v strict parse_warnings of
             Inl error \<Rightarrow> apfst (Cons (Inl error))
               (parse_lines from_slice from_value strict parse_warnings records)
           | Inr (None, parse_warnings) \<Rightarrow> parse_lines from_slice from_value strict parse_warnings records
           | Inr (Some span, parse_warnings) \<Rightarrow> apfst (Cons (Inr span))
               (parse_lines from_slice from_value strict parse_warnings records)))"

definition attach_parse_warnings_to_lifecycle :: "ImportWarning list \<Rightarrow> Run \<Rightarrow> Run" where
  "attach_parse_warnings_to_lifecycle parse_warnings run =
     foldl (\<lambda>run warning. add_new_warning run (iw_message warning)) run parse_warnings"

definition import_jsonl_reader_with_limit :: "(string \<Rightarrow> string + Value) \<Rightarrow> (Value \<Rightarrow> string + SpanRecord)
    \<Rightarrow> u64 \<Rightarrow> u64 \<Rightarrow> read_answer list \<Rightarrow> ImportOptions \<Rightarrow> nat \<Rightarrow> (ImportError + ImportedRun) option" where
  "import_jsonl_reader_with_limit from_slice from_value now later reader options record_limit =
     (let (spans, parse_warnings) = parse_lines from_slice from_value (io_strict options) []
            (records_of (bounded_jsonl_records_new reader record_limit))
      in case run_from_span_record_results now later spans options of
           None \<Rightarrow> None
         | Some (Inl error) \<Rightarrow> Some (Inl error)
         | Some (Inr imported) \<Rightarrow>
             Some (Inr (with_retained_sources
               (attach_parse_warnings_to_lifecycle parse_warnings (imp_run imported))
               (parse_warnings @ imp_warnings imported) (imp_retained_sources imported))))"

definition MAX_JSONL_RECORD_BYTES :: nat where
  "MAX_JSONL_RECORD_BYTES = 8 * 1024 * 1024"

definition import_jsonl_reader :: "(string \<Rightarrow> string + Value) \<Rightarrow> (Value \<Rightarrow> string + SpanRecord)
    \<Rightarrow> u64 \<Rightarrow> u64 \<Rightarrow> read_answer list \<Rightarrow> ImportOptions \<Rightarrow> (ImportError + ImportedRun) option" where
  "import_jsonl_reader from_slice from_value now later reader options =
     import_jsonl_reader_with_limit from_slice from_value now later reader options MAX_JSONL_RECORD_BYTES"

text \<open>What opening the path answers: the reads of the file, or the reason of the failure.\<close>

definition import_jsonl_path :: "(string \<Rightarrow> string + Value) \<Rightarrow> (Value \<Rightarrow> string + SpanRecord)
    \<Rightarrow> u64 \<Rightarrow> u64 \<Rightarrow> string \<Rightarrow> string + read_answer list \<Rightarrow> ImportOptions
    \<Rightarrow> (ImportError + ImportedRun) option" where
  "import_jsonl_path from_slice from_value now later shown_path opened options =
     (case opened of
        Inl reason \<Rightarrow> Some (Inl (IeIo ''open jsonl path'' shown_path reason))
      | Inr reader \<Rightarrow> import_jsonl_reader from_slice from_value now later reader options)"

end
