(* ===== verification/Tr_Intake.thy ===== *)
theory Tr_Intake
  imports Tr_Import "HOL-Library.Sublist"
begin

text \<open>
  What the tracing intake computes: the candidate of a single span, the candidates of a list of
  spans within the limits, the run that is imported from them, the agreement of the strict and
  the permissive mode, and the second import of the retained source spans.
\<close>

section \<open>The candidate of a span\<close>

datatype candidate =
    CandRequest RequestEvent bool
  | CandStage StageEvent bool
  | CandQueue QueueEvent

definition nonblank_field :: "SpanRecord \<Rightarrow> string \<Rightarrow> string option" where
  "nonblank_field span key = (case get_string_field_state span key of
       SfValue v \<Rightarrow> if is_blank v then None else Some v
     | _ \<Rightarrow> None)"

definition span_latency :: "SpanRecord \<Rightarrow> u64" where
  "span_latency span = elapsed_duration_us span (sp_started_at_run_us span) (sp_finished_at_run_us span)"

definition outcome_field :: "SpanRecord \<Rightarrow> (string \<times> bool) option" where
  "outcome_field span = (case bt_lookup (sp_fields span) TT_OUTCOME of
       None \<Rightarrow> Some (''ok'', True)
     | Some _ \<Rightarrow> map_option (\<lambda>v. (v, False)) (nonblank_field span TT_OUTCOME))"

definition success_field :: "SpanRecord \<Rightarrow> (bool \<times> bool) option" where
  "success_field span = (case bt_lookup (sp_fields span) TT_SUCCESS of
       None \<Rightarrow> Some (True, True)
     | Some (FvBool b) \<Rightarrow> Some (b, False)
     | Some (FvString v) \<Rightarrow>
         if eq_ignore_ascii_case v ''true'' then Some (True, False)
         else if eq_ignore_ascii_case v ''false'' then Some (False, False) else None
     | _ \<Rightarrow> None)"

definition depth_field :: "SpanRecord \<Rightarrow> u64 option option" where
  "depth_field span = (case bt_lookup (sp_fields span) TT_DEPTH_AT_START of
       None \<Rightarrow> Some None
     | Some (FvU64 v) \<Rightarrow> Some (Some v)
     | Some (FvI64 v) \<Rightarrow> if 0 \<le> sint v then Some (Some v) else None
     | _ \<Rightarrow> None)"

definition request_event :: "SpanRecord \<Rightarrow> string \<Rightarrow> string \<Rightarrow> string \<Rightarrow> RequestEvent" where
  "request_event span rid route outcome =
     \<lparr>req_request_id = rid, req_route = route, req_kind = None,
      req_started_at_unix_ms = sp_started_at_unix_ms span, req_started_at_run_us = sp_started_at_run_us span,
      req_finished_at_unix_ms = sp_finished_at_unix_ms span, req_finished_at_run_us = sp_finished_at_run_us span,
      req_latency_us = span_latency span, req_outcome = outcome\<rparr>"

definition stage_event :: "SpanRecord \<Rightarrow> string \<Rightarrow> string \<Rightarrow> bool \<Rightarrow> StageEvent" where
  "stage_event span rid stage success =
     \<lparr>stg_request_id = rid, stg_stage = stage,
      stg_started_at_unix_ms = sp_started_at_unix_ms span, stg_started_at_run_us = sp_started_at_run_us span,
      stg_finished_at_unix_ms = sp_finished_at_unix_ms span, stg_finished_at_run_us = sp_finished_at_run_us span,
      stg_latency_us = span_latency span, stg_success = success, stg_completed = True\<rparr>"

definition queue_event :: "SpanRecord \<Rightarrow> string \<Rightarrow> string \<Rightarrow> u64 option \<Rightarrow> QueueEvent" where
  "queue_event span rid queue depth =
     \<lparr>que_request_id = rid, que_queue = queue,
      que_waited_from_unix_ms = sp_started_at_unix_ms span, que_waited_from_run_us = sp_started_at_run_us span,
      que_waited_until_unix_ms = sp_finished_at_unix_ms span, que_waited_until_run_us = sp_finished_at_run_us span,
      que_wait_us = span_latency span, que_depth_at_start = depth, que_completed = True\<rparr>"

definition kind_field :: "SpanRecord \<Rightarrow> SpanKind option" where
  "kind_field span = (case get_string_field_state span TT_KIND of
       SfValue kind \<Rightarrow> span_kind_parse kind | _ \<Rightarrow> None)"

definition candidate_of :: "SpanRecord \<Rightarrow> candidate option" where
  "candidate_of span =
     (if sp_finished_at_unix_ms span < sp_started_at_unix_ms span then None
      else case kind_field span of
        None \<Rightarrow> None
      | Some SpanRequest \<Rightarrow>
          (case (nonblank_field span TT_REQUEST_ID, nonblank_field span TT_ROUTE, outcome_field span) of
             (Some rid, Some route, Some (outcome, defaulted)) \<Rightarrow>
               Some (CandRequest (request_event span rid route outcome) defaulted)
           | _ \<Rightarrow> None)
      | Some SpanStage \<Rightarrow>
          (case (nonblank_field span TT_REQUEST_ID, nonblank_field span TT_STAGE, success_field span) of
             (Some rid, Some stage, Some (success, defaulted)) \<Rightarrow>
               Some (CandStage (stage_event span rid stage success) defaulted)
           | _ \<Rightarrow> None)
      | Some SpanQueue \<Rightarrow>
          (case (nonblank_field span TT_REQUEST_ID, nonblank_field span TT_QUEUE, depth_field span) of
             (Some rid, Some queue, Some depth) \<Rightarrow> Some (CandQueue (queue_event span rid queue depth))
           | _ \<Rightarrow> None))"

definition acceptable :: "SpanRecord \<Rightarrow> bool" where
  "acceptable span \<longleftrightarrow> candidate_of span \<noteq> None \<or> \<not> span_has_tailtriage_field span"

section \<open>One span\<close>

definition push_candidate :: "CaptureLimits \<Rightarrow> nat \<Rightarrow> SpanRecord \<Rightarrow> candidate \<Rightarrow> conversion \<Rightarrow> conversion" where
  "push_candidate limits i span c cv =
     (let cv' = cv\<lparr>cv_source_spans := cv_source_spans cv @ [\<lparr>src_index = i, src_span = span\<rparr>]\<rparr>
      in case c of
        CandRequest e d \<Rightarrow>
          if length (cv_requests cv) \<ge> max_requests limits
          then cv\<lparr>cv_dropped_requests := saturating_add (cv_dropped_requests cv) 1\<rparr>
          else cv'\<lparr>cv_requests := cv_requests cv
                 @ [\<lparr>preq_source_index = i, preq_event = e, preq_outcome_defaulted = d\<rparr>]\<rparr>
      | CandStage e d \<Rightarrow>
          if length (cv_stages cv) \<ge> max_stages limits
          then cv\<lparr>cv_dropped_stages := saturating_add (cv_dropped_stages cv) 1\<rparr>
          else cv'\<lparr>cv_stages := cv_stages cv
                 @ [\<lparr>pstg_source_index = i, pstg_event = e, pstg_success_defaulted = d\<rparr>]\<rparr>
      | CandQueue e \<Rightarrow>
          if length (cv_queues cv) \<ge> max_queues limits
          then cv\<lparr>cv_dropped_queues := saturating_add (cv_dropped_queues cv) 1\<rparr>
          else cv'\<lparr>cv_queues := cv_queues cv @ [\<lparr>pque_source_index = i, pque_event = e\<rparr>]\<rparr>)"

text \<open>A field either has a value, read without a warning, or is reported by a message that
  depends on the span alone.\<close>

definition reports :: "bool \<Rightarrow> (ImportWarning list \<Rightarrow> ImportError + 'a \<times> ImportWarning list) \<Rightarrow> 'a \<Rightarrow> bool" where
  "reports strict f v \<longleftrightarrow> (\<exists>m. f = warned strict m v)"

lemma required_string_eq:
  "required_string span key strict = (case nonblank_field span key of
       Some v \<Rightarrow> (\<lambda>ws. Inr (Some v, ws))
     | None \<Rightarrow> required_string span key strict)"
  by (auto simp: fun_eq_iff required_string_def nonblank_field_def split: StringFieldState.split)

lemma required_string_reports:
  "nonblank_field span key = None \<Longrightarrow> reports strict (required_string span key strict) None"
  unfolding reports_def
  by (cases "get_string_field_state span key")
    (auto simp: fun_eq_iff required_string_def nonblank_field_def split: if_splits)

lemma parse_outcome_Some:
  "outcome_field span = Some p \<Longrightarrow> parse_outcome span strict = (\<lambda>ws. Inr (Some p, ws))"
  by (auto simp: fun_eq_iff parse_outcome_def outcome_field_def nonblank_field_def get_string_field_state_def
      split: option.splits FieldValue.splits if_splits)

lemma parse_outcome_reports:
  "outcome_field span = None \<Longrightarrow> reports strict (parse_outcome span strict) None"
  unfolding reports_def
  by (cases "get_string_field_state span TT_OUTCOME")
    (auto simp: fun_eq_iff parse_outcome_def outcome_field_def nonblank_field_def get_string_field_state_def
      split: option.splits FieldValue.splits if_splits)

lemma parse_success_Some:
  "success_field span = Some (b, d) \<Longrightarrow>
     parse_success span strict = (\<lambda>ws. Inr (if d then OfMissing else OfValue b, ws)) \<and> (d \<longrightarrow> b)"
  by (auto simp: fun_eq_iff parse_success_def success_field_def split: option.splits FieldValue.splits if_splits)

lemma parse_success_reports:
  "success_field span = None \<Longrightarrow> reports strict (parse_success span strict) OfInvalid"
  unfolding reports_def parse_success_def Let_def fun_eq_iff
  by (cases "bt_lookup (sp_fields span) TT_SUCCESS")
    (auto simp: success_field_def split: FieldValue.splits if_splits)

lemma parse_depth_Some:
  "depth_field span = Some d \<Longrightarrow> parse_depth_at_start span strict =
     (\<lambda>ws. Inr (case d of None \<Rightarrow> OfMissing | Some v \<Rightarrow> OfValue v, ws))"
  by (auto simp: fun_eq_iff parse_depth_at_start_def depth_field_def split: option.splits FieldValue.splits if_splits)

lemma parse_depth_reports:
  "depth_field span = None \<Longrightarrow> reports strict (parse_depth_at_start span strict) OfInvalid"
  unfolding reports_def parse_depth_at_start_def Let_def fun_eq_iff
  by (cases "bt_lookup (sp_fields span) TT_DEPTH_AT_START")
    (auto simp: depth_field_def split: FieldValue.splits if_splits)

lemma warned_simps [simp]:
  "warned True m v ws = Inl (StrictViolation m)"
  "warned False m v ws = Inr (v, push_import_warning (ImportWarning m) ws)"
  by (simp_all add: warned_def strict_or_warn_def)

text \<open>What a step does to a span without a candidate: an error, or nothing but warnings, which stay
  within their bound.\<close>

definition bounded_warns :: "(ImportWarning list \<Rightarrow> ImportWarning list) \<Rightarrow> bool" where
  "bounded_warns g \<longleftrightarrow> (\<forall>ws. length ws \<le> MAX_IMPORT_WARNINGS \<longrightarrow> length (g ws) \<le> MAX_IMPORT_WARNINGS)"

lemma bounded_warns_id [simp]: "bounded_warns (\<lambda>ws. ws)"
  by (simp add: bounded_warns_def)

lemma bounded_warns_push [simp]: "bounded_warns (push_import_warning w)"
  by (simp add: bounded_warns_def length_push_import_warning)

lemma bounded_warnsD:
  "bounded_warns g \<Longrightarrow> length ws \<le> MAX_IMPORT_WARNINGS \<Longrightarrow> length (g ws) \<le> MAX_IMPORT_WARNINGS"
  by (simp add: bounded_warns_def)

definition rejects :: "bool \<Rightarrow> conversion \<Rightarrow> ImportError + conversion \<Rightarrow> bool" where
  "rejects strict cv r \<longleftrightarrow> (if strict then \<exists>m. r = Inl (StrictViolation m) else \<exists>ws. r = Inr (cv\<lparr>cv_warnings := ws\<rparr>) \<and>
       (length (cv_warnings cv) \<le> MAX_IMPORT_WARNINGS \<longrightarrow> length ws \<le> MAX_IMPORT_WARNINGS))"

lemma required_string_Some:
  "nonblank_field span key = Some v \<Longrightarrow> required_string span key strict = (\<lambda>ws. Inr (Some v, ws))"
  by (subst required_string_eq) simp

lemma reports_strict: "reports True f v \<Longrightarrow> \<exists>m. \<forall>ws. f ws = Inl (StrictViolation m)"
  by (auto simp: reports_def)

lemma reports_permissive: "reports False f v \<Longrightarrow> \<exists>g. bounded_warns g \<and> (\<forall>ws. f ws = Inr (v, g ws))"
  by (auto simp: reports_def intro: exI [of _ "push_import_warning w" for w])

lemma required_string_permissive: "\<exists>g. bounded_warns g \<and> required_string span key False = (\<lambda>ws. Inr (nonblank_field span key, g ws))"
  using required_string_Some [of span key _ False]
    reports_permissive [OF required_string_reports [of span key False]]
  by (cases "nonblank_field span key") (force simp: fun_eq_iff intro: bounded_warns_id)+

lemma required_string_strict:
  "\<exists>m. required_string span key True = (\<lambda>ws. case nonblank_field span key of
       Some v \<Rightarrow> Inr (Some v, ws) | None \<Rightarrow> Inl (StrictViolation m))"
  using required_string_Some [of span key _ True] reports_strict [OF required_string_reports [of span key True]]
  by (cases "nonblank_field span key") (force simp: fun_eq_iff)+

lemma parse_outcome_both:
  "\<exists>g. bounded_warns g \<and> parse_outcome span False = (\<lambda>ws. Inr (outcome_field span, g ws))"
  "\<exists>m. parse_outcome span True = (\<lambda>ws. case outcome_field span of
       Some v \<Rightarrow> Inr (Some v, ws) | None \<Rightarrow> Inl (StrictViolation m))"
  using parse_outcome_Some [of span] reports_permissive [OF parse_outcome_reports [of span False]]
    reports_strict [OF parse_outcome_reports [of span True]]
  by (cases "outcome_field span"; force simp: fun_eq_iff intro: bounded_warns_id)+

lemmas convert_defs = convert_request_def convert_stage_def convert_queue_def
  sanitized_run_relative_offsets_def push_candidate_def Let_def span_latency_def
  request_event_def stage_event_def queue_event_def

lemma convert_request_some:
  "nonblank_field span TT_REQUEST_ID = Some rid \<Longrightarrow> nonblank_field span TT_ROUTE = Some route \<Longrightarrow>
   outcome_field span = Some (outcome, d) \<Longrightarrow>
   convert_request strict limits i span cv
     = Inr (push_candidate limits i span (CandRequest (request_event span rid route outcome) d) cv)"
  by (simp add: convert_defs required_string_Some parse_outcome_Some)

lemma convert_stage_some:
  "nonblank_field span TT_REQUEST_ID = Some rid \<Longrightarrow> nonblank_field span TT_STAGE = Some stage \<Longrightarrow>
   success_field span = Some (success, d) \<Longrightarrow>
   convert_stage strict limits i span cv
     = Inr (push_candidate limits i span (CandStage (stage_event span rid stage success) d) cv)"
  using parse_success_Some [of span success d strict]
  by (cases d) (simp_all add: convert_defs required_string_Some)

lemma convert_queue_some:
  "nonblank_field span TT_REQUEST_ID = Some rid \<Longrightarrow> nonblank_field span TT_QUEUE = Some queue \<Longrightarrow>
   depth_field span = Some depth \<Longrightarrow>
   convert_queue strict limits i span cv
     = Inr (push_candidate limits i span (CandQueue (queue_event span rid queue depth)) cv)"
  using parse_depth_Some [of span depth strict]
  by (cases depth) (simp_all add: convert_defs required_string_Some)

lemma conversion_self [simp]: "cv\<lparr>cv_warnings := cv_warnings cv\<rparr> = cv"
  by simp

lemma convert_request_none:
  assumes "nonblank_field span TT_REQUEST_ID = None \<or> nonblank_field span TT_ROUTE = None \<or> outcome_field span = None"
  shows "rejects strict cv (convert_request strict limits i span cv)"
proof (cases strict)
  case True
  obtain m1 m2 m3 where
    "required_string span TT_REQUEST_ID True = (\<lambda>ws. case nonblank_field span TT_REQUEST_ID of
       Some v \<Rightarrow> Inr (Some v, ws) | None \<Rightarrow> Inl (StrictViolation m1))"
    "required_string span TT_ROUTE True = (\<lambda>ws. case nonblank_field span TT_ROUTE of
       Some v \<Rightarrow> Inr (Some v, ws) | None \<Rightarrow> Inl (StrictViolation m2))"
    "parse_outcome span True = (\<lambda>ws. case outcome_field span of
       Some v \<Rightarrow> Inr (Some v, ws) | None \<Rightarrow> Inl (StrictViolation m3))"
    using required_string_strict parse_outcome_both(2) by metis
  then show ?thesis using True assms
    by (auto simp: rejects_def convert_request_def Let_def split: option.splits)
next
  case False
  obtain g1 g2 g3 where "bounded_warns g1" "bounded_warns g2" "bounded_warns g3" and
    "required_string span TT_REQUEST_ID False = (\<lambda>ws. Inr (nonblank_field span TT_REQUEST_ID, g1 ws))"
    "required_string span TT_ROUTE False = (\<lambda>ws. Inr (nonblank_field span TT_ROUTE, g2 ws))"
    "parse_outcome span False = (\<lambda>ws. Inr (outcome_field span, g3 ws))"
    using required_string_permissive parse_outcome_both(1) by metis
  then show ?thesis using False assms
    by (auto simp: rejects_def convert_request_def Let_def split: option.splits intro!: bounded_warnsD)
qed

lemma parse_success_both:
  "\<exists>g. bounded_warns g \<and> parse_success span False = (\<lambda>ws. Inr (case success_field span of
       None \<Rightarrow> OfInvalid | Some (b, d) \<Rightarrow> if d then OfMissing else OfValue b, g ws))"
  "\<exists>m. parse_success span True = (\<lambda>ws. case success_field span of
       Some (b, d) \<Rightarrow> Inr (if d then OfMissing else OfValue b, ws) | None \<Rightarrow> Inl (StrictViolation m))"
  using parse_success_Some [of span] reports_permissive [OF parse_success_reports [of span False]]
    reports_strict [OF parse_success_reports [of span True]]
  by (cases "success_field span"; force simp: fun_eq_iff intro: bounded_warns_id)+

lemma parse_depth_both:
  "\<exists>g. bounded_warns g \<and> parse_depth_at_start span False = (\<lambda>ws. Inr (case depth_field span of
       None \<Rightarrow> OfInvalid | Some d \<Rightarrow> (case d of None \<Rightarrow> OfMissing | Some v \<Rightarrow> OfValue v), g ws))"
  "\<exists>m. parse_depth_at_start span True = (\<lambda>ws. case depth_field span of
       Some d \<Rightarrow> Inr (case d of None \<Rightarrow> OfMissing | Some v \<Rightarrow> OfValue v, ws) | None \<Rightarrow> Inl (StrictViolation m))"
  using parse_depth_Some [of span] reports_permissive [OF parse_depth_reports [of span False]]
    reports_strict [OF parse_depth_reports [of span True]]
  by (cases "depth_field span"; force simp: fun_eq_iff intro: bounded_warns_id)+

lemma convert_stage_none:
  assumes "nonblank_field span TT_REQUEST_ID = None \<or> nonblank_field span TT_STAGE = None \<or> success_field span = None"
  shows "rejects strict cv (convert_stage strict limits i span cv)"
proof (cases strict)
  case True
  obtain m1 m2 m3 where
    "required_string span TT_REQUEST_ID True = (\<lambda>ws. case nonblank_field span TT_REQUEST_ID of
       Some v \<Rightarrow> Inr (Some v, ws) | None \<Rightarrow> Inl (StrictViolation m1))"
    "required_string span TT_STAGE True = (\<lambda>ws. case nonblank_field span TT_STAGE of
       Some v \<Rightarrow> Inr (Some v, ws) | None \<Rightarrow> Inl (StrictViolation m2))"
    "parse_success span True = (\<lambda>ws. case success_field span of
       Some (b, d) \<Rightarrow> Inr (if d then OfMissing else OfValue b, ws) | None \<Rightarrow> Inl (StrictViolation m3))"
    using required_string_strict parse_success_both(2) by metis
  then show ?thesis using True assms
    by (auto simp: rejects_def convert_stage_def Let_def split: option.splits)
next
  case False
  obtain g1 g2 g3 where "bounded_warns g1" "bounded_warns g2" "bounded_warns g3" and
    "required_string span TT_REQUEST_ID False = (\<lambda>ws. Inr (nonblank_field span TT_REQUEST_ID, g1 ws))"
    "required_string span TT_STAGE False = (\<lambda>ws. Inr (nonblank_field span TT_STAGE, g2 ws))"
    "parse_success span False = (\<lambda>ws. Inr (case success_field span of
       None \<Rightarrow> OfInvalid | Some (b, d) \<Rightarrow> if d then OfMissing else OfValue b, g3 ws))"
    using required_string_permissive parse_success_both(1) by metis
  then show ?thesis using False assms
    by (auto simp: rejects_def convert_stage_def Let_def split: option.splits intro!: bounded_warnsD)
qed

lemma convert_queue_none:
  assumes "nonblank_field span TT_REQUEST_ID = None \<or> nonblank_field span TT_QUEUE = None \<or> depth_field span = None"
  shows "rejects strict cv (convert_queue strict limits i span cv)"
proof (cases strict)
  case True
  obtain m1 m2 m3 where
    "required_string span TT_REQUEST_ID True = (\<lambda>ws. case nonblank_field span TT_REQUEST_ID of
       Some v \<Rightarrow> Inr (Some v, ws) | None \<Rightarrow> Inl (StrictViolation m1))"
    "required_string span TT_QUEUE True = (\<lambda>ws. case nonblank_field span TT_QUEUE of
       Some v \<Rightarrow> Inr (Some v, ws) | None \<Rightarrow> Inl (StrictViolation m2))"
    "parse_depth_at_start span True = (\<lambda>ws. case depth_field span of
       Some d \<Rightarrow> Inr (case d of None \<Rightarrow> OfMissing | Some v \<Rightarrow> OfValue v, ws) | None \<Rightarrow> Inl (StrictViolation m3))"
    using required_string_strict parse_depth_both(2) by metis
  then show ?thesis using True assms
    by (auto simp: rejects_def convert_queue_def Let_def split: option.splits)
next
  case False
  obtain g1 g2 g3 where "bounded_warns g1" "bounded_warns g2" "bounded_warns g3" and
    "required_string span TT_REQUEST_ID False = (\<lambda>ws. Inr (nonblank_field span TT_REQUEST_ID, g1 ws))"
    "required_string span TT_QUEUE False = (\<lambda>ws. Inr (nonblank_field span TT_QUEUE, g2 ws))"
    "parse_depth_at_start span False = (\<lambda>ws. Inr (case depth_field span of
       None \<Rightarrow> OfInvalid | Some d \<Rightarrow> (case d of None \<Rightarrow> OfMissing | Some v \<Rightarrow> OfValue v), g3 ws))"
    using required_string_permissive parse_depth_both(1) by metis
  then show ?thesis using False assms
    by (auto simp: rejects_def convert_queue_def Let_def split: option.splits intro!: bounded_warnsD)
qed

lemma starts_with_append [simp]: "starts_with (p @ s) p"
  by (simp add: starts_with_def)

lemma tt_key_field:
  "bt_lookup (sp_fields span) key = Some v \<Longrightarrow> starts_with key ''tt.'' \<Longrightarrow> span_has_tailtriage_field span"
  by (auto simp: span_has_tailtriage_field_def list_ex_iff bt_lookup_def dest: map_of_SomeD)

lemma skip_rejects:
  "rejects strict cv (and_then (strict_or_warn strict m (cv_warnings cv)) (\<lambda>ws. Inr (cv\<lparr>cv_warnings := ws\<rparr>)))"
  by (auto simp: rejects_def strict_or_warn_def length_push_import_warning)

lemma convert_span_some:
  assumes "candidate_of span = Some c"
  shows "convert_span strict limits i span cv = Inr (push_candidate limits i span c cv)"
proof -
  obtain kind where k: "get_string_field_state span TT_KIND = SfValue kind" "kind_field span = span_kind_parse kind"
    "kind_field span \<noteq> None"
    using assms by (auto simp: candidate_of_def kind_field_def split: if_splits option.splits StringFieldState.splits)
  have t: "\<not> sp_finished_at_unix_ms span < sp_started_at_unix_ms span"
    using assms by (auto simp: candidate_of_def split: if_splits)
  show ?thesis
    using assms k t
    by (auto simp: convert_span_def candidate_of_def convert_request_some convert_stage_some convert_queue_some
        split: option.splits SpanKind.splits)
qed

lemma convert_span_none:
  assumes "candidate_of span = None"
  shows "if span_has_tailtriage_field span then rejects strict cv (convert_span strict limits i span cv)
         else convert_span strict limits i span cv = Inr cv"
proof (cases "get_string_field_state span TT_KIND")
  case SfMissing
  then show ?thesis by (simp add: convert_span_def Let_def skip_rejects)
next
  case (SfValue kind)
  then have tt: "span_has_tailtriage_field span"
    by (auto simp: get_string_field_state_def starts_with_def TT_KIND_def split: option.splits FieldValue.splits
        intro: tt_key_field)
  show ?thesis
  proof (cases "span_kind_parse kind")
    case None
    with SfValue tt show ?thesis by (simp add: convert_span_def Let_def skip_rejects)
  next
    case (Some k)
    with SfValue have k: "kind_field span = Some k" by (simp add: kind_field_def)
    show ?thesis
    proof (cases "sp_finished_at_unix_ms span < sp_started_at_unix_ms span")
      case True
      with SfValue Some tt show ?thesis by (simp add: convert_span_def Let_def skip_rejects)
    next
      case False
      have "rejects strict cv (case k of
          SpanRequest \<Rightarrow> convert_request strict limits i span cv
        | SpanStage \<Rightarrow> convert_stage strict limits i span cv
        | SpanQueue \<Rightarrow> convert_queue strict limits i span cv)"
        using assms k False convert_request_none [of span strict cv limits i]
          convert_stage_none [of span strict cv limits i] convert_queue_none [of span strict cv limits i]
        by (auto simp: candidate_of_def split: option.splits SpanKind.splits prod.splits)
      with SfValue Some tt False show ?thesis by (simp add: convert_span_def Let_def)
    qed
  qed
next
  case SfInvalidType
  then have "span_has_tailtriage_field span"
    by (auto simp: get_string_field_state_def starts_with_def TT_KIND_def split: option.splits FieldValue.splits
        intro: tt_key_field)
  with SfInvalidType show ?thesis by (simp add: convert_span_def Let_def skip_rejects)
qed

section \<open>The loop\<close>

type_synonym entry = "nat \<times> SpanRecord \<times> candidate"

fun entries :: "nat \<Rightarrow> SpanRecord list \<Rightarrow> entry list" where
  "entries i [] = []"
| "entries i (s # ss) = (case candidate_of s of None \<Rightarrow> [] | Some c \<Rightarrow> [(i, s, c)]) @ entries (Suc i) ss"

definition push_entry :: "CaptureLimits \<Rightarrow> conversion \<Rightarrow> entry \<Rightarrow> conversion" where
  "push_entry limits cv = (\<lambda>(i, s, c). push_candidate limits i s c cv)"

definition collected :: "CaptureLimits \<Rightarrow> SpanRecord list \<Rightarrow> conversion" where
  "collected limits spans = foldl (push_entry limits) conversion_start (entries 0 spans)"

lemma push_entry_warnings [simp]:
  "push_entry limits (cv\<lparr>cv_warnings := ws\<rparr>) e = (push_entry limits cv e)\<lparr>cv_warnings := ws\<rparr>"
  by (cases e) (simp add: push_entry_def push_candidate_def Let_def split: candidate.split)

lemma push_entry_keeps_warnings [simp]: "cv_warnings (push_entry limits cv e) = cv_warnings cv"
  by (cases e) (simp add: push_entry_def push_candidate_def Let_def split: candidate.split)

lemma foldl_push_entry_keeps_warnings [simp]: "cv_warnings (foldl (push_entry limits) cv es) = cv_warnings cv"
  by (induction es arbitrary: cv) simp_all

lemma foldl_push_entry_warnings [simp]:
  "foldl (push_entry limits) (cv\<lparr>cv_warnings := ws\<rparr>) es = (foldl (push_entry limits) cv es)\<lparr>cv_warnings := ws\<rparr>"
  by (induction es arbitrary: cv) simp_all

lemma convert_spans_acceptable:
  "list_all acceptable spans \<Longrightarrow>
   convert_spans strict limits i (map Inr spans) cv = Inr (foldl (push_entry limits) cv (entries i spans))"
proof (induction spans arbitrary: i cv)
  case (Cons s spans)
  then show ?case
    using convert_span_none [of s strict cv limits i]
    by (cases "candidate_of s") (simp_all add: acceptable_def convert_span_some push_entry_def)
qed simp

lemma convert_spans_permissive:
  "length (cv_warnings cv) \<le> MAX_IMPORT_WARNINGS \<Longrightarrow> \<exists>ws. convert_spans False limits i (map Inr spans) cv
     = Inr ((foldl (push_entry limits) cv (entries i spans))\<lparr>cv_warnings := ws\<rparr>) \<and> length ws \<le> MAX_IMPORT_WARNINGS"
proof (induction spans arbitrary: i cv)
  case (Cons s spans)
  show ?case
  proof (cases "candidate_of s")
    case None
    obtain ws where "convert_span False limits i s cv = Inr (cv\<lparr>cv_warnings := ws\<rparr>)"
      "length ws \<le> MAX_IMPORT_WARNINGS"
    proof (cases "span_has_tailtriage_field s")
      case True
      then show ?thesis using convert_span_none [OF None, of False cv limits i] Cons.prems that
        by (auto simp: rejects_def)
    next
      case False
      then show ?thesis using convert_span_none [OF None, of False cv limits i] Cons.prems
          that [of "cv_warnings cv"] by simp
    qed
    with None Cons.IH [of "cv\<lparr>cv_warnings := ws\<rparr>" "Suc i"] show ?thesis by auto
  next
    case (Some c)
    then show ?thesis using Cons.IH [of "push_candidate limits i s c cv" "Suc i"] Cons.prems
        push_entry_keeps_warnings [of limits cv "(i, s, c)"]
      by (simp add: convert_span_some push_entry_def)
  qed
next
  case (Nil i cv)
  then show ?case by (intro exI [of _ "cv_warnings cv"]) simp
qed

lemma convert_spans_strict_error:
  "\<not> list_all acceptable spans \<Longrightarrow> \<exists>m. convert_spans True limits i (map Inr spans) cv = Inl (StrictViolation m)"
proof (induction spans arbitrary: i cv)
  case (Cons s spans)
  show ?case
  proof (cases "acceptable s")
    case True
    then have "\<exists>cv'. convert_span True limits i s cv = Inr cv'"
      using convert_span_none [of s True cv limits i]
      by (cases "candidate_of s") (auto simp: acceptable_def convert_span_some)
    then show ?thesis using Cons True by auto
  next
    case False
    then show ?thesis using convert_span_none [of s True cv limits i] by (auto simp: acceptable_def rejects_def)
  qed
qed simp

subsection \<open>What the loop collects\<close>

fun request_entry :: "entry \<Rightarrow> ParsedRequestEvent option" where
  "request_entry (i, s, CandRequest e d) = Some \<lparr>preq_source_index = i, preq_event = e, preq_outcome_defaulted = d\<rparr>"
| "request_entry _ = None"

fun stage_entry :: "entry \<Rightarrow> ParsedStageEvent option" where
  "stage_entry (i, s, CandStage e d) = Some \<lparr>pstg_source_index = i, pstg_event = e, pstg_success_defaulted = d\<rparr>"
| "stage_entry _ = None"

fun queue_entry :: "entry \<Rightarrow> ParsedQueueEvent option" where
  "queue_entry (i, s, CandQueue e) = Some \<lparr>pque_source_index = i, pque_event = e\<rparr>"
| "queue_entry _ = None"

definition source_entry :: "SourceSpan \<Rightarrow> entry" where
  "source_entry s = (src_index s, src_span s, the (candidate_of (src_span s)))"

lemma map_filter_append [simp]: "List.map_filter f (xs @ ys) = List.map_filter f xs @ List.map_filter f ys"
  by (simp add: List.map_filter_def)

lemma map_filter_single [simp]: "List.map_filter f [x] = (case f x of None \<Rightarrow> [] | Some y \<Rightarrow> [y])"
  by (simp add: List.map_filter_def split: option.split)

lemma in_set_map_filter: "y \<in> set (List.map_filter f xs) \<longleftrightarrow> (\<exists>x\<in>set xs. f x = Some y)"
  by (induction xs) (auto simp: List.map_filter_simps split: option.splits)

text \<open>The section of a candidate keeps the first so many and counts the rest.\<close>

definition kept_and_dropped :: "'e list \<Rightarrow> u64 \<Rightarrow> nat \<Rightarrow> 'e list \<Rightarrow> bool" where
  "kept_and_dropped kept dropped limit xs \<longleftrightarrow>
     kept = take limit xs \<and> dropped = u64_sat_of_nat (length xs - limit)"

lemma sat_one: "saturating_add (u64_sat_of_nat n) 1 = u64_sat_of_nat (Suc n)"
  by (simp add: word_unat_eq_iff u64_arith)

lemma kept_and_dropped_push:
  assumes "kept_and_dropped kept dropped limit xs"
  shows "limit \<le> length kept \<Longrightarrow> kept_and_dropped kept (saturating_add dropped 1) limit (xs @ [x])"
    and "length kept < limit \<Longrightarrow> kept_and_dropped (kept @ [x]) dropped limit (xs @ [x])"
  using assms by (auto simp: kept_and_dropped_def sat_one Suc_diff_le min_def split: if_splits)

definition collects :: "CaptureLimits \<Rightarrow> entry list \<Rightarrow> conversion \<Rightarrow> bool" where
  "collects limits es cv \<longleftrightarrow>
     kept_and_dropped (cv_requests cv) (cv_dropped_requests cv) (max_requests limits) (List.map_filter request_entry es) \<and>
     kept_and_dropped (cv_stages cv) (cv_dropped_stages cv) (max_stages limits) (List.map_filter stage_entry es) \<and>
     kept_and_dropped (cv_queues cv) (cv_dropped_queues cv) (max_queues limits) (List.map_filter queue_entry es) \<and>
     cv_requests cv = List.map_filter request_entry (map source_entry (cv_source_spans cv)) \<and>
     cv_stages cv = List.map_filter stage_entry (map source_entry (cv_source_spans cv)) \<and>
     cv_queues cv = List.map_filter queue_entry (map source_entry (cv_source_spans cv)) \<and>
     set (map source_entry (cv_source_spans cv)) \<subseteq> set es \<and>
     sorted_wrt (<) (map src_index (cv_source_spans cv)) \<and>
     subseq (map src_span (cv_source_spans cv)) (map (\<lambda>(_, s, _). s) es)"

lemma collects_sections:
  assumes "collects limits es cv"
  shows "cv_requests cv = List.map_filter request_entry (map source_entry (cv_source_spans cv))"
    and "cv_stages cv = List.map_filter stage_entry (map source_entry (cv_source_spans cv))"
    and "cv_queues cv = List.map_filter queue_entry (map source_entry (cv_source_spans cv))"
  using assms by (simp_all add: collects_def)

lemma collects_push:
  assumes "collects limits es cv" "candidate_of s = Some c" "\<forall>e\<in>set es. fst e < i"
  shows "collects limits (es @ [(i, s, c)]) (push_entry limits cv (i, s, c))"
proof -
  have entry: "source_entry \<lparr>src_index = i, src_span = s\<rparr> = (i, s, c)"
    using assms(2) by (simp add: source_entry_def)
  have below: "src_index x < i" if "x \<in> set (cv_source_spans cv)" for x
    using that assms(1,3) by (force simp: collects_def source_entry_def)
  show ?thesis
    using assms(1) below
    by (cases c)
      (auto simp: collects_def push_entry_def push_candidate_def Let_def entry sorted_wrt_append not_le
        intro: kept_and_dropped_push list_emb_append_mono list_emb_append2)
qed

lemma entries_index: "e \<in> set (entries i spans) \<Longrightarrow> i \<le> fst e \<and> fst e < i + length spans"
  by (induction spans arbitrary: i) (force split: option.splits)+

lemma entries_mem: "(j, s, c) \<in> set (entries i spans) \<Longrightarrow> candidate_of s = Some c \<and> j - i < length spans \<and> s = spans ! (j - i)"
proof (induction spans arbitrary: i)
  case (Cons s' spans)
  show ?case
  proof (cases "(j, s, c) \<in> set (entries (Suc i) spans)")
    case True
    with Cons.IH entries_index [OF this] show ?thesis by (auto simp: nth_Cons' Suc_diff_le less_eq_Suc_le)
  next
    case False
    with Cons.prems show ?thesis by (auto split: option.splits)
  qed
qed simp

lemma subseq_entries: "subseq (map (\<lambda>(_, s, _). s) (entries i spans)) spans"
  by (induction spans arbitrary: i) (auto split: option.split)

lemma entries_snoc:
  "entries i (spans @ [s]) = entries i spans
     @ (case candidate_of s of None \<Rightarrow> [] | Some c \<Rightarrow> [(i + length spans, s, c)])"
  by (induction spans arbitrary: i) (auto split: option.splits)

lemma collected_collects: "collects limits (entries 0 spans) (collected limits spans)"
proof (induction spans rule: rev_induct)
  case Nil
  show ?case
    by (simp add: collected_def collects_def conversion_start_def kept_and_dropped_def u64_sat_of_nat_def
        List.map_filter_def)
next
  case (snoc s spans)
  have "\<forall>e\<in>set (entries 0 spans). fst e < length spans"
    using entries_index [of _ 0 spans] by auto
  then show ?case
    using snoc collects_push [OF snoc, of s _ "length spans"]
    by (cases "candidate_of s") (simp_all add: collected_def entries_snoc)
qed

section \<open>The join of dispositions and sources\<close>

lemma all_some_eq: "all_some f xs = Some ys \<longleftrightarrow> map f xs = map Some ys"
  by (induction xs arbitrary: ys) (auto split: option.splits simp: Cons_eq_map_conv)

lemma find_append: "find P (xs @ ys) = (case find P xs of None \<Rightarrow> find P ys | Some x \<Rightarrow> Some x)"
  by (induction xs) simp_all

lemma find_enumerated:
  "find (\<lambda>i. cs_section i = sect \<and> cs_input_index i = j)
      (map (\<lambda>(i, src). \<lparr>cs_section = sect', cs_input_index = i, cs_source_index = src\<rparr>) (enumerate n indices)) =
     (if sect = sect' \<and> n \<le> j \<and> j - n < length indices
      then Some \<lparr>cs_section = sect, cs_input_index = j, cs_source_index = indices ! (j - n)\<rparr> else None)"
proof (induction indices arbitrary: n)
  case (Cons x indices)
  then show ?case by (auto simp: nth_Cons' Suc_le_eq)
qed simp

lemma find_candidate_inputs:
  "find (\<lambda>i. cs_section i = sect \<and> cs_input_index i = j) (candidate_inputs sect' indices) =
     (if sect = sect' \<and> j < length indices
      then Some \<lparr>cs_section = sect, cs_input_index = j, cs_source_index = indices ! j\<rparr> else None)"
  using find_enumerated [of sect j sect' 0 indices] by (simp add: candidate_inputs_def)

lemma source_index_of_candidates:
  "source_index_of (from_candidates rs ss qs) Requests j =
     (if j < length rs then Some (preq_source_index (rs ! j)) else None)"
  "source_index_of (from_candidates rs ss qs) Stages j =
     (if j < length ss then Some (pstg_source_index (ss ! j)) else None)"
  "source_index_of (from_candidates rs ss qs) Queues j =
     (if j < length qs then Some (pque_source_index (qs ! j)) else None)"
  by (simp_all add: source_index_of_def from_candidates_def find_append find_candidate_inputs)

definition section_outcomes :: "RunSection \<Rightarrow> nat list \<Rightarrow> codes list \<Rightarrow> SourceOutcome list" where
  "section_outcomes sect indices ivs =
     map (\<lambda>d. \<lparr>so_source_index = indices ! disp_input_index d, so_section = sect,
        so_input_index = disp_input_index d, so_outcome = source_outcome_kind (disp_disposition d)\<rparr>)
       (add_disps_from 0 0 sect ivs)"

lemma disposed_sel [simp]:
  "disp_section (disposed sect i k) = sect" "disp_input_index (disposed sect i k) = i"
  "disp_disposition (disposed sect i k) = k"
  by (simp_all add: disposed_def)

lemma length_section_outcomes [simp]: "length (section_outcomes sect indices ivs) = length ivs"
  by (simp add: section_outcomes_def)

lemma section_outcomes_nth:
  "j < length ivs \<Longrightarrow> section_outcomes sect indices ivs ! j =
     \<lparr>so_source_index = indices ! j, so_section = sect, so_input_index = j,
      so_outcome = (if ivs ! j = [] then SourceRetained (length (filter (\<lambda>cs. cs = []) (take j ivs)))
                    else SourceExcluded (ivs ! j))\<rparr>"
  by (simp add: section_outcomes_def add_disps_from_nth)

lemma section_outcomes_indices:
  "length ivs = length indices \<Longrightarrow> map so_source_index (section_outcomes sect indices ivs) = indices"
  by (rule nth_equalityI) (simp_all add: section_outcomes_nth)

lemma is_retained_simps [simp]:
  "is_retained (SourceRetained j)" "\<not> is_retained (SourceExcluded cs)"
  by (simp_all add: is_retained_def)

lemma section_outcomes_retained:
  "so_source_index ` {x \<in> set (section_outcomes sect indices ivs). is_retained (so_outcome x)}
     = {indices ! j | j. j < length ivs \<and> ivs ! j = []}"
proof -
  let ?os = "section_outcomes sect indices ivs"
  have "is_retained (so_outcome (?os ! j)) \<longleftrightarrow> ivs ! j = []" "so_source_index (?os ! j) = indices ! j"
    if "j < length ivs" for j
    using that by (simp_all add: section_outcomes_nth)
  moreover have "{x \<in> set ?os. is_retained (so_outcome x)}
      = (\<lambda>j. ?os ! j) ` {j. j < length ivs \<and> is_retained (so_outcome (?os ! j))}"
    by (auto simp: in_set_conv_nth)
  ultimately show ?thesis by (force simp: image_iff)
qed

lemma map_source_outcome:
  assumes "\<And>j. j < length ivs \<Longrightarrow> source_index_of inputs sect j = Some (indices ! j)"
  shows "map (source_outcome inputs) (add_disps_from 0 0 sect ivs) = map Some (section_outcomes sect indices ivs)"
  by (rule nth_equalityI) (simp_all add: section_outcomes_def add_disps_from_nth source_outcome_def assms)

lemma is_candidate_section_simps [simp]:
  "is_candidate_section Requests" "is_candidate_section Stages" "is_candidate_section Queues"
  "\<not> is_candidate_section Inflight" "\<not> is_candidate_section RuntimeSnapshots"
  by (simp_all add: is_candidate_section_def)

lemma filter_candidate_sections:
  "filter (\<lambda>d. is_candidate_section (disp_section d)) (add_disps_from out i sect ivs)
     = (if is_candidate_section sect then add_disps_from out i sect ivs else [])"
  by (induction ivs arbitrary: out i) auto

text \<open>Whether the normalization of a run keeps the event of a source span.\<close>

definition keeps :: "Run \<Rightarrow> SpanRecord \<Rightarrow> bool" where
  "keeps run span = (case candidate_of span of
       Some (CandRequest e _) \<Rightarrow> keep_request (run_requests run) e
     | Some (CandStage e _) \<Rightarrow> keep_stage (run_requests run) e
     | Some (CandQueue e) \<Rightarrow> keep_queue (run_requests run) e
     | None \<Rightarrow> False)"

definition holds_sections :: "conversion \<Rightarrow> Run \<Rightarrow> bool" where
  "holds_sections cv run \<longleftrightarrow>
     run_requests run = map preq_event (cv_requests cv) \<and> run_stages run = map pstg_event (cv_stages cv) \<and>
     run_queues run = map pque_event (cv_queues cv)"

definition all_outcomes :: "conversion \<Rightarrow> Run \<Rightarrow> SourceOutcome list" where
  "all_outcomes cv run =
     section_outcomes Requests (map preq_source_index (cv_requests cv))
       (map (request_codes_in (run_requests run)) (run_requests run))
     @ section_outcomes Stages (map pstg_source_index (cv_stages cv))
       (map (stages.child_codes (parent_of (run_requests run))) (run_stages run))
     @ section_outcomes Queues (map pque_source_index (cv_queues cv))
       (map (queues.child_codes (parent_of (run_requests run))) (run_queues run))"

lemma from_normalized_eq:
  assumes "holds_sections cv run"
  shows "from_normalized (from_candidates (cv_requests cv) (cv_stages cv) (cv_queues cv)) (normalize_run_permissive run)
    = Some (sort_key source_outcome_sort_key (all_outcomes cv run))"
proof -
  let ?in = "from_candidates (cv_requests cv) (cv_stages cv) (cv_queues cv)"
  have ls: "length (run_requests run) = length (cv_requests cv)" "length (run_stages run) = length (cv_stages cv)"
    "length (run_queues run) = length (cv_queues cv)"
    using assms by (simp_all add: holds_sections_def)
  have "all_some (source_outcome ?in)
      (filter (\<lambda>d. is_candidate_section (disp_section d)) (all_dispositions run)) = Some (all_outcomes cv run)"
    unfolding all_some_eq all_dispositions_def all_outcomes_def
    by (simp add: filter_candidate_sections)
      (intro conjI map_source_outcome; simp add: ls source_index_of_candidates)
  then show ?thesis by (simp add: from_normalized_def report_of_normalize)
qed

lemma indexed_image:
  "{map g xs ! j | j. j < length (map h (map f xs)) \<and> map h (map f xs) ! j = []} = g ` {x \<in> set xs. h (f x) = []}"
  by (force simp: in_set_conv_nth image_iff)

lemma image_via:
  "(\<And>p. p \<in> P \<longleftrightarrow> (\<exists>s\<in>S. e s = Some p)) \<Longrightarrow> (\<And>s p. e s = Some p \<Longrightarrow> g p = h s) \<Longrightarrow>
   g ` {p \<in> P. k p} = h ` {s \<in> S. \<exists>p. e s = Some p \<and> k p}"
  by (force simp: image_iff)

lemma retained_indices:
  assumes sections: "holds_sections cv run" and c: "collects limits (entries 0 spans) cv"
  shows "so_source_index ` {x \<in> set (all_outcomes cv run). is_retained (so_outcome x)}
    = src_index ` {s \<in> set (cv_source_spans cv). keeps run (src_span s)}"
proof -
  have split: "f ` {x \<in> set (A @ B @ C). P x} = f ` {x \<in> set A. P x} \<union> f ` {x \<in> set B. P x} \<union> f ` {x \<in> set C. P x}"
    for f :: "SourceOutcome \<Rightarrow> nat" and A B C P by auto
  have ids: "run_requests run = map preq_event (cv_requests cv)" "run_stages run = map pstg_event (cv_stages cv)"
    "run_queues run = map pque_event (cv_queues cv)"
    using sections by (simp_all add: holds_sections_def)
  have outcomes: "so_source_index ` {x \<in> set (all_outcomes cv run). is_retained (so_outcome x)} =
      preq_source_index ` {p \<in> set (cv_requests cv). keep_request (run_requests run) (preq_event p)}
      \<union> pstg_source_index ` {p \<in> set (cv_stages cv). keep_stage (run_requests run) (pstg_event p)}
      \<union> pque_source_index ` {p \<in> set (cv_queues cv). keep_queue (run_requests run) (pque_event p)}"
    unfolding all_outcomes_def split section_outcomes_retained
    unfolding ids(2,3) indexed_image stages.child_codes_Nil queues.child_codes_Nil stages_child_keep queues_child_keep
    using indexed_image [where g = preq_source_index and xs = "cv_requests cv" and f = preq_event
        and h = "request_codes_in (run_requests run)"]
    by (simp add: ids(1) request_codes_in_Nil)
  have cand: "candidate_of (src_span s) \<noteq> None" if "s \<in> set (cv_source_spans cv)" for s
    using c that entries_mem [of "src_index s" "src_span s" _ 0 spans]
    by (auto simp: collects_def source_entry_def image_subset_iff)
  have mem: "p \<in> set (cv_requests cv) \<longleftrightarrow> (\<exists>s\<in>set (cv_source_spans cv). request_entry (source_entry s) = Some p)"
    "p' \<in> set (cv_stages cv) \<longleftrightarrow> (\<exists>s\<in>set (cv_source_spans cv). stage_entry (source_entry s) = Some p')"
    "p'' \<in> set (cv_queues cv) \<longleftrightarrow> (\<exists>s\<in>set (cv_source_spans cv). queue_entry (source_entry s) = Some p'')"
    for p p' p''
    unfolding collects_sections [OF c] by (simp_all add: in_set_map_filter)
  have index: "request_entry (source_entry s) = Some p \<Longrightarrow> preq_source_index p = src_index s"
    "stage_entry (source_entry s) = Some p' \<Longrightarrow> pstg_source_index p' = src_index s"
    "queue_entry (source_entry s) = Some p'' \<Longrightarrow> pque_source_index p'' = src_index s" for s p p' p''
    by (cases "the (candidate_of (src_span s))"; auto simp: source_entry_def)+
  have keep: "keeps run (src_span s) \<longleftrightarrow>
      (\<exists>p. request_entry (source_entry s) = Some p \<and> keep_request (run_requests run) (preq_event p))
      \<or> (\<exists>p. stage_entry (source_entry s) = Some p \<and> keep_stage (run_requests run) (pstg_event p))
      \<or> (\<exists>p. queue_entry (source_entry s) = Some p \<and> keep_queue (run_requests run) (pque_event p))"
    if src: "s \<in> set (cv_source_spans cv)" for s
  proof -
    obtain d where "candidate_of (src_span s) = Some d" using cand [OF src] by auto
    then show ?thesis by (cases d) (simp_all add: keeps_def source_entry_def)
  qed
  have "{s \<in> set (cv_source_spans cv). keeps run (src_span s)} =
      {s \<in> set (cv_source_spans cv). \<exists>p. request_entry (source_entry s) = Some p \<and> keep_request (run_requests run) (preq_event p)}
      \<union> {s \<in> set (cv_source_spans cv). \<exists>p. stage_entry (source_entry s) = Some p \<and> keep_stage (run_requests run) (pstg_event p)}
      \<union> {s \<in> set (cv_source_spans cv). \<exists>p. queue_entry (source_entry s) = Some p \<and> keep_queue (run_requests run) (pque_event p)}"
    using keep by blast
  then have "src_index ` {s \<in> set (cv_source_spans cv). keeps run (src_span s)} =
      preq_source_index ` {p \<in> set (cv_requests cv). keep_request (run_requests run) (preq_event p)}
      \<union> pstg_source_index ` {p \<in> set (cv_stages cv). keep_stage (run_requests run) (pstg_event p)}
      \<union> pque_source_index ` {p \<in> set (cv_queues cv). keep_queue (run_requests run) (pque_event p)}"
    by (simp only: image_Un image_via [where e = "\<lambda>s. request_entry (source_entry s)", OF mem(1) index(1)]
        image_via [where e = "\<lambda>s. stage_entry (source_entry s)", OF mem(2) index(2)]
        image_via [where e = "\<lambda>s. queue_entry (source_entry s)", OF mem(3) index(3)])
  with outcomes show ?thesis by simp
qed

lemma sorted_same_set: "sorted_wrt (<) xs \<Longrightarrow> sorted_wrt (<) ys \<Longrightarrow> set xs = set ys \<Longrightarrow> xs = ys"
  for xs ys :: "nat list"
  by (simp add: strict_sorted_iff sorted_distinct_set_unique)

lemma mset_source_indices:
  assumes "\<forall>s\<in>set ss. candidate_of (src_span s) \<noteq> None"
  shows "mset (map src_index ss)
    = mset (map preq_source_index (List.map_filter request_entry (map source_entry ss)))
    + mset (map pstg_source_index (List.map_filter stage_entry (map source_entry ss)))
    + mset (map pque_source_index (List.map_filter queue_entry (map source_entry ss)))"
  using assms
proof (induction ss)
  case (Cons s ss)
  then obtain c where "candidate_of (src_span s) = Some c" by auto
  with Cons show ?case by (cases c) (simp_all add: source_entry_def List.map_filter_def)
qed (simp add: List.map_filter_def)

lemma find_source:
  "sorted_wrt (<) (map src_index ss) \<Longrightarrow> s \<in> set ss \<Longrightarrow> find (\<lambda>x. src_index x = src_index s) ss = Some s"
  by (induction ss) auto

lemma collects_candidates:
  assumes "collects limits (entries 0 spans) cv" "s \<in> set (cv_source_spans cv)"
  shows "candidate_of (src_span s) \<noteq> None" "src_index s < length spans" "src_span s = spans ! src_index s"
  using assms entries_mem [of "src_index s" "src_span s" "the (candidate_of (src_span s))" 0 spans]
  by (auto simp: collects_def source_entry_def image_subset_iff)

lemma distinct_outcome_sources:
  assumes "holds_sections cv run" "collects limits (entries 0 spans) cv"
  shows "distinct (map so_source_index (all_outcomes cv run))"
proof -
  have "map so_source_index (all_outcomes cv run) = map preq_source_index (cv_requests cv)
      @ map pstg_source_index (cv_stages cv) @ map pque_source_index (cv_queues cv)"
    using assms(1) by (simp add: all_outcomes_def holds_sections_def section_outcomes_indices)
  then have "mset (map so_source_index (all_outcomes cv run)) = mset (map src_index (cv_source_spans cv))"
    using mset_source_indices [of "cv_source_spans cv"] collects_candidates(1) [OF assms(2)]
    by (simp add: collects_sections [OF assms(2), symmetric])
  moreover have "distinct (map src_index (cv_source_spans cv))"
    using assms(2) by (simp add: collects_def strict_sorted_iff)
  ultimately show ?thesis by (metis mset_eq_imp_distinct_iff)
qed

lemma retained_sources_eq:
  assumes "holds_sections cv run" "collects limits (entries 0 spans) cv"
  shows "retained_sources (sort_key source_outcome_sort_key (all_outcomes cv run)) (cv_source_spans cv)
    = Some (map src_span (filter (\<lambda>s. keeps run (src_span s)) (cv_source_spans cv)))"
proof -
  let ?all = "sort_key source_outcome_sort_key (all_outcomes cv run)"
  define os where "os = filter (\<lambda>o'. is_retained (so_outcome o')) ?all"
  define fs where "fs = filter (\<lambda>s. keeps run (src_span s)) (cv_source_spans cv)"
  define h where "h i = map_option src_span (find (\<lambda>s. src_index s = i) (cv_source_spans cv))" for i
  have "sorted (map source_outcome_sort_key ?all)" by simp
  then have "sorted (map so_source_index ?all)"
    by (auto simp: sorted_map source_outcome_sort_key_def less_eq_prod_def elim!: sorted_wrt_mono_rel [rotated])
  moreover have "distinct (map so_source_index ?all)"
    using distinct_outcome_sources [OF assms] by (metis distinct_map distinct_sort set_sort mset_sort mset_map mset_eq_imp_distinct_iff)
  ultimately have "sorted_wrt (<) (map so_source_index os)"
    by (simp add: os_def strict_sorted_iff sorted_filter distinct_map_filter)
  moreover have src: "sorted_wrt (<) (map src_index (cv_source_spans cv))"
    using assms(2) by (simp add: collects_def)
  then have "sorted_wrt (<) (map src_index fs)"
    by (simp add: fs_def strict_sorted_iff sorted_filter distinct_map_filter)
  moreover have "set (map so_source_index os) = set (map src_index fs)"
    using retained_indices [OF assms] by (simp add: os_def fs_def)
  ultimately have "map so_source_index os = map src_index fs" by (rule sorted_same_set)
  then have "map h (map so_source_index os) = map h (map src_index fs)" by simp
  moreover have "map h (map src_index fs) = map Some (map src_span fs)"
    using find_source [OF src] by (simp add: h_def fs_def)
  ultimately show ?thesis
    by (simp add: retained_sources_def all_some_eq os_def fs_def h_def o_def)
qed

section \<open>The imported run\<close>

definition request_events :: "SpanRecord list \<Rightarrow> RequestEvent list" where
  "request_events spans =
     List.map_filter (\<lambda>s. case candidate_of s of Some (CandRequest e _) \<Rightarrow> Some e | _ \<Rightarrow> None) spans"

definition stage_events :: "SpanRecord list \<Rightarrow> StageEvent list" where
  "stage_events spans =
     List.map_filter (\<lambda>s. case candidate_of s of Some (CandStage e _) \<Rightarrow> Some e | _ \<Rightarrow> None) spans"

definition queue_events :: "SpanRecord list \<Rightarrow> QueueEvent list" where
  "queue_events spans =
     List.map_filter (\<lambda>s. case candidate_of s of Some (CandQueue e) \<Rightarrow> Some e | _ \<Rightarrow> None) spans"

lemmas event_lists = request_events_def stage_events_def queue_events_def

lemma entry_events:
  "map preq_event (List.map_filter request_entry (entries i spans)) = request_events spans"
  "map pstg_event (List.map_filter stage_entry (entries i spans)) = stage_events spans"
  "map pque_event (List.map_filter queue_entry (entries i spans)) = queue_events spans"
proof (induction spans arbitrary: i)
  case (Cons s spans)
  {
    case 1
    show ?case using Cons(1) [of "Suc i"]
      by (auto simp: event_lists List.map_filter_simps split: option.splits candidate.splits)
  next
    case 2
    show ?case using Cons(2) [of "Suc i"]
      by (auto simp: event_lists List.map_filter_simps split: option.splits candidate.splits)
  next
    case 3
    show ?case using Cons(3) [of "Suc i"]
      by (auto simp: event_lists List.map_filter_simps split: option.splits candidate.splits)
  }
qed (simp_all add: event_lists List.map_filter_simps)

definition candidate_events :: "CaptureLimits \<Rightarrow> SpanRecord list \<Rightarrow> RequestEvent list \<times> StageEvent list \<times> QueueEvent list" where
  "candidate_events limits spans =
     (take (max_requests limits) (request_events spans), take (max_stages limits) (stage_events spans),
      take (max_queues limits) (queue_events spans))"

definition dropped_events :: "CaptureLimits \<Rightarrow> SpanRecord list \<Rightarrow> TruncationSummary" where
  "dropped_events limits spans = truncation_default
     \<lparr>tr_dropped_requests := u64_sat_of_nat (length (request_events spans) - max_requests limits),
      tr_dropped_stages := u64_sat_of_nat (length (stage_events spans) - max_stages limits),
      tr_dropped_queues := u64_sat_of_nat (length (queue_events spans) - max_queues limits),
      tr_limits_hit := max_requests limits < length (request_events spans)
        \<or> max_stages limits < length (stage_events spans) \<or> max_queues limits < length (queue_events spans)\<rparr>"

lemma u64_sat_pos: "0 < u64_sat_of_nat n \<longleftrightarrow> 0 < n"
  by (simp add: word_less_nat_alt u64_arith)

lemma collects_events:
  assumes "collects limits (entries 0 spans) cv"
  shows "(map preq_event (cv_requests cv), map pstg_event (cv_stages cv), map pque_event (cv_queues cv))
      = candidate_events limits spans"
    and "conversion_truncation cv = dropped_events limits spans"
proof -
  have len: "length (List.map_filter request_entry (entries 0 spans)) = length (request_events spans)"
    "length (List.map_filter stage_entry (entries 0 spans)) = length (stage_events spans)"
    "length (List.map_filter queue_entry (entries 0 spans)) = length (queue_events spans)"
    unfolding entry_events [of 0 spans, symmetric] by simp_all
  show "(map preq_event (cv_requests cv), map pstg_event (cv_stages cv), map pque_event (cv_queues cv))
      = candidate_events limits spans"
    using assms by (simp add: collects_def kept_and_dropped_def candidate_events_def take_map [symmetric] entry_events)
  show "conversion_truncation cv = dropped_events limits spans"
    using assms by (simp add: collects_def kept_and_dropped_def conversion_truncation_def dropped_events_def
        u64_sat_pos len)
qed

lemma collects_warnings [simp]: "collects limits es (cv\<lparr>cv_warnings := ws\<rparr>) = collects limits es cv"
  by (simp add: collects_def)

text \<open>What the loop leaves, in either mode.\<close>

lemma convert_spans_collects:
  assumes "convert_spans strict limits 0 (map Inr spans) conversion_start = Inr cv"
  shows "collects limits (entries 0 spans) cv" "length (cv_warnings cv) \<le> MAX_IMPORT_WARNINGS"
proof -
  have "\<exists>ws. cv = (collected limits spans)\<lparr>cv_warnings := ws\<rparr> \<and> length ws \<le> MAX_IMPORT_WARNINGS"
  proof (cases strict)
    case True
    then have "list_all acceptable spans" using assms convert_spans_strict_error [of spans limits 0 conversion_start] by auto
    then show ?thesis
      using assms convert_spans_acceptable [of spans strict limits 0 conversion_start]
      by (intro exI [of _ "[]"]) (simp add: collected_def conversion_start_def)
  next
    case False
    then show ?thesis
      using assms convert_spans_permissive [of conversion_start limits 0 spans]
      by (auto simp: collected_def conversion_start_def)
  qed
  then show "collects limits (entries 0 spans) cv" "length (cv_warnings cv) \<le> MAX_IMPORT_WARNINGS"
    using collected_collects [of limits spans] by auto
qed

lemma convert_spans_Inr:
  "convert_spans strict limits i spans cv = Inr cv' \<Longrightarrow> \<exists>ss. spans = map Inr ss"
proof (induction spans arbitrary: i cv)
  case (Cons s spans)
  then obtain x ss where "s = Inr x" "spans = map Inr ss" by (auto simp: and_then_eq_Inr dest: Cons.IH)
  then show ?case by (intro exI [of _ "x # ss"]) simp
qed simp

lemma candidate_run_sections:
  "holds_sections cv (candidate_run now options cv)"
  "run_truncation (candidate_run now options cv) = conversion_truncation cv"
  by (simp_all add: holds_sections_def candidate_run_def Let_def split: prod.split)

end
