(* ===== verification/Tr_Guarantees.thy ===== *)
theory Tr_Guarantees
  imports Tr_Intake
begin

text \<open>
  What the tracing intake guarantees: an import never panics, a permissive import of complete
  spans always succeeds with a bounded and strictly valid run, the run is the canonical run of
  the first candidates of each section, strict mode accepts exactly the inputs that permissive
  mode takes over unchanged, and the retained source spans import to the same events again.
\<close>

section \<open>Time bounds\<close>

definition event_bounds :: "RequestEvent list \<Rightarrow> StageEvent list \<Rightarrow> QueueEvent list \<Rightarrow> (u64 \<times> u64) list" where
  "event_bounds rs ss qs =
     map (\<lambda>r. (req_started_at_unix_ms r, req_finished_at_unix_ms r)) rs
     @ map (\<lambda>s. (stg_started_at_unix_ms s, stg_finished_at_unix_ms s)) ss
     @ map (\<lambda>q. (que_waited_from_unix_ms q, que_waited_until_unix_ms q)) qs"

lemma foldl_min_max_ordered:
  "\<forall>(a, b)\<in>set bs. a \<le> b \<Longrightarrow> (case acc of Some (a, b) \<Rightarrow> a \<le> b | None \<Rightarrow> True) \<Longrightarrow>
   case foldl min_max_step acc bs of Some (a, b) \<Rightarrow> a \<le> b | None \<Rightarrow> True"
proof (induction bs arbitrary: acc)
  case (Cons x bs)
  have "case min_max_step acc x of Some (a, b) \<Rightarrow> a \<le> b | None \<Rightarrow> True"
    using Cons.prems by (auto simp: min_max_step_def min_def max_def split: option.splits)
  with Cons show ?case by simp
qed simp

lemma retained_bounds_ordered:
  "\<forall>(a, b)\<in>set (event_bounds rs ss qs). a \<le> b \<Longrightarrow>
   (case unwrap_or (retained_event_time_bounds rs ss qs) (now, now) of (a, b) \<Rightarrow> a \<le> b)"
  using foldl_min_max_ordered [of "event_bounds rs ss qs" None]
  by (auto simp: retained_event_time_bounds_def event_bounds_def split: option.splits)

lemma candidate_ordered:
  assumes "candidate_of s = Some c"
  shows "sp_started_at_unix_ms s \<le> sp_finished_at_unix_ms s"
  using assms by (auto simp: candidate_of_def not_less split: if_splits)

text \<open>The events of candidates are well formed.\<close>

lemma nonblank_fieldD: "nonblank_field s k = Some v \<Longrightarrow> \<not> is_blank v"
  by (auto simp: nonblank_field_def split: StringFieldState.splits if_splits)

lemma candidate_ok:
  "candidate_of s = Some (CandRequest e d) \<Longrightarrow> request_ok e"
  "candidate_of s = Some (CandStage e' d) \<Longrightarrow> stage_ok e'"
  "candidate_of s = Some (CandQueue e'') \<Longrightarrow> queue_ok e''"
proof -
  have ok: "\<not> is_blank ''ok''" by code_simp
  show "candidate_of s = Some (CandRequest e d) \<Longrightarrow> request_ok e"
    "candidate_of s = Some (CandStage e' d) \<Longrightarrow> stage_ok e'"
    "candidate_of s = Some (CandQueue e'') \<Longrightarrow> queue_ok e''"
    using ok
    by (auto simp: candidate_of_def request_ok_def stage_ok_def queue_ok_def request_event_def stage_event_def
        queue_event_def outcome_field_def not_less
        dest!: nonblank_fieldD split: if_splits option.splits SpanKind.splits prod.splits)
qed

lemma in_events:
  "e \<in> set (request_events spans) \<longleftrightarrow> (\<exists>s\<in>set spans. \<exists>d. candidate_of s = Some (CandRequest e d))"
  "e' \<in> set (stage_events spans) \<longleftrightarrow> (\<exists>s\<in>set spans. \<exists>d. candidate_of s = Some (CandStage e' d))"
  "e'' \<in> set (queue_events spans) \<longleftrightarrow> (\<exists>s\<in>set spans. candidate_of s = Some (CandQueue e''))"
proof -
  have "(case c of Some (CandRequest e _) \<Rightarrow> Some e | _ \<Rightarrow> None) = Some e \<longleftrightarrow> (\<exists>d. c = Some (CandRequest e d))"
    "(case c of Some (CandStage e' _) \<Rightarrow> Some e' | _ \<Rightarrow> None) = Some e' \<longleftrightarrow> (\<exists>d. c = Some (CandStage e' d))"
    "(case c of Some (CandQueue e'') \<Rightarrow> Some e'' | _ \<Rightarrow> None) = Some e'' \<longleftrightarrow> c = Some (CandQueue e'')" for c
    by (cases c; cases "the c"; auto)+
  then show "e \<in> set (request_events spans) \<longleftrightarrow> (\<exists>s\<in>set spans. \<exists>d. candidate_of s = Some (CandRequest e d))"
    "e' \<in> set (stage_events spans) \<longleftrightarrow> (\<exists>s\<in>set spans. \<exists>d. candidate_of s = Some (CandStage e' d))"
    "e'' \<in> set (queue_events spans) \<longleftrightarrow> (\<exists>s\<in>set spans. candidate_of s = Some (CandQueue e''))"
    by (simp_all add: event_lists in_set_map_filter)
qed

lemma events_ok:
  "list_all request_ok (request_events spans)" "list_all stage_ok (stage_events spans)"
  "list_all queue_ok (queue_events spans)"
  by (auto simp: list_all_iff in_events candidate_ok)

lemma ok_bounds:
  assumes "list_all request_ok rs" "list_all stage_ok ss" "list_all queue_ok qs"
  shows "\<forall>(a, b)\<in>set (event_bounds rs ss qs). a \<le> b"
  using assms by (auto simp: event_bounds_def list_all_iff request_ok_def stage_ok_def queue_ok_def)

section \<open>The imported run\<close>

definition rewarned :: "Run \<Rightarrow> Run \<Rightarrow> bool" where
  "rewarned r r' \<longleftrightarrow> (\<exists>ws. r' = update_metadata (\<lambda>md. md\<lparr>md_lifecycle_warnings := ws\<rparr>) r)"

lemma rewarned_refl [simp]: "rewarned r r"
  by (auto simp: rewarned_def intro!: exI [of _ "md_lifecycle_warnings (run_metadata r)"])

lemma rewarned_trans: "rewarned r r' \<Longrightarrow> rewarned r' r'' \<Longrightarrow> rewarned r r''"
  by (auto simp: rewarned_def)

lemma rewarned_add [simp]: "rewarned r (add_new_warning r w)"
  by (auto simp: add_new_warning_def) (auto simp: rewarned_def)

lemma rewarned_foldl: "(\<And>r x. rewarned r (f r x)) \<Longrightarrow> rewarned r (foldl f r xs)"
  by (induction xs arbitrary: r) (auto intro: rewarned_trans)

lemma rewarned_sections:
  assumes "rewarned r r'"
  shows "run_requests r' = run_requests r" "run_stages r' = run_stages r" "run_queues r' = run_queues r"
    "run_inflight r' = run_inflight r" "run_runtime_snapshots r' = run_runtime_snapshots r"
    "run_truncation r' = run_truncation r" "run_schema_version r' = run_schema_version r"
    "md_run_id (run_metadata r') = md_run_id (run_metadata r)"
    "md_service_name (run_metadata r') = md_service_name (run_metadata r)"
    "md_started_at_unix_ms (run_metadata r') = md_started_at_unix_ms (run_metadata r)"
    "md_finalized_at_unix_ms (run_metadata r') = md_finalized_at_unix_ms (run_metadata r)"
    "(run_metadata r')\<lparr>md_lifecycle_warnings := []\<rparr> = (run_metadata r)\<lparr>md_lifecycle_warnings := []\<rparr>"
  using assms by (auto simp: rewarned_def)

lemma length_default_warnings:
  "length (cv_warnings cv) \<le> MAX_IMPORT_WARNINGS \<Longrightarrow> length (default_warnings limits cv) \<le> MAX_IMPORT_WARNINGS"
  by (simp add: default_warnings_def warn_count_def length_push_import_warning)

lemma length_foldl_warnings:
  "length ws \<le> MAX_IMPORT_WARNINGS \<Longrightarrow> length (foldl push_new_import_warning ws xs) \<le> MAX_IMPORT_WARNINGS"
  by (induction xs arbitrary: ws) (simp_all add: push_new_import_warning_def length_push_import_warning)

lemma assembled:
  assumes "collects limits (entries 0 spans) cv" "length (cv_warnings cv) \<le> MAX_IMPORT_WARNINGS"
    and "holds_sections cv candidate"
  obtains pir where "assemble_import later options cv candidate = Some pir"
    "rewarned (refresh_normalized_metadata_bounds later (io_run_id options \<noteq> None) (canonical_run candidate))
       (imp_run (pir_imported pir))"
    "imp_retained_sources (pir_imported pir)
       = map src_span (filter (\<lambda>s. keeps candidate (src_span s)) (cv_source_spans cv))"
    "length (imp_warnings (pir_imported pir)) \<le> MAX_IMPORT_WARNINGS"
proof -
  have "rewarned r (foldl add_new_warning (attach_durable_conversion_warnings ws r) ls)" for r ws ls
    unfolding attach_durable_conversion_warnings_def
    by (rule rewarned_trans; rule rewarned_foldl) auto
  then show ?thesis
    using that length_foldl_warnings [OF length_default_warnings [OF assms(2)]]
    by (simp add: assemble_import_def Let_def from_normalized_eq [OF assms(3)]
        retained_sources_eq [OF assms(3,1)] with_retained_sources_def report_of_normalize)
qed

lemma run_from_records_eq: "run_from_span_records now later spans options
    = run_from_span_record_results now later (map Inr spans) options"
  by (simp add: run_from_span_records_def run_from_span_record_results_def)

text \<open>How a result comes about.\<close>

definition strict_check :: "u64 \<Rightarrow> ImportOptions \<Rightarrow> conversion \<Rightarrow> bool" where
  "strict_check now options cv \<longleftrightarrow> (io_strict options \<longrightarrow> validate_run_strict (candidate_run now options cv) = Inr ())"

lemma import_cases:
  obtains (blank) "is_blank (io_service_name options)"
      "run_from_span_record_results now later rs options = Some (Inl IeEmptyServiceName)"
  | (rejected) e where "\<not> is_blank (io_service_name options)"
      "convert_spans (io_strict options) (resolved_capture_limits options) 0 rs conversion_start = Inl e"
      "run_from_span_record_results now later rs options = Some (Inl e)"
  | (invalid) cv report where "\<not> is_blank (io_service_name options)" "io_strict options"
      "convert_spans (io_strict options) (resolved_capture_limits options) 0 rs conversion_start = Inr cv"
      "validate_run_strict (candidate_run now options cv) = Inl report"
      "run_from_span_record_results now later rs options = Some (Inl (strict_core_error report))"
  | (imported) spans cv pir where "\<not> is_blank (io_service_name options)" "rs = map Inr spans"
      "convert_spans (io_strict options) (resolved_capture_limits options) 0 rs conversion_start = Inr cv"
      "collects (resolved_capture_limits options) (entries 0 spans) cv" "strict_check now options cv"
      "assemble_import later options cv (candidate_run now options cv) = Some pir"
      "run_from_span_record_results now later rs options = Some (Inr (pir_imported pir))"
      "rewarned (refresh_normalized_metadata_bounds later (io_run_id options \<noteq> None)
         (canonical_run (candidate_run now options cv))) (imp_run (pir_imported pir))"
      "imp_retained_sources (pir_imported pir)
         = map src_span (filter (\<lambda>s. keeps (candidate_run now options cv) (src_span s)) (cv_source_spans cv))"
      "length (imp_warnings (pir_imported pir)) \<le> MAX_IMPORT_WARNINGS"
proof (cases "is_blank (io_service_name options)")
  case True
  then show ?thesis
    by (intro blank) (simp_all add: run_from_span_record_results_def convert_span_record_results_with_provenance_def)
next
  case nonblank: False
  let ?loop = "convert_spans (io_strict options) (resolved_capture_limits options) 0 rs conversion_start"
  show ?thesis
  proof (cases ?loop)
    case (Inl e)
    then show ?thesis using nonblank
      by (intro rejected) (simp_all add: run_from_span_record_results_def convert_span_record_results_with_provenance_def)
  next
    case (Inr cv)
    then obtain spans where rs: "rs = map Inr spans" using convert_spans_Inr by blast
    note c = convert_spans_collects [OF Inr [unfolded rs]]
    show ?thesis
    proof (cases "strict_check now options cv")
      case False
      then obtain report where "io_strict options" "validate_run_strict (candidate_run now options cv) = Inl report"
        by (cases "validate_run_strict (candidate_run now options cv)") (auto simp: strict_check_def)
      then show ?thesis using nonblank Inr
        by (intro invalid) (simp_all add: run_from_span_record_results_def convert_span_record_results_with_provenance_def)
    next
      case True
      then have "(if io_strict options then validate_run_strict (candidate_run now options cv) else Inr ()) = Inr ()"
        by (simp add: strict_check_def)
      then have res: "run_from_span_record_results now later rs options
          = map_option (map_sum id pir_imported) (map_option Inr (assemble_import later options cv (candidate_run now options cv)))"
        using nonblank Inr
        by (simp add: run_from_span_record_results_def convert_span_record_results_with_provenance_def Let_def)
      obtain pir where pir: "assemble_import later options cv (candidate_run now options cv) = Some pir"
        "rewarned (refresh_normalized_metadata_bounds later (io_run_id options \<noteq> None)
           (canonical_run (candidate_run now options cv))) (imp_run (pir_imported pir))"
        "imp_retained_sources (pir_imported pir)
           = map src_span (filter (\<lambda>s. keeps (candidate_run now options cv) (src_span s)) (cv_source_spans cv))"
        "length (imp_warnings (pir_imported pir)) \<le> MAX_IMPORT_WARNINGS"
        using assembled [OF c candidate_run_sections(1)] by metis
      show ?thesis by (rule imported [OF nonblank rs Inr c(1) True pir(1) _ pir(2,3,4)]) (simp add: res pir(1))
    qed
  qed
qed

lemma candidate_events_of:
  assumes "collects limits (entries 0 spans) cv"
  shows "run_requests (candidate_run now options cv) = fst (candidate_events limits spans)"
    "run_stages (candidate_run now options cv) = fst (snd (candidate_events limits spans))"
    "run_queues (candidate_run now options cv) = snd (snd (candidate_events limits spans))"
    "run_inflight (candidate_run now options cv) = []" "run_runtime_snapshots (candidate_run now options cv) = []"
    "run_truncation (candidate_run now options cv) = dropped_events limits spans"
  using collects_events [OF assms]
  by (auto simp: candidate_run_def Let_def prod_eq_iff split: prod.splits)

text \<open>The sections of an imported run: the canonical run of the first candidates.\<close>

definition imported_sections :: "CaptureLimits \<Rightarrow> SpanRecord list \<Rightarrow> RequestEvent list \<times> StageEvent list \<times> QueueEvent list" where
  "imported_sections limits spans =
     (let (rs, ss, qs) = candidate_events limits spans
      in (map repair_request (filter (keep_request rs) rs), map repair_stage (filter (keep_stage rs) ss),
          map repair_queue (filter (keep_queue rs) qs)))"

lemma refresh_sections [simp]:
  "run_requests (refresh_normalized_metadata_bounds later ex run) = run_requests run"
  "run_stages (refresh_normalized_metadata_bounds later ex run) = run_stages run"
  "run_queues (refresh_normalized_metadata_bounds later ex run) = run_queues run"
  "run_inflight (refresh_normalized_metadata_bounds later ex run) = run_inflight run"
  "run_runtime_snapshots (refresh_normalized_metadata_bounds later ex run) = run_runtime_snapshots run"
  "run_truncation (refresh_normalized_metadata_bounds later ex run) = run_truncation run"
  "run_schema_version (refresh_normalized_metadata_bounds later ex run) = run_schema_version run"
  by (simp_all add: refresh_normalized_metadata_bounds_def Let_def split: prod.splits)

lemma refresh_times:
  "(md_started_at_unix_ms (run_metadata (refresh_normalized_metadata_bounds later ex run)),
    md_finalized_at_unix_ms (run_metadata (refresh_normalized_metadata_bounds later ex run)))
     = map_prod id Some (unwrap_or (retained_event_time_bounds (run_requests run) (run_stages run)
         (run_queues run)) (later, later))"
  by (simp add: refresh_normalized_metadata_bounds_def Let_def split_beta map_prod_def)

lemma canonical_candidate_sections:
  assumes "collects limits (entries 0 spans) cv"
  shows "(run_requests (canonical_run (candidate_run now options cv)),
          run_stages (canonical_run (candidate_run now options cv)),
          run_queues (canonical_run (candidate_run now options cv))) = imported_sections limits spans"
    "run_inflight (canonical_run (candidate_run now options cv)) = []"
    "run_runtime_snapshots (canonical_run (candidate_run now options cv)) = []"
    "run_truncation (canonical_run (candidate_run now options cv)) = dropped_events limits spans"
    "run_schema_version (canonical_run (candidate_run now options cv)) = SCHEMA_VERSION"
  using candidate_events_of [OF assms, of now options]
  by (simp_all add: canonical_run_def imported_sections_def Let_def split_beta)
    (simp add: candidate_run_def Let_def split_beta)

lemma canonical_rewarned: "canonical_run r = r \<Longrightarrow> rewarned r r' \<Longrightarrow> canonical_run r' = r'"
  by (auto simp: rewarned_def canonical_run_update_metadata)

lemma canonical_refreshed:
  "canonical_run (refresh_normalized_metadata_bounds later ex (canonical_run run))
     = refresh_normalized_metadata_bounds later ex (canonical_run run)"
  by (simp add: refresh_normalized_metadata_bounds_def Let_def split_beta canonical_run_update_metadata
      canonical_run_idem)

lemma tracing_import_id_nonblank: "\<not> is_blank (tracing_import_id a b)"
proof -
  have "[CHR ''t''] \<in> set (utf8_chars (tracing_import_id a b))"
    by (simp add: tracing_import_id_def utf8_cont_def)
  moreover have "\<not> is_whitespace [CHR ''t'']" by code_simp
  ultimately show ?thesis unfolding is_blank_iff by blast
qed

definition blank_run_id :: "ImportOptions \<Rightarrow> bool" where
  "blank_run_id options \<longleftrightarrow> (case io_run_id options of Some i \<Rightarrow> is_blank i | None \<Rightarrow> False)"

lemma list_all_take: "list_all P xs \<Longrightarrow> list_all P (take n xs)"
  by (auto simp: list_all_iff dest: in_set_takeD)

lemma candidate_sections_ok:
  assumes "candidate_events limits spans = (rs, ss, qs)"
  shows "list_all request_ok rs" "list_all stage_ok ss" "list_all queue_ok qs"
  using assms events_ok [of spans] by (auto simp: candidate_events_def list_all_take)

lemma imported_sections_ok:
  assumes "imported_sections limits spans = (rs, ss, qs)"
  shows "list_all request_ok rs" "list_all stage_ok ss" "list_all queue_ok qs"
proof -
  obtain rs' ss' qs' where c: "candidate_events limits spans = (rs', ss', qs')" by (cases "candidate_events limits spans")
  show "list_all request_ok rs" "list_all stage_ok ss" "list_all queue_ok qs"
    using assms candidate_sections_ok [OF c] by (auto simp: imported_sections_def c list_all_iff)
qed

lemma candidate_metadata_ok:
  assumes c: "collects limits (entries 0 spans) cv" and "\<not> is_blank (io_service_name options)"
  shows "metadata_ok (candidate_run now options cv) \<longleftrightarrow> \<not> blank_run_id options"
proof -
  obtain rs ss qs where e: "candidate_events limits spans = (rs, ss, qs)" by (cases "candidate_events limits spans")
  then have "run_requests (candidate_run now options cv) = rs" "map preq_event (cv_requests cv) = rs"
    "map pstg_event (cv_stages cv) = ss" "map pque_event (cv_queues cv) = qs"
    using candidate_events_of [OF c, of now options] collects_events(1) [OF c] by simp_all
  moreover have "case unwrap_or (retained_event_time_bounds rs ss qs) (now, now) of (a, b) \<Rightarrow> a \<le> b"
    using retained_bounds_ordered [OF ok_bounds [OF candidate_sections_ok [OF e]]] .
  ultimately show ?thesis
    using assms(2) tracing_import_id_nonblank
    by (auto simp: metadata_ok_def candidate_run_def Let_def blank_run_id_def split: prod.splits option.splits)
qed

lemma candidate_metadata:
  "md_service_name (run_metadata (candidate_run now options cv)) = io_service_name options"
  "io_run_id options = Some i \<Longrightarrow> md_run_id (run_metadata (candidate_run now options cv)) = i"
  by (simp_all add: candidate_run_def Let_def split_beta)

lemma canonical_metadata [simp]: "run_metadata (canonical_run run) = run_metadata run"
  by (simp add: canonical_run_def)

lemma imported_metadata_ok:
  assumes c: "collects limits (entries 0 spans) cv" and name: "\<not> is_blank (io_service_name options)"
    and r: "rewarned (refresh_normalized_metadata_bounds later (io_run_id options \<noteq> None)
         (canonical_run (candidate_run now options cv))) run"
  shows "metadata_ok run \<longleftrightarrow> \<not> blank_run_id options"
proof -
  obtain rs ss qs where e: "imported_sections limits spans = (rs, ss, qs)" by (cases "imported_sections limits spans")
  have s: "run_requests (canonical_run (candidate_run now options cv)) = rs"
    "run_stages (canonical_run (candidate_run now options cv)) = ss"
    "run_queues (canonical_run (candidate_run now options cv)) = qs"
    "run_schema_version (canonical_run (candidate_run now options cv)) = SCHEMA_VERSION"
    using canonical_candidate_sections [OF c, of now options] e by simp_all
  have "case unwrap_or (retained_event_time_bounds rs ss qs) (later, later) of (a, b) \<Rightarrow> a \<le> b"
    using retained_bounds_ordered [OF ok_bounds [OF imported_sections_ok [OF e]]] .
  then show ?thesis
    unfolding metadata_ok_def rewarned_sections [OF r]
    using name tracing_import_id_nonblank candidate_metadata [where now = now and options = options and cv = cv]
    by (auto simp: refresh_normalized_metadata_bounds_def Let_def s blank_run_id_def split: prod.splits option.splits)
qed

lemma convert_spans_error:
  "convert_spans strict limits i rs cv = Inl e \<Longrightarrow> Inl e \<in> set rs \<or> strict \<and> (\<exists>m. e = StrictViolation m)"
proof (induction rs arbitrary: i cv)
  case (Cons r rs)
  have "strict \<and> (\<exists>m. e = StrictViolation m)" if "convert_span strict limits i s cv = Inl e" for s
    using that convert_span_none [of s strict cv limits i]
    by (cases "candidate_of s") (auto simp: convert_span_some rejects_def split: if_splits)
  with Cons show ?case by (auto simp: and_then_eq_Inl)
qed simp

lemma import_within_limits:
  assumes "collects limits (entries 0 spans) cv"
    and "rewarned (refresh_normalized_metadata_bounds later ex (canonical_run (candidate_run now options cv))) run"
  shows "within_limits limits run"
  using candidate_events_of [OF assms(1), of now options]
    within_limits_canonical [of limits "candidate_run now options cv"]
  by (simp add: within_limits_def rewarned_sections [OF assms(2)] candidate_events_def)

section \<open>Importing the retained sources again\<close>

lemma source_events:
  "\<forall>s\<in>set srcs. candidate_of (src_span s) \<noteq> None \<Longrightarrow>
    map preq_event (List.map_filter request_entry (map source_entry srcs)) = request_events (map src_span srcs) \<and>
    map pstg_event (List.map_filter stage_entry (map source_entry srcs)) = stage_events (map src_span srcs) \<and>
    map pque_event (List.map_filter queue_entry (map source_entry srcs)) = queue_events (map src_span srcs)"
proof (induction srcs)
  case (Cons s srcs)
  then obtain c where "candidate_of (src_span s) = Some c" by auto
  with Cons show ?case by (cases c) (simp_all add: event_lists List.map_filter_simps source_entry_def)
qed (simp_all add: event_lists List.map_filter_simps)

lemma filter_keeps_events:
  "request_events (filter (keeps run) spans) = filter (keep_request (run_requests run)) (request_events spans)"
  "stage_events (filter (keeps run) spans) = filter (keep_stage (run_requests run)) (stage_events spans)"
  "queue_events (filter (keeps run) spans) = filter (keep_queue (run_requests run)) (queue_events spans)"
  by (induction spans)
    (auto simp: event_lists List.map_filter_simps keeps_def split: option.splits candidate.splits)

lemma length_events:
  "\<forall>s\<in>set spans. candidate_of s \<noteq> None \<Longrightarrow> length spans
     = length (request_events spans) + length (stage_events spans) + length (queue_events spans)"
  by (induction spans) (auto simp: event_lists List.map_filter_simps split: option.splits candidate.splits)

lemma id_count_filter: "id_count (filter P rs) rid \<le> id_count rs rid"
  by (induction rs) (auto simp: id_count_def)

lemma keep_request_kept: "keep_request rs r \<Longrightarrow> keep_request (filter (keep_request rs) rs) r"
  using id_count_filter [of "keep_request rs" rs "req_request_id r"] by (simp add: keep_request_def)

lemma parent_of_kept:
  assumes "within_parent (parent_of rs rid) child"
  shows "parent_of (filter (keep_request rs) rs) rid = parent_of rs rid"
proof -
  obtain r where r: "filter (\<lambda>r. request_ok r \<and> req_request_id r = rid) rs = [r]"
    using assms by (auto simp: within_parent_def parent_of_def split: list.splits if_splits)
  then have "id_count rs rid \<le> 1" by (simp add: id_count_def)
  moreover have "filter (\<lambda>r. request_ok r \<and> req_request_id r = rid) (filter (keep_request rs) rs)
      = filter (\<lambda>r. keep_request rs r \<and> req_request_id r = rid) rs"
    by (auto simp: keep_request_def intro!: filter_cong)
  ultimately have "filter (\<lambda>r. request_ok r \<and> req_request_id r = rid) (filter (keep_request rs) rs) = [r]"
    by (simp only: filter_keep_id r) simp
  from parent_of_cases(3) [OF this] parent_of_cases(3) [OF r] show ?thesis by simp
qed

lemma keep_child_kept:
  "keep_stage rs s \<Longrightarrow> keep_stage (filter (keep_request rs) rs) s"
  "keep_queue rs q \<Longrightarrow> keep_queue (filter (keep_request rs) rs) q"
  by (auto simp: keep_stage_def keep_queue_def parent_of_kept)

lemma kept_twice:
  "keep_request rs r \<and> keep_request (filter (keep_request rs) rs) r \<longleftrightarrow> keep_request rs r"
  "keep_stage rs s \<and> keep_stage (filter (keep_request rs) rs) s \<longleftrightarrow> keep_stage rs s"
  "keep_queue rs q \<and> keep_queue (filter (keep_request rs) rs) q \<longleftrightarrow> keep_queue rs q"
  using keep_request_kept keep_child_kept by blast+

lemma keeps_kept:
  "keeps run s \<Longrightarrow> run_requests run' = filter (keep_request (run_requests run)) (run_requests run) \<Longrightarrow> keeps run' s"
  by (auto simp: keeps_def keep_request_kept keep_child_kept split: option.splits candidate.splits)

text \<open>The retained sources have exactly the kept candidates, all of them within the limits.\<close>

lemma retained_candidates:
  assumes c: "collects limits (entries 0 spans) cv"
    and e: "candidate_events limits spans = (rs, ss, qs)" and run: "run_requests run = rs"
  defines "ret \<equiv> map src_span (filter (\<lambda>s. keeps run (src_span s)) (cv_source_spans cv))"
  shows "candidate_events limits ret = (filter (keep_request rs) rs, filter (keep_stage rs) ss, filter (keep_queue rs) qs)"
    and "imported_sections limits ret = imported_sections limits spans"
    and "dropped_events limits ret = truncation_default"
    and "\<forall>s\<in>set ret. candidate_of s \<noteq> None \<and> keeps run s"
    and "candidate_events limits ret = (request_events ret, stage_events ret, queue_events ret)"
proof -
  let ?all = "map src_span (cv_source_spans cv)"
  have ret: "ret = filter (keeps run) ?all" by (simp add: ret_def filter_map o_def)
  have all: "request_events ?all = rs" "stage_events ?all = ss" "queue_events ?all = qs"
    using collects_events(1) [OF c] source_events [of "cv_source_spans cv"] collects_candidates(1) [OF c] e
    by (simp_all add: collects_sections [OF c, symmetric])
  have ev: "request_events ret = filter (keep_request rs) rs" "stage_events ret = filter (keep_stage rs) ss"
    "queue_events ret = filter (keep_queue rs) qs"
    by (simp_all add: ret filter_keeps_events run all)
  have le: "length rs \<le> max_requests limits" "length ss \<le> max_stages limits" "length qs \<le> max_queues limits"
    using e by (auto simp: candidate_events_def)
  have "length (request_events ret) \<le> max_requests limits" "length (stage_events ret) \<le> max_stages limits"
    "length (queue_events ret) \<le> max_queues limits"
    unfolding ev using le length_filter_le order_trans by blast+
  then show ce: "candidate_events limits ret
      = (filter (keep_request rs) rs, filter (keep_stage rs) ss, filter (keep_queue rs) qs)"
    and "dropped_events limits ret = truncation_default"
    and "candidate_events limits ret = (request_events ret, stage_events ret, queue_events ret)"
    by (simp_all add: candidate_events_def ev dropped_events_def truncation_default_def u64_sat_of_nat_def)
  show "imported_sections limits ret = imported_sections limits spans"
    by (simp add: imported_sections_def ce e kept_twice)
  show "\<forall>s\<in>set ret. candidate_of s \<noteq> None \<and> keeps run s"
    by (auto simp: ret keeps_def split: option.splits)
qed

text \<open>The metadata of an imported run depends on the options and the time bounds only.\<close>

definition import_metadata :: "ImportOptions \<Rightarrow> u64 \<times> u64 \<Rightarrow> RunMetadata" where
  "import_metadata options = (\<lambda>(started, finished).
     \<lparr>md_run_id = unwrap_or (io_run_id options) (tracing_import_id started finished),
      md_service_name = io_service_name options, md_service_version = io_service_version options,
      md_started_at_unix_ms = started, md_finalized_at_unix_ms = Some finished,
      md_mode = io_mode options,
      md_effective_core_config = Some \<lparr>ecc_mode = io_mode options,
        ecc_capture_limits = resolved_capture_limits options, ecc_strict_lifecycle = False\<rparr>,
      md_effective_tokio_sampler_config = None, md_host = None, md_pid = None,
      md_lifecycle_warnings = [], md_unfinished_requests = unfinished_default, md_run_end_reason = None\<rparr>)"

lemma refreshed_metadata:
  "run_metadata (refresh_normalized_metadata_bounds later (io_run_id options \<noteq> None)
      (canonical_run (candidate_run now options cv)))
    = import_metadata options (unwrap_or (retained_event_time_bounds
        (run_requests (canonical_run (candidate_run now options cv)))
        (run_stages (canonical_run (candidate_run now options cv)))
        (run_queues (canonical_run (candidate_run now options cv)))) (later, later))"
proof -
  have "run_metadata (refresh_normalized_metadata_bounds later (io_run_id options \<noteq> None) run)
      = import_metadata options (unwrap_or (retained_event_time_bounds
        (run_requests run) (run_stages run) (run_queues run)) (later, later))"
    if "\<exists>b. run_metadata run = import_metadata options b" for run
    using that by (cases "io_run_id options")
      (auto simp: refresh_normalized_metadata_bounds_def import_metadata_def Let_def split: prod.splits)
  moreover have "run_metadata (canonical_run (candidate_run now options cv)) = import_metadata options
      (unwrap_or (retained_event_time_bounds (map preq_event (cv_requests cv)) (map pstg_event (cv_stages cv))
        (map pque_event (cv_queues cv))) (now, now))"
    by (simp add: candidate_run_def import_metadata_def Let_def split: prod.splits)
  ultimately show ?thesis by blast
qed

text \<open>The imported run of the specification, up to the lifecycle warnings.\<close>

definition cleared :: "Run \<Rightarrow> Run" where
  "cleared run = update_metadata (\<lambda>md. md\<lparr>md_lifecycle_warnings := []\<rparr>) run"

definition expected_run :: "u64 \<Rightarrow> ImportOptions \<Rightarrow> SpanRecord list \<Rightarrow> Run" where
  "expected_run later options spans =
     (let (rs, ss, qs) = imported_sections (resolved_capture_limits options) spans
      in \<lparr>run_schema_version = SCHEMA_VERSION,
          run_metadata = import_metadata options (unwrap_or (retained_event_time_bounds rs ss qs) (later, later)),
          run_requests = rs, run_stages = ss, run_queues = qs, run_inflight = [], run_runtime_snapshots = [],
          run_truncation = dropped_events (resolved_capture_limits options) spans\<rparr>)"

lemma run_eqI:
  "run_schema_version r = run_schema_version r' \<Longrightarrow> run_metadata r = run_metadata r' \<Longrightarrow>
   run_requests r = run_requests r' \<Longrightarrow> run_stages r = run_stages r' \<Longrightarrow> run_queues r = run_queues r' \<Longrightarrow>
   run_inflight r = run_inflight r' \<Longrightarrow> run_runtime_snapshots r = run_runtime_snapshots r' \<Longrightarrow>
   run_truncation r = run_truncation r' \<Longrightarrow> r = (r' :: Run)"
  by (cases r; cases r') simp

lemma cleared_sections:
  "run_requests (cleared run) = run_requests run" "run_stages (cleared run) = run_stages run"
  "run_queues (cleared run) = run_queues run" "run_truncation (cleared run) = run_truncation run"
  by (simp_all add: cleared_def)

lemma expected_run_fact:
  assumes c: "collects (resolved_capture_limits options) (entries 0 spans) cv"
    and r: "rewarned (refresh_normalized_metadata_bounds later (io_run_id options \<noteq> None)
         (canonical_run (candidate_run now options cv))) run"
  shows "cleared run = expected_run later options spans"
proof -
  let ?r = "refresh_normalized_metadata_bounds later (io_run_id options \<noteq> None) (canonical_run (candidate_run now options cv))"
  obtain rs ss qs where s: "imported_sections (resolved_capture_limits options) spans = (rs, ss, qs)"
    by (cases "imported_sections (resolved_capture_limits options) spans")
  note sections = canonical_candidate_sections [OF c, of now options]
  have "run_metadata ?r = import_metadata options (unwrap_or (retained_event_time_bounds rs ss qs) (later, later))"
    unfolding refreshed_metadata using sections(1) s by simp
  moreover have "cleared run = cleared ?r" using r by (auto simp: rewarned_def cleared_def)
  moreover have "md\<lparr>md_lifecycle_warnings := []\<rparr> = md" if "md = import_metadata options b" for md b
    using that by (simp add: import_metadata_def split: prod.split)
  ultimately show ?thesis
    using sections s by (intro run_eqI) (simp_all add: cleared_def expected_run_def)
qed

lemma collects_subseq:
  "collects limits (entries 0 spans) cv \<Longrightarrow> subseq (map src_span (cv_source_spans cv)) spans"
  unfolding collects_def using subseq_entries [of 0 spans] by (blast intro: subseq_order.trans)

text \<open>When no candidate is beyond the limits, every span with a candidate becomes a source.\<close>

lemma all_sources:
  assumes c: "collects limits (entries 0 spans) cv" and cand: "\<forall>s\<in>set spans. candidate_of s \<noteq> None"
    and e: "candidate_events limits spans = (request_events spans, stage_events spans, queue_events spans)"
  shows "map src_span (cv_source_spans cv) = spans"
proof -
  let ?all = "map src_span (cv_source_spans cv)"
  have "\<forall>s\<in>set ?all. candidate_of s \<noteq> None" using collects_candidates(1) [OF c] by simp
  moreover have "request_events ?all = request_events spans" "stage_events ?all = stage_events spans"
    "queue_events ?all = queue_events spans"
    using collects_events(1) [OF c] source_events [of "cv_source_spans cv"] collects_candidates(1) [OF c] e
    by (simp_all add: collects_sections [OF c, symmetric])
  ultimately have "length ?all = length spans" using length_events [of ?all] length_events [OF cand] by simp
  with collects_subseq [OF c] show ?thesis by (metis subseq_same_length)
qed

lemma permissive_import_exists:
  assumes "\<not> io_strict options" "\<not> is_blank (io_service_name options)"
  shows "\<exists>imp. run_from_span_records now later spans options = Some (Inr imp)"
proof (cases rule: import_cases [of options now later "map Inr spans"])
  case (rejected e)
  then show ?thesis
    using convert_spans_permissive [of conversion_start "resolved_capture_limits options" 0 spans] assms
    by (auto simp: conversion_start_def)
qed (use assms in \<open>simp_all add: run_from_records_eq\<close>)

section \<open>Sample spans\<close>

definition sample_request_span :: "string \<Rightarrow> SpanRecord" where
  "sample_request_span rid = (span_new ''handler'' 10 20)\<lparr>sp_fields :=
     [(TT_KIND, FvString ''request''), (TT_REQUEST_ID, FvString rid), (TT_ROUTE, FvString ''/pay'')]\<rparr>"

definition sample_stage_span :: "string \<Rightarrow> SpanRecord" where
  "sample_stage_span rid = (span_new ''query'' 12 15)\<lparr>sp_fields :=
     [(TT_KIND, FvString ''stage''), (TT_REQUEST_ID, FvString rid), (TT_STAGE, FvString ''db''),
      (TT_SUCCESS, FvBool False)]\<rparr>"

definition sample_spans :: "SpanRecord list" where
  "sample_spans = [sample_request_span ''a'', sample_stage_span ''a'', sample_request_span ''b'', sample_stage_span ''b'']"

definition sample_import_options :: ImportOptions where
  "sample_import_options = io_set_capture_limits
     \<lparr>max_requests = 1, max_stages = 5, max_queues = 5, max_inflight_snapshots = 5, max_runtime_snapshots = 5\<rparr>
     (import_options_new ''svc'')"

lemma sample_nonblank:
  "\<not> is_blank ''a''" "\<not> is_blank ''b''" "\<not> is_blank ''/pay''" "\<not> is_blank ''db''" "\<not> is_blank ''svc''"
  by code_simp+

lemma sample_candidates:
  "\<not> is_blank rid \<Longrightarrow> candidate_of (sample_request_span rid) = Some (CandRequest
     (request_event (sample_request_span rid) rid ''/pay'' ''ok'') True)"
  "\<not> is_blank rid \<Longrightarrow> candidate_of (sample_stage_span rid) = Some (CandStage
     (stage_event (sample_stage_span rid) rid ''db'' False) False)"
  by (simp_all add: candidate_of_def sample_request_span_def sample_stage_span_def span_new_def kind_field_def
      get_string_field_state_def bt_lookup_def tt_keys span_kind_parse_def nonblank_field_def outcome_field_def
      success_field_def sample_nonblank)

lemma sample_import_exists: "\<exists>imp. run_from_span_records 1 2 sample_spans sample_import_options = Some (Inr imp)"
  by (rule permissive_import_exists)
    (simp_all add: sample_import_options_def io_set_capture_limits_def import_options_new_def sample_nonblank)

lemma sample_sections:
  "imported_sections (resolved_capture_limits sample_import_options) sample_spans
     = ([request_event (sample_request_span ''a'') ''a'' ''/pay'' ''ok''],
        [stage_event (sample_stage_span ''a'') ''a'' ''db'' False], [])"
  "tr_dropped_requests (dropped_events (resolved_capture_limits sample_import_options) sample_spans) = 1"
proof -
  have ev: "request_events sample_spans = [request_event (sample_request_span ''a'') ''a'' ''/pay'' ''ok'',
      request_event (sample_request_span ''b'') ''b'' ''/pay'' ''ok'']"
    "stage_events sample_spans = [stage_event (sample_stage_span ''a'') ''a'' ''db'' False,
      stage_event (sample_stage_span ''b'') ''b'' ''db'' False]" "queue_events sample_spans = []"
    by (simp_all add: event_lists sample_spans_def List.map_filter_simps sample_candidates sample_nonblank)
  have lim: "max_requests (resolved_capture_limits sample_import_options) = 1"
    "max_stages (resolved_capture_limits sample_import_options) = 5"
    by (simp_all add: resolved_capture_limits_def sample_import_options_def io_set_capture_limits_def)
  have "\<not> is_blank ''ok''" by code_simp
  then show "imported_sections (resolved_capture_limits sample_import_options) sample_spans
     = ([request_event (sample_request_span ''a'') ''a'' ''/pay'' ''ok''],
        [stage_event (sample_stage_span ''a'') ''a'' ''db'' False], [])"
    using sample_nonblank
    by (simp add: imported_sections_def candidate_events_def ev lim keep_request_def keep_stage_def request_ok_def
        stage_ok_def id_count_def parent_of_def within_parent_def request_event_def stage_event_def
        sample_request_span_def sample_stage_span_def span_new_def repair_request_def repair_stage_def
        request_span_def interval_def)
  show "tr_dropped_requests (dropped_events (resolved_capture_limits sample_import_options) sample_spans) = 1"
    by (simp add: dropped_events_def ev lim u64_sat_of_nat_def)
qed

section \<open>Properties\<close>

text \<open>
  C7. Importing any sequence of span records, or of records that a source failed to produce,
  under any options ends without a panic. It fails only because the service name is blank, with
  the error of a failed record, or, in strict mode, with a strict violation. Otherwise the run is
  within the capture limits, there are at most 256 warnings, and strict validation accepts the
  run unless the caller supplied a blank run id.
\<close>

theorem import_total_and_valid:
  "\<exists>r. run_from_span_record_results now later rs options = Some r \<and>
     (case r of
        Inl e \<Rightarrow> is_blank (io_service_name options) \<and> e = IeEmptyServiceName
          \<or> Inl e \<in> set rs \<or> io_strict options \<and> (\<exists>m. e = StrictViolation m)
      | Inr imp \<Rightarrow> within_limits (resolved_capture_limits options) (imp_run imp) \<and>
          length (imp_warnings imp) \<le> MAX_IMPORT_WARNINGS \<and>
          validate_run_strict (imp_run imp)
            = (if blank_run_id options then Inl (inspect_run (imp_run imp)) else Inr ()))"
proof (cases rule: import_cases [of options now later rs])
  case (rejected e)
  then show ?thesis using convert_spans_error by fastforce
next
  case (imported spans cv pir)
  let ?run = "imp_run (pir_imported pir)"
  have "canonical_run ?run = ?run"
    using canonical_rewarned [OF canonical_refreshed imported(8)] .
  then have "validate_run_strict ?run = (if blank_run_id options then Inl (inspect_run ?run) else Inr ())"
    using imported_metadata_ok [OF imported(4,1,8)]
    by (simp add: strict_accepts_iff_canonical_fact report_of_normalize)
  then show ?thesis
    using import_within_limits [OF imported(4,8)] imported(7,10) by simp
qed (simp_all add: strict_core_error_def Let_def)

lemma io_set_strict_simps [simp]:
  "io_strict (io_set_strict b options) = b"
  "io_service_name (io_set_strict b options) = io_service_name options"
  "io_run_id (io_set_strict b options) = io_run_id options"
  "resolved_capture_limits (io_set_strict b options) = resolved_capture_limits options"
  "candidate_run now (io_set_strict b options) cv = candidate_run now options cv"
  "assemble_import later (io_set_strict b options) cv run = assemble_import later options cv run"
  "blank_run_id (io_set_strict b options) = blank_run_id options"
  by (simp_all add: io_set_strict_def resolved_capture_limits_def candidate_run_def assemble_import_def blank_run_id_def
      cong: option.case_cong)

lemma import_acceptable:
  assumes "list_all acceptable spans" "\<not> is_blank (io_service_name options)"
  shows "run_from_span_records now later spans options =
    (let cv = collected (resolved_capture_limits options) spans; candidate = candidate_run now options cv
     in if io_strict options \<and> validate_run_strict candidate \<noteq> Inr ()
        then Some (Inl (strict_core_error (inspect_run candidate)))
        else map_option (Inr \<circ> pir_imported) (assemble_import later options cv candidate))"
  using assms convert_spans_acceptable [OF assms(1), of "io_strict options" "resolved_capture_limits options" 0 conversion_start]
  by (simp add: run_from_records_eq run_from_span_record_results_def convert_span_record_results_with_provenance_def
      collected_def Let_def strict_accepts_iff_canonical_fact option.map_comp o_def)

lemma canonical_candidate_iff:
  assumes c: "collects limits (entries 0 spans) cv"
  shows "canonical_run (candidate_run now options cv) = candidate_run now options cv
    \<longleftrightarrow> imported_sections limits spans = candidate_events limits spans"
proof -
  have "canonical_run r = r \<longleftrightarrow> run_requests (canonical_run r) = run_requests r
      \<and> run_stages (canonical_run r) = run_stages r \<and> run_queues (canonical_run r) = run_queues r"
    if "run_inflight r = []" "run_runtime_snapshots r = []" for r
    using that by (cases r) (simp add: canonical_run_def)
  from this [OF candidate_events_of(4,5) [OF c]] show ?thesis
    using candidate_events_of(1,2,3) [OF c, of now options] canonical_candidate_sections(1) [OF c, of now options]
    by (auto simp: prod_eq_iff)
qed

lemma strict_candidate_iff:
  assumes "\<not> is_blank (io_service_name options)"
  shows "validate_run_strict (candidate_run now options (collected (resolved_capture_limits options) spans)) = Inr ()
    \<longleftrightarrow> \<not> blank_run_id options \<and> imported_sections (resolved_capture_limits options) spans
        = candidate_events (resolved_capture_limits options) spans"
  using candidate_metadata_ok [OF collected_collects assms] canonical_candidate_iff [OF collected_collects]
  by (simp add: strict_accepts_iff_canonical_fact report_of_normalize)

lemma strict_import_exists:
  assumes "list_all acceptable spans" "\<not> is_blank (io_service_name options)" "\<not> blank_run_id options"
    "imported_sections (resolved_capture_limits options) spans = candidate_events (resolved_capture_limits options) spans"
  shows "\<exists>imp. run_from_span_records now later spans options = Some (Inr imp)"
proof -
  let ?cv = "collected (resolved_capture_limits options) spans"
  have "length (cv_warnings ?cv) \<le> MAX_IMPORT_WARNINGS"
    using convert_spans_acceptable [OF assms(1), of False "resolved_capture_limits options" 0 conversion_start]
      convert_spans_permissive [of conversion_start "resolved_capture_limits options" 0 spans]
    by (auto simp: collected_def conversion_start_def)
  then obtain pir where "assemble_import later options ?cv (candidate_run now options ?cv) = Some pir"
    by (rule assembled [OF collected_collects _ candidate_run_sections(1)])
  then show ?thesis
    using import_acceptable [OF assms(1,2)] strict_candidate_iff [OF assms(2)] assms(3,4) by (simp add: Let_def)
qed

text \<open>
  C10. Strict mode accepts exactly the inputs that permissive mode takes over unchanged, with the
  same result: every span with a \<^verbatim>\<open>tt.\<close> field is a complete candidate, the run id is not blank,
  and normalization neither excludes nor repairs any candidate event.
\<close>

theorem strict_import_iff:
  "run_from_span_records now later spans (io_set_strict True options) = Some (Inr imp) \<longleftrightarrow>
     run_from_span_records now later spans (io_set_strict False options) = Some (Inr imp) \<and>
     list_all acceptable spans \<and> \<not> blank_run_id options \<and>
     imported_sections (resolved_capture_limits options) spans
       = candidate_events (resolved_capture_limits options) spans"
proof (cases "list_all acceptable spans \<and> \<not> is_blank (io_service_name options)")
  case True
  then show ?thesis
    using strict_candidate_iff [of options now spans]
      import_acceptable [of spans "io_set_strict True options"] import_acceptable [of spans "io_set_strict False options"]
    by (auto simp: Let_def)
next
  case False
  then show ?thesis
    using convert_spans_strict_error [of spans "resolved_capture_limits options" 0 conversion_start]
    by (auto simp: run_from_records_eq run_from_span_record_results_def
        convert_span_record_results_with_provenance_def)
qed

lemma import_refines_fact:
  assumes "run_from_span_records now later spans options = Some (Inr imp)"
  shows "cleared (imp_run imp) = expected_run later options spans \<and> subseq (imp_retained_sources imp) spans"
  using assms
proof (cases rule: import_cases [of options now later "map Inr spans"])
  case (imported spans' cv pir)
  have eq: "spans' = spans" "imp = pir_imported pir"
    using imported(2,7) assms by (simp_all add: run_from_records_eq inj_map_eq_map [OF inj_Inr])
  note c = imported(4) [unfolded eq]
  have "subseq (map src_span (filter (\<lambda>s. keeps (candidate_run now options cv) (src_span s)) (cv_source_spans cv)))
      (map src_span (cv_source_spans cv))" by (intro subseq_map subseq_filter_left)
  then have "subseq (imp_retained_sources imp) spans"
    unfolding eq imported(9) by (rule subseq_order.trans [OF _ collects_subseq [OF c]])
  then show ?thesis using expected_run_fact [OF c imported(8)] by (simp add: eq)
qed (simp_all add: run_from_records_eq)

text \<open>
  C8. An imported run is the canonical run of the first candidates of each section, in input
  order; its truncation summary counts, saturating, exactly the candidates beyond the limits; its
  metadata is given by the options and the time bounds of the events it kept, up to the
  lifecycle warnings; and its sources are a subsequence of the input.
\<close>

theorem import_refines_candidates:
  assumes "run_from_span_records now later spans options = Some (Inr imp)"
  shows "cleared (imp_run imp) = expected_run later options spans \<and> subseq (imp_retained_sources imp) spans"
  using assms by (rule import_refines_fact)

lemma import_refines_candidates_witness:
  "\<exists>imp. run_from_span_records 1 2 sample_spans sample_import_options = Some (Inr imp) \<and>
     run_requests (imp_run imp) = [request_event (sample_request_span ''a'') ''a'' ''/pay'' ''ok''] \<and>
     run_stages (imp_run imp) = [stage_event (sample_stage_span ''a'') ''a'' ''db'' False] \<and>
     tr_dropped_requests (run_truncation (imp_run imp)) = 1 \<and> subseq (imp_retained_sources imp) sample_spans"
proof -
  obtain imp where imp: "run_from_span_records 1 2 sample_spans sample_import_options = Some (Inr imp)"
    using sample_import_exists by blast
  note ref = import_refines_candidates [OF imp]
  then have "run_requests (imp_run imp) = run_requests (expected_run 2 sample_import_options sample_spans)"
    "run_stages (imp_run imp) = run_stages (expected_run 2 sample_import_options sample_spans)"
    "run_truncation (imp_run imp) = run_truncation (expected_run 2 sample_import_options sample_spans)"
    by (metis cleared_sections)+
  with imp ref show ?thesis
    by (intro exI [of _ imp]) (simp add: expected_run_def sample_sections)
qed

lemma same_candidates:
  assumes "\<And>s. candidate_of (f s) = candidate_of s"
  shows "request_events (map f spans) = request_events spans" "stage_events (map f spans) = stage_events spans"
    "queue_events (map f spans) = queue_events spans" "candidate_events limits (map f spans) = candidate_events limits spans"
    "imported_sections limits (map f spans) = imported_sections limits spans"
    "dropped_events limits (map f spans) = dropped_events limits spans" "keeps run (f s) = keeps run s"
  by (simp_all add: event_lists candidate_events_def imported_sections_def dropped_events_def keeps_def
      List.map_filter_def filter_map o_def assms)

text \<open>
  Importing the retained sources again, or spans that give the same candidates, gives the same
  run without its drop counts.
\<close>

lemma reimport_alike:
  assumes "run_from_span_records now later spans options = Some (Inr imp)"
    and alike: "\<And>s. candidate_of (f s) = candidate_of s"
  shows "\<exists>imp'. run_from_span_records now' later (map f (imp_retained_sources imp)) (io_set_strict False options) = Some (Inr imp')
    \<and> imp_retained_sources imp' = map f (imp_retained_sources imp)
    \<and> cleared (imp_run imp') = (cleared (imp_run imp))\<lparr>run_truncation := truncation_default\<rparr>"
  using assms(1)
proof (cases rule: import_cases [of options now later "map Inr spans"])
  case first: (imported spans' cv pir)
  let ?limits = "resolved_capture_limits options" and ?ret = "map f (imp_retained_sources imp)"
  have eq: "spans' = spans" "imp = pir_imported pir"
    using first(2,7) assms by (simp_all add: run_from_records_eq inj_map_eq_map [OF inj_Inr])
  note c = first(4) [unfolded eq]
  obtain rs ss qs where e: "candidate_events ?limits spans = (rs, ss, qs)" by (cases "candidate_events ?limits spans")
  have rs: "run_requests (candidate_run now options cv) = rs" using candidate_events_of(1) [OF c] e by simp
  note ret' = retained_candidates [OF c e rs, folded first(9), folded eq(2)]
  have ret: "candidate_events ?limits ?ret = (filter (keep_request rs) rs, filter (keep_stage rs) ss, filter (keep_queue rs) qs)"
    "imported_sections ?limits ?ret = imported_sections ?limits spans" "dropped_events ?limits ?ret = truncation_default"
    "\<forall>s\<in>set ?ret. candidate_of s \<noteq> None \<and> keeps (candidate_run now options cv) s"
    "candidate_events ?limits ?ret = (request_events ?ret, stage_events ?ret, queue_events ?ret)"
    using ret' by (simp_all add: same_candidates [where f = f, OF alike] alike)
  show ?thesis
  proof (cases rule: import_cases [of "io_set_strict False options" now' later "map Inr ?ret"])
    case (rejected e)
    then show ?thesis
      using convert_spans_permissive [of conversion_start ?limits 0 ?ret] by (auto simp: conversion_start_def)
  next
    case (imported spans'' cv' pir')
    have eq': "spans'' = ?ret" using imported(2) by (metis inj_map_eq_map [OF inj_Inr])
    note c' = imported(4) [unfolded eq', simplified io_set_strict_simps]
    have all: "map src_span (cv_source_spans cv') = ?ret" using all_sources [OF c' _ ret(5)] ret(4) by blast
    have "run_requests (candidate_run now' options cv') = filter (keep_request rs) rs"
      using candidate_events_of(1) [OF c'] ret(1) by simp
    then have keep: "\<forall>s\<in>set ?ret. keeps (candidate_run now' options cv') s" using keeps_kept ret(4) rs by blast
    have "map src_span (filter (\<lambda>s. keeps (candidate_run now' options cv') (src_span s)) (cv_source_spans cv'))
        = filter (keeps (candidate_run now' options cv')) (map src_span (cv_source_spans cv'))"
      by (simp add: filter_map o_def)
    also have "\<dots> = ?ret" unfolding all filter_id_conv by (rule keep)
    finally have "imp_retained_sources (pir_imported pir') = ?ret" using imported(9) by simp
    moreover have "cleared (imp_run (pir_imported pir')) = (cleared (imp_run imp))\<lparr>run_truncation := truncation_default\<rparr>"
      using expected_run_fact [OF c'] imported(8) expected_run_fact [OF c first(8)] ret(2,3)
      by (simp add: eq expected_run_def split_beta Let_def)
    ultimately show ?thesis using imported(7) unfolding run_from_records_eq by blast
  qed (use first(1) in simp_all)
qed (simp_all add: run_from_records_eq)

lemma reimport_fact:
  assumes "run_from_span_records now later spans options = Some (Inr imp)"
  shows "\<exists>imp'. run_from_span_records now' later (imp_retained_sources imp) (io_set_strict False options) = Some (Inr imp')
    \<and> imp_retained_sources imp' = imp_retained_sources imp
    \<and> cleared (imp_run imp') = (cleared (imp_run imp))\<lparr>run_truncation := truncation_default\<rparr>"
  using reimport_alike [OF assms, of "\<lambda>s. s"] by simp

text \<open>
  C9. The retained sources of an import reproduce it: importing them again, permissively, retains
  all of them, drops nothing, and yields the same requests, stages, queues and metadata, up to
  the lifecycle warnings.
\<close>

theorem reimport_roundtrip:
  assumes "run_from_span_records now later spans options = Some (Inr imp)"
  shows "\<exists>imp'. run_from_span_records now' later (imp_retained_sources imp) (io_set_strict False options) = Some (Inr imp')
    \<and> imp_retained_sources imp' = imp_retained_sources imp
    \<and> cleared (imp_run imp') = (cleared (imp_run imp))\<lparr>run_truncation := truncation_default\<rparr>"
  using assms by (rule reimport_fact)

lemma reimport_roundtrip_witness:
  "\<exists>imp imp'. run_from_span_records 1 2 sample_spans sample_import_options = Some (Inr imp) \<and>
     run_from_span_records 3 2 (imp_retained_sources imp) (io_set_strict False sample_import_options) = Some (Inr imp') \<and>
     imp_retained_sources imp' = imp_retained_sources imp \<and>
     cleared (imp_run imp') = (cleared (imp_run imp))\<lparr>run_truncation := truncation_default\<rparr>"
proof -
  obtain imp where imp: "run_from_span_records 1 2 sample_spans sample_import_options = Some (Inr imp)"
    using sample_import_exists by blast
  from reimport_roundtrip [OF imp, of 3] imp show ?thesis by blast
qed

end
