(* ===== verification/Tr_Replay.thy ===== *)
theory Tr_Replay
  imports Tr_Files Tr_Jsonl Tr_Guarantees
begin

text \<open>
  The completed-span file as a transport: reading is independent of how the source chunks its
  bytes, and a file that was written reads back as the spans it was written from, up to the JSON
  types of their fields, so that the import of the file reproduces the import it came from.
\<close>

section \<open>Reading lines\<close>

lemma within_record_new: "within_record (bounded_jsonl_records_new reader limit)"
  by (simp add: within_record_def bounded_jsonl_records_new_def)

lemma records_of_new:
  "records_of (bounded_jsonl_records_new reader limit)
     = records_of_bytes limit 1 (fst (stream reader)) (snd (stream reader))"
  using records_of_reads [OF within_record_new, of reader limit]
  by (simp add: bounded_jsonl_records_new_def unread_bytes_def)

definition one_line :: "string \<Rightarrow> bool" where
  "one_line bytes \<longleftrightarrow> list_all (\<lambda>c. \<not> is_newline c) bytes"

lemma records_of_lines:
  "list_all (\<lambda>l. one_line l \<and> length l \<le> limit) ls \<Longrightarrow>
   records_of_bytes limit n (concat (map (\<lambda>l. l @ newline) ls)) None = map Inr (enumerate n ls)"
proof (induction ls arbitrary: n)
  case Nil
  then show ?case by (simp add: records_of_bytes.simps [of limit n "[]"])
next
  case (Cons l ls)
  let ?rest = "concat (map (\<lambda>l. l @ newline) ls)"
  have "until_newline (l @ newline @ ?rest) = l" "from_newline (l @ newline @ ?rest) = CHR 0x0A # ?rest"
    using Cons.prems list_all_takeWhile_append [of "\<lambda>c. \<not> is_newline c" l "newline @ ?rest"]
    by (simp_all add: one_line_def newline_def)
  then show ?case
    using Cons by (subst records_of_bytes.simps) (simp add: Let_def)
qed

section \<open>Records that decode to their span\<close>

text \<open>A line from which the reader takes this span.\<close>

definition replays :: "(string \<Rightarrow> string + Value) \<Rightarrow> (Value \<Rightarrow> string + SpanRecord) \<Rightarrow> string \<Rightarrow> SpanRecord \<Rightarrow> bool" where
  "replays from_slice from_value line span \<longleftrightarrow>
     one_line line \<and> \<not> list_all is_ascii_whitespace line \<and>
     (\<exists>obj. from_slice line = Inr (JObject [(''format'', JString FORMAT_MARKER), (''span'', JObject obj)]) \<and>
        \<not> contains_key obj ''start_unix_ms'' \<and> \<not> contains_key obj ''end_unix_ms'' \<and>
        from_value (JObject obj) = Inr span)"

lemma parse_record_replays:
  assumes "replays from_slice from_value line span"
  shows "\<exists>v. from_slice line = Inr v \<and> parse_record from_value n v strict ws = Inr (Some span, ws)"
proof -
  obtain obj where obj: "from_slice line = Inr (JObject [(''format'', JString FORMAT_MARKER), (''span'', JObject obj)])"
    "\<not> contains_key obj ''start_unix_ms'' \<and> \<not> contains_key obj ''end_unix_ms''" "from_value (JObject obj) = Inr span"
    using assms unfolding replays_def by blast
  have "reject_forbidden_wrapper_keys n [(''format'', JString FORMAT_MARKER), (''span'', JObject obj)] = Inr ()"
    by (simp add: reject_forbidden_wrapper_keys_def contains_key_def starts_with_def)
  moreover have "reject_forbidden_span_keys n obj = Inr ()"
    using obj(2) by (simp add: reject_forbidden_span_keys_def)
  ultimately show ?thesis using obj(1,3) by (simp add: parse_record_def and_then_def)
qed

lemma parse_lines_replays:
  "list_all2 (replays from_slice from_value) ls spans \<Longrightarrow>
   parse_lines from_slice from_value strict ws (map Inr (enumerate n ls)) = (map Inr spans, ws)"
proof (induction ls spans arbitrary: n rule: list_all2_induct)
  case (Cons l ls s spans)
  obtain v where "from_slice l = Inr v" "parse_record from_value n v strict ws = Inr (Some s, ws)"
    using parse_record_replays [OF Cons(1)] by blast
  with Cons show ?case by (simp add: replays_def)
qed simp

lemma import_of_file_as:
  assumes "stream reader = (file_bytes pieces spans, None)"
    and "list_all (\<lambda>s. replays from_slice from_value (record_bytes pieces s) (f s)) spans"
    and "list_all (\<lambda>s. length (record_bytes pieces s) \<le> limit) spans"
  shows "import_jsonl_reader_with_limit from_slice from_value now later reader options limit
    = run_from_span_records now later (map f spans) options"
proof -
  let ?lines = "map (record_bytes pieces) spans"
  have "list_all (\<lambda>l. one_line l \<and> length l \<le> limit) ?lines"
    using assms(2,3) by (auto simp: list_all_iff replays_def)
  from records_of_lines [OF this, of 1]
  have "records_of (bounded_jsonl_records_new reader limit) = map Inr (enumerate 1 ?lines)"
    by (simp add: records_of_new assms(1) file_bytes_def o_def)
  moreover have "list_all2 (replays from_slice from_value) ?lines (map f spans)"
    using assms(2) by (simp add: list_all2_conv_all_nth list_all_length)
  ultimately have "parse_lines from_slice from_value (io_strict options) []
      (records_of (bounded_jsonl_records_new reader limit)) = (map Inr (map f spans), [])"
    by (simp only: parse_lines_replays)
  then show ?thesis
    by (simp add: import_jsonl_reader_with_limit_def attach_parse_warnings_to_lifecycle_def with_retained_sources_def
        run_from_records_eq split: option.split sum.split)
qed

lemmas import_of_file = import_of_file_as [where f = "\<lambda>s. s", unfolded list.map_ident]

section \<open>The JSON text\<close>

text \<open>
  What the replay relies on of \<^verbatim>\<open>serde_json\<close>, for one value: its text is one line that is not blank,
  and decodes to the value, with the members of objects in the order of their map.
\<close>

definition reads_back :: "(string \<Rightarrow> string + Value) \<Rightarrow> (Value \<Rightarrow> string list) \<Rightarrow> Value \<Rightarrow> bool" where
  "reads_back from_slice pieces v \<longleftrightarrow>
     one_line (concat (pieces v)) \<and> \<not> list_all is_ascii_whitespace (concat (pieces v)) \<and>
     from_slice (concat (pieces v)) = Inr (in_key_order v)"

text \<open>A record whose text reads back is the span again, up to the JSON types of its fields.\<close>

lemma record_replays:
  assumes "reads_back from_slice pieces (completed_span_jsonl_record span)" and "bt_wf (sp_fields span)"
  shows "replays from_slice (deserialize_span fault) (record_bytes pieces span) (replayed_span span)"
proof -
  obtain obj where "in_key_order (span_to_value span) = JObject obj"
    "span_from_value (JObject obj) = Some (replayed_span span)"
    "map_of obj ''start_unix_ms'' = None" "map_of obj ''end_unix_ms'' = None"
    using span_replays [OF assms(2)] by metis
  with assms(1) show ?thesis
    by (simp add: replays_def reads_back_def record_bytes_def record_in_key_order FORMAT_MARKER_def contains_key_def
        deserialize_span_def)
qed

lemma lookup_replayed: "bt_lookup (sp_fields (replayed_span span)) key = map_option replayed_value (bt_lookup (sp_fields span) key)"
  by (simp add: replayed_span_def bt_lookup_def map_of_map)

lemma replayed_span_simps:
  "sp_started_at_unix_ms (replayed_span s) = sp_started_at_unix_ms s" "sp_finished_at_unix_ms (replayed_span s) = sp_finished_at_unix_ms s"
  "sp_started_at_run_us (replayed_span s) = sp_started_at_run_us s" "sp_finished_at_run_us (replayed_span s) = sp_finished_at_run_us s"
  "sp_duration_us (replayed_span s) = sp_duration_us s"
  by (simp_all add: replayed_span_def)

lemma replayed_events:
  "request_event (replayed_span s) rid route outcome = request_event s rid route outcome"
  "stage_event (replayed_span s) rid stage success = stage_event s rid stage success"
  "queue_event (replayed_span s) rid queue depth = queue_event s rid queue depth"
  by (simp_all add: request_event_def stage_event_def queue_event_def span_latency_def elapsed_duration_us_def
      replayed_span_simps split: option.split)

lemma replayed_string: "get_string_field_state (replayed_span s) key = get_string_field_state s key"
  by (auto simp: get_string_field_state_def lookup_replayed split: option.split FieldValue.split)

lemma replayed_fields:
  "outcome_field (replayed_span s) = outcome_field s" "success_field (replayed_span s) = success_field s"
  "depth_field (replayed_span s) = depth_field s"
  by (auto simp: outcome_field_def success_field_def depth_field_def nonblank_field_def replayed_string lookup_replayed
      split: option.split FieldValue.split)

lemma replayed_candidate: "candidate_of (replayed_span s) = candidate_of s"
  unfolding candidate_of_def kind_field_def nonblank_field_def replayed_string replayed_fields replayed_events
    replayed_span_simps ..

lemma file_replays:
  assumes "run_from_span_records now later spans options = Some (Inr imp)"
    and "write_completed_span_jsonl_with_limit pieces pid os (imp_retained_sources imp) path MAX_JSONL_RECORD_BYTES files
       = (files', Inr ())"
    and "stream reader = (the (files' path), None)"
    and "list_all (\<lambda>s. bt_wf (sp_fields s) \<and> reads_back from_slice pieces (completed_span_jsonl_record s)) (imp_retained_sources imp)"
  shows "\<exists>imp'. import_jsonl_reader from_slice (deserialize_span fault) now' later reader (io_set_strict False options)
      = Some (Inr imp')
    \<and> imp_retained_sources imp' = map replayed_span (imp_retained_sources imp)
    \<and> cleared (imp_run imp') = (cleared (imp_run imp))\<lparr>run_truncation := truncation_default\<rparr>"
proof -
  have "files' = files(path \<mapsto> file_bytes pieces (imp_retained_sources imp))"
    "list_all (\<lambda>s. length (record_bytes pieces s) \<le> MAX_JSONL_RECORD_BYTES) (imp_retained_sources imp)"
    using completed_span_file_fact [where pieces = pieces and pid = pid and os = os and path = path and files = files
        and spans = "imp_retained_sources imp" and limit = MAX_JSONL_RECORD_BYTES]
    by (simp_all add: assms(2))
  moreover have "list_all (\<lambda>s. replays from_slice (deserialize_span fault) (record_bytes pieces s) (replayed_span s))
      (imp_retained_sources imp)"
    using assms(4) record_replays by (fastforce simp: list_all_iff)
  ultimately have "import_jsonl_reader from_slice (deserialize_span fault) now' later reader (io_set_strict False options)
    = run_from_span_records now' later (map replayed_span (imp_retained_sources imp)) (io_set_strict False options)"
    unfolding import_jsonl_reader_def using assms(3) by (intro import_of_file_as) simp_all
  with reimport_alike [OF assms(1) replayed_candidate, of now'] show ?thesis by simp
qed

section \<open>A concrete codec\<close>

definition codec_spans :: "SpanRecord list" where
  "codec_spans = [sample_request_span ''a'', sample_stage_span ''a'']"

text \<open>A text for the records of these two spans: the braced name, which tells them apart.\<close>

fun codec_name :: "Value \<Rightarrow> string" where
  "codec_name (JObject [_, (_, JObject obj)]) = (case map_of obj ''name'' of Some (JString name) \<Rightarrow> name | _ \<Rightarrow> [])"
| "codec_name _ = []"

definition codec_pieces :: "Value \<Rightarrow> string list" where
  "codec_pieces v = [''{'', codec_name v, ''}'']"

definition codec_from_slice :: "string \<Rightarrow> string + Value" where
  "codec_from_slice line =
     (case find (\<lambda>s. line = ''{'' @ sp_name s @ ''}'') codec_spans of
        Some s \<Rightarrow> Inr (in_key_order (completed_span_jsonl_record s))
      | None \<Rightarrow> Inl ''expected value'')"

definition codec_from_value :: "Value \<Rightarrow> string + SpanRecord" where
  "codec_from_value = deserialize_span (\<lambda>_. ''invalid span'')"

lemma codec_name: "codec_name (completed_span_jsonl_record s) = sp_name s"
  by (simp add: completed_span_jsonl_record_def span_to_value_def span_members_lookup)

lemma codec_names: "sp_name (sample_request_span rid) = ''handler''" "sp_name (sample_stage_span rid) = ''query''"
  by (simp_all add: sample_request_span_def sample_stage_span_def span_new_def)

lemma codec_reads_back:
  "list_all (\<lambda>s. bt_wf (sp_fields s) \<and> reads_back codec_from_slice codec_pieces (completed_span_jsonl_record s)) codec_spans"
proof -
  have "list_all (\<lambda>s. bt_wf (sp_fields s)) codec_spans" by code_simp
  moreover have "list_all (\<lambda>s. reads_back codec_from_slice codec_pieces (completed_span_jsonl_record s)) codec_spans"
    by (simp add: codec_spans_def reads_back_def codec_pieces_def codec_name codec_from_slice_def codec_names one_line_def
        is_ascii_whitespace_def)
  ultimately show ?thesis by (simp add: list_all_iff)
qed

lemma codec_unchanged: "list_all (\<lambda>s. replayed_span s = s) codec_spans"
  by (simp add: codec_spans_def replayed_span_def sample_request_span_def sample_stage_span_def)

lemma codec_replays: "list_all (\<lambda>s. replays codec_from_slice codec_from_value (record_bytes codec_pieces s) s) codec_spans"
  using codec_reads_back codec_unchanged record_replays unfolding codec_from_value_def
  by (fastforce simp: list_all_iff)

lemma codec_small: "list_all (\<lambda>s. length (record_bytes codec_pieces s) \<le> MAX_JSONL_RECORD_BYTES) codec_spans"
  by (simp add: codec_spans_def record_bytes_def codec_pieces_def codec_name codec_names MAX_JSONL_RECORD_BYTES_def)

definition codec_answers :: file_answers where
  "codec_answers = \<lparr>fa_create_dir = None, fa_open = (\<lambda>_. None), fa_writes = [], fa_flush = None, fa_rename = None,
     fa_remove_fails = False, fa_epoch_nanos = (\<lambda>_. 0)\<rparr>"

definition codec_path :: path where
  "codec_path = \<lparr>path_parent = Some ''out'', path_file_name = Some ''spans.jsonl''\<rparr>"

section \<open>Properties\<close>

text \<open>
  C15. The line reader yields the same records, line numbers and errors for a byte stream however
  its source delivers it: the lines of the stream, up to the first that exceeds the limit, then
  the unterminated rest, or the error that ended the stream.
\<close>

theorem records_independent_of_chunks:
  "records_of (bounded_jsonl_records_new reader limit)
     = records_of_bytes limit 1 (fst (stream reader)) (snd (stream reader))"
  by (rule records_of_new)

text \<open>
  C11. A completed-span file replays the import it was written from. Let the file be written with
  the retained sources of an import, a reader deliver its bytes in any chunks, and \<^verbatim>\<open>serde_json\<close>
  read the text of these records back as the same JSON values. Then the permissive import of the
  file succeeds, retains the same spans, drops nothing, and has the same requests, stages, queues
  and metadata, up to the lifecycle warnings. The format marker, the members the writer puts into a
  record and the reader's decoding of them are part of the model; the spans come back unchanged but
  for field values JSON does not tell apart: a signed integer that is not negative is unsigned
  then, and a float that is not finite is null, which changes no event.
\<close>

theorem completed_span_file_replays:
  assumes "run_from_span_records now later spans options = Some (Inr imp)"
    and "write_completed_span_jsonl_with_limit pieces pid os (imp_retained_sources imp) path MAX_JSONL_RECORD_BYTES files
       = (files', Inr ())"
    and "stream reader = (the (files' path), None)"
    and "list_all (\<lambda>s. bt_wf (sp_fields s) \<and> reads_back from_slice pieces (completed_span_jsonl_record s)) (imp_retained_sources imp)"
  shows "\<exists>imp'. import_jsonl_reader from_slice (deserialize_span fault) now' later reader (io_set_strict False options)
      = Some (Inr imp')
    \<and> imp_retained_sources imp' = map replayed_span (imp_retained_sources imp)
    \<and> cleared (imp_run imp') = (cleared (imp_run imp))\<lparr>run_truncation := truncation_default\<rparr>"
  using assms by (rule file_replays)

lemma completed_span_file_replays_witness:
  "\<exists>imp files' imp'. run_from_span_records 1 2 codec_spans sample_import_options = Some (Inr imp) \<and>
     write_completed_span_jsonl_with_limit codec_pieces 7 codec_answers (imp_retained_sources imp) codec_path
       MAX_JSONL_RECORD_BYTES (\<lambda>_. None) = (files', Inr ()) \<and>
     import_jsonl_reader codec_from_slice (deserialize_span (\<lambda>_. ''invalid span'')) 3 2
       (map (\<lambda>c. ReadBytes [c]) (the (files' codec_path))) (io_set_strict False sample_import_options) = Some (Inr imp') \<and>
     imp_retained_sources imp' = imp_retained_sources imp"
proof -
  obtain imp where imp: "run_from_span_records 1 2 codec_spans sample_import_options = Some (Inr imp)"
    using permissive_import_exists [of sample_import_options 1 2 codec_spans]
    by (auto simp: sample_import_options_def io_set_capture_limits_def import_options_new_def sample_nonblank)
  have sub: "set (imp_retained_sources imp) \<subseteq> set codec_spans"
    using import_refines_fact [OF imp] by (auto dest: list_emb_set)
  with codec_reads_back codec_small codec_unchanged
  have codec: "list_all (\<lambda>s. bt_wf (sp_fields s) \<and> reads_back codec_from_slice codec_pieces (completed_span_jsonl_record s))
      (imp_retained_sources imp)"
    and small: "list_all (\<lambda>s. length (record_bytes codec_pieces s) \<le> MAX_JSONL_RECORD_BYTES) (imp_retained_sources imp)"
    and same: "map replayed_span (imp_retained_sources imp) = imp_retained_sources imp"
    by (auto simp: list_all_iff intro!: map_idI)
  let ?wrote = "write_completed_span_jsonl_with_limit codec_pieces 7 codec_answers (imp_retained_sources imp) codec_path
       MAX_JSONL_RECORD_BYTES (\<lambda>_. None)"
  have "snd ?wrote = Inr ()"
    by (rule write_free [OF _ _ small]) (simp_all add: answers_well_def codec_answers_def)
  then have wrote: "?wrote = (fst ?wrote, Inr ())" by (metis prod.collapse)
  have "stream (map (\<lambda>c. ReadBytes [c]) bytes) = (bytes, None)" for bytes
    by (induction bytes) simp_all
  from completed_span_file_replays [OF imp wrote this codec] imp wrote same show ?thesis by metis
qed

end
