(* ===== verification/Cli_Main.thy ===== *)
theory Cli_Main
  imports An_Analyze An_Toml An_Render Tr_Replay
begin

text \<open>
  The command line (\<^verbatim>\<open>tailtriage-cli/src\<close>): loading an artifact (\<^verbatim>\<open>artifact.rs\<close>), building the
  analyzer options (\<^verbatim>\<open>analyze_config.rs\<close>) and the commands of \<^verbatim>\<open>main.rs\<close>. Argument parsing, the
  JSON and TOML parsers, the report encoder and the answers of the file system are parameters. A
  command answers with the lines it writes to standard error and its result. The properties
  compose the crates: what the import command writes, the analyze command accepts.
\<close>

section \<open>Loading an artifact (\<^verbatim>\<open>artifact.rs\<close>)\<close>

record LoadedArtifact =
  la_run :: Run
  la_original_run :: Run
  la_validation_report :: RunValidationReport
  la_warnings :: "string list"

text \<open>A path is the text it is displayed as.\<close>

datatype ArtifactLoadError =
    AleRead string string
  | AleParse string string
  | AleUnsupportedSchemaVersion string u64 u64
  | AleValidation string string

definition display_path :: "string \<Rightarrow> string" where
  "display_path path = escape_control_chars path"

fun artifact_load_error_display :: "ArtifactLoadError \<Rightarrow> string" where
  "artifact_load_error_display (AleRead path source) =
     ''failed to read run artifact '' @ squote @ display_path path @ squote @ '': '' @ source"
| "artifact_load_error_display (AleParse path message) =
     ''failed to parse run artifact '' @ squote @ display_path path @ squote @ '': ''
     @ escape_control_chars message"
| "artifact_load_error_display (AleUnsupportedSchemaVersion path found supported) =
     ''unsupported run artifact schema_version='' @ show_word found
     @ ''; this tailtriage version supports schema_version='' @ show_word supported
     @ ''. Regenerate the artifact with a current tailtriage version. ('' @ squote @ display_path path
     @ squote @ '')''"
| "artifact_load_error_display (AleValidation path message) =
     ''invalid run artifact '' @ squote @ display_path path @ squote @ '': '' @ escape_control_chars message"

definition map_decode_error :: "string \<Rightarrow> RunJsonDecodeError \<Rightarrow> ArtifactLoadError" where
  "map_decode_error path error =
     (case error of
        RjIo source \<Rightarrow> AleRead path source
      | RjUnsupportedSchemaVersion found supported \<Rightarrow> AleUnsupportedSchemaVersion path found supported
      | RjMalformed error \<Rightarrow>
          AleParse path (case je_category error of
              CatEof \<Rightarrow> ''JSON ended unexpectedly ('' @ je_message error
                @ ''). The artifact may be truncated; re-run capture and ensure the file was fully written.''
            | CatSyntax \<Rightarrow> ''malformed JSON ('' @ je_message error @ '').''
            | CatData \<Rightarrow> ''JSON data is incompatible with the expected run schema ('' @ je_message error @ '').''
            | CatIo \<Rightarrow> ''I/O error while parsing JSON ('' @ je_message error @ '').'')
      | RjShape error \<Rightarrow>
          AleParse path (''JSON shape does not match the tailtriage run schema ('' @ je_message error
            @ ''). Check for missing required fields such as metadata.run_id and requests[].''))"

definition unfinalized_message :: string where
  "unfinalized_message = ''active/unfinalized snapshot is not a completed Run artifact and must be finalized before CLI analysis''"

definition unfinished_request_warnings :: "Run \<Rightarrow> string list" where
  "unfinished_request_warnings run =
     (let count = uf_count (md_unfinished_requests (run_metadata run))
      in if count > 0
         then [''artifact recorded '' @ show_word count @ '' unfinished request(s) at shutdown'']
         else [])"

definition decode_run_artifact :: "(string \<Rightarrow> json_error + Run \<times> string) \<Rightarrow> (string \<Rightarrow> json_error + unit)
    \<Rightarrow> string \<Rightarrow> string + string \<Rightarrow> ArtifactLoadError + LoadedArtifact" where
  "decode_run_artifact deserialize fin path opened =
     (case decode_run_json_path deserialize fin opened of
        Inl error \<Rightarrow> Inl (map_decode_error path error)
      | Inr original_run \<Rightarrow>
          if md_finalized_at_unix_ms (run_metadata original_run) = None
          then Inl (AleValidation path unfinalized_message)
          else
            (let normalized = normalize_run_permissive original_run
             in Inr \<lparr>la_run = nr_run normalized, la_original_run = original_run,
                  la_validation_report = nr_report normalized,
                  la_warnings = md_lifecycle_warnings (run_metadata original_run)
                    @ unfinished_request_warnings original_run\<rparr>))"

section \<open>Analyzer options (\<^verbatim>\<open>analyze_config.rs\<close>)\<close>

datatype CliAnalyzeConfigError =
    CacReadConfig string string
  | CacAnalyzer AnalyzeConfigError

fun cli_config_error_display :: "CliAnalyzeConfigError \<Rightarrow> string" where
  "cli_config_error_display (CacReadConfig path source) =
     ''failed to read analyzer config '' @ squote @ path @ squote @ '': '' @ source"
| "cli_config_error_display (CacAnalyzer inner) = config_error_display inner"

text \<open>A configuration file is its path with what reading it answers.\<close>

definition build_analyze_options :: "toml_decoder \<Rightarrow> (string \<times> (string + string)) option \<Rightarrow> string list
    \<Rightarrow> (CliAnalyzeConfigError + AnalyzeOptions) option" where
  "build_analyze_options decode analyzer_config overrides =
     (let options = analyze_options_default;
          configured = (case analyzer_config of
              None \<Rightarrow> Some (Inr options)
            | Some (path, Inl source) \<Rightarrow> Some (Inl (CacReadConfig path source))
            | Some (path, Inr input) \<Rightarrow>
                map_option (map_sum CacAnalyzer id) (merge_toml_str decode input options))
      in case configured of
           None \<Rightarrow> None
         | Some (Inl e) \<Rightarrow> Some (Inl e)
         | Some (Inr options) \<Rightarrow>
             (case apply_overrides overrides options of
                None \<Rightarrow> None
              | Some (Inl e, _) \<Rightarrow> Some (Inl (CacAnalyzer e))
              | Some (Inr _, options) \<Rightarrow> Some (Inr options)))"

section \<open>The analyze command (\<^verbatim>\<open>main.rs\<close>)\<close>

definition issue_location :: "RunValidationIssue \<Rightarrow> string" where
  "issue_location issue =
     (let location = section_as_str (loc_section (iss_location issue));
          location = (case loc_index (iss_location issue) of
              Some index \<Rightarrow> location @ ''['' @ show_nat index @ '']'' | None \<Rightarrow> location)
      in case loc_field (iss_location issue) of
           Some field \<Rightarrow> location @ ''.'' @ field | None \<Rightarrow> location)"

definition detail_limit :: nat where
  "detail_limit = 8"

definition validate_cli_strict_artifact :: "Run \<Rightarrow> string + unit" where
  "validate_cli_strict_artifact run =
     (case validate_run_strict run of
        Inr _ \<Rightarrow> Inr ()
      | Inl report \<Rightarrow>
          (let errors = filter (\<lambda>issue. iss_severity issue = SevError) (rep_issues report);
               codes = remdups_adj (sort_by cmp (map (\<lambda>issue. issue_code_as_str (iss_code issue)) errors));
               error_count = length errors;
               details = map (\<lambda>issue. issue_code_as_str (iss_code issue) @ '' at '' @ issue_location issue
                   @ '': '' @ escape_control_chars (iss_message issue)) (take detail_limit errors);
               details = (if error_count > detail_limit
                 then details @ [show_nat (error_count - detail_limit) @ '' additional error finding(s) omitted'']
                 else details);
               details = (if details = [] then details @ [validation_error_display report] else details)
           in Inl (''strict artifact validation failed; core issue code(s): '' @ join '', '' codes @ ''; ''
                @ join ''; '' details)))"

definition emit_permissive_validation_warnings :: "RunValidationReport \<Rightarrow> string list" where
  "emit_permissive_validation_warnings report =
     map (\<lambda>issue. ''warning: permissive Run normalization '' @ issue_code_as_str (iss_code issue) @ '' at ''
        @ issue_location issue @ '': '' @ escape_control_chars (iss_message issue)) (rep_issues report)"

datatype OutputFormat = FormatText | FormatJson

datatype CliError =
    CliArtifact ArtifactLoadError
  | CliIo string
  | CliConfig CliAnalyzeConfigError
  | CliAnalyze AnalyzeConfigError
  | CliJson string
  | CliImport ImportError
  | CliSink SinkError

definition no_requests_message :: string where
  "no_requests_message =
     ''requests section is empty. Capture at least one request event before running triage.''"

definition warning_lines :: "string list \<Rightarrow> string list" where
  "warning_lines warnings = map (\<lambda>w. ''warning: '' @ escape_control_chars w) warnings"

text \<open>The lines on standard error, and the error or the text on standard output.\<close>

definition analyze_command :: "(string \<Rightarrow> json_error + Run \<times> string) \<Rightarrow> (string \<Rightarrow> json_error + unit)
    \<Rightarrow> toml_decoder \<Rightarrow> (Report \<Rightarrow> string + string) \<Rightarrow> string \<Rightarrow> string + string \<Rightarrow> OutputFormat
    \<Rightarrow> (string \<times> (string + string)) option \<Rightarrow> string list \<Rightarrow> bool
    \<Rightarrow> (string list \<times> (CliError + string)) option" where
  "analyze_command deserialize fin decode render_json_pretty run_json opened format analyzer_config analyzer_set
       allow_ambiguous_artifact =
     (case decode_run_artifact deserialize fin run_json opened of
        Inl e \<Rightarrow> Some ([], Inl (CliArtifact e))
      | Inr loaded \<Rightarrow>
          (let (err, checked) = (if allow_ambiguous_artifact
               then (emit_permissive_validation_warnings (la_validation_report loaded), Inr ())
               else ([], validate_cli_strict_artifact (la_original_run loaded)))
           in case checked of
                Inl e \<Rightarrow> Some (err, Inl (CliIo e))
              | Inr _ \<Rightarrow>
                  if run_requests (la_run loaded) = []
                  then Some (err, Inl (CliArtifact (AleValidation run_json no_requests_message)))
                  else
                    (let err = err @ warning_lines (la_warnings loaded)
                     in case build_analyze_options decode analyzer_config analyzer_set of
                          None \<Rightarrow> None
                        | Some (Inl e) \<Rightarrow> Some (err, Inl (CliConfig e))
                        | Some (Inr options) \<Rightarrow>
                            (case analyze_run (la_original_run loaded) options of
                               Inl e \<Rightarrow> Some (err, Inl (CliAnalyze e))
                             | Inr report \<Rightarrow>
                                 (case format of
                                    FormatText \<Rightarrow> Some (err, Inr (render_text report))
                                  | FormatJson \<Rightarrow> Some (err, map_sum CliJson id (render_json_pretty report)))))))"

section \<open>The import command (\<^verbatim>\<open>main.rs\<close>)\<close>

datatype ImportCaptureMode = IcmLight | IcmInvestigation

fun capture_mode_from :: "ImportCaptureMode \<Rightarrow> CaptureMode" where
  "capture_mode_from IcmLight = Light"
| "capture_mode_from IcmInvestigation = Investigation"

record TracingSpansJsonl =
  tsj_service :: string
  tsj_output :: path
  tsj_service_version :: "string option"
  tsj_run_id :: "string option"
  tsj_strict :: bool
  tsj_mode :: ImportCaptureMode
  tsj_max_requests :: "nat option"
  tsj_max_stages :: "nat option"
  tsj_max_queues :: "nat option"

definition command_import_options :: "TracingSpansJsonl \<Rightarrow> ImportOptions" where
  "command_import_options a =
     (let options = io_set_mode (capture_mode_from (tsj_mode a))
            (io_set_strict (tsj_strict a) (import_options_new (tsj_service a)));
          options = (case tsj_service_version a of Some v \<Rightarrow> io_set_service_version v options | None \<Rightarrow> options);
          options = (case tsj_run_id a of Some i \<Rightarrow> io_set_run_id i options | None \<Rightarrow> options);
          limits = override_default;
          limits = (case tsj_max_requests a of Some n \<Rightarrow> limits\<lparr>ov_max_requests := Some n\<rparr> | None \<Rightarrow> limits);
          limits = (case tsj_max_stages a of Some n \<Rightarrow> limits\<lparr>ov_max_stages := Some n\<rparr> | None \<Rightarrow> limits);
          limits = (case tsj_max_queues a of Some n \<Rightarrow> limits\<lparr>ov_max_queues := Some n\<rparr> | None \<Rightarrow> limits)
      in io_set_capture_limits_override limits options)"

definition should_append_wrapper_guidance :: "ImportError \<Rightarrow> bool" where
  "should_append_wrapper_guidance err = (case err of ExpectedTailtriageWrapper _ \<Rightarrow> True | _ \<Rightarrow> False)"

definition dquote :: string where
  "dquote = [CHR 0x22]"

definition wrapper_only_rejection_guidance :: string where
  "wrapper_only_rejection_guidance =
     ''stable import expects wrapper JSONL records shaped like {'' @ dquote @ ''format'' @ dquote @ '':'' @ dquote
     @ ''tailtriage.tracing-span.v1'' @ dquote @ '','' @ dquote @ ''span'' @ dquote
     @ '':{...}}. Ordinary tracing_subscriber::fmt().json() logs are unsupported. Pre-stable/internal JSONL must be regenerated with the current writer or converted externally before import.''"

definition zero_max_requests_message :: string where
  "zero_max_requests_message =
     ''--max-requests must be at least 1 for persisted tracing import; tailtriage analyze requires at least one request event''"

text \<open>\<open>create_dir_all\<close> is the file system's answer for the parent directory.\<close>

definition create_output_parent_dir_cli :: "(string \<Rightarrow> string option) \<Rightarrow> path \<Rightarrow> string + unit" where
  "create_output_parent_dir_cli create_dir_all p =
     (case path_parent p of
        None \<Rightarrow> Inr ()
      | Some parent \<Rightarrow>
          if parent = [] then Inr ()
          else (case create_dir_all parent of
                  None \<Rightarrow> Inr ()
                | Some err \<Rightarrow> Inl (''failed to create output parent directory '' @ squote @ parent @ squote
                    @ '': '' @ err)))"

definition import_tracing_spans_jsonl :: "(string \<Rightarrow> string + Value) \<Rightarrow> (Value \<Rightarrow> string + SpanRecord)
    \<Rightarrow> (Run \<Rightarrow> string) \<Rightarrow> (string \<Rightarrow> string option) \<Rightarrow> u64 \<Rightarrow> u64 \<Rightarrow> nat \<Rightarrow> string \<Rightarrow> string + read_answer list
    \<Rightarrow> TracingSpansJsonl \<Rightarrow> fs_world \<Rightarrow> (fs_world \<times> string list \<times> (CliError + unit)) option" where
  "import_tracing_spans_jsonl from_slice from_value to_json create_dir_all now later pid spans_jsonl opened a w =
     (if tsj_max_requests a = Some 0 then Some (w, [], Inl (CliIo zero_max_requests_message))
      else case import_jsonl_path from_slice from_value now later spans_jsonl opened (command_import_options a) of
        None \<Rightarrow> None
      | Some (Inl err) \<Rightarrow>
          Some (w, [], Inl (if should_append_wrapper_guidance err
             then CliIo (import_error_display err @ newline @ wrapper_only_rejection_guidance)
             else CliImport err))
      | Some (Inr imported) \<Rightarrow>
          (let err = warning_lines (map iw_message (imp_warnings imported))
           in case ensure_persistable_run_has_requests (imp_run imported) of
                Inl e \<Rightarrow> Some (w, err, Inl (CliIo (import_error_display e @ newline @ wrapper_only_rejection_guidance)))
              | Inr _ \<Rightarrow>
                  (case create_output_parent_dir_cli create_dir_all (tsj_output a) of
                     Inl e \<Rightarrow> Some (w, err, Inl (CliIo e))
                   | Inr _ \<Rightarrow>
                       (let (w, written) = local_json_write to_json pid (tsj_output a) w (imp_run imported)
                        in Some (w, err, map_sum CliSink id written)))))"

section \<open>The process (\<^verbatim>\<open>main.rs\<close>)\<close>

fun cli_error_display :: "CliError \<Rightarrow> string" where
  "cli_error_display (CliArtifact e) = artifact_load_error_display e"
| "cli_error_display (CliIo e) = e"
| "cli_error_display (CliConfig e) = cli_config_error_display e"
| "cli_error_display (CliAnalyze e) = config_error_display e"
| "cli_error_display (CliJson e) = e"
| "cli_error_display (CliImport e) = import_error_display e"
| "cli_error_display (CliSink e) = sink_error_display e"

text \<open>What is written to standard error, and the exit code.\<close>

definition main_exit :: "string list \<times> (CliError + 'a) \<Rightarrow> string list \<times> nat" where
  "main_exit = (\<lambda>(err, r). case r of Inl e \<Rightarrow> (err @ [cli_error_display e], 1) | Inr _ \<Rightarrow> (err, 0))"

section \<open>Building the options\<close>

text \<open>What an override sets, when it is well formed.\<close>

definition override_of :: "string \<Rightarrow> (string \<times> OptionValue) option" where
  "override_of raw =
     (let path = takeWhile (\<lambda>c. c \<noteq> CHR ''='') raw
      in case find_entry path of
           None \<Rightarrow> None
         | Some entry \<Rightarrow>
             (case parse_cli (oe_kind entry) path (tl (dropWhile (\<lambda>c. c \<noteq> CHR ''='') raw)) of
                Inl _ \<Rightarrow> None | Inr v \<Rightarrow> Some (path, v)))"

lemma apply_override_sets:
  assumes "apply_override raw self = Some (Inr (), self')"
  obtains path v where "override_of raw = Some (path, v)"
    "\<And>f. f \<in> set OPTION_ENTRIES \<Longrightarrow> oe_get f self' = (if oe_path f = path then v else oe_get f self)"
proof -
  let ?path = "takeWhile (\<lambda>c. c \<noteq> CHR ''='') raw" and ?text = "tl (dropWhile (\<lambda>c. c \<noteq> CHR ''='') raw)"
  obtain e v where e: "find_entry ?path = Some e" "parse_cli (oe_kind e) ?path ?text = Inr v"
    "oe_set e v self = Some self'"
    using assms find_entry_Some [of ?path]
    by (auto simp: apply_override_def Let_def split: if_splits option.splits sum.splits)
  note mem = find_entry_Some [OF e(1)]
  show ?thesis
  proof (rule that [of ?path v])
    show "override_of raw = Some (?path, v)" using e mem by (simp add: override_of_def)
    show "oe_get f self' = (if oe_path f = ?path then v else oe_get f self)" if f: "f \<in> set OPTION_ENTRIES" for f
    proof (cases "f = e")
      case True
      then show ?thesis using entry_get_set [of e v self] parse_cli_kind [OF e(2)] e(3) mem by auto
    next
      case False
      then show ?thesis using entry_frame [of e f v self self'] entry_eqI [of e f] f e(3) mem by auto
    qed
  qed
qed

lemma apply_each_sets:
  "apply_each raws self = Some (Inr (), self') \<Longrightarrow> f \<in> set OPTION_ENTRIES \<Longrightarrow>
   oe_get f self' = (case map_of (rev (List.map_filter override_of raws)) (oe_path f) of
     Some v \<Rightarrow> v | None \<Rightarrow> oe_get f self)"
proof (induction raws arbitrary: self)
  case (Cons raw raws)
  then obtain s where s: "apply_override raw self = Some (Inr (), s)" "apply_each raws s = Some (Inr (), self')"
    by (auto split: option.splits sum.splits)
  obtain path v where v: "override_of raw = Some (path, v)"
    "oe_get f s = (if oe_path f = path then v else oe_get f self)"
    using apply_override_sets [OF s(1)] Cons.prems(2) by metis
  show ?case
    using Cons.IH [OF s(2) Cons.prems(2)] v by (auto simp: List.map_filter_simps map_add_def split: option.split)
qed (simp add: List.map_filter_simps)

text \<open>
  The configuration before the overrides: the defaults, overlaid by the table of the configuration
  file if there is one.
\<close>

definition file_options :: "toml_decoder \<Rightarrow> (string \<times> (string + string)) option \<Rightarrow> AnalyzeOptions" where
  "file_options decode analyzer_config =
     (case analyzer_config of
        Some (_, Inr input) \<Rightarrow>
          (case decode input of
             Inr (Some (Inr config)) \<Rightarrow> toml_overlay config analyze_options_default
           | _ \<Rightarrow> analyze_options_default)
      | _ \<Rightarrow> analyze_options_default)"

lemma merge_toml_str_overlays:
  "case merge_toml_str decode input analyze_options_default of
     None \<Rightarrow> False
   | Some (Inl e) \<Rightarrow> True
   | Some (Inr self') \<Rightarrow> valid_options self' \<and> self' = file_options decode (Some (p, Inr input))"
proof (cases "\<exists>config. decode input = Inr (Some (Inr config))")
  case True
  then obtain config where c: "decode input = Inr (Some (Inr config))" by blast
  show ?thesis
    using options_validate_ok_iff [of "toml_overlay config analyze_options_default"]
    by (cases "options_validate (toml_overlay config analyze_options_default)")
      (simp_all add: merge_toml_str_def c file_options_def merge_toml_overlay split: option.split)
next
  case False
  then show ?thesis
    by (auto simp: merge_toml_str_def split: sum.split option.split)
qed

lemma built_options:
  "case build_analyze_options decode analyzer_config overrides of
     None \<Rightarrow> False
   | Some (Inl (CacReadConfig path source)) \<Rightarrow> analyzer_config = Some (path, Inl source)
   | Some (Inl (CacAnalyzer _)) \<Rightarrow> True
   | Some (Inr options) \<Rightarrow> valid_options options \<and>
       list_all (\<lambda>f. oe_get f options =
         (case map_of (rev (List.map_filter override_of overrides)) (oe_path f) of
            Some v \<Rightarrow> v
          | None \<Rightarrow> oe_get f (file_options decode analyzer_config))) OPTION_ENTRIES"
proof -
  have step: ?thesis
    if b: "build_analyze_options decode analyzer_config overrides =
        (case apply_overrides overrides options of
           None \<Rightarrow> None
         | Some (Inl e, _) \<Rightarrow> Some (Inl (CacAnalyzer e))
         | Some (Inr _, options) \<Rightarrow> Some (Inr options))"
      and v: "valid_options options"
      and r: "options = file_options decode analyzer_config" for options
  proof -
    obtain res c where app: "apply_each overrides options = Some (res, c)"
      using apply_each_never_panics [of overrides options] by (cases "apply_each overrides options") auto
    show ?thesis
    proof (cases res)
      case (Inl e)
      then show ?thesis using app by (simp add: b apply_overrides_def)
    next
      case (Inr u)
      then have a: "apply_each overrides options = Some (Inr (), c)" using app by simp
      then have "valid_options c" using apply_each_valid [OF a] v by (cases "overrides = []") auto
      then show ?thesis
        using apply_each_sets [OF a] r a by (simp add: b apply_overrides_def list_all_iff cong: option.case_cong)
    qed
  qed
  show ?thesis
  proof (cases analyzer_config)
    case None
    then show ?thesis
      by (intro step [of analyze_options_default])
        (simp_all add: build_analyze_options_def default_options_valid file_options_def)
  next
    case (Some pr)
    obtain p answer where pr: "analyzer_config = Some (p, answer)" using Some by (cases pr) simp
    show ?thesis
    proof (cases answer)
      case (Inl source)
      then show ?thesis by (simp add: build_analyze_options_def pr)
    next
      case (Inr input)
      note reads = merge_toml_str_overlays [where decode = decode and input = input and p = p]
      show ?thesis
      proof (cases "merge_toml_str decode input analyze_options_default")
        case None
        then show ?thesis using reads by simp
      next
        case (Some merged)
        show ?thesis
        proof (cases merged)
          case (Inl e)
          then show ?thesis using Some by (simp add: build_analyze_options_def pr Inr \<open>answer = Inr input\<close>)
        next
          case m: (Inr options)
          show ?thesis
            by (rule step [of options])
              (use Some m reads in \<open>auto simp: build_analyze_options_def pr \<open>answer = Inr input\<close>\<close>)
        qed
      qed
    qed
  qed
qed

lemma built_options_valid:
  "build_analyze_options decode analyzer_config overrides = Some (Inr options) \<Longrightarrow> valid_options options"
  using built_options [where decode = decode and analyzer_config = analyzer_config and overrides = overrides] by simp

text \<open>
  C29. The effective configuration follows the precedence built-in defaults, then the configuration
  file, then the overrides in their order: building it never panics, and a configuration that is
  built is valid and reads, at every registered path, what the last override of the path says,
  else what the table field of that name says, else the default. The file's part is the overlay
  of its table on the defaults, field by field, which knows nothing of the paths.
\<close>

theorem options_precedence:
  "case build_analyze_options decode analyzer_config overrides of
     None \<Rightarrow> False
   | Some (Inl (CacReadConfig path source)) \<Rightarrow> analyzer_config = Some (path, Inl source)
   | Some (Inl (CacAnalyzer _)) \<Rightarrow> True
   | Some (Inr options) \<Rightarrow> valid_options options \<and>
       list_all (\<lambda>f. oe_get f options =
         (case map_of (rev (List.map_filter override_of overrides)) (oe_path f) of
            Some v \<Rightarrow> v
          | None \<Rightarrow> oe_get f (file_options decode analyzer_config))) OPTION_ENTRIES"
  by (rule built_options)

section \<open>Strict and permissive analysis\<close>

lemma validate_cli_strict_iff:
  "validate_cli_strict_artifact run = Inr () \<longleftrightarrow> validate_run_strict run = Inr ()"
  by (cases "validate_run_strict run") (simp_all add: validate_cli_strict_artifact_def Let_def)

text \<open>
  C28. The flag that admits ambiguous artifacts only widens the analyze command: on an artifact that
  strict validation accepts, both modes end alike and the permissive one only adds the warnings
  of the report; on any other that loads, the strict one refuses before it reads a
  configuration, and one that does not load is refused by both in the same way.
\<close>

theorem permissive_analysis_widens:
  "(let analyze = analyze_command deserialize fin decode render_json_pretty run_json opened format analyzer_config
        analyzer_set
    in case decode_run_artifact deserialize fin run_json opened of
         Inl e \<Rightarrow> analyze False = Some ([], Inl (CliArtifact e)) \<and> analyze True = analyze False
       | Inr loaded \<Rightarrow>
           if validate_run_strict (la_original_run loaded) = Inr ()
           then analyze True = map_option
                  (apfst (\<lambda>err. emit_permissive_validation_warnings (la_validation_report loaded) @ err)) (analyze False)
           else (\<exists>e. analyze False = Some ([], Inl (CliIo e))))"
proof (cases "decode_run_artifact deserialize fin run_json opened")
  case (Inl e)
  then show ?thesis by (simp add: analyze_command_def Let_def)
next
  case (Inr loaded)
  show ?thesis
  proof (cases "validate_run_strict (la_original_run loaded) = Inr ()")
    case True
    then have "validate_cli_strict_artifact (la_original_run loaded) = Inr ()"
      by (simp add: validate_cli_strict_iff)
    with True Inr show ?thesis
      by (auto simp: analyze_command_def Let_def split: option.split sum.split OutputFormat.split)
  next
    case False
    then obtain e where "validate_cli_strict_artifact (la_original_run loaded) = Inl e"
      using validate_cli_strict_iff [of "la_original_run loaded"]
      by (cases "validate_cli_strict_artifact (la_original_run loaded)") auto
    with False Inr show ?thesis by (simp add: analyze_command_def)
  qed
qed

section \<open>Importing, then analyzing\<close>

lemma imported_parts:
  assumes "run_from_span_record_results now later rs options = Some (Inr imp)"
  obtains (parts) spans and cv :: conversion and pir :: ProvenanceImportedRun where "\<not> is_blank (io_service_name options)"
    "collects (resolved_capture_limits options) (entries 0 spans) cv" "imp = pir_imported pir"
    "rewarned (refresh_normalized_metadata_bounds later (io_run_id options \<noteq> None)
         (canonical_run (candidate_run now options cv))) (imp_run (pir_imported pir))"
proof (cases rule: import_cases [of options now later rs])
  case (imported spans cv pir)
  have "imp = pir_imported pir" using imported(7) assms by simp
  from imported(1,4) this imported(8) show ?thesis by (rule parts)
qed (use assms in simp_all)

lemma imported_run_fact:
  assumes "run_from_span_record_results now later rs options = Some (Inr imp)" and w: "rewarned (imp_run imp) run"
  shows "canonical_run run = run" "metadata_ok run \<longleftrightarrow> \<not> blank_run_id options"
    "\<exists>b. (run_metadata run)\<lparr>md_lifecycle_warnings := []\<rparr> = import_metadata options b"
proof -
  from assms(1) obtain spans and cv :: conversion and pir :: ProvenanceImportedRun where imported: "\<not> is_blank (io_service_name options)"
    "collects (resolved_capture_limits options) (entries 0 spans) cv" "imp = pir_imported pir"
    "rewarned (refresh_normalized_metadata_bounds later (io_run_id options \<noteq> None)
         (canonical_run (candidate_run now options cv))) (imp_run (pir_imported pir))"
    by (rule imported_parts)
  let ?r = "refresh_normalized_metadata_bounds later (io_run_id options \<noteq> None) (canonical_run (candidate_run now options cv))"
  have r: "rewarned ?r run" using imported(4) w unfolding imported(3) by (rule rewarned_trans)
  show "canonical_run run = run" by (rule canonical_rewarned [OF canonical_refreshed r])
  show "metadata_ok run \<longleftrightarrow> \<not> blank_run_id options" by (rule imported_metadata_ok [OF imported(2,1) r])
  obtain b where b: "run_metadata ?r = import_metadata options b" using refreshed_metadata by blast
  have "(run_metadata run)\<lparr>md_lifecycle_warnings := []\<rparr> = (run_metadata ?r)\<lparr>md_lifecycle_warnings := []\<rparr>"
    by (rule rewarned_sections(12) [OF r])
  also have "\<dots> = import_metadata options b" unfolding b by (simp add: import_metadata_def split: prod.split)
  finally show "\<exists>b. (run_metadata run)\<lparr>md_lifecycle_warnings := []\<rparr> = import_metadata options b" by blast
qed

lemma import_jsonl_path_fact:
  assumes "import_jsonl_path from_slice from_value now later shown opened options = Some (Inr imp)"
  shows "canonical_run (imp_run imp) = imp_run imp" "metadata_ok (imp_run imp) \<longleftrightarrow> \<not> blank_run_id options"
    "\<exists>b. (run_metadata (imp_run imp))\<lparr>md_lifecycle_warnings := []\<rparr> = import_metadata options b"
proof -
  obtain reader where r: "opened = Inr reader"
    "import_jsonl_reader_with_limit from_slice from_value now later reader options MAX_JSONL_RECORD_BYTES = Some (Inr imp)"
    using assms by (auto simp: import_jsonl_path_def import_jsonl_reader_def split: sum.splits)
  obtain rs ws where p: "parse_lines from_slice from_value (io_strict options) []
      (records_of (bounded_jsonl_records_new reader MAX_JSONL_RECORD_BYTES)) = (rs, ws)" by (rule prod.exhaust)
  obtain imp0 where i: "run_from_span_record_results now later rs options = Some (Inr imp0)"
    "imp_run imp = attach_parse_warnings_to_lifecycle ws (imp_run imp0)"
    using r(2) by (auto simp: import_jsonl_reader_with_limit_def p with_retained_sources_def split: option.splits sum.splits)
  have "rewarned (imp_run imp0) (imp_run imp)"
    unfolding i(2) attach_parse_warnings_to_lifecycle_def by (rule rewarned_foldl) simp
  from imported_run_fact [OF i(1) this]
  show "canonical_run (imp_run imp) = imp_run imp" "metadata_ok (imp_run imp) \<longleftrightarrow> \<not> blank_run_id options"
    "\<exists>b. (run_metadata (imp_run imp))\<lparr>md_lifecycle_warnings := []\<rparr> = import_metadata options b" by blast+
qed

lemma command_import_options_simps [simp]:
  "io_run_id (command_import_options a) = tsj_run_id a"
  "io_service_name (command_import_options a) = tsj_service a"
  "io_capture_limits (command_import_options a) = None"
  by (simp_all add: command_import_options_def Let_def io_set_capture_limits_override_def io_set_run_id_def
      io_set_service_version_def io_set_mode_def io_set_strict_def import_options_new_def split: option.split)

lemma map_sum_eq_Inr: "map_sum f g x = Inr y \<longleftrightarrow> (\<exists>z. x = Inr z \<and> y = g z)"
  by (cases x) auto

lemma import_command_ok:
  assumes "import_tracing_spans_jsonl from_slice from_value to_json create_dir_all now later pid spans_jsonl opened a w
      = Some (w', err, Inr ())"
  obtains imp where
    "import_jsonl_path from_slice from_value now later spans_jsonl opened (command_import_options a) = Some (Inr imp)"
    "run_requests (imp_run imp) \<noteq> []" "err = warning_lines (map iw_message (imp_warnings imp))"
    "stored_file (tsj_output a) w' = Some (to_json (imp_run imp))"
proof -
  obtain imp where i:
    "import_jsonl_path from_slice from_value now later spans_jsonl opened (command_import_options a) = Some (Inr imp)"
    and rest: "run_requests (imp_run imp) \<noteq> []" "err = warning_lines (map iw_message (imp_warnings imp))"
    and written: "local_json_write to_json pid (tsj_output a) w (imp_run imp) = (w', Inr ())"
    using assms
    by (auto simp: import_tracing_spans_jsonl_def map_sum_eq_Inr ensure_persistable_run_has_requests_def Let_def
        split: if_splits option.splits sum.splits prod.splits)
  have "stored_file (tsj_output a) w' = Some (to_json (imp_run imp))"
    using local_json_write_cases [where to_json = to_json and pid = pid and self = "tsj_output a" and w = w
        and run = "imp_run imp"] written by (simp add: stored_file_def)
  with i rest show ?thesis by (rule that)
qed

lemma analyze_accepts:
  assumes "deserialize bytes = Inr (run, rest)" "fin rest = Inr ()" "metadata_ok run" "canonical_run run = run"
    and "md_finalized_at_unix_ms (run_metadata run) \<noteq> None" "run_requests run \<noteq> []"
    and "build_analyze_options decode analyzer_config analyzer_set = Some (Inr options)" "valid_options options"
  shows "analyze_command deserialize fin decode render_json_pretty run_json (Inr bytes) FormatText analyzer_config
      analyzer_set False
    = Some (warning_lines (md_lifecycle_warnings (run_metadata run) @ unfinished_request_warnings run),
        Inr (render_text (analyze_run_with_options run options)))"
proof -
  have "decode_run_json_path deserialize fin (Inr bytes) = Inr run"
    using assms(1-3) by (simp add: decode_run_json_path_def decode_run_json_reader_ok metadata_ok_def)
  moreover have "validate_cli_strict_artifact run = Inr ()"
    using assms(3,4) by (simp add: validate_cli_strict_iff strict_accepts_iff_canonical_fact report_of_normalize)
  ultimately show ?thesis
    using assms by (simp add: analyze_command_def decode_run_artifact_def Let_def report_of_normalize analyze_run_cases)
qed

text \<open>
  C6. What the import command writes, the analyze command accepts: when an import under a non-blank
  run id, or none, succeeds, the output file holds the encoding of a run with requests, and
  wherever the JSON parser reads that encoding back, strict analysis of the file under any
  configuration that can be built succeeds, prints the report of that run, and counts all of
  its requests.
\<close>

theorem imported_artifact_is_analyzed:
  assumes "import_tracing_spans_jsonl from_slice from_value to_json create_dir_all now later pid spans_jsonl opened a w
      = Some (w', err, Inr ())"
    and "case tsj_run_id a of Some i \<Rightarrow> \<not> is_blank i | None \<Rightarrow> True"
  shows "\<exists>run. stored_file (tsj_output a) w' = Some (to_json run) \<and> run_requests run \<noteq> [] \<and>
    (\<forall>deserialize fin rest decode render_json_pretty run_json analyzer_config analyzer_set options.
       deserialize (to_json run) = Inr (run, rest) \<and> fin rest = Inr () \<and>
       build_analyze_options decode analyzer_config analyzer_set = Some (Inr options) \<longrightarrow>
       (let report = analyze_run_with_options run options
        in analyze_command deserialize fin decode render_json_pretty run_json (Inr (to_json run)) FormatText
             analyzer_config analyzer_set False
           = Some (warning_lines (md_lifecycle_warnings (run_metadata run)), Inr (render_text report)) \<and>
           rp_request_count report = length (run_requests run)))"
proof -
  obtain imp where i:
    "import_jsonl_path from_slice from_value now later spans_jsonl opened (command_import_options a) = Some (Inr imp)"
    "run_requests (imp_run imp) \<noteq> []" "stored_file (tsj_output a) w' = Some (to_json (imp_run imp))"
    using assms(1) by (rule import_command_ok) blast
  let ?run = "imp_run imp"
  note fact = import_jsonl_path_fact [OF i(1)]
  have ok: "metadata_ok ?run"
    using fact(2) assms(2) by (auto simp: blank_run_id_def split: option.splits)
  obtain b where b: "(run_metadata ?run)\<lparr>md_lifecycle_warnings := []\<rparr> = import_metadata (command_import_options a) b"
    using fact(3) by blast
  have fin: "md_finalized_at_unix_ms (run_metadata ?run) \<noteq> None"
    using arg_cong [OF b, of md_finalized_at_unix_ms] by (cases b) (simp add: import_metadata_def)
  have none: "unfinished_request_warnings ?run = []"
    using arg_cong [OF b, of md_unfinished_requests]
    by (cases b) (simp add: import_metadata_def unfinished_request_warnings_def unfinished_default_def)
  have count: "rp_request_count (analyze_run_with_options ?run options) = length (run_requests ?run)" for options
    using fact(1) by (simp add: base_report_def report_of_normalize)
  show ?thesis
  proof (intro exI [of _ ?run] conjI allI impI)
    fix deserialize :: "string \<Rightarrow> json_error + Run \<times> string" and fin :: "string \<Rightarrow> json_error + unit" and rest :: string and decode render_json_pretty run_json analyzer_config analyzer_set options
    assume p: "deserialize (to_json ?run) = Inr (?run, rest) \<and> fin rest = Inr () \<and>
       build_analyze_options decode analyzer_config analyzer_set = Some (Inr options)"
    have "valid_options options" using built_options_valid p by blast
    with p analyze_accepts [of deserialize "to_json ?run" ?run rest fin decode analyzer_config analyzer_set options
        render_json_pretty run_json] ok fin fact(1) i(2) none count
    show "let report = analyze_run_with_options ?run options
        in analyze_command deserialize fin decode render_json_pretty run_json (Inr (to_json ?run)) FormatText
             analyzer_config analyzer_set False
           = Some (warning_lines (md_lifecycle_warnings (run_metadata ?run)), Inr (render_text report)) \<and>
           rp_request_count report = length (run_requests ?run)" by simp
  qed (use i in simp_all)
qed

section \<open>A concrete import\<close>

definition sample_command :: TracingSpansJsonl where
  "sample_command = \<lparr>tsj_service = ''svc'', tsj_output = codec_path, tsj_service_version = None, tsj_run_id = None,
     tsj_strict = False, tsj_mode = IcmLight, tsj_max_requests = Some 5, tsj_max_stages = Some 5, tsj_max_queues = None\<rparr>"

definition blank_world :: fs_world where
  "blank_world = \<lparr>fs_files = (\<lambda>_. None), fs_script = []\<rparr>"

lemma codec_sections:
  assumes "1 \<le> max_requests limits" "1 \<le> max_stages limits"
  shows "fst (imported_sections limits codec_spans) = [request_event (sample_request_span ''a'') ''a'' ''/pay'' ''ok'']"
proof -
  have ev: "request_events codec_spans = [request_event (sample_request_span ''a'') ''a'' ''/pay'' ''ok'']"
    by (simp add: event_lists codec_spans_def List.map_filter_simps sample_candidates sample_nonblank)
  have "\<not> is_blank ''ok''" by code_simp
  then show ?thesis
    using sample_nonblank assms
    by (simp add: imported_sections_def candidate_events_def ev keep_request_def request_ok_def id_count_def
        request_event_def sample_request_span_def span_new_def repair_request_def split: prod.split)
qed

lemma sample_import_command:
  "\<exists>w' err. import_tracing_spans_jsonl codec_from_slice codec_from_value to_json (\<lambda>_. None) 1 2 7 ''spans.jsonl''
     (Inr [ReadBytes (file_bytes codec_pieces codec_spans)]) sample_command blank_world = Some (w', err, Inr ())"
proof -
  let ?o = "command_import_options sample_command"
  obtain imp where imp: "run_from_span_records 1 2 codec_spans ?o = Some (Inr imp)"
    using permissive_import_exists [of ?o 1 2 codec_spans] sample_nonblank
    by (auto simp: sample_command_def command_import_options_def Let_def io_set_capture_limits_override_def
        io_set_strict_def io_set_mode_def import_options_new_def)
  have "1 \<le> max_requests (resolved_capture_limits ?o)" "1 \<le> max_stages (resolved_capture_limits ?o)"
    by (simp_all add: resolved_capture_limits_def sample_command_def command_import_options_def Let_def
        io_set_capture_limits_override_def io_set_strict_def io_set_mode_def import_options_new_def override_apply_def override_field_def
        unwrap_or_def)
  note sections = codec_sections [OF this]
  have "run_requests (imp_run imp) = fst (imported_sections (resolved_capture_limits ?o) codec_spans)"
    using arg_cong [OF conjunct1 [OF import_refines_fact [OF imp]], of run_requests]
    by (simp add: cleared_sections expected_run_def split: prod.splits)
  then have requests: "run_requests (imp_run imp) \<noteq> []" unfolding sections by simp
  have "import_jsonl_path codec_from_slice codec_from_value 1 2 ''spans.jsonl''
      (Inr [ReadBytes (file_bytes codec_pieces codec_spans)]) ?o = Some (Inr imp)"
    using import_of_file [OF _ codec_replays codec_small, where options = ?o and now = 1 and later = 2
        and reader = "[ReadBytes (file_bytes codec_pieces codec_spans)]"] imp
    by (simp add: import_jsonl_path_def import_jsonl_reader_def)
  with requests show ?thesis
    by (simp add: import_tracing_spans_jsonl_def ensure_persistable_run_has_requests_def Let_def sample_command_def
        create_output_parent_dir_cli_def blank_world_def local_json_write_def write_attempt_def no_faults_def
        split: option.split prod.split)
qed

theorem imported_artifact_is_analyzed_witness:
  "\<exists>w' err run. import_tracing_spans_jsonl codec_from_slice codec_from_value (\<lambda>_. ''run'') (\<lambda>_. None) 1 2 7
       ''spans.jsonl'' (Inr [ReadBytes (file_bytes codec_pieces codec_spans)]) sample_command blank_world
       = Some (w', err, Inr ()) \<and>
     stored_file codec_path w' = Some ''run'' \<and> run_requests run \<noteq> [] \<and>
     analyze_command (\<lambda>_. Inr (run, [])) (\<lambda>_. Inr ()) (\<lambda>_. Inl ''unused'') (\<lambda>_. Inl ''unused'') ''run.json''
       (Inr ''run'') FormatText None [] False
       = Some (warning_lines (md_lifecycle_warnings (run_metadata run)),
           Inr (render_text (analyze_run_with_options run analyze_options_default)))"
proof -
  obtain w' err where c: "import_tracing_spans_jsonl codec_from_slice codec_from_value (\<lambda>_. ''run'') (\<lambda>_. None) 1 2 7
       ''spans.jsonl'' (Inr [ReadBytes (file_bytes codec_pieces codec_spans)]) sample_command blank_world
       = Some (w', err, Inr ())"
    using sample_import_command [of "\<lambda>_. ''run''"] by blast
  have out: "tsj_output sample_command = codec_path" "tsj_run_id sample_command = None"
    by (simp_all add: sample_command_def)
  have built: "build_analyze_options (\<lambda>_. Inl ''unused'') None [] = Some (Inr analyze_options_default)"
    by (simp add: build_analyze_options_def apply_overrides_def)
  obtain run where r: "stored_file codec_path w' = Some ''run''" "run_requests run \<noteq> []"
    "\<forall>deserialize fin rest decode render_json_pretty run_json analyzer_config analyzer_set options.
       deserialize ''run'' = Inr (run, rest :: string) \<and> fin rest = Inr () \<and>
       build_analyze_options decode analyzer_config analyzer_set = Some (Inr options) \<longrightarrow>
       (let report = analyze_run_with_options run options
        in analyze_command deserialize fin decode render_json_pretty run_json (Inr ''run'') FormatText
             analyzer_config analyzer_set False
           = Some (warning_lines (md_lifecycle_warnings (run_metadata run)), Inr (render_text report)) \<and>
           rp_request_count report = length (run_requests run))"
    using imported_artifact_is_analyzed [OF c] unfolding out by auto
  have "analyze_command (\<lambda>_. Inr (run, [])) (\<lambda>_. Inr ()) (\<lambda>_. Inl ''unused'') (\<lambda>_. Inl ''unused'') ''run.json''
       (Inr ''run'') FormatText None [] False
       = Some (warning_lines (md_lifecycle_warnings (run_metadata run)),
           Inr (render_text (analyze_run_with_options run analyze_options_default)))"
    using r(3) [THEN spec [of _ "\<lambda>_. Inr (run, [])"], THEN spec [of _ "\<lambda>_. Inr ()"], THEN spec [of _ "[]"],
        THEN spec [of _ "\<lambda>_. Inl ''unused''"], THEN spec [of _ "\<lambda>_. Inl ''unused''"], THEN spec [of _ "''run.json''"],
        THEN spec [of _ None], THEN spec [of _ "[]"], THEN spec [of _ analyze_options_default]] built
    by (simp add: Let_def)
  with c r(1,2) show ?thesis by blast
qed

end
