(* ===== verification/Tr_Recorder.thy ===== *)
theory Tr_Recorder
  imports Tr_Import Core_Time
begin

text \<open>
  The live span recorder (\<^verbatim>\<open>tailtriage-tracing/src/recorder.rs\<close>): the state behind the mutex, the
  three callbacks of the subscriber layer, retention of closed candidates, and the snapshot. What
  the \<^verbatim>\<open>tracing\<close> crate passes to a callback is an argument (\<open>SpanAttributes\<close>, a list of visited
  values), and so are the clock readings. Every callback runs under the lock, so an execution of
  any number of threads is a list of callbacks.
\<close>

section \<open>Limits and state\<close>

definition DEFAULT_MAX_OPEN_SPANS :: nat where
  "DEFAULT_MAX_OPEN_SPANS = 8192"

definition DEFAULT_MAX_COMPLETED_CANDIDATE_SPANS :: nat where
  "DEFAULT_MAX_COMPLETED_CANDIDATE_SPANS = 65536"

record RecorderLimits =
  rl_max_open_spans :: nat
  rl_max_completed_candidate_spans :: nat

definition recorder_limits_default :: RecorderLimits where
  "recorder_limits_default = \<lparr>rl_max_open_spans = DEFAULT_MAX_OPEN_SPANS,
     rl_max_completed_candidate_spans = DEFAULT_MAX_COMPLETED_CANDIDATE_SPANS\<rparr>"

record OpenSpan =
  os_id :: "string option"
  os_parent_id :: "string option"
  os_name :: string
  os_fields :: span_fields
  os_started_at_unix_ms :: u64
  os_started_at_run_us :: u64
  os_started_instant :: nat
  os_is_tt_candidate :: bool

record ClosedKindIssueSample =
  cki_name :: string
  cki_span_id :: "string option"
  cki_tt_request_id :: "string option"
  cki_tt_kind :: "string option"
  cki_reason :: string

record RecorderState =
  rs_start_instant :: nat
  rs_open :: "(u64, OpenSpan) btree"
  rs_completed_requests :: "SpanRecord list"
  rs_completed_stages :: "SpanRecord list"
  rs_completed_queues :: "SpanRecord list"
  rs_dropped_open_spans :: u64
  rs_dropped_completed_request_candidates :: u64
  rs_dropped_completed_child_candidates :: u64
  rs_evicted_child_candidates_to_preserve_request :: u64
  rs_closed_missing_kind_spans :: u64
  rs_closed_unknown_kind_spans :: u64
  rs_closed_malformed_kind_spans :: u64
  rs_closed_kind_samples :: "ClosedKindIssueSample list"
  rs_closed_incomplete_candidate_spans :: u64
  rs_closed_incomplete_candidate_samples :: "ClosedKindIssueSample list"

definition recorder_state_new :: "nat \<Rightarrow> RecorderState" where
  "recorder_state_new now =
     \<lparr>rs_start_instant = now, rs_open = [], rs_completed_requests = [], rs_completed_stages = [],
      rs_completed_queues = [], rs_dropped_open_spans = 0, rs_dropped_completed_request_candidates = 0,
      rs_dropped_completed_child_candidates = 0, rs_evicted_child_candidates_to_preserve_request = 0,
      rs_closed_missing_kind_spans = 0, rs_closed_unknown_kind_spans = 0, rs_closed_malformed_kind_spans = 0,
      rs_closed_kind_samples = [], rs_closed_incomplete_candidate_spans = 0,
      rs_closed_incomplete_candidate_samples = []\<rparr>"

section \<open>Fields\<close>

text \<open>A debug-formatted value is visited as the text of its debug format.\<close>

datatype visited =
    VisitBool bool
  | VisitI64 i64
  | VisitU64 u64
  | VisitF64 f64
  | VisitStr string
  | VisitDebug string

fun visited_value :: "visited \<Rightarrow> FieldValue" where
  "visited_value (VisitBool v) = FvBool v"
| "visited_value (VisitI64 v) = FvI64 v"
| "visited_value (VisitU64 v) = FvU64 v"
| "visited_value (VisitF64 v) = FvF64 v"
| "visited_value (VisitStr v) = FvString v"
| "visited_value (VisitDebug v) = FvString v"

definition visit_fields :: "(string \<times> visited) list \<Rightarrow> span_fields" where
  "visit_fields values = foldl (\<lambda>fs (k, v). bt_insert k (visited_value v) fs) [] values"

definition fields_extend :: "span_fields \<Rightarrow> span_fields \<Rightarrow> span_fields" where
  "fields_extend fs new = foldl (\<lambda>fs (k, v). bt_insert k v fs) fs new"

definition fields_have_tailtriage_key :: "span_fields \<Rightarrow> bool" where
  "fields_have_tailtriage_key fs = list_ex (\<lambda>(k, _). starts_with k ''tt.'') fs"

record SpanAttributes =
  at_parent :: "u64 option"
  at_current :: "u64 option"
  at_name :: string
  at_declared_fields :: "string list"
  at_values :: "(string \<times> visited) list"

definition metadata_has_tailtriage_field :: "SpanAttributes \<Rightarrow> bool" where
  "metadata_has_tailtriage_field attrs = list_ex (\<lambda>f. starts_with f ''tt.'') (at_declared_fields attrs)"

fun scalar_field_string :: "FieldValue option \<Rightarrow> string option" where
  "scalar_field_string (Some (FvString v)) = Some v"
| "scalar_field_string (Some (FvBool v)) = Some (if v then ''true'' else ''false'')"
| "scalar_field_string (Some (FvU64 v)) = Some (show_word v)"
| "scalar_field_string (Some (FvI64 v)) = Some (show_int (sint v))"
| "scalar_field_string (Some (FvF64 v)) = Some v"
| "scalar_field_string (Some FvNull) = None"
| "scalar_field_string None = None"

section \<open>Opening and recording\<close>

definition duration_us_between :: "nat \<Rightarrow> nat \<Rightarrow> u64" where
  "duration_us_between started_instant closed_instant = u64_sat_of_nat ((closed_instant - started_instant) div 1000)"

definition open_span_from_start_sample :: "string option \<Rightarrow> string option \<Rightarrow> string \<Rightarrow> span_fields \<Rightarrow> u64
    \<Rightarrow> nat \<Rightarrow> nat \<Rightarrow> bool \<Rightarrow> OpenSpan" where
  "open_span_from_start_sample i parent_id name fields' started_at_unix_ms started_instant recorder_start_instant
       is_tt_candidate =
     \<lparr>os_id = i, os_parent_id = parent_id, os_name = name, os_fields = fields',
      os_started_at_unix_ms = started_at_unix_ms,
      os_started_at_run_us = duration_us_between recorder_start_instant started_instant,
      os_started_instant = started_instant, os_is_tt_candidate = is_tt_candidate\<rparr>"

definition on_new_span :: "RecorderLimits \<Rightarrow> clock_reading \<Rightarrow> SpanAttributes \<Rightarrow> u64 \<Rightarrow> RecorderState \<Rightarrow> RecorderState" where
  "on_new_span limits now attrs i state =
     (let visitor_fields = visit_fields (at_values attrs);
          parent_id = (case at_parent attrs of
              Some pid \<Rightarrow> Some (show_word pid)
            | None \<Rightarrow> map_option (\<lambda>pid. show_word pid) (at_current attrs));
          metadata_candidate = metadata_has_tailtriage_field attrs;
          initial_candidate = fields_have_tailtriage_key visitor_fields
      in if \<not> (metadata_candidate \<or> initial_candidate) then state
         else if length (rs_open state) \<ge> rl_max_open_spans limits
         then state\<lparr>rs_dropped_open_spans := saturating_add (rs_dropped_open_spans state) 1\<rparr>
         else state\<lparr>rs_open := bt_insert i
                (open_span_from_start_sample (Some (show_word i)) parent_id (at_name attrs) visitor_fields
                   (unix_time_ms now) (rd_instant_ns now) (rs_start_instant state)
                   (metadata_candidate \<or> initial_candidate)) (rs_open state)\<rparr>)"

definition on_record :: "u64 \<Rightarrow> (string \<times> visited) list \<Rightarrow> RecorderState \<Rightarrow> RecorderState" where
  "on_record span_id values state =
     (case bt_lookup (rs_open state) span_id of
        Some span \<Rightarrow> state\<lparr>rs_open := bt_insert span_id
          (span\<lparr>os_fields := fields_extend (os_fields span) (visit_fields values)\<rparr>) (rs_open state)\<rparr>
      | None \<Rightarrow> state)"

section \<open>Closing\<close>

definition classify_kind :: "span_fields \<Rightarrow> string + string" where
  "classify_kind fs =
     (case bt_lookup fs TT_KIND of
        None \<Rightarrow> Inl ''missing''
      | Some (FvString v) \<Rightarrow>
          if v = ''request'' then Inr ''request''
          else if v = ''stage'' then Inr ''stage''
          else if v = ''queue'' then Inr ''queue''
          else Inl ''unknown''
      | Some _ \<Rightarrow> Inl ''malformed'')"

definition is_required_name :: "string \<Rightarrow> bool" where
  "is_required_name field_name \<longleftrightarrow>
     field_name = ''tt.request_id'' \<or> field_name = ''tt.route'' \<or> field_name = ''tt.stage'' \<or> field_name = ''tt.queue''"

text \<open>The messages name the field when it is one of the four required ones.\<close>

definition require_string_field :: "span_fields \<Rightarrow> string \<Rightarrow> string option" where
  "require_string_field fs field_name =
     (let named = (if is_required_name field_name then '' '' @ field_name else [])
      in case bt_lookup fs field_name of
           None \<Rightarrow> Some (''missing required field'' @ named)
         | Some (FvString v) \<Rightarrow>
             if is_blank v
             then Some (''invalid required field'' @ named @ '': required string cannot be empty or whitespace'')
             else None
         | Some _ \<Rightarrow> Some (''invalid required field'' @ named @ '': expected string''))"

definition or_else :: "'a option \<Rightarrow> 'a option \<Rightarrow> 'a option" where
  "or_else a b = (case a of Some x \<Rightarrow> Some x | None \<Rightarrow> b)"

definition precheck_required_fields :: "string \<Rightarrow> span_fields \<Rightarrow> string option" where
  "precheck_required_fields kind fs =
     (if kind = ''request'' then
        or_else (require_string_field fs ''tt.request_id'') (require_string_field fs ''tt.route'')
      else if kind = ''stage'' then
        or_else (require_string_field fs ''tt.request_id'') (require_string_field fs ''tt.stage'')
      else if kind = ''queue'' then
        or_else (require_string_field fs ''tt.request_id'') (require_string_field fs ''tt.queue'')
      else None)"

definition push_issue_sample :: "ClosedKindIssueSample \<Rightarrow> ClosedKindIssueSample list \<Rightarrow> ClosedKindIssueSample list" where
  "push_issue_sample s samples = (if length samples < 16 then samples @ [s] else samples)"

definition record_incomplete_candidate_issue :: "OpenSpan \<Rightarrow> string \<Rightarrow> string \<Rightarrow> RecorderState \<Rightarrow> RecorderState" where
  "record_incomplete_candidate_issue opened kind reason state =
     state\<lparr>rs_closed_incomplete_candidate_spans := saturating_add (rs_closed_incomplete_candidate_spans state) 1,
       rs_closed_incomplete_candidate_samples := push_issue_sample
         \<lparr>cki_name = os_name opened, cki_span_id = os_id opened,
          cki_tt_request_id = (case bt_lookup (os_fields opened) ''tt.request_id'' of
              Some (FvString v) \<Rightarrow> Some v | _ \<Rightarrow> None),
          cki_tt_kind = Some kind, cki_reason = reason\<rparr> (rs_closed_incomplete_candidate_samples state)\<rparr>"

definition record_invalid_kind_issue :: "OpenSpan \<Rightarrow> string \<Rightarrow> RecorderState \<Rightarrow> RecorderState" where
  "record_invalid_kind_issue opened reason state =
     (if \<not> os_is_tt_candidate opened then state
      else
        let state =
          (if reason = ''missing'' then
             state\<lparr>rs_closed_missing_kind_spans := saturating_add (rs_closed_missing_kind_spans state) 1\<rparr>
           else if reason = ''unknown'' then
             state\<lparr>rs_closed_unknown_kind_spans := saturating_add (rs_closed_unknown_kind_spans state) 1\<rparr>
           else if reason = ''malformed'' then
             state\<lparr>rs_closed_malformed_kind_spans := saturating_add (rs_closed_malformed_kind_spans state) 1\<rparr>
           else state)
        in state\<lparr>rs_closed_kind_samples := push_issue_sample
             \<lparr>cki_name = os_name opened, cki_span_id = os_id opened,
              cki_tt_request_id = scalar_field_string (bt_lookup (os_fields opened) ''tt.request_id''),
              cki_tt_kind = scalar_field_string (bt_lookup (os_fields opened) TT_KIND),
              cki_reason = reason\<rparr> (rs_closed_kind_samples state)\<rparr>)"

definition push_record_by_kind :: "RecorderState \<Rightarrow> SpanRecord \<Rightarrow> string \<Rightarrow> RecorderState" where
  "push_record_by_kind state rec kind =
     (if kind = ''request'' then state\<lparr>rs_completed_requests := rs_completed_requests state @ [rec]\<rparr>
      else if kind = ''stage'' then state\<lparr>rs_completed_stages := rs_completed_stages state @ [rec]\<rparr>
      else if kind = ''queue'' then state\<lparr>rs_completed_queues := rs_completed_queues state @ [rec]\<rparr>
      else state)"

definition push_completed_candidate_with_kind_aware_retention ::
    "RecorderState \<Rightarrow> SpanRecord \<Rightarrow> string \<Rightarrow> RecorderLimits \<Rightarrow> RecorderState" where
  "push_completed_candidate_with_kind_aware_retention state rec kind limits =
     (let held = length (rs_completed_requests state) + length (rs_completed_stages state)
            + length (rs_completed_queues state);
          evicted = saturating_add (rs_evicted_child_candidates_to_preserve_request state) 1
      in if kind \<noteq> ''request'' then
           (if held < rl_max_completed_candidate_spans limits then push_record_by_kind state rec kind
            else if kind = ''stage'' \<or> kind = ''queue'' then
              state\<lparr>rs_dropped_completed_child_candidates :=
                saturating_add (rs_dropped_completed_child_candidates state) 1\<rparr>
            else state)
         else if held < rl_max_completed_candidate_spans limits then
           state\<lparr>rs_completed_requests := rs_completed_requests state @ [rec]\<rparr>
         else if rs_completed_queues state \<noteq> [] then
           state\<lparr>rs_completed_queues := butlast (rs_completed_queues state),
             rs_evicted_child_candidates_to_preserve_request := evicted,
             rs_completed_requests := rs_completed_requests state @ [rec]\<rparr>
         else if rs_completed_stages state \<noteq> [] then
           state\<lparr>rs_completed_stages := butlast (rs_completed_stages state),
             rs_evicted_child_candidates_to_preserve_request := evicted,
             rs_completed_requests := rs_completed_requests state @ [rec]\<rparr>
         else
           state\<lparr>rs_dropped_completed_request_candidates :=
             saturating_add (rs_dropped_completed_request_candidates state) 1\<rparr>)"

definition closed_record :: "u64 \<Rightarrow> u64 \<Rightarrow> nat \<Rightarrow> OpenSpan \<Rightarrow> SpanRecord" where
  "closed_record closed_at_unix_ms finished_at_run_us closed_instant opened =
     (let rec = span_with_duration_us (duration_us_between (os_started_instant opened) closed_instant)
            (span_with_finished_at_run_us finished_at_run_us
              (span_with_started_at_run_us (os_started_at_run_us opened)
                (span_new (os_name opened) (os_started_at_unix_ms opened) closed_at_unix_ms)));
          rec = (case os_id opened of Some i \<Rightarrow> span_with_id i rec | None \<Rightarrow> rec);
          rec = (case os_parent_id opened of Some i \<Rightarrow> span_with_parent_id i rec | None \<Rightarrow> rec)
      in foldl (\<lambda>rec (k, v). span_with_field k v rec) rec (os_fields opened))"

definition on_close :: "RecorderLimits \<Rightarrow> clock_reading \<Rightarrow> u64 \<Rightarrow> RecorderState \<Rightarrow> RecorderState" where
  "on_close limits now i state =
     (let closed_at_unix_ms = unix_time_ms now;
          closed_instant = rd_instant_ns now;
          finished_at_run_us = duration_us_between (rs_start_instant state) closed_instant
      in case bt_lookup (rs_open state) i of
           None \<Rightarrow> state
         | Some opened \<Rightarrow>
             (let state = state\<lparr>rs_open := bt_remove i (rs_open state)\<rparr>
              in case classify_kind (os_fields opened) of
                   Inl reason \<Rightarrow> record_invalid_kind_issue opened reason state
                 | Inr kind \<Rightarrow>
                     (case precheck_required_fields kind (os_fields opened) of
                        Some reason \<Rightarrow> record_incomplete_candidate_issue opened kind reason state
                      | None \<Rightarrow>
                          push_completed_candidate_with_kind_aware_retention state
                            (closed_record closed_at_unix_ms finished_at_run_us closed_instant opened) kind limits)))"

definition completed_span_records :: "RecorderState \<Rightarrow> SpanRecord list" where
  "completed_span_records state =
     rs_completed_requests state @ rs_completed_stages state @ rs_completed_queues state"

end
