(* ===== verification/Tr_Snapshot.thy ===== *)
theory Tr_Snapshot
  imports Tr_Recorder
begin

text \<open>
  Snapshots of the live recorder (\<^verbatim>\<open>tailtriage-tracing/src/recorder.rs\<close>) and the merge of runtime
  data (\<^verbatim>\<open>tailtriage-tracing/src/tokio.rs\<close>): the statistics taken under the lock, the strict
  messages, the permissive warnings, the recorder handle with its builder, and the run of a
  runtime collector folded into an imported run.
\<close>

section \<open>Statistics\<close>

record OpenSpanSample =
  oss_name :: string
  oss_span_id :: "string option"
  oss_tt_kind :: "string option"
  oss_tt_request_id :: "string option"

record SnapshotStats =
  ss_dropped_open_spans :: u64
  ss_dropped_completed_request_candidates :: u64
  ss_dropped_completed_child_candidates :: u64
  ss_evicted_child_candidates_to_preserve_request :: u64
  ss_open_candidate_count :: u64
  ss_open_samples :: "OpenSpanSample list"
  ss_closed_missing_kind_spans :: u64
  ss_closed_unknown_kind_spans :: u64
  ss_closed_malformed_kind_spans :: u64
  ss_closed_kind_samples :: "ClosedKindIssueSample list"
  ss_closed_incomplete_candidate_spans :: u64
  ss_closed_incomplete_candidate_samples :: "ClosedKindIssueSample list"

definition count_open :: "u64 \<times> OpenSpanSample list \<Rightarrow> OpenSpan \<Rightarrow> u64 \<times> OpenSpanSample list" where
  "count_open = (\<lambda>(n, samples) opened.
     if os_is_tt_candidate opened then
       (saturating_add n 1,
        if length samples < 3 then
          samples @ [\<lparr>oss_name = os_name opened, oss_span_id = os_id opened,
                      oss_tt_kind = scalar_field_string (bt_lookup (os_fields opened) TT_KIND),
                      oss_tt_request_id = scalar_field_string (bt_lookup (os_fields opened) ''tt.request_id'')\<rparr>]
        else samples)
     else (n, samples))"

definition snapshot_stats :: "RecorderState \<Rightarrow> SnapshotStats" where
  "snapshot_stats state =
     (let (n, samples) = foldl count_open (0, []) (map snd (rs_open state))
      in \<lparr>ss_dropped_open_spans = rs_dropped_open_spans state,
          ss_dropped_completed_request_candidates = rs_dropped_completed_request_candidates state,
          ss_dropped_completed_child_candidates = rs_dropped_completed_child_candidates state,
          ss_evicted_child_candidates_to_preserve_request = rs_evicted_child_candidates_to_preserve_request state,
          ss_open_candidate_count = n, ss_open_samples = samples,
          ss_closed_missing_kind_spans = rs_closed_missing_kind_spans state,
          ss_closed_unknown_kind_spans = rs_closed_unknown_kind_spans state,
          ss_closed_malformed_kind_spans = rs_closed_malformed_kind_spans state,
          ss_closed_kind_samples = rs_closed_kind_samples state,
          ss_closed_incomplete_candidate_spans = rs_closed_incomplete_candidate_spans state,
          ss_closed_incomplete_candidate_samples = rs_closed_incomplete_candidate_samples state\<rparr>)"

section \<open>Messages\<close>

definition open_message :: "SnapshotStats \<Rightarrow> string" where
  "open_message stats = ''live recorder observed '' @ show_word (ss_open_candidate_count stats)
     @ '' open candidate span(s) at snapshot/shutdown; incomplete spans are not converted into fabricated completions''"

definition incomplete_message :: "SnapshotStats \<Rightarrow> string" where
  "incomplete_message stats = ''live recorder closed '' @ show_word (ss_closed_incomplete_candidate_spans stats)
     @ '' candidate span(s) with incomplete required fields for tt.kind=request|stage|queue; these spans are not converted''"

definition dropped_requests_message :: "SnapshotStats \<Rightarrow> RecorderLimits \<Rightarrow> string" where
  "dropped_requests_message stats limits =
     ''live recorder dropped '' @ show_word (ss_dropped_completed_request_candidates stats)
       @ '' completed request candidate span(s) because max_completed_candidate_spans=''
       @ show_nat (rl_max_completed_candidate_spans limits)
       @ '' was reached and no child candidate was available to evict''"

definition dropped_children_message :: "SnapshotStats \<Rightarrow> RecorderLimits \<Rightarrow> string" where
  "dropped_children_message stats limits =
     ''live recorder dropped '' @ show_word (ss_dropped_completed_child_candidates stats)
       @ '' completed child candidate span(s) because max_completed_candidate_spans=''
       @ show_nat (rl_max_completed_candidate_spans limits)
       @ '' was reached while preserving request roots''"

definition evicted_children_message :: "SnapshotStats \<Rightarrow> RecorderLimits \<Rightarrow> string" where
  "evicted_children_message stats limits =
     ''live recorder evicted '' @ show_word (ss_evicted_child_candidates_to_preserve_request stats)
       @ '' completed child candidate span(s) to preserve completed request candidate span(s) under max_completed_candidate_spans=''
       @ show_nat (rl_max_completed_candidate_spans limits)"

definition closed_kind_message :: "u64 \<Rightarrow> string \<Rightarrow> string \<Rightarrow> string" where
  "closed_kind_message n what again = ''live recorder closed '' @ show_word n @ '' candidate span(s) '' @ what
     @ ''; closed candidate spans '' @ again @ '' are not converted''"

definition push_strict_recorder_messages :: "SnapshotStats \<Rightarrow> RecorderLimits \<Rightarrow> string list" where
  "push_strict_recorder_messages stats limits =
     (if ss_open_candidate_count stats > 0 then [open_message stats] else [])
     @ (if ss_closed_missing_kind_spans stats > 0
        then [closed_kind_message (ss_closed_missing_kind_spans stats) ''missing tt.kind'' ''without tt.kind''] else [])
     @ (if ss_closed_unknown_kind_spans stats > 0
        then [closed_kind_message (ss_closed_unknown_kind_spans stats) ''with unknown tt.kind'' ''with unknown tt.kind'']
        else [])
     @ (if ss_closed_malformed_kind_spans stats > 0
        then [closed_kind_message (ss_closed_malformed_kind_spans stats) ''with malformed tt.kind'' ''with malformed tt.kind'']
        else [])
     @ (if ss_closed_incomplete_candidate_spans stats > 0 then [incomplete_message stats] else [])
     @ (if ss_dropped_open_spans stats > 0
        then [''live recorder dropped '' @ show_word (ss_dropped_open_spans stats)
                @ '' open candidate span(s) because max_open_spans='' @ show_nat (rl_max_open_spans limits)
                @ '' was reached; raise max_open_spans or reduce capture scope''] else [])
     @ (if ss_dropped_completed_request_candidates stats > 0 then [dropped_requests_message stats limits] else [])
     @ (if ss_dropped_completed_child_candidates stats > 0 then [dropped_children_message stats limits] else [])
     @ (if ss_evicted_child_candidates_to_preserve_request stats > 0 then [evicted_children_message stats limits] else [])"

definition dash :: "string option \<Rightarrow> string" where
  "dash v = unwrap_or v ''-''"

definition open_sample_text :: "OpenSpanSample \<Rightarrow> string" where
  "open_sample_text s = ''name='' @ oss_name s @ '', id='' @ dash (oss_span_id s) @ '', tt.kind='' @ dash (oss_tt_kind s)
     @ '', tt.request_id='' @ dash (oss_tt_request_id s)"

definition issue_sample_text :: "ClosedKindIssueSample \<Rightarrow> string" where
  "issue_sample_text s = ''reason='' @ cki_reason s @ '', name='' @ cki_name s @ '', id='' @ dash (cki_span_id s)
     @ '', tt.kind='' @ dash (cki_tt_kind s) @ '', tt.request_id='' @ dash (cki_tt_request_id s)"

definition with_samples :: "string \<Rightarrow> string list \<Rightarrow> string" where
  "with_samples msg samples = (if samples = [] then msg else msg @ ''; samples: '' @ join ''; '' samples)"

definition format_incomplete_closed_candidate_message :: "SnapshotStats \<Rightarrow> string" where
  "format_incomplete_closed_candidate_message stats =
     with_samples (incomplete_message stats) (map issue_sample_text (ss_closed_incomplete_candidate_samples stats))"

definition invalid_kind_message :: "SnapshotStats \<Rightarrow> string" where
  "invalid_kind_message stats =
     with_samples
       (''live recorder closed candidate spans with invalid tt.kind (missing='' @ show_word (ss_closed_missing_kind_spans stats)
          @ '', unknown='' @ show_word (ss_closed_unknown_kind_spans stats)
          @ '', malformed='' @ show_word (ss_closed_malformed_kind_spans stats) @ ''); these spans are not converted'')
       (map issue_sample_text (ss_closed_kind_samples stats))"

text \<open>A message is pushed both as a lifecycle warning of the run and as an import warning.\<close>

definition push_both :: "string \<Rightarrow> Run \<times> ImportWarning list \<Rightarrow> Run \<times> ImportWarning list" where
  "push_both msg = (\<lambda>(run, warnings).
     (update_metadata (\<lambda>md. md\<lparr>md_lifecycle_warnings := md_lifecycle_warnings md @ [msg]\<rparr>) run,
      warnings @ [ImportWarning msg]))"

definition drop_messages :: "SnapshotStats \<Rightarrow> RecorderLimits \<Rightarrow> string list" where
  "drop_messages stats limits =
     (let closed_invalid_kind_total = ss_closed_missing_kind_spans stats + ss_closed_unknown_kind_spans stats
            + ss_closed_malformed_kind_spans stats
      in (if ss_open_candidate_count stats > 0
          then [with_samples (open_message stats) (map open_sample_text (ss_open_samples stats))] else [])
         @ (if closed_invalid_kind_total > 0 then [invalid_kind_message stats] else [])
         @ (if ss_closed_incomplete_candidate_spans stats > 0
            then [format_incomplete_closed_candidate_message stats] else [])
         @ (if ss_dropped_open_spans stats > 0
            then [''live recorder dropped '' @ show_word (ss_dropped_open_spans stats)
                    @ '' candidate spans because max_open_spans was reached''] else [])
         @ (if ss_dropped_completed_request_candidates stats > 0 then [dropped_requests_message stats limits] else [])
         @ (if ss_dropped_completed_child_candidates stats > 0 then [dropped_children_message stats limits] else [])
         @ (if ss_evicted_child_candidates_to_preserve_request stats > 0
            then [evicted_children_message stats limits] else []))"

definition append_non_strict_drop_warnings :: "SnapshotStats \<Rightarrow> RecorderLimits \<Rightarrow> Run \<times> ImportWarning list
    \<Rightarrow> Run \<times> ImportWarning list" where
  "append_non_strict_drop_warnings stats limits rw =
     (let (run, warnings) = foldl (\<lambda>rw msg. push_both msg rw) rw (drop_messages stats limits)
      in (if ss_dropped_open_spans stats > 0
            \<or> ss_dropped_completed_request_candidates stats > 0
            \<or> ss_dropped_completed_child_candidates stats > 0
            \<or> ss_evicted_child_candidates_to_preserve_request stats > 0
          then run\<lparr>run_truncation := (run_truncation run)\<lparr>tr_limits_hit := True\<rparr>\<rparr> else run,
          warnings))"

section \<open>The recorder handle\<close>

definition stats_clean :: "SnapshotStats \<Rightarrow> bool" where
  "stats_clean stats \<longleftrightarrow>
     ss_dropped_open_spans stats = 0
     \<and> ss_dropped_completed_request_candidates stats = 0
     \<and> ss_dropped_completed_child_candidates stats = 0
     \<and> ss_evicted_child_candidates_to_preserve_request stats = 0
     \<and> ss_open_candidate_count stats = 0
     \<and> ss_closed_missing_kind_spans stats = 0
     \<and> ss_closed_unknown_kind_spans stats = 0
     \<and> ss_closed_malformed_kind_spans stats = 0
     \<and> ss_closed_incomplete_candidate_spans stats = 0"

definition imported_with_drop_warnings :: "u64 \<Rightarrow> u64 \<Rightarrow> SpanRecord list \<Rightarrow> ImportOptions \<Rightarrow> SnapshotStats
    \<Rightarrow> RecorderLimits \<Rightarrow> (ImportError + ImportedRun) option" where
  "imported_with_drop_warnings now later spans options stats limits =
     (let strict_messages = (if io_strict options then push_strict_recorder_messages stats limits else [])
      in case run_from_span_records now later spans options of
           None \<Rightarrow> None
         | Some (Inl (StrictViolation message)) \<Rightarrow>
             (if strict_messages \<noteq> []
              then Some (Inl (StrictViolation (join ''; '' (strict_messages @ [message]))))
              else Some (Inl (StrictViolation message)))
         | Some (Inl err) \<Rightarrow> Some (Inl err)
         | Some (Inr imported) \<Rightarrow>
             (if strict_messages \<noteq> [] then Some (Inl (StrictViolation (join ''; '' strict_messages)))
              else if stats_clean stats then Some (Inr imported)
              else
                let (run, warnings) = append_non_strict_drop_warnings stats limits
                      (imp_run imported, imp_warnings imported)
                in Some (Inr (with_retained_sources run warnings (imp_retained_sources imported)))))"

definition set_finalized :: "u64 option \<Rightarrow> ImportedRun \<Rightarrow> ImportedRun" where
  "set_finalized t imported =
     with_retained_sources (update_metadata (\<lambda>md. md\<lparr>md_finalized_at_unix_ms := t\<rparr>) (imp_run imported))
       (imp_warnings imported) (imp_retained_sources imported)"

definition mark_imported_run_active :: "ImportedRun \<Rightarrow> ImportedRun" where
  "mark_imported_run_active imported = set_finalized None imported"

definition finalize_live_imported_run_at :: "ImportedRun \<Rightarrow> u64 \<Rightarrow> ImportedRun" where
  "finalize_live_imported_run_at imported finalized_at_unix_ms = set_finalized (Some finalized_at_unix_ms) imported"

record LiveRecorder =
  lr_state :: RecorderState
  lr_options :: ImportOptions
  lr_limits :: RecorderLimits

record LiveRecorderBuilder =
  lrb_options :: ImportOptions
  lrb_limits :: RecorderLimits

definition recorder_builder :: "string \<Rightarrow> LiveRecorderBuilder" where
  "recorder_builder service_name =
     \<lparr>lrb_options = import_options_new service_name, lrb_limits = recorder_limits_default\<rparr>"

definition lrb_map_options :: "(ImportOptions \<Rightarrow> ImportOptions) \<Rightarrow> LiveRecorderBuilder \<Rightarrow> LiveRecorderBuilder" where
  "lrb_map_options f self = self\<lparr>lrb_options := f (lrb_options self)\<rparr>"

definition lrb_set_limits :: "RecorderLimits \<Rightarrow> LiveRecorderBuilder \<Rightarrow> LiveRecorderBuilder" where
  "lrb_set_limits limits self = self\<lparr>lrb_limits := limits\<rparr>"

definition lrb_max_open_spans :: "nat \<Rightarrow> LiveRecorderBuilder \<Rightarrow> LiveRecorderBuilder" where
  "lrb_max_open_spans n self = self\<lparr>lrb_limits := (lrb_limits self)\<lparr>rl_max_open_spans := n\<rparr>\<rparr>"

definition lrb_max_completed_candidate_spans :: "nat \<Rightarrow> LiveRecorderBuilder \<Rightarrow> LiveRecorderBuilder" where
  "lrb_max_completed_candidate_spans n self =
     self\<lparr>lrb_limits := (lrb_limits self)\<lparr>rl_max_completed_candidate_spans := n\<rparr>\<rparr>"

definition recorder_build :: "nat \<Rightarrow> LiveRecorderBuilder \<Rightarrow> ImportError + LiveRecorder" where
  "recorder_build now self =
     (if is_blank (io_service_name (lrb_options self)) then Inl IeEmptyServiceName
      else Inr \<lparr>lr_state = recorder_state_new now, lr_options = lrb_options self, lr_limits = lrb_limits self\<rparr>)"

definition recorder_snapshot_run :: "u64 \<Rightarrow> u64 \<Rightarrow> LiveRecorder \<Rightarrow> (ImportError + ImportedRun) option" where
  "recorder_snapshot_run now later self =
     map_option (map_sum id mark_imported_run_active)
       (imported_with_drop_warnings now later (completed_span_records (lr_state self)) (lr_options self)
          (snapshot_stats (lr_state self)) (lr_limits self))"

definition recorder_shutdown :: "u64 \<Rightarrow> u64 \<Rightarrow> u64 \<Rightarrow> LiveRecorder \<Rightarrow> (ImportError + ImportedRun) option" where
  "recorder_shutdown now later finalized self =
     map_option (map_sum id (\<lambda>imported. finalize_live_imported_run_at imported finalized))
       (recorder_snapshot_run now later self)"

section \<open>Runtime data (\<^verbatim>\<open>tokio.rs\<close>)\<close>

text \<open>A warning is added to the run and to the import warnings, each where it is not there yet.\<close>

definition add_both :: "string \<Rightarrow> ImportedRun \<Rightarrow> ImportedRun" where
  "add_both warning imported =
     with_retained_sources (add_new_warning (imp_run imported) warning)
       (if list_ex (\<lambda>w. iw_message w = warning) (imp_warnings imported) then imp_warnings imported
        else imp_warnings imported @ [ImportWarning warning])
       (imp_retained_sources imported)"

definition with_manual_sampler_warning :: "ImportedRun \<Rightarrow> bool \<Rightarrow> ImportedRun" where
  "with_manual_sampler_warning merged sampler_disabled =
     (if \<not> sampler_disabled then merged
      else add_both
        (if run_runtime_snapshots (imp_run merged) = []
         then ''tailtriage-tracing session ran with background runtime sampling disabled and no manual runtime snapshots were recorded''
         else ''tailtriage-tracing session ran with background runtime sampling disabled; runtime snapshots were manually recorded'')
        merged)"

definition MERGED_RUNTIME_SNAPSHOT_RUN_OFFSET_WARNING :: string where
  "MERGED_RUNTIME_SNAPSHOT_RUN_OFFSET_WARNING =
     ''TracingSession merged runtime snapshots from a separate runtime collector; runtime snapshot at_run_us offsets ''
     @ ''were cleared so temporal runtime attribution uses Unix-ms windows.''"

definition merge_runtime_data :: "ImportedRun \<Rightarrow> Run \<Rightarrow> ImportedRun" where
  "merge_runtime_data imported runtime_run =
     (let offsets_cleared = list_ex (\<lambda>t. rts_at_run_us t \<noteq> None) (run_runtime_snapshots runtime_run);
          runtime_snapshots = map (\<lambda>t. t\<lparr>rts_at_run_us := None\<rparr>) (run_runtime_snapshots runtime_run);
          run = (imp_run imported)\<lparr>run_runtime_snapshots := runtime_snapshots\<rparr>;
          run = (if runtime_snapshots \<noteq> [] then
              let runtime_min = foldl min (rts_at_unix_ms (hd runtime_snapshots)) (map rts_at_unix_ms (tl runtime_snapshots))
              in update_metadata (\<lambda>md. md\<lparr>md_started_at_unix_ms := min (md_started_at_unix_ms md) runtime_min\<rparr>) run
            else run);
          run = update_metadata (\<lambda>md. md\<lparr>md_effective_tokio_sampler_config :=
              md_effective_tokio_sampler_config (run_metadata runtime_run)\<rparr>) run;
          run = run\<lparr>run_truncation := (run_truncation run)
              \<lparr>tr_dropped_runtime_snapshots := tr_dropped_runtime_snapshots (run_truncation runtime_run),
               tr_limits_hit := tr_limits_hit (run_truncation run) \<or> tr_limits_hit (run_truncation runtime_run)\<rparr>\<rparr>;
          merged = foldl (\<lambda>m w. add_both w m)
              (with_retained_sources run (imp_warnings imported) (imp_retained_sources imported))
              (md_lifecycle_warnings (run_metadata runtime_run))
      in if offsets_cleared then add_both MERGED_RUNTIME_SNAPSHOT_RUN_OFFSET_WARNING merged else merged)"

end
