(* ===== verification/Tr_Retention.thy ===== *)
theory Tr_Retention
  imports Tr_Snapshot Tr_Guarantees
begin

text \<open>
  What the live recorder guarantees over every sequence of subscriber callbacks: its memory is
  bounded, it keeps the first requests and never evicts one, every candidate span is accounted
  for, and a strict snapshot succeeds only when nothing was lost.
\<close>

section \<open>Sequences of callbacks\<close>

datatype recorder_call =
    NewSpan clock_reading SpanAttributes u64
  | RecordValues u64 "(string \<times> visited) list"
  | CloseSpan clock_reading u64

fun recorder_step :: "RecorderLimits \<Rightarrow> RecorderState \<Rightarrow> recorder_call \<Rightarrow> RecorderState" where
  "recorder_step limits state (NewSpan now attrs i) = on_new_span limits now attrs i state"
| "recorder_step limits state (RecordValues i values) = on_record i values state"
| "recorder_step limits state (CloseSpan now i) = on_close limits now i state"

definition recorder_after :: "RecorderLimits \<Rightarrow> nat \<Rightarrow> recorder_call list \<Rightarrow> RecorderState" where
  "recorder_after limits start calls = foldl (recorder_step limits) (recorder_state_new start) calls"

definition is_candidate_attributes :: "SpanAttributes \<Rightarrow> bool" where
  "is_candidate_attributes attrs \<longleftrightarrow>
     metadata_has_tailtriage_field attrs \<or> fields_have_tailtriage_key (visit_fields (at_values attrs))"

fun opens_candidate :: "recorder_call \<Rightarrow> bool" where
  "opens_candidate (NewSpan now attrs i) = is_candidate_attributes attrs"
| "opens_candidate _ = False"

text \<open>The record a close of this span completes, if it does, and its kind.\<close>

definition completes :: "clock_reading \<Rightarrow> u64 \<Rightarrow> RecorderState \<Rightarrow> (string \<times> SpanRecord) option" where
  "completes now i state =
     (case bt_lookup (rs_open state) i of
        None \<Rightarrow> None
      | Some opened \<Rightarrow>
          (case classify_kind (os_fields opened) of
             Inl _ \<Rightarrow> None
           | Inr kind \<Rightarrow>
               if precheck_required_fields kind (os_fields opened) = None
               then Some (kind, closed_record (unix_time_ms now)
                      (duration_us_between (rs_start_instant state) (rd_instant_ns now)) (rd_instant_ns now) opened)
               else None))"

fun completed_request :: "RecorderState \<Rightarrow> recorder_call \<Rightarrow> SpanRecord list" where
  "completed_request state (CloseSpan now i) =
     (case completes now i state of Some (kind, rec) \<Rightarrow> if kind = ''request'' then [rec] else [] | None \<Rightarrow> [])"
| "completed_request state _ = []"

fun completed_requests :: "RecorderLimits \<Rightarrow> RecorderState \<Rightarrow> recorder_call list \<Rightarrow> SpanRecord list" where
  "completed_requests limits state [] = []"
| "completed_requests limits state (c # cs) =
     completed_request state c @ completed_requests limits (recorder_step limits state c) cs"

text \<open>Ids of open spans are unique, as the \<^verbatim>\<open>tracing\<close> registry hands them out.\<close>

fun ids_fresh :: "RecorderLimits \<Rightarrow> RecorderState \<Rightarrow> recorder_call list \<Rightarrow> bool" where
  "ids_fresh limits state [] = True"
| "ids_fresh limits state (c # cs) =
     ((case c of NewSpan _ _ i \<Rightarrow> bt_lookup (rs_open state) i = None | _ \<Rightarrow> True) \<and>
      ids_fresh limits (recorder_step limits state c) cs)"

section \<open>Kinds\<close>

lemma classify_kind_Inr:
  "classify_kind fs = Inr k \<Longrightarrow> k \<in> {''request'', ''stage'', ''queue''} \<and> bt_lookup fs TT_KIND = Some (FvString k)"
  by (auto simp: classify_kind_def split: option.splits FieldValue.splits if_splits)

lemma classify_kind_Inl: "classify_kind fs = Inl e \<Longrightarrow> e \<in> {''missing'', ''unknown'', ''malformed''}"
  by (auto simp: classify_kind_def split: option.splits FieldValue.splits if_splits)

text \<open>A closing span goes one of three ways.\<close>

lemma on_close_cases:
  obtains (absent) "bt_lookup (rs_open state) i = None" "on_close limits now i state = state"
    "completes now i state = None"
  | (invalid) opened reason where "bt_lookup (rs_open state) i = Some opened"
      "classify_kind (os_fields opened) = Inl reason" "completes now i state = None"
      "on_close limits now i state
         = record_invalid_kind_issue opened reason (state\<lparr>rs_open := bt_remove i (rs_open state)\<rparr>)"
  | (incomplete) opened kind reason where "bt_lookup (rs_open state) i = Some opened"
      "completes now i state = None"
      "on_close limits now i state
         = record_incomplete_candidate_issue opened kind reason (state\<lparr>rs_open := bt_remove i (rs_open state)\<rparr>)"
  | (completed) opened kind rec where "bt_lookup (rs_open state) i = Some opened"
      "classify_kind (os_fields opened) = Inr kind" "kind \<in> {''request'', ''stage'', ''queue''}"
      "precheck_required_fields kind (os_fields opened) = None" "completes now i state = Some (kind, rec)"
      "on_close limits now i state = push_completed_candidate_with_kind_aware_retention
         (state\<lparr>rs_open := bt_remove i (rs_open state)\<rparr>) rec kind limits"
proof (cases "bt_lookup (rs_open state) i")
  case None
  then show ?thesis by (intro absent) (simp_all add: on_close_def completes_def)
next
  case (Some opened)
  show ?thesis
  proof (cases "classify_kind (os_fields opened)")
    case (Inl reason)
    with Some show ?thesis by (intro invalid) (simp_all add: on_close_def completes_def Let_def)
  next
    case (Inr kind)
    show ?thesis
    proof (cases "precheck_required_fields kind (os_fields opened)")
      case None
      with Some Inr classify_kind_Inr [OF Inr] show ?thesis
        by (intro completed) (auto simp: on_close_def completes_def Let_def)
    next
      case reason: (Some reason)
      with Some Inr show ?thesis by (intro incomplete) (simp_all add: on_close_def completes_def Let_def)
    qed
  qed
qed

text \<open>And a new span one of three.\<close>

lemma bt_wf_inserts: "bt_wf m \<Longrightarrow> bt_wf (foldl (\<lambda>m (k, v). bt_insert k (f v) m) m xs)"
  by (induction xs arbitrary: m) (auto simp: bt_insert_def bt_wf_entry)

lemma length_bt_insert:
  "bt_wf m \<Longrightarrow> length (bt_insert k v m) = (if bt_lookup m k = None then Suc (length m) else length m)"
  by (simp add: bt_insert_def bt_length_entry)

lemma visit_fields_wf: "bt_wf (visit_fields values)"
  unfolding visit_fields_def by (rule bt_wf_inserts) simp

lemma on_new_span_cases:
  obtains (ignored) "\<not> is_candidate_attributes attrs" "on_new_span limits now attrs i state = state"
  | (dropped) "is_candidate_attributes attrs" "rl_max_open_spans limits \<le> length (rs_open state)"
      "on_new_span limits now attrs i state
         = state\<lparr>rs_dropped_open_spans := saturating_add (rs_dropped_open_spans state) 1\<rparr>"
  | (opened) x where "is_candidate_attributes attrs" "length (rs_open state) < rl_max_open_spans limits"
      "bt_wf (os_fields x)" "os_is_tt_candidate x"
      "on_new_span limits now attrs i state = state\<lparr>rs_open := bt_insert i x (rs_open state)\<rparr>"
proof (cases "is_candidate_attributes attrs")
  case candidate: True
  show ?thesis
  proof (cases "rl_max_open_spans limits \<le> length (rs_open state)")
    case True
    with candidate show ?thesis
      by (intro dropped) (auto simp: on_new_span_def is_candidate_attributes_def Let_def)
  next
    case False
    define x where "x = open_span_from_start_sample (Some (show_word i))
        (case at_parent attrs of Some pid \<Rightarrow> Some (show_word pid)
         | None \<Rightarrow> map_option (\<lambda>pid. show_word pid) (at_current attrs)) (at_name attrs) (visit_fields (at_values attrs))
        (unix_time_ms now) (rd_instant_ns now) (rs_start_instant state) True"
    have "bt_wf (os_fields x)" "os_is_tt_candidate x"
      by (simp_all add: x_def open_span_from_start_sample_def visit_fields_wf)
    moreover have "on_new_span limits now attrs i state = state\<lparr>rs_open := bt_insert i x (rs_open state)\<rparr>"
      using False candidate unfolding on_new_span_def is_candidate_attributes_def Let_def x_def by simp
    ultimately show ?thesis using False candidate by (intro opened) simp_all
  qed
next
  case False
  then show ?thesis by (intro ignored) (auto simp: on_new_span_def is_candidate_attributes_def Let_def)
qed

section \<open>Bounded memory\<close>

definition held :: "RecorderState \<Rightarrow> nat" where
  "held state = length (rs_completed_requests state) + length (rs_completed_stages state)
     + length (rs_completed_queues state)"

definition fields_wf :: "RecorderState \<Rightarrow> bool" where
  "fields_wf state \<longleftrightarrow> bt_wf (rs_open state) \<and>
     (\<forall>x\<in>set (rs_open state). bt_wf (os_fields (snd x)) \<and> os_is_tt_candidate (snd x))"

definition bounded_state :: "RecorderLimits \<Rightarrow> RecorderState \<Rightarrow> bool" where
  "bounded_state limits state \<longleftrightarrow>
     length (rs_open state) \<le> rl_max_open_spans limits \<and>
     held state \<le> rl_max_completed_candidate_spans limits \<and>
     length (rs_closed_kind_samples state) \<le> 16 \<and>
     length (rs_closed_incomplete_candidate_samples state) \<le> 16"

lemma set_bt_insert: "set (bt_insert k v m) \<subseteq> insert (k, v) (set m)"
  unfolding bt_insert_def by (induction m) (auto split: if_splits)

lemma fields_extend_wf: "bt_wf fs \<Longrightarrow> bt_wf (fields_extend fs new)"
  unfolding fields_extend_def by (rule bt_wf_inserts [where f = "\<lambda>v. v"])

lemma fields_wf_insert:
  "fields_wf state \<Longrightarrow> bt_wf (os_fields x) \<Longrightarrow> os_is_tt_candidate x \<Longrightarrow>
   fields_wf (state\<lparr>rs_open := bt_insert i x (rs_open state)\<rparr>)"
  using set_bt_insert [of i x "rs_open state"] by (auto simp: fields_wf_def bt_insert_def bt_wf_entry)

lemma open_mem: "bt_lookup (rs_open state) i = Some x \<Longrightarrow> (i, x) \<in> set (rs_open state)"
  by (simp add: bt_lookup_def map_of_SomeD)

lemma open_wf:
  "fields_wf state \<Longrightarrow> bt_lookup (rs_open state) i = Some x \<Longrightarrow> bt_wf (os_fields x) \<and> os_is_tt_candidate x"
  using open_mem by (force simp: fields_wf_def)

lemma fields_wf_remove: "fields_wf state \<Longrightarrow> fields_wf (state\<lparr>rs_open := bt_remove i (rs_open state)\<rparr>)"
  using set_bt_remove [of i "rs_open state"] by (auto simp: fields_wf_def bt_wf_remove)

lemma fields_wf_same_open: "rs_open s' = rs_open s \<Longrightarrow> fields_wf s' = fields_wf s"
  by (simp add: fields_wf_def)

text \<open>What the updates after the removal leave alone.\<close>

lemma rs_open_frame [simp]:
  "rs_open (record_invalid_kind_issue x r s) = rs_open s"
  "rs_open (record_incomplete_candidate_issue x k r s) = rs_open s"
  "rs_open (push_completed_candidate_with_kind_aware_retention s rec k limits) = rs_open s"
  "rs_start_instant (record_invalid_kind_issue x r s) = rs_start_instant s"
  "rs_start_instant (record_incomplete_candidate_issue x k r s) = rs_start_instant s"
  "rs_start_instant (push_completed_candidate_with_kind_aware_retention s rec k limits) = rs_start_instant s"
  by (simp_all add: record_invalid_kind_issue_def record_incomplete_candidate_issue_def Let_def
      push_completed_candidate_with_kind_aware_retention_def push_record_by_kind_def)

lemma fields_wf_step: "fields_wf state \<Longrightarrow> fields_wf (recorder_step limits state c)"
proof (induction limits state c rule: recorder_step.induct)
  case (1 limits state now attrs i)
  show ?case
  proof (cases rule: on_new_span_cases [of attrs limits now i state])
    case (opened x)
    then show ?thesis using fields_wf_insert [OF 1, of x i] by simp
  next
    case dropped
    with 1 show ?thesis by (simp add: fields_wf_def)
  next
    case ignored
    with 1 show ?thesis by simp
  qed
next
  case (2 limits state i vs)
  show ?case
  proof (cases "bt_lookup (rs_open state) i")
    case (Some x)
    with open_wf [OF 2 Some] show ?thesis
      by (simp add: on_record_def fields_wf_insert [OF 2] fields_extend_wf)
  next
    case None
    with 2 show ?thesis by (simp add: on_record_def)
  qed
next
  case (3 limits state now i)
  note removed = fields_wf_remove [OF 3, of i]
  show ?case
  proof (cases rule: on_close_cases [of state i limits now])
    case absent
    with 3 show ?thesis by simp
  next
    case (invalid opened reason)
    show ?thesis unfolding recorder_step.simps invalid(4) fields_wf_same_open [OF rs_open_frame(1)] by (rule removed)
  next
    case (incomplete opened kind reason)
    show ?thesis unfolding recorder_step.simps incomplete(3) fields_wf_same_open [OF rs_open_frame(2)] by (rule removed)
  next
    case (completed opened kind rec)
    show ?thesis unfolding recorder_step.simps completed(6) fields_wf_same_open [OF rs_open_frame(3)] by (rule removed)
  qed
qed

lemma fields_wf_after: "fields_wf (recorder_after limits start calls)"
proof -
  have "fields_wf s \<Longrightarrow> fields_wf (foldl (recorder_step limits) s calls)" for s
    by (induction calls arbitrary: s) (simp_all add: fields_wf_step)
  moreover have "fields_wf (recorder_state_new start)" by (simp add: recorder_state_new_def fields_wf_def)
  ultimately show ?thesis unfolding recorder_after_def .
qed

lemma length_push_issue_sample: "length ss \<le> 16 \<Longrightarrow> length (push_issue_sample s ss) \<le> 16"
  by (simp add: push_issue_sample_def)

lemma push_completed_cases:
  obtains (request) "kind = ''request''" "held s < rl_max_completed_candidate_spans limits"
      "push_completed_candidate_with_kind_aware_retention s rec kind limits
         = s\<lparr>rs_completed_requests := rs_completed_requests s @ [rec]\<rparr>"
  | (evict_queue) q qs where "kind = ''request''" "\<not> held s < rl_max_completed_candidate_spans limits"
      "rs_completed_queues s = qs @ [q]"
      "push_completed_candidate_with_kind_aware_retention s rec kind limits = s\<lparr>rs_completed_queues := qs,
         rs_evicted_child_candidates_to_preserve_request := saturating_add (rs_evicted_child_candidates_to_preserve_request s) 1,
         rs_completed_requests := rs_completed_requests s @ [rec]\<rparr>"
  | (evict_stage) t ts where "kind = ''request''" "\<not> held s < rl_max_completed_candidate_spans limits"
      "rs_completed_queues s = []" "rs_completed_stages s = ts @ [t]"
      "push_completed_candidate_with_kind_aware_retention s rec kind limits = s\<lparr>rs_completed_stages := ts,
         rs_evicted_child_candidates_to_preserve_request := saturating_add (rs_evicted_child_candidates_to_preserve_request s) 1,
         rs_completed_requests := rs_completed_requests s @ [rec]\<rparr>"
  | (drop_request) "kind = ''request''" "\<not> held s < rl_max_completed_candidate_spans limits"
      "rs_completed_queues s = []" "rs_completed_stages s = []"
      "push_completed_candidate_with_kind_aware_retention s rec kind limits
         = s\<lparr>rs_dropped_completed_request_candidates := saturating_add (rs_dropped_completed_request_candidates s) 1\<rparr>"
  | (stage) "kind = ''stage''" "held s < rl_max_completed_candidate_spans limits"
      "push_completed_candidate_with_kind_aware_retention s rec kind limits
         = s\<lparr>rs_completed_stages := rs_completed_stages s @ [rec]\<rparr>"
  | (queue) "kind = ''queue''" "held s < rl_max_completed_candidate_spans limits"
      "push_completed_candidate_with_kind_aware_retention s rec kind limits
         = s\<lparr>rs_completed_queues := rs_completed_queues s @ [rec]\<rparr>"
  | (drop_child) "kind = ''stage'' \<or> kind = ''queue''" "\<not> held s < rl_max_completed_candidate_spans limits"
      "push_completed_candidate_with_kind_aware_retention s rec kind limits
         = s\<lparr>rs_dropped_completed_child_candidates := saturating_add (rs_dropped_completed_child_candidates s) 1\<rparr>"
  | (other) "kind \<notin> {''request'', ''stage'', ''queue''}"
      "push_completed_candidate_with_kind_aware_retention s rec kind limits = s"
proof -
  note d = push_completed_candidate_with_kind_aware_retention_def Let_def push_record_by_kind_def held_def
  consider "kind = ''request''" | "kind = ''stage''" | "kind = ''queue''" | "kind \<notin> {''request'', ''stage'', ''queue''}"
    by blast
  then show ?thesis
  proof cases
    case 1
    show ?thesis
    proof (cases "held s < rl_max_completed_candidate_spans limits")
      case True
      with 1 show ?thesis by (intro request) (simp_all add: d)
    next
      case full: False
      show ?thesis
      proof (cases "rs_completed_queues s" rule: rev_cases)
        case queues: Nil
        show ?thesis
        proof (cases "rs_completed_stages s" rule: rev_cases)
          case Nil
          with 1 full queues show ?thesis by (intro drop_request) (simp_all add: d)
        next
          case (snoc ts t)
          with 1 full queues show ?thesis by (intro evict_stage) (simp_all add: d)
        qed
      next
        case (snoc qs q)
        with 1 full show ?thesis by (intro evict_queue) (simp_all add: d)
      qed
    qed
  next
    case 2
    then show ?thesis
      by (cases "held s < rl_max_completed_candidate_spans limits") (intro stage drop_child; simp add: d)+
  next
    case 3
    then show ?thesis
      by (cases "held s < rl_max_completed_candidate_spans limits") (intro queue drop_child; simp add: d)+
  next
    case 4
    then show ?thesis by (intro other) (simp_all add: d)
  qed
qed

lemma bounded_push:
  "bounded_state limits s \<Longrightarrow> bounded_state limits (push_completed_candidate_with_kind_aware_retention s rec k limits)"
  by (cases rule: push_completed_cases [of k s limits rec]) (auto simp: bounded_state_def held_def)

lemma bounded_issues:
  "bounded_state limits s \<Longrightarrow> bounded_state limits (record_invalid_kind_issue x r s)"
  "bounded_state limits s \<Longrightarrow> bounded_state limits (record_incomplete_candidate_issue x k r s)"
  by (auto simp: bounded_state_def held_def record_invalid_kind_issue_def record_incomplete_candidate_issue_def
      Let_def length_push_issue_sample)

lemma bounded_remove: "bounded_state limits s \<Longrightarrow> bounded_state limits (s\<lparr>rs_open := bt_remove i (rs_open s)\<rparr>)"
  by (auto simp: bounded_state_def held_def bt_length_remove)

lemma bounded_step:
  assumes "bounded_state limits state" "fields_wf state"
  shows "bounded_state limits (recorder_step limits state c)"
  using assms
proof (induction limits state c rule: recorder_step.induct)
  case (1 limits state now attrs i)
  then show ?case
    by (cases rule: on_new_span_cases [of attrs limits now i state])
      (simp_all add: bounded_state_def held_def fields_wf_def length_bt_insert)
next
  case (2 limits state i vs)
  then show ?case
    by (cases "bt_lookup (rs_open state) i")
      (simp_all add: on_record_def bounded_state_def held_def fields_wf_def length_bt_insert)
next
  case (3 limits state now i)
  then show ?case
    using bounded_remove [OF 3(1), of i]
    by (cases rule: on_close_cases [of state i limits now]) (simp_all add: bounded_push bounded_issues)
qed

lemma bounded_after: "bounded_state limits (recorder_after limits start calls)"
proof -
  have "bounded_state limits s \<Longrightarrow> fields_wf s \<Longrightarrow> bounded_state limits (foldl (recorder_step limits) s calls)" for s
    by (induction calls arbitrary: s) (simp_all add: bounded_step fields_wf_step)
  moreover have "fields_wf (recorder_state_new start)" "bounded_state limits (recorder_state_new start)"
    by (simp_all add: recorder_state_new_def fields_wf_def bounded_state_def held_def)
  ultimately show ?thesis unfolding recorder_after_def by blast
qed

section \<open>The first requests\<close>

lemma held_after: "held (recorder_after limits start calls) \<le> rl_max_completed_candidate_spans limits"
  using bounded_after by (simp add: bounded_state_def)

lemma requests_frame [simp]:
  "rs_completed_requests (record_invalid_kind_issue x r s) = rs_completed_requests s"
  "rs_completed_requests (record_incomplete_candidate_issue x k r s) = rs_completed_requests s"
  "rs_completed_requests (on_record i vs s) = rs_completed_requests s"
  "rs_completed_requests (on_new_span limits now attrs i s) = rs_completed_requests s"
  by (simp_all add: record_invalid_kind_issue_def record_incomplete_candidate_issue_def Let_def on_record_def
      on_new_span_def split: option.split)

lemma push_keeps_requests:
  assumes "held s \<le> rl_max_completed_candidate_spans limits"
  shows "rs_completed_requests (push_completed_candidate_with_kind_aware_retention s rec k limits)
    = rs_completed_requests s @ take (rl_max_completed_candidate_spans limits - length (rs_completed_requests s))
        (if k = ''request'' then [rec] else [])"
  using assms by (cases rule: push_completed_cases [of k s limits rec]) (auto simp: held_def)

lemma step_keeps_requests:
  assumes "held s \<le> rl_max_completed_candidate_spans limits"
  shows "rs_completed_requests (recorder_step limits s c)
    = rs_completed_requests s @ take (rl_max_completed_candidate_spans limits - length (rs_completed_requests s))
        (completed_request s c)"
proof (cases c)
  case (CloseSpan now i)
  let ?s = "s\<lparr>rs_open := bt_remove i (rs_open s)\<rparr>"
  have held: "held ?s \<le> rl_max_completed_candidate_spans limits" using assms by (simp add: held_def)
  show ?thesis unfolding CloseSpan
  proof (cases rule: on_close_cases [of s i limits now])
    case (completed opened kind rec)
    show "rs_completed_requests (recorder_step limits s (CloseSpan now i))
      = rs_completed_requests s @ take (rl_max_completed_candidate_spans limits - length (rs_completed_requests s))
          (completed_request s (CloseSpan now i))"
      using push_keeps_requests [OF held, of rec kind]
      unfolding recorder_step.simps completed(6) completed_request.simps completed(5) by simp
  qed simp_all
qed simp_all

lemma recorder_after_append:
  "foldl (recorder_step limits) (recorder_after limits start cs) ds = recorder_after limits start (cs @ ds)"
  by (simp add: recorder_after_def)

lemma requests_from:
  assumes "s = recorder_after limits start cs"
  shows "rs_completed_requests (foldl (recorder_step limits) s calls)
    = rs_completed_requests s @ take (rl_max_completed_candidate_spans limits - length (rs_completed_requests s))
        (completed_requests limits s calls)"
  using assms
proof (induction calls arbitrary: s cs)
  case (Cons c calls)
  let ?max = "rl_max_completed_candidate_spans limits"
  have next_step: "recorder_step limits s c = recorder_after limits start (cs @ [c])"
    unfolding Cons.prems by (simp add: recorder_after_def)
  have "held s \<le> ?max" using held_after Cons.prems by simp
  then have "rs_completed_requests (recorder_step limits s c)
    = rs_completed_requests s @ take (?max - length (rs_completed_requests s)) (completed_request s c)"
    and "length (rs_completed_requests s) \<le> ?max"
    by (simp_all add: step_keeps_requests held_def)
  then show ?case using Cons.IH [OF next_step] by (simp add: take_add min_def)
qed simp

section \<open>Accounting\<close>

definition accounted :: "RecorderState \<Rightarrow> nat" where
  "accounted s = length (rs_open s) + unat (rs_dropped_open_spans s) + held s
     + unat (rs_dropped_completed_request_candidates s) + unat (rs_dropped_completed_child_candidates s)
     + unat (rs_evicted_child_candidates_to_preserve_request s) + unat (rs_closed_missing_kind_spans s)
     + unat (rs_closed_unknown_kind_spans s) + unat (rs_closed_malformed_kind_spans s)
     + unat (rs_closed_incomplete_candidate_spans s)"

lemma counted: "unat x < u64_max \<Longrightarrow> unat (saturating_add x 1) = Suc (unat x)"
  by (simp add: unat_saturating_add)

lemma accounted_push:
  assumes "accounted s < u64_max" "k \<in> {''request'', ''stage'', ''queue''}"
  shows "accounted (push_completed_candidate_with_kind_aware_retention s rec k limits) = Suc (accounted s)"
  using assms by (cases rule: push_completed_cases [of k s limits rec]) (simp_all add: accounted_def held_def counted)

lemma accounted_issues:
  assumes "accounted s < u64_max"
  shows "os_is_tt_candidate x \<Longrightarrow> r \<in> {''missing'', ''unknown'', ''malformed''} \<Longrightarrow>
      accounted (record_invalid_kind_issue x r s) = Suc (accounted s)"
    "accounted (record_incomplete_candidate_issue x k r s) = Suc (accounted s)"
  using assms by (auto simp: record_invalid_kind_issue_def record_incomplete_candidate_issue_def accounted_def held_def
      counted Let_def)

lemma accounted_remove:
  assumes "bt_lookup (rs_open s) i = Some x"
  shows "Suc (accounted (s\<lparr>rs_open := bt_remove i (rs_open s)\<rparr>)) = accounted s"
proof -
  have "rs_open s \<noteq> []" using assms by (auto simp: bt_lookup_def)
  then have "Suc (length (bt_remove i (rs_open s))) = length (rs_open s)"
    using assms by (cases "rs_open s") (simp_all add: bt_length_remove)
  then show ?thesis by (simp add: accounted_def held_def)
qed

lemma accounted_step:
  assumes "fields_wf s" "case c of NewSpan _ _ i \<Rightarrow> bt_lookup (rs_open s) i = None | _ \<Rightarrow> True"
    and bound: "accounted s + (if opens_candidate c then 1 else 0) \<le> u64_max"
  shows "accounted (recorder_step limits s c) = accounted s + (if opens_candidate c then 1 else 0)"
proof (cases c)
  case (NewSpan now attrs i)
  have wf: "bt_wf (rs_open s)" using assms(1) by (simp add: fields_wf_def)
  show ?thesis
  proof (cases rule: on_new_span_cases [of attrs limits now i s])
    case (opened x)
    with NewSpan assms(2) show ?thesis by (simp add: length_bt_insert [OF wf] accounted_def held_def)
  next
    case dropped
    with NewSpan bound have "unat (rs_dropped_open_spans s) < u64_max" by (simp add: accounted_def)
    with dropped NewSpan show ?thesis by (simp add: accounted_def held_def counted)
  qed (simp add: NewSpan)
next
  case (RecordValues i vs)
  have wf: "bt_wf (rs_open s)" using assms(1) by (simp add: fields_wf_def)
  from RecordValues show ?thesis
    by (cases "bt_lookup (rs_open s) i") (simp_all add: on_record_def length_bt_insert [OF wf] accounted_def held_def)
next
  case (CloseSpan now i)
  let ?s = "s\<lparr>rs_open := bt_remove i (rs_open s)\<rparr>"
  have removed: "accounted ?s < u64_max \<and> Suc (accounted ?s) = accounted s" if "bt_lookup (rs_open s) i = Some x" for x
    using accounted_remove [OF that] bound by linarith
  have "accounted (on_close limits now i s) = accounted s"
  proof (cases rule: on_close_cases [of s i limits now])
    case absent
    then show ?thesis by simp
  next
    case (invalid opened reason)
    then show ?thesis
      using removed accounted_issues(1) open_wf [OF assms(1)] classify_kind_Inl by metis
  next
    case (incomplete opened kind reason)
    then show ?thesis using removed accounted_issues(2) by metis
  next
    case (completed opened kind rec)
    then show ?thesis using removed accounted_push by metis
  qed
  then show ?thesis by (simp add: CloseSpan)
qed

lemma accounted_from:
  assumes "fields_wf s" "ids_fresh limits s calls" "accounted s + length (filter opens_candidate calls) \<le> u64_max"
  shows "accounted (foldl (recorder_step limits) s calls) = accounted s + length (filter opens_candidate calls)"
  using assms
proof (induction calls arbitrary: s)
  case (Cons c calls)
  have step: "accounted (recorder_step limits s c) = accounted s + (if opens_candidate c then 1 else 0)"
    using Cons.prems by (intro accounted_step) (auto split: if_splits)
  show ?case
    using Cons.IH [of "recorder_step limits s c"] Cons.prems step fields_wf_step by (auto split: if_splits)
qed simp

lemma accounted_recorder:
  assumes "ids_fresh limits (recorder_state_new start) calls" "length (filter opens_candidate calls) \<le> u64_max"
  shows "accounted (recorder_after limits start calls) = length (filter opens_candidate calls)"
proof -
  have "fields_wf (recorder_state_new start)" "accounted (recorder_state_new start) = 0"
    by (simp_all add: fields_wf_def accounted_def held_def recorder_state_new_def)
  with assms accounted_from [of "recorder_state_new start" limits calls] show ?thesis
    by (simp add: recorder_after_def)
qed

section \<open>Snapshots\<close>

lemma count_open_none:
  assumes "fst (foldl count_open (n, ss) xs) = 0"
  shows "n = 0 \<and> list_all (\<lambda>x. \<not> os_is_tt_candidate x) xs"
  using assms
proof (induction xs arbitrary: n ss)
  case (Cons x xs)
  obtain n' ss' where step: "count_open (n, ss) x = (n', ss')" by (cases "count_open (n, ss) x")
  with Cons have "n' = 0 \<and> list_all (\<lambda>x. \<not> os_is_tt_candidate x) xs" by simp
  moreover have "n' = (if os_is_tt_candidate x then saturating_add n 1 else n)"
    using step by (auto simp: count_open_def split: if_splits)
  ultimately show ?case using saturating_add_pos [of n] by (auto split: if_splits)
qed simp

lemma clean_open:
  assumes "fields_wf s" "ss_open_candidate_count (snapshot_stats s) = 0"
  shows "rs_open s = []"
proof -
  have "list_all (\<lambda>x. \<not> os_is_tt_candidate x) (map snd (rs_open s))"
    using assms(2) count_open_none [of 0 "[]" "map snd (rs_open s)"]
    by (simp add: snapshot_stats_def split: prod.splits)
  then show ?thesis using assms(1) by (cases "rs_open s") (auto simp: fields_wf_def)
qed

lemma clean_accounted:
  assumes "fields_wf s" "stats_clean (snapshot_stats s)"
  shows "rs_open s = []" "accounted s = held s"
proof -
  show "rs_open s = []" using assms by (intro clean_open) (simp_all add: stats_clean_def)
  with assms(2) show "accounted s = held s"
    by (simp add: stats_clean_def snapshot_stats_def accounted_def split: prod.splits)
qed

lemma strict_messages_none: "push_strict_recorder_messages stats limits = [] \<longleftrightarrow> stats_clean stats"
  by (auto simp: push_strict_recorder_messages_def stats_clean_def word_gt_0)

lemma strict_snapshot:
  assumes "io_strict options"
  shows "imported_with_drop_warnings now later spans options stats limits = Some (Inr imp)
    \<longleftrightarrow> run_from_span_records now later spans options = Some (Inr imp) \<and> stats_clean stats"
  using assms strict_messages_none [of stats limits]
  by (auto simp: imported_with_drop_warnings_def Let_def
      split: option.splits sum.splits ImportError.splits if_splits prod.splits)

lemma length_completed: "length (completed_span_records s) = held s"
  by (simp add: completed_span_records_def held_def)

section \<open>A recorded service\<close>

definition sample_instant :: "nat \<Rightarrow> clock_reading" where
  "sample_instant ms = \<lparr>rd_system_ns = int (ms * 1000000), rd_instant_ns = ms * 1000000\<rparr>"

definition sample_attributes :: "string \<Rightarrow> string \<Rightarrow> string \<Rightarrow> SpanAttributes" where
  "sample_attributes kind named v = \<lparr>at_parent = None, at_current = None, at_name = ''span'',
     at_declared_fields = [TT_KIND, TT_REQUEST_ID, named],
     at_values = [(TT_KIND, VisitStr kind), (TT_REQUEST_ID, VisitStr ''a''), (named, VisitStr v)]\<rparr>"

definition sample_calls :: "recorder_call list \<Rightarrow> recorder_call list" where
  "sample_calls extra =
     [NewSpan (sample_instant 10) (sample_attributes ''request'' TT_ROUTE ''/pay'') 1,
      NewSpan (sample_instant 11) (sample_attributes ''stage'' TT_STAGE ''db'') 2] @ extra
     @ [RecordValues 2 [(TT_SUCCESS, VisitBool False)], CloseSpan (sample_instant 12) 2, CloseSpan (sample_instant 13) 1]"

definition sample_limits :: "nat \<Rightarrow> RecorderLimits" where
  "sample_limits n = \<lparr>rl_max_open_spans = 2, rl_max_completed_candidate_spans = n\<rparr>"

definition sample_open :: "clock_reading \<Rightarrow> nat \<Rightarrow> SpanAttributes \<Rightarrow> u64 \<Rightarrow> OpenSpan" where
  "sample_open now start attrs i = open_span_from_start_sample (Some (show_word i)) None (at_name attrs)
     (visit_fields (at_values attrs)) (unix_time_ms now) (rd_instant_ns now) start True"

lemma sample_visit:
  "visit_fields (at_values (sample_attributes kind TT_ROUTE v)) =
    [(TT_KIND, FvString kind), (TT_REQUEST_ID, FvString ''a''), (TT_ROUTE, FvString v)]"
  "visit_fields (at_values (sample_attributes kind TT_STAGE v)) =
    [(TT_KIND, FvString kind), (TT_REQUEST_ID, FvString ''a''), (TT_STAGE, FvString v)]"
  by (simp_all add: visit_fields_def sample_attributes_def bt_insert_def tt_keys)

lemma sample_is_candidate: "is_candidate_attributes (sample_attributes kind named v)"
  by (simp add: is_candidate_attributes_def metadata_has_tailtriage_field_def sample_attributes_def tt_keys starts_with_def)

lemma sample_new:
  "on_new_span limits now (sample_attributes kind named v) i state =
     (if rl_max_open_spans limits \<le> length (rs_open state)
      then state\<lparr>rs_dropped_open_spans := saturating_add (rs_dropped_open_spans state) 1\<rparr>
      else state\<lparr>rs_open := bt_insert i (sample_open now (rs_start_instant state) (sample_attributes kind named v) i)
             (rs_open state)\<rparr>)"
  using sample_is_candidate [of kind named v]
  unfolding on_new_span_def is_candidate_attributes_def sample_open_def Let_def
  by (simp add: sample_attributes_def)

lemma sample_open_fields [simp]:
  "os_fields (sample_open now start (sample_attributes kind ''tt.route'' v) i) =
    [(''tt.kind'', FvString kind), (''tt.request_id'', FvString ''a''), (''tt.route'', FvString v)]"
  "os_fields (sample_open now start (sample_attributes kind ''tt.stage'' v) i) =
    [(''tt.kind'', FvString kind), (''tt.request_id'', FvString ''a''), (''tt.stage'', FvString v)]"
  "os_is_tt_candidate (sample_open now start attrs i)"
  using sample_visit unfolding tt_keys by (simp_all add: sample_open_def open_span_from_start_sample_def)

lemma sample_blank: "\<not> is_blank ''a''" "\<not> is_blank ''/pay''" "\<not> is_blank ''db''"
  by code_simp+

lemma sample_times:
  "unix_time_ms (sample_instant 13) = 13" "rd_instant_ns (sample_instant ms) = ms * 1000000"
  "duration_us_between 0 13000000 = 13000"
  by (simp_all add: sample_instant_def unix_time_ms_def system_time_to_unix_ms_def duration_to_unix_ms_def
      duration_us_between_def u64_sat_of_nat_def)

lemmas sample_run = sample_calls_def sample_new on_record_def on_close_def classify_kind_def precheck_required_fields_def
  require_string_field_def or_else_def is_required_name_def bt_insert_def bt_lookup_def recorder_state_new_def
  sample_limits_def push_completed_candidate_with_kind_aware_retention_def push_record_by_kind_def tt_keys
  sample_blank visit_fields_def fields_extend_def saturating_add_def Let_def

lemma sample_after_full:
  "recorder_after (sample_limits 1) 0
     (sample_calls [NewSpan (sample_instant 12) (sample_attributes ''stage'' TT_STAGE ''db'') 3])
   = (recorder_state_new 0)\<lparr>rs_completed_requests := [closed_record 13 13000 13000000
          (sample_open (sample_instant 10) 0 (sample_attributes ''request'' TT_ROUTE ''/pay'') 1)],
       rs_dropped_open_spans := 1, rs_evicted_child_candidates_to_preserve_request := 1\<rparr>"
  by (simp add: recorder_after_def sample_run sample_times)

definition sample_request_calls :: "recorder_call list" where
  "sample_request_calls =
     [NewSpan (sample_instant 10) (sample_attributes ''request'' TT_ROUTE ''/pay'') 1, CloseSpan (sample_instant 13) 1]"

definition sample_recorded :: SpanRecord where
  "sample_recorded = closed_record 13 13000 13000000
     (sample_open (sample_instant 10) 0 (sample_attributes ''request'' TT_ROUTE ''/pay'') 1)"

lemma sample_after_request:
  "recorder_after (sample_limits 1) 0 sample_request_calls
     = (recorder_state_new 0)\<lparr>rs_completed_requests := [sample_recorded]\<rparr>"
  by (simp add: recorder_after_def sample_run sample_times sample_request_calls_def sample_recorded_def)

lemma sample_recorded_eq:
  "sample_recorded = (span_new ''span'' 10 13)\<lparr>sp_id := Some (show_word (1 :: u64)),
     sp_fields := [(''tt.kind'', FvString ''request''), (''tt.request_id'', FvString ''a''), (''tt.route'', FvString ''/pay'')],
     sp_started_at_run_us := Some 10000, sp_finished_at_run_us := Some 13000, sp_duration_us := Some 3000\<rparr>"
  using sample_visit(1) [of "''request''" "''/pay''"]
  by (simp add: sample_recorded_def closed_record_def sample_open_def open_span_from_start_sample_def Let_def
      sample_attributes_def sample_instant_def unix_time_ms_def system_time_to_unix_ms_def duration_to_unix_ms_def
      duration_us_between_def u64_sat_of_nat_def tt_keys span_new_def span_with_id_def span_with_field_def
      span_with_started_at_run_us_def span_with_finished_at_run_us_def span_with_duration_us_def bt_insert_def)

lemma sample_recorded_candidate:
  "candidate_of sample_recorded = Some (CandRequest (request_event sample_recorded ''a'' ''/pay'' ''ok'') True)"
  by (simp add: candidate_of_def sample_recorded_eq span_new_def kind_field_def
      get_string_field_state_def bt_lookup_def tt_keys TT_OUTCOME_def span_kind_parse_def nonblank_field_def
      outcome_field_def sample_nonblank)

lemma sample_recorded_canonical:
  "imported_sections (resolved_capture_limits sample_import_options) [sample_recorded]
     = candidate_events (resolved_capture_limits sample_import_options) [sample_recorded]"
proof -
  have ev: "request_events [sample_recorded] = [request_event sample_recorded ''a'' ''/pay'' ''ok'']"
    "stage_events [sample_recorded] = []" "queue_events [sample_recorded] = []"
    by (simp_all add: event_lists List.map_filter_simps sample_recorded_candidate)
  let ?e = "request_event sample_recorded ''a'' ''/pay'' ''ok''"
  have "\<not> is_blank ''ok''" by code_simp
  then have "request_ok ?e" "repair_request ?e = ?e" "keep_request [?e] ?e"
    using sample_nonblank
    by (simp_all add: keep_request_def request_ok_def id_count_def request_event_def sample_recorded_eq
        span_new_def repair_request_def precise_ok_def span_latency_def elapsed_duration_us_def abs_diff_def RUN_RELATIVE_DURATION_TOLERANCE_US_def)
  moreover have "max_requests (resolved_capture_limits sample_import_options) = 1"
    by (simp add: resolved_capture_limits_def sample_import_options_def io_set_capture_limits_def)
  ultimately show ?thesis unfolding imported_sections_def candidate_events_def ev by simp
qed

lemma sample_strict_import:
  "\<exists>imp. run_from_span_records 1 2 [sample_recorded] (io_set_strict True sample_import_options) = Some (Inr imp)"
proof (rule strict_import_exists)
  show "list_all acceptable [sample_recorded]" by (simp add: acceptable_def sample_recorded_candidate)
  show "\<not> is_blank (io_service_name (io_set_strict True sample_import_options))"
    "\<not> blank_run_id (io_set_strict True sample_import_options)"
    using sample_nonblank
    by (simp_all add: sample_import_options_def io_set_capture_limits_def import_options_new_def blank_run_id_def)
qed (simp add: sample_recorded_canonical)

lemma sample_opens [simp]:
  "opens_candidate (NewSpan now (sample_attributes kind named v) i)"
  by (simp add: sample_is_candidate)

lemma sample_fresh:
  "ids_fresh (sample_limits 1) (recorder_state_new 0)
     (sample_calls [NewSpan (sample_instant 12) (sample_attributes ''stage'' TT_STAGE ''db'') 3])"
  "ids_fresh (sample_limits 1) (recorder_state_new 0) sample_request_calls"
  by (simp_all add: sample_run sample_request_calls_def)

lemma sample_count:
  "length (filter opens_candidate (sample_calls [NewSpan (sample_instant 12) (sample_attributes ''stage'' TT_STAGE ''db'') 3])) = 3"
  "length (filter opens_candidate sample_request_calls) = 1"
  by (simp_all add: sample_calls_def sample_request_calls_def del: opens_candidate.simps(1))

lemma map_sum_Inr_E:
  assumes "map_sum id f r = Inr y"
  obtains x where "r = Inr x" "y = f x"
  using assms by (cases r) auto

definition sample_recorder :: LiveRecorder where
  "sample_recorder = \<lparr>lr_state = recorder_after (sample_limits 1) 0 sample_request_calls,
     lr_options = io_set_strict True sample_import_options, lr_limits = sample_limits 1\<rparr>"

lemma sample_completed: "completed_span_records (lr_state sample_recorder) = [sample_recorded]"
  by (simp add: sample_recorder_def sample_after_request completed_span_records_def recorder_state_new_def
      del: One_nat_def)

lemma sample_snapshot:
  "\<exists>imported. run_from_span_records 1 2 [sample_recorded] (io_set_strict True sample_import_options) = Some (Inr imported) \<and>
     recorder_snapshot_run 1 2 sample_recorder = Some (Inr (mark_imported_run_active imported))"
proof -
  obtain imported where imported:
    "run_from_span_records 1 2 [sample_recorded] (io_set_strict True sample_import_options) = Some (Inr imported)"
    using sample_strict_import by blast
  have "stats_clean (snapshot_stats (lr_state sample_recorder))"
    by (simp add: sample_recorder_def sample_after_request recorder_state_new_def stats_clean_def
        snapshot_stats_def del: One_nat_def)
  with imported have "imported_with_drop_warnings 1 2 [sample_recorded] (io_set_strict True sample_import_options)
      (snapshot_stats (lr_state sample_recorder)) (sample_limits 1) = Some (Inr imported)"
    by (simp add: strict_snapshot io_set_strict_def del: One_nat_def)
  then have "recorder_snapshot_run 1 2 sample_recorder = Some (Inr (mark_imported_run_active imported))"
    using sample_completed by (simp add: recorder_snapshot_run_def) (simp add: sample_recorder_def)
  with imported show ?thesis by blast
qed

section \<open>Properties\<close>

text \<open>
  C12. Over any sequence of subscriber callbacks the memory of the live recorder is bounded: open
  spans and completed records by their limits, issue samples by sixteen. The completed requests
  are exactly the first ones that were closed complete, up to the limit: no request is ever
  evicted, and stages and queues give way to them.
\<close>

theorem recorder_keeps_first_requests:
  "length (rs_open (recorder_after limits start calls)) \<le> rl_max_open_spans limits \<and>
   length (completed_span_records (recorder_after limits start calls)) \<le> rl_max_completed_candidate_spans limits \<and>
   length (rs_closed_kind_samples (recorder_after limits start calls)) \<le> 16 \<and>
   length (rs_closed_incomplete_candidate_samples (recorder_after limits start calls)) \<le> 16 \<and>
   rs_completed_requests (recorder_after limits start calls)
     = take (rl_max_completed_candidate_spans limits) (completed_requests limits (recorder_state_new start) calls)"
proof (intro conjI)
  have "recorder_state_new start = recorder_after limits start []" by (simp add: recorder_after_def)
  from requests_from [OF this, of calls]
  show "rs_completed_requests (recorder_after limits start calls)
     = take (rl_max_completed_candidate_spans limits) (completed_requests limits (recorder_state_new start) calls)"
    by (simp add: recorder_after_def) (simp add: recorder_state_new_def)
qed (use bounded_after [of limits start calls] in \<open>simp_all add: bounded_state_def length_completed\<close>)

text \<open>
  C13. While the ids of open spans are unique and the number of candidate spans fits in 64 bits,
  every candidate span ever opened is accounted for exactly once: it is still open, was dropped
  at opening, is held as a completed record, or is counted as dropped, evicted, or closed with
  a missing, unknown or malformed kind or with incomplete fields.
\<close>

theorem recorder_accounts:
  assumes "ids_fresh limits (recorder_state_new start) calls" "length (filter opens_candidate calls) \<le> u64_max"
  shows "length (filter opens_candidate calls)
    = (let s = recorder_after limits start calls
       in length (rs_open s) + unat (rs_dropped_open_spans s) + length (completed_span_records s)
          + unat (rs_dropped_completed_request_candidates s) + unat (rs_dropped_completed_child_candidates s)
          + unat (rs_evicted_child_candidates_to_preserve_request s)
          + unat (rs_closed_missing_kind_spans s) + unat (rs_closed_unknown_kind_spans s)
          + unat (rs_closed_malformed_kind_spans s) + unat (rs_closed_incomplete_candidate_spans s))"
  using accounted_recorder [OF assms] by (simp add: accounted_def length_completed Let_def)

lemma recorder_accounts_witness:
  "\<exists>calls. length (filter opens_candidate calls) = 3 \<and>
     length (completed_span_records (recorder_after (sample_limits 1) 0 calls)) = 1 \<and>
     unat (rs_dropped_open_spans (recorder_after (sample_limits 1) 0 calls)) = 1 \<and>
     unat (rs_evicted_child_candidates_to_preserve_request (recorder_after (sample_limits 1) 0 calls)) = 1"
  using recorder_accounts [OF sample_fresh(1)] sample_count(1)
  by (intro exI [of _ "sample_calls [NewSpan (sample_instant 12) (sample_attributes ''stage'' TT_STAGE ''db'') 3]"])
    (simp add: sample_after_full recorder_state_new_def completed_span_records_def Let_def del: One_nat_def)

text \<open>
  A strict snapshot of a live recorder succeeds only when nothing was lost: no candidate span
  is open, the records held are as many as the candidate spans ever opened, and the run is the
  strict import of those records, marked as still active.
\<close>

theorem strict_snapshot_lossless:
  assumes "ids_fresh limits (recorder_state_new start) calls" "length (filter opens_candidate calls) \<le> u64_max"
    and "io_strict options"
    and "recorder_snapshot_run now later
       \<lparr>lr_state = recorder_after limits start calls, lr_options = options, lr_limits = limits\<rparr> = Some (Inr imp)"
  shows "rs_open (recorder_after limits start calls) = [] \<and>
    length (completed_span_records (recorder_after limits start calls)) = length (filter opens_candidate calls) \<and>
    (\<exists>imported. imp = mark_imported_run_active imported \<and>
       run_from_span_records now later (completed_span_records (recorder_after limits start calls)) options
         = Some (Inr imported))"
proof -
  let ?s = "recorder_after limits start calls"
  obtain imported where imported: "imp = mark_imported_run_active imported"
    "imported_with_drop_warnings now later (completed_span_records ?s) options (snapshot_stats ?s) limits
       = Some (Inr imported)"
    using assms(4) unfolding recorder_snapshot_run_def by (auto elim!: map_sum_Inr_E)
  note ok = imported(2) [unfolded strict_snapshot [OF assms(3)]]
  show ?thesis
    using clean_accounted [OF fields_wf_after] ok imported(1) accounted_recorder [OF assms(1,2)]
    by (auto simp: length_completed)
qed

lemma strict_snapshot_lossless_witness:
  "\<exists>imp. recorder_snapshot_run 1 2 sample_recorder = Some (Inr imp) \<and>
     length (completed_span_records (lr_state sample_recorder)) = 1"
proof -
  obtain imported where imp: "recorder_snapshot_run 1 2 sample_recorder = Some (Inr (mark_imported_run_active imported))"
    using sample_snapshot by blast
  from strict_snapshot_lossless [OF sample_fresh(2) _ _ imp [unfolded sample_recorder_def]] imp show ?thesis
    by (simp add: sample_count io_set_strict_def sample_recorder_def del: One_nat_def)
qed

end
