(* ===== verification/Tr_Session.thy ===== *)
theory Tr_Session
  imports Tr_Retention Tr_Replay Tk_Sampler
begin

text \<open>
  Tracing sessions (\<^verbatim>\<open>tailtriage-tracing/src/recorder.rs\<close>): the builder, which adds a runtime collector
  and a sampler to the recorder where asked to, snapshots, and the shutdown that merges the runtime
  data, stamps the run and writes the configured files. The collector and the sampler are those of
  the core and of \<^verbatim>\<open>tailtriage-tokio\<close>; the JSON encoders, clock readings, generated ids and answers
  of the operating system are arguments.
\<close>

section \<open>The builder\<close>

record TracingSessionBuilder =
  tsb_recorder_builder :: LiveRecorderBuilder
  tsb_completed_span_jsonl_path :: "path option"
  tsb_run_json_path :: "path option"
  tsb_sampler_interval :: "nat option"
  tsb_manual_runtime_snapshots :: bool

type_synonym runtime_collector = "(unit, unit) Tailtriage"

record TracingSession =
  tse_recorder :: LiveRecorder
  tse_completed_span_jsonl_path :: "path option"
  tse_run_json_path :: "path option"
  tse_runtime_collector :: "runtime_collector option"
  tse_sampler :: "SamplerTask option"

definition session_builder :: "string \<Rightarrow> TracingSessionBuilder" where
  "session_builder service_name =
     \<lparr>tsb_recorder_builder = recorder_builder service_name, tsb_completed_span_jsonl_path = None,
      tsb_run_json_path = None, tsb_sampler_interval = None, tsb_manual_runtime_snapshots = False\<rparr>"

definition tsb_map_recorder :: "(LiveRecorderBuilder \<Rightarrow> LiveRecorderBuilder) \<Rightarrow> TracingSessionBuilder \<Rightarrow> TracingSessionBuilder" where
  "tsb_map_recorder f self = self\<lparr>tsb_recorder_builder := f (tsb_recorder_builder self)\<rparr>"

definition tsb_strict :: "bool \<Rightarrow> TracingSessionBuilder \<Rightarrow> TracingSessionBuilder" where
  "tsb_strict strict = tsb_map_recorder (lrb_map_options (io_set_strict strict))"

definition tsb_mode :: "CaptureMode \<Rightarrow> TracingSessionBuilder \<Rightarrow> TracingSessionBuilder" where
  "tsb_mode mode = tsb_map_recorder (lrb_map_options (io_set_mode mode))"

definition tsb_capture_limits :: "CaptureLimits \<Rightarrow> TracingSessionBuilder \<Rightarrow> TracingSessionBuilder" where
  "tsb_capture_limits limits = tsb_map_recorder (lrb_map_options (io_set_capture_limits limits))"

definition tsb_capture_limits_override :: "CaptureLimitsOverride \<Rightarrow> TracingSessionBuilder \<Rightarrow> TracingSessionBuilder" where
  "tsb_capture_limits_override override_limits =
     tsb_map_recorder (lrb_map_options (io_set_capture_limits_override override_limits))"

definition tsb_service_version :: "string \<Rightarrow> TracingSessionBuilder \<Rightarrow> TracingSessionBuilder" where
  "tsb_service_version v = tsb_map_recorder (lrb_map_options (io_set_service_version v))"

definition tsb_run_id :: "string \<Rightarrow> TracingSessionBuilder \<Rightarrow> TracingSessionBuilder" where
  "tsb_run_id v = tsb_map_recorder (lrb_map_options (io_set_run_id v))"

definition tsb_limits :: "RecorderLimits \<Rightarrow> TracingSessionBuilder \<Rightarrow> TracingSessionBuilder" where
  "tsb_limits limits = tsb_map_recorder (lrb_set_limits limits)"

definition tsb_max_open_spans :: "nat \<Rightarrow> TracingSessionBuilder \<Rightarrow> TracingSessionBuilder" where
  "tsb_max_open_spans n = tsb_map_recorder (lrb_max_open_spans n)"

definition tsb_max_completed_candidate_spans :: "nat \<Rightarrow> TracingSessionBuilder \<Rightarrow> TracingSessionBuilder" where
  "tsb_max_completed_candidate_spans n = tsb_map_recorder (lrb_max_completed_candidate_spans n)"

definition tsb_set_completed_span_jsonl_path :: "path \<Rightarrow> TracingSessionBuilder \<Rightarrow> TracingSessionBuilder" where
  "tsb_set_completed_span_jsonl_path p self = self\<lparr>tsb_completed_span_jsonl_path := Some p\<rparr>"

definition tsb_set_run_json_path :: "path \<Rightarrow> TracingSessionBuilder \<Rightarrow> TracingSessionBuilder" where
  "tsb_set_run_json_path p self = self\<lparr>tsb_run_json_path := Some p\<rparr>"

definition tsb_set_sampler_interval :: "nat \<Rightarrow> TracingSessionBuilder \<Rightarrow> TracingSessionBuilder" where
  "tsb_set_sampler_interval interval' self = self\<lparr>tsb_sampler_interval := Some interval'\<rparr>"

definition tsb_set_manual_runtime_snapshots :: "TracingSessionBuilder \<Rightarrow> TracingSessionBuilder" where
  "tsb_set_manual_runtime_snapshots self = self\<lparr>tsb_manual_runtime_snapshots := True\<rparr>"

text \<open>What building reads from the outside.\<close>

record session_env =
  env_now :: clock_reading
  env_generated_run_id :: string
  env_os_host :: "string option"
  env_pid :: u32
  env_runtime_present :: bool

definition build_runtime_collector :: "session_env \<Rightarrow> TracingSessionBuilder \<Rightarrow> ImportError + runtime_collector option" where
  "build_runtime_collector env self =
     (if tsb_sampler_interval self = None \<and> \<not> tsb_manual_runtime_snapshots self then Inr None
      else
        let options = lrb_options (tsb_recorder_builder self);
            builder = builder_capture_limits (resolved_capture_limits options)
              (builder_strict_lifecycle False (builder_sink () (builder_new ''tailtriage-tracing-runtime'')));
            builder = builder_mode (io_mode options) builder
        in case builder_build (from_config (env_now env) (env_generated_run_id env) (env_os_host env) (env_pid env)) builder of
             Inl err \<Rightarrow> Inl (IeIo ''build tracing Tokio runtime collector'' ''tailtriage-tracing-runtime''
               (build_error_display err))
           | Inr collector \<Rightarrow> Inr (Some collector))"

definition build_runtime_sampler :: "session_env \<Rightarrow> TracingSessionBuilder \<Rightarrow> runtime_collector option
    \<Rightarrow> ImportError + SamplerTask option \<times> runtime_collector option" where
  "build_runtime_sampler env self runtime_collector =
     (case (runtime_collector, tsb_sampler_interval self) of
        (None, _) \<Rightarrow> Inr (None, None)
      | (Some collector, None) \<Rightarrow> Inr (None, Some collector)
      | (Some collector, Some interval') \<Rightarrow>
          if interval' = 0
          then Inl (InvalidConfiguration ''sampler_interval'' ''sampler interval must be greater than zero'')
          else
            let resolved_limits = resolved_capture_limits (lrb_options (tsb_recorder_builder self));
                sampler_builder = sampler_max_runtime_snapshots (max_runtime_snapshots resolved_limits)
                  (sampler_interval interval' sampler_builder)
            in case sampler_start (env_runtime_present env) sampler_builder collector of
                 (Inl err, _) \<Rightarrow> Inl (IeIo ''start tracing Tokio runtime sampler'' ''active Tokio runtime''
                   (sampler_start_error_display err))
               | (Inr task, collector) \<Rightarrow> Inr (Some task, Some collector))"

definition session_build :: "session_env \<Rightarrow> TracingSessionBuilder \<Rightarrow> ImportError + TracingSession" where
  "session_build env self =
     and_then (recorder_build (rd_instant_ns (env_now env)) (tsb_recorder_builder self)) (\<lambda>recorder.
     and_then (build_runtime_collector env self) (\<lambda>runtime_collector.
     and_then (build_runtime_sampler env self runtime_collector) (\<lambda>(sampler, runtime_collector).
       Inr \<lparr>tse_recorder = recorder, tse_completed_span_jsonl_path = tsb_completed_span_jsonl_path self,
            tse_run_json_path = tsb_run_json_path self, tse_runtime_collector = runtime_collector,
            tse_sampler = sampler\<rparr>)))"

section \<open>Snapshots\<close>

definition session_record_runtime_snapshot :: "clock_reading \<Rightarrow> RuntimeSnapshot \<Rightarrow> TracingSession
    \<Rightarrow> (ImportError + unit) \<times> TracingSession" where
  "session_record_runtime_snapshot now snapshot self =
     (case tse_runtime_collector self of
        None \<Rightarrow>
          (Inl (InvalidConfiguration ''runtime_snapshots''
             ''runtime collection is not enabled; call manual_runtime_snapshots() or sampler_interval(...) before build''), self)
      | Some collector \<Rightarrow>
          (Inr (), self\<lparr>tse_runtime_collector := Some (fst (record_runtime_snapshot now snapshot collector))\<rparr>))"

definition merge_session_runtime :: "TracingSession \<Rightarrow> ImportedRun \<Rightarrow> ImportedRun" where
  "merge_session_runtime self imported =
     (case tse_runtime_collector self of
        Some collector \<Rightarrow>
          with_manual_sampler_warning (merge_runtime_data imported (tailtriage_snapshot collector)) (tse_sampler self = None)
      | None \<Rightarrow> imported)"

definition session_snapshot_run :: "u64 \<Rightarrow> u64 \<Rightarrow> TracingSession \<Rightarrow> (ImportError + ImportedRun) option" where
  "session_snapshot_run now later self =
     map_option (map_sum id (merge_session_runtime self)) (recorder_snapshot_run now later (tse_recorder self))"

section \<open>Shutdown\<close>

record output_env =
  oe_pieces :: "Value \<Rightarrow> string list"
  oe_to_json :: "Run \<Rightarrow> string"
  oe_pid :: nat
  oe_span_file :: file_answers
  oe_run_dir :: "string option"

definition write_completed_spans :: "output_env \<Rightarrow> path \<Rightarrow> ImportedRun \<Rightarrow> fs_world \<Rightarrow> fs_world \<times> (ImportError + unit)" where
  "write_completed_spans env path imported w =
     (case validate_completed_span_jsonl_retained_sources (imp_run imported) (imp_retained_sources imported) path of
        Inl err \<Rightarrow> (w, Inl err)
      | Inr _ \<Rightarrow>
          let (files, r) = write_completed_span_jsonl_with_limit (oe_pieces env) (oe_pid env) (oe_span_file env)
                (imp_retained_sources imported) path MAX_JSONL_RECORD_BYTES (fs_files w)
          in (w\<lparr>fs_files := files\<rparr>, r))"

definition write_run_json :: "output_env \<Rightarrow> path \<Rightarrow> Run \<Rightarrow> fs_world \<Rightarrow> fs_world \<times> (ImportError + unit)" where
  "write_run_json env path run w =
     (case create_output_parent_dir (oe_run_dir env) path ''create run json parent directory'' of
        Inl err \<Rightarrow> (w, Inl err)
      | Inr _ \<Rightarrow>
          let (w, r) = local_json_write (oe_to_json env) (oe_pid env) path w run
          in (w, map_sum (\<lambda>err. RunJsonWrite (path_display path) (sink_error_display err)) id r))"

text \<open>The configured files, the spans before the run; each is replaced on its own.\<close>

definition write_outputs :: "output_env \<Rightarrow> TracingSession \<Rightarrow> ImportedRun \<Rightarrow> fs_world \<Rightarrow> fs_world \<times> (ImportError + unit)" where
  "write_outputs env self imported w =
     (case (if tse_run_json_path self \<noteq> None \<or> tse_completed_span_jsonl_path self \<noteq> None
            then ensure_persistable_run_with_warnings (imp_run imported) (imp_warnings imported) else Inr ()) of
        Inl err \<Rightarrow> (w, Inl err)
      | Inr _ \<Rightarrow>
     (case (case tse_completed_span_jsonl_path self of
              Some path \<Rightarrow> write_completed_spans env path imported w
            | None \<Rightarrow> (w, Inr ())) of
        (w, Inl err) \<Rightarrow> (w, Inl err)
      | (w, Inr _) \<Rightarrow>
          (case tse_run_json_path self of
             Some path \<Rightarrow> write_run_json env path (imp_run imported) w
           | None \<Rightarrow> (w, Inr ()))))"

text \<open>
  The sampler was awaited before, so that the collector does not change any more;
  \<open>finalized_at_unix_ms\<close> is the clock after the snapshot.
\<close>

definition session_shutdown :: "output_env \<Rightarrow> u64 \<Rightarrow> u64 \<Rightarrow> u64 \<Rightarrow> TracingSession \<Rightarrow> fs_world
    \<Rightarrow> fs_world \<times> (ImportError + ImportedRun) option" where
  "session_shutdown env now later finalized_at_unix_ms self w =
     (case session_snapshot_run now later self of
        None \<Rightarrow> (w, None)
      | Some (Inl err) \<Rightarrow> (w, Some (Inl err))
      | Some (Inr imported) \<Rightarrow>
          let imported = finalize_live_imported_run_at imported finalized_at_unix_ms;
              (w, r) = write_outputs env self imported w
          in (w, Some (map_sum id (\<lambda>_. with_retained_sources (imp_run imported) (imp_warnings imported)
                (imp_retained_sources imported)) r)))"

section \<open>What a session does to an imported run\<close>

text \<open>Same events of requests, and the same identity.\<close>

definition carries :: "Run \<Rightarrow> Run \<Rightarrow> bool" where
  "carries r r' \<longleftrightarrow> run_requests r' = run_requests r \<and> run_stages r' = run_stages r \<and> run_queues r' = run_queues r \<and>
     run_inflight r' = run_inflight r \<and> run_schema_version r' = run_schema_version r \<and>
     md_run_id (run_metadata r') = md_run_id (run_metadata r) \<and>
     md_service_name (run_metadata r') = md_service_name (run_metadata r)"

lemma carries_refl [simp]: "carries r r"
  by (simp add: carries_def)

lemma carries_trans: "carries r r' \<Longrightarrow> carries r' r'' \<Longrightarrow> carries r r''"
  by (simp add: carries_def)

lemma carries_foldl:
  "(\<And>s x. carries (f s) (f (g s x))) \<Longrightarrow> carries (f s) (f (foldl g s xs))"
  by (induction xs arbitrary: s) (auto intro: carries_trans)

lemma imp_with_retained_sources [simp]:
  "imp_run (with_retained_sources run ws ss) = run" "imp_warnings (with_retained_sources run ws ss) = ws"
  "imp_retained_sources (with_retained_sources run ws ss) = ss"
  by (simp_all add: with_retained_sources_def)

lemma carries_drop_warnings: "carries r (fst (append_non_strict_drop_warnings stats limits (r, ws)))"
proof -
  obtain run warnings where f: "foldl (\<lambda>rw msg. push_both msg rw) (r, ws) (drop_messages stats limits) = (run, warnings)"
    by (rule prod.exhaust)
  have "carries (fst (r, ws)) (fst (foldl (\<lambda>rw msg. push_both msg rw) (r, ws) (drop_messages stats limits)))"
    by (rule carries_foldl) (simp add: push_both_def carries_def split: prod.split)
  then have "carries r run" by (simp add: f)
  moreover have "carries run (run\<lparr>run_truncation := t\<rparr>)" for t by (simp add: carries_def)
  ultimately show ?thesis
    unfolding append_non_strict_drop_warnings_def f Let_def prod.case fst_conv by (auto intro: carries_trans)
qed

lemma add_both_run: "carries (imp_run imp) (imp_run (add_both w imp))"
  "run_runtime_snapshots (imp_run (add_both w imp)) = run_runtime_snapshots (imp_run imp)"
  "imp_retained_sources (add_both w imp) = imp_retained_sources imp"
  by (simp_all add: add_both_def add_new_warning_def carries_def)

lemma foldl_add_both:
  "run_runtime_snapshots (imp_run (foldl (\<lambda>m w. add_both w m) imp ws)) = run_runtime_snapshots (imp_run imp)"
  "imp_retained_sources (foldl (\<lambda>m w. add_both w m) imp ws) = imp_retained_sources imp"
  by (induction ws arbitrary: imp) (simp_all add: add_both_run)

lemma merge_runtime_run:
  "carries (imp_run imp) (imp_run (merge_runtime_data imp r))"
  "run_runtime_snapshots (imp_run (merge_runtime_data imp r))
     = map (\<lambda>t. t\<lparr>rts_at_run_us := None\<rparr>) (run_runtime_snapshots r)"
  "imp_retained_sources (merge_runtime_data imp r) = imp_retained_sources imp"
proof -
  show "run_runtime_snapshots (imp_run (merge_runtime_data imp r))
     = map (\<lambda>t. t\<lparr>rts_at_run_us := None\<rparr>) (run_runtime_snapshots r)"
    "imp_retained_sources (merge_runtime_data imp r) = imp_retained_sources imp"
    by (simp_all add: merge_runtime_data_def Let_def add_both_run foldl_add_both)
  have fold: "carries (imp_run m) (imp_run (foldl (\<lambda>m w. add_both w m) m ws))" for m ws
    by (rule carries_foldl) (rule add_both_run)
  have all: "carries r0 (imp_run (if b then add_both v (foldl (\<lambda>m w. add_both w m) m ws)
      else foldl (\<lambda>m w. add_both w m) m ws))" if "carries r0 (imp_run m)" for r0 b v m ws
    using carries_trans [OF that fold] carries_trans [OF carries_trans [OF that fold] add_both_run(1)] by (cases b) simp_all
  show "carries (imp_run imp) (imp_run (merge_runtime_data imp r))"
    unfolding merge_runtime_data_def Let_def by (rule all) (simp add: carries_def)
qed

lemma merge_session_run:
  "carries (imp_run imp) (imp_run (merge_session_runtime self imp))"
  "imp_retained_sources (merge_session_runtime self imp) = imp_retained_sources imp"
proof -
  have manual: "carries (imp_run m) (imp_run (with_manual_sampler_warning m b))"
    "imp_retained_sources (with_manual_sampler_warning m b) = imp_retained_sources m" for m b
    unfolding with_manual_sampler_warning_def by (cases b; simp only: if_True if_False not_True_eq_False
        not_False_eq_True carries_refl add_both_run)+
  show "carries (imp_run imp) (imp_run (merge_session_runtime self imp))"
    using carries_trans [OF merge_runtime_run(1) manual(1)]
    by (simp add: merge_session_runtime_def split: option.split)
  show "imp_retained_sources (merge_session_runtime self imp) = imp_retained_sources imp"
    by (simp add: merge_session_runtime_def manual(2) merge_runtime_run(3) split: option.split)
qed

lemma set_finalized_run:
  "carries (imp_run imp) (imp_run (set_finalized t imp))"
  "run_runtime_snapshots (imp_run (set_finalized t imp)) = run_runtime_snapshots (imp_run imp)"
  "md_finalized_at_unix_ms (run_metadata (imp_run (set_finalized t imp))) = t"
  "imp_retained_sources (set_finalized t imp) = imp_retained_sources imp"
  by (simp_all add: set_finalized_def carries_def)

lemma imported_with_drop_cases:
  assumes "imported_with_drop_warnings now later spans options stats limits = Some (Inr imp)"
  obtains imported where "run_from_span_records now later spans options = Some (Inr imported)"
    "carries (imp_run imported) (imp_run imp)" "imp_retained_sources imp = imp_retained_sources imported"
proof (cases "run_from_span_records now later spans options")
  case None
  with assms show ?thesis by (simp add: imported_with_drop_warnings_def)
next
  case (Some r)
  show ?thesis
  proof (cases r)
    case (Inl e)
    with assms Some show ?thesis
      by (simp add: imported_with_drop_warnings_def Let_def split: ImportError.splits if_splits)
  next
    case (Inr imported)
    obtain run ws where a: "append_non_strict_drop_warnings stats limits (imp_run imported, imp_warnings imported) = (run, ws)"
      by (rule prod.exhaust)
    have run: "carries (imp_run imported) run"
      using carries_drop_warnings [of "imp_run imported" stats limits "imp_warnings imported"] a by simp
    have "imp = imported \<or> imp = with_retained_sources run ws (imp_retained_sources imported)"
      using assms Some Inr unfolding imported_with_drop_warnings_def Let_def
      by (simp add: a split: if_splits)
    with that [of imported] Some Inr run show ?thesis by auto
  qed
qed

lemma recorder_snapshot_cases:
  assumes "recorder_snapshot_run now later lr = Some (Inr imp)"
  obtains imported where
    "run_from_span_records now later (completed_span_records (lr_state lr)) (lr_options lr) = Some (Inr imported)"
    "carries (imp_run imported) (imp_run imp)" "imp_retained_sources imp = imp_retained_sources imported"
proof -
  let ?stats = "snapshot_stats (lr_state lr)"
  obtain imp0 where imp0: "imported_with_drop_warnings now later (completed_span_records (lr_state lr)) (lr_options lr)
      ?stats (lr_limits lr) = Some (Inr imp0)" and imp: "imp = mark_imported_run_active imp0"
    using assms unfolding recorder_snapshot_run_def by (auto elim!: map_sum_Inr_E)
  obtain imported where
    "run_from_span_records now later (completed_span_records (lr_state lr)) (lr_options lr) = Some (Inr imported)"
    "carries (imp_run imported) (imp_run imp0)" "imp_retained_sources imp0 = imp_retained_sources imported"
    using imported_with_drop_cases [OF imp0] .
  then show ?thesis
    using that carries_trans [OF _ set_finalized_run(1)] unfolding imp mark_imported_run_active_def
    by (simp add: set_finalized_run(4))
qed

section \<open>Validity of the merged run\<close>

lemma imported_valid:
  assumes "run_from_span_records now later spans options = Some (Inr imp)"
  shows "canonical_run (imp_run imp) = imp_run imp" "run_schema_version (imp_run imp) = SCHEMA_VERSION"
    "\<not> is_blank (md_service_name (run_metadata (imp_run imp)))"
    "is_blank (md_run_id (run_metadata (imp_run imp))) \<longleftrightarrow> blank_run_id options"
proof -
  have "canonical_run (imp_run imp) = imp_run imp \<and> \<not> is_blank (io_service_name options)"
    using assms
  proof (cases rule: import_cases [of options now later "map Inr spans"])
    case (imported spans' cv pir)
    then have "imp = pir_imported pir" using assms by (simp add: run_from_records_eq)
    with imported show ?thesis using canonical_rewarned [OF canonical_refreshed imported(8)] by simp
  qed (simp_all add: run_from_records_eq)
  moreover have e: "cleared (imp_run imp) = expected_run later options spans" using import_refines_fact [OF assms] by simp
  then have "run_schema_version (cleared (imp_run imp)) = SCHEMA_VERSION"
    "md_service_name (run_metadata (cleared (imp_run imp))) = io_service_name options"
    "is_blank (md_run_id (run_metadata (cleared (imp_run imp)))) \<longleftrightarrow> blank_run_id options"
    unfolding e expected_run_def
    by (auto simp: import_metadata_def blank_run_id_def tracing_import_id_nonblank split: prod.split option.split)
  ultimately show "canonical_run (imp_run imp) = imp_run imp" "run_schema_version (imp_run imp) = SCHEMA_VERSION"
    "\<not> is_blank (md_service_name (run_metadata (imp_run imp)))"
    "is_blank (md_run_id (run_metadata (imp_run imp))) \<longleftrightarrow> blank_run_id options"
    by (simp_all add: cleared_def)
qed

lemma canonical_carries:
  assumes "canonical_run r = r" "carries r r'"
  shows "canonical_run r' = r' \<longleftrightarrow> map clear_worker_count (run_runtime_snapshots r') = run_runtime_snapshots r'"
proof -
  have "run_requests (canonical_run r) = run_requests r" "run_stages (canonical_run r) = run_stages r"
    "run_queues (canonical_run r) = run_queues r" "run_inflight (canonical_run r) = run_inflight r"
    by (simp_all only: assms(1))
  then show ?thesis using assms(2) by (cases r') (simp add: canonical_run_def carries_def)
qed

lemma clear_worker_count_iff: "map clear_worker_count ts = ts \<longleftrightarrow> list_all (\<lambda>t. rts_worker_count t \<noteq> Some 0) ts"
proof -
  have "clear_worker_count t = t \<longleftrightarrow> rts_worker_count t \<noteq> Some 0" for t
    by (cases t) (auto simp: clear_worker_count_def)
  then show ?thesis by (induction ts) auto
qed

lemma session_shutdown_cases:
  assumes "session_shutdown env now later finalized self w = (w', Some (Inr imp))"
  obtains snap where "recorder_snapshot_run now later (tse_recorder self) = Some (Inr snap)"
    "imp = finalize_live_imported_run_at (merge_session_runtime self snap) finalized"
    "write_outputs env self imp w = (w', Inr ())"
proof -
  obtain imported where i: "session_snapshot_run now later self = Some (Inr imported)"
    using assms by (cases "session_snapshot_run now later self") (auto simp: session_shutdown_def split: sum.splits)
  let ?imp = "finalize_live_imported_run_at imported finalized"
  obtain w1 r where r: "write_outputs env self ?imp w = (w1, r)" by (rule prod.exhaust)
  have same: "with_retained_sources (imp_run x) (imp_warnings x) (imp_retained_sources x) = x" for x :: ImportedRun
    by (cases x) (simp add: with_retained_sources_def)
  have "w1 = w'" "r = Inr ()" "imp = ?imp"
    using assms by (cases r; simp add: session_shutdown_def i r same Let_def)+
  moreover obtain snap where "recorder_snapshot_run now later (tse_recorder self) = Some (Inr snap)"
    "imported = merge_session_runtime self snap"
    using i unfolding session_snapshot_run_def by (auto elim!: map_sum_Inr_E)
  ultimately show ?thesis using that r by simp
qed

lemma session_shutdown_run:
  assumes "session_shutdown env now later finalized self w = (w', Some (Inr imp))"
  shows "validate_run_strict (imp_run imp) = Inr () \<longleftrightarrow>
    \<not> blank_run_id (lr_options (tse_recorder self)) \<and> md_started_at_unix_ms (run_metadata (imp_run imp)) \<le> finalized \<and>
    list_all (\<lambda>t. rts_worker_count t \<noteq> Some 0) (run_runtime_snapshots (imp_run imp))"
proof -
  from session_shutdown_cases [OF assms] obtain snap where
    snap: "recorder_snapshot_run now later (tse_recorder self) = Some (Inr snap)"
    and imp: "imp = finalize_live_imported_run_at (merge_session_runtime self snap) finalized" by blast
  from recorder_snapshot_cases [OF snap] obtain imported where
    run: "run_from_span_records now later (completed_span_records (lr_state (tse_recorder self)))
       (lr_options (tse_recorder self)) = Some (Inr imported)"
    and "carries (imp_run imported) (imp_run snap)" by blast
  then have c: "carries (imp_run imported) (imp_run imp)"
    unfolding imp finalize_live_imported_run_at_def
    using carries_trans [OF carries_trans [OF _ merge_session_run(1)] set_finalized_run(1)] by blast
  have "md_finalized_at_unix_ms (run_metadata (imp_run imp)) = Some finalized"
    unfolding imp finalize_live_imported_run_at_def by (rule set_finalized_run(3))
  with c imported_valid [OF run] have "metadata_ok (imp_run imp) \<longleftrightarrow>
      \<not> blank_run_id (lr_options (tse_recorder self)) \<and> md_started_at_unix_ms (run_metadata (imp_run imp)) \<le> finalized"
    by (simp add: metadata_ok_def carries_def)
  then show ?thesis
    using canonical_carries [OF imported_valid(1) [OF run] c]
    by (auto simp: strict_accepts_iff_canonical_fact report_of_normalize clear_worker_count_iff)
qed

section \<open>The files of a shutdown\<close>

definition session_files :: "output_env \<Rightarrow> TracingSession \<Rightarrow> ImportedRun \<Rightarrow> files \<Rightarrow> files" where
  "session_files env self imp files =
     (let files = (case tse_completed_span_jsonl_path self of
            Some path \<Rightarrow> files(path \<mapsto> file_bytes (oe_pieces env) (imp_retained_sources imp)) | None \<Rightarrow> files)
      in case tse_run_json_path self of
           Some path \<Rightarrow> files(path \<mapsto> oe_to_json env (imp_run imp)) | None \<Rightarrow> files)"

lemma write_completed_spans_ok:
  assumes "write_completed_spans env path imp w = (w', Inr ())"
  shows "fs_files w' = (fs_files w)(path \<mapsto> file_bytes (oe_pieces env) (imp_retained_sources imp))"
proof -
  obtain files r where f: "write_completed_span_jsonl_with_limit (oe_pieces env) (oe_pid env) (oe_span_file env)
      (imp_retained_sources imp) path MAX_JSONL_RECORD_BYTES (fs_files w) = (files, r)" by (rule prod.exhaust)
  with assms have "w' = w\<lparr>fs_files := files\<rparr>" "r = Inr ()"
    by (auto simp: write_completed_spans_def split: sum.splits)
  with completed_span_file_fact [where pieces = "oe_pieces env" and pid = "oe_pid env" and os = "oe_span_file env"
      and spans = "imp_retained_sources imp" and path = path and limit = MAX_JSONL_RECORD_BYTES and files = "fs_files w"] f
  show ?thesis by simp
qed

lemma write_run_json_ok:
  assumes "write_run_json env path run w = (w', Inr ())"
  shows "fs_files w' = (fs_files w)(path \<mapsto> oe_to_json env run)"
proof -
  obtain w1 r where l: "local_json_write (oe_to_json env) (oe_pid env) path w run = (w1, r)" by (rule prod.exhaust)
  with assms have "w' = w1" "r = Inr ()"
    by (cases r; auto simp: write_run_json_def split: sum.splits)+
  with local_json_write_cases [where to_json = "oe_to_json env" and pid = "oe_pid env" and self = path and w = w
      and run = run] l
  show ?thesis by simp
qed

lemma write_outputs_ok:
  assumes "write_outputs env self imp w = (w', Inr ())"
  shows "fs_files w' = session_files env self imp (fs_files w)"
    "tse_run_json_path self \<noteq> None \<or> tse_completed_span_jsonl_path self \<noteq> None \<Longrightarrow> run_requests (imp_run imp) \<noteq> []"
proof -
  obtain w1 r where s: "(case tse_completed_span_jsonl_path self of
      Some path \<Rightarrow> write_completed_spans env path imp w | None \<Rightarrow> (w, Inr ())) = (w1, r)" by (rule prod.exhaust)
  from assms have r: "r = Inr ()" and "(case tse_run_json_path self of
      Some path \<Rightarrow> write_run_json env path (imp_run imp) w1 | None \<Rightarrow> (w1, Inr ())) = (w', Inr ())"
    unfolding write_outputs_def s by (auto split: sum.splits)
  with s show "fs_files w' = session_files env self imp (fs_files w)"
    using write_completed_spans_ok [of env _ imp w w1] write_run_json_ok [of env _ "imp_run imp" w1 w']
    by (auto simp: session_files_def split: option.splits)
  show "tse_run_json_path self \<noteq> None \<or> tse_completed_span_jsonl_path self \<noteq> None \<Longrightarrow> run_requests (imp_run imp) \<noteq> []"
    using assms unfolding write_outputs_def
    by (auto simp: ensure_persistable_run_with_warnings_def ensure_persistable_run_has_requests_def
        split: if_splits sum.splits)
qed

text \<open>
  The clock after the snapshot is not compared with the start of the run: if it was set back
  during the session, the persisted run has an inverted interval.
\<close>

lemma session_finalized_before_start:
  assumes "session_shutdown env now later finalized self w = (w', Some (Inr imp))"
    and "finalized < md_started_at_unix_ms (run_metadata (imp_run imp))"
  shows "validate_run_strict (imp_run imp) \<noteq> Inr ()"
  using assms(2) session_shutdown_run [OF assms(1)] by (auto simp: not_less [symmetric])

section \<open>A session with both files\<close>

definition sample_output :: output_env where
  "sample_output = \<lparr>oe_pieces = codec_pieces, oe_to_json = (\<lambda>run. ''{}''), oe_pid = 7, oe_span_file = codec_answers,
     oe_run_dir = None\<rparr>"

definition sample_run_path :: path where
  "sample_run_path = \<lparr>path_parent = Some ''runs'', path_file_name = Some ''run.json''\<rparr>"

definition sample_session :: TracingSession where
  "sample_session = \<lparr>tse_recorder = sample_recorder, tse_completed_span_jsonl_path = Some codec_path,
     tse_run_json_path = Some sample_run_path, tse_runtime_collector = None, tse_sampler = None\<rparr>"

definition empty_world :: fs_world where
  "empty_world = \<lparr>fs_files = (\<lambda>_. None), fs_script = []\<rparr>"

lemma sample_write_spans:
  assumes "run_requests (imp_run imp) \<noteq> []" "imp_retained_sources imp = [sample_recorded]"
  shows "write_completed_spans sample_output codec_path imp empty_world
     = (empty_world\<lparr>fs_files := [codec_path \<mapsto> file_bytes codec_pieces [sample_recorded]]\<rparr>, Inr ())"
proof -
  obtain files r where f: "write_completed_span_jsonl_with_limit codec_pieces 7 codec_answers [sample_recorded] codec_path
      MAX_JSONL_RECORD_BYTES (\<lambda>_. None) = (files, r)" by (rule prod.exhaust)
  have "list_all (\<lambda>s. length (record_bytes codec_pieces s) \<le> MAX_JSONL_RECORD_BYTES) [sample_recorded]"
    by (simp add: record_bytes_def codec_pieces_def codec_name sample_recorded_eq span_new_def MAX_JSONL_RECORD_BYTES_def)
  from write_free [OF _ _ this, of codec_answers "\<lambda>_. None" 7 codec_path] have "r = Inr ()"
    unfolding f by (simp add: answers_well_def codec_answers_def)
  with completed_span_file_fact [where pieces = codec_pieces and pid = 7 and os = codec_answers
      and spans = "[sample_recorded]" and path = codec_path and limit = MAX_JSONL_RECORD_BYTES and files = "\<lambda>_. None"] f assms
  show ?thesis
    by (simp add: write_completed_spans_def validate_completed_span_jsonl_retained_sources_def sample_output_def
        empty_world_def)
qed

lemma no_spans_no_requests:
  assumes "run_from_span_records now later [] options = Some (Inr imp)"
  shows "run_requests (imp_run imp) = []"
proof -
  have "run_requests (cleared (imp_run imp)) = run_requests (expected_run later options [])"
    using import_refines_fact [OF assms] by simp
  then show ?thesis
    by (simp add: cleared_sections expected_run_def imported_sections_def candidate_events_def event_lists List.map_filter_simps)
qed

lemma sample_retained:
  assumes "run_from_span_records 1 2 [sample_recorded] (io_set_strict True sample_import_options) = Some (Inr imported)"
  shows "run_requests (imp_run imported) \<noteq> [] \<and> imp_retained_sources imported = [sample_recorded]"
proof -
  note fact = import_refines_fact [OF assms]
  have "run_requests (cleared (imp_run imported)) = run_requests (expected_run 2 (io_set_strict True sample_import_options) [sample_recorded])"
    using fact by simp
  moreover have "max_requests (resolved_capture_limits sample_import_options) = 1"
    by (simp add: resolved_capture_limits_def sample_import_options_def io_set_capture_limits_def)
  then have "fst (imported_sections (resolved_capture_limits sample_import_options) [sample_recorded]) \<noteq> []"
    by (simp add: sample_recorded_canonical candidate_events_def event_lists List.map_filter_simps
        sample_recorded_candidate)
  ultimately have requests: "run_requests (imp_run imported) \<noteq> []"
    by (simp add: cleared_sections expected_run_def split: prod.splits)
  obtain imp' where imp':
    "run_from_span_records 1 2 (imp_retained_sources imported) (io_set_strict False (io_set_strict True sample_import_options))
       = Some (Inr imp')"
    "cleared (imp_run imp') = (cleared (imp_run imported))\<lparr>run_truncation := truncation_default\<rparr>"
    using reimport_fact [OF assms, of 1] by blast
  have "run_requests (cleared (imp_run imp')) = run_requests (cleared (imp_run imported))" by (simp add: imp'(2))
  then have "run_requests (imp_run imp') = run_requests (imp_run imported)" by (simp only: cleared_sections)
  then have "imp_retained_sources imported \<noteq> []" using requests imp'(1) no_spans_no_requests by metis
  then have "imp_retained_sources imported = [sample_recorded]"
    using fact by (cases "imp_retained_sources imported") (auto split: if_splits dest: list_emb_length)
  with requests show ?thesis by blast
qed

lemma sample_shutdown: "\<exists>w' imp. session_shutdown sample_output 1 2 20 sample_session empty_world = (w', Some (Inr imp))"
proof -
  obtain imported where imported:
    "run_from_span_records 1 2 [sample_recorded] (io_set_strict True sample_import_options) = Some (Inr imported)"
    "recorder_snapshot_run 1 2 sample_recorder = Some (Inr (mark_imported_run_active imported))"
    using sample_snapshot by blast
  let ?imp = "finalize_live_imported_run_at (mark_imported_run_active imported) 20"
  have "run_requests (imp_run imported) \<noteq> []" "imp_retained_sources imported = [sample_recorded]"
    using sample_retained [OF imported(1)] by simp_all
  then have requests: "run_requests (imp_run ?imp) \<noteq> []" "imp_retained_sources ?imp = [sample_recorded]"
    using set_finalized_run [where imp = imported and t = None]
      set_finalized_run [where imp = "mark_imported_run_active imported" and t = "Some 20"]
    by (simp_all add: finalize_live_imported_run_at_def mark_imported_run_active_def carries_def)
  have "write_run_json sample_output sample_run_path run (empty_world\<lparr>fs_files := [codec_path \<mapsto> bytes]\<rparr>)
      = (fst (local_json_write (\<lambda>run. ''{}'') 7 sample_run_path (empty_world\<lparr>fs_files := [codec_path \<mapsto> bytes]\<rparr>) run), Inr ())"
    for run bytes
    by (simp add: write_run_json_def sample_output_def create_output_parent_dir_def sample_run_path_def
        local_json_write_def write_attempt_def no_faults_def empty_world_def create_temp_path_def codec_path_def Let_def)
  then have "snd (write_outputs sample_output sample_session ?imp empty_world) = Inr ()"
    using sample_write_spans [OF requests] requests(1)
    by (simp add: write_outputs_def sample_session_def ensure_persistable_run_with_warnings_def
        ensure_persistable_run_has_requests_def)
  then obtain w1 where "write_outputs sample_output sample_session ?imp empty_world = (w1, Inr ())"
    by (metis prod.collapse)
  moreover have "session_snapshot_run 1 2 sample_session = Some (Inr (mark_imported_run_active imported))"
    using imported(2) by (simp add: session_snapshot_run_def merge_session_runtime_def sample_session_def)
  ultimately show ?thesis by (simp add: session_shutdown_def Let_def)
qed

section \<open>Properties\<close>

text \<open>
  C14. A successful shutdown of a session wrote exactly the configured files: the completed-span
  file with one line per retained source, the run file with the returned run, and no other file
  changed; with a file configured the run has a request. The run is stamped with the clock, and
  strict validation accepts it exactly when the run id is not blank, the clock is not before the
  start of the run, and no runtime snapshot claims zero workers.
\<close>

theorem session_shutdown_persists:
  assumes "session_shutdown env now later finalized self w = (w', Some (Inr imp))"
  shows "fs_files w' = session_files env self imp (fs_files w) \<and>
    (tse_run_json_path self \<noteq> None \<or> tse_completed_span_jsonl_path self \<noteq> None \<longrightarrow> run_requests (imp_run imp) \<noteq> []) \<and>
    md_finalized_at_unix_ms (run_metadata (imp_run imp)) = Some finalized \<and>
    (validate_run_strict (imp_run imp) = Inr () \<longleftrightarrow>
       \<not> blank_run_id (lr_options (tse_recorder self)) \<and> md_started_at_unix_ms (run_metadata (imp_run imp)) \<le> finalized \<and>
       list_all (\<lambda>t. rts_worker_count t \<noteq> Some 0) (run_runtime_snapshots (imp_run imp)))"
proof -
  from session_shutdown_cases [OF assms] obtain snap where
    "imp = finalize_live_imported_run_at (merge_session_runtime self snap) finalized"
    and w: "write_outputs env self imp w = (w', Inr ())" by blast
  then have "md_finalized_at_unix_ms (run_metadata (imp_run imp)) = Some finalized"
    by (simp add: finalize_live_imported_run_at_def set_finalized_run(3))
  with write_outputs_ok [OF w] session_shutdown_run [OF assms] show ?thesis by blast
qed

lemma session_shutdown_persists_witness:
  "\<exists>w' imp. session_shutdown sample_output 1 2 20 sample_session empty_world = (w', Some (Inr imp)) \<and>
     fs_files w' sample_run_path = Some ''{}'' \<and> md_finalized_at_unix_ms (run_metadata (imp_run imp)) = Some 20"
proof -
  obtain w' imp where s: "session_shutdown sample_output 1 2 20 sample_session empty_world = (w', Some (Inr imp))"
    using sample_shutdown by blast
  from session_shutdown_persists [OF s] s show ?thesis
    by (auto simp: session_files_def sample_session_def sample_output_def)
qed

end
