(* ===== verification/Ax_Middleware.thy ===== *)
theory Ax_Middleware
  imports Core_Lifecycle
begin

text \<open>
  The axum adapter (\<^verbatim>\<open>tailtriage-axum/src/lib.rs\<close>): the label of a request, the classification of
  response statuses, the extractor and the middleware as what happens before the inner service
  runs and after it ended. An HTTP request is what the adapter reads of it, and its slot for the
  handle; a response is its status.
\<close>

section \<open>Requests, statuses and the extractor\<close>

record http_request =
  hr_matched_path :: "string option"
  hr_uri_path :: string
  hr_extension :: "RequestHandle option"

definition request_route_label :: "http_request \<Rightarrow> string" where
  "request_route_label request =
     (case hr_matched_path request of None \<Rightarrow> hr_uri_path request | Some p \<Rightarrow> p)"

text \<open>What the adapter uses of \<^verbatim>\<open>http::StatusCode\<close>, and the documented meaning of it by number.\<close>

record 's status_codes =
  sc_REQUEST_TIMEOUT :: 's
  sc_INTERNAL_SERVER_ERROR :: 's
  sc_is_server_error :: "'s \<Rightarrow> bool"
  sc_is_client_error :: "'s \<Rightarrow> bool"

definition documented_codes :: "'s status_codes \<Rightarrow> ('s \<Rightarrow> nat) \<Rightarrow> bool" where
  "documented_codes codes as_u16 \<longleftrightarrow>
     (\<forall>s. s = sc_REQUEST_TIMEOUT codes \<longleftrightarrow> as_u16 s = 408) \<and>
     (\<forall>s. sc_is_server_error codes s \<longleftrightarrow> as_u16 s \<in> {500..599}) \<and>
     (\<forall>s. sc_is_client_error codes s \<longleftrightarrow> as_u16 s \<in> {400..499})"

definition default_status_to_outcome :: "'s status_codes \<Rightarrow> 's \<Rightarrow> Outcome" where
  "default_status_to_outcome codes status =
     (if status = sc_REQUEST_TIMEOUT codes then OutcomeTimeout
      else if sc_is_server_error codes status then OutcomeError
      else if sc_is_client_error codes status then OutcomeRejected
      else OutcomeOk)"

datatype TailtriageExtractorError = TailtriageExtractorError

definition from_request_parts :: "http_request \<Rightarrow> TailtriageExtractorError + RequestHandle" where
  "from_request_parts parts =
     (case hr_extension parts of Some handle \<Rightarrow> Inr handle | None \<Rightarrow> Inl TailtriageExtractorError)"

definition extractor_error_response :: "'s status_codes \<Rightarrow> TailtriageExtractorError \<Rightarrow> 's \<times> string" where
  "extractor_error_response codes self = (sc_INTERNAL_SERVER_ERROR codes, ''tailtriage extractor missing. Add tailtriage_axum::middleware.'')"

section \<open>The middleware\<close>

text \<open>Up to the call of the inner service: the request it gets and the completion token kept.\<close>

definition middleware_before :: "clock_reading \<Rightarrow> clock_reading \<Rightarrow> http_request \<Rightarrow> statics \<Rightarrow> ('c, 'l) Tailtriage
    \<Rightarrow> http_request \<times> ArmedCompletion option \<times> statics \<times> ('c, 'l) Tailtriage \<times> 'l list" where
  "middleware_before now1 now2 request st tailtriage =
     (let route = request_route_label request;
          (started, st, tailtriage, calls) =
            begin_request_with now1 now2 route (request_options_kind ''http'' request_options_new) st tailtriage
      in (request\<lparr>hr_extension := Some (sr_handle started)\<rparr>, sr_completion started, st, tailtriage, calls))"

text \<open>After it: \<open>None\<close> when the future was dropped or unwound instead of returning a status.\<close>

definition middleware_after :: "('s \<Rightarrow> Outcome) \<Rightarrow> clock_reading \<Rightarrow> 's option \<Rightarrow> ArmedCompletion option
    \<Rightarrow> ('c, 'l) Tailtriage \<Rightarrow> ('c, 'l) Tailtriage \<times> 'l list" where
  "middleware_after classify_status now ended completion tailtriage =
     (case ended of
        Some status \<Rightarrow> completion_finish now (classify_status status) completion tailtriage
      | None \<Rightarrow> completion_drop now completion tailtriage)"

text \<open>
  The whole middleware: the inner service answers, for the request and the collector it finds,
  with its status and the collector it leaves.
\<close>

definition run_middleware_with_status_classifier :: "('s \<Rightarrow> Outcome)
    \<Rightarrow> (http_request \<Rightarrow> ('c, 'l) Tailtriage \<Rightarrow> 's option \<times> ('c, 'l) Tailtriage \<times> 'l list)
    \<Rightarrow> clock_reading \<Rightarrow> clock_reading \<Rightarrow> clock_reading \<Rightarrow> http_request \<Rightarrow> statics \<Rightarrow> ('c, 'l) Tailtriage
    \<Rightarrow> 's option \<times> statics \<times> ('c, 'l) Tailtriage \<times> 'l list" where
  "run_middleware_with_status_classifier classify_status run_inner now1 now2 now3 request st tailtriage =
     (let (request, completion, st, tailtriage, calls1) = middleware_before now1 now2 request st tailtriage;
          (ended, tailtriage, calls2) = run_inner request tailtriage;
          (tailtriage, calls3) = middleware_after classify_status now3 ended completion tailtriage
      in (ended, st, tailtriage, calls1 @ calls2 @ calls3))"

definition middleware where
  "middleware codes = run_middleware_with_status_classifier (default_status_to_outcome codes)"

definition http_outcome :: "nat option \<Rightarrow> string" where
  "http_outcome ended = (case ended of
       None \<Rightarrow> ''cancelled''
     | Some s \<Rightarrow> if s = 408 then ''timeout'' else if s \<in> {400..499} then ''rejected''
         else if s \<in> {500..599} then ''error'' else ''ok'')"

lemma http_outcome_classified:
  assumes "documented_codes codes as_u16"
  shows "outcome_into_string (case ended of None \<Rightarrow> OutcomeCancelled | Some s \<Rightarrow> default_status_to_outcome codes s)
    = http_outcome (map_option as_u16 ended)"
  using assms unfolding documented_codes_def
  by (cases ended) (auto simp: http_outcome_def default_status_to_outcome_def)

section \<open>What a served request leaves in the run\<close>

definition admits :: "('c, 'l) Tailtriage \<Rightarrow> bool" where
  "admits self \<longleftrightarrow> is_open self \<and>
     length (run_requests (tt_run self)) + length (cs_pending_requests (tt_state self)) < max_requests (tt_limits self)"

abbreviation pending_entry :: "('c, 'l) Tailtriage \<Rightarrow> u64 \<Rightarrow> PendingRequest option" where
  "pending_entry self key \<equiv> bt_lookup (cs_pending_requests (tt_state self)) key"

lemma middleware_before_cases:
  fixes tt :: "('c, 'l) Tailtriage"
  assumes "middleware_before now1 now2 request st tt = (request', completion, st', tt1, calls)" and "collector_inv tt"
  shows "\<exists>handle. hr_extension request' = Some handle \<and> rh_route handle = request_route_label request
      \<and> rh_kind handle = Some ''http'' \<and> rh_admitted handle = (completion \<noteq> None)"
    and "(completion \<noteq> None) = admits tt"
    and "completion = Some armed \<Longrightarrow> \<exists>pending. pending_entry tt1 (ac_pending_key armed) = Some pending
      \<and> pr_route pending = request_route_label request \<and> pr_kind pending = Some ''http''"
  using assms collector_invD(3) [OF assms(2)]
  by (auto simp: middleware_before_def begin_request_with_def start_request_def generate_request_id_def Let_def
      admits_def request_options_kind_def request_options_new_def bt_insert_def bt_lookup_entry split: if_splits prod.splits)

lemma middleware_after_records:
  assumes "collector_inv tt" "is_open tt" "pending_entry tt (ac_pending_key armed) = Some pending"
  shows "\<exists>e. run_requests (tt_run (fst (middleware_after classify now ended (Some armed) tt))) = run_requests (tt_run tt) @ [e]
    \<and> req_route e = pr_route pending \<and> req_kind e = pr_kind pending
    \<and> req_outcome e = outcome_into_string (case ended of None \<Rightarrow> OutcomeCancelled | Some s \<Rightarrow> classify s)"
  using resolve_request_open [OF assms]
  by (cases ended) (simp_all add: middleware_after_def completion_finish_def completion_drop_def
      request_event_from_finished_interval_def)

text \<open>
  C31. The middleware records every HTTP request once: the inner service can extract the handle of
  the request, labelled with the matched route or else the path; when the inner service leaves
  the collector open and the request's own admission in place, whatever else it recorded, the
  run gains exactly one request event after it ended, with that label, kind http and the outcome
  of the status table, or cancelled when the future was dropped; a request refused for capacity
  leaves none.
\<close>

theorem http_request_recorded_once:
  assumes "middleware_before now1 now2 request st tt = (request', completion, st', tt1, calls)" and "collector_inv tt"
    and "collector_inv tt2" "is_open tt2"
    and "documented_codes codes as_u16"
    and "\<forall>armed. completion = Some armed \<longrightarrow>
        pending_entry tt2 (ac_pending_key armed) = pending_entry tt1 (ac_pending_key armed)"
  shows "(\<exists>handle. from_request_parts request' = Inr handle \<and> rh_route handle = request_route_label request
      \<and> rh_admitted handle = admits tt) \<and>
    (\<exists>recorded. run_requests (tt_run (fst (middleware_after (default_status_to_outcome codes) now3 ended completion tt2)))
        = run_requests (tt_run tt2) @ recorded \<and>
      map (\<lambda>e. (req_route e, req_kind e, req_outcome e)) recorded
        = (if admits tt then [(request_route_label request, Some ''http'', http_outcome (map_option as_u16 ended))] else []))"
proof
  note before = middleware_before_cases [OF assms(1,2)]
  show "\<exists>handle. from_request_parts request' = Inr handle \<and> rh_route handle = request_route_label request
      \<and> rh_admitted handle = admits tt"
    using before(1,2) by (auto simp: from_request_parts_def)
  show "\<exists>recorded. run_requests (tt_run (fst (middleware_after (default_status_to_outcome codes) now3 ended completion tt2)))
        = run_requests (tt_run tt2) @ recorded \<and>
      map (\<lambda>e. (req_route e, req_kind e, req_outcome e)) recorded
        = (if admits tt then [(request_route_label request, Some ''http'', http_outcome (map_option as_u16 ended))] else [])"
  proof (cases completion)
    case None
    then show ?thesis
      using before(2) by (cases ended) (simp_all add: middleware_after_def completion_finish_def completion_drop_def)
  next
    case (Some armed)
    obtain pending where p: "pending_entry tt1 (ac_pending_key armed) = Some pending"
      "pr_route pending = request_route_label request" "pr_kind pending = Some ''http''"
      using before(3) [OF Some] by blast
    have "pending_entry tt2 (ac_pending_key armed) = Some pending" using assms(6) Some p(1) by simp
    from middleware_after_records [OF assms(3,4) this, of "default_status_to_outcome codes" now3 ended]
    obtain e where e: "run_requests (tt_run (fst (middleware_after (default_status_to_outcome codes) now3 ended (Some armed) tt2)))
        = run_requests (tt_run tt2) @ [e]" "req_route e = pr_route pending" "req_kind e = pr_kind pending"
      "req_outcome e = http_outcome (map_option as_u16 ended)"
      unfolding http_outcome_classified [OF assms(5)] by blast
    have "admits tt" using before(2) Some by simp
    then show ?thesis using e p(2,3) unfolding Some by (intro exI [of _ "[e]"]) simp
  qed
qed

text \<open>A request to an unmatched path, answered 503 by a service that records nothing.\<close>

definition sample_http_request :: http_request where
  "sample_http_request = \<lparr>hr_matched_path = None, hr_uri_path = ''/pay'', hr_extension = None\<rparr>"

lemma sample_collector_ready: "collector_inv sample_collector" "admits sample_collector"
proof -
  show "collector_inv sample_collector" using collector_inv_from_config [OF sample_from_config] by simp
  show "admits sample_collector"
    using sample_start_state(1-5) by (simp add: sample_start_def sys_init_def admits_def)
qed

definition sample_codes :: "nat status_codes" where
  "sample_codes = \<lparr>sc_REQUEST_TIMEOUT = 408, sc_INTERNAL_SERVER_ERROR = 500,
     sc_is_server_error = (\<lambda>s. 500 \<le> s \<and> s < 600), sc_is_client_error = (\<lambda>s. 400 \<le> s \<and> s < 500)\<rparr>"

lemma sample_codes_documented: "documented_codes sample_codes id"
  by (auto simp: documented_codes_def sample_codes_def)

lemma http_request_recorded_once_witness:
  "\<exists>request' completion st' tt1 calls e.
     middleware_before sample_now sample_now sample_http_request \<lparr>REQUEST_SEQUENCE = 0, PENDING_SEQUENCE = 0\<rparr>
       sample_collector = (request', completion, st', tt1, calls) \<and>
     run_requests (tt_run (fst (middleware_after (default_status_to_outcome sample_codes) sample_now (Some 503) completion tt1))) =
       run_requests (tt_run tt1) @ [e] \<and> req_route e = ''/pay'' \<and> req_outcome e = ''error''"
proof -
  obtain request' completion st' tt1 calls where b:
    "middleware_before sample_now sample_now sample_http_request \<lparr>REQUEST_SEQUENCE = 0, PENDING_SEQUENCE = 0\<rparr>
       sample_collector = (request', completion, st', tt1, calls)"
    by (metis prod.exhaust)
  have tt1: "collector_inv tt1 \<and> is_open tt1"
  proof -
    have "(tt1, calls) = start_op (sample_now, sample_now, ''/pay'', request_options_kind ''http'' request_options_new,
        \<lparr>REQUEST_SEQUENCE = 0, PENDING_SEQUENCE = 0\<rparr>) sample_collector"
      using b by (auto simp: middleware_before_def begin_request_with_def start_op_def Let_def sample_http_request_def
          request_route_label_def split: prod.splits)
    then have "op_ok sample_collector (tt1, calls)" using start_op.ok [OF sample_collector_ready(1)] by simp
    then show ?thesis
      using sample_collector_ready(2) by (simp add: op_ok_def collector_frame_def admits_def)
  qed
  from http_request_recorded_once [OF b sample_collector_ready(1) conjunct1 [OF tt1] conjunct2 [OF tt1] sample_codes_documented, of sample_now "Some 503"]
    sample_collector_ready(2)
  obtain recorded where r:
    "run_requests (tt_run (fst (middleware_after (default_status_to_outcome sample_codes) sample_now (Some 503) completion tt1)))
        = run_requests (tt_run tt1) @ recorded"
    "map (\<lambda>e. (req_route e, req_kind e, req_outcome e)) recorded = [(''/pay'', Some ''http'', ''error'')]"
    by (auto simp: sample_http_request_def request_route_label_def http_outcome_def)
  from r(2) obtain e where "recorded = [e]" "req_route e = ''/pay''" "req_outcome e = ''error''" by auto
  with b r(1) show ?thesis by blast
qed

end
