(* ===== verification/Tk_Requests.thy ===== *)
theory Tk_Requests
  imports Core_Lifecycle
begin

text \<open>
  The request helpers of the Tokio crate (\<^verbatim>\<open>tailtriage-tokio/src/lib.rs\<close>): each awaits one Tokio
  operation under a queue or stage timer of the core (\<^verbatim>\<open>await_on\<close> in \<^verbatim>\<open>timers.rs\<close>), here as the
  state machine that polling drives on a collector. A Tokio operation is any future, given by its
  poll; a poll also gives the collector as it is when the helper runs again, whatever the
  operation and other threads have done to it meanwhile. The property says what a helper records
  in the run and returns under every sequence of polls and a drop.
\<close>

section \<open>Awaiting under a timer (\<^verbatim>\<open>timers.rs\<close>)\<close>

datatype 'o poll = Pending | Ready 'o

text \<open>A future: its poll gives its new state, what it answers, and the collector as it is afterwards.\<close>

type_synonym ('f, 'o, 'c, 'l) pollable =
  "'f \<Rightarrow> ('c, 'l) Tailtriage \<Rightarrow> 'f \<times> 'o poll \<times> ('c, 'l) Tailtriage"

record StageTimer =
  stt_enabled :: bool
  stt_request_id :: string
  stt_stage :: string

record QueueTimer =
  qut_enabled :: bool
  qut_request_id :: string
  qut_queue :: string
  qut_depth_at_start :: "u64 option"

datatype timer = TimerStage StageTimer | TimerQueue QueueTimer

definition handle_stage :: "string \<Rightarrow> RequestHandle \<Rightarrow> StageTimer" where
  "handle_stage stage handle =
     \<lparr>stt_enabled = rh_admitted handle, stt_request_id = rh_request_id handle, stt_stage = stage\<rparr>"

definition handle_queue :: "string \<Rightarrow> RequestHandle \<Rightarrow> QueueTimer" where
  "handle_queue queue handle =
     \<lparr>qut_enabled = rh_admitted handle, qut_request_id = rh_request_id handle, qut_queue = queue,
      qut_depth_at_start = None\<rparr>"

definition with_depth_at_start :: "u64 \<Rightarrow> QueueTimer \<Rightarrow> QueueTimer" where
  "with_depth_at_start depth self = self\<lparr>qut_depth_at_start := Some depth\<rparr>"

fun timer_arm :: "RunClock \<Rightarrow> clock_reading \<Rightarrow> timer \<Rightarrow> ArmedTimerRecord option" where
  "timer_arm clock now (TimerStage t) =
     (if stt_enabled t then Some (ArmedStage (stt_request_id t) (stt_stage t) (start_interval clock now)) else None)"
| "timer_arm clock now (TimerQueue t) =
     (if qut_enabled t
      then Some (ArmedQueue (qut_request_id t) (qut_queue t) (qut_depth_at_start t) (start_interval clock now))
      else None)"

text \<open>The future that \<^verbatim>\<open>await_on\<close> returns: not polled yet, waiting under its guard, or over.\<close>

datatype 'f awaiting = AwNew timer 'f | AwWaiting "ArmedTimerRecord option" 'f | AwDone

text \<open>
  When the operation is ready, the guard is disarmed and the timer recorded with the success of
  the result; when the future is dropped while it waits, the guard records a partial event. Both
  record in the collector and may fire its listener. Polling a future that is over panics.
\<close>

definition await_inner :: "('f, 'o, 'c, 'l) pollable \<Rightarrow> ('o \<Rightarrow> bool) \<Rightarrow> clock_reading \<Rightarrow> ArmedTimerRecord option \<Rightarrow> 'f
    \<Rightarrow> ('c, 'l) Tailtriage \<Rightarrow> 'f awaiting \<times> 'o poll \<times> ('c, 'l) Tailtriage \<times> 'l list" where
  "await_inner poll_inner success now guard fut self =
     (case poll_inner fut self of
        (fut, Pending, self) \<Rightarrow> (AwWaiting guard fut, Pending, self, [])
      | (fut, Ready v, self) \<Rightarrow>
          (AwDone, Ready v, case guard of None \<Rightarrow> (self, []) | Some armed \<Rightarrow> timer_ready now (success v) armed self))"

fun await_poll :: "('f, 'o, 'c, 'l) pollable \<Rightarrow> ('o \<Rightarrow> bool) \<Rightarrow> clock_reading \<Rightarrow> clock_reading \<Rightarrow> 'f awaiting
    \<Rightarrow> ('c, 'l) Tailtriage \<Rightarrow> ('f awaiting \<times> 'o poll \<times> ('c, 'l) Tailtriage \<times> 'l list) option" where
  "await_poll poll_inner success now1 now2 (AwNew timer fut) self =
     Some (await_inner poll_inner success now2 (timer_arm (tt_run_clock self) now1 timer) fut self)"
| "await_poll poll_inner success now1 now2 (AwWaiting guard fut) self =
     Some (await_inner poll_inner success now2 guard fut self)"
| "await_poll poll_inner success now1 now2 AwDone self = None"

fun await_drop :: "clock_reading \<Rightarrow> 'f awaiting \<Rightarrow> ('c, 'l) Tailtriage \<Rightarrow> ('c, 'l) Tailtriage \<times> 'l list" where
  "await_drop now (AwWaiting (Some armed) fut) self = timer_drop now armed self"
| "await_drop now _ self = (self, [])"

section \<open>The helpers (\<^verbatim>\<open>tailtriage-tokio/src/lib.rs\<close>)\<close>

text \<open>
  Each helper by the Tokio operation it awaits. The queue helpers await the operation itself; the
  timeout and the blocking stage await a block that starts it on its first poll.
\<close>

definition semaphore :: "string \<Rightarrow> 'f \<Rightarrow> RequestHandle \<Rightarrow> 'f awaiting" where
  "semaphore queue acquire self = AwNew (TimerQueue (handle_queue queue self)) acquire"

definition owned_semaphore :: "string \<Rightarrow> 'f \<Rightarrow> RequestHandle \<Rightarrow> 'f awaiting" where
  "owned_semaphore queue acquire_owned self = AwNew (TimerQueue (handle_queue queue self)) acquire_owned"

definition mpsc_send :: "string \<Rightarrow> 'f \<Rightarrow> RequestHandle \<Rightarrow> 'f awaiting" where
  "mpsc_send queue send self = AwNew (TimerQueue (handle_queue queue self)) send"

definition mutex_lock :: "string \<Rightarrow> 'f \<Rightarrow> RequestHandle \<Rightarrow> 'f awaiting" where
  "mutex_lock queue lock self = AwNew (TimerQueue (handle_queue queue self)) lock"

definition rwlock_read :: "string \<Rightarrow> 'f \<Rightarrow> RequestHandle \<Rightarrow> 'f awaiting" where
  "rwlock_read queue read self = AwNew (TimerQueue (handle_queue queue self)) read"

definition rwlock_write :: "string \<Rightarrow> 'f \<Rightarrow> RequestHandle \<Rightarrow> 'f awaiting" where
  "rwlock_write queue wr self = AwNew (TimerQueue (handle_queue queue self)) wr"

definition join_task :: "string \<Rightarrow> 'f \<Rightarrow> RequestHandle \<Rightarrow> 'f awaiting" where
  "join_task stage handle self = AwNew (TimerStage (handle_stage stage self)) handle"

text \<open>An async block: its operation does not exist before the first poll.\<close>

datatype 'f block = BlockNew | BlockRunning 'f

definition block_poll :: "'f \<Rightarrow> ('f, 'o, 'c, 'l) pollable \<Rightarrow> ('f block, 'o, 'c, 'l) pollable" where
  "block_poll op_start poll_inner b self =
     apfst BlockRunning (poll_inner (case b of BlockNew \<Rightarrow> op_start | BlockRunning fut \<Rightarrow> fut) self)"

definition timeout_stage :: "string \<Rightarrow> RequestHandle \<Rightarrow> 'f block awaiting" where
  "timeout_stage stage self = AwNew (TimerStage (handle_stage stage self)) BlockNew"

definition blocking_stage :: "string \<Rightarrow> RequestHandle \<Rightarrow> 'f block awaiting" where
  "blocking_stage stage self = AwNew (TimerStage (handle_stage stage self)) BlockNew"

section \<open>Driving a helper\<close>

text \<open>
  An executor polls the future, at two clock readings each, until it is ready or no longer
  polled, and then drops it. The result: the output, if any, the collector, and the listener
  calls of the helper.
\<close>

fun drive :: "('f, 'o, 'c, 'l) pollable \<Rightarrow> ('o \<Rightarrow> bool) \<Rightarrow> (clock_reading \<times> clock_reading) list \<Rightarrow> clock_reading
    \<Rightarrow> 'f awaiting \<Rightarrow> ('c, 'l) Tailtriage \<Rightarrow> ('o option \<times> ('c, 'l) Tailtriage \<times> 'l list) option" where
  "drive poll_inner success [] dropped_at aw self = Some (None, await_drop dropped_at aw self)"
| "drive poll_inner success ((now1, now2) # polls) dropped_at aw self =
     (case await_poll poll_inner success now1 now2 aw self of
        None \<Rightarrow> None
      | Some (aw, Ready v, self, calls) \<Rightarrow>
          Some (Some v, apsnd (\<lambda>later. calls @ later) (await_drop dropped_at aw self))
      | Some (aw, Pending, self, calls) \<Rightarrow>
          map_option (apsnd (apsnd (\<lambda>later. calls @ later))) (drive poll_inner success polls dropped_at aw self))"

text \<open>
  The bare operation under the same polls: its output with the reading of the clock then, and the
  collector it leaves.
\<close>

fun bare :: "('f, 'o, 'c, 'l) pollable \<Rightarrow> (clock_reading \<times> clock_reading) list \<Rightarrow> 'f \<Rightarrow> ('c, 'l) Tailtriage
    \<Rightarrow> (clock_reading \<times> 'o) option \<times> ('c, 'l) Tailtriage" where
  "bare poll_inner [] fut self = (None, self)"
| "bare poll_inner ((now1, now2) # polls) fut self =
     (case poll_inner fut self of
        (fut, Ready v, self) \<Rightarrow> (Some (now2, v), self)
      | (fut, Pending, self) \<Rightarrow> bare poll_inner polls fut self)"

text \<open>How a guard ends after the operation did or did not get ready.\<close>

definition guard_end :: "('o \<Rightarrow> bool) \<Rightarrow> clock_reading \<Rightarrow> (clock_reading \<times> 'o) option \<Rightarrow> ArmedTimerRecord option
    \<Rightarrow> ('c, 'l) Tailtriage \<Rightarrow> ('c, 'l) Tailtriage \<times> 'l list" where
  "guard_end success dropped_at outcome guard self = (case guard of
       None \<Rightarrow> (self, [])
     | Some armed \<Rightarrow> (case outcome of
           Some (now, v) \<Rightarrow> timer_ready now (success v) armed self
         | None \<Rightarrow> timer_drop dropped_at armed self))"

lemma no_earlier_calls [simp]: "apsnd ((@) []) y = y" "map_option (apsnd (apsnd ((@) []))) x = x"
  by (cases y, simp) (cases x, auto)

lemma drive_waiting:
  "drive poll_inner success polls dropped_at (AwWaiting guard fut) self =
     (let (outcome, left) = bare poll_inner polls fut self
      in Some (map_option snd outcome, guard_end success dropped_at outcome guard left))"
proof (induction polls arbitrary: fut self guard)
  case Nil
  then show ?case by (cases guard) (simp_all add: guard_end_def)
next
  case (Cons p polls)
  obtain now1 now2 where p: "p = (now1, now2)" by (cases p)
  obtain fut' r self' where f: "poll_inner fut self = (fut', r, self')" by (metis prod_cases3)
  show ?case
    by (cases r; cases guard)
      (simp_all add: p f Cons.IH await_inner_def guard_end_def split_beta Let_def
        cong: option.case_cong)
qed

lemma drive_new:
  "drive poll_inner success polls dropped_at (AwNew timer fut) self =
     (let (outcome, left) = bare poll_inner polls fut self
      in Some (map_option snd outcome, guard_end success dropped_at outcome
         (case polls of [] \<Rightarrow> None | (now1, _) # _ \<Rightarrow> timer_arm (tt_run_clock self) now1 timer) left))"
proof (cases polls)
  case Nil
  then show ?thesis by (simp add: guard_end_def)
next
  case (Cons p ps)
  obtain now1 now2 where p: "p = (now1, now2)" by (cases p)
  obtain fut' r self' where f: "poll_inner fut self = (fut', r, self')" by (metis prod_cases3)
  show ?thesis
    by (cases r; cases "timer_arm (tt_run_clock self) now1 timer")
      (simp_all add: Cons p f await_inner_def drive_waiting guard_end_def split_beta Let_def
        cong: option.case_cong)
qed

text \<open>The operation inside a block: the same outcome as from its start.\<close>

lemma block_poll_simps:
  "block_poll op_start poll_inner BlockNew self = apfst BlockRunning (poll_inner op_start self)"
  "block_poll op_start poll_inner (BlockRunning fut) self = apfst BlockRunning (poll_inner fut self)"
  by (simp_all add: block_poll_def)

lemma bare_block:
  "bare (block_poll op_start poll_inner) polls (BlockRunning fut) self = bare poll_inner polls fut self"
proof (induction polls arbitrary: fut self)
  case (Cons p polls)
  obtain now1 now2 where p: "p = (now1, now2)" by (cases p)
  obtain fut' r self' where f: "poll_inner fut self = (fut', r, self')" by (metis prod_cases3)
  show ?case by (cases r) (simp_all add: p f Cons.IH block_poll_simps)
qed simp

lemma bare_block_new:
  "bare (block_poll op_start poll_inner) polls BlockNew self = bare poll_inner polls op_start self"
proof (cases polls)
  case (Cons p ps)
  obtain now1 now2 where p: "p = (now1, now2)" by (cases p)
  obtain fut' r self' where f: "poll_inner op_start self = (fut', r, self')" by (metis prod_cases3)
  show ?thesis by (cases r) (simp_all add: Cons p f block_poll_simps bare_block)
qed simp

section \<open>Property\<close>

definition queue_helpers :: "(string \<Rightarrow> 'f \<Rightarrow> RequestHandle \<Rightarrow> 'f awaiting) list" where
  "queue_helpers = [semaphore, owned_semaphore, mpsc_send, mutex_lock, rwlock_read, rwlock_write]"

text \<open>
  The events a helper has to leave, field by field: from the first poll to the readiness or the
  drop, in wall-clock milliseconds and in microseconds of the collector's run.
\<close>

definition run_us :: "RunClock \<Rightarrow> clock_reading \<Rightarrow> u64" where
  "run_us clock now = duration_to_us (rd_instant_ns now - rc_run_started clock)"

definition stage_between :: "RunClock \<Rightarrow> RequestHandle \<Rightarrow> string \<Rightarrow> clock_reading \<Rightarrow> clock_reading \<Rightarrow> bool option
    \<Rightarrow> StageEvent" where
  "stage_between clock handle label first final ready =
     \<lparr>stg_request_id = rh_request_id handle, stg_stage = label,
      stg_started_at_unix_ms = unix_time_ms first, stg_started_at_run_us = Some (run_us clock first),
      stg_finished_at_unix_ms = unix_time_ms final, stg_finished_at_run_us = Some (run_us clock final),
      stg_latency_us = duration_to_us (rd_instant_ns final - rd_instant_ns first),
      stg_success = (ready = Some True), stg_completed = (ready \<noteq> None)\<rparr>"

definition queue_between :: "RunClock \<Rightarrow> RequestHandle \<Rightarrow> string \<Rightarrow> clock_reading \<Rightarrow> clock_reading \<Rightarrow> bool option
    \<Rightarrow> QueueEvent" where
  "queue_between clock handle label first final ready =
     \<lparr>que_request_id = rh_request_id handle, que_queue = label,
      que_waited_from_unix_ms = unix_time_ms first, que_waited_from_run_us = Some (run_us clock first),
      que_waited_until_unix_ms = unix_time_ms final, que_waited_until_run_us = Some (run_us clock final),
      que_wait_us = duration_to_us (rd_instant_ns final - rd_instant_ns first),
      que_depth_at_start = None, que_completed = (ready \<noteq> None)\<rparr>"

text \<open>
  The run with one more event: it is appended to its section if capture is open and there is
  room, counted as dropped if there is none, and ignored once capture is over.
\<close>

definition run_with_stage :: "('c, 'l) Tailtriage \<Rightarrow> StageEvent \<Rightarrow> Run" where
  "run_with_stage self event =
     (let run = tt_run self; t = run_truncation run
      in if \<not> is_open self then run
         else if length (run_stages run) < max_stages (tt_limits self)
         then run\<lparr>run_stages := run_stages run @ [event]\<rparr>
         else run\<lparr>run_truncation := t\<lparr>tr_limits_hit := True,
                 tr_dropped_stages := saturating_add (tr_dropped_stages t) 1\<rparr>\<rparr>)"

definition run_with_queue :: "('c, 'l) Tailtriage \<Rightarrow> QueueEvent \<Rightarrow> Run" where
  "run_with_queue self event =
     (let run = tt_run self; t = run_truncation run
      in if \<not> is_open self then run
         else if length (run_queues run) < max_queues (tt_limits self)
         then run\<lparr>run_queues := run_queues run @ [event]\<rparr>
         else run\<lparr>run_truncation := t\<lparr>tr_limits_hit := True,
                 tr_dropped_queues := saturating_add (tr_dropped_queues t) 1\<rparr>\<rparr>)"

text \<open>What remains of the collector besides its run, its truncation marks apart.\<close>

definition beside_run where
  "beside_run self = (tt_sink self, tt_mode self, tt_effective_core_config self, tt_limits self,
     tt_run_clock self, tt_strict_lifecycle self, tt_limits_hit_listener self,
     cs_pending_requests (tt_state self), cs_inflight_counts (tt_state self),
     cs_runtime_sampler_registered (tt_state self), cs_phase (tt_state self))"

lemma record_stage_event_run:
  "tt_run (fst (record_stage_event e self)) = run_with_stage self e"
  "beside_run (fst (record_stage_event e self)) = beside_run self"
  by (simp_all add: record_stage_event_def run_with_stage_def push_stage_bounded_def release_after_push_def
      mark_run_limits_hit_def mark_limits_hit_def beside_run_def Let_def)

lemma record_queue_event_run:
  "tt_run (fst (record_queue_event e self)) = run_with_queue self e"
  "beside_run (fst (record_queue_event e self)) = beside_run self"
  by (simp_all add: record_queue_event_def run_with_queue_def push_queue_bounded_def release_after_push_def
      mark_run_limits_hit_def mark_limits_hit_def beside_run_def Let_def)

lemma guard_end_stage:
  "tt_run (fst (guard_end success dropped_at outcome (Some (ArmedStage (rh_request_id handle) label
       (start_interval (tt_run_clock self) first))) self))
     = run_with_stage self (stage_between (tt_run_clock self) handle label first
         (case outcome of Some (now, _) \<Rightarrow> now | None \<Rightarrow> dropped_at) (map_option (\<lambda>(_, v). success v) outcome))"
  "beside_run (fst (guard_end success dropped_at outcome (Some (ArmedStage (rh_request_id handle) label
       (start_interval (tt_run_clock self) first))) self)) = beside_run self"
  by (auto simp: guard_end_def record_stage_event_run Let_def stage_between_def run_us_def stage_new_def
      stage_with_run_interval_def stage_into_partial_def start_interval_def finish_interval_def clock_sample_def
      split: option.split)

lemma guard_end_queue:
  "tt_run (fst (guard_end success dropped_at outcome (Some (ArmedQueue (rh_request_id handle) label None
       (start_interval (tt_run_clock self) first))) self))
     = run_with_queue self (queue_between (tt_run_clock self) handle label first
         (case outcome of Some (now, _) \<Rightarrow> now | None \<Rightarrow> dropped_at) (map_option (\<lambda>(_, v). success v) outcome))"
  "beside_run (fst (guard_end success dropped_at outcome (Some (ArmedQueue (rh_request_id handle) label None
       (start_interval (tt_run_clock self) first))) self)) = beside_run self"
  by (auto simp: guard_end_def record_queue_event_run Let_def queue_between_def run_us_def queue_new_def
      queue_with_run_interval_def queue_into_partial_def start_interval_def finish_interval_def clock_sample_def
      split: option.split)

text \<open>The clock of a collector never changes, so no operation or thread changes it.\<close>

lemma bare_clock:
  assumes "\<And>fut self. tt_run_clock (snd (snd (poll_inner fut self))) = tt_run_clock self"
  shows "tt_run_clock (snd (bare poll_inner polls fut self)) = tt_run_clock self"
proof (induction polls arbitrary: fut self)
  case (Cons p polls)
  obtain now1 now2 where p: "p = (now1, now2)" by (cases p)
  obtain fut' r self' where f: "poll_inner fut self = (fut', r, self')" by (metis prod_cases3)
  then show ?case using assms [of fut self] by (cases r) (simp_all add: p Cons.IH)
qed simp

text \<open>
  What driving a helper has to give: the output of the operation, the given run, and the rest of
  the collector as the operation left it.
\<close>

definition leaves_run :: "('o option \<times> ('c, 'l) Tailtriage \<times> 'l list) option \<Rightarrow> 'o option \<Rightarrow> ('c, 'l) Tailtriage
    \<Rightarrow> Run \<Rightarrow> bool" where
  "leaves_run result v left run = (case result of
       None \<Rightarrow> False
     | Some (v', self, calls) \<Rightarrow> v' = v \<and> tt_run self = run \<and> beside_run self = beside_run left)"

text \<open>
  C32. A helper is transparent and lazy: under any polls followed by a drop it never panics and
  yields what the Tokio operation yields by itself. It records nothing when it was never polled
  or its request was refused. Otherwise the run it leaves is the one the operation left with one
  more event, bounded as every event is: a queue wait for the six acquiring helpers, a stage for
  the others, of the handle's request and the given label, from the first poll to the readiness,
  with the success of the result, or to the drop, partial and unsuccessful.
\<close>

theorem helpers_record_once:
  fixes poll_inner :: "('f, 'o, 'c, 'l) pollable" and fut :: 'f and self :: "('c, 'l) Tailtriage"
    and polls :: "(clock_reading \<times> clock_reading) list" and dropped_at :: clock_reading
    and success :: "'o \<Rightarrow> bool" and handle :: RequestHandle and label :: string
  assumes clock: "\<And>fut self. tt_run_clock (snd (snd (poll_inner fut self))) = tt_run_clock self"
  defines "outcome \<equiv> fst (bare poll_inner polls fut self)" and "left \<equiv> snd (bare poll_inner polls fut self)"
  defines "final \<equiv> case outcome of Some (now, _) \<Rightarrow> now | None \<Rightarrow> dropped_at"
    and "ready \<equiv> map_option (\<lambda>(_, v). success v) outcome"
  defines "waited \<equiv> if polls = [] \<or> \<not> rh_admitted handle then tt_run left
      else run_with_queue left (queue_between (tt_run_clock self) handle label (fst (hd polls)) final ready)"
    and "staged \<equiv> if polls = [] \<or> \<not> rh_admitted handle then tt_run left
      else run_with_stage left (stage_between (tt_run_clock self) handle label (fst (hd polls)) final ready)"
  shows "list_all (\<lambda>helper. leaves_run (drive poll_inner success polls dropped_at (helper label fut handle) self)
      (map_option snd outcome) left waited) queue_helpers \<and>
    leaves_run (drive poll_inner success polls dropped_at (join_task label fut handle) self)
      (map_option snd outcome) left staged \<and>
    list_all (\<lambda>helper. leaves_run (drive (block_poll fut poll_inner) success polls dropped_at (helper label handle) self)
      (map_option snd outcome) left staged) [timeout_stage, blocking_stage]"
proof -
  have c: "tt_run_clock left = tt_run_clock self" unfolding left_def by (rule bare_clock [OF clock])
  let ?first = "fst (hd polls)"
  have arm: "(case polls of [] \<Rightarrow> None | (now1, _) # _ \<Rightarrow> timer_arm (tt_run_clock self) now1 (TimerQueue (handle_queue label handle)))
      = (if polls = [] \<or> \<not> rh_admitted handle then None
         else Some (ArmedQueue (rh_request_id handle) label None (start_interval (tt_run_clock self) ?first)))"
    "(case polls of [] \<Rightarrow> None | (now1, _) # _ \<Rightarrow> timer_arm (tt_run_clock self) now1 (TimerStage (handle_stage label handle)))
      = (if polls = [] \<or> \<not> rh_admitted handle then None
         else Some (ArmedStage (rh_request_id handle) label (start_interval (tt_run_clock self) ?first)))"
    by (cases polls; auto simp: handle_queue_def handle_stage_def)+
  have inert: "guard_end success dropped_at outcome None left = (left, [])" by (simp add: guard_end_def)
  have queue: "leaves_run (drive q success polls dropped_at (AwNew (TimerQueue (handle_queue label handle)) f) self)
      (map_option snd outcome) left waited"
    if "bare q polls f self = (outcome, left)" for q :: "('g, 'o, 'c, 'l) pollable" and f
    unfolding drive_new that arm waited_def leaves_run_def final_def ready_def
    using guard_end_queue [where self = left and success = success and dropped_at = dropped_at and handle = handle
        and label = label and first = ?first and outcome = outcome]
    by (auto simp: inert c split: prod.split)
  have stage: "leaves_run (drive q success polls dropped_at (AwNew (TimerStage (handle_stage label handle)) f) self)
      (map_option snd outcome) left staged"
    if "bare q polls f self = (outcome, left)" for q :: "('g, 'o, 'c, 'l) pollable" and f
    unfolding drive_new that arm staged_def leaves_run_def final_def ready_def
    using guard_end_stage [where self = left and success = success and dropped_at = dropped_at and handle = handle
        and label = label and first = ?first and outcome = outcome]
    by (auto simp: inert c split: prod.split)
  have "bare poll_inner polls fut self = (outcome, left)" by (simp add: outcome_def left_def)
  then show ?thesis
    by (simp add: queue_helpers_def semaphore_def owned_semaphore_def mpsc_send_def mutex_lock_def
        rwlock_read_def rwlock_write_def join_task_def timeout_stage_def blocking_stage_def queue stage bare_block_new)
qed

text \<open>A join of a task that is ready on its second poll, on a fresh collector.\<close>

definition sample_poll :: "(nat, nat, 'c, 'l) pollable" where
  "sample_poll n self = (if n = 0 then (0, Ready 7, self) else (n - 1, Pending, self))"

theorem helpers_record_once_witness:
  "case drive sample_poll (\<lambda>v. v = 7) [(sample_now, sample_now), (sample_now, sample_now)] sample_now
       (join_task ''task'' 1 \<lparr>rh_request_id = ''r'', rh_route = ''/'', rh_kind = None, rh_admitted = True\<rparr>)
       (sy_tt sample_start) of
     None \<Rightarrow> False
   | Some (v, self, calls) \<Rightarrow> v = Some 7
       \<and> map (\<lambda>e. (stg_request_id e, stg_stage e, stg_success e, stg_completed e)) (run_stages (tt_run self))
         = [(''r'', ''task'', True, True)]"
proof -
  have s: "is_open (sy_tt sample_start)" "max_stages (tt_limits (sy_tt sample_start)) = 200000"
    using sample_start_state by simp_all
  have "\<not> is_blank ''svc''"
    by (simp add: is_blank_iff is_whitespace_def white_space_chars_def utf8_cont_def)
  then have empty: "run_stages (tt_run (sy_tt sample_start)) = []"
    by (simp add: sample_start_def sys_init_def sample_collector_def from_config_def sample_config_def
        config_from_builder_def builder_sink_def builder_new_def Let_def collector_state_new_def run_new_def)
  have b: "bare sample_poll [(sample_now, sample_now), (sample_now, sample_now)] 1 (sy_tt sample_start)
      = (Some (sample_now, 7), sy_tt sample_start)"
    by (simp add: sample_poll_def)
  let ?polls = "[(sample_now, sample_now), (sample_now, sample_now)]"
  let ?handle = "\<lparr>rh_request_id = ''r'', rh_route = ''/'', rh_kind = None, rh_admitted = True\<rparr>"
  have "leaves_run (drive sample_poll (\<lambda>v. v = 7) ?polls sample_now (join_task ''task'' 1 ?handle) (sy_tt sample_start))
      (Some 7) (sy_tt sample_start) (run_with_stage (sy_tt sample_start)
        (stage_between (tt_run_clock (sy_tt sample_start)) ?handle ''task'' sample_now sample_now (Some True)))"
    using helpers_record_once [where poll_inner = sample_poll and self = "sy_tt sample_start" and fut = 1
        and success = "\<lambda>v. v = 7" and dropped_at = sample_now and label = "''task''"
        and polls = ?polls and handle = ?handle]
    unfolding b by (simp add: sample_poll_def del: drive.simps)
  then show ?thesis
    by (auto simp: leaves_run_def run_with_stage_def stage_between_def s empty simp del: drive.simps split: option.splits)
qed

end
