(* ===== verification/Spec2Isabelle.thy ===== *)
theory Spec2Isabelle
  imports Ctl_Guarantees Cli_Main Tr_Session Ax_Middleware Tk_Requests
begin

text \<open>
  A verification development of \<^verbatim>\<open>tailtriage\<close>, a toolkit that captures request-level
  evidence in a Rust service, persists it as a run artifact and diagnoses the likely cause of
  tail latency from it.

  \<^bold>\<open>The program and its theories.\<close> A service records requests, stages, queues, in-flight gauges
  and runtime snapshots into a bounded run (crate \<^verbatim>\<open>tailtriage-core\<close>), either directly, or
  through a controller that arms and disarms captures as numbered generations
  (\<^verbatim>\<open>tailtriage-controller\<close>), with a sampler of the Tokio runtime (\<^verbatim>\<open>tailtriage-tokio\<close>). A
  service that is instrumented with tracing spans instead has them recorded, or read from a file,
  and converted into a run (\<^verbatim>\<open>tailtriage-tracing\<close>). The analyzer (\<^verbatim>\<open>tailtriage-analyzer\<close>)
  normalizes a run and ranks suspects. The command line (\<^verbatim>\<open>tailtriage-cli\<close>) imports spans and
  analyzes artifacts, and a middleware (\<^verbatim>\<open>tailtriage-axum\<close>) records HTTP requests.

  \<^item> Shared: \<open>TT_Prelude\<close> (texts, saturating arithmetic, list lemmas), \<open>TT_Order\<close> (comparison
    chains and stable sorting), \<open>TT_Group\<close> (grouping by key in ordered maps).
  \<^item> Core, \<^verbatim>\<open>tailtriage-core/src\<close>: \<open>Core_Model\<close> (\<^verbatim>\<open>events.rs\<close>), \<open>Core_Config\<close>, \<open>Core_Retention\<close>,
    \<open>Core_Time\<close>, \<open>Core_Validation\<close> and \<open>Core_Normalize\<close> (\<^verbatim>\<open>validation.rs\<close>: definitions, then the
    proof that normalization computes a declarative canonical run), \<open>Core_RunBuilder\<close>,
    \<open>Core_Sink\<close>, \<open>Core_Collector\<close> (\<^verbatim>\<open>collector.rs\<close> and \<^verbatim>\<open>timers.rs\<close>: one definition per critical
    section), \<open>Core_Lifecycle\<close> (the captures' interleavings, their invariant and what it gives) and
    \<open>Core_Artifact\<close> (escaping in \<^verbatim>\<open>lib.rs\<close>, decoding in \<^verbatim>\<open>artifact.rs\<close>).
  \<^item> Tokio, \<^verbatim>\<open>tailtriage-tokio/src/lib.rs\<close>: \<open>Tk_Sampler\<close>, and \<open>Tk_Requests\<close> (the request
    helpers and the timers of \<^verbatim>\<open>timers.rs\<close> they await on, driven by polls against the
    collector they record in).
  \<^item> Controller, \<^verbatim>\<open>tailtriage-controller/src/lib.rs\<close>: \<open>Ctl_Config\<close> (templates, configuration,
    artifact paths), \<open>Ctl_Controller\<close> (state and every critical section of every operation),
    \<open>Ctl_Threads\<close> (threads as lists of frames, the step relation \<open>ctl_exec\<close> and \<open>ctl_reachable\<close>),
    \<open>Ctl_Invariant\<close>, \<open>Ctl_Recording\<close> and \<open>Ctl_System\<close> (the invariant, kept by the frames that do
    not and that do touch the run, and by the whole system), \<open>Ctl_Lifecycle\<close> (progress, moves of
    a generation, the lifecycle) and \<open>Ctl_Guarantees\<close> (the properties).
  \<^item> Analyzer, \<^verbatim>\<open>tailtriage-analyzer/src\<close>: \<open>An_Options\<close> and \<open>An_Registry\<close> (\<^verbatim>\<open>options/\<close>),
    \<open>An_Stats\<close>, \<open>An_Evidence\<close>, \<open>An_Suspect\<close>, \<open>An_Signals\<close>, \<open>An_Stages\<close>, \<open>An_Scoring\<close>,
    \<open>An_Downstream\<close>, \<open>An_Confidence\<close>, \<open>An_Report\<close>, \<open>An_Slices\<close>, \<open>An_Routes\<close>, \<open>An_Temporal\<close>,
    \<open>An_Analyze\<close> (the public entry), \<open>An_Toml\<close> (\<^verbatim>\<open>options/toml.rs\<close>) and \<open>An_Render\<close>
    (\<^verbatim>\<open>render.rs\<close>).
  \<^item> Tracing intake, \<^verbatim>\<open>tailtriage-tracing/src\<close>: \<open>Tr_Model\<close> (\<^verbatim>\<open>types.rs\<close>, \<^verbatim>\<open>error.rs\<close>,
    \<^verbatim>\<open>convention.rs\<close>), \<open>Tr_Convert\<close> and \<open>Tr_Import\<close> (\<^verbatim>\<open>lib.rs\<close>: the conversion loop, then provenance
    and the import), \<open>Tr_Intake\<close> and \<open>Tr_Guarantees\<close> (the candidates of a list of spans as a
    reference, and the properties), \<open>Tr_Value\<close> (the JSON shape that the serde
    attributes of \<^verbatim>\<open>types.rs\<close> and the record wrapper of \<^verbatim>\<open>recorder.rs\<close> give a span), \<open>Tr_Recorder\<close> (\<^verbatim>\<open>recorder.rs\<close>: the state of the live recorder
    and its callbacks), \<open>Tr_Snapshot\<close> (statistics, snapshot, shutdown, runtime data),
    \<open>Tr_Retention\<close> (what holds over every sequence of callbacks), \<open>Tr_Jsonl\<close> (\<^verbatim>\<open>jsonl.rs\<close>),
    \<open>Tr_Files\<close> (\<^verbatim>\<open>recorder.rs\<close>: writing completed-span files), \<open>Tr_Replay\<close> (written files read
    back) and \<open>Tr_Session\<close> (\<^verbatim>\<open>recorder.rs\<close>: sessions and their shutdown).
  \<^item> Command line, \<^verbatim>\<open>tailtriage-cli/src\<close>: \<open>Cli_Main\<close>; adapter, \<^verbatim>\<open>tailtriage-axum/src\<close>:
    \<open>Ax_Middleware\<close>.

  \<^bold>\<open>How the code is modelled.\<close> Structs are records and enums datatypes with the source's fields
  and constructors. \<^verbatim>\<open>u64\<close> and \<^verbatim>\<open>u32\<close> values are words with the source's wrapping, saturating and
  checked operations; \<^verbatim>\<open>usize\<close> lengths and limits are naturals, and where a limit meets a counter
  it is assumed to be at most \<open>u64_max\<close>. Ordered maps are sorted association lists. A failing
  operation returns a sum with the error on the left. Clock readings, random identifiers, the
  environment, the JSON encoder, a sink's answer and the file system's are inputs or parameters.
  Code under a mutex is one definition on the state; a thread between two sections is a token, a
  guard or a list of frames; an execution is any sequence of steps. What a system of threads
  records as written (\<open>sy_written\<close>, \<open>cl_written\<close>) is the log of the sink the shutdown is given
  (\<open>logged\<close>). Atomics are sequentially consistent, which the code's orderings of the
  drain check do not guarantee: the lemma that a drained closing generation is finalized, and
  the one that shutdown drains, depend on it and say so, and no property rests on them. Mutex
  poisoning is not modelled.

  \<^bold>\<open>What the lemmas show.\<close> Of the core: bounded retention, the refinement of normalization to its
  specification and its consequences (fixed point, strict acceptance, accounting of
  dispositions), the conservation of admitted requests, that the sink is written once with the
  frozen run, that the listener is called once, atomic replacement of the artifact. Of the
  controller: that every generation's counters, tokens, core phase, finalization result and
  lifecycle agree in every reachable state; that its threads never deadlock and always finish;
  that a generation moves from accepting to draining to its one result; that an
  enabled generation is, to the last field, the one the template asks for; that a shutdown call
  persists the capture as it stands and is terminal. Of the
  analyzer: exact attribution of time (the debug assertion on inverted intervals is left
  out), bounds of shares and scores, well-formed and ranked suspects, confidence caps, partition
  into routes and into segments in the order of time, transactional options. Of the
  tracing intake: an import never panics and yields a bounded, strictly valid run, the canonical
  run of the first candidates of each section; strict mode accepts exactly what permissive mode
  takes over unchanged; the sources an import retains reproduce it, also through a completed-span
  file, which is replaced atomically and read independently of its chunks; the live recorder is
  bounded, keeps the first requests, accounts for every candidate span, and its strict snapshot
  succeeds only when none was lost; a session's shutdown writes exactly the configured files.
  Across the crates: the analyzer's configuration follows the precedence of defaults, file and
  overrides, where the file is the field-by-field overlay \<open>toml_overlay\<close> of its table; what the import command writes, strict analysis accepts; admitting ambiguous
  artifacts only adds warnings where strict analysis succeeds; a rendered report has no line or
  control character that came from the service; the middleware records each HTTP
  request once, and a Tokio helper adds its wait or stage to the run once, partial when it is dropped.

  \<^bold>\<open>Interfaces.\<close> The contract of an operation of a live collector (it keeps the collector's
  invariant, does nothing once closed, calls the listener on the first transition only) is a
  locale, interpreted for each operation of the core; the controller's proofs rest on its
  interpretations. Comparison chains and the groupings of the analyzer have their own.

  \<^bold>\<open>Bounds.\<close> Properties over reachable states of the controller hold while the process has drawn
  at most \<open>2^64 - 1\<close> sequence numbers and enabled fewer generations than that (\<open>ctl_small\<close>); the
  core has the same bound. No definition needs fuel; the work of a thread is bounded by
  \<open>ctl_work\<close>.

  \<^bold>\<open>Not modelled.\<close> The text of JSON and TOML (which value a completed span is written as
  and read from is modelled, and so is every field of the options file) and the classes of HTTP statuses
  (third-party; what they answer is a parameter), the descriptor view of the option registry and
  the help text printed from it, argument parsing, the registration of the layer with a
  \<^verbatim>\<open>tracing\<close> subscriber, the demos and scripts. Of the controller: dropping its last
  clone, and the weak references that then fail to upgrade.
\<close>

end
